(* ===== verification/Prelude.thy ===== *)
theory Prelude
  imports Main "HOL-Library.Word" "HOL-Library.AList"
begin

text \<open>
  The vocabulary shared by all components: bytes and machine integers, the little- and
  big-endian conversions of the Rust standard library (\<open>to_le_bytes\<close>, \<open>from_be_bytes\<close>
  and their kin), results that can also panic, the reader of \<open>std::io::Cursor\<close>, slices
  (\<open>get(i..j)\<close> and the panicking \<open>[i..j]\<close>), and \<open>chunks\<close>.
\<close>

unbundle bit_operations_syntax

named_theorems bytes_simps \<open>byte-level encoding and decoding rules\<close>
named_theorems res_split \<open>case splits of results\<close>

section \<open>Machine integers\<close>

type_synonym byte = "8 word"
type_synonym u16 = "16 word"
type_synonym u32 = "32 word"
type_synonym u64 = "64 word"
type_synonym i32 = "32 word"
type_synonym i64 = "64 word"

text \<open>A Rust \<open>String\<close> is a byte vector that is valid UTF-8; a \<open>[u8; 4]\<close> is a byte list.\<close>

type_synonym rstring = "byte list"

abbreviation rstr :: "string \<Rightarrow> rstring" where
  "rstr s \<equiv> map (\<lambda>c. of_nat (of_char c)) s"

section \<open>Results\<close>

text \<open>\<open>Ok\<close> and \<open>Err\<close> are Rust's \<open>Result\<close>; \<open>Panic\<close> is an unwinding or aborting panic.\<close>

datatype ('a, 'e) res = Ok 'a | Err 'e | Panic

fun rbind :: "('a, 'e) res \<Rightarrow> ('a \<Rightarrow> ('b, 'e) res) \<Rightarrow> ('b, 'e) res" where
  "rbind (Ok a) f = f a"
| "rbind (Err e) f = Err e"
| "rbind Panic f = Panic"

fun rmap :: "('a \<Rightarrow> 'b) \<Rightarrow> ('a, 'e) res \<Rightarrow> ('b, 'e) res" where
  "rmap f (Ok a) = Ok (f a)"
| "rmap f (Err e) = Err e"
| "rmap f Panic = Panic"

definition ok_or :: "'e \<Rightarrow> 'a option \<Rightarrow> ('a, 'e) res" where
  "ok_or e x = (case x of None \<Rightarrow> Err e | Some a \<Rightarrow> Ok a)"

definition is_ok :: "('a, 'e) res \<Rightarrow> bool" where
  "is_ok r \<longleftrightarrow> (case r of Ok _ \<Rightarrow> True | _ \<Rightarrow> False)"

lemma ok_or_simps [simp]: "ok_or e None = Err e" "ok_or e (Some a) = Ok a"
  by (simp_all add: ok_or_def)

lemma is_ok_simps [simp]: "is_ok (Ok a)" "\<not> is_ok (Err e)" "\<not> is_ok Panic"
  by (simp_all add: is_ok_def)

lemma rbind_eq_Ok [simp]: "rbind m f = Ok b \<longleftrightarrow> (\<exists>a. m = Ok a \<and> f a = Ok b)"
  by (cases m) auto

lemma rbind_eq_Panic: "rbind m f = Panic \<longleftrightarrow> m = Panic \<or> (\<exists>a. m = Ok a \<and> f a = Panic)"
  by (cases m) auto

lemma rbind_eq_Err: "rbind m f = Err e \<longleftrightarrow> m = Err e \<or> (\<exists>a. m = Ok a \<and> f a = Err e)"
  by (cases m) auto

lemma ok_or_eq_Ok [simp]: "ok_or e x = Ok a \<longleftrightarrow> x = Some a"
  by (cases x) auto

lemma ok_or_not_Panic [simp]: "ok_or e x \<noteq> Panic"
  by (cases x) auto

lemma rmap_eq [simp]:
  "rmap f m = Panic \<longleftrightarrow> m = Panic"
  "rmap f m = Err e \<longleftrightarrow> m = Err e"
  "rmap f m = Ok b \<longleftrightarrow> (\<exists>a. m = Ok a \<and> b = f a)"
  by (cases m; auto)+

lemma rbind_cong [fundef_cong]:
  "m = m' \<Longrightarrow> (\<And>a. m' = Ok a \<Longrightarrow> f a = f' a) \<Longrightarrow> rbind m f = rbind m' f'"
  by (cases m') auto

section \<open>Little- and big-endian integers\<close>

lemma unat_byte_bound [simp]: "unat (b :: byte) < 256"
  using unsigned_less [of b, where 'a = nat] by simp

lemma unat_u16_bound: "unat (w :: u16) < 2 ^ 16"
  using unsigned_less [of w, where 'a = nat] by simp

lemma unat_u32_bound: "unat (w :: u32) < 2 ^ 32"
  using unsigned_less [of w, where 'a = nat] by simp

lemma unat_u64_bound: "unat (w :: u64) < 2 ^ 64"
  using unsigned_less [of w, where 'a = nat] by simp

primrec nat_le :: "nat \<Rightarrow> nat \<Rightarrow> byte list" where
  "nat_le 0 k = []"
| "nat_le (Suc n) k = of_nat k # nat_le n (k div 256)"

primrec le_nat :: "byte list \<Rightarrow> nat" where
  "le_nat [] = 0"
| "le_nat (b # bs) = unat b + 256 * le_nat bs"

definition to_le_bytes :: "'a::len word \<Rightarrow> byte list" where
  "to_le_bytes w = nat_le (LENGTH('a) div 8) (unat w)"

definition from_le_bytes :: "byte list \<Rightarrow> 'a::len word" where
  "from_le_bytes bs = of_nat (le_nat bs)"

definition to_be_bytes :: "'a::len word \<Rightarrow> byte list" where
  "to_be_bytes w = rev (to_le_bytes w)"

definition from_be_bytes :: "byte list \<Rightarrow> 'a::len word" where
  "from_be_bytes bs = from_le_bytes (rev bs)"

lemma length_nat_le [simp]: "length (nat_le n k) = n"
  by (induction n arbitrary: k) auto

lemma le_nat_nat_le: "le_nat (nat_le n k) = k mod 256 ^ n"
proof (induction n arbitrary: k)
  case 0
  then show ?case by simp
next
  case (Suc n)
  have "k mod 256 + 256 * (k div 256 mod 256 ^ n) = k mod (256 * 256 ^ n)"
    by (simp add: mod_mult2_eq)
  with Suc show ?case by (simp add: unat_of_nat)
qed

lemma le_nat_bound: "le_nat bs < 256 ^ length bs"
proof (induction bs)
  case Nil
  then show ?case by simp
next
  case (Cons b bs)
  have "Suc (le_nat bs) \<le> 256 ^ length bs" using Cons.IH by simp
  then have "256 * Suc (le_nat bs) \<le> 256 * 256 ^ length bs" by (rule mult_le_mono2)
  with unat_byte_bound [of b] show ?case by (simp del: unat_byte_bound)
qed

lemma nat_le_le_nat: "length bs = n \<Longrightarrow> nat_le n (le_nat bs) = bs"
proof (induction bs arbitrary: n)
  case Nil
  then show ?case by simp
next
  case (Cons b bs)
  then obtain m where n: "n = Suc m" "length bs = m" by (cases n) auto
  have b: "unat b < 256" by simp
  have "(unat b + 256 * le_nat bs) div 256 = le_nat bs" using b by simp
  moreover have "(of_nat (unat b + 256 * le_nat bs) :: byte) = b"
  proof -
    have "unat (of_nat (unat b + 256 * le_nat bs) :: byte) = unat b"
      by (simp only: unat_of_nat) simp
    then show ?thesis by (metis word_unat_eq_iff)
  qed
  ultimately show ?case using n Cons.IH by simp
qed

lemma le_nat_append: "le_nat (xs @ ys) = le_nat xs + 256 ^ length xs * le_nat ys"
  by (induction xs) (auto simp: algebra_simps)

lemma length_to_le_bytes [simp]: "length (to_le_bytes (w :: 'a::len word)) = LENGTH('a) div 8"
  by (simp add: to_le_bytes_def)

lemma length_to_be_bytes [simp]: "length (to_be_bytes (w :: 'a::len word)) = LENGTH('a) div 8"
  by (simp add: to_be_bytes_def)

lemma from_to_le_bytes:
  assumes "8 * (LENGTH('a) div 8) = LENGTH('a)"
  shows "from_le_bytes (to_le_bytes (w :: 'a::len word)) = w"
proof -
  have "(256::nat) ^ (LENGTH('a) div 8) = 2 ^ (8 * (LENGTH('a) div 8))"
    by (simp add: power_mult)
  also have "\<dots> = 2 ^ LENGTH('a)" using assms by (rule arg_cong)
  finally have "le_nat (to_le_bytes w) = unat w mod 2 ^ LENGTH('a)"
    by (simp only: to_le_bytes_def le_nat_nat_le)
  then show ?thesis by (simp add: from_le_bytes_def)
qed

lemma from_to_be_bytes:
  "8 * (LENGTH('a) div 8) = LENGTH('a) \<Longrightarrow> from_be_bytes (to_be_bytes (w :: 'a::len word)) = w"
  by (simp add: from_be_bytes_def to_be_bytes_def from_to_le_bytes)

lemma from_to_bytes [simp, bytes_simps]:
  "from_le_bytes (to_le_bytes (a :: byte)) = a" "from_be_bytes (to_be_bytes a) = a"
  "from_le_bytes (to_le_bytes (b :: u16)) = b" "from_be_bytes (to_be_bytes b) = b"
  "from_le_bytes (to_le_bytes (c :: u32)) = c" "from_be_bytes (to_be_bytes c) = c"
  "from_le_bytes (to_le_bytes (d :: u64)) = d" "from_be_bytes (to_be_bytes d) = d"
  by (simp_all add: from_to_le_bytes from_to_be_bytes)

lemma to_from_le_bytes:
  assumes "8 * (LENGTH('a) div 8) = LENGTH('a)" and "length bs = LENGTH('a) div 8"
  shows "to_le_bytes (from_le_bytes bs :: 'a::len word) = bs"
proof -
  have "(256::nat) ^ length bs = 2 ^ (8 * (LENGTH('a) div 8))"
    by (simp add: power_mult assms(2))
  also have "\<dots> = 2 ^ LENGTH('a)" using assms(1) by (rule arg_cong)
  finally have "le_nat bs < 2 ^ LENGTH('a)" using le_nat_bound [of bs] by simp
  then have "unat (from_le_bytes bs :: 'a word) = le_nat bs"
    by (simp add: from_le_bytes_def unat_of_nat)
  then show ?thesis using assms(2) by (simp add: to_le_bytes_def nat_le_le_nat)
qed

lemma to_from_be_bytes:
  assumes "8 * (LENGTH('a) div 8) = LENGTH('a)" and "length bs = LENGTH('a) div 8"
  shows "to_be_bytes (from_be_bytes bs :: 'a::len word) = bs"
  using to_from_le_bytes [of "rev bs", where 'a = 'a] assms
  by (simp add: to_be_bytes_def from_be_bytes_def)

lemma unat_of_nat_u16 [bytes_simps]: "n < 2 ^ 16 \<Longrightarrow> unat (of_nat n :: u16) = n"
  by (simp add: unat_of_nat)
lemma unat_of_nat_u32 [bytes_simps]: "n < 2 ^ 32 \<Longrightarrow> unat (of_nat n :: u32) = n"
  by (simp add: unat_of_nat)
lemma unat_of_nat_u64 [bytes_simps]: "n < 2 ^ 64 \<Longrightarrow> unat (of_nat n :: u64) = n"
  by (simp add: unat_of_nat)
lemma unat_of_nat_u8 [bytes_simps]: "n < 256 \<Longrightarrow> unat (of_nat n :: byte) = n"
  by (simp add: unat_of_nat)

lemma nat_le_split: "nat_le (m + n) k = nat_le m k @ nat_le n (k div 256 ^ m)"
  by (induction m arbitrary: k) (simp_all add: div_mult2_eq)

lemma nat_le_2: "nat_le 2 n = [of_nat n, of_nat (n div 256)]"
proof -
  have "nat_le 2 n = nat_le (Suc (Suc 0)) n" by (rule arg_cong) simp
  then show ?thesis by simp
qed

lemma nat_le_3: "nat_le 3 n = [of_nat n, of_nat (n div 256), of_nat (n div 256 div 256)]"
proof -
  have "nat_le 3 n = nat_le (Suc (Suc (Suc 0))) n" by (rule arg_cong) simp
  then show ?thesis by (simp del: div_mult2_eq)
qed

lemma nat_le_4:
  "nat_le 4 n = nat_le 3 n @ [of_nat (n div 256 div 256 div 256)]"
proof -
  have "nat_le 4 n = nat_le (Suc (Suc (Suc (Suc 0)))) n" by (rule arg_cong) simp
  then show ?thesis by (simp add: nat_le_3)
qed


section \<open>Slices and cursors\<close>

text \<open>
  \<open>get_range i j bs\<close> is \<open>bs.get(i..j)\<close>; \<open>index_range\<close> is \<open>&bs[i..j]\<close>, which panics when the
  range is reversed or runs past the end; \<open>byte_at\<close> is \<open>bs[i]\<close>.
\<close>

definition get_range :: "nat \<Rightarrow> nat \<Rightarrow> 'a list \<Rightarrow> 'a list option" where
  "get_range i j bs = (if i \<le> j \<and> j \<le> length bs then Some (take (j - i) (drop i bs)) else None)"

definition index_range :: "nat \<Rightarrow> nat \<Rightarrow> 'a list \<Rightarrow> ('a list, 'e) res" where
  "index_range i j bs = (if i \<le> j \<and> j \<le> length bs then Ok (take (j - i) (drop i bs)) else Panic)"

definition get_at :: "nat \<Rightarrow> 'a list \<Rightarrow> 'a option" where
  "get_at i bs = (if i < length bs then Some (bs ! i) else None)"

definition byte_at :: "nat \<Rightarrow> 'a list \<Rightarrow> ('a, 'e) res" where
  "byte_at i bs = (if i < length bs then Ok (bs ! i) else Panic)"

text \<open>Bytes \<open>i .. i + n\<close> of a buffer known to hold them.\<close>

definition sub :: "nat \<Rightarrow> nat \<Rightarrow> 'a list \<Rightarrow> 'a list" where
  "sub i n bs = take n (drop i bs)"

lemma get_range_Some: "get_range i j bs = Some xs \<longleftrightarrow> i \<le> j \<and> j \<le> length bs \<and> xs = sub i (j - i) bs"
  by (auto simp: get_range_def sub_def)

lemma length_sub [simp]: "i + n \<le> length bs \<Longrightarrow> length (sub i n bs) = n"
  by (simp add: sub_def)

lemma sub_append1 [simp]: "i + n \<le> length xs \<Longrightarrow> sub i n (xs @ ys) = sub i n xs"
  by (simp add: sub_def)

lemma sub_append2 [simp]: "length xs \<le> i \<Longrightarrow> sub i n (xs @ ys) = sub (i - length xs) n ys"
  by (simp add: sub_def)

lemma sub_0 [simp]: "length bs = n \<Longrightarrow> sub 0 n bs = bs"
  by (simp add: sub_def)

lemma sub_Cons [simp]: "sub (Suc i) n (b # bs) = sub i n bs"
  by (simp add: sub_def)

text \<open>
  A \<open>std::io::Cursor\<close> over a slice is the list of the bytes it has not consumed yet:
  \<open>read_exact\<close> takes a prefix or fails with the end-of-file error, \<open>consume\<close> moves on without
  a check (a position past the end reads as empty).
\<close>

definition read_exact :: "'e \<Rightarrow> nat \<Rightarrow> byte list \<Rightarrow> (byte list \<times> byte list, 'e) res" where
  "read_exact eof n bs = (if n \<le> length bs then Ok (take n bs, drop n bs) else Err eof)"

definition read_le :: "'e \<Rightarrow> byte list \<Rightarrow> ('a::len word \<times> byte list, 'e) res" where
  "read_le eof bs =
     rbind (read_exact eof (LENGTH('a) div 8) bs) (\<lambda>(x, r). Ok (from_le_bytes x, r))"

lemma read_exact_append [simp]: "length xs = n \<Longrightarrow> read_exact eof n (xs @ ys) = Ok (xs, ys)"
  by (simp add: read_exact_def)

lemma read_exact_Ok:
  "read_exact eof n bs = Ok (x, r) \<longleftrightarrow> n \<le> length bs \<and> x = take n bs \<and> r = drop n bs"
  by (auto simp: read_exact_def)

lemma read_exact_not_Panic [simp]: "read_exact eof n bs \<noteq> Panic"
  by (simp add: read_exact_def)

lemma read_le_Ok_length:
  "read_le eof bs = Ok (w :: 'a::len word, r) \<Longrightarrow> length bs = LENGTH('a) div 8 + length r"
  by (auto simp: read_le_def read_exact_Ok split: prod.splits)

lemma read_le_Ok:
  "read_le eof bs = Ok (w :: 'a::len word, r) \<longleftrightarrow>
     LENGTH('a) div 8 \<le> length bs \<and> w = from_le_bytes (take (LENGTH('a) div 8) bs) \<and>
     r = drop (LENGTH('a) div 8) bs"
  by (auto simp: read_le_def read_exact_Ok split: prod.splits)

lemma read_le_not_Panic [simp]: "read_le eof bs \<noteq> Panic"
  by (auto simp: read_le_def rbind_eq_Panic split: prod.splits)

lemma read_le_append [simp, bytes_simps]:
  "read_le eof (to_le_bytes (b :: u16) @ ys) = Ok (b, ys)"
  "read_le eof (to_le_bytes (c :: u32) @ ys) = Ok (c, ys)"
  "read_le eof (to_le_bytes (d :: u64) @ ys) = Ok (d, ys)"
  by (simp_all add: read_le_def)

text \<open>\<open>slice::chunks(n)\<close>: pieces of \<open>n\<close> elements, the last one possibly shorter.\<close>

function chunks :: "nat \<Rightarrow> 'a list \<Rightarrow> 'a list list" where
  "chunks n xs = (if xs = [] \<or> n = 0 then [] else take n xs # chunks n (drop n xs))"
  by pat_completeness auto
termination
  by (relation "measure (\<lambda>(n, xs). length xs)") auto

declare chunks.simps [simp del]

lemma chunks_Nil [simp]: "chunks n [] = []"
  by (simp add: chunks.simps)

lemma concat_chunks [simp]: "0 < n \<Longrightarrow> concat (chunks n xs) = xs"
proof (induction n xs rule: chunks.induct)
  case (1 n xs)
  then show ?case by (cases "xs = []") (auto simp: chunks.simps [of n xs])
qed

lemma chunks_length: "c \<in> set (chunks n xs) \<Longrightarrow> 0 < length c \<and> length c \<le> n"
proof (induction n xs rule: chunks.induct)
  case (1 n xs)
  then show ?case by (cases "xs = [] \<or> n = 0") (auto simp: chunks.simps [of n xs])
qed

lemma chunks_eq_Nil [simp]: "0 < n \<Longrightarrow> chunks n xs = [] \<longleftrightarrow> xs = []"
  by (simp add: chunks.simps)

end
