(* ===== verification/Utf8.thy ===== *)
theory Utf8
  imports Prelude
begin

text \<open>
  UTF-8 as the Rust standard library reads it: \<open>str::from_utf8\<close>, which rejects overlong forms,
  surrogates and code points past U+10FFFF, and \<open>String::from_utf8_lossy\<close>, which replaces every
  maximal ill-formed piece by U+FFFD. Both run over \<open>utf8_step\<close>, one round of the loop they
  share. \<open>CString::from_vec_with_nul\<close> and \<open>str::parse\<close> for integers are here too.
\<close>

section \<open>One step\<close>

definition is_cont :: "byte \<Rightarrow> bool" where
  "is_cont b \<longleftrightarrow> b AND 0xC0 = 0x80"

text \<open>A byte past the end reads as 0, which is no continuation byte (\<open>safe_get\<close> in core).\<close>

definition safe_get :: "byte list \<Rightarrow> nat \<Rightarrow> byte" where
  "safe_get bs i = (if i < length bs then bs ! i else 0)"

definition second3 :: "byte \<Rightarrow> byte \<Rightarrow> bool" where
  "second3 b0 b1 \<longleftrightarrow>
     (b0 = 0xE0 \<and> 0xA0 \<le> b1 \<and> b1 \<le> 0xBF) \<or>
     (0xE1 \<le> b0 \<and> b0 \<le> 0xEC \<and> 0x80 \<le> b1 \<and> b1 \<le> 0xBF) \<or>
     (b0 = 0xED \<and> 0x80 \<le> b1 \<and> b1 \<le> 0x9F) \<or>
     (0xEE \<le> b0 \<and> b0 \<le> 0xEF \<and> 0x80 \<le> b1 \<and> b1 \<le> 0xBF)"

definition second4 :: "byte \<Rightarrow> byte \<Rightarrow> bool" where
  "second4 b0 b1 \<longleftrightarrow>
     (b0 = 0xF0 \<and> 0x90 \<le> b1 \<and> b1 \<le> 0xBF) \<or>
     (0xF1 \<le> b0 \<and> b0 \<le> 0xF3 \<and> 0x80 \<le> b1 \<and> b1 \<le> 0xBF) \<or>
     (b0 = 0xF4 \<and> 0x80 \<le> b1 \<and> b1 \<le> 0x8F)"

text \<open>
  \<open>(True, n)\<close>: the input starts with a well-formed character of \<open>n\<close> bytes; \<open>(False, n)\<close>: its
  first \<open>n\<close> bytes are a maximal ill-formed piece.
\<close>

definition utf8_char_width :: "byte \<Rightarrow> nat" where
  "utf8_char_width b =
    (if b < 0x80 then 1 else if 0xC2 \<le> b \<and> b \<le> 0xDF then 2
     else if 0xE0 \<le> b \<and> b \<le> 0xEF then 3 else if 0xF0 \<le> b \<and> b \<le> 0xF4 then 4 else 0)"

fun utf8_step :: "byte list \<Rightarrow> bool \<times> nat" where
  "utf8_step [] = (False, 1)"
| "utf8_step (b0 # bs) =
    (if utf8_char_width b0 = 1 then (True, 1)
     else if utf8_char_width b0 = 2 then
       (if is_cont (safe_get bs 0) then (True, 2) else (False, 1))
     else if utf8_char_width b0 = 3 then
       (if \<not> second3 b0 (safe_get bs 0) then (False, 1)
        else if \<not> is_cont (safe_get bs 1) then (False, 2) else (True, 3))
     else if utf8_char_width b0 = 4 then
       (if \<not> second4 b0 (safe_get bs 0) then (False, 1)
        else if \<not> is_cont (safe_get bs 1) then (False, 2)
        else if \<not> is_cont (safe_get bs 2) then (False, 3) else (True, 4))
     else (False, 1))"

lemma utf8_step_pos: "0 < snd (utf8_step bs)"
  by (cases bs) auto

lemma utf8_step_pos' [simp]: "utf8_step bs = (v, n) \<Longrightarrow> 0 < n" "(v, n) = utf8_step bs \<Longrightarrow> 0 < n"
  using utf8_step_pos [of bs] by (cases "utf8_step bs"; simp)+

lemma is_cont_safe_get: "is_cont (safe_get bs i) \<Longrightarrow> i < length bs"
  by (auto simp: safe_get_def is_cont_def split: if_splits)

lemma second3_safe_get: "second3 b (safe_get bs i) \<Longrightarrow> i < length bs"
  by (auto simp: safe_get_def second3_def split: if_splits)

lemma second4_safe_get: "second4 b (safe_get bs i) \<Longrightarrow> i < length bs"
  by (auto simp: safe_get_def second4_def split: if_splits)

lemma utf8_step_le: "utf8_step bs = (v, n) \<Longrightarrow> bs \<noteq> [] \<Longrightarrow> n \<le> length bs"
  by (cases bs)
    (auto split: if_splits
       dest!: is_cont_safe_get second3_safe_get second4_safe_get Suc_leI simp: numeral_eq_Suc)

lemma safe_get_append: "i < length bs \<Longrightarrow> safe_get (bs @ ys) i = safe_get bs i"
  by (simp add: safe_get_def nth_append)

lemma utf8_step_append:
  assumes "utf8_step bs = (True, n)" and "bs \<noteq> []"
  shows "utf8_step (bs @ ys) = (True, n)"
proof -
  obtain b r where bs: "bs = b # r" using assms(2) by (cases bs) auto
  have "n \<le> Suc (length r)" using utf8_step_le [OF assms] bs by simp
  then have "i + 1 < n \<Longrightarrow> safe_get (r @ ys) i = safe_get r i" for i by (simp add: safe_get_append)
  then show ?thesis using assms(1) bs by (simp split: if_splits)
qed

section \<open>Validation and lossy decoding\<close>

function utf8_valid :: "byte list \<Rightarrow> bool" where
  "utf8_valid bs =
    (if bs = [] then True
     else (case utf8_step bs of (v, n) \<Rightarrow> v \<and> utf8_valid (drop n bs)))"
  by pat_completeness auto
termination
  by (relation "measure length") (auto dest: utf8_step_pos')

definition replacement_char :: "byte list" where
  "replacement_char = [0xEF, 0xBF, 0xBD]"

function utf8_lossy :: "byte list \<Rightarrow> byte list" where
  "utf8_lossy bs =
    (if bs = [] then []
     else (case utf8_step bs of (v, n) \<Rightarrow>
       (if v then take n bs else replacement_char) @ utf8_lossy (drop n bs)))"
  by pat_completeness auto
termination
  by (relation "measure length") (auto dest: utf8_step_pos')

declare utf8_valid.simps [simp del] utf8_lossy.simps [simp del]

lemma utf8_valid_Nil [simp]: "utf8_valid []"
  by (simp add: utf8_valid.simps)

lemma utf8_valid_ascii: "b < 0x80 \<Longrightarrow> utf8_valid (b # bs) \<longleftrightarrow> utf8_valid bs"
  by (simp add: utf8_char_width_def utf8_valid.simps [of "b # bs"])

lemma utf8_valid_all_ascii: "\<forall>b \<in> set bs. b < 0x80 \<Longrightarrow> utf8_valid bs"
  by (induction bs) (auto simp: utf8_valid_ascii)

lemma utf8_valid_append: "utf8_valid xs \<Longrightarrow> utf8_valid (xs @ ys) \<longleftrightarrow> utf8_valid ys"
proof (induction xs rule: utf8_valid.induct)
  case (1 xs)
  show ?case
  proof (cases "xs = []")
    case False
    obtain v n where st: "utf8_step xs = (v, n)" by (cases "utf8_step xs")
    with False "1.prems" have v: "v" "utf8_valid (drop n xs)"
      by (simp_all add: utf8_valid.simps [of xs])
    have n: "n \<le> length xs" using st False by (rule utf8_step_le)
    have "utf8_step (xs @ ys) = (True, n)" using st v False by (simp add: utf8_step_append)
    with False n have "utf8_valid (xs @ ys) \<longleftrightarrow> utf8_valid (drop n xs @ ys)"
      by (simp add: utf8_valid.simps [of "xs @ ys"])
    also have "\<dots> \<longleftrightarrow> utf8_valid ys"
      using "1.IH" False st v by auto
    finally show ?thesis .
  qed simp
qed

lemma utf8_lossy_valid_id: "utf8_valid bs \<Longrightarrow> utf8_lossy bs = bs"
proof (induction bs rule: utf8_valid.induct)
  case (1 bs)
  obtain v n where "utf8_step bs = (v, n)" by (cases "utf8_step bs")
  with 1 show ?case
    by (cases "bs = []") (simp_all add: utf8_valid.simps [of bs] utf8_lossy.simps)
qed

lemma utf8_step_take: "utf8_step bs = (True, n) \<Longrightarrow> bs \<noteq> [] \<Longrightarrow> utf8_step (take n bs) = (True, n)"
proof (cases bs)
  case (Cons b r)
  assume st: "utf8_step bs = (True, n)" and "bs \<noteq> []"
  then obtain m where n: "n = Suc m" using utf8_step_pos' (1) [OF st] by (cases n) auto
  have sg: "i < m \<Longrightarrow> safe_get (take m r) i = safe_get r i" for i
    by (auto simp: safe_get_def)
  show ?thesis using st Cons n sg [of 0] sg [of 1] sg [of 2]
    by (auto split: if_splits)
qed simp

lemma utf8_lossy_valid: "utf8_valid (utf8_lossy bs)"
proof (induction bs rule: utf8_lossy.induct)
  case (1 bs)
  show ?case
  proof (cases "bs = []")
    case False
    obtain v n where st: "utf8_step bs = (v, n)" by (cases "utf8_step bs")
    have IH: "utf8_valid (utf8_lossy (drop n bs))" using 1 False st by auto
    have "utf8_valid (if v then take n bs else replacement_char)"
    proof (cases v)
      case True
      with st False have "utf8_step (take n bs) = (True, n)" by (simp add: utf8_step_take)
      with True show ?thesis by (simp add: utf8_valid.simps [of "take n bs"])
    next
      case False
      have "utf8_valid replacement_char" by code_simp
      with False show ?thesis by simp
    qed
    with IH False st show ?thesis
      by (simp add: utf8_lossy.simps [of bs] utf8_valid_append)
  qed (simp add: utf8_lossy.simps)
qed

section \<open>C strings and decimal integers\<close>

text \<open>
  \<open>CString::from_vec_with_nul(v).ok().and_then(|x| x.to_str().ok())\<close>: the vector must hold
  exactly one NUL, at its end, and the bytes before it must be UTF-8.
\<close>

definition cstring_of_nul :: "byte list \<Rightarrow> rstring option" where
  "cstring_of_nul v =
    (if v \<noteq> [] \<and> last v = 0 \<and> 0 \<notin> set (butlast v) \<and> utf8_valid (butlast v)
     then Some (butlast v) else None)"

definition no_nul :: "byte list \<Rightarrow> bool" where
  "no_nul s \<longleftrightarrow> 0 \<notin> set s"

lemma cstring_of_nul_snoc [simp]:
  "cstring_of_nul (s @ [0]) = (if no_nul s \<and> utf8_valid s then Some s else None)"
  by (auto simp: cstring_of_nul_def no_nul_def)

definition is_digit :: "byte \<Rightarrow> bool" where
  "is_digit b \<longleftrightarrow> 0x30 \<le> b \<and> b \<le> 0x39"

primrec digits_val :: "nat \<Rightarrow> byte list \<Rightarrow> nat" where
  "digits_val acc [] = acc"
| "digits_val acc (d # ds) = digits_val (10 * acc + (unat d - 48)) ds"

text \<open>
  \<open>str::parse::<u64>\<close> and \<open>parse::<i64>\<close>: an optional sign (a minus only for the signed type),
  at least one digit, only digits, and a value the type can hold.
\<close>

definition parse_unsigned :: "nat \<Rightarrow> byte list \<Rightarrow> nat option" where
  "parse_unsigned bits s =
    (let ds = (case s of [] \<Rightarrow> [] | c # r \<Rightarrow> if c = 0x2B then r else s)
     in if ds \<noteq> [] \<and> list_all is_digit ds \<and> digits_val 0 ds < 2 ^ bits
        then Some (digits_val 0 ds) else None)"

definition parse_signed :: "nat \<Rightarrow> byte list \<Rightarrow> int option" where
  "parse_signed bits s =
    (let (neg, ds) = (case s of [] \<Rightarrow> (False, [])
                      | c # r \<Rightarrow> if c = 0x2D then (True, r) else if c = 0x2B then (False, r)
                                else (False, s));
         v = int (digits_val 0 ds); k = (if neg then - v else v)
     in if ds \<noteq> [] \<and> list_all is_digit ds \<and> - (2 ^ (bits - 1)) \<le> k \<and> k < 2 ^ (bits - 1)
        then Some k else None)"

end
