(* ===== verification/Texts.thy ===== *)
theory Texts
  imports Utf8
begin

text \<open>
  The functions of \<open>str\<close> and \<open>char\<close> the clients parse with: characters, white space, splitting, trimming, case and
  hexadecimal numbers. A text is its UTF-8 bytes; an ASCII byte in it is a character.
\<close>

text \<open>The characters of a valid UTF-8 text.\<close>

function utf8_chars :: "byte list \<Rightarrow> byte list list" where
  "utf8_chars bs =
    (if bs = [] then [] else let n = snd (utf8_step bs) in take n bs # utf8_chars (drop n bs))"
  by pat_completeness auto
termination utf8_chars
  by (relation "measure length") (simp_all add: Let_def utf8_step_pos)

declare utf8_chars.simps [simp del]

definition ascii_alphanumeric :: "byte \<Rightarrow> bool" where
  "ascii_alphanumeric b \<longleftrightarrow>
    (0x30 \<le> b \<and> b \<le> 0x39) \<or> (0x41 \<le> b \<and> b \<le> 0x5A) \<or> (0x61 \<le> b \<and> b \<le> 0x7A)"

text \<open>\<open>char::is_whitespace\<close>: the property White\_Space, by its code points in UTF-8.\<close>

definition char_whitespace :: "byte list \<Rightarrow> bool" where
  "char_whitespace c \<longleftrightarrow>
    (case c of
       [a] \<Rightarrow> (9 \<le> a \<and> a \<le> 13) \<or> a = 32
     | [a, b] \<Rightarrow> a = 0xC2 \<and> (b = 0x85 \<or> b = 0xA0)
     | [a, b, d] \<Rightarrow>
         (a = 0xE1 \<and> b = 0x9A \<and> d = 0x80) \<or>
         (a = 0xE2 \<and> b = 0x80 \<and> (0x80 \<le> d \<and> d \<le> 0x8A \<or> d = 0xA8 \<or> d = 0xA9 \<or> d = 0xAF)) \<or>
         (a = 0xE2 \<and> b = 0x81 \<and> d = 0x9F) \<or> (a = 0xE3 \<and> b = 0x80 \<and> d = 0x80)
     | _ \<Rightarrow> False)"

text \<open>\<open>split_whitespace\<close>: the maximal runs of characters that are no white space.\<close>

fun words_of :: "byte list list \<Rightarrow> byte list \<Rightarrow> rstring list" where
  "words_of [] w = (if w = [] then [] else [w])"
| "words_of (c # cs) w =
    (if char_whitespace c then (if w = [] then words_of cs [] else w # words_of cs [])
     else words_of cs (w @ c))"

text \<open>\<open>str::split\<close> keeps empty parts.\<close>

fun split_on :: "byte \<Rightarrow> byte list \<Rightarrow> byte list list" where
  "split_on d [] = [[]]"
| "split_on d (b # bs) =
    (if b = d then [] # split_on d bs
     else case split_on d bs of p # ps \<Rightarrow> (b # p) # ps | [] \<Rightarrow> [[b]])"

definition split_once :: "byte \<Rightarrow> byte list \<Rightarrow> (byte list \<times> byte list) option" where
  "split_once d s = (if d \<in> set s then Some (takeWhile (\<lambda>b. b \<noteq> d) s, tl (dropWhile (\<lambda>b. b \<noteq> d) s)) else None)"

definition rsplit_once :: "byte \<Rightarrow> byte list \<Rightarrow> (byte list \<times> byte list) option" where
  "rsplit_once d s = map_option (\<lambda>(a, b). (rev b, rev a)) (split_once d (rev s))"

definition strip_prefix :: "byte list \<Rightarrow> byte list \<Rightarrow> byte list option" where
  "strip_prefix p s = (if take (length p) s = p then Some (drop (length p) s) else None)"

definition trim_text :: "byte list \<Rightarrow> byte list" where
  "trim_text s = concat (rev (dropWhile char_whitespace (rev (dropWhile char_whitespace (utf8_chars s)))))"

definition ascii_lower :: "byte \<Rightarrow> byte" where
  "ascii_lower b = (if 0x41 \<le> b \<and> b \<le> 0x5A then b + 32 else b)"

definition eq_ignore_ascii_case :: "byte list \<Rightarrow> byte list \<Rightarrow> bool" where
  "eq_ignore_ascii_case a b \<longleftrightarrow> map ascii_lower a = map ascii_lower b"

definition hex_value :: "byte \<Rightarrow> nat option" where
  "hex_value b =
    (if 0x30 \<le> b \<and> b \<le> 0x39 then Some (unat b - 48)
     else if 0x61 \<le> b \<and> b \<le> 0x66 then Some (unat b - 87)
     else if 0x41 \<le> b \<and> b \<le> 0x46 then Some (unat b - 55) else None)"

text \<open>\<open>from_str_radix(_, 16)\<close> of an unsigned type: one plus sign, then digits, at least one, and no overflow.\<close>

definition parse_hex :: "nat \<Rightarrow> byte list \<Rightarrow> nat option" where
  "parse_hex bits s =
    (let ds = (case s of [] \<Rightarrow> [] | c # r \<Rightarrow> if c = 0x2B then r else s);
         v = foldl (\<lambda>n d. 16 * n + (case hex_value d of Some x \<Rightarrow> x | None \<Rightarrow> 0)) 0 ds
     in if ds \<noteq> [] \<and> list_all (\<lambda>d. hex_value d \<noteq> None) ds \<and> v < 2 ^ bits then Some v else None)"

end
