(* ===== verification/Codec.thy ===== *)
theory Codec
  imports Utf8
begin

text \<open>
  The contract the wire formats share, as locales: a \<open>prefix_codec\<close> is an encoder and a decoder
  that reads back what the encoder wrote and leaves the rest of the input alone, and a
  \<open>strict_codec\<close> also consumes input with every value. The lemmas proved here once (unique
  decoding, prefix freedom, decoding of a concatenation) hold for every format that
  interprets them. The insertion-ordered map of \<open>IndexMap\<close> and \<open>plist::Dictionary\<close> is at the end.
\<close>

section \<open>Sequences of encoded values\<close>

text \<open>\<open>dec_seq\<close> is the loop \<open>for _ in 0..n { out.push(decode(cursor)?) }\<close>.\<close>

primrec dec_seq :: "(byte list \<Rightarrow> ('a \<times> byte list, 'e) res) \<Rightarrow> nat \<Rightarrow> byte list \<Rightarrow>
    ('a list \<times> byte list, 'e) res" where
  "dec_seq dec 0 bs = Ok ([], bs)"
| "dec_seq dec (Suc n) bs =
     rbind (dec bs) (\<lambda>(x, r). rmap (\<lambda>(xs, r'). (x # xs, r')) (dec_seq dec n r))"

locale prefix_codec =
  fixes enc :: "'a \<Rightarrow> byte list"
    and dec :: "byte list \<Rightarrow> ('a \<times> byte list, 'e) res"
    and wf :: "'a \<Rightarrow> bool"
  assumes dec_enc: "wf x \<Longrightarrow> dec (enc x @ rest) = Ok (x, rest)"
begin

lemma prefix_free:
  assumes "wf x" and "wf y" and "enc x @ r = enc y @ s"
  shows "x = y \<and> r = s"
proof -
  have "Ok (x, r) = dec (enc x @ r)" by (rule dec_enc [OF assms(1), symmetric])
  also have "\<dots> = dec (enc y @ s)" by (rule arg_cong [OF assms(3)])
  also have "\<dots> = Ok (y, s)" by (rule dec_enc [OF assms(2)])
  finally show ?thesis by simp
qed

lemma enc_inj: "wf x \<Longrightarrow> wf y \<Longrightarrow> enc x = enc y \<Longrightarrow> x = y"
  using prefix_free [of x y "[]" "[]"] by simp

lemma dec_concat:
  "\<forall>x \<in> set xs. wf x \<Longrightarrow> dec_seq dec (length xs) (concat (map enc xs) @ rest) = Ok (xs, rest)"
  by (induction xs) (auto simp: dec_enc)

lemma concat_inj:
  assumes "\<forall>x \<in> set xs. wf x" and "\<forall>y \<in> set ys. wf y" and "length xs = length ys"
    and "concat (map enc xs) = concat (map enc ys)"
  shows "xs = ys"
  using dec_concat [OF assms(1), of "[]"] dec_concat [OF assms(2), of "[]"] assms(3,4) by simp

end

locale strict_codec = prefix_codec +
  assumes dec_shorter: "dec bs = Ok (x, r) \<Longrightarrow> length r < length bs"
begin

lemma enc_nonempty: "wf x \<Longrightarrow> enc x \<noteq> []"
  using dec_shorter [of "enc x" x "[]"] dec_enc [of x "[]"] by auto

lemma dec_seq_shorter: "dec_seq dec n bs = Ok (xs, r) \<Longrightarrow> n + length r \<le> length bs"
proof (induction n arbitrary: bs xs)
  case 0
  then show ?case by simp
next
  case (Suc n)
  then obtain x s where x: "dec bs = Ok (x, s)" and
    "rmap (\<lambda>(xs, r'). (x # xs, r')) (dec_seq dec n s) = Ok (xs, r)" by (auto split: prod.splits)
  then obtain ys where "dec_seq dec n s = Ok (ys, r)" by (cases "dec_seq dec n s") auto
  from Suc.IH [OF this] dec_shorter [OF x] show ?case by simp
qed

text \<open>A stream of encoded values is cut in one way only, whatever the number of values.\<close>

lemma stream_unique:
  "\<forall>x \<in> set xs. wf x \<Longrightarrow> \<forall>y \<in> set ys. wf y \<Longrightarrow>
   concat (map enc xs) = concat (map enc ys) \<Longrightarrow> xs = ys"
proof (induction xs arbitrary: ys)
  case Nil
  then show ?case by (cases ys) (auto dest: enc_nonempty)
next
  case (Cons x xs)
  show ?case
  proof (cases ys)
    case Nil
    with Cons.prems show ?thesis by (auto dest: enc_nonempty)
  next
    case (Cons y ys')
    have "wf x" and "wf y" using Cons Cons.prems by simp_all
    moreover have "enc x @ concat (map enc xs) = enc y @ concat (map enc ys')"
      using Cons Cons.prems(3) by (simp only: list.map concat.simps)
    ultimately have eq: "x = y \<and> concat (map enc xs) = concat (map enc ys')"
      by (rule prefix_free)
    have "xs = ys'"
    proof (rule Cons.IH)
      show "\<forall>x \<in> set xs. wf x" using Cons.prems(1) by simp
      show "\<forall>y \<in> set ys'. wf y" using Cons.prems(2) Cons by simp
      show "concat (map enc xs) = concat (map enc ys')" using eq ..
    qed
    with Cons eq show ?thesis by simp
  qed
qed

end

text \<open>The fixed-width integers are codecs.\<close>

interpretation le_u16: strict_codec "to_le_bytes :: u16 \<Rightarrow> byte list" "read_le ()" "\<lambda>_. True"
  by unfold_locales (auto dest: read_le_Ok_length)

interpretation le_u32: strict_codec "to_le_bytes :: u32 \<Rightarrow> byte list" "read_le ()" "\<lambda>_. True"
  by unfold_locales (auto dest: read_le_Ok_length)

interpretation le_u64: strict_codec "to_le_bytes :: u64 \<Rightarrow> byte list" "read_le ()" "\<lambda>_. True"
  by unfold_locales (auto dest: read_le_Ok_length)

section \<open>The insertion-ordered map\<close>

text \<open>
  \<open>IndexMap\<close> and \<open>plist::Dictionary\<close> are maps of other crates that iterate in insertion order. A map
  is the list of its entries in that order, and the insertion is a parameter of the functions
  that build maps. The locale states what the code relies on, as \<open>IndexMap::insert\<close> documents it:
  a new key goes to the end, a known key keeps its place and takes the new value.
\<close>

locale insertion_map =
  fixes ins :: "'k \<Rightarrow> 'v \<Rightarrow> ('k \<times> 'v) list \<Rightarrow> ('k \<times> 'v) list"
  assumes ins_new: "k \<notin> fst ` set m \<Longrightarrow> ins k v m = m @ [(k, v)]"
    and ins_known: "k \<in> fst ` set m \<Longrightarrow> map fst (ins k v m) = map fst m"
    and ins_values: "set (ins k v m) \<subseteq> insert (k, v) (set m)"
begin

lemma ins_keys: "fst ` set (ins k v m) = insert k (fst ` set m)"
proof (cases "k \<in> fst ` set m")
  case True
  then have "set (map fst (ins k v m)) = set (map fst m)" by (simp only: ins_known)
  with True show ?thesis by auto
next
  case False
  then show ?thesis by (simp add: ins_new)
qed

lemma ins_distinct: "distinct (map fst m) \<Longrightarrow> distinct (map fst (ins k v m))"
  by (cases "k \<in> fst ` set m") (simp_all add: ins_known ins_new)

lemma ins_length: "length (ins k v m) \<le> Suc (length m)"
proof (cases "k \<in> fst ` set m")
  case True
  then have "length (map fst (ins k v m)) = length (map fst m)" by (simp only: ins_known)
  then show ?thesis by simp
next
  case False
  then show ?thesis by (simp add: ins_new)
qed

end

definition map_insert :: "'k \<Rightarrow> 'v \<Rightarrow> ('k \<times> 'v) list \<Rightarrow> ('k \<times> 'v) list" where
  "map_insert k v m = AList.update k v m"

lemma map_insert_new: "k \<notin> fst ` set m \<Longrightarrow> map_insert k v m = m @ [(k, v)]"
  unfolding map_insert_def by (induction m) auto

lemma map_insert_known: "k \<in> fst ` set m \<Longrightarrow> map fst (map_insert k v m) = map fst m"
  unfolding map_insert_def by (induction m) auto

lemma map_insert_values: "set (map_insert k v m) \<subseteq> insert (k, v) (set m)"
  unfolding map_insert_def by (induction m) auto

interpretation alist_map: insertion_map map_insert
  by unfold_locales (simp_all add: map_insert_new map_insert_known map_insert_values)

end
