(* ===== verification/Errors.thy ===== *)
theory Errors
  imports Codec
begin

text \<open>
  The error enums of the crate (\<open>IdeviceError\<close> in lib.rs and the sub-enums of its services) with
  the two numbers C callers see: \<open>code\<close>, the category, and \<open>sub_code\<close>, the variant inside a
  category. A variant that wraps an error of a third-party crate keeps no payload here. Free text
  that a variant carries is a list of characters; where the code formats numbers into it, the
  components of the development use a structured error type of their own instead.
\<close>

section \<open>Service errors\<close>

text \<open>services/afc/errors.rs\<close>

datatype (plugins only: code) afc_error =
    AfcSuccess | AfcUnknownError | AfcOpHeaderInvalid | AfcNoResources | AfcReadError |
    AfcWriteError | AfcUnknownPacketType | AfcInvalidArg | AfcObjectNotFound |
    AfcObjectIsDir | AfcPermDenied | AfcServiceNotConnected | AfcOpTimeout | AfcTooMuchData
    | AfcEndOfData | AfcOpNotSupported | AfcObjectExists | AfcObjectBusy | AfcNoSpaceLeft |
    AfcOpWouldBlock | AfcIoError | AfcOpInterrupted | AfcOpInProgress | AfcInternalError |
    AfcMuxError | AfcNoMem | AfcNotEnoughData | AfcDirNotEmpty | AfcUnknownOpcode |
    AfcInvalidMagic | AfcMissingAttribute

primrec afc_discriminant :: "afc_error \<Rightarrow> nat" where
  "afc_discriminant AfcSuccess = 0"
| "afc_discriminant AfcUnknownError = 1"
| "afc_discriminant AfcOpHeaderInvalid = 2"
| "afc_discriminant AfcNoResources = 3"
| "afc_discriminant AfcReadError = 4"
| "afc_discriminant AfcWriteError = 5"
| "afc_discriminant AfcUnknownPacketType = 6"
| "afc_discriminant AfcInvalidArg = 7"
| "afc_discriminant AfcObjectNotFound = 8"
| "afc_discriminant AfcObjectIsDir = 9"
| "afc_discriminant AfcPermDenied = 10"
| "afc_discriminant AfcServiceNotConnected = 11"
| "afc_discriminant AfcOpTimeout = 12"
| "afc_discriminant AfcTooMuchData = 13"
| "afc_discriminant AfcEndOfData = 14"
| "afc_discriminant AfcOpNotSupported = 15"
| "afc_discriminant AfcObjectExists = 16"
| "afc_discriminant AfcObjectBusy = 17"
| "afc_discriminant AfcNoSpaceLeft = 18"
| "afc_discriminant AfcOpWouldBlock = 19"
| "afc_discriminant AfcIoError = 20"
| "afc_discriminant AfcOpInterrupted = 21"
| "afc_discriminant AfcOpInProgress = 22"
| "afc_discriminant AfcInternalError = 23"
| "afc_discriminant AfcMuxError = 30"
| "afc_discriminant AfcNoMem = 31"
| "afc_discriminant AfcNotEnoughData = 32"
| "afc_discriminant AfcDirNotEmpty = 33"
| "afc_discriminant AfcUnknownOpcode = 34"
| "afc_discriminant AfcInvalidMagic = 35"
| "afc_discriminant AfcMissingAttribute = 36"

definition afc_error_from :: "u64 \<Rightarrow> afc_error" where
  "afc_error_from value =
    (if value = 0 then AfcSuccess
     else if value = 1 then AfcUnknownError
     else if value = 2 then AfcOpHeaderInvalid
     else if value = 3 then AfcNoResources
     else if value = 4 then AfcReadError
     else if value = 5 then AfcWriteError
     else if value = 6 then AfcUnknownPacketType
     else if value = 7 then AfcInvalidArg
     else if value = 8 then AfcObjectNotFound
     else if value = 9 then AfcObjectIsDir
     else if value = 10 then AfcPermDenied
     else if value = 11 then AfcServiceNotConnected
     else if value = 12 then AfcOpTimeout
     else if value = 13 then AfcTooMuchData
     else if value = 14 then AfcEndOfData
     else if value = 15 then AfcOpNotSupported
     else if value = 16 then AfcObjectExists
     else if value = 17 then AfcObjectBusy
     else if value = 18 then AfcNoSpaceLeft
     else if value = 19 then AfcOpWouldBlock
     else if value = 20 then AfcIoError
     else if value = 21 then AfcOpInterrupted
     else if value = 22 then AfcOpInProgress
     else if value = 23 then AfcInternalError
     else if value = 30 then AfcMuxError
     else if value = 31 then AfcNoMem
     else if value = 32 then AfcNotEnoughData
     else if value = 33 then AfcDirNotEmpty
     else if value = 34 then AfcUnknownOpcode
     else if value = 35 then AfcInvalidMagic
     else if value = 36 then AfcMissingAttribute
     else AfcUnknownError)"

primrec afc_sub_code :: "afc_error \<Rightarrow> int" where
  "afc_sub_code AfcSuccess = 0"
| "afc_sub_code AfcUnknownError = 1"
| "afc_sub_code AfcOpHeaderInvalid = 2"
| "afc_sub_code AfcNoResources = 3"
| "afc_sub_code AfcReadError = 4"
| "afc_sub_code AfcWriteError = 5"
| "afc_sub_code AfcUnknownPacketType = 6"
| "afc_sub_code AfcInvalidArg = 7"
| "afc_sub_code AfcObjectNotFound = 8"
| "afc_sub_code AfcObjectIsDir = 9"
| "afc_sub_code AfcPermDenied = 10"
| "afc_sub_code AfcServiceNotConnected = 11"
| "afc_sub_code AfcOpTimeout = 12"
| "afc_sub_code AfcTooMuchData = 13"
| "afc_sub_code AfcEndOfData = 14"
| "afc_sub_code AfcOpNotSupported = 15"
| "afc_sub_code AfcObjectExists = 16"
| "afc_sub_code AfcObjectBusy = 17"
| "afc_sub_code AfcNoSpaceLeft = 18"
| "afc_sub_code AfcOpWouldBlock = 19"
| "afc_sub_code AfcIoError = 20"
| "afc_sub_code AfcOpInterrupted = 21"
| "afc_sub_code AfcOpInProgress = 22"
| "afc_sub_code AfcInternalError = 23"
| "afc_sub_code AfcMuxError = 24"
| "afc_sub_code AfcNoMem = 25"
| "afc_sub_code AfcNotEnoughData = 26"
| "afc_sub_code AfcDirNotEmpty = 27"
| "afc_sub_code AfcUnknownOpcode = 28"
| "afc_sub_code AfcInvalidMagic = 29"
| "afc_sub_code AfcMissingAttribute = 30"

primrec afc_description :: "afc_error \<Rightarrow> string" where
  "afc_description AfcSuccess = ''Success''"
| "afc_description AfcUnknownError = ''Unknown error''"
| "afc_description AfcOpHeaderInvalid = ''Operation header invalid''"
| "afc_description AfcNoResources = ''No resources available''"
| "afc_description AfcReadError = ''Read error''"
| "afc_description AfcWriteError = ''Write error''"
| "afc_description AfcUnknownPacketType = ''Unknown packet type''"
| "afc_description AfcInvalidArg = ''Invalid argument''"
| "afc_description AfcObjectNotFound = ''Object not found''"
| "afc_description AfcObjectIsDir = ''Object is a directory''"
| "afc_description AfcPermDenied = ''Permission denied''"
| "afc_description AfcServiceNotConnected = ''Service not connected''"
| "afc_description AfcOpTimeout = ''Operation timed out''"
| "afc_description AfcTooMuchData = ''Too much data''"
| "afc_description AfcEndOfData = ''End of data''"
| "afc_description AfcOpNotSupported = ''Operation not supported''"
| "afc_description AfcObjectExists = ''Object already exists''"
| "afc_description AfcObjectBusy = ''Object is busy''"
| "afc_description AfcNoSpaceLeft = ''No space left''"
| "afc_description AfcOpWouldBlock = ''Operation would block''"
| "afc_description AfcIoError = ''I/O error''"
| "afc_description AfcOpInterrupted = ''Operation interrupted''"
| "afc_description AfcOpInProgress = ''Operation in progress''"
| "afc_description AfcInternalError = ''Internal error''"
| "afc_description AfcMuxError = ''Multiplexer error''"
| "afc_description AfcNoMem = ''Out of memory''"
| "afc_description AfcNotEnoughData = ''Not enough data''"
| "afc_description AfcDirNotEmpty = ''Directory not empty''"
| "afc_description AfcUnknownOpcode = ''Unknown AFC opcode''"
| "afc_description AfcInvalidMagic = ''Invalid AFC magic''"
| "afc_description AfcMissingAttribute = ''Missing file attribute''"

text \<open>lib.rs\<close>

datatype cdtunnel_error =
    PacketTooShort | CdInvalidMagic | SizeMismatch

primrec cdtunnel_sub_code :: "cdtunnel_error \<Rightarrow> int" where
  "cdtunnel_sub_code PacketTooShort = 1"
| "cdtunnel_sub_code CdInvalidMagic = 2"
| "cdtunnel_sub_code SizeMismatch = 3"

text \<open>lib.rs\<close>

datatype heartbeat_error =
    SleepyTime | HeartbeatTimeout

primrec heartbeat_sub_code :: "heartbeat_error \<Rightarrow> int" where
  "heartbeat_sub_code SleepyTime = 1"
| "heartbeat_sub_code HeartbeatTimeout = 2"

text \<open>xpc/errors.rs\<close>

datatype xpc_error =
    UnknownFrame byte | UnknownHttpSetting u16 | UninitializedStreamId | UnknownXpcType u32
    | MalformedXpc | InvalidXpcMagic | UnexpectedXpcVersion | InvalidCString |
    HttpStreamReset | HttpGoAway rstring

primrec xpc_sub_code :: "xpc_error \<Rightarrow> int" where
  "xpc_sub_code (UnknownFrame _) = 1"
| "xpc_sub_code (UnknownHttpSetting _) = 2"
| "xpc_sub_code UninitializedStreamId = 3"
| "xpc_sub_code (UnknownXpcType _) = 4"
| "xpc_sub_code MalformedXpc = 5"
| "xpc_sub_code InvalidXpcMagic = 6"
| "xpc_sub_code UnexpectedXpcVersion = 7"
| "xpc_sub_code InvalidCString = 8"
| "xpc_sub_code HttpStreamReset = 9"
| "xpc_sub_code (HttpGoAway _) = 10"

text \<open>usbmuxd/errors.rs\<close>

datatype usbmuxd_error =
    ConnectionRefused | BadCommand | BadDevice | BadVersion | UsbMissingField string |
    UnexpectedFieldType string | UnknownMessageType rstring

primrec usbmuxd_sub_code :: "usbmuxd_error \<Rightarrow> int" where
  "usbmuxd_sub_code ConnectionRefused = 1"
| "usbmuxd_sub_code BadCommand = 2"
| "usbmuxd_sub_code BadDevice = 3"
| "usbmuxd_sub_code BadVersion = 4"
| "usbmuxd_sub_code (UsbMissingField _) = 5"
| "usbmuxd_sub_code (UnexpectedFieldType _) = 6"
| "usbmuxd_sub_code (UnknownMessageType _) = 7"

text \<open>remote_pairing/errors.rs\<close>

datatype remote_pairing_error =
    UnknownTlv byte | MalformedTlv | PairingRejected rstring | Base64DecodeError |
    PairVerifyFailed | SrpAuthFailed | ChachaEncryption

primrec remote_pairing_sub_code :: "remote_pairing_error \<Rightarrow> int" where
  "remote_pairing_sub_code (UnknownTlv _) = 1"
| "remote_pairing_sub_code MalformedTlv = 2"
| "remote_pairing_sub_code (PairingRejected _) = 3"
| "remote_pairing_sub_code Base64DecodeError = 4"
| "remote_pairing_sub_code PairVerifyFailed = 5"
| "remote_pairing_sub_code SrpAuthFailed = 6"
| "remote_pairing_sub_code ChachaEncryption = 7"

text \<open>services/dvt/errors.rs\<close>

datatype dvt_error =
    NsKeyedArchiveError | UnknownAuxValueType u32 | UnknownChannel u32 |
    DisableMemoryLimitFailed | InvalidXCTestRunnerEnvironment rstring

primrec dvt_sub_code :: "dvt_error \<Rightarrow> int" where
  "dvt_sub_code NsKeyedArchiveError = 1"
| "dvt_sub_code (UnknownAuxValueType _) = 2"
| "dvt_sub_code (UnknownChannel _) = 3"
| "dvt_sub_code DisableMemoryLimitFailed = 4"
| "dvt_sub_code (InvalidXCTestRunnerEnvironment _) = 5"

text \<open>services/installation_proxy.rs\<close>

datatype installation_proxy_error =
    OperationFailed rstring | MalformedPackageArchive

primrec installation_proxy_sub_code :: "installation_proxy_error \<Rightarrow> int" where
  "installation_proxy_sub_code (OperationFailed _) = 1"
| "installation_proxy_sub_code MalformedPackageArchive = 2"

text \<open>services/core_device/errors.rs\<close>

datatype core_device_error =
    DeviceError rstring | CoreMissingField string | MalformedField string | Negotiation
    rstring | TooManyTouchscreenContacts nat | InvalidTouchscreenContactIdentity byte |
    DuplicateTouchscreenContactIdentity byte | NoTouchscreenContacts | CoreInvalidArgument
    string

primrec core_device_sub_code :: "core_device_error \<Rightarrow> int" where
  "core_device_sub_code (DeviceError _) = 1"
| "core_device_sub_code (CoreMissingField _) = 2"
| "core_device_sub_code (MalformedField _) = 3"
| "core_device_sub_code (Negotiation _) = 4"
| "core_device_sub_code (TooManyTouchscreenContacts _) = 5"
| "core_device_sub_code (InvalidTouchscreenContactIdentity _) = 6"
| "core_device_sub_code (DuplicateTouchscreenContactIdentity _) = 7"
| "core_device_sub_code NoTouchscreenContacts = 8"
| "core_device_sub_code (CoreInvalidArgument _) = 9"

text \<open>services/cryptexd/errors.rs\<close>

datatype cryptexd_error =
    RoutineFailed rstring rstring | CryptexMissingField string | MalformedNonce nat |
    BadDdiBundle rstring

primrec cryptexd_sub_code :: "cryptexd_error \<Rightarrow> int" where
  "cryptexd_sub_code (RoutineFailed _ _) = 1"
| "cryptexd_sub_code (CryptexMissingField _) = 2"
| "cryptexd_sub_code (MalformedNonce _) = 3"
| "cryptexd_sub_code (BadDdiBundle _) = 4"

text \<open>services/restore/errors.rs\<close>

datatype restore_error =
    ComponentNotFound rstring | Ipsw string | Img4 string | Baseband string |
    BasebandRejected rstring | Asr string | NoFilesystemImage | DataPortConnect u16 |
    Recovery string | Stashbag string | TssResponse string | RestoreMissingField string |
    RestoredCrashed | DeviceReported int rstring | Unsupported string | Cancelled |
    RestoreOther rstring

primrec restore_sub_code :: "restore_error \<Rightarrow> int" where
  "restore_sub_code (ComponentNotFound _) = 1"
| "restore_sub_code (Ipsw _) = 2"
| "restore_sub_code (Img4 _) = 3"
| "restore_sub_code (Baseband _) = 4"
| "restore_sub_code (BasebandRejected _) = 5"
| "restore_sub_code (Asr _) = 6"
| "restore_sub_code NoFilesystemImage = 7"
| "restore_sub_code (DataPortConnect _) = 8"
| "restore_sub_code (Recovery _) = 9"
| "restore_sub_code (Stashbag _) = 10"
| "restore_sub_code (TssResponse _) = 11"
| "restore_sub_code (RestoreMissingField _) = 12"
| "restore_sub_code RestoredCrashed = 13"
| "restore_sub_code (DeviceReported _ _) = 14"
| "restore_sub_code (Unsupported _) = 15"
| "restore_sub_code Cancelled = 17"
| "restore_sub_code (RestoreOther _) = 16"

section \<open>The top-level error\<close>

text \<open>Of \<open>std::io::Error\<close> only its kind matters to the code.\<close>

datatype io_error = UnexpectedEof | WriteZero | OtherIo


text \<open>lib.rs; \<open>Utf8Err\<close> is the variant \<open>Utf8\<close>.\<close>

datatype (plugins only: code) idevice_error =
    Socket io_error | PemParseFailed | Rustls | TlsBuilderFailed | Timeout | Plist | Utf8Err
    | Utf8Error | Json | AddrParseError | NotEnoughBytes nat nat | IntegerOverflow | Http
    rstring | UnexpectedResponse string | GetProhibited | UnknownErrorType rstring |
    InternalError rstring | SessionInactive | InvalidHostID | NoEstablishedConnection |
    NotFound | ServiceNotFound | DeviceNotFound | DeviceLocked | DeveloperModeNotEnabled |
    UnsupportedWatchKey | MalformedCommand | CanceledByUser | BadBuildManifest |
    ImageNotMounted | PairingDialogResponsePending | UserDeniedPairing | PasswordProtected |
    FfiInvalidArg | FfiInvalidString | FfiBufferTooSmall nat nat | InvalidArgument |
    Heartbeat heartbeat_error | CdTunnel cdtunnel_error | Usbmuxd usbmuxd_error |
    RemotePairing remote_pairing_error | Xpc xpc_error | Dvt dvt_error | Afc afc_error |
    InstallationProxy installation_proxy_error | CoreDevice core_device_error | Cryptexd
    cryptexd_error | MisagentFailure | CrashReportMoverBadResponse "byte list" |
    NotificationProxyDeath | ApplicationVerificationFailed rstring | AppNotInstalled |
    TestRunnerTimeout | TestRunnerDisconnected | XcTestTimeout u64 | Restore restore_error

primrec error_code :: "idevice_error \<Rightarrow> int" where
  "error_code (Socket _) = 1"
| "error_code PemParseFailed = 2"
| "error_code Rustls = 3"
| "error_code TlsBuilderFailed = 4"
| "error_code Timeout = 109"
| "error_code Plist = 5"
| "error_code Utf8Err = 6"
| "error_code Utf8Error = 7"
| "error_code Json = 8"
| "error_code AddrParseError = 9"
| "error_code (NotEnoughBytes _ _) = 10"
| "error_code IntegerOverflow = 11"
| "error_code (Http _) = 12"
| "error_code (UnexpectedResponse _) = 13"
| "error_code GetProhibited = 14"
| "error_code (UnknownErrorType _) = 15"
| "error_code (InternalError _) = 16"
| "error_code SessionInactive = 17"
| "error_code InvalidHostID = 18"
| "error_code NoEstablishedConnection = 19"
| "error_code NotFound = 20"
| "error_code ServiceNotFound = 21"
| "error_code DeviceNotFound = 22"
| "error_code DeviceLocked = 23"
| "error_code DeveloperModeNotEnabled = 24"
| "error_code UnsupportedWatchKey = 25"
| "error_code MalformedCommand = 26"
| "error_code CanceledByUser = 27"
| "error_code BadBuildManifest = 28"
| "error_code ImageNotMounted = 29"
| "error_code PairingDialogResponsePending = 30"
| "error_code UserDeniedPairing = 31"
| "error_code PasswordProtected = 32"
| "error_code FfiInvalidArg = 33"
| "error_code FfiInvalidString = 34"
| "error_code (FfiBufferTooSmall _ _) = 35"
| "error_code InvalidArgument = 36"
| "error_code (Heartbeat _) = 100"
| "error_code (CdTunnel _) = 101"
| "error_code (Usbmuxd _) = 102"
| "error_code (RemotePairing _) = 103"
| "error_code (Xpc _) = 104"
| "error_code (Dvt _) = 105"
| "error_code (Afc _) = 106"
| "error_code (InstallationProxy _) = 107"
| "error_code (CoreDevice _) = 108"
| "error_code (Cryptexd _) = 110"
| "error_code MisagentFailure = 200"
| "error_code (CrashReportMoverBadResponse _) = 201"
| "error_code NotificationProxyDeath = 202"
| "error_code (ApplicationVerificationFailed _) = 203"
| "error_code AppNotInstalled = 204"
| "error_code TestRunnerTimeout = 205"
| "error_code TestRunnerDisconnected = 206"
| "error_code (XcTestTimeout _) = 207"
| "error_code (Restore _) = 208"

definition error_sub_code :: "idevice_error \<Rightarrow> int" where
  "error_sub_code e =
    (case e of
       Heartbeat x \<Rightarrow> heartbeat_sub_code x
     | CdTunnel x \<Rightarrow> cdtunnel_sub_code x
     | Usbmuxd x \<Rightarrow> usbmuxd_sub_code x
     | RemotePairing x \<Rightarrow> remote_pairing_sub_code x
     | Xpc x \<Rightarrow> xpc_sub_code x
     | Dvt x \<Rightarrow> dvt_sub_code x
     | Afc x \<Rightarrow> afc_sub_code x
     | InstallationProxy x \<Rightarrow> installation_proxy_sub_code x
     | CoreDevice x \<Rightarrow> core_device_sub_code x
     | Cryptexd x \<Rightarrow> cryptexd_sub_code x
     | Restore x \<Rightarrow> restore_sub_code x
     | _ \<Rightarrow> 0)"

abbreviation eof :: idevice_error where
  "eof \<equiv> Socket UnexpectedEof"

section \<open>What C callers can rely on\<close>

text \<open>
  The conversion from a wire status to \<open>AfcError\<close> inverts the discriminants of the enum: each
  of the 31 variants is produced by its own number, and any other number gives \<open>UnknownError\<close>.
\<close>

theorem afc_error_from_discriminant:
  "afc_error_from (of_nat (afc_discriminant e)) = e \<and>
   (afc_error_from v = AfcUnknownError \<or> v = of_nat (afc_discriminant (afc_error_from v)))"
proof
  show "afc_error_from (of_nat (afc_discriminant e)) = e"
    by (cases e) (simp_all add: afc_error_from_def)
  show "afc_error_from v = AfcUnknownError \<or> v = of_nat (afc_discriminant (afc_error_from v))"
    by (simp add: afc_error_from_def)
qed

text \<open>
  What the C interface reports is never mistaken for success: every error has a positive code,
  and the sub-code is positive exactly for the errors that wrap one of a subsystem (an AFC status of success aside).
\<close>

theorem error_codes_positive:
  "0 < error_code e \<and>
   (error_sub_code e = 0 \<longleftrightarrow>
     \<not> (case e of CdTunnel _ \<Rightarrow> True | Heartbeat _ \<Rightarrow> True | Xpc _ \<Rightarrow> True | Usbmuxd _ \<Rightarrow> True
          | RemotePairing _ \<Rightarrow> True | Dvt _ \<Rightarrow> True | Afc a \<Rightarrow> a \<noteq> AfcSuccess | InstallationProxy _ \<Rightarrow> True
          | CoreDevice _ \<Rightarrow> True | Cryptexd _ \<Rightarrow> True | Restore _ \<Rightarrow> True | _ \<Rightarrow> False))"
proof -
  have [simp]: "afc_sub_code a = 0 \<longleftrightarrow> a = AfcSuccess" for a by (cases a) simp_all
  have [simp]: "cdtunnel_sub_code x \<noteq> 0" for x by (cases x) simp_all
  have [simp]: "heartbeat_sub_code x \<noteq> 0" for x by (cases x) simp_all
  have [simp]: "xpc_sub_code x \<noteq> 0" for x by (cases x) simp_all
  have [simp]: "usbmuxd_sub_code x \<noteq> 0" for x by (cases x) simp_all
  have [simp]: "remote_pairing_sub_code x \<noteq> 0" for x by (cases x) simp_all
  have [simp]: "dvt_sub_code x \<noteq> 0" for x by (cases x) simp_all
  have [simp]: "installation_proxy_sub_code x \<noteq> 0" for x by (cases x) simp_all
  have [simp]: "core_device_sub_code x \<noteq> 0" for x by (cases x) simp_all
  have [simp]: "cryptexd_sub_code x \<noteq> 0" for x by (cases x) simp_all
  have [simp]: "restore_sub_code x \<noteq> 0" for x by (cases x) simp_all
  show ?thesis by (cases e) (simp_all add: error_sub_code_def)
qed

end
