(* ===== verification/Plist.thy ===== *)
theory Plist
  imports Errors
begin

text \<open>
  The values of the \<open>plist\<close> crate as the code under src/ matches on them: one constructor per
  variant the code names. A dictionary is the list of its entries in iteration order; an integer
  is one the crate can hold (an \<open>i64\<close> or a \<open>u64\<close>); a real is its 64 bits; a date its nanoseconds
  since the Unix epoch.
\<close>

datatype plist_value =
    PArray "plist_value list"
  | PDictionary "(rstring \<times> plist_value) list"
  | PBoolean bool
  | PData "byte list"
  | PDate int
  | PReal u64
  | PInteger int
  | PString rstring
  | PUid u64

type_synonym plist_dict = "(rstring \<times> plist_value) list"

text \<open>\<open>Integer::as_unsigned\<close> and \<open>Integer::as_signed\<close>\<close>

definition as_unsigned :: "int \<Rightarrow> u64 option" where
  "as_unsigned i = (if 0 \<le> i \<and> i < 2 ^ 64 then Some (word_of_int i) else None)"

definition as_signed :: "int \<Rightarrow> i64 option" where
  "as_signed i = (if - (2 ^ 63) \<le> i \<and> i < 2 ^ 63 then Some (word_of_int i) else None)"

definition plist_as_string :: "plist_value \<Rightarrow> rstring option" where
  "plist_as_string v = (case v of PString s \<Rightarrow> Some s | _ \<Rightarrow> None)"

definition plist_as_boolean :: "plist_value \<Rightarrow> bool option" where
  "plist_as_boolean v = (case v of PBoolean b \<Rightarrow> Some b | _ \<Rightarrow> None)"

definition plist_as_dictionary :: "plist_value \<Rightarrow> plist_dict option" where
  "plist_as_dictionary v = (case v of PDictionary d \<Rightarrow> Some d | _ \<Rightarrow> None)"

definition plist_as_unsigned_integer :: "plist_value \<Rightarrow> u64 option" where
  "plist_as_unsigned_integer v = (case v of PInteger i \<Rightarrow> as_unsigned i | _ \<Rightarrow> None)"

definition plist_as_signed_integer :: "plist_value \<Rightarrow> i64 option" where
  "plist_as_signed_integer v = (case v of PInteger i \<Rightarrow> as_signed i | _ \<Rightarrow> None)"

definition plist_as_array :: "plist_value \<Rightarrow> plist_value list option" where
  "plist_as_array v = (case v of PArray a \<Rightarrow> Some a | _ \<Rightarrow> None)"

definition plist_as_data :: "plist_value \<Rightarrow> byte list option" where
  "plist_as_data v = (case v of PData d \<Rightarrow> Some d | _ \<Rightarrow> None)"

lemma as_unsigned_Some: "as_unsigned i = Some w \<longleftrightarrow> 0 \<le> i \<and> i < 2 ^ 64 \<and> i = uint w"
proof
  assume "as_unsigned i = Some w"
  then show "0 \<le> i \<and> i < 2 ^ 64 \<and> i = uint w"
    by (auto simp: as_unsigned_def uint_word_of_int split: if_splits)
next
  assume "0 \<le> i \<and> i < 2 ^ 64 \<and> i = uint w"
  then show "as_unsigned i = Some w" by (simp add: as_unsigned_def)
qed

lemma as_unsigned_uint [simp]: "as_unsigned (uint (w :: u64)) = Some w"
  using uint_lt2p [of w] by (simp add: as_unsigned_Some)

end
