(* ===== verification/Transport.thy ===== *)
theory Transport
  imports Errors
begin

text \<open>
  The effects the clients share. An action takes the state and returns a result together with the
  state it leaves, on the error paths too. The transport is the byte stream of \<open>ReadWrite\<close>
  (\<open>AsyncRead + AsyncWrite\<close>): \<open>tp_in\<close> holds what the coming reads find, one entry per arrival, and
  the peer has closed when nothing is left; \<open>tp_out\<close> holds the completed writes in order;
  \<open>tp_budget\<close> says how many writes and flushes still succeed (\<open>None\<close>: all of them). A read
  that waits for ever and a future dropped half-way are not modelled.
\<close>

section \<open>Actions\<close>

type_synonym ('s, 'a) act = "'s \<Rightarrow> ('a, idevice_error) res \<times> 's"

definition act_ok :: "'a \<Rightarrow> ('s, 'a) act" where
  "act_ok a s = (Ok a, s)"

definition act_err :: "idevice_error \<Rightarrow> ('s, 'a) act" where
  "act_err e s = (Err e, s)"

definition act_res :: "('a, idevice_error) res \<Rightarrow> ('s, 'a) act" where
  "act_res r s = (r, s)"

definition act_bind :: "('s, 'a) act \<Rightarrow> ('a \<Rightarrow> ('s, 'b) act) \<Rightarrow> ('s, 'b) act" where
  "act_bind m f s =
    (case m s of (r, s') \<Rightarrow>
      (case r of Ok a \<Rightarrow> f a s' | Err e \<Rightarrow> (Err e, s') | Panic \<Rightarrow> (Panic, s')))"

definition act_upd :: "('s \<Rightarrow> 's) \<Rightarrow> ('s, unit) act" where
  "act_upd f s = (Ok (), f s)"

lemma act_bind_cong [fundef_cong]:
  "m s = m' s' \<Longrightarrow> (\<And>a t. m' s' = (Ok a, t) \<Longrightarrow> f a t = f' a t) \<Longrightarrow>
   act_bind m f s = act_bind m' f' s'"
  by (simp add: act_bind_def split: prod.split res.split)

lemma act_bind_Ok:
  "act_bind m f s = (Ok b, t) \<longleftrightarrow> (\<exists>a u. m s = (Ok a, u) \<and> f a u = (Ok b, t))"
  by (auto simp: act_bind_def split: prod.splits res.splits)

lemma act_bind_step [simp]: "m s = (Ok a, u) \<Longrightarrow> act_bind m f s = f a u"
  by (simp add: act_bind_def)

lemma act_simps [simp]:
  "act_ok a s = (Ok a, s)" "act_err e s = (Err e, s)" "act_res r s = (r, s)"
  "act_upd f s = (Ok (), f s)"
  by (simp_all add: act_ok_def act_err_def act_res_def act_upd_def)

text \<open>
  \<open>keeps I m\<close>: whatever the result, the action leads from a state in \<open>I\<close> to a state in \<open>I\<close>.
\<close>

definition keeps :: "('s \<Rightarrow> bool) \<Rightarrow> ('s, 'a) act \<Rightarrow> bool" where
  "keeps I m \<longleftrightarrow> (\<forall>s. I s \<longrightarrow> I (snd (m s)))"

named_theorems keeps_intro \<open>rules for invariants of actions\<close>

lemma keepsI: "(\<And>s. I s \<Longrightarrow> I (snd (m s))) \<Longrightarrow> keeps I m"
  by (simp add: keeps_def)

lemma keepsD: "keeps I m \<Longrightarrow> I s \<Longrightarrow> I (snd (m s))"
  by (simp add: keeps_def)

lemma keeps_pure [keeps_intro]:
  "keeps I (act_ok a)" "keeps I (act_err e)" "keeps I (act_res r)"
  by (simp_all add: keeps_def)

lemma keeps_bind [keeps_intro]:
  "keeps I m \<Longrightarrow> (\<And>a. keeps I (f a)) \<Longrightarrow> keeps I (act_bind m f)"
  unfolding keeps_def act_bind_def
  by (force split: prod.splits res.splits)

lemma keeps_upd [keeps_intro]: "(\<And>s. I s \<Longrightarrow> I (f s)) \<Longrightarrow> keeps I (act_upd f)"
  by (simp add: keeps_def)

definition no_panic :: "('s, 'a) act \<Rightarrow> bool" where
  "no_panic m \<longleftrightarrow> (\<forall>s. fst (m s) \<noteq> Panic)"

lemma no_panicD: "no_panic m \<Longrightarrow> m s = (r, t) \<Longrightarrow> r \<noteq> Panic"
  by (auto simp: no_panic_def dest: spec [of _ s])

named_theorems no_panic_intro \<open>actions that do not panic\<close>

lemma no_panic_pure [no_panic_intro]:
  "no_panic (act_ok a)" "no_panic (act_err e)" "no_panic (act_upd f)"
  "r \<noteq> Panic \<Longrightarrow> no_panic (act_res r)"
  by (simp_all add: no_panic_def)

lemma no_panic_bind [no_panic_intro]:
  "no_panic m \<Longrightarrow> (\<And>a. no_panic (f a)) \<Longrightarrow> no_panic (act_bind m f)"
  unfolding no_panic_def act_bind_def
  by (auto split: prod.split res.split) (metis fst_conv)

section \<open>The byte stream\<close>

record transport =
  tp_in :: "byte list list"
  tp_out :: "byte list list"
  tp_budget :: "nat option"

definition tp_spend :: "(transport, unit) act" where
  "tp_spend t =
    (case tp_budget t of
       None \<Rightarrow> (Ok (), t)
     | Some 0 \<Rightarrow> (Err (Socket OtherIo), t)
     | Some (Suc n) \<Rightarrow> (Ok (), t\<lparr>tp_budget := Some n\<rparr>))"

definition tp_write_all :: "byte list \<Rightarrow> (transport, unit) act" where
  "tp_write_all bs = act_bind tp_spend (\<lambda>_. act_upd (\<lambda>t. t\<lparr>tp_out := tp_out t @ [bs]\<rparr>))"

definition tp_flush :: "(transport, unit) act" where
  "tp_flush = tp_spend"

text \<open>One \<open>read\<close> into a buffer of \<open>n\<close> bytes: what has arrived, up to \<open>n\<close>; empty at the end.\<close>

definition tp_read :: "nat \<Rightarrow> transport \<Rightarrow> byte list \<times> transport" where
  "tp_read n t =
    (case tp_in t of
       [] \<Rightarrow> ([], t)
     | c # cs \<Rightarrow>
         (take n c, t\<lparr>tp_in := (if length c \<le> n then cs else drop n c # cs)\<rparr>))"

definition tp_pending :: "transport \<Rightarrow> byte list" where
  "tp_pending t = concat (tp_in t)"

lemma tp_read_pending:
  "tp_read n t = (bs, t') \<Longrightarrow> tp_pending t = bs @ tp_pending t'"
  by (auto simp: tp_read_def tp_pending_def split: list.splits if_splits)

lemma tp_read_same [simp]:
  "tp_out (snd (tp_read n t)) = tp_out t" "tp_budget (snd (tp_read n t)) = tp_budget t"
  by (simp_all add: tp_read_def split: list.splits)

lemma tp_spend_same [simp]:
  "tp_in (snd (tp_spend t)) = tp_in t" "tp_out (snd (tp_spend t)) = tp_out t"
  by (simp_all add: tp_spend_def split: option.splits nat.splits)

lemma tp_flush_same [simp]:
  "tp_in (snd (tp_flush t)) = tp_in t" "tp_out (snd (tp_flush t)) = tp_out t"
  by (simp_all add: tp_flush_def)

lemma tp_write_all_in [simp]: "tp_in (snd (tp_write_all bs t)) = tp_in t"
  by (simp add: tp_write_all_def act_bind_def tp_spend_def split: option.splits nat.splits)

lemma tp_write_all_out:
  "tp_out (snd (tp_write_all bs t)) =
     (if fst (tp_write_all bs t) = Ok () then tp_out t @ [bs] else tp_out t)"
  by (simp add: tp_write_all_def act_bind_def tp_spend_def split: option.splits nat.splits)

lemma tp_write_all_unlimited:
  "tp_budget t = None \<Longrightarrow> tp_write_all bs t = (Ok (), t\<lparr>tp_out := tp_out t @ [bs]\<rparr>)"
  by (simp add: tp_write_all_def act_bind_def tp_spend_def)

lemma tp_flush_unlimited: "tp_budget t = None \<Longrightarrow> tp_flush t = (Ok (), t)"
  by (simp add: tp_flush_def tp_spend_def)

lemma tp_no_panic [no_panic_intro]:
  "no_panic tp_spend" "no_panic tp_flush" "no_panic (tp_write_all bs)"
  by (auto simp: no_panic_def tp_flush_def tp_write_all_def act_bind_def tp_spend_def
      split: option.splits nat.splits)

text \<open>\<open>read_exact(n)\<close>: reads until \<open>n\<close> bytes are there, or fails with the end-of-file error.\<close>

function tp_read_exact :: "nat \<Rightarrow> (transport, byte list) act" where
  "tp_read_exact n t =
    (if n = 0 then (Ok [], t)
     else case tp_read n t of (bs, t') \<Rightarrow>
       (if bs = [] then (Err eof, t')
        else case tp_read_exact (n - length bs) t' of
               (Ok rest, u) \<Rightarrow> (Ok (bs @ rest), u)
             | (Err e, u) \<Rightarrow> (Err e, u)
             | (Panic, u) \<Rightarrow> (Panic, u)))"
  by pat_completeness auto
termination
  by (relation "measure fst") auto

declare tp_read_exact.simps [simp del]

lemma tp_read_length: "tp_read n t = (bs, t') \<Longrightarrow> length bs \<le> n"
  by (auto simp: tp_read_def split: list.splits)

lemma tp_read_exact_Ok:
  "tp_read_exact n t = (Ok bs, t') \<Longrightarrow>
     length bs = n \<and> tp_pending t = bs @ tp_pending t' \<and> tp_out t' = tp_out t"
proof (induction n t arbitrary: bs t' rule: tp_read_exact.induct)
  case (1 n t)
  show ?case
  proof (cases "n = 0")
    case True
    with 1(2) show ?thesis by (simp add: tp_read_exact.simps)
  next
    case False
    obtain c u where r: "tp_read n t = (c, u)" by fastforce
    with 1(2) False obtain rest where
      c: "c \<noteq> []" "tp_read_exact (n - length c) u = (Ok rest, t')" "bs = c @ rest"
      by (auto simp: tp_read_exact.simps [of n t] split: if_splits prod.splits res.splits)
    from 1(1) [OF False r [symmetric] c(1) c(2)] c(3) tp_read_length [OF r]
      tp_read_pending [OF r] tp_read_same(1) [of n t] r
    show ?thesis by simp
  qed
qed

text \<open>\<open>arrives bs t\<close>: the bytes still to come are \<open>bs\<close>, in any non-empty arrivals.\<close>

definition arrives :: "byte list \<Rightarrow> transport \<Rightarrow> bool" where
  "arrives bs t \<longleftrightarrow> tp_pending t = bs \<and> [] \<notin> set (tp_in t)"

lemma tp_read_arrives:
  assumes "arrives bs t" and "0 < n" and "bs \<noteq> []" and "tp_read n t = (x, u)"
  shows "x \<noteq> [] \<and> length x \<le> n \<and> (\<exists>r. bs = x @ r \<and> arrives r u)"
proof -
  obtain c cs where c: "tp_in t = c # cs" "c \<noteq> []"
    using assms(1,3) by (cases "tp_in t") (auto simp: arrives_def tp_pending_def)
  have "x = take n c" "u = t\<lparr>tp_in := (if length c \<le> n then cs else drop n c # cs)\<rparr>"
    using assms(4) c by (auto simp: tp_read_def)
  then show ?thesis
    using assms(1,2) c by (auto simp: arrives_def tp_pending_def)
qed

lemma tp_read_exact_arrives:
  "arrives (bs @ rest) t \<Longrightarrow> \<exists>u. tp_read_exact (length bs) t = (Ok bs, u) \<and> arrives rest u"
proof (induction "length bs" t arbitrary: bs rule: tp_read_exact.induct)
  case (1 t bs)
  show ?case
  proof (cases "bs = []")
    case True
    with 1(2) show ?thesis by (simp add: tp_read_exact.simps)
  next
    case False
    obtain x u where r: "tp_read (length bs) t = (x, u)" by fastforce
    have p: "0 < length bs" "bs @ rest \<noteq> []" using False by simp_all
    from tp_read_arrives [OF 1(2) p r] obtain q where
      x: "x \<noteq> []" "length x \<le> length bs" "bs @ rest = x @ q" "arrives q u" by blast
    define ys where "ys = drop (length x) bs"
    have "take (length x) (bs @ rest) = x" "drop (length x) (bs @ rest) = q" by (simp_all add: x(3))
    then have ys: "bs = x @ ys" "q = ys @ rest"
      using x(2) by (simp_all add: ys_def) (metis append_take_drop_id)
    from 1(1) [OF _ r [symmetric] x(1), of ys] ys x(4) False obtain v where
      "tp_read_exact (length ys) u = (Ok ys, v)" "arrives rest v" by auto
    then show ?thesis
      using r x(1) ys False by (auto simp: tp_read_exact.simps [of _ t])
  qed
qed

lemma tp_read_exact_err: "tp_read_exact n t = (Err e, u) \<Longrightarrow> e = eof"
proof (induction n t arbitrary: u rule: tp_read_exact.induct)
  case (1 n t)
  then show ?case
    by (subst (asm) (2) tp_read_exact.simps) (auto split: if_splits prod.splits res.splits)
qed

lemma tp_read_exact_pending: "tp_read_exact n t = (r, u) \<Longrightarrow> length (tp_pending u) \<le> length (tp_pending t)"
proof (induction n t arbitrary: r u rule: tp_read_exact.induct)
  case (1 n t)
  show ?case
  proof (cases "n = 0")
    case True
    with 1(2) show ?thesis by (simp add: tp_read_exact.simps)
  next
    case False
    obtain c v where r: "tp_read n t = (c, v)" by fastforce
    have l: "length (tp_pending v) \<le> length (tp_pending t)" using tp_read_pending [OF r] by simp
    show ?thesis
    proof (cases "c = []")
      case True
      with 1(2) False r l show ?thesis by (simp add: tp_read_exact.simps [of n t])
    next
      case c: False
      obtain s w where s: "tp_read_exact (n - length c) v = (s, w)" by fastforce
      from 1(1) [OF False r [symmetric] c s] l
      have "length (tp_pending w) \<le> length (tp_pending t)" by simp
      moreover have "u = w" using 1(2) False r c s
        by (simp add: tp_read_exact.simps [of n t] split: res.splits)
      ultimately show ?thesis by simp
    qed
  qed
qed

lemma tp_read_exact_budget: "tp_read_exact n t = (r, u) \<Longrightarrow> tp_budget u = tp_budget t \<and> tp_out u = tp_out t"
proof (induction n t arbitrary: r u rule: tp_read_exact.induct)
  case (1 n t)
  show ?case
  proof (cases "n = 0")
    case True
    with 1(2) show ?thesis by (simp add: tp_read_exact.simps)
  next
    case False
    obtain c v where r: "tp_read n t = (c, v)" by fastforce
    have l: "tp_budget v = tp_budget t" "tp_out v = tp_out t" using tp_read_same [of n t] r by simp_all
    show ?thesis
    proof (cases "c = []")
      case True
      with 1(2) False r l show ?thesis by (simp add: tp_read_exact.simps [of n t])
    next
      case c: False
      obtain s w where s: "tp_read_exact (n - length c) v = (s, w)" by fastforce
      from 1(1) [OF False r [symmetric] c s] l
      have "tp_budget w = tp_budget t \<and> tp_out w = tp_out t" by simp
      moreover have "u = w" using 1(2) False r c s
        by (simp add: tp_read_exact.simps [of n t] split: res.splits)
      ultimately show ?thesis by simp
    qed
  qed
qed

end
