(* ===== verification/Float_Bits.thy ===== *)
theory Float_Bits
  imports Prelude
begin

text \<open>
  The two float casts of the Rust language the code uses, on the bits of IEEE 754: \<open>f32 as f64\<close>,
  which is exact, and \<open>f64 as f32\<close> where it is exact (the code keeps the narrow value only when
  widening it gives the wide one back). Fields are naturals: sign, biased exponent, fraction.
\<close>

section \<open>Fields\<close>

definition f64_sign :: "u64 \<Rightarrow> nat" where "f64_sign w = unat w div 2 ^ 63"
definition f64_exp :: "u64 \<Rightarrow> nat" where "f64_exp w = unat w div 2 ^ 52 mod 2 ^ 11"
definition f64_frac :: "u64 \<Rightarrow> nat" where "f64_frac w = unat w mod 2 ^ 52"
definition f32_sign :: "u32 \<Rightarrow> nat" where "f32_sign w = unat w div 2 ^ 31"
definition f32_exp :: "u32 \<Rightarrow> nat" where "f32_exp w = unat w div 2 ^ 23 mod 2 ^ 8"
definition f32_frac :: "u32 \<Rightarrow> nat" where "f32_frac w = unat w mod 2 ^ 23"

definition f64_make :: "nat \<Rightarrow> nat \<Rightarrow> nat \<Rightarrow> u64" where
  "f64_make s e f = of_nat (s * 2 ^ 63 + e * 2 ^ 52 + f)"

definition f32_make :: "nat \<Rightarrow> nat \<Rightarrow> nat \<Rightarrow> u32" where
  "f32_make s e f = of_nat (s * 2 ^ 31 + e * 2 ^ 23 + f)"

lemma pack_fields:
  fixes s e f A B :: nat
  assumes "e < A" and "f < B"
  shows "(s * (A * B) + e * B + f) mod B = f" "(s * (A * B) + e * B + f) div B mod A = e"
    "(s * (A * B) + e * B + f) div (A * B) = s"
proof -
  have n: "s * (A * B) + e * B + f = f + (s * A + e) * B" by (simp add: algebra_simps)
  have m: "s * A + e = e + s * A" by simp
  have d: "(f + (s * A + e) * B) div B = s * A + e" using assms(2) by (subst div_mult_self1) simp_all
  show "(s * (A * B) + e * B + f) mod B = f" unfolding n using assms(2) by simp
  show "(s * (A * B) + e * B + f) div B mod A = e" unfolding n d using assms(1) by simp
  have "(s * (A * B) + e * B + f) div (A * B) = (f + (s * A + e) * B) div B div A"
    unfolding n by (simp only: div_mult2_eq mult.commute [of A B])
  also have "\<dots> = (s * A + e) div A" by (simp only: d)
  also have "\<dots> = s" unfolding m using assms(1) by (subst div_mult_self1) simp_all
  finally show "(s * (A * B) + e * B + f) div (A * B) = s" .
qed

lemma unpack_fields:
  fixes q A B :: nat
  shows "q div (A * B) * (A * B) + q div B mod A * B + q mod B = q"
proof -
  have "q div (A * B) = q div B div A" by (simp only: div_mult2_eq mult.commute [of A B])
  then have "q div (A * B) * (A * B) + q div B mod A * B = (q div B div A * A + q div B mod A) * B"
    by (simp only: add_mult_distrib mult.assoc)
  then show ?thesis by (simp only: div_mult_mod_eq)
qed

lemma f32_fields [simp]:
  assumes "s < 2" "e < 2 ^ 8" "f < 2 ^ 23"
  shows "f32_sign (f32_make s e f) = s" "f32_exp (f32_make s e f) = e" "f32_frac (f32_make s e f) = f"
proof -
  have "unat (f32_make s e f) = s * 2 ^ 31 + e * 2 ^ 23 + f"
    by (simp only: f32_make_def unat_of_nat) (use assms in \<open>auto intro!: mod_less\<close>)
  moreover have "(2::nat) ^ 31 = 2 ^ 8 * 2 ^ 23" by simp
  ultimately have u: "unat (f32_make s e f) = s * (2 ^ 8 * 2 ^ 23) + e * 2 ^ 23 + f"
    by (simp only:)
  have "(2::nat) ^ 31 = 2 ^ 8 * 2 ^ 23" by simp
  with pack_fields [OF assms(2,3), of s] show "f32_sign (f32_make s e f) = s"
    "f32_exp (f32_make s e f) = e" "f32_frac (f32_make s e f) = f"
    by (simp_all only: f32_sign_def f32_exp_def f32_frac_def u)
qed

lemma f64_make_fields [simp]: "f64_make (f64_sign w) (f64_exp w) (f64_frac w) = w"
proof -
  have "(2::nat) ^ 63 = 2 ^ 11 * 2 ^ 52" by simp
  then have "f64_sign w * 2 ^ 63 + f64_exp w * 2 ^ 52 + f64_frac w = unat w"
    using unpack_fields [of "unat w" "2 ^ 11" "2 ^ 52"]
    by (simp only: f64_sign_def f64_exp_def f64_frac_def)
  then show ?thesis by (simp add: f64_make_def del: of_nat_add)
qed

lemma f64_bounds: "f64_sign w < 2" "f64_exp w < 2048" "f64_frac w < 4503599627370496"
  using unat_u64_bound [of w] by (simp_all add: f64_sign_def f64_exp_def f64_frac_def)

section \<open>The casts\<close>

text \<open>The position of the highest set bit of a positive number.\<close>

function top_bit :: "nat \<Rightarrow> nat" where
  "top_bit n = (if n \<le> 1 then 0 else Suc (top_bit (n div 2)))"
  by pat_completeness auto
termination
  by (relation "measure id") auto

declare top_bit.simps [simp del]

lemma top_bit_bounds: "0 < n \<Longrightarrow> 2 ^ top_bit n \<le> n \<and> n < 2 ^ Suc (top_bit n)"
proof (induction n rule: top_bit.induct)
  case (1 n)
  show ?case
  proof (cases "n \<le> 1")
    case True
    with 1 show ?thesis by (simp add: top_bit.simps [of n])
  next
    case False
    with 1(1) have "2 ^ top_bit (n div 2) \<le> n div 2 \<and> n div 2 < 2 ^ Suc (top_bit (n div 2))" by simp
    with False show ?thesis by (simp add: top_bit.simps [of n]) linarith
  qed
qed

lemma top_bit_unique: "2 ^ p \<le> n \<Longrightarrow> n < 2 ^ Suc p \<Longrightarrow> top_bit n = p"
proof -
  assume a: "2 ^ p \<le> n" "n < 2 ^ Suc p"
  then have "0 < n" by (metis gr0I not_le power_0 zero_less_numeral zero_less_power)
  note b = top_bit_bounds [OF this]
  have "2 ^ p < (2::nat) ^ Suc (top_bit n)" "2 ^ top_bit n < (2::nat) ^ Suc p"
    using a b by linarith+
  then have "p < Suc (top_bit n)" "top_bit n < Suc p"
    by (simp_all only: power_strict_increasing_iff one_less_numeral_iff semiring_norm)
  then show "top_bit n = p" by simp
qed

definition f32_to_f64 :: "u32 \<Rightarrow> u64" where
  "f32_to_f64 x =
    (let s = f32_sign x; e = f32_exp x; f = f32_frac x
     in if e = 255 then f64_make s 2047 (f * 2 ^ 29)
        else if e = 0 then
          (if f = 0 then f64_make s 0 0
           else f64_make s (874 + top_bit f) (f * 2 ^ (52 - top_bit f) - 2 ^ 52))
        else f64_make s (e + 896) (f * 2 ^ 29))"

definition f64_to_f32_exact :: "u64 \<Rightarrow> u32 option" where
  "f64_to_f32_exact w =
    (let s = f64_sign w; e = f64_exp w; f = f64_frac w
     in if e = 2047 then (if f = 0 then Some (f32_make s 255 0) else None)
        else if e = 0 then (if f = 0 then Some (f32_make s 0 0) else None)
        else if 897 \<le> e \<and> e \<le> 1150 then
          (if f mod 2 ^ 29 = 0 then Some (f32_make s (e - 896) (f div 2 ^ 29)) else None)
        else if 874 \<le> e \<and> e \<le> 896 then
          (if (2 ^ 52 + f) mod 2 ^ (926 - e) = 0
           then Some (f32_make s 0 ((2 ^ 52 + f) div 2 ^ (926 - e))) else None)
        else None)"

lemma f32_to_f64_exact:
  assumes "f64_to_f32_exact w = Some x"
  shows "f32_to_f64 x = w"
proof -
  define s e f where d: "s = f64_sign w" "e = f64_exp w" "f = f64_frac w"
  have b: "s < 2" "e < 2048" "f < 2 ^ 52" using f64_bounds [of w] by (simp_all add: d)
  have w: "f64_make s e f = w" by (simp add: d)
  consider (inf) "e = 2047" "f = 0" "x = f32_make s 255 0"
    | (zero) "e = 0" "f = 0" "x = f32_make s 0 0"
    | (normal) "897 \<le> e" "e \<le> 1150" "f mod 2 ^ 29 = 0" "x = f32_make s (e - 896) (f div 2 ^ 29)"
    | (subn) "874 \<le> e" "e \<le> 896" "(2 ^ 52 + f) mod 2 ^ (926 - e) = 0"
        "x = f32_make s 0 ((2 ^ 52 + f) div 2 ^ (926 - e))"
    using assms
    by (auto simp: f64_to_f32_exact_def d [symmetric] Let_def split: if_splits)
  then show ?thesis
  proof cases
    case inf
    with b w show ?thesis by (simp add: f32_to_f64_def Let_def)
  next
    case zero
    with b w show ?thesis by (simp add: f32_to_f64_def Let_def)
  next
    case normal
    have "f div 2 ^ 29 < 2 ^ 23" using b(3) by simp
    moreover have "f div 2 ^ 29 * 2 ^ 29 = f"
      using div_mult_mod_eq [of f "2 ^ 29"] unfolding normal(3) by simp
    moreover have "e - 896 < 2 ^ 8" "e - 896 \<noteq> 255" "e - 896 \<noteq> 0" "e - 896 + 896 = e"
      using normal(1,2) by simp_all
    ultimately show ?thesis using b(1) w by (simp add: f32_to_f64_def Let_def normal(4))
  next
    case subn
    define k where "k = 926 - e"
    define g where "g = (2 ^ 52 + f) div 2 ^ k"
    have k: "30 \<le> k" "k \<le> 52" "e = 926 - k" using subn(1,2) by (simp_all add: k_def)
    have g: "g * 2 ^ k = 2 ^ 52 + f" 
      using div_mult_mod_eq [of "2 ^ 52 + f" "2 ^ (926 - e)"] unfolding subn(3) by (simp add: g_def k_def)
    have p: "(2::nat) ^ 52 = 2 ^ (52 - k) * 2 ^ k" "(2::nat) ^ 53 = 2 ^ Suc (52 - k) * 2 ^ k"
      using k(2) by (simp_all flip: power_add)
    have "2 ^ (52 - k) * 2 ^ k \<le> g * 2 ^ k" "g * 2 ^ k < 2 ^ Suc (52 - k) * 2 ^ k"
      unfolding g p [symmetric] using b(3) by simp_all
    then have lo: "2 ^ (52 - k) \<le> g" and hi: "g < 2 ^ Suc (52 - k)" by simp_all
    from lo hi have t: "top_bit g = 52 - k" by (rule top_bit_unique)
    have "(2::nat) ^ Suc (52 - k) \<le> 2 ^ 23" using k(1) by (intro power_increasing) simp_all
    with hi have "g < 2 ^ 23" by linarith
    moreover have "g \<noteq> 0" using lo by (metis not_le power_eq_0_iff zero_less_numeral neq0_conv zero_less_power)
    moreover have "g * 2 ^ (52 - top_bit g) - 2 ^ 52 = f" using g k(2) by (simp add: t)
    moreover have "874 + top_bit g = e" using k by (simp add: t)
    moreover have "x = f32_make s 0 g" unfolding g_def k_def by (rule subn(4))
    ultimately show ?thesis using b(1) w by (simp add: f32_to_f64_def Let_def)
  qed
qed

text \<open>\<open>f64 ==\<close>: a NaN equals nothing, the two zeros are equal.\<close>

definition f64_is_nan :: "u64 \<Rightarrow> bool" where
  "f64_is_nan w \<longleftrightarrow> f64_exp w = 2047 \<and> f64_frac w \<noteq> 0"

definition f64_is_zero :: "u64 \<Rightarrow> bool" where
  "f64_is_zero w \<longleftrightarrow> f64_exp w = 0 \<and> f64_frac w = 0"

definition f64_eq :: "u64 \<Rightarrow> u64 \<Rightarrow> bool" where
  "f64_eq a b \<longleftrightarrow>
     \<not> f64_is_nan a \<and> \<not> f64_is_nan b \<and> (a = b \<or> f64_is_zero a \<and> f64_is_zero b)"

end
