(* ===== verification/Xpc_Format.thy ===== *)
theory Xpc_Format
  imports Plist
begin

text \<open>
  xpc/format.rs: the XPC object format and the message wrapper around it. An object is a tree of
  type-tagged values, with every length and tag little-endian and strings and data padded to
  four bytes. A float is its 64 bits, a date its nanoseconds since the Unix epoch (negative
  before it), a UUID its 16 bytes. Recursion depth (the native stack) and the allocation of a
  declared length are not bounded here.
\<close>

section \<open>Flags and type tags\<close>

datatype xpc_flag =
    AlwaysSet | DataFlag | Reply | WantingReply | InitHandshake
  | FileTxStreamRequest | FileTxStreamResponse | Custom u32

primrec flag_bits :: "xpc_flag \<Rightarrow> u32" where
  "flag_bits AlwaysSet = 0x00000001"
| "flag_bits DataFlag = 0x00000100"
| "flag_bits Reply = 0x00020000"
| "flag_bits WantingReply = 0x00010000"
| "flag_bits InitHandshake = 0x00400000"
| "flag_bits FileTxStreamRequest = 0x00100000"
| "flag_bits FileTxStreamResponse = 0x00200000"
| "flag_bits (Custom inner) = inner"

definition flag_or :: "xpc_flag \<Rightarrow> xpc_flag \<Rightarrow> xpc_flag" where
  "flag_or a b = Custom (flag_bits a OR flag_bits b)"

definition flag_eq :: "xpc_flag \<Rightarrow> xpc_flag \<Rightarrow> bool" where
  "flag_eq a b \<longleftrightarrow> flag_bits a = flag_bits b"

datatype xpc_type =
    TyNull | TyBool | TyDictionary | TyArray | TyInt64 | TyUInt64 | TyDouble | TyDate
  | TyString | TyData | TyUuid | TyFileTransfer

primrec type_code :: "xpc_type \<Rightarrow> u32" where
  "type_code TyNull = 0x00001000"
| "type_code TyBool = 0x00002000"
| "type_code TyDictionary = 0x0000f000"
| "type_code TyArray = 0x0000e000"
| "type_code TyInt64 = 0x00003000"
| "type_code TyUInt64 = 0x00004000"
| "type_code TyDouble = 0x00005000"
| "type_code TyDate = 0x00007000"
| "type_code TyString = 0x00009000"
| "type_code TyData = 0x00008000"
| "type_code TyUuid = 0x0000a000"
| "type_code TyFileTransfer = 0x0001a000"

definition type_from :: "u32 \<Rightarrow> (xpc_type, idevice_error) res" where
  "type_from v =
    (if v = 0x00001000 then Ok TyNull
     else if v = 0x00002000 then Ok TyBool
     else if v = 0x0000f000 then Ok TyDictionary
     else if v = 0x0000e000 then Ok TyArray
     else if v = 0x00003000 then Ok TyInt64
     else if v = 0x00005000 then Ok TyDouble
     else if v = 0x00004000 then Ok TyUInt64
     else if v = 0x00007000 then Ok TyDate
     else if v = 0x00009000 then Ok TyString
     else if v = 0x00008000 then Ok TyData
     else if v = 0x0000a000 then Ok TyUuid
     else if v = 0x0001a000 then Ok TyFileTransfer
     else Err (Xpc (UnknownXpcType v)))"

lemma type_from_code [simp]: "type_from (type_code t) = Ok t"
  by (cases t) (simp_all add: type_from_def)

declare type_code.simps [simp del]

lemma type_from_not_Panic [simp]: "type_from v \<noteq> Panic"
  by (simp add: type_from_def)

section \<open>Objects\<close>

datatype xpc_object =
    XNull
  | XBool bool
  | XDictionary "(rstring \<times> xpc_object) list"
  | XArray "xpc_object list"
  | XDouble u64
  | XInt64 i64
  | XUInt64 u64
  | XDate int
  | XString rstring
  | XData "byte list"
  | XUuid "byte list"
  | XFileTransfer u64 xpc_object

type_synonym xpc_dict = "(rstring \<times> xpc_object) list"

text \<open>
  The source computes the padding in \<open>f64\<close>: \<open>ceil(len / 4) * 4 - len\<close>. For the lengths a buffer
  can have (below \<open>2 ^ 53\<close>) that arithmetic is exact, and \<open>ceil(len / 4)\<close> is \<open>(len + 3) div 4\<close>.
\<close>

definition calculate_padding :: "nat \<Rightarrow> nat" where
  "calculate_padding len = (len + 3) div 4 * 4 - len"

lemma calculate_padding_dvd: "4 dvd len + calculate_padding len"
proof -
  have "len \<le> (len + 3) div 4 * 4" by linarith
  then show ?thesis by (simp add: calculate_padding_def)
qed

text \<open>
  \<open>encode_object\<close> appends to a buffer; the model returns the bytes it appends. Lengths are
  written as \<open>as u32\<close>, which keeps the low 32 bits. A date before the epoch panics in \<open>unwrap\<close>.
\<close>

fun encode_object :: "xpc_object \<Rightarrow> (byte list, idevice_error) res"
and encode_entries :: "xpc_dict \<Rightarrow> (byte list, idevice_error) res"
and encode_items :: "xpc_object list \<Rightarrow> (byte list, idevice_error) res" where
  "encode_object XNull = Ok (to_le_bytes (type_code TyNull))"
| "encode_object (XBool v) =
     Ok (to_le_bytes (type_code TyBool) @ [if v then 1 else 0] @ replicate 3 0)"
| "encode_object (XDictionary dict) =
     rbind (encode_entries dict) (\<lambda>entries.
       let content = to_le_bytes (of_nat (length dict) :: u32) @ entries
       in Ok (to_le_bytes (type_code TyDictionary) @
              to_le_bytes (of_nat (length content) :: u32) @ content))"
| "encode_object (XArray items) =
     rbind (encode_items items) (\<lambda>elems.
       let content = to_le_bytes (of_nat (length items) :: u32) @ elems
       in Ok (to_le_bytes (type_code TyArray) @
              to_le_bytes (of_nat (length content) :: u32) @ content))"
| "encode_object (XDouble f) = Ok (to_le_bytes (type_code TyDouble) @ to_le_bytes f)"
| "encode_object (XInt64 n) = Ok (to_le_bytes (type_code TyInt64) @ to_le_bytes n)"
| "encode_object (XUInt64 n) = Ok (to_le_bytes (type_code TyUInt64) @ to_le_bytes n)"
| "encode_object (XDate d) =
     (if d < 0 then Panic
      else Ok (to_le_bytes (type_code TyDate) @ to_le_bytes (word_of_int d :: u64)))"
| "encode_object (XString s) =
     (let l = length s + 1
      in Ok (to_le_bytes (type_code TyString) @ to_le_bytes (of_nat l :: u32) @
             s @ [0] @ replicate (calculate_padding l) 0))"
| "encode_object (XData d) =
     (let l = length d
      in Ok (to_le_bytes (type_code TyData) @ to_le_bytes (of_nat l :: u32) @
             d @ replicate (calculate_padding l) 0))"
| "encode_object (XUuid u) = Ok (to_le_bytes (type_code TyUuid) @ u)"
| "encode_object (XFileTransfer msg_id data) =
     rbind (encode_object data) (\<lambda>inner.
       Ok (to_le_bytes (type_code TyFileTransfer) @ to_le_bytes msg_id @ inner))"
| "encode_entries [] = Ok []"
| "encode_entries ((k, v) # rest) =
     rbind (encode_object v) (\<lambda>b.
     rbind (encode_entries rest) (\<lambda>bs.
       Ok (k @ [0] @ replicate (calculate_padding (length k + 1)) 0 @ b @ bs)))"
| "encode_items [] = Ok []"
| "encode_items (x # rest) =
     rbind (encode_object x) (\<lambda>b. rbind (encode_items rest) (\<lambda>bs. Ok (b @ bs)))"

definition XPC_MAGIC :: u32 where "XPC_MAGIC = 0x42133742"
definition XPC_VERSION :: u32 where "XPC_VERSION = 0x00000005"

definition xpc_encode :: "xpc_object \<Rightarrow> (byte list, idevice_error) res" where
  "xpc_encode x = rmap (\<lambda>b. to_le_bytes XPC_MAGIC @ to_le_bytes XPC_VERSION @ b) (encode_object x)"

text \<open>\<open>BufRead::read_until(0)\<close>: everything up to and including the first NUL, or all of it.\<close>

definition read_until_nul :: "byte list \<Rightarrow> byte list \<times> byte list" where
  "read_until_nul bs =
    (let k = takeWhile (\<lambda>b. b \<noteq> 0) bs
     in if length k < length bs then (k @ [0], drop (length k + 1) bs) else (bs, []))"

definition read_key :: "byte list \<Rightarrow> (rstring \<times> byte list, idevice_error) res" where
  "read_key bs =
    (let (key_buf, r) = read_until_nul bs
     in rbind (ok_or (Xpc InvalidCString) (cstring_of_nul key_buf)) (\<lambda>key.
          Ok (key, drop (calculate_padding (length key + 1)) r)))"

function decode_object :: "(rstring \<Rightarrow> xpc_object \<Rightarrow> xpc_dict \<Rightarrow> xpc_dict) \<Rightarrow> byte list \<Rightarrow>
    (xpc_object \<times> byte list, idevice_error) res"
and decode_entries :: "(rstring \<Rightarrow> xpc_object \<Rightarrow> xpc_dict \<Rightarrow> xpc_dict) \<Rightarrow> nat \<Rightarrow> xpc_dict \<Rightarrow> byte list \<Rightarrow>
    (xpc_dict \<times> byte list, idevice_error) res"
and decode_items :: "(rstring \<Rightarrow> xpc_object \<Rightarrow> xpc_dict \<Rightarrow> xpc_dict) \<Rightarrow> nat \<Rightarrow> byte list \<Rightarrow>
    (xpc_object list \<times> byte list, idevice_error) res" where
  "decode_object ins bs =
    rbind (read_le eof bs) (\<lambda>(tag, r).
    rbind (type_from tag) (\<lambda>ty.
      case ty of
        TyNull \<Rightarrow> Ok (XNull, r)
      | TyDictionary \<Rightarrow>
          rbind (read_le eof r) (\<lambda>(l :: u32, r1).
          rbind (read_le eof r1) (\<lambda>(num_entries :: u32, r2).
          rbind (decode_entries ins (unat num_entries) [] r2) (\<lambda>(d, r3). Ok (XDictionary d, r3))))
      | TyArray \<Rightarrow>
          rbind (read_le eof r) (\<lambda>(l :: u32, r1).
          rbind (read_le eof r1) (\<lambda>(num_entries :: u32, r2).
          rbind (decode_items ins (unat num_entries) r2) (\<lambda>(xs, r3). Ok (XArray xs, r3))))
      | TyDouble \<Rightarrow> rbind (read_le eof r) (\<lambda>(f, r1). Ok (XDouble f, r1))
      | TyInt64 \<Rightarrow> rbind (read_le eof r) (\<lambda>(n, r1). Ok (XInt64 n, r1))
      | TyUInt64 \<Rightarrow> rbind (read_le eof r) (\<lambda>(n, r1). Ok (XUInt64 n, r1))
      | TyDate \<Rightarrow> rbind (read_le eof r) (\<lambda>(n :: u64, r1). Ok (XDate (uint n), r1))
      | TyString \<Rightarrow>
          rbind (read_le eof r) (\<lambda>(l :: u32, r1).
          rbind (read_exact eof (unat l) r1) (\<lambda>(key_buf, r2).
          rbind (ok_or (Xpc InvalidCString) (cstring_of_nul key_buf)) (\<lambda>key.
            Ok (XString key, drop (calculate_padding (unat l)) r2))))
      | TyBool \<Rightarrow>
          rbind (read_exact eof 4 r) (\<lambda>(b, r1). Ok (XBool (b ! 0 \<noteq> 0), r1))
      | TyData \<Rightarrow>
          rbind (read_le eof r) (\<lambda>(l :: u32, r1).
          rbind (read_exact eof (unat l) r1) (\<lambda>(d, r2).
            Ok (XData d, drop (calculate_padding (unat l)) r2)))
      | TyUuid \<Rightarrow> rbind (read_exact eof 16 r) (\<lambda>(u, r1). Ok (XUuid u, r1))
      | TyFileTransfer \<Rightarrow>
          rbind (read_le eof r) (\<lambda>(msg_id, r1).
          rbind (decode_object ins r1) (\<lambda>(inner, r2). Ok (XFileTransfer msg_id inner, r2)))))"
| "decode_entries ins 0 acc bs = Ok (acc, bs)"
| "decode_entries ins (Suc n) acc bs =
    rbind (read_key bs) (\<lambda>(key, r).
    rbind (decode_object ins r) (\<lambda>(v, r1). decode_entries ins n (ins key v acc) r1))"
| "decode_items ins 0 bs = Ok ([], bs)"
| "decode_items ins (Suc n) bs =
    rbind (decode_object ins bs) (\<lambda>(x, r).
    rbind (decode_items ins n r) (\<lambda>(xs, r1). Ok (x # xs, r1)))"
  by pat_completeness auto

lemma read_key_length: "read_key bs = Ok (k, r) \<Longrightarrow> length r < length bs"
  by (auto simp: read_key_def read_until_nul_def Let_def cstring_of_nul_def split: if_splits)

text \<open>
  Nothing bounds the declared counts, but every object takes at least its four-byte tag from the
  input, so the nested loops end: the input shrinks with every object read.
\<close>

lemma decode_shorter_dom:
  "decode_object_decode_entries_decode_items_dom (Inl (ins, bs)) \<Longrightarrow>
     decode_object ins bs = Ok (x, r) \<Longrightarrow> length r + 4 \<le> length bs"
  "decode_object_decode_entries_decode_items_dom (Inr (Inl (ins, n, acc, bs))) \<Longrightarrow>
     decode_entries ins n acc bs = Ok (d, r) \<Longrightarrow> length r \<le> length bs"
  "decode_object_decode_entries_decode_items_dom (Inr (Inr (ins, n, bs))) \<Longrightarrow>
     decode_items ins n bs = Ok (xs, r) \<Longrightarrow> length r \<le> length bs"
proof (induction ins bs and ins n acc bs and ins n bs arbitrary: x r and d r and xs r
    rule: decode_object_decode_entries_decode_items.pinduct)
  case (1 ins bs)
  from 1(1,5) obtain tag r0 ty where t: "read_le eof bs = Ok (tag :: u32, r0)" "type_from tag = Ok ty"
    by (auto simp: decode_object.psimps)
  have l: "length bs = 4 + length r0" using read_le_Ok_length [OF t(1)] by simp
  note un = decode_object.psimps [OF 1(1)] t rbind.simps prod.case xpc_type.case
  show ?case
  proof (cases ty)
    case TyDictionary
    with 1(5) un obtain l r1 m r2 d' where
      r: "read_le eof r0 = Ok (l :: u32, r1)" "read_le eof r1 = Ok (m :: u32, r2)"
        "decode_entries ins (unat m) [] r2 = Ok (d', r)" by (auto simp: un)
    from 1(2) [OF t(1) refl t(2) TyDictionary r(1) refl r(2) refl r(3)] l
      read_le_Ok_length [OF r(1)] read_le_Ok_length [OF r(2)] show ?thesis by simp
  next
    case TyArray
    with 1(5) un obtain l r1 m r2 d' where
      r: "read_le eof r0 = Ok (l :: u32, r1)" "read_le eof r1 = Ok (m :: u32, r2)"
        "decode_items ins (unat m) r2 = Ok (d', r)" by (auto simp: un)
    from 1(3) [OF t(1) refl t(2) TyArray r(1) refl r(2) refl r(3)] l
      read_le_Ok_length [OF r(1)] read_le_Ok_length [OF r(2)] show ?thesis by simp
  next
    case TyFileTransfer
    with 1(5) un obtain m r1 y where
      r: "read_le eof r0 = Ok (m :: u64, r1)" "decode_object ins r1 = Ok (y, r)" by (auto simp: un)
    from 1(4) [OF t(1) refl t(2) TyFileTransfer r(1) refl r(2)] l read_le_Ok_length [OF r(1)]
    show ?thesis by simp
  qed (use 1(5) l in \<open>auto simp: un read_exact_Ok dest!: read_le_Ok_length\<close>)
next
  case (2 ins acc bs)
  then show ?case by (simp add: decode_entries.psimps)
next
  case (3 ins n acc bs)
  from 3(1,4) obtain key r1 v r2 where
    k: "read_key bs = Ok (key, r1)" and v: "decode_object ins r1 = Ok (v, r2)"
    and e: "decode_entries ins n (ins key v acc) r2 = Ok (d, r)"
    by (auto simp: decode_entries.psimps)
  show ?case using read_key_length [OF k] 3(2) [OF k refl v] 3(3) [OF k refl v refl e] by simp
next
  case (4 ins bs)
  then show ?case by (simp add: decode_items.psimps)
next
  case (5 ins n bs)
  from 5(1,4) obtain x r1 ys where
    v: "decode_object ins bs = Ok (x, r1)" and e: "decode_items ins n r1 = Ok (ys, r)"
    by (auto simp: decode_items.psimps)
  show ?case using 5(2) [OF v] 5(3) [OF v refl e] by simp
qed

lemma decode_terminates: "All decode_object_decode_entries_decode_items_dom"
proof (relation "measure (\<lambda>z. case z of
      Inl (ins, bs) \<Rightarrow> 2 * length bs
    | Inr (Inl (ins, n, acc, bs)) \<Rightarrow> 2 * length bs + 1
    | Inr (Inr (ins, n, bs)) \<Rightarrow> 2 * length bs + 1)", goal_cases)
  case 1
  then show ?case by simp
qed (auto dest!: read_le_Ok_length read_key_length decode_shorter_dom)

termination decode_object
  by (rule decode_terminates)

declare decode_object.simps [simp del]

lemmas decode_shorter = decode_shorter_dom [OF decode_terminates [THEN spec]]

definition xpc_decode :: "(rstring \<Rightarrow> xpc_object \<Rightarrow> xpc_dict \<Rightarrow> xpc_dict) \<Rightarrow> byte list \<Rightarrow>
    (xpc_object, idevice_error) res" where
  "xpc_decode ins buf =
    (if length buf < 8 then Err (NotEnoughBytes (length buf) 8)
     else if (from_le_bytes (sub 0 4 buf) :: u32) \<noteq> XPC_MAGIC then Err (Xpc InvalidXpcMagic)
     else if (from_le_bytes (sub 4 4 buf) :: u32) \<noteq> XPC_VERSION then Err (Xpc UnexpectedXpcVersion)
     else rmap fst (decode_object ins (drop 8 buf)))"

text \<open>Accessors; \<open>as_signed_integer\<close> and its unsigned sibling also parse strings.\<close>

definition as_dictionary :: "xpc_object \<Rightarrow> xpc_dict option" where
  "as_dictionary x = (case x of XDictionary d \<Rightarrow> Some d | _ \<Rightarrow> None)"

definition to_dictionary :: "xpc_object \<Rightarrow> xpc_dict option" where
  "to_dictionary x = (case x of XDictionary d \<Rightarrow> Some d | _ \<Rightarrow> None)"

definition as_array :: "xpc_object \<Rightarrow> xpc_object list option" where
  "as_array x = (case x of XArray a \<Rightarrow> Some a | _ \<Rightarrow> None)"

definition as_string :: "xpc_object \<Rightarrow> rstring option" where
  "as_string x = (case x of XString s \<Rightarrow> Some s | _ \<Rightarrow> None)"

definition as_bool :: "xpc_object \<Rightarrow> bool option" where
  "as_bool x = (case x of XBool b \<Rightarrow> Some b | _ \<Rightarrow> None)"

definition as_signed_integer :: "xpc_object \<Rightarrow> int option" where
  "as_signed_integer x =
    (case x of XString s \<Rightarrow> parse_signed 64 s | XInt64 v \<Rightarrow> Some (sint v) | _ \<Rightarrow> None)"

definition as_unsigned_integer :: "xpc_object \<Rightarrow> nat option" where
  "as_unsigned_integer x =
    (case x of XString s \<Rightarrow> parse_unsigned 64 s | XUInt64 v \<Rightarrow> Some (unat v) | _ \<Rightarrow> None)"

section \<open>Well-formed objects and the round trip\<close>

text \<open>
  What the wire format can carry: strings and keys without NUL whose length fits in 32 bits,
  UUIDs of 16 bytes, dates of a \<open>u64\<close> of nanoseconds, counts below \<open>2 ^ 32\<close>, distinct keys.
\<close>

definition key_wf :: "rstring \<Rightarrow> bool" where
  "key_wf k \<longleftrightarrow> no_nul k \<and> utf8_valid k"

fun xpc_wf :: "xpc_object \<Rightarrow> bool" where
  "xpc_wf (XDictionary d) \<longleftrightarrow>
     distinct (map fst d) \<and> length d < 2 ^ 32 \<and> list_all (\<lambda>(k, v). key_wf k \<and> xpc_wf v) d"
| "xpc_wf (XArray xs) \<longleftrightarrow> length xs < 2 ^ 32 \<and> list_all xpc_wf xs"
| "xpc_wf (XDate d) \<longleftrightarrow> 0 \<le> d \<and> d < 2 ^ 64"
| "xpc_wf (XString s) \<longleftrightarrow> key_wf s \<and> length s + 1 < 2 ^ 32"
| "xpc_wf (XData d) \<longleftrightarrow> length d < 2 ^ 32"
| "xpc_wf (XUuid u) \<longleftrightarrow> length u = 16"
| "xpc_wf (XFileTransfer msg_id x) \<longleftrightarrow> xpc_wf x"
| "xpc_wf _ \<longleftrightarrow> True"

lemma takeWhile_nul: "no_nul k \<Longrightarrow> takeWhile (\<lambda>b. b \<noteq> 0) (k @ 0 # r) = k"
  by (induction k) (auto simp: no_nul_def)

lemma read_until_nul_append: "no_nul k \<Longrightarrow> read_until_nul (k @ 0 # r) = (k @ [0], r)"
  by (simp add: read_until_nul_def takeWhile_nul del: takeWhile.simps)

lemma read_key_append:
  assumes "key_wf k"
  shows "read_key (k @ 0 # replicate (calculate_padding (Suc (length k))) 0 @ r) = Ok (k, r)"
proof -
  have "no_nul k" "utf8_valid k" using assms by (simp_all add: key_wf_def)
  then show ?thesis by (simp add: read_key_def read_until_nul_append)
qed

lemma decode_object_tagged:
  "decode_object ins (to_le_bytes (type_code t) @ r) =
     (case t of
        TyNull \<Rightarrow> Ok (XNull, r)
      | TyDictionary \<Rightarrow>
          rbind (read_le eof r) (\<lambda>(l :: u32, r1).
          rbind (read_le eof r1) (\<lambda>(num_entries :: u32, r2).
          rbind (decode_entries ins (unat num_entries) [] r2) (\<lambda>(d, r3). Ok (XDictionary d, r3))))
      | TyArray \<Rightarrow>
          rbind (read_le eof r) (\<lambda>(l :: u32, r1).
          rbind (read_le eof r1) (\<lambda>(num_entries :: u32, r2).
          rbind (decode_items ins (unat num_entries) r2) (\<lambda>(xs, r3). Ok (XArray xs, r3))))
      | TyDouble \<Rightarrow> rbind (read_le eof r) (\<lambda>(f, r1). Ok (XDouble f, r1))
      | TyInt64 \<Rightarrow> rbind (read_le eof r) (\<lambda>(n, r1). Ok (XInt64 n, r1))
      | TyUInt64 \<Rightarrow> rbind (read_le eof r) (\<lambda>(n, r1). Ok (XUInt64 n, r1))
      | TyDate \<Rightarrow> rbind (read_le eof r) (\<lambda>(n :: u64, r1). Ok (XDate (uint n), r1))
      | TyString \<Rightarrow>
          rbind (read_le eof r) (\<lambda>(l :: u32, r1).
          rbind (read_exact eof (unat l) r1) (\<lambda>(key_buf, r2).
          rbind (ok_or (Xpc InvalidCString) (cstring_of_nul key_buf)) (\<lambda>key.
            Ok (XString key, drop (calculate_padding (unat l)) r2))))
      | TyBool \<Rightarrow>
          rbind (read_exact eof 4 r) (\<lambda>(b, r1). Ok (XBool (b ! 0 \<noteq> 0), r1))
      | TyData \<Rightarrow>
          rbind (read_le eof r) (\<lambda>(l :: u32, r1).
          rbind (read_exact eof (unat l) r1) (\<lambda>(d, r2).
            Ok (XData d, drop (calculate_padding (unat l)) r2)))
      | TyUuid \<Rightarrow> rbind (read_exact eof 16 r) (\<lambda>(u, r1). Ok (XUuid u, r1))
      | TyFileTransfer \<Rightarrow>
          rbind (read_le eof r) (\<lambda>(msg_id, r1).
          rbind (decode_object ins r1) (\<lambda>(inner, r2). Ok (XFileTransfer msg_id inner, r2))))"
  by (subst decode_object.simps) (simp only: read_le_append rbind.simps prod.case type_from_code)

locale xpc_map = insertion_map ins
  for ins :: "rstring \<Rightarrow> xpc_object \<Rightarrow> xpc_dict \<Rightarrow> xpc_dict"
begin

lemma round_trip:
  "xpc_wf x \<Longrightarrow> \<exists>b. encode_object x = Ok b \<and> (\<forall>r. decode_object ins (b @ r) = Ok (x, r))"
  "list_all (\<lambda>(k, v). key_wf k \<and> xpc_wf v) d \<Longrightarrow>
     \<exists>b. encode_entries d = Ok b \<and>
       (\<forall>acc r. distinct (map fst (acc @ d)) \<longrightarrow>
          decode_entries ins (length d) acc (b @ r) = Ok (acc @ d, r))"
  "list_all xpc_wf xs \<Longrightarrow>
     \<exists>b. encode_items xs = Ok b \<and> (\<forall>r. decode_items ins (length xs) (b @ r) = Ok (xs, r))"
proof (induction x and d and xs rule: encode_object_encode_entries_encode_items.induct)
  case (2 v)
  show ?case by (simp add: decode_object_tagged read_exact_def)
next
  case (3 d)
  then obtain b where "encode_entries d = Ok b"
    "\<And>r. decode_entries ins (length d) [] (b @ r) = Ok (d, r)" by fastforce
  with 3(2) show ?case by (simp add: Let_def decode_object_tagged bytes_simps)
next
  case (4 xs)
  then obtain b where "encode_items xs = Ok b"
    "\<And>r. decode_items ins (length xs) (b @ r) = Ok (xs, r)" by fastforce
  with 4(2) show ?case by (simp add: Let_def decode_object_tagged bytes_simps)
next
  case (8 d)
  then have "uint (word_of_int d :: u64) = d" by (simp add: uint_word_of_int)
  with 8 show ?case by (simp add: decode_object_tagged)
next
  case (9 s)
  have "read_exact eof (Suc (length s)) (s @ 0 # r) = Ok (s @ [0], r)" for r
    using read_exact_append [of "s @ [0]" "Suc (length s)" eof r] by simp
  with 9 show ?case
    by (simp add: Let_def decode_object_tagged key_wf_def unat_of_nat_u32 del: of_nat_Suc)
next
  case (14 k v d)
  then obtain b c where "encode_object v = Ok b" "\<And>r. decode_object ins (b @ r) = Ok (v, r)"
    "encode_entries d = Ok c"
    "\<And>acc r. distinct (map fst (acc @ d)) \<Longrightarrow>
       decode_entries ins (length d) acc (c @ r) = Ok (acc @ d, r)" by fastforce
  with 14(3) show ?case by (auto simp: read_key_append ins_new)
next
  case (16 x xs)
  then show ?case by fastforce
qed (auto simp: decode_object_tagged Let_def bytes_simps)

end

interpretation xpc_alist: xpc_map map_insert
  by unfold_locales

section \<open>Conversion to and from property lists\<close>

text \<open>
  \<open>From<plist::Value>\<close> is not total: dates and UIDs are \<open>todo!()\<close>, and an integer above
  \<open>i64::MAX\<close> panics in \<open>unwrap\<close>.
\<close>

fun from_plist :: "(rstring \<Rightarrow> xpc_object \<Rightarrow> xpc_dict \<Rightarrow> xpc_dict) \<Rightarrow> plist_value \<Rightarrow>
    (xpc_object, idevice_error) res"
and from_plist_items :: "(rstring \<Rightarrow> xpc_object \<Rightarrow> xpc_dict \<Rightarrow> xpc_dict) \<Rightarrow> plist_value list \<Rightarrow>
    (xpc_object list, idevice_error) res"
and from_plist_entries :: "(rstring \<Rightarrow> xpc_object \<Rightarrow> xpc_dict \<Rightarrow> xpc_dict) \<Rightarrow> plist_dict \<Rightarrow>
    xpc_dict \<Rightarrow> (xpc_dict, idevice_error) res" where
  "from_plist ins (PArray v) = rmap XArray (from_plist_items ins v)"
| "from_plist ins (PDictionary v) = rmap XDictionary (from_plist_entries ins v [])"
| "from_plist ins (PBoolean v) = Ok (XBool v)"
| "from_plist ins (PData v) = Ok (XData v)"
| "from_plist ins (PDate _) = Panic"
| "from_plist ins (PReal f) = Ok (XDouble f)"
| "from_plist ins (PInteger v) =
     (case as_signed v of Some n \<Rightarrow> Ok (XInt64 n) | None \<Rightarrow> Panic)"
| "from_plist ins (PString v) = Ok (XString v)"
| "from_plist ins (PUid _) = Panic"
| "from_plist_items ins [] = Ok []"
| "from_plist_items ins (v # vs) =
     rbind (from_plist ins v) (\<lambda>x. rmap (\<lambda>xs. x # xs) (from_plist_items ins vs))"
| "from_plist_entries ins [] dict = Ok dict"
| "from_plist_entries ins ((k, v) # rest) dict =
     rbind (from_plist ins v) (\<lambda>x. from_plist_entries ins rest (ins k x dict))"

text \<open>
  \<open>to_plist\<close>, where \<open>uuid_str\<close> is \<open>Uuid::to_string\<close> and \<open>pins\<close> is \<open>plist::Dictionary::insert\<close>.
\<close>

fun to_plist :: "(byte list \<Rightarrow> rstring) \<Rightarrow> (rstring \<Rightarrow> plist_value \<Rightarrow> plist_dict \<Rightarrow> plist_dict) \<Rightarrow>
    xpc_object \<Rightarrow> plist_value"
and to_plist_entries :: "(byte list \<Rightarrow> rstring) \<Rightarrow> (rstring \<Rightarrow> plist_value \<Rightarrow> plist_dict \<Rightarrow> plist_dict) \<Rightarrow>
    xpc_dict \<Rightarrow> plist_dict \<Rightarrow> plist_dict" where
  "to_plist uuid_str pins XNull = PString []"
| "to_plist uuid_str pins (XBool v) = PBoolean v"
| "to_plist uuid_str pins (XUuid u) = PString (uuid_str u)"
| "to_plist uuid_str pins (XDouble f) = PReal f"
| "to_plist uuid_str pins (XUInt64 v) = PInteger (uint v)"
| "to_plist uuid_str pins (XInt64 v) = PInteger (sint v)"
| "to_plist uuid_str pins (XDate d) = PDate d"
| "to_plist uuid_str pins (XString v) = PString v"
| "to_plist uuid_str pins (XData v) = PData v"
| "to_plist uuid_str pins (XArray v) = PArray (map (to_plist uuid_str pins) v)"
| "to_plist uuid_str pins (XDictionary v) = PDictionary (to_plist_entries uuid_str pins v [])"
| "to_plist uuid_str pins (XFileTransfer msg_id data) =
     PDictionary (pins (rstr ''data'') (to_plist uuid_str pins data)
       (pins (rstr ''msg_id'') (PInteger (uint msg_id)) []))"
| "to_plist_entries uuid_str pins [] dict = dict"
| "to_plist_entries uuid_str pins ((k, v) # rest) dict =
     to_plist_entries uuid_str pins rest (pins k (to_plist uuid_str pins v) dict)"

section \<open>Messages\<close>

record xpc_message =
  msg_flags :: u32
  msg_body :: "xpc_object option"
  msg_id :: "u64 option"

definition WRAPPER_MAGIC :: u32 where "WRAPPER_MAGIC = 0x29b00b92"

definition message_new :: "xpc_flag option \<Rightarrow> xpc_object option \<Rightarrow> u64 option \<Rightarrow> xpc_message" where
  "message_new flags message message_id =
    \<lparr>msg_flags = flag_bits (case flags of None \<Rightarrow> AlwaysSet | Some f \<Rightarrow> f),
     msg_body = message, msg_id = message_id\<rparr>"

text \<open>
  The sums \<open>body_len + 24\<close> and \<open>24 + body_len\<close> are 64-bit machine additions; the release profile
  leaves overflow checks off, so they wrap.
\<close>

definition wire_body_len :: "byte list \<Rightarrow> u64" where
  "wire_body_len data = from_le_bytes (sub 8 8 data)"

definition message_decode :: "(rstring \<Rightarrow> xpc_object \<Rightarrow> xpc_dict \<Rightarrow> xpc_dict) \<Rightarrow> byte list \<Rightarrow>
    (xpc_message, idevice_error) res" where
  "message_decode ins data =
    (if length data < 24 then Err (NotEnoughBytes (length data) 24)
     else if (from_le_bytes (sub 0 4 data) :: u32) \<noteq> WRAPPER_MAGIC then Err (Xpc MalformedXpc)
     else
       let flags = from_le_bytes (sub 4 4 data);
           body_len = wire_body_len data;
           message_id = from_le_bytes (sub 16 8 data)
       in if body_len + 24 > of_nat (length data) then Err (CdTunnel SizeMismatch)
          else
            rbind (if body_len > 0
                   then rbind (index_range 24 (unat (24 + body_len)) data) (\<lambda>body.
                          rmap Some (xpc_decode ins body))
                   else Ok None) (\<lambda>message.
              Ok \<lparr>msg_flags = flags, msg_body = message, msg_id = Some message_id\<rparr>))"

definition message_encode :: "xpc_message \<Rightarrow> u64 \<Rightarrow> (byte list, idevice_error) res" where
  "message_encode m message_id =
    (let out = to_le_bytes WRAPPER_MAGIC @ to_le_bytes (msg_flags m)
     in case msg_body m of
          Some message \<Rightarrow>
            rbind (xpc_encode message) (\<lambda>body.
              Ok (out @ to_le_bytes (of_nat (length body) :: u64) @ to_le_bytes message_id @ body))
        | None \<Rightarrow> Ok (out @ to_le_bytes (0 :: u64) @ to_le_bytes message_id))"

section \<open>Totality, normal forms and lengths\<close>

lemma type_from_cases: "type_from v = Ok t \<Longrightarrow> v = type_code t"
  by (auto simp: type_from_def type_code.simps split: if_splits)

lemma read_key_not_Panic [simp]: "read_key bs \<noteq> Panic"
  by (auto simp: read_key_def rbind_eq_Panic split: prod.splits)

lemma decode_not_Panic:
  "decode_object ins bs \<noteq> Panic"
  "decode_entries ins n acc bs \<noteq> Panic"
  "decode_items ins n bs \<noteq> Panic"
proof (induction ins bs and ins n acc bs and ins n bs
    rule: decode_object_decode_entries_decode_items.induct)
  case (1 ins bs)
  show ?case
  proof
    assume *: "decode_object ins bs = Panic"
    then obtain tag r ty where t: "read_le eof bs = Ok (tag :: u32, r)" "type_from tag = Ok ty"
      by (subst (asm) decode_object.simps) (auto simp: rbind_eq_Panic)
    note un = decode_object.simps [of ins bs] t rbind.simps prod.case xpc_type.case rbind_eq_Panic
    note ih = 1(1-3) [OF t(1) refl t(2)]
    show False
    proof (cases ty)
      case TyDictionary
      with * show False using ih(1) [OF TyDictionary] by (auto simp: un)
    next
      case TyArray
      with * show False using ih(2) [OF TyArray] by (auto simp: un)
    next
      case TyFileTransfer
      with * obtain m r1 where "read_le eof r = Ok (m :: u64, r1)" "decode_object ins r1 = Panic"
        by (auto simp: un)
      with ih(3) [OF TyFileTransfer] show False by simp
    qed (use * in \<open>auto simp: un\<close>)
  qed
qed (auto simp: rbind_eq_Panic)

lemma xpc_decode_not_Panic [simp]: "xpc_decode ins bs \<noteq> Panic"
proof
  assume "xpc_decode ins bs = Panic"
  then have "rmap fst (decode_object ins (drop 8 bs)) = Panic"
    by (simp add: xpc_decode_def split: if_splits)
  with decode_not_Panic(1) [of ins "drop 8 bs"] show False
    by (cases "decode_object ins (drop 8 bs)") simp_all
qed

lemma encode_dvd:
  "xpc_wf x \<Longrightarrow> encode_object x = Ok b \<Longrightarrow> 4 dvd length b"
  "list_all (\<lambda>(k, v). xpc_wf v) d \<Longrightarrow> encode_entries d = Ok b \<Longrightarrow> 4 dvd length b"
  "list_all xpc_wf xs \<Longrightarrow> encode_items xs = Ok b \<Longrightarrow> 4 dvd length b"
proof (induction x and d and xs arbitrary: b and b and b
    rule: encode_object_encode_entries_encode_items.induct)
  case (3 d)
  then have "list_all (\<lambda>(k, v). xpc_wf v) d" by (auto simp: list_all_iff)
  with 3 show ?case by (auto simp: Let_def)
next
  case (9 s)
  then show ?case using calculate_padding_dvd [of "Suc (length s)"] by (auto simp: Let_def ac_simps)
next
  case (10 s)
  then show ?case using calculate_padding_dvd [of "length s"] by (auto simp: Let_def ac_simps)
next
  case (14 k v d)
  then obtain c e where c: "encode_object v = Ok c" "encode_entries d = Ok e"
     "b = k @ [0] @ replicate (calculate_padding (length k + 1)) 0 @ c @ e" by auto
  from 14 c have "4 dvd length c" "4 dvd length e" by auto
  then have "4 dvd (length k + 1 + calculate_padding (length k + 1)) + (length c + length e)"
    by (intro dvd_add calculate_padding_dvd)
  then show ?case by (simp add: c(3) ac_simps)
qed (auto simp: Let_def)

lemma cstring_of_nul_wf: "cstring_of_nul b = Some k \<Longrightarrow> key_wf k \<and> length b = length k + 1"
  by (auto simp: cstring_of_nul_def key_wf_def no_nul_def split: if_splits)

lemma read_key_wf: "read_key bs = Ok (k, r) \<Longrightarrow> key_wf k"
  by (auto simp: read_key_def split: prod.splits dest: cstring_of_nul_wf)

lemma decode_wf_map:
  "insertion_map ins \<Longrightarrow> decode_object ins bs = Ok (x, r) \<Longrightarrow> xpc_wf x"
  "insertion_map ins \<Longrightarrow> decode_entries ins n acc bs = Ok (d, r) \<Longrightarrow> distinct (map fst acc) \<Longrightarrow>
     list_all (\<lambda>(k, v). key_wf k \<and> xpc_wf v) acc \<Longrightarrow>
     distinct (map fst d) \<and> length d \<le> length acc + n \<and>
     list_all (\<lambda>(k, v). key_wf k \<and> xpc_wf v) d"
  "insertion_map ins \<Longrightarrow> decode_items ins n bs = Ok (xs, r) \<Longrightarrow>
     length xs = n \<and> list_all xpc_wf xs"
proof (induction ins bs and ins n acc bs and ins n bs arbitrary: x r and d r and xs r
    rule: decode_object_decode_entries_decode_items.induct)
  case (1 ins bs)
  from 1(5) obtain tag r0 ty where t: "read_le eof bs = Ok (tag :: u32, r0)" "type_from tag = Ok ty"
    by (subst (asm) decode_object.simps) auto
  note un = decode_object.simps [of ins bs] t rbind.simps prod.case xpc_type.case
  show ?case
  proof (cases ty)
    case TyDictionary
    with 1(5) un obtain l r1 m r2 d where
      r: "read_le eof r0 = Ok (l :: u32, r1)" "read_le eof r1 = Ok (m :: u32, r2)"
        "decode_entries ins (unat m) [] r2 = Ok (d, r)" "x = XDictionary d" by (auto simp: un)
    from 1(1) [OF t(1) refl t(2) TyDictionary r(1) refl r(2) refl 1(4) r(3)] r(4) unat_u32_bound [of m]
    show ?thesis by simp
  next
    case TyArray
    with 1(5) un obtain l r1 m r2 d where
      r: "read_le eof r0 = Ok (l :: u32, r1)" "read_le eof r1 = Ok (m :: u32, r2)"
        "decode_items ins (unat m) r2 = Ok (d, r)" "x = XArray d" by (auto simp: un)
    from 1(2) [OF t(1) refl t(2) TyArray r(1) refl r(2) refl 1(4) r(3)] r(4) unat_u32_bound [of m]
    show ?thesis by simp
  next
    case TyFileTransfer
    with 1(5) un obtain m r1 y where
      r: "read_le eof r0 = Ok (m :: u64, r1)" "decode_object ins r1 = Ok (y, r)"
         "x = XFileTransfer m y" by (auto simp: un)
    from 1(3) [OF t(1) refl t(2) TyFileTransfer r(1) refl 1(4) r(2)] r(3) show ?thesis by simp
  next
    case TyString
    with 1(5) un obtain l r1 b r2 k where
      r: "read_exact eof (unat (l :: u32)) r1 = Ok (b, r2)" "cstring_of_nul b = Some k"
      "x = XString k" by (auto simp: un)
    then have "length b = unat l" by (simp add: read_exact_Ok)
    with cstring_of_nul_wf [OF r(2)] r(3) unat_u32_bound [of l] show ?thesis by simp
  next
    case TyData
    with 1(5) un obtain l r1 b r2 where
      r: "read_exact eof (unat (l :: u32)) r1 = Ok (b, r2)" "x = XData b" by (auto simp: un)
    with unat_u32_bound [of l] show ?thesis by (simp add: read_exact_Ok)
  next
    case TyDate
    with 1(5) un obtain n :: u64 where "x = XDate (uint n)" by (auto simp: un)
    with uint_lt2p [of n] show ?thesis by simp
  qed (use 1(5) in \<open>auto simp: un read_exact_Ok\<close>)
next
  case (3 ins n acc bs)
  from 3(4) obtain key r1 v r2 where
    k: "read_key bs = Ok (key, r1)" and v: "decode_object ins r1 = Ok (v, r2)"
    and e: "decode_entries ins n (ins key v acc) r2 = Ok (d, r)" by auto
  have "distinct (map fst (ins key v acc))" using 3(5) by (rule insertion_map.ins_distinct [OF 3(3)])
  moreover have "list_all (\<lambda>(k, v). key_wf k \<and> xpc_wf v) (ins key v acc)"
    using insertion_map.ins_values [OF 3(3), of key v acc] 3(6) read_key_wf [OF k] 3(1) [OF k refl 3(3) v]
    by (fastforce simp: list_all_iff)
  ultimately show ?case
    using 3(2) [OF k refl v refl 3(3) e] insertion_map.ins_length [OF 3(3), of key v acc] by simp
next
  case (5 ins n bs)
  then show ?case by fastforce
qed simp_all

context xpc_map
begin

lemmas decode_wf = decode_wf_map [OF insertion_map_axioms]

lemma xpc_decode_encode: "xpc_wf x \<Longrightarrow> rbind (xpc_encode x) (xpc_decode ins) = Ok x"
proof -
  assume "xpc_wf x"
  then obtain b where b: "encode_object x = Ok b" "\<And>r. decode_object ins (b @ r) = Ok (x, r)"
    using round_trip(1) by blast
  from b(2) [of "[]"] show ?thesis by (simp add: xpc_encode_def xpc_decode_def b(1))
qed

lemma xpc_decode_canonical:
  "xpc_decode ins bs = Ok x \<Longrightarrow> xpc_wf x \<and> rbind (xpc_encode x) (xpc_decode ins) = Ok x"
proof -
  assume "xpc_decode ins bs = Ok x"
  then have "rmap fst (decode_object ins (drop 8 bs)) = Ok x"
    by (simp add: xpc_decode_def split: if_splits)
  then obtain r where "decode_object ins (drop 8 bs) = Ok (x, r)"
    by (cases "decode_object ins (drop 8 bs)") auto
  then have "xpc_wf x" by (rule decode_wf(1))
  with xpc_decode_encode show ?thesis by blast
qed

end

interpretation xpc_codec: strict_codec
  "\<lambda>x. case encode_object x of Ok b \<Rightarrow> b | _ \<Rightarrow> []" "decode_object map_insert" xpc_wf
proof
  fix x rest
  assume "xpc_wf x"
  then obtain b where "encode_object x = Ok b" "\<And>r. decode_object map_insert (b @ r) = Ok (x, r)"
    using xpc_alist.round_trip(1) by blast
  then show "decode_object map_insert ((case encode_object x of Ok b \<Rightarrow> b | _ \<Rightarrow> []) @ rest) = Ok (x, rest)"
    by simp
next
  fix bs x r
  assume "decode_object map_insert bs = Ok (x, r)"
  from decode_shorter(1) [OF this] show "length r < length bs" by simp
qed

section \<open>Conversion: when it panics, and that it loses nothing otherwise\<close>

fun plist_convertible :: "plist_value \<Rightarrow> bool" where
  "plist_convertible (PArray v) \<longleftrightarrow> list_all plist_convertible v"
| "plist_convertible (PDictionary v) \<longleftrightarrow> list_all (\<lambda>(k, x). plist_convertible x) v"
| "plist_convertible (PDate _) \<longleftrightarrow> False"
| "plist_convertible (PUid _) \<longleftrightarrow> False"
| "plist_convertible (PInteger i) \<longleftrightarrow> - (2 ^ 63) \<le> i \<and> i < 2 ^ 63"
| "plist_convertible _ \<longleftrightarrow> True"

fun plist_distinct :: "plist_value \<Rightarrow> bool" where
  "plist_distinct (PArray v) \<longleftrightarrow> list_all plist_distinct v"
| "plist_distinct (PDictionary v) \<longleftrightarrow> distinct (map fst v) \<and> list_all (\<lambda>(k, x). plist_distinct x) v"
| "plist_distinct _ \<longleftrightarrow> True"

lemma as_signed_None: "as_signed i = None \<longleftrightarrow> \<not> (- (2 ^ 63) \<le> i \<and> i < 2 ^ 63)"
  by (simp add: as_signed_def)

lemma from_plist_total:
  "if plist_convertible v then (\<exists>x. from_plist ins v = Ok x) else from_plist ins v = Panic"
  "if list_all plist_convertible vs then (\<exists>xs. from_plist_items ins vs = Ok xs)
   else from_plist_items ins vs = Panic"
  "if list_all (\<lambda>(k, x). plist_convertible x) d then (\<exists>d'. from_plist_entries ins d acc = Ok d')
   else from_plist_entries ins d acc = Panic"
proof (induction ins v and ins vs and ins d acc
    rule: from_plist_from_plist_items_from_plist_entries.induct)
  case (11 ins v vs)
  then show ?case by (auto simp: rbind_eq_Panic split: if_splits)
next
  case (13 ins k v rest dict)
  then show ?case by (fastforce simp: rbind_eq_Panic split: if_splits)
qed (auto simp: as_signed_def split: if_splits)

lemma sint_as_signed: "as_signed i = Some w \<Longrightarrow> sint w = i"
proof -
  assume "as_signed i = Some w"
  then have i: "- (2 ^ 63) \<le> i" "i < 2 ^ 63" "w = word_of_int i"
    by (auto simp: as_signed_def split: if_splits)
  then show ?thesis
    by (simp add: int_word_sint)
qed

lemma to_from_plist:
  "from_plist map_insert v = Ok x \<Longrightarrow> plist_distinct v \<Longrightarrow> to_plist us map_insert x = v"
  "from_plist_items map_insert vs = Ok xs \<Longrightarrow> list_all plist_distinct vs \<Longrightarrow>
     map (to_plist us map_insert) xs = vs"
  "from_plist_entries map_insert d acc = Ok d' \<Longrightarrow> list_all (\<lambda>(k, x). plist_distinct x) d \<Longrightarrow>
     distinct (map fst acc @ map fst d) \<Longrightarrow>
     \<exists>e. d' = acc @ e \<and> map fst e = map fst d \<and>
         (\<forall>p. distinct (map fst (p @ d)) \<longrightarrow> to_plist_entries us map_insert e p = p @ d)"
proof (induction "map_insert :: rstring \<Rightarrow> xpc_object \<Rightarrow> xpc_dict \<Rightarrow> xpc_dict" v and
    "map_insert :: rstring \<Rightarrow> xpc_object \<Rightarrow> xpc_dict \<Rightarrow> xpc_dict" vs and
    "map_insert :: rstring \<Rightarrow> xpc_object \<Rightarrow> xpc_dict \<Rightarrow> xpc_dict" d acc
    arbitrary: x and xs and d'
    rule: from_plist_from_plist_items_from_plist_entries.induct)
  case (2 v)
  then show ?case by fastforce
next
  case (7 v)
  then show ?case by (auto dest: sint_as_signed split: option.splits)
next
  case (13 k v rest dict)
  from 13(3) obtain x where x: "from_plist map_insert v = Ok x"
    and r: "from_plist_entries map_insert rest (map_insert k x dict) = Ok d'" by auto
  have n: "map_insert k x dict = dict @ [(k, x)]" using 13(5) by (auto simp: map_insert_new)
  from 13(1) [OF x] 13(4) have v: "to_plist us map_insert x = v" by simp
  from 13(2) [OF x r] 13(4,5) n obtain e where
    e: "d' = (dict @ [(k, x)]) @ e" "map fst e = map fst rest"
    "\<And>p. distinct (map fst (p @ rest)) \<Longrightarrow> to_plist_entries us map_insert e p = p @ rest"
    by auto
  have "to_plist_entries us map_insert ((k, x) # e) p = p @ (k, v) # rest"
    if "distinct (map fst (p @ (k, v) # rest))" for p
    using that e(3) [of "p @ [(k, v)]"] by (simp add: v map_insert_new)
  with e(1,2) show ?case by (intro exI [of _ "(k, x) # e"]) simp
qed auto

section \<open>The message wrapper\<close>

lemma wire_body_len_encode:
  "length pre = 8 \<Longrightarrow> wire_body_len (pre @ to_le_bytes n @ r) = n"
  by (simp add: wire_body_len_def)

lemma message_decode_Panic_iff:
  assumes "length data < 2 ^ 63"
  shows "message_decode ins data = Panic \<longleftrightarrow>
    24 \<le> length data \<and> (from_le_bytes (sub 0 4 data) :: u32) = WRAPPER_MAGIC \<and>
    2 ^ 64 - 24 \<le> unat (wire_body_len data)"
proof -
  define n where "n = wire_body_len data"
  have b: "unat n < 2 ^ 64" by (rule unat_u64_bound)
  have len: "unat (of_nat (length data) :: u64) = length data"
    using assms by (simp add: unat_of_nat)
  have sum: "unat (n + 24) = (if unat n < 2 ^ 64 - 24 then unat n + 24 else unat n + 24 - 2 ^ 64)"
    using b by (simp add: unat_word_ariths mod_if)
  have "n > 0 \<longleftrightarrow> 0 < unat n" by (simp add: word_less_nat_alt)
  moreover have "n + 24 > of_nat (length data) \<longleftrightarrow> unat (n + 24) > length data"
    by (simp add: word_less_nat_alt len)
  ultimately show ?thesis
    using b sum
    by (auto simp: message_decode_def Let_def n_def [symmetric] rbind_eq_Panic index_range_def
        add.commute [of 24 n] not_less split: if_splits)
qed

section \<open>Properties\<close>

definition xpc_sample :: xpc_object where
  "xpc_sample = XDictionary [(rstr ''a'', XArray [XBool True, XInt64 7, XNull]),
     (rstr ''bc'', XFileTransfer 3 (XString (rstr ''x''))), (rstr ''d'', XDate 5)]"

lemma xpc_sample_wf: "xpc_wf xpc_sample"
  by (simp add: xpc_sample_def key_wf_def no_nul_def utf8_valid_ascii)

text \<open>
  C1. Every well-formed XPC object survives the wire: encoding it succeeds, and decoding the
  encoding, with its magic and version, gives the object back.
\<close>

theorem xpc_round_trip:
  assumes "xpc_wf x"
  shows "\<exists>b. xpc_encode x = Ok b \<and> xpc_decode map_insert b = Ok x"
  using xpc_alist.xpc_decode_encode [OF assms] by auto

theorem xpc_round_trip_witness:
  "xpc_wf xpc_sample \<and>
   (\<exists>b. xpc_encode xpc_sample = Ok b \<and> xpc_decode map_insert b = Ok xpc_sample)"
  using xpc_sample_wf xpc_round_trip [of xpc_sample] by blast

text \<open>
  C3. The XPC decoder is total on arbitrary input: it never panics, and whatever it accepts is
  a well-formed object whose re-encoding decodes to the same object (encoding after decoding is a
  normal form), with the body a multiple of four bytes.
\<close>

theorem xpc_decode_total:
  "case xpc_decode map_insert bs of
     Ok x \<Rightarrow> xpc_wf x \<and> rbind (xpc_encode x) (xpc_decode map_insert) = Ok x \<and>
            (\<exists>b. xpc_encode x = Ok b \<and> 4 dvd length b)
   | Err e \<Rightarrow> True
   | Panic \<Rightarrow> False"
proof (cases "xpc_decode map_insert bs")
  case (Ok x)
  note c = xpc_alist.xpc_decode_canonical [OF Ok]
  then obtain b where b: "encode_object x = Ok b" by (auto simp: xpc_encode_def)
  from c have "xpc_wf x" by blast
  then have "4 dvd length b" using b by (rule encode_dvd(1))
  with c b Ok show ?thesis by (simp add: xpc_encode_def)
qed simp_all

text \<open>
  C4. The message wrapper's length check is defeated by exactly the body lengths within 24 of
  \<open>2 ^ 64\<close>: the sum \<open>body_len + 24\<close> wraps below the buffer's length, the slice \<open>24..24 + body_len\<close>
  is then reversed and the peer's message panics the decoder; no other input does.
\<close>

theorem xpc_message_decode_panics_iff:
  assumes "length data < 2 ^ 63"
  shows "message_decode map_insert data = Panic \<longleftrightarrow>
    24 \<le> length data \<and> (from_le_bytes (sub 0 4 data) :: u32) = WRAPPER_MAGIC \<and>
    2 ^ 64 - 24 \<le> unat (wire_body_len data)"
  using assms by (rule message_decode_Panic_iff)

definition xpc_evil_message :: "byte list" where
  "xpc_evil_message =
    to_le_bytes WRAPPER_MAGIC @ to_le_bytes (0 :: u32) @ to_le_bytes (0xFFFFFFFFFFFFFFF0 :: u64) @
    to_le_bytes (1 :: u64)"

theorem xpc_message_decode_panics_iff_witness:
  "length xpc_evil_message < 2 ^ 63 \<and> message_decode map_insert xpc_evil_message = Panic"
proof -
  have l: "length xpc_evil_message = 24" by (simp add: xpc_evil_message_def)
  have "wire_body_len xpc_evil_message = 0xFFFFFFFFFFFFFFF0"
    by (simp add: xpc_evil_message_def wire_body_len_def)
  moreover have "(from_le_bytes (sub 0 4 xpc_evil_message) :: u32) = WRAPPER_MAGIC"
    by (simp add: xpc_evil_message_def)
  ultimately show ?thesis using xpc_message_decode_panics_iff [of xpc_evil_message] l by simp
qed

text \<open>
  A message whose body is well-formed comes back from \<open>decode\<close> as it was encoded, carrying the
  message id it was encoded with.
\<close>

theorem xpc_message_round_trip:
  assumes "message_encode m i = Ok b" and "length b < 2 ^ 63"
    and "case msg_body m of None \<Rightarrow> True | Some x \<Rightarrow> xpc_wf x"
  shows "message_decode map_insert b = Ok (m\<lparr>msg_id := Some i\<rparr>)"
proof (cases "msg_body m")
  case None
  with assms(1) show ?thesis
    by (auto simp: message_encode_def message_decode_def wire_body_len_def word_less_nat_alt)
next
  case (Some x)
  with assms(1) obtain body where body: "xpc_encode x = Ok body"
    and b: "b = to_le_bytes WRAPPER_MAGIC @ to_le_bytes (msg_flags m) @
      to_le_bytes (of_nat (length body) :: u64) @ to_le_bytes i @ body"
    by (auto simp: message_encode_def)
  from assms(3) Some have "xpc_decode map_insert body = Ok x"
    using xpc_alist.xpc_decode_encode [of x] body by simp
  moreover have "8 \<le> length body" using body by (cases "encode_object x") (auto simp: xpc_encode_def)
  moreover have "length body < 2 ^ 63" using assms(2) b by simp
  moreover have "unat (of_nat (length body) + 24 :: u64) = length body + 24"
    using \<open>length body < 2 ^ 63\<close> by (simp add: unat_word_ariths unat_of_nat)
  moreover have "unat (of_nat (length b) :: u64) = length body + 24"
    using \<open>length body < 2 ^ 63\<close> by (simp add: b unat_word_ariths unat_of_nat)
  moreover have "unat (of_nat (length body) :: u64) = length body"
    using \<open>length body < 2 ^ 63\<close> by (simp add: unat_of_nat)
  moreover have "body \<noteq> []" using \<open>8 \<le> length body\<close> by auto
  ultimately show ?thesis
    using Some
    by (simp add: message_decode_def wire_body_len_def Let_def word_less_nat_alt b
        index_range_def add.commute [of 24])
qed

theorem xpc_message_round_trip_witness:
  "message_encode (message_new (Some WantingReply) (Some XNull) None) 9 =
     Ok (to_le_bytes WRAPPER_MAGIC @ to_le_bytes (0x00010000 :: u32) @ to_le_bytes (12 :: u64) @
         to_le_bytes (9 :: u64) @ to_le_bytes XPC_MAGIC @ to_le_bytes XPC_VERSION @
         to_le_bytes (type_code TyNull)) \<and>
   message_decode map_insert
     (to_le_bytes WRAPPER_MAGIC @ to_le_bytes (0x00010000 :: u32) @ to_le_bytes (12 :: u64) @
      to_le_bytes (9 :: u64) @ to_le_bytes XPC_MAGIC @ to_le_bytes XPC_VERSION @
      to_le_bytes (type_code TyNull)) =
   Ok \<lparr>msg_flags = 0x00010000, msg_body = Some XNull, msg_id = Some 9\<rparr>"
proof -
  define m where "m = message_new (Some WantingReply) (Some XNull) None"
  define b where "b = to_le_bytes WRAPPER_MAGIC @ to_le_bytes (0x00010000 :: u32) @
    to_le_bytes (12 :: u64) @ to_le_bytes (9 :: u64) @ to_le_bytes XPC_MAGIC @
    to_le_bytes XPC_VERSION @ to_le_bytes (type_code TyNull)"
  have e: "message_encode m 9 = Ok b"
    by (simp add: m_def b_def message_new_def message_encode_def xpc_encode_def)
  have "message_decode map_insert b = Ok (m\<lparr>msg_id := Some 9\<rparr>)"
    by (rule xpc_message_round_trip [OF e]) (simp_all add: b_def m_def message_new_def)
  with e show ?thesis by (simp add: m_def b_def message_new_def)
qed

text \<open>
  C14. Converting a property list to an XPC object panics exactly when it holds a date, a UID or an
  integer outside \<open>i64\<close>; otherwise it succeeds, and \<open>to_plist\<close> undoes it (for dictionaries
  with distinct keys, as every dictionary of the crate has).
\<close>

theorem xpc_plist_round_trip:
  assumes "plist_distinct v"
  shows "if plist_convertible v
    then \<exists>x. from_plist map_insert v = Ok x \<and> to_plist uuid_str map_insert x = v
    else from_plist map_insert v = Panic"
  using from_plist_total(1) [of v map_insert] to_from_plist(1) [OF _ assms] by auto

theorem xpc_plist_round_trip_witness:
  "(\<exists>x. from_plist map_insert (PDictionary [(rstr ''k'', PInteger 7)]) = Ok x \<and>
      to_plist (\<lambda>_. []) map_insert x = PDictionary [(rstr ''k'', PInteger 7)]) \<and>
   from_plist map_insert (PArray [PInteger (2 ^ 63)]) = Panic"
  using xpc_plist_round_trip [of "PDictionary [(rstr ''k'', PInteger 7)]" "\<lambda>_. []"]
    xpc_plist_round_trip [of "PArray [PInteger (2 ^ 63)]" "\<lambda>_. []"] by simp

end
