(* ===== verification/Http2_Frame.thy ===== *)
theory Http2_Frame
  imports Codec Errors
begin

text \<open>
  xpc/http2/frame.rs: the frames of the HTTP/2 subset spoken over the tunnel, \<open>Frame::parse\<close> with
  its three outcomes (a frame, not enough bytes yet, an error), and the four serializers.
\<close>

section \<open>Frames\<close>

datatype h2_setting = MaxConcurrentStreams u32 | InitialWindowSize u32

record settings_frame =
  sf_settings :: "h2_setting list"
  sf_stream_id :: u32
  sf_flags :: byte

record window_update_frame =
  wf_increment_size :: u32
  wf_stream_id :: u32

record headers_frame =
  hf_stream_id :: u32

record rst_stream_frame =
  rf_stream_id :: u32

record data_frame =
  df_stream_id :: u32
  df_payload :: "byte list"
  df_end_stream :: bool

datatype frame =
    FSettings settings_frame
  | FWindowUpdate window_update_frame
  | FHeaders headers_frame
  | FData data_frame
  | FRstStream rst_stream_frame

definition FRAME_HEADER_LEN :: nat where "FRAME_HEADER_LEN = 9"

text \<open>The entries of a SETTINGS body; up to five bytes left over are ignored.\<close>

fun parse_settings :: "byte list \<Rightarrow> (h2_setting list, idevice_error) res" where
  "parse_settings (t0 # t1 # v0 # v1 # v2 # v3 # rest) =
    (let setting_type = from_be_bytes [t0, t1];
         value = from_be_bytes [v0, v1, v2, v3]
     in rbind (if setting_type = 0x03 then Ok (MaxConcurrentStreams value)
               else if setting_type = 0x04 then Ok (InitialWindowSize value)
               else Err (Xpc (UnknownHttpSetting setting_type))) (\<lambda>s.
        rmap (\<lambda>settings. s # settings) (parse_settings rest)))"
| "parse_settings _ = Ok []"

definition frame_parse :: "byte list \<Rightarrow> ((frame \<times> nat) option, idevice_error) res" where
  "frame_parse buf =
    (if length buf < FRAME_HEADER_LEN then Ok None
     else
       let frame_len = unat (from_be_bytes (0 # sub 0 3 buf) :: u32);
           frame_type = buf ! 3;
           flags = buf ! 4;
           stream_id = from_be_bytes (sub 5 4 buf);
           total = FRAME_HEADER_LEN + frame_len
       in if length buf < total then Ok None
          else
            let body = sub FRAME_HEADER_LEN frame_len buf
            in rmap (\<lambda>f. Some (f, total))
              (if frame_type = 0x00 then
                 Ok (FData \<lparr>df_stream_id = stream_id, df_payload = body,
                            df_end_stream = flags AND 0x01 \<noteq> 0\<rparr>)
               else if frame_type = 0x01 then Ok (FHeaders \<lparr>hf_stream_id = stream_id\<rparr>)
               else if frame_type = 0x03 then Ok (FRstStream \<lparr>rf_stream_id = stream_id\<rparr>)
               else if frame_type = 0x04 then
                 rmap (\<lambda>settings. FSettings \<lparr>sf_settings = settings, sf_stream_id = stream_id,
                                               sf_flags = flags\<rparr>) (parse_settings body)
               else if frame_type = 0x07 then
                 Err (Xpc (HttpGoAway
                   (if length body < 8 then rstr ''<MISSING>'' else utf8_lossy (drop 8 body))))
               else if frame_type = 0x08 then
                 (if length body \<noteq> 4
                  then Err (UnexpectedResponse ''HTTP/2 window update frame body was not 4 bytes'')
                  else Ok (FWindowUpdate \<lparr>wf_increment_size = from_be_bytes body,
                                           wf_stream_id = stream_id\<rparr>))
               else Err (Xpc (UnknownFrame frame_type))))"

text \<open>Only the low three bytes of a payload length are written.\<close>

definition len24 :: "nat \<Rightarrow> byte list" where
  "len24 n = sub 1 3 (to_be_bytes (of_nat n :: u32))"

primrec setting_serialize :: "h2_setting \<Rightarrow> byte list" where
  "setting_serialize (MaxConcurrentStreams m) = [0x00, 0x03] @ to_be_bytes m"
| "setting_serialize (InitialWindowSize s) = [0x00, 0x04] @ to_be_bytes s"

definition settings_serialize :: "settings_frame \<Rightarrow> byte list" where
  "settings_serialize f =
    (let settings = concat (map setting_serialize (sf_settings f))
     in len24 (length settings) @ [0x04, sf_flags f] @ to_be_bytes (sf_stream_id f) @ settings)"

definition window_update_serialize :: "window_update_frame \<Rightarrow> byte list" where
  "window_update_serialize f =
    [0x00, 0x00, 0x04, 0x08, 0x00] @ to_be_bytes (wf_stream_id f) @ to_be_bytes (wf_increment_size f)"

definition headers_serialize :: "headers_frame \<Rightarrow> byte list" where
  "headers_serialize f = [0x00, 0x00, 0x00, 0x01, 0x04] @ to_be_bytes (hf_stream_id f)"

definition data_serialize :: "data_frame \<Rightarrow> byte list" where
  "data_serialize f =
    len24 (length (df_payload f)) @ [0x00] @ [if df_end_stream f then 0x01 else 0x00] @
    to_be_bytes (df_stream_id f) @ df_payload f"

section \<open>Parsing what was serialized\<close>

lemma len24_eq: "n < 2 ^ 32 \<Longrightarrow> len24 n = rev (nat_le 3 n)"
  by (simp add: len24_def to_be_bytes_def to_le_bytes_def unat_of_nat nat_le_4 nat_le_3 sub_def)

lemma length_len24 [simp]: "length (len24 n) = 3"
  by (simp add: len24_def)

lemma len24_shape: "\<exists>a b c. len24 n = [a, b, c]"
  by (simp add: len24_def to_be_bytes_def to_le_bytes_def nat_le_4 nat_le_3 sub_def)

lemma be24:
  assumes "n < 2 ^ 24"
  shows "unat (from_be_bytes (0 # len24 n) :: u32) = n"
proof -
  have "len24 n = rev (nat_le 3 n)" by (rule len24_eq) (use assms in simp)
  then have "(from_be_bytes (0 # len24 n) :: u32) = of_nat (le_nat (nat_le 3 n @ [0]))"
    by (simp add: from_be_bytes_def from_le_bytes_def)
  also have "le_nat (nat_le 3 n @ [0]) = n"
    using assms by (simp only: le_nat_append le_nat_nat_le) simp
  finally show ?thesis using assms by (simp add: unat_of_nat)
qed

lemma be32_shape: "\<exists>a b c d. to_be_bytes (v :: u32) = [a, b, c, d] \<and> from_be_bytes [a, b, c, d] = v"
proof -
  obtain a b c d where s: "to_be_bytes v = [a, b, c, d]"
    by (simp add: to_be_bytes_def to_le_bytes_def nat_le_4 nat_le_3)
  have "from_be_bytes (to_be_bytes v) = v" by simp
  with s show ?thesis by auto
qed

lemma setting_ids:
  "(from_be_bytes [0, 3] :: u16) = 3" "(from_be_bytes [0, 4] :: u16) = 4"
  by (simp_all add: from_be_bytes_def from_le_bytes_def)

lemma parse_settings_serialize:
  "parse_settings (concat (map setting_serialize ss)) = Ok ss"
proof (induction ss)
  case Nil
  then show ?case by simp
next
  case (Cons s ss)
  show ?case
  proof (cases s)
    case (MaxConcurrentStreams v)
    with Cons be32_shape [of v] show ?thesis by (auto simp: setting_ids)
  next
    case (InitialWindowSize v)
    with Cons be32_shape [of v] show ?thesis by (auto simp: setting_ids)
  qed
qed

lemma frame_parse_header:
  assumes "n < 2 ^ 24" and "length body = n"
  shows "frame_parse (len24 n @ [ty, fl] @ to_be_bytes sid @ body @ rest) =
    rmap (\<lambda>f. Some (f, 9 + n))
      (if ty = 0x00 then Ok (FData \<lparr>df_stream_id = sid, df_payload = body,
                                     df_end_stream = fl AND 0x01 \<noteq> 0\<rparr>)
       else if ty = 0x01 then Ok (FHeaders \<lparr>hf_stream_id = sid\<rparr>)
       else if ty = 0x03 then Ok (FRstStream \<lparr>rf_stream_id = sid\<rparr>)
       else if ty = 0x04 then
         rmap (\<lambda>settings. FSettings \<lparr>sf_settings = settings, sf_stream_id = sid, sf_flags = fl\<rparr>)
           (parse_settings body)
       else if ty = 0x07 then
         Err (Xpc (HttpGoAway
           (if length body < 8 then rstr ''<MISSING>'' else utf8_lossy (drop 8 body))))
       else if ty = 0x08 then
         (if length body \<noteq> 4
          then Err (UnexpectedResponse ''HTTP/2 window update frame body was not 4 bytes'')
          else Ok (FWindowUpdate \<lparr>wf_increment_size = from_be_bytes body, wf_stream_id = sid\<rparr>))
       else Err (Xpc (UnknownFrame ty)))"
proof -
  obtain a b c where l: "len24 n = [a, b, c]" using len24_shape by blast
  obtain w x y z where w: "to_be_bytes sid = [w, x, y, z]" using be32_shape by blast
  let ?buf = "len24 n @ [ty, fl] @ to_be_bytes sid @ body @ rest"
  have "sub 0 3 ?buf = len24 n" by (simp add: sub_def)
  moreover have "sub 5 4 ?buf = to_be_bytes sid" by (simp add: sub_def l w)
  moreover have "?buf ! 3 = ty" "?buf ! 4 = fl" by (simp_all add: l)
  moreover have "sub 9 n ?buf = body" using assms(2) by (simp add: sub_def l w)
  moreover have "length ?buf = 9 + n + length rest" using assms(2) by simp
  moreover have "unat (from_be_bytes (0 # len24 n) :: u32) = n" using assms(1) by (rule be24)
  ultimately show ?thesis
    by (simp only: frame_parse_def FRAME_HEADER_LEN_def Let_def from_to_bytes assms(2)) simp
qed

text \<open>The implementations of \<open>HttpFrame\<close>; an RST_STREAM is never sent.\<close>

definition frame_wire :: "frame \<Rightarrow> byte list option" where
  "frame_wire f =
    (case f of
       FSettings s \<Rightarrow> Some (settings_serialize s)
     | FWindowUpdate w \<Rightarrow> Some (window_update_serialize w)
     | FHeaders h \<Rightarrow> Some (headers_serialize h)
     | FData d \<Rightarrow> Some (data_serialize d)
     | FRstStream _ \<Rightarrow> None)"

definition frame_fits :: "frame \<Rightarrow> bool" where
  "frame_fits f \<longleftrightarrow>
    (case f of
       FSettings s \<Rightarrow> 6 * length (sf_settings s) < 2 ^ 24
     | FData d \<Rightarrow> length (df_payload d) < 2 ^ 24
     | _ \<Rightarrow> True)"

lemma length_settings [simp]:
  "length (concat (map setting_serialize ss)) = 6 * length ss"
proof (induction ss)
  case (Cons s ss)
  then show ?case by (cases s) simp_all
qed simp

lemma len24_const: "len24 4 = [0, 0, 4]" "len24 0 = [0, 0, 0]"
  by (simp_all add: len24_eq nat_le_3)

lemma settings_parse:
  "6 * length (sf_settings s) < 2 ^ 24 \<Longrightarrow>
   frame_parse (settings_serialize s @ rest) = Ok (Some (FSettings s, length (settings_serialize s)))"
  using frame_parse_header [of "6 * length (sf_settings s)"
      "concat (map setting_serialize (sf_settings s))" 4 "sf_flags s" "sf_stream_id s" rest]
  by (simp add: settings_serialize_def parse_settings_serialize Let_def)

lemma window_update_parse:
  "frame_parse (window_update_serialize w @ rest) =
     Ok (Some (FWindowUpdate w, length (window_update_serialize w)))"
  using frame_parse_header [of 4 "to_be_bytes (wf_increment_size w)" 8 0 "wf_stream_id w" rest]
  by (simp add: window_update_serialize_def len24_const)

lemma headers_parse:
  "frame_parse (headers_serialize h @ rest) = Ok (Some (FHeaders h, length (headers_serialize h)))"
  using frame_parse_header [of 0 "[]" 1 4 "hf_stream_id h" rest]
  by (simp add: headers_serialize_def len24_const)

lemma data_parse:
  "length (df_payload d) < 2 ^ 24 \<Longrightarrow>
   frame_parse (data_serialize d @ rest) = Ok (Some (FData d, length (data_serialize d)))"
  using frame_parse_header [of "length (df_payload d)" "df_payload d" 0
      "if df_end_stream d then 1 else 0" "df_stream_id d" rest]
  by (cases "df_end_stream d") (simp_all add: data_serialize_def)

lemma frame_wire_parse:
  "frame_wire f = Some w \<Longrightarrow> frame_fits f \<Longrightarrow> frame_parse (w @ rest) = Ok (Some (f, length w))"
  by (cases f) (auto simp: frame_wire_def frame_fits_def settings_parse window_update_parse
      headers_parse data_parse)

section \<open>Parsing an incomplete or a longer buffer\<close>

lemma frame_parse_append:
  assumes "frame_parse buf \<noteq> Ok None"
  shows "frame_parse (buf @ extra) = frame_parse buf"
proof -
  have l: "9 \<le> length buf"
    using assms by (simp add: frame_parse_def FRAME_HEADER_LEN_def split: if_splits)
  define n where "n = unat (from_be_bytes (0 # sub 0 3 buf) :: u32)"
  have n: "9 + n \<le> length buf"
    using assms by (auto simp: frame_parse_def FRAME_HEADER_LEN_def n_def Let_def split: if_splits)
  have "sub 0 3 (buf @ extra) = sub 0 3 buf" "sub 5 4 (buf @ extra) = sub 5 4 buf"
    "sub 9 n (buf @ extra) = sub 9 n buf" "(buf @ extra) ! 3 = buf ! 3" "(buf @ extra) ! 4 = buf ! 4"
    using l n by (simp_all add: nth_append)
  with l n show ?thesis
    by (simp only: frame_parse_def FRAME_HEADER_LEN_def Let_def n_def [symmetric]) simp
qed

lemma frame_parse_Some:
  "frame_parse buf = Ok (Some (f, n)) \<Longrightarrow> 9 \<le> n \<and> n \<le> length buf"
  by (auto simp: frame_parse_def FRAME_HEADER_LEN_def Let_def split: if_splits)

lemma parse_settings_not_Panic [simp]: "parse_settings b \<noteq> Panic"
  by (induction b rule: parse_settings.induct) (auto simp: Let_def rbind_eq_Panic)

lemma frame_parse_not_Panic [simp]: "frame_parse buf \<noteq> Panic"
  by (auto simp: frame_parse_def Let_def)

lemma frame_parse_prefix:
  assumes "frame_parse w = Ok (Some (f, length w))" and "k < length w"
  shows "frame_parse (take k w) = Ok None"
proof (rule ccontr)
  assume "frame_parse (take k w) \<noteq> Ok None"
  from frame_parse_append [OF this, of "drop k w"] assms(1)
  have "frame_parse (take k w) = Ok (Some (f, length w))" by simp
  from frame_parse_Some [OF this] assms(2) show False by simp
qed

lemma frame_parse_take:
  assumes "frame_parse buf = Ok (Some (f, n))"
  shows "frame_parse (take n buf) = Ok (Some (f, n))"
proof -
  have n: "9 \<le> n" "n \<le> length buf" using frame_parse_Some [OF assms] by simp_all
  define m where "m = unat (from_be_bytes (0 # sub 0 3 buf) :: u32)"
  have m: "n = 9 + m"
    using assms by (auto simp: frame_parse_def FRAME_HEADER_LEN_def m_def Let_def split: if_splits)
  have "sub 0 3 (take n buf) = sub 0 3 buf" "sub 5 4 (take n buf) = sub 5 4 buf"
    "sub 9 m (take n buf) = sub 9 m buf" "take n buf ! 3 = buf ! 3" "take n buf ! 4 = buf ! 4"
    using n m by (simp_all add: sub_def drop_take min_def)
  then have "frame_parse (take n buf) = frame_parse buf"
    using n m by (simp only: frame_parse_def FRAME_HEADER_LEN_def Let_def m_def [symmetric]) simp
  with assms show ?thesis by simp
qed

section \<open>Properties\<close>

text \<open>
  A frame the client can send is parsed back, whatever follows it in the buffer, with exactly
  its own length consumed; and every proper prefix of it is reported as incomplete, so no
  frame is ever cut short or split.
\<close>

theorem h2_frame_round_trip:
  assumes "frame_wire f = Some w" and "frame_fits f"
  shows "frame_parse (w @ rest) = Ok (Some (f, length w)) \<and>
    (\<forall>k < length w. frame_parse (take k w) = Ok None)"
proof -
  have "frame_parse w = Ok (Some (f, length w))"
    using frame_wire_parse [OF assms, of "[]"] by simp
  then show ?thesis using frame_wire_parse [OF assms] frame_parse_prefix by blast
qed

theorem h2_frame_round_trip_witness:
  "frame_parse (data_serialize \<lparr>df_stream_id = 1, df_payload = [5, 6], df_end_stream = True\<rparr> @ [7]) =
     Ok (Some (FData \<lparr>df_stream_id = 1, df_payload = [5, 6], df_end_stream = True\<rparr>, 11)) \<and>
   frame_parse (take 10 (data_serialize
     \<lparr>df_stream_id = 1, df_payload = [5, 6], df_end_stream = True\<rparr>)) = Ok None"
proof -
  let ?d = "\<lparr>df_stream_id = 1, df_payload = [5, 6], df_end_stream = True\<rparr>"
  have l: "length (data_serialize ?d) = 11" by (simp add: data_serialize_def)
  have "frame_wire (FData ?d) = Some (data_serialize ?d)" "frame_fits (FData ?d)"
    by (simp_all add: frame_wire_def frame_fits_def)
  from h2_frame_round_trip [OF this, of "[7]"] l show ?thesis by simp
qed

end
