(* ===== verification/Http2_Client.thy ===== *)
theory Http2_Client
  imports Http2_Frame Transport
begin

text \<open>
  xpc/http2/mod.rs: the HTTP/2 client. Its state is the struct's fields; each method is an action
  on it. The flow-control windows are the source's \<open>i64\<close>s as integers: leaving the \<open>i64\<close> range
  takes \<open>2 ^ 31\<close> WINDOW_UPDATE frames of the largest increment.
\<close>

section \<open>State and operations\<close>

definition HTTP2_MAGIC :: "byte list" where
  "HTTP2_MAGIC = rstr ''PRI * HTTP/2.0'' @ [13, 10, 13, 10] @ rstr ''SM'' @ [13, 10, 13, 10]"

definition DEFAULT_WINDOW :: int where "DEFAULT_WINDOW = 65535"

record http2_client =
  h_inner :: transport
  h_cache :: "u32 \<rightharpoonup> byte list list"
  h_conn_send_window :: int
  h_stream_send_windows :: "u32 \<rightharpoonup> int"
  h_peer_initial_window :: int
  h_recv_buf :: "byte list"
  h_finished :: "u32 set"

definition http2_new :: "transport \<Rightarrow> (http2_client, idevice_error) res" where
  "http2_new inner =
    (case act_bind (tp_write_all HTTP2_MAGIC) (\<lambda>_. tp_flush) inner of
       (Ok _, t) \<Rightarrow> Ok \<lparr>h_inner = t, h_cache = Map.empty, h_conn_send_window = DEFAULT_WINDOW,
         h_stream_send_windows = Map.empty, h_peer_initial_window = DEFAULT_WINDOW,
         h_recv_buf = [], h_finished = {}\<rparr>
     | (Err e, t) \<Rightarrow> Err e
     | (Panic, t) \<Rightarrow> Panic)"

definition h_io :: "(transport, 'a) act \<Rightarrow> (http2_client, 'a) act" where
  "h_io m s = (case m (h_inner s) of (r, t) \<Rightarrow> (r, s\<lparr>h_inner := t\<rparr>))"

definition write_flush :: "byte list \<Rightarrow> (http2_client, unit) act" where
  "write_flush bs = act_bind (h_io (tp_write_all bs)) (\<lambda>_. h_io tp_flush)"

definition CLOSED :: idevice_error where
  "CLOSED = UnexpectedResponse ''HTTP/2 connection closed by peer''"

text \<open>\<open>h_input\<close>: everything received or still to arrive that no frame has been cut from yet.\<close>

definition h_input :: "http2_client \<Rightarrow> byte list" where
  "h_input s = h_recv_buf s @ tp_pending (h_inner s)"

function next_frame :: "http2_client \<Rightarrow> (frame, idevice_error) res \<times> http2_client" where
  "next_frame s =
    (case frame_parse (h_recv_buf s) of
       Ok (Some (f, consumed)) \<Rightarrow> (Ok f, s\<lparr>h_recv_buf := drop consumed (h_recv_buf s)\<rparr>)
     | Ok None \<Rightarrow>
         (case tp_read 16384 (h_inner s) of (tmp, t) \<Rightarrow>
            if tmp = [] then (Err CLOSED, s\<lparr>h_inner := t\<rparr>)
            else next_frame (s\<lparr>h_inner := t, h_recv_buf := h_recv_buf s @ tmp\<rparr>))
     | Err e \<Rightarrow> (Err e, s)
     | Panic \<Rightarrow> (Panic, s))"
  by pat_completeness auto
termination
  by (relation "measure (\<lambda>s. length (tp_pending (h_inner s)))")
    (auto dest: tp_read_pending [OF sym])

declare next_frame.simps [simp del]

definition set_settings :: "h2_setting list \<Rightarrow> u32 \<Rightarrow> (http2_client, unit) act" where
  "set_settings settings stream_id =
    write_flush (settings_serialize
      \<lparr>sf_settings = settings, sf_stream_id = stream_id, sf_flags = 0\<rparr>)"

definition window_update :: "u32 \<Rightarrow> u32 \<Rightarrow> (http2_client, unit) act" where
  "window_update increment_size stream_id =
    write_flush (window_update_serialize
      \<lparr>wf_increment_size = increment_size, wf_stream_id = stream_id\<rparr>)"

definition or_default :: "u32 \<Rightarrow> http2_client \<Rightarrow> http2_client" where
  "or_default sid s =
    (case h_cache s sid of None \<Rightarrow> s\<lparr>h_cache := (h_cache s)(sid \<mapsto> [])\<rparr> | Some _ \<Rightarrow> s)"

definition open_stream :: "u32 \<Rightarrow> (http2_client, unit) act" where
  "open_stream stream_id =
    act_bind (act_upd (or_default stream_id)) (\<lambda>_.
      write_flush (headers_serialize \<lparr>hf_stream_id = stream_id\<rparr>))"

definition stream_send_window :: "u32 \<Rightarrow> http2_client \<Rightarrow> int \<times> http2_client" where
  "stream_send_window sid s =
    (case h_stream_send_windows s sid of
       Some w \<Rightarrow> (w, s)
     | None \<Rightarrow> (h_peer_initial_window s,
         s\<lparr>h_stream_send_windows := (h_stream_send_windows s)(sid \<mapsto> h_peer_initial_window s)\<rparr>))"

primrec apply_setting :: "h2_setting \<Rightarrow> http2_client \<Rightarrow> http2_client" where
  "apply_setting (InitialWindowSize new) s =
    (let delta = uint new - h_peer_initial_window s
     in s\<lparr>h_peer_initial_window := uint new,
          h_stream_send_windows := (\<lambda>sid. map_option (\<lambda>w. w + delta) (h_stream_send_windows s sid))\<rparr>)"
| "apply_setting (MaxConcurrentStreams _) s = s"

definition credit_window :: "window_update_frame \<Rightarrow> http2_client \<Rightarrow> http2_client" where
  "credit_window w s =
    (if wf_stream_id w = 0
     then s\<lparr>h_conn_send_window := h_conn_send_window s + uint (wf_increment_size w)\<rparr>
     else case stream_send_window (wf_stream_id w) s of (v, s') \<Rightarrow>
       s'\<lparr>h_stream_send_windows :=
            (h_stream_send_windows s')(wf_stream_id w \<mapsto> v + uint (wf_increment_size w))\<rparr>)"

definition cache_push :: "data_frame \<Rightarrow> http2_client \<Rightarrow> http2_client" where
  "cache_push d s =
    (let q = (case h_cache s (df_stream_id d) of None \<Rightarrow> [] | Some q \<Rightarrow> q)
     in s\<lparr>h_cache := (h_cache s)(df_stream_id d \<mapsto> q @ [df_payload d])\<rparr>)"

text \<open>The body of \<open>pump\<close> after \<open>next_frame\<close>, one branch per arm of its match.\<close>

definition handle_frame :: "frame \<Rightarrow> (http2_client, unit) act" where
  "handle_frame f =
    (case f of
       FSettings sf \<Rightarrow>
         if sf_flags sf \<noteq> 1 then
           act_bind (act_upd (fold apply_setting (sf_settings sf))) (\<lambda>_.
             write_flush (settings_serialize
               \<lparr>sf_settings = [], sf_stream_id = sf_stream_id sf, sf_flags = 1\<rparr>))
         else act_ok ()
     | FWindowUpdate w \<Rightarrow> act_upd (credit_window w)
     | FRstStream r \<Rightarrow>
         (\<lambda>s. if rf_stream_id r \<in> h_finished s
              then (Ok (), s\<lparr>h_finished := h_finished s - {rf_stream_id r}\<rparr>)
              else (Err (Xpc HttpStreamReset), s))
     | FData d \<Rightarrow>
         act_bind (act_upd (cache_push d)) (\<lambda>_.
           let len = of_nat (length (df_payload d)) :: u32
           in if len > 0 then
                act_bind (h_io (tp_write_all (window_update_serialize
                  \<lparr>wf_increment_size = len, wf_stream_id = 0\<rparr>))) (\<lambda>_.
                act_bind (h_io (tp_write_all (window_update_serialize
                  \<lparr>wf_increment_size = len, wf_stream_id = df_stream_id d\<rparr>))) (\<lambda>_.
                h_io tp_flush))
              else act_ok ())
     | FHeaders _ \<Rightarrow> act_ok ())"

definition pump :: "(http2_client, unit) act" where
  "pump = act_bind next_frame handle_frame"

section \<open>What a frame does to the state\<close>

lemma next_frame_input:
  "next_frame s = (r, s') \<Longrightarrow>
     (case r of
        Ok f \<Rightarrow> (\<exists>w. h_input s = w @ h_input s' \<and> frame_parse w = Ok (Some (f, length w)))
      | _ \<Rightarrow> h_input s' = h_input s) \<and>
     tp_out (h_inner s') = tp_out (h_inner s) \<and>
     s' = s\<lparr>h_inner := h_inner s', h_recv_buf := h_recv_buf s'\<rparr>"
proof (induction s arbitrary: r s' rule: next_frame.induct)
  case (1 s)
  consider (some) f n where "frame_parse (h_recv_buf s) = Ok (Some (f, n))"
    | (more) "frame_parse (h_recv_buf s) = Ok None"
    | (err) e where "frame_parse (h_recv_buf s) = Err e"
    by (cases "frame_parse (h_recv_buf s)") force+
  then show ?case
  proof cases
    case (some f n)
    let ?w = "take n (h_recv_buf s)"
    have n: "9 \<le> n" "n \<le> length (h_recv_buf s)" using frame_parse_Some [OF some] by simp_all
    have "frame_parse ?w = Ok (Some (f, length ?w))"
      using n some frame_parse_take [OF some] by simp
    with 1(2) some n show ?thesis
      by (auto simp: next_frame.simps [of s] h_input_def intro!: exI [of _ ?w])
  next
    case more
    obtain tmp t where r: "tp_read 16384 (h_inner s) = (tmp, t)" by fastforce
    have p: "tp_pending (h_inner s) = tmp @ tp_pending t" "tp_out t = tp_out (h_inner s)"
      using tp_read_pending [OF r] tp_read_same(1) [of 16384 "h_inner s"] r by simp_all
    show ?thesis
    proof (cases "tmp = []")
      case True
      with 1(2) more r p show ?thesis
        by (auto simp: next_frame.simps [of s] h_input_def)
    next
      case False
      let ?u = "s\<lparr>h_inner := t, h_recv_buf := h_recv_buf s @ tmp\<rparr>"
      have "next_frame ?u = (r, s')"
        using 1(2) more r False by (simp add: next_frame.simps [of s])
      note ih = 1(1) [OF more refl r [symmetric] False this]
      have "h_input ?u = h_input s" using p(1) by (simp add: h_input_def)
      with ih p(2) show ?thesis by (cases r) auto
    qed
  next
    case (err e)
    with 1(2) show ?thesis by (auto simp: next_frame.simps [of s])
  qed
qed

text \<open>The frames the client has sent, as the peer parses them; only DATA frames cost window.\<close>

definition sent_data :: "byte list list \<Rightarrow> data_frame list" where
  "sent_data ws = concat (map (\<lambda>w. case frame_parse w of Ok (Some (FData d, _)) \<Rightarrow> [d] | _ \<Rightarrow> []) ws)"

lemma sent_data_simps [simp]:
  "sent_data [] = []" "sent_data (xs @ ys) = sent_data xs @ sent_data ys"
  by (simp_all add: sent_data_def)

lemma frame_parse_FData: "frame_parse buf = Ok (Some (FData d, n)) \<Longrightarrow> buf ! 3 = 0"
  by (auto simp: frame_parse_def Let_def split: if_splits)

lemma sent_data_other: "w ! 3 \<noteq> 0 \<Longrightarrow> sent_data [w] = []"
  using frame_parse_FData [of w]
  by (auto simp: sent_data_def split: res.splits option.splits prod.splits frame.splits)

lemma sent_data_control [simp]:
  "sent_data [settings_serialize s] = []" "sent_data [window_update_serialize w] = []"
  "sent_data [headers_serialize h] = []"
proof -
  obtain a b c where l: "len24 (length (concat (map setting_serialize (sf_settings s)))) = [a, b, c]"
    using len24_shape by blast
  then have "settings_serialize s ! 3 = 4"
    by (simp only: settings_serialize_def Let_def) simp
  then show "sent_data [settings_serialize s] = []" by (simp add: sent_data_other)
qed (simp_all add: sent_data_other window_update_serialize_def headers_serialize_def)

lemma sent_data_data [simp]:
  "length (df_payload d) < 2 ^ 24 \<Longrightarrow> sent_data [data_serialize d] = [d]"
  using data_parse [of d "[]"] by (simp add: sent_data_def)

text \<open>\<open>h_same s s'\<close>: the same up to control frames written meanwhile.\<close>

definition h_same :: "http2_client \<Rightarrow> http2_client \<Rightarrow> bool" where
  "h_same s s' \<longleftrightarrow> s' = s\<lparr>h_inner := h_inner s'\<rparr> \<and> h_input s' = h_input s \<and>
     sent_data (tp_out (h_inner s')) = sent_data (tp_out (h_inner s))"

lemma h_same_refl [simp]: "h_same s s"
  by (simp add: h_same_def)

lemma h_same_trans: "h_same s t \<Longrightarrow> h_same t u \<Longrightarrow> h_same s u"
  by (simp add: h_same_def) (metis http2_client.surjective http2_client.update_convs(1))

lemma h_io_eq: "h_io m s = (fst (m (h_inner s)), s\<lparr>h_inner := snd (m (h_inner s))\<rparr>)"
  by (simp add: h_io_def split_beta)

lemma h_same_write:
  "sent_data [w] = [] \<Longrightarrow> h_same s (snd (h_io (tp_write_all w) s))"
  by (simp add: h_same_def h_io_eq h_input_def tp_pending_def tp_write_all_out)

lemma h_same_flush: "h_same s (snd (h_io tp_flush s))"
  by (simp add: h_same_def h_io_eq h_input_def tp_pending_def)

lemma h_same_bind:
  "h_same s (snd (m s)) \<Longrightarrow> (\<And>a t. h_same t (snd (f a t))) \<Longrightarrow> h_same s (snd (act_bind m f s))"
  by (auto simp: act_bind_def split: prod.split res.split) (metis h_same_trans snd_conv)

lemma h_same_write_flush: "sent_data [w] = [] \<Longrightarrow> h_same s (snd (write_flush w s))"
  unfolding write_flush_def by (intro h_same_bind h_same_write h_same_flush)

section \<open>The peer's view: windows and payloads computed from the frames alone\<close>

text \<open>
  RFC 7540 on the frames exchanged: what a received frame grants on the connection and on a
  stream, what the initial window is after it, and which payload it carries for a stream.
\<close>

definition conn_grant :: "frame \<Rightarrow> int" where
  "conn_grant f =
    (case f of FWindowUpdate w \<Rightarrow> if wf_stream_id w = 0 then uint (wf_increment_size w) else 0
     | _ \<Rightarrow> 0)"

definition stream_grant :: "u32 \<Rightarrow> frame \<Rightarrow> int" where
  "stream_grant sid f =
    (case f of FWindowUpdate w \<Rightarrow>
       if wf_stream_id w = sid \<and> sid \<noteq> 0 then uint (wf_increment_size w) else 0
     | _ \<Rightarrow> 0)"

primrec setting_initial :: "h2_setting \<Rightarrow> int \<Rightarrow> int" where
  "setting_initial (InitialWindowSize new) w = uint new"
| "setting_initial (MaxConcurrentStreams _) w = w"

definition frame_initial :: "frame \<Rightarrow> int \<Rightarrow> int" where
  "frame_initial f w =
    (case f of FSettings sf \<Rightarrow> if sf_flags sf \<noteq> 1 then fold setting_initial (sf_settings sf) w else w
     | _ \<Rightarrow> w)"

definition frame_payload :: "u32 \<Rightarrow> frame \<Rightarrow> byte list list" where
  "frame_payload sid f =
    (case f of FData d \<Rightarrow> if df_stream_id d = sid then [df_payload d] else [] | _ \<Rightarrow> [])"

definition conn_credit :: "frame list \<Rightarrow> int" where
  "conn_credit fs = sum_list (map conn_grant fs)"

definition stream_credit :: "u32 \<Rightarrow> frame list \<Rightarrow> int" where
  "stream_credit sid fs = sum_list (map (stream_grant sid) fs)"

definition initial_window :: "frame list \<Rightarrow> int" where
  "initial_window fs = fold frame_initial fs DEFAULT_WINDOW"

definition payloads :: "u32 \<Rightarrow> frame list \<Rightarrow> byte list list" where
  "payloads sid fs = concat (map (frame_payload sid) fs)"

definition conn_sent :: "data_frame list \<Rightarrow> int" where
  "conn_sent ds = sum_list (map (\<lambda>d. int (length (df_payload d))) ds)"

definition stream_sent :: "u32 \<Rightarrow> data_frame list \<Rightarrow> int" where
  "stream_sent sid ds =
    sum_list (map (\<lambda>d. if df_stream_id d = sid then int (length (df_payload d)) else 0) ds)"

lemma credit_simps [simp]:
  "conn_credit [] = 0" "conn_credit (fs @ [f]) = conn_credit fs + conn_grant f"
  "stream_credit sid [] = 0" "stream_credit sid (fs @ [f]) = stream_credit sid fs + stream_grant sid f"
  "initial_window [] = DEFAULT_WINDOW"
  "initial_window (fs @ [f]) = frame_initial f (initial_window fs)"
  "payloads sid [] = []" "payloads sid (fs @ [f]) = payloads sid fs @ frame_payload sid f"
  "conn_sent [] = 0" "conn_sent [d] = int (length (df_payload d))"
  "conn_sent (ds @ es) = conn_sent ds + conn_sent es"
  "stream_sent sid [] = 0"
  "stream_sent sid [d] = (if df_stream_id d = sid then int (length (df_payload d)) else 0)"
  "stream_sent sid (ds @ es) = stream_sent sid ds + stream_sent sid es"
  by (simp_all add: conn_credit_def stream_credit_def initial_window_def payloads_def
      conn_sent_def stream_sent_def)

definition window_of :: "http2_client \<Rightarrow> u32 \<Rightarrow> int" where
  "window_of s sid =
    (case h_stream_send_windows s sid of None \<Rightarrow> h_peer_initial_window s | Some w \<Rightarrow> w)"

definition cached :: "http2_client \<Rightarrow> u32 \<Rightarrow> byte list list" where
  "cached s sid = (case h_cache s sid of None \<Rightarrow> [] | Some q \<Rightarrow> q)"

lemma inner_proj [simp]:
  "window_of (s\<lparr>h_inner := t\<rparr>) sid = window_of s sid"
  "cached (s\<lparr>h_inner := t\<rparr>) sid = cached s sid"
  by (simp_all add: window_of_def cached_def split: option.split)

lemma finished_proj:
  "window_of (s\<lparr>h_finished := F\<rparr>) sid = window_of s sid"
  "cached (s\<lparr>h_finished := F\<rparr>) sid = cached s sid"
  by (simp_all add: window_of_def cached_def split: option.split)

lemma h_same_proj:
  assumes "h_same s s'"
  shows "h_conn_send_window s' = h_conn_send_window s"
    "h_peer_initial_window s' = h_peer_initial_window s"
    "h_stream_send_windows s' = h_stream_send_windows s" "h_cache s' = h_cache s"
    "h_finished s' = h_finished s" "h_input s' = h_input s"
    "window_of s' sid = window_of s sid" "cached s' sid = cached s sid"
    "sent_data (tp_out (h_inner s')) = sent_data (tp_out (h_inner s))"
proof -
  from assms obtain t where t: "s' = s\<lparr>h_inner := t\<rparr>" and
    e: "h_input s' = h_input s" "sent_data (tp_out (h_inner s')) = sent_data (tp_out (h_inner s))"
    by (auto simp: h_same_def)
  show "h_input s' = h_input s" "sent_data (tp_out (h_inner s')) = sent_data (tp_out (h_inner s))"
    by (fact e)+
  show "h_conn_send_window s' = h_conn_send_window s"
    "h_peer_initial_window s' = h_peer_initial_window s"
    "h_stream_send_windows s' = h_stream_send_windows s" "h_cache s' = h_cache s"
    "h_finished s' = h_finished s"
    "window_of s' sid = window_of s sid" "cached s' sid = cached s sid"
    by (simp_all add: t window_of_def cached_def split: option.split)
qed

lemma apply_setting_effect:
  "h_inner (apply_setting x s) = h_inner s" "h_input (apply_setting x s) = h_input s"
  "h_conn_send_window (apply_setting x s) = h_conn_send_window s"
  "cached (apply_setting x s) sid = cached s sid"
  "h_peer_initial_window (apply_setting x s) = setting_initial x (h_peer_initial_window s)"
  "window_of (apply_setting x s) sid =
   window_of s sid + (setting_initial x (h_peer_initial_window s) - h_peer_initial_window s)"
  by (cases x; simp add: Let_def h_input_def cached_def window_of_def split: option.split)+

lemma apply_settings_effect:
  "h_inner (fold apply_setting xs s) = h_inner s" "h_input (fold apply_setting xs s) = h_input s"
  "h_conn_send_window (fold apply_setting xs s) = h_conn_send_window s"
  "cached (fold apply_setting xs s) sid = cached s sid"
  "h_peer_initial_window (fold apply_setting xs s) =
     fold setting_initial xs (h_peer_initial_window s)"
  "window_of (fold apply_setting xs s) sid =
   window_of s sid + (fold setting_initial xs (h_peer_initial_window s) - h_peer_initial_window s)"
  by (induction xs arbitrary: s) (simp_all add: apply_setting_effect)

lemma credit_window_effect:
  "h_inner (credit_window w s) = h_inner s" "h_input (credit_window w s) = h_input s"
  "h_conn_send_window (credit_window w s) = h_conn_send_window s + conn_grant (FWindowUpdate w)"
  "cached (credit_window w s) sid = cached s sid"
  "h_peer_initial_window (credit_window w s) = h_peer_initial_window s"
  "window_of (credit_window w s) sid = window_of s sid + stream_grant sid (FWindowUpdate w)"
  by (auto simp: credit_window_def stream_send_window_def h_input_def cached_def window_of_def
      conn_grant_def stream_grant_def split: option.split)

lemma cache_push_effect:
  "h_inner (cache_push d s) = h_inner s" "h_input (cache_push d s) = h_input s"
  "h_conn_send_window (cache_push d s) = h_conn_send_window s"
  "cached (cache_push d s) sid = cached s sid @ frame_payload sid (FData d)"
  "h_peer_initial_window (cache_push d s) = h_peer_initial_window s"
  "window_of (cache_push d s) sid = window_of s sid"
  by (auto simp: cache_push_def h_input_def cached_def window_of_def frame_payload_def
      split: option.split)

text \<open>One frame handled, successfully or not, moves the client's books as the peer's.\<close>

definition tracks :: "frame \<Rightarrow> http2_client \<Rightarrow> http2_client \<Rightarrow> bool" where
  "tracks f s s' \<longleftrightarrow>
     h_input s' = h_input s \<and>
     sent_data (tp_out (h_inner s')) = sent_data (tp_out (h_inner s)) \<and>
     h_conn_send_window s' = h_conn_send_window s + conn_grant f \<and>
     h_peer_initial_window s' = frame_initial f (h_peer_initial_window s) \<and>
     (\<forall>sid. window_of s' sid = window_of s sid + stream_grant sid f +
        (frame_initial f (h_peer_initial_window s) - h_peer_initial_window s)) \<and>
     (\<forall>sid. cached s' sid = cached s sid @ frame_payload sid f)"

lemma tracks_same: "tracks f s t \<Longrightarrow> h_same t u \<Longrightarrow> tracks f s u"
  by (simp add: tracks_def h_same_proj)

lemma handle_frame_tracks: "tracks f s (snd (handle_frame f s))"
proof (cases f)
  case (FSettings sf)
  let ?t = "fold apply_setting (sf_settings sf) s"
  show ?thesis
  proof (cases "sf_flags sf = 1")
    case False
    have "tracks f s ?t"
      using FSettings False
      by (simp add: tracks_def apply_settings_effect conn_grant_def frame_initial_def
          stream_grant_def frame_payload_def)
    then have "tracks f s (snd (write_flush (settings_serialize
        \<lparr>sf_settings = [], sf_stream_id = sf_stream_id sf, sf_flags = 1\<rparr>) ?t))"
      by (rule tracks_same) (rule h_same_write_flush, simp)
    with FSettings False show ?thesis by (simp add: handle_frame_def act_bind_def)
  qed (simp add: FSettings handle_frame_def tracks_def conn_grant_def frame_initial_def
      stream_grant_def frame_payload_def)
next
  case (FWindowUpdate w)
  then show ?thesis
    by (simp add: handle_frame_def tracks_def credit_window_effect frame_initial_def
        frame_payload_def)
next
  case (FData d)
  have t: "tracks f s (cache_push d s)"
    using FData by (simp add: tracks_def cache_push_effect conn_grant_def frame_initial_def
        stream_grant_def)
  have "h_same t (snd (act_bind (h_io (tp_write_all (window_update_serialize v))) (\<lambda>_.
      act_bind (h_io (tp_write_all (window_update_serialize w))) (\<lambda>_. h_io tp_flush)) t))" for v w t
    by (intro h_same_bind h_same_write h_same_flush) simp_all
  with t FData show ?thesis
    by (auto simp: handle_frame_def act_bind_def [of "act_upd _"] Let_def intro: tracks_same)
qed (auto simp: handle_frame_def tracks_def conn_grant_def frame_initial_def stream_grant_def
    frame_payload_def h_input_def window_of_def cached_def split: option.split)

section \<open>Sending and reading\<close>

lemma pump_input:
  assumes "pump s = (Ok (), s')"
  shows "length (h_input s') < length (h_input s)"
proof -
  from assms obtain f t where n: "next_frame s = (Ok f, t)" and h: "handle_frame f t = (Ok (), s')"
    by (auto simp: pump_def act_bind_Ok)
  from next_frame_input [OF n] obtain w where
    w: "h_input s = w @ h_input t" "frame_parse w = Ok (Some (f, length w))" by auto
  have "h_input s' = h_input t" using handle_frame_tracks [of f t] h by (simp add: tracks_def)
  with w frame_parse_Some [OF w(2)] show ?thesis by auto
qed

lemma stream_send_window_input [simp]:
  "stream_send_window sid s = (w, t) \<Longrightarrow> h_input t = h_input s"
  by (auto simp: stream_send_window_def h_input_def split: option.splits)

text \<open>
  \<open>while conn_send_window < need || stream_send_window(id) < need { pump()? }\<close>; the second test
  seeds the stream's window and is not evaluated when the first one holds.
\<close>

function await_window :: "u32 \<Rightarrow> int \<Rightarrow> http2_client \<Rightarrow> (unit, idevice_error) res \<times> http2_client" where
  "await_window sid need s =
    (case (if h_conn_send_window s < need then (True, s)
           else case stream_send_window sid s of (w, t) \<Rightarrow> (w < need, t)) of
       (wait, t) \<Rightarrow>
         if wait then
           (case pump t of
              (Ok _, u) \<Rightarrow> await_window sid need u
            | (Err e, u) \<Rightarrow> (Err e, u)
            | (Panic, u) \<Rightarrow> (Panic, u))
         else (Ok (), t))"
  by pat_completeness auto
termination
  by (relation "measure (\<lambda>(sid, need, s). length (h_input s))")
    (auto dest!: pump_input [OF sym] stream_send_window_input split: if_splits prod.splits)

declare await_window.simps [simp del]

definition debit :: "u32 \<Rightarrow> int \<Rightarrow> (http2_client, unit) act" where
  "debit sid need s =
    (let t = s\<lparr>h_conn_send_window := h_conn_send_window s - need\<rparr>
     in case h_stream_send_windows t sid of
          None \<Rightarrow> (Panic, t)
        | Some w \<Rightarrow> (Ok (), t\<lparr>h_stream_send_windows := (h_stream_send_windows t)(sid \<mapsto> w - need)\<rparr>))"

definition MAX_FRAME_SIZE :: nat where "MAX_FRAME_SIZE = 16384"

fun send_chunks :: "u32 \<Rightarrow> bool \<Rightarrow> byte list list \<Rightarrow> (http2_client, unit) act" where
  "send_chunks sid end_stream [] = h_io tp_flush"
| "send_chunks sid end_stream (chunk # cs) =
    act_bind (await_window sid (int (length chunk))) (\<lambda>_.
    act_bind (h_io (tp_write_all (data_serialize
      \<lparr>df_stream_id = sid, df_payload = chunk, df_end_stream = end_stream \<and> cs = []\<rparr>))) (\<lambda>_.
    act_bind (debit sid (int (length chunk))) (\<lambda>_.
    send_chunks sid end_stream cs)))"

definition send_inner :: "byte list \<Rightarrow> u32 \<Rightarrow> bool \<Rightarrow> (http2_client, unit) act" where
  "send_inner payload sid end_stream =
    (if chunks MAX_FRAME_SIZE payload = [] then
       write_flush (data_serialize
         \<lparr>df_stream_id = sid, df_payload = [], df_end_stream = end_stream\<rparr>)
     else send_chunks sid end_stream (chunks MAX_FRAME_SIZE payload))"

definition send :: "byte list \<Rightarrow> u32 \<Rightarrow> (http2_client, unit) act" where
  "send payload sid = send_inner payload sid False"

definition send_end_stream :: "byte list \<Rightarrow> u32 \<Rightarrow> (http2_client, unit) act" where
  "send_end_stream payload sid =
    act_bind (act_upd (\<lambda>s. s\<lparr>h_finished := insert sid (h_finished s)\<rparr>)) (\<lambda>_.
      send_inner payload sid True)"

definition pop_front :: "u32 \<Rightarrow> http2_client \<Rightarrow> (byte list \<times> http2_client) option" where
  "pop_front sid s =
    (case h_cache s sid of
       Some (d # q) \<Rightarrow> Some (d, s\<lparr>h_cache := (h_cache s)(sid \<mapsto> q)\<rparr>)
     | _ \<Rightarrow> None)"

primrec pop_any :: "u32 list \<Rightarrow> http2_client \<Rightarrow> ((u32 \<times> byte list) \<times> http2_client) option" where
  "pop_any [] s = None"
| "pop_any (sid # sids) s =
    (case pop_front sid s of
       Some (d, t) \<Rightarrow> Some ((sid, d), t)
     | None \<Rightarrow> pop_any sids s)"

function read_any_loop :: "u32 list \<Rightarrow> http2_client \<Rightarrow>
    (u32 \<times> byte list, idevice_error) res \<times> http2_client" where
  "read_any_loop sids s =
    (case pop_any sids s of
       Some (d, t) \<Rightarrow> (Ok d, t)
     | None \<Rightarrow>
         (case pump s of
            (Ok _, u) \<Rightarrow> read_any_loop sids u
          | (Err e, u) \<Rightarrow> (Err e, u)
          | (Panic, u) \<Rightarrow> (Panic, u)))"
  by pat_completeness auto
termination
  by (relation "measure (\<lambda>(sids, s). length (h_input s))") (auto dest!: pump_input [OF sym])

declare read_any_loop.simps [simp del]

definition read_any :: "u32 list \<Rightarrow> (http2_client, u32 \<times> byte list) act" where
  "read_any sids = act_bind (act_upd (fold or_default sids)) (\<lambda>_. read_any_loop sids)"

definition read_stream :: "u32 \<Rightarrow> (http2_client, byte list) act" where
  "read_stream sid =
    act_bind (act_upd (or_default sid)) (\<lambda>_. act_bind (read_any_loop [sid]) (\<lambda>(_, d). act_ok d))"

section \<open>The books of the connection\<close>

function parse_frames :: "byte list \<Rightarrow> frame list option" where
  "parse_frames bs =
    (if bs = [] then Some []
     else case frame_parse bs of
            Ok (Some (f, n)) \<Rightarrow> map_option ((#) f) (parse_frames (drop n bs))
          | _ \<Rightarrow> None)"
  by pat_completeness auto
termination
  by (relation "measure length") (auto dest!: frame_parse_Some)

declare parse_frames.simps [simp del]

lemma parse_frames_Nil [simp]: "parse_frames [] = Some []"
  by (simp add: parse_frames.simps)

lemma parse_frames_snoc:
  assumes "parse_frames bs = Some fs" and "frame_parse w = Ok (Some (f, length w))"
  shows "parse_frames (bs @ w) = Some (fs @ [f])"
  using assms(1)
proof (induction bs arbitrary: fs rule: parse_frames.induct)
  case (1 bs)
  show ?case
  proof (cases "bs = []")
    case True
    with 1 assms(2) frame_parse_Some [OF assms(2)] show ?thesis
      by (auto simp: parse_frames.simps [of w])
  next
    case False
    with 1(2) obtain g n gs where g: "frame_parse bs = Ok (Some (g, n))"
      "parse_frames (drop n bs) = Some gs" "fs = g # gs"
      by (auto simp: parse_frames.simps [of bs] split: res.splits option.splits)
    have "frame_parse (bs @ w) = Ok (Some (g, n))" using frame_parse_append [of bs w] g(1) by simp
    moreover have "drop n (bs @ w) = drop n bs @ w" using frame_parse_Some [OF g(1)] by simp
    moreover have "parse_frames (drop n bs @ w) = Some (gs @ [f])"
      using 1(1) [OF False g(1) refl refl g(2)] .
    ultimately show ?thesis using False g(3) by (simp add: parse_frames.simps [of "bs @ w"])
  qed
qed

type_synonym h2_log = "(u32 \<times> byte list) list"

definition delivered :: "u32 \<Rightarrow> h2_log \<Rightarrow> byte list list" where
  "delivered sid log = map snd (filter (\<lambda>p. fst p = sid) log)"

text \<open>
  \<open>h2_books input log s\<close>: \<open>input\<close> is all the peer ever sends. What has been consumed of it is a
  sequence \<open>fs\<close> of whole frames; the windows are those the peer computes from \<open>fs\<close> and the DATA
  frames written; every payload received on a stream has been delivered (in \<open>log\<close>) or is
  cached, in order.
\<close>

definition h2_books :: "byte list \<Rightarrow> h2_log \<Rightarrow> http2_client \<Rightarrow> bool" where
  "h2_books input log s \<longleftrightarrow>
    (\<exists>P fs. input = P @ h_input s \<and> parse_frames P = Some fs \<and>
       h_conn_send_window s =
         DEFAULT_WINDOW + conn_credit fs - conn_sent (sent_data (tp_out (h_inner s))) \<and>
       0 \<le> h_conn_send_window s \<and>
       h_peer_initial_window s = initial_window fs \<and>
       (\<forall>sid. window_of s sid =
         initial_window fs + stream_credit sid fs - stream_sent sid (sent_data (tp_out (h_inner s)))) \<and>
       (\<forall>sid. payloads sid fs = delivered sid log @ cached s sid))"

lemma books_same: "h2_books S L s \<Longrightarrow> h_same s s' \<Longrightarrow> h2_books S L s'"
  by (simp add: h2_books_def h_same_proj)

lemma keeps_same: "(\<And>s. h_same s (snd (m s))) \<Longrightarrow> keeps (h2_books S L) m"
  by (auto intro!: keepsI intro: books_same)

lemma grants_nonneg: "0 \<le> conn_grant f"
  by (simp add: conn_grant_def split: frame.split)

lemma pump_books: "keeps (h2_books S L) pump"
proof (rule keepsI)
  fix s
  assume s: "h2_books S L s"
  obtain r t where n: "next_frame s = (r, t)" by fastforce
  note ni = next_frame_input [OF n]
  obtain i b where "t = s\<lparr>h_inner := i, h_recv_buf := b\<rparr>" using ni by blast
  then have same: "h_conn_send_window t = h_conn_send_window s"
    "h_peer_initial_window t = h_peer_initial_window s"
    "\<And>sid. window_of t sid = window_of s sid" "\<And>sid. cached t sid = cached s sid"
    by (simp_all add: window_of_def cached_def split: option.split)
  have out: "tp_out (h_inner t) = tp_out (h_inner s)" using ni by blast
  show "h2_books S L (snd (pump s))"
  proof (cases "\<exists>f. r = Ok f")
    case False
    then have "h_input t = h_input s" using ni by (cases r) auto
    moreover have "snd (pump s) = t" using n False by (cases r) (auto simp: pump_def act_bind_def)
    ultimately show ?thesis using s same out by (simp add: h2_books_def)
  next
    case True
    then obtain f where f: "r = Ok f" by blast
    with ni obtain w where w: "h_input s = w @ h_input t" "frame_parse w = Ok (Some (f, length w))"
      by auto
    let ?u = "snd (handle_frame f t)"
    from s obtain P fs where b: "S = P @ h_input s" "parse_frames P = Some fs"
      "h_conn_send_window s =
         DEFAULT_WINDOW + conn_credit fs - conn_sent (sent_data (tp_out (h_inner s)))"
      "0 \<le> h_conn_send_window s" "h_peer_initial_window s = initial_window fs"
      "\<And>sid. window_of s sid =
         initial_window fs + stream_credit sid fs - stream_sent sid (sent_data (tp_out (h_inner s)))"
      "\<And>sid. payloads sid fs = delivered sid L @ cached s sid"
      unfolding h2_books_def by blast
    have "parse_frames (P @ w) = Some (fs @ [f])" using b(2) w(2) by (rule parse_frames_snoc)
    then have "h2_books S L ?u"
      unfolding h2_books_def
      using handle_frame_tracks [of f t] b same w(1) grants_nonneg [of f]
      by (intro exI [of _ "P @ w"] exI [of _ "fs @ [f]"]) (simp add: tracks_def out)
    moreover have "snd (pump s) = ?u" using n f by (simp add: pump_def)
    ultimately show ?thesis by simp
  qed
qed

lemma stream_send_window_books:
  assumes "h2_books S L s" and "stream_send_window sid s = (w, t)"
  shows "h2_books S L t" "h_stream_send_windows t sid = Some w" "h_conn_send_window t = h_conn_send_window s"
    "tp_out (h_inner t) = tp_out (h_inner s)"
proof -
  have "h_input t = h_input s" using assms(2) by simp
  moreover have "window_of t x = window_of s x" "cached t x = cached s x" for x
    using assms(2)
    by (auto simp: stream_send_window_def window_of_def cached_def split: option.splits if_splits)
  ultimately show "h2_books S L t"
    using assms by (auto simp: h2_books_def stream_send_window_def split: option.splits)
qed (use assms(2) in \<open>auto simp: stream_send_window_def split: option.splits\<close>)

lemma await_window_books:
  assumes "h2_books S L s" and "await_window sid need s = (r, u)"
  shows "h2_books S L u \<and> (r = Ok () \<longrightarrow>
    need \<le> h_conn_send_window u \<and> (\<exists>w. h_stream_send_windows u sid = Some w \<and> need \<le> w))"
  using assms
proof (induction sid need s arbitrary: r u rule: await_window.induct)
  case (1 sid need s)
  let ?c = "if h_conn_send_window s < need then (True, s)
    else case stream_send_window sid s of (w, t) \<Rightarrow> (w < need, t)"
  obtain wait t where c: "?c = (wait, t)" by fastforce
  have t: "h2_books S L t \<and> (\<not> wait \<longrightarrow> need \<le> h_conn_send_window t \<and>
      (\<exists>w. h_stream_send_windows t sid = Some w \<and> need \<le> w))"
    using c 1(2) stream_send_window_books [OF 1(2)]
    by (cases "stream_send_window sid s") (auto split: if_splits)
  show ?case
  proof (cases wait)
    case False
    with 1(3) c t show ?thesis by (simp add: await_window.simps [of sid need s])
  next
    case True
    obtain p v where p: "pump t = (p, v)" by fastforce
    have v: "h2_books S L v" using keepsD [OF pump_books, of S L t] t p by simp
    show ?thesis
    proof (cases "p = Ok ()")
      case True
      with 1(3) c p \<open>wait\<close> have "await_window sid need v = (r, u)"
        by (simp add: await_window.simps [of sid need s])
      from 1(1) [OF c [symmetric] \<open>wait\<close> p [symmetric] True v this] show ?thesis .
    next
      case False
      with 1(3) c p \<open>wait\<close> v show ?thesis
        by (cases p) (auto simp: await_window.simps [of sid need s])
    qed
  qed
qed

lemma write_data_debit_books:
  assumes "h2_books S L s" and "int (length (df_payload d)) \<le> h_conn_send_window s"
    and "h_stream_send_windows s (df_stream_id d) = Some v" and "length (df_payload d) < 2 ^ 24"
  shows "h2_books S L (snd (act_bind (h_io (tp_write_all (data_serialize d)))
    (\<lambda>_. debit (df_stream_id d) (int (length (df_payload d)))) s))"
proof -
  let ?io = "tp_write_all (data_serialize d) (h_inner s)"
  let ?t = "s\<lparr>h_inner := snd ?io\<rparr>"
  have in': "tp_pending (snd ?io) = tp_pending (h_inner s)" by (simp add: tp_pending_def)
  show ?thesis
  proof (cases "fst ?io = Ok ()")
    case True
    have "sent_data (tp_out (snd ?io)) = sent_data (tp_out (h_inner s)) @ [d]"
      using True assms(4) by (simp add: tp_write_all_out)
    moreover have "window_of s (df_stream_id d) = v" using assms(3) by (simp add: window_of_def)
    moreover have "act_bind (h_io (tp_write_all (data_serialize d)))
        (\<lambda>_. debit (df_stream_id d) (int (length (df_payload d)))) s =
      (Ok (), ?t\<lparr>h_conn_send_window := h_conn_send_window s - int (length (df_payload d)),
         h_stream_send_windows :=
           (h_stream_send_windows s)(df_stream_id d \<mapsto> v - int (length (df_payload d)))\<rparr>)"
      using True assms(3) by (simp add: act_bind_def h_io_eq debit_def Let_def)
    moreover have "window_of (?t\<lparr>h_conn_send_window := c, h_stream_send_windows :=
        (h_stream_send_windows s)(df_stream_id d \<mapsto> w)\<rparr>) sid =
        (if sid = df_stream_id d then w else window_of s sid)" for c w sid
      by (simp add: window_of_def cong: option.case_cong)
    ultimately show ?thesis
      using assms(1,2) in' by (auto simp: h2_books_def h_input_def cached_def)
  next
    case False
    then have "sent_data (tp_out (snd ?io)) = sent_data (tp_out (h_inner s))"
      by (simp add: tp_write_all_out)
    then have "h_same s ?t" using in' by (simp add: h_same_def h_input_def)
    moreover have "snd (act_bind (h_io (tp_write_all (data_serialize d)))
        (\<lambda>_. debit (df_stream_id d) (int (length (df_payload d)))) s) = ?t"
      using False by (cases "fst ?io") (auto simp: act_bind_def h_io_eq)
    ultimately show ?thesis using assms(1) books_same by simp
  qed
qed

lemma act_bind_assoc: "act_bind (act_bind m f) g = act_bind m (\<lambda>a. act_bind (f a) g)"
  by (rule ext) (simp add: act_bind_def split: prod.split res.split)

lemma send_chunks_books:
  "h2_books S L s \<Longrightarrow> \<forall>c \<in> set cs. length c < 2 ^ 24 \<Longrightarrow>
   h2_books S L (snd (send_chunks sid e cs s))"
proof (induction cs arbitrary: s)
  case Nil
  then show ?case using books_same h_same_flush by simp
next
  case (Cons c cs)
  let ?d = "\<lparr>df_stream_id = sid, df_payload = c, df_end_stream = e \<and> cs = []\<rparr>"
  let ?m = "act_bind (h_io (tp_write_all (data_serialize ?d))) (\<lambda>_. debit sid (int (length c)))"
  obtain r t where a: "await_window sid (int (length c)) s = (r, t)" by fastforce
  note at = await_window_books [OF Cons.prems(1) a]
  have eq: "send_chunks sid e (c # cs) s =
      act_bind (await_window sid (int (length c))) (\<lambda>_. act_bind ?m (\<lambda>_. send_chunks sid e cs)) s"
    by (simp add: act_bind_assoc)
  show ?case
  proof (cases "r = Ok ()")
    case True
    with at obtain v where v: "int (length c) \<le> h_conn_send_window t"
      "h_stream_send_windows t sid = Some v" "h2_books S L t" by blast
    have m: "h2_books S L (snd (?m t))"
      using write_data_debit_books [of S L t ?d v] v Cons.prems(2) by simp
    have "snd (act_bind ?m (\<lambda>_. send_chunks sid e cs) t) =
        (if fst (?m t) = Ok () then snd (send_chunks sid e cs (snd (?m t))) else snd (?m t))"
      by (simp add: act_bind_def [of ?m] split: prod.split res.split)
    then have "h2_books S L (snd (act_bind ?m (\<lambda>_. send_chunks sid e cs) t))"
      using m Cons.IH [OF m] Cons.prems(2) by simp
    then show ?thesis using a True by (simp add: eq act_bind_assoc)
  next
    case False
    with at a show ?thesis by (cases r) (auto simp: eq act_bind_def)
  qed
qed

lemma write_empty_data_books:
  "keeps (h2_books S L) (write_flush (data_serialize
     \<lparr>df_stream_id = sid, df_payload = [], df_end_stream = e\<rparr>))"
  unfolding write_flush_def
proof (intro keeps_bind keepsI)
  let ?d = "\<lparr>df_stream_id = sid, df_payload = [], df_end_stream = e\<rparr>"
  fix s
  assume s: "h2_books S L s"
  let ?i = "snd (tp_write_all (data_serialize ?d) (h_inner s))"
  have "conn_sent (sent_data (tp_out ?i)) = conn_sent (sent_data (tp_out (h_inner s)))"
    "stream_sent x (sent_data (tp_out ?i)) = stream_sent x (sent_data (tp_out (h_inner s)))" for x
    by (simp_all add: tp_write_all_out)
  moreover have "tp_pending ?i = tp_pending (h_inner s)" by (simp add: tp_pending_def)
  ultimately show "h2_books S L (snd (h_io (tp_write_all (data_serialize ?d)) s))"
    using s by (simp add: h_io_eq h2_books_def h_input_def)
next
  fix s :: http2_client
  assume "h2_books S L s"
  then show "h2_books S L (snd (h_io tp_flush s))" using books_same h_same_flush by blast
qed

lemma send_inner_books: "keeps (h2_books S L) (send_inner payload sid e)"
proof (rule keepsI)
  fix s
  assume s: "h2_books S L s"
  have "\<forall>c \<in> set (chunks MAX_FRAME_SIZE payload). length c < 2 ^ 24"
    using chunks_length by (force simp: MAX_FRAME_SIZE_def)
  then show "h2_books S L (snd (send_inner payload sid e s))"
    using s send_chunks_books keepsD [OF write_empty_data_books s] by (simp add: send_inner_def)
qed

lemma or_default_same [simp]:
  "h_inner (or_default sid s) = h_inner s" "h_input (or_default sid s) = h_input s"
  "h_conn_send_window (or_default sid s) = h_conn_send_window s"
  "h_peer_initial_window (or_default sid s) = h_peer_initial_window s"
  "window_of (or_default sid s) x = window_of s x" "cached (or_default sid s) x = cached s x"
  by (simp_all add: or_default_def h_input_def window_of_def cached_def split: option.split)

lemma or_default_books [simp]: "h2_books S L (or_default sid s) = h2_books S L s"
  by (simp add: h2_books_def)

lemma fold_or_default_books [simp]: "h2_books S L (fold or_default sids s) = h2_books S L s"
  by (induction sids arbitrary: s) simp_all

lemma pop_front_books:
  assumes "h2_books S L s" and "pop_front sid s = Some (d, t)"
  shows "h2_books S (L @ [(sid, d)]) t"
proof -
  from assms(2) obtain q where q: "h_cache s sid = Some (d # q)"
    "t = s\<lparr>h_cache := (h_cache s)(sid \<mapsto> q)\<rparr>"
    by (auto simp: pop_front_def split: option.splits list.splits)
  then have "delivered x (L @ [(sid, d)]) @ cached t x = delivered x L @ cached s x" for x
    by (simp add: delivered_def cached_def)
  moreover have "window_of t x = window_of s x" for x
    by (simp add: q(2) window_of_def split: option.split)
  ultimately show ?thesis using assms(1) q by (simp add: h2_books_def h_input_def)
qed

lemma pop_any_books:
  "h2_books S L s \<Longrightarrow> pop_any sids s = Some (p, t) \<Longrightarrow>
   fst p \<in> set sids \<and> h2_books S (L @ [p]) t"
  by (induction sids) (auto split: option.splits dest: pop_front_books)

lemma read_any_loop_books:
  "h2_books S L s \<Longrightarrow>
   (case read_any_loop sids s of
      (Ok p, t) \<Rightarrow> fst p \<in> set sids \<and> h2_books S (L @ [p]) t
    | (_, t) \<Rightarrow> h2_books S L t)"
proof (induction sids s rule: read_any_loop.induct)
  case (1 sids s)
  show ?case
  proof (cases "pop_any sids s")
    case (Some x)
    with 1(2) pop_any_books show ?thesis
      by (cases x) (auto simp: read_any_loop.simps [of sids s])
  next
    case None
    obtain r u where p: "pump s = (r, u)" by fastforce
    have u: "h2_books S L u" using keepsD [OF pump_books 1(2)] p by simp
    show ?thesis
    proof (cases "r = Ok ()")
      case True
      from 1(1) [OF None p [symmetric] True u] show ?thesis
        by (simp add: read_any_loop.simps [of sids s] None p True)
    next
      case False
      with u show ?thesis by (cases r) (auto simp: read_any_loop.simps [of sids s] None p)
    qed
  qed
qed

section \<open>Sequences of calls\<close>

datatype h2_op =
    OpSettings "h2_setting list" u32
  | OpWindowUpdate u32 u32
  | OpOpen u32
  | OpSend "byte list" u32
  | OpSendEnd "byte list" u32
  | OpRead u32
  | OpReadAny "u32 list"

text \<open>The methods an owner of the client calls, in any order and also after an error.\<close>

definition h2_run_op :: "h2_op \<Rightarrow> h2_log \<times> http2_client \<Rightarrow> h2_log \<times> http2_client" where
  "h2_run_op op x =
    (case x of (log, s) \<Rightarrow>
      (case op of
         OpSettings ss sid \<Rightarrow> (log, snd (set_settings ss sid s))
       | OpWindowUpdate inc sid \<Rightarrow> (log, snd (window_update inc sid s))
       | OpOpen sid \<Rightarrow> (log, snd (open_stream sid s))
       | OpSend d sid \<Rightarrow> (log, snd (send d sid s))
       | OpSendEnd d sid \<Rightarrow> (log, snd (send_end_stream d sid s))
       | OpRead sid \<Rightarrow>
           (case read_stream sid s of (Ok d, t) \<Rightarrow> (log @ [(sid, d)], t) | (_, t) \<Rightarrow> (log, t))
       | OpReadAny sids \<Rightarrow>
           (case read_any sids s of (Ok p, t) \<Rightarrow> (log @ [p], t) | (_, t) \<Rightarrow> (log, t))))"

lemma h2_run_op_books:
  assumes "h2_books S L s"
  shows "case h2_run_op op (L, s) of (L', s') \<Rightarrow> h2_books S L' s'"
proof (cases op)
  case (OpSettings ss sid)
  then show ?thesis
    using keepsD [OF keeps_same [OF h_same_write_flush], OF sent_data_control(1) assms]
    by (simp add: h2_run_op_def set_settings_def)
next
  case (OpWindowUpdate inc sid)
  then show ?thesis
    using keepsD [OF keeps_same [OF h_same_write_flush], OF sent_data_control(2) assms]
    by (simp add: h2_run_op_def window_update_def)
next
  case (OpOpen sid)
  have "h2_books S L (snd (write_flush (headers_serialize \<lparr>hf_stream_id = sid\<rparr>) (or_default sid s)))"
    by (rule books_same [OF _ h_same_write_flush]) (use assms in simp_all)
  with OpOpen show ?thesis by (simp add: h2_run_op_def open_stream_def act_bind_def)
next
  case (OpSend d sid)
  then show ?thesis using keepsD [OF send_inner_books assms] by (simp add: h2_run_op_def send_def)
next
  case (OpSendEnd d sid)
  have "h2_books S L (s\<lparr>h_finished := insert sid (h_finished s)\<rparr>)"
    using assms by (simp add: h2_books_def h_input_def finished_proj)
  with OpSendEnd show ?thesis
    using keepsD [OF send_inner_books]
    by (simp add: h2_run_op_def send_end_stream_def act_bind_def)
next
  case (OpRead sid)
  have "h2_books S L (or_default sid s)" using assms by simp
  from read_any_loop_books [OF this, of "[sid]"] OpRead show ?thesis
    by (auto simp: h2_run_op_def read_stream_def act_bind_def split: prod.splits res.splits)
next
  case (OpReadAny sids)
  have "h2_books S L (fold or_default sids s)" using assms by simp
  from read_any_loop_books [OF this, of sids] OpReadAny show ?thesis
    by (auto simp: h2_run_op_def read_any_def act_bind_def split: prod.splits res.splits)
qed

definition h2_run :: "h2_op list \<Rightarrow> http2_client \<Rightarrow> h2_log \<times> http2_client" where
  "h2_run ops s = fold h2_run_op ops ([], s)"

lemma h2_run_books:
  assumes "h2_books S [] s"
  shows "case h2_run ops s of (L, t) \<Rightarrow> h2_books S L t"
proof -
  have "case fold h2_run_op ops (L, u) of (L', t) \<Rightarrow> h2_books S L' t" if "h2_books S L u" for L u
    using that
  proof (induction ops arbitrary: L u)
    case (Cons op ops)
    obtain L' u' where o: "h2_run_op op (L, u) = (L', u')" by fastforce
    from h2_run_op_books [OF Cons.prems, of op] o Cons.IH [of L' u'] show ?case by simp
  qed simp
  from this [OF assms] show ?thesis by (simp add: h2_run_def)
qed

lemma sent_data_magic [simp]: "sent_data [HTTP2_MAGIC] = []"
  by (rule sent_data_other) (simp add: HTTP2_MAGIC_def)

lemma http2_new_books:
  assumes "http2_new \<lparr>tp_in = arrivals, tp_out = [], tp_budget = budget\<rparr> = Ok s"
  shows "h2_books (concat arrivals) [] s"
proof -
  let ?t = "\<lparr>tp_in = arrivals, tp_out = [], tp_budget = budget\<rparr>"
  let ?u = "snd (tp_write_all HTTP2_MAGIC ?t)"
  have s: "s = \<lparr>h_inner = snd (tp_flush ?u), h_cache = Map.empty, h_conn_send_window = DEFAULT_WINDOW,
      h_stream_send_windows = Map.empty, h_peer_initial_window = DEFAULT_WINDOW,
      h_recv_buf = [], h_finished = {}\<rparr>"
    using assms by (auto simp: http2_new_def act_bind_def split: prod.splits res.splits)
  have "sent_data (tp_out ?u) = []" by (simp add: tp_write_all_out)
  then show ?thesis
    by (simp add: s h2_books_def h_input_def tp_pending_def window_of_def cached_def delivered_def
        DEFAULT_WINDOW_def)
qed

section \<open>What a send puts on the wire\<close>

lemma no_panic_io [no_panic_intro]: "no_panic m \<Longrightarrow> no_panic (h_io m)"
  by (simp add: no_panic_def h_io_eq)

lemma no_panic_write_flush [no_panic_intro]: "no_panic (write_flush bs)"
  unfolding write_flush_def by (intro no_panic_intro)

lemma no_panic_next_frame [no_panic_intro]: "no_panic next_frame"
proof -
  have "fst (next_frame s) \<noteq> Panic" for s
  proof (induction s rule: next_frame.induct)
    case (1 s)
    then show ?case
      by (auto simp: next_frame.simps [of s] split: res.splits option.splits prod.splits)
  qed
  then show ?thesis by (simp add: no_panic_def)
qed

lemma no_panic_handle_frame [no_panic_intro]: "no_panic (handle_frame f)"
proof (cases f)
  case (FRstStream r)
  then show ?thesis by (simp add: no_panic_def handle_frame_def)
qed (auto simp: handle_frame_def Let_def intro!: no_panic_intro)

lemma no_panic_pump [no_panic_intro]: "no_panic pump"
  unfolding pump_def by (intro no_panic_intro)

lemma pump_out: "sent_data (tp_out (h_inner (snd (pump s)))) = sent_data (tp_out (h_inner s))"
proof -
  obtain r t where n: "next_frame s = (r, t)" by fastforce
  have "tp_out (h_inner t) = tp_out (h_inner s)" using next_frame_input [OF n] by blast
  moreover have "sent_data (tp_out (h_inner (snd (handle_frame f t)))) =
      sent_data (tp_out (h_inner t))" for f
    using handle_frame_tracks [of f t] by (simp add: tracks_def)
  ultimately show ?thesis using n by (cases r) (auto simp: pump_def act_bind_def)
qed

text \<open>The DATA frames of a payload: pieces of at most 16 KiB, END_STREAM on the last one only.\<close>

fun data_frames :: "u32 \<Rightarrow> bool \<Rightarrow> byte list list \<Rightarrow> data_frame list" where
  "data_frames sid e [] = []"
| "data_frames sid e (c # cs) =
     \<lparr>df_stream_id = sid, df_payload = c, df_end_stream = e \<and> cs = []\<rparr> # data_frames sid e cs"

lemma data_frames_payload: "concat (map df_payload (data_frames sid e cs)) = concat cs"
  by (induction cs) simp_all

lemma await_window_out:
  "await_window sid need s = (r, u) \<Longrightarrow>
     sent_data (tp_out (h_inner u)) = sent_data (tp_out (h_inner s)) \<and>
     (r = Ok () \<longrightarrow> h_stream_send_windows u sid \<noteq> None) \<and> r \<noteq> Panic"
proof (induction sid need s arbitrary: r u rule: await_window.induct)
  case (1 sid need s)
  let ?c = "if h_conn_send_window s < need then (True, s)
    else case stream_send_window sid s of (w, t) \<Rightarrow> (w < need, t)"
  obtain wait t where c: "?c = (wait, t)" by fastforce
  have t: "tp_out (h_inner t) = tp_out (h_inner s)" "\<not> wait \<longrightarrow> h_stream_send_windows t sid \<noteq> None"
    using c by (auto simp: stream_send_window_def split: if_splits option.splits prod.splits)
  show ?case
  proof (cases wait)
    case False
    with 1(2) c t show ?thesis by (auto simp: await_window.simps [of sid need s])
  next
    case True
    obtain p v where p: "pump t = (p, v)" by fastforce
    have v: "sent_data (tp_out (h_inner v)) = sent_data (tp_out (h_inner t))"
      using pump_out [of t] p by simp
    show ?thesis
    proof (cases "p = Ok ()")
      case True
      with 1(2) c p \<open>wait\<close> have "await_window sid need v = (r, u)"
        by (simp add: await_window.simps [of sid need s])
      from 1(1) [OF c [symmetric] \<open>wait\<close> p [symmetric] True this] v t show ?thesis by simp
    next
      case False
      with 1(2) c p \<open>wait\<close> v t no_panicD [OF no_panic_pump p] show ?thesis
        by (cases p) (auto simp: await_window.simps [of sid need s])
    qed
  qed
qed

lemma send_chunks_out:
  "send_chunks sid e cs s = (r, u) \<Longrightarrow> \<forall>c \<in> set cs. length c < 2 ^ 24 \<Longrightarrow>
   \<exists>n. sent_data (tp_out (h_inner u)) =
        sent_data (tp_out (h_inner s)) @ take n (data_frames sid e cs) \<and>
       (r = Ok () \<longrightarrow> n = length cs) \<and> r \<noteq> Panic"
proof (induction cs arbitrary: s)
  case Nil
  then show ?case
    by (auto simp: h_io_def tp_flush_def tp_spend_def split: prod.splits option.splits nat.splits)
next
  case (Cons c cs)
  let ?d = "\<lparr>df_stream_id = sid, df_payload = c, df_end_stream = e \<and> cs = []\<rparr>"
  obtain p t where a: "await_window sid (int (length c)) s = (p, t)" by fastforce
  note at = await_window_out [OF a]
  obtain q i where i: "tp_write_all (data_serialize ?d) (h_inner t) = (q, i)" by fastforce
  have io: "tp_out i = (if q = Ok () then tp_out (h_inner t) @ [data_serialize ?d]
      else tp_out (h_inner t))" "q \<noteq> Panic"
    using tp_write_all_out [of "data_serialize ?d" "h_inner t"] i
    by (auto simp: tp_write_all_def act_bind_def tp_spend_def split: option.splits nat.splits)
  show ?case
  proof (cases "p = Ok () \<and> q = Ok ()")
    case False
    then have "sent_data (tp_out (h_inner u)) = sent_data (tp_out (h_inner s)) \<and> r \<noteq> Ok () \<and> r \<noteq> Panic"
      using Cons.prems(1) a i at io
      by (cases p; cases q) (auto simp: act_bind_def h_io_def)
    then show ?thesis by (intro exI [of _ 0]) simp
  next
    case True
    with at obtain w where w: "h_stream_send_windows t sid = Some w" by auto
    let ?v = "t\<lparr>h_inner := i, h_conn_send_window := h_conn_send_window t - int (length c),
      h_stream_send_windows := (h_stream_send_windows t)(sid \<mapsto> w - int (length c))\<rparr>"
    have "send_chunks sid e cs ?v = (r, u)"
      using Cons.prems(1) a i True w by (simp add: act_bind_def h_io_def debit_def Let_def)
    from Cons.IH [OF this] Cons.prems(2) obtain n where
      "sent_data (tp_out (h_inner u)) = sent_data (tp_out i) @ take n (data_frames sid e cs)"
      "r = Ok () \<longrightarrow> n = length cs" "r \<noteq> Panic" by auto
    then show ?thesis using True io at Cons.prems(2) by (intro exI [of _ "Suc n"]) simp
  qed
qed

lemma send_inner_out:
  assumes "send_inner payload sid e s = (r, u)"
  defines "expected \<equiv> (if payload = []
      then [\<lparr>df_stream_id = sid, df_payload = [], df_end_stream = e\<rparr>]
      else data_frames sid e (chunks MAX_FRAME_SIZE payload))"
  shows "\<exists>n. sent_data (tp_out (h_inner u)) = sent_data (tp_out (h_inner s)) @ take n expected \<and>
    (r = Ok () \<longrightarrow> n = length expected) \<and> r \<noteq> Panic"
proof (cases "payload = []")
  case True
  let ?d = "\<lparr>df_stream_id = sid, df_payload = [], df_end_stream = e\<rparr>"
  have w: "write_flush (data_serialize ?d) s = (r, u)"
    using assms(1) True by (simp add: send_inner_def)
  let ?x = "tp_write_all (data_serialize ?d) (h_inner s)"
  show ?thesis
  proof (cases "fst ?x = Ok ()")
    case True
    then have "u = s\<lparr>h_inner := snd (tp_flush (snd ?x))\<rparr>"
      using w by (simp add: write_flush_def act_bind_def h_io_eq)
    then have "sent_data (tp_out (h_inner u)) = sent_data (tp_out (h_inner s)) @ [?d]"
      using True by (simp add: tp_write_all_out)
    then show ?thesis using \<open>payload = []\<close> no_panicD [OF no_panic_write_flush w]
      by (intro exI [of _ 1]) (simp add: expected_def)
  next
    case False
    then have "u = s\<lparr>h_inner := snd ?x\<rparr> \<and> r \<noteq> Ok ()"
      using w by (cases "fst ?x") (auto simp: write_flush_def act_bind_def h_io_eq)
    then show ?thesis using False no_panicD [OF no_panic_write_flush w]
      by (intro exI [of _ 0]) (simp add: tp_write_all_out)
  qed
next
  case False
  have "\<forall>c \<in> set (chunks MAX_FRAME_SIZE payload). length c < 2 ^ 24"
    using chunks_length by (force simp: MAX_FRAME_SIZE_def)
  moreover have "send_chunks sid e (chunks MAX_FRAME_SIZE payload) s = (r, u)"
    using assms(1) False by (simp add: send_inner_def MAX_FRAME_SIZE_def)
  moreover have "length (data_frames sid e cs) = length cs" for cs by (induction cs) simp_all
  ultimately show ?thesis using send_chunks_out False by (simp add: expected_def)
qed

lemma data_frames_sizes:
  "d \<in> set (data_frames sid e (chunks MAX_FRAME_SIZE p)) \<Longrightarrow>
     df_stream_id d = sid \<and> length (df_payload d) \<le> 16384"
proof -
  have "d \<in> set (data_frames sid e cs) \<Longrightarrow> df_stream_id d = sid \<and> df_payload d \<in> set cs" for cs
    by (induction cs) auto
  then show "d \<in> set (data_frames sid e (chunks MAX_FRAME_SIZE p)) \<Longrightarrow>
     df_stream_id d = sid \<and> length (df_payload d) \<le> 16384"
    using chunks_length [of "df_payload d" MAX_FRAME_SIZE p] by (auto simp: MAX_FRAME_SIZE_def)
qed

lemma data_frames_end:
  "map df_end_stream (data_frames sid e cs) =
     (if cs = [] then [] else replicate (length cs - 1) False @ [e])"
proof (induction cs)
  case (Cons c cs)
  then show ?case by (cases cs) auto
qed simp

section \<open>The next frame does not depend on how its bytes arrive\<close>

definition next_spec :: "byte list \<Rightarrow> (frame, idevice_error) res \<times> byte list" where
  "next_spec bs =
    (case frame_parse bs of
       Ok (Some (f, n)) \<Rightarrow> (Ok f, drop n bs)
     | Ok None \<Rightarrow> (Err CLOSED, bs)
     | Err e \<Rightarrow> (Err e, bs)
     | Panic \<Rightarrow> (Panic, bs))"

lemma tp_read_nonempty:
  "[] \<notin> set (tp_in t) \<Longrightarrow> 0 < n \<Longrightarrow> tp_read n t = (bs, t') \<Longrightarrow>
     [] \<notin> set (tp_in t') \<and> (bs = [] \<longrightarrow> tp_pending t = [])"
  by (auto simp: tp_read_def tp_pending_def split: list.splits if_splits)

lemma next_frame_spec:
  "[] \<notin> set (tp_in (h_inner s)) \<Longrightarrow>
     (case next_frame s of (r, t) \<Rightarrow> (r, h_input t)) = next_spec (h_input s)"
proof (induction s rule: next_frame.induct)
  case (1 s)
  show ?case
  proof (cases "frame_parse (h_recv_buf s) = Ok None")
    case True
    obtain tmp t where r: "tp_read 16384 (h_inner s) = (tmp, t)" by fastforce
    from tp_read_nonempty [OF 1(2) _ r] have ne: "[] \<notin> set (tp_in t)"
      "tmp = [] \<longrightarrow> tp_pending (h_inner s) = []" by simp_all
    show ?thesis
    proof (cases "tmp = []")
      case True
      with ne tp_read_pending [OF r] \<open>frame_parse (h_recv_buf s) = Ok None\<close> r show ?thesis
        by (simp add: next_frame.simps [of s] next_spec_def h_input_def)
    next
      case False
      have "h_input (s\<lparr>h_inner := t, h_recv_buf := h_recv_buf s @ tmp\<rparr>) = h_input s"
        using tp_read_pending [OF r] by (simp add: h_input_def)
      with 1(1) [OF True refl r [symmetric] False] ne r True False show ?thesis
        by (simp add: next_frame.simps [of s])
    qed
  next
    case False
    from frame_parse_append [OF this, of "tp_pending (h_inner s)"] False
    show ?thesis
      by (auto simp: next_frame.simps [of s] next_spec_def h_input_def
          split: res.splits option.splits dest: frame_parse_Some)
  qed
qed

section \<open>Sends that need no grant, and sends that wait for one\<close>

lemma await_ready:
  assumes "need \<le> h_conn_send_window s" and "need \<le> window_of s sid"
  shows "\<exists>t. await_window sid need s = (Ok (), t) \<and> h_inner t = h_inner s \<and> h_recv_buf t = h_recv_buf s \<and>
    h_conn_send_window t = h_conn_send_window s \<and> h_stream_send_windows t sid = Some (window_of s sid)"
  using assms
  by (auto simp: await_window.simps [of sid need s] stream_send_window_def window_of_def
      split: option.splits)

lemma send_chunks_completes:
  "tp_budget (h_inner s) = None \<Longrightarrow> int (length (concat cs)) \<le> h_conn_send_window s \<Longrightarrow>
   int (length (concat cs)) \<le> window_of s sid \<Longrightarrow>
   \<exists>t. send_chunks sid e cs s = (Ok (), t) \<and> h_input t = h_input s"
proof (induction cs arbitrary: s)
  case Nil
  then show ?case by (simp add: h_io_eq tp_flush_unlimited h_input_def)
next
  case (Cons c cs)
  have "int (length c) \<le> h_conn_send_window s" "int (length c) \<le> window_of s sid"
    using Cons.prems by simp_all
  from await_ready [OF this] obtain t where t: "await_window sid (int (length c)) s = (Ok (), t)"
    "h_inner t = h_inner s" "h_recv_buf t = h_recv_buf s" "h_conn_send_window t = h_conn_send_window s"
    "h_stream_send_windows t sid = Some (window_of s sid)" by blast
  let ?i = "h_inner t\<lparr>tp_out := tp_out (h_inner t) @ [data_serialize
    \<lparr>df_stream_id = sid, df_payload = c, df_end_stream = e \<and> cs = []\<rparr>]\<rparr>"
  let ?v = "t\<lparr>h_inner := ?i, h_conn_send_window := h_conn_send_window t - int (length c),
      h_stream_send_windows := (h_stream_send_windows t)(sid \<mapsto> window_of s sid - int (length c))\<rparr>"
  have v: "send_chunks sid e (c # cs) s = send_chunks sid e cs ?v"
    using t Cons.prems(1)
    by (simp add: act_bind_def h_io_eq tp_write_all_unlimited debit_def Let_def)
  have "window_of ?v sid = window_of s sid - int (length c)" by (simp add: window_of_def)
  then obtain u where "send_chunks sid e cs ?v = (Ok (), u)" "h_input u = h_input ?v"
    using Cons.IH [of ?v] Cons.prems t by auto
  moreover have "h_input ?v = h_input s" using t by (simp add: h_input_def tp_pending_def)
  ultimately show ?case using v by simp
qed

lemma send_inner_completes:
  assumes "tp_budget (h_inner s) = None" and "int (length p) \<le> h_conn_send_window s"
    and "int (length p) \<le> window_of s sid"
  shows "\<exists>t. send_inner p sid e s = (Ok (), t) \<and> h_input t = h_input s"
proof (cases "p = []")
  case True
  then show ?thesis using assms(1)
    by (simp add: send_inner_def write_flush_def act_bind_def h_io_eq tp_write_all_unlimited
        tp_flush_unlimited h_input_def tp_pending_def)
next
  case False
  then show ?thesis using send_chunks_completes [of s "chunks MAX_FRAME_SIZE p" sid e] assms
    by (simp add: send_inner_def MAX_FRAME_SIZE_def)
qed

lemma await_starved:
  assumes "h_input s = []" and "window_of s sid < need \<or> h_conn_send_window s < need"
  shows "fst (await_window sid need s) = Err CLOSED"
proof -
  let ?t = "if h_conn_send_window s < need then s else snd (stream_send_window sid s)"
  have "fst (stream_send_window sid s) = window_of s sid"
    by (simp add: stream_send_window_def window_of_def split: option.split)
  then obtain t where c: "(if h_conn_send_window s < need then (True, s)
    else case stream_send_window sid s of (w, t) \<Rightarrow> (w < need, t)) = (True, t)" and "t = ?t"
    using assms(2) by (cases "stream_send_window sid s") auto
  then have i: "h_recv_buf t = []" "tp_pending (h_inner t) = []"
    using assms(1) by (auto simp: stream_send_window_def h_input_def split: option.split)
  obtain tmp j where r: "tp_read 16384 (h_inner t) = (tmp, j)" by fastforce
  from tp_read_pending [OF r] i(2) have "tmp = []" by simp
  then have "fst (pump t) = Err CLOSED"
    using i(1) r
    by (simp add: pump_def act_bind_def next_frame.simps [of t] frame_parse_def FRAME_HEADER_LEN_def)
  then show ?thesis using c
    by (cases "pump t") (simp add: await_window.simps [of sid need s])
qed

section \<open>Properties\<close>

text \<open>
  C2. Flow control: after any sequence of calls on a new client, whatever the peer sends and
  however it arrives, also after failed calls and failed writes, the bytes consumed are whole
  frames, the connection window equals 65535 plus the peer's grants less the DATA sent and is never
  negative (the peer is never sent more than it granted), every stream window is the peer's, and on
  each stream the received payloads are those delivered followed by those cached.
\<close>

theorem h2_books_hold:
  "case http2_new \<lparr>tp_in = arrivals, tp_out = [], tp_budget = budget\<rparr> of
     Ok s \<Rightarrow>
       (case h2_run ops s of (log, t) \<Rightarrow>
         \<exists>P fs. concat arrivals = P @ h_input t \<and> parse_frames P = Some fs \<and>
           h_conn_send_window t =
             65535 + conn_credit fs - conn_sent (sent_data (tp_out (h_inner t))) \<and>
           0 \<le> h_conn_send_window t \<and>
           (\<forall>sid. window_of t sid = initial_window fs + stream_credit sid fs -
              stream_sent sid (sent_data (tp_out (h_inner t)))) \<and>
           (\<forall>sid. payloads sid fs = delivered sid log @ cached t sid))
   | Err e \<Rightarrow> budget = Some 0 \<or> budget = Some 1
   | Panic \<Rightarrow> False"
proof (cases "http2_new \<lparr>tp_in = arrivals, tp_out = [], tp_budget = budget\<rparr>")
  case (Ok s)
  obtain log t where r: "h2_run ops s = (log, t)" by fastforce
  from h2_run_books [OF http2_new_books [OF Ok], of ops] r
  have "h2_books (concat arrivals) log t" by simp
  then show ?thesis unfolding h2_books_def DEFAULT_WINDOW_def using Ok r by auto
qed (auto simp: http2_new_def act_bind_def tp_write_all_def tp_flush_def tp_spend_def
    split: option.splits nat.splits prod.splits)

text \<open>
  C5. What a send puts on the wire: its DATA frames are, in order, the payload cut into pieces of at
  most 16384 bytes (one empty frame for an empty payload), all on the stream, with
  END_STREAM on the last piece only; control frames may come in between. A send that fails has
  written a prefix of that sequence, and none panics.
\<close>

theorem h2_send_frames:
  "case send_inner payload sid e s of (r, t) \<Rightarrow>
     \<exists>ds n. sent_data (tp_out (h_inner t)) = sent_data (tp_out (h_inner s)) @ take n ds \<and>
       concat (map df_payload ds) = payload \<and> ds \<noteq> [] \<and>
       list_all (\<lambda>d. df_stream_id d = sid \<and> length (df_payload d) \<le> 16384) ds \<and>
       map df_end_stream ds = replicate (length ds - 1) False @ [e] \<and>
       (case r of Ok _ \<Rightarrow> n = length ds | Err _ \<Rightarrow> True | Panic \<Rightarrow> False)"
proof -
  obtain r t where rt: "send_inner payload sid e s = (r, t)" by fastforce
  let ?ds = "if payload = [] then [\<lparr>df_stream_id = sid, df_payload = [], df_end_stream = e\<rparr>]
      else data_frames sid e (chunks MAX_FRAME_SIZE payload)"
  from send_inner_out [OF rt] obtain n where
    n: "sent_data (tp_out (h_inner t)) = sent_data (tp_out (h_inner s)) @ take n ?ds"
      "r = Ok () \<longrightarrow> n = length ?ds" "r \<noteq> Panic" by blast
  have l: "length (data_frames sid e cs) = length cs" for cs by (induction cs) simp_all
  have "?ds \<noteq> [] \<and> concat (map df_payload ?ds) = payload \<and>
      list_all (\<lambda>d. df_stream_id d = sid \<and> length (df_payload d) \<le> 16384) ?ds \<and>
      map df_end_stream ?ds = replicate (length ?ds - 1) False @ [e]"
    using l [of "chunks MAX_FRAME_SIZE payload"]
    by (auto simp: data_frames_payload data_frames_end list_all_iff MAX_FRAME_SIZE_def
        dest: data_frames_sizes [unfolded MAX_FRAME_SIZE_def])
  then show ?thesis using n rt by (cases r) (auto intro!: exI [of _ ?ds] exI [of _ n])
qed

text \<open>
  The next frame depends only on the bytes of the stream, not on how they arrive: with no empty
  arrival, \<open>next_frame\<close> returns the first frame of the buffered bytes followed by the coming ones
  (or its parse error, or the end of the connection) and leaves exactly the rest.
\<close>

theorem h2_next_frame_chunking:
  assumes "[] \<notin> set (tp_in (h_inner s))"
  shows "(case next_frame s of (r, t) \<Rightarrow> (r, h_input t)) = next_spec (h_input s)"
  using assms by (rule next_frame_spec)

definition h2_client_of :: "byte list \<Rightarrow> byte list list \<Rightarrow> http2_client" where
  "h2_client_of buf arrivals =
    \<lparr>h_inner = \<lparr>tp_in = arrivals, tp_out = [], tp_budget = None\<rparr>, h_cache = Map.empty,
     h_conn_send_window = DEFAULT_WINDOW, h_stream_send_windows = Map.empty,
     h_peer_initial_window = DEFAULT_WINDOW, h_recv_buf = buf, h_finished = {}\<rparr>"

theorem h2_next_frame_chunking_witness:
  "(case next_frame (h2_client_of [0, 0] [[0, 1, 4, 0], [0, 0, 5, 9], [9]]) of
      (r, t) \<Rightarrow> (r, h_input t)) = (Ok (FHeaders \<lparr>hf_stream_id = 5\<rparr>), [9, 9])"
proof -
  let ?s = "h2_client_of [0, 0] [[0, 1, 4, 0], [0, 0, 5, 9], [9]]"
  have "[] \<notin> set (tp_in (h_inner ?s))" by (simp add: h2_client_of_def)
  note e = h2_next_frame_chunking [OF this]
  have "h_input ?s = headers_serialize \<lparr>hf_stream_id = 5\<rparr> @ [9, 9]"
    by (simp add: h_input_def h2_client_of_def tp_pending_def headers_serialize_def
        to_be_bytes_def to_le_bytes_def nat_le_4 nat_le_3)
  then have "next_spec (h_input ?s) = (Ok (FHeaders \<lparr>hf_stream_id = 5\<rparr>), [9, 9])"
    by (simp only: next_spec_def headers_parse) simp
  with e show ?thesis by simp
qed



end
