(* ===== verification/Opack.thy ===== *)
theory Opack
  imports Codec Plist Float_Bits
begin

text \<open>
  remote\_pairing/opack.rs: the OPACK encoding of property lists. The encoder writes every value out;
  the decoder also resolves the back-references a device sends instead of a repeated scalar,
  through the table of the scalars seen so far. The decoder's error strings are the
  constructors of \<open>opack_error\<close>. Recursion depth (the native stack) is not bounded here.
\<close>

section \<open>The encoder\<close>

text \<open>
  A length and its bytes: inline up to 0x20, then with a one-, two-, four- or eight-byte length.
  \<open>inl\<close> is the base of the inline tags and \<open>big\<close> the tag of the one-byte length.
\<close>

definition opack_blob :: "byte \<Rightarrow> byte \<Rightarrow> byte list \<Rightarrow> byte list" where
  "opack_blob inl big bytes =
    (let len = length bytes
     in (if len > 0x20 then
           (if len \<le> 0xFF then big # to_le_bytes (of_nat len :: byte)
            else if len \<le> 0xFFFF then (big + 1) # to_le_bytes (of_nat len :: u16)
            else if len \<le> 0xFFFFFFFF then (big + 2) # to_le_bytes (of_nat len :: u32)
            else (big + 3) # to_le_bytes (of_nat len :: u64))
         else [inl + of_nat len]) @ bytes)"

definition opack_int :: "u64 \<Rightarrow> byte list" where
  "opack_int u64val =
    (if u64val \<le> 0xFF then
       (let u8val = ucast u64val :: byte
        in if u8val > 0x27 then [0x30, u8val] else [u8val + 8])
     else if u64val \<le> 0xFFFFFFFF then 0x32 # to_le_bytes (ucast u64val :: u32)
     else 0x33 # to_le_bytes u64val)"

definition opack_real :: "u64 \<Rightarrow> byte list" where
  "opack_real dval =
    (case f64_to_f32_exact dval of
       Some fval \<Rightarrow> 0x35 # to_be_bytes fval
     | None \<Rightarrow> 0x36 # to_be_bytes dval)"

definition opack_count :: "byte \<Rightarrow> byte \<Rightarrow> nat \<Rightarrow> byte" where
  "opack_count base open_ended n =
    (let count = of_nat n :: u32 in if count < 15 then base + ucast count else open_ended)"

definition opack_end :: "nat \<Rightarrow> byte list" where
  "opack_end n = (if (of_nat n :: u32) > 14 then [0x03] else [])"

fun plist_to_opack :: "plist_value \<Rightarrow> byte list" where
  "plist_to_opack (PDictionary dict) =
     [opack_count 0xE0 0xEF (length dict)] @
     concat (map (\<lambda>(key, val). opack_blob 0x40 0x61 key @ plist_to_opack val) dict) @
     opack_end (length dict)"
| "plist_to_opack (PArray array) =
     [opack_count 0xD0 0xDF (length array)] @ concat (map plist_to_opack array) @
     opack_end (length array)"
| "plist_to_opack (PBoolean b) = [if b then 1 else 2]"
| "plist_to_opack (PInteger integer) =
     opack_int (case as_unsigned integer of Some n \<Rightarrow> n | None \<Rightarrow> 0)"
| "plist_to_opack (PReal real) = opack_real real"
| "plist_to_opack (PString s) = opack_blob 0x40 0x61 s"
| "plist_to_opack (PData data) = opack_blob 0x70 0x91 data"
| "plist_to_opack (PDate _) = []"
| "plist_to_opack (PUid _) = []"

section \<open>The decoder\<close>

datatype opack_error =
    OpTrailing nat | OpEofTag | OpEofBytes nat | OpTerminator | OpUnsupported byte
  | OpUnsupportedSized byte | OpBackReference nat nat | OpKeyNotString | OpInvalidUtf8

definition op_read_u8 :: "byte list \<Rightarrow> (byte \<times> byte list, opack_error) res" where
  "op_read_u8 bs = (case bs of [] \<Rightarrow> Err OpEofTag | b # r \<Rightarrow> Ok (b, r))"

definition op_read_vec :: "nat \<Rightarrow> byte list \<Rightarrow> (byte list \<times> byte list, opack_error) res" where
  "op_read_vec len bs = read_exact (OpEofBytes len) len bs"

definition op_read_string :: "nat \<Rightarrow> byte list \<Rightarrow> (rstring \<times> byte list, opack_error) res" where
  "op_read_string len bs =
    rbind (op_read_vec len bs) (\<lambda>(d, r). if utf8_valid d then Ok (d, r) else Err OpInvalidUtf8)"

definition op_read_le :: "byte list \<Rightarrow> ('a::len word \<times> byte list, opack_error) res" where
  "op_read_le bs =
    rbind (read_exact (OpEofBytes (LENGTH('a) div 8)) (LENGTH('a) div 8) bs)
      (\<lambda>(x, r). Ok (from_le_bytes x, r))"

definition op_read_be :: "byte list \<Rightarrow> ('a::len word \<times> byte list, opack_error) res" where
  "op_read_be bs =
    rbind (read_exact (OpEofBytes (LENGTH('a) div 8)) (LENGTH('a) div 8) bs)
      (\<lambda>(x, r). Ok (from_be_bytes x, r))"

definition op_read_sized_len :: "byte \<Rightarrow> byte \<Rightarrow> byte \<Rightarrow> byte list \<Rightarrow>
    (nat \<times> byte list, opack_error) res" where
  "op_read_sized_len inl big tag bs =
    (if inl \<le> tag \<and> tag < big then Ok (unat (tag - inl), bs)
     else if tag = big then rbind (op_read_u8 bs) (\<lambda>(n, r). Ok (unat n, r))
     else if tag = big + 1 then rbind (op_read_le bs) (\<lambda>(n :: u16, r). Ok (unat n, r))
     else if tag = big + 2 then rbind (op_read_le bs) (\<lambda>(n :: u32, r). Ok (unat n, r))
     else if tag = big + 3 then rbind (op_read_le bs) (\<lambda>(n :: u64, r). Ok (unat n, r))
     else Err (OpUnsupportedSized tag))"

definition parse_string_value :: "byte \<Rightarrow> byte list \<Rightarrow> (plist_value \<times> byte list, opack_error) res" where
  "parse_string_value tag bs =
    rbind (op_read_sized_len 0x40 0x61 tag bs) (\<lambda>(len, r).
    rbind (op_read_string len r) (\<lambda>(s, r'). Ok (PString s, r')))"

definition parse_data_value :: "byte \<Rightarrow> byte list \<Rightarrow> (plist_value \<times> byte list, opack_error) res" where
  "parse_data_value tag bs =
    rbind (op_read_sized_len 0x70 0x91 tag bs) (\<lambda>(len, r).
    rbind (op_read_vec len r) (\<lambda>(d, r'). Ok (PData d, r')))"

text \<open>The derived \<open>PartialEq\<close> of the scalars the table holds: reals compare as floats.\<close>

definition scalar_eq :: "plist_value \<Rightarrow> plist_value \<Rightarrow> bool" where
  "scalar_eq a b =
    (case a of
       PReal x \<Rightarrow> (case b of PReal y \<Rightarrow> f64_eq x y | _ \<Rightarrow> False)
     | _ \<Rightarrow> a = b)"

definition op_remember :: "plist_value list \<Rightarrow> plist_value \<Rightarrow> plist_value list" where
  "op_remember objects v = (if list_ex (\<lambda>ob. scalar_eq ob v) objects then objects else objects @ [v])"

definition op_lookup :: "plist_value list \<Rightarrow> nat \<Rightarrow> (plist_value, opack_error) res" where
  "op_lookup objects i =
    (if i < length objects then Ok (objects ! i) else Err (OpBackReference i (length objects)))"

text \<open>
  The tags below the collections. The result carries the rest of the input and the table after it.
\<close>

definition op_interned :: "plist_value list \<Rightarrow> (plist_value \<times> byte list, opack_error) res \<Rightarrow>
    (plist_value \<times> byte list \<times> plist_value list, opack_error) res" where
  "op_interned tb m = rbind m (\<lambda>(v, r). Ok (v, r, op_remember tb v))"

definition op_scalar :: "byte \<Rightarrow> plist_value list \<Rightarrow> byte list \<Rightarrow>
    (plist_value \<times> byte list \<times> plist_value list, opack_error) res" where
  "op_scalar tag tb bs =
    (if tag = 0x01 then Ok (PBoolean True, bs, tb)
     else if tag = 0x02 then Ok (PBoolean False, bs, tb)
     else if 0x08 \<le> tag \<and> tag \<le> 0x2F then Ok (PInteger (int (unat tag - 8)), bs, tb)
     else if tag = 0x30 then
       op_interned tb (rbind (op_read_u8 bs) (\<lambda>(n, r). Ok (PInteger (uint n), r)))
     else if tag = 0x31 then
       op_interned tb (rbind (op_read_le bs) (\<lambda>(n :: u16, r). Ok (PInteger (uint n), r)))
     else if tag = 0x32 then
       op_interned tb (rbind (op_read_le bs) (\<lambda>(n :: u32, r). Ok (PInteger (uint n), r)))
     else if tag = 0x33 then
       op_interned tb (rbind (op_read_le bs) (\<lambda>(n :: u64, r). Ok (PInteger (uint n), r)))
     else if tag = 0x35 then
       op_interned tb (rbind (op_read_be bs) (\<lambda>(n :: u32, r). Ok (PReal (f32_to_f64 n), r)))
     else if tag = 0x36 then
       op_interned tb (rbind (op_read_be bs) (\<lambda>(n :: u64, r). Ok (PReal n, r)))
     else if 0x40 \<le> tag \<and> tag \<le> 0x64 then op_interned tb (parse_string_value tag bs)
     else if 0x70 \<le> tag \<and> tag \<le> 0x94 then op_interned tb (parse_data_value tag bs)
     else if 0xA0 \<le> tag \<and> tag \<le> 0xC0 then
       rbind (op_lookup tb (unat (tag - 0xA0))) (\<lambda>v. Ok (v, bs, tb))
     else if 0xC1 \<le> tag \<and> tag \<le> 0xC4 then
       rbind (if tag = 0xC1 then rbind (op_read_u8 bs) (\<lambda>(n, r). Ok (unat n, r))
              else if tag = 0xC2 then rbind (op_read_le bs) (\<lambda>(n :: u16, r). Ok (unat n, r))
              else if tag = 0xC3 then rbind (op_read_le bs) (\<lambda>(n :: u32, r). Ok (unat n, r))
              else rbind (op_read_le bs) (\<lambda>(n :: u64, r). Ok (unat n, r))) (\<lambda>(i, r).
       rbind (op_lookup tb i) (\<lambda>v. Ok (v, r, tb)))
     else if tag = 0x03 then Err OpTerminator
     else Err (OpUnsupported tag))"

definition peek_is_terminator :: "byte list \<Rightarrow> bool" where
  "peek_is_terminator bs \<longleftrightarrow> get_at 0 bs = Some 0x03"

text \<open>
  \<open>count\<close> is the \<open>Option<usize>\<close> of \<open>parse_array\<close> and \<open>parse_dictionary\<close>: how many elements are
  left to read, or none when a terminator ends the collection.
\<close>

definition items_done :: "nat option \<Rightarrow> byte list \<Rightarrow> byte list option" where
  "items_done count bs =
    (case count of
       Some n \<Rightarrow> if n = 0 then Some bs else None
     | None \<Rightarrow> if peek_is_terminator bs then Some (drop 1 bs) else None)"

type_synonym plist_ins = "rstring \<Rightarrow> plist_value \<Rightarrow> plist_dict \<Rightarrow> plist_dict"

function op_value :: "plist_ins \<Rightarrow> plist_value list \<Rightarrow> byte list \<Rightarrow>
    (plist_value \<times> byte list \<times> plist_value list, opack_error) res"
and op_items :: "plist_ins \<Rightarrow> nat option \<Rightarrow> plist_value list \<Rightarrow> byte list \<Rightarrow>
    (plist_value list \<times> byte list \<times> plist_value list, opack_error) res"
and op_pairs :: "plist_ins \<Rightarrow> nat option \<Rightarrow> plist_dict \<Rightarrow> plist_value list \<Rightarrow> byte list \<Rightarrow>
    (plist_dict \<times> byte list \<times> plist_value list, opack_error) res" where
  "op_value ins tb bs =
    rbind (op_read_u8 bs) (\<lambda>(tag, r).
      if 0xD0 \<le> tag \<and> tag \<le> 0xDF then
        rbind (op_items ins (if tag = 0xDF then None else Some (unat (tag - 0xD0))) tb r)
          (\<lambda>(xs, r', tb'). Ok (PArray xs, r', tb'))
      else if 0xE0 \<le> tag \<and> tag \<le> 0xEF then
        rbind (op_pairs ins (if tag = 0xEF then None else Some (unat (tag - 0xE0))) [] tb r)
          (\<lambda>(d, r', tb'). Ok (PDictionary d, r', tb'))
      else op_scalar tag tb r)"
| "op_items ins count tb bs =
    (case items_done count bs of
       Some r \<Rightarrow> Ok ([], r, tb)
     | None \<Rightarrow>
         rbind (op_value ins tb bs) (\<lambda>(v, r, tb').
         rbind (op_items ins (map_option (\<lambda>n. n - 1) count) tb' r) (\<lambda>(vs, r', tb'').
           Ok (v # vs, r', tb''))))"
| "op_pairs ins count dict tb bs =
    (case items_done count bs of
       Some r \<Rightarrow> Ok (dict, r, tb)
     | None \<Rightarrow>
         rbind (op_value ins tb bs) (\<lambda>(k, r, tb').
         rbind (ok_or OpKeyNotString (plist_as_string k)) (\<lambda>key.
         rbind (op_value ins tb' r) (\<lambda>(v, r', tb'').
         op_pairs ins (map_option (\<lambda>n. n - 1) count) (ins key v dict) tb'' r'))))"
  by pat_completeness auto

lemma op_read_shorter:
  "op_read_u8 bs = Ok (b, r) \<Longrightarrow> length r < length bs"
  "op_read_le bs = Ok (w, r) \<Longrightarrow> length r \<le> length bs"
  "op_read_be bs = Ok (w, r) \<Longrightarrow> length r \<le> length bs"
  "op_read_vec n bs = Ok (v, r) \<Longrightarrow> length r \<le> length bs"
  "op_read_string n bs = Ok (v, r) \<Longrightarrow> length r \<le> length bs"
  by (auto simp: op_read_u8_def op_read_le_def op_read_be_def op_read_vec_def op_read_string_def
      read_exact_Ok split: list.splits if_splits)

lemma op_sized_shorter: "op_read_sized_len inl big tag bs = Ok (n, r) \<Longrightarrow> length r \<le> length bs"
  by (auto simp: op_read_sized_len_def split: if_splits dest: op_read_shorter less_imp_le)

lemma op_blob_shorter:
  "parse_string_value tag bs = Ok (v, r) \<Longrightarrow> length r \<le> length bs"
  "parse_data_value tag bs = Ok (v, r) \<Longrightarrow> length r \<le> length bs"
  by (auto simp: parse_string_value_def parse_data_value_def dest!: op_sized_shorter op_read_shorter)

lemma op_scalar_shorter: "op_scalar tag tb bs = Ok (v, r, tb') \<Longrightarrow> length r \<le> length bs"
  by (auto simp: op_scalar_def op_interned_def split: if_splits
      dest: op_read_shorter op_blob_shorter less_imp_le)

lemma op_dom_shorter:
  "op_value_op_items_op_pairs_dom (Inl (ins, tb, bs)) \<Longrightarrow>
     op_value ins tb bs = Ok (v, r, tb') \<Longrightarrow> length r < length bs"
  "op_value_op_items_op_pairs_dom (Inr (Inl (ins, count, tb, bs))) \<Longrightarrow>
     op_items ins count tb bs = Ok (vs, r, tb') \<Longrightarrow> length r \<le> length bs"
  "op_value_op_items_op_pairs_dom (Inr (Inr (ins, count, dict, tb, bs))) \<Longrightarrow>
     op_pairs ins count dict tb bs = Ok (d, r, tb') \<Longrightarrow> length r \<le> length bs"
proof (induction ins tb bs and ins count tb bs and ins count dict tb bs
    arbitrary: v r tb' and vs r tb' and d r tb' rule: op_value_op_items_op_pairs.pinduct)
  case (1 ins tb bs)
  from 1(1,4) obtain tag r0 where t: "op_read_u8 bs = Ok (tag, r0)"
    by (auto simp: op_value.psimps)
  note l = op_read_shorter(1) [OF t]
  consider (arr) "0xD0 \<le> tag \<and> tag \<le> 0xDF"
    | (dict) "\<not> (0xD0 \<le> tag \<and> tag \<le> 0xDF)" "0xE0 \<le> tag \<and> tag \<le> 0xEF"
    | (sc) "\<not> (0xD0 \<le> tag \<and> tag \<le> 0xDF)" "\<not> (0xE0 \<le> tag \<and> tag \<le> 0xEF)" by blast
  then show ?case
  proof cases
    case arr
    with 1(1,4) t obtain xs where
      "op_items ins (if tag = 0xDF then None else Some (unat (tag - 0xD0))) tb r0 = Ok (xs, r, tb')"
      by (auto simp: op_value.psimps)
    from 1(2) [OF t refl arr this] l show ?thesis by simp
  next
    case dict
    with 1(1,4) t obtain d where
      "op_pairs ins (if tag = 0xEF then None else Some (unat (tag - 0xE0))) [] tb r0 = Ok (d, r, tb')"
      by (auto simp: op_value.psimps)
    from 1(3) [OF t refl dict this] l show ?thesis by simp
  next
    case sc
    with 1(1,4) t have "op_scalar tag tb r0 = Ok (v, r, tb')" by (simp add: op_value.psimps)
    with op_scalar_shorter l show ?thesis by force
  qed
next
  case (2 ins count tb bs)
  show ?case
  proof (cases "items_done count bs")
    case (Some q)
    then have "length q \<le> length bs" by (auto simp: items_done_def split: option.splits if_splits)
    with 2(1,4) Some show ?thesis by (simp add: op_items.psimps)
  next
    case None
    with 2(1,4) obtain x r1 t1 xs where x: "op_value ins tb bs = Ok (x, r1, t1)"
      and xs: "op_items ins (map_option (\<lambda>n. n - 1) count) t1 r1 = Ok (xs, r, tb')"
      by (auto simp: op_items.psimps)
    from 2(2) [OF None x] 2(3) [OF None x refl refl xs] show ?thesis by simp
  qed
next
  case (3 ins count dict tb bs)
  show ?case
  proof (cases "items_done count bs")
    case (Some q)
    then have "length q \<le> length bs" by (auto simp: items_done_def split: option.splits if_splits)
    with 3(1,5) Some show ?thesis by (simp add: op_pairs.psimps)
  next
    case None
    with 3(1,5) obtain k r1 t1 key x r2 t2 where k: "op_value ins tb bs = Ok (k, r1, t1)"
      and s: "plist_as_string k = Some key" and x: "op_value ins t1 r1 = Ok (x, r2, t2)"
      and xs: "op_pairs ins (map_option (\<lambda>n. n - 1) count) (ins key x dict) t2 r2 = Ok (d, r, tb')"
      by (auto simp: op_pairs.psimps)
    have s': "ok_or OpKeyNotString (plist_as_string k) = Ok key" using s by simp
    from 3(2) [OF None k] 3(3) [OF None k refl refl s' x] 3(4) [OF None k refl refl s' x refl refl xs]
    show ?thesis by simp
  qed
qed

lemma op_terminates: "All op_value_op_items_op_pairs_dom"
proof (relation "measure (\<lambda>z. case z of
      Inl (ins, tb, bs) \<Rightarrow> 2 * length bs
    | Inr (Inl (ins, count, tb, bs)) \<Rightarrow> 2 * length bs + 1
    | Inr (Inr (ins, count, dict, tb, bs)) \<Rightarrow> 2 * length bs + 1)", goal_cases)
  case 1
  then show ?case by simp
qed (auto dest!: op_read_shorter(1) op_dom_shorter)

termination op_value
  by (rule op_terminates)

declare op_value.simps [simp del] op_items.simps [simp del] op_pairs.simps [simp del]

lemmas op_shorter = op_dom_shorter [OF op_terminates [THEN spec]]

definition opack_to_plist :: "plist_ins \<Rightarrow> byte list \<Rightarrow> (plist_value, opack_error) res" where
  "opack_to_plist ins bytes =
    rbind (op_value ins [] bytes) (\<lambda>(v, r, tb).
      if r \<noteq> [] then Err (OpTrailing (length r)) else Ok v)"

section \<open>Literals\<close>

lemma op_read_le_append [simp]:
  "op_read_le (to_le_bytes (b :: u16) @ r) = Ok (b, r)"
  "op_read_le (to_le_bytes (c :: u32) @ r) = Ok (c, r)"
  "op_read_le (to_le_bytes (d :: u64) @ r) = Ok (d, r)"
  "op_read_be (to_be_bytes (c :: u32) @ r) = Ok (c, r)"
  "op_read_be (to_be_bytes (d :: u64) @ r) = Ok (d, r)"
  by (simp_all add: op_read_le_def op_read_be_def)

lemma to_le_byte: "to_le_bytes (b :: byte) = [b]"
  by (simp add: to_le_bytes_def)

lemma op_blob_head:
  assumes "inl = 0x40 \<and> big = 0x61 \<or> inl = 0x70 \<and> big = 0x91" and "length s < 2 ^ 64"
  shows "\<exists>t body. opack_blob inl big s = t # body \<and> inl \<le> t \<and> t \<le> big + 3 \<and>
    (\<forall>r. op_read_sized_len inl big t (body @ r) = Ok (length s, s @ r))"
proof -
  define n where "n = length s"
  show ?thesis
  proof (cases "n \<le> 0x20")
    case True
    then have u: "unat (of_nat n :: byte) = n" by (simp add: unat_of_nat)
    then have "unat (0x40 + of_nat n :: byte) = 0x40 + n" "unat (0x70 + of_nat n :: byte) = 0x70 + n"
      using True by (simp_all add: unat_word_ariths)
    with True u assms(1) show ?thesis
      by (elim disjE) (simp_all add: opack_blob_def Let_def n_def [symmetric] op_read_sized_len_def
          word_le_nat_alt word_less_nat_alt)
  next
    case False
    consider "n \<le> 0xFF" | "\<not> n \<le> 0xFF" "n \<le> 0xFFFF" | "\<not> n \<le> 0xFFFF" "n \<le> 0xFFFFFFFF"
      | "\<not> n \<le> 0xFFFFFFFF" by linarith
    then show ?thesis
    proof cases
      case 1
      then have "unat (of_nat n :: byte) = n" by (simp add: unat_of_nat)
      with 1 False assms(1) show ?thesis
        by (elim disjE) (simp_all add: opack_blob_def Let_def n_def [symmetric]
            op_read_sized_len_def op_read_u8_def to_le_byte)
    next
      case 2
      then have "unat (of_nat n :: u16) = n" by (simp add: unat_of_nat)
      with 2 False assms(1) show ?thesis
        by (elim disjE) (simp_all add: opack_blob_def Let_def n_def [symmetric]
            op_read_sized_len_def)
    next
      case 3
      then have "unat (of_nat n :: u32) = n" by (simp add: unat_of_nat)
      with 3 False assms(1) show ?thesis
        by (elim disjE) (simp_all add: opack_blob_def Let_def n_def [symmetric]
            op_read_sized_len_def)
    next
      case 4
      then have "unat (of_nat n :: u64) = n" using assms(2) by (simp add: unat_of_nat n_def)
      with 4 False assms(1) show ?thesis
        by (elim disjE) (simp_all add: opack_blob_def Let_def n_def [symmetric]
            op_read_sized_len_def)
    qed
  qed
qed

definition op_interned_value :: "plist_value \<Rightarrow> bool" where
  "op_interned_value v \<longleftrightarrow>
    (case v of PInteger i \<Rightarrow> i > 0x27 | PReal _ \<Rightarrow> True | PString _ \<Rightarrow> True | PData _ \<Rightarrow> True | _ \<Rightarrow> False)"

definition op_scalar_wf :: "plist_value \<Rightarrow> bool" where
  "op_scalar_wf v \<longleftrightarrow>
    (case v of PBoolean _ \<Rightarrow> True | PInteger i \<Rightarrow> 0 \<le> i \<and> i < 2 ^ 64 | PReal _ \<Rightarrow> True
     | PString s \<Rightarrow> utf8_valid s \<and> length s < 2 ^ 64 | PData d \<Rightarrow> length d < 2 ^ 64 | _ \<Rightarrow> False)"

lemma op_string_literal:
  assumes "utf8_valid s" and "length s < 2 ^ 64"
  shows "\<exists>t body. opack_blob 0x40 0x61 s = t # body \<and> 0x40 \<le> t \<and> t \<le> 0x64 \<and>
    (\<forall>tb r. op_scalar t tb (body @ r) = Ok (PString s, r, op_remember tb (PString s)))"
proof -
  from op_blob_head [of "0x40" "0x61" s] assms(2) obtain t body where
    t: "opack_blob 0x40 0x61 s = t # body" "0x40 \<le> t" "t \<le> 0x64"
      "\<And>r. op_read_sized_len 0x40 0x61 t (body @ r) = Ok (length s, s @ r)" by auto
  then have "op_scalar t tb (body @ r) = Ok (PString s, r, op_remember tb (PString s))" for tb r
    using assms(1)
    by (auto simp: op_scalar_def op_interned_def parse_string_value_def op_read_string_def
        op_read_vec_def word_le_nat_alt)
  with t show ?thesis by blast
qed

lemma op_data_literal:
  assumes "length s < 2 ^ 64"
  shows "\<exists>t body. opack_blob 0x70 0x91 s = t # body \<and> 0x70 \<le> t \<and> t \<le> 0x94 \<and>
    (\<forall>tb r. op_scalar t tb (body @ r) = Ok (PData s, r, op_remember tb (PData s)))"
proof -
  from op_blob_head [of "0x70" "0x91" s] assms obtain t body where
    t: "opack_blob 0x70 0x91 s = t # body" "0x70 \<le> t" "t \<le> 0x94"
      "\<And>r. op_read_sized_len 0x70 0x91 t (body @ r) = Ok (length s, s @ r)" by auto
  then have "op_scalar t tb (body @ r) = Ok (PData s, r, op_remember tb (PData s))" for tb r
    by (auto simp: op_scalar_def op_interned_def parse_data_value_def
        op_read_vec_def word_le_nat_alt)
  with t show ?thesis by blast
qed

lemma op_int_literal:
  "\<exists>t body. opack_int n = t # body \<and> 0x08 \<le> t \<and> t \<le> 0x33 \<and>
    (\<forall>tb r. op_scalar t tb (body @ r) =
      Ok (PInteger (uint n), r, if uint n > 0x27 then op_remember tb (PInteger (uint n)) else tb))"
proof -
  define k where "k = unat n"
  have n: "uint n = int k" by (simp add: k_def)
  consider "k \<le> 0x27" | "\<not> k \<le> 0x27" "k \<le> 0xFF" | "\<not> k \<le> 0xFF" "k \<le> 0xFFFFFFFF" | "\<not> k \<le> 0xFFFFFFFF"
    by linarith
  then show ?thesis
  proof cases
    case 1
    then have u: "unat (ucast n :: byte) = k" by (simp add: unsigned_ucast_eq take_bit_eq_mod k_def)
    define t :: byte where "t = ucast n + 8"
    have t: "unat t = k + 8" using 1 u by (simp add: t_def unat_word_ariths)
    then have "op_scalar t tb r = Ok (PInteger (uint n), r, tb)" for tb r
      using 1 by (simp add: op_scalar_def word_le_nat_alt word_unat_eq_iff n)
    moreover have "opack_int n = [t]"
      using 1 u by (simp add: opack_int_def word_le_nat_alt word_less_nat_alt k_def [symmetric] t_def Let_def)
    moreover have "0x08 \<le> t" "t \<le> 0x33" using t 1 by (simp_all add: word_le_nat_alt)
    ultimately show ?thesis using 1 n by simp
  next
    case 2
    then have u: "unat (ucast n :: byte) = k" by (simp add: unsigned_ucast_eq take_bit_eq_mod k_def)
    then have "uint (ucast n :: byte) = int k" by (metis uint_nat)
    then show ?thesis using 2 u
      by (simp add: opack_int_def word_le_nat_alt word_less_nat_alt k_def [symmetric] op_scalar_def n
          Let_def op_interned_def op_read_u8_def)
  next
    case 3
    then have u: "unat (ucast n :: u32) = k" by (simp add: unsigned_ucast_eq take_bit_eq_mod k_def)
    then have "uint (ucast n :: u32) = int k" by (metis uint_nat)
    then show ?thesis using 3
      by (simp add: opack_int_def word_le_nat_alt k_def [symmetric] op_scalar_def n op_interned_def)
  next
    case 4
    then show ?thesis
      by (simp add: opack_int_def word_le_nat_alt k_def [symmetric] op_scalar_def n op_interned_def)
  qed
qed

lemma op_real_literal:
  "\<exists>t body. opack_real d = t # body \<and> 0x35 \<le> t \<and> t \<le> 0x36 \<and>
    (\<forall>tb r. op_scalar t tb (body @ r) = Ok (PReal d, r, op_remember tb (PReal d)))"
proof (cases "f64_to_f32_exact d")
  case None
  then show ?thesis by (simp add: opack_real_def op_scalar_def op_interned_def)
next
  case (Some x)
  then show ?thesis
    by (simp add: opack_real_def op_scalar_def op_interned_def f32_to_f64_exact [OF Some])
qed

lemma op_literal:
  assumes "op_scalar_wf v"
  shows "\<exists>t body. plist_to_opack v = t # body \<and> t \<noteq> 3 \<and> t < 0xD0 \<and>
    (\<forall>tb r. op_scalar t tb (body @ r) =
      Ok (v, r, if op_interned_value v then op_remember tb v else tb))"
proof (cases v)
  case (PBoolean b)
  then show ?thesis by (simp add: op_scalar_def op_interned_value_def)
next
  case (PInteger i)
  with assms have i: "as_unsigned i = Some (word_of_int i)" "uint (word_of_int i :: u64) = i"
    by (simp_all add: op_scalar_wf_def as_unsigned_def uint_word_of_int)
  from op_int_literal [of "word_of_int i"] i(2) obtain t body where
    "opack_int (word_of_int i) = t # body" "8 \<le> t" "t \<le> 0x33"
    "\<And>tb r. op_scalar t tb (body @ r) =
      Ok (PInteger i, r, if i > 0x27 then op_remember tb (PInteger i) else tb)" by auto
  with i(1) PInteger show ?thesis
    by (auto simp: op_interned_value_def word_le_nat_alt word_less_nat_alt)
next
  case (PReal d)
  with op_real_literal [of d] show ?thesis
    by (auto simp: op_interned_value_def word_le_nat_alt word_less_nat_alt)
next
  case (PString s)
  with op_string_literal [of s] assms show ?thesis
    by (auto simp: op_interned_value_def op_scalar_wf_def word_le_nat_alt word_less_nat_alt)
next
  case (PData s)
  with op_data_literal [of s] assms show ?thesis
    by (auto simp: op_interned_value_def op_scalar_wf_def word_le_nat_alt word_less_nat_alt)
qed (use assms in \<open>simp_all add: op_scalar_wf_def\<close>)

section \<open>A reference encoder with back-references\<close>

text \<open>
  What the device may send: with \<open>p\<close>, a scalar that is already in the table is written as a pointer
  to its entry. Without \<open>p\<close> everything is written out, which is the encoder above.
\<close>

definition op_pointer :: "nat \<Rightarrow> byte list" where
  "op_pointer i =
    (if i \<le> 0x20 then [0xA0 + of_nat i]
     else if i \<le> 0xFF then [0xC1, of_nat i]
     else if i \<le> 0xFFFF then 0xC2 # to_le_bytes (of_nat i :: u16)
     else if i \<le> 0xFFFFFFFF then 0xC3 # to_le_bytes (of_nat i :: u32)
     else 0xC4 # to_le_bytes (of_nat i :: u64))"

definition op_index :: "plist_value list \<Rightarrow> plist_value \<Rightarrow> nat" where
  "op_index tb v = length (takeWhile (\<lambda>x. x \<noteq> v) tb)"

definition ref_scalar :: "bool \<Rightarrow> plist_value list \<Rightarrow> plist_value \<Rightarrow> byte list \<times> plist_value list" where
  "ref_scalar p tb v =
    (if op_interned_value v then
       (if p \<and> v \<in> set tb \<and> op_index tb v < 2 ^ 64 then (op_pointer (op_index tb v), tb)
        else (plist_to_opack v, op_remember tb v))
     else (plist_to_opack v, tb))"

fun ref_encode :: "bool \<Rightarrow> plist_value list \<Rightarrow> plist_value \<Rightarrow> byte list \<times> plist_value list"
and ref_items :: "bool \<Rightarrow> plist_value list \<Rightarrow> plist_value list \<Rightarrow> byte list \<times> plist_value list"
and ref_pairs :: "bool \<Rightarrow> plist_value list \<Rightarrow> plist_dict \<Rightarrow> byte list \<times> plist_value list" where
  "ref_encode p tb (PDictionary d) =
     (let (b, tb') = ref_pairs p tb d
      in (opack_count 0xE0 0xEF (length d) # b @ opack_end (length d), tb'))"
| "ref_encode p tb (PArray xs) =
     (let (b, tb') = ref_items p tb xs
      in (opack_count 0xD0 0xDF (length xs) # b @ opack_end (length xs), tb'))"
| "ref_encode p tb (PBoolean b) = ref_scalar p tb (PBoolean b)"
| "ref_encode p tb (PInteger i) = ref_scalar p tb (PInteger i)"
| "ref_encode p tb (PReal r) = ref_scalar p tb (PReal r)"
| "ref_encode p tb (PString s) = ref_scalar p tb (PString s)"
| "ref_encode p tb (PData d) = ref_scalar p tb (PData d)"
| "ref_encode p tb (PDate d) = ([], tb)"
| "ref_encode p tb (PUid u) = ([], tb)"
| "ref_items p tb [] = ([], tb)"
| "ref_items p tb (x # xs) =
     (let (b, t1) = ref_encode p tb x; (c, t2) = ref_items p t1 xs in (b @ c, t2))"
| "ref_pairs p tb [] = ([], tb)"
| "ref_pairs p tb ((k, x) # rest) =
     (let (a, t1) = ref_scalar p tb (PString k); (b, t2) = ref_encode p t1 x;
          (c, t3) = ref_pairs p t2 rest in (a @ b @ c, t3))"

text \<open>Without pointers the reference encoder writes what \<open>plist_to_opack\<close> writes.\<close>

lemma ref_scalar_literal [simp]: "fst (ref_scalar False tb v) = plist_to_opack v"
  by (simp add: ref_scalar_def)

lemma ref_encode_literal:
  "\<not> p \<Longrightarrow> fst (ref_encode p tb v) = plist_to_opack v"
  "\<not> p \<Longrightarrow> fst (ref_items p tb xs) = concat (map plist_to_opack xs)"
  "\<not> p \<Longrightarrow> fst (ref_pairs p tb d) =
     concat (map (\<lambda>(key, val). opack_blob 0x40 0x61 key @ plist_to_opack val) d)"
proof (induction p tb v and p tb xs and p tb d rule: ref_encode_ref_items_ref_pairs.induct)
  case (11 p tb x xs)
  obtain b t1 where b: "ref_encode p tb x = (b, t1)" by fastforce
  show ?case using 11(1) 11(2) [OF b [symmetric] refl] 11(3) b by (simp add: split_beta Let_def)
next
  case (13 p tb k x rest)
  obtain a t1 where a: "ref_scalar p tb (PString k) = (a, t1)" by fastforce
  obtain b t2 where b: "ref_encode p t1 x = (b, t2)" by fastforce
  have "a = plist_to_opack (PString k)" using a 13(3) ref_scalar_literal [of tb "PString k"] by simp
  then show ?case
    using 13(1) [OF a [symmetric] refl] 13(2) [OF a [symmetric] refl b [symmetric] refl] 13(3) a b
    by (simp add: split_beta Let_def)
qed (simp_all add: split_beta Let_def)

section \<open>Decoding what was encoded\<close>

fun opack_wf :: "plist_value \<Rightarrow> bool" where
  "opack_wf (PDictionary d) \<longleftrightarrow>
     distinct (map fst d) \<and> length d < 2 ^ 32 \<and>
     list_all (\<lambda>(k, x). op_scalar_wf (PString k) \<and> opack_wf x) d"
| "opack_wf (PArray xs) \<longleftrightarrow> length xs < 2 ^ 32 \<and> list_all opack_wf xs"
| "opack_wf v \<longleftrightarrow> op_scalar_wf v"

lemma op_index_nth: "v \<in> set tb \<Longrightarrow> op_index tb v < length tb \<and> tb ! op_index tb v = v"
proof -
  assume v: "v \<in> set tb"
  then have "length (takeWhile (\<lambda>x. x \<noteq> v) tb) < length tb"
    by (metis (mono_tags, lifting) length_takeWhile_le nat_less_le takeWhile_eq_all_conv
        takeWhile_eq_take take_all order_refl)
  then show ?thesis using nth_length_takeWhile [of "\<lambda>x. x \<noteq> v" tb] by (simp add: op_index_def)
qed

lemma op_pointer_decode:
  assumes "i < length tb" and "i < 2 ^ 64"
  shows "\<exists>t body. op_pointer i = t # body \<and> t \<noteq> 3 \<and> t < 0xD0 \<and>
    (\<forall>r. op_scalar t tb (body @ r) = Ok (tb ! i, r, tb))"
proof -
  have look: "op_lookup tb i = Ok (tb ! i)" using assms(1) by (simp add: op_lookup_def)
  consider "i \<le> 0x20" | "\<not> i \<le> 0x20" "i \<le> 0xFF" | "\<not> i \<le> 0xFF" "i \<le> 0xFFFF"
    | "\<not> i \<le> 0xFFFF" "i \<le> 0xFFFFFFFF" | "\<not> i \<le> 0xFFFFFFFF" by linarith
  then show ?thesis
  proof cases
    case 1
    define t :: byte where "t = 0xA0 + of_nat i"
    have t: "unat t = 160 + i" using 1 by (simp add: t_def unat_word_ariths unat_of_nat)
    have "unat (t - 0xA0) = i" using 1 by (simp add: t_def unat_of_nat)
    then have "op_scalar t tb r = Ok (tb ! i, r, tb)" for r
      using 1 t look by (simp add: op_scalar_def word_le_nat_alt word_unat_eq_iff)
    moreover have "t \<noteq> 3" "t < 0xD0" using t 1 by (simp_all add: word_less_nat_alt word_unat_eq_iff)
    ultimately show ?thesis using 1 by (simp add: op_pointer_def t_def [symmetric])
  next
    case 2
    then show ?thesis using look by (simp add: op_pointer_def op_scalar_def op_read_u8_def unat_of_nat)
  next
    case 3
    then have "unat (of_nat i :: u16) = i" by (simp add: unat_of_nat)
    with 3 show ?thesis using look by (simp add: op_pointer_def op_scalar_def)
  next
    case 4
    then have "unat (of_nat i :: u32) = i" by (simp add: unat_of_nat)
    with 4 show ?thesis using look by (simp add: op_pointer_def op_scalar_def)
  next
    case 5
    have "unat (of_nat i :: u64) = i" using assms(2) by (simp add: unat_of_nat)
    with 5 show ?thesis using look by (simp add: op_pointer_def op_scalar_def)
  qed
qed

lemma ref_scalar_decode:
  assumes "op_scalar_wf v"
  shows "\<exists>t body. fst (ref_scalar p tb v) = t # body \<and> t \<noteq> 3 \<and> t < 0xD0 \<and>
    (\<forall>r. op_scalar t tb (body @ r) = Ok (v, r, snd (ref_scalar p tb v)))"
proof (cases "op_interned_value v \<and> p \<and> v \<in> set tb \<and> op_index tb v < 2 ^ 64")
  case True
  with op_pointer_decode [of "op_index tb v" tb] op_index_nth [of v tb] show ?thesis
    by (simp add: ref_scalar_def)
next
  case False
  with op_literal [OF assms] show ?thesis by (auto simp: ref_scalar_def)
qed

lemma ref_scalar_value:
  assumes "op_scalar_wf v"
  shows "op_value ins tb (fst (ref_scalar p tb v) @ r) = Ok (v, r, snd (ref_scalar p tb v))"
proof -
  from ref_scalar_decode [OF assms, of p tb] obtain t body where
    t: "fst (ref_scalar p tb v) = t # body" "t < 0xD0"
      "\<And>r. op_scalar t tb (body @ r) = Ok (v, r, snd (ref_scalar p tb v))" by blast
  have "\<not> 0xD0 \<le> t" "\<not> 0xE0 \<le> t" using t(2) by (simp_all add: word_le_nat_alt word_less_nat_alt)
  with t show ?thesis by (simp add: op_value.simps op_read_u8_def)
qed

lemma opack_count_cases:
  assumes "n < 2 ^ 32" and "base = 0xD0 \<and> oe = 0xDF \<or> base = 0xE0 \<and> oe = 0xEF"
  shows "if n < 15 then \<exists>t. opack_count base oe n = t \<and> base \<le> t \<and> t < oe \<and> unat (t - base) = n \<and>
           opack_end n = []
         else opack_count base oe n = oe \<and> opack_end n = [3]"
proof (cases "n < 15")
  case True
  then have "unat (of_nat n :: u32) = n" "unat (of_nat n :: byte) = n" by (simp_all add: unat_of_nat)
  moreover have "(ucast (of_nat n :: u32) :: byte) = of_nat n"
    using True by (simp add: word_unat_eq_iff unsigned_ucast_eq take_bit_eq_mod unat_of_nat)
  moreover have "unat (0xD0 + of_nat n :: byte) = 0xD0 + n" "unat (0xE0 + of_nat n :: byte) = 0xE0 + n"
    using True by (simp_all add: unat_word_ariths unat_of_nat)
  ultimately show ?thesis
    using True assms(2)
    by (elim disjE) (simp_all add: opack_count_def opack_end_def word_less_nat_alt word_le_nat_alt)
next
  case False
  have "unat (of_nat n :: u32) = n" using assms(1) by (simp add: unat_of_nat)
  with False show ?thesis by (simp add: opack_count_def opack_end_def word_less_nat_alt)
qed

lemma ref_encode_head:
  assumes "opack_wf v"
  shows "\<exists>t body. fst (ref_encode p tb v) = t # body \<and> t \<noteq> 3"
proof -
  have "(opack_count b o' n) \<noteq> 3"
    if "b = 0xD0 \<and> o' = 0xDF \<or> b = 0xE0 \<and> o' = 0xEF" "n < 2 ^ 32" for b o' n
    using opack_count_cases [OF that(2,1)] that(1)
    by (auto split: if_splits simp: word_le_nat_alt word_unat_eq_iff)
  then show ?thesis
    using assms ref_scalar_decode [of v p tb]
    by (cases v) (auto simp: split_beta Let_def op_scalar_wf_def)
qed

text \<open>
  The decoder follows the reference encoder value by value, its table that of the encoder: with a
  count (\<open>Some\<close>) or up to the terminator (\<open>None\<close>).
\<close>

lemma op_value_ref:
  "opack_wf v \<Longrightarrow> op_value map_insert tb (fst (ref_encode p tb v) @ r) = Ok (v, r, snd (ref_encode p tb v))"
  "list_all opack_wf xs \<Longrightarrow>
     op_items map_insert (Some (length xs)) tb (fst (ref_items p tb xs) @ r) =
       Ok (xs, r, snd (ref_items p tb xs)) \<and>
     op_items map_insert None tb (fst (ref_items p tb xs) @ 3 # r) = Ok (xs, r, snd (ref_items p tb xs))"
  "list_all (\<lambda>(k, x). op_scalar_wf (PString k) \<and> opack_wf x) d \<Longrightarrow>
     distinct (map fst (acc @ d)) \<Longrightarrow>
     op_pairs map_insert (Some (length d)) acc tb (fst (ref_pairs p tb d) @ r) =
       Ok (acc @ d, r, snd (ref_pairs p tb d)) \<and>
     op_pairs map_insert None acc tb (fst (ref_pairs p tb d) @ 3 # r) =
       Ok (acc @ d, r, snd (ref_pairs p tb d))"
proof (induction p tb v and p tb xs and p tb d arbitrary: r and r and acc r
    rule: ref_encode_ref_items_ref_pairs.induct)
  case (1 p tb d)
  obtain b tb' where b: "ref_pairs p tb d = (b, tb')" by fastforce
  from 1(2) have l: "length d < 2 ^ 32" by simp
  have ih: "op_pairs map_insert (Some (length d)) [] tb (b @ r) = Ok (d, r, tb')"
    "op_pairs map_insert None [] tb (b @ 3 # r) = Ok (d, r, tb')" for r
    using 1(1) [of "[]" r] 1(2) b by simp_all
  show ?case
    using opack_count_cases [OF l, of "0xE0" "0xEF"] ih b
    by (cases "length d < 15")
      (auto simp: op_value.simps op_read_u8_def word_le_nat_alt word_less_nat_alt)
next
  case (2 p tb xs)
  obtain b tb' where b: "ref_items p tb xs = (b, tb')" by fastforce
  from 2(2) have l: "length xs < 2 ^ 32" by simp
  have ih: "op_items map_insert (Some (length xs)) tb (b @ r) = Ok (xs, r, tb')"
    "op_items map_insert None tb (b @ 3 # r) = Ok (xs, r, tb')" for r
    using 2(1) [of r] 2(2) b by simp_all
  show ?case
    using opack_count_cases [OF l, of "0xD0" "0xDF"] ih b
    by (cases "length xs < 15")
      (auto simp: op_value.simps op_read_u8_def word_le_nat_alt word_less_nat_alt)
next
  case (10 p tb)
  show ?case
    by (simp add: op_items.simps items_done_def peek_is_terminator_def get_at_def)
next
  case (11 p tb x xs)
  obtain b t1 where b: "ref_encode p tb x = (b, t1)" by fastforce
  obtain c t2 where c: "ref_items p t1 xs = (c, t2)" by fastforce
  from 11(3) have wf: "opack_wf x" by simp
  obtain t body where h: "b = t # body" "t \<noteq> 3" using ref_encode_head [OF wf, of p tb] b by auto
  have v: "op_value map_insert tb (b @ s) = Ok (x, s, t1)" for s using 11(1) [OF wf, of s] b by simp
  have i: "op_items map_insert (Some (length xs)) t1 (c @ s) = Ok (xs, s, t2)"
    "op_items map_insert None t1 (c @ 3 # s) = Ok (xs, s, t2)" for s
    using 11(2) [OF b [symmetric] refl, of s] 11(3) c by simp_all
  have d: "items_done (Some (Suc n)) s = None" "items_done None (b @ s) = None" for n s
    using h by (simp_all add: items_done_def peek_is_terminator_def get_at_def)
  show ?case
    using v i d by (simp add: b c 
        op_items.simps [of map_insert "Some (Suc (length xs))" tb] op_items.simps [of map_insert None tb])
next
  case (12 p tb)
  show ?case
    by (simp add: op_pairs.simps items_done_def peek_is_terminator_def get_at_def)
next
  case (13 p tb k x rest)
  obtain a t1 where a: "ref_scalar p tb (PString k) = (a, t1)" by fastforce
  obtain b t2 where b: "ref_encode p t1 x = (b, t2)" by fastforce
  obtain c t3 where c: "ref_pairs p t2 rest = (c, t3)" by fastforce
  from 13(3) have wf: "op_scalar_wf (PString k)" "opack_wf x" by simp_all
  obtain t body where h: "a = t # body" "t \<noteq> 3" using ref_scalar_decode [OF wf(1), of p tb] a by auto
  have k: "op_value map_insert tb (a @ s) = Ok (PString k, s, t1)" for s
    using ref_scalar_value [OF wf(1)] a by (metis fst_conv snd_conv)
  have v: "op_value map_insert t1 (b @ s) = Ok (x, s, t2)" for s
    using 13(1) [OF a [symmetric] refl wf(2), of s] b by simp
  have n: "map_insert k x acc = acc @ [(k, x)]" using 13(4) by (auto simp: map_insert_new)
  have i: "op_pairs map_insert (Some (length rest)) (acc @ [(k, x)]) t2 (c @ s) =
      Ok (acc @ (k, x) # rest, s, t3)"
    "op_pairs map_insert None (acc @ [(k, x)]) t2 (c @ 3 # s) = Ok (acc @ (k, x) # rest, s, t3)" for s
    using 13(2) [OF a [symmetric] refl b [symmetric] refl, of "acc @ [(k, x)]" s] 13(3,4) c by simp_all
  have d: "items_done (Some (Suc n)) s = None" "items_done None (a @ s) = None" for n s
    using h by (simp_all add: items_done_def peek_is_terminator_def get_at_def)
  show ?case
    using k v i d
    by (simp add: a b c n plist_as_string_def 
        op_pairs.simps [of map_insert "Some (Suc (length rest))" acc tb]
        op_pairs.simps [of map_insert None acc tb])
qed (simp_all add: ref_scalar_value op_scalar_wf_def)

section \<open>Totality, and the table of back-references\<close>

lemma op_read_not_Panic [simp]:
  "op_read_u8 bs \<noteq> Panic" "op_read_le bs \<noteq> Panic" "op_read_be bs \<noteq> Panic" "op_lookup tb i \<noteq> Panic"
  "op_read_vec n bs \<noteq> Panic" "op_read_string n bs \<noteq> Panic"
  by (auto simp: op_read_u8_def op_read_le_def op_read_be_def op_lookup_def op_read_vec_def
      op_read_string_def rbind_eq_Panic split: list.splits)

lemma op_blob_not_Panic [simp]:
  "op_read_sized_len inl big tag bs \<noteq> Panic" "parse_string_value tag bs \<noteq> Panic"
  "parse_data_value tag bs \<noteq> Panic"
  by (auto simp: op_read_sized_len_def parse_string_value_def parse_data_value_def rbind_eq_Panic)

lemma op_scalar_not_Panic [simp]: "op_scalar tag tb bs \<noteq> Panic"
  by (auto simp: op_scalar_def op_interned_def rbind_eq_Panic)

lemma op_not_Panic:
  "op_value ins tb bs \<noteq> Panic"
  "op_items ins count tb bs \<noteq> Panic"
  "op_pairs ins count dict tb bs \<noteq> Panic"
proof (induction ins tb bs and ins count tb bs and ins count dict tb bs
    rule: op_value_op_items_op_pairs.induct)
  case (1 ins tb bs)
  show ?case
  proof (cases "op_read_u8 bs")
    case (Ok x)
    then obtain tag r where t: "op_read_u8 bs = Ok (tag, r)" by (cases x) auto
    consider (arr) "0xD0 \<le> tag \<and> tag \<le> 0xDF"
      | (dict) "\<not> (0xD0 \<le> tag \<and> tag \<le> 0xDF)" "0xE0 \<le> tag \<and> tag \<le> 0xEF"
      | (sc) "\<not> (0xD0 \<le> tag \<and> tag \<le> 0xDF)" "\<not> (0xE0 \<le> tag \<and> tag \<le> 0xEF)" by blast
    then show ?thesis
    proof cases
      case arr
      from 1(1) [OF t refl arr] arr t show ?thesis
        by (auto simp: op_value.simps [of ins tb bs] rbind_eq_Panic)
    next
      case dict
      from 1(2) [OF t refl dict] dict t show ?thesis
        by (auto simp: op_value.simps [of ins tb bs] rbind_eq_Panic)
    next
      case sc
      with t show ?thesis by (auto simp: op_value.simps [of ins tb bs])
    qed
  qed (simp_all add: op_value.simps)
next
  case (2 ins count tb bs)
  then show ?case by (subst op_items.simps) (auto simp: rbind_eq_Panic split: option.splits)
next
  case (3 ins count dict tb bs)
  then show ?case by (subst op_pairs.simps) (auto simp: rbind_eq_Panic split: option.splits)
qed

text \<open>No entry of the table equals a later one, and only scalars are entered.\<close>

definition op_table_ok :: "plist_value list \<Rightarrow> bool" where
  "op_table_ok tb \<longleftrightarrow> sorted_wrt (\<lambda>a b. \<not> scalar_eq a b) tb \<and>
     list_all (\<lambda>v. case v of PArray _ \<Rightarrow> False | PDictionary _ \<Rightarrow> False | _ \<Rightarrow> True) tb"

lemma op_remember_ok:
  "op_table_ok tb \<Longrightarrow> (case v of PArray _ \<Rightarrow> False | PDictionary _ \<Rightarrow> False | _ \<Rightarrow> True) \<Longrightarrow>
   op_table_ok (op_remember tb v)"
  by (auto simp: op_table_ok_def op_remember_def sorted_wrt_append list_ex_iff)

lemma op_scalar_table: "op_scalar tag tb bs = Ok (v, r, tb') \<Longrightarrow> op_table_ok tb \<Longrightarrow> op_table_ok tb'"
  by (auto simp: op_scalar_def op_interned_def parse_string_value_def parse_data_value_def
      split: if_splits intro!: op_remember_ok)

lemma op_table:
  "op_value ins tb bs = Ok (v, r, tb') \<Longrightarrow> op_table_ok tb \<Longrightarrow> op_table_ok tb'"
  "op_items ins count tb bs = Ok (vs, r, tb') \<Longrightarrow> op_table_ok tb \<Longrightarrow> op_table_ok tb'"
  "op_pairs ins count dict tb bs = Ok (d, r, tb') \<Longrightarrow> op_table_ok tb \<Longrightarrow> op_table_ok tb'"
proof (induction ins tb bs and ins count tb bs and ins count dict tb bs
    arbitrary: v r tb' and vs r tb' and d r tb' rule: op_value_op_items_op_pairs.induct)
  case (1 ins tb bs)
  from 1(3) obtain tag r0 where t: "op_read_u8 bs = Ok (tag, r0)"
    by (auto simp: op_value.simps [of ins tb bs])
  consider (arr) "0xD0 \<le> tag \<and> tag \<le> 0xDF"
    | (dict) "\<not> (0xD0 \<le> tag \<and> tag \<le> 0xDF)" "0xE0 \<le> tag \<and> tag \<le> 0xEF"
    | (sc) "\<not> (0xD0 \<le> tag \<and> tag \<le> 0xDF)" "\<not> (0xE0 \<le> tag \<and> tag \<le> 0xEF)" by blast
  then show ?case
  proof cases
    case arr
    with 1(3) t obtain xs where
      "op_items ins (if tag = 0xDF then None else Some (unat (tag - 0xD0))) tb r0 = Ok (xs, r, tb')"
      by (auto simp: op_value.simps [of ins tb bs])
    from 1(1) [OF t refl arr this 1(4)] show ?thesis .
  next
    case dict
    with 1(3) t obtain d where
      "op_pairs ins (if tag = 0xEF then None else Some (unat (tag - 0xE0))) [] tb r0 = Ok (d, r, tb')"
      by (auto simp: op_value.simps [of ins tb bs])
    from 1(2) [OF t refl dict this 1(4)] show ?thesis .
  next
    case sc
    with 1(3) t have "op_scalar tag tb r0 = Ok (v, r, tb')" by (simp add: op_value.simps [of ins tb bs])
    then show ?thesis using 1(4) by (rule op_scalar_table)
  qed
next
  case (2 ins count tb bs)
  show ?case
  proof (cases "items_done count bs")
    case (Some q)
    with 2(3,4) show ?thesis by (simp add: op_items.simps)
  next
    case None
    with 2(3) obtain x r1 t1 xs where x: "op_value ins tb bs = Ok (x, r1, t1)"
      and xs: "op_items ins (map_option (\<lambda>n. n - 1) count) t1 r1 = Ok (xs, r, tb')"
      by (subst (asm) op_items.simps) auto
    from 2(1) [OF None x 2(4)] 2(2) [OF None x refl refl xs] show ?thesis by simp
  qed
next
  case (3 ins count dict tb bs)
  show ?case
  proof (cases "items_done count bs")
    case (Some q)
    with 3(4,5) show ?thesis by (simp add: op_pairs.simps)
  next
    case None
    with 3(4) obtain k r1 t1 key x r2 t2 where k: "op_value ins tb bs = Ok (k, r1, t1)"
      and s: "plist_as_string k = Some key" and x: "op_value ins t1 r1 = Ok (x, r2, t2)"
      and xs: "op_pairs ins (map_option (\<lambda>n. n - 1) count) (ins key x dict) t2 r2 = Ok (d, r, tb')"
      by (subst (asm) op_pairs.simps) auto
    have s': "ok_or OpKeyNotString (plist_as_string k) = Ok key" using s by simp
    note k' = 3(1) [OF None k 3(5)]
    from 3(2) [OF None k refl refl s' x k'] 3(3) [OF None k refl refl s' x refl refl xs]
    show ?thesis by simp
  qed
qed

section \<open>Properties\<close>

definition opack_sample :: plist_value where
  "opack_sample = PDictionary [(rstr ''name'', PString (rstr ''iPhone'')),
     (rstr ''model'', PString (rstr ''iPhone'')), (rstr ''n'', PArray [PInteger 300, PInteger 300,
       PBoolean True, PData [1, 2], PReal 0x3FF8000000000000])]"

lemma opack_sample_wf: "opack_wf opack_sample"
  by (simp add: opack_sample_def op_scalar_wf_def utf8_valid_ascii)

text \<open>
  C6. OPACK round trip: a property list of dictionaries with distinct keys, arrays, strings, data,
  booleans, unsigned integers and reals of any size, encoded and decoded, comes back unchanged,
  a real bit for bit (through the four-byte form when that is exact).
\<close>

theorem opack_round_trip:
  assumes "opack_wf v"
  shows "opack_to_plist map_insert (plist_to_opack v) = Ok v"
proof -
  have "op_value map_insert [] (plist_to_opack v @ []) = Ok (v, [], snd (ref_encode False [] v))"
    using op_value_ref(1) [OF assms, of "[]" False "[]"] ref_encode_literal(1) [of False "[]" v]
    by simp
  then show ?thesis by (simp add: opack_to_plist_def)
qed

theorem opack_round_trip_witness:
  "opack_wf opack_sample \<and> opack_to_plist map_insert (plist_to_opack opack_sample) = Ok opack_sample"
  using opack_sample_wf opack_round_trip [OF opack_sample_wf] by blast



text \<open>
  C17. The decoder is total on arbitrary input: it never panics, it reports trailing bytes as such,
  counted,
  and the table it has built is one without repetition and without collections, so the
  indices a peer computes by the same rule agree with it.
\<close>

theorem opack_decode_total:
  "(case opack_to_plist ins bs of
      Ok v \<Rightarrow> (\<exists>tb. op_value ins [] bs = Ok (v, [], tb) \<and> op_table_ok tb)
    | Err e \<Rightarrow> op_value ins [] bs = Err e \<or>
        (\<exists>v r tb. op_value ins [] bs = Ok (v, r, tb) \<and> 0 < length r \<and> length r < length bs \<and>
           e = OpTrailing (length r))
    | Panic \<Rightarrow> False)"
proof (cases "op_value ins [] bs")
  case (Ok x)
  obtain v r tb where x: "x = (v, r, tb)" by (cases x)
  have "op_table_ok []" by (simp add: op_table_ok_def)
  then show ?thesis
    using Ok op_table(1) [of ins "[]" bs v r tb] op_shorter(1) [of ins "[]" bs v r tb]
    by (simp add: opack_to_plist_def x)
next
  case (Err e)
  then show ?thesis by (simp add: opack_to_plist_def)
next
  case Panic
  then show ?thesis using op_not_Panic(1) by blast
qed

text \<open>
  What the encoder cannot represent it drops without an error: a date or a UID leaves no byte,
  so that a collection holding one decodes to an end-of-input error, and every negative
  integer is written as zero.
\<close>

theorem opack_encode_drops:
  "plist_to_opack (PDate d) = [] \<and> plist_to_opack (PUid u) = [] \<and>
   opack_to_plist ins (plist_to_opack (PArray [PDate d])) = Err OpEofTag \<and>
   opack_to_plist ins (plist_to_opack (PInteger (- int (Suc n)))) = Ok (PInteger 0)"
proof -
  have "plist_to_opack (PArray [PDate d]) = [0xD1]" by (simp add: opack_count_def opack_end_def)
  moreover have "op_value ins [] [0xD1] = Err OpEofTag"
    by (simp add: op_value.simps op_items.simps op_read_u8_def items_done_def)
  moreover have "plist_to_opack (PInteger (- int (Suc n))) = [8]"
    by (simp add: as_unsigned_def opack_int_def)
  moreover have "op_value ins [] [8] = Ok (PInteger 0, [], [])"
    by (simp add: op_value.simps op_read_u8_def op_scalar_def)
  ultimately show ?thesis by (simp add: opack_to_plist_def)
qed

end
