(* ===== verification/Tlv8.thy ===== *)
theory Tlv8
  imports Codec Errors
begin

text \<open>
  remote\_pairing/tlv.rs: the type-length-value records of the pairing messages. The length is one
  byte, so an entry longer than 255 bytes is written with its length cut to eight bits.
\<close>

datatype (plugins only: code) tlv_type =
    TlvMethod | TlvIdentifier | TlvSalt | TlvPublicKey | TlvProof | TlvEncryptedData | TlvState
    | TlvErrorResponse | TlvRetryDelay | TlvCertificate | TlvSignature | TlvPermissions |
    TlvFragmentData | TlvFragmentLast | TlvSessionId | TlvTtl | TlvExtraData | TlvInfo | TlvAcl
    | TlvFlags | TlvValidationData | TlvMfiAuthToken | TlvMfiProductType | TlvSerialNumber |
    TlvMfiAuthTokenUuid | TlvAppFlags | TlvOwnershipProof | TlvSetupCodeType | TlvProductionData
    | TlvAppInfo | TlvSeparator

primrec tlv_code :: "tlv_type \<Rightarrow> byte" where
  "tlv_code TlvMethod = 0x00"
| "tlv_code TlvIdentifier = 0x01"
| "tlv_code TlvSalt = 0x02"
| "tlv_code TlvPublicKey = 0x03"
| "tlv_code TlvProof = 0x04"
| "tlv_code TlvEncryptedData = 0x05"
| "tlv_code TlvState = 0x06"
| "tlv_code TlvErrorResponse = 0x07"
| "tlv_code TlvRetryDelay = 0x08"
| "tlv_code TlvCertificate = 0x09"
| "tlv_code TlvSignature = 0x0a"
| "tlv_code TlvPermissions = 0x0b"
| "tlv_code TlvFragmentData = 0x0c"
| "tlv_code TlvFragmentLast = 0x0d"
| "tlv_code TlvSessionId = 0x0e"
| "tlv_code TlvTtl = 0x0f"
| "tlv_code TlvExtraData = 0x10"
| "tlv_code TlvInfo = 0x11"
| "tlv_code TlvAcl = 0x12"
| "tlv_code TlvFlags = 0x13"
| "tlv_code TlvValidationData = 0x14"
| "tlv_code TlvMfiAuthToken = 0x15"
| "tlv_code TlvMfiProductType = 0x16"
| "tlv_code TlvSerialNumber = 0x17"
| "tlv_code TlvMfiAuthTokenUuid = 0x18"
| "tlv_code TlvAppFlags = 0x19"
| "tlv_code TlvOwnershipProof = 0x1a"
| "tlv_code TlvSetupCodeType = 0x1b"
| "tlv_code TlvProductionData = 0x1c"
| "tlv_code TlvAppInfo = 0x1d"
| "tlv_code TlvSeparator = 0xff"

definition tlv_try_from :: "byte \<Rightarrow> tlv_type option" where
  "tlv_try_from value =
    (if value = 0x00 then Some TlvMethod
     else if value = 0x01 then Some TlvIdentifier
     else if value = 0x02 then Some TlvSalt
     else if value = 0x03 then Some TlvPublicKey
     else if value = 0x04 then Some TlvProof
     else if value = 0x05 then Some TlvEncryptedData
     else if value = 0x06 then Some TlvState
     else if value = 0x07 then Some TlvErrorResponse
     else if value = 0x08 then Some TlvRetryDelay
     else if value = 0x09 then Some TlvCertificate
     else if value = 0x0a then Some TlvSignature
     else if value = 0x0b then Some TlvPermissions
     else if value = 0x0c then Some TlvFragmentData
     else if value = 0x0d then Some TlvFragmentLast
     else if value = 0x0e then Some TlvSessionId
     else if value = 0x0f then Some TlvTtl
     else if value = 0x10 then Some TlvExtraData
     else if value = 0x11 then Some TlvInfo
     else if value = 0x12 then Some TlvAcl
     else if value = 0x13 then Some TlvFlags
     else if value = 0x14 then Some TlvValidationData
     else if value = 0x15 then Some TlvMfiAuthToken
     else if value = 0x16 then Some TlvMfiProductType
     else if value = 0x17 then Some TlvSerialNumber
     else if value = 0x18 then Some TlvMfiAuthTokenUuid
     else if value = 0x19 then Some TlvAppFlags
     else if value = 0x1a then Some TlvOwnershipProof
     else if value = 0x1b then Some TlvSetupCodeType
     else if value = 0x1c then Some TlvProductionData
     else if value = 0x1d then Some TlvAppInfo
     else if value = 0xff then Some TlvSeparator
     else None)"

record tlv8_entry =
  tlv_type :: tlv_type
  tlv_data :: "byte list"

definition collect_component_data :: "tlv8_entry list \<Rightarrow> tlv_type \<Rightarrow> byte list" where
  "collect_component_data entries component =
    concat (map tlv_data (filter (\<lambda>entry. tlv_type entry = component) entries))"

definition contains_component :: "tlv8_entry list \<Rightarrow> tlv_type \<Rightarrow> bool" where
  "contains_component entries component \<longleftrightarrow> list_ex (\<lambda>entry. tlv_type entry = component) entries"

definition serialize_tlv8 :: "tlv8_entry list \<Rightarrow> byte list" where
  "serialize_tlv8 entries =
    concat (map (\<lambda>entry. [tlv_code (tlv_type entry), of_nat (length (tlv_data entry))] @ tlv_data entry)
      entries)"

function deserialize_tlv8 :: "byte list \<Rightarrow> (tlv8_entry list, remote_pairing_error) res" where
  "deserialize_tlv8 (type_byte # len # rest) =
    (let length' = unat len
     in if length' > length rest then Err MalformedTlv
        else case tlv_try_from type_byte of
               None \<Rightarrow> Err (UnknownTlv type_byte)
             | Some ty \<Rightarrow>
                 rmap (\<lambda>es. \<lparr>tlv_type = ty, tlv_data = take length' rest\<rparr> # es)
                   (deserialize_tlv8 (drop length' rest)))"
| "deserialize_tlv8 [b] = Ok []"
| "deserialize_tlv8 [] = Ok []"
  by pat_completeness auto
termination
  by (relation "measure length") auto

lemma tlv_try_from_code [simp]: "tlv_try_from (tlv_code t) = Some t"
  by (cases t) (simp_all add: tlv_try_from_def)

lemma tlv_try_from_Some: "tlv_try_from b = Some t \<Longrightarrow> tlv_code t = b"
  by (auto simp: tlv_try_from_def split: if_splits)

text \<open>One entry is a strict codec; the serializer concatenates entries.\<close>

definition tlv_entry_bytes :: "tlv8_entry \<Rightarrow> byte list" where
  "tlv_entry_bytes e = [tlv_code (tlv_type e), of_nat (length (tlv_data e))] @ tlv_data e"

definition tlv_entry_decode :: "byte list \<Rightarrow> (tlv8_entry \<times> byte list, remote_pairing_error) res" where
  "tlv_entry_decode bs =
    (case bs of
       type_byte # len # rest \<Rightarrow>
         if unat len > length rest then Err MalformedTlv
         else rmap (\<lambda>ty. (\<lparr>tlv_type = ty, tlv_data = take (unat len) rest\<rparr>, drop (unat len) rest))
           (ok_or (UnknownTlv type_byte) (tlv_try_from type_byte))
     | _ \<Rightarrow> Err MalformedTlv)"

interpretation tlv_codec: strict_codec tlv_entry_bytes tlv_entry_decode
  "\<lambda>e. length (tlv_data e) \<le> 255"
proof
  fix e :: tlv8_entry and rest
  assume "length (tlv_data e) \<le> 255"
  then have "unat (of_nat (length (tlv_data e)) :: byte) = length (tlv_data e)"
    by (simp add: unat_of_nat)
  then show "tlv_entry_decode (tlv_entry_bytes e @ rest) = Ok (e, rest)"
    by (simp add: tlv_entry_decode_def tlv_entry_bytes_def)
next
  fix bs e r
  assume "tlv_entry_decode bs = Ok (e, r)"
  then show "length r < length bs"
    by (auto simp: tlv_entry_decode_def split: list.splits if_splits)
qed

lemma serialize_tlv8_eq: "serialize_tlv8 es = concat (map tlv_entry_bytes es)"
  by (simp add: serialize_tlv8_def tlv_entry_bytes_def [abs_def])

lemma deserialize_serialize:
  "list_all (\<lambda>e. length (tlv_data e) \<le> 255) es \<Longrightarrow>
   deserialize_tlv8 (serialize_tlv8 es @ tail) = rmap ((@) es) (deserialize_tlv8 tail)"
proof (induction es)
  case Nil
  then show ?case by (cases "deserialize_tlv8 tail") (simp_all add: serialize_tlv8_def)
next
  case (Cons e es)
  from Cons.prems have "unat (of_nat (length (tlv_data e)) :: byte) = length (tlv_data e)"
    by (simp add: unat_of_nat)
  with Cons show ?case
    by (cases "deserialize_tlv8 tail") (simp_all add: serialize_tlv8_def)
qed

lemma deserialize_entries:
  "deserialize_tlv8 bs = Ok es \<Longrightarrow>
     list_all (\<lambda>e. length (tlv_data e) \<le> 255) es \<and>
     (\<exists>tail. length tail \<le> 1 \<and> bs = serialize_tlv8 es @ tail)"
proof (induction bs arbitrary: es rule: deserialize_tlv8.induct)
  case (1 ty len rest)
  from 1(2) obtain t es' where t: "\<not> unat len > length rest" "tlv_try_from ty = Some t"
    "deserialize_tlv8 (drop (unat len) rest) = Ok es'"
    "es = \<lparr>tlv_type = t, tlv_data = take (unat len) rest\<rparr> # es'"
    by (auto simp: Let_def split: if_splits option.splits)
  from 1(1) [OF refl t(1,2,3)] obtain tail where
    "list_all (\<lambda>e. length (tlv_data e) \<le> 255) es'" "length tail \<le> 1"
    "drop (unat len) rest = serialize_tlv8 es' @ tail" by blast
  moreover have "unat len \<le> 255" using unat_byte_bound [of len] by (simp del: unat_byte_bound)
  ultimately show ?case
    using t tlv_try_from_Some [OF t(2)] append_take_drop_id [of "unat len" rest]
    by (auto simp: serialize_tlv8_def intro!: exI [of _ tail] simp del: append_take_drop_id)
qed (auto simp: serialize_tlv8_def)

section \<open>Properties\<close>

text \<open>
  TLV8 round trip: entries of at most 255 bytes are read back as written; in particular a value
  of any size cut into pieces of at most 255 bytes, as the pairing code cuts its keys, is
  collected whole on the other side.
\<close>

theorem tlv8_round_trip:
  assumes "list_all (\<lambda>e. length (tlv_data e) \<le> 255) es"
  shows "deserialize_tlv8 (serialize_tlv8 es) = Ok es \<and>
    rmap (\<lambda>out. collect_component_data out t)
      (deserialize_tlv8 (serialize_tlv8
        (filter (\<lambda>e. tlv_type e \<noteq> t) es @
         map (\<lambda>c. \<lparr>tlv_type = t, tlv_data = c\<rparr>) (chunks 255 whole)))) = Ok whole"
proof -
  have r: "deserialize_tlv8 (serialize_tlv8 fs) = Ok fs"
    if "list_all (\<lambda>e. length (tlv_data e) \<le> 255) fs" for fs
    using deserialize_serialize [OF that, of "[]"] by simp
  let ?fs = "filter (\<lambda>e. tlv_type e \<noteq> t) es @ map (\<lambda>c. \<lparr>tlv_type = t, tlv_data = c\<rparr>) (chunks 255 whole)"
  have "list_all (\<lambda>e. length (tlv_data e) \<le> 255) ?fs"
    using assms chunks_length [of _ 255 whole] by (auto simp: list_all_iff)
  moreover have "collect_component_data ?fs t = whole"
    by (simp add: collect_component_data_def filter_map comp_def)
  ultimately show ?thesis using r [OF assms] r [of ?fs] by simp
qed

theorem tlv8_round_trip_witness:
  "deserialize_tlv8 (serialize_tlv8 [\<lparr>tlv_type = TlvState, tlv_data = [3]\<rparr>]) =
     Ok [\<lparr>tlv_type = TlvState, tlv_data = [3]\<rparr>] \<and>
   rmap (\<lambda>out. collect_component_data out TlvPublicKey)
      (deserialize_tlv8 (serialize_tlv8
        ([\<lparr>tlv_type = TlvState, tlv_data = [3]\<rparr>] @
         map (\<lambda>c. \<lparr>tlv_type = TlvPublicKey, tlv_data = c\<rparr>) (chunks 255 (replicate 384 7))))) =
     Ok (replicate 384 7)"
  using tlv8_round_trip [of "[\<lparr>tlv_type = TlvState, tlv_data = [3]\<rparr>]" TlvPublicKey "replicate 384 7"]
  by (simp del: replicate.simps)

text \<open>
  What the parser accepts: a buffer is accepted only when it is the serialization of the
  entries returned plus at most one trailing byte (which is ignored); nothing panics. A value
  longer than 255 bytes is therefore never read back from its own serialization.
\<close>

theorem tlv8_accepts:
  "case deserialize_tlv8 bs of
     Ok es \<Rightarrow> list_all (\<lambda>e. length (tlv_data e) \<le> 255) es \<and>
       (\<exists>tail. length tail \<le> 1 \<and> bs = serialize_tlv8 es @ tail)
   | Err e \<Rightarrow> (case e of UnknownTlv b \<Rightarrow> tlv_try_from b = None | _ \<Rightarrow> e = MalformedTlv)
   | Panic \<Rightarrow> False"
proof -
  have "deserialize_tlv8 b \<noteq> Panic \<and> (\<forall>e. deserialize_tlv8 b = Err e \<longrightarrow>
      (case e of UnknownTlv b \<Rightarrow> tlv_try_from b = None | _ \<Rightarrow> e = MalformedTlv))" for b
    by (induction b rule: deserialize_tlv8.induct) (auto simp: Let_def split: option.split)
  then show ?thesis
    using deserialize_entries [of bs] by (cases "deserialize_tlv8 bs") auto
qed

end
