(* ===== verification/Raw_Packet.thy ===== *)
theory Raw_Packet
  imports Errors Plist
begin

text \<open>
  usbmuxd/raw\_packet.rs: the header and body of a usbmuxd packet. The XML writer
  (\<open>plist_to_xml_bytes\<close>) and parser (\<open>plist::from_bytes\<close>) are parameters; what is relied on is that
  the parser reads what the writer wrote.
\<close>

record raw_packet =
  rp_size :: u32
  rp_version :: u32
  rp_message :: u32
  rp_tag :: u32
  rp_plist :: plist_dict

definition raw_packet_new :: "(plist_dict \<Rightarrow> byte list) \<Rightarrow> plist_dict \<Rightarrow> u32 \<Rightarrow> u32 \<Rightarrow> u32 \<Rightarrow> raw_packet" where
  "raw_packet_new to_xml plist version message tag =
    (let plist_bytes = to_xml plist
     in \<lparr>rp_size = of_nat (length plist_bytes) + 16, rp_version = version, rp_message = message,
         rp_tag = tag, rp_plist = plist\<rparr>)"

definition raw_packet_bytes :: "(plist_dict \<Rightarrow> byte list) \<Rightarrow> raw_packet \<Rightarrow> byte list" where
  "raw_packet_bytes to_xml p =
    to_le_bytes (rp_size p) @ to_le_bytes (rp_version p) @ to_le_bytes (rp_message p) @
    to_le_bytes (rp_tag p) @ to_xml (rp_plist p)"

text \<open>
  \<open>TryFrom<&[u8]>\<close>: the error is the unit. The four-byte slices are in range, so their conversions
  cannot fail; the body slice \<open>packet[16..packet_size]\<close> is reversed when \<open>packet_size < 16\<close>.
\<close>

definition raw_packet_try_from :: "(byte list \<Rightarrow> plist_dict option) \<Rightarrow> byte list \<Rightarrow>
    (raw_packet, unit) res" where
  "raw_packet_try_from from_xml packet =
    (if length packet < 16 then Err ()
     else
       let packet_size = from_le_bytes (sub 0 4 packet) :: u32
       in if length packet < unat packet_size then Err ()
          else
            rbind (index_range 16 (unat packet_size) packet) (\<lambda>body.
            rbind (ok_or () (from_xml body)) (\<lambda>plist.
              Ok \<lparr>rp_size = packet_size, rp_version = from_le_bytes (sub 4 4 packet),
                  rp_message = from_le_bytes (sub 8 4 packet), rp_tag = from_le_bytes (sub 12 4 packet),
                  rp_plist = plist\<rparr>)))"

lemma raw_packet_panics:
  "raw_packet_try_from from_xml packet = Panic \<longleftrightarrow>
    16 \<le> length packet \<and> unat (from_le_bytes (sub 0 4 packet) :: u32) < 16"
  by (auto simp: raw_packet_try_from_def Let_def rbind_eq_Panic index_range_def)

section \<open>Properties\<close>

text \<open>
  A usbmuxd packet whose body fits its 32-bit size is read back as it was written, whatever
  follows it in the buffer; the parser can be panicked by exactly the packets whose size field
  is below the 16 bytes of the header.
\<close>

theorem raw_packet_round_trip:
  assumes xml: "from_xml (to_xml d) = Some d" and "length (to_xml d) + 16 < 2 ^ 32"
  shows "raw_packet_try_from from_xml (raw_packet_bytes to_xml (raw_packet_new to_xml d v m t) @ rest) =
      Ok (raw_packet_new to_xml d v m t) \<and>
    (raw_packet_try_from from_xml packet = Panic \<longleftrightarrow>
      16 \<le> length packet \<and> unat (from_le_bytes (sub 0 4 packet) :: u32) < 16)"
proof -
  have "unat (of_nat (length (to_xml d)) + 16 :: u32) = length (to_xml d) + 16"
    using assms(2) by (simp add: unat_word_ariths unat_of_nat)
  then show ?thesis
    using raw_packet_panics [of from_xml packet]
    by (simp add: raw_packet_new_def raw_packet_bytes_def raw_packet_try_from_def Let_def
        index_range_def xml)
qed

theorem raw_packet_round_trip_witness:
  "raw_packet_try_from (\<lambda>b. if b = [60] then Some [] else None)
     (raw_packet_bytes (\<lambda>_. [60]) (raw_packet_new (\<lambda>_. [60]) [] 1 8 2) @ [9]) =
     Ok (raw_packet_new (\<lambda>_. [60]) [] 1 8 2) \<and>
   raw_packet_try_from (\<lambda>b. if b = [60] then Some [] else None)
     (to_le_bytes (15 :: u32) @ replicate 12 0) = Panic"
  using raw_packet_round_trip [of "\<lambda>b. if b = [60] then Some [] else None" "\<lambda>_. [60]" "[]" 1 8 2 "[9]"
      "to_le_bytes (15 :: u32) @ replicate 12 0"] by simp

end
