(* ===== verification/Cd_Tunnel.thy ===== *)
theory Cd_Tunnel
  imports Transport
begin

text \<open>
  tunnel.rs: the CDTunnel handshake and the packets of the tunnel. \<open>serde_json\<close> is a parameter:
  the bytes of the request, and the parser, which returns the fields the code looks up in the
  response (each lookup with \<open>as_str\<close> or \<open>as_u64\<close> applied).
\<close>

definition CDTUNNEL_MAGIC :: "byte list" where "CDTUNNEL_MAGIC = rstr ''CDTunnel''"
definition IPV6_HEADER_SIZE :: nat where "IPV6_HEADER_SIZE = 40"

record tunnel_info =
  ti_client_address :: rstring
  ti_netmask :: rstring
  ti_server_address :: rstring
  ti_mtu :: u16
  ti_server_rsd_port :: u16

text \<open>What the lookups on the response find; \<open>cp_\<close> fields are those of \<open>clientParameters\<close>.\<close>

record client_params =
  cp_address :: "rstring option"
  cp_mtu :: "u64 option"
  cp_netmask :: "rstring option"

record handshake_response =
  hr_client_parameters :: "client_params option"
  hr_server_address :: "rstring option"
  hr_server_rsd_port :: "u64 option"

definition missing :: "string \<Rightarrow> idevice_error" where
  "missing what = UnexpectedResponse (''missing '' @ what @ '' in CDTunnel handshake response'')"

definition tunnel_info_of :: "handshake_response \<Rightarrow> (tunnel_info, idevice_error) res" where
  "tunnel_info_of response =
    rbind (ok_or (missing ''clientParameters'') (hr_client_parameters response)) (\<lambda>cp.
    rbind (ok_or (missing ''client address'') (cp_address cp)) (\<lambda>client_address.
    rbind (ok_or (missing ''serverAddress'') (hr_server_address response)) (\<lambda>server_address.
      Ok \<lparr>ti_client_address = client_address,
          ti_netmask = (case cp_netmask cp of None \<Rightarrow> [] | Some n \<Rightarrow> n),
          ti_server_address = server_address,
          ti_mtu = ucast (case cp_mtu cp of None \<Rightarrow> 1500 | Some m \<Rightarrow> m),
          ti_server_rsd_port = ucast (case hr_server_rsd_port response of None \<Rightarrow> 0 | Some p \<Rightarrow> p)\<rparr>)))"

definition handshake :: "byte list \<Rightarrow> (byte list \<Rightarrow> (handshake_response, idevice_error) res) \<Rightarrow>
    (transport, tunnel_info) act" where
  "handshake body from_json =
    act_bind (tp_write_all CDTUNNEL_MAGIC) (\<lambda>_.
    act_bind (tp_write_all (to_be_bytes (of_nat (length body) :: u16))) (\<lambda>_.
    act_bind (tp_write_all body) (\<lambda>_.
    act_bind tp_flush (\<lambda>_.
    act_bind (tp_read_exact (length CDTUNNEL_MAGIC)) (\<lambda>magic_buf.
    if magic_buf \<noteq> CDTUNNEL_MAGIC then
      act_err (UnexpectedResponse ''invalid CDTunnel magic in handshake response'')
    else
      act_bind (tp_read_exact 2) (\<lambda>len_buf.
      act_bind (tp_read_exact (unat (from_be_bytes len_buf :: u16))) (\<lambda>response_buf.
      act_res (rbind (from_json response_buf) tunnel_info_of))))))))"

definition send_packet :: "byte list \<Rightarrow> (transport, unit) act" where
  "send_packet packet = act_bind (tp_write_all packet) (\<lambda>_. tp_flush)"

definition recv_packet :: "(transport, byte list) act" where
  "recv_packet =
    act_bind (tp_read_exact IPV6_HEADER_SIZE) (\<lambda>header.
    act_bind (tp_read_exact (unat (from_be_bytes [header ! 4, header ! 5] :: u16))) (\<lambda>payload.
    act_ok (header @ payload)))"

section \<open>Packets are cut as they were sent\<close>

text \<open>An IPv6 packet: a header of 40 bytes whose payload length is that of the rest.\<close>

definition ipv6_packet :: "byte list \<Rightarrow> bool" where
  "ipv6_packet p \<longleftrightarrow>
    40 \<le> length p \<and> length p = 40 + unat (from_be_bytes [p ! 4, p ! 5] :: u16)"

lemma recv_packet_arrives:
  assumes "ipv6_packet p" and "arrives (p @ rest) t"
  shows "\<exists>u. recv_packet t = (Ok p, u) \<and> arrives rest u"
proof -
  let ?h = "take 40 p" and ?b = "drop 40 p"
  have l: "length ?h = 40" "length ?b = unat (from_be_bytes [p ! 4, p ! 5] :: u16)"
    using assms(1) by (auto simp: ipv6_packet_def)
  have "?h @ (?b @ rest) = p @ rest" by (metis append.assoc append_take_drop_id)
  then have "arrives (?h @ (?b @ rest)) t" using assms(2) by (simp only:)
  from tp_read_exact_arrives [OF this] obtain u where
    u: "tp_read_exact 40 t = (Ok ?h, u)" "arrives (?b @ rest) u" using l(1) by auto
  from tp_read_exact_arrives [OF u(2)] obtain v where
    v: "tp_read_exact (unat (from_be_bytes [p ! 4, p ! 5] :: u16)) u = (Ok ?b, v)" "arrives rest v"
    using l(2) by auto
  have "?h ! 4 = p ! 4" "?h ! 5 = p ! 5" by simp_all
  then have "recv_packet t = (Ok p, v)"
    using u(1) v(1) by (simp add: recv_packet_def IPV6_HEADER_SIZE_def)
  with v(2) show ?thesis by blast
qed

primrec recv_packets :: "nat \<Rightarrow> (transport, byte list list) act" where
  "recv_packets 0 = act_ok []"
| "recv_packets (Suc n) = act_bind recv_packet (\<lambda>p. act_bind (recv_packets n) (\<lambda>ps. act_ok (p # ps)))"

lemma recv_packets_arrives:
  "list_all ipv6_packet ps \<Longrightarrow> arrives (concat ps @ rest) t \<Longrightarrow>
   \<exists>u. recv_packets (length ps) t = (Ok ps, u) \<and> arrives rest u"
proof (induction ps arbitrary: t)
  case (Cons p ps)
  then have "ipv6_packet p" "arrives (p @ (concat ps @ rest)) t" by simp_all
  from recv_packet_arrives [OF this] obtain u where
    u: "recv_packet t = (Ok p, u)" "arrives (concat ps @ rest) u" by blast
  from Cons.IH [OF _ u(2)] Cons.prems obtain v where
    "recv_packets (length ps) u = (Ok ps, v)" "arrives rest v" by auto
  with u(1) show ?case by simp
qed simp

section \<open>Properties\<close>

text \<open>
  Packet boundaries survive the stream: if the peer's bytes are a sequence of IPv6 packets
  (each of the length its header declares) followed by anything, then however they arrive, reading as
  many packets returns exactly those packets and leaves what follows.
\<close>

theorem cdtunnel_packets:
  assumes "list_all ipv6_packet ps" and "arrives (concat ps @ rest) t"
  shows "\<exists>u. recv_packets (length ps) t = (Ok ps, u) \<and> arrives rest u"
  using assms by (rule recv_packets_arrives)

definition ipv6_sample :: "byte list" where
  "ipv6_sample = [0x60, 0, 0, 0, 0, 2] @ replicate 34 7 @ [1, 2]"

theorem cdtunnel_packets_witness:
  "\<exists>u. recv_packets 2 \<lparr>tp_in = [take 3 ipv6_sample, drop 3 ipv6_sample @ ipv6_sample @ [9]],
        tp_out = [], tp_budget = None\<rparr> = (Ok [ipv6_sample, ipv6_sample], u) \<and> arrives [9] u"
proof -
  have "ipv6_packet ipv6_sample"
    by (simp add: ipv6_packet_def ipv6_sample_def from_be_bytes_def from_le_bytes_def nth_append)
  then show ?thesis
    using cdtunnel_packets [of "[ipv6_sample, ipv6_sample]" "[9]" "\<lparr>tp_in =
        [take 3 ipv6_sample, drop 3 ipv6_sample @ ipv6_sample @ [9]], tp_out = [], tp_budget = None\<rparr>"]
    by (simp add: arrives_def tp_pending_def ipv6_sample_def numeral_2_eq_2)
qed

text \<open>
  The handshake, against a peer that answers with the magic, a length and a response (in any
  arrivals) over a transport whose writes succeed: it sends magic, length and request, consumes
  exactly the answer, and returns the network parameters of the response or the error that
  names the first missing field; the integers are cut to 16 bits.
\<close>

theorem cdtunnel_handshake:
  assumes "arrives (CDTUNNEL_MAGIC @ to_be_bytes (of_nat (length resp) :: u16) @ resp @ rest) t"
    and "length resp < 2 ^ 16" and "tp_budget t = None" and "from_json resp = Ok r"
  shows "\<exists>u. handshake body from_json t =
      ((case hr_client_parameters r of
          None \<Rightarrow> Err (missing ''clientParameters'')
        | Some cp \<Rightarrow>
            (case cp_address cp of
               None \<Rightarrow> Err (missing ''client address'')
             | Some a \<Rightarrow>
                 (case hr_server_address r of
                    None \<Rightarrow> Err (missing ''serverAddress'')
                  | Some sa \<Rightarrow> Ok \<lparr>ti_client_address = a,
                      ti_netmask = (case cp_netmask cp of None \<Rightarrow> [] | Some n \<Rightarrow> n),
                      ti_server_address = sa,
                      ti_mtu = (case cp_mtu cp of None \<Rightarrow> 1500 | Some m \<Rightarrow> ucast m),
                      ti_server_rsd_port = (case hr_server_rsd_port r of None \<Rightarrow> 0 | Some p \<Rightarrow> ucast p)\<rparr>))), u)
    \<and> arrives rest u \<and>
    tp_out u = tp_out t @ [CDTUNNEL_MAGIC, to_be_bytes (of_nat (length body) :: u16), body]"
proof -
  let ?t = "t\<lparr>tp_out := tp_out t @ [CDTUNNEL_MAGIC, to_be_bytes (of_nat (length body) :: u16), body]\<rparr>"
  have l: "unat (of_nat (length resp) :: u16) = length resp" using assms(2) by (simp add: unat_of_nat)
  have "arrives (CDTUNNEL_MAGIC @ to_be_bytes (of_nat (length resp) :: u16) @ resp @ rest) ?t"
    using assms(1) by (simp add: arrives_def tp_pending_def)
  from tp_read_exact_arrives [OF this] obtain u1 where
    u1: "tp_read_exact (length CDTUNNEL_MAGIC) ?t = (Ok CDTUNNEL_MAGIC, u1)"
      "arrives (to_be_bytes (of_nat (length resp) :: u16) @ resp @ rest) u1" by auto
  from tp_read_exact_arrives [OF u1(2)] obtain u2 where
    u2: "tp_read_exact 2 u1 = (Ok (to_be_bytes (of_nat (length resp) :: u16)), u2)"
      "arrives (resp @ rest) u2" by auto
  from tp_read_exact_arrives [OF u2(2)] obtain u3 where
    u3: "tp_read_exact (length resp) u2 = (Ok resp, u3)" "arrives rest u3" by auto
  have "handshake body from_json t = (tunnel_info_of r, u3)"
    using assms(3,4) u1(1) u2(1) u3(1) l
    by (simp add: handshake_def act_bind_def tp_write_all_unlimited tp_flush_unlimited)
  moreover have "tp_out u3 = tp_out ?t"
    using tp_read_exact_Ok [OF u1(1)] tp_read_exact_Ok [OF u2(1)] tp_read_exact_Ok [OF u3(1)] by simp
  ultimately show ?thesis
    using u3(2) by (auto simp: tunnel_info_of_def split: option.splits)
qed

theorem cdtunnel_handshake_witness:
  "\<exists>u. handshake [123, 125] (\<lambda>_. Ok \<lparr>hr_client_parameters = Some \<lparr>cp_address = Some [97],
       cp_mtu = None, cp_netmask = None\<rparr>, hr_server_address = None, hr_server_rsd_port = None\<rparr>)
     \<lparr>tp_in = [CDTUNNEL_MAGIC, to_be_bytes (2 :: u16) @ [123, 125]], tp_out = [], tp_budget = None\<rparr> =
   (Err (missing ''serverAddress''), u) \<and> arrives [] u"
  using cdtunnel_handshake [of "[123, 125]" "[]"
      "\<lparr>tp_in = [CDTUNNEL_MAGIC, to_be_bytes (2 :: u16) @ [123, 125]], tp_out = [], tp_budget = None\<rparr>"
      "\<lambda>_. Ok \<lparr>hr_client_parameters = Some \<lparr>cp_address = Some [97],
       cp_mtu = None, cp_netmask = None\<rparr>, hr_server_address = None, hr_server_rsd_port = None\<rparr>"
      "\<lparr>hr_client_parameters = Some \<lparr>cp_address = Some [97],
       cp_mtu = None, cp_netmask = None\<rparr>, hr_server_address = None, hr_server_rsd_port = None\<rparr>" "[123, 125]"]
  by (simp add: arrives_def tp_pending_def CDTUNNEL_MAGIC_def) blast

end
