(* ===== verification/Mbn.thy ===== *)
theory Mbn
  imports Errors
begin

text \<open>
  services/restore/mbn.rs: stitching a signature blob over the tail of a baseband image, and the
  detection of the image's declared size, which the stitching only logs.
\<close>

definition MBN_V1_MAGIC :: "byte list" where "MBN_V1_MAGIC = [0x0a, 0x00, 0x00, 0x00]"
definition MBN_V2_MAGIC :: "byte list" where
  "MBN_V2_MAGIC = [0xd1, 0xdc, 0x4b, 0x84, 0x34, 0x10, 0xd7, 0x73]"
definition MBN_BIN_MAGIC :: "byte list" where
  "MBN_BIN_MAGIC = [0x04, 0x00, 0xea, 0x6c, 0x69, 0x48, 0x55]"

definition read_u32_le :: "byte list \<Rightarrow> nat \<Rightarrow> u32 option" where
  "read_u32_le data offset = map_option from_le_bytes (get_range offset (offset + 4) data)"

definition starts_with :: "byte list \<Rightarrow> byte list \<Rightarrow> bool" where
  "starts_with data p \<longleftrightarrow> take (length p) data = p"

definition detect_image_size :: "byte list \<Rightarrow> nat option" where
  "detect_image_size data =
    (if length data > length MBN_V2_MAGIC \<and> starts_with data MBN_V2_MAGIC then
       map_option (\<lambda>data_size. unat data_size + 56) (read_u32_le data (10 * 4))
     else if length data > length MBN_V1_MAGIC \<and> starts_with data MBN_V1_MAGIC then
       map_option (\<lambda>data_size. unat data_size + 40) (read_u32_le data (8 * 4))
     else if length data > length MBN_BIN_MAGIC + 1 \<and> sub 1 (length MBN_BIN_MAGIC) data = MBN_BIN_MAGIC
     then map_option unat (read_u32_le data 4)
     else None)"

text \<open>The messages of the errors carry the two lengths; the model keeps their fixed part.\<close>

definition mbn_stitch :: "byte list \<Rightarrow> byte list \<Rightarrow> (byte list, idevice_error) res" where
  "mbn_stitch data blob =
    (if data = [] then Err (Restore (Baseband ''mbn_stitch: data is empty''))
     else if blob = [] then Err (Restore (Baseband ''mbn_stitch: blob is empty''))
     else if length blob > length data
     then Err (Restore (Baseband ''mbn_stitch: blob larger than data''))
     else Ok (take (length data - length blob) data @ blob))"

section \<open>Properties\<close>

text \<open>
  Stitching succeeds exactly on a non-empty blob no larger than the image, keeps the image's
  length and everything before the signature region, ends in the blob, is idempotent, and never
  panics; an image header is never read out of range.
\<close>

theorem mbn_stitch_spec:
  "(case mbn_stitch data blob of
      Ok out \<Rightarrow> blob \<noteq> [] \<and> length blob \<le> length data \<and> length out = length data \<and>
        take (length data - length blob) out = take (length data - length blob) data \<and>
        drop (length data - length blob) out = blob \<and> mbn_stitch out blob = Ok out
    | Err e \<Rightarrow> data = [] \<or> blob = [] \<or> length data < length blob
    | Panic \<Rightarrow> False) \<and>
   (case detect_image_size data of
      None \<Rightarrow> True
    | Some n \<Rightarrow> 8 \<le> length data \<and> n < 2 ^ 32 + 56)"
proof
  show "case detect_image_size data of None \<Rightarrow> True | Some n \<Rightarrow> 8 \<le> length data \<and> n < 2 ^ 32 + 56"
  proof (cases "detect_image_size data")
    case (Some n)
    with Some show ?thesis
      using unat_u32_bound [of "from_le_bytes (sub 40 4 data)"]
        unat_u32_bound [of "from_le_bytes (sub 32 4 data)"]
        unat_u32_bound [of "from_le_bytes (sub 4 4 data)"]
      by (auto simp: detect_image_size_def read_u32_le_def get_range_Some split: if_splits)
  qed simp
qed (auto simp: mbn_stitch_def split: res.splits)

lemma length_bin_magic: "length MBN_BIN_MAGIC = 7"
  by (simp add: MBN_BIN_MAGIC_def)

text \<open>
  For the BIN container the declared size is not read at all: the word taken for
  \<open>total_size\<close>, at offset 4, lies inside the magic, so every such image is reported to be
  0x5548696c bytes long.
\<close>

theorem mbn_bin_size_is_magic:
  assumes "sub 1 7 data = MBN_BIN_MAGIC" and "8 < length data"
  shows "detect_image_size data = Some 0x5548696c"
proof -
  obtain a r where d: "data = a # r" using assms(2) by (cases data) auto
  then have r: "take 7 r = MBN_BIN_MAGIC" using assms(1) by (simp add: sub_def)
  then have r': "r = MBN_BIN_MAGIC @ drop 7 r" by (metis append_take_drop_id)
  have "\<not> starts_with data MBN_V1_MAGIC" "\<not> starts_with data MBN_V2_MAGIC"
    by (subst d, subst r', simp add: starts_with_def MBN_V1_MAGIC_def MBN_V2_MAGIC_def
        MBN_BIN_MAGIC_def)+
  moreover have "sub 4 4 data = [0x6c, 0x69, 0x48, 0x55]"
    by (subst d, subst r') (simp add: sub_def MBN_BIN_MAGIC_def)
  moreover have "unat (from_le_bytes [0x6c, 0x69, 0x48, 0x55] :: u32) = 0x5548696c"
    by (simp add: from_le_bytes_def)
  moreover have "get_range 4 8 data = Some (sub 4 4 data)"
    using assms(2) by (simp add: get_range_def sub_def)
  ultimately show ?thesis
    using assms by (simp add: detect_image_size_def read_u32_le_def length_bin_magic)
qed

theorem mbn_bin_size_is_magic_witness:
  "detect_image_size ([0] @ MBN_BIN_MAGIC @ [0, 0, 0, 0]) = Some 0x5548696c"
  using mbn_bin_size_is_magic [of "[0] @ MBN_BIN_MAGIC @ [0, 0, 0, 0]"]
  by (simp add: MBN_BIN_MAGIC_def sub_def)

end
