(* ===== verification/Dtx_Message.thy ===== *)
theory Dtx_Message
  imports Codec Plist Transport
begin

text \<open>
  services/dvt/message.rs: the DTX messages of the instruments services. The release profile leaves
  overflow checks off, so the sums and differences of wire lengths wrap. NSKeyedArchive (the crate
  \<open>ns_keyed_archive\<close>) is a parameter: \<open>dec\<close> reads an archive and \<open>enc\<close> writes one, or fails.
\<close>

section \<open>Headers and values\<close>

record message_header =
  mh_magic :: u32
  mh_header_len :: u32
  mh_fragment_id :: u16
  mh_fragment_count :: u16
  mh_length :: u32
  mh_identifier :: u32
  mh_conversation_index :: u32
  mh_channel :: i32
  mh_expects_reply :: bool

record payload_header =
  ph_msg_type :: byte
  ph_flags_a :: byte
  ph_flags_b :: byte
  ph_reserved :: byte
  ph_aux_length :: u32
  ph_total_length :: u32
  ph_flags :: u32

record aux_header =
  ah_buffer_size :: u32
  ah_unknown :: u32
  ah_aux_size :: u32
  ah_unknown2 :: u32

datatype aux_value =
    AuxNull
  | AuxString rstring
  | AuxArray "byte list"
  | AuxU32 u32
  | AuxI64 i64
  | AuxDouble u64
  | AuxPrimitiveDictionary "(aux_value \<times> aux_value list) list"

record aux =
  aux_hdr :: aux_header
  aux_values :: "aux_value list"

record dtx_message =
  dm_message_header :: message_header
  dm_payload_header :: payload_header
  dm_aux :: "aux option"
  dm_data :: "plist_value option"
  dm_raw_data :: "byte list option"

definition aux_header_default :: aux_header where
  "aux_header_default = \<lparr>ah_buffer_size = 0, ah_unknown = 0, ah_aux_size = 0, ah_unknown2 = 0\<rparr>"

definition payload_header_default :: payload_header where
  "payload_header_default =
    \<lparr>ph_msg_type = 0, ph_flags_a = 0, ph_flags_b = 0, ph_reserved = 0, ph_aux_length = 0,
     ph_total_length = 0, ph_flags = 0\<rparr>"

definition method_invocation :: payload_header where
  "method_invocation = payload_header_default\<lparr>ph_msg_type := 2\<rparr>"

definition message_header_new :: "u16 \<Rightarrow> u16 \<Rightarrow> u32 \<Rightarrow> u32 \<Rightarrow> i32 \<Rightarrow> bool \<Rightarrow> message_header" where
  "message_header_new fragment_id fragment_count identifier conversation_index channel expects_reply =
    \<lparr>mh_magic = 0x1F3D5B79, mh_header_len = 32, mh_fragment_id = fragment_id,
     mh_fragment_count = fragment_count, mh_length = 0, mh_identifier = identifier,
     mh_conversation_index = conversation_index, mh_channel = channel,
     mh_expects_reply = expects_reply\<rparr>"

definition aux_from_values :: "aux_value list \<Rightarrow> aux" where
  "aux_from_values values = \<lparr>aux_hdr = aux_header_default, aux_values = values\<rparr>"

definition archived_value :: "(plist_value \<Rightarrow> byte list option) \<Rightarrow> plist_value \<Rightarrow>
    (aux_value, idevice_error) res" where
  "archived_value enc v = (case enc v of Some b \<Rightarrow> Ok (AuxArray b) | None \<Rightarrow> Panic)"

definition dtx_method_args :: "aux_value list \<Rightarrow> aux_value" where
  "dtx_method_args args = AuxPrimitiveDictionary [(AuxNull, args)]"

section \<open>Serializing\<close>

primrec write_primitive_value :: "aux_value \<Rightarrow> byte list" where
  "write_primitive_value AuxNull = []"
| "write_primitive_value (AuxString s) =
     to_le_bytes (0x01 :: u32) @ to_le_bytes (of_nat (length s) :: u32) @ s"
| "write_primitive_value (AuxArray b) =
     to_le_bytes (0x02 :: u32) @ to_le_bytes (of_nat (length b) :: u32) @ b"
| "write_primitive_value (AuxU32 u) = to_le_bytes (0x03 :: u32) @ to_le_bytes u"
| "write_primitive_value (AuxI64 i) = to_le_bytes (0x06 :: u32) @ to_le_bytes i"
| "write_primitive_value (AuxDouble d) = to_le_bytes (0x09 :: u32) @ to_le_bytes d"
| "write_primitive_value (AuxPrimitiveDictionary _) =
     to_le_bytes (0xf0 :: u32) @ to_le_bytes (0 :: u32) @ to_le_bytes (0 :: u64)"

definition aux_value_bytes :: "aux_value \<Rightarrow> byte list" where
  "aux_value_bytes v =
    (case v of
       AuxPrimitiveDictionary entries \<Rightarrow>
         (let body = concat (map (\<lambda>(key, values). to_le_bytes (0x0a :: u32) @
            write_primitive_value key @ concat (map write_primitive_value values)) entries)
          in to_le_bytes (0xf0 :: u32) @ to_le_bytes (0 :: u32) @
             to_le_bytes (of_nat (length body) :: u64) @ body)
     | _ \<Rightarrow> write_primitive_value v)"

definition aux_serialize :: "aux \<Rightarrow> byte list" where
  "aux_serialize a =
    (let payload = concat (map (\<lambda>v. to_le_bytes (0x0a :: u32) @ aux_value_bytes v) (aux_values a))
     in to_le_bytes (496 :: u32) @ to_le_bytes (0 :: u32) @
        to_le_bytes (of_nat (length payload) :: u32) @ to_le_bytes (0 :: u32) @ payload)"

definition message_header_serialize :: "message_header \<Rightarrow> byte list" where
  "message_header_serialize h =
    to_le_bytes (mh_magic h) @ to_le_bytes (mh_header_len h) @ to_le_bytes (mh_fragment_id h) @
    to_le_bytes (mh_fragment_count h) @ to_le_bytes (mh_length h) @ to_le_bytes (mh_identifier h) @
    to_le_bytes (mh_conversation_index h) @ to_le_bytes (mh_channel h) @
    to_le_bytes (if mh_expects_reply h then 1 else 0 :: u32)"

definition payload_header_serialize :: "payload_header \<Rightarrow> byte list" where
  "payload_header_serialize h =
    [ph_msg_type h, ph_flags_a h, ph_flags_b h, ph_reserved h] @ to_le_bytes (ph_aux_length h) @
    to_le_bytes (ph_total_length h) @ to_le_bytes (ph_flags h)"

definition dtx_serialize :: "(plist_value \<Rightarrow> byte list option) \<Rightarrow> dtx_message \<Rightarrow>
    (byte list, idevice_error) res" where
  "dtx_serialize enc m =
    rbind (case dm_data m of
             None \<Rightarrow> Ok []
           | Some d \<Rightarrow> (case enc d of Some b \<Rightarrow> Ok b | None \<Rightarrow> Panic)) (\<lambda>data.
      let aux = (case dm_aux m of Some a \<Rightarrow> aux_serialize a | None \<Rightarrow> []);
          payload_header = payload_header_serialize ((dm_payload_header m)
            \<lparr>ph_aux_length := of_nat (length aux), ph_total_length := of_nat (length aux + length data)\<rparr>);
          message_header = (dm_message_header m)
            \<lparr>mh_length := of_nat (length payload_header + length aux + length data)\<rparr>
      in Ok (message_header_serialize message_header @ payload_header @ aux @ data))"

definition build_raw_reply :: "i32 \<Rightarrow> u32 \<Rightarrow> u32 \<Rightarrow> byte list \<Rightarrow> byte list" where
  "build_raw_reply channel incoming_msg_id incoming_conversation_index data_bytes =
    (let msg_type = (if data_bytes = [] then 0 else 3) :: byte;
         total_len = of_nat (length data_bytes) :: u32;
         payload_total = 16 + length data_bytes;
         conversation_index = incoming_conversation_index + 1;
         wire_channel = (if conversation_index mod 2 = 0 then channel else - channel)
     in to_le_bytes (0x1F3D5B79 :: u32) @ to_le_bytes (32 :: u32) @ to_le_bytes (0 :: u16) @
        to_le_bytes (1 :: u16) @ to_le_bytes (of_nat payload_total :: u32) @
        to_le_bytes incoming_msg_id @ to_le_bytes conversation_index @ to_le_bytes wire_channel @
        to_le_bytes (0 :: u32) @ [msg_type, 0, 0, 0] @ to_le_bytes (0 :: u32) @ to_le_bytes total_len @
        to_le_bytes (0 :: u32) @ data_bytes)"

section \<open>Parsing auxiliary values\<close>

definition parse_primitive :: "byte list \<Rightarrow> (aux_value \<times> byte list, idevice_error) res" where
  "parse_primitive bs =
    rbind (read_le eof bs) (\<lambda>(raw_type :: u32, r).
      let type_code = raw_type AND 0xFF
      in if type_code = 0x01 then
           rbind (read_le eof r) (\<lambda>(len :: u32, r1).
           rbind (read_exact eof (unat len) r1) (\<lambda>(s, r2).
             if utf8_valid s then Ok (AuxString s, r2) else Err Utf8Err))
         else if type_code = 0x02 then
           rbind (read_le eof r) (\<lambda>(len :: u32, r1).
           rbind (read_exact eof (unat len) r1) (\<lambda>(b, r2). Ok (AuxArray b, r2)))
         else if type_code = 0x03 then rbind (read_le eof r) (\<lambda>(u, r1). Ok (AuxU32 u, r1))
         else if type_code = 0x06 then rbind (read_le eof r) (\<lambda>(i, r1). Ok (AuxI64 i, r1))
         else if type_code = 0x09 then rbind (read_le eof r) (\<lambda>(d, r1). Ok (AuxDouble d, r1))
         else if type_code = 0x0A then Ok (AuxNull, r)
         else Err (Dvt (UnknownAuxValueType raw_type)))"

lemma parse_primitive_shorter:
  "parse_primitive bs = Ok (v, r) \<Longrightarrow> length r + 4 \<le> length bs"
proof -
  assume a: "parse_primitive bs = Ok (v, r)"
  then obtain w r0 where w: "read_le eof bs = Ok (w :: u32, r0)" by (auto simp: parse_primitive_def)
  with a have "length r \<le> length r0"
    by (auto simp: parse_primitive_def Let_def read_exact_Ok split: if_splits dest!: read_le_Ok_length)
  with read_le_Ok_length [OF w] show ?thesis by simp
qed

text \<open>
  The loop over a legacy buffer, with the cursor position explicit. The end of an embedded dictionary
  is \<open>pos + body_len\<close>, a 64-bit sum that wraps: the cursor can move backwards, and the loop need not
  end, so it is a partial function (\<open>None\<close>: it does not return).
\<close>

partial_function (option) legacy_loop :: "byte list \<Rightarrow> nat \<Rightarrow> aux_value list \<Rightarrow>
    (aux_value list, idevice_error) res option" where
  "legacy_loop bytes i values =
    (if i + 4 \<le> length bytes then
       (let aux_type = from_le_bytes (sub i 4 bytes) :: u32
        in if aux_type = 0x0a then legacy_loop bytes (i + 4) values
           else if aux_type = 0xf0 then
             (case rbind (read_le eof (drop (i + 4) bytes)) (\<lambda>(fl :: u32, r).
                   rbind (read_le eof r) (\<lambda>(body_len :: u64, r1). Ok body_len)) of
                Ok body_len \<Rightarrow>
                  (let end' = unat (of_nat (i + 16) + body_len)
                   in if end' > length bytes then Some (Err (NotEnoughBytes (length bytes) end'))
                      else legacy_loop bytes end' values)
              | Err e \<Rightarrow> Some (Err e)
              | Panic \<Rightarrow> Some Panic)
           else
             (case parse_primitive (drop i bytes) of
                Ok (v, r) \<Rightarrow> legacy_loop bytes (length bytes - length r) (values @ [v])
              | Err e \<Rightarrow> Some (Err e)
              | Panic \<Rightarrow> Some Panic))
     else Some (Ok values))"

definition parse_legacy_bytes :: "byte list \<Rightarrow> (aux, idevice_error) res option" where
  "parse_legacy_bytes bytes =
    (if length bytes < 16 then Some (Err (NotEnoughBytes (length bytes) 16))
     else
       let header = \<lparr>ah_buffer_size = from_le_bytes (sub 0 4 bytes),
         ah_unknown = from_le_bytes (sub 4 4 bytes), ah_aux_size = from_le_bytes (sub 8 4 bytes),
         ah_unknown2 = from_le_bytes (sub 12 4 bytes)\<rparr>
       in map_option (rmap (\<lambda>values. \<lparr>aux_hdr = header, aux_values = values\<rparr>))
            (legacy_loop bytes 16 []))"

function modern_loop :: "nat \<Rightarrow> nat \<Rightarrow> byte list \<Rightarrow> (aux_value list, idevice_error) res" where
  "modern_loop len body_end r =
    (if len - length r < body_end then
       rbind (parse_primitive r) (\<lambda>(key, r1).
       rbind (parse_primitive r1) (\<lambda>(v, r2).
         rmap (\<lambda>vs. v # vs) (modern_loop len body_end r2)))
     else Ok [])"
  by pat_completeness auto
termination
  by (relation "measure (\<lambda>(len, body_end, r). length r)") (auto dest!: parse_primitive_shorter)

declare modern_loop.simps [simp del]

definition aux_from_bytes :: "byte list \<Rightarrow> (aux, idevice_error) res option" where
  "aux_from_bytes bytes =
    (if bytes = [] then Some (Ok (aux_from_values []))
     else if hd bytes \<noteq> 0xF0 then parse_legacy_bytes bytes
     else if length bytes < 16 then Some (Err (NotEnoughBytes (length bytes) 16))
     else
       let body_len = from_le_bytes (sub 8 8 bytes) :: u64;
           body_end = unat (16 + body_len)
       in if body_end > length bytes then Some (Err (NotEnoughBytes (length bytes) body_end))
          else Some (rmap (\<lambda>values. \<lparr>aux_hdr = aux_header_default, aux_values = values\<rparr>)
            (modern_loop (length bytes) body_end (drop 16 bytes))))"

section \<open>Reading a message\<close>

definition message_header_parse :: "byte list \<Rightarrow> message_header" where
  "message_header_parse buf =
    (let conversation_index = from_le_bytes (sub 20 4 buf) :: u32;
         wire_channel = from_le_bytes (sub 24 4 buf) :: i32
     in \<lparr>mh_magic = from_le_bytes (sub 0 4 buf), mh_header_len = from_le_bytes (sub 4 4 buf),
         mh_fragment_id = from_le_bytes (sub 8 2 buf), mh_fragment_count = from_le_bytes (sub 10 2 buf),
         mh_length = from_le_bytes (sub 12 4 buf), mh_identifier = from_le_bytes (sub 16 4 buf),
         mh_conversation_index = conversation_index,
         mh_channel = (if conversation_index mod 2 = 0 then - wire_channel else wire_channel),
         mh_expects_reply = ((from_le_bytes (sub 28 4 buf) :: u32) = 1)\<rparr>)"

text \<open>The fragment loop: it ends because every round reads a header from the stream.\<close>

function read_fragments :: "byte list \<Rightarrow> transport \<Rightarrow>
    (message_header \<times> byte list, idevice_error) res \<times> transport" where
  "read_fragments packet_data t =
    (case tp_read_exact 32 t of
       (Ok buf, t1) \<Rightarrow>
         (let header = message_header_parse buf
          in if mh_fragment_count header > 1 \<and> mh_fragment_id header = 0
             then read_fragments packet_data t1
             else
               (case tp_read_exact (unat (mh_length header)) t1 of
                  (Ok body, t2) \<Rightarrow>
                    if mh_fragment_id header = mh_fragment_count header - 1
                    then (Ok (header, packet_data @ body), t2)
                    else read_fragments (packet_data @ body) t2
                | (Err e, t2) \<Rightarrow> (Err e, t2)
                | (Panic, t2) \<Rightarrow> (Panic, t2)))
     | (Err e, t1) \<Rightarrow> (Err e, t1)
     | (Panic, t1) \<Rightarrow> (Panic, t1))"
  by pat_completeness auto
termination
  by (relation "measure (\<lambda>(p, t). length (tp_pending t))")
    (auto dest!: tp_read_exact_Ok [OF sym])

declare read_fragments.simps [simp del]

text \<open>
  The payload: \<open>packet_data[0..16]\<close>, the auxiliary slice and the data slice are indexed with the
  lengths the peer declares. \<open>total_length - aux_length\<close> and \<open>aux_length + 16\<close> are 32-bit.
\<close>

definition payload_header_parse :: "byte list \<Rightarrow> payload_header" where
  "payload_header_parse buf =
    \<lparr>ph_msg_type = buf ! 0, ph_flags_a = buf ! 1, ph_flags_b = buf ! 2, ph_reserved = buf ! 3,
     ph_aux_length = from_le_bytes (sub 4 4 buf), ph_total_length = from_le_bytes (sub 8 4 buf),
     ph_flags = from_le_bytes (sub 12 4 buf)\<rparr>"

definition parse_data :: "(byte list \<Rightarrow> plist_value option) \<Rightarrow> byte list \<Rightarrow>
    (plist_value option, idevice_error) res" where
  "parse_data dec buf =
    (if buf = [] then Ok None
     else rmap Some (ok_or (Dvt NsKeyedArchiveError) (dec buf)))"

definition parse_payload :: "(byte list \<Rightarrow> plist_value option) \<Rightarrow> message_header \<Rightarrow> byte list \<Rightarrow>
    (dtx_message, idevice_error) res option" where
  "parse_payload dec mheader packet_data =
    (case index_range 0 16 packet_data of
       Ok buf \<Rightarrow>
         (let pheader = payload_header_parse buf;
              aux_length = ph_aux_length pheader
          in case (if aux_length > 0
                   then (case index_range 16 (16 + unat aux_length) packet_data of
                           Ok b \<Rightarrow> map_option (rmap Some) (aux_from_bytes b)
                         | Err e \<Rightarrow> Some (Err e) | Panic \<Rightarrow> Some Panic)
                   else Some (Ok None)) of
               None \<Rightarrow> None
             | Some r \<Rightarrow>
                 Some (rbind r (\<lambda>aux.
                   let need_len = unat (ph_total_length pheader - aux_length)
                   in rbind (index_range (unat (aux_length + 16)) (unat aux_length + 16 + need_len)
                        packet_data) (\<lambda>buf.
                      rbind (parse_data dec buf) (\<lambda>data.
                        Ok \<lparr>dm_message_header = mheader, dm_payload_header = pheader, dm_aux = aux,
                            dm_data = data, dm_raw_data = (if buf = [] then None else Some buf)\<rparr>)))))
     | Err e \<Rightarrow> Some (Err e)
     | Panic \<Rightarrow> Some Panic)"

definition from_reader :: "(byte list \<Rightarrow> plist_value option) \<Rightarrow> transport \<Rightarrow>
    ((dtx_message, idevice_error) res \<times> transport) option" where
  "from_reader dec t =
    (case read_fragments [] t of
       (Ok (header, packet_data), u) \<Rightarrow>
         map_option (\<lambda>r. (r, u)) (parse_payload dec header packet_data)
     | (Err e, u) \<Rightarrow> Some (Err e, u)
     | (Panic, u) \<Rightarrow> Some (Panic, u))"

section \<open>Round trip of the auxiliary values\<close>

text \<open>The values that are read back: no nulls and no dictionaries, valid UTF-8, 32-bit lengths.\<close>

definition aux_plain :: "aux_value \<Rightarrow> bool" where
  "aux_plain v \<longleftrightarrow>
    (case v of
       AuxNull \<Rightarrow> False
     | AuxString s \<Rightarrow> utf8_valid s \<and> length s < 2 ^ 32
     | AuxArray b \<Rightarrow> length b < 2 ^ 32
     | AuxPrimitiveDictionary _ \<Rightarrow> False
     | _ \<Rightarrow> True)"

lemma parse_primitive_not_Panic [simp]: "parse_primitive bs \<noteq> Panic"
  by (auto simp: parse_primitive_def Let_def rbind_eq_Panic)

interpretation aux_codec: strict_codec write_primitive_value parse_primitive aux_plain
proof
  fix v rest
  assume "aux_plain v"
  then show "parse_primitive (write_primitive_value v @ rest) = Ok (v, rest)"
    by (cases v) (simp_all add: aux_plain_def parse_primitive_def Let_def bytes_simps)
next
  fix bs v r
  assume "parse_primitive bs = Ok (v, r)"
  from parse_primitive_shorter [OF this] show "length r < length bs" by simp
qed

lemma parse_null: "parse_primitive (to_le_bytes (0x0a :: u32) @ r) = Ok (AuxNull, r)"
  by (simp add: parse_primitive_def Let_def)

lemma modern_loop_values:
  "list_all aux_plain vs \<Longrightarrow>
   len = n + length (concat (map (\<lambda>v. to_le_bytes (0x0a :: u32) @ write_primitive_value v) vs) @ rest) \<Longrightarrow>
   modern_loop len (len - length rest)
     (concat (map (\<lambda>v. to_le_bytes (0x0a :: u32) @ write_primitive_value v) vs) @ rest) = Ok vs"
proof (induction vs arbitrary: n)
  case Nil
  then show ?case by (simp add: modern_loop.simps)
next
  case (Cons v vs)
  let ?tl = "concat (map (\<lambda>v. to_le_bytes (0x0a :: u32) @ write_primitive_value v) vs) @ rest"
  have w: "parse_primitive (write_primitive_value v @ ?tl) = Ok (v, ?tl)"
    by (rule aux_codec.dec_enc) (use Cons.prems(1) in simp)
  have "modern_loop len (len - length rest) ?tl = Ok vs"
    by (rule Cons.IH [of "n + 4 + length (write_primitive_value v)"]) (use Cons.prems in simp_all)
  moreover have "len - length (to_le_bytes (0x0a :: u32) @ write_primitive_value v @ ?tl) < len - length rest"
    using Cons.prems(2) by simp
  ultimately show ?case
    using parse_null [of "write_primitive_value v @ ?tl"] w
    by (subst modern_loop.simps) simp
qed

lemma le_496: "to_le_bytes (496 :: u32) = [0xF0, 1, 0, 0]"
  by (simp add: to_le_bytes_def nat_le_4 nat_le_3)

lemma aux_value_bytes_plain: "aux_plain v \<Longrightarrow> aux_value_bytes v = write_primitive_value v"
  by (cases v) (simp_all add: aux_plain_def aux_value_bytes_def)

lemma aux_serialize_parse:
  assumes "list_all aux_plain (aux_values a)" and "length (aux_serialize a) < 2 ^ 32"
  shows "aux_from_bytes (aux_serialize a) = Some (Ok (aux_from_values (aux_values a)))"
proof -
  let ?enc = "\<lambda>v. to_le_bytes (0x0a :: u32) @ write_primitive_value v"
  let ?pay = "concat (map ?enc (aux_values a))"
  have pay: "map (\<lambda>v. to_le_bytes (0x0a :: u32) @ aux_value_bytes v) (aux_values a) =
      map ?enc (aux_values a)"
    using assms(1) by (auto simp: list_all_iff aux_value_bytes_plain)
  define n where "n = length ?pay"
  have s: "aux_serialize a = to_le_bytes (496 :: u32) @ to_le_bytes (0 :: u32) @
      to_le_bytes (of_nat n :: u32) @ to_le_bytes (0 :: u32) @ ?pay"
    by (simp only: aux_serialize_def Let_def pay n_def)
  have n: "n + 16 < 2 ^ 32" using assms(2) by (simp add: s n_def)
  have "to_le_bytes (of_nat n :: u32) @ to_le_bytes (0 :: u32) = to_le_bytes (of_nat n :: u64)"
    using n nat_le_split [of 4 4 n] by (simp add: to_le_bytes_def unat_of_nat)
  then have "(from_le_bytes (sub 8 8 (aux_serialize a)) :: u64) = of_nat n"
    by (simp add: s sub_def)
  moreover have "unat (16 + of_nat n :: u64) = n + 16"
    using n by (simp add: unat_word_ariths unat_of_nat)
  moreover have "length (aux_serialize a) = n + 16" by (simp add: s n_def)
  moreover have "hd (aux_serialize a) = 0xF0" "aux_serialize a \<noteq> []" by (simp_all add: s le_496)
  moreover have "drop 16 (aux_serialize a) = ?pay" by (simp add: s)
  moreover have "modern_loop (n + 16) (n + 16) ?pay = Ok (aux_values a)"
    using modern_loop_values [OF assms(1), of "n + 16" 16 "[]"] by (simp add: n_def)
  ultimately show ?thesis by (simp add: aux_from_bytes_def aux_from_values_def Let_def)
qed

section \<open>Round trip of messages\<close>

lemma message_header_parse_serialize:
  "message_header_parse (message_header_serialize h) =
     h\<lparr>mh_channel := (if mh_conversation_index h mod 2 = 0 then - mh_channel h else mh_channel h)\<rparr>"
  by (simp add: message_header_parse_def message_header_serialize_def Let_def sub_def)

lemma length_message_header [simp]: "length (message_header_serialize h) = 32"
  by (simp add: message_header_serialize_def)

lemma length_payload_header [simp]: "length (payload_header_serialize h) = 16"
  by (simp add: payload_header_serialize_def)

lemma payload_header_parse_serialize [simp]: "payload_header_parse (payload_header_serialize h) = h"
  by (simp add: payload_header_parse_def payload_header_serialize_def sub_def nth_append)

lemma read_one_fragment:
  assumes "arrives (message_header_serialize h @ body @ rest) t"
    and "mh_fragment_id h = 0" and "mh_fragment_count h = 1" and "unat (mh_length h) = length body"
  shows "\<exists>u. read_fragments [] t =
    (Ok (message_header_parse (message_header_serialize h), body), u) \<and> arrives rest u"
proof -
  from tp_read_exact_arrives [OF assms(1)] obtain t1 where
    t1: "tp_read_exact 32 t = (Ok (message_header_serialize h), t1)" "arrives (body @ rest) t1" by auto
  from tp_read_exact_arrives [OF t1(2)] obtain t2 where
    t2: "tp_read_exact (length body) t1 = (Ok body, t2)" "arrives rest t2" by auto
  have "read_fragments [] t = (Ok (message_header_parse (message_header_serialize h), body), t2)"
    using t1(1) t2(1) assms(2-4)
    by (simp add: read_fragments.simps [of "[]" t] message_header_parse_serialize)
  with t2(2) show ?thesis by blast
qed

lemma parse_payload_parts:
  assumes "ph_aux_length ph = of_nat (length aux)" and "ph_total_length ph = of_nat (length aux + length data)"
    and "length aux + length data + 16 < 2 ^ 32"
    and "if aux = [] then a = None else map_option (rmap Some) (aux_from_bytes aux) = Some (Ok a)"
    and "parse_data dec data = Ok d"
  shows "parse_payload dec h (payload_header_serialize ph @ aux @ data) =
    Some (Ok \<lparr>dm_message_header = h, dm_payload_header = ph, dm_aux = a, dm_data = d,
      dm_raw_data = (if data = [] then None else Some data)\<rparr>)"
proof -
  let ?p = "payload_header_serialize ph @ aux @ data"
  have la: "unat (of_nat (length aux) :: u32) = length aux"
    and la16: "unat (of_nat (length aux) + 16 :: u32) = length aux + 16"
    and ld: "unat (of_nat (length aux + length data) - of_nat (length aux) :: u32) = length data"
    using assms(3) by (simp_all add: unat_of_nat unat_word_ariths)
  have pos: "(of_nat (length aux) :: u32) > 0 \<longleftrightarrow> aux \<noteq> []"
    using la by (simp add: word_less_nat_alt)
  define p where "p = payload_header_serialize ph @ aux @ data"
  have h: "index_range 0 16 p = Ok (payload_header_serialize ph)"
    "index_range 16 (16 + length aux) p = Ok aux"
    "index_range (length aux + 16) (length aux + 16 + length data) p = Ok data"
    by (simp_all add: index_range_def p_def)
  have "parse_payload dec h p =
    Some (Ok \<lparr>dm_message_header = h, dm_payload_header = ph, dm_aux = a, dm_data = d,
      dm_raw_data = (if data = [] then None else Some data)\<rparr>)"
  proof (cases "aux = []")
    case True
    have z: "(0 :: u32) < of_nat (length aux) \<longleftrightarrow> False" using pos True by simp
    show ?thesis
      unfolding parse_payload_def h(1) res.case payload_header_parse_serialize Let_def assms(1,2) ld la la16 z
      using assms(4,5) True h(3) by (cases "data = []") (simp, force)
  next
    case False
    then obtain x where x: "aux_from_bytes aux = Some (Ok x)" "a = Some x"
      using assms(4) by auto
    have z: "(0 :: u32) < of_nat (length aux) \<longleftrightarrow> True" using pos False by simp
    show ?thesis
      unfolding parse_payload_def h(1) res.case payload_header_parse_serialize Let_def assms(1,2) ld la la16 z
      unfolding h(2) using assms(5) x h(3) by (cases "data = []") (simp, force)
  qed
  then show ?thesis by (simp only: p_def)
qed

section \<open>When the parser panics\<close>

lemma modern_loop_not_Panic [simp]: "modern_loop len e r \<noteq> Panic"
proof (induction len e r rule: modern_loop.induct)
  case (1 len e r)
  then show ?case by (subst modern_loop.simps) (auto simp: rbind_eq_Panic)
qed

lemma legacy_loop_not_Panic:
  assumes "legacy_loop bytes i values = Some r"
  shows "r \<noteq> Panic"
proof (rule legacy_loop.raw_induct [where P = "\<lambda>_ _ _ r. r \<noteq> Panic", OF _ assms], goal_cases)
  case (1 f bytes i vals r)
  have "rbind (read_le eof (drop (i + 4) bytes)) (\<lambda>(fl :: u32, r).
      rbind (read_le eof r) (\<lambda>(body_len :: u64, r1). Ok body_len)) \<noteq>
      (Panic :: (u64, idevice_error) res)"
    by (auto simp: rbind_eq_Panic)
  with 1(2) show ?case
    by (auto simp: Let_def split: if_splits res.splits dest: 1(1))
qed

lemma aux_from_bytes_not_Panic: "aux_from_bytes bytes = Some r \<Longrightarrow> r \<noteq> Panic"
  using legacy_loop_not_Panic [of bytes 16 "[]"]
  by (auto simp: aux_from_bytes_def parse_legacy_bytes_def Let_def split: if_splits)

lemma parse_payload_Panic_iff:
  "parse_payload dec h p = Some Panic \<longleftrightarrow>
    (if length p < 16 then True
     else
       let ph = payload_header_parse (take 16 p);
           a = unat (ph_aux_length ph)
       in if length p < 16 + a \<and> 0 < a then True
          else (0 < a \<longrightarrow> (\<exists>x. aux_from_bytes (take a (drop 16 p)) = Some (Ok x))) \<and>
            length p < a + 16 + unat (ph_total_length ph - ph_aux_length ph))"
proof (cases "length p < 16")
  case True
  then show ?thesis by (simp add: parse_payload_def index_range_def)
next
  case False
  define ph where "ph = payload_header_parse (take 16 p)"
  define w where "w = ph_aux_length ph"
  define a where "a = unat w"
  define n where "n = unat (ph_total_length ph - w)"
  have i: "index_range 0 16 p = Ok (take 16 p)" using False by (simp add: index_range_def)
  have le: "unat (w + 16) \<le> a + 16 + n"
    by (simp add: unat_word_ariths a_def)
  have pos: "w > 0 \<longleftrightarrow> 0 < a" by (simp add: word_less_nat_alt a_def)
  have range: "(index_range (unat (w + 16)) (a + 16 + n) p = (Panic :: (byte list, idevice_error) res)) \<longleftrightarrow>
      length p < a + 16 + n"
    using le by (auto simp: index_range_def)
  have pd: "parse_data dec b \<noteq> Panic" for b by (simp add: parse_data_def)
  show ?thesis
    using False range
    by (auto simp: parse_payload_def i ph_def [symmetric] w_def [symmetric] a_def [symmetric]
        n_def [symmetric] Let_def pos rbind_eq_Panic pd index_range_def [of 16] sub_def
        dest: aux_from_bytes_not_Panic split: option.splits if_splits)
qed

section \<open>Fragments\<close>

definition frag_bytes :: "message_header \<times> byte list \<Rightarrow> byte list" where
  "frag_bytes f = message_header_serialize (fst f) @ snd f"

definition frag_middle :: "message_header \<times> byte list \<Rightarrow> bool" where
  "frag_middle f \<longleftrightarrow> mh_fragment_id (fst f) \<noteq> 0 \<and>
     mh_fragment_id (fst f) \<noteq> mh_fragment_count (fst f) - 1 \<and>
     unat (mh_length (fst f)) = length (snd f)"

definition frag_last :: "message_header \<times> byte list \<Rightarrow> bool" where
  "frag_last f \<longleftrightarrow> mh_fragment_id (fst f) = mh_fragment_count (fst f) - 1 \<and>
     (mh_fragment_count (fst f) > 1 \<longrightarrow> mh_fragment_id (fst f) \<noteq> 0) \<and>
     unat (mh_length (fst f)) = length (snd f)"

lemma read_fragments_step:
  assumes "arrives (frag_bytes f @ rest) t" and "unat (mh_length (fst f)) = length (snd f)"
    and "\<not> (mh_fragment_count (fst f) > 1 \<and> mh_fragment_id (fst f) = 0)"
  shows "\<exists>u. arrives rest u \<and> read_fragments p t =
    (if mh_fragment_id (fst f) = mh_fragment_count (fst f) - 1
     then (Ok (message_header_parse (message_header_serialize (fst f)), p @ snd f), u)
     else read_fragments (p @ snd f) u)"
proof -
  have "arrives (message_header_serialize (fst f) @ snd f @ rest) t"
    using assms(1) by (simp add: frag_bytes_def)
  from tp_read_exact_arrives [OF this] obtain t1 where
    t1: "tp_read_exact 32 t = (Ok (message_header_serialize (fst f)), t1)"
      "arrives (snd f @ rest) t1" by auto
  from tp_read_exact_arrives [OF t1(2)] obtain t2 where
    t2: "tp_read_exact (length (snd f)) t1 = (Ok (snd f), t2)" "arrives rest t2" by auto
  show ?thesis
    using t1(1) t2 assms(2,3)
    by (subst read_fragments.simps) (auto simp: message_header_parse_serialize)
qed

lemma read_fragments_middle:
  "list_all frag_middle ms \<Longrightarrow> arrives (concat (map frag_bytes ms) @ rest) t \<Longrightarrow>
   \<exists>u. arrives rest u \<and> read_fragments p t = read_fragments (p @ concat (map snd ms)) u"
proof (induction ms arbitrary: p t)
  case (Cons f ms)
  have "arrives (frag_bytes f @ concat (map frag_bytes ms) @ rest) t" using Cons.prems(2) by simp
  from read_fragments_step [OF this, of p] Cons.prems(1) obtain u where
    u: "arrives (concat (map frag_bytes ms) @ rest) u"
      "read_fragments p t = read_fragments (p @ snd f) u" by (auto simp: frag_middle_def)
  from Cons.IH [OF _ u(1), of "p @ snd f"] Cons.prems(1) u(2) show ?case by simp
qed auto

section \<open>The legacy loop: when it returns\<close>

lemma legacy_evil:
  assumes "length bytes < 2 ^ 63" and "16 \<le> i" and "i + 16 \<le> length bytes"
    and "(from_le_bytes (sub i 4 bytes) :: u32) = 0xf0"
    and "(from_le_bytes (sub (i + 8) 8 bytes) :: u64) = 0xFFFFFFFFFFFFFFF0"
  shows "legacy_loop bytes i vs = None"
proof (rule ccontr)
  assume "legacy_loop bytes i vs \<noteq> None"
  then obtain y where y: "legacy_loop bytes i vs = Some y" by blast
  have le: "rbind (read_le eof (drop (i + 4) bytes)) (\<lambda>(fl :: u32, r).
      rbind (read_le eof r) (\<lambda>(body_len :: u64, r1). Ok body_len)) = Ok 0xFFFFFFFFFFFFFFF0"
  proof -
    have "4 \<le> length bytes - (i + 4)" "8 \<le> length bytes - (i + 8)" using assms(3) by linarith+
    then show ?thesis using assms(5) by (simp add: read_le_def read_exact_def sub_def add.commute)
  qed
  have e: "unat (of_nat (i + 16) + 0xFFFFFFFFFFFFFFF0 :: u64) = i"
  proof -
    have z: "(16 :: u64) + 0xFFFFFFFFFFFFFFF0 = 0" by simp
    have "(of_nat (i + 16) + 0xFFFFFFFFFFFFFFF0 :: u64) = of_nat i"
      by (simp only: of_nat_add of_nat_numeral add.assoc z add_0_right)
    moreover have "unat (of_nat i :: u64) = i" using assms(1,3) by (simp add: unat_of_nat)
    ultimately show ?thesis by (simp only:)
  qed
  have "\<not> (bytes = bytes \<and> i = i)"
  proof (rule legacy_loop.raw_induct [where P = "\<lambda>b j _ _. \<not> (b = bytes \<and> j = i)", OF _ y], goal_cases)
    case (1 f b j ws z)
    show ?case
    proof
      assume bj: "b = bytes \<and> j = i"
      have e2: "unat (0x10000000000000000 + of_nat i :: u64) = i"
        using e by (simp add: algebra_simps)
      have "f bytes i ws = Some z"
        using 1(2) assms(1-3) conjunct1 [OF bj] conjunct2 [OF bj]
        by (simp add: assms(4) e2 le Let_def)
      from 1(1) [OF this] show False by simp
    qed
  qed
  then show False by simp
qed

lemma legacy_returns:
  assumes "length bytes < 2 ^ 63"
    and "\<And>i. i + 8 \<le> length bytes \<Longrightarrow> unat (from_le_bytes (sub i 8 bytes) :: u64) < 2 ^ 63"
  shows "\<exists>r. legacy_loop bytes i vs = Some r"
proof (induction "length bytes - i" arbitrary: i vs rule: less_induct)
  case less
  show ?case
  proof (cases "i + 4 \<le> length bytes")
    case False
    then show ?thesis by (simp add: legacy_loop.simps)
  next
    case True
    let ?q = "rbind (read_le eof (drop (i + 4) bytes)) (\<lambda>(fl :: u32, r).
        rbind (read_le eof r) (\<lambda>(body_len :: u64, r1). Ok body_len)) :: (u64, idevice_error) res"
    consider (null) "(from_le_bytes (sub i 4 bytes) :: u32) = 0x0a"
      | (dict) "(from_le_bytes (sub i 4 bytes) :: u32) = 0xf0"
      | (prim) "(from_le_bytes (sub i 4 bytes) :: u32) \<noteq> 0x0a"
          "(from_le_bytes (sub i 4 bytes) :: u32) \<noteq> 0xf0" by blast
    then show ?thesis
    proof cases
      case null
      from less [of "i + 4" vs] True null show ?thesis by (simp add: legacy_loop.simps [of _ i])
    next
      case dict
      show ?thesis
      proof (cases ?q)
        case (Ok n)
        then have l: "i + 16 \<le> length bytes" "n = from_le_bytes (sub (i + 8) 8 bytes)"
          by (auto simp: read_le_Ok sub_def add.commute)
        then have n: "unat n < 2 ^ 63" using assms(2) [of "i + 8"] by simp
        have e: "unat (of_nat (i + 16) + n) = i + 16 + unat n"
          using n l(1) assms(1) by (simp add: unat_word_ariths unat_of_nat)
        from less [of "i + 16 + unat n" vs] True dict Ok show ?thesis
          by (subst legacy_loop.simps) (simp only: e Let_def if_True simp_thms res.case dict, auto)
      next
        case (Err e)
        with True dict show ?thesis by (subst legacy_loop.simps) simp
      next
        case Panic
        with True dict show ?thesis by (subst legacy_loop.simps) simp
      qed
    next
      case prim
      show ?thesis
      proof (cases "parse_primitive (drop i bytes)")
        case (Ok x)
        obtain v r where x: "x = (v, r)" by (cases x)
        have "length r + 4 \<le> length bytes - i" using parse_primitive_shorter Ok x by fastforce
        then have "length bytes - (length bytes - length r) < length bytes - i" by linarith
        from less [OF this, of "vs @ [v]"] True prim Ok x show ?thesis
          by (simp add: legacy_loop.simps [of _ i])
      qed (use True prim in \<open>simp_all add: legacy_loop.simps\<close>)
    qed
  qed
qed

section \<open>Properties\<close>

text \<open>Messages that can be sent in one piece and read back.\<close>

definition dtx_wf :: "(plist_value \<Rightarrow> byte list option) \<Rightarrow> (byte list \<Rightarrow> plist_value option) \<Rightarrow>
    dtx_message \<Rightarrow> bool" where
  "dtx_wf enc dec m \<longleftrightarrow>
     mh_fragment_id (dm_message_header m) = 0 \<and> mh_fragment_count (dm_message_header m) = 1 \<and>
     (case dm_aux m of None \<Rightarrow> True | Some a \<Rightarrow> list_all aux_plain (aux_values a)) \<and>
     (case dm_data m of None \<Rightarrow> True
      | Some d \<Rightarrow> (case enc d of None \<Rightarrow> False | Some b \<Rightarrow> b \<noteq> [] \<and> dec b = Some d)) \<and>
     (case dtx_serialize enc m of Ok b \<Rightarrow> length b < 2 ^ 32 | _ \<Rightarrow> False)"

text \<open>
  C18. DTX messages, sent in one fragment with auxiliary values other than nulls and dictionaries
  and with data the archiver reads back, are read as they were sent, however the bytes arrive and
  whatever follows: the lengths filled in, the channel negated exactly in even conversations,
  the auxiliary header dropped, the raw data kept.
\<close>

theorem dtx_round_trip:
  assumes "dtx_wf enc dec m" and "dtx_serialize enc m = Ok b" and "arrives (b @ rest) t"
  shows "\<exists>u h ph raw. from_reader dec t =
      Some (Ok \<lparr>dm_message_header = h, dm_payload_header = ph,
                dm_aux = map_option (\<lambda>a. aux_from_values (aux_values a)) (dm_aux m),
                dm_data = dm_data m, dm_raw_data = raw\<rparr>, u) \<and> arrives rest u \<and>
    raw = (case dm_data m of None \<Rightarrow> None | Some d \<Rightarrow> enc d) \<and>
    h = (dm_message_header m)\<lparr>mh_length := of_nat (length b - 32),
          mh_channel := (if mh_conversation_index (dm_message_header m) mod 2 = 0
            then - mh_channel (dm_message_header m) else mh_channel (dm_message_header m))\<rparr> \<and>
    ph_msg_type ph = ph_msg_type (dm_payload_header m) \<and> ph_flags ph = ph_flags (dm_payload_header m)"
proof -
  define aux where "aux = (case dm_aux m of Some a \<Rightarrow> aux_serialize a | None \<Rightarrow> [])"
  obtain data where data: "(case dm_data m of None \<Rightarrow> Ok [] | Some d \<Rightarrow>
      (case enc d of Some b \<Rightarrow> Ok b | None \<Rightarrow> Panic)) = (Ok data :: (byte list, idevice_error) res)"
    and pd: "parse_data dec data = Ok (dm_data m)"
    and raw: "(if data = [] then None else Some data) = (case dm_data m of None \<Rightarrow> None | Some d \<Rightarrow> enc d)"
    using assms(1) by (auto simp: dtx_wf_def parse_data_def split: option.splits)
  define ph where "ph = (dm_payload_header m)\<lparr>ph_aux_length := of_nat (length aux),
      ph_total_length := of_nat (length aux + length data)\<rparr>"
  define h where "h = (dm_message_header m)\<lparr>mh_length := of_nat (16 + length aux + length data)\<rparr>"
  have b: "b = message_header_serialize h @ payload_header_serialize ph @ aux @ data"
    using assms(2) by (simp add: dtx_serialize_def data aux_def ph_def h_def Let_def)
  have l: "length aux + length data + 48 < 2 ^ 32"
    using assms(1,2) b by (simp add: dtx_wf_def)
  have ax: "if aux = [] then map_option (\<lambda>a. aux_from_values (aux_values a)) (dm_aux m) = None
      else map_option (rmap Some) (aux_from_bytes aux) =
        Some (Ok (map_option (\<lambda>a. aux_from_values (aux_values a)) (dm_aux m)))"
  proof (cases "dm_aux m")
    case (Some a)
    with assms(1) have "list_all aux_plain (aux_values a)" by (simp add: dtx_wf_def)
    moreover have "length (aux_serialize a) < 2 ^ 32" using l Some by (simp add: aux_def)
    moreover have "aux \<noteq> []" using Some by (simp add: aux_def aux_serialize_def le_496 Let_def)
    ultimately show ?thesis using aux_serialize_parse [of a] Some by (simp add: aux_def)
  qed (simp add: aux_def)
  have "arrives (message_header_serialize h @ (payload_header_serialize ph @ aux @ data) @ rest) t"
    using assms(3) by (simp add: b)
  moreover have "mh_fragment_id h = 0" "mh_fragment_count h = 1"
    using assms(1) by (simp_all add: h_def dtx_wf_def)
  moreover have "unat (mh_length h) = length (payload_header_serialize ph @ aux @ data)"
    using l by (simp add: h_def unat_of_nat del: of_nat_add)
  ultimately obtain u where
    u: "read_fragments [] t = (Ok (message_header_parse (message_header_serialize h),
        payload_header_serialize ph @ aux @ data), u)" "arrives rest u"
    using read_one_fragment by blast
  have "parse_payload dec (message_header_parse (message_header_serialize h))
      (payload_header_serialize ph @ aux @ data) =
    Some (Ok \<lparr>dm_message_header = message_header_parse (message_header_serialize h),
      dm_payload_header = ph, dm_aux = map_option (\<lambda>a. aux_from_values (aux_values a)) (dm_aux m),
      dm_data = dm_data m, dm_raw_data = (if data = [] then None else Some data)\<rparr>)"
    by (rule parse_payload_parts) (use l ax pd in \<open>simp_all add: ph_def\<close>)
  then have "from_reader dec t = Some (Ok \<lparr>dm_message_header =
        message_header_parse (message_header_serialize h), dm_payload_header = ph,
        dm_aux = map_option (\<lambda>a. aux_from_values (aux_values a)) (dm_aux m),
        dm_data = dm_data m, dm_raw_data = (if data = [] then None else Some data)\<rparr>, u)"
    by (simp add: from_reader_def u(1))
  moreover have "length b - 32 = 16 + length aux + length data" by (simp add: b)
  ultimately show ?thesis
    using u(2) raw by (simp add: message_header_parse_serialize h_def ph_def)
qed


definition dtx_sample :: dtx_message where
  "dtx_sample = \<lparr>dm_message_header = message_header_new 0 1 3 4 7 True,
     dm_payload_header = method_invocation, dm_aux = Some (aux_from_values [AuxU32 5, AuxString [0x61, 0x62]]),
     dm_data = Some (PBoolean True), dm_raw_data = None\<rparr>"

theorem dtx_round_trip_witness:
  "\<exists>b u m. dtx_serialize (\<lambda>_. Some [1]) dtx_sample = Ok b \<and>
     from_reader (\<lambda>_. Some (PBoolean True))
       \<lparr>tp_in = [b, [9]], tp_out = [], tp_budget = None\<rparr> = Some (Ok m, u) \<and> arrives [9] u \<and>
     mh_channel (dm_message_header m) = - 7"
proof -
  obtain b where b: "dtx_serialize (\<lambda>_. Some [1]) dtx_sample = Ok b" and l: "length b < 100" "b \<noteq> []"
    by (simp add: dtx_serialize_def dtx_sample_def aux_serialize_def aux_from_values_def
        aux_value_bytes_def Let_def)
  have "dtx_wf (\<lambda>_. Some [1]) (\<lambda>_. Some (PBoolean True)) dtx_sample"
  proof -
    have "utf8_valid [0x61, 0x62]" by code_simp
    then show ?thesis
      unfolding dtx_wf_def b using l
      by (simp add: dtx_sample_def message_header_new_def aux_from_values_def aux_plain_def)
  qed
  from dtx_round_trip [OF this b, of "[9]" "\<lparr>tp_in = [b, [9]], tp_out = [], tp_budget = None\<rparr>"] l b
  show ?thesis
    by (auto simp: arrives_def tp_pending_def dtx_sample_def message_header_new_def)
qed

text \<open>
  A raw reply, read back by the message parser: it answers the message it names, one
  conversation index on, over the same channel (seen from the other side), whatever the parity of the
  index; it carries the data as sent, and no auxiliary values.
\<close>

theorem dtx_raw_reply:
  assumes "arrives (build_raw_reply channel msg_id conversation data @ rest) t"
    and "length data + 16 < 2 ^ 32" and "parse_data dec data = Ok d"
  shows "\<exists>u m. from_reader dec t = Some (Ok m, u) \<and> arrives rest u \<and>
    dm_message_header m = (message_header_new 0 1 msg_id (conversation + 1) (- channel) False)
      \<lparr>mh_length := of_nat (16 + length data)\<rparr> \<and>
    ph_msg_type (dm_payload_header m) = (if data = [] then 0 else 3) \<and>
    dm_aux m = None \<and> dm_data m = d \<and> dm_raw_data m = (if data = [] then None else Some data)"
proof -
  define h where "h = (message_header_new 0 1 msg_id (conversation + 1)
      (if (conversation + 1) mod 2 = 0 then channel else - channel) False)
      \<lparr>mh_length := of_nat (16 + length data)\<rparr>"
  define ph where "ph = payload_header_default\<lparr>ph_msg_type := (if data = [] then 0 else 3),
      ph_total_length := of_nat (length data)\<rparr>"
  have "build_raw_reply channel msg_id conversation data =
      message_header_serialize h @ payload_header_serialize ph @ [] @ data"
    by (simp add: build_raw_reply_def message_header_serialize_def payload_header_serialize_def
        h_def ph_def message_header_new_def payload_header_default_def Let_def)
  then have "arrives (message_header_serialize h @ (payload_header_serialize ph @ [] @ data) @ rest) t"
    using assms(1) by simp
  moreover have "mh_fragment_id h = 0" "mh_fragment_count h = 1"
    by (simp_all add: h_def message_header_new_def)
  moreover have "unat (mh_length h) = length (payload_header_serialize ph @ [] @ data)"
    using assms(2) by (simp add: h_def unat_of_nat del: of_nat_add)
  ultimately obtain u where
    u: "read_fragments [] t = (Ok (message_header_parse (message_header_serialize h),
        payload_header_serialize ph @ [] @ data), u)" "arrives rest u"
    using read_one_fragment by blast
  have "parse_payload dec (message_header_parse (message_header_serialize h))
      (payload_header_serialize ph @ [] @ data) =
    Some (Ok \<lparr>dm_message_header = message_header_parse (message_header_serialize h),
      dm_payload_header = ph, dm_aux = None, dm_data = d,
      dm_raw_data = (if data = [] then None else Some data)\<rparr>)"
    by (rule parse_payload_parts) (use assms(2,3) in \<open>simp_all add: ph_def payload_header_default_def\<close>)
  then have "from_reader dec t = Some (Ok \<lparr>dm_message_header =
        message_header_parse (message_header_serialize h), dm_payload_header = ph, dm_aux = None,
        dm_data = d, dm_raw_data = (if data = [] then None else Some data)\<rparr>, u)"
    by (simp only: from_reader_def u(1) prod.case res.case option.map)
  then show ?thesis
    using u(2) by (simp add: message_header_parse_serialize h_def ph_def message_header_new_def)
qed

theorem dtx_raw_reply_witness:
  "\<exists>u m. from_reader (\<lambda>_. Some (PBoolean True))
      \<lparr>tp_in = [build_raw_reply 5 3 0 [1, 2]], tp_out = [], tp_budget = None\<rparr> = Some (Ok m, u) \<and>
     mh_conversation_index (dm_message_header m) = 1 \<and> mh_channel (dm_message_header m) = - 5"
proof -
  have "arrives (build_raw_reply 5 3 0 [1, 2] @ [])
      \<lparr>tp_in = [build_raw_reply 5 3 0 [1, 2]], tp_out = [], tp_budget = None\<rparr>"
    by (simp add: arrives_def tp_pending_def build_raw_reply_def Let_def)
  from dtx_raw_reply [OF this, of "\<lambda>_. Some (PBoolean True)" "Some (PBoolean True)"]
  show ?thesis by (auto simp: parse_data_def message_header_new_def)
qed

text \<open>
  A message in several fragments is put together: a first fragment that announces more than one
  carries no body of its own, the middle fragments and the last append theirs, and the message is
  parsed under the header of the last.
\<close>

theorem dtx_fragments:
  assumes "arrives (message_header_serialize h @ concat (map frag_bytes ms) @ frag_bytes f @ rest) t"
    and "mh_fragment_id h = 0" and "mh_fragment_count h > 1"
    and "list_all frag_middle ms" and "frag_last f"
  shows "\<exists>u. arrives rest u \<and> from_reader dec t =
    map_option (\<lambda>r. (r, u)) (parse_payload dec (message_header_parse (message_header_serialize (fst f)))
      (concat (map snd ms) @ snd f))"
proof -
  from tp_read_exact_arrives [OF assms(1)] obtain t1 where
    t1: "tp_read_exact 32 t = (Ok (message_header_serialize h), t1)"
      "arrives (concat (map frag_bytes ms) @ frag_bytes f @ rest) t1" by auto
  have a: "read_fragments [] t = read_fragments [] t1"
    using t1(1) assms(2,3)
    by (simp add: read_fragments.simps [of "[]" t] message_header_parse_serialize)
  from read_fragments_middle [OF assms(4) t1(2), of "[]"] obtain t2 where
    t2: "arrives (frag_bytes f @ rest) t2" "read_fragments [] t1 = read_fragments (concat (map snd ms)) t2"
    by auto
  from read_fragments_step [OF t2(1), of "concat (map snd ms)"] assms(5) obtain u where
    "arrives rest u" "read_fragments (concat (map snd ms)) t2 =
      (Ok (message_header_parse (message_header_serialize (fst f)), concat (map snd ms) @ snd f), u)"
    by (auto simp: frag_last_def)
  then show ?thesis by (auto simp: from_reader_def a t2(2))
qed

theorem dtx_fragments_witness:
  "\<exists>u. arrives [9] u \<and> from_reader (\<lambda>_. None)
      \<lparr>tp_in = [message_header_serialize (message_header_new 0 3 1 0 2 False),
         message_header_serialize ((message_header_new 1 3 1 0 2 False)\<lparr>mh_length := 2\<rparr>) @ [5, 6],
         message_header_serialize ((message_header_new 2 3 1 0 2 False)\<lparr>mh_length := 14\<rparr>) @
           replicate 14 0 @ [9]], tp_out = [], tp_budget = None\<rparr> =
    map_option (\<lambda>r. (r, u)) (parse_payload (\<lambda>_. None)
      (message_header_parse (message_header_serialize
        ((message_header_new 2 3 1 0 2 False)\<lparr>mh_length := 14\<rparr>))) ([5, 6] @ replicate 14 0))"
proof -
  let ?h = "message_header_new 0 3 1 0 2 False"
  let ?m = "((message_header_new 1 3 1 0 2 False)\<lparr>mh_length := 2\<rparr>, [5, 6 :: byte])"
  let ?f = "((message_header_new 2 3 1 0 2 False)\<lparr>mh_length := 14\<rparr>, replicate 14 (0 :: byte))"
  let ?t = "\<lparr>tp_in = [message_header_serialize ?h, message_header_serialize (fst ?m) @ snd ?m,
      message_header_serialize (fst ?f) @ snd ?f @ [9]], tp_out = [], tp_budget = None\<rparr>"
  have ne: "message_header_serialize x \<noteq> []" for x
    using length_message_header [of x] by (metis list.size(3) zero_neq_numeral)
  have "arrives (message_header_serialize ?h @ concat (map frag_bytes [?m]) @ frag_bytes ?f @ [9]) ?t"
    by (simp add: arrives_def tp_pending_def frag_bytes_def ne [symmetric] ne)
  moreover have "mh_fragment_id ?h = 0" "mh_fragment_count ?h > 1"
    "list_all frag_middle [?m]" "frag_last ?f"
    by (simp_all add: message_header_new_def frag_middle_def frag_last_def)
  ultimately show ?thesis
    using dtx_fragments [of ?h "[?m]" ?f "[9]" ?t "\<lambda>_. None"] by simp
qed

text \<open>
  C19. A peer can hold the reader of messages for ever: in the buffer of auxiliary values in the
  old format, an embedded dictionary that declares a body of 2^64 - 16 bytes sends the cursor
  back to its own start. The message is well-formed otherwise; no error is returned.
\<close>

theorem dtx_aux_hangs:
  assumes "arrives (message_header_serialize h @ payload_header_serialize ph @ aux @ tail @ rest) t"
    and "mh_fragment_id h = 0" and "mh_fragment_count h = 1"
    and "unat (mh_length h) = 16 + length aux + length tail"
    and "ph_aux_length ph = of_nat (length aux)" and "length aux < 2 ^ 32"
    and "aux = hdr @ to_le_bytes (0xf0 :: u32) @ flags @ to_le_bytes (0xFFFFFFFFFFFFFFF0 :: u64) @ body"
    and "length hdr = 16" and "hd hdr \<noteq> 0xF0" and "length flags = 4"
  shows "from_reader dec t = None"
proof -
  have hdr: "hdr \<noteq> []" using assms(8) by auto
  have la: "32 \<le> length aux" by (simp add: assms(7,8,10))
  have s: "sub 16 4 aux = to_le_bytes (0xf0 :: u32)"
    "sub 24 8 aux = to_le_bytes (0xFFFFFFFFFFFFFFF0 :: u64)"
    using assms(8,10) by (simp_all add: assms(7) sub_def)
  have "legacy_loop aux 16 [] = None"
    by (rule legacy_evil) (use la assms(6) in \<open>simp_all add: s\<close>)
  moreover have "hd aux \<noteq> 0xF0" "aux \<noteq> []" using assms(9) hdr by (simp_all add: assms(7))
  ultimately have ev: "aux_from_bytes aux = None"
    using la by (simp add: aux_from_bytes_def parse_legacy_bytes_def Let_def)
  have "arrives (message_header_serialize h @ (payload_header_serialize ph @ aux @ tail) @ rest) t"
    using assms(1) by simp
  moreover have "unat (mh_length h) = length (payload_header_serialize ph @ aux @ tail)"
    using assms(4) by simp
  ultimately obtain u where
    u: "read_fragments [] t = (Ok (message_header_parse (message_header_serialize h),
        payload_header_serialize ph @ aux @ tail), u)"
    using read_one_fragment assms(2,3) by blast
  have n: "unat (of_nat (length aux) :: u32) = length aux" using assms(6) by (simp add: unat_of_nat)
  then have pos: "(0 :: u32) < of_nat (length aux)"
    using la unfolding word_less_nat_alt n by auto
  have i: "index_range 0 16 (payload_header_serialize ph @ aux @ tail) = Ok (payload_header_serialize ph)"
    "index_range 16 (16 + length aux) (payload_header_serialize ph @ aux @ tail) = Ok aux"
    by (simp_all add: index_range_def)
  show ?thesis
    unfolding from_reader_def u prod.case res.case parse_payload_def i(1)
      payload_header_parse_serialize Let_def assms(5) n if_P [OF pos] i(2) ev by simp
qed

theorem dtx_aux_hangs_witness:
  "from_reader (\<lambda>_. None)
    \<lparr>tp_in = [message_header_serialize ((message_header_new 0 1 1 0 2 False)\<lparr>mh_length := 48\<rparr>) @
       payload_header_serialize (payload_header_default\<lparr>ph_aux_length := 32\<rparr>) @
       replicate 16 0 @ to_le_bytes (0xf0 :: u32) @ replicate 4 0 @
       to_le_bytes (0xFFFFFFFFFFFFFFF0 :: u64)], tp_out = [], tp_budget = None\<rparr> = None"
proof (rule dtx_aux_hangs [where
      h = "(message_header_new 0 1 1 0 2 False)\<lparr>mh_length := 48\<rparr>" and
      ph = "payload_header_default\<lparr>ph_aux_length := 32\<rparr>" and hdr = "replicate 16 0" and flags = "replicate 4 0" and body = "[]" and
      tail = "[]" and rest = "[]", OF _ _ _ _ _ _ refl], goal_cases)
  case 1
  show ?case by (simp add: arrives_def tp_pending_def payload_header_serialize_def)
qed (simp_all add: message_header_new_def payload_header_default_def hd_replicate)

text \<open>
  C21. Otherwise the buffers of auxiliary values are read to an end: where no eight bytes of the buffer
  read as 2^63 or more, the parser returns, with values or an error, and does not panic.
\<close>

theorem dtx_aux_returns:
  assumes "length bytes < 2 ^ 63"
    and "\<And>i. i + 8 \<le> length bytes \<Longrightarrow> unat (from_le_bytes (sub i 8 bytes) :: u64) < 2 ^ 63"
  shows "\<exists>r. aux_from_bytes bytes = Some r \<and> r \<noteq> Panic"
proof -
  obtain r where "legacy_loop bytes 16 [] = Some r" using legacy_returns [OF assms] by blast
  then have "\<exists>r. aux_from_bytes bytes = Some r"
    by (simp add: aux_from_bytes_def parse_legacy_bytes_def Let_def)
  then show ?thesis using aux_from_bytes_not_Panic by blast
qed

theorem dtx_aux_returns_witness:
  "\<exists>r. aux_from_bytes (replicate 24 3) = Some r \<and> r \<noteq> Panic"
proof (rule dtx_aux_returns, goal_cases)
  case (2 i)
  then have "sub i 8 (replicate 24 (3 :: byte)) = replicate 8 3"
    by (simp add: sub_def min_def)
  then have "sub i 8 (replicate 24 (3 :: byte)) = [3, 3, 3, 3, 3, 3, 3, 3]"
    by (simp add: numeral_eq_Suc)
  then show ?case by (simp add: from_le_bytes_def)
qed simp

text \<open>
  The parser of a message's payload panics exactly when the payload is shorter than its header,
  than the auxiliary values it declares, or, once these are read, than the total it
  declares; the difference of the two declared lengths is taken modulo 2^32.
\<close>

theorem dtx_payload_panics_iff:
  "parse_payload dec h p = Some Panic \<longleftrightarrow>
    (if length p < 16 then True
     else
       let ph = payload_header_parse (take 16 p);
           a = unat (ph_aux_length ph)
       in if length p < 16 + a \<and> 0 < a then True
          else (a = 0 \<or> (\<exists>x. aux_from_bytes (take a (drop 16 p)) = Some (Ok x))) \<and>
            length p < a + 16 + unat (ph_total_length ph - ph_aux_length ph))"
  using parse_payload_Panic_iff [of dec h p] by (auto simp: Let_def)

end
