(* ===== verification/Device.thy ===== *)
theory Device
  imports Plist Transport
begin

text \<open>
  lib.rs: the connection handle \<open>Idevice\<close> every lockdown service is built on. Messages are property
  lists behind a 32-bit big-endian length; raw bytes go out in 64 KiB pieces or by vectored
  writes. The property-list crate is the parameter \<open>plist_lib\<close>: its XML and binary writers, its
  reader, and its conversions of a value to a dictionary and to a string. TLS (\<open>start_session\<close>) is not
  modelled, logging neither.
\<close>

section \<open>Decimal integers and searching\<close>

fun show_nat :: "nat \<Rightarrow> byte list" where
  "show_nat n = (if n < 10 then [of_nat (48 + n)] else show_nat (n div 10) @ [of_nat (48 + n mod 10)])"

declare show_nat.simps [simp del]

definition show_int :: "int \<Rightarrow> byte list" where
  "show_int i = (if i < 0 then 0x2D # show_nat (nat (- i)) else show_nat (nat i))"

text \<open>\<open>windows(d.len()).position(|w| w == d)\<close>, and \<open>str::contains\<close>\<close>

primrec find_sub :: "byte list \<Rightarrow> byte list \<Rightarrow> nat option" where
  "find_sub d [] = (if d = [] then Some 0 else None)"
| "find_sub d (b # bs) =
    (if take (length d) (b # bs) = d then Some 0 else map_option Suc (find_sub d bs))"

definition str_contains :: "byte list \<Rightarrow> byte list \<Rightarrow> bool" where
  "str_contains s d \<longleftrightarrow> find_sub d s \<noteq> None"

lemma find_sub_bound: "find_sub d bs = Some p \<Longrightarrow> p + length d \<le> length bs"
proof (induction bs arbitrary: p)
  case (Cons b bs)
  then show ?case
    by (auto split: if_splits dest: arg_cong [where f = length])
qed (auto split: if_splits)

lemma find_sub_append: "find_sub d bs = Some p \<Longrightarrow> find_sub d (bs @ ys) = Some p"
proof (induction bs arbitrary: p)
  case Nil
  then show ?case by (cases ys) (auto split: if_splits)
next
  case (Cons b bs)
  show ?case
  proof (cases "take (length d) (b # bs) = d")
    case True
    then have "length d \<le> length (b # bs)" by (metis length_take min.cobounded1)
    with True Cons.prems show ?thesis by (simp add: take_append [of _ "b # bs", simplified])
  next
    case False
    with Cons.prems obtain q where q: "find_sub d bs = Some q" "p = Suc q" by auto
    from find_sub_bound [OF q(1)] have "length d \<le> length bs" by simp
    then have "take (length d) (b # bs @ ys) = take (length d) (b # bs)"
      using take_append [of "length d" "b # bs" ys] by simp
    with False q Cons.IH [OF q(1)] show ?thesis by simp
  qed
qed

lemma find_sub_found: "find_sub d bs = Some p \<Longrightarrow> take (length d) (drop p bs) = d"
  by (induction bs arbitrary: p) (auto split: if_splits)

section \<open>The handle\<close>

record idevice =
  dv_socket :: "transport option"
  dv_label :: rstring
  dv_udid :: "rstring option"

definition idevice_new :: "transport \<Rightarrow> rstring \<Rightarrow> idevice" where
  "idevice_new socket label = \<lparr>dv_socket = Some socket, dv_label = label, dv_udid = None\<rparr>"

definition get_socket :: "idevice \<Rightarrow> transport option" where
  "get_socket d = dv_socket d"

definition invalidate_socket :: "idevice \<Rightarrow> idevice" where
  "invalidate_socket d = d\<lparr>dv_socket := None\<rparr>"

definition set_udid :: "rstring \<Rightarrow> idevice \<Rightarrow> idevice" where
  "set_udid udid d = d\<lparr>dv_udid := Some udid\<rparr>"

text \<open>\<open>if let Some(socket) = &mut self.socket \<dots> else Err(NoEstablishedConnection)\<close>\<close>

definition on_socket :: "(transport, 'a) act \<Rightarrow> (idevice, 'a) act" where
  "on_socket m d =
    (case dv_socket d of
       None \<Rightarrow> (Err NoEstablishedConnection, d)
     | Some t \<Rightarrow> (case m t of (r, u) \<Rightarrow> (r, d\<lparr>dv_socket := Some u\<rparr>)))"

record plist_lib =
  pl_to_xml :: "plist_value \<Rightarrow> (byte list, idevice_error) res"
  pl_to_binary :: "plist_value \<Rightarrow> (byte list, idevice_error) res"
  pl_from_bytes :: "byte list \<Rightarrow> (plist_value, idevice_error) res"
  pl_to_dict :: "plist_value \<Rightarrow> (plist_dict, idevice_error) res"
  pl_to_string :: "plist_value \<Rightarrow> (rstring, idevice_error) res"

definition dict_get :: "plist_dict \<Rightarrow> string \<Rightarrow> plist_value option" where
  "dict_get d k = map_of d (rstr k)"

section \<open>Errors the device reports\<close>

definition from_device_error_type :: "rstring \<Rightarrow> plist_dict \<Rightarrow> idevice_error option" where
  "from_device_error_type e context =
    (if str_contains e (rstr ''NSDebugDescription=Canceled by user.'') then Some CanceledByUser
     else if str_contains e (rstr ''Developer mode is not enabled.'') then Some DeveloperModeNotEnabled
     else if e = rstr ''GetProhibited'' then Some GetProhibited
     else if e = rstr ''InvalidHostID'' then Some InvalidHostID
     else if e = rstr ''SessionInactive'' then Some SessionInactive
     else if e = rstr ''DeviceLocked'' then Some DeviceLocked
     else if e = rstr ''PairingDialogResponsePending'' then Some PairingDialogResponsePending
     else if e = rstr ''UserDeniedPairing'' then Some UserDeniedPairing
     else if e = rstr ''PasswordProtected'' then Some PasswordProtected
     else if e = rstr ''UnsupportedWatchKey'' then Some UnsupportedWatchKey
     else if e = rstr ''MalformedCommand'' then Some MalformedCommand
     else if e = rstr ''InternalError'' then
       (let detailed_error = (case Option.bind (dict_get context ''DetailedError'') plist_as_string of
            Some s \<Rightarrow> s | None \<Rightarrow> rstr ''No context'')
        in if str_contains detailed_error (rstr ''There is no matching entry in the device map for'')
           then Some ImageNotMounted else Some (InternalError detailed_error))
     else if e = rstr ''ApplicationVerificationFailed'' then
       Some (ApplicationVerificationFailed
         (case Option.bind (dict_get context ''ErrorDescription'') plist_as_string of
            Some s \<Rightarrow> s | None \<Rightarrow> rstr ''No context''))
     else None)"

definition device_error :: "plist_dict \<Rightarrow> idevice_error option" where
  "device_error res =
    (case dict_get res ''Error'' of
       None \<Rightarrow> None
     | Some v \<Rightarrow>
         (case (case v of
                  PString e \<Rightarrow> Some e
                | PInteger i \<Rightarrow>
                    (case Option.bind (dict_get res ''ErrorString'') plist_as_string of
                       Some s \<Rightarrow> Some s | None \<Rightarrow> Some (show_int i))
                | _ \<Rightarrow> None) of
            None \<Rightarrow> Some (UnexpectedResponse ''error value is not a string or integer'')
          | Some e \<Rightarrow>
              (case from_device_error_type e res of
                 Some err \<Rightarrow> Some err
               | None \<Rightarrow>
                   Some (UnknownErrorType
                     (case Option.bind (dict_get res ''ErrorDescription'') plist_as_string of
                        Some desc \<Rightarrow> e @ rstr '' ('' @ desc @ rstr '')'' | None \<Rightarrow> e)))))"

section \<open>Messages\<close>

definition send_framed :: "byte list \<Rightarrow> (transport, unit) act" where
  "send_framed message =
    act_bind (tp_write_all (to_be_bytes (of_nat (length message) :: u32))) (\<lambda>_.
    act_bind (tp_write_all message) (\<lambda>_. tp_flush))"

definition send_plist :: "plist_lib \<Rightarrow> plist_value \<Rightarrow> (idevice, unit) act" where
  "send_plist pl message = on_socket
    (act_bind (act_res (pl_to_xml pl message)) (\<lambda>b.
       if utf8_valid b then send_framed b else act_err Utf8Err))"

definition send_bplist :: "plist_lib \<Rightarrow> plist_value \<Rightarrow> (idevice, unit) act" where
  "send_bplist pl message = on_socket (act_bind (act_res (pl_to_binary pl message)) send_framed)"

definition read_plist_value :: "plist_lib \<Rightarrow> (idevice, plist_value) act" where
  "read_plist_value pl = on_socket
    (act_bind (tp_read_exact 4) (\<lambda>buf.
     act_bind (tp_read_exact (unat (from_be_bytes buf :: u32))) (\<lambda>body.
     act_res (pl_from_bytes pl body))))"

definition read_plist :: "plist_lib \<Rightarrow> (idevice, plist_dict) act" where
  "read_plist pl =
    act_bind (read_plist_value pl) (\<lambda>v.
    act_bind (act_res (pl_to_dict pl v)) (\<lambda>res.
      case device_error res of Some e \<Rightarrow> act_err e | None \<Rightarrow> act_ok res))"

definition get_type :: "plist_lib \<Rightarrow> (idevice, rstring) act" where
  "get_type pl d =
    act_bind (send_plist pl (PDictionary [(rstr ''Label'', PString (dv_label d)),
        (rstr ''Request'', PString (rstr ''QueryType''))])) (\<lambda>_.
    act_bind (read_plist pl) (\<lambda>message.
      case dict_get message ''Type'' of
        Some m \<Rightarrow> act_res (pl_to_string pl m)
      | None \<Rightarrow> act_err (UnexpectedResponse ''missing Type in QueryType response''))) d"

definition expect_request :: "plist_lib \<Rightarrow> string \<Rightarrow> string \<Rightarrow> string \<Rightarrow> (idevice, unit) act" where
  "expect_request pl name missing mismatch =
    act_bind (read_plist pl) (\<lambda>res.
      case Option.bind (dict_get res ''Request'') plist_as_string of
        Some r \<Rightarrow> if r \<noteq> rstr name then act_err (UnexpectedResponse mismatch) else act_ok ()
      | None \<Rightarrow> act_err (UnexpectedResponse missing))"

definition rsd_checkin :: "plist_lib \<Rightarrow> (idevice, unit) act" where
  "rsd_checkin pl d =
    act_bind (send_plist pl (PDictionary [(rstr ''Label'', PString (dv_label d)),
        (rstr ''ProtocolVersion'', PString (rstr ''2'')),
        (rstr ''Request'', PString (rstr ''RSDCheckin''))])) (\<lambda>_.
    act_bind (expect_request pl ''RSDCheckin'' ''missing Request field in RSDCheckin response''
        ''RSDCheckin request field mismatch'') (\<lambda>_.
    expect_request pl ''StartService'' ''missing Request field in StartService response''
        ''StartService request field mismatch'')) d"

section \<open>Raw bytes\<close>

definition read_raw :: "nat \<Rightarrow> (idevice, byte list) act" where
  "read_raw len = on_socket (tp_read_exact len)"

definition dv_read_any :: "u32 \<Rightarrow> (idevice, byte list) act" where
  "dv_read_any max_size = on_socket (\<lambda>t. case tp_read (unat max_size) t of (b, u) \<Rightarrow> (Ok b, u))"

text \<open>
  \<open>send_raw_with_progress\<close>: the callback is an effect of the caller's; its calls are recorded, in
  order, beside the handle. (For an empty message \<open>part_len\<close> is \<open>0 - 1\<close>, and is not used.)
\<close>

definition RAW_CHUNK :: nat where
  "RAW_CHUNK = 1024 * 64"

primrec send_parts :: "nat \<Rightarrow> nat \<Rightarrow> byte list list \<Rightarrow> (transport \<times> (nat \<times> nat) list, unit) act" where
  "send_parts part_len i [] = act_ok ()"
| "send_parts part_len i (part # parts) =
    act_bind (\<lambda>(t, tr). case tp_write_all part t of (r, u) \<Rightarrow> (r, (u, tr))) (\<lambda>_.
    act_bind (act_upd (\<lambda>(t, tr). (t, tr @ [(i, part_len)]))) (\<lambda>_.
    send_parts part_len (Suc i) parts))"

definition send_raw_with_progress :: "byte list \<Rightarrow> idevice \<times> (nat \<times> nat) list \<Rightarrow>
    (unit, idevice_error) res \<times> idevice \<times> (nat \<times> nat) list" where
  "send_raw_with_progress message s =
    (case dv_socket (fst s) of
       None \<Rightarrow> (Err NoEstablishedConnection, s)
     | Some t \<Rightarrow>
         (let message_parts = chunks RAW_CHUNK message
          in case act_bind (send_parts (length message_parts - 1) 0 message_parts)
               (\<lambda>_ (t, tr). case tp_flush t of (r, u) \<Rightarrow> (r, (u, tr))) (t, snd s) of
               (r, (u, tr)) \<Rightarrow> (r, ((fst s)\<lparr>dv_socket := Some u\<rparr>, tr))))"

definition send_raw :: "byte list \<Rightarrow> (idevice, unit) act" where
  "send_raw message d = (case send_raw_with_progress message (d, []) of (r, (d', _)) \<Rightarrow> (r, d'))"

text \<open>
  \<open>send_raw_vectored\<close>: \<open>accs\<close> is what the socket accepts in the successive \<open>write_vectored\<close> calls (never
  more than was offered); when it is used up the socket fails. A call that accepts nothing is an error.
\<close>

primrec iovec_rest :: "nat \<Rightarrow> byte list list \<Rightarrow> byte list list" where
  "iovec_rest accumulated_len [] = []"
| "iovec_rest accumulated_len (b # bufs) =
    (if accumulated_len < RAW_CHUNK
     then take (RAW_CHUNK - accumulated_len) b #
       iovec_rest (accumulated_len + min (length b) (RAW_CHUNK - accumulated_len)) bufs
     else [])"

definition iovec :: "byte list list \<Rightarrow> nat \<Rightarrow> nat \<Rightarrow> byte list list" where
  "iovec bufs curr_idx curr_offset =
    (let first = take RAW_CHUNK (drop curr_offset (bufs ! curr_idx))
     in first # iovec_rest (length first) (drop (Suc curr_idx) bufs))"

function advance :: "byte list list \<Rightarrow> nat \<Rightarrow> nat \<Rightarrow> nat \<Rightarrow> nat \<times> nat" where
  "advance bufs curr_idx curr_offset advanced =
    (if 0 < advanced \<and> curr_idx < length bufs
     then let available = length (bufs ! curr_idx) - curr_offset
          in if advanced < available then (curr_idx, curr_offset + advanced)
             else advance bufs (Suc curr_idx) 0 (advanced - available)
     else (curr_idx, curr_offset))"
  by pat_completeness auto
termination advance
  by (relation "measure (\<lambda>(bufs, i, off, n). length bufs - i)") auto

declare advance.simps [simp del]

fun vectored_loop :: "byte list list \<Rightarrow> nat list \<Rightarrow> nat \<Rightarrow> nat \<Rightarrow> (transport, unit) act" where
  "vectored_loop bufs [] curr_idx curr_offset t =
    (if curr_idx < length bufs then (Err (Socket OtherIo), t) else tp_flush t)"
| "vectored_loop bufs (a # accs) curr_idx curr_offset t =
    (if curr_idx < length bufs
     then (let data = concat (iovec bufs curr_idx curr_offset); n = min a (length data)
           in if n = 0 then (Err (Socket WriteZero), t)
              else (case advance bufs curr_idx curr_offset n of
                      (i, off) \<Rightarrow> vectored_loop bufs accs i off
                        (t\<lparr>tp_out := tp_out t @ [take n data]\<rparr>)))
     else tp_flush t)"

definition send_raw_vectored :: "byte list list \<Rightarrow> nat list \<Rightarrow> (idevice, unit) act" where
  "send_raw_vectored bufs accs = on_socket (vectored_loop bufs accs 0 0)"

section \<open>Lines\<close>

text \<open>
  \<open>read_until_delim\<close>; the caller's buffer is part of the state. \<open>windows(0)\<close> panics, so an empty
  delimiter does. The loop ends because every round takes bytes from the stream.
\<close>

function delim_loop :: "byte list \<Rightarrow> (transport \<times> byte list, byte list option) act" where
  "delim_loop delimiter (t, buffer) =
    (case find_sub delimiter buffer of
       Some pos \<Rightarrow> (Ok (Some (take pos buffer)), (t, drop (pos + length delimiter) buffer))
     | None \<Rightarrow>
         (case tp_read 1024 t of (temp, u) \<Rightarrow>
            if temp = [] then (if buffer = [] then (Ok None, (u, buffer)) else (Ok (Some buffer), (u, [])))
            else delim_loop delimiter (u, buffer @ temp)))"
  by pat_completeness auto
termination delim_loop
  by (relation "measure (\<lambda>(d, t, b). length (tp_pending t))") (auto dest!: tp_read_pending [OF sym])

declare delim_loop.simps [simp del]

definition read_until_delim :: "byte list \<Rightarrow> (idevice \<times> byte list, byte list option) act" where
  "read_until_delim delimiter s =
    (case dv_socket (fst s) of
       None \<Rightarrow> (Err NoEstablishedConnection, s)
     | Some t \<Rightarrow>
         if delimiter = [] then (Panic, s)
         else (case delim_loop delimiter (t, snd s) of
                 (r, (u, buffer)) \<Rightarrow> (r, ((fst s)\<lparr>dv_socket := Some u\<rparr>, buffer))))"

text \<open>services/syslog\_relay.rs: one log entry\<close>

definition syslog_next :: "(idevice \<times> byte list, byte list) act" where
  "syslog_next =
    act_bind (read_until_delim [0x0A, 0]) (\<lambda>res.
      case res of
        Some l \<Rightarrow> act_ok (utf8_lossy l)
      | None \<Rightarrow> act_err (UnexpectedResponse ''syslog relay returned EOF''))"

section \<open>Lines: the loop and the split of the stream\<close>

definition next_line :: "byte list \<Rightarrow> byte list \<Rightarrow> byte list option \<times> byte list" where
  "next_line d bs =
    (case find_sub d bs of
       Some p \<Rightarrow> (Some (take p bs), drop (p + length d) bs)
     | None \<Rightarrow> if bs = [] then (None, []) else (Some bs, []))"

lemma delim_loop_spec:
  "arrives bs t \<Longrightarrow> d \<noteq> [] \<Longrightarrow>
   \<exists>l u buf r. delim_loop d (t, b) = (Ok l, (u, buf)) \<and> arrives r u \<and> next_line d (b @ bs) = (l, buf @ r)"
proof (induction d "(t, b)" arbitrary: t b bs rule: delim_loop.induct)
  case (1 d t b)
  show ?case
  proof (cases "find_sub d b")
    case (Some p)
    from find_sub_bound [OF Some] find_sub_append [OF Some, of bs] Some 1(2)
    show ?thesis by (auto simp: delim_loop.simps [of d t b] next_line_def)
  next
    case None
    obtain x u where r: "tp_read 1024 t = (x, u)" by fastforce
    show ?thesis
    proof (cases "bs = []")
      case True
      then have "tp_in t = []" using 1(2)
        by (cases "tp_in t") (auto simp: arrives_def tp_pending_def)
      with r have "x = []" "u = t" by (simp_all add: tp_read_def)
      with None True r 1(2) show ?thesis
        by (auto simp: delim_loop.simps [of d t b] next_line_def)
    next
      case False
      from tp_read_arrives [OF 1(2) _ False r] obtain q where
        x: "x \<noteq> []" "bs = x @ q" "arrives q u" by auto
      from 1(1) [OF None r [symmetric] x(1) x(3) 1(3)] x(1,2) None r show ?thesis
        by (simp add: delim_loop.simps [of d t b])
    qed
  qed
qed

text \<open>The pieces of a stream between delimiters; a last piece without one counts if not empty.\<close>

function split_lines :: "byte list \<Rightarrow> byte list \<Rightarrow> byte list list" where
  "split_lines d bs =
    (if bs = [] \<or> d = [] then []
     else case find_sub d bs of
            Some p \<Rightarrow> take p bs # split_lines d (drop (p + length d) bs)
          | None \<Rightarrow> [bs])"
  by pat_completeness auto
termination split_lines
  by (relation "measure (\<lambda>(d, bs). length bs)") auto

declare split_lines.simps [simp del]

lemma split_lines_next:
  "d \<noteq> [] \<Longrightarrow> split_lines d bs = (case next_line d bs of (None, r) \<Rightarrow> [] | (Some l, r) \<Rightarrow> l # split_lines d r)"
  by (subst split_lines.simps)
    (auto simp: next_line_def split_lines.simps [of d "[]"] split: option.splits)

primrec syslog_run :: "nat \<Rightarrow> (idevice \<times> byte list, byte list list) act" where
  "syslog_run 0 = act_ok []"
| "syslog_run (Suc n) =
    act_bind syslog_next (\<lambda>l. act_bind (syslog_run n) (\<lambda>ls. act_ok (l # ls)))"

lemma syslog_run_spec:
  "arrives bs t \<Longrightarrow> dv_socket d = Some t \<Longrightarrow>
   fst (syslog_run n (d, b)) =
     (if n \<le> length (split_lines [0x0A, 0] (b @ bs))
      then Ok (map utf8_lossy (take n (split_lines [0x0A, 0] (b @ bs))))
      else Err (UnexpectedResponse ''syslog relay returned EOF''))"
proof (induction n arbitrary: bs t d b)
  case (Suc n)
  obtain l u buf r where
    l: "delim_loop [0x0A, 0] (t, b) = (Ok l, (u, buf))" "arrives r u"
      "next_line [0x0A, 0] (b @ bs) = (l, buf @ r)"
    using delim_loop_spec [OF Suc.prems(1), of "[0x0A, 0]" b] by auto
  have s: "split_lines [0x0A, 0] (b @ bs) =
      (case l of None \<Rightarrow> [] | Some x \<Rightarrow> x # split_lines [0x0A, 0] (buf @ r))"
    using l(3) by (subst split_lines_next) (simp_all split: option.splits)
  have n: "syslog_next (d, b) = (case l of None \<Rightarrow> Err (UnexpectedResponse ''syslog relay returned EOF'')
      | Some x \<Rightarrow> Ok (utf8_lossy x), (d\<lparr>dv_socket := Some u\<rparr>, buf))"
    using l(1) Suc.prems(2)
    by (simp add: syslog_next_def read_until_delim_def act_bind_def split: option.splits)
  show ?case
  proof (cases l)
    case None
    with n s show ?thesis by (simp add: act_bind_def)
  next
    case (Some x)
    from Suc.IH [OF l(2), of "d\<lparr>dv_socket := Some u\<rparr>" buf] n s Some show ?thesis
      by (cases "syslog_run n (d\<lparr>dv_socket := Some u\<rparr>, buf)",
          cases "n \<le> length (split_lines [0x0A, 0] (buf @ r))") (simp_all add: act_bind_def)
  qed
qed simp

text \<open>
  The log entries do not depend on how the stream arrives: successive calls return, decoded, the
  pieces between the delimiters in order (a last piece without one included), and then
  report the end.
\<close>

theorem syslog_lines:
  assumes "arrives bs t"
  shows "fst (syslog_run n (idevice_new t label, [])) =
     (if n \<le> length (split_lines [0x0A, 0] bs)
      then Ok (map utf8_lossy (take n (split_lines [0x0A, 0] bs)))
      else Err (UnexpectedResponse ''syslog relay returned EOF''))"
  using syslog_run_spec [OF assms, of "idevice_new t label" n "[]"] by (simp add: idevice_new_def)

theorem syslog_lines_witness:
  "fst (syslog_run 2 (idevice_new \<lparr>tp_in = [[65, 10], [0, 66], [10, 67]], tp_out = [],
     tp_budget = None\<rparr> [], [])) = Ok [[65], [66, 10, 67]]"
proof -
  have "arrives [65, 10, 0, 66, 10, 67]
      \<lparr>tp_in = [[65, 10], [0, 66], [10, 67]], tp_out = [], tp_budget = None\<rparr>"
    by (simp add: arrives_def tp_pending_def)
  moreover have "split_lines [0x0A, 0] [65, 10, 0, 66, 10, 67] = [[65], [66, 10, 67]]" by code_simp
  moreover have "map utf8_lossy [[65], [66, 10, 67]] = [[65], [66, 10, 67]]" by code_simp
  ultimately show ?thesis using syslog_lines by simp
qed

section \<open>Vectored writes\<close>

text \<open>What is still to be sent from a position, and the positions the loop reaches.\<close>

definition pend :: "byte list list \<Rightarrow> nat \<Rightarrow> nat \<Rightarrow> byte list" where
  "pend bufs i off = (if i < length bufs then drop off (bufs ! i) @ concat (drop (Suc i) bufs) else [])"

definition pos_ok :: "byte list list \<Rightarrow> nat \<Rightarrow> nat \<Rightarrow> bool" where
  "pos_ok bufs i off \<longleftrightarrow> (i < length bufs \<longrightarrow> off = 0 \<or> off < length (bufs ! i))"

lemma concat_iovec_rest: "concat (iovec_rest acc bufs) = take (RAW_CHUNK - acc) (concat bufs)"
  by (induction bufs arbitrary: acc) (auto simp: min_def not_less)

lemma concat_iovec: "i < length bufs \<Longrightarrow> concat (iovec bufs i off) = take RAW_CHUNK (pend bufs i off)"
  by (simp add: iovec_def pend_def Let_def concat_iovec_rest min_def)

lemma pend_0: "pend bufs 0 0 = concat bufs"
  by (cases bufs) (simp_all add: pend_def)

lemma pend_Suc: "i < length bufs \<Longrightarrow> pend bufs i off = drop off (bufs ! i) @ pend bufs (Suc i) 0"
  by (auto simp: pend_def Cons_nth_drop_Suc [symmetric])

lemma advance_pend:
  "pos_ok bufs i off \<Longrightarrow> n \<le> length (pend bufs i off) \<Longrightarrow> advance bufs i off n = (i', off') \<Longrightarrow>
   pend bufs i' off' = drop n (pend bufs i off) \<and> pos_ok bufs i' off' \<and>
   (0 < n \<longrightarrow> i < length bufs \<longrightarrow> length bufs \<le> i' \<longrightarrow> last bufs \<noteq> [])"
proof (induction bufs i off n rule: advance.induct)
  case (1 bufs i off n)
  show ?case
  proof (cases "0 < n \<and> i < length bufs")
    case False
    with 1(4) show ?thesis using 1(2,3) by (auto simp: advance.simps [of bufs i off n] pend_def)
  next
    case True
    define av where "av = length (bufs ! i) - off"
    show ?thesis
    proof (cases "n < av")
      case less: True
      with 1(4) True have "i' = i" "off' = off + n" by (auto simp: advance.simps [of bufs i off n] av_def)
      with less True show ?thesis by (auto simp: pend_def pos_ok_def av_def add.commute)
    next
      case False
      with 1(4) True have a: "advance bufs (Suc i) 0 (n - av) = (i', off')"
        by (simp add: advance.simps [of bufs i off n] av_def)
      have n: "n - av \<le> length (pend bufs (Suc i) 0)"
        using 1(3) True by (simp add: pend_Suc av_def)
      have p: "pos_ok bufs (Suc i) 0" by (simp add: pos_ok_def)
      have IH: "pend bufs i' off' = drop (n - av) (pend bufs (Suc i) 0) \<and> pos_ok bufs i' off' \<and>
          (0 < n - av \<longrightarrow> Suc i < length bufs \<longrightarrow> length bufs \<le> i' \<longrightarrow> last bufs \<noteq> [])"
        by (rule 1(1) [OF True av_def _ p n a]) (use False in simp)
      have "drop n (pend bufs i off) = drop (n - av) (pend bufs (Suc i) 0)"
        using True False by (simp add: pend_Suc av_def)
      moreover have "last bufs \<noteq> []" if "length bufs \<le> i'"
      proof (cases "0 < n - av \<and> Suc i < length bufs")
        case True
        with IH that show ?thesis by simp
      next
        case end': False
        show ?thesis
        proof (cases "Suc i < length bufs")
          case t: True
          with end' a have "i' = Suc i" by (simp add: advance.simps [of bufs "Suc i"])
          with t that show ?thesis by simp
        next
          case False
          then have l: "Suc i = length bufs" using True by simp
          then have "pend bufs (Suc i) 0 = []" by (simp add: pend_def)
          with n have "n \<le> av" by simp
          with True have "bufs ! i \<noteq> []" by (auto simp: av_def)
          moreover have "last bufs = bufs ! i" using l by (metis True diff_Suc_1 last_conv_nth list.size(3) not_less_zero)
          ultimately show ?thesis by simp
        qed
      qed
      ultimately show ?thesis using IH by auto
    qed
  qed
qed

lemma pend_empty:
  assumes "pos_ok bufs i off" and "i < length bufs" and "pend bufs i off = []"
  shows "last bufs = []"
proof (cases "Suc i < length bufs")
  case True
  then have "last bufs \<in> set (drop (Suc i) bufs)"
    by (metis drop_eq_Nil2 last_drop last_in_set not_le)
  with assms(2,3) show ?thesis by (auto simp: pend_def)
next
  case False
  then have "last bufs = bufs ! i"
    using assms(2) by (metis Suc_lessI diff_Suc_1 last_conv_nth list.size(3) not_less_zero)
  with assms show ?thesis by (auto simp: pend_def pos_ok_def)
qed

lemma vectored_loop_spec:
  "tp_budget t = None \<Longrightarrow> \<forall>a \<in> set accs. 0 < a \<Longrightarrow> length (pend bufs i off) < length accs \<Longrightarrow>
   pos_ok bufs i off \<Longrightarrow> length bufs \<le> i \<longrightarrow> bufs = [] \<or> last bufs \<noteq> [] \<Longrightarrow>
   \<exists>ws u. vectored_loop bufs accs i off t =
       (if bufs = [] \<or> last bufs \<noteq> [] then Ok () else Err (Socket WriteZero), u) \<and>
     tp_out u = tp_out t @ ws \<and> concat ws = pend bufs i off"
proof (induction accs arbitrary: i off t)
  case (Cons a accs)
  show ?case
  proof (cases "i < length bufs")
    case False
    with Cons.prems show ?thesis by (auto simp: tp_flush_unlimited pend_def)
  next
    case True
    define data where "data = concat (iovec bufs i off)"
    define n where "n = min a (length data)"
    have data: "data = take RAW_CHUNK (pend bufs i off)" using True by (simp add: data_def concat_iovec)
    show ?thesis
    proof (cases "pend bufs i off = []")
      case e: True
      with True pend_empty [OF Cons.prems(4) True] have "bufs \<noteq> []" "last bufs = []" by auto
      with True e show ?thesis by (simp add: data_def [symmetric] data)
    next
      case False
      have n: "0 < n" "n \<le> length (pend bufs i off)" "take n data = take n (pend bufs i off)"
        using False Cons.prems(2) by (auto simp: n_def data RAW_CHUNK_def min_def)
      obtain i' off' where a: "advance bufs i off n = (i', off')" by fastforce
      from advance_pend [OF Cons.prems(4) n(2) a] n(1) True have
        p: "pend bufs i' off' = drop n (pend bufs i off)" "pos_ok bufs i' off'"
          "length bufs \<le> i' \<longrightarrow> bufs = [] \<or> last bufs \<noteq> []" by auto
      have l: "length (pend bufs i' off') < length accs" using p(1) n(1,2) Cons.prems(3) by simp
      let ?t = "t\<lparr>tp_out := tp_out t @ [take n data]\<rparr>"
      obtain ws u where
        "vectored_loop bufs accs i' off' ?t =
          (if bufs = [] \<or> last bufs \<noteq> [] then Ok () else Err (Socket WriteZero), u)"
        "tp_out u = tp_out ?t @ ws" "concat ws = pend bufs i' off'"
        using Cons.IH [of ?t i' off'] Cons.prems(1,2) l p(2,3) by auto
      moreover have "vectored_loop bufs (a # accs) i off t = vectored_loop bufs accs i' off' ?t"
        using True n(1) a by (simp add: data_def [symmetric] n_def [symmetric] Let_def)
      ultimately show ?thesis
        using p(1) n(3) by (intro exI [of _ "take n data # ws"] exI [of _ u]) simp
    qed
  qed
qed simp

text \<open>
  A vectored send to a socket that takes something in every call writes exactly the buffers'
  bytes in order, whatever the socket takes at a time. It succeeds when there are no buffers or the
  last is not empty; a last buffer that is empty makes it fail with \<open>WriteZero\<close>
  although every byte is out.
\<close>

theorem vectored_sends:
  assumes "dv_socket d = Some t" and "tp_budget t = None"
    and "\<forall>a \<in> set accs. 0 < a" and "length (concat bufs) < length accs"
  shows "\<exists>ws u. send_raw_vectored bufs accs d =
      (if bufs = [] \<or> last bufs \<noteq> [] then Ok () else Err (Socket WriteZero), d\<lparr>dv_socket := Some u\<rparr>) \<and>
    tp_out u = tp_out t @ ws \<and> concat ws = concat bufs"
proof -
  have "length (pend bufs 0 0) < length accs" "pos_ok bufs 0 0"
    "length bufs \<le> 0 \<longrightarrow> bufs = [] \<or> last bufs \<noteq> []"
    using assms(4) by (simp_all add: pend_0 pos_ok_def)
  from vectored_loop_spec [OF assms(2,3) this] obtain ws u where
    u: "vectored_loop bufs accs 0 0 t =
        (if bufs = [] \<or> last bufs \<noteq> [] then Ok () else Err (Socket WriteZero), u)"
      "tp_out u = tp_out t @ ws" "concat ws = concat bufs"
    unfolding pend_0 by blast
  have "send_raw_vectored bufs accs d =
      (if bufs = [] \<or> last bufs \<noteq> [] then Ok () else Err (Socket WriteZero), d\<lparr>dv_socket := Some u\<rparr>)"
    unfolding send_raw_vectored_def on_socket_def assms(1) option.case u(1) by simp
  with u(2,3) show ?thesis by blast
qed

theorem vectored_sends_witness:
  "\<exists>ws u. send_raw_vectored [[1, 2], [3], []] [1, 5, 1, 1]
      (idevice_new \<lparr>tp_in = [], tp_out = [], tp_budget = None\<rparr> []) =
      (Err (Socket WriteZero), idevice_new u []) \<and> tp_out u = ws \<and> concat ws = [1, 2, 3]"
  using vectored_sends [of "idevice_new \<lparr>tp_in = [], tp_out = [], tp_budget = None\<rparr> []" _
      "[1, 5, 1, 1]" "[[1, 2], [3], []]"]
  by (fastforce simp: idevice_new_def)

section \<open>Messages\<close>

text \<open>
  Property-list messages are framed so that the reader finds them: a message below 4 GiB goes out as its
  length and its bytes, and whoever receives these bytes, in whatever pieces, reads exactly this
  message and leaves what follows.
\<close>

theorem plist_framing:
  assumes "dv_socket d = Some t" and "tp_budget t = None"
    and "pl_to_xml pl v = Ok b" and "utf8_valid b" and "length b < 2 ^ 32"
    and "dv_socket p = Some q" and "arrives (to_be_bytes (of_nat (length b) :: u32) @ b @ rest) q"
  shows "send_plist pl v d = (Ok (), d\<lparr>dv_socket := Some (t\<lparr>tp_out :=
        tp_out t @ [to_be_bytes (of_nat (length b) :: u32), b]\<rparr>)\<rparr>) \<and>
    (\<exists>u. read_plist_value pl p = (pl_from_bytes pl b, p\<lparr>dv_socket := Some u\<rparr>) \<and> arrives rest u)"
proof -
  from tp_read_exact_arrives [OF assms(7)] obtain q1 where
    q1: "tp_read_exact 4 q = (Ok (to_be_bytes (of_nat (length b) :: u32)), q1)"
      "arrives (b @ rest) q1" by auto
  from tp_read_exact_arrives [OF q1(2)] obtain q2 where
    q2: "tp_read_exact (length b) q1 = (Ok b, q2)" "arrives rest q2" by auto
  have "unat (of_nat (length b) :: u32) = length b" using assms(5) by (simp add: unat_of_nat)
  then have "read_plist_value pl p = (pl_from_bytes pl b, p\<lparr>dv_socket := Some q2\<rparr>)"
    using assms(6) q1(1) q2(1) by (simp add: read_plist_value_def on_socket_def)
  moreover have "send_plist pl v d = (Ok (), d\<lparr>dv_socket := Some (t\<lparr>tp_out :=
        tp_out t @ [to_be_bytes (of_nat (length b) :: u32), b]\<rparr>)\<rparr>)"
    using assms(1-4)
    by (simp add: send_plist_def send_framed_def on_socket_def tp_write_all_unlimited
        tp_flush_unlimited)
  ultimately show ?thesis using q2(2) by blast
qed

definition sample_lib :: plist_lib where
  "sample_lib = \<lparr>pl_to_xml = (\<lambda>v. case v of PString s \<Rightarrow> Ok s | _ \<Rightarrow> Err Plist),
     pl_to_binary = (\<lambda>v. Err Plist), pl_from_bytes = (\<lambda>b. Ok (PString b)),
     pl_to_dict = (\<lambda>v. case v of PDictionary d \<Rightarrow> Ok d | _ \<Rightarrow> Err Plist),
     pl_to_string = (\<lambda>v. case v of PString s \<Rightarrow> Ok s | _ \<Rightarrow> Err Plist)\<rparr>"

theorem plist_framing_witness:
  "\<exists>u p. fst (send_plist sample_lib (PString [0x41, 0x42])
       (idevice_new \<lparr>tp_in = [], tp_out = [], tp_budget = None\<rparr> [])) = Ok () \<and>
     read_plist_value sample_lib
       (idevice_new \<lparr>tp_in = [[0, 0, 0], [2, 0x41, 0x42, 9]], tp_out = [], tp_budget = None\<rparr> []) =
     (Ok (PString [0x41, 0x42]), p) \<and> dv_socket p = Some u \<and> arrives [9] u"
proof -
  let ?q = "\<lparr>tp_in = [[0, 0, 0], [2, 0x41, 0x42, 9]], tp_out = [], tp_budget = None\<rparr>"
  let ?t = "\<lparr>tp_in = [], tp_out = [], tp_budget = None\<rparr>"
  have "utf8_valid [0x41, 0x42]" by code_simp
  moreover have "arrives (to_be_bytes (of_nat (length [0x41, 0x42 :: byte]) :: u32) @ [0x41, 0x42] @ [9]) ?q"
    by (simp add: arrives_def tp_pending_def to_be_bytes_def to_le_bytes_def nat_le_4 nat_le_3)
  ultimately show ?thesis
    using plist_framing [of "idevice_new ?t []" ?t sample_lib "PString [0x41, 0x42]" "[0x41, 0x42]"
        "idevice_new ?q []" ?q "[9]"]
    by (auto simp: idevice_new_def sample_lib_def)
qed

lemma device_error_None_iff: "device_error r = None \<longleftrightarrow> dict_get r ''Error'' = None"
  by (auto simp: device_error_def split: option.splits)

text \<open>
  Responses that report an error never pass for answers: \<open>read_plist\<close> returns a dictionary exactly
  when the message is one without an \<open>Error\<close> entry; with one it returns the error that the entry
  stands for. An error name it knows gets its own error; an unknown name that contains
  none of the two marked texts is returned as it was sent.
\<close>

theorem read_plist_errors:
  "(case read_plist_value pl d of
      (Ok v, u) \<Rightarrow>
        read_plist pl d =
          (case pl_to_dict pl v of
             Ok r \<Rightarrow> (case dict_get r ''Error'' of
                 None \<Rightarrow> (Ok r, u)
               | Some _ \<Rightarrow> (Err (the (device_error r)), u))
           | Err e \<Rightarrow> (Err e, u)
           | Panic \<Rightarrow> (Panic, u))
    | (Err e, u) \<Rightarrow> read_plist pl d = (Err e, u)
    | (Panic, u) \<Rightarrow> read_plist pl d = (Panic, u)) \<and>
   device_error [(rstr ''Error'', PString (rstr ''InvalidHostID''))] = Some InvalidHostID \<and>
   device_error [(rstr ''Error'', PString (rstr ''Other'')), (rstr ''ErrorDescription'', PString (rstr ''x''))] =
     Some (UnknownErrorType (rstr ''Other (x)'')) \<and>
   device_error [(rstr ''Error'', PInteger (- 12))] = Some (UnknownErrorType (rstr ''-12'')) \<and>
   device_error [(rstr ''Error'', PBoolean True)] =
     Some (UnexpectedResponse ''error value is not a string or integer'')"
proof (intro conjI)
  show "case read_plist_value pl d of
      (Ok v, u) \<Rightarrow>
        read_plist pl d =
          (case pl_to_dict pl v of
             Ok r \<Rightarrow> (case dict_get r ''Error'' of
                 None \<Rightarrow> (Ok r, u)
               | Some _ \<Rightarrow> (Err (the (device_error r)), u))
           | Err e \<Rightarrow> (Err e, u)
           | Panic \<Rightarrow> (Panic, u))
    | (Err e, u) \<Rightarrow> read_plist pl d = (Err e, u)
    | (Panic, u) \<Rightarrow> read_plist pl d = (Panic, u)"
    using device_error_None_iff
    by (auto simp: read_plist_def act_bind_def split: prod.split res.split option.split)
      (metis option.distinct(1))+
qed code_simp+

section \<open>What is still to arrive\<close>

definition dev_pending :: "idevice \<Rightarrow> nat" where
  "dev_pending d = (case dv_socket d of None \<Rightarrow> 0 | Some t \<Rightarrow> length (tp_pending t))"

lemma read_raw_dev: "read_raw n d = (r, d') \<Longrightarrow> dev_pending d' \<le> dev_pending d"
  by (auto simp: read_raw_def on_socket_def dev_pending_def tp_read_exact_pending split: option.splits prod.splits)

lemma read_raw_shorter: "read_raw n d = (Ok bs, d') \<Longrightarrow> dev_pending d' + n = dev_pending d \<and> length bs = n"
  by (auto simp: read_raw_def on_socket_def dev_pending_def dest: tp_read_exact_Ok split: option.splits prod.splits)

lemma read_raw_one: "read_raw 1 d = (Ok bs, d') \<Longrightarrow> dev_pending d' < dev_pending d"
  by (drule read_raw_shorter) simp

text \<open>\<open>dev_at d bs\<close>: the connection is open, and \<open>bs\<close> is to arrive on it.\<close>

definition dev_at :: "idevice \<Rightarrow> byte list \<Rightarrow> bool" where
  "dev_at d bs \<longleftrightarrow> (\<exists>t. dv_socket d = Some t \<and> arrives bs t)"

lemma read_raw_at:
  assumes "dev_at d (bs @ rest)"
  shows "\<exists>d'. read_raw (length bs) d = (Ok bs, d') \<and> dev_at d' rest"
proof -
  from assms obtain t where t: "dv_socket d = Some t" "arrives (bs @ rest) t" by (auto simp: dev_at_def)
  from tp_read_exact_arrives [OF t(2)] t(1) show ?thesis by (auto simp: read_raw_def on_socket_def dev_at_def)
qed

end
