(* ===== verification/Session.thy ===== *)
theory Session
  imports Transport
begin

text \<open>
  Numbered requests and answers over a connection, as an interface: what a client of such a protocol
  relies on, and what follows for sequences of requests. The AFC client and its open files
  interpret it.
\<close>

text \<open>
  \<open>exch_while exch stop qs\<close> sends the requests in order, until an answer satisfies \<open>stop\<close>, and collects
  the answers before it; \<open>numbered\<close> is what goes over the wire when requests are numbered from \<open>n\<close>.
\<close>

primrec exch_while :: "('q \<Rightarrow> ('s, 'p) act) \<Rightarrow> ('p \<Rightarrow> bool) \<Rightarrow> 'q list \<Rightarrow> ('s, 'p list) act" where
  "exch_while exch stop [] = act_ok []"
| "exch_while exch stop (q # qs) =
    act_bind (exch q) (\<lambda>p.
      if stop p then act_ok []
      else act_bind (exch_while exch stop qs) (\<lambda>ps. act_ok (p # ps)))"

primrec numbered :: "(u64 \<Rightarrow> 'q \<Rightarrow> byte list) \<Rightarrow> u64 \<Rightarrow> 'q list \<Rightarrow> byte list" where
  "numbered req n [] = []"
| "numbered req n (q # qs) = req n q @ numbered req (n + 1) qs"

text \<open>
  A client of a numbered request/answer protocol: in the state \<open>conn s inp out n\<close> the bytes \<open>inp\<close> are to
  arrive, \<open>out\<close> has been sent and \<open>n\<close> is the next number. An exchange sends one request and takes one
  answer, whose meaning is a result; also when it means an error the connection can be used on.
\<close>

locale exchange_client =
  fixes conn :: "'s \<Rightarrow> byte list \<Rightarrow> byte list \<Rightarrow> u64 \<Rightarrow> bool"
    and exch :: "'q \<Rightarrow> ('s, 'p) act"
    and req :: "u64 \<Rightarrow> 'q \<Rightarrow> byte list"
    and rsp :: "'p \<Rightarrow> byte list"
    and wf :: "'p \<Rightarrow> bool"
    and meaning :: "'p \<Rightarrow> ('p, idevice_error) res"
  assumes exchange: "conn s (rsp p @ rest) out n \<Longrightarrow> wf p \<Longrightarrow>
      \<exists>s'. exch q s = (meaning p, s') \<and> conn s' rest (out @ req n q) (n + 1)"
    and meaning_Ok: "meaning p = Ok p' \<Longrightarrow> p' = p"
begin

lemma exchange_Ok:
  assumes "conn s (rsp p @ rest) out n" and "wf p" and "meaning p = Ok p'"
  shows "\<exists>s'. exch q s = (Ok p, s') \<and> conn s' rest (out @ req n q) (n + 1)"
  using exchange [OF assms(1,2), of q] meaning_Ok [OF assms(3)] assms(3) by simp

lemma exch_while_all:
  "conn s (concat (map rsp ps) @ rest) out n \<Longrightarrow> length ps = length qs \<Longrightarrow>
   \<forall>p \<in> set ps. wf p \<and> is_ok (meaning p) \<and> \<not> stop p \<Longrightarrow>
   \<exists>s'. exch_while exch stop qs s = (Ok ps, s') \<and> conn s' rest (out @ numbered req n qs) (n + of_nat (length qs))"
proof (induction qs arbitrary: s ps out n)
  case (Cons q qs)
  then obtain p ps' where ps: "ps = p # ps'" by (cases ps) auto
  with Cons.prems obtain p' where p: "wf p" "meaning p = Ok p'" "\<not> stop p"
    by (auto simp: is_ok_def split: res.splits)
  from Cons.prems(1) ps have "conn s (rsp p @ concat (map rsp ps') @ rest) out n" by simp
  from exchange_Ok [OF this p(1,2)] obtain s1 where
    s1: "exch q s = (Ok p, s1)" "conn s1 (concat (map rsp ps') @ rest) (out @ req n q) (n + 1)" by blast
  from Cons.IH [OF s1(2)] Cons.prems(2,3) ps obtain s2 where
    "exch_while exch stop qs s1 = (Ok ps', s2)"
    "conn s2 rest ((out @ req n q) @ numbered req (n + 1) qs) (n + 1 + of_nat (length qs))" by auto
  then show ?case using s1(1) p(3) ps by (simp add: algebra_simps)
qed simp

lemma exch_while_prefix:
  assumes "conn s (concat (map rsp ps) @ rest) out n" and "length ps \<le> length qs"
    and "\<forall>p \<in> set ps. wf p \<and> is_ok (meaning p) \<and> \<not> stop p"
  shows "\<exists>s'. conn s' rest (out @ numbered req n (take (length ps) qs)) (n + of_nat (length ps)) \<and>
    exch_while exch stop qs s =
      act_bind (exch_while exch stop (drop (length ps) qs)) (\<lambda>rs. act_ok (ps @ rs)) s'"
  using assms
proof (induction ps arbitrary: s qs out n)
  case Nil
  then show ?case by (auto simp: act_bind_def split: prod.split res.split)
next
  case (Cons p ps)
  then obtain q qs' where qs: "qs = q # qs'" by (cases qs) auto
  from Cons.prems(3) obtain p' where p: "wf p" "meaning p = Ok p'" "\<not> stop p"
    by (auto simp: is_ok_def split: res.splits)
  from Cons.prems(1) have "conn s (rsp p @ concat (map rsp ps) @ rest) out n" by simp
  from exchange_Ok [OF this p(1,2)] obtain s1 where
    s1: "exch q s = (Ok p, s1)" "conn s1 (concat (map rsp ps) @ rest) (out @ req n q) (n + 1)" by blast
  have "length ps \<le> length qs'" "\<forall>p \<in> set ps. wf p \<and> is_ok (meaning p) \<and> \<not> stop p"
    using Cons.prems(2,3) qs by simp_all
  from Cons.IH [OF s1(2) this] obtain s2 where
    s2: "conn s2 rest ((out @ req n q) @ numbered req (n + 1) (take (length ps) qs')) (n + 1 + of_nat (length ps))"
      "exch_while exch stop qs' s1 =
        act_bind (exch_while exch stop (drop (length ps) qs')) (\<lambda>rs. act_ok (ps @ rs)) s2" by blast
  have "exch_while exch stop qs s =
      act_bind (exch_while exch stop (drop (length (p # ps)) qs)) (\<lambda>rs. act_ok ((p # ps) @ rs)) s2"
    using s1(1) p(3) qs s2(2) by (simp add: act_bind_def split: prod.split res.split)
  moreover have "conn s2 rest (out @ numbered req n (take (length (p # ps)) qs)) (n + of_nat (length (p # ps)))"
    using s2(1) qs by (simp add: algebra_simps)
  ultimately show ?case by blast
qed

lemma exch_while_stops:
  assumes "conn s (concat (map rsp ps) @ rsp e @ rest) out n" and "length ps < length qs"
    and "\<forall>p \<in> set ps. wf p \<and> is_ok (meaning p) \<and> \<not> stop p"
    and "wf e" and "(is_ok (meaning e) \<longrightarrow> stop e)"
  shows "\<exists>s'. conn s' rest (out @ numbered req n (take (Suc (length ps)) qs)) (n + 1 + of_nat (length ps)) \<and>
    exch_while exch stop qs s =
      (case meaning e of Ok _ \<Rightarrow> Ok ps | Err x \<Rightarrow> Err x | Panic \<Rightarrow> Panic, s')"
proof -
  from exch_while_prefix [OF assms(1) _ assms(3), of qs] assms(2) obtain s1 where
    s1: "conn s1 (rsp e @ rest) (out @ numbered req n (take (length ps) qs)) (n + of_nat (length ps))"
      "exch_while exch stop qs s =
        act_bind (exch_while exch stop (drop (length ps) qs)) (\<lambda>rs. act_ok (ps @ rs)) s1" by auto
  obtain q r where q: "drop (length ps) qs = q # r"
    using assms(2) by (cases "drop (length ps) qs") auto
  from exchange [OF s1(1) assms(4), of q] obtain s2 where
    s2: "exch q s1 = (meaning e, s2)"
      "conn s2 rest ((out @ numbered req n (take (length ps) qs)) @ req (n + of_nat (length ps)) q)
        (n + of_nat (length ps) + 1)" by blast
  have num: "numbered req m (as @ [b]) = numbered req m as @ req (m + of_nat (length as)) b" for m as b
    by (induction as arbitrary: m) (simp_all add: algebra_simps)
  have "take (Suc (length ps)) qs = take (length ps) qs @ [q]"
    using q assms(2) by (metis append_eq_conv_conj append_take_drop_id length_Cons
        take_Suc_conv_app_nth hd_drop_conv_nth list.sel(1))
  then have "out @ numbered req n (take (Suc (length ps)) qs) =
      (out @ numbered req n (take (length ps) qs)) @ req (n + of_nat (length ps)) q"
    using assms(2) by (simp add: num)
  moreover have "exch_while exch stop qs s =
      (case meaning e of Ok _ \<Rightarrow> Ok ps | Err x \<Rightarrow> Err x | Panic \<Rightarrow> Panic, s2)"
    using s1(2) q s2(1) assms(5) meaning_Ok by (auto simp: act_bind_def split: res.split)
  ultimately show ?thesis using s2(2) by (auto simp: algebra_simps)
qed

end

end
