(* ===== verification/Afc.thy ===== *)
theory Afc
  imports Device Session
begin

text \<open>
  services/afc (opcode.rs, packet.rs, mod.rs): the client of the file service. A packet is a 40-byte
  header, a header payload and a payload. The state of a client is its connection, the number
  of its next packet, and the outcomes of the 15-second limits that guard its sends and
  reads (\<open>True\<close>: the limit strikes before the operation is done; none left: it does not strike).
\<close>

section \<open>Opcodes\<close>

datatype (plugins only: code) afc_opcode =
    OpStatus | OpData | OpReadDir | OpReadFile | OpWriteFile | OpWritePart | OpTruncate | OpRemovePath
  | OpMakeDir | OpGetFileInfo | OpGetDevInfo | OpWriteFileAtom | OpFileOpen | OpFileOpenRes | OpRead
  | OpWrite | OpFileSeek | OpFileTell | OpFileTellRes | OpFileClose | OpFileSetSize | OpGetConInfo
  | OpSetConOptions | OpRenamePath | OpSetFsBs | OpSetSocketBs | OpFileLock | OpMakeLink | OpGetFileHash
  | OpSetFileTime | OpRemovePathAndContents

primrec opcode_code :: "afc_opcode \<Rightarrow> u64" where
  "opcode_code OpStatus = 0x01"
| "opcode_code OpData = 0x02"
| "opcode_code OpReadDir = 0x03"
| "opcode_code OpReadFile = 0x04"
| "opcode_code OpWriteFile = 0x05"
| "opcode_code OpWritePart = 0x06"
| "opcode_code OpTruncate = 0x07"
| "opcode_code OpRemovePath = 0x08"
| "opcode_code OpMakeDir = 0x09"
| "opcode_code OpGetFileInfo = 0x0a"
| "opcode_code OpGetDevInfo = 0x0b"
| "opcode_code OpWriteFileAtom = 0x0c"
| "opcode_code OpFileOpen = 0x0d"
| "opcode_code OpFileOpenRes = 0x0e"
| "opcode_code OpRead = 0x0f"
| "opcode_code OpWrite = 0x10"
| "opcode_code OpFileSeek = 0x11"
| "opcode_code OpFileTell = 0x12"
| "opcode_code OpFileTellRes = 0x13"
| "opcode_code OpFileClose = 0x14"
| "opcode_code OpFileSetSize = 0x15"
| "opcode_code OpGetConInfo = 0x16"
| "opcode_code OpSetConOptions = 0x17"
| "opcode_code OpRenamePath = 0x18"
| "opcode_code OpSetFsBs = 0x19"
| "opcode_code OpSetSocketBs = 0x1A"
| "opcode_code OpFileLock = 0x1B"
| "opcode_code OpMakeLink = 0x1C"
| "opcode_code OpGetFileHash = 0x1D"
| "opcode_code OpSetFileTime = 0x1E"
| "opcode_code OpRemovePathAndContents = 0x22"

definition opcode_try_from :: "u64 \<Rightarrow> afc_opcode option" where
  "opcode_try_from v =
    (if v = 0x01 then Some OpStatus
     else if v = 0x02 then Some OpData
     else if v = 0x03 then Some OpReadDir
     else if v = 0x04 then Some OpReadFile
     else if v = 0x05 then Some OpWriteFile
     else if v = 0x06 then Some OpWritePart
     else if v = 0x07 then Some OpTruncate
     else if v = 0x08 then Some OpRemovePath
     else if v = 0x09 then Some OpMakeDir
     else if v = 0x0a then Some OpGetFileInfo
     else if v = 0x0b then Some OpGetDevInfo
     else if v = 0x0c then Some OpWriteFileAtom
     else if v = 0x0d then Some OpFileOpen
     else if v = 0x0e then Some OpFileOpenRes
     else if v = 0x0f then Some OpRead
     else if v = 0x10 then Some OpWrite
     else if v = 0x11 then Some OpFileSeek
     else if v = 0x12 then Some OpFileTell
     else if v = 0x13 then Some OpFileTellRes
     else if v = 0x14 then Some OpFileClose
     else if v = 0x15 then Some OpFileSetSize
     else if v = 0x16 then Some OpGetConInfo
     else if v = 0x17 then Some OpSetConOptions
     else if v = 0x18 then Some OpRenamePath
     else if v = 0x19 then Some OpSetFsBs
     else if v = 0x1A then Some OpSetSocketBs
     else if v = 0x1B then Some OpFileLock
     else if v = 0x1C then Some OpMakeLink
     else if v = 0x1D then Some OpGetFileHash
     else if v = 0x1E then Some OpSetFileTime
     else None)"

datatype afc_fopen_mode = RdOnly | Rw | WrOnly | Wr | Append | RdAppend

primrec fopen_mode_code :: "afc_fopen_mode \<Rightarrow> u64" where
  "fopen_mode_code RdOnly = 1"
| "fopen_mode_code Rw = 2"
| "fopen_mode_code WrOnly = 3"
| "fopen_mode_code Wr = 4"
| "fopen_mode_code Append = 5"
| "fopen_mode_code RdAppend = 6"

datatype link_type = Hardlink | Symlink

primrec link_type_code :: "link_type \<Rightarrow> u64" where
  "link_type_code Hardlink = 1"
| "link_type_code Symlink = 2"

datatype afc_lock_op = SharedLock | ExclusiveLock | Unlock

primrec lock_op_code :: "afc_lock_op \<Rightarrow> u64" where
  "lock_op_code SharedLock = 5"
| "lock_op_code ExclusiveLock = 6"
| "lock_op_code Unlock = 12"

lemma opcode_try_from_code:
  "opcode_try_from (opcode_code x) = (if x = OpRemovePathAndContents then None else Some x)"
  by (cases x) (simp_all add: opcode_try_from_def)

lemma opcode_code_try_from: "opcode_try_from v = Some x \<Longrightarrow> opcode_code x = v"
  by (auto simp: opcode_try_from_def split: if_splits)

section \<open>Packets\<close>

definition AFC_MAGIC :: u64 where
  "AFC_MAGIC = 0x4141504c36414643"

record afc_header =
  ap_magic :: u64
  ap_entire_len :: u64
  ap_header_payload_len :: u64
  ap_packet_num :: u64
  ap_operation :: afc_opcode

record afc_packet =
  ap_header :: afc_header
  ap_header_payload :: "byte list"
  ap_payload :: "byte list"

definition AFC_LEN :: u64 where
  "AFC_LEN = 40"

definition afc_header_serialize :: "afc_header \<Rightarrow> byte list" where
  "afc_header_serialize h =
    to_le_bytes (ap_magic h) @ to_le_bytes (ap_entire_len h) @ to_le_bytes (ap_header_payload_len h) @
    to_le_bytes (ap_packet_num h) @ to_le_bytes (opcode_code (ap_operation h))"

definition afc_header_read :: "(idevice, afc_header) act" where
  "afc_header_read =
    act_bind (read_raw (unat AFC_LEN)) (\<lambda>b.
      case opcode_try_from (from_le_bytes (sub 32 8 b)) of
        None \<Rightarrow> act_err (Afc AfcUnknownOpcode)
      | Some operation \<Rightarrow>
          (let res = \<lparr>ap_magic = from_le_bytes (sub 0 8 b), ap_entire_len = from_le_bytes (sub 8 8 b),
             ap_header_payload_len = from_le_bytes (sub 16 8 b),
             ap_packet_num = from_le_bytes (sub 24 8 b), ap_operation = operation\<rparr>
           in if ap_magic res \<noteq> AFC_MAGIC then act_err (Afc AfcInvalidMagic) else act_ok res))"

definition afc_packet_serialize :: "afc_packet \<Rightarrow> byte list" where
  "afc_packet_serialize p = afc_header_serialize (ap_header p) @ ap_header_payload p @ ap_payload p"

definition afc_packet_read :: "(idevice, afc_packet) act" where
  "afc_packet_read =
    act_bind afc_header_read (\<lambda>header.
      if ap_header_payload_len header < AFC_LEN
         \<or> ap_entire_len header < ap_header_payload_len header
         \<or> ap_entire_len header > 64 * 1024 * 1024
      then act_err (UnexpectedResponse ''Invalid or oversized AFC frame'')
      else
        act_bind (read_raw (unat (ap_header_payload_len header - AFC_LEN))) (\<lambda>header_payload.
        act_bind (if ap_header_payload_len header = ap_entire_len header then act_ok []
                  else read_raw (unat (ap_entire_len header - ap_header_payload_len header))) (\<lambda>payload.
          act_ok \<lparr>ap_header = header, ap_header_payload = header_payload, ap_payload = payload\<rparr>)))"

section \<open>The client\<close>

record afc_client =
  af_idevice :: idevice
  af_package_number :: u64
  af_timers :: "bool list"

definition afc_new :: "idevice \<Rightarrow> bool list \<Rightarrow> afc_client" where
  "afc_new idevice timers = \<lparr>af_idevice = idevice, af_package_number = 0, af_timers = timers\<rparr>"

definition invalidate_connection :: "afc_client \<Rightarrow> afc_client" where
  "invalidate_connection c = c\<lparr>af_idevice := invalidate_socket (af_idevice c)\<rparr>"

text \<open>
  \<open>tokio::time::timeout\<close> around an operation on the connection: on an error or when the limit
  strikes, the socket is dropped, and with it whatever the operation had done.
\<close>

definition timed :: "(idevice, 'a) act \<Rightarrow> (afc_client, 'a) act" where
  "timed m c =
    (case af_timers c of
       True # bs \<Rightarrow> (Err Timeout, invalidate_connection (c\<lparr>af_timers := bs\<rparr>))
     | bs \<Rightarrow>
         (case m (af_idevice c) of (r, d) \<Rightarrow>
            (let c' = c\<lparr>af_timers := tl bs, af_idevice := d\<rparr>
             in case r of
                  Ok a \<Rightarrow> (Ok a, c')
                | Err e \<Rightarrow> (Err e, invalidate_connection c')
                | Panic \<Rightarrow> (Panic, c'))))"

definition afc_send :: "afc_packet \<Rightarrow> (afc_client, unit) act" where
  "afc_send packet = timed (send_raw (afc_packet_serialize packet))"

definition afc_read :: "(afc_client, afc_packet) act" where
  "afc_read =
    act_bind (timed afc_packet_read) (\<lambda>res.
      if ap_operation (ap_header res) = OpStatus
      then (if length (ap_header_payload res) < 8
            then act_bind (act_upd invalidate_connection) (\<lambda>_.
              act_err (UnexpectedResponse ''AFC error status response too short for error code''))
            else
              (let e = afc_error_from (from_le_bytes (take 8 (ap_header_payload res)))
               in if e = AfcSuccess then act_ok res else act_err (Afc e)))
      else act_ok res)"

text \<open>
  Every request is built, numbered, sent and answered the same way; \<open>send_op\<close> is that code, which the
  source writes out in some of the operations and in \<open>InnerFileDescriptor::send_packet\<close>.
\<close>

definition afc_request :: "afc_opcode \<Rightarrow> byte list \<Rightarrow> byte list \<Rightarrow> u64 \<Rightarrow> afc_packet" where
  "afc_request opcode header_payload payload n =
    (let header_len = of_nat (length header_payload) + AFC_LEN
     in \<lparr>ap_header = \<lparr>ap_magic = AFC_MAGIC, ap_entire_len = header_len + of_nat (length payload),
           ap_header_payload_len = header_len, ap_packet_num = n, ap_operation = opcode\<rparr>,
         ap_header_payload = header_payload, ap_payload = payload\<rparr>)"

definition send_op :: "afc_opcode \<Rightarrow> byte list \<Rightarrow> byte list \<Rightarrow> (afc_client, afc_packet) act" where
  "send_op opcode header_payload payload c =
    (let packet = afc_request opcode header_payload payload (af_package_number c)
     in act_bind (afc_send packet) (\<lambda>_. afc_read) (c\<lparr>af_package_number := af_package_number c + 1\<rparr>))"

text \<open>\<open>payload.split(|b| *b == 0)\<close>\<close>

fun split_nul :: "byte list \<Rightarrow> byte list list" where
  "split_nul [] = [[]]"
| "split_nul (b # bs) =
    (if b = 0 then [] # split_nul bs
     else case split_nul bs of [] \<Rightarrow> [[b]] | w # ws \<Rightarrow> (b # w) # ws)"

definition nul_strings :: "byte list \<Rightarrow> rstring list" where
  "nul_strings payload = map utf8_lossy (filter (\<lambda>s. s \<noteq> []) (split_nul payload))"

definition list_dir :: "rstring \<Rightarrow> (afc_client, rstring list) act" where
  "list_dir path = act_bind (send_op OpReadDir path []) (\<lambda>res. act_ok (nul_strings (ap_payload res)))"

definition mk_dir :: "rstring \<Rightarrow> (afc_client, unit) act" where
  "mk_dir path = act_bind (send_op OpMakeDir path []) (\<lambda>_. act_ok ())"

definition afc_remove :: "rstring \<Rightarrow> (afc_client, unit) act" where
  "afc_remove path = act_bind (send_op OpRemovePath path []) (\<lambda>_. act_ok ())"

definition remove_all :: "rstring \<Rightarrow> (afc_client, unit) act" where
  "remove_all path = act_bind (send_op OpRemovePathAndContents path []) (\<lambda>_. act_ok ())"

definition afc_open :: "rstring \<Rightarrow> afc_fopen_mode \<Rightarrow> (afc_client, u64) act" where
  "afc_open path mode =
    act_bind (send_op OpFileOpen (to_le_bytes (fopen_mode_code mode) @ path) []) (\<lambda>res.
      if length (ap_header_payload res) < 8
      then act_err (UnexpectedResponse ''AFC FileOpen response header payload too short for fd'')
      else act_ok (from_le_bytes (take 8 (ap_header_payload res))))"

definition link_to :: "rstring \<Rightarrow> rstring \<Rightarrow> link_type \<Rightarrow> (afc_client, unit) act" where
  "link_to target source kind =
    act_bind (send_op OpMakeLink (to_le_bytes (link_type_code kind) @ target @ [0] @ source @ [0]) [])
      (\<lambda>_. act_ok ())"

definition rename :: "rstring \<Rightarrow> rstring \<Rightarrow> (afc_client, unit) act" where
  "rename source target =
    act_bind (send_op OpRenamePath (source @ [0] @ target @ [0]) []) (\<lambda>_. act_ok ())"

definition get_file_hash :: "rstring \<Rightarrow> (afc_client, byte list) act" where
  "get_file_hash path = act_bind (send_op OpGetFileHash path []) (\<lambda>res. act_ok (ap_payload res))"

definition set_file_time :: "rstring \<Rightarrow> u64 \<Rightarrow> (afc_client, unit) act" where
  "set_file_time path mtime =
    act_bind (send_op OpSetFileTime (to_le_bytes mtime @ path) []) (\<lambda>_. act_ok ())"

section \<open>Attributes\<close>

text \<open>\<open>as_chunks::<2>().0\<close> collected into a hash map: a later pair replaces an earlier one.\<close>

fun pairs_of :: "'a list \<Rightarrow> ('a \<times> 'a) list" where
  "pairs_of (k # v # r) = (k, v) # pairs_of r"
| "pairs_of _ = []"

definition parse_kv_payload :: "byte list \<Rightarrow> rstring \<rightharpoonup> rstring" where
  "parse_kv_payload payload = map_of (rev (pairs_of (nul_strings payload)))"

definition get_connection_info :: "(afc_client, rstring \<rightharpoonup> rstring) act" where
  "get_connection_info =
    act_bind (send_op OpGetConInfo [] []) (\<lambda>res. act_ok (parse_kv_payload (ap_payload res)))"

definition get_file_info_raw :: "rstring \<Rightarrow> (afc_client, rstring \<rightharpoonup> rstring) act" where
  "get_file_info_raw path =
    act_bind (send_op OpGetFileInfo path []) (\<lambda>res. act_ok (parse_kv_payload (ap_payload res)))"

definition get_device_info_raw :: "(afc_client, rstring \<rightharpoonup> rstring) act" where
  "get_device_info_raw =
    act_bind (send_op OpGetDevInfo [] []) (\<lambda>res. act_ok (parse_kv_payload (ap_payload res)))"

text \<open>The timestamps are kept in nanoseconds; turning them into dates is chrono's work.\<close>

record file_info =
  fi_size :: nat
  fi_blocks :: nat
  fi_creation :: int
  fi_modified :: int
  fi_nlink :: rstring
  fi_ifmt :: rstring
  fi_link_target :: "rstring option"

record device_info =
  di_model :: rstring
  di_total_bytes :: nat
  di_free_bytes :: nat
  di_block_size :: nat

definition kv_usize :: "(rstring \<rightharpoonup> rstring) \<Rightarrow> string \<Rightarrow> (nat, idevice_error) res" where
  "kv_usize kvs k = ok_or (Afc AfcMissingAttribute) (Option.bind (kvs (rstr k)) (parse_unsigned 64))"

definition kv_i64 :: "(rstring \<rightharpoonup> rstring) \<Rightarrow> string \<Rightarrow> (int, idevice_error) res" where
  "kv_i64 kvs k = ok_or (Afc AfcMissingAttribute) (Option.bind (kvs (rstr k)) (parse_signed 64))"

definition kv_string :: "(rstring \<rightharpoonup> rstring) \<Rightarrow> string \<Rightarrow> (rstring, idevice_error) res" where
  "kv_string kvs k = ok_or (Afc AfcMissingAttribute) (kvs (rstr k))"

definition file_info_of :: "(rstring \<rightharpoonup> rstring) \<Rightarrow> (file_info, idevice_error) res" where
  "file_info_of kvs =
    rbind (kv_usize kvs ''st_size'') (\<lambda>size.
    rbind (kv_usize kvs ''st_blocks'') (\<lambda>blocks.
    rbind (kv_i64 kvs ''st_birthtime'') (\<lambda>creation.
    rbind (kv_i64 kvs ''st_mtime'') (\<lambda>modified.
    rbind (kv_string kvs ''st_nlink'') (\<lambda>st_nlink.
    rbind (kv_string kvs ''st_ifmt'') (\<lambda>st_ifmt.
      Ok \<lparr>fi_size = size, fi_blocks = blocks, fi_creation = creation, fi_modified = modified,
          fi_nlink = st_nlink, fi_ifmt = st_ifmt,
          fi_link_target = (case kvs (rstr ''LinkTarget'') of
             Some t \<Rightarrow> Some t | None \<Rightarrow> kvs (rstr ''st_link_target''))\<rparr>))))))"

definition get_file_info :: "rstring \<Rightarrow> (afc_client, file_info) act" where
  "get_file_info path = act_bind (get_file_info_raw path) (\<lambda>kvs. act_res (file_info_of kvs))"

definition device_info_of :: "(rstring \<rightharpoonup> rstring) \<Rightarrow> (device_info, idevice_error) res" where
  "device_info_of kvs =
    rbind (kv_string kvs ''Model'') (\<lambda>model.
    rbind (kv_usize kvs ''FSTotalBytes'') (\<lambda>total_bytes.
    rbind (kv_usize kvs ''FSFreeBytes'') (\<lambda>free_bytes.
    rbind (kv_usize kvs ''FSBlockSize'') (\<lambda>block_size.
      Ok \<lparr>di_model = model, di_total_bytes = total_bytes, di_free_bytes = free_bytes,
          di_block_size = block_size\<rparr>))))"

definition get_device_info :: "(afc_client, device_info) act" where
  "get_device_info = act_bind get_device_info_raw (\<lambda>kvs. act_res (device_info_of kvs))"

section \<open>The AFC client as a session\<close>

lemma read_raw_arrives:
  assumes "dv_socket d = Some t" and "arrives (bs @ rest) t"
  shows "\<exists>u. read_raw (length bs) d = (Ok bs, d\<lparr>dv_socket := Some u\<rparr>) \<and> arrives rest u \<and>
    tp_out u = tp_out t \<and> tp_budget u = tp_budget t"
proof -
  from tp_read_exact_arrives [OF assms(2)] obtain u where
    u: "tp_read_exact (length bs) t = (Ok bs, u)" "arrives rest u" by blast
  with tp_read_exact_Ok [OF u(1)] tp_read_exact_budget [OF u(1)] assms(1) show ?thesis
    by (auto simp: read_raw_def on_socket_def)
qed

lemma send_parts_run:
  "tp_budget t = None \<Longrightarrow>
   \<exists>u tr'. send_parts k i parts (t, tr) = (Ok (), (u, tr')) \<and> tp_budget u = None \<and> tp_in u = tp_in t \<and>
     tp_out u = tp_out t @ parts"
proof (induction parts arbitrary: i t tr)
  case (Cons p ps)
  from Cons.IH [of "t\<lparr>tp_out := tp_out t @ [p]\<rparr>" "Suc i" "tr @ [(i, k)]"] Cons.prems show ?case
    by (auto simp: act_bind_def tp_write_all_unlimited)
qed simp

lemma send_raw_run:
  assumes "dv_socket d = Some t" and "tp_budget t = None"
  shows "\<exists>u. send_raw m d = (Ok (), d\<lparr>dv_socket := Some u\<rparr>) \<and> tp_budget u = None \<and> tp_in u = tp_in t \<and>
    tp_out u = tp_out t @ chunks RAW_CHUNK m"
proof -
  from send_parts_run [OF assms(2), of "length (chunks RAW_CHUNK m) - 1" 0 "chunks RAW_CHUNK m" "[]"]
  obtain u tr where
    "send_parts (length (chunks RAW_CHUNK m) - 1) 0 (chunks RAW_CHUNK m) (t, []) = (Ok (), (u, tr))"
    "tp_budget u = None" "tp_in u = tp_in t" "tp_out u = tp_out t @ chunks RAW_CHUNK m" by blast
  with assms(1) show ?thesis
    by (auto simp: send_raw_def send_raw_with_progress_def Let_def tp_flush_unlimited)
qed

text \<open>Packets as the reader takes them, and what an answer means.\<close>

definition afc_frame :: "afc_packet \<Rightarrow> bool" where
  "afc_frame p \<longleftrightarrow>
    ap_magic (ap_header p) = AFC_MAGIC \<and> ap_operation (ap_header p) \<noteq> OpRemovePathAndContents \<and>
    40 + length (ap_header_payload p) + length (ap_payload p) \<le> 64 * 1024 * 1024 \<and>
    unat (ap_header_payload_len (ap_header p)) = 40 + length (ap_header_payload p) \<and>
    unat (ap_entire_len (ap_header p)) = 40 + length (ap_header_payload p) + length (ap_payload p)"

definition afc_wf :: "afc_packet \<Rightarrow> bool" where
  "afc_wf p \<longleftrightarrow> afc_frame p \<and>
    (ap_operation (ap_header p) = OpStatus \<longrightarrow> 8 \<le> length (ap_header_payload p))"

definition afc_meaning :: "afc_packet \<Rightarrow> (afc_packet, idevice_error) res" where
  "afc_meaning p =
    (if ap_operation (ap_header p) = OpStatus \<and>
        afc_error_from (from_le_bytes (take 8 (ap_header_payload p))) \<noteq> AfcSuccess
     then Err (Afc (afc_error_from (from_le_bytes (take 8 (ap_header_payload p)))))
     else Ok p)"

lemma length_afc_header [simp]: "length (afc_header_serialize h) = 40"
  by (simp add: afc_header_serialize_def)

lemma afc_header_read_run:
  assumes "dv_socket d = Some t" and "arrives (afc_header_serialize h @ rest) t"
    and "ap_magic h = AFC_MAGIC" and "ap_operation h \<noteq> OpRemovePathAndContents"
  shows "\<exists>u. afc_header_read d = (Ok h, d\<lparr>dv_socket := Some u\<rparr>) \<and> arrives rest u \<and>
    tp_out u = tp_out t \<and> tp_budget u = tp_budget t"
proof -
  from read_raw_arrives [OF assms(1,2)] obtain u where
    u: "read_raw 40 d = (Ok (afc_header_serialize h), d\<lparr>dv_socket := Some u\<rparr>)" "arrives rest u"
      "tp_out u = tp_out t" "tp_budget u = tp_budget t" by auto
  have "sub 0 8 (afc_header_serialize h) = to_le_bytes (ap_magic h)"
    "sub 8 8 (afc_header_serialize h) = to_le_bytes (ap_entire_len h)"
    "sub 16 8 (afc_header_serialize h) = to_le_bytes (ap_header_payload_len h)"
    "sub 24 8 (afc_header_serialize h) = to_le_bytes (ap_packet_num h)"
    "sub 32 8 (afc_header_serialize h) = to_le_bytes (opcode_code (ap_operation h))"
    by (simp_all add: afc_header_serialize_def)
  then have "afc_header_read d = (Ok h, d\<lparr>dv_socket := Some u\<rparr>)"
    using u assms(3,4) by (simp add: afc_header_read_def AFC_LEN_def opcode_try_from_code Let_def)
  with u(2-4) show ?thesis by blast
qed

lemma afc_packet_read_run:
  assumes "dv_socket d = Some t" and "arrives (afc_packet_serialize p @ rest) t" and "afc_frame p"
  shows "\<exists>u. afc_packet_read d = (Ok p, d\<lparr>dv_socket := Some u\<rparr>) \<and> arrives rest u \<and>
    tp_out u = tp_out t \<and> tp_budget u = tp_budget t"
proof -
  let ?h = "ap_header p"
  let ?hp = "ap_header_payload p"
  let ?pl = "ap_payload p"
  have wf: "ap_magic ?h = AFC_MAGIC" "ap_operation ?h \<noteq> OpRemovePathAndContents"
    "40 + length ?hp + length ?pl \<le> 64 * 1024 * 1024"
    "unat (ap_header_payload_len ?h) = 40 + length ?hp"
    "unat (ap_entire_len ?h) = 40 + length ?hp + length ?pl"
    using assms(3) by (simp_all add: afc_frame_def)
  have "arrives (afc_header_serialize ?h @ ?hp @ ?pl @ rest) t"
    using assms(2) by (simp add: afc_packet_serialize_def)
  from afc_header_read_run [OF assms(1) this wf(1,2)] obtain t1 where
    t1: "afc_header_read d = (Ok ?h, d\<lparr>dv_socket := Some t1\<rparr>)" "arrives (?hp @ ?pl @ rest) t1"
      "tp_out t1 = tp_out t" "tp_budget t1 = tp_budget t" by blast
  from read_raw_arrives [OF _ t1(2), of "d\<lparr>dv_socket := Some t1\<rparr>"] obtain t2 where
    t2: "read_raw (length ?hp) (d\<lparr>dv_socket := Some t1\<rparr>) = (Ok ?hp, d\<lparr>dv_socket := Some t2\<rparr>)"
      "arrives (?pl @ rest) t2" "tp_out t2 = tp_out t" "tp_budget t2 = tp_budget t"
    using t1(3,4) by auto
  from read_raw_arrives [OF _ t2(2), of "d\<lparr>dv_socket := Some t2\<rparr>"] obtain t3 where
    t3: "read_raw (length ?pl) (d\<lparr>dv_socket := Some t2\<rparr>) = (Ok ?pl, d\<lparr>dv_socket := Some t3\<rparr>)"
      "arrives rest t3" "tp_out t3 = tp_out t" "tp_budget t3 = tp_budget t"
    using t2(3,4) by auto
  define a where "a = 40 + length ?hp"
  define b where "b = 40 + length ?hp + length ?pl"
  have ab: "a \<le> b" "b \<le> 64 * 1024 * 1024" "40 \<le> a" using wf(3) by (simp_all add: a_def b_def)
  have u: "unat (of_nat a :: u64) = a" "unat (of_nat b :: u64) = b"
    using ab by (simp_all add: unat_of_nat)
  have c: "\<not> (of_nat a :: u64) < 40" "\<not> (of_nat b :: u64) < of_nat a"
    "\<not> (of_nat b :: u64) > 64 * 1024 * 1024"
    using ab unfolding word_less_nat_alt u by simp_all
  have d: "unat (of_nat a - 40 :: u64) = length ?hp" "unat (of_nat b - of_nat a :: u64) = length ?pl"
  proof -
    have "(40 :: u64) \<le> of_nat a" "(of_nat a :: u64) \<le> of_nat b" using c(1,2) by (simp_all only: not_less)
    from this [THEN unat_sub] show "unat (of_nat a - 40 :: u64) = length ?hp"
      "unat (of_nat b - of_nat a :: u64) = length ?pl"
      unfolding u by (simp_all add: a_def b_def)
  qed
  have e: "(of_nat a :: u64) = of_nat b \<longleftrightarrow> ?pl = []"
  proof
    assume "(of_nat a :: u64) = of_nat b"
    then have "a = b" using u by metis
    then show "?pl = []" by (simp add: a_def b_def)
  qed (simp add: a_def b_def)
  have lens: "ap_header_payload_len ?h = of_nat a" "ap_entire_len ?h = of_nat b"
  proof -
    have "of_nat (unat (ap_header_payload_len ?h)) = (of_nat a :: u64)"
      "of_nat (unat (ap_entire_len ?h)) = (of_nat b :: u64)"
      unfolding wf(4,5) a_def b_def by (rule refl)+
    then show "ap_header_payload_len ?h = of_nat a" "ap_entire_len ?h = of_nat b" by simp_all
  qed
  show ?thesis
  proof (cases "?pl = []")
    case True
    then have "afc_packet_read d = (Ok p, d\<lparr>dv_socket := Some t2\<rparr>)"
      using t1(1) t2(1) c d e by (simp add: afc_packet_read_def AFC_LEN_def lens)
    with t2(2-4) True show ?thesis by auto
  next
    case False
    then have "afc_packet_read d = (Ok p, d\<lparr>dv_socket := Some t3\<rparr>)"
      using t1(1) t2(1) t3(1) c d e by (simp add: afc_packet_read_def AFC_LEN_def lens)
    with t3(2-4) show ?thesis by blast
  qed
qed

definition afc_conn :: "afc_client \<Rightarrow> byte list \<Rightarrow> byte list \<Rightarrow> u64 \<Rightarrow> bool" where
  "afc_conn c inp out n \<longleftrightarrow>
    (case dv_socket (af_idevice c) of
       None \<Rightarrow> False
     | Some t \<Rightarrow> tp_budget t = None \<and> arrives inp t \<and> concat (tp_out t) = out) \<and>
    af_timers c = [] \<and> af_package_number c = n"

definition afc_req :: "u64 \<Rightarrow> afc_opcode \<times> byte list \<times> byte list \<Rightarrow> byte list" where
  "afc_req n q = (case q of (opcode, hp, pl) \<Rightarrow> afc_packet_serialize (afc_request opcode hp pl n))"

lemma afc_exchange:
  assumes "afc_conn c (afc_packet_serialize p @ rest) out n" and "afc_wf p"
  shows "\<exists>c'. (case q of (opcode, hp, pl) \<Rightarrow> send_op opcode hp pl) c = (afc_meaning p, c') \<and>
    afc_conn c' rest (out @ afc_req n q) (n + 1)"
proof -
  obtain opcode hp pl where q: "q = (opcode, hp, pl)" by (cases q)
  from assms(1) obtain t where
    t: "dv_socket (af_idevice c) = Some t" "tp_budget t = None"
      "arrives (afc_packet_serialize p @ rest) t" "concat (tp_out t) = out" "af_timers c = []"
      "af_package_number c = n"
    by (auto simp: afc_conn_def split: option.splits)
  let ?m = "afc_req n q"
  from send_raw_run [OF t(1,2), of ?m] obtain t1 where
    t1: "send_raw ?m (af_idevice c) = (Ok (), (af_idevice c)\<lparr>dv_socket := Some t1\<rparr>)" "tp_budget t1 = None"
      "tp_in t1 = tp_in t" "tp_out t1 = tp_out t @ chunks RAW_CHUNK ?m" by blast
  have "arrives (afc_packet_serialize p @ rest) t1"
    using t(3) t1(3) by (simp add: arrives_def tp_pending_def)
  from afc_packet_read_run [OF _ this, of "(af_idevice c)\<lparr>dv_socket := Some t1\<rparr>"] obtain t2 where
    t2: "afc_packet_read ((af_idevice c)\<lparr>dv_socket := Some t1\<rparr>) =
        (Ok p, (af_idevice c)\<lparr>dv_socket := Some t2\<rparr>)"
      "arrives rest t2" "tp_out t2 = tp_out t1" "tp_budget t2 = None"
    using t1(2) assms(2) by (auto simp: afc_wf_def)
  let ?c = "c\<lparr>af_package_number := n + 1, af_idevice := (af_idevice c)\<lparr>dv_socket := Some t2\<rparr>\<rparr>"
  have "(case q of (opcode, hp, pl) \<Rightarrow> send_op opcode hp pl) c = (afc_meaning p, ?c)"
    using t(5,6) t1(1) t2(1) assms(2) q
    by (auto simp: send_op_def afc_send_def afc_read_def timed_def Let_def act_bind_def afc_req_def
        afc_meaning_def afc_wf_def)
  moreover have "afc_conn ?c rest (out @ afc_req n q) (n + 1)"
    using t2(2-4) t1(4) t(4,5) by (simp add: afc_conn_def RAW_CHUNK_def)
  ultimately show ?thesis by blast
qed

interpretation afc: exchange_client afc_conn "\<lambda>(opcode, hp, pl). send_op opcode hp pl" afc_req
    afc_packet_serialize afc_wf afc_meaning
proof
  fix s p rest out n q
  assume "afc_conn s (afc_packet_serialize p @ rest) out n" and "afc_wf p"
  then show "\<exists>s'. (case q of (opcode, hp, pl) \<Rightarrow> send_op opcode hp pl) s = (afc_meaning p, s') \<and>
      afc_conn s' rest (out @ afc_req n q) (n + 1)"
    by (rule afc_exchange)
next
  fix p p'
  assume "afc_meaning p = Ok p'"
  then show "p' = p" by (auto simp: afc_meaning_def split: if_splits)
qed

lemma afc_conn_new:
  "afc_conn (afc_new (idevice_new \<lparr>tp_in = [b], tp_out = [], tp_budget = None\<rparr> l) []) b [] 0 \<longleftrightarrow> b \<noteq> []"
  by (auto simp: afc_conn_def afc_new_def idevice_new_def arrives_def tp_pending_def)

lemma afc_wf_request:
  "op \<noteq> OpRemovePathAndContents \<Longrightarrow> op \<noteq> OpStatus \<or> 8 \<le> length hp \<Longrightarrow>
   40 + length hp + length pl \<le> 64 * 1024 * 1024 \<Longrightarrow> afc_wf (afc_request op hp pl n)"
  by (simp add: afc_wf_def afc_frame_def afc_request_def AFC_LEN_def Let_def unat_word_ariths unat_of_nat)

lemma afc_packet_nonempty [simp]: "afc_packet_serialize p \<noteq> []"
  by (metis append_is_Nil_conv afc_packet_serialize_def length_afc_header list.size(3) zero_neq_numeral)

lemma tp_read_exact_no_panic: "no_panic (tp_read_exact n)"
proof -
  have "fst (tp_read_exact n t) \<noteq> Panic" for t
  proof (induction n t rule: tp_read_exact.induct)
    case (1 n t)
    obtain bs u where r: "tp_read n t = (bs, u)" by fastforce
    then show ?case
      using 1 [OF _ r [symmetric]]
      by (cases "bs = []"; cases "tp_read_exact (n - length bs) u")
        (auto simp: tp_read_exact.simps [of n t] split: res.split)
  qed
  then show ?thesis by (simp add: no_panic_def)
qed

lemma on_socket_no_panic: "no_panic m \<Longrightarrow> no_panic (on_socket m)"
  by (auto simp: no_panic_def on_socket_def split: option.split prod.split) (metis fst_conv)

lemma read_raw_no_panic: "no_panic (read_raw n)"
  by (simp add: read_raw_def on_socket_no_panic tp_read_exact_no_panic)

lemma read_raw_Ok:
  "read_raw n d = (Ok b, d') \<Longrightarrow>
   \<exists>t u. dv_socket d = Some t \<and> d' = d\<lparr>dv_socket := Some u\<rparr> \<and> length b = n \<and>
     tp_pending t = b @ tp_pending u"
  by (auto simp: read_raw_def on_socket_def dest!: tp_read_exact_Ok split: option.splits prod.splits)

lemma afc_header_read_no_panic: "no_panic afc_header_read"
  unfolding afc_header_read_def
  by (intro no_panic_bind read_raw_no_panic)
    (auto simp: Let_def no_panic_pure split: option.split)

lemma afc_packet_read_no_panic: "no_panic afc_packet_read"
  unfolding afc_packet_read_def
  by (intro no_panic_bind afc_header_read_no_panic)
    (auto simp: no_panic_pure intro!: no_panic_bind read_raw_no_panic no_panic_pure)

lemma opcode_try_from_not_remove: "opcode_try_from v = Some x \<Longrightarrow> x \<noteq> OpRemovePathAndContents"
  by (auto simp: opcode_try_from_def split: if_splits)

lemma afc_header_read_Ok:
  assumes "afc_header_read d = (Ok h, d')"
  shows "\<exists>t u. dv_socket d = Some t \<and> d' = d\<lparr>dv_socket := Some u\<rparr> \<and> ap_magic h = AFC_MAGIC \<and>
    ap_operation h \<noteq> OpRemovePathAndContents \<and> tp_pending t = afc_header_serialize h @ tp_pending u"
proof -
  from assms obtain b where b: "read_raw 40 d = (Ok b, d')" "opcode_try_from (from_le_bytes (sub 32 8 b)) =
      Some (ap_operation h)" "h = \<lparr>ap_magic = from_le_bytes (sub 0 8 b), ap_entire_len = from_le_bytes (sub 8 8 b),
        ap_header_payload_len = from_le_bytes (sub 16 8 b), ap_packet_num = from_le_bytes (sub 24 8 b),
        ap_operation = ap_operation h\<rparr>" "ap_magic h = AFC_MAGIC"
    by (auto simp: afc_header_read_def act_bind_Ok AFC_LEN_def Let_def split: option.splits if_splits)
  from read_raw_Ok [OF b(1)] obtain t u where
    t: "dv_socket d = Some t" "d' = d\<lparr>dv_socket := Some u\<rparr>" "length b = 40" "tp_pending t = b @ tp_pending u"
    by blast
  have "b = sub 0 8 b @ sub 8 8 b @ sub 16 8 b @ sub 24 8 b @ sub 32 8 b"
  proof -
    have cut: "drop i b = sub i 8 b @ drop (i + 8) b" for i
      by (metis add.commute append_take_drop_id drop_drop sub_def)
    have "drop 40 b = []" using t(3) by simp
    with cut [of 0] cut [of 8] cut [of 16] cut [of 24] cut [of 32] show ?thesis by simp
  qed
  moreover have "opcode_code (ap_operation h) = from_le_bytes (sub 32 8 b)"
    using opcode_code_try_from [OF b(2)] .
  moreover have "ap_magic h = from_le_bytes (sub 0 8 b)" "ap_entire_len h = from_le_bytes (sub 8 8 b)"
    "ap_header_payload_len h = from_le_bytes (sub 16 8 b)" "ap_packet_num h = from_le_bytes (sub 24 8 b)"
    by (subst b(3), simp)+
  ultimately have "afc_header_serialize h = b"
    using t(3) by (simp add: afc_header_serialize_def to_from_le_bytes)
  with t b(4) opcode_try_from_not_remove [OF b(2)] show ?thesis by blast
qed

lemma afc_packet_read_Ok:
  assumes "afc_packet_read d = (Ok p, d')"
  shows "\<exists>t u. dv_socket d = Some t \<and> d' = d\<lparr>dv_socket := Some u\<rparr> \<and> afc_frame p \<and>
    tp_pending t = afc_packet_serialize p @ tp_pending u"
proof -
  from assms obtain h d1 hp d2 where
    h: "afc_header_read d = (Ok h, d1)" and
    lens: "\<not> ap_header_payload_len h < 40" "\<not> ap_entire_len h < ap_header_payload_len h"
      "\<not> ap_entire_len h > 64 * 1024 * 1024" and
    hp: "read_raw (unat (ap_header_payload_len h - 40)) d1 = (Ok hp, d2)" and
    pl: "(if ap_header_payload_len h = ap_entire_len h then act_ok []
        else read_raw (unat (ap_entire_len h - ap_header_payload_len h))) d2 = (Ok (ap_payload p), d')" and
    p: "ap_header p = h" "ap_header_payload p = hp"
    by (auto simp: afc_packet_read_def act_bind_Ok AFC_LEN_def split: if_splits)
  from afc_header_read_Ok [OF h] obtain t t1 where
    t: "dv_socket d = Some t" "d1 = d\<lparr>dv_socket := Some t1\<rparr>" "ap_magic h = AFC_MAGIC"
      "ap_operation h \<noteq> OpRemovePathAndContents" "tp_pending t = afc_header_serialize h @ tp_pending t1" by blast
  from read_raw_Ok [OF hp] t(2) obtain t2 where
    t2: "d2 = d\<lparr>dv_socket := Some t2\<rparr>" "length hp = unat (ap_header_payload_len h - 40)"
      "tp_pending t1 = hp @ tp_pending t2" by auto
  obtain t3 where
    t3: "d' = d\<lparr>dv_socket := Some t3\<rparr>" "length (ap_payload p) = unat (ap_entire_len h - ap_header_payload_len h)"
      "tp_pending t2 = ap_payload p @ tp_pending t3"
  proof (cases "ap_header_payload_len h = ap_entire_len h")
    case True
    with pl t2(1) that [of t2] show thesis by simp
  next
    case False
    with pl have "read_raw (unat (ap_entire_len h - ap_header_payload_len h)) d2 = (Ok (ap_payload p), d')" by simp
    from read_raw_Ok [OF this] t2(1) that show thesis by auto
  qed
  have "(40 :: u64) \<le> ap_header_payload_len h" "ap_header_payload_len h \<le> ap_entire_len h"
    using lens(1,2) by (simp_all only: not_less)
  note le = this [THEN unat_sub] this [unfolded word_le_nat_alt]
  have "unat (ap_entire_len h) \<le> 64 * 1024 * 1024"
    using lens(3) by (simp add: not_less word_le_nat_alt)
  then have "afc_frame p"
    using t(3,4) le t2(2) t3(2) by (simp add: afc_frame_def p)
  moreover have "tp_pending t = afc_packet_serialize p @ tp_pending t3"
    using t(5) t2(3) t3(3) by (simp add: afc_packet_serialize_def p)
  ultimately show ?thesis using t(1) t3(1) by blast
qed

text \<open>
  C22. The packet reader. It never panics; what it takes from the stream, however it arrives, is one
  packet, whose serialization is the bytes consumed, with the magic number and lengths that
  agree and stay within 64 MiB. Such a packet is read unless its operation is
  \<open>RemovePathAndContents\<close>, which the reader does not know.
\<close>

theorem afc_packet_accepts:
  "(case afc_packet_read d of
      (Ok p, d') \<Rightarrow> \<exists>t u. dv_socket d = Some t \<and> d' = d\<lparr>dv_socket := Some u\<rparr> \<and> afc_frame p \<and>
        tp_pending t = afc_packet_serialize p @ tp_pending u
    | (Err e, d') \<Rightarrow>
        \<not> (\<exists>t p rest. dv_socket d = Some t \<and> arrives (afc_packet_serialize p @ rest) t \<and> afc_frame p)
    | (Panic, d') \<Rightarrow> False)"
proof (cases "afc_packet_read d")
  case (Pair r d')
  show ?thesis
  proof (cases r)
    case (Ok p)
    with Pair afc_packet_read_Ok show ?thesis by simp
  next
    case (Err e)
    have "\<not> (dv_socket d = Some t \<and> arrives (afc_packet_serialize p @ rest) t \<and> afc_frame p)" for t p rest
    proof
      assume a: "dv_socket d = Some t \<and> arrives (afc_packet_serialize p @ rest) t \<and> afc_frame p"
      with afc_packet_read_run [of d t p rest] Pair Err show False by auto
    qed
    with Pair Err show ?thesis by auto
  next
    case Panic
    with Pair no_panicD [OF afc_packet_read_no_panic] show ?thesis by blast
  qed
qed

section \<open>Attributes\<close>

lemma split_nul_append: "no_nul s \<Longrightarrow> split_nul (s @ 0 # r) = s # split_nul r"
  by (induction s) (simp_all add: no_nul_def)

lemma split_nul_strings:
  "\<forall>s \<in> set ss. no_nul s \<Longrightarrow> split_nul (concat (map (\<lambda>s. s @ [0]) ss)) = ss @ [[]]"
  by (induction ss) (simp_all add: split_nul_append)

definition kv_text :: "rstring \<Rightarrow> bool" where
  "kv_text s \<longleftrightarrow> s \<noteq> [] \<and> no_nul s \<and> utf8_valid s"

definition kv_bytes :: "(rstring \<times> rstring) list \<Rightarrow> byte list" where
  "kv_bytes kvs = concat (map (\<lambda>(k, v). k @ [0] @ v @ [0]) kvs)"

lemma kv_bytes_strings:
  "kv_bytes kvs = concat (map (\<lambda>s. s @ [0]) (concat (map (\<lambda>(k, v). [k, v]) kvs)))"
  unfolding kv_bytes_def by (induction kvs) auto

lemma nul_strings_text:
  "\<forall>s \<in> set ss. kv_text s \<Longrightarrow> nul_strings (concat (map (\<lambda>s. s @ [0]) ss)) = ss"
proof -
  assume a: "\<forall>s \<in> set ss. kv_text s"
  then have "split_nul (concat (map (\<lambda>s. s @ [0]) ss)) = ss @ [[]]"
    by (intro split_nul_strings) (simp add: kv_text_def)
  moreover have "filter (\<lambda>s. s \<noteq> []) ss = ss" using a by (auto simp: filter_id_conv kv_text_def)
  moreover have "map utf8_lossy ss = ss"
    using a by (auto simp: map_idI kv_text_def utf8_lossy_valid_id)
  ultimately show ?thesis by (simp add: nul_strings_def)
qed

lemma pairs_of_concat: "pairs_of (concat (map (\<lambda>(k, v). [k, v]) kvs)) = kvs"
  by (induction kvs) auto

lemma map_of_rev: "distinct (map fst xs) \<Longrightarrow> map_of (rev xs) = map_of xs"
proof (induction xs)
  case (Cons x xs)
  then have "map_of xs (fst x) = None" by (simp add: map_of_eq_None_iff)
  with Cons show ?case by (auto simp: map_add_def fun_eq_iff split: option.split)
qed simp

lemma parse_kv_bytes:
  assumes "\<forall>(k, v) \<in> set kvs. kv_text k \<and> kv_text v" and "distinct (map fst kvs)"
  shows "parse_kv_payload (kv_bytes kvs) = map_of kvs"
proof -
  have "nul_strings (kv_bytes kvs) = concat (map (\<lambda>(k, v). [k, v]) kvs)"
    unfolding kv_bytes_strings by (rule nul_strings_text) (use assms(1) in auto)
  then show ?thesis
    using assms(2) by (simp add: parse_kv_payload_def pairs_of_concat map_of_rev)
qed

lemma digits_val_append: "digits_val a (xs @ ys) = digits_val (digits_val a xs) ys"
  by (induction xs arbitrary: a) simp_all

lemma show_nat_digits: "list_all is_digit (show_nat n) \<and> show_nat n \<noteq> [] \<and> digits_val 0 (show_nat n) = n"
proof (induction n rule: show_nat.induct)
  case (1 n)
  have d: "is_digit (of_nat (48 + k)) \<and> unat (of_nat (48 + k) :: byte) = 48 + k" if "k < 10" for k
  proof -
    have u: "unat (of_nat (48 + k) :: byte) = 48 + k" using that by (intro unat_of_nat_u8) simp
    then show ?thesis using that unfolding is_digit_def word_le_nat_alt u by simp
  qed
  show ?case
  proof (cases "n < 10")
    case True
    then show ?thesis using d [of n] by (simp add: show_nat.simps [of n] del: of_nat_add)
  next
    case False
    then show ?thesis
      using 1 [OF False] d [of "n mod 10"]
      by (simp add: show_nat.simps [of n] digits_val_append del: of_nat_add)
  qed
qed

lemma show_nat_hd: "\<exists>c r. show_nat n = c # r \<and> c \<noteq> 0x2B \<and> c \<noteq> 0x2D"
  using show_nat_digits [of n] by (cases "show_nat n") (auto simp: is_digit_def)

lemma parse_unsigned_show [simp]: "n < 2 ^ bits \<Longrightarrow> parse_unsigned bits (show_nat n) = Some n"
  using show_nat_hd [of n] show_nat_digits [of n]
  by (auto simp: parse_unsigned_def Let_def)

lemma parse_signed_show [simp]:
  "- (2 ^ (bits - 1)) \<le> i \<Longrightarrow> i < 2 ^ (bits - 1) \<Longrightarrow> parse_signed bits (show_int i) = Some i"
  using show_nat_hd [of "nat i"] show_nat_digits [of "nat i"] show_nat_digits [of "nat (- i)"]
  by (auto simp: parse_signed_def show_int_def Let_def)


text \<open>
  File attributes: from an answer that lists the attributes in any order, among others that are not
  asked for, with all keys and values non-empty text, the numbers in decimal are read into the
  file's information; the target of a link is the standard attribute if there is one. An attribute
  that the device reports empty is lost together with the pairing of all that follows it: the next
  key becomes its value.
\<close>

theorem afc_file_info:
  assumes "afc_conn c (afc_packet_serialize (afc_request OpData [] (kv_bytes kvs) m) @ rest) out n"
    and "\<forall>(k, v) \<in> set kvs. kv_text k \<and> kv_text v" and "distinct (map fst kvs)"
    and "length (kv_bytes kvs) < 2 ^ 20"
    and "map_of kvs (rstr ''st_size'') = Some (show_nat sz)" and "sz < 2 ^ 64"
    and "map_of kvs (rstr ''st_blocks'') = Some (show_nat blocks)" and "blocks < 2 ^ 64"
    and "map_of kvs (rstr ''st_birthtime'') = Some (show_int creation)"
    and "- (2 ^ 63) \<le> creation" and "creation < 2 ^ 63"
    and "map_of kvs (rstr ''st_mtime'') = Some (show_int modified)"
    and "- (2 ^ 63) \<le> modified" and "modified < 2 ^ 63"
    and "map_of kvs (rstr ''st_nlink'') = Some nlink" and "map_of kvs (rstr ''st_ifmt'') = Some ifmt"
    and "kv_text k1" and "kv_text k2" and "kv_text v"
  shows "\<exists>c'. get_file_info path c =
      (Ok \<lparr>fi_size = sz, fi_blocks = blocks, fi_creation = creation, fi_modified = modified,
           fi_nlink = nlink, fi_ifmt = ifmt,
           fi_link_target = (case map_of kvs (rstr ''LinkTarget'') of
             Some t \<Rightarrow> Some t | None \<Rightarrow> map_of kvs (rstr ''st_link_target''))\<rparr>, c') \<and>
    afc_conn c' rest (out @ afc_req n (OpGetFileInfo, path, [])) (n + 1) \<and>
    parse_kv_payload (kv_bytes [(k1, []), (k2, v)]) k1 = Some k2"
proof -
  let ?p = "afc_request OpData [] (kv_bytes kvs) m"
  have "afc_wf ?p" by (rule afc_wf_request) (use assms(4) in simp_all)
  from afc.exchange [OF assms(1) this, of "(OpGetFileInfo, path, [])"] obtain c' where
    c': "send_op OpGetFileInfo path [] c = (Ok ?p, c')"
      "afc_conn c' rest (out @ afc_req n (OpGetFileInfo, path, [])) (n + 1)"
    by (auto simp: afc_meaning_def afc_request_def Let_def)
  have kv: "parse_kv_payload (ap_payload ?p) = map_of kvs"
    using parse_kv_bytes [OF assms(2,3)] by (simp add: afc_request_def Let_def)
  have b: "(64 :: nat) - 1 = 63" by simp
  have i: "parse_signed 64 (show_int creation) = Some creation"
    "parse_signed 64 (show_int modified) = Some modified"
    by (rule parse_signed_show; simp only: b assms)+
  have "file_info_of (map_of kvs) = Ok \<lparr>fi_size = sz, fi_blocks = blocks, fi_creation = creation,
      fi_modified = modified, fi_nlink = nlink, fi_ifmt = ifmt,
      fi_link_target = (case map_of kvs (rstr ''LinkTarget'') of
        Some t \<Rightarrow> Some t | None \<Rightarrow> map_of kvs (rstr ''st_link_target''))\<rparr>"
    unfolding file_info_of_def kv_usize_def kv_i64_def kv_string_def assms bind.simps i
      parse_unsigned_show [OF assms(6)] parse_unsigned_show [OF assms(8)] ok_or_simps rbind.simps ..
  then have "get_file_info path c = (Ok \<lparr>fi_size = sz, fi_blocks = blocks, fi_creation = creation,
      fi_modified = modified, fi_nlink = nlink, fi_ifmt = ifmt,
      fi_link_target = (case map_of kvs (rstr ''LinkTarget'') of
        Some t \<Rightarrow> Some t | None \<Rightarrow> map_of kvs (rstr ''st_link_target''))\<rparr>, c')"
    using c'(1) kv by (simp add: get_file_info_def get_file_info_raw_def)
  moreover have "parse_kv_payload (kv_bytes [(k1, []), (k2, v)]) k1 = Some k2"
  proof -
    have t: "no_nul k1" "no_nul k2" "no_nul v" "k1 \<noteq> []" "k2 \<noteq> []" "v \<noteq> []"
      "utf8_lossy k1 = k1" "utf8_lossy k2 = k2"
      using assms(17-19) by (simp_all add: kv_text_def utf8_lossy_valid_id)
    have "split_nul (kv_bytes [(k1, []), (k2, v)]) = [k1, [], k2, v, []]"
      using t(1-3) by (simp add: kv_bytes_def split_nul_append)
    then show ?thesis
      using t by (simp add: parse_kv_payload_def nul_strings_def)
  qed
  ultimately show ?thesis using c'(2) by blast
qed

definition sample_kvs :: "(rstring \<times> rstring) list" where
  "sample_kvs = [(rstr ''st_size'', rstr ''61''), (rstr ''st_blocks'', rstr ''0''),
     (rstr ''st_birthtime'', rstr ''17''), (rstr ''st_mtime'', rstr ''-18''),
     (rstr ''st_nlink'', rstr ''1''), (rstr ''st_ifmt'', rstr ''S_IFREG'')]"

theorem afc_file_info_witness:
  "\<exists>c'. get_file_info (rstr ''/a'') (afc_new (idevice_new \<lparr>tp_in = [afc_packet_serialize
      (afc_request OpData [] (kv_bytes sample_kvs) 0)], tp_out = [], tp_budget = None\<rparr> []) []) =
    (Ok \<lparr>fi_size = 61, fi_blocks = 0, fi_creation = 17, fi_modified = - 18, fi_nlink = rstr ''1'',
         fi_ifmt = rstr ''S_IFREG'', fi_link_target = None\<rparr>, c')"
proof -
  let ?p = "afc_request OpData [] (kv_bytes sample_kvs) 0"
  have l: "map_of sample_kvs (rstr ''LinkTarget'') = None" "map_of sample_kvs (rstr ''st_link_target'') = None"
    by code_simp+
  have "\<exists>c'. get_file_info (rstr ''/a'') (afc_new (idevice_new \<lparr>tp_in = [afc_packet_serialize ?p],
      tp_out = [], tp_budget = None\<rparr> []) []) =
      (Ok \<lparr>fi_size = 61, fi_blocks = 0, fi_creation = 17, fi_modified = - 18, fi_nlink = rstr ''1'',
         fi_ifmt = rstr ''S_IFREG'', fi_link_target = (case map_of sample_kvs (rstr ''LinkTarget'') of
             Some t \<Rightarrow> Some t | None \<Rightarrow> map_of sample_kvs (rstr ''st_link_target''))\<rparr>, c') \<and>
      afc_conn c' [] ([] @ afc_req 0 (OpGetFileInfo, rstr ''/a'', [])) (0 + 1) \<and>
      parse_kv_payload (kv_bytes [([65], []), ([66], [67])]) [65] = Some [66]"
  proof (rule afc_file_info [where m = 0], goal_cases)
    case 1
    show ?case by (simp add: afc_conn_new)
  next
    case 4
    show ?case by (simp add: kv_bytes_def sample_kvs_def)
  next
    case 6 show ?case by simp
  next
    case 8 show ?case by simp
  next
    case 10 show ?case by simp
  next
    case 11 show ?case by simp
  next
    case 13 show ?case by simp
  next
    case 14 show ?case by simp
  qed code_simp+
  then show ?thesis unfolding l by auto
qed

end
