(* ===== verification/Afc_File.thy ===== *)
theory Afc_File
  imports Afc
begin

text \<open>
  services/afc/inner\_file.rs (and file.rs, which forwards to it): open files. A file is its client,
  descriptor and path, the stored future of its asynchronous interface, and whether it was
  closed. A stored future that is polled and does not finish has no visible effect until it does; what it
  sent is lost with it when \<open>start_seek\<close> replaces it, which is not modelled.
\<close>

section \<open>Operations\<close>

definition MAX_TRANSFER :: nat where
  "MAX_TRANSFER = 1024 * 1024"

datatype seek_from = SeekStart u64 | SeekCurrent i64 | SeekEnd i64

datatype pending = PendRead nat | PendWrite "byte list" | PendSeek seek_from | PendDone

record afc_file =
  fl_client :: afc_client
  fl_fd :: u64
  fl_path :: rstring
  fl_pending :: "pending option"
  fl_dropped :: bool

definition file_new :: "afc_client \<Rightarrow> u64 \<Rightarrow> rstring \<Rightarrow> afc_file" where
  "file_new client fd path =
    \<lparr>fl_client = client, fl_fd = fd, fl_path = path, fl_pending = None, fl_dropped = False\<rparr>"

definition on_client :: "(afc_client, 'a) act \<Rightarrow> (afc_file, 'a) act" where
  "on_client m f = (case m (fl_client f) of (r, c) \<Rightarrow> (r, f\<lparr>fl_client := c\<rparr>))"

definition send_file_op :: "afc_opcode \<Rightarrow> byte list \<Rightarrow> byte list \<Rightarrow> (afc_file, afc_packet) act" where
  "send_file_op opcode header_payload payload f =
    on_client (send_op opcode (to_le_bytes (fl_fd f) @ header_payload) payload) f"

definition seek_tell :: "(afc_file, u64) act" where
  "seek_tell =
    act_bind (send_file_op OpFileTell [] []) (\<lambda>res.
      if length (ap_header_payload res) < 8
      then act_err (UnexpectedResponse ''AFC FileTell response missing position bytes'')
      else act_ok (from_le_bytes (take 8 (ap_header_payload res))))"

definition file_seek :: "seek_from \<Rightarrow> (afc_file, u64) act" where
  "file_seek pos =
    (let (offset, whence) = (case pos of SeekStart off \<Rightarrow> (off, 0) | SeekCurrent off \<Rightarrow> (off, 1)
           | SeekEnd off \<Rightarrow> (off, 2))
     in act_bind (send_file_op OpFileSeek (to_le_bytes (whence :: u64) @ to_le_bytes offset) []) (\<lambda>_.
        seek_tell))"

text \<open>\<open>(0..n).step_by(chunk_size).map(|i| (n - i).min(chunk_size))\<close>\<close>

definition chunk_number :: "nat \<Rightarrow> nat \<Rightarrow> nat list" where
  "chunk_number n chunk_size =
    map (\<lambda>k. min (n - k * chunk_size) chunk_size) [0 ..< (n + chunk_size - 1) div chunk_size]"

primrec read_chunks :: "nat list \<Rightarrow> (afc_file, byte list) act" where
  "read_chunks [] = act_ok []"
| "read_chunks (chunk # cs) =
    act_bind (send_file_op OpRead (to_le_bytes (of_nat chunk :: u64)) []) (\<lambda>res.
      if ap_payload res = [] then act_ok []
      else act_bind (read_chunks cs) (\<lambda>bytes. act_ok (ap_payload res @ bytes)))"

definition read_n :: "nat \<Rightarrow> (afc_file, byte list) act" where
  "read_n n = read_chunks (chunk_number n MAX_TRANSFER)"

function read_rest :: "nat \<Rightarrow> (afc_file, byte list) act" where
  "read_rest bytes_left f =
    (if 0 < bytes_left
     then act_bind (read_n (min bytes_left MAX_TRANSFER)) (\<lambda>bytes g.
       if bytes = [] then (Ok [], g)
       else act_bind (\<lambda>h. read_rest (bytes_left - length bytes) h) (\<lambda>rest. act_ok (bytes @ rest)) g) f
     else (Ok [], f))"
  by pat_completeness auto
termination read_rest
  by (relation "measure fst") auto

declare read_rest.simps [simp del]

definition read_entire :: "(afc_file, byte list) act" where
  "read_entire =
    act_bind seek_tell (\<lambda>seek_pos.
    act_bind (\<lambda>f. on_client (get_file_info (fl_path f)) f) (\<lambda>file_info.
      read_rest (fi_size file_info - unat seek_pos)))"

primrec write_chunks :: "byte list list \<Rightarrow> (afc_file, unit) act" where
  "write_chunks [] = act_ok ()"
| "write_chunks (chunk # cs) = act_bind (send_file_op OpWrite [] chunk) (\<lambda>_. write_chunks cs)"

definition write_entire :: "byte list \<Rightarrow> (afc_file, unit) act" where
  "write_entire bytes = write_chunks (chunks MAX_TRANSFER bytes)"

definition file_lock :: "afc_lock_op \<Rightarrow> (afc_file, unit) act" where
  "file_lock op = act_bind (send_file_op OpFileLock (to_le_bytes (lock_op_code op)) []) (\<lambda>_. act_ok ())"

definition set_size :: "u64 \<Rightarrow> (afc_file, unit) act" where
  "set_size n = act_bind (send_file_op OpFileSetSize (to_le_bytes n) []) (\<lambda>_. act_ok ())"

definition file_close :: "(afc_file, unit) act" where
  "file_close =
    act_bind (send_file_op OpFileClose [] []) (\<lambda>_. act_upd (\<lambda>f. f\<lparr>fl_dropped := True\<rparr>))"

section \<open>The asynchronous interface\<close>

text \<open>
  \<open>ready\<close> says whether the stored future finishes in this poll. A future that has finished panics when it is
  polled again (\<open>PendDone\<close>); it is removed after a success only. A future of another kind ends
  in \<open>unreachable!\<close>. \<open>put_slice\<close> panics when the buffer has no room for the bytes.
\<close>

datatype pending_result = PrEmpty | PrSeekPos u64 | PrBytes "byte list"

datatype 'a poll = PollPending | Ready 'a

definition run_pending :: "pending \<Rightarrow> (afc_file, pending_result) act" where
  "run_pending p =
    (case p of
       PendRead n \<Rightarrow> act_bind (read_n n) (\<lambda>b. act_ok (PrBytes b))
     | PendWrite b \<Rightarrow> act_bind (write_entire b) (\<lambda>_. act_ok PrEmpty)
     | PendSeek pos \<Rightarrow> act_bind (file_seek pos) (\<lambda>w. act_ok (PrSeekPos w))
     | PendDone \<Rightarrow> act_res Panic)"

definition poll_stored :: "bool \<Rightarrow> pending \<Rightarrow> (pending_result \<Rightarrow> ('a poll, idevice_error) res) \<Rightarrow>
    (afc_file, 'a poll) act" where
  "poll_stored ready p k f =
    (if p = PendDone then (Panic, f)
     else if \<not> ready then (Ok PollPending, f)
     else (case run_pending p f of
             (Ok v, g) \<Rightarrow> (k v, g\<lparr>fl_pending := None\<rparr>)
           | (Err e, g) \<Rightarrow> (Err (Socket OtherIo), g\<lparr>fl_pending := Some PendDone\<rparr>)
           | (Panic, g) \<Rightarrow> (Panic, g)))"

definition stored_or :: "pending \<Rightarrow> afc_file \<Rightarrow> pending" where
  "stored_or p f = (case fl_pending f of None \<Rightarrow> p | Some q \<Rightarrow> q)"

definition poll_read :: "bool \<Rightarrow> nat \<Rightarrow> (afc_file, byte list poll) act" where
  "poll_read ready buf_rem f =
    (let p = stored_or (PendRead buf_rem) f
     in poll_stored ready p (\<lambda>v.
          case v of PrBytes c \<Rightarrow> if length c \<le> buf_rem then Ok (Ready c) else Panic | _ \<Rightarrow> Panic)
          (f\<lparr>fl_pending := Some p\<rparr>))"

definition poll_write :: "bool \<Rightarrow> byte list \<Rightarrow> (afc_file, nat poll) act" where
  "poll_write ready buf f =
    (let p = stored_or (PendWrite buf) f
     in poll_stored ready p (\<lambda>v. case v of PrEmpty \<Rightarrow> Ok (Ready (length buf)) | _ \<Rightarrow> Panic)
          (f\<lparr>fl_pending := Some p\<rparr>))"

definition start_seek :: "seek_from \<Rightarrow> (afc_file, unit) act" where
  "start_seek position = act_upd (\<lambda>f. f\<lparr>fl_pending := Some (PendSeek position)\<rparr>)"

definition poll_complete :: "bool \<Rightarrow> (afc_file, u64 poll) act" where
  "poll_complete ready f =
    (case fl_pending f of
       None \<Rightarrow> (Ok (Ready 0), f)
     | Some p \<Rightarrow> poll_stored ready p (\<lambda>v. case v of PrSeekPos w \<Rightarrow> Ok (Ready w) | _ \<Rightarrow> Panic) f)"

section \<open>Files as sessions\<close>

definition file_conn :: "u64 \<Rightarrow> afc_file \<Rightarrow> byte list \<Rightarrow> byte list \<Rightarrow> u64 \<Rightarrow> bool" where
  "file_conn fd f inp out n \<longleftrightarrow> fl_fd f = fd \<and> afc_conn (fl_client f) inp out n"

definition file_req :: "u64 \<Rightarrow> u64 \<Rightarrow> afc_opcode \<times> byte list \<times> byte list \<Rightarrow> byte list" where
  "file_req fd n q = (case q of (opcode, hp, pl) \<Rightarrow> afc_req n (opcode, to_le_bytes fd @ hp, pl))"

interpretation afile: exchange_client "file_conn fd" "\<lambda>(opcode, hp, pl). send_file_op opcode hp pl"
    "file_req fd" afc_packet_serialize afc_wf afc_meaning for fd
proof
  fix s p rest out n and q :: "afc_opcode \<times> byte list \<times> byte list"
  assume a: "file_conn fd s (afc_packet_serialize p @ rest) out n" "afc_wf p"
  obtain opcode hp pl where q: "q = (opcode, hp, pl)" by (cases q)
  have c: "afc_conn (fl_client s) (afc_packet_serialize p @ rest) out n" "fl_fd s = fd"
    using a(1) by (simp_all add: file_conn_def)
  from afc.exchange [OF c(1) a(2), of "(opcode, to_le_bytes fd @ hp, pl)"] obtain c' where
    "send_op opcode (to_le_bytes fd @ hp) pl (fl_client s) = (afc_meaning p, c')"
    "afc_conn c' rest (out @ file_req fd n q) (n + 1)" by (auto simp: q file_req_def)
  then have "(case q of (opcode, hp, pl) \<Rightarrow> send_file_op opcode hp pl) s = (afc_meaning p, s\<lparr>fl_client := c'\<rparr>) \<and>
      file_conn fd (s\<lparr>fl_client := c'\<rparr>) rest (out @ file_req fd n q) (n + 1)"
    by (simp add: q send_file_op_def on_client_def file_conn_def c(2))
  then show "\<exists>s'. (case q of (opcode, hp, pl) \<Rightarrow> send_file_op opcode hp pl) s = (afc_meaning p, s') \<and>
      file_conn fd s' rest (out @ file_req fd n q) (n + 1)" by blast
qed (rule afc.meaning_Ok)

abbreviation file_exch :: "afc_opcode \<times> byte list \<times> byte list \<Rightarrow> (afc_file, afc_packet) act" where
  "file_exch q \<equiv> (case q of (opcode, hp, pl) \<Rightarrow> send_file_op opcode hp pl)"

definition read_op :: "nat \<Rightarrow> afc_opcode \<times> byte list \<times> byte list" where
  "read_op k = (OpRead, to_le_bytes (of_nat k :: u64), [])"

definition write_op :: "byte list \<Rightarrow> afc_opcode \<times> byte list \<times> byte list" where
  "write_op b = (OpWrite, [], b)"

lemma read_chunks_exch:
  "read_chunks cs f =
    act_bind (exch_while file_exch (\<lambda>p. ap_payload p = []) (map read_op cs))
      (\<lambda>ps. act_ok (concat (map ap_payload ps))) f"
proof (induction cs arbitrary: f)
  case (Cons c cs)
  then show ?case
    by (simp add: read_op_def act_bind_def split: prod.split res.split)
qed simp

lemma write_chunks_exch:
  "write_chunks cs f =
    act_bind (exch_while file_exch (\<lambda>_. False) (map write_op cs)) (\<lambda>_. act_ok ()) f"
proof (induction cs arbitrary: f)
  case (Cons c cs)
  then show ?case
    by (simp add: write_op_def act_bind_def split: prod.split res.split)
qed simp

lemma chunk_number_nth:
  "k < length (chunk_number n c) \<Longrightarrow> 0 < c \<Longrightarrow> chunk_number n c ! k = min (n - k * c) c \<and> k * c < n"
proof -
  assume k: "k < length (chunk_number n c)" and c: "0 < c"
  then have "Suc k \<le> (n + c - 1) div c" by (simp add: chunk_number_def)
  then have "Suc k * c \<le> n + c - 1" using c by (simp add: less_eq_div_iff_mult_less_eq)
  then have "k * c < n" using c by simp
  with k show ?thesis by (simp add: chunk_number_def)
qed

lemma sum_chunk_number_aux:
  "m * c \<le> n + c - 1 \<Longrightarrow> 0 < c \<Longrightarrow> sum_list (map (\<lambda>k. min (n - k * c) c) [0..<m]) = min n (m * c)"
  by (induction m) (auto simp: min_def)

lemma chunk_number_sum: "0 < c \<Longrightarrow> sum_list (chunk_number n c) = n"
proof -
  assume c: "0 < c"
  let ?m = "(n + c - 1) div c"
  have "?m * c \<le> n + c - 1" by simp
  from sum_chunk_number_aux [OF this c] have "sum_list (chunk_number n c) = min n (?m * c)"
    by (simp add: chunk_number_def)
  moreover have "n \<le> ?m * c"
  proof -
    have "n + c - 1 = ?m * c + (n + c - 1) mod c" by simp
    moreover have "(n + c - 1) mod c < c" using c by simp
    ultimately show ?thesis using c by linarith
  qed
  ultimately show ?thesis by simp
qed

section \<open>Properties\<close>

text \<open>
  C27. Reading a file: the answers are taken in order up to the first empty one, one request for each,
  numbered in sequence, none above the transfer limit and together asking for the number of bytes wanted;
  what is returned is the bytes of the answers.
\<close>

theorem afc_read_n:
  assumes "file_conn fd f (concat (map afc_packet_serialize ps) @ tail @ rest) out n"
    and "\<forall>p \<in> set ps. afc_wf p \<and> is_ok (afc_meaning p) \<and> ap_payload p \<noteq> []"
    and "length ps \<le> length (chunk_number k MAX_TRANSFER)"
    and "if length ps = length (chunk_number k MAX_TRANSFER) then tail = []
      else tail = afc_packet_serialize e \<and> afc_wf e \<and> is_ok (afc_meaning e) \<and> ap_payload e = []"
  shows "\<exists>f' m. read_n k f = (Ok (concat (map ap_payload ps)), f') \<and>
    file_conn fd f' rest (out @ numbered (file_req fd) n
      (map read_op (take (Suc (length ps)) (chunk_number k MAX_TRANSFER)))) m \<and>
    sum_list (chunk_number k MAX_TRANSFER) = k \<and>
    (\<forall>c \<in> set (chunk_number k MAX_TRANSFER). 0 < c \<and> c \<le> MAX_TRANSFER)"
proof -
  let ?cs = "chunk_number k MAX_TRANSFER"
  have m: "0 < MAX_TRANSFER" by (simp add: MAX_TRANSFER_def)
  have c: "sum_list ?cs = k" "\<forall>c \<in> set ?cs. 0 < c \<and> c \<le> MAX_TRANSFER"
    using chunk_number_sum [OF m] chunk_number_nth [OF _ m] m by (auto simp: in_set_conv_nth)
  show ?thesis
  proof (cases "length ps = length ?cs")
    case True
    have "file_conn fd f (concat (map afc_packet_serialize ps) @ rest) out n"
      using assms(1,4) True by simp
    from afile.exch_while_all [OF this, of "map read_op ?cs" "\<lambda>p. ap_payload p = []"] True assms(2)
    obtain s where "exch_while file_exch (\<lambda>p. ap_payload p = []) (map read_op ?cs) f = (Ok ps, s)"
      "file_conn fd s rest (out @ numbered (file_req fd) n (map read_op ?cs)) (n + of_nat (length ?cs))" by auto
    then show ?thesis using c True by (auto simp: read_n_def read_chunks_exch)
  next
    case False
    with assms(3,4) have e: "length ps < length (map read_op ?cs)" "tail = afc_packet_serialize e"
      "afc_wf e" "is_ok (afc_meaning e)" "ap_payload e = []" by auto
    from afile.exch_while_stops [OF _ e(1) _ e(3), of fd f rest out n "\<lambda>p. ap_payload p = []"] assms(1,2) e
    obtain s where "file_conn fd s rest
        (out @ numbered (file_req fd) n (map read_op (take (Suc (length ps)) ?cs))) (n + 1 + of_nat (length ps))"
      "exch_while file_exch (\<lambda>p. ap_payload p = []) (map read_op ?cs) f = (Ok ps, s)"
      by (auto simp: take_map is_ok_def split: res.splits)
    then show ?thesis using c by (auto simp: read_n_def read_chunks_exch)
  qed
qed

text \<open>
  C26. Writing to a file: the bytes go out in order, one request for each piece of at most the transfer
  limit, each after the previous one was acknowledged. When the device refuses a piece, its error is
  returned and nothing more is sent.
\<close>

theorem afc_write:
  assumes "file_conn fd f (concat (map afc_packet_serialize ps) @ tail @ rest) out n"
    and "\<forall>p \<in> set ps. afc_wf p \<and> is_ok (afc_meaning p)"
    and "length ps \<le> length (chunks MAX_TRANSFER bytes)"
    and "if length ps = length (chunks MAX_TRANSFER bytes) then tail = []
      else tail = afc_packet_serialize e \<and> afc_wf e \<and> afc_meaning e = Err x"
  shows "\<exists>f' m. write_entire bytes f =
      (if length ps = length (chunks MAX_TRANSFER bytes) then Ok () else Err x, f') \<and>
    file_conn fd f' rest (out @ numbered (file_req fd) n
      (map write_op (take (Suc (length ps)) (chunks MAX_TRANSFER bytes)))) m \<and>
    concat (chunks MAX_TRANSFER bytes) = bytes"
proof -
  let ?cs = "chunks MAX_TRANSFER bytes"
  have c: "concat ?cs = bytes" by (simp add: MAX_TRANSFER_def)
  show ?thesis
  proof (cases "length ps = length ?cs")
    case True
    have "file_conn fd f (concat (map afc_packet_serialize ps) @ rest) out n"
      using assms(1,4) True by simp
    from afile.exch_while_all [OF this, of "map write_op ?cs" "\<lambda>_. False"] True assms(2)
    obtain s where "exch_while file_exch (\<lambda>_. False) (map write_op ?cs) f = (Ok ps, s)"
      "file_conn fd s rest (out @ numbered (file_req fd) n (map write_op ?cs)) (n + of_nat (length ?cs))" by auto
    then show ?thesis using c True by (auto simp: write_entire_def write_chunks_exch)
  next
    case False
    with assms(3,4) have e: "length ps < length (map write_op ?cs)" "tail = afc_packet_serialize e"
      "afc_wf e" "afc_meaning e = Err x" by auto
    from afile.exch_while_stops [OF _ e(1) _ e(3), of fd f rest out n "\<lambda>_. False"] assms(1,2) e
    obtain s where "file_conn fd s rest
        (out @ numbered (file_req fd) n (map write_op (take (Suc (length ps)) ?cs))) (n + 1 + of_nat (length ps))"
      "exch_while file_exch (\<lambda>_. False) (map write_op ?cs) f = (Err x, s)"
      by (auto simp: take_map)
    then show ?thesis using c False by (auto simp: write_entire_def write_chunks_exch act_bind_def)
  qed
qed

theorem afc_read_n_witness:
  "\<exists>f'. read_n 2 (file_new (afc_new (idevice_new \<lparr>tp_in = [afc_packet_serialize
      (afc_request OpData [] [7, 8] 0)], tp_out = [], tp_budget = None\<rparr> []) []) 3 []) = (Ok [7, 8], f')"
proof -
  let ?p = "afc_request OpData [] [7, 8] 0"
  have cs: "chunk_number 2 MAX_TRANSFER = [2]" by (simp add: chunk_number_def MAX_TRANSFER_def)
  have "file_conn 3 (file_new (afc_new (idevice_new \<lparr>tp_in = [afc_packet_serialize ?p], tp_out = [],
      tp_budget = None\<rparr> []) []) 3 []) (concat (map afc_packet_serialize [?p]) @ [] @ []) [] 0"
    by (simp add: file_conn_def file_new_def afc_conn_new)
  moreover have "\<forall>p \<in> set [?p]. afc_wf p \<and> is_ok (afc_meaning p) \<and> ap_payload p \<noteq> []"
    by (simp add: afc_wf_request) (simp add: afc_meaning_def afc_request_def Let_def)
  ultimately show ?thesis
    using afc_read_n [of 3 _ "[?p]" "[]" "[]" "[]" 0 2] by (fastforce simp: cs afc_request_def Let_def)
qed

theorem afc_write_witness:
  "\<exists>f'. write_entire [5] (file_new (afc_new (idevice_new \<lparr>tp_in = [afc_packet_serialize
      (afc_request OpStatus (to_le_bytes (18 :: u64)) [] 0)], tp_out = [], tp_budget = None\<rparr> []) []) 3 []) =
    (Err (Afc AfcNoSpaceLeft), f')"
proof -
  let ?p = "afc_request OpStatus (to_le_bytes (18 :: u64)) [] 0"
  have cs: "chunks MAX_TRANSFER [5] = [[5 :: byte]]" by (simp add: chunks.simps MAX_TRANSFER_def)
  have "file_conn 3 (file_new (afc_new (idevice_new \<lparr>tp_in = [afc_packet_serialize ?p], tp_out = [],
      tp_budget = None\<rparr> []) []) 3 []) (concat (map afc_packet_serialize []) @ afc_packet_serialize ?p @ []) [] 0"
    by (simp add: file_conn_def file_new_def afc_conn_new)
  moreover have "afc_wf ?p" by (simp add: afc_wf_request)
  moreover have "afc_meaning ?p = Err (Afc AfcNoSpaceLeft)"
    by (simp add: afc_meaning_def afc_request_def Let_def afc_error_from_def)
  ultimately show ?thesis
    using afc_write [of 3 _ "[]" "afc_packet_serialize ?p" "[]" "[]" 0 "[5]" ?p "Afc AfcNoSpaceLeft"]
    by (fastforce simp: cs)
qed

text \<open>
  The asynchronous interface after a failure: a read that failed leaves its finished future in place, and
  the next poll of any kind panics, whatever it asks for. Only \<open>start_seek\<close> replaces the future.
\<close>

theorem afc_poll_after_error:
  assumes "poll_read ready n f = (Err e, g)" and "fl_pending f \<noteq> Some PendDone"
  shows "fst (poll_read r m g) = Panic \<and> fst (poll_write r b g) = Panic \<and> fst (poll_complete r g) = Panic \<and>
    e = Socket OtherIo"
proof -
  have "fl_pending g = Some PendDone \<and> e = Socket OtherIo"
    using assms
    by (auto simp: poll_read_def poll_stored_def Let_def split: if_splits prod.splits res.splits
        pending_result.splits)
  then show ?thesis
    by (simp add: poll_read_def poll_write_def poll_complete_def poll_stored_def stored_or_def Let_def)
qed

theorem afc_poll_after_error_witness:
  "\<exists>g. poll_read True 3 (file_new (afc_new (invalidate_socket (idevice_new
      \<lparr>tp_in = [], tp_out = [], tp_budget = None\<rparr> [])) []) 1 []) = (Err (Socket OtherIo), g) \<and>
    fst (poll_write False [1] g) = Panic"
proof -
  let ?f = "file_new (afc_new (invalidate_socket (idevice_new
      \<lparr>tp_in = [], tp_out = [], tp_budget = None\<rparr> [])) []) 1 []"
  have "chunk_number 3 MAX_TRANSFER = [3]" by (simp add: chunk_number_def MAX_TRANSFER_def)
  then obtain g where g: "poll_read True 3 ?f = (Err (Socket OtherIo), g)"
    by (auto simp: poll_read_def poll_stored_def stored_or_def run_pending_def read_n_def file_new_def
        send_file_op_def on_client_def send_op_def afc_send_def timed_def afc_new_def act_bind_def
        send_raw_def send_raw_with_progress_def invalidate_socket_def idevice_new_def Let_def)
  from afc_poll_after_error [OF this, of False 0 "[1]"] show ?thesis
    using g by (simp add: file_new_def)
qed

end
