(* ===== verification/Rtp.thy ===== *)
theory Rtp
  imports Prelude
begin

text \<open>
  services/core\_device/display\_stream/rtp.rs and rtcp.rs: the media packets (RFC 3550) and the control
  packets (RFC 3550, 4585, 5104) of the display stream. Nothing here fails but by \<open>None\<close>.
\<close>

section \<open>RTP\<close>

record rtp_packet =
  rt_version :: byte
  rt_padding :: bool
  rt_extension :: bool
  rt_marker :: bool
  rt_payload_type :: byte
  rt_sequence_number :: u16
  rt_timestamp :: u32
  rt_ssrc :: u32
  rt_csrc :: "u32 list"
  rt_ext_profile :: u16
  rt_ext_data :: "byte list"
  rt_payload :: "byte list"

primrec read_csrc :: "nat \<Rightarrow> nat \<Rightarrow> byte list \<Rightarrow> (u32 list \<times> nat) option" where
  "read_csrc 0 off buf = Some ([], off)"
| "read_csrc (Suc n) off buf =
    Option.bind (get_range off (off + 4) buf) (\<lambda>w.
    Option.bind (read_csrc n (off + 4) buf) (\<lambda>(cs, off'). Some (from_be_bytes w # cs, off')))"

definition read_extension :: "bool \<Rightarrow> nat \<Rightarrow> byte list \<Rightarrow> (u16 \<times> byte list \<times> nat) option" where
  "read_extension extension off buf =
    (if extension
     then Option.bind (get_range off (off + 4) buf) (\<lambda>hdr.
          let ext_len = unat (from_be_bytes (sub 2 2 hdr) :: u16) * 4
          in Option.bind (get_range (off + 4) (off + 4 + ext_len) buf) (\<lambda>data.
             Some (from_be_bytes (sub 0 2 hdr), data, off + 4 + ext_len)))
     else Some (0, [], off))"

definition strip_padding :: "bool \<Rightarrow> nat \<Rightarrow> byte list \<Rightarrow> nat option" where
  "strip_padding padding off buf =
    (if padding
     then (if buf = [] then None
           else let pad = unat (last buf)
                in if pad = 0 \<or> pad > length buf - off then None else Some (length buf - pad))
     else Some (length buf))"

definition rtp_parse :: "byte list \<Rightarrow> rtp_packet option" where
  "rtp_parse buf =
    (if length buf < 12 then None
     else
       let b0 = buf ! 0; version = drop_bit 6 b0; b1 = buf ! 1;
           padding = (b0 AND 0x20 \<noteq> 0); extension = (b0 AND 0x10 \<noteq> 0)
       in if version \<noteq> 2 then None
          else
            Option.bind (read_csrc (unat (b0 AND 0x0f)) 12 buf) (\<lambda>(csrc, off).
            Option.bind (read_extension extension off buf) (\<lambda>(ext_profile, ext_data, off).
            Option.bind (strip_padding padding off buf) (\<lambda>end'.
            Option.bind (get_range off end' buf) (\<lambda>payload.
              Some \<lparr>rt_version = version, rt_padding = padding, rt_extension = extension,
                   rt_marker = (b1 AND 0x80 \<noteq> 0), rt_payload_type = b1 AND 0x7f,
                   rt_sequence_number = from_be_bytes (sub 2 2 buf),
                   rt_timestamp = from_be_bytes (sub 4 4 buf), rt_ssrc = from_be_bytes (sub 8 4 buf),
                   rt_csrc = csrc, rt_ext_profile = ext_profile, rt_ext_data = ext_data,
                   rt_payload = payload\<rparr>)))))"

section \<open>RTCP\<close>

definition PT_SENDER_REPORT :: byte where "PT_SENDER_REPORT = 200"
definition PT_RECEIVER_REPORT :: byte where "PT_RECEIVER_REPORT = 201"
definition PT_SDES :: byte where "PT_SDES = 202"
definition PT_APP :: byte where "PT_APP = 204"
definition PT_PSFB :: byte where "PT_PSFB = 206"
definition FMT_PLI :: byte where "FMT_PLI = 1"
definition FMT_FIR :: byte where "FMT_FIR = 4"

definition is_rtcp :: "byte list \<Rightarrow> bool" where
  "is_rtcp buf \<longleftrightarrow> 2 \<le> length buf \<and> PT_SENDER_REPORT \<le> buf ! 1 \<and> buf ! 1 \<le> PT_PSFB"

record sender_report =
  sr_ssrc :: u32
  sr_ntp_middle :: u32

function parse_from :: "nat \<Rightarrow> byte list \<Rightarrow> sender_report option" where
  "parse_from off buf =
    (if off + 4 \<le> length buf then
       let pt = buf ! (off + 1);
           len_words = unat (from_be_bytes (sub (off + 2) 2 buf) :: u16);
           pkt_len = (len_words + 1) * 4
       in if pkt_len = 0 \<or> off + pkt_len > length buf then None
          else if pt = PT_SENDER_REPORT \<and> 16 \<le> pkt_len then
            let ntp_msw = from_be_bytes (sub (off + 8) 4 buf) :: u32;
                ntp_lsw = from_be_bytes (sub (off + 12) 4 buf) :: u32
            in Some \<lparr>sr_ssrc = from_be_bytes (sub (off + 4) 4 buf),
                     sr_ntp_middle = push_bit 16 ntp_msw OR drop_bit 16 ntp_lsw\<rparr>
          else parse_from (off + pkt_len) buf
     else None)"
  by pat_completeness auto
termination parse_from
  by (relation "measure (\<lambda>(off, buf). length buf - off)") auto

declare parse_from.simps [simp del]

definition parse_first :: "byte list \<Rightarrow> sender_report option" where
  "parse_first buf = parse_from 0 buf"

record report_block =
  rb_source_ssrc :: u32
  rb_fraction_lost :: byte
  rb_cumulative_lost :: u32
  rb_highest_seq :: u32
  rb_jitter :: u32
  rb_lsr :: u32
  rb_dlsr :: u32

definition patch_length :: "nat \<Rightarrow> byte list \<Rightarrow> byte list" where
  "patch_length start out =
    (let words = of_nat ((length out - start) div 4 - 1) :: u16
     in take (start + 2) out @ to_be_bytes words @ drop (start + 4) out)"

definition report_block_bytes :: "report_block \<Rightarrow> byte list" where
  "report_block_bytes b =
    to_be_bytes (rb_source_ssrc b) @ [rb_fraction_lost b] @ drop 1 (to_be_bytes (rb_cumulative_lost b)) @
    to_be_bytes (rb_highest_seq b) @ to_be_bytes (rb_jitter b) @ to_be_bytes (rb_lsr b) @
    to_be_bytes (rb_dlsr b)"

definition build_receiver_report :: "u32 \<Rightarrow> report_block list \<Rightarrow> byte list" where
  "build_receiver_report our_ssrc blocks =
    (let rc = min (length blocks) 31
     in patch_length 0 ([0x80 OR of_nat rc, PT_RECEIVER_REPORT, 0, 0] @ to_be_bytes our_ssrc @
          concat (map report_block_bytes (take 31 blocks))))"

definition pad4 :: "byte list \<Rightarrow> byte list" where
  "pad4 out = out @ replicate ((4 - length out mod 4) mod 4) 0"

definition build_sdes :: "u32 \<Rightarrow> rstring \<Rightarrow> byte list" where
  "build_sdes our_ssrc cname =
    (let len = min (length cname) 255
     in patch_length 0 (pad4 ([0x80 OR 1, PT_SDES, 0, 0] @ to_be_bytes our_ssrc @ [1, of_nat len] @
          take len cname @ [0])))"

definition build_pli :: "u32 \<Rightarrow> u32 \<Rightarrow> byte list" where
  "build_pli our_ssrc media_ssrc =
    patch_length 0 ([0x80 OR FMT_PLI, PT_PSFB, 0, 0] @ to_be_bytes our_ssrc @ to_be_bytes media_ssrc)"

definition build_fir :: "u32 \<Rightarrow> u32 \<Rightarrow> byte \<Rightarrow> byte list" where
  "build_fir our_ssrc media_ssrc seq_nr =
    patch_length 0 ([0x80 OR FMT_FIR, PT_PSFB, 0, 0] @ to_be_bytes our_ssrc @ to_be_bytes (0 :: u32) @
      to_be_bytes media_ssrc @ [seq_nr, 0, 0, 0])"

definition build_frame_ack :: "u32 \<Rightarrow> u32 \<Rightarrow> byte list" where
  "build_frame_ack our_ssrc rtp_timestamp =
    patch_length 0 ([0x80, PT_APP, 0, 0] @ to_be_bytes our_ssrc @ [0, 0, 0, 5] @ to_be_bytes rtp_timestamp)"

definition build_rctl :: "u32 \<Rightarrow> u16 \<Rightarrow> u16 \<Rightarrow> u16 \<Rightarrow> byte list" where
  "build_rctl our_ssrc clock_ms frames highest_seq =
    patch_length 0 ([0x80, PT_APP, 0, 0] @ to_be_bytes our_ssrc @ rstr ''RCTL'' @ [0x85, 0, 0, 4] @
      to_be_bytes frames @ [0, 0, 0, 0, 0, 0] @ to_be_bytes clock_ms @ [0, 0] @
      to_be_bytes highest_seq @ [0, 0])"

definition build_liveness :: "u32 \<Rightarrow> rstring \<Rightarrow> report_block list \<Rightarrow> byte list" where
  "build_liveness our_ssrc cname blocks = build_receiver_report our_ssrc blocks @ build_sdes our_ssrc cname"

definition build_keyframe_request :: "u32 \<Rightarrow> rstring \<Rightarrow> u32 \<Rightarrow> report_block list \<Rightarrow> byte \<Rightarrow> byte list" where
  "build_keyframe_request our_ssrc cname media_ssrc blocks fir_seq =
    build_liveness our_ssrc cname blocks @ build_pli our_ssrc media_ssrc @
    build_fir our_ssrc media_ssrc fir_seq"

section \<open>RTP packets as the standard writes them\<close>

definition rtp_b0 :: "bool \<Rightarrow> bool \<Rightarrow> nat \<Rightarrow> byte" where
  "rtp_b0 padding extension n =
    0x80 OR (if padding then 0x20 else 0) OR (if extension then 0x10 else 0) OR of_nat n"

definition rtp_b1 :: "bool \<Rightarrow> byte \<Rightarrow> byte" where
  "rtp_b1 marker pt = (if marker then 0x80 else 0) OR pt"

definition rtp_wire :: "rtp_packet \<Rightarrow> byte list \<Rightarrow> byte list" where
  "rtp_wire p pad =
    [rtp_b0 (rt_padding p) (rt_extension p) (length (rt_csrc p)), rtp_b1 (rt_marker p) (rt_payload_type p)] @
    to_be_bytes (rt_sequence_number p) @ to_be_bytes (rt_timestamp p) @ to_be_bytes (rt_ssrc p) @
    concat (map to_be_bytes (rt_csrc p)) @
    (if rt_extension p
     then to_be_bytes (rt_ext_profile p) @ to_be_bytes (of_nat (length (rt_ext_data p) div 4) :: u16) @ rt_ext_data p
     else []) @
    rt_payload p @ pad"

definition rtp_ok :: "rtp_packet \<Rightarrow> byte list \<Rightarrow> bool" where
  "rtp_ok p pad \<longleftrightarrow>
    rt_version p = 2 \<and> length (rt_csrc p) < 16 \<and> rt_payload_type p < 128 \<and>
    (if rt_extension p then 4 dvd length (rt_ext_data p) \<and> length (rt_ext_data p) < 2 ^ 18
     else rt_ext_profile p = 0 \<and> rt_ext_data p = []) \<and>
    (if rt_padding p then pad \<noteq> [] \<and> length pad = unat (last pad) else pad = [])"

lemma rtp_b0_fields:
  assumes "n < 16"
  shows "drop_bit 6 (rtp_b0 e x n) = 2 \<and> (rtp_b0 e x n AND 0x20 \<noteq> 0) = e \<and>
    (rtp_b0 e x n AND 0x10 \<noteq> 0) = x \<and> unat (rtp_b0 e x n AND 0x0f) = n"
proof -
  have "\<forall>e \<in> {True, False}. \<forall>x \<in> {True, False}. \<forall>n \<in> set [0..<16]. drop_bit 6 (rtp_b0 e x n) = 2 \<and>
      (rtp_b0 e x n AND 0x20 \<noteq> 0) = e \<and> (rtp_b0 e x n AND 0x10 \<noteq> 0) = x \<and> unat (rtp_b0 e x n AND 0x0f) = n"
    by code_simp
  with assms show ?thesis by (cases e; cases x) simp_all
qed

lemma rtp_b0_of:
  assumes "drop_bit 6 b = (2 :: byte)"
  shows "rtp_b0 (b AND 0x20 \<noteq> 0) (b AND 0x10 \<noteq> 0) (unat (b AND 0x0f)) = b \<and>
    unat (b AND 0x0f) < 16"
proof -
  have "\<forall>n \<in> set [0..<256]. drop_bit 6 (of_nat n :: byte) = 2 \<longrightarrow>
      rtp_b0 (of_nat n AND 0x20 \<noteq> (0 :: byte)) (of_nat n AND 0x10 \<noteq> (0 :: byte))
        (unat (of_nat n AND 0x0f :: byte)) = of_nat n \<and> unat (of_nat n AND 0x0f :: byte) < 16"
    by code_simp
  moreover have "unat b \<in> set [0..<256]" using unat_byte_bound [of b] by simp
  moreover have "b = of_nat (unat b)" by simp
  ultimately show ?thesis using assms by metis
qed

lemma rtp_b1_fields: "pt < 128 \<Longrightarrow> (rtp_b1 m pt AND 0x80 \<noteq> 0) = m \<and> rtp_b1 m pt AND 0x7f = pt"
proof -
  assume "pt < 128"
  then have "unat pt \<in> set [0..<128]" by (simp add: word_less_nat_alt)
  moreover have "\<forall>m \<in> {True, False}. \<forall>n \<in> set [0..<128]. (rtp_b1 m (of_nat n) AND 0x80 \<noteq> 0) = m \<and>
      rtp_b1 m (of_nat n) AND 0x7f = of_nat n" by code_simp
  moreover have "pt = of_nat (unat pt)" by simp
  ultimately show ?thesis by (cases m) (metis insertCI)+
qed

lemma rtp_b1_of: "rtp_b1 (b AND 0x80 \<noteq> 0) (b AND 0x7f) = b \<and> b AND 0x7f < (128 :: byte)"
proof -
  have "\<forall>n \<in> set [0..<256]. rtp_b1 (of_nat n AND 0x80 \<noteq> (0 :: byte)) (of_nat n AND 0x7f) = of_nat n \<and>
      of_nat n AND 0x7f < (128 :: byte)" by code_simp
  moreover have "unat b \<in> set [0..<256]" using unat_byte_bound [of b] by simp
  moreover have "b = of_nat (unat b)" by simp
  ultimately show ?thesis by metis
qed

text \<open>The parser's pieces, on a buffer cut at the offset.\<close>

lemma get_range_cut: "get_range (length a) (length a + n) (a @ b) = (if n \<le> length b then Some (take n b) else None)"
  by (simp add: get_range_def)

lemma read_csrc_cut:
  "read_csrc n (length a) (a @ b) =
    (if 4 * n \<le> length b
     then Some (map from_be_bytes (chunks 4 (take (4 * n) b)), length a + 4 * n) else None)"
proof (induction n arbitrary: a b)
  case (Suc n)
  show ?case
  proof (cases "4 \<le> length b")
    case False
    then show ?thesis by (simp add: get_range_cut)
  next
    case True
    have "read_csrc n (length (a @ take 4 b)) ((a @ take 4 b) @ drop 4 b) =
        (if 4 * n \<le> length (drop 4 b)
         then Some (map from_be_bytes (chunks 4 (take (4 * n) (drop 4 b))), length (a @ take 4 b) + 4 * n)
         else None)" by (rule Suc)
    moreover have "chunks 4 (take (4 * Suc n) b) = take 4 b # chunks 4 (take (4 * n) (drop 4 b))"
      using True by (subst chunks.simps) (auto simp: drop_take)
    ultimately show ?thesis using True by (auto simp: get_range_cut)
  qed
qed simp

lemma chunks_be: "map from_be_bytes (chunks 4 (concat (map to_be_bytes cs))) = (cs :: u32 list)"
proof (induction cs)
  case (Cons c cs)
  have "length (to_be_bytes c) = 4" by simp
  then have "to_be_bytes c \<noteq> []" by (metis list.size(3) zero_neq_numeral)
  then show ?case using Cons by (subst chunks.simps) simp
qed simp

lemma be_chunks:
  "length b = 4 * n \<Longrightarrow> concat (map to_be_bytes (map from_be_bytes (chunks 4 b) :: u32 list)) = b \<and>
     length (chunks 4 b) = n"
proof (induction n arbitrary: b)
  case (Suc n)
  then have "length (drop 4 b) = 4 * n" "length (take 4 b) = 4" "b \<noteq> []" by auto
  with Suc.IH [of "drop 4 b"] show ?case
    by (subst (1 2) chunks.simps) (simp add: to_from_be_bytes)
qed simp

lemma read_extension_cut:
  "read_extension x (length a) (a @ b) =
    (if x then
       (let n = unat (from_be_bytes (sub 2 2 b) :: u16) * 4
        in if 4 \<le> length b \<and> 4 + n \<le> length b
           then Some (from_be_bytes (take 2 b), take n (drop 4 b), length a + 4 + n) else None)
     else Some (0, [], length a))"
proof -
  have "4 \<le> length b \<Longrightarrow> sub 2 2 (take 4 b) = sub 2 2 b \<and> sub 0 2 (take 4 b) = take 2 b"
    by (simp add: sub_def min_def drop_take)
  moreover have "4 \<le> length b \<Longrightarrow>
      get_range (length a + 4) (length a + 4 + n) (a @ b) = (if 4 + n \<le> length b then Some (take n (drop 4 b)) else None)" for n
    using get_range_cut [of "a @ take 4 b" n "drop 4 b"] by (auto simp: min.absorb2)
  ultimately show ?thesis
    by (auto simp: read_extension_def get_range_cut Let_def)
qed

lemma strip_padding_cut:
  "strip_padding e (length a) (a @ b) =
    (if e then (if b \<noteq> [] \<and> last b \<noteq> 0 \<and> unat (last b) \<le> length b
        then Some (length a + length b - unat (last b)) else None)
     else Some (length a + length b))"
  by (auto simp: strip_padding_def Let_def unat_eq_0)

definition rtp_ext_wire :: "rtp_packet \<Rightarrow> byte list" where
  "rtp_ext_wire p =
    (if rt_extension p
     then to_be_bytes (rt_ext_profile p) @ to_be_bytes (of_nat (length (rt_ext_data p) div 4) :: u16) @ rt_ext_data p
     else [])"

lemma read_extension_wire:
  assumes "rtp_ok p pad"
  shows "read_extension (rt_extension p) (length a) (a @ rtp_ext_wire p @ r) =
    Some (rt_ext_profile p, rt_ext_data p, length a + length (rtp_ext_wire p))"
proof (cases "rt_extension p")
  case True
  let ?d = "rt_ext_data p"
  have d: "4 dvd length ?d" "length ?d < 2 ^ 18" using assms True by (simp_all add: rtp_ok_def)
  then have n: "unat (of_nat (length ?d div 4) :: u16) * 4 = length ?d" by (simp add: unat_of_nat)
  have s: "sub 2 2 (rtp_ext_wire p @ r) = to_be_bytes (of_nat (length ?d div 4) :: u16)"
    "take 2 (rtp_ext_wire p @ r) = to_be_bytes (rt_ext_profile p)"
    "drop 4 (rtp_ext_wire p) = ?d" "length (rtp_ext_wire p) = 4 + length ?d"
    using True by (simp_all add: rtp_ext_wire_def sub_def)
  show ?thesis
    unfolding read_extension_cut Let_def s(1,2) using True n s(3,4) by simp
next
  case False
  with assms show ?thesis by (simp add: read_extension_cut rtp_ext_wire_def rtp_ok_def)
qed

definition rtp_head :: "rtp_packet \<Rightarrow> byte list" where
  "rtp_head p = [rtp_b0 (rt_padding p) (rt_extension p) (length (rt_csrc p)),
     rtp_b1 (rt_marker p) (rt_payload_type p)] @ to_be_bytes (rt_sequence_number p) @
     to_be_bytes (rt_timestamp p) @ to_be_bytes (rt_ssrc p)"

lemma rtp_head_length [simp]: "length (rtp_head p) = 12"
  by (simp add: rtp_head_def)

lemma rtp_wire_head:
  "rtp_wire p pad = rtp_head p @ concat (map to_be_bytes (rt_csrc p)) @ rtp_ext_wire p @ rt_payload p @ pad"
  by (simp add: rtp_wire_def rtp_head_def rtp_ext_wire_def)

lemma length_concat_be: "length (concat (map to_be_bytes (cs :: u32 list))) = 4 * length cs"
  by (induction cs) simp_all

lemma rtp_parse_wire:
  assumes "rtp_ok p pad"
  shows "rtp_parse (rtp_wire p pad) = Some p"
proof -
  let ?buf = "rtp_wire p pad"
  let ?cs = "concat (map to_be_bytes (rt_csrc p))"
  have ok: "rt_version p = 2" "length (rt_csrc p) < 16" "rt_payload_type p < 128"
    using assms by (simp_all add: rtp_ok_def)
  have b: "?buf ! 0 = rtp_b0 (rt_padding p) (rt_extension p) (length (rt_csrc p))"
    "?buf ! 1 = rtp_b1 (rt_marker p) (rt_payload_type p)"
    "sub 2 2 ?buf = to_be_bytes (rt_sequence_number p)" "sub 4 4 ?buf = to_be_bytes (rt_timestamp p)"
    "sub 8 4 ?buf = to_be_bytes (rt_ssrc p)" "\<not> length ?buf < 12"
    by (simp_all add: rtp_wire_def sub_def)
  note f = rtp_b0_fields [OF ok(2), of "rt_padding p" "rt_extension p"]
    rtp_b1_fields [OF ok(3), of "rt_marker p"]
  have c: "read_csrc (length (rt_csrc p)) 12 ?buf = Some (rt_csrc p, 12 + 4 * length (rt_csrc p))"
    using read_csrc_cut [of "length (rt_csrc p)" "rtp_head p" "?cs @ rtp_ext_wire p @ rt_payload p @ pad"]
    by (simp add: rtp_wire_head length_concat_be chunks_be)
  have x: "read_extension (rt_extension p) (12 + 4 * length (rt_csrc p)) ?buf =
      Some (rt_ext_profile p, rt_ext_data p, 12 + 4 * length (rt_csrc p) + length (rtp_ext_wire p))"
    using read_extension_wire [OF assms, of "rtp_head p @ ?cs" "rt_payload p @ pad"]
    by (simp add: rtp_wire_head length_concat_be)
  let ?a = "rtp_head p @ ?cs @ rtp_ext_wire p"
  have l: "length ?a = 12 + 4 * length (rt_csrc p) + length (rtp_ext_wire p)" by (simp add: length_concat_be)
  have pd: "(if rt_padding p then pad \<noteq> [] \<and> length pad = unat (last pad) else pad = [])"
    using assms by (simp add: rtp_ok_def)
  have s: "strip_padding (rt_padding p) (length ?a) (?a @ rt_payload p @ pad) =
      Some (length ?a + length (rt_payload p))"
    unfolding strip_padding_cut using pd by (auto split: if_splits)
  have g: "get_range (length ?a) (length ?a + length (rt_payload p)) (?a @ rt_payload p @ pad) = Some (rt_payload p)"
    unfolding get_range_cut by simp
  have w: "?a @ rt_payload p @ pad = ?buf" by (simp add: rtp_wire_head)
  show ?thesis
    using s g unfolding l w
    by (auto simp: rtp_parse_def Let_def b(1,3-6) b(2) [simplified] f c x ok(1) intro!: rtp_packet.equality)
qed

lemma read_extension_Some:
  assumes "read_extension x (length a) (a @ b) = Some (pr, d, off)"
  shows "\<exists>e r. b = e @ r \<and> off = length a + length e \<and>
    (if x then 4 dvd length d \<and> length d < 2 ^ 18 \<and>
       e = to_be_bytes pr @ to_be_bytes (of_nat (length d div 4) :: u16) @ d
     else pr = 0 \<and> d = [] \<and> e = [])"
proof (cases x)
  case True
  define w :: u16 where "w = from_be_bytes (sub 2 2 b)"
  from assms True have l: "4 + unat w * 4 \<le> length b" and
    f: "pr = from_be_bytes (take 2 b)" "d = take (unat w * 4) (drop 4 b)" "off = length a + 4 + unat w * 4"
    by (auto simp: read_extension_cut w_def Let_def split: if_splits)
  have d: "length d = unat w * 4" using l f(2) by simp
  have "b = take 2 b @ take 2 (drop 2 b) @ drop 4 b"
    by (metis append_take_drop_id drop_drop numeral_Bit0)
  also have "take 2 b = to_be_bytes pr" using l f(1) by (simp add: to_from_be_bytes)
  also have "take 2 (drop 2 b) = to_be_bytes (of_nat (length d div 4) :: u16)"
    using l d by (simp add: w_def sub_def to_from_be_bytes)
  also have "drop 4 b = d @ drop (unat w * 4) (drop 4 b)" unfolding f(2) by (rule append_take_drop_id [symmetric])
  finally have "b = (to_be_bytes pr @ to_be_bytes (of_nat (length d div 4) :: u16) @ d) @ drop (unat w * 4) (drop 4 b)"
    by simp
  moreover have "length d < 2 ^ 18" using unat_u16_bound [of w] d by simp
  ultimately show ?thesis using True d f(3) by (intro exI conjI) (assumption, simp_all)
qed (use assms in \<open>simp add: read_extension_cut\<close>)

lemma rtp_parse_Some:
  assumes "rtp_parse buf = Some p"
  shows "\<exists>pad. rtp_ok p pad \<and> buf = rtp_wire p pad"
proof -
  define h where "h = take 12 buf"
  define b where "b = drop 12 buf"
  define n where "n = unat (buf ! 0 AND 0x0f)"
  from assms have len: "12 \<le> length buf" and v: "drop_bit 6 (buf ! 0) = 2"
    by (auto simp: rtp_parse_def Let_def split: if_splits)
  then have h: "buf = h @ b" "length h = 12" by (simp_all add: h_def b_def)
  from assms len v obtain csrc off pr d off2 en pl where
    c: "read_csrc n (length h) (h @ b) = Some (csrc, off)" and
    x: "read_extension (buf ! 0 AND 0x10 \<noteq> 0) off buf = Some (pr, d, off2)" and
    sp: "strip_padding (buf ! 0 AND 0x20 \<noteq> 0) off2 buf = Some en" and
    g: "get_range off2 en buf = Some pl" and
    p: "p = \<lparr>rt_version = 2, rt_padding = (buf ! 0 AND 0x20 \<noteq> 0), rt_extension = (buf ! 0 AND 0x10 \<noteq> 0),
          rt_marker = (buf ! 1 AND 0x80 \<noteq> 0), rt_payload_type = buf ! 1 AND 0x7f,
          rt_sequence_number = from_be_bytes (sub 2 2 buf), rt_timestamp = from_be_bytes (sub 4 4 buf),
          rt_ssrc = from_be_bytes (sub 8 4 buf), rt_csrc = csrc, rt_ext_profile = pr, rt_ext_data = d,
          rt_payload = pl\<rparr>"
    by (auto simp: rtp_parse_def Let_def n_def h(2) h(1) [symmetric] bind_eq_Some_conv)
  define cb where "cb = take (4 * n) b"
  define b2 where "b2 = drop (4 * n) b"
  from c have lb: "4 * n \<le> length b" and cs: "csrc = map from_be_bytes (chunks 4 cb)" and
    off: "off = length (h @ cb)"
    by (auto simp: read_csrc_cut cb_def split: if_splits)
  have b: "b = cb @ b2" "length cb = 4 * n" using lb by (simp_all add: cb_def b2_def)
  have csrc: "concat (map to_be_bytes csrc) = cb" "length csrc = n"
    using be_chunks [OF b(2)] by (simp_all add: cs)
  from x h(1) b(1) off have "read_extension (buf ! 0 AND 0x10 \<noteq> 0) (length (h @ cb)) ((h @ cb) @ b2) = Some (pr, d, off2)"
    by simp
  from read_extension_Some [OF this] obtain e r where
    e: "b2 = e @ r" "off2 = length (h @ cb @ e)" and
    ex: "if buf ! 0 AND 0x10 \<noteq> 0 then 4 dvd length d \<and> length d < 2 ^ 18 \<and>
         e = to_be_bytes pr @ to_be_bytes (of_nat (length d div 4) :: u16) @ d
       else pr = 0 \<and> d = [] \<and> e = []" by auto
  let ?a = "h @ cb @ e"
  have buf: "buf = ?a @ r" using h(1) b(1) e(1) by simp
  from sp [unfolded buf e(2) strip_padding_cut] have en: "en = length ?a + (en - length ?a)" "en - length ?a \<le> length r"
    and pad: "if buf ! 0 AND 0x20 \<noteq> 0 then r \<noteq> [] \<and> last r \<noteq> 0 \<and> unat (last r) \<le> length r \<and>
       en - length ?a = length r - unat (last r) else en - length ?a = length r"
    unfolding buf [symmetric] by (auto split: if_splits)
  have pl: "pl = take (en - length ?a) r"
  proof -
    have "get_range (length ?a) (length ?a + (en - length ?a)) (?a @ r) = Some pl"
      using g unfolding buf e(2) by (subst (asm) en(1))
    then show ?thesis using en(2) unfolding get_range_cut by simp
  qed
  define pd where "pd = drop (en - length ?a) r"
  have r: "r = pl @ pd" by (simp add: pl pd_def)
  have pdl: "if buf ! 0 AND 0x20 \<noteq> 0 then pd \<noteq> [] \<and> length pd = unat (last pd) else pd = []"
  proof (cases "buf ! 0 AND 0x20 \<noteq> 0")
    case True
    with pad have q: "r \<noteq> []" "0 < unat (last r)" "unat (last r) \<le> length r"
      "en - length ?a = length r - unat (last r)" by (auto simp: unat_gt_0)
    then have "length pd = unat (last r)" by (simp add: pd_def)
    moreover from this q(2) have "pd \<noteq> []" by auto
    ultimately show ?thesis using True by (simp add: pd_def last_drop)
  next
    case False
    with pad show ?thesis by (simp add: pd_def)
  qed
  have hb: "h = rtp_head p"
  proof -
    have s2: "h = [buf ! 0, buf ! 1] @ sub 2 2 buf @ sub 4 4 buf @ sub 8 4 buf"
    proof -
      have t: "take (m + k) xs = take m xs @ sub m k xs" for m k and xs :: "byte list" by (simp add: sub_def take_add)
      have "take 12 buf = take 2 buf @ sub 2 2 buf @ sub 4 4 buf @ sub 8 4 buf"
        using t [of 2 2 buf] t [of 4 4 buf] t [of 8 4 buf] by simp
      moreover have "take 2 buf = [buf ! 0, buf ! 1]"
        using len by (cases buf; cases "tl buf") (auto simp: numeral_2_eq_2)
      ultimately show ?thesis by (simp add: h_def)
    qed
    have "length (sub 2 2 buf) = 2" "length (sub 4 4 buf) = 4" "length (sub 8 4 buf) = 4"
      using len by simp_all
    then show ?thesis
      using rtp_b0_of [OF v] rtp_b1_of [of "buf ! 1"] csrc(2)
      by (simp add: s2 rtp_head_def p n_def to_from_be_bytes)
  qed
  have "rtp_ok p pd"
    using ex pdl csrc(2) rtp_b1_of [of "buf ! 1"] rtp_b0_of [OF v]
    by (auto simp: rtp_ok_def p n_def)
  moreover have "buf = rtp_wire p pd"
    using buf r hb csrc(1) ex by (auto simp: rtp_wire_head rtp_ext_wire_def p)
  ultimately show ?thesis by blast
qed

text \<open>
  The media packet parser accepts exactly the packets of the standard's layout (version 2, the counted
  sources, an extension that fits, padding counted by its last byte), and reads from each the fields
  it was made of; everything else is rejected, and nothing makes it panic.
\<close>

theorem rtp_parse_iff: "rtp_parse buf = Some p \<longleftrightarrow> (\<exists>pad. rtp_ok p pad \<and> buf = rtp_wire p pad)"
  using rtp_parse_Some rtp_parse_wire by blast

section \<open>RTCP packets tile\<close>

text \<open>
  A compound packet is a sequence of packets, each of version 2 with a length in words, minus one, that
  stays within the buffer, and nothing is left over.
\<close>

function rtcp_tiles :: "byte list \<Rightarrow> bool" where
  "rtcp_tiles buf =
    (if buf = [] then True
     else if length buf < 4 \<or> drop_bit 6 (buf ! 0) \<noteq> 2 then False
     else let pkt_len = (unat (from_be_bytes (sub 2 2 buf) :: u16) + 1) * 4
          in if length buf < pkt_len then False else rtcp_tiles (drop pkt_len buf))"
  by pat_completeness auto
termination rtcp_tiles
  by (relation "measure length") auto

declare rtcp_tiles.simps [simp del]

definition rtcp_packet :: "byte \<Rightarrow> byte \<Rightarrow> byte list \<Rightarrow> byte list" where
  "rtcp_packet b0 pt body = [b0, pt] @ to_be_bytes (of_nat (length body div 4) :: u16) @ body"

lemma be16: "to_be_bytes (w :: u16) = [of_nat (unat w div 256), of_nat (unat w)]"
  by (simp add: to_be_bytes_def to_le_bytes_def nat_le_2)

lemma patch_length_packet: "patch_length 0 (b0 # pt # 0 # 0 # body) = rtcp_packet b0 pt body"
proof -
  have "(length (b0 # pt # 0 # 0 # body) - 0) div 4 - 1 = length body div 4"
    by (simp add: div_add_self1 [of 4 "length body", simplified])
  then show ?thesis
    unfolding patch_length_def rtcp_packet_def Let_def
    by (simp only:) (simp add: numeral_2_eq_2 take_Cons' drop_Cons')
qed

lemma rtcp_packet_length: "length (rtcp_packet b0 pt body) = 4 + length body"
  by (simp add: rtcp_packet_def)

lemma rtcp_packet_header:
  assumes "length body < 2 ^ 18"
  shows "unat (from_be_bytes (sub 2 2 (rtcp_packet b0 pt body @ rest)) :: u16) = length body div 4"
proof -
  have "length body div 4 < 2 ^ 16" using assms by simp
  moreover have "sub 2 2 (rtcp_packet b0 pt body @ rest) = to_be_bytes (of_nat (length body div 4) :: u16)"
    by (simp add: rtcp_packet_def sub_def be16)
  ultimately show ?thesis by (simp add: unat_of_nat)
qed

lemma rtcp_tiles_packet:
  assumes "length body < 2 ^ 18" and "4 dvd length body" and "drop_bit 6 b0 = 2"
  shows "rtcp_tiles (rtcp_packet b0 pt body @ rest) \<longleftrightarrow> rtcp_tiles rest"
proof -
  have l: "(length body div 4 + 1) * 4 = length (rtcp_packet b0 pt body)"
    using assms(2) by (auto simp: rtcp_packet_length)
  show ?thesis
    unfolding rtcp_tiles.simps [of "rtcp_packet b0 pt body @ rest"] rtcp_packet_header [OF assms(1)] Let_def l
    using assms(3) by (simp add: rtcp_packet_def)
qed

lemma parse_from_packet:
  assumes "length body < 2 ^ 18" and "4 dvd length body" and "pt \<noteq> PT_SENDER_REPORT"
  shows "parse_from (length p) (p @ rtcp_packet b0 pt body @ rest) =
    parse_from (length (p @ rtcp_packet b0 pt body)) (p @ rtcp_packet b0 pt body @ rest)"
proof -
  let ?buf = "p @ rtcp_packet b0 pt body @ rest"
  have l: "(length body div 4 + 1) * 4 = length (rtcp_packet b0 pt body)"
    using assms(2) by (auto simp: rtcp_packet_length)
  have s: "sub (length p + 2) 2 ?buf = sub 2 2 (rtcp_packet b0 pt body @ rest)" by simp
  have pt: "?buf ! (length p + 1) = pt" by (simp add: nth_append rtcp_packet_def)
  show ?thesis
    unfolding parse_from.simps [of "length p"] s rtcp_packet_header [OF assms(1)] pt Let_def l
    using assms(3) by (simp add: rtcp_packet_length)
qed

lemma rtcp_packet_eqs:
  "build_receiver_report s blocks = rtcp_packet (0x80 OR of_nat (min (length blocks) 31)) PT_RECEIVER_REPORT
     (to_be_bytes s @ concat (map report_block_bytes (take 31 blocks)))"
  "build_pli s m = rtcp_packet (0x80 OR FMT_PLI) PT_PSFB (to_be_bytes s @ to_be_bytes m)"
  "build_fir s m q = rtcp_packet (0x80 OR FMT_FIR) PT_PSFB
     (to_be_bytes s @ to_be_bytes (0 :: u32) @ to_be_bytes m @ [q, 0, 0, 0])"
  "build_frame_ack s t = rtcp_packet 0x80 PT_APP (to_be_bytes s @ [0, 0, 0, 5] @ to_be_bytes t)"
  "build_rctl s c f h = rtcp_packet 0x80 PT_APP (to_be_bytes s @ rstr ''RCTL'' @ [0x85, 0, 0, 4] @
      to_be_bytes f @ [0, 0, 0, 0, 0, 0] @ to_be_bytes c @ [0, 0] @ to_be_bytes h @ [0, 0])"
  by (simp_all add: build_receiver_report_def build_pli_def build_fir_def build_frame_ack_def
      build_rctl_def patch_length_packet Let_def)

definition sdes_body :: "u32 \<Rightarrow> rstring \<Rightarrow> byte list" where
  "sdes_body s cname = pad4 (to_be_bytes s @ [1, of_nat (min (length cname) 255)] @ take 255 cname @ [0])"

lemma pad4_dvd: "4 dvd length (pad4 out)"
proof -
  have "4 dvd n + (4 - n mod 4) mod 4" for n :: nat
  proof -
    define r where "r = n mod 4"
    have "r = 0 \<or> r = 1 \<or> r = 2 \<or> r = 3" unfolding r_def by linarith
    moreover have "4 dvd n + (4 - r) mod 4 \<longleftrightarrow> (r + (4 - r) mod 4) mod 4 = 0"
      unfolding r_def dvd_eq_mod_eq_0 by (simp add: mod_add_left_eq)
    ultimately show ?thesis unfolding r_def [symmetric] by (elim disjE) simp_all
  qed
  then show ?thesis by (simp add: pad4_def)
qed

lemma pad4_Cons4: "pad4 (a # b # c # d # out) = a # b # c # d # pad4 out"
proof -
  have "length (a # b # c # d # out) mod 4 = length out mod 4" by simp
  then show ?thesis unfolding pad4_def by (simp only:) simp
qed

lemma build_sdes_packet: "build_sdes s cname = rtcp_packet (0x80 OR 1) PT_SDES (sdes_body s cname)"
proof -
  have "take (min (length cname) 255) cname = take 255 cname" by (simp add: min_def)
  then show ?thesis
    unfolding sdes_body_def build_sdes_def Let_def patch_length_packet [symmetric] pad4_Cons4 [symmetric]
    by simp
qed

lemma length_pad4: "length (pad4 out) < length out + 4"
  by (simp add: pad4_def)

lemma sdes_body_length: "4 dvd length (sdes_body s cname)" "length (sdes_body s cname) < 2 ^ 18"
proof -
  show "4 dvd length (sdes_body s cname)" by (simp add: sdes_body_def pad4_dvd)
  have "length (sdes_body s cname) < 4 + 2 + min (length cname) 255 + 1 + 4"
    unfolding sdes_body_def by (rule less_le_trans [OF length_pad4]) simp
  then show "length (sdes_body s cname) < 2 ^ 18" by simp
qed

lemma length_report_block [simp]: "length (report_block_bytes b) = 24"
  by (simp add: report_block_bytes_def)

lemma length_blocks: "length (concat (map report_block_bytes bs)) = 24 * length bs"
  by (induction bs) simp_all

lemma report_body_length:
  "4 dvd length (to_be_bytes (s :: u32) @ concat (map report_block_bytes (take 31 bs)))"
  "length (to_be_bytes (s :: u32) @ concat (map report_block_bytes (take 31 bs))) < 2 ^ 18"
proof -
  have l: "length (to_be_bytes (s :: u32) @ concat (map report_block_bytes (take 31 bs))) =
      4 * (1 + 6 * min (length bs) 31)"
    by (simp add: length_blocks)
  show "4 dvd length (to_be_bytes (s :: u32) @ concat (map report_block_bytes (take 31 bs)))"
    unfolding l by (rule dvd_triv_left)
  show "length (to_be_bytes (s :: u32) @ concat (map report_block_bytes (take 31 bs))) < 2 ^ 18"
    unfolding l by simp
qed

lemma version_bits: "n < 32 \<Longrightarrow> drop_bit 6 (0x80 OR of_nat n :: byte) = 2"
proof -
  have "\<forall>n \<in> set [0..<32]. drop_bit 6 (0x80 OR of_nat n :: byte) = 2" by code_simp
  then show "n < 32 \<Longrightarrow> drop_bit 6 (0x80 OR of_nat n :: byte) = 2" by simp
qed

lemma rtcp_tiles_Nil [simp]: "rtcp_tiles []"
  by (simp add: rtcp_tiles.simps)

lemma tiles_report: "rtcp_tiles (build_receiver_report s bs @ rest) \<longleftrightarrow> rtcp_tiles rest"
  unfolding rtcp_packet_eqs
  by (intro rtcp_tiles_packet report_body_length version_bits) simp

lemma tiles_sdes: "rtcp_tiles (build_sdes s cname @ rest) \<longleftrightarrow> rtcp_tiles rest"
  unfolding build_sdes_packet by (intro rtcp_tiles_packet sdes_body_length) simp

lemma tiles_small:
  "rtcp_tiles (build_pli s m @ rest) \<longleftrightarrow> rtcp_tiles rest"
  "rtcp_tiles (build_fir s m q @ rest) \<longleftrightarrow> rtcp_tiles rest"
  "rtcp_tiles (build_frame_ack s t @ rest) \<longleftrightarrow> rtcp_tiles rest"
  "rtcp_tiles (build_rctl s c f h @ rest) \<longleftrightarrow> rtcp_tiles rest"
  unfolding rtcp_packet_eqs by (rule rtcp_tiles_packet; simp add: FMT_PLI_def FMT_FIR_def)+

lemma tiles_liveness: "rtcp_tiles (build_liveness s cname bs @ rest) \<longleftrightarrow> rtcp_tiles rest"
  by (simp add: build_liveness_def tiles_report tiles_sdes)

text \<open>A sender report: the rest of its body (timestamp, counts, blocks) is \<open>tail\<close>.\<close>

definition sender_report_bytes :: "byte \<Rightarrow> u32 \<Rightarrow> u32 \<Rightarrow> u32 \<Rightarrow> byte list \<Rightarrow> byte list" where
  "sender_report_bytes b0 ssrc ntp_msw ntp_lsw tail =
    rtcp_packet b0 PT_SENDER_REPORT (to_be_bytes ssrc @ to_be_bytes ntp_msw @ to_be_bytes ntp_lsw @ tail)"

lemma parse_from_report:
  assumes "12 + length tail < 2 ^ 18" and "4 dvd length tail"
  shows "parse_from (length p) (p @ sender_report_bytes b0 ssrc msw lsw tail @ rest) =
    Some \<lparr>sr_ssrc = ssrc, sr_ntp_middle = push_bit 16 msw OR drop_bit 16 lsw\<rparr>"
proof -
  let ?body = "to_be_bytes ssrc @ to_be_bytes msw @ to_be_bytes lsw @ tail"
  let ?q = "rtcp_packet b0 PT_SENDER_REPORT ?body"
  let ?buf = "p @ ?q @ rest"
  have b: "length ?body < 2 ^ 18" "4 dvd length ?body" using assms by (simp_all add: dvd_add_right_iff)
  have l: "(length ?body div 4 + 1) * 4 = length ?q" using b(2) unfolding rtcp_packet_length by (auto simp: dvd_def)
  have s: "sub (length p + 2) 2 ?buf = sub 2 2 (?q @ rest)" by simp
  have pt: "?buf ! (length p + 1) = PT_SENDER_REPORT" by (simp add: nth_append rtcp_packet_def)
  have f: "sub (length p + 4) 4 ?buf = to_be_bytes ssrc" "sub (length p + 8) 4 ?buf = to_be_bytes msw"
    "sub (length p + 12) 4 ?buf = to_be_bytes lsw"
    by (simp_all add: rtcp_packet_def sub_def be16)
  show ?thesis
    unfolding sender_report_bytes_def parse_from.simps [of "length p"] s rtcp_packet_header [OF b(1)] pt f Let_def l
    by (simp add: rtcp_packet_length)
qed

section \<open>Properties of RTCP\<close>

text \<open>
  Every control packet the receiver builds is a well-formed compound packet of version 2: the
  lengths tile it exactly, for any number of report blocks (at most 31 are sent) and any name
  (at most 255 bytes are).
\<close>

theorem rtcp_well_formed:
  "rtcp_tiles (build_liveness s cname bs) \<and> rtcp_tiles (build_keyframe_request s cname m bs q) \<and>
   rtcp_tiles (build_frame_ack s t) \<and> rtcp_tiles (build_rctl s c f h) \<and>
   is_rtcp (build_keyframe_request s cname m bs q)"
proof -
  have "is_rtcp (build_keyframe_request s cname m bs q)"
    by (simp add: is_rtcp_def build_keyframe_request_def build_liveness_def rtcp_packet_eqs rtcp_packet_def
        PT_SENDER_REPORT_def PT_RECEIVER_REPORT_def PT_PSFB_def)
  moreover have "rtcp_tiles (build_keyframe_request s cname m bs q)"
    using tiles_small(2) [of s m q "[]"] by (simp add: build_keyframe_request_def tiles_liveness tiles_small)
  ultimately show ?thesis
    using tiles_liveness [of s cname bs "[]"] tiles_small(3) [of s t "[]"] tiles_small(4) [of s c f h "[]"]
    by simp
qed

text \<open>
  The sender report of a compound packet is found behind the packets before it, and its clock is the
  middle 32 bits of the 64-bit time.
\<close>

theorem rtcp_finds_report:
  assumes "12 + length tail < 2 ^ 18" and "4 dvd length tail"
  shows "parse_first (build_liveness s cname bs @ sender_report_bytes b0 ssrc msw lsw tail @ rest) =
    Some \<lparr>sr_ssrc = ssrc, sr_ntp_middle = push_bit 16 msw OR drop_bit 16 lsw\<rparr>"
proof -
  let ?r = "build_receiver_report s bs"
  let ?d = "build_sdes s cname"
  let ?z = "sender_report_bytes b0 ssrc msw lsw tail @ rest"
  have "parse_from (length ([] :: byte list)) ([] @ ?r @ ?d @ ?z) = parse_from (length ([] @ ?r)) ([] @ ?r @ ?d @ ?z)"
    unfolding rtcp_packet_eqs
    by (intro parse_from_packet report_body_length) (simp add: PT_RECEIVER_REPORT_def PT_SENDER_REPORT_def)
  moreover have "parse_from (length ?r) (?r @ ?d @ ?z) = parse_from (length (?r @ ?d)) (?r @ ?d @ ?z)"
    unfolding build_sdes_packet
    by (intro parse_from_packet sdes_body_length) (simp add: PT_SDES_def PT_SENDER_REPORT_def)
  moreover have "parse_from (length (?r @ ?d)) ((?r @ ?d) @ ?z) =
      Some \<lparr>sr_ssrc = ssrc, sr_ntp_middle = push_bit 16 msw OR drop_bit 16 lsw\<rparr>"
    by (rule parse_from_report [OF assms])
  ultimately show ?thesis by (simp add: parse_first_def build_liveness_def)
qed

theorem rtcp_finds_report_witness:
  "parse_first (build_liveness 7 (rstr ''host'') [] @
      sender_report_bytes 0x80 0x0a0b0c0d 0x11112222 0x33334444 (replicate 12 0) @ [1, 2]) =
    Some \<lparr>sr_ssrc = 0x0a0b0c0d, sr_ntp_middle = 0x22223333\<rparr>"
  using rtcp_finds_report [of "replicate 12 0" 7 "rstr ''host''" "[]" "0x80" "0x0a0b0c0d" "0x11112222" "0x33334444" "[1, 2]"]
  by simp

end
