(* ===== verification/Hevc.thy ===== *)
theory Hevc
  imports Prelude
begin

text \<open>
  services/core\_device/display\_stream/hevc.rs: the HEVC depacketizer (RFC 7798). Packets are put in
  the order of their 16-bit sequence numbers, their payloads taken apart into NAL units, and these
  written as an Annex-B stream. The reorder buffer is a \<open>BTreeMap\<close>: its entries in the order of their
  keys.
\<close>

section \<open>Ordered maps\<close>

fun bt_insert :: "'k::linorder \<Rightarrow> 'v \<Rightarrow> ('k \<times> 'v) list \<Rightarrow> ('k \<times> 'v) list" where
  "bt_insert k v [] = [(k, v)]"
| "bt_insert k v ((a, b) # m) =
    (if k < a then (k, v) # (a, b) # m else if k = a then (k, v) # m else (a, b) # bt_insert k v m)"

fun bt_remove :: "'k::linorder \<Rightarrow> ('k \<times> 'v) list \<Rightarrow> ('v \<times> ('k \<times> 'v) list) option" where
  "bt_remove k [] = None"
| "bt_remove k ((a, b) # m) =
    (if k = a then Some (b, m) else map_option (\<lambda>(v, m'). (v, (a, b) # m')) (bt_remove k m))"

abbreviation bt_keys :: "('k::linorder \<times> 'v) list \<Rightarrow> bool" where
  "bt_keys m \<equiv> sorted_wrt (<) (map fst m)"

section \<open>NAL units\<close>

definition HEVC_NAL_HEADER_LEN :: nat where "HEVC_NAL_HEADER_LEN = 2"
definition NAL_TYPE_AP :: byte where "NAL_TYPE_AP = 48"
definition NAL_TYPE_FU :: byte where "NAL_TYPE_FU = 49"
definition NAL_TYPE_VPS :: byte where "NAL_TYPE_VPS = 32"
definition NAL_TYPE_SPS :: byte where "NAL_TYPE_SPS = 33"
definition NAL_TYPE_PPS :: byte where "NAL_TYPE_PPS = 34"
definition AUD_NAL :: "byte list" where "AUD_NAL = [0x46, 0x01, 0x50]"
definition ANNEXB_START_CODE :: "byte list" where "ANNEXB_START_CODE = [0, 0, 0, 1]"
definition MAX_REORDER_BUFFER :: nat where "MAX_REORDER_BUFFER = 128"

definition nal_type :: "byte \<Rightarrow> byte" where
  "nal_type b = drop_bit 1 b AND 0x3f"

definition is_irap :: "byte \<Rightarrow> bool" where
  "is_irap t \<longleftrightarrow> 16 \<le> t \<and> t \<le> 23"

definition is_vcl :: "byte \<Rightarrow> bool" where
  "is_vcl t \<longleftrightarrow> t \<le> 31"

record hevc =
  hv_reorder :: "(u16 \<times> u32 \<times> byte list) list"
  hv_next_seq :: "u16 option"
  hv_last_ts :: "u32 option"
  hv_fu_buffer :: "byte list"
  hv_fu_active :: bool
  hv_vps :: "byte list option"
  hv_sps :: "byte list option"
  hv_pps :: "byte list option"
  hv_params_emitted :: bool
  hv_out :: "byte list"

definition hevc_new :: hevc where
  "hevc_new = \<lparr>hv_reorder = [], hv_next_seq = None, hv_last_ts = None, hv_fu_buffer = [],
     hv_fu_active = False, hv_vps = None, hv_sps = None, hv_pps = None, hv_params_emitted = False,
     hv_out = []\<rparr>"

definition write_annexb :: "byte list \<Rightarrow> hevc \<Rightarrow> hevc" where
  "write_annexb nal s = s\<lparr>hv_out := hv_out s @ ANNEXB_START_CODE @ nal\<rparr>"

definition reset_fu :: "hevc \<Rightarrow> hevc" where
  "reset_fu s = s\<lparr>hv_fu_buffer := [], hv_fu_active := False\<rparr>"

definition take_output :: "hevc \<Rightarrow> byte list \<times> hevc" where
  "take_output s = (hv_out s, s\<lparr>hv_out := []\<rparr>)"

definition has_parameter_sets :: "hevc \<Rightarrow> bool" where
  "has_parameter_sets s \<longleftrightarrow> hv_vps s \<noteq> None \<and> hv_sps s \<noteq> None \<and> hv_pps s \<noteq> None"

definition cache_params :: "byte \<Rightarrow> byte list \<Rightarrow> hevc \<Rightarrow> hevc" where
  "cache_params t nal s =
    (if t = NAL_TYPE_VPS then s\<lparr>hv_vps := Some nal, hv_params_emitted := True\<rparr>
     else if t = NAL_TYPE_SPS then s\<lparr>hv_sps := Some nal, hv_params_emitted := True\<rparr>
     else if t = NAL_TYPE_PPS then s\<lparr>hv_pps := Some nal, hv_params_emitted := True\<rparr>
     else s)"

definition inject_params :: "byte \<Rightarrow> hevc \<Rightarrow> hevc" where
  "inject_params t s =
    (if is_irap t \<and> \<not> hv_params_emitted s
     then (fold write_annexb (List.map_filter (\<lambda>x. x) [hv_vps s, hv_sps s, hv_pps s]) s)
       \<lparr>hv_params_emitted := True\<rparr>
     else s)"

definition emit_nal :: "byte list \<Rightarrow> hevc \<Rightarrow> hevc" where
  "emit_nal nal s =
    (if length nal < HEVC_NAL_HEADER_LEN then s
     else
       let t = nal_type (hd nal);
           s1 = inject_params t (cache_params t nal s);
           s2 = (if is_vcl t \<and> \<not> is_irap t then s1\<lparr>hv_params_emitted := False\<rparr> else s1)
       in write_annexb nal s2)"

section \<open>Payloads\<close>

function aggregation_nals :: "nat \<Rightarrow> byte list \<Rightarrow> hevc \<Rightarrow> hevc" where
  "aggregation_nals off payload s =
    (if off + 2 \<le> length payload then
       let size' = unat (from_be_bytes (sub off 2 payload) :: u16)
       in case get_range (off + 2) (off + 2 + size') payload of
            None \<Rightarrow> s
          | Some nal \<Rightarrow> aggregation_nals (off + 2 + size') payload (emit_nal nal s)
     else s)"
  by pat_completeness auto
termination aggregation_nals
  by (relation "measure (\<lambda>(off, payload, s). length payload - off)") auto

declare aggregation_nals.simps [simp del]

definition process_aggregation :: "byte list \<Rightarrow> hevc \<Rightarrow> hevc" where
  "process_aggregation payload s = aggregation_nals HEVC_NAL_HEADER_LEN payload (reset_fu s)"

definition finish_fu :: "bool \<Rightarrow> hevc \<Rightarrow> hevc" where
  "finish_fu end' s =
    (if end' \<and> hv_fu_active s
     then emit_nal (hv_fu_buffer s) (s\<lparr>hv_fu_buffer := [], hv_fu_active := False\<rparr>) else s)"

definition process_fragmentation :: "byte list \<Rightarrow> hevc \<Rightarrow> hevc" where
  "process_fragmentation payload s =
    (if length payload < HEVC_NAL_HEADER_LEN + 1 then s
     else
       let fu_header = payload ! 2;
           start = (fu_header AND 0x80 \<noteq> 0); end' = (fu_header AND 0x40 \<noteq> 0);
           fu_type = fu_header AND 0x3f; fragment = drop 3 payload
       in if start
          then finish_fu end' (s\<lparr>hv_fu_buffer :=
                 [(payload ! 0 AND 0x81) OR push_bit 1 fu_type, payload ! 1] @ fragment, hv_fu_active := True\<rparr>)
          else if hv_fu_active s
          then finish_fu end' (s\<lparr>hv_fu_buffer := hv_fu_buffer s @ fragment\<rparr>)
          else s)"

definition process_payload :: "byte list \<Rightarrow> hevc \<Rightarrow> hevc" where
  "process_payload payload s =
    (if length payload < HEVC_NAL_HEADER_LEN then s
     else if nal_type (hd payload) = NAL_TYPE_AP then process_aggregation payload s
     else if nal_type (hd payload) = NAL_TYPE_FU then process_fragmentation payload s
     else emit_nal payload (reset_fu s))"

text \<open>None of this touches the reorder buffer or the cursor.\<close>

lemma write_annexb_queue [simp]:
  "hv_reorder (write_annexb nal s) = hv_reorder s" "hv_next_seq (write_annexb nal s) = hv_next_seq s"
  by (simp_all add: write_annexb_def)

lemma fold_write_queue [simp]:
  "hv_reorder (fold write_annexb ns s) = hv_reorder s" "hv_next_seq (fold write_annexb ns s) = hv_next_seq s"
  by (induction ns arbitrary: s) simp_all

lemma emit_nal_queue [simp]:
  "hv_reorder (emit_nal nal s) = hv_reorder s" "hv_next_seq (emit_nal nal s) = hv_next_seq s"
  by (simp_all add: emit_nal_def inject_params_def cache_params_def Let_def)

lemma aggregation_queue:
  "hv_reorder (aggregation_nals off p s) = hv_reorder s \<and> hv_next_seq (aggregation_nals off p s) = hv_next_seq s"
proof (induction off p s rule: aggregation_nals.induct)
  case (1 off p s)
  then show ?case by (subst (1 2) aggregation_nals.simps) (simp add: Let_def split: option.split)
qed

lemma process_payload_queue [simp]:
  "hv_reorder (process_payload p s) = hv_reorder s" "hv_next_seq (process_payload p s) = hv_next_seq s"
  by (simp_all add: process_payload_def process_aggregation_def process_fragmentation_def finish_fu_def
      reset_fu_def aggregation_queue Let_def)

section \<open>Reordering\<close>

definition seq_less_than :: "u16 \<Rightarrow> u16 \<Rightarrow> bool" where
  "seq_less_than a b \<longleftrightarrow> (let diff = b - a in diff \<noteq> 0 \<and> diff < 0x8000)"

text \<open>The body of \<open>drain_in_order\<close> for one packet.\<close>

definition deliver :: "u32 \<times> byte list \<Rightarrow> hevc \<Rightarrow> hevc" where
  "deliver p s =
    (let s1 = (case hv_last_ts s of
           Some prev \<Rightarrow> if prev \<noteq> fst p then write_annexb AUD_NAL s else s | None \<Rightarrow> s)
     in process_payload (snd p) (s1\<lparr>hv_last_ts := Some (fst p)\<rparr>))"

lemma deliver_queue [simp]:
  "hv_reorder (deliver p s) = hv_reorder s" "hv_next_seq (deliver p s) = hv_next_seq s"
  by (simp_all add: deliver_def Let_def split: option.split)

lemma bt_remove_length: "bt_remove k m = Some (v, m') \<Longrightarrow> length m = Suc (length m')"
  by (induction m arbitrary: m') (auto split: if_splits)

function drain_in_order :: "hevc \<Rightarrow> hevc" where
  "drain_in_order s =
    (case hv_next_seq s of
       None \<Rightarrow> s
     | Some next \<Rightarrow>
         (case bt_remove next (hv_reorder s) of
            None \<Rightarrow> s
          | Some (p, m) \<Rightarrow>
              drain_in_order ((deliver p (s\<lparr>hv_reorder := m\<rparr>))\<lparr>hv_next_seq := Some (next + 1)\<rparr>)))"
  by pat_completeness auto
termination drain_in_order
  by (relation "measure (\<lambda>s. length (hv_reorder s))") (auto dest: bt_remove_length)

declare drain_in_order.simps [simp del]

text \<open>The end of \<open>push\<close>: a buffer that is too full skips to its lowest key.\<close>

definition skip_gap :: "hevc \<Rightarrow> hevc" where
  "skip_gap s =
    (if length (hv_reorder s) > MAX_REORDER_BUFFER
     then (case hv_reorder s of
             [] \<Rightarrow> s
           | (lowest, _) # _ \<Rightarrow> drain_in_order ((reset_fu s)\<lparr>hv_next_seq := Some lowest\<rparr>))
     else s)"

definition push :: "u16 \<Rightarrow> u32 \<Rightarrow> byte list \<Rightarrow> hevc \<Rightarrow> hevc" where
  "push seq timestamp payload s =
    (let s1 = (case hv_next_seq s of None \<Rightarrow> s\<lparr>hv_next_seq := Some seq\<rparr> | Some _ \<Rightarrow> s)
     in if (case hv_next_seq s1 of Some next \<Rightarrow> seq_less_than seq next | None \<Rightarrow> False) then s1
        else skip_gap (drain_in_order
          (s1\<lparr>hv_reorder := bt_insert seq (timestamp, payload) (hv_reorder s1)\<rparr>)))"

section \<open>The reorder buffer against unbounded indices\<close>

text \<open>
  The specification counts packets from 0 without wrapping: the cursor is the next index to deliver,
  the buffer the indices beyond it that have arrived. An arrival behind the cursor is dropped; any
  other is kept, and the cursor runs over everything it can. \<open>in_window\<close> says that no arrival is
  further than half the sequence space from the cursor and that the buffer stays within its bound.
\<close>

function next_missing :: "nat \<Rightarrow> nat list \<Rightarrow> nat \<times> nat list" where
  "next_missing c B = (if c \<in> set B then next_missing (Suc c) (removeAll c B) else (c, B))"
  by pat_completeness auto
termination next_missing
  by (relation "measure (\<lambda>(c, B). length B)") (auto intro: length_removeAll_less)

declare next_missing.simps [simp del]

definition arrive :: "nat \<Rightarrow> nat \<times> nat list \<Rightarrow> nat \<times> nat list" where
  "arrive i cB = (if i < fst cB then cB else next_missing (fst cB) (List.insert i (snd cB)))"

fun in_window :: "nat \<times> nat list \<Rightarrow> nat list \<Rightarrow> bool" where
  "in_window cB [] \<longleftrightarrow> True"
| "in_window cB (i # is) \<longleftrightarrow>
    i < fst cB + 2 ^ 15 \<and> fst cB < i + 2 ^ 15 \<and> length (snd (arrive i cB)) \<le> MAX_REORDER_BUFFER \<and>
    in_window (arrive i cB) is"

lemma next_missing_range: "next_missing c B = (c', B') \<Longrightarrow> set B' = set B - {c..<c'} \<and> c \<le> c' \<and> c' \<notin> set B \<and>
    {c..<c'} \<subseteq> set B"
proof (induction c B rule: next_missing.induct)
  case (1 c B)
  show ?case
  proof (cases "c \<in> set B")
    case True
    with 1 have "set B' = set B - {c} - {Suc c..<c'} \<and> Suc c \<le> c' \<and> c' \<notin> set B - {c} \<and> {Suc c..<c'} \<subseteq> set B - {c}"
      by (auto simp: next_missing.simps [of c B])
    moreover from this have "c' \<notin> set B" "c < c'" by auto
    moreover have "{c..<c'} = insert c {Suc c..<c'}" using \<open>c < c'\<close> by auto
    ultimately show ?thesis using True by auto
  next
    case False
    with 1(2) show ?thesis by (auto simp: next_missing.simps [of c B])
  qed
qed

lemma next_missing_distinct: "distinct B \<Longrightarrow> distinct (snd (next_missing c B))"
  by (induction c B rule: next_missing.induct) (subst next_missing.simps, simp add: distinct_removeAll)

section \<open>Ordered maps as sets of entries\<close>

lemma bt_insert_set: "bt_keys m \<Longrightarrow> set (bt_insert k v m) = insert (k, v) {x \<in> set m. fst x \<noteq> k}"
proof (induction m)
  case (Cons e m)
  then show ?case by (cases e) (auto split: if_splits)
qed simp

lemma bt_insert_keys: "bt_keys m \<Longrightarrow> bt_keys (bt_insert k v m)"
proof (induction k v m rule: bt_insert.induct)
  case (2 k v a b m)
  then show ?case by (auto simp: bt_insert_set)
qed simp

lemma bt_remove_None: "bt_remove k m = None \<longleftrightarrow> k \<notin> fst ` set m"
proof (induction m)
  case (Cons e m)
  then show ?case by (cases e) auto
qed simp

lemma bt_remove_Some:
  "bt_keys m \<Longrightarrow> bt_remove k m = Some (v, m') \<Longrightarrow>
    bt_keys m' \<and> (k, v) \<in> set m \<and> set m' = {x \<in> set m. fst x \<noteq> k}"
proof (induction m arbitrary: m')
  case (Cons e m)
  obtain a b where e: "e = (a, b)" by (cases e)
  show ?case
  proof (cases "k = a")
    case True
    with Cons.prems e show ?thesis by (auto split: if_splits)
  next
    case False
    with Cons.prems e obtain m1 where m1: "bt_remove k m = Some (v, m1)" "m' = (a, b) # m1"
      by (auto split: if_splits)
    with Cons.IH [of m1] Cons.prems e False show ?thesis by auto
  qed
qed simp

lemma bt_length: "bt_keys m \<Longrightarrow> length m = card (set m)"
  by (induction m) (auto simp: distinct_card [symmetric] intro: distinct_card [symmetric])

section \<open>Delivery does not depend on the buffer\<close>

definition with_queue :: "(u16 \<times> u32 \<times> byte list) list \<Rightarrow> u16 option \<Rightarrow> hevc \<Rightarrow> hevc" where
  "with_queue m n s = s\<lparr>hv_reorder := m, hv_next_seq := n\<rparr>"

lemma with_queue_fields [simp]:
  "hv_reorder (with_queue m n s) = m" "hv_next_seq (with_queue m n s) = n"
  "hv_last_ts (with_queue m n s) = hv_last_ts s" "hv_fu_buffer (with_queue m n s) = hv_fu_buffer s"
  "hv_fu_active (with_queue m n s) = hv_fu_active s" "hv_vps (with_queue m n s) = hv_vps s"
  "hv_sps (with_queue m n s) = hv_sps s" "hv_pps (with_queue m n s) = hv_pps s"
  "hv_params_emitted (with_queue m n s) = hv_params_emitted s" "hv_out (with_queue m n s) = hv_out s"
  by (simp_all add: with_queue_def)

lemma with_queue_upd [simp]:
  "(with_queue m n s)\<lparr>hv_last_ts := t\<rparr> = with_queue m n (s\<lparr>hv_last_ts := t\<rparr>)"
  "(with_queue m n s)\<lparr>hv_fu_buffer := b\<rparr> = with_queue m n (s\<lparr>hv_fu_buffer := b\<rparr>)"
  "(with_queue m n s)\<lparr>hv_fu_active := a\<rparr> = with_queue m n (s\<lparr>hv_fu_active := a\<rparr>)"
  "(with_queue m n s)\<lparr>hv_vps := v\<rparr> = with_queue m n (s\<lparr>hv_vps := v\<rparr>)"
  "(with_queue m n s)\<lparr>hv_sps := v\<rparr> = with_queue m n (s\<lparr>hv_sps := v\<rparr>)"
  "(with_queue m n s)\<lparr>hv_pps := v\<rparr> = with_queue m n (s\<lparr>hv_pps := v\<rparr>)"
  "(with_queue m n s)\<lparr>hv_params_emitted := a\<rparr> = with_queue m n (s\<lparr>hv_params_emitted := a\<rparr>)"
  "(with_queue m n s)\<lparr>hv_out := b\<rparr> = with_queue m n (s\<lparr>hv_out := b\<rparr>)"
  "(with_queue m n s)\<lparr>hv_reorder := m'\<rparr> = with_queue m' n s"
  "(with_queue m n s)\<lparr>hv_next_seq := n'\<rparr> = with_queue m n' s"
  "with_queue m' n' (with_queue m n s) = with_queue m' n' s"
  "with_queue (hv_reorder s) (hv_next_seq s) s = s"
  by (simp_all add: with_queue_def)

lemma with_queue_absorb:
  "with_queue m n (s\<lparr>hv_reorder := m'\<rparr>) = with_queue m n s"
  "with_queue m n (s\<lparr>hv_next_seq := n'\<rparr>) = with_queue m n s"
  by (simp_all add: with_queue_def)

lemma write_annexb_wq [simp]: "write_annexb nal (with_queue m n s) = with_queue m n (write_annexb nal s)"
  by (simp add: write_annexb_def)

lemma fold_write_wq [simp]: "fold write_annexb ns (with_queue m n s) = with_queue m n (fold write_annexb ns s)"
  by (induction ns arbitrary: s) simp_all

lemma emit_nal_wq [simp]: "emit_nal nal (with_queue m n s) = with_queue m n (emit_nal nal s)"
proof -
  have c: "cache_params t nal (with_queue m n s) = with_queue m n (cache_params t nal s)" for t
    by (simp add: cache_params_def)
  have i: "inject_params t (with_queue m n s) = with_queue m n (inject_params t s)" for t s
    by (simp add: inject_params_def)
  show ?thesis by (simp add: emit_nal_def Let_def c i)
qed

lemma aggregation_wq:
  "aggregation_nals off p (with_queue m n s) = with_queue m n (aggregation_nals off p s)"
proof (induction off p s rule: aggregation_nals.induct)
  case (1 off p s)
  then show ?case by (subst (1 2) aggregation_nals.simps) (simp add: Let_def split: option.split)
qed

lemma process_payload_wq [simp]: "process_payload p (with_queue m n s) = with_queue m n (process_payload p s)"
proof -
  have r: "reset_fu (with_queue m n s) = with_queue m n (reset_fu s)" for s
    by (simp add: reset_fu_def)
  have f: "finish_fu e (with_queue m n s) = with_queue m n (finish_fu e s)" for e s
    by (simp add: finish_fu_def)
  have g: "process_fragmentation p (with_queue m n s) = with_queue m n (process_fragmentation p s)"
    by (simp add: process_fragmentation_def Let_def f)
  show ?thesis by (simp add: process_payload_def process_aggregation_def aggregation_wq g r)
qed

lemma deliver_wq [simp]: "deliver p (with_queue m n s) = with_queue m n (deliver p s)"
  by (simp add: deliver_def Let_def split: option.split)

section \<open>The simulation\<close>

abbreviation seq_of :: "u16 \<Rightarrow> nat \<Rightarrow> u16" where
  "seq_of s0 i \<equiv> s0 + of_nat i"

definition holds :: "u16 \<Rightarrow> (nat \<Rightarrow> u32 \<times> byte list) \<Rightarrow> nat \<times> nat list \<Rightarrow> hevc \<Rightarrow> bool" where
  "holds s0 pk cB s \<longleftrightarrow>
    hv_next_seq s = Some (seq_of s0 (fst cB)) \<and> bt_keys (hv_reorder s) \<and> distinct (snd cB) \<and>
    (\<forall>j \<in> set (snd cB). fst cB \<le> j \<and> j < fst cB + 2 ^ 15) \<and>
    set (hv_reorder s) = (\<lambda>j. (seq_of s0 j, pk j)) ` set (snd cB)"

definition delivered :: "(nat \<Rightarrow> u32 \<times> byte list) \<Rightarrow> nat \<Rightarrow> hevc \<Rightarrow> bool" where
  "delivered pk c s \<longleftrightarrow> with_queue [] None s = fold deliver (map pk [0..<c]) hevc_new"

lemma of_nat_u16_eq: "(of_nat i :: u16) = of_nat j \<longleftrightarrow> i mod 65536 = j mod 65536"
  using word_of_nat_eq_iff [where 'a = 16, of i j] by (simp add: take_bit_eq_mod)

lemma seq_of_eq:
  assumes "i < j + 65536" and "j < i + 65536"
  shows "seq_of s0 i = seq_of s0 j \<longleftrightarrow> i = j"
proof -
  have le: "a = b" if "a mod 65536 = b mod 65536" "b < a + 65536" "a \<le> b" for a b :: nat
  proof -
    have "(65536 :: nat) dvd b - a" using mod_eq_dvd_iff_nat [of a b 65536] that by simp
    moreover have "b - a < 65536" using that(2) by simp
    ultimately have "b - a = 0" by (metis nat_dvd_not_less not_gr_zero)
    with that(3) show ?thesis by simp
  qed
  have "i mod 65536 = j mod 65536 \<Longrightarrow> i = j"
    using le [of i j] le [of j i] assms by (cases "i \<le> j") auto
  then show ?thesis by (auto simp: of_nat_u16_eq)
qed

lemma seq_less_than_of:
  assumes "i < c + 2 ^ 15" and "c < i + 2 ^ 15"
  shows "seq_less_than (seq_of s0 i) (seq_of s0 c) \<longleftrightarrow> i < c"
proof (cases "i < c")
  case True
  then have "seq_of s0 c - seq_of s0 i = of_nat (c - i)" by (simp add: of_nat_diff)
  moreover have "unat (of_nat (c - i) :: u16) = c - i" using assms by (intro unat_of_nat_u16) simp
  ultimately show ?thesis using True assms
    by (auto simp: seq_less_than_def Let_def word_less_nat_alt unat_eq_0 [symmetric])
next
  case False
  define k where "k = i - c"
  have k: "k < 2 ^ 15" using assms(1) False by (simp add: k_def)
  have d: "seq_of s0 c - seq_of s0 i = - of_nat k" using False by (simp add: k_def of_nat_diff)
  have "(of_nat (65536 - k) :: u16) = of_nat 65536 - of_nat k" using k by (intro of_nat_diff) simp
  then have n: "(- of_nat k :: u16) = of_nat (65536 - k)" by simp
  have "\<not> seq_less_than (seq_of s0 i) (seq_of s0 c)"
  proof (cases "k = 0")
    case True
    with d show ?thesis by (simp add: seq_less_than_def)
  next
    case False
    then have "unat (of_nat (65536 - k) :: u16) = 65536 - k" using k by (intro unat_of_nat_u16) simp
    moreover have "\<not> 65536 - k < 32768" using k by simp
    ultimately show ?thesis
      unfolding seq_less_than_def Let_def d n word_less_nat_alt by (simp del: of_nat_diff)
  qed
  with False show ?thesis by simp
qed

lemma holds_drain:
  assumes "holds s0 pk (c, B) s" and "delivered pk c s"
  shows "holds s0 pk (next_missing c B) (drain_in_order s) \<and>
    delivered pk (fst (next_missing c B)) (drain_in_order s)"
  using assms
proof (induction c B arbitrary: s rule: next_missing.induct)
  case (1 c B)
  note h = 1(2) [unfolded holds_def, simplified]
  have inj: "j \<in> set B \<Longrightarrow> seq_of s0 j = seq_of s0 c \<longleftrightarrow> j = c" for j
    using h by (intro seq_of_eq) (force+)
  show ?case
  proof (cases "c \<in> set B")
    case False
    then have "seq_of s0 c \<notin> fst ` set (hv_reorder s)" using h inj by (fastforce simp: image_image)
    then have "bt_remove (seq_of s0 c) (hv_reorder s) = None" by (simp add: bt_remove_None)
    then have "drain_in_order s = s" using h by (subst drain_in_order.simps) simp
    with False 1(2,3) show ?thesis by (simp add: next_missing.simps [of c B])
  next
    case True
    then have "(seq_of s0 c, pk c) \<in> set (hv_reorder s)" using h by simp
    then obtain v m where r: "bt_remove (seq_of s0 c) (hv_reorder s) = Some (v, m)"
      using bt_remove_None [of "seq_of s0 c" "hv_reorder s"] by (cases "bt_remove (seq_of s0 c) (hv_reorder s)") force+
    note q = bt_remove_Some [OF _ r]
    have "(seq_of s0 c, v) \<in> (\<lambda>j. (seq_of s0 j, pk j)) ` set B" using q h by simp
    then obtain j where "j \<in> set B" "seq_of s0 c = seq_of s0 j" "v = pk j" by auto
    then have v: "v = pk c" using inj [of j] by simp
    define s1 where "s1 = (deliver v (s\<lparr>hv_reorder := m\<rparr>))\<lparr>hv_next_seq := Some (seq_of s0 c + 1)\<rparr>"
    have d: "drain_in_order s = drain_in_order s1"
      using h r by (subst drain_in_order.simps) (simp add: s1_def)
    have "holds s0 pk (Suc c, removeAll c B) s1"
      using h q inj by (auto simp: holds_def s1_def distinct_removeAll algebra_simps Suc_le_eq le_less)
    moreover have "delivered pk (Suc c) s1"
    proof -
      have "with_queue [] None s1 = deliver v (with_queue [] None s)"
        unfolding s1_def with_queue_absorb by (simp only: deliver_wq [symmetric] with_queue_absorb)
      then show ?thesis using 1(3) by (simp add: delivered_def v del: deliver_wq)
    qed
    ultimately show ?thesis using 1(1) [OF True] True by (simp add: d next_missing.simps [of c B])
  qed
qed

text \<open>One arrival of the specification is one \<open>push\<close>.\<close>

lemma holds_length: "holds s0 pk (c, B) s \<Longrightarrow> length (hv_reorder s) = length B"
proof -
  assume h: "holds s0 pk (c, B) s"
  have "inj_on (\<lambda>j. (seq_of s0 j, pk j)) (set B)"
  proof (rule inj_onI)
    fix i j assume ij: "i \<in> set B" "j \<in> set B" "(seq_of s0 i, pk i) = (seq_of s0 j, pk j)"
    have "c \<le> i \<and> i < c + 2 ^ 15" "c \<le> j \<and> j < c + 2 ^ 15" using h ij(1,2) by (auto simp: holds_def)
    then have "i < j + 65536" "j < i + 65536" by simp_all
    then show "i = j" using ij seq_of_eq by blast
  qed
  then have "card (set (hv_reorder s)) = length B"
    using h by (simp add: holds_def card_image distinct_card)
  then show ?thesis using h by (simp add: holds_def bt_length)
qed

lemma push_arrive:
  assumes "holds s0 pk cB s" and "delivered pk (fst cB) s" and "in_window cB (i # is)"
  shows "holds s0 pk (arrive i cB) (push (seq_of s0 i) (fst (pk i)) (snd (pk i)) s) \<and>
    delivered pk (fst (arrive i cB)) (push (seq_of s0 i) (fst (pk i)) (snd (pk i)) s)"
proof -
  obtain c B where cB: "cB = (c, B)" by (cases cB)
  note h = assms(1) [unfolded holds_def cB, simplified]
  have w: "i < c + 2 ^ 15" "c < i + 2 ^ 15" using assms(3) by (simp_all add: cB)
  have nx: "hv_next_seq s = Some (seq_of s0 c)" using h by simp
  show ?thesis
  proof (cases "i < c")
    case True
    then have "push (seq_of s0 i) (fst (pk i)) (snd (pk i)) s = s"
      using seq_less_than_of [OF w, of s0] by (simp add: push_def nx)
    with True assms show ?thesis by (simp add: arrive_def cB)
  next
    case False
    define s1 where "s1 = s\<lparr>hv_reorder := bt_insert (seq_of s0 i) (pk i) (hv_reorder s)\<rparr>"
    have same: "j \<in> set B \<Longrightarrow> seq_of s0 j = seq_of s0 i \<longleftrightarrow> j = i" for j
      using h w False by (intro seq_of_eq) force+
    have "set (hv_reorder s1) = (\<lambda>j. (seq_of s0 j, pk j)) ` set (List.insert i B)"
    proof -
      have "{x \<in> set (hv_reorder s). fst x \<noteq> seq_of s0 i} = (\<lambda>j. (seq_of s0 j, pk j)) ` (set B - {i})"
        using h same by auto
      then show ?thesis using h by (auto simp: s1_def bt_insert_set)
    qed
    then have "holds s0 pk (c, List.insert i B) s1"
      using h w False by (auto simp: holds_def s1_def bt_insert_keys)
    moreover have "delivered pk c s1"
      using assms(2) by (simp add: delivered_def s1_def with_queue_def cB)
    ultimately have d: "holds s0 pk (arrive i cB) (drain_in_order s1) \<and> delivered pk (fst (arrive i cB)) (drain_in_order s1)"
      using holds_drain False by (simp add: arrive_def cB)
    moreover have "length (hv_reorder (drain_in_order s1)) \<le> MAX_REORDER_BUFFER"
      using holds_length [of s0 pk "fst (arrive i cB)" "snd (arrive i cB)" "drain_in_order s1"] d assms(3) by simp
    then have "skip_gap (drain_in_order s1) = drain_in_order s1" by (simp add: skip_gap_def)
    moreover have "push (seq_of s0 i) (fst (pk i)) (snd (pk i)) s = skip_gap (drain_in_order s1)"
      using False seq_less_than_of [OF w, of s0] by (simp add: push_def nx s1_def Let_def)
    ultimately show ?thesis by simp
  qed
qed

definition push_packet :: "u16 \<Rightarrow> (nat \<Rightarrow> u32 \<times> byte list) \<Rightarrow> nat \<Rightarrow> hevc \<Rightarrow> hevc" where
  "push_packet s0 pk i s = push (seq_of s0 i) (fst (pk i)) (snd (pk i)) s"

lemma push_arrivals:
  assumes "holds s0 pk cB s" and "delivered pk (fst cB) s" and "in_window cB is"
  shows "holds s0 pk (fold arrive is cB) (fold (push_packet s0 pk) is s) \<and>
    delivered pk (fst (fold arrive is cB)) (fold (push_packet s0 pk) is s)"
  using assms
proof (induction "is" arbitrary: cB s)
  case (Cons i "is")
  from push_arrive [OF Cons.prems] have
    "holds s0 pk (arrive i cB) (push_packet s0 pk i s)" "delivered pk (fst (arrive i cB)) (push_packet s0 pk i s)"
    by (simp_all add: push_packet_def)
  with Cons.IH Cons.prems(3) show ?case by simp
qed simp

lemma arrivals_done:
  assumes "\<And>j. j < c \<or> j \<in> set B \<longleftrightarrow> j \<in> S" and "c \<notin> set B" and "fold arrive is (c, B) = (c', B')"
  shows "c' \<notin> set B' \<and> (\<forall>j. j < c' \<or> j \<in> set B' \<longleftrightarrow> j \<in> S \<union> set is)"
  using assms
proof (induction "is" arbitrary: c B S)
  case (Cons i "is")
  obtain c1 B1 where a: "arrive i (c, B) = (c1, B1)" by (cases "arrive i (c, B)")
  have "c1 \<notin> set B1 \<and> (\<forall>j. j < c1 \<or> j \<in> set B1 \<longleftrightarrow> j \<in> insert i S)"
  proof (cases "i < c")
    case True
    with a Cons.prems show ?thesis by (auto simp: arrive_def)
  next
    case False
    with a have "next_missing c (List.insert i B) = (c1, B1)" by (simp add: arrive_def)
    from next_missing_range [OF this] have r: "set B1 = insert i (set B) - {c..<c1}" "c \<le> c1"
      "c1 \<notin> insert i (set B)" "{c..<c1} \<subseteq> insert i (set B)" by simp_all
    have "j < c1 \<or> j \<in> set B1 \<longleftrightarrow> j = i \<or> j < c \<or> j \<in> set B" for j
      using r(2) subsetD [OF r(4), of j] by (cases "j < c"; cases "j < c1") (auto simp: r(1))
    with Cons.prems(1) r(1,3) show ?thesis by simp
  qed
  with Cons.IH [of c1 B1 "insert i S"] Cons.prems(3) a show ?case by auto
qed auto

text \<open>
  C23. Whatever the order in which the packets of a stream arrive, and however often each does, the
  depacketizer ends in the state it has when they arrive once each and in order, as long as the first
  to arrive is the first of the stream, no packet is half the sequence space away from the cursor, and no
  more than 128 wait. The sequence numbers wrap as they like.
\<close>

theorem hevc_reorder:
  assumes "in_window (0, []) (0 # is)" and "set (0 # is) = {0..<n}"
  shows "fold (push_packet s0 pk) (0 # is) hevc_new =
    (fold deliver (map pk [0..<n]) hevc_new)\<lparr>hv_next_seq := Some (s0 + of_nat n)\<rparr>"
proof -
  obtain c B where cB: "fold arrive (0 # is) (0, []) = (c, B)" by (cases "fold arrive (0 # is) (0, [])")
  let ?s = "fold (push_packet s0 pk) (0 # is) hevc_new"
  let ?new = "hevc_new\<lparr>hv_next_seq := Some s0\<rparr>"
  have "push_packet s0 pk 0 hevc_new = push_packet s0 pk 0 ?new"
    by (simp add: push_packet_def push_def hevc_new_def)
  then have s: "?s = fold (push_packet s0 pk) (0 # is) ?new" by simp
  have "holds s0 pk (0, []) ?new" "delivered pk 0 ?new"
    by (simp_all add: holds_def delivered_def hevc_new_def with_queue_def)
  from push_arrivals [OF this(1), of "0 # is"] this(2) assms(1)
  have h: "holds s0 pk (c, B) ?s" "delivered pk c ?s" using cB unfolding s by simp_all
  have d: "c \<notin> set B" "\<And>j. j < c \<or> j \<in> set B \<longleftrightarrow> j < n"
    using arrivals_done [OF _ _ cB, of "{}"] unfolding assms(2) by simp_all
  have "c = n" using d by (metis linorder_neqE_nat less_irrefl)
  moreover from this have "B = []"
    using d h(1) by (auto simp: holds_def) (metis last_in_set not_le)
  ultimately have "hv_reorder ?s = []" "hv_next_seq ?s = Some (s0 + of_nat n)"
    "with_queue [] None ?s = fold deliver (map pk [0..<n]) hevc_new"
    using h by (simp_all add: holds_def delivered_def)
  moreover have "?s = (with_queue [] None ?s)\<lparr>hv_reorder := hv_reorder ?s, hv_next_seq := hv_next_seq ?s\<rparr>"
    by (simp add: with_queue_def)
  moreover have "hv_reorder (fold deliver ps hevc_new) = []" for ps
  proof -
    have "hv_reorder (fold deliver ps s) = hv_reorder s" for s by (induction ps arbitrary: s) simp_all
    then show ?thesis by (simp add: hevc_new_def)
  qed
  ultimately show ?thesis by (metis hevc.surjective hevc.update_convs(1))
qed

theorem hevc_reorder_witness:
  "fold (push_packet 0xFFFF (\<lambda>i. (of_nat i div 2, [0x02, 1, of_nat i]))) [0, 2, 1, 1, 4, 3, 0] hevc_new =
    (fold deliver (map (\<lambda>i. (of_nat i div 2, [0x02, 1, of_nat i])) [0..<5]) hevc_new)
      \<lparr>hv_next_seq := Some (0xFFFF + of_nat 5)\<rparr>"
proof (rule hevc_reorder)
  show "in_window (0, []) [0, 2, 1, 1, 4, 3, 0]"
    by (simp add: arrive_def next_missing.simps List.insert_def MAX_REORDER_BUFFER_def)
  show "set [0, 2, 1, 1, 4, 3, 0] = {0..<5 :: nat}" by auto
qed

section \<open>Fragments and aggregates\<close>

text \<open>
  The fragments of a NAL unit as the standard writes them: the header's two bytes with type 49, a byte
  with the start and end marks and the type, and a piece of the unit's body.
\<close>

definition fragment :: "byte list \<Rightarrow> bool \<Rightarrow> bool \<Rightarrow> byte list \<Rightarrow> byte list" where
  "fragment nal first final piece =
    [(nal ! 0 AND 0x81) OR push_bit 1 NAL_TYPE_FU, nal ! 1,
     (if first then 0x80 else 0) OR (if final then 0x40 else 0) OR nal_type (nal ! 0)] @ piece"

fun later_fragments :: "byte list \<Rightarrow> byte list list \<Rightarrow> byte list list" where
  "later_fragments nal [] = []"
| "later_fragments nal [p] = [fragment nal False True p]"
| "later_fragments nal (p # ps) = fragment nal False False p # later_fragments nal ps"

definition fragments :: "byte list \<Rightarrow> byte list list \<Rightarrow> byte list list" where
  "fragments nal ps = fragment nal True False (hd ps) # later_fragments nal (tl ps)"

definition aggregate :: "byte \<Rightarrow> byte \<Rightarrow> byte list list \<Rightarrow> byte list" where
  "aggregate b0 b1 nals =
    [(b0 AND 0x81) OR push_bit 1 NAL_TYPE_AP, b1] @
    concat (map (\<lambda>nal. to_be_bytes (of_nat (length nal) :: u16) @ nal) nals)"

lemma byte_all: "(\<forall>n \<in> set [0..<256]. P (of_nat n :: byte)) \<Longrightarrow> P b"
proof -
  assume "\<forall>n \<in> set [0..<256]. P (of_nat n :: byte)"
  moreover have "unat b \<in> set [0..<256]" using unat_byte_bound [of b] by simp
  moreover have "b = of_nat (unat b)" by simp
  ultimately show ?thesis by metis
qed

lemma byte_mask: "b AND 0xff = (b :: byte)"
  by (rule byte_all [of _ b], code_simp)

lemma retyped: "nal_type ((b AND 0x81) OR push_bit 1 NAL_TYPE_FU) = NAL_TYPE_FU"
  "nal_type ((b AND 0x81) OR push_bit 1 NAL_TYPE_AP) = NAL_TYPE_AP"
  "(((b AND 0x81) OR push_bit 1 NAL_TYPE_FU) AND 0x81) OR push_bit 1 (nal_type b) = b AND 0xff"
  by (rule byte_all [of _ b], code_simp)+

lemma nal_type_bound: "unat (nal_type b) < 64"
  by (rule byte_all [of _ b], code_simp)

lemma fu_header:
  "(((if f then 0x80 else 0) OR (if l then 0x40 else 0) OR nal_type b) AND 0x80 \<noteq> 0) = f \<and>
    (((if f then 0x80 else 0) OR (if l then 0x40 else 0) OR nal_type b) AND 0x40 \<noteq> 0) = l \<and>
    ((if f then 0x80 else 0) OR (if l then 0x40 else 0) OR nal_type b) AND 0x3f = nal_type b"
proof -
  have "\<forall>f \<in> {True, False}. \<forall>l \<in> {True, False}. \<forall>n \<in> set [0..<64].
    (((if f then 0x80 else 0) OR (if l then 0x40 else 0) OR (of_nat n :: byte)) AND 0x80 \<noteq> 0) = f \<and>
    (((if f then 0x80 else 0) OR (if l then 0x40 else 0) OR (of_nat n :: byte)) AND 0x40 \<noteq> 0) = l \<and>
    ((if f then 0x80 else 0) OR (if l then 0x40 else 0) OR (of_nat n :: byte)) AND 0x3f = (of_nat n :: byte)"
    by code_simp
  then have "\<forall>n \<in> set [0..<64].
    (((if f then 0x80 else 0) OR (if l then 0x40 else 0) OR (of_nat n :: byte)) AND 0x80 \<noteq> 0) = f \<and>
    (((if f then 0x80 else 0) OR (if l then 0x40 else 0) OR (of_nat n :: byte)) AND 0x40 \<noteq> 0) = l \<and>
    ((if f then 0x80 else 0) OR (if l then 0x40 else 0) OR (of_nat n :: byte)) AND 0x3f = (of_nat n :: byte)"
    by blast
  moreover have "unat (nal_type b) \<in> set [0..<64]" using nal_type_bound by simp
  moreover have "nal_type b = of_nat (unat (nal_type b))" by simp
  ultimately show ?thesis by metis
qed

lemma process_fragment:
  "process_payload (fragment nal f l piece) s =
    (if f then finish_fu l (s\<lparr>hv_fu_buffer := [nal ! 0, nal ! 1] @ piece, hv_fu_active := True\<rparr>)
     else if hv_fu_active s then finish_fu l (s\<lparr>hv_fu_buffer := hv_fu_buffer s @ piece\<rparr>) else s)"
proof -
  have i: "fragment nal f l piece ! 0 = (nal ! 0 AND 0x81) OR push_bit 1 NAL_TYPE_FU"
    "hd (fragment nal f l piece) = (nal ! 0 AND 0x81) OR push_bit 1 NAL_TYPE_FU"
    "fragment nal f l piece ! 1 = nal ! 1" "drop 3 (fragment nal f l piece) = piece"
    "fragment nal f l piece ! 2 = (if f then 0x80 else 0) OR (if l then 0x40 else 0) OR nal_type (nal ! 0)"
    "length (fragment nal f l piece) = 3 + length piece"
    by (simp_all add: fragment_def)
  have "NAL_TYPE_FU \<noteq> NAL_TYPE_AP" by (simp add: NAL_TYPE_FU_def NAL_TYPE_AP_def)
  then show ?thesis
    unfolding process_payload_def process_fragmentation_def i retyped Let_def
      fu_header [THEN conjunct1] fu_header [THEN conjunct2, THEN conjunct1] fu_header [THEN conjunct2, THEN conjunct2]
    by (simp add: HEVC_NAL_HEADER_LEN_def byte_mask)
qed

lemma later_fragments_emit:
  "hv_fu_active s \<Longrightarrow> ps \<noteq> [] \<Longrightarrow>
   fold process_payload (later_fragments nal ps) s = emit_nal (hv_fu_buffer s @ concat ps) (reset_fu s)"
proof (induction nal ps arbitrary: s rule: later_fragments.induct)
  case (3 nal p q ps)
  then show ?case by (simp add: process_fragment finish_fu_def reset_fu_def)
qed (simp_all add: process_fragment finish_fu_def reset_fu_def)

text \<open>
  A NAL unit split into fragments, however it is cut, leaves the depacketizer as the unit itself
  would have: one unit is written, with the header's type restored.
\<close>

theorem hevc_fragments:
  assumes "2 \<le> length nal" and "2 \<le> length ps" and "concat ps = drop 2 nal"
  shows "fold process_payload (fragments nal ps) s = emit_nal nal (reset_fu s)"
proof -
  from assms(2) obtain p q r where ps: "ps = p # q # r" by (cases ps; cases "tl ps") auto
  have "[nal ! 0, nal ! 1] @ drop 2 nal = nal"
    using assms(1) by (cases nal; cases "tl nal") auto
  with assms(3) have "nal ! 0 # nal ! 1 # p @ concat (q # r) = nal" by (simp add: ps)
  then show ?thesis
    by (simp add: fragments_def ps process_fragment finish_fu_def later_fragments_emit reset_fu_def del: concat.simps)
qed

theorem hevc_fragments_witness:
  "fold process_payload (fragments [0x26, 0x01, 10, 11, 12] [[10], [], [11, 12]]) hevc_new =
    emit_nal [0x26, 0x01, 10, 11, 12] (reset_fu hevc_new)"
  by (rule hevc_fragments) simp_all

lemma aggregation_cut:
  assumes "\<forall>nal \<in> set nals. length nal < 2 ^ 16"
  shows "aggregation_nals (length a)
     (a @ concat (map (\<lambda>nal. to_be_bytes (of_nat (length nal) :: u16) @ nal) nals)) s = fold emit_nal nals s"
  using assms
proof (induction nals arbitrary: a s)
  case Nil
  then show ?case by (simp add: aggregation_nals.simps)
next
  case (Cons n ns)
  let ?w = "to_be_bytes (of_nat (length n) :: u16)"
  let ?r = "concat (map (\<lambda>nal. to_be_bytes (of_nat (length nal) :: u16) @ nal) ns)"
  have u: "unat (of_nat (length n) :: u16) = length n" using Cons.prems by (intro unat_of_nat_u16) simp
  let ?b = "a @ ?w @ n @ ?r"
  have g: "get_range (length a + 2) (length a + 2 + length n) ?b = Some n"
    by (simp add: get_range_def)
  have f: "sub (length a) 2 ?b = ?w" by simp
  have l: "length a + 2 \<le> length ?b" by simp
  have "aggregation_nals (length (a @ ?w @ n)) ((a @ ?w @ n) @ ?r) (emit_nal n s) = fold emit_nal ns (emit_nal n s)"
    using Cons.prems by (intro Cons.IH) simp
  then have "aggregation_nals (length a + 2 + length n) ?b (emit_nal n s) = fold emit_nal ns (emit_nal n s)"
    by (simp add: add.assoc)
  moreover have "aggregation_nals (length a) ?b s = aggregation_nals (length a + 2 + length n) ?b (emit_nal n s)"
    unfolding aggregation_nals.simps [of "length a" ?b] Let_def f from_to_bytes u g using l by simp
  moreover have "concat (map (\<lambda>nal. to_be_bytes (of_nat (length nal) :: u16) @ nal) (n # ns)) = ?w @ n @ ?r" by simp
  ultimately show ?case by (simp only: fold_simps)
qed

text \<open>
  An aggregation packet leaves the depacketizer as its NAL units one after the other would have.
\<close>

theorem hevc_aggregate:
  assumes "\<forall>nal \<in> set nals. length nal < 2 ^ 16"
  shows "process_payload (aggregate b0 b1 nals) s = fold emit_nal nals (reset_fu s)"
proof -
  have "hd (aggregate b0 b1 nals) = (b0 AND 0x81) OR push_bit 1 NAL_TYPE_AP" by (simp add: aggregate_def)
  then have "nal_type (hd (aggregate b0 b1 nals)) = NAL_TYPE_AP" by (simp only: retyped)
  moreover have "2 \<le> length (aggregate b0 b1 nals)" by (simp add: aggregate_def)
  moreover have "aggregation_nals (length [(b0 AND 0x81) OR push_bit 1 NAL_TYPE_AP, b1]) (aggregate b0 b1 nals) t =
      fold emit_nal nals t" for t
    unfolding aggregate_def by (rule aggregation_cut [OF assms])
  ultimately show ?thesis
    by (simp add: process_payload_def process_aggregation_def HEVC_NAL_HEADER_LEN_def numeral_2_eq_2)
qed

theorem hevc_aggregate_witness:
  "process_payload (aggregate 0 1 [[0x40, 1, 7], [0x42, 1], []]) hevc_new =
    fold emit_nal [[0x40, 1, 7], [0x42, 1], []] (reset_fu hevc_new)"
  by (rule hevc_aggregate) simp

section \<open>A gap at the wrap\<close>

lemma word_of_nat_Suc: "(of_nat (Suc i) :: u16) = 1 + of_nat i"
  by (rule of_nat_Suc)

abbreviation entries_at :: "(nat \<Rightarrow> u32 \<times> byte list) \<Rightarrow> nat list \<Rightarrow> (u16 \<times> u32 \<times> byte list) list" where
  "entries_at pk is \<equiv> map (\<lambda>i. (of_nat i, pk i)) is"

lemma bt_remove_absent: "k \<notin> fst ` set m \<Longrightarrow> bt_remove k m = None"
  by (simp add: bt_remove_None)

lemma drain_run:
  assumes "i \<le> j" and "\<forall>h \<in> set hs. j < h \<and> h < 2 ^ 16"
    and "hv_reorder s = entries_at pk ([i..<j] @ hs)" and "hv_next_seq s = Some (of_nat i)"
  shows "hv_reorder (drain_in_order s) = entries_at pk hs \<and> hv_next_seq (drain_in_order s) = Some (of_nat j)"
  using assms
proof (induction "j - i" arbitrary: i s)
  case 0
  then have ij: "i = j" by simp
  have "(of_nat i :: u16) \<noteq> of_nat h" if "h \<in> set hs" for h
    using 0(3) that ij seq_of_eq [of i h 0] by force
  then have "bt_remove (of_nat i) (hv_reorder s) = None"
    using 0(4) ij by (intro bt_remove_absent) (auto simp: image_image)
  then have "drain_in_order s = s" using 0(5) by (subst drain_in_order.simps) simp
  then show ?case using 0(4,5) ij by simp
next
  case (Suc k)
  then have r: "hv_reorder s = (of_nat i, pk i) # entries_at pk ([Suc i..<j] @ hs)"
    by (simp add: upt_conv_Cons)
  define s1 where "s1 = (deliver (pk i) (s\<lparr>hv_reorder := entries_at pk ([Suc i..<j] @ hs)\<rparr>))\<lparr>hv_next_seq := Some (of_nat (Suc i))\<rparr>"
  have "drain_in_order s = drain_in_order s1"
    using Suc(6) by (subst drain_in_order.simps) (simp add: r s1_def add.commute of_nat_Suc)
  moreover have "hv_reorder (drain_in_order s1) = entries_at pk hs \<and> hv_next_seq (drain_in_order s1) = Some (of_nat j)"
    using Suc(2-4) by (intro Suc(1) [of "Suc i" s1]) (simp_all add: s1_def word_of_nat_Suc)
  ultimately show ?case by simp
qed

text \<open>
  Numbers wrap, but the full buffer skips to its numerically lowest key: when it holds packets from
  both sides of the wrap, the cursor jumps over those before it, which stay in the buffer undelivered,
  behind a cursor that rejects them as long passed.
\<close>

theorem hevc_gap_at_wrap:
  assumes "0 < j" and "\<forall>h \<in> set hs. 0x8000 + j < h \<and> h < 2 ^ 16" and "128 < j + length hs"
    and "hv_reorder s = entries_at pk ([0..<j] @ hs)"
  shows "hv_reorder (skip_gap s) = entries_at pk hs \<and> hv_next_seq (skip_gap s) = Some (of_nat j) \<and>
    (\<forall>h \<in> set hs. seq_less_than (of_nat h) (of_nat j))"
proof -
  have h: "hv_reorder s = (0, pk 0) # entries_at pk ([1..<j] @ hs)"
    using assms(1,4) by (simp add: upt_conv_Cons)
  have "length (hv_reorder s) > MAX_REORDER_BUFFER"
    using assms(3) by (simp add: assms(4) MAX_REORDER_BUFFER_def)
  then have "skip_gap s = drain_in_order ((reset_fu s)\<lparr>hv_next_seq := Some 0\<rparr>)"
    by (simp add: skip_gap_def h)
  moreover have "hv_reorder (drain_in_order ((reset_fu s)\<lparr>hv_next_seq := Some 0\<rparr>)) = entries_at pk hs \<and>
      hv_next_seq (drain_in_order ((reset_fu s)\<lparr>hv_next_seq := Some 0\<rparr>)) = Some (of_nat j)"
    using assms(2) by (intro drain_run [of 0]) (auto simp: reset_fu_def assms(4))
  moreover have "seq_less_than (of_nat h) (of_nat j)" if "h \<in> set hs" for h
  proof -
    have b: "0x8000 + j < h" "h < 65536" using assms(2) that by simp_all
    have "(of_nat j - of_nat h :: u16) = of_nat (j + 65536 - h)"
      using b by (simp add: of_nat_diff)
    moreover have "unat (of_nat (j + 65536 - h) :: u16) = j + 65536 - h"
      using b by (intro unat_of_nat_u16) simp
    ultimately show ?thesis using b
      unfolding seq_less_than_def Let_def word_less_nat_alt by (auto simp del: of_nat_diff simp: unat_eq_0 [symmetric])
  qed
  ultimately show ?thesis by simp
qed

theorem hevc_gap_at_wrap_witness:
  "hv_next_seq (skip_gap (hevc_new\<lparr>hv_reorder := entries_at (\<lambda>i. (0, [2, 1])) ([0..<115] @ [0xFFF2..<0x10000]),
      hv_next_seq := Some 0xFFF1\<rparr>)) = Some 115"
  using hevc_gap_at_wrap [of 115 "[0xFFF2..<0x10000]"
    "hevc_new\<lparr>hv_reorder := entries_at (\<lambda>i. (0, [2, 1])) ([0..<115] @ [0xFFF2..<0x10000]), hv_next_seq := Some 0xFFF1\<rparr>"
    "\<lambda>i. (0, [2, 1])"] by simp

end
