(* ===== verification/Protobuf.thy ===== *)
theory Protobuf
  imports Prelude Utf8
begin

text \<open>
  services/core\_device/display\_stream/protobuf.rs: the wire format of protocol buffers. An encoder is the
  bytes written so far; a decoder the bytes not yet read (after \<open>next_field\<close> has answered \<open>None\<close> no caller
  looks at it again). A \<open>while let Some(..) = d.next_field()\<close> loop is \<open>fold_fields\<close>.
\<close>

section \<open>Encoder\<close>

type_synonym encoder = "byte list"

definition WIRE_VARINT :: u32 where "WIRE_VARINT = 0"
definition WIRE_LEN :: u32 where "WIRE_LEN = 2"

lemma unat_drop_bit_7: "unat (drop_bit 7 v) = unat (v :: u64) div 128"
  by (simp add: drop_bit_eq_div unat_div)

lemma drop_bit_7_less: "drop_bit 7 v \<noteq> 0 \<Longrightarrow> unat (drop_bit 7 v) < unat (v :: u64)"
  by (auto simp: unat_drop_bit_7 simp flip: unat_eq_0)

function varint_bytes :: "u64 \<Rightarrow> byte list" where
  "varint_bytes v =
    (let b = ucast (v AND 0x7f) :: byte; v' = drop_bit 7 v
     in if v' \<noteq> 0 then (b OR 0x80) # varint_bytes v' else [b])"
  by pat_completeness auto
termination varint_bytes
  by (relation "measure unat") (auto intro: drop_bit_7_less)

declare varint_bytes.simps [simp del]

definition write_varint :: "u64 \<Rightarrow> encoder \<Rightarrow> encoder" where
  "write_varint v buf = buf @ varint_bytes v"

definition write_tag :: "u32 \<Rightarrow> u32 \<Rightarrow> encoder \<Rightarrow> encoder" where
  "write_tag fld wire buf = write_varint (ucast (push_bit 3 fld OR wire)) buf"

definition uint_field :: "u32 \<Rightarrow> u64 \<Rightarrow> encoder \<Rightarrow> encoder" where
  "uint_field fld v buf = write_varint v (write_tag fld WIRE_VARINT buf)"

definition bytes_field :: "u32 \<Rightarrow> byte list \<Rightarrow> encoder \<Rightarrow> encoder" where
  "bytes_field fld v buf = write_varint (of_nat (length v)) (write_tag fld WIRE_LEN buf) @ v"

definition string_field :: "u32 \<Rightarrow> rstring \<Rightarrow> encoder \<Rightarrow> encoder" where
  "string_field fld v buf = bytes_field fld v buf"

definition message_field :: "u32 \<Rightarrow> (encoder \<Rightarrow> encoder) \<Rightarrow> encoder \<Rightarrow> encoder" where
  "message_field fld f buf = bytes_field fld (f []) buf"

text \<open>Writers one after the other.\<close>

abbreviation writes :: "(encoder \<Rightarrow> encoder) list \<Rightarrow> encoder \<Rightarrow> encoder" where
  "writes ws \<equiv> fold (\<lambda>w. w) ws"

section \<open>Decoder\<close>

datatype field = Varint u64 | Len "byte list"

fun varint_loop :: "nat \<Rightarrow> u64 \<Rightarrow> byte list \<Rightarrow> (u64 \<times> byte list) option" where
  "varint_loop shift res [] = None"
| "varint_loop shift res (b # bs) =
    (let res' = res OR push_bit shift (ucast (b AND 0x7f))
     in if b AND 0x80 = 0 then Some (res', bs)
        else if shift + 7 \<ge> 64 then None else varint_loop (shift + 7) res' bs)"

definition read_varint :: "byte list \<Rightarrow> (u64 \<times> byte list) option" where
  "read_varint bs = varint_loop 0 0 bs"

lemma varint_loop_shorter: "varint_loop s r bs = Some (v, bs') \<Longrightarrow> length bs' < length bs"
proof (induction s r bs rule: varint_loop.induct)
  case (2 shift res b bs)
  then show ?case
    by (cases "b AND 0x80 = 0"; cases "shift + 7 \<ge> 64") (fastforce simp: Let_def)+
qed simp

lemma read_varint_shorter: "read_varint bs = Some (v, bs') \<Longrightarrow> length bs' < length bs"
  unfolding read_varint_def by (rule varint_loop_shorter)

function next_field :: "byte list \<Rightarrow> ((u32 \<times> field) \<times> byte list) option" where
  "next_field bs =
    (if bs = [] then None
     else case read_varint bs of
       None \<Rightarrow> None
     | Some (tag, bs1) \<Rightarrow>
         let fld = ucast (drop_bit 3 tag); wire = ucast (tag AND 7)
         in if wire = WIRE_VARINT
            then map_option (\<lambda>(v, bs2). ((fld, Varint v), bs2)) (read_varint bs1)
            else if wire = WIRE_LEN
            then Option.bind (read_varint bs1) (\<lambda>(n, bs2).
                   if unat n \<le> length bs2 then Some ((fld, Len (take (unat n) bs2)), drop (unat n) bs2) else None)
            else if wire = 1 then (if length bs1 < 8 then None else next_field (drop 8 bs1))
            else if wire = 5 then (if length bs1 < 4 then None else next_field (drop 4 bs1))
            else None)"
  by pat_completeness auto
termination next_field
  by (relation "measure length") (auto dest!: read_varint_shorter)

declare next_field.simps [simp del]

lemma next_field_shorter: "next_field bs = Some (f, bs') \<Longrightarrow> length bs' < length bs"
proof (induction bs rule: next_field.induct)
  case (1 bs)
  show ?case
  proof (cases "read_varint bs")
    case None
    with 1(3) show ?thesis by (subst (asm) next_field.simps) (auto split: if_splits)
  next
    case (Some p)
    obtain tag bs1 where p: "p = (tag, bs1)" by (cases p)
    have s: "length bs1 < length bs" using Some p read_varint_shorter by blast
    have ne: "bs \<noteq> []" using s by auto
    note ih = 1(1,2) [OF ne Some [unfolded p] refl refl refl]
    from 1(3) Some p ne show ?thesis
      by (subst (asm) next_field.simps)
        (use s ih in \<open>auto simp: Let_def bind_eq_Some_conv split: if_splits dest!: read_varint_shorter\<close>)
  qed
qed

function fold_fields :: "(u32 \<Rightarrow> field \<Rightarrow> 'm \<Rightarrow> 'm) \<Rightarrow> byte list \<Rightarrow> 'm \<Rightarrow> 'm" where
  "fold_fields step bs m =
    (case next_field bs of None \<Rightarrow> m | Some ((fld, v), bs') \<Rightarrow> fold_fields step bs' (step fld v m))"
  by pat_completeness auto
termination fold_fields
  by (relation "measure (\<lambda>(step, bs, m). length bs)") (auto dest: next_field_shorter)

declare fold_fields.simps [simp del]

section \<open>Varints\<close>

lemma and_7f: "v AND 0x7f = take_bit 7 (v :: u64)"
proof -
  have "(0x7f :: u64) = mask 7" by (simp add: mask_numeral)
  then show ?thesis by (simp only: take_bit_eq_mask)
qed

lemma unat_take_7: "unat (take_bit 7 v) = unat (v :: u64) mod 128"
proof -
  have "unat (take_bit 7 v) = take_bit 7 (unat v)" by (rule unsigned_take_bit_eq)
  also have "\<dots> = unat v mod 128" by (simp add: take_bit_nat_def)
  finally show ?thesis .
qed

lemma low7: "unat (ucast (v AND 0x7f) :: byte) = unat (v :: u64) mod 128"
proof -
  have "unat (ucast (v AND 0x7f) :: byte) = take_bit 8 (unat (take_bit 7 v))"
    by (simp only: unsigned_ucast_eq and_7f) (simp add: unsigned_take_bit_eq)
  then show ?thesis by (simp only: unat_take_7) (simp add: take_bit_nat_def mod_less_divisor [THEN order.strict_trans])
qed

lemma low7_bits:
  assumes "unat b < 128"
  shows "(b OR 0x80) AND 0x80 \<noteq> 0 \<and> (b OR 0x80) AND 0x7f = b \<and> b AND 0x80 = 0 \<and> b AND 0x7f = (b :: byte)"
proof -
  have "\<forall>n \<in> set [0..<128]. (of_nat n OR 0x80) AND 0x80 \<noteq> (0 :: byte) \<and> (of_nat n OR 0x80) AND 0x7f = (of_nat n :: byte) \<and>
      of_nat n AND 0x80 = (0 :: byte) \<and> of_nat n AND 0x7f = (of_nat n :: byte)" by code_simp
  moreover have "unat b \<in> set [0..<128]" using assms by simp
  moreover have "b = of_nat (unat b)" by simp
  ultimately show ?thesis by metis
qed

lemma ucast_low7: "(ucast (ucast (v AND 0x7f) :: byte) :: u64) = take_bit 7 v"
proof -
  have "unat (ucast b :: u64) = unat b" for b :: byte
    by (simp add: unsigned_ucast_eq take_bit_nat_eq_self_iff less_trans [OF unat_byte_bound])
  then show ?thesis by (simp only: word_unat_eq_iff low7 unat_take_7)
qed

lemma push_bit_split: "push_bit s (take_bit 7 v) OR push_bit (s + 7) (drop_bit 7 v) = push_bit s (v :: u64)"
proof -
  have "take_bit 7 v OR push_bit 7 (drop_bit 7 v) = v"
  proof (rule bit_word_eqI)
    fix n
    have "7 \<le> n \<Longrightarrow> 7 + (n - 7) = n" for n :: nat by simp
    then show "bit (take_bit 7 v OR push_bit 7 (drop_bit 7 v)) n = bit v n" if "n < LENGTH(64)"
      using that by (cases "7 \<le> n") (simp_all add: bit_simps)
  qed
  then have "push_bit s (take_bit 7 v OR push_bit 7 (drop_bit 7 v)) = push_bit s v" by simp
  then show ?thesis by (simp only: push_bit_or push_bit_push_bit)
qed

lemma varint_loop_write:
  "shift < 64 \<Longrightarrow> unat v < 2 ^ (64 - shift) \<Longrightarrow>
   varint_loop shift res (varint_bytes v @ rest) = Some (res OR push_bit shift v, rest)"
proof (induction v arbitrary: shift res rule: varint_bytes.induct)
  case (1 v)
  let ?b = "ucast (v AND 0x7f) :: byte"
  have b: "unat ?b < 128" by (simp add: low7)
  note bits = low7_bits [OF b]
  show ?case
  proof (cases "drop_bit 7 v = 0")
    case True
    then have "varint_bytes v = [?b]" by (subst varint_bytes.simps) simp
    moreover have "take_bit 7 v = v" using push_bit_split [of 0 v] True by simp
    ultimately show ?thesis using bits by (simp add: ucast_low7 Let_def)
  next
    case False
    then have e: "varint_bytes v = (?b OR 0x80) # varint_bytes (drop_bit 7 v)"
      by (subst varint_bytes.simps) (simp add: Let_def)
    have "128 \<le> unat v" using False by (simp add: unat_drop_bit_7 div_eq_0_iff not_less flip: unat_eq_0)
    with 1(3) have "2 ^ 7 < (2 :: nat) ^ (64 - shift)" by simp
    then have "7 < 64 - shift" by (rule power_less_imp_less_exp [rotated]) simp
    then have s: "shift + 7 < 64" by simp
    have "(2 :: nat) ^ (64 - shift) = 128 * 2 ^ (64 - (shift + 7))"
    proof -
      have "64 - shift = 7 + (64 - (shift + 7))" using s by simp
      then show ?thesis by (simp only: power_add) simp
    qed
    with 1(3) have "unat (drop_bit 7 v) < 2 ^ (64 - (shift + 7))"
      by (simp add: unat_drop_bit_7 less_mult_imp_div_less mult.commute)
    from 1(1) [OF refl refl False s this]
    show ?thesis using bits s
      by (simp add: e Let_def ucast_low7 push_bit_split or.assoc)
  qed
qed

lemma read_varint_write [simp]: "read_varint (varint_bytes v @ rest) = Some (v, rest)"
  using varint_loop_write [of 0 v 0 rest] unsigned_less [of v] by (simp add: read_varint_def)

section \<open>Fields\<close>

lemma tag_fields:
  assumes "fld < 2 ^ 29" and "wire < 8"
  shows "ucast (drop_bit 3 (ucast (push_bit 3 fld OR wire) :: u64)) = (fld :: u32)"
    and "ucast ((ucast (push_bit 3 fld OR wire) :: u64) AND 7) = (wire :: u32)"
proof -
  have f: "\<not> bit fld n" if "29 \<le> n" for n
  proof -
    have "unat fld < 2 ^ 29" using assms(1) by (simp add: word_less_nat_alt)
    then have "unat (take_bit 29 fld) = unat fld" by (simp add: unsigned_take_bit_eq take_bit_nat_eq_self)
    then have "take_bit 29 fld = fld" by (simp only: word_unat_eq_iff)
    then show ?thesis using that by (metis bit_take_bit_iff not_less)
  qed
  have w: "\<not> bit wire n" if "3 \<le> n" for n
  proof -
    have "unat wire < 2 ^ 3" using assms(2) by (simp add: word_less_nat_alt)
    then have "unat (take_bit 3 wire) = unat wire" by (simp add: unsigned_take_bit_eq take_bit_nat_eq_self)
    then have "take_bit 3 wire = wire" by (simp only: word_unat_eq_iff)
    then show ?thesis using that by (metis bit_take_bit_iff not_less)
  qed
  show "ucast (drop_bit 3 (ucast (push_bit 3 fld OR wire) :: u64)) = fld"
    using f w by (intro bit_word_eqI) (auto simp: bit_simps not_le [symmetric])
  have "(7 :: u64) = mask 3" by (simp add: mask_numeral)
  then have "x AND 7 = take_bit 3 x" for x :: u64 by (simp only: take_bit_eq_mask)
  then show "ucast ((ucast (push_bit 3 fld OR wire) :: u64) AND 7) = wire"
    using w by (intro bit_word_eqI) (auto simp: bit_simps not_le [symmetric])
qed

lemma varint_bytes_ne [simp]: "varint_bytes v \<noteq> []"
  by (subst varint_bytes.simps) (simp add: Let_def)

lemma next_field_varint:
  "fld < 2 ^ 29 \<Longrightarrow> next_field (uint_field fld v [] @ rest) = Some ((fld, Varint v), rest)"
  using tag_fields [of fld WIRE_VARINT]
  by (subst next_field.simps) (simp add: uint_field_def write_tag_def write_varint_def Let_def WIRE_VARINT_def)

lemma next_field_bytes:
  "fld < 2 ^ 29 \<Longrightarrow> length b < 2 ^ 64 \<Longrightarrow> next_field (bytes_field fld b [] @ rest) = Some ((fld, Len b), rest)"
  using tag_fields [of fld WIRE_LEN]
  by (subst next_field.simps)
    (simp add: bytes_field_def write_tag_def write_varint_def Let_def WIRE_LEN_def WIRE_VARINT_def unat_of_nat_u64)

lemma fold_fields_Nil [simp]: "fold_fields step [] m = m"
  by (subst fold_fields.simps) (simp add: next_field.simps)

lemma fold_fields_uint [simp]:
  "fld < 2 ^ 29 \<Longrightarrow> fold_fields step (uint_field fld v [] @ rest) m = fold_fields step rest (step fld (Varint v) m)"
  by (subst fold_fields.simps) (simp add: next_field_varint)

lemma fold_fields_bytes [simp]:
  "fld < 2 ^ 29 \<Longrightarrow> length b < 2 ^ 64 \<Longrightarrow>
   fold_fields step (bytes_field fld b [] @ rest) m = fold_fields step rest (step fld (Len b) m)"
  by (subst fold_fields.simps) (simp add: next_field_bytes)

end
