(* ===== verification/Negotiation.thy ===== *)
theory Negotiation
  imports Protobuf Plist
begin

text \<open>
  services/core\_device/display\_stream/negotiation.rs: the media negotiation blob and the offers and
  answers that carry it. The clock is the seconds and nanoseconds it returns, a fresh session id a number; \<open>zlib\<close> (flate2) and the binary
  property lists (plist) are parameters.
\<close>

section \<open>Messages\<close>

record general_info =
  gi_ntp_time :: u64
  gi_cname :: rstring
  gi_ab_switches :: u32
  gi_screen_res :: u32
  gi_fec_header_version :: u32
  gi_rtx_version :: u32

record bandwidth_settings =
  bw_cap_2g :: u32
  bw_cap_3g :: u32
  bw_cap_lte :: u32
  bw_cap_5g :: u32
  bw_cap_wifi :: u32

record codec_features =
  cf_audio_features :: u32
  cf_video_features :: "byte list"

record stream_group_payload =
  sp_codec_type :: u32
  sp_rtp_payload :: u32
  sp_p_time :: u32
  sp_rtcp_flags :: u32
  sp_media_flags :: u32
  sp_profile_level_id :: u32
  sp_rtp_sample_rate :: u32
  sp_cipher_suite :: u32
  sp_packed_payload :: "byte list"
  sp_encoder_usage :: u32

record stream_group_stream =
  ss_metadata :: u32
  ss_payload_spec_or_payloads :: u32
  ss_quality_index :: u32
  ss_rtp_ssrc :: u32
  ss_stream_id :: u32
  ss_max_network_bitrate :: u32
  ss_repaired_max_network_bitrate :: u32
  ss_audio_channel_count :: u32
  ss_stream_index :: u32
  ss_required_packed_payload :: "byte list"
  ss_optional_packed_payload :: "byte list"
  ss_coordinate_system :: u32
  ss_payloads_version :: u32
  ss_max_network_bitrate_v2 :: u32
  ss_repaired_max_network_bitrate_v2 :: u32

record encode_decode_features =
  ed_rtp_payload :: u32
  ed_encode_decode_features :: "byte list"

record settings_u1 =
  su_rtp_ssrc :: u32
  su_encode_decode_features :: "encode_decode_features list"

record stream_group =
  sg_stream_group :: u32
  sg_payloads :: "stream_group_payload list"
  sg_streams :: "stream_group_stream list"
  sg_settings_u1 :: "settings_u1 option"

record media_negotiation_blob =
  mb_general_info :: "general_info option"
  mb_bandwidth_settings :: "bandwidth_settings option"
  mb_codec_features :: "codec_features option"
  mb_stream_groups :: "stream_group list"

text \<open>The defaults\<close>

definition general_default :: general_info where
  "general_default = \<lparr>gi_ntp_time = 0, gi_cname = [], gi_ab_switches = 0, gi_screen_res = 0,
     gi_fec_header_version = 0, gi_rtx_version = 0\<rparr>"

definition bandwidth_default :: bandwidth_settings where
  "bandwidth_default = \<lparr>bw_cap_2g = 0, bw_cap_3g = 0, bw_cap_lte = 0, bw_cap_5g = 0, bw_cap_wifi = 0\<rparr>"

definition codec_default :: codec_features where
  "codec_default = \<lparr>cf_audio_features = 0, cf_video_features = []\<rparr>"

definition payload_default :: stream_group_payload where
  "payload_default = \<lparr>sp_codec_type = 0, sp_rtp_payload = 0, sp_p_time = 0, sp_rtcp_flags = 0,
     sp_media_flags = 0, sp_profile_level_id = 0, sp_rtp_sample_rate = 0, sp_cipher_suite = 0,
     sp_packed_payload = [], sp_encoder_usage = 0\<rparr>"

definition stream_default :: stream_group_stream where
  "stream_default = \<lparr>ss_metadata = 0, ss_payload_spec_or_payloads = 0, ss_quality_index = 0,
     ss_rtp_ssrc = 0, ss_stream_id = 0, ss_max_network_bitrate = 0, ss_repaired_max_network_bitrate = 0,
     ss_audio_channel_count = 0, ss_stream_index = 0, ss_required_packed_payload = [],
     ss_optional_packed_payload = [], ss_coordinate_system = 0, ss_payloads_version = 0,
     ss_max_network_bitrate_v2 = 0, ss_repaired_max_network_bitrate_v2 = 0\<rparr>"

definition features_default :: encode_decode_features where
  "features_default = \<lparr>ed_rtp_payload = 0, ed_encode_decode_features = []\<rparr>"

definition settings_default :: settings_u1 where
  "settings_default = \<lparr>su_rtp_ssrc = 0, su_encode_decode_features = []\<rparr>"

definition group_default :: stream_group where
  "group_default = \<lparr>sg_stream_group = 0, sg_payloads = [], sg_streams = [], sg_settings_u1 = None\<rparr>"

definition blob_default :: media_negotiation_blob where
  "blob_default = \<lparr>mb_general_info = None, mb_bandwidth_settings = None, mb_codec_features = None,
     mb_stream_groups = []\<rparr>"

section \<open>Encoding\<close>

text \<open>A field written only when it is not empty, or when it is there.\<close>

definition nonempty :: "(byte list \<Rightarrow> encoder \<Rightarrow> encoder) \<Rightarrow> byte list \<Rightarrow> encoder \<Rightarrow> encoder" where
  "nonempty w v = (if v = [] then id else w v)"

definition present :: "('a \<Rightarrow> encoder \<Rightarrow> encoder) \<Rightarrow> 'a option \<Rightarrow> encoder \<Rightarrow> encoder" where
  "present w v = (case v of None \<Rightarrow> id | Some x \<Rightarrow> w x)"

abbreviation u32_field :: "u32 \<Rightarrow> u32 \<Rightarrow> encoder \<Rightarrow> encoder" where
  "u32_field f v \<equiv> uint_field f (ucast v)"

definition general_encode :: "general_info \<Rightarrow> encoder \<Rightarrow> encoder" where
  "general_encode g = writes
    [uint_field 1 (gi_ntp_time g), nonempty (string_field 2) (gi_cname g), u32_field 3 (gi_ab_switches g),
     u32_field 4 (gi_screen_res g), u32_field 5 (gi_fec_header_version g), u32_field 6 (gi_rtx_version g)]"

definition bandwidth_encode :: "bandwidth_settings \<Rightarrow> encoder \<Rightarrow> encoder" where
  "bandwidth_encode s = writes
    [u32_field 1 (bw_cap_2g s), u32_field 2 (bw_cap_3g s), u32_field 3 (bw_cap_lte s),
     u32_field 4 (bw_cap_5g s), u32_field 5 (bw_cap_wifi s)]"

definition codec_encode :: "codec_features \<Rightarrow> encoder \<Rightarrow> encoder" where
  "codec_encode c = writes
    [u32_field 1 (cf_audio_features c), nonempty (bytes_field 2) (cf_video_features c)]"

definition payload_encode :: "stream_group_payload \<Rightarrow> encoder \<Rightarrow> encoder" where
  "payload_encode p = writes
    [u32_field 1 (sp_codec_type p), u32_field 2 (sp_rtp_payload p), u32_field 3 (sp_p_time p),
     u32_field 4 (sp_rtcp_flags p), u32_field 5 (sp_media_flags p), u32_field 6 (sp_profile_level_id p),
     u32_field 7 (sp_rtp_sample_rate p), u32_field 8 (sp_cipher_suite p),
     nonempty (bytes_field 9) (sp_packed_payload p), u32_field 10 (sp_encoder_usage p)]"

definition stream_encode :: "stream_group_stream \<Rightarrow> encoder \<Rightarrow> encoder" where
  "stream_encode s = writes
    [u32_field 1 (ss_metadata s), u32_field 2 (ss_payload_spec_or_payloads s), u32_field 3 (ss_quality_index s),
     u32_field 4 (ss_rtp_ssrc s), u32_field 5 (ss_stream_id s), u32_field 6 (ss_max_network_bitrate s),
     u32_field 7 (ss_repaired_max_network_bitrate s), u32_field 8 (ss_audio_channel_count s),
     u32_field 9 (ss_stream_index s), nonempty (bytes_field 10) (ss_required_packed_payload s),
     nonempty (bytes_field 11) (ss_optional_packed_payload s), u32_field 12 (ss_coordinate_system s),
     u32_field 13 (ss_payloads_version s), u32_field 14 (ss_max_network_bitrate_v2 s),
     u32_field 15 (ss_repaired_max_network_bitrate_v2 s)]"

definition features_encode :: "encode_decode_features \<Rightarrow> encoder \<Rightarrow> encoder" where
  "features_encode s = writes
    [u32_field 1 (ed_rtp_payload s), nonempty (bytes_field 2) (ed_encode_decode_features s)]"

definition settings_encode :: "settings_u1 \<Rightarrow> encoder \<Rightarrow> encoder" where
  "settings_encode s = writes
    (u32_field 1 (su_rtp_ssrc s) #
     map (\<lambda>f. message_field 2 (features_encode f)) (su_encode_decode_features s))"

definition group_encode :: "stream_group \<Rightarrow> encoder \<Rightarrow> encoder" where
  "group_encode g = writes
    ([u32_field 1 (sg_stream_group g)] @
     map (\<lambda>p. message_field 2 (payload_encode p)) (sg_payloads g) @
     map (\<lambda>s. message_field 3 (stream_encode s)) (sg_streams g) @
     [present (\<lambda>s. message_field 4 (settings_encode s)) (sg_settings_u1 g)])"

definition blob_encode :: "media_negotiation_blob \<Rightarrow> byte list" where
  "blob_encode b = writes
    ([present (\<lambda>g. message_field 1 (general_encode g)) (mb_general_info b),
      present (\<lambda>s. message_field 2 (bandwidth_encode s)) (mb_bandwidth_settings b),
      present (\<lambda>c. message_field 3 (codec_encode c)) (mb_codec_features b)] @
     map (\<lambda>g. message_field 7 (group_encode g)) (mb_stream_groups b)) []"

section \<open>Decoding\<close>

text \<open>
  A match arm for a varint or a length-delimited field; a field of the other kind falls through and
  changes nothing.
\<close>

definition on_u64 :: "field \<Rightarrow> 'm \<Rightarrow> (u64 \<Rightarrow> 'm) \<Rightarrow> 'm" where
  "on_u64 v m f = (case v of Varint x \<Rightarrow> f x | Len _ \<Rightarrow> m)"

definition on_u32 :: "field \<Rightarrow> 'm \<Rightarrow> (u32 \<Rightarrow> 'm) \<Rightarrow> 'm" where
  "on_u32 v m f = (case v of Varint x \<Rightarrow> f (ucast x) | Len _ \<Rightarrow> m)"

definition on_len :: "field \<Rightarrow> 'm \<Rightarrow> (byte list \<Rightarrow> 'm) \<Rightarrow> 'm" where
  "on_len v m f = (case v of Varint _ \<Rightarrow> m | Len b \<Rightarrow> f b)"

definition general_step :: "u32 \<Rightarrow> field \<Rightarrow> general_info \<Rightarrow> general_info" where
  "general_step f v g =
    (if f = 1 then on_u64 v g (\<lambda>x. g\<lparr>gi_ntp_time := x\<rparr>)
     else if f = 2 then on_len v g (\<lambda>b. g\<lparr>gi_cname := utf8_lossy b\<rparr>)
     else if f = 3 then on_u32 v g (\<lambda>x. g\<lparr>gi_ab_switches := x\<rparr>)
     else if f = 4 then on_u32 v g (\<lambda>x. g\<lparr>gi_screen_res := x\<rparr>)
     else if f = 5 then on_u32 v g (\<lambda>x. g\<lparr>gi_fec_header_version := x\<rparr>)
     else if f = 6 then on_u32 v g (\<lambda>x. g\<lparr>gi_rtx_version := x\<rparr>)
     else g)"

definition bandwidth_step :: "u32 \<Rightarrow> field \<Rightarrow> bandwidth_settings \<Rightarrow> bandwidth_settings" where
  "bandwidth_step f v s =
    on_u32 v s (\<lambda>x.
      if f = 1 then s\<lparr>bw_cap_2g := x\<rparr>
      else if f = 2 then s\<lparr>bw_cap_3g := x\<rparr>
      else if f = 3 then s\<lparr>bw_cap_lte := x\<rparr>
      else if f = 4 then s\<lparr>bw_cap_5g := x\<rparr>
      else if f = 5 then s\<lparr>bw_cap_wifi := x\<rparr>
      else s)"

definition codec_step :: "u32 \<Rightarrow> field \<Rightarrow> codec_features \<Rightarrow> codec_features" where
  "codec_step f v c =
    (if f = 1 then on_u32 v c (\<lambda>x. c\<lparr>cf_audio_features := x\<rparr>)
     else if f = 2 then on_len v c (\<lambda>b. c\<lparr>cf_video_features := b\<rparr>)
     else c)"

definition payload_step :: "u32 \<Rightarrow> field \<Rightarrow> stream_group_payload \<Rightarrow> stream_group_payload" where
  "payload_step f v p =
    (if f = 1 then on_u32 v p (\<lambda>x. p\<lparr>sp_codec_type := x\<rparr>)
     else if f = 2 then on_u32 v p (\<lambda>x. p\<lparr>sp_rtp_payload := x\<rparr>)
     else if f = 3 then on_u32 v p (\<lambda>x. p\<lparr>sp_p_time := x\<rparr>)
     else if f = 4 then on_u32 v p (\<lambda>x. p\<lparr>sp_rtcp_flags := x\<rparr>)
     else if f = 5 then on_u32 v p (\<lambda>x. p\<lparr>sp_media_flags := x\<rparr>)
     else if f = 6 then on_u32 v p (\<lambda>x. p\<lparr>sp_profile_level_id := x\<rparr>)
     else if f = 7 then on_u32 v p (\<lambda>x. p\<lparr>sp_rtp_sample_rate := x\<rparr>)
     else if f = 8 then on_u32 v p (\<lambda>x. p\<lparr>sp_cipher_suite := x\<rparr>)
     else if f = 9 then on_len v p (\<lambda>b. p\<lparr>sp_packed_payload := b\<rparr>)
     else if f = 10 then on_u32 v p (\<lambda>x. p\<lparr>sp_encoder_usage := x\<rparr>)
     else p)"

definition stream_step :: "u32 \<Rightarrow> field \<Rightarrow> stream_group_stream \<Rightarrow> stream_group_stream" where
  "stream_step f v s =
    (if f = 1 then on_u32 v s (\<lambda>x. s\<lparr>ss_metadata := x\<rparr>)
     else if f = 2 then on_u32 v s (\<lambda>x. s\<lparr>ss_payload_spec_or_payloads := x\<rparr>)
     else if f = 3 then on_u32 v s (\<lambda>x. s\<lparr>ss_quality_index := x\<rparr>)
     else if f = 4 then on_u32 v s (\<lambda>x. s\<lparr>ss_rtp_ssrc := x\<rparr>)
     else if f = 5 then on_u32 v s (\<lambda>x. s\<lparr>ss_stream_id := x\<rparr>)
     else if f = 6 then on_u32 v s (\<lambda>x. s\<lparr>ss_max_network_bitrate := x\<rparr>)
     else if f = 7 then on_u32 v s (\<lambda>x. s\<lparr>ss_repaired_max_network_bitrate := x\<rparr>)
     else if f = 8 then on_u32 v s (\<lambda>x. s\<lparr>ss_audio_channel_count := x\<rparr>)
     else if f = 9 then on_u32 v s (\<lambda>x. s\<lparr>ss_stream_index := x\<rparr>)
     else if f = 10 then on_len v s (\<lambda>b. s\<lparr>ss_required_packed_payload := b\<rparr>)
     else if f = 11 then on_len v s (\<lambda>b. s\<lparr>ss_optional_packed_payload := b\<rparr>)
     else if f = 12 then on_u32 v s (\<lambda>x. s\<lparr>ss_coordinate_system := x\<rparr>)
     else if f = 13 then on_u32 v s (\<lambda>x. s\<lparr>ss_payloads_version := x\<rparr>)
     else if f = 14 then on_u32 v s (\<lambda>x. s\<lparr>ss_max_network_bitrate_v2 := x\<rparr>)
     else if f = 15 then on_u32 v s (\<lambda>x. s\<lparr>ss_repaired_max_network_bitrate_v2 := x\<rparr>)
     else s)"

definition features_step :: "u32 \<Rightarrow> field \<Rightarrow> encode_decode_features \<Rightarrow> encode_decode_features" where
  "features_step f v s =
    (if f = 1 then on_u32 v s (\<lambda>x. s\<lparr>ed_rtp_payload := x\<rparr>)
     else if f = 2 then on_len v s (\<lambda>b. s\<lparr>ed_encode_decode_features := b\<rparr>)
     else s)"

definition general_decode :: "byte list \<Rightarrow> general_info" where
  "general_decode buf = fold_fields general_step buf general_default"

definition bandwidth_decode :: "byte list \<Rightarrow> bandwidth_settings" where
  "bandwidth_decode buf = fold_fields bandwidth_step buf bandwidth_default"

definition codec_decode :: "byte list \<Rightarrow> codec_features" where
  "codec_decode buf = fold_fields codec_step buf codec_default"

definition payload_decode :: "byte list \<Rightarrow> stream_group_payload" where
  "payload_decode buf = fold_fields payload_step buf payload_default"

definition stream_decode :: "byte list \<Rightarrow> stream_group_stream" where
  "stream_decode buf = fold_fields stream_step buf stream_default"

definition features_decode :: "byte list \<Rightarrow> encode_decode_features" where
  "features_decode buf = fold_fields features_step buf features_default"

definition settings_step :: "u32 \<Rightarrow> field \<Rightarrow> settings_u1 \<Rightarrow> settings_u1" where
  "settings_step f v s =
    (if f = 1 then on_u32 v s (\<lambda>x. s\<lparr>su_rtp_ssrc := x\<rparr>)
     else if f = 2 then on_len v s (\<lambda>b. s\<lparr>su_encode_decode_features := su_encode_decode_features s @ [features_decode b]\<rparr>)
     else s)"

definition settings_decode :: "byte list \<Rightarrow> settings_u1" where
  "settings_decode buf = fold_fields settings_step buf settings_default"

definition group_step :: "u32 \<Rightarrow> field \<Rightarrow> stream_group \<Rightarrow> stream_group" where
  "group_step f v g =
    (if f = 1 then on_u32 v g (\<lambda>x. g\<lparr>sg_stream_group := x\<rparr>)
     else if f = 2 then on_len v g (\<lambda>b. g\<lparr>sg_payloads := sg_payloads g @ [payload_decode b]\<rparr>)
     else if f = 3 then on_len v g (\<lambda>b. g\<lparr>sg_streams := sg_streams g @ [stream_decode b]\<rparr>)
     else if f = 4 then on_len v g (\<lambda>b. g\<lparr>sg_settings_u1 := Some (settings_decode b)\<rparr>)
     else g)"

definition group_decode :: "byte list \<Rightarrow> stream_group" where
  "group_decode buf = fold_fields group_step buf group_default"

definition blob_step :: "u32 \<Rightarrow> field \<Rightarrow> media_negotiation_blob \<Rightarrow> media_negotiation_blob" where
  "blob_step f v out =
    (if f = 1 then on_len v out (\<lambda>b. out\<lparr>mb_general_info := Some (general_decode b)\<rparr>)
     else if f = 2 then on_len v out (\<lambda>b. out\<lparr>mb_bandwidth_settings := Some (bandwidth_decode b)\<rparr>)
     else if f = 3 then on_len v out (\<lambda>b. out\<lparr>mb_codec_features := Some (codec_decode b)\<rparr>)
     else if f = 7 then on_len v out (\<lambda>b. out\<lparr>mb_stream_groups := mb_stream_groups out @ [group_decode b]\<rparr>)
     else out)"

definition blob_decode :: "byte list \<Rightarrow> media_negotiation_blob" where
  "blob_decode buf = fold_fields blob_step buf blob_default"

section \<open>Offers and answers\<close>

text \<open>
  The libraries: \<open>ml_write\<close> and \<open>ml_finish\<close> are the compressor's \<open>write_all\<close> and \<open>finish\<close> on what was
  written, \<open>ml_inflate\<close> the decompressor's \<open>read_to_end\<close>; errors carry the text they print.
\<close>

record media_lib =
  ml_write :: "byte list \<Rightarrow> (unit, rstring) res"
  ml_finish :: "byte list \<Rightarrow> (byte list, rstring) res"
  ml_inflate :: "byte list \<Rightarrow> (byte list, rstring) res"
  ml_to_binary :: "plist_value \<Rightarrow> (byte list, rstring) res"
  ml_from_bytes :: "byte list \<Rightarrow> (plist_value, rstring) res"
  ml_insert :: "rstring \<Rightarrow> plist_value \<Rightarrow> plist_dict \<Rightarrow> plist_dict"

definition negotiation_err :: "string \<Rightarrow> ('a, rstring) res \<Rightarrow> ('a, idevice_error) res" where
  "negotiation_err what r =
    (case r of Ok a \<Rightarrow> Ok a | Panic \<Rightarrow> Panic
     | Err e \<Rightarrow> Err (CoreDevice (Negotiation (rstr what @ e))))"

definition zlib_compress :: "media_lib \<Rightarrow> byte list \<Rightarrow> (byte list, idevice_error) res" where
  "zlib_compress ml raw =
    rbind (negotiation_err ''zlib compress: '' (ml_write ml raw)) (\<lambda>_.
    negotiation_err ''zlib finish: '' (ml_finish ml raw))"

definition to_negotiator_offer :: "media_lib \<Rightarrow> media_negotiation_blob \<Rightarrow> (byte list, idevice_error) res" where
  "to_negotiator_offer ml b =
    (let raw = blob_encode b
     in rbind (negotiation_err ''zlib compress: '' (ml_write ml raw)) (\<lambda>_.
        negotiation_err ''zlib finish: '' (ml_finish ml raw)))"

definition from_negotiator_offer :: "media_lib \<Rightarrow> byte list \<Rightarrow> (media_negotiation_blob, idevice_error) res" where
  "from_negotiator_offer ml data =
    rbind (negotiation_err ''zlib decompress: '' (ml_inflate ml data)) (\<lambda>raw. Ok (blob_decode raw))"

definition STREAM_GROUP_SCREEN :: u32 where "STREAM_GROUP_SCREEN = 3"
definition SCREEN_FLS :: "byte list" where "SCREEN_FLS = rstr ''FLS;VRAE:0;SW:1;''"
definition SCREEN_HEVC_FLS :: rstring where
  "SCREEN_HEVC_FLS = rstr ''FLS;MS:-1;LF:-1;LTR;CABAC;POS:0;EOD:1;HTS:2;RR:3;AR:16/9,5/8;XR:16/9,5/8;''"
definition MODE_SCREEN :: int where "MODE_SCREEN = 5"
definition MODE_AUDIO :: int where "MODE_AUDIO = 6"
definition KEY_CALL_ID :: rstring where "KEY_CALL_ID = rstr ''avcMediaStreamOptionCallID''"
definition KEY_MEDIA_BLOB :: string where "KEY_MEDIA_BLOB = ''avcMediaStreamNegotiatorMediaBlob''"
definition KEY_MODE :: rstring where "KEY_MODE = rstr ''avcMediaStreamNegotiatorMode''"
definition KEY_REMOTE_ENDPOINT_INFO :: rstring where
  "KEY_REMOTE_ENDPOINT_INFO = rstr ''avcMediaStreamOptionRemoteEndpointInfo''"

record call_info_blob =
  ci_call_id :: u32
  ci_client_version :: u32
  ci_device_type :: rstring
  ci_framework_version :: rstring
  ci_os_version :: rstring
  ci_device_name :: "rstring option"
  ci_audio_device_uid :: "rstring option"

definition call_info_encode :: "call_info_blob \<Rightarrow> byte list" where
  "call_info_encode c = writes
    [u32_field 1 (ci_call_id c), u32_field 2 (ci_client_version c), string_field 3 (ci_device_type c),
     string_field 4 (ci_framework_version c), string_field 5 (ci_os_version c),
     present (string_field 6) (ci_device_name c), present (string_field 7) (ci_audio_device_uid c)] []"

text \<open>The tail shared by the two media blobs: agent, bandwidth ladder, clock.\<close>

definition blob_param :: "u64 \<Rightarrow> u64 \<Rightarrow> u64 option \<Rightarrow> encoder \<Rightarrow> encoder" where
  "blob_param i v flags = message_field 9 (writes
    [uint_field 1 i, uint_field 2 v, present (uint_field 3) flags])"

definition write_blob_tail :: "u64 \<Rightarrow> encoder \<Rightarrow> encoder" where
  "write_blob_tail ntp_time = writes
    [string_field 6 (rstr ''Viceroy 1.7.0''), uint_field 8 0,
     blob_param 0 20000000 (Some 0x18000), blob_param 4074 0 (Some 0x4000),
     blob_param 0 60000000 (Some 0x40000), blob_param 0 40000000 (Some 0x3000),
     blob_param 16 4100 None, blob_param 0 6000000 (Some 0x20000), blob_param 4 6500 None,
     blob_param 0 100000000 (Some 0x100000), blob_param 1 299 None, blob_param 0 75000000 (Some 0x80000),
     uint_field 13 ntp_time, uint_field 14 2, uint_field 16 0, uint_field 18 1]"

definition format_desc :: "u64 \<Rightarrow> encoder \<Rightarrow> encoder" where
  "format_desc variant = message_field 2 (writes
    [uint_field 1 1, uint_field 2 variant, uint_field 3 0xc3c3, uint_field 4 0])"

definition build_screen_media_blob_with_fls :: "u32 \<Rightarrow> u64 \<Rightarrow> rstring \<Rightarrow> byte list" where
  "build_screen_media_blob_with_fls session_id ntp_time hevc_fls = writes
    [uint_field 1 1, uint_field 2 1,
     message_field 5 (writes
       [u32_field 1 session_id, uint_field 2 0,
        message_field 3 (writes
          [uint_field 1 123, format_desc 1, format_desc 2, format_desc 1, format_desc 2,
           string_field 3 (rstr ''FLS;SW:1;''), uint_field 4 1]),
        message_field 3 (writes
          [uint_field 1 100, format_desc 1, format_desc 2, string_field 3 hevc_fls, uint_field 4 14]),
        uint_field 7 1, uint_field 8 63, uint_field 12 1]),
     write_blob_tail ntp_time] []"

definition build_screen_media_blob :: "u32 \<Rightarrow> u64 \<Rightarrow> byte list" where
  "build_screen_media_blob session_id ntp_time = build_screen_media_blob_with_fls session_id ntp_time SCREEN_HEVC_FLS"

definition build_audio_media_blob :: "u32 \<Rightarrow> u64 \<Rightarrow> byte list" where
  "build_audio_media_blob session_id ntp_time = writes
    [uint_field 1 1, uint_field 2 1,
     message_field 3 (writes
       [u32_field 1 session_id, uint_field 2 0, uint_field 3 0, uint_field 4 24191, uint_field 5 0,
        uint_field 6 0]),
     write_blob_tail ntp_time] []"

text \<open>
  The clock is the seconds and nanoseconds since the Unix epoch, or nothing when it is set before that
  (\<open>unwrap_or_default\<close>).
\<close>

definition ntp_now :: "(u64 \<times> u32) option \<Rightarrow> u64" where
  "ntp_now clock =
    (let now = (case clock of Some t \<Rightarrow> t | None \<Rightarrow> (0, 0));
         secs = fst now + 2208988800;
         frac = push_bit 32 (ucast (snd now)) div 1000000000
     in push_bit 32 secs OR frac)"

definition build_offer_plist :: "media_lib \<Rightarrow> rstring \<Rightarrow> call_info_blob \<Rightarrow> byte list \<Rightarrow> int \<Rightarrow>
    (byte list, idevice_error) res" where
  "build_offer_plist ml call_id call_info media_blob_raw negotiator_mode =
    rbind (zlib_compress ml media_blob_raw) (\<lambda>media_blob.
      let d1 = ml_insert ml KEY_CALL_ID (PString call_id) [];
          d2 = ml_insert ml (rstr KEY_MEDIA_BLOB) (PData media_blob) d1;
          d3 = ml_insert ml KEY_MODE (PInteger negotiator_mode) d2;
          d4 = ml_insert ml KEY_REMOTE_ENDPOINT_INFO (PData (call_info_encode call_info)) d3
      in negotiation_err ''offer plist encode: '' (ml_to_binary ml (PDictionary d4)))"

definition build_screen_video_offer :: "media_lib \<Rightarrow> (u64 \<times> u32) option \<Rightarrow> rstring \<Rightarrow> call_info_blob \<Rightarrow> u32 \<Rightarrow>
    (byte list, idevice_error) res" where
  "build_screen_video_offer ml clock call_id call_info ssrc =
    build_offer_plist ml call_id call_info (build_screen_media_blob ssrc (ntp_now clock)) MODE_SCREEN"

text \<open>The session id of the audio offer is the low half of a fresh UUID's low half.\<close>

definition build_screen_audio_offer :: "media_lib \<Rightarrow> (u64 \<times> u32) option \<Rightarrow> 128 word \<Rightarrow> rstring \<Rightarrow> call_info_blob \<Rightarrow>
    (byte list, idevice_error) res" where
  "build_screen_audio_offer ml clock uuid call_id call_info =
    build_offer_plist ml call_id call_info (build_audio_media_blob (ucast uuid) (ntp_now clock)) MODE_AUDIO"

definition parse_answer_media_blob :: "media_lib \<Rightarrow> byte list \<Rightarrow> (media_negotiation_blob, idevice_error) res" where
  "parse_answer_media_blob ml answer =
    rbind (negotiation_err ''answer plist decode: '' (ml_from_bytes ml answer)) (\<lambda>v.
    rbind (ok_or (CoreDevice (CoreMissingField KEY_MEDIA_BLOB))
       (Option.bind (plist_as_dictionary v) (\<lambda>d.
        Option.bind (map_of d (rstr KEY_MEDIA_BLOB)) (\<lambda>x. case x of PData b \<Rightarrow> Some b | _ \<Rightarrow> None)))) (\<lambda>blob.
    Ok (blob_decode blob)))"

definition video_offer :: "(u64 \<times> u32) option \<Rightarrow> u32 \<Rightarrow> media_negotiation_blob" where
  "video_offer clock ssrc =
    \<lparr>mb_general_info = Some (general_default\<lparr>gi_ntp_time := ntp_now clock\<rparr>),
     mb_bandwidth_settings = None,
     mb_codec_features = Some \<lparr>cf_audio_features = 0, cf_video_features = SCREEN_FLS\<rparr>,
     mb_stream_groups =
       [\<lparr>sg_stream_group = STREAM_GROUP_SCREEN,
         sg_payloads = [payload_default\<lparr>sp_codec_type := 1, sp_rtp_payload := 100, sp_cipher_suite := 0\<rparr>],
         sg_streams = [stream_default\<lparr>ss_rtp_ssrc := ssrc, ss_max_network_bitrate := 6000000\<rparr>],
         sg_settings_u1 = Some \<lparr>su_rtp_ssrc = ssrc, su_encode_decode_features =
           [\<lparr>ed_rtp_payload = 100, ed_encode_decode_features = SCREEN_FLS\<rparr>]\<rparr>\<rparr>]\<rparr>"

section \<open>Writers append\<close>

definition appends :: "(encoder \<Rightarrow> encoder) \<Rightarrow> bool" where
  "appends w \<longleftrightarrow> (\<forall>e. w e = e @ w [])"

named_theorems appends_intros \<open>writers that only append\<close>

lemma appends_uint [appends_intros]: "appends (uint_field f v)"
  by (simp add: appends_def uint_field_def write_varint_def write_tag_def)

lemma appends_bytes [appends_intros]: "appends (bytes_field f v)"
  by (simp add: appends_def bytes_field_def write_varint_def write_tag_def)

lemma appends_message [appends_intros]: "appends (message_field f g)"
  using appends_bytes [of f "g []"] unfolding appends_def message_field_def .

lemma appends_string [appends_intros]: "appends (string_field f v)"
  using appends_bytes [of f v] unfolding appends_def string_field_def .

lemma appends_id [appends_intros]: "appends id"
  by (simp add: appends_def)

lemma appends_nonempty [appends_intros]: "appends (w v) \<Longrightarrow> appends (nonempty w v)"
  by (simp add: nonempty_def appends_id)

lemma appends_present [appends_intros]: "(\<And>x. appends (w x)) \<Longrightarrow> appends (present w v)"
  by (cases v) (simp_all add: present_def appends_id)

lemma writes_append: "\<forall>w \<in> set ws. appends w \<Longrightarrow> writes ws e = e @ concat (map (\<lambda>w. w []) ws)"
proof (induction ws arbitrary: e)
  case (Cons w ws)
  have "w e = e @ w []" using Cons.prems unfolding appends_def by (meson list.set_intros(1))
  moreover have "writes ws e' = e' @ concat (map (\<lambda>w. w []) ws)" for e'
    using Cons.prems by (intro Cons.IH) simp
  ultimately show ?case by simp
qed simp

text \<open>
  What a decoder makes of the output of a writer: it goes through \<open>f\<close>.
\<close>

definition reads_as :: "(u32 \<Rightarrow> field \<Rightarrow> 'm \<Rightarrow> 'm) \<Rightarrow> (encoder \<Rightarrow> encoder) \<Rightarrow> ('m \<Rightarrow> 'm) \<Rightarrow> bool" where
  "reads_as step w f \<longleftrightarrow> appends w \<and>
    (\<forall>rest m. length (w []) < 2 ^ 64 \<longrightarrow> fold_fields step (w [] @ rest) m = fold_fields step rest (f m))"

lemma bytes_field_longer: "length b \<le> length (bytes_field f b [])"
  by (simp add: bytes_field_def write_varint_def write_tag_def)

lemma reads_as_uint: "fld < 2 ^ 29 \<Longrightarrow> reads_as step (uint_field fld v) (step fld (Varint v))"
  unfolding reads_as_def using appends_uint fold_fields_uint [of fld step v] by blast

lemma reads_as_bytes: "fld < 2 ^ 29 \<Longrightarrow> reads_as step (bytes_field fld b) (step fld (Len b))"
  unfolding reads_as_def
  using appends_bytes [of fld b] fold_fields_bytes [of fld b step] le_less_trans [OF bytes_field_longer [of b fld]] by blast

lemma reads_as_string: "fld < 2 ^ 29 \<Longrightarrow> reads_as step (string_field fld b) (step fld (Len b))"
  using reads_as_bytes [of fld step b] unfolding reads_as_def appends_def string_field_def .

lemma reads_as_nonempty:
  "reads_as step (w v) f \<Longrightarrow> reads_as step (nonempty w v) (if v = [] then id else f)"
  unfolding nonempty_def by (cases "v = []") (simp_all add: reads_as_def appends_id)

lemma reads_as_present:
  "(\<And>x. v = Some x \<Longrightarrow> reads_as step (w x) (f x)) \<Longrightarrow>
   reads_as step (present w v) (case v of None \<Rightarrow> id | Some x \<Rightarrow> f x)"
  unfolding present_def by (cases v) (simp_all add: reads_as_def appends_id)

lemma reads_as_id: "reads_as step id id"
  by (simp add: reads_as_def appends_id)

text \<open>
  A nested message, when its own decoder inverts its encoder.
\<close>

lemma reads_as_message:
  assumes "fld < 2 ^ 29" and "length (g []) < 2 ^ 64 \<Longrightarrow> step fld (Len (g [])) = f"
  shows "reads_as step (message_field fld g) f"
  unfolding reads_as_def message_field_def
proof (intro conjI allI impI)
  show "appends (\<lambda>buf. bytes_field fld (g []) buf)" by (rule appends_bytes)
  fix rest m
  assume "length (bytes_field fld (g []) []) < 2 ^ 64"
  then have l: "length (g []) < 2 ^ 64" using bytes_field_longer [of "g []" fld] by (rule le_less_trans [rotated])
  show "fold_fields step (bytes_field fld (g []) [] @ rest) m = fold_fields step rest (f m)"
    unfolding fold_fields_bytes [OF assms(1) l] assms(2) [OF l] by (rule refl)
qed

lemma writes_reads:
  assumes "list_all2 (reads_as step) ws fs" and "length (writes ws []) < 2 ^ 64"
  shows "fold_fields step (writes ws []) m = fold (\<lambda>f. f) fs m"
proof -
  have ap: "\<forall>w \<in> set ws. appends w" using assms(1)
    by (auto simp: list_all2_conv_all_nth in_set_conv_nth reads_as_def)
  have "length (concat (map (\<lambda>w. w []) ws)) < 2 ^ 64 \<Longrightarrow>
      fold_fields step (concat (map (\<lambda>w. w []) ws)) m = fold (\<lambda>f. f) fs m" for m
    using assms(1)
  proof (induction ws fs arbitrary: m rule: list_all2_induct)
    case (Cons w ws f fs)
    from Cons.prems have l: "length (w []) < 2 ^ 64" "length (concat (map (\<lambda>w. w []) ws)) < 2 ^ 64" by auto
    have "fold_fields step (concat (map (\<lambda>w. w []) (w # ws))) m =
        fold_fields step (concat (map (\<lambda>w. w []) ws)) (f m)"
      using Cons.hyps(1) l(1) unfolding reads_as_def by simp
    with Cons.IH [OF l(2)] show ?case by simp
  qed simp
  with assms(2) show ?thesis unfolding writes_append [OF ap] by simp
qed

lemma reads_map:
  "(\<And>x. x \<in> set xs \<Longrightarrow> reads_as step (w x) (f x)) \<Longrightarrow> list_all2 (reads_as step) (map w xs) (map f xs)"
  by (simp add: list_all2_conv_all_nth)

lemmas reads_intros = list.rel_intros reads_as_uint reads_as_bytes reads_as_string reads_as_nonempty

section \<open>Round trips\<close>

lemma u32_field_back [simp]: "(ucast (ucast (x :: u32) :: u64) :: u32) = x"
  by transfer simp

lemmas on_simps [simp] = on_u64_def on_u32_def on_len_def

lemma writes_decode:
  "list_all2 (reads_as step) ws fs \<Longrightarrow> length (writes ws []) < 2 ^ 64 \<Longrightarrow> fold (\<lambda>f. f) fs m = r \<Longrightarrow>
   fold_fields step (writes ws []) m = r"
  by (rule trans [OF writes_reads])

lemma general_round:
  assumes "utf8_valid (gi_cname g)" and "length (general_encode g []) < 2 ^ 64"
  shows "general_decode (general_encode g []) = g"
  unfolding general_decode_def general_encode_def
  by (rule writes_decode, ((rule reads_intros; (simp; fail)?)+), rule assms(2) [unfolded general_encode_def])
    (use assms(1) in \<open>cases g, simp add: general_step_def general_default_def utf8_lossy_valid_id\<close>)

lemma bandwidth_round:
  assumes "length (bandwidth_encode s []) < 2 ^ 64"
  shows "bandwidth_decode (bandwidth_encode s []) = s"
  unfolding bandwidth_decode_def bandwidth_encode_def
  by (rule writes_decode, ((rule reads_intros; (simp; fail)?)+), rule assms [unfolded bandwidth_encode_def])
    (cases s, simp add: bandwidth_step_def bandwidth_default_def)

lemma codec_round:
  assumes "length (codec_encode c []) < 2 ^ 64"
  shows "codec_decode (codec_encode c []) = c"
  unfolding codec_decode_def codec_encode_def
  by (rule writes_decode, ((rule reads_intros; (simp; fail)?)+), rule assms [unfolded codec_encode_def])
    (cases c, simp add: codec_step_def codec_default_def)

lemma payload_round:
  assumes "length (payload_encode p []) < 2 ^ 64"
  shows "payload_decode (payload_encode p []) = p"
  unfolding payload_decode_def payload_encode_def
  by (rule writes_decode, ((rule reads_intros; (simp; fail)?)+), rule assms [unfolded payload_encode_def])
    (cases p, simp add: payload_step_def payload_default_def)

lemma stream_round:
  assumes "length (stream_encode s []) < 2 ^ 64"
  shows "stream_decode (stream_encode s []) = s"
  unfolding stream_decode_def stream_encode_def
  by (rule writes_decode, ((rule reads_intros; (simp; fail)?)+), rule assms [unfolded stream_encode_def])
    (cases s, simp add: stream_step_def stream_default_def)

lemma features_round:
  assumes "length (features_encode f []) < 2 ^ 64"
  shows "features_decode (features_encode f []) = f"
  unfolding features_decode_def features_encode_def
  by (rule writes_decode, ((rule reads_intros; (simp; fail)?)+), rule assms [unfolded features_encode_def])
    (cases f, simp add: features_step_def features_default_def)

lemma features_reads: "length (features_encode f []) < 2 ^ 64 \<Longrightarrow>
    settings_step 2 (Len (features_encode f [])) =
      (\<lambda>s. s\<lparr>su_encode_decode_features := su_encode_decode_features s @ [f]\<rparr>)"
  by (rule ext) (simp only: settings_step_def on_simps field.case features_round, simp)

lemma settings_round:
  assumes "length (settings_encode s []) < 2 ^ 64"
  shows "settings_decode (settings_encode s []) = s"
proof -
  have f: "fold (\<lambda>f. f) (map (\<lambda>f s. s\<lparr>su_encode_decode_features := su_encode_decode_features s @ [f]\<rparr>) fs) t =
      t\<lparr>su_encode_decode_features := su_encode_decode_features t @ fs\<rparr>" for fs t
    by (induction fs arbitrary: t) simp_all
  show ?thesis
    unfolding settings_decode_def settings_encode_def
    by (rule writes_decode, rule list.rel_intros, rule reads_as_uint, simp,
        rule reads_map, rule reads_as_message, simp, erule features_reads,
        rule assms [unfolded settings_encode_def])
      (cases s, simp add: f settings_step_def settings_default_def)
qed

lemma group_reads:
  "length (payload_encode p []) < 2 ^ 64 \<Longrightarrow>
   group_step 2 (Len (payload_encode p [])) = (\<lambda>g. g\<lparr>sg_payloads := sg_payloads g @ [p]\<rparr>)"
  "length (stream_encode s []) < 2 ^ 64 \<Longrightarrow>
   group_step 3 (Len (stream_encode s [])) = (\<lambda>g. g\<lparr>sg_streams := sg_streams g @ [s]\<rparr>)"
  "length (settings_encode u []) < 2 ^ 64 \<Longrightarrow>
   group_step 4 (Len (settings_encode u [])) = (\<lambda>g. g\<lparr>sg_settings_u1 := Some u\<rparr>)"
  by (rule ext; simp only: group_step_def on_simps field.case payload_round stream_round settings_round; simp)+

lemma reads_append:
  "list_all2 (reads_as step) ws fs \<Longrightarrow> list_all2 (reads_as step) vs gs \<Longrightarrow>
   list_all2 (reads_as step) (ws @ vs) (fs @ gs)"
  by (rule list_all2_appendI)

lemma group_round:
  assumes "length (group_encode g []) < 2 ^ 64"
  shows "group_decode (group_encode g []) = g"
proof -
  have p: "fold (\<lambda>f. f) (map (\<lambda>p g. g\<lparr>sg_payloads := sg_payloads g @ [p]\<rparr>) ps) t =
      t\<lparr>sg_payloads := sg_payloads t @ ps\<rparr>" for ps t
    by (induction ps arbitrary: t) simp_all
  have s: "fold (\<lambda>f. f) (map (\<lambda>p g. g\<lparr>sg_streams := sg_streams g @ [p]\<rparr>) ss) t =
      t\<lparr>sg_streams := sg_streams t @ ss\<rparr>" for ss t
    by (induction ss arbitrary: t) simp_all
  show ?thesis
    unfolding group_decode_def group_encode_def
    by (rule writes_decode, rule reads_append, rule list.rel_intros, rule reads_as_uint, simp, rule list.rel_intros,
        rule reads_append, rule reads_map, rule reads_as_message, simp, erule group_reads,
        rule reads_append, rule reads_map, rule reads_as_message, simp, erule group_reads,
        rule list.rel_intros, rule reads_as_present, rule reads_as_message, simp, erule group_reads, rule list.rel_intros,
        rule assms [unfolded group_encode_def])
      (cases g, simp add: p s group_step_def group_default_def split: option.split)
qed

definition blob_ok :: "media_negotiation_blob \<Rightarrow> bool" where
  "blob_ok b \<longleftrightarrow> (case mb_general_info b of None \<Rightarrow> True | Some g \<Rightarrow> utf8_valid (gi_cname g)) \<and>
    length (blob_encode b) < 2 ^ 64"

lemma blob_reads:
  "utf8_valid (gi_cname i) \<Longrightarrow> length (general_encode i []) < 2 ^ 64 \<Longrightarrow>
   blob_step 1 (Len (general_encode i [])) = (\<lambda>b. b\<lparr>mb_general_info := Some i\<rparr>)"
  "length (bandwidth_encode s []) < 2 ^ 64 \<Longrightarrow>
   blob_step 2 (Len (bandwidth_encode s [])) = (\<lambda>b. b\<lparr>mb_bandwidth_settings := Some s\<rparr>)"
  "length (codec_encode c []) < 2 ^ 64 \<Longrightarrow>
   blob_step 3 (Len (codec_encode c [])) = (\<lambda>b. b\<lparr>mb_codec_features := Some c\<rparr>)"
  "length (group_encode g []) < 2 ^ 64 \<Longrightarrow>
   blob_step 7 (Len (group_encode g [])) = (\<lambda>b. b\<lparr>mb_stream_groups := mb_stream_groups b @ [g]\<rparr>)"
  by (rule ext; simp only: blob_step_def on_simps field.case general_round bandwidth_round codec_round group_round; simp)+

lemma blob_round:
  assumes "blob_ok b"
  shows "blob_decode (blob_encode b) = b"
proof -
  have g: "fold (\<lambda>f. f) (map (\<lambda>g b. b\<lparr>mb_stream_groups := mb_stream_groups b @ [g]\<rparr>) gs) t =
      t\<lparr>mb_stream_groups := mb_stream_groups t @ gs\<rparr>" for gs t
    by (induction gs arbitrary: t) simp_all
  have i: "mb_general_info b = Some i \<Longrightarrow> utf8_valid (gi_cname i)" for i
    using assms by (simp add: blob_ok_def)
  have l: "length (blob_encode b) < 2 ^ 64" using assms by (simp add: blob_ok_def)
  show ?thesis
    unfolding blob_decode_def blob_encode_def
    by (rule writes_decode, rule reads_append,
        rule list.rel_intros, rule reads_as_present, rule reads_as_message, simp, erule (1) blob_reads(1) [OF i],
        rule list.rel_intros, rule reads_as_present, rule reads_as_message, simp, erule blob_reads,
        rule list.rel_intros, rule reads_as_present, rule reads_as_message, simp, erule blob_reads,
        rule list.rel_intros, rule reads_map, rule reads_as_message, simp, erule blob_reads,
        rule l [unfolded blob_encode_def])
      (cases b, simp add: g blob_default_def split: option.split)
qed

section \<open>Properties\<close>

text \<open>
  A negotiation blob is read back as it was written, and so is the compressed form it is offered in, for a
  decompressor that inverts the compressor.
\<close>

theorem negotiation_round_trip:
  assumes "blob_ok b"
    and "\<forall>raw z. ml_finish ml raw = Ok z \<longrightarrow> ml_inflate ml z = Ok raw"
    and "to_negotiator_offer ml b = Ok wire"
  shows "blob_decode (blob_encode b) = b \<and> from_negotiator_offer ml wire = Ok b"
proof -
  have "ml_finish ml (blob_encode b) = Ok wire"
    using assms(3) by (auto simp: to_negotiator_offer_def Let_def negotiation_err_def split: res.splits)
  then have "ml_inflate ml wire = Ok (blob_encode b)" using assms(2) by blast
  then show ?thesis using blob_round [OF assms(1)] by (simp add: from_negotiator_offer_def negotiation_err_def)
qed

definition plain_media_lib :: media_lib where
  "plain_media_lib = \<lparr>ml_write = (\<lambda>_. Ok ()), ml_finish = (\<lambda>raw. Ok (0x78 # raw)),
     ml_inflate = (\<lambda>z. case z of [] \<Rightarrow> Err (rstr ''empty'') | _ # r \<Rightarrow> Ok r),
     ml_to_binary = (\<lambda>_. Err []), ml_from_bytes = (\<lambda>_. Err []), ml_insert = (\<lambda>k v d. d @ [(k, v)])\<rparr>"

definition sample_blob :: media_negotiation_blob where
  "sample_blob =
    \<lparr>mb_general_info = Some (general_default\<lparr>gi_cname := rstr ''host'', gi_rtx_version := 1\<rparr>),
     mb_bandwidth_settings = None, mb_codec_features = None,
     mb_stream_groups =
       [\<lparr>sg_stream_group = 1, sg_payloads = [payload_default\<lparr>sp_rtp_payload := 100, sp_rtp_sample_rate := 90000\<rparr>],
         sg_streams = [stream_default\<lparr>ss_rtp_ssrc := 0xdeadbeef\<rparr>], sg_settings_u1 = None\<rparr>]\<rparr>"

theorem negotiation_round_trip_witness:
  "from_negotiator_offer plain_media_lib (0x78 # blob_encode sample_blob) = Ok sample_blob"
proof -
  have "utf8_valid (rstr ''host'')" by code_simp
  moreover have "length (blob_encode sample_blob) < 200" by code_simp
  ultimately have "blob_ok sample_blob" by (simp add: blob_ok_def sample_blob_def)
  moreover have "\<forall>raw z. ml_finish plain_media_lib raw = Ok z \<longrightarrow> ml_inflate plain_media_lib z = Ok raw"
    by (simp add: plain_media_lib_def)
  moreover have "to_negotiator_offer plain_media_lib sample_blob = Ok (0x78 # blob_encode sample_blob)"
    by (simp add: plain_media_lib_def to_negotiator_offer_def negotiation_err_def Let_def)
  ultimately show ?thesis using negotiation_round_trip by blast
qed

end
