(* ===== verification/Pairing_File.thy ===== *)
theory Pairing_File
  imports Device Texts
begin

text \<open>
  pairing\_file.rs (with the default \<open>rustls\<close> backend): the record of identities and certificates a host
  keeps for a device. Base64 (the base64 crate) and the PEM reader (rustls) are parameters.
\<close>

section \<open>PEM\<close>

definition base64_char :: "byte list \<Rightarrow> bool" where
  "base64_char c \<longleftrightarrow>
    (case c of [b] \<Rightarrow> ascii_alphanumeric b \<or> b = 0x2B \<or> b = 0x2F \<or> b = 0x3D | _ \<Rightarrow> False) \<or> char_whitespace c"

definition is_base64 :: "byte list \<Rightarrow> bool" where
  "is_base64 data \<longleftrightarrow> utf8_valid data \<and> list_all base64_char (utf8_chars data)"

definition is_pem_formatted :: "byte list \<Rightarrow> bool" where
  "is_pem_formatted data \<longleftrightarrow>
    utf8_valid data \<and> str_contains data (rstr ''-----BEGIN'') \<and> str_contains data (rstr ''-----END'')"

primrec with_newlines :: "byte list list \<Rightarrow> byte list" where
  "with_newlines [] = []"
| "with_newlines (c # cs) = c @ concat (map (\<lambda>d. 10 # d) cs)"

definition ensure_pem_headers :: "(byte list \<Rightarrow> byte list) \<Rightarrow> byte list \<Rightarrow> string \<Rightarrow> byte list" where
  "ensure_pem_headers b64 data pem_type =
    (if is_pem_formatted data then data
     else
       let content = (if is_base64 data
             then filter (\<lambda>b. b \<noteq> 10 \<and> b \<noteq> 13 \<and> b \<noteq> 32) (utf8_lossy data) else b64 data)
       in rstr ''-----BEGIN '' @ rstr pem_type @ rstr ''-----'' @ [10] @
          with_newlines (chunks 64 content) @ [10] @
          rstr ''-----END '' @ rstr pem_type @ rstr ''-----'')"

section \<open>The record and its stored form\<close>

record pairing_file =
  pf_device_certificate :: "byte list"
  pf_host_private_key :: "byte list"
  pf_host_certificate :: "byte list"
  pf_root_private_key :: "byte list"
  pf_root_certificate :: "byte list"
  pf_system_buid :: rstring
  pf_host_id :: rstring
  pf_escrow_bag :: "byte list option"
  pf_wifi_mac_address :: rstring
  pf_udid :: "rstring option"

record raw_pairing_file =
  rw_device_certificate :: "byte list"
  rw_host_private_key :: "byte list"
  rw_host_certificate :: "byte list"
  rw_root_private_key :: "byte list"
  rw_root_certificate :: "byte list"
  rw_system_buid :: rstring
  rw_host_id :: rstring
  rw_escrow_bag :: "byte list option"
  rw_wifi_mac_address :: rstring
  rw_udid :: "rstring option"

text \<open>
  The derived conversions from and to a property list: keys in Pascal case but for those renamed; a
  field that is missing or of another type is an error, an absent optional one is \<open>None\<close> and is not
  written.
\<close>

definition want_data :: "plist_dict \<Rightarrow> string \<Rightarrow> (byte list, idevice_error) res" where
  "want_data d k = (case dict_get d k of Some (PData b) \<Rightarrow> Ok b | _ \<Rightarrow> Err Plist)"

definition want_string :: "plist_dict \<Rightarrow> string \<Rightarrow> (rstring, idevice_error) res" where
  "want_string d k = (case dict_get d k of Some (PString s) \<Rightarrow> Ok s | _ \<Rightarrow> Err Plist)"

definition want_opt :: "(plist_dict \<Rightarrow> string \<Rightarrow> ('a, idevice_error) res) \<Rightarrow> plist_dict \<Rightarrow> string \<Rightarrow>
    ('a option, idevice_error) res" where
  "want_opt want d k = (if dict_get d k = None then Ok None else rmap Some (want d k))"

definition raw_from_value :: "plist_value \<Rightarrow> (raw_pairing_file, idevice_error) res" where
  "raw_from_value v =
    rbind (ok_or Plist (plist_as_dictionary v)) (\<lambda>d.
    rbind (want_data d ''DeviceCertificate'') (\<lambda>dc.
    rbind (want_data d ''HostPrivateKey'') (\<lambda>hk.
    rbind (want_data d ''HostCertificate'') (\<lambda>hc.
    rbind (want_data d ''RootPrivateKey'') (\<lambda>rk.
    rbind (want_data d ''RootCertificate'') (\<lambda>rc.
    rbind (want_string d ''SystemBUID'') (\<lambda>sb.
    rbind (want_string d ''HostID'') (\<lambda>hi.
    rbind (want_opt want_data d ''EscrowBag'') (\<lambda>eb.
    rbind (want_string d ''WiFiMACAddress'') (\<lambda>wm.
    rbind (want_opt want_string d ''UDID'') (\<lambda>ud.
      Ok \<lparr>rw_device_certificate = dc, rw_host_private_key = hk, rw_host_certificate = hc,
          rw_root_private_key = rk, rw_root_certificate = rc, rw_system_buid = sb, rw_host_id = hi,
          rw_escrow_bag = eb, rw_wifi_mac_address = wm, rw_udid = ud\<rparr>)))))))))))"

definition raw_to_value :: "raw_pairing_file \<Rightarrow> plist_value" where
  "raw_to_value r = PDictionary
    ([(rstr ''DeviceCertificate'', PData (rw_device_certificate r)),
      (rstr ''HostPrivateKey'', PData (rw_host_private_key r)),
      (rstr ''HostCertificate'', PData (rw_host_certificate r)),
      (rstr ''RootPrivateKey'', PData (rw_root_private_key r)),
      (rstr ''RootCertificate'', PData (rw_root_certificate r)),
      (rstr ''SystemBUID'', PString (rw_system_buid r)), (rstr ''HostID'', PString (rw_host_id r))] @
     (case rw_escrow_bag r of None \<Rightarrow> [] | Some b \<Rightarrow> [(rstr ''EscrowBag'', PData b)]) @
     [(rstr ''WiFiMACAddress'', PString (rw_wifi_mac_address r))] @
     (case rw_udid r of None \<Rightarrow> [] | Some u \<Rightarrow> [(rstr ''UDID'', PString u)]))"

text \<open>The PEM reader fails with the error \<open>e\<close> that its callers only log.\<close>

record pem_lib =
  pem_b64 :: "byte list \<Rightarrow> byte list"
  pem_cert :: "byte list \<Rightarrow> byte list option"

definition pairing_try_from :: "pem_lib \<Rightarrow> raw_pairing_file \<Rightarrow> pairing_file option" where
  "pairing_try_from pem value =
    Option.bind (pem_cert pem (ensure_pem_headers (pem_b64 pem) (rw_device_certificate value) ''CERTIFICATE'')) (\<lambda>dc.
    Option.bind (pem_cert pem (ensure_pem_headers (pem_b64 pem) (rw_host_certificate value) ''CERTIFICATE'')) (\<lambda>hc.
    Option.bind (pem_cert pem (ensure_pem_headers (pem_b64 pem) (rw_root_certificate value) ''CERTIFICATE'')) (\<lambda>rc.
      Some \<lparr>pf_device_certificate = dc, pf_host_private_key = rw_host_private_key value,
            pf_host_certificate = hc, pf_root_private_key = rw_root_private_key value,
            pf_root_certificate = rc, pf_system_buid = rw_system_buid value, pf_host_id = rw_host_id value,
            pf_escrow_bag = rw_escrow_bag value, pf_wifi_mac_address = rw_wifi_mac_address value,
            pf_udid = rw_udid value\<rparr>)))"

definition raw_of_pairing :: "pem_lib \<Rightarrow> pairing_file \<Rightarrow> raw_pairing_file" where
  "raw_of_pairing pem p =
    \<lparr>rw_device_certificate = ensure_pem_headers (pem_b64 pem) (pf_device_certificate p) ''CERTIFICATE'',
     rw_host_private_key = ensure_pem_headers (pem_b64 pem) (pf_host_private_key p) ''PRIVATE KEY'',
     rw_host_certificate = ensure_pem_headers (pem_b64 pem) (pf_host_certificate p) ''CERTIFICATE'',
     rw_root_private_key = ensure_pem_headers (pem_b64 pem) (pf_root_private_key p) ''PRIVATE KEY'',
     rw_root_certificate = ensure_pem_headers (pem_b64 pem) (pf_root_certificate p) ''CERTIFICATE'',
     rw_system_buid = pf_system_buid p, rw_host_id = pf_host_id p, rw_escrow_bag = pf_escrow_bag p,
     rw_wifi_mac_address = pf_wifi_mac_address p, rw_udid = pf_udid p\<rparr>"

definition pairing_from_value :: "pem_lib \<Rightarrow> plist_value \<Rightarrow> (pairing_file, idevice_error) res" where
  "pairing_from_value pem v =
    rbind (raw_from_value v) (\<lambda>r.
    ok_or (UnexpectedResponse ''failed to convert raw pairing file into pairing file'') (pairing_try_from pem r))"

definition pairing_from_bytes :: "plist_lib \<Rightarrow> pem_lib \<Rightarrow> byte list \<Rightarrow> (pairing_file, idevice_error) res" where
  "pairing_from_bytes pl pem bytes =
    (case rbind (pl_from_bytes pl bytes) raw_from_value of
       Ok r \<Rightarrow> ok_or (UnexpectedResponse ''failed to convert raw pairing file into pairing file'')
         (pairing_try_from pem r)
     | Err _ \<Rightarrow> Err (UnexpectedResponse ''failed to parse raw pairing file from bytes'')
     | Panic \<Rightarrow> Panic)"

definition pairing_serialize :: "plist_lib \<Rightarrow> pem_lib \<Rightarrow> pairing_file \<Rightarrow> (byte list, idevice_error) res" where
  "pairing_serialize pl pem p = pl_to_xml pl (raw_to_value (raw_of_pairing pem p))"

section \<open>Round trip\<close>

lemma raw_round: "raw_from_value (raw_to_value r) = Ok r"
  by (cases r)
    (simp add: raw_from_value_def raw_to_value_def plist_as_dictionary_def want_data_def want_string_def
      want_opt_def dict_get_def split: option.split)

lemma find_sub_skip: "find_sub d bs \<noteq> None \<Longrightarrow> find_sub d (as @ bs) \<noteq> None"
  by (induction as) auto

lemma find_sub_prefix: "find_sub d (d @ r) \<noteq> None"
  by (cases d; cases r) auto

lemma str_contains_mid: "str_contains (a @ d @ b) d"
  unfolding str_contains_def by (intro find_sub_skip find_sub_prefix)

lemma with_newlines_set: "set (with_newlines cs) \<subseteq> insert 10 (set (concat cs))"
  by (cases cs) auto

lemma ensure_pem_der:
  assumes "\<not> utf8_valid data" and "\<forall>x. \<forall>b \<in> set (b64 x). b < 0x80" and "list_all (\<lambda>c. of_char c < (128 :: nat)) ty"
  shows "is_pem_formatted (ensure_pem_headers b64 data ty)"
proof -
  let ?e = "ensure_pem_headers b64 data ty"
  define body where "body = with_newlines (chunks 64 (b64 data))"
  have e: "?e = rstr ''-----BEGIN '' @ rstr ty @ rstr ''-----'' @ [10] @ body @ [10] @
      rstr ''-----END '' @ rstr ty @ rstr ''-----''"
    using assms(1) by (simp add: ensure_pem_headers_def is_pem_formatted_def is_base64_def body_def)
  have ty: "\<forall>b \<in> set (rstr ty). b < 0x80"
    using assms(3) by (auto simp: list_all_iff word_less_nat_alt unat_of_nat)
  have "\<forall>b \<in> set body. b < 0x80"
    using with_newlines_set [of "chunks 64 (b64 data)"] assms(2) by (auto simp: body_def)
  then have "\<forall>b \<in> set ?e. b < 0x80" using ty unfolding e by auto
  then have "utf8_valid ?e" by (rule utf8_valid_all_ascii)
  moreover have "str_contains ?e (rstr ''-----BEGIN'')"
  proof -
    have "?e = [] @ rstr ''-----BEGIN'' @ 32 # rstr ty @ rstr ''-----'' @ [10] @ body @ [10] @
        rstr ''-----END '' @ rstr ty @ rstr ''-----''" by (simp add: e)
    then show ?thesis using str_contains_mid [of "[]" "rstr ''-----BEGIN''"] by metis
  qed
  moreover have "str_contains ?e (rstr ''-----END'')"
  proof -
    have "?e = (rstr ''-----BEGIN '' @ rstr ty @ rstr ''-----'' @ [10] @ body @ [10]) @ rstr ''-----END'' @
        32 # rstr ty @ rstr ''-----''" by (simp add: e)
    then show ?thesis using str_contains_mid by metis
  qed
  ultimately show ?thesis by (simp add: is_pem_formatted_def)
qed

lemma ensure_pem_id: "is_pem_formatted data \<Longrightarrow> ensure_pem_headers b64 data ty = data"
  by (simp add: ensure_pem_headers_def)

text \<open>
  A pairing record that is stored and read back is the same, but for private keys kept in binary,
  which come back as PEM text, where the certificates are DER (never valid UTF-8), Base64
  is ASCII, and the PEM reader undoes the PEM text of a certificate.
\<close>

theorem pairing_round_trip:
  assumes "\<forall>c \<in> {pf_device_certificate p, pf_host_certificate p, pf_root_certificate p}.
      \<not> utf8_valid c \<and> pem_cert pem (ensure_pem_headers (pem_b64 pem) c ''CERTIFICATE'') = Some c"
    and "\<forall>x. \<forall>b \<in> set (pem_b64 pem x). b < 0x80"
    and "pairing_serialize pl pem p = Ok bytes"
    and "pl_from_bytes pl bytes = Ok (raw_to_value (raw_of_pairing pem p))"
  shows "pairing_from_bytes pl pem bytes =
    Ok (p\<lparr>pf_host_private_key := ensure_pem_headers (pem_b64 pem) (pf_host_private_key p) ''PRIVATE KEY'',
         pf_root_private_key := ensure_pem_headers (pem_b64 pem) (pf_root_private_key p) ''PRIVATE KEY''\<rparr>)"
proof -
  have "ensure_pem_headers (pem_b64 pem) (ensure_pem_headers (pem_b64 pem) c ''CERTIFICATE'') ''CERTIFICATE'' =
      ensure_pem_headers (pem_b64 pem) c ''CERTIFICATE''"
    if "c \<in> {pf_device_certificate p, pf_host_certificate p, pf_root_certificate p}" for c
    using ensure_pem_der [OF _ assms(2), of c "''CERTIFICATE''"] assms(1) that
    by (intro ensure_pem_id) (auto simp: list_all_iff)
  then show ?thesis
    using assms(1,4)
    by (simp add: pairing_from_bytes_def raw_round pairing_try_from_def raw_of_pairing_def)
qed

end
