(* ===== verification/Lockdown.thy ===== *)
theory Lockdown
  imports Pairing_File
begin

text \<open>
  services/lockdown.rs: the client of lockdownd. Every operation is one or more requests, each a
  property list answered by one. Certificate generation (ca.rs) is a parameter, and so is
  the TLS handshake of a session; \<open>sleep\<close> is no operation.
\<close>

section \<open>A request and its answer\<close>

definition ask :: "plist_lib \<Rightarrow> plist_value \<Rightarrow> (idevice, plist_dict) act" where
  "ask pl req = act_bind (send_plist pl req) (\<lambda>_. read_plist pl)"

text \<open>What \<open>read_plist\<close> makes of the message it has read.\<close>

definition answer_of :: "plist_lib \<Rightarrow> plist_value \<Rightarrow> (plist_dict, idevice_error) res" where
  "answer_of pl v =
    rbind (pl_to_dict pl v) (\<lambda>res. case device_error res of Some e \<Rightarrow> Err e | None \<Rightarrow> Ok res)"

definition framed :: "byte list \<Rightarrow> byte list" where
  "framed b = to_be_bytes (of_nat (length b) :: u32) @ b"

text \<open>\<open>?\<close> entries of \<open>plist!\<close> are there only when they have a value.\<close>

definition opt_entry :: "string \<Rightarrow> ('a \<Rightarrow> plist_value) \<Rightarrow> 'a option \<Rightarrow> plist_dict" where
  "opt_entry k f v = (case v of None \<Rightarrow> [] | Some x \<Rightarrow> [(rstr k, f x)])"

text \<open>A Rust text in a message, as a text of the logic.\<close>

definition text_of :: "rstring \<Rightarrow> string" where
  "text_of s = map (\<lambda>b. char_of (unat b)) s"

section \<open>The client\<close>

record lockdown =
  ld_idevice :: idevice
  ld_session_id :: "rstring option"

definition LOCKDOWND_PORT :: u16 where "LOCKDOWND_PORT = 62078"

definition lockdown_new :: "idevice \<Rightarrow> lockdown" where
  "lockdown_new d = \<lparr>ld_idevice = d, ld_session_id = None\<rparr>"

text \<open>\<open>self.idevice.f().await?\<close>\<close>

definition on_idevice :: "(idevice, 'a) act \<Rightarrow> (lockdown, 'a) act" where
  "on_idevice m c = (case m (ld_idevice c) of (r, d) \<Rightarrow> (r, c\<lparr>ld_idevice := d\<rparr>))"

definition ld_label :: "lockdown \<Rightarrow> plist_value" where
  "ld_label c = PString (dv_label (ld_idevice c))"

definition lockdown_from_stream :: "plist_lib \<Rightarrow> transport \<Rightarrow> (lockdown, idevice_error) res" where
  "lockdown_from_stream pl stream =
    (case rsd_checkin pl (idevice_new stream []) of
       (Ok _, d) \<Rightarrow> Ok (lockdown_new d) | (Err e, _) \<Rightarrow> Err e | (Panic, _) \<Rightarrow> Panic)"

definition get_value :: "plist_lib \<Rightarrow> rstring option \<Rightarrow> rstring option \<Rightarrow> (lockdown, plist_value) act" where
  "get_value pl key domain c =
    act_bind (on_idevice (ask pl (PDictionary
        ([(rstr ''Label'', ld_label c), (rstr ''Request'', PString (rstr ''GetValue''))] @
         opt_entry ''Key'' PString key @ opt_entry ''Domain'' PString domain)))) (\<lambda>message.
      case dict_get message ''Value'' of
        Some m \<Rightarrow> act_ok m
      | None \<Rightarrow> act_err (UnexpectedResponse ''missing Value in GetValue response'')) c"

definition set_value :: "plist_lib \<Rightarrow> rstring \<Rightarrow> plist_value \<Rightarrow> rstring option \<Rightarrow> (lockdown, unit) act" where
  "set_value pl key v domain c =
    act_bind (on_idevice (ask pl (PDictionary
        ([(rstr ''Label'', ld_label c), (rstr ''Request'', PString (rstr ''SetValue'')),
          (rstr ''Key'', PString key), (rstr ''Value'', v)] @
         opt_entry ''Domain'' PString domain)))) (\<lambda>_. act_ok ()) c"

text \<open>\<open>if let Some(String(e)) = response.get("Error")\<close>\<close>

definition refuse_error :: "string \<Rightarrow> plist_dict \<Rightarrow> ('s, unit) act" where
  "refuse_error what response =
    (case Option.bind (dict_get response ''Error'') plist_as_string of
       Some e \<Rightarrow> act_err (UnexpectedResponse (what @ text_of e))
     | None \<Rightarrow> act_ok ())"

definition remove_value :: "plist_lib \<Rightarrow> rstring \<Rightarrow> rstring option \<Rightarrow> (lockdown, unit) act" where
  "remove_value pl key domain c =
    act_bind (on_idevice (ask pl (PDictionary
        ([(rstr ''Label'', ld_label c), (rstr ''Request'', PString (rstr ''RemoveValue'')),
          (rstr ''Key'', PString key)] @ opt_entry ''Domain'' PString domain))))
      (refuse_error ''RemoveValue failed: '') c"

definition unpair :: "plist_lib \<Rightarrow> rstring \<Rightarrow> (lockdown, unit) act" where
  "unpair pl host_id c =
    act_bind (on_idevice (ask pl (PDictionary
        [(rstr ''Label'', ld_label c), (rstr ''Request'', PString (rstr ''Unpair'')),
         (rstr ''PairRecord'', PDictionary [(rstr ''HostID'', PString host_id)])])))
      (refuse_error ''Unpair failed: '') c"

text \<open>
  \<open>x.split(".").next()\<close> and \<open>parse::<u8>()\<close> of the version; the handshake gets the flag for old devices.
\<close>

definition legacy_version :: "plist_value \<Rightarrow> bool option" where
  "legacy_version v =
    Option.bind (plist_as_string v) (\<lambda>x.
    map_option (\<lambda>n. n < 5) (parse_unsigned 8 (takeWhile (\<lambda>b. b \<noteq> 0x2E) x)))"

definition start_session :: "plist_lib \<Rightarrow> (pairing_file \<Rightarrow> bool \<Rightarrow> (idevice, unit) act) \<Rightarrow> pairing_file \<Rightarrow> (lockdown, bool) act" where
  "start_session pl tls pf c =
    (if dv_socket (ld_idevice c) = None then (Err NoEstablishedConnection, c)
     else
       case get_value pl (Some (rstr ''ProductVersion'')) None c of
         (Panic, c1) \<Rightarrow> (Panic, c1)
       | (version, c1) \<Rightarrow>
         let legacy = (case version of
               Ok v \<Rightarrow> (case legacy_version v of Some b \<Rightarrow> b | None \<Rightarrow> False) | _ \<Rightarrow> False)
         in act_bind (on_idevice (ask pl (PDictionary
               [(rstr ''Label'', ld_label c1), (rstr ''Request'', PString (rstr ''StartSession'')),
                (rstr ''HostID'', PString (pf_host_id pf)), (rstr ''SystemBUID'', PString (pf_system_buid pf))]))) (\<lambda>response.
             case dict_get response ''EnableSessionSSL'' of
               Some (PBoolean enable) \<Rightarrow>
                 if \<not> enable then act_err (UnexpectedResponse ''EnableSessionSSL is false in StartSession response'')
                 else
                   act_bind (act_upd (\<lambda>c. c\<lparr>ld_session_id :=
                       Option.bind (dict_get response ''SessionID'') plist_as_string\<rparr>)) (\<lambda>_.
                   act_bind (on_idevice (tls pf legacy)) (\<lambda>_. act_ok legacy))
             | _ \<Rightarrow> act_err (UnexpectedResponse ''missing EnableSessionSSL in StartSession response'')) c1)"

definition stop_session :: "plist_lib \<Rightarrow> (lockdown, unit) act" where
  "stop_session pl c =
    act_bind (on_idevice (ask pl (PDictionary
        ([(rstr ''Label'', ld_label c), (rstr ''Request'', PString (rstr ''StopSession''))] @
         opt_entry ''SessionID'' PString (ld_session_id c))))) (\<lambda>response.
      act_bind (refuse_error ''StopSession failed: '' response) (\<lambda>_.
      act_upd (\<lambda>c. c\<lparr>ld_session_id := None\<rparr>))) c"

definition service_port :: "plist_dict \<Rightarrow> (u16 \<times> bool, idevice_error) res" where
  "service_port response =
    (let ssl = (case dict_get response ''EnableServiceSSL'' of Some (PBoolean ssl) \<Rightarrow> ssl | _ \<Rightarrow> False)
     in case dict_get response ''Port'' of
          Some (PInteger port) \<Rightarrow>
            (case as_unsigned port of
               Some p \<Rightarrow> Ok (ucast p, ssl)
             | None \<Rightarrow> Err (UnexpectedResponse ''Port is not an unsigned integer in StartService response''))
        | _ \<Rightarrow> Err (UnexpectedResponse ''missing Port in StartService response''))"

definition start_service_with_escrow :: "plist_lib \<Rightarrow> rstring \<Rightarrow> byte list option \<Rightarrow> (lockdown, u16 \<times> bool) act" where
  "start_service_with_escrow pl identifier escrow_bag =
    act_bind (on_idevice (ask pl (PDictionary
        ([(rstr ''Request'', PString (rstr ''StartService'')), (rstr ''Service'', PString identifier)] @
         opt_entry ''EscrowBag'' PData escrow_bag)))) (\<lambda>response. act_res (service_port response))"

definition start_service :: "plist_lib \<Rightarrow> rstring \<Rightarrow> (lockdown, u16 \<times> bool) act" where
  "start_service pl identifier = start_service_with_escrow pl identifier None"

definition enter_recovery :: "plist_lib \<Rightarrow> (lockdown, unit) act" where
  "enter_recovery pl =
    act_bind (on_idevice (ask pl (PDictionary [(rstr ''Request'', PString (rstr ''EnterRecovery''))]))) (\<lambda>res.
      if Option.bind (dict_get res ''Request'') plist_as_string = Some (rstr ''EnterRecovery'') then act_ok ()
      else act_err (UnexpectedResponse ''EnterRecovery request not acknowledged''))"

section \<open>Pairing\<close>

record ca_return =
  ca_host_cert :: "byte list"
  ca_dev_cert :: "byte list"
  ca_private_key :: "byte list"

text \<open>\<open>generate_certificates(..).unwrap()\<close>: a key it cannot read panics.\<close>

definition build_pair_request :: "plist_lib \<Rightarrow> (byte list \<Rightarrow> ca_return option) \<Rightarrow> rstring \<Rightarrow> rstring \<Rightarrow> rstring option \<Rightarrow>
    (lockdown, plist_value \<times> plist_dict \<times> byte list) act" where
  "build_pair_request pl certs host_id system_buid host_name =
    act_bind (get_value pl (Some (rstr ''DevicePublicKey'')) None) (\<lambda>pub_key.
      case pub_key of
        PData pub_key \<Rightarrow>
          act_bind (get_value pl (Some (rstr ''WiFiAddress'')) None) (\<lambda>wifi_mac.
            case wifi_mac of
              PString wifi_mac \<Rightarrow>
                (case certs pub_key of
                   None \<Rightarrow> act_res Panic
                 | Some ca \<Rightarrow> (\<lambda>c.
                     let pair_record =
                           [(rstr ''DevicePublicKey'', PData pub_key), (rstr ''DeviceCertificate'', PData (ca_dev_cert ca)),
                            (rstr ''HostCertificate'', PData (ca_host_cert ca)), (rstr ''HostID'', PString host_id),
                            (rstr ''RootCertificate'', PData (ca_host_cert ca)),
                            (rstr ''RootPrivateKey'', PData (ca_private_key ca)),
                            (rstr ''WiFiMACAddress'', PString wifi_mac), (rstr ''SystemBUID'', PString system_buid)];
                         req = PDictionary
                           ([(rstr ''Label'', ld_label c), (rstr ''Request'', PString (rstr ''Pair''))] @
                            opt_entry ''HostName'' PString host_name @
                            [(rstr ''PairRecord'', PDictionary pair_record),
                             (rstr ''ProtocolVersion'', PString (rstr ''2'')),
                             (rstr ''PairingOptions'', PDictionary [(rstr ''ExtendedPairingErrors'', PBoolean True)])])
                     in act_ok (req, pair_record, ca_private_key ca) c))
            | _ \<Rightarrow> act_err (UnexpectedResponse ''missing WiFiAddress string in pair response''))
      | _ \<Rightarrow> act_err (UnexpectedResponse ''missing DevicePublicKey data in pair response''))"

definition finish_pairing :: "pem_lib \<Rightarrow> plist_dict \<Rightarrow> byte list \<Rightarrow> plist_dict \<Rightarrow> (pairing_file, idevice_error) res" where
  "finish_pairing pem pair_record private_key escrow =
    pairing_from_value pem (PDictionary
      (pair_record @ [(rstr ''HostPrivateKey'', PData private_key)] @
       (case dict_get escrow ''EscrowBag'' of Some (PData b) \<Rightarrow> [(rstr ''EscrowBag'', PData b)] | _ \<Rightarrow> [])))"

definition pair_once :: "plist_lib \<Rightarrow> pem_lib \<Rightarrow> (byte list \<Rightarrow> ca_return option) \<Rightarrow> rstring \<Rightarrow> rstring \<Rightarrow> rstring option \<Rightarrow>
    (lockdown, pairing_file) act" where
  "pair_once pl pem certs host_id system_buid host_name =
    act_bind (build_pair_request pl certs host_id system_buid host_name) (\<lambda>(req, pair_record, private_key).
    act_bind (on_idevice (ask pl req)) (\<lambda>escrow. act_res (finish_pairing pem pair_record private_key escrow)))"

text \<open>
  The loop of \<open>pair\<close>. Every round that goes on has read a length, so the bytes that are to arrive
  run out.
\<close>

definition ld_pending :: "lockdown \<Rightarrow> nat" where
  "ld_pending c = (case dv_socket (ld_idevice c) of None \<Rightarrow> 0 | Some t \<Rightarrow> length (tp_pending t))"

lemma read_plist_pending:
  assumes "read_plist pl d = (Err PairingDialogResponsePending, d')"
  shows "\<exists>t u. dv_socket d = Some t \<and> dv_socket d' = Some u \<and> length (tp_pending u) + 4 \<le> length (tp_pending t)"
proof (cases "dv_socket d")
  case None
  with assms show ?thesis by (simp add: read_plist_def read_plist_value_def on_socket_def act_bind_def)
next
  case (Some t)
  obtain r1 u1 where r1: "tp_read_exact 4 t = (r1, u1)" by fastforce
  show ?thesis
  proof (cases r1)
    case (Err e)
    with tp_read_exact_err r1 have "e = eof" by blast
    with assms Some r1 Err show ?thesis
      by (simp add: read_plist_def read_plist_value_def on_socket_def act_bind_def)
  next
    case Panic
    with assms Some r1 show ?thesis
      by (simp add: read_plist_def read_plist_value_def on_socket_def act_bind_def)
  next
    case (Ok b)
    from tp_read_exact_Ok [OF r1 [unfolded Ok]] have l: "length (tp_pending t) = 4 + length (tp_pending u1)" by simp
    obtain r2 u2 where r2: "tp_read_exact (unat (from_be_bytes b :: u32)) u1 = (r2, u2)" by fastforce
    from tp_read_exact_pending [OF r2] l have "length (tp_pending u2) + 4 \<le> length (tp_pending t)" by simp
    moreover have "dv_socket d' = Some u2"
      using assms Some r1 r2 Ok
      by (cases r2) (auto simp: read_plist_def read_plist_value_def on_socket_def act_bind_def act_res_def
          split: res.splits option.splits prod.splits)
    ultimately show ?thesis using Some by blast
  qed
qed

lemma send_plist_pending:
  assumes "send_plist pl req d = (r, d')"
  shows "map_option tp_pending (dv_socket d') = map_option tp_pending (dv_socket d)"
proof (cases "dv_socket d")
  case (Some t)
  have w: "tp_in (snd (send_framed b u)) = tp_in u" for b u
  proof -
    have "tp_in (snd (act_bind m f u)) = tp_in u" if "\<And>v. tp_in (snd (m v)) = tp_in v" "\<And>a v. tp_in (snd (f a v)) = tp_in v"
      for m :: "(transport, 'a) act" and f :: "'a \<Rightarrow> (transport, 'b) act" and u
      using that(1) [of u] that(2) by (auto simp: act_bind_def split: prod.split res.split)
    then show ?thesis unfolding send_framed_def by (metis tp_write_all_in tp_flush_same(1))
  qed
  have "tp_in (snd (act_bind (act_res (pl_to_xml pl req)) (\<lambda>b. if utf8_valid b then send_framed b else act_err Utf8Err) t)) = tp_in t"
    by (cases "pl_to_xml pl req") (simp_all add: act_bind_def act_res_def act_err_def w split: prod.split)
  with Some assms show ?thesis
    by (auto simp: send_plist_def on_socket_def tp_pending_def split: prod.splits)
qed (use assms in \<open>simp add: send_plist_def on_socket_def\<close>)

lemma pair_round_shorter:
  assumes "on_idevice (send_plist pl req) c = (Ok x, c1)"
    and "on_idevice (read_plist pl) c1 = (Err PairingDialogResponsePending, c2)"
  shows "ld_pending c2 < ld_pending c"
proof -
  from assms(1) obtain d1 where d1: "send_plist pl req (ld_idevice c) = (Ok x, d1)" "c1 = c\<lparr>ld_idevice := d1\<rparr>"
    by (auto simp: on_idevice_def split: prod.splits)
  from assms(2) d1(2) obtain d2 where d2: "read_plist pl d1 = (Err PairingDialogResponsePending, d2)" "c2 = c1\<lparr>ld_idevice := d2\<rparr>"
    by (auto simp: on_idevice_def split: prod.splits)
  from read_plist_pending [OF d2(1)] obtain t u where
    "dv_socket d1 = Some t" "dv_socket d2 = Some u" "length (tp_pending u) + 4 \<le> length (tp_pending t)" by blast
  with send_plist_pending [OF d1(1)] d2(2) show ?thesis
    by (cases "dv_socket (ld_idevice c)") (auto simp: ld_pending_def)
qed

function pair_loop :: "plist_lib \<Rightarrow> pem_lib \<Rightarrow> plist_value \<Rightarrow> plist_dict \<Rightarrow> byte list \<Rightarrow> (lockdown, pairing_file) act" where
  "pair_loop pl pem req pair_record private_key c =
    (case on_idevice (send_plist pl req) c of
       (Err e, c1) \<Rightarrow> (Err e, c1)
     | (Panic, c1) \<Rightarrow> (Panic, c1)
     | (Ok _, c1) \<Rightarrow>
         (case on_idevice (read_plist pl) c1 of
            (Ok escrow, c2) \<Rightarrow> (finish_pairing pem pair_record private_key escrow, c2)
          | (Err e, c2) \<Rightarrow>
              if e = PairingDialogResponsePending then pair_loop pl pem req pair_record private_key c2
              else (Err e, c2)
          | (Panic, c2) \<Rightarrow> (Panic, c2)))"
  by pat_completeness auto
termination pair_loop
  by (relation "measure (\<lambda>(_, _, _, _, _, c). ld_pending c)") (auto dest!: sym [of "(_, _)"] intro: pair_round_shorter)

declare pair_loop.simps [simp del]

definition pair_device :: "plist_lib \<Rightarrow> pem_lib \<Rightarrow> (byte list \<Rightarrow> ca_return option) \<Rightarrow> rstring \<Rightarrow> rstring \<Rightarrow> rstring option \<Rightarrow>
    (lockdown, pairing_file) act" where
  "pair_device pl pem certs host_id system_buid host_name =
    act_bind (build_pair_request pl certs host_id system_buid host_name) (\<lambda>(req, pair_record, private_key).
    pair_loop pl pem req pair_record private_key)"

section \<open>Exchanges\<close>

text \<open>
  A connection on which the bytes \<open>inp\<close> are to arrive, and on which \<open>out\<close> has been written.
\<close>

definition talks :: "idevice \<Rightarrow> byte list \<Rightarrow> byte list \<Rightarrow> bool" where
  "talks d inp out \<longleftrightarrow>
    (\<exists>t. dv_socket d = Some t \<and> tp_budget t = None \<and> arrives inp t \<and> concat (tp_out t) = out)"

text \<open>A message the writer turns into \<open>b\<close>, which the reader takes for \<open>v\<close>.\<close>

definition writes_as :: "plist_lib \<Rightarrow> plist_value \<Rightarrow> byte list \<Rightarrow> bool" where
  "writes_as pl v b \<longleftrightarrow> pl_to_xml pl v = Ok b \<and> utf8_valid b \<and> length b < 2 ^ 32"

lemma arrives_out [simp]: "arrives bs (t\<lparr>tp_out := o'\<rparr>) = arrives bs t"
  by (simp add: arrives_def tp_pending_def)

lemma send_talks:
  assumes "talks d inp out" and "writes_as pl req b"
  shows "\<exists>d'. send_plist pl req d = (Ok (), d') \<and> talks d' inp (out @ framed b) \<and> dv_label d' = dv_label d"
proof -
  obtain t where t: "dv_socket d = Some t" "tp_budget t = None" "arrives inp t" "concat (tp_out t) = out"
    using assms(1) by (auto simp: talks_def)
  have "send_plist pl req d = (Ok (), d\<lparr>dv_socket := Some (t\<lparr>tp_out :=
        tp_out t @ [to_be_bytes (of_nat (length b) :: u32), b]\<rparr>)\<rparr>)"
    using t assms(2)
    by (simp add: writes_as_def send_plist_def send_framed_def on_socket_def tp_write_all_unlimited tp_flush_unlimited)
  then show ?thesis using t by (auto simp: talks_def framed_def)
qed

lemma read_value_talks:
  assumes "talks d (framed m @ rest) out" and "length m < 2 ^ 32"
  shows "\<exists>d'. read_plist_value pl d = (pl_from_bytes pl m, d') \<and> talks d' rest out \<and> dv_label d' = dv_label d"
proof -
  obtain t where t: "dv_socket d = Some t" "tp_budget t = None" "arrives (framed m @ rest) t" "concat (tp_out t) = out"
    using assms(1) by (auto simp: talks_def)
  from t(3) have "arrives (to_be_bytes (of_nat (length m) :: u32) @ m @ rest) t" by (simp add: framed_def)
  from tp_read_exact_arrives [OF this] obtain q1 where
    q1: "tp_read_exact 4 t = (Ok (to_be_bytes (of_nat (length m) :: u32)), q1)" "arrives (m @ rest) q1" by auto
  from tp_read_exact_arrives [OF q1(2)] obtain q2 where
    q2: "tp_read_exact (length m) q1 = (Ok m, q2)" "arrives rest q2" by auto
  have "unat (of_nat (length m) :: u32) = length m" using assms(2) by (simp add: unat_of_nat)
  then have "read_plist_value pl d = (pl_from_bytes pl m, d\<lparr>dv_socket := Some q2\<rparr>)"
    using t(1) q1(1) q2(1) by (simp add: read_plist_value_def on_socket_def)
  moreover have "talks (d\<lparr>dv_socket := Some q2\<rparr>) rest out"
    using tp_read_exact_budget [OF q1(1)] tp_read_exact_budget [OF q2(1)] q2(2) t by (simp add: talks_def)
  ultimately show ?thesis by (intro exI [of _ "d\<lparr>dv_socket := Some q2\<rparr>"]) simp
qed

lemma read_talks:
  assumes "talks d (framed m @ rest) out" and "length m < 2 ^ 32" and "pl_from_bytes pl m = Ok v"
  shows "\<exists>d'. read_plist pl d = (answer_of pl v, d') \<and> talks d' rest out \<and> dv_label d' = dv_label d"
proof -
  from read_value_talks [OF assms(1,2)] assms(3) obtain d' where
    d: "read_plist_value pl d = (Ok v, d')" "talks d' rest out" "dv_label d' = dv_label d" by metis
  then have "read_plist pl d = (answer_of pl v, d')"
    by (cases "pl_to_dict pl v")
      (auto simp: read_plist_def act_bind_def act_res_def answer_of_def act_ok_def act_err_def split: option.split)
  with d show ?thesis by blast
qed

lemma ask_talks:
  assumes "talks d (framed m @ rest) out" and "writes_as pl req b" and "length m < 2 ^ 32" and "pl_from_bytes pl m = Ok v"
  shows "\<exists>d'. ask pl req d = (answer_of pl v, d') \<and> talks d' rest (out @ framed b) \<and> dv_label d' = dv_label d"
proof -
  from send_talks [OF assms(1,2)] obtain d1 where
    d1: "send_plist pl req d = (Ok (), d1)" "talks d1 (framed m @ rest) (out @ framed b)" "dv_label d1 = dv_label d" by blast
  from read_talks [OF d1(2) assms(3,4)] d1 show ?thesis by (auto simp: ask_def)
qed

lemma answer_no_error: "answer_of pl v = Ok res \<Longrightarrow> dict_get res ''Error'' = None"
  using device_error_None_iff [of res] by (auto simp: answer_of_def split: option.splits)

section \<open>Properties\<close>

text \<open>The pending answers of a pairing, and the one that ends it.\<close>

definition is_pending :: "plist_lib \<Rightarrow> byte list \<Rightarrow> bool" where
  "is_pending pl m \<longleftrightarrow> length m < 2 ^ 32 \<and>
    (case pl_from_bytes pl m of Ok v \<Rightarrow> answer_of pl v = Err PairingDialogResponsePending | _ \<Rightarrow> False)"

definition pair_result :: "pem_lib \<Rightarrow> plist_dict \<Rightarrow> byte list \<Rightarrow> (plist_dict, idevice_error) res \<Rightarrow> (pairing_file, idevice_error) res" where
  "pair_result pem pair_record private_key a = rbind a (finish_pairing pem pair_record private_key)"

text \<open>
  Pairing waits for the user however long it takes: while the device answers that the dialog is
  open the request is sent again, and the first other answer ends the loop, as the
  error it reports or with the record it completes. Nothing after that answer is read.
\<close>

theorem pair_waits:
  assumes "talks (ld_idevice c) (concat (map framed ms) @ framed m @ rest) out" and "writes_as pl req b"
    and "\<forall>m \<in> set ms. is_pending pl m"
    and "length m < 2 ^ 32" and "pl_from_bytes pl m = Ok v" and "answer_of pl v \<noteq> Err PairingDialogResponsePending"
  shows "\<exists>c'. pair_loop pl pem req pair_record private_key c =
      (pair_result pem pair_record private_key (answer_of pl v), c') \<and>
    talks (ld_idevice c') rest (out @ concat (replicate (Suc (length ms)) (framed b)))"
  using assms(1,3)
proof (induction ms arbitrary: c out)
  case Nil
  from send_talks [OF Nil(1) assms(2)] obtain d1 where d1: "send_plist pl req (ld_idevice c) = (Ok (), d1)"
    "talks d1 (framed m @ rest) (out @ framed b)" by auto
  from read_talks [OF d1(2) assms(4,5)] obtain d2 where d2: "read_plist pl d1 = (answer_of pl v, d2)"
    "talks d2 rest (out @ framed b)" by auto
  have "pair_loop pl pem req pair_record private_key c =
      (pair_result pem pair_record private_key (answer_of pl v), c\<lparr>ld_idevice := d2\<rparr>)"
    using d1(1) d2(1) assms(6)
    by (subst pair_loop.simps) (cases "answer_of pl v"; simp add: on_idevice_def pair_result_def)
  then show ?case using d2(2) by (auto simp del: replicate_Suc simp: replicate_Suc [of 0])
next
  case (Cons w ms)
  from Cons.prems(2) obtain u where u: "length w < 2 ^ 32" "pl_from_bytes pl w = Ok u"
    "answer_of pl u = Err PairingDialogResponsePending"
    by (auto simp: is_pending_def split: res.splits)
  from Cons.prems(1) have "talks (ld_idevice c) (framed w @ concat (map framed ms) @ framed m @ rest) out" by simp
  from send_talks [OF this assms(2)] obtain d1 where d1: "send_plist pl req (ld_idevice c) = (Ok (), d1)"
    "talks d1 (framed w @ concat (map framed ms) @ framed m @ rest) (out @ framed b)" by auto
  from read_talks [OF d1(2) u(1,2)] obtain d2 where d2: "read_plist pl d1 = (Err PairingDialogResponsePending, d2)"
    "talks d2 (concat (map framed ms) @ framed m @ rest) (out @ framed b)" by (auto simp: u(3))
  have step: "pair_loop pl pem req pair_record private_key c =
      pair_loop pl pem req pair_record private_key (c\<lparr>ld_idevice := d2\<rparr>)"
    using d1(1) d2(1) by (subst pair_loop.simps) (simp add: on_idevice_def)
  from Cons.IH [of "c\<lparr>ld_idevice := d2\<rparr>" "out @ framed b"] d2(2) Cons.prems(2)
  show ?case unfolding step by simp
qed

definition tiny_lib :: plist_lib where
  "tiny_lib = \<lparr>pl_to_xml = (\<lambda>v. Ok [0x51]), pl_to_binary = (\<lambda>v. Err Plist),
     pl_from_bytes = (\<lambda>b. Ok (PDictionary
       (if b = [1] then [(rstr ''Error'', PString (rstr ''PairingDialogResponsePending''))]
        else if b = [2] then [(rstr ''Error'', PString (rstr ''UserDeniedPairing''))]
        else [(rstr ''Port'', PInteger 65558)]))),
     pl_to_dict = (\<lambda>v. case v of PDictionary d \<Rightarrow> Ok d | _ \<Rightarrow> Err Plist),
     pl_to_string = (\<lambda>v. Err Plist)\<rparr>"

definition tiny_peer :: "byte list list \<Rightarrow> lockdown" where
  "tiny_peer msgs = lockdown_new (idevice_new \<lparr>tp_in = map framed msgs, tp_out = [], tp_budget = None\<rparr> [])"

lemma tiny_talks: "talks (ld_idevice (tiny_peer msgs)) (concat (map framed msgs)) []"
proof -
  have "framed m \<noteq> []" for m by (simp add: framed_def to_be_bytes_def to_le_bytes_def nat_le_4 nat_le_3)
  then have "arrives (concat (map framed msgs)) \<lparr>tp_in = map framed msgs, tp_out = [], tp_budget = None\<rparr>"
    by (auto simp: arrives_def tp_pending_def) (metis)
  then show ?thesis by (simp add: talks_def tiny_peer_def lockdown_new_def idevice_new_def)
qed

lemma tiny_answers:
  "answer_of tiny_lib (PDictionary [(rstr ''Error'', PString (rstr ''PairingDialogResponsePending''))]) = Err PairingDialogResponsePending"
  "answer_of tiny_lib (PDictionary [(rstr ''Error'', PString (rstr ''UserDeniedPairing''))]) = Err UserDeniedPairing"
  "answer_of tiny_lib (PDictionary [(rstr ''Port'', PInteger 65558)]) = Ok [(rstr ''Port'', PInteger 65558)]"
  by code_simp+

lemma tiny_writes: "writes_as tiny_lib v [0x51]"
proof -
  have "utf8_valid [0x51]" by code_simp
  then show ?thesis by (simp add: writes_as_def tiny_lib_def)
qed

definition tiny_pem :: pem_lib where
  "tiny_pem = \<lparr>pem_b64 = (\<lambda>b. b), pem_cert = (\<lambda>b. Some b)\<rparr>"

theorem pair_waits_witness:
  "\<exists>c'. pair_loop tiny_lib tiny_pem (PDictionary []) [] [] (tiny_peer [[1], [1], [2]]) = (Err UserDeniedPairing, c') \<and>
    talks (ld_idevice c') [] (concat (replicate 3 (framed [0x51])))"
proof -
  have f: "pl_from_bytes tiny_lib [1] = Ok (PDictionary [(rstr ''Error'', PString (rstr ''PairingDialogResponsePending''))])"
    "pl_from_bytes tiny_lib [2] = Ok (PDictionary [(rstr ''Error'', PString (rstr ''UserDeniedPairing''))])"
    by (simp_all add: tiny_lib_def)
  have "\<forall>m \<in> set [[1], [1]]. is_pending tiny_lib m"
    by (simp only: list.set ball_simps is_pending_def f tiny_answers res.case) simp
  moreover have "talks (ld_idevice (tiny_peer [[1], [1], [2]])) (concat (map framed [[1], [1]]) @ framed [2] @ []) []"
    using tiny_talks [of "[[1], [1], [2]]"] by simp
  ultimately show ?thesis
    using pair_waits [of "tiny_peer [[1], [1], [2]]" "[[1], [1]]" "[2]" "[]" "[]" tiny_lib "PDictionary []" "[0x51]"
        "PDictionary [(rstr ''Error'', PString (rstr ''UserDeniedPairing''))]" tiny_pem "[]" "[]"]
      f(2) tiny_writes tiny_answers(2) by (simp add: pair_result_def numeral_3_eq_3)
qed

text \<open>
  A port number is cut to sixteen bits without a check, an answer that names none is refused, and whether the
  service wants TLS is read from the answer, \<open>False\<close> where it says nothing. The checks that unpairing
  and its kin make for an \<open>Error\<close> entry never find one: the answer has been checked before.
\<close>

theorem start_service_answer:
  assumes "talks (ld_idevice c) (framed m @ rest) out" and "length m < 2 ^ 32" and "pl_from_bytes pl m = Ok v"
    and "answer_of pl v = Ok res"
    and "writes_as pl (PDictionary [(rstr ''Request'', PString (rstr ''StartService'')), (rstr ''Service'', PString s)]) b"
  shows "\<exists>c'. start_service pl s c =
      ((case dict_get res ''Port'' of
          Some (PInteger p) \<Rightarrow>
            if 0 \<le> p \<and> p < 2 ^ 64
            then Ok (word_of_int (p mod 65536), dict_get res ''EnableServiceSSL'' = Some (PBoolean True))
            else Err (UnexpectedResponse ''Port is not an unsigned integer in StartService response'')
        | _ \<Rightarrow> Err (UnexpectedResponse ''missing Port in StartService response'')), c') \<and>
    talks (ld_idevice c') rest (out @ framed b) \<and>
    refuse_error what res = act_ok ()"
proof -
  from ask_talks [OF assms(1,5,2,3)] obtain d where
    d: "ask pl (PDictionary [(rstr ''Request'', PString (rstr ''StartService'')), (rstr ''Service'', PString s)]) (ld_idevice c) = (Ok res, d)"
      "talks d rest (out @ framed b)" by (auto simp: assms(4))
  have p: "(ucast (word_of_int p :: u64) :: u16) = word_of_int (p mod 65536)" for p
    by transfer (simp add: take_bit_eq_mod mod_mod_cancel)
  have "start_service pl s c = (service_port res, c\<lparr>ld_idevice := d\<rparr>)"
    using d(1) by (simp add: start_service_def start_service_with_escrow_def opt_entry_def on_idevice_def act_bind_def act_res_def)
  moreover have "service_port res = (case dict_get res ''Port'' of
          Some (PInteger p) \<Rightarrow>
            if 0 \<le> p \<and> p < 2 ^ 64
            then Ok (word_of_int (p mod 65536), dict_get res ''EnableServiceSSL'' = Some (PBoolean True))
            else Err (UnexpectedResponse ''Port is not an unsigned integer in StartService response'')
        | _ \<Rightarrow> Err (UnexpectedResponse ''missing Port in StartService response''))"
    by (auto simp: service_port_def Let_def as_unsigned_def p split: option.split plist_value.split)
  moreover have "refuse_error what res = act_ok ()"
    using answer_no_error [OF assms(4)] by (simp add: refuse_error_def)
  ultimately show ?thesis using d(2) by auto
qed

theorem start_service_answer_witness:
  "\<exists>c'. start_service tiny_lib (rstr ''com.apple.afc'') (tiny_peer [[3]]) = (Ok (22, False), c') \<and>
    talks (ld_idevice c') [] (framed [0x51])"
proof -
  have "pl_from_bytes tiny_lib [3] = Ok (PDictionary [(rstr ''Port'', PInteger 65558)])" by (simp add: tiny_lib_def)
  moreover have "talks (ld_idevice (tiny_peer [[3]])) (framed [3] @ []) []" using tiny_talks [of "[[3]]"] by simp
  moreover have "dict_get [(rstr ''Port'', PInteger 65558)] ''Port'' = Some (PInteger 65558)"
    "dict_get [(rstr ''Port'', PInteger 65558)] ''EnableServiceSSL'' = None" by code_simp+
  ultimately show ?thesis
    using start_service_answer [of "tiny_peer [[3]]" "[3]" "[]" "[]" tiny_lib "PDictionary [(rstr ''Port'', PInteger 65558)]"
        "[(rstr ''Port'', PInteger 65558)]" "rstr ''com.apple.afc''" "[0x51]" "[]"] tiny_writes tiny_answers(3) by auto
qed

end
