(* ===== verification/Streams.thy ===== *)
theory Streams
  imports Transport
begin

text \<open>
  Streams of messages, as an interface: a client that reads one message after the other, passes over
  those that mean nothing to it and yields the others. The event and packet streams of usbmuxd,
  the Bluetooth logger, the packet capture, the trace relay and the notification proxy interpret it.
\<close>

text \<open>\<open>n\<close> rounds of an action, and their results.\<close>

primrec act_run :: "nat \<Rightarrow> ('s, 'e) act \<Rightarrow> ('s, 'e list) act" where
  "act_run 0 m = act_ok []"
| "act_run (Suc n) m = act_bind m (\<lambda>e. act_bind (act_run n m) (\<lambda>es. act_ok (e # es)))"

text \<open>
  In the state \<open>c\<close> with \<open>at c bs\<close> the bytes \<open>bs\<close> are to arrive. \<open>read_msg\<close> takes one message off them;
  \<open>next_event\<close> reads until a message means an event.
\<close>

locale event_stream =
  fixes at :: "'s \<Rightarrow> byte list \<Rightarrow> bool"
    and read_msg :: "('s, 'm) act"
    and event :: "'m \<Rightarrow> 'e option"
    and next_event :: "('s, 'e) act"
    and wire :: "'p \<Rightarrow> byte list"
    and ok :: "'p \<Rightarrow> bool"
    and meaning :: "'p \<Rightarrow> 'm"
  assumes read_msg: "at c (wire p @ rest) \<Longrightarrow> ok p \<Longrightarrow> \<exists>c'. read_msg c = (Ok (meaning p), c') \<and> at c' rest"
    and next_event: "read_msg c = (Ok m, c') \<Longrightarrow>
      next_event c = (case event m of Some e \<Rightarrow> (Ok e, c') | None \<Rightarrow> next_event c')"
begin

lemma next_skip: "read_msg c = (Ok m, c') \<Longrightarrow> event m = None \<Longrightarrow> act_run n next_event c' = (Ok es, d) \<Longrightarrow> 0 < n \<Longrightarrow>
    act_run n next_event c = (Ok es, d)"
  by (cases n) (simp_all add: next_event act_bind_def)

lemma events_in_order:
  assumes "at c (concat (map wire ps) @ rest)" and "\<forall>p \<in> set ps. ok p"
  shows "\<exists>c' skipped. act_run (length (List.map_filter (\<lambda>p. event (meaning p)) ps)) next_event c =
      (Ok (List.map_filter (\<lambda>p. event (meaning p)) ps), c') \<and>
    at c' (concat (map wire skipped) @ rest) \<and> set skipped \<subseteq> set ps"
  using assms
proof (induction ps arbitrary: c)
  case Nil
  then show ?case by (intro exI [of _ c] exI [of _ "[]"]) (simp add: map_filter_simps act_ok_def)
next
  case (Cons p ps)
  let ?es = "List.map_filter (\<lambda>p. event (meaning p)) ps"
  from Cons.prems(1) have "at c (wire p @ concat (map wire ps) @ rest)" by simp
  from read_msg [OF this] Cons.prems(2) obtain c1 where
    c1: "read_msg c = (Ok (meaning p), c1)" "at c1 (concat (map wire ps) @ rest)" by auto
  from Cons.prems(2) have "\<forall>p \<in> set ps. ok p" by simp
  with Cons.IH [OF c1(2)] obtain c2 sk where
    c2: "act_run (length ?es) next_event c1 = (Ok ?es, c2)" "at c2 (concat (map wire sk) @ rest)" "set sk \<subseteq> set ps" by blast
  show ?case
  proof (cases "event (meaning p)")
    case (Some e)
    then have "act_run (Suc (length ?es)) next_event c = (Ok (e # ?es), c2)"
      using next_event [OF c1(1)] c2(1) by (simp add: act_bind_def act_ok_def)
    with Some c2 show ?thesis by (intro exI [of _ c2] exI [of _ sk]) (auto simp: map_filter_simps)
  next
    case None
    show ?thesis
    proof (cases "?es = []")
      case True
      with None Cons.prems(1) show ?thesis
        by (intro exI [of _ c] exI [of _ "p # ps"]) (simp add: map_filter_simps act_ok_def)
    next
      case False
      with next_skip [OF c1(1) None c2(1)] None c2 show ?thesis
        by (intro exI [of _ c2] exI [of _ sk]) (auto simp: map_filter_simps)
    qed
  qed
qed

end

end
