(* ===== verification/Usbmuxd.thy ===== *)
theory Usbmuxd
  imports Raw_Packet Lockdown Streams
begin

text \<open>
  usbmuxd/mod.rs and usbmuxd/des.rs: the client of the multiplexing daemon. Requests and answers are
  property lists in the packets of raw\_packet.rs; the first is a request for a list of
  devices, a pairing record, the host's id, a connection, or a stream of events.
\<close>

section \<open>Devices\<close>

datatype ip_addr = V4 "byte list" | V6 "u16 list"

datatype connection = Usb | Network ip_addr | Unknown rstring

record usbmuxd_device =
  ud_connection_type :: connection
  ud_udid :: rstring
  ud_device_id :: u32

datatype listen_event = Connected usbmuxd_device | Disconnected u32

record device_list_response =
  dl_device_id :: u32
  dl_connection_type :: rstring
  dl_network_address :: "byte list option"
  dl_serial_number :: rstring

text \<open>The derived conversion from a property list.\<close>

definition want_u32 :: "plist_dict \<Rightarrow> string \<Rightarrow> (u32, idevice_error) res" where
  "want_u32 d k =
    (case dict_get d k of
       Some (PInteger i) \<Rightarrow> if 0 \<le> i \<and> i < 2 ^ 32 then Ok (word_of_int i) else Err Plist
     | _ \<Rightarrow> Err Plist)"

definition device_from_value :: "plist_value \<Rightarrow> (device_list_response, idevice_error) res" where
  "device_from_value v =
    rbind (ok_or Plist (plist_as_dictionary v)) (\<lambda>d.
    rbind (want_u32 d ''DeviceID'') (\<lambda>i.
    rbind (ok_or Plist (Option.bind (dict_get d ''Properties'') plist_as_dictionary)) (\<lambda>p.
    rbind (want_string p ''ConnectionType'') (\<lambda>c.
    rbind (want_opt want_data p ''NetworkAddress'') (\<lambda>a.
    rbind (want_string p ''SerialNumber'') (\<lambda>s.
      Ok \<lparr>dl_device_id = i, dl_connection_type = c, dl_network_address = a, dl_serial_number = s\<rparr>))))))"

definition devices_from_value :: "plist_value \<Rightarrow> (device_list_response list, idevice_error) res" where
  "devices_from_value v =
    rbind (ok_or Plist (plist_as_dictionary v)) (\<lambda>d.
    case dict_get d ''DeviceList'' of
      Some (PArray vs) \<Rightarrow> foldr (\<lambda>v r. rbind (device_from_value v) (\<lambda>x. rbind r (\<lambda>xs. Ok (x # xs)))) vs (Ok [])
    | _ \<Rightarrow> Err Plist)"

definition AF_INET :: byte where "AF_INET = 2"

definition hex_digit :: "nat \<Rightarrow> byte" where
  "hex_digit n = of_nat (if n < 10 then 48 + n else 55 + n)"

definition hex2 :: "byte \<Rightarrow> rstring" where
  "hex2 b = [hex_digit (unat b div 16), hex_digit (unat b mod 16)]"

text \<open>
  An address with a family byte first, or second behind its length. The family of IPv6 is the
  platform's (10 on Linux, 30 on macOS).
\<close>

definition family_is :: "byte \<Rightarrow> byte \<Rightarrow> byte list \<Rightarrow> bool" where
  "family_is len family addr \<longleftrightarrow> addr ! 0 = family \<or> (addr ! 0 = len \<and> addr ! 1 = family)"

definition network_address :: "byte \<Rightarrow> byte list \<Rightarrow> (connection, idevice_error) res" where
  "network_address af_inet6 addr =
    (if length addr < 8 then Err (UnexpectedResponse ''network address too short, expected at least 8 bytes'')
     else if family_is 0x10 AF_INET addr \<and> length addr < 16
     then Err (UnexpectedResponse ''IPv4 network address too short, expected 16 bytes'')
     else if family_is 0x10 AF_INET addr then Ok (Network (V4 (sub 4 4 addr)))
     else if family_is 0x1C af_inet6 addr \<and> length addr < 28
     then Err (UnexpectedResponse ''IPv6 network address too short, expected 28 bytes'')
     else if family_is 0x1C af_inet6 addr
     then Ok (Network (V6 (map (\<lambda>i. from_be_bytes (sub (8 + 2 * i) 2 addr)) [0..<8])))
     else if addr ! 0 = 0x1C \<and> addr ! 1 \<noteq> af_inet6 then Ok (Unknown (rstr ''Network '' @ hex2 (addr ! 1)))
     else if addr ! 0 = 0x10 \<and> addr ! 1 \<noteq> AF_INET then Ok (Unknown (rstr ''Network '' @ hex2 (addr ! 1)))
     else Ok (Unknown (rstr ''Network '' @ hex2 (addr ! 0))))"

definition into_usbmuxd_dev :: "byte \<Rightarrow> device_list_response \<Rightarrow> (usbmuxd_device, idevice_error) res" where
  "into_usbmuxd_dev af_inet6 dev =
    rbind (if dl_connection_type dev = rstr ''Network'' then
             (case dl_network_address dev of
                Some addr \<Rightarrow> network_address af_inet6 addr
              | None \<Rightarrow> Err (UnexpectedResponse ''network device missing NetworkAddress field''))
           else if dl_connection_type dev = rstr ''USB'' then Ok Usb
           else Ok (Unknown (dl_connection_type dev))) (\<lambda>c.
      Ok \<lparr>ud_connection_type = c, ud_udid = dl_serial_number dev, ud_device_id = dl_device_id dev\<rparr>)"

section \<open>The connection\<close>

record mux_lib =
  ml_to_xml :: "plist_dict \<Rightarrow> byte list"
  ml_from_xml :: "byte list \<Rightarrow> (plist_dict, idevice_error) res"

record usbmuxd_connection =
  uc_socket :: transport
  uc_tag :: u32

definition XML_PLIST_VERSION :: u32 where "XML_PLIST_VERSION = 1"
definition PLIST_MESSAGE_TYPE :: u32 where "PLIST_MESSAGE_TYPE = 8"

definition usbmuxd_new :: "transport \<Rightarrow> u32 \<Rightarrow> usbmuxd_connection" where
  "usbmuxd_new socket tag = \<lparr>uc_socket = socket, uc_tag = tag\<rparr>"

definition on_mux :: "(transport, 'a) act \<Rightarrow> (usbmuxd_connection, 'a) act" where
  "on_mux m c = (case m (uc_socket c) of (r, t) \<Rightarrow> (r, c\<lparr>uc_socket := t\<rparr>))"

definition mux_write_plist :: "mux_lib \<Rightarrow> plist_dict \<Rightarrow> (usbmuxd_connection, unit) act" where
  "mux_write_plist ml req c =
    on_mux (tp_write_all (raw_packet_bytes (ml_to_xml ml)
      (raw_packet_new (ml_to_xml ml) req XML_PLIST_VERSION PLIST_MESSAGE_TYPE (uc_tag c)))) c"

text \<open>The size is taken for granted: one below 16 wraps to almost 4 GiB.\<close>

definition mux_read_plist :: "mux_lib \<Rightarrow> (usbmuxd_connection, plist_dict) act" where
  "mux_read_plist ml =
    act_bind (on_mux (tp_read_exact 16)) (\<lambda>header_buffer.
      let packet_size = (from_le_bytes (take 4 header_buffer) :: u32) - 16
      in act_bind (on_mux (tp_read_exact (unat packet_size))) (\<lambda>body_buffer.
         act_res (ml_from_xml ml body_buffer)))"

definition mux_ask :: "mux_lib \<Rightarrow> plist_dict \<Rightarrow> (usbmuxd_connection, plist_dict) act" where
  "mux_ask ml req = act_bind (mux_write_plist ml req) (\<lambda>_. mux_read_plist ml)"

text \<open>\<open>flat_map\<close> over results: the ones that fail are left out.\<close>

definition get_devices :: "mux_lib \<Rightarrow> byte \<Rightarrow> (usbmuxd_connection, usbmuxd_device list) act" where
  "get_devices ml af_inet6 =
    act_bind (mux_ask ml [(rstr ''MessageType'', PString (rstr ''ListDevices'')),
        (rstr ''ClientVersionString'', PString (rstr ''idevice-rs'')), (rstr ''kLibUSBMuxVersion'', PInteger 3)]) (\<lambda>res.
    act_bind (act_res (devices_from_value (PDictionary res))) (\<lambda>ds.
    act_ok (List.map_filter (\<lambda>d. case into_usbmuxd_dev af_inet6 d of Ok x \<Rightarrow> Some x | _ \<Rightarrow> None) ds)))"

definition get_device :: "mux_lib \<Rightarrow> byte \<Rightarrow> rstring \<Rightarrow> (usbmuxd_connection, usbmuxd_device) act" where
  "get_device ml af_inet6 udid =
    act_bind (get_devices ml af_inet6) (\<lambda>devices.
      case find (\<lambda>x. ud_udid x = udid) devices of Some d \<Rightarrow> act_ok d | None \<Rightarrow> act_err DeviceNotFound)"

definition get_pair_record :: "mux_lib \<Rightarrow> plist_lib \<Rightarrow> pem_lib \<Rightarrow> rstring \<Rightarrow> (usbmuxd_connection, pairing_file) act" where
  "get_pair_record ml pl pem udid =
    act_bind (mux_ask ml [(rstr ''MessageType'', PString (rstr ''ReadPairRecord'')), (rstr ''PairRecordID'', PString udid)]) (\<lambda>res.
      case dict_get res ''PairRecordData'' of
        Some (PData d) \<Rightarrow> act_res (pairing_from_bytes pl pem d)
      | _ \<Rightarrow> act_err (UnexpectedResponse ''missing PairRecordData in pair record response''))"

definition get_buid :: "mux_lib \<Rightarrow> (usbmuxd_connection, rstring) act" where
  "get_buid ml =
    act_bind (mux_ask ml [(rstr ''MessageType'', PString (rstr ''ReadBUID''))]) (\<lambda>res.
      case dict_get res ''BUID'' of
        Some (PString s) \<Rightarrow> act_ok s
      | _ \<Rightarrow> act_err (UnexpectedResponse ''missing BUID string in ReadBUID response''))"

text \<open>\<open>u16::to_be\<close> on a little-endian host.\<close>

definition to_be16 :: "u16 \<Rightarrow> u16" where
  "to_be16 p = from_le_bytes (to_be_bytes p)"

definition connect_to_device :: "mux_lib \<Rightarrow> u32 \<Rightarrow> u16 \<Rightarrow> rstring \<Rightarrow> (usbmuxd_connection, idevice) act" where
  "connect_to_device ml device_id port label =
    act_bind (mux_ask ml [(rstr ''MessageType'', PString (rstr ''Connect'')), (rstr ''DeviceID'', PInteger (uint device_id)),
        (rstr ''PortNumber'', PInteger (uint (to_be16 port)))]) (\<lambda>res c.
      (case dict_get res ''Number'' of
         Some (PInteger i) \<Rightarrow>
           (if as_unsigned i = Some 0 then act_ok (idevice_new (uc_socket c) label)
            else if as_unsigned i = Some 1 then act_err (Usbmuxd BadCommand)
            else if as_unsigned i = Some 2 then act_err (Usbmuxd BadDevice)
            else if as_unsigned i = Some 3 then act_err (Usbmuxd ConnectionRefused)
            else if as_unsigned i = Some 6 then act_err (Usbmuxd BadVersion)
            else act_err (UnexpectedResponse ''unknown usbmuxd connect error code''))
       | _ \<Rightarrow> act_err (UnexpectedResponse ''missing Number field in usbmuxd connect response'')) c)"

definition number_ok :: "plist_dict \<Rightarrow> bool" where
  "number_ok res \<longleftrightarrow> Option.bind (dict_get res ''Number'') plist_as_unsigned_integer = Some 0"

definition save_pair_record :: "mux_lib \<Rightarrow> rstring \<Rightarrow> byte list \<Rightarrow> (usbmuxd_connection, unit) act" where
  "save_pair_record ml udid pair_record =
    act_bind (mux_ask ml [(rstr ''MessageType'', PString (rstr ''SavePairRecord'')),
        (rstr ''PairRecordData'', PData pair_record), (rstr ''PairRecordID'', PString udid)]) (\<lambda>res.
      if number_ok res then act_ok () else act_err (UnexpectedResponse ''SavePairRecord did not return success''))"

definition delete_pair_record :: "mux_lib \<Rightarrow> rstring \<Rightarrow> (usbmuxd_connection, unit) act" where
  "delete_pair_record ml udid =
    act_bind (mux_ask ml [(rstr ''MessageType'', PString (rstr ''DeletePairRecord'')), (rstr ''PairRecordID'', PString udid)]) (\<lambda>res.
      if number_ok res then act_ok () else act_err (UnexpectedResponse ''DeletePairRecord did not return success''))"

section \<open>Events\<close>

definition listen :: "mux_lib \<Rightarrow> (usbmuxd_connection, unit) act" where
  "listen ml =
    act_bind (mux_ask ml [(rstr ''MessageType'', PString (rstr ''Listen''))]) (\<lambda>res.
      if number_ok res then act_ok ()
      else act_err (UnexpectedResponse ''usbmuxd Listen request did not return success''))"

text \<open>What the stream makes of one message; \<open>None\<close> is \<open>continue\<close>.\<close>

definition event_of :: "byte \<Rightarrow> plist_dict \<Rightarrow> listen_event option" where
  "event_of af_inet6 msg =
    (case dict_get msg ''MessageType'' of
       Some (PString s) \<Rightarrow>
         if s = rstr ''Attached'' then
           (case device_from_value (PDictionary msg) of
              Ok props \<Rightarrow> (case into_usbmuxd_dev af_inet6 props of Ok d \<Rightarrow> Some (Connected d) | _ \<Rightarrow> None)
            | _ \<Rightarrow> None)
         else if s = rstr ''Detached'' then
           map_option (\<lambda>i. Disconnected (ucast i)) (Option.bind (dict_get msg ''DeviceID'') plist_as_unsigned_integer)
         else None
     | _ \<Rightarrow> None)"

definition mux_pending :: "usbmuxd_connection \<Rightarrow> nat" where
  "mux_pending c = length (tp_pending (uc_socket c))"

lemma mux_read_shorter:
  assumes "mux_read_plist ml c = (Ok msg, c')"
  shows "mux_pending c' < mux_pending c"
proof -
  from assms obtain h t1 where h: "tp_read_exact 16 (uc_socket c) = (Ok h, t1)"
    by (auto simp: mux_read_plist_def act_bind_def on_mux_def split: prod.splits res.splits)
  obtain r t2 where b: "tp_read_exact (unat ((from_le_bytes (take 4 h) :: u32) - 16)) t1 = (r, t2)" by fastforce
  have "c' = c\<lparr>uc_socket := t2\<rparr>"
    using assms h b by (auto simp: mux_read_plist_def act_bind_def on_mux_def act_res_def Let_def split: prod.splits res.splits)
  with tp_read_exact_Ok [OF h] tp_read_exact_pending [OF b] show ?thesis by (simp add: mux_pending_def)
qed

function listen_next :: "mux_lib \<Rightarrow> byte \<Rightarrow> (usbmuxd_connection, listen_event) act" where
  "listen_next ml af_inet6 c =
    (case mux_read_plist ml c of
       (Err e, c') \<Rightarrow> (Err e, c')
     | (Panic, c') \<Rightarrow> (Panic, c')
     | (Ok msg, c') \<Rightarrow>
         (case event_of af_inet6 msg of Some e \<Rightarrow> (Ok e, c') | None \<Rightarrow> listen_next ml af_inet6 c'))"
  by pat_completeness auto
termination listen_next
  by (relation "measure (\<lambda>(_, _, c). mux_pending c)") (auto dest!: sym [of "(_, _)"] intro: mux_read_shorter)

declare listen_next.simps [simp del]

section \<open>Properties\<close>

text \<open>A packet: its size, twelve more bytes of header, its body.\<close>

definition mux_packet :: "byte list \<times> byte list \<Rightarrow> byte list" where
  "mux_packet p = to_le_bytes (of_nat (length (snd p) + 16) :: u32) @ fst p @ snd p"

definition mux_packet_ok :: "mux_lib \<Rightarrow> (byte list \<Rightarrow> plist_dict) \<Rightarrow> byte list \<times> byte list \<Rightarrow> bool" where
  "mux_packet_ok ml msg p \<longleftrightarrow> length (fst p) = 12 \<and> length (snd p) + 16 < 2 ^ 32 \<and> ml_from_xml ml (snd p) = Ok (msg (snd p))"

lemma mux_read_arrives:
  assumes "arrives (mux_packet p @ rest) (uc_socket c)" and "mux_packet_ok ml msg p"
  shows "\<exists>c'. mux_read_plist ml c = (Ok (msg (snd p)), c') \<and> arrives rest (uc_socket c')"
proof -
  define n where "n = length (snd p)"
  define h where "h = to_le_bytes (of_nat (n + 16) :: u32) @ fst p"
  have l: "length h = 16" "n + 16 < 2 ^ 32" using assms(2) by (simp_all add: h_def n_def mux_packet_ok_def)
  have "arrives (h @ snd p @ rest) (uc_socket c)" using assms(1) by (simp add: mux_packet_def h_def n_def)
  from tp_read_exact_arrives [OF this] l obtain t1 where
    t1: "tp_read_exact 16 (uc_socket c) = (Ok h, t1)" "arrives (snd p @ rest) t1" by auto
  have "take 4 h = to_le_bytes (of_nat (n + 16) :: u32)" by (simp add: h_def)
  then have "unat ((from_le_bytes (take 4 h) :: u32) - 16) = n"
  proof -
    have "(from_le_bytes (take 4 h) :: u32) - 16 = of_nat n"
      using \<open>take 4 h = _\<close> by simp
    then show ?thesis using l(2) by (simp add: unat_of_nat)
  qed
  moreover from tp_read_exact_arrives [OF t1(2)] obtain t2 where
    "tp_read_exact n t1 = (Ok (snd p), t2)" "arrives rest t2" by (auto simp: n_def)
  ultimately show ?thesis
    using t1(1) assms(2) by (simp add: mux_read_plist_def act_bind_def on_mux_def act_res_def Let_def mux_packet_ok_def)
qed

interpretation mux: event_stream "\<lambda>c bs. arrives bs (uc_socket c)" "mux_read_plist ml" "event_of af" "listen_next ml af"
    mux_packet "mux_packet_ok ml msg" "\<lambda>p. msg (snd p)" for ml af msg
proof
  show "\<And>c p rest. arrives (mux_packet p @ rest) (uc_socket c) \<Longrightarrow> mux_packet_ok ml msg p \<Longrightarrow>
      \<exists>c'. mux_read_plist ml c = (Ok (msg (snd p)), c') \<and> arrives rest (uc_socket c')"
    by (rule mux_read_arrives)
  show "\<And>c m c'. mux_read_plist ml c = (Ok m, c') \<Longrightarrow>
      listen_next ml af c = (case event_of af m of None \<Rightarrow> listen_next ml af c' | Some e \<Rightarrow> (Ok e, c'))"
    by (subst listen_next.simps) simp
qed

text \<open>
  The event stream of the daemon yields, in order, exactly the arrivals and departures that can be
  read, however the bytes arrive: messages of other kinds, and devices whose description it cannot
  read, are passed over, and none of them ends the stream.
\<close>

theorem usbmux_events:
  assumes "arrives (concat (map mux_packet ps) @ rest) (uc_socket c)" and "\<forall>p \<in> set ps. mux_packet_ok ml msg p"
    and "es = List.map_filter (\<lambda>p. event_of af (msg (snd p))) ps"
  shows "fst (act_run (length es) (listen_next ml af) c) = Ok es"
  using mux.events_in_order [OF assms(1,2), of af] assms(3) by auto

definition tiny_mux :: mux_lib where
  "tiny_mux = \<lparr>ml_to_xml = (\<lambda>_. []), ml_from_xml = (\<lambda>b. Ok
     (if b = [7] then [(rstr ''MessageType'', PString (rstr ''Detached'')), (rstr ''DeviceID'', PInteger 7)] else []))\<rparr>"

theorem usbmux_events_witness:
  "fst (act_run 1 (listen_next tiny_mux 10) (usbmuxd_new \<lparr>tp_in = [mux_packet (replicate 12 0, [1]) @ [17], [0, 0, 0] @ replicate 12 1 @ [7]],
      tp_out = [], tp_budget = None\<rparr> 0)) = Ok [Disconnected 7]"
proof -
  define msg where "msg = (\<lambda>b :: byte list. if b = [7] then [(rstr ''MessageType'', PString (rstr ''Detached'')), (rstr ''DeviceID'', PInteger 7)] else [])"
  have e: "event_of 10 (msg [1]) = None" "event_of 10 (msg [7]) = Some (Disconnected 7)"
    unfolding msg_def by code_simp+
  let ?t = "\<lparr>tp_in = [mux_packet (replicate 12 0, [1]) @ [17], [0, 0, 0] @ replicate 12 1 @ [7]], tp_out = [], tp_budget = None\<rparr>"
  have "mux_packet (replicate 12 1, [7]) = [17, 0, 0, 0] @ replicate 12 1 @ [7]"
    by (simp add: mux_packet_def to_le_bytes_def nat_le_4 nat_le_3)
  then have "arrives (concat (map mux_packet [(replicate 12 0, [1]), (replicate 12 1, [7])]) @ []) (uc_socket (usbmuxd_new ?t 0))"
    by (auto simp: arrives_def tp_pending_def usbmuxd_new_def)
  moreover have "\<forall>p \<in> set [(replicate 12 0, [1]), (replicate 12 1, [7])]. mux_packet_ok tiny_mux msg p"
    by (simp add: mux_packet_ok_def tiny_mux_def msg_def)
  moreover have "[Disconnected 7] = List.map_filter (\<lambda>p. event_of 10 (msg (snd p))) [(replicate 12 0 :: byte list, [1]), (replicate 12 1, [7])]"
    using e by (simp add: map_filter_simps)
  moreover have "length [Disconnected 7] = 1" by simp
  ultimately show ?thesis
    using usbmux_events [of "[(replicate 12 0, [1]), (replicate 12 1, [7])]" "[]" "usbmuxd_new ?t 0" tiny_mux msg "[Disconnected 7]" 10] by metis
qed

end
