(* ===== verification/Debug_Proxy.thy ===== *)
theory Debug_Proxy
  imports Lockdown
begin

text \<open>
  services/debug\_proxy.rs: the client of the device's GDB stub. A command goes out between \<open>$\<close> and \<open>#\<close>
  with a checksum; unless acknowledgements are off, a \<open>+\<close> is expected before the answer and
  one is sent after it.
\<close>

record debug_proxy =
  dp_socket :: transport
  dp_noack_mode :: bool

record debugserver_command =
  dc_name :: rstring
  dc_argv :: "rstring list"

definition debug_proxy_new :: "transport \<Rightarrow> debug_proxy" where
  "debug_proxy_new socket = \<lparr>dp_socket = socket, dp_noack_mode = False\<rparr>"

definition debugserver_command_new :: "rstring \<Rightarrow> rstring list \<Rightarrow> debugserver_command" where
  "debugserver_command_new name argv = \<lparr>dc_name = name, dc_argv = argv\<rparr>"

section \<open>Texts\<close>

definition upper_digit :: "nat \<Rightarrow> byte" where
  "upper_digit n = of_nat (if n < 10 then 48 + n else 55 + n)"

definition lower_digit :: "nat \<Rightarrow> byte" where
  "lower_digit n = of_nat (if n < 10 then 48 + n else 87 + n)"

definition hex_upper :: "byte \<Rightarrow> rstring" where
  "hex_upper b = [upper_digit (unat b div 16), upper_digit (unat b mod 16)]"

definition hex_encode :: "byte list \<Rightarrow> rstring" where
  "hex_encode bs = concat (map hex_upper bs)"

definition calculate_checksum :: "rstring \<Rightarrow> rstring" where
  "calculate_checksum data =
    (let s = fold (\<lambda>b acc. acc + b) data 0 in [lower_digit (unat s div 16), lower_digit (unat s mod 16)])"

definition command_from :: "rstring \<Rightarrow> debugserver_command" where
  "command_from s =
    (case words_of (utf8_chars s) [] of
       [] \<Rightarrow> debugserver_command_new [] [] | w # ws \<Rightarrow> debugserver_command_new w ws)"

section \<open>Operations\<close>

definition on_debug :: "(transport, 'a) act \<Rightarrow> (debug_proxy, 'a) act" where
  "on_debug m s = (case m (dp_socket s) of (r, t) \<Rightarrow> (r, s\<lparr>dp_socket := t\<rparr>))"

definition debug_send_raw :: "byte list \<Rightarrow> (debug_proxy, unit) act" where
  "debug_send_raw bytes = on_debug (act_bind (tp_write_all bytes) (\<lambda>_. tp_flush))"

definition send_ack :: "(debug_proxy, unit) act" where
  "send_ack = on_debug (act_bind (tp_write_all [0x2B]) (\<lambda>_. tp_flush))"

definition send_noack :: "(debug_proxy, unit) act" where
  "send_noack = on_debug (act_bind (tp_write_all [0x2D]) (\<lambda>_. tp_flush))"

definition set_ack_mode :: "bool \<Rightarrow> debug_proxy \<Rightarrow> debug_proxy" where
  "set_ack_mode enabled s = s\<lparr>dp_noack_mode := \<not> enabled\<rparr>"

definition debug_read :: "nat \<Rightarrow> (debug_proxy, rstring) act" where
  "debug_read len s =
    (case tp_read len (dp_socket s) of (bs, t) \<Rightarrow> (Ok (utf8_lossy bs), s\<lparr>dp_socket := t\<rparr>))"

text \<open>Byte by byte up to the \<open>#\<close>; every round takes one from the stream.\<close>

lemma read_one_shorter: "tp_read_exact 1 t = (Ok c, u) \<Longrightarrow> length (tp_pending u) < length (tp_pending t)"
  by (drule tp_read_exact_Ok) auto

function response_loop :: "byte list \<Rightarrow> (transport, byte list) act" where
  "response_loop buffer t =
    (case tp_read_exact 1 t of
       (Err e, u) \<Rightarrow> (Err e, u)
     | (Panic, u) \<Rightarrow> (Panic, u)
     | (Ok c, u) \<Rightarrow> if c = [0x23] then (Ok buffer, u) else response_loop (buffer @ c) u)"
  by pat_completeness auto
termination response_loop
  by (relation "measure (\<lambda>(_, t). length (tp_pending t))") (auto dest!: sym [of "(_, _)"] intro: read_one_shorter [simplified])

declare response_loop.simps [simp del]

definition read_response :: "(debug_proxy, rstring option) act" where
  "read_response s =
    act_bind (if \<not> dp_noack_mode s then on_debug (tp_read_exact 1) else act_ok [0x2B]) (\<lambda>ack.
      if ack \<noteq> [0x2B] then act_ok None
      else
        act_bind (on_debug (tp_read_exact 1)) (\<lambda>c.
          if c \<noteq> [0x24] then act_ok None
          else
            act_bind (on_debug (response_loop [])) (\<lambda>buffer.
            act_bind (on_debug (tp_read_exact 2)) (\<lambda>checksum_chars.
            act_bind (if \<not> dp_noack_mode s then send_ack else act_ok ()) (\<lambda>_.
              if utf8_valid buffer then act_ok (Some buffer) else act_err Utf8Err))))) s"

definition command_packet :: "debugserver_command \<Rightarrow> byte list" where
  "command_packet command =
    (let packet_data = dc_name command @ concat (map hex_encode (dc_argv command))
     in [0x24] @ packet_data @ [0x23] @ calculate_checksum packet_data)"

definition send_command :: "debugserver_command \<Rightarrow> (debug_proxy, rstring option) act" where
  "send_command command =
    act_bind (on_debug (act_bind (tp_write_all (command_packet command)) (\<lambda>_. tp_flush))) (\<lambda>_. read_response)"

text \<open>
  \<open>set_argv\<close>: the buffer is one byte longer than what is written into it, and its first byte, the comma of the
  first argument, is overwritten.
\<close>

definition argv_packet :: "rstring list \<Rightarrow> byte list" where
  "argv_packet argv =
    (concat (map (\<lambda>(i, arg). [0x2C] @ show_nat (length arg * 2) @ [0x2C] @ show_nat i @ [0x2C] @ hex_encode arg)
       (enumerate 0 argv)) @ [0])[0 := 0x41]"

definition set_argv :: "rstring list \<Rightarrow> (debug_proxy, rstring) act" where
  "set_argv argv =
    (if argv = [] then act_err InvalidArgument
     else act_bind (debug_send_raw (argv_packet argv)) (\<lambda>_. debug_read 16))"

section \<open>Properties\<close>

lemma tp_read_exact_cons:
  assumes "arrives (b # rest) t"
  shows "\<exists>u. tp_read_exact 1 t = (Ok [b], u) \<and> arrives rest u \<and> tp_budget u = tp_budget t \<and> tp_out u = tp_out t"
proof -
  have "arrives ([b] @ rest) t" using assms by simp
  from tp_read_exact_arrives [OF this] obtain u where u: "tp_read_exact 1 t = (Ok [b], u)" "arrives rest u" by auto
  from u tp_read_exact_budget [OF u(1)] show ?thesis by blast
qed

lemma response_loop_arrives:
  "arrives (body @ 0x23 # rest) t \<Longrightarrow> 0x23 \<notin> set body \<Longrightarrow>
   \<exists>u. response_loop acc t = (Ok (acc @ body), u) \<and> arrives rest u \<and> tp_budget u = tp_budget t \<and> tp_out u = tp_out t"
proof (induction body arbitrary: acc t)
  case Nil
  then have "arrives (0x23 # rest) t" by simp
  from tp_read_exact_cons [OF this] obtain u where
    "tp_read_exact 1 t = (Ok [0x23], u)" "arrives rest u" "tp_budget u = tp_budget t" "tp_out u = tp_out t" by blast
  then show ?case by (subst response_loop.simps) simp
next
  case (Cons b body)
  then have "arrives (b # body @ 0x23 # rest) t" by simp
  from tp_read_exact_cons [OF this] obtain u where
    u: "tp_read_exact 1 t = (Ok [b], u)" "arrives (body @ 0x23 # rest) u" "tp_budget u = tp_budget t" "tp_out u = tp_out t" by blast
  from Cons.IH [OF u(2), of "acc @ [b]"] Cons.prems(2) obtain w where
    "response_loop (acc @ [b]) u = (Ok (acc @ b # body), w)" "arrives rest w" "tp_budget w = tp_budget u" "tp_out w = tp_out u" by auto
  moreover have "response_loop acc t = response_loop (acc @ [b]) u"
    using u(1) Cons.prems(2) by (subst response_loop.simps) simp
  ultimately show ?case using u(3,4) by auto
qed

text \<open>
  A command is written as one packet, its name and its arguments in hexadecimal behind their
  checksum, and the answer is what the stub puts between \<open>$\<close> and \<open>#\<close>, whatever the two bytes behind
  it say: the checksum of an answer is not compared. With acknowledgements on it must
  begin with a \<open>+\<close>, and one is sent for it.
\<close>

theorem debug_exchange:
  assumes "tp_budget (dp_socket s) = None" and "0x23 \<notin> set body" and "utf8_valid body"
    and "arrives ((if dp_noack_mode s then [] else [0x2B]) @ [0x24] @ body @ [0x23, x, y] @ rest) (dp_socket s)"
  shows "\<exists>t. send_command (debugserver_command_new name argv) s = (Ok (Some body), s\<lparr>dp_socket := t\<rparr>) \<and> arrives rest t \<and>
    tp_out t = tp_out (dp_socket s) @
      [[0x24] @ (name @ concat (map hex_encode argv)) @ [0x23] @ calculate_checksum (name @ concat (map hex_encode argv))] @
      (if dp_noack_mode s then [] else [[0x2B]])"
proof -
  let ?p = "command_packet (debugserver_command_new name argv)"
  let ?t = "(dp_socket s)\<lparr>tp_out := tp_out (dp_socket s) @ [?p]\<rparr>"
  let ?s = "s\<lparr>dp_socket := ?t\<rparr>"
  have w: "on_debug (act_bind (tp_write_all ?p) (\<lambda>_. tp_flush)) s = (Ok (), ?s)"
    using assms(1) by (simp add: on_debug_def tp_write_all_unlimited tp_flush_unlimited)
  have ar: "arrives ((if dp_noack_mode s then [] else [0x2B]) @ 0x24 # body @ 0x23 # x # y # rest) ?t"
    using assms(4) by (simp add: arrives_def tp_pending_def)
  have "\<exists>t. (if \<not> dp_noack_mode s then on_debug (tp_read_exact 1) else act_ok [0x2B]) ?s = (Ok [0x2B], s\<lparr>dp_socket := t\<rparr>) \<and>
      arrives (0x24 # body @ 0x23 # x # y # rest) t \<and> tp_budget t = None \<and> tp_out t = tp_out ?t"
  proof (cases "dp_noack_mode s")
    case True
    with ar assms(1) show ?thesis by (intro exI [of _ ?t]) simp
  next
    case False
    with ar have "arrives (0x2B # 0x24 # body @ 0x23 # x # y # rest) ?t" by simp
    from tp_read_exact_cons [OF this] False assms(1) show ?thesis by (auto simp: on_debug_def)
  qed
  then obtain t1 where t1: "(if \<not> dp_noack_mode s then on_debug (tp_read_exact 1) else act_ok [0x2B]) ?s = (Ok [0x2B], s\<lparr>dp_socket := t1\<rparr>)"
    "arrives (0x24 # body @ 0x23 # x # y # rest) t1" "tp_budget t1 = None" "tp_out t1 = tp_out ?t" by blast
  from tp_read_exact_cons [OF t1(2)] obtain t2 where t2: "tp_read_exact 1 t1 = (Ok [0x24], t2)"
    "arrives (body @ 0x23 # x # y # rest) t2" "tp_budget t2 = None" "tp_out t2 = tp_out ?t" using t1(3,4) by auto
  from response_loop_arrives [OF t2(2) assms(2), of "[]"] obtain t3 where t3: "response_loop [] t2 = (Ok body, t3)"
    "arrives (x # y # rest) t3" "tp_budget t3 = None" "tp_out t3 = tp_out ?t" using t2(3,4) by auto
  from t3(2) have "arrives ([x, y] @ rest) t3" by simp
  from tp_read_exact_arrives [OF this] obtain t4 where t4: "tp_read_exact 2 t3 = (Ok [x, y], t4)" "arrives rest t4" by (auto simp: numeral_2_eq_2)
  have b4: "tp_budget t4 = None" "tp_out t4 = tp_out ?t" using tp_read_exact_budget [OF t4(1)] t3(3,4) by simp_all
  let ?t5 = "if dp_noack_mode s then t4 else t4\<lparr>tp_out := tp_out t4 @ [[0x2B]]\<rparr>"
  have a: "(if \<not> dp_noack_mode s then send_ack else act_ok ()) (s\<lparr>dp_socket := t4\<rparr>) = (Ok (), s\<lparr>dp_socket := ?t5\<rparr>)"
    using b4(1) by (simp add: send_ack_def on_debug_def tp_write_all_unlimited tp_flush_unlimited)
  have "read_response ?s = (Ok (Some body), s\<lparr>dp_socket := ?t5\<rparr>)"
  proof -
    have "on_debug (tp_read_exact 1) (s\<lparr>dp_socket := t1\<rparr>) = (Ok [0x24], s\<lparr>dp_socket := t2\<rparr>)"
      "on_debug (response_loop []) (s\<lparr>dp_socket := t2\<rparr>) = (Ok body, s\<lparr>dp_socket := t3\<rparr>)"
      "on_debug (tp_read_exact 2) (s\<lparr>dp_socket := t3\<rparr>) = (Ok [x, y], s\<lparr>dp_socket := t4\<rparr>)"
      using t2(1) t3(1) t4(1) by (simp_all add: on_debug_def)
    then show ?thesis
      unfolding read_response_def act_bind_def using t1(1) a assms(3) by simp
  qed
  then have "send_command (debugserver_command_new name argv) s = (Ok (Some body), s\<lparr>dp_socket := ?t5\<rparr>)"
    using w by (simp add: send_command_def act_bind_def)
  moreover have "arrives rest ?t5" using t4(2) by simp
  moreover have "tp_out ?t5 = tp_out (dp_socket s) @ [?p] @ (if dp_noack_mode s then [] else [[0x2B]])"
    using b4(2) by simp
  ultimately show ?thesis
    by (intro exI [of _ ?t5]) (simp add: command_packet_def debugserver_command_new_def Let_def)
qed

theorem debug_exchange_witness:
  "\<exists>t. send_command (debugserver_command_new (rstr ''qHostInfo'') [])
      (debug_proxy_new \<lparr>tp_in = [[0x2B, 0x24], [0x4F, 0x4B, 0x23, 0x7A], [0x7A]], tp_out = [], tp_budget = None\<rparr>) =
      (Ok (Some (rstr ''OK'')), debug_proxy_new t) \<and> tp_out t = [rstr ''$qHostInfo#9b'', rstr ''+'']"
proof -
  let ?t = "\<lparr>tp_in = [[0x2B, 0x24], [0x4F, 0x4B, 0x23, 0x7A], [0x7A]], tp_out = [], tp_budget = None\<rparr>"
  have "utf8_valid (rstr ''OK'')" "calculate_checksum (rstr ''qHostInfo'') = rstr ''9b''" by code_simp+
  moreover have "arrives ((if dp_noack_mode (debug_proxy_new ?t) then [] else [0x2B]) @ [0x24] @ rstr ''OK'' @ [0x23, 0x7A, 0x7A] @ [])
      (dp_socket (debug_proxy_new ?t))"
    by (simp add: arrives_def tp_pending_def debug_proxy_new_def)
  ultimately show ?thesis
    using debug_exchange [of "debug_proxy_new ?t" "rstr ''OK''" "0x7A" "0x7A" "[]" "rstr ''qHostInfo''" "[]"]
    by (auto simp: debug_proxy_new_def)
qed

text \<open>
  The packet of \<open>set_argv\<close> is none of the protocol's: it has no \<open>$\<close>, no \<open>#\<close> and no checksum, and ends with a NUL.
\<close>

theorem argv_packet_unframed:
  "argv_packet (arg # argv) = 0x41 # tl (concat (map (\<lambda>(i, arg). [0x2C] @ show_nat (length arg * 2) @ [0x2C] @ show_nat i @ [0x2C] @
     hex_encode arg) (enumerate 0 (arg # argv)))) @ [0]"
  by (simp add: argv_packet_def)

end
