(* ===== verification/Pcapd.thy ===== *)
theory Pcapd
  imports Device
begin

text \<open>
  services/pcapd.rs: captured packets. The device sends each one as a data item of a property list, with a
  header of mixed byte order; the client puts an Ethernet header before raw IP packets and can
  write the packets to a capture file.
\<close>

section \<open>The reader\<close>

record byte_reader =
  br_slice :: "byte list"
  br_cursor :: nat

definition byte_reader_new :: "byte list \<Rightarrow> byte_reader" where
  "byte_reader_new bs = \<lparr>br_slice = bs, br_cursor = 0\<rparr>"

text \<open>The cursor is inside the slice, so \<open>checked_add\<close> does not overflow.\<close>

definition br_read_exact :: "nat \<Rightarrow> (byte_reader, byte list) act" where
  "br_read_exact len r =
    (let end' = br_cursor r + len
     in if length (br_slice r) < end' then (Err (NotEnoughBytes len (length (br_slice r))), r)
        else (Ok (sub (br_cursor r) len (br_slice r)), r\<lparr>br_cursor := end'\<rparr>))"

definition br_read_u8 :: "(byte_reader, byte) act" where
  "br_read_u8 = act_bind (br_read_exact 1) (\<lambda>s. act_ok (s ! 0))"

definition br_read_u16_be :: "(byte_reader, u16) act" where
  "br_read_u16_be = act_bind (br_read_exact 2) (\<lambda>s. act_ok (from_be_bytes s))"

definition br_read_u32_be :: "(byte_reader, u32) act" where
  "br_read_u32_be = act_bind (br_read_exact 4) (\<lambda>s. act_ok (from_be_bytes s))"

definition br_read_u32_le :: "(byte_reader, u32) act" where
  "br_read_u32_le = act_bind (br_read_exact 4) (\<lambda>s. act_ok (from_le_bytes s))"

definition br_read_cstr :: "nat \<Rightarrow> (byte_reader, rstring) act" where
  "br_read_cstr len =
    act_bind (br_read_exact len) (\<lambda>buffer.
      let text = takeWhile (\<lambda>b. b \<noteq> 0) buffer
      in if utf8_valid text then act_ok text else act_err Utf8Err)"

section \<open>Packets\<close>

record device_packet =
  dp_header_length :: u32
  dp_header_version :: byte
  dp_packet_length :: u32
  dp_interface_type :: byte
  dp_unit :: u16
  dp_io :: byte
  dp_protocol_family :: u32
  dp_frame_pre_length :: u32
  dp_frame_post_length :: u32
  dp_interface_name :: rstring
  dp_pid :: u32
  dp_comm :: rstring
  dp_svc :: u32
  dp_epid :: u32
  dp_ecomm :: rstring
  dp_seconds :: u32
  dp_microseconds :: u32
  dp_data :: "byte list"

definition packet_fields :: "byte list \<Rightarrow> (byte_reader, device_packet) act" where
  "packet_fields bytes =
    act_bind br_read_u32_be (\<lambda>header_length.
    act_bind br_read_u8 (\<lambda>header_version.
    act_bind br_read_u32_be (\<lambda>packet_length.
    act_bind br_read_u8 (\<lambda>interface_type.
    act_bind br_read_u16_be (\<lambda>unit.
    act_bind br_read_u8 (\<lambda>io.
    act_bind br_read_u32_be (\<lambda>protocol_family.
    act_bind br_read_u32_be (\<lambda>frame_pre_length.
    act_bind br_read_u32_be (\<lambda>frame_post_length.
    act_bind (br_read_cstr 16) (\<lambda>interface_name.
    act_bind br_read_u32_le (\<lambda>pid.
    act_bind (br_read_cstr 17) (\<lambda>comm.
    act_bind br_read_u32_be (\<lambda>svc.
    act_bind br_read_u32_le (\<lambda>epid.
    act_bind (br_read_cstr 17) (\<lambda>ecomm.
    act_bind br_read_u32_be (\<lambda>seconds.
    act_bind br_read_u32_be (\<lambda>microseconds.
      let data_start = unat header_length; data_end = data_start + unat packet_length
      in if length bytes < data_end then act_err (NotEnoughBytes (length bytes) data_end)
         else act_bind (act_res (index_range data_start data_end bytes)) (\<lambda>data.
           act_ok \<lparr>dp_header_length = header_length, dp_header_version = header_version,
             dp_packet_length = packet_length, dp_interface_type = interface_type, dp_unit = unit, dp_io = io,
             dp_protocol_family = protocol_family, dp_frame_pre_length = frame_pre_length,
             dp_frame_post_length = frame_post_length, dp_interface_name = interface_name, dp_pid = pid,
             dp_comm = comm, dp_svc = svc, dp_epid = epid, dp_ecomm = ecomm, dp_seconds = seconds,
             dp_microseconds = microseconds, dp_data = data\<rparr>))))))))))))))))))"

definition packet_from_vec :: "byte list \<Rightarrow> (device_packet, idevice_error) res" where
  "packet_from_vec bytes = fst (packet_fields bytes (byte_reader_new bytes))"

definition ETHERNET_HEADER :: "byte list" where
  "ETHERNET_HEADER = [0xBE, 0xEF, 0xBE, 0xEF, 0xBE, 0xEF, 0xBE, 0xEF, 0xBE, 0xEF, 0xBE, 0xEF, 0x08, 0x00]"

definition normalize_data :: "device_packet \<Rightarrow> device_packet" where
  "normalize_data p =
    (if dp_frame_pre_length p = 0 then p\<lparr>dp_data := ETHERNET_HEADER @ dp_data p\<rparr>
     else if take 6 (dp_interface_name p) = rstr ''pdp_ip'' then
       (if 4 \<le> length (dp_data p) then p\<lparr>dp_data := ETHERNET_HEADER @ drop 4 (dp_data p)\<rparr> else p)
     else p)"

definition pcap_next_packet :: "plist_lib \<Rightarrow> (idevice, device_packet) act" where
  "pcap_next_packet pl =
    act_bind (read_plist_value pl) (\<lambda>packet.
      case packet of
        PData p \<Rightarrow> act_bind (act_res (packet_from_vec p)) (\<lambda>packet. act_ok (normalize_data packet))
      | _ \<Rightarrow> act_err (UnexpectedResponse ''expected Data plist value for packet''))"

section \<open>The capture file\<close>

definition pcap_header :: "byte list" where
  "pcap_header = [0xa1, 0xb2, 0xc3, 0xd4, 0x00, 0x02, 0x00, 0x04, 0x00, 0x00, 0x00, 0x00, 0x00, 0x00, 0x00, 0x00,
     0x00, 0x04, 0x00, 0x00, 0x00, 0x00, 0x00, 0x01]"

definition pcap_writer_new :: "(transport, unit) act" where
  "pcap_writer_new = tp_write_all pcap_header"

definition write_packet :: "device_packet \<Rightarrow> (transport, unit) act" where
  "write_packet packet =
    (let len_bytes = to_be_bytes (of_nat (length (dp_data packet)) :: u32)
     in act_bind (tp_write_all (to_be_bytes (dp_seconds packet) @ to_be_bytes (dp_microseconds packet) @ len_bytes @ len_bytes)) (\<lambda>_.
        tp_write_all (dp_data packet)))"

primrec write_packets :: "device_packet list \<Rightarrow> (transport, unit) act" where
  "write_packets [] = act_ok ()"
| "write_packets (p # ps) = act_bind (write_packet p) (\<lambda>_. write_packets ps)"

section \<open>What the parser accepts\<close>

definition cstr_at :: "nat \<Rightarrow> nat \<Rightarrow> byte list \<Rightarrow> rstring" where
  "cstr_at i n bs = takeWhile (\<lambda>b. b \<noteq> 0) (sub i n bs)"

definition PCAP_HEADER_LEN :: nat where "PCAP_HEADER_LEN = 95"

text \<open>The fields by their offsets.\<close>

definition packet_at :: "byte list \<Rightarrow> device_packet" where
  "packet_at bs = \<lparr>dp_header_length = from_be_bytes (sub 0 4 bs), dp_header_version = bs ! 4,
     dp_packet_length = from_be_bytes (sub 5 4 bs), dp_interface_type = bs ! 9,
     dp_unit = from_be_bytes (sub 10 2 bs), dp_io = bs ! 12,
     dp_protocol_family = from_be_bytes (sub 13 4 bs), dp_frame_pre_length = from_be_bytes (sub 17 4 bs),
     dp_frame_post_length = from_be_bytes (sub 21 4 bs), dp_interface_name = cstr_at 25 16 bs,
     dp_pid = from_le_bytes (sub 41 4 bs), dp_comm = cstr_at 45 17 bs, dp_svc = from_be_bytes (sub 62 4 bs),
     dp_epid = from_le_bytes (sub 66 4 bs), dp_ecomm = cstr_at 70 17 bs,
     dp_seconds = from_be_bytes (sub 87 4 bs), dp_microseconds = from_be_bytes (sub 91 4 bs),
     dp_data = sub (unat (from_be_bytes (sub 0 4 bs) :: u32)) (unat (from_be_bytes (sub 5 4 bs) :: u32)) bs\<rparr>"

lemma br_read_Ok: "br_read_exact n \<lparr>br_slice = bs, br_cursor = i\<rparr> =
    (if i + n \<le> length bs then (Ok (sub i n bs), \<lparr>br_slice = bs, br_cursor = i + n\<rparr>)
     else (Err (NotEnoughBytes n (length bs)), \<lparr>br_slice = bs, br_cursor = i\<rparr>))"
  by (simp add: br_read_exact_def Let_def)

lemma sub_1: "i < length bs \<Longrightarrow> sub i 1 bs ! 0 = bs ! i"
  by (simp add: sub_def)

text \<open>One field of \<open>n\<close> bytes at \<open>i\<close>, and then the rest.\<close>

lemma field_Ok:
  "act_bind (act_bind (br_read_exact n) f) g \<lparr>br_slice = bs, br_cursor = i\<rparr> =
    (if i + n \<le> length bs then act_bind (f (sub i n bs)) g \<lparr>br_slice = bs, br_cursor = i + n\<rparr>
     else (Err (NotEnoughBytes n (length bs)), \<lparr>br_slice = bs, br_cursor = i\<rparr>))"
  by (simp add: act_bind_def br_read_Ok split: prod.split)

lemma bind_ok [simp]: "act_bind (act_ok a) g = g a"
  by (simp add: act_bind_def act_ok_def fun_eq_iff)

lemma cstr_Ok:
  "act_bind (br_read_cstr n) g \<lparr>br_slice = bs, br_cursor = i\<rparr> =
    (if i + n \<le> length bs then
       (if utf8_valid (cstr_at i n bs) then g (cstr_at i n bs) \<lparr>br_slice = bs, br_cursor = i + n\<rparr>
        else (Err Utf8Err, \<lparr>br_slice = bs, br_cursor = i + n\<rparr>))
     else (Err (NotEnoughBytes n (length bs)), \<lparr>br_slice = bs, br_cursor = i\<rparr>))"
  by (simp add: br_read_cstr_def field_Ok cstr_at_def Let_def) (simp add: act_bind_def act_err_def)

lemmas fields_Ok = br_read_u8_def br_read_u16_be_def br_read_u32_be_def br_read_u32_le_def field_Ok cstr_Ok byte_reader_new_def

text \<open>
  A captured packet is accepted exactly if the fixed header is there, its three names are UTF-8 up to the
  first zero byte, and the data lies inside the message; every field is read at its offset in its
  byte order. The place of the data is the device's: it may begin inside the header. Nothing the
  device sends makes the parser panic.
\<close>

theorem pcap_packet_iff:
  "(packet_from_vec bs = Ok p \<longleftrightarrow>
     PCAP_HEADER_LEN \<le> length bs \<and> utf8_valid (cstr_at 25 16 bs) \<and> utf8_valid (cstr_at 45 17 bs) \<and>
     utf8_valid (cstr_at 70 17 bs) \<and>
     unat (from_be_bytes (sub 0 4 bs) :: u32) + unat (from_be_bytes (sub 5 4 bs) :: u32) \<le> length bs \<and>
     p = packet_at bs) \<and>
   packet_from_vec bs \<noteq> Panic"
proof -
  let ?n = "length bs" and ?e = "unat (from_be_bytes (sub 0 4 bs) :: u32) + unat (from_be_bytes (sub 5 4 bs) :: u32)"
  show ?thesis
  proof (cases "95 \<le> ?n")
    case False
    then have "\<exists>e. packet_from_vec bs = Err e"
      by (simp add: packet_from_vec_def packet_fields_def fields_Ok)
    with False show ?thesis by (auto simp: PCAP_HEADER_LEN_def)
  next
    case True
    then have "packet_from_vec bs =
      (if utf8_valid (cstr_at 25 16 bs) \<and> utf8_valid (cstr_at 45 17 bs) \<and> utf8_valid (cstr_at 70 17 bs) then
         (if ?e \<le> ?n then Ok (packet_at bs) else Err (NotEnoughBytes ?n ?e)) else Err Utf8Err)"
      by (simp add: packet_from_vec_def packet_fields_def fields_Ok sub_1 [simplified] Let_def packet_at_def index_range_def sub_def)
    with True show ?thesis by (auto simp: PCAP_HEADER_LEN_def)
  qed
qed

section \<open>Reading a capture file\<close>

text \<open>The records of a capture file, as its format defines them: 16 bytes, two of them the length, and the packet.\<close>

function pcap_records :: "byte list \<Rightarrow> (u32 \<times> u32 \<times> byte list) list option" where
  "pcap_records bs =
    (if bs = [] then Some []
     else if length bs < 16 then None
     else let n = unat (from_be_bytes (sub 8 4 bs) :: u32)
          in if length bs < 16 + n then None
             else map_option (\<lambda>rs. (from_be_bytes (sub 0 4 bs), from_be_bytes (sub 4 4 bs), sub 16 n bs) # rs)
               (pcap_records (drop (16 + n) bs)))"
  by pat_completeness auto
termination pcap_records
  by (relation "measure length") auto

declare pcap_records.simps [simp del]

definition record_bytes :: "device_packet \<Rightarrow> byte list" where
  "record_bytes p =
    (let len_bytes = to_be_bytes (of_nat (length (dp_data p)) :: u32)
     in to_be_bytes (dp_seconds p) @ to_be_bytes (dp_microseconds p) @ len_bytes @ len_bytes @ dp_data p)"

lemma pcap_record:
  assumes "length (dp_data p) < 2 ^ 32"
  shows "pcap_records (record_bytes p @ rest) =
    map_option (\<lambda>rs. (dp_seconds p, dp_microseconds p, dp_data p) # rs) (pcap_records rest)"
proof -
  let ?n = "of_nat (length (dp_data p)) :: u32"
  have n: "unat ?n = length (dp_data p)" using assms by (simp add: unat_of_nat)
  have "length (to_be_bytes (dp_seconds p)) = 4" by simp
  then have "to_be_bytes (dp_seconds p) \<noteq> []" by (metis list.size(3) zero_neq_numeral)
  then show ?thesis
    by (subst pcap_records.simps) (simp add: record_bytes_def Let_def n sub_def)
qed

lemma pcap_records_all:
  "\<forall>p \<in> set ps. length (dp_data p) < 2 ^ 32 \<Longrightarrow>
   pcap_records (concat (map record_bytes ps)) = Some (map (\<lambda>p. (dp_seconds p, dp_microseconds p, dp_data p)) ps)"
  by (induction ps) (simp_all add: pcap_record pcap_records.simps [of "[]"])

lemma write_packets_run:
  "tp_budget t = None \<Longrightarrow> \<exists>u. write_packets ps t = (Ok (), u) \<and>
     concat (tp_out u) = concat (tp_out t) @ concat (map record_bytes ps)"
proof (induction ps arbitrary: t)
  case (Cons p ps)
  obtain t1 where "write_packet p t = (Ok (), t1)" "concat (tp_out t1) = concat (tp_out t) @ record_bytes p" "tp_budget t1 = None"
    using Cons.prems by (simp add: write_packet_def Let_def tp_write_all_unlimited record_bytes_def)
  with Cons.IH [of t1] show ?case by auto
qed simp

text \<open>
  A capture file is read back, by the format's own rules, as the packets that were written: their
  seconds, microseconds and data, in order, behind the file header.
\<close>

theorem pcap_file_round_trip:
  assumes "tp_budget t = None" and "\<forall>p \<in> set ps. length (dp_data p) < 2 ^ 32"
  shows "\<exists>u file. act_bind pcap_writer_new (\<lambda>_. write_packets ps) t = (Ok (), u) \<and>
    concat (tp_out u) = concat (tp_out t) @ pcap_header @ file \<and>
    pcap_records file = Some (map (\<lambda>p. (dp_seconds p, dp_microseconds p, dp_data p)) ps)"
proof -
  have "tp_budget (t\<lparr>tp_out := tp_out t @ [pcap_header]\<rparr>) = None" using assms(1) by simp
  from write_packets_run [OF this, of ps] obtain u where
    "write_packets ps (t\<lparr>tp_out := tp_out t @ [pcap_header]\<rparr>) = (Ok (), u)"
    "concat (tp_out u) = concat (tp_out t) @ pcap_header @ concat (map record_bytes ps)" by auto
  with pcap_records_all [OF assms(2)] show ?thesis
    by (intro exI [of _ u] exI [of _ "concat (map record_bytes ps)"]) (simp add: pcap_writer_new_def tp_write_all_unlimited assms(1))
qed

theorem pcap_file_round_trip_witness:
  "fst (act_bind pcap_writer_new (\<lambda>_. write_packets [normalize_data (packet_at (replicate 96 0))])
     \<lparr>tp_in = [], tp_out = [], tp_budget = None\<rparr>) = Ok ()"
proof -
  let ?p = "normalize_data (packet_at (replicate 96 0))" and ?t = "\<lparr>tp_in = [], tp_out = [], tp_budget = None\<rparr>"
  have "dp_frame_pre_length (packet_at (replicate 96 0)) = 0"
    by (simp add: packet_at_def sub_def from_be_bytes_def from_le_bytes_def numeral_eq_Suc)
  then have "length (dp_data ?p) \<le> 14 + 96"
    by (simp add: normalize_data_def packet_at_def sub_def ETHERNET_HEADER_def)
  then have "\<forall>p \<in> set [?p]. length (dp_data p) < 2 ^ 32" by simp
  from pcap_file_round_trip [OF _ this, of ?t] show ?thesis by auto
qed

end
