(* ===== verification/Bt_Logger.thy ===== *)
theory Bt_Logger
  imports Streams Lockdown
begin

text \<open>
  services/bt\_packet\_logger.rs: the Bluetooth packets the device has seen, in frames behind a
  little-endian length, as H4 packets. The stream passes over frames of unknown kinds and lengths
  out of range.
\<close>

section \<open>Frames\<close>

record bt_header =
  bh_length :: u32
  bh_ts_secs :: u32
  bh_ts_usecs :: u32

datatype bt_kind = HciCmd | HciEvt | AclSent | AclRecv | ScoSent | ScoRecv | OtherKind byte

definition bt_kind_from_byte :: "byte \<Rightarrow> bt_kind" where
  "bt_kind_from_byte b =
    (if b = 0x00 then HciCmd else if b = 0x01 then HciEvt else if b = 0x02 then AclSent
     else if b = 0x03 then AclRecv else if b = 0x08 then ScoSent else if b = 0x09 then ScoRecv
     else OtherKind b)"

fun h4_type :: "bt_kind \<Rightarrow> byte option" where
  "h4_type HciCmd = Some 0x01"
| "h4_type AclSent = Some 0x02"
| "h4_type AclRecv = Some 0x02"
| "h4_type ScoSent = Some 0x03"
| "h4_type ScoRecv = Some 0x03"
| "h4_type HciEvt = Some 0x04"
| "h4_type (OtherKind _) = None"

record bt_frame =
  bf_hdr :: bt_header
  bf_kind :: bt_kind
  bf_h4 :: "byte list"

definition bt_header_parse :: "byte list \<Rightarrow> (bt_header \<times> nat) option" where
  "bt_header_parse buf =
    (if length buf < 12 then None
     else Some (\<lparr>bh_length = from_be_bytes (sub 0 4 buf), bh_ts_secs = from_be_bytes (sub 4 4 buf),
       bh_ts_usecs = from_be_bytes (sub 8 4 buf)\<rparr>, 12))"

definition frame_len_ok :: "nat \<Rightarrow> bool" where
  "frame_len_ok n \<longleftrightarrow> 13 \<le> n \<and> n \<le> 64 * 1024"

text \<open>What both readers make of the bytes of a frame; \<open>None\<close> is an unknown kind.\<close>

definition h4_frame :: "string \<Rightarrow> byte list \<Rightarrow> (bt_frame option, idevice_error) res" where
  "h4_frame err frame =
    rbind (ok_or (UnexpectedResponse err) (bt_header_parse frame)) (\<lambda>(hdr, off).
    rbind (byte_at off frame) (\<lambda>b.
    rbind (index_range (off + 1) (length frame) frame) (\<lambda>payload.
      let kind = bt_kind_from_byte b
      in case h4_type kind of
           Some t \<Rightarrow> Ok (Some \<lparr>bf_hdr = hdr, bf_kind = kind, bf_h4 = t # payload\<rparr>)
         | None \<Rightarrow> Ok None)))"

section \<open>Reading\<close>

definition bt_next_packet :: "(idevice, bt_frame option) act" where
  "bt_next_packet =
    act_bind (read_raw 2) (\<lambda>len.
      if length len \<noteq> 2 then act_ok None
      else
        let frame_len = unat (from_le_bytes len :: u16)
        in if \<not> frame_len_ok frame_len
           then act_err (UnexpectedResponse ''BT frame length out of valid range (13..=65536)'')
           else act_bind (read_raw frame_len) (\<lambda>frame.
             if length frame \<noteq> frame_len then act_err (NotEnoughBytes (length frame) frame_len)
             else act_res (h4_frame ''failed to parse BT packet header'' frame)))"

text \<open>One round of the stream's loop: what it yields, or \<open>continue\<close>, or \<open>break\<close>.\<close>

datatype bt_round = Yield bt_frame | Continue | Break

definition bt_stream_round :: "(idevice, bt_round) act" where
  "bt_stream_round =
    act_bind (read_raw 2) (\<lambda>len.
      if length len \<noteq> 2 then act_ok Break
      else
        let frame_len = unat (from_le_bytes len :: u16)
        in if \<not> frame_len_ok frame_len then act_ok Continue
           else act_bind (read_raw frame_len) (\<lambda>frame.
             if length frame \<noteq> frame_len then act_err (NotEnoughBytes (length frame) frame_len)
             else act_bind (act_res (h4_frame ''failed to parse BT packet header in stream'' frame)) (\<lambda>f.
               act_ok (case f of Some x \<Rightarrow> Yield x | None \<Rightarrow> Continue))))"

definition round_item :: "bt_round \<Rightarrow> bt_frame option option" where
  "round_item r = (case r of Yield f \<Rightarrow> Some (Some f) | Break \<Rightarrow> Some None | Continue \<Rightarrow> None)"

lemma bt_round_shorter:
  assumes "bt_stream_round d = (Ok r, d')"
  shows "dev_pending d' < dev_pending d"
proof -
  from assms obtain len d1 where d1: "read_raw 2 d = (Ok len, d1)"
    by (auto simp: bt_stream_round_def act_bind_Ok)
  from assms d1 have "d' = d1 \<or> (\<exists>n f. read_raw n d1 = (Ok f, d'))"
    by (auto simp: bt_stream_round_def act_bind_Ok Let_def split: if_splits)
  with read_raw_shorter [OF d1] show ?thesis by (auto dest: read_raw_shorter)
qed

text \<open>One item of the stream; \<open>None\<close> ends it.\<close>

function bt_stream_next :: "(idevice, bt_frame option) act" where
  "bt_stream_next d =
    (case bt_stream_round d of
       (Ok r, d') \<Rightarrow> (case round_item r of Some x \<Rightarrow> (Ok x, d') | None \<Rightarrow> bt_stream_next d')
     | (Err e, d') \<Rightarrow> (Err e, d')
     | (Panic, d') \<Rightarrow> (Panic, d'))"
  by pat_completeness auto
termination bt_stream_next
  by (relation "measure dev_pending") (auto dest!: sym [of "(_, _)"] intro: bt_round_shorter)

declare bt_stream_next.simps [simp del]

section \<open>The stream\<close>

text \<open>
  On the wire: a length with its frame, or a length out of range with nothing behind it.
\<close>

definition bt_wire :: "u16 \<times> byte list \<Rightarrow> byte list" where
  "bt_wire p = to_le_bytes (fst p) @ snd p"

definition bt_wire_ok :: "u16 \<times> byte list \<Rightarrow> bool" where
  "bt_wire_ok p \<longleftrightarrow> (if frame_len_ok (unat (fst p)) then length (snd p) = unat (fst p) else snd p = [])"

definition bt_meaning :: "u16 \<times> byte list \<Rightarrow> bt_round" where
  "bt_meaning p =
    (if snd p = [] then Continue
     else case h4_type (bt_kind_from_byte (snd p ! 12)) of
       None \<Rightarrow> Continue
     | Some t \<Rightarrow> Yield \<lparr>bf_hdr = \<lparr>bh_length = from_be_bytes (sub 0 4 (snd p)), bh_ts_secs = from_be_bytes (sub 4 4 (snd p)),
         bh_ts_usecs = from_be_bytes (sub 8 4 (snd p))\<rparr>, bf_kind = bt_kind_from_byte (snd p ! 12), bf_h4 = t # drop 13 (snd p)\<rparr>)"

lemma h4_frame_meaning:
  assumes "13 \<le> length f"
  shows "h4_frame err f = Ok (case bt_meaning (l, f) of Yield x \<Rightarrow> Some x | _ \<Rightarrow> None)"
proof -
  have "f \<noteq> []" using assms by auto
  with assms show ?thesis
    by (auto simp: h4_frame_def bt_header_parse_def byte_at_def index_range_def bt_meaning_def Let_def split: option.split)
qed

lemma bt_round_at:
  assumes "dev_at d (bt_wire p @ rest)" and "bt_wire_ok p"
  shows "\<exists>d'. bt_stream_round d = (Ok (bt_meaning p), d') \<and> dev_at d' rest"
proof -
  obtain l f where p: "p = (l, f)" by (cases p)
  from assms(1) have "dev_at d (to_le_bytes l @ f @ rest)" by (simp add: p bt_wire_def)
  from read_raw_at [OF this] obtain d1 where
    d1: "read_raw 2 d = (Ok (to_le_bytes l), d1)" "dev_at d1 (f @ rest)" by auto
  show ?thesis
  proof (cases "frame_len_ok (unat l)")
    case False
    with assms(2) p d1 show ?thesis
      by (auto simp: bt_stream_round_def bt_wire_ok_def bt_meaning_def)
  next
    case True
    with assms(2) have f: "length f = unat l" "13 \<le> length f" by (simp_all add: p bt_wire_ok_def frame_len_ok_def)
    from read_raw_at [OF d1(2)] obtain d2 where d2: "read_raw (unat l) d1 = (Ok f, d2)" "dev_at d2 rest" by (auto simp: f)
    have "(case (case bt_meaning (l, f) of Yield x \<Rightarrow> Some x | _ \<Rightarrow> None) of Some x \<Rightarrow> Yield x | None \<Rightarrow> Continue) = bt_meaning (l, f)"
      by (simp add: bt_meaning_def split: option.split)
    with True f d1(1) d2 show ?thesis
      by (simp add: bt_stream_round_def p Let_def h4_frame_meaning [of _ _ l])
  qed
qed

interpretation bt: event_stream dev_at bt_stream_round round_item bt_stream_next bt_wire bt_wire_ok bt_meaning
proof
  show "\<And>c p rest. dev_at c (bt_wire p @ rest) \<Longrightarrow> bt_wire_ok p \<Longrightarrow>
      \<exists>c'. bt_stream_round c = (Ok (bt_meaning p), c') \<and> dev_at c' rest"
    by (rule bt_round_at)
  show "\<And>c m c'. bt_stream_round c = (Ok m, c') \<Longrightarrow>
      bt_stream_next c = (case round_item m of None \<Rightarrow> bt_stream_next c' | Some e \<Rightarrow> (Ok e, c'))"
    by (subst bt_stream_next.simps) simp
qed

text \<open>
  The packet stream yields, in order, the H4 form of every frame of a known kind, however the
  bytes arrive: one type byte and the payload, with the frame's header. Frames of other kinds are
  passed over. A length out of range costs its own two bytes only: what the sender put behind it
  is read as the next length.
\<close>

theorem bt_stream_frames:
  assumes "dev_at d (concat (map bt_wire ps) @ rest)" and "\<forall>p \<in> set ps. bt_wire_ok p"
    and "fs = List.map_filter (\<lambda>p. round_item (bt_meaning p)) ps"
  shows "fst (act_run (length fs) bt_stream_next d) = Ok fs \<and> None \<notin> set fs"
proof -
  have "None \<notin> set fs"
    unfolding assms(3) by (auto simp: List.map_filter_def round_item_def bt_meaning_def split: bt_round.splits option.splits if_splits)
  with bt.events_in_order [OF assms(1,2)] assms(3) show ?thesis by auto
qed

theorem bt_stream_frames_witness:
  "fst (act_run 1 bt_stream_next (idevice_new \<lparr>tp_in = [[5], [0, 13], 0 # replicate 13 0], tp_out = [], tp_budget = None\<rparr> []))
     = Ok [Some \<lparr>bf_hdr = \<lparr>bh_length = 0, bh_ts_secs = 0, bh_ts_usecs = 0\<rparr>, bf_kind = HciCmd, bf_h4 = [1]\<rparr>]"
proof -
  let ?d = "idevice_new \<lparr>tp_in = [[5], [0, 13], 0 # replicate 13 0], tp_out = [], tp_budget = None\<rparr> []"
  let ?f = "\<lparr>bf_hdr = \<lparr>bh_length = 0, bh_ts_secs = 0, bh_ts_usecs = 0\<rparr>, bf_kind = HciCmd, bf_h4 = [1]\<rparr>"
  have m: "bt_meaning (5, []) = Continue" "bt_meaning (13, replicate 13 0) = Yield ?f" by code_simp+
  have w: "bt_wire (5, []) = [5, 0]" "bt_wire (13, replicate 13 0) = [13, 0] @ replicate 13 0"
    by (simp_all add: bt_wire_def to_le_bytes_def nat_le_2)
  then have "dev_at ?d (concat (map bt_wire [(5, []), (13, replicate 13 0)]) @ [])"
    by (auto simp: dev_at_def idevice_new_def arrives_def tp_pending_def)
  moreover have "\<forall>p \<in> set [(5, []), (13, replicate 13 0)]. bt_wire_ok p" by (simp add: bt_wire_ok_def frame_len_ok_def)
  moreover have "[Some ?f] = List.map_filter (\<lambda>p. round_item (bt_meaning p)) [(5, []), (13, replicate 13 0)]"
    by (simp add: map_filter_simps m round_item_def)
  moreover have "length [Some ?f] = 1" by simp
  ultimately show ?thesis using bt_stream_frames [of ?d "[(5, []), (13, replicate 13 0)]" "[]" "[Some ?f]"] by metis
qed

end
