(* ===== verification/Os_Trace.thy ===== *)
theory Os_Trace
  imports Lockdown
begin

text \<open>
  services/os\_trace\_relay.rs: the device's log. Starting the stream, the list of process ids, the archive,
  and the entries: a fixed header of 129 bytes, then a file name up to a zero byte and texts
  whose sizes the header declares. The conversion of a time (\<open>DateTime::from_timestamp\<close> of the
  chrono crate) is a parameter; a time is its nanoseconds since the Unix epoch.
\<close>

section \<open>Entries\<close>

datatype log_level = LNotice | LInfo | LDebug | LError | LFault

definition log_level_try_from :: "byte \<Rightarrow> (log_level, idevice_error) res" where
  "log_level_try_from b =
    (if b = 0 then Ok LNotice else if b = 1 then Ok LInfo else if b = 2 then Ok LDebug
     else if b = 0x10 then Ok LError else if b = 0x11 then Ok LFault
     else Err (UnexpectedResponse ''unknown log level byte value''))"

text \<open>The discriminants of the enumeration.\<close>

fun log_level_code :: "log_level \<Rightarrow> nat" where
  "log_level_code LNotice = 0" | "log_level_code LInfo = 1" | "log_level_code LDebug = 2"
| "log_level_code LError = 10" | "log_level_code LFault = 11"

record syslog_label =
  sl_subsystem :: rstring
  sl_category :: rstring

record os_trace_log =
  ot_pid :: u32
  ot_timestamp :: int
  ot_level :: log_level
  ot_image_name :: rstring
  ot_filename :: rstring
  ot_message :: rstring
  ot_label :: "syslog_label option"
  ot_procid :: u64
  ot_thread_id :: u64
  ot_image_offset :: u32
  ot_image_uuid :: "byte list"
  ot_process_image_uuid :: "byte list"
  ot_mach_timestamp :: u64

definition ENTRY_HEADER_LEN :: nat where "ENTRY_HEADER_LEN = 129"

definition read_u64 :: "byte list \<Rightarrow> nat \<Rightarrow> u64" where
  "read_u64 buf offset = from_le_bytes (sub offset 8 buf)"

definition read_uuid :: "byte list \<Rightarrow> nat \<Rightarrow> byte list" where
  "read_uuid buf offset = sub offset 16 buf"

text \<open>
  \<open>packet[..size]\<close>, its text without the last byte (\<open>bytes[..bytes.len() - 1]\<close>), and the rest: a size
  that is zero or larger than what is there panics.
\<close>

definition sized_text :: "nat \<Rightarrow> byte list \<Rightarrow> (rstring \<times> byte list, idevice_error) res" where
  "sized_text n packet =
    rbind (index_range 0 n packet) (\<lambda>b.
      if b = [] then Panic else Ok (utf8_lossy (butlast b), drop n packet))"

text \<open>\<open>if subsystem_size > 0 && category_size > 0 && !packet.is_empty()\<close>\<close>

definition entry_label :: "nat \<Rightarrow> nat \<Rightarrow> byte list \<Rightarrow> (syslog_label option, idevice_error) res" where
  "entry_label subsystem_size category_size packet =
    (if 0 < subsystem_size \<and> 0 < category_size \<and> packet \<noteq> [] then
       rbind (sized_text subsystem_size packet) (\<lambda>(subsystem, packet).
       rbind (sized_text category_size packet) (\<lambda>(category, _).
         Ok (Some \<lparr>sl_subsystem = subsystem, sl_category = category\<rparr>)))
     else Ok None)"

text \<open>\<open>packet.iter().position(|&b| b == 0)\<close>\<close>

definition zero_at :: "byte list \<Rightarrow> nat option" where
  "zero_at bs = (if 0 \<in> set bs then Some (length (takeWhile (\<lambda>b. b \<noteq> 0) bs)) else None)"

text \<open>The slices of the fixed header are all inside its 129 bytes, which are checked first.\<close>

definition entry_parse :: "(i64 \<Rightarrow> u32 \<Rightarrow> int option) \<Rightarrow> byte list \<Rightarrow> (os_trace_log, idevice_error) res" where
  "entry_parse from_timestamp bytes =
    (if length bytes < ENTRY_HEADER_LEN then Err (UnexpectedResponse ''log packet shorter than the fixed entry header'')
     else
       let packet = drop 9 bytes;
           pid = from_le_bytes (sub 0 4 packet); packet = drop 4 packet;
           procid = read_u64 packet 0; process_image_uuid = read_uuid packet 8; packet = drop 42 packet;
           seconds = (from_le_bytes (sub 0 4 packet) :: u32); packet = drop 8 packet;
           microseconds = (from_le_bytes (sub 0 4 packet) :: u32); packet = drop 4 packet;
           packet = drop 1 packet
       in rbind (log_level_try_from (packet ! 0)) (\<lambda>log_level.
       let packet = drop 1 packet;
           mach_timestamp = read_u64 packet 4; thread_id = read_u64 packet 14; image_uuid = read_uuid packet 22;
           packet = drop 38 packet;
           image_name_size = unat (from_le_bytes (sub 0 2 packet) :: u16); packet = drop 2 packet;
           message_size = unat (from_le_bytes (sub 0 2 packet) :: u16); packet = drop 2 packet;
           packet = drop 2 packet;
           image_offset = from_le_bytes (sub 0 4 packet); packet = drop 4 packet;
           subsystem_size = unat (from_le_bytes (sub 0 4 packet) :: u32); packet = drop 4 packet;
           category_size = unat (from_le_bytes (sub 0 4 packet) :: u32); packet = drop 4 packet;
           packet = drop 4 packet
       in rbind (ok_or (UnexpectedResponse ''filename not null-terminated in log packet'') (zero_at packet)) (\<lambda>filename_end.
       let filename = utf8_lossy (take filename_end packet); packet = drop (filename_end + 1) packet
       in rbind (sized_text image_name_size packet) (\<lambda>(image_name, packet).
       rbind (sized_text message_size packet) (\<lambda>(message, packet).
       rbind (entry_label subsystem_size category_size packet) (\<lambda>label.
       rbind (ok_or (UnexpectedResponse ''invalid timestamp in log packet'') (from_timestamp (ucast seconds) microseconds)) (\<lambda>timestamp.
         Ok \<lparr>ot_pid = pid, ot_timestamp = timestamp, ot_level = log_level, ot_image_name = image_name,
           ot_filename = filename, ot_message = message, ot_label = label, ot_procid = procid, ot_thread_id = thread_id,
           ot_image_offset = image_offset, ot_image_uuid = image_uuid, ot_process_image_uuid = process_image_uuid,
           ot_mach_timestamp = mach_timestamp\<rparr>)))))))"

definition trace_next :: "(i64 \<Rightarrow> u32 \<Rightarrow> int option) \<Rightarrow> (idevice, os_trace_log) act" where
  "trace_next from_timestamp =
    act_bind (read_raw 1) (\<lambda>b.
      if b ! 0 \<noteq> 0x02 then act_err (UnexpectedResponse ''expected leading byte 0x02 at start of log packet'')
      else
        act_bind (read_raw 4) (\<lambda>pl.
        act_bind (read_raw (unat (from_le_bytes pl :: u32))) (\<lambda>packet.
        act_res (entry_parse from_timestamp packet))))"

section \<open>Requests\<close>

definition ask_binary :: "plist_lib \<Rightarrow> plist_value \<Rightarrow> (byte \<Rightarrow> (idevice, unit) act) \<Rightarrow> (idevice, plist_dict) act" where
  "ask_binary pl req check =
    act_bind (send_bplist pl req) (\<lambda>_.
    act_bind (read_raw 1) (\<lambda>b.
    act_bind (check (b ! 0)) (\<lambda>_.
    read_plist pl)))"

definition status_of :: "plist_dict \<Rightarrow> rstring option" where
  "status_of res = Option.bind (dict_get res ''Status'') plist_as_string"

definition start_trace :: "plist_lib \<Rightarrow> u32 option \<Rightarrow> (idevice, unit) act" where
  "start_trace pl pid =
    act_bind (ask_binary pl (PDictionary
        [(rstr ''Request'', PString (rstr ''StartActivity'')),
         (rstr ''Pid'', PInteger (case pid of Some p \<Rightarrow> uint p | None \<Rightarrow> -1)),
         (rstr ''MessageFilter'', PInteger 65535), (rstr ''StreamFlags'', PInteger 60)]) (\<lambda>_. act_ok ())) (\<lambda>res.
      case status_of res of
        Some r \<Rightarrow> if r = rstr ''RequestSuccessful'' then act_ok ()
          else act_err (UnexpectedResponse ''Status was not RequestSuccessful in StartActivity response'')
      | None \<Rightarrow> act_err (UnexpectedResponse ''missing Status in StartActivity response''))"

text \<open>\<open>collect\<close> into a result: the first key that is no number is the error.\<close>

primrec pids_of :: "plist_dict \<Rightarrow> (nat list, idevice_error) res" where
  "pids_of [] = Ok []"
| "pids_of (e # es) =
    rbind (ok_or (UnexpectedResponse (''PidList Payload key is not a valid PID: '' @ text_of (fst e))) (parse_unsigned 64 (fst e))) (\<lambda>p.
    rbind (pids_of es) (\<lambda>ps. Ok (p # ps)))"

definition get_pid_list :: "plist_lib \<Rightarrow> (idevice, nat list) act" where
  "get_pid_list pl =
    act_bind (ask_binary pl (PDictionary [(rstr ''Request'', PString (rstr ''PidList''))]) (\<lambda>_. act_ok ())) (\<lambda>res.
      case Option.bind (dict_get res ''Payload'') plist_as_dictionary of
        Some payload \<Rightarrow> act_res (pids_of payload)
      | None \<Rightarrow> act_err (UnexpectedResponse ''missing Payload dictionary in PidList response''))"

section \<open>Archives\<close>

text \<open>The writer the archive goes to is a second byte stream of the state.\<close>

definition on_fst :: "('s, 'a) act \<Rightarrow> ('s \<times> 't, 'a) act" where
  "on_fst m s = (case m (fst s) of (r, d) \<Rightarrow> (r, (d, snd s)))"

definition on_snd :: "('t, 'a) act \<Rightarrow> ('s \<times> 't, 'a) act" where
  "on_snd m s = (case m (snd s) of (r, t) \<Rightarrow> (r, (fst s, t)))"

definition archive_piece :: "(idevice \<times> transport, unit) act" where
  "archive_piece =
    act_bind (on_fst (read_raw 4)) (\<lambda>length_bytes.
    act_bind (on_fst (read_raw (unat (from_le_bytes length_bytes :: u32)))) (\<lambda>data.
    on_snd (tp_write_all data)))"

lemma archive_piece_dev: "archive_piece s = (r, s') \<Longrightarrow> dev_pending (fst s') \<le> dev_pending (fst s)"
  by (auto simp: archive_piece_def act_bind_def on_fst_def on_snd_def split: prod.splits res.splits dest!: read_raw_dev)

lemma archive_round_shorter:
  assumes "on_fst (read_raw 1) s = (Ok data, s1)" and "archive_piece s1 = (r, s2)"
  shows "dev_pending (fst s2) < dev_pending (fst s)"
proof -
  obtain d1 where "read_raw 1 (fst s) = (Ok data, d1)" "fst s1 = d1"
    using assms(1) by (auto simp: on_fst_def split: prod.splits)
  with read_raw_one [of "fst s" data d1] archive_piece_dev [OF assms(2)] show ?thesis by simp
qed

function archive_loop :: "(idevice \<times> transport, unit) act" where
  "archive_loop s =
    (case on_fst (read_raw 1) s of
       (Ok data, s1) \<Rightarrow>
         if data ! 0 = 0x03 then
           (case archive_piece s1 of
              (Ok _, s2) \<Rightarrow> archive_loop s2 | (Err e, s2) \<Rightarrow> (Err e, s2) | (Panic, s2) \<Rightarrow> (Panic, s2))
         else (Err (UnexpectedResponse ''unexpected data format in archive stream''), s1)
     | (Err e, s1) \<Rightarrow>
         (case e of Socket _ \<Rightarrow> (Ok (), s1)
          | _ \<Rightarrow> (Err (UnexpectedResponse ''unexpected data format in archive stream''), s1))
     | (Panic, s1) \<Rightarrow> (Panic, s1))"
  by pat_completeness auto
termination archive_loop
  by (relation "measure (dev_pending \<circ> fst)") (auto dest!: sym [of "(_, _)"] intro: archive_round_shorter)

declare archive_loop.simps [simp del]

definition create_archive :: "plist_lib \<Rightarrow> u64 option \<Rightarrow> u64 option \<Rightarrow> u64 option \<Rightarrow> (idevice \<times> transport, unit) act" where
  "create_archive pl size_limit age_limit start_time =
    act_bind (on_fst (ask_binary pl (PDictionary
        ([(rstr ''Request'', PString (rstr ''CreateArchive''))] @
         opt_entry ''SizeLimit'' (\<lambda>w. PInteger (uint w)) size_limit @ opt_entry ''AgeLimit'' (\<lambda>w. PInteger (uint w)) age_limit @
         opt_entry ''StartTime'' (\<lambda>w. PInteger (uint w)) start_time))
        (\<lambda>b. if b \<noteq> 1 then act_err (UnexpectedResponse ''expected leading byte 0x01 in CreateArchive response'') else act_ok ()))) (\<lambda>res.
      if status_of res = Some (rstr ''RequestSuccessful'') then archive_loop
      else act_err (UnexpectedResponse ''Status was not RequestSuccessful in CreateArchive response''))"

section \<open>Entries the parser panics on\<close>

text \<open>The sizes an entry declares, and what follows its file name, by their offsets.\<close>

definition image_size_at :: "byte list \<Rightarrow> nat" where "image_size_at bs = unat (from_le_bytes (sub 107 2 bs) :: u16)"
definition message_size_at :: "byte list \<Rightarrow> nat" where "message_size_at bs = unat (from_le_bytes (sub 109 2 bs) :: u16)"
definition subsystem_size_at :: "byte list \<Rightarrow> nat" where "subsystem_size_at bs = unat (from_le_bytes (sub 117 4 bs) :: u32)"
definition category_size_at :: "byte list \<Rightarrow> nat" where "category_size_at bs = unat (from_le_bytes (sub 121 4 bs) :: u32)"

definition texts_at :: "byte list \<Rightarrow> byte list" where
  "texts_at bs = drop (Suc (length (takeWhile (\<lambda>b. b \<noteq> 0) (drop 129 bs)))) (drop 129 bs)"

lemma sub_drop [simp]: "sub i n (drop k bs) = sub (k + i) n bs"
  by (simp add: sub_def add.commute)

lemma sized_text_Panic: "sized_text n p = Panic \<longleftrightarrow> n = 0 \<or> length p < n"
  by (auto simp: sized_text_def index_range_def)

lemma sized_text_Ok: "sized_text n p = Ok (t, r) \<longleftrightarrow> 0 < n \<and> n \<le> length p \<and> t = utf8_lossy (take (n - 1) p) \<and> r = drop n p"
  by (auto simp: sized_text_def index_range_def butlast_take)

lemma entry_label_Panic:
  "entry_label s c p = Panic \<longleftrightarrow> 0 < s \<and> 0 < c \<and> p \<noteq> [] \<and> length p < s + c"
  by (auto simp: entry_label_def rbind_eq_Panic sized_text_Panic sized_text_Ok)

lemma log_level_cases: "log_level_try_from b \<noteq> Panic \<and>
    ((\<exists>l. log_level_try_from b = Ok l) \<longleftrightarrow> b \<in> {0, 1, 2, 0x10, 0x11})"
  by (auto simp: log_level_try_from_def)

text \<open>The parser after the level and the file name.\<close>

lemma entry_parse_split:
  assumes "129 \<le> length bs" and "log_level_try_from (bs ! 68) = Ok l" and "0 \<in> set (drop 129 bs)"
  shows "entry_parse ts bs = Panic \<longleftrightarrow>
    rbind (sized_text (image_size_at bs) (texts_at bs)) (\<lambda>(_, p).
    rbind (sized_text (message_size_at bs) p) (\<lambda>(_, p).
    entry_label (subsystem_size_at bs) (category_size_at bs) p)) = Panic"
  using assms
  by (auto simp: entry_parse_def Let_def ENTRY_HEADER_LEN_def zero_at_def image_size_at_def message_size_at_def
      subsystem_size_at_def category_size_at_def texts_at_def rbind_eq_Panic add.commute sized_text_Ok)

text \<open>
  A log entry brings the client down exactly if its header and file name are in order and a size it
  declares is wrong: the size of the image name or of the message is zero or exceeds the
  entry, or both sizes of the label are not zero and exceed what is left.
\<close>

theorem os_trace_panics_iff:
  "entry_parse ts bs = Panic \<longleftrightarrow>
    129 \<le> length bs \<and> bs ! 68 \<in> {0, 1, 2, 0x10, 0x11} \<and> 0 \<in> set (drop 129 bs) \<and>
    (image_size_at bs = 0 \<or> message_size_at bs = 0 \<or>
     length (texts_at bs) < image_size_at bs + message_size_at bs \<or>
     0 < subsystem_size_at bs \<and> 0 < category_size_at bs \<and>
       image_size_at bs + message_size_at bs < length (texts_at bs) \<and>
       length (texts_at bs) < image_size_at bs + message_size_at bs + subsystem_size_at bs + category_size_at bs)"
proof (cases "129 \<le> length bs \<and> bs ! 68 \<in> {0, 1, 2, 0x10, 0x11} \<and> 0 \<in> set (drop 129 bs)")
  case True
  with log_level_cases [of "bs ! 68"] obtain l where "log_level_try_from (bs ! 68) = Ok l" by blast
  with True show ?thesis
    by (simp add: entry_parse_split rbind_eq_Panic sized_text_Panic sized_text_Ok entry_label_Panic) auto
next
  case False
  with log_level_cases [of "bs ! 68"] have "entry_parse ts bs \<noteq> Panic"
    by (cases "log_level_try_from (bs ! 68)")
      (auto simp: entry_parse_def Let_def ENTRY_HEADER_LEN_def zero_at_def rbind_eq_Panic)
  with False show ?thesis by blast
qed

section \<open>The archive is what has arrived\<close>

definition archive_record :: "byte list \<Rightarrow> byte list" where
  "archive_record d = [3] @ to_le_bytes (of_nat (length d) :: u32) @ d"

lemma archive_round:
  assumes "dev_at d (archive_record x @ rest)" and "length x < 2 ^ 32" and "tp_budget out = None"
  shows "\<exists>d'. archive_loop (d, out) = archive_loop (d', out\<lparr>tp_out := tp_out out @ [x]\<rparr>) \<and> dev_at d' rest"
proof -
  let ?l = "to_le_bytes (of_nat (length x) :: u32)"
  from assms(1) have "dev_at d ([3] @ ?l @ x @ rest)" by (simp add: archive_record_def)
  from read_raw_at [OF this] obtain d1 where d1: "read_raw 1 d = (Ok [3], d1)" "dev_at d1 (?l @ x @ rest)" by auto
  from read_raw_at [OF d1(2)] obtain d2 where d2: "read_raw 4 d1 = (Ok ?l, d2)" "dev_at d2 (x @ rest)" by auto
  from read_raw_at [OF d2(2)] obtain d3 where d3: "read_raw (length x) d2 = (Ok x, d3)" "dev_at d3 rest" by auto
  have "unat (of_nat (length x) :: u32) = length x" using assms(2) by (simp add: unat_of_nat)
  then have "archive_piece (d1, out) = (Ok (), (d3, out\<lparr>tp_out := tp_out out @ [x]\<rparr>))"
    using d2(1) d3(1) assms(3)
    by (simp add: archive_piece_def on_fst_def on_snd_def tp_write_all_unlimited)
  then have "archive_loop (d, out) = archive_loop (d3, out\<lparr>tp_out := tp_out out @ [x]\<rparr>)"
    using d1(1) by (subst archive_loop.simps) (simp add: on_fst_def)
  with d3(2) show ?thesis by blast
qed

lemma archive_end: "dev_at d [] \<Longrightarrow> fst (archive_loop (d, out)) = Ok () \<and> snd (snd (archive_loop (d, out))) = out"
proof -
  assume "dev_at d []"
  then obtain t where t: "dv_socket d = Some t" "arrives [] t" by (auto simp: dev_at_def)
  then have "tp_in t = []" by (cases "tp_in t") (auto simp: arrives_def tp_pending_def)
  then have "tp_read_exact 1 t = (Err eof, t)" by (simp add: tp_read_exact.simps tp_read_def)
  with t(1) have "\<exists>d'. archive_loop (d, out) = (Ok (), (d', out))"
    by (subst archive_loop.simps) (simp add: on_fst_def read_raw_def on_socket_def)
  then show ?thesis by auto
qed

text \<open>
  The archive is written piece by piece in the order of arrival until the connection ends between
  two pieces, which counts as success: a connection lost there cannot be told from a complete
  archive, the writer then holds the pieces received so far.
\<close>

theorem archive_is_what_arrived:
  assumes "dev_at d (concat (map archive_record xs))" and "\<forall>x \<in> set xs. length x < 2 ^ 32" and "tp_budget out = None"
  shows "fst (archive_loop (d, out)) = Ok () \<and> tp_out (snd (snd (archive_loop (d, out)))) = tp_out out @ xs"
  using assms
proof (induction xs arbitrary: d out)
  case Nil
  then show ?case using archive_end [of d out] by simp
next
  case (Cons x xs)
  from Cons.prems(1) have "dev_at d (archive_record x @ concat (map archive_record xs))" by simp
  from archive_round [OF this] Cons.prems obtain d' where
    d': "archive_loop (d, out) = archive_loop (d', out\<lparr>tp_out := tp_out out @ [x]\<rparr>)" "dev_at d' (concat (map archive_record xs))" by auto
  from Cons.IH [OF d'(2), of "out\<lparr>tp_out := tp_out out @ [x]\<rparr>"] Cons.prems d'(1) show ?case by simp
qed

text \<open>A piece of one byte, in two arrivals.\<close>

theorem archive_is_what_arrived_witness:
  "fst (archive_loop (idevice_new \<lparr>tp_in = [[3, 1], [0, 0, 0, 9]], tp_out = [], tp_budget = None\<rparr> [],
     \<lparr>tp_in = [], tp_out = [], tp_budget = None\<rparr>)) = Ok ()"
proof -
  let ?d = "idevice_new \<lparr>tp_in = [[3, 1], [0, 0, 0, 9]], tp_out = [], tp_budget = None\<rparr> []"
  have "dev_at ?d (concat (map archive_record [[9]]))"
    by (simp add: dev_at_def idevice_new_def arrives_def tp_pending_def archive_record_def to_le_bytes_def nat_le_4 nat_le_3)
  from archive_is_what_arrived [OF this, of "\<lparr>tp_in = [], tp_out = [], tp_budget = None\<rparr>"] show ?thesis by simp
qed

end
