(* ===== verification/Remote_Server.thy ===== *)
theory Remote_Server
  imports Dtx_Message Texts
begin

text \<open>
  services/dvt/remote\_server.rs: channels over one DTX connection. A reader task takes messages off the stream
  and routes each: to the call it answers, to the control channel, to the channel's handler, or into the
  channel's queue. The tasks share one state, which the locks make them change in atomic steps: an
  execution is a sequence of operations, and every interleaving is one. Handlers and initializers are
  closures of the client's: they are named by numbers, and what they do is a parameter.
\<close>

section \<open>The shared state\<close>

record channel_metadata =
  cm_code :: i32
  cm_identifier :: rstring
  cm_remote :: bool

datatype handshake_state = HsPending | HsSkipped | HsReceived plist_dict

text \<open>A \<open>oneshot\<close> channel, seen from its receiver.\<close>

datatype reply_slot = Waiting | Delivered dtx_message | Dropped

record remote_server =
  rs_writer :: transport
  rs_current_message :: u32
  rs_new_channel :: u32
  rs_channels :: "i32 \<rightharpoonup> dtx_message list"
  rs_channel_metadata :: "(i32 \<times> channel_metadata) list"
  rs_pending_replies :: "(u32 \<times> nat) list"
  rs_slots :: "nat \<Rightarrow> reply_slot"
  rs_next_slot :: nat
  rs_handlers :: "i32 \<rightharpoonup> nat"
  rs_registrations :: "(rstring list \<times> nat) list"
  rs_supported_identifiers :: handshake_state
  rs_closed :: bool
  rs_reader_done :: bool

definition remote_server_new :: "transport \<Rightarrow> remote_server" where
  "remote_server_new writer =
    \<lparr>rs_writer = writer, rs_current_message = 0, rs_new_channel = 1, rs_channels = [0 \<mapsto> []],
     rs_channel_metadata = [(0, \<lparr>cm_code = 0, cm_identifier = rstr ''ctrl'', cm_remote = False\<rparr>)],
     rs_pending_replies = [], rs_slots = (\<lambda>_. Dropped), rs_next_slot = 0, rs_handlers = Map.empty,
     rs_registrations = [], rs_supported_identifiers = HsPending, rs_closed = False, rs_reader_done = False\<rparr>"

datatype handler_outcome = Unhandled | HandledNoReply | Reply "byte list"

record rs_env =
  re_enc :: "plist_value \<Rightarrow> byte list option"
  re_dec :: "byte list \<Rightarrow> plist_value option"
  re_handler :: "nat \<Rightarrow> dtx_message \<Rightarrow> (remote_server, handler_outcome) act"
  re_initializer :: "nat \<Rightarrow> i32 \<Rightarrow> rstring \<Rightarrow> (remote_server, unit) act"

text \<open>A future that is polled has an outcome, or waits to be polled again.\<close>

datatype 'a poll = Ready 'a | Pending

definition closed_error :: idevice_error where "closed_error = Socket OtherIo"

section \<open>Writing\<close>

definition rs_write_all :: "byte list \<Rightarrow> (remote_server, unit) act" where
  "rs_write_all bytes s =
    (case act_bind (tp_write_all bytes) (\<lambda>_. tp_flush) (rs_writer s) of
       (r, t) \<Rightarrow> (r, s\<lparr>rs_writer := t\<rparr>))"

definition send_raw_reply :: "i32 \<Rightarrow> u32 \<Rightarrow> u32 \<Rightarrow> byte list \<Rightarrow> (remote_server, unit) act" where
  "send_raw_reply channel incoming_msg_id incoming_conversation_index data_bytes =
    rs_write_all (build_raw_reply channel incoming_msg_id incoming_conversation_index data_bytes)"

definition method_message :: "i32 \<Rightarrow> u32 \<Rightarrow> plist_value option \<Rightarrow> aux_value list option \<Rightarrow> bool \<Rightarrow> dtx_message" where
  "method_message channel identifier data args expect_reply =
    \<lparr>dm_message_header = message_header_new 0 1 identifier 0 channel expect_reply,
     dm_payload_header = method_invocation, dm_aux = map_option aux_from_values args, dm_data = data, dm_raw_data = None\<rparr>"

text \<open>\<open>pending_replies.insert\<close>: a sender that was there under the same identifier is dropped.\<close>

definition drop_sender :: "u32 \<Rightarrow> remote_server \<Rightarrow> remote_server" where
  "drop_sender identifier s =
    (case map_of (rs_pending_replies s) identifier of
       None \<Rightarrow> s
     | Some r \<Rightarrow> s\<lparr>rs_pending_replies := AList.delete identifier (rs_pending_replies s),
         rs_slots := (rs_slots s)(r := Dropped)\<rparr>)"

definition insert_pending :: "u32 \<Rightarrow> (remote_server, nat) act" where
  "insert_pending identifier s =
    (let s1 = drop_sender identifier s; r = rs_next_slot s1
     in (Ok r, s1\<lparr>rs_pending_replies := AList.update identifier r (rs_pending_replies s1),
         rs_slots := (rs_slots s1)(r := Waiting), rs_next_slot := Suc r\<rparr>))"

text \<open>
  \<open>send_method\<close>: the sender is entered before the message is written, and taken out again if writing fails.
\<close>

definition send_method :: "rs_env \<Rightarrow> i32 \<Rightarrow> u32 \<Rightarrow> plist_value option \<Rightarrow> aux_value list option \<Rightarrow> bool \<Rightarrow> bool \<Rightarrow>
    (remote_server, nat option) act" where
  "send_method env channel identifier data args expect_reply correlate_reply =
    (let message = method_message channel identifier data args expect_reply
     in act_bind (if correlate_reply then act_bind (insert_pending identifier) (\<lambda>r. act_ok (Some r)) else act_ok None) (\<lambda>receiver s.
          case dtx_serialize (re_enc env) message of
            Ok bytes \<Rightarrow>
              (case rs_write_all bytes s of
                 (Ok _, s1) \<Rightarrow> (Ok receiver, s1)
               | (Err e, s1) \<Rightarrow> (Err e, drop_sender identifier s1)
               | (Panic, s1) \<Rightarrow> (Panic, s1))
          | Err e \<Rightarrow> (Err e, s)
          | Panic \<Rightarrow> (Panic, s)))"

text \<open>\<open>fetch_add(1) + 1\<close>\<close>

definition next_identifier :: "(remote_server, u32) act" where
  "next_identifier s = (Ok (rs_current_message s + 1), s\<lparr>rs_current_message := rs_current_message s + 1\<rparr>)"

definition call_method :: "rs_env \<Rightarrow> i32 \<Rightarrow> plist_value option \<Rightarrow> aux_value list option \<Rightarrow> bool \<Rightarrow> (remote_server, unit) act" where
  "call_method env channel data args expect_reply =
    act_bind next_identifier (\<lambda>identifier.
    act_bind (send_method env channel identifier data args expect_reply False) (\<lambda>_. act_ok ()))"

text \<open>
  \<open>call_method_with_reply\<close>: its first part sends and yields the receiver, its second, \<open>wait_for_reply\<close>, is a future.
\<close>

definition start_call :: "rs_env \<Rightarrow> i32 \<Rightarrow> plist_value option \<Rightarrow> aux_value list option \<Rightarrow> (remote_server, u32 \<times> nat) act" where
  "start_call env channel data args =
    act_bind next_identifier (\<lambda>identifier.
    act_bind (send_method env channel identifier data args True True) (\<lambda>receiver.
      case receiver of
        Some r \<Rightarrow> act_ok (identifier, r)
      | None \<Rightarrow> act_err (UnexpectedResponse ''unexpected response'')))"

definition poll_reply :: "u32 \<Rightarrow> nat \<Rightarrow> remote_server \<Rightarrow> (dtx_message, idevice_error) res poll \<times> remote_server" where
  "poll_reply identifier receiver s =
    (case rs_slots s receiver of
       Waiting \<Rightarrow> (Pending, s)
     | Delivered message \<Rightarrow> (Ready (Ok message), s)
     | Dropped \<Rightarrow> (Ready (Err (if rs_closed s then closed_error else UnexpectedResponse ''unexpected response'')),
         drop_sender identifier s))"

section \<open>Channels\<close>

definition register_channel_metadata :: "i32 \<Rightarrow> rstring \<Rightarrow> bool \<Rightarrow> remote_server \<Rightarrow> remote_server" where
  "register_channel_metadata code identifier remote s =
    s\<lparr>rs_channel_metadata := AList.update code \<lparr>cm_code = code, cm_identifier = identifier, cm_remote = remote\<rparr>
      (rs_channel_metadata s)\<rparr>"

definition ensure_channel_registered :: "i32 \<Rightarrow> remote_server \<Rightarrow> remote_server" where
  "ensure_channel_registered code s =
    (if rs_channels s code = None then s\<lparr>rs_channels := (rs_channels s)(code \<mapsto> [])\<rparr> else s)"

definition remove_channel :: "i32 \<Rightarrow> remote_server \<Rightarrow> remote_server" where
  "remove_channel code s =
    s\<lparr>rs_handlers := (rs_handlers s)(code := None), rs_channels := (rs_channels s)(code := None),
      rs_channel_metadata := AList.delete code (rs_channel_metadata s)\<rparr>"

text \<open>\<open>make_channel\<close> up to its reply. Codes above \<open>i32::MAX\<close> panic (\<open>expect\<close>).\<close>

definition start_channel :: "rs_env \<Rightarrow> rstring \<Rightarrow> (remote_server, i32 \<times> u32 \<times> nat) act" where
  "start_channel env identifier s =
    (let code = rs_new_channel s;
         s1 = ensure_channel_registered code (register_channel_metadata code identifier False
           (s\<lparr>rs_new_channel := code + 1\<rparr>))
     in if sint code < 0 then (Panic, s1)
        else
          act_bind (act_res (archived_value (re_enc env) (PString identifier))) (\<lambda>name.
          act_bind (start_call env 0 (Some (PString (rstr ''_requestChannelWithCode:identifier:''))) (Some [AuxU32 code, name])) (\<lambda>(i, r).
            act_ok (code, i, r))) s1)"

definition finish_channel :: "i32 \<Rightarrow> dtx_message \<Rightarrow> (i32, idevice_error) res" where
  "finish_channel code reply =
    (if dm_data reply \<noteq> None then Err (UnexpectedResponse ''unexpected response'') else Ok code)"

definition dtxproxy_identifier :: "rstring \<Rightarrow> rstring \<Rightarrow> rstring" where
  "dtxproxy_identifier local_service remote_service = rstr ''dtxproxy:'' @ local_service @ rstr '':'' @ remote_service"

definition parse_dtxproxy_identifier :: "rstring \<Rightarrow> bool \<Rightarrow> (rstring \<times> rstring) option" where
  "parse_dtxproxy_identifier identifier remote_channel =
    (case split_on 0x3A identifier of
       [prefix, first, second] \<Rightarrow>
         if prefix \<noteq> rstr ''dtxproxy'' then None
         else if remote_channel then Some (second, first) else Some (first, second)
     | _ \<Rightarrow> None)"

text \<open>The order in which a \<open>HashMap\<close> lists its values is the list's.\<close>

definition find_registered_channel_code :: "rstring list \<Rightarrow> bool option \<Rightarrow> remote_server \<Rightarrow> i32 option" where
  "find_registered_channel_code identifiers remote s =
    map_option cm_code (find (\<lambda>e. cm_identifier e \<in> set identifiers \<and>
      (case remote of None \<Rightarrow> True | Some f \<Rightarrow> f = cm_remote e)) (map snd (rs_channel_metadata s)))"

definition find_registered_proxied_channel_code :: "rstring list \<Rightarrow> bool \<Rightarrow> bool option \<Rightarrow> remote_server \<Rightarrow> i32 option" where
  "find_registered_proxied_channel_code identifiers remote_service remote_channel s =
    map_option cm_code (find (\<lambda>e.
      (case remote_channel of None \<Rightarrow> True | Some f \<Rightarrow> f = cm_remote e) \<and>
      (case parse_dtxproxy_identifier (cm_identifier e) (cm_remote e) of
         None \<Rightarrow> False
       | Some (local_service, remote_name) \<Rightarrow>
           (if remote_service then remote_name else local_service) \<in> set identifiers)) (map snd (rs_channel_metadata s)))"

definition poll_code :: "i32 option \<Rightarrow> remote_server \<Rightarrow> (i32, idevice_error) res poll" where
  "poll_code found s =
    (case found of Some code \<Rightarrow> Ready (Ok code) | None \<Rightarrow> if rs_closed s then Ready (Err closed_error) else Pending)"

definition poll_registered_channel_code :: "rstring list \<Rightarrow> bool option \<Rightarrow> remote_server \<Rightarrow> (i32, idevice_error) res poll" where
  "poll_registered_channel_code identifiers remote s = poll_code (find_registered_channel_code identifiers remote s) s"

definition poll_proxied_channel_code :: "rstring list \<Rightarrow> bool \<Rightarrow> bool option \<Rightarrow> remote_server \<Rightarrow> (i32, idevice_error) res poll" where
  "poll_proxied_channel_code identifiers remote_service remote_channel s =
    poll_code (find_registered_proxied_channel_code identifiers remote_service remote_channel s) s"

definition unsigned_abs :: "i32 \<Rightarrow> u32" where
  "unsigned_abs w = (if sint w < 0 then - w else w)"

text \<open>\<open>read_message\<close>, of the client and of an owned channel\<close>

definition poll_message :: "i32 \<Rightarrow> remote_server \<Rightarrow> (dtx_message, idevice_error) res poll \<times> remote_server" where
  "poll_message channel s =
    (case rs_channels s channel of
       None \<Rightarrow> (Ready (Err (Dvt (UnknownChannel (unsigned_abs channel)))), s)
     | Some (msg # messages) \<Rightarrow> (Ready (Ok msg), s\<lparr>rs_channels := (rs_channels s)(channel \<mapsto> messages)\<rparr>)
     | Some [] \<Rightarrow> (if rs_closed s then Ready (Err closed_error) else Pending, s))"

section \<open>Handshake\<close>

definition supported_identifiers :: "remote_server \<Rightarrow> plist_dict option" where
  "supported_identifiers s = (case rs_supported_identifiers s of HsReceived d \<Rightarrow> Some d | _ \<Rightarrow> None)"

definition poll_capabilities :: "remote_server \<Rightarrow> (plist_dict, idevice_error) res poll" where
  "poll_capabilities s =
    (case rs_supported_identifiers s of
       HsReceived d \<Rightarrow> Ready (Ok d)
     | HsSkipped \<Rightarrow> Ready (Err (UnexpectedResponse ''unexpected response''))
     | HsPending \<Rightarrow> if rs_closed s then Ready (Err closed_error) else Pending)"

text \<open>\<open>perform_handshake\<close> up to the wait for the peer's capabilities; \<open>Ready\<close> is its early return.\<close>

definition start_handshake :: "rs_env \<Rightarrow> plist_dict option \<Rightarrow> (remote_server, plist_dict option poll) act" where
  "start_handshake env capabilities s =
    (let already_received = supported_identifiers s;
         s1 = s\<lparr>rs_supported_identifiers :=
           (case (capabilities, already_received) of
              (None, _) \<Rightarrow> HsSkipped | (Some _, Some d) \<Rightarrow> HsReceived d | (Some _, None) \<Rightarrow> HsPending)\<rparr>
     in case capabilities of
          None \<Rightarrow> (Ok (Ready None), s1)
        | Some c \<Rightarrow>
            act_bind (act_res (archived_value (re_enc env) (PDictionary c))) (\<lambda>v.
            act_bind (call_method env 0 (Some (PString (rstr ''_notifyOfPublishedCapabilities:''))) (Some [v]) False) (\<lambda>_.
            act_ok (case already_received of Some d \<Rightarrow> Ready (Some d) | None \<Rightarrow> Pending))) s1)"

definition poll_handshake :: "remote_server \<Rightarrow> (plist_dict option, idevice_error) res poll" where
  "poll_handshake s =
    (case rs_supported_identifiers s of
       HsReceived d \<Rightarrow> Ready (Ok (Some d))
     | HsSkipped \<Rightarrow> Ready (Ok None)
     | HsPending \<Rightarrow> if rs_closed s then Ready (Err closed_error) else Pending)"

section \<open>The reader\<close>

definition conv_index :: "dtx_message \<Rightarrow> u32" where
  "conv_index msg = mh_conversation_index (dm_message_header msg)"

definition msg_id :: "dtx_message \<Rightarrow> u32" where
  "msg_id msg = mh_identifier (dm_message_header msg)"

definition msg_channel :: "dtx_message \<Rightarrow> i32" where
  "msg_channel msg = mh_channel (dm_message_header msg)"

definition dispatch_pending_reply :: "dtx_message \<Rightarrow> remote_server \<Rightarrow> bool \<times> remote_server" where
  "dispatch_pending_reply msg s =
    (if conv_index msg = 0 then (False, s)
     else case map_of (rs_pending_replies s) (msg_id msg) of
       None \<Rightarrow> (False, s)
     | Some r \<Rightarrow> (True, s\<lparr>rs_pending_replies := AList.delete (msg_id msg) (rs_pending_replies s),
         rs_slots := (rs_slots s)(r := Delivered msg)\<rparr>))"

definition enqueue_message :: "dtx_message \<Rightarrow> remote_server \<Rightarrow> remote_server" where
  "enqueue_message msg s =
    (case rs_channels s (msg_channel msg) of
       Some messages \<Rightarrow> s\<lparr>rs_channels := (rs_channels s)(msg_channel msg \<mapsto> messages @ [msg])\<rparr>
     | None \<Rightarrow> s)"

definition decode_identifier :: "rs_env \<Rightarrow> aux_value \<Rightarrow> (rstring, idevice_error) res" where
  "decode_identifier env a =
    (case a of
       AuxString s \<Rightarrow> Ok s
     | AuxArray bytes \<Rightarrow>
         (case re_dec env bytes of
            None \<Rightarrow> Err (Dvt NsKeyedArchiveError)
          | Some (PString s) \<Rightarrow> Ok s
          | _ \<Rightarrow> Err (UnexpectedResponse ''unexpected response''))
     | _ \<Rightarrow> Err (UnexpectedResponse ''unexpected response''))"

definition decode_capabilities :: "rs_env \<Rightarrow> aux_value \<Rightarrow> (plist_dict, idevice_error) res" where
  "decode_capabilities env a =
    (case a of
       AuxArray bytes \<Rightarrow>
         (case re_dec env bytes of
            None \<Rightarrow> Err (Dvt NsKeyedArchiveError)
          | Some (PDictionary d) \<Rightarrow> Ok d
          | _ \<Rightarrow> Err (UnexpectedResponse ''unexpected response''))
     | _ \<Rightarrow> Err (UnexpectedResponse ''unexpected response''))"

definition decode_channel_code :: "aux_value \<Rightarrow> (i32, idevice_error) res" where
  "decode_channel_code a =
    (case a of
       AuxU32 code \<Rightarrow> if unat code < 2 ^ 31 then Ok code else Err (UnexpectedResponse ''unexpected response'')
     | AuxI64 code \<Rightarrow> if - (2 ^ 31) \<le> sint code \<and> sint code < 2 ^ 31 then Ok (word_of_int (sint code))
         else Err (UnexpectedResponse ''unexpected response'')
     | _ \<Rightarrow> Err (UnexpectedResponse ''unexpected response''))"

definition run_incoming_channel_initializers :: "rs_env \<Rightarrow> i32 \<Rightarrow> rstring \<Rightarrow> (remote_server, unit) act" where
  "run_incoming_channel_initializers env channel identifier s =
    (case find (\<lambda>r. identifier \<in> set (fst r)) (rs_registrations s) of
       None \<Rightarrow> (Ok (), s)
     | Some r \<Rightarrow> re_initializer env (snd r) channel identifier s)"

text \<open>The control channel: is the message dealt with, and the state after it.\<close>

definition msg_values :: "dtx_message \<Rightarrow> aux_value list option" where
  "msg_values msg = map_option aux_values (dm_aux msg)"

definition handle_capabilities :: "rs_env \<Rightarrow> dtx_message \<Rightarrow> remote_server \<Rightarrow> remote_server" where
  "handle_capabilities env msg s =
    (case msg_values msg of
       Some (first # _) \<Rightarrow>
         (case decode_capabilities env first of
            Ok capabilities \<Rightarrow> enqueue_message msg (s\<lparr>rs_supported_identifiers := HsReceived capabilities\<rparr>)
          | _ \<Rightarrow> s)
     | _ \<Rightarrow> s)"

definition handle_cancellation :: "dtx_message \<Rightarrow> remote_server \<Rightarrow> remote_server" where
  "handle_cancellation msg s =
    (case msg_values msg of
       Some (first # _) \<Rightarrow> (case decode_channel_code first of Ok code \<Rightarrow> remove_channel code s | _ \<Rightarrow> s)
     | _ \<Rightarrow> s)"

definition handle_channel_request :: "rs_env \<Rightarrow> dtx_message \<Rightarrow> (remote_server, bool) act" where
  "handle_channel_request env msg s =
    (case msg_values msg of
       Some (AuxU32 c # name # _) \<Rightarrow>
         (case decode_identifier env name of
            Ok identifier \<Rightarrow>
              (let code = - c;
                   s1 = ensure_channel_registered code (register_channel_metadata code identifier True s)
               in case run_incoming_channel_initializers env code identifier s1 of
                    (Panic, s2) \<Rightarrow> (Panic, s2)
                  | (_, s2) \<Rightarrow>
                      (case send_raw_reply 0 (msg_id msg) (conv_index msg) [] s2 of
                         (Ok _, s3) \<Rightarrow> (Ok True, s3)
                       | (_, s3) \<Rightarrow> (Ok True, s3\<lparr>rs_closed := True\<rparr>)))
          | _ \<Rightarrow> (Ok False, s))
     | _ \<Rightarrow> (Ok False, s))"

definition selector_is :: "dtx_message \<Rightarrow> string \<Rightarrow> bool" where
  "selector_is msg name \<longleftrightarrow> dm_data msg = Some (PString (rstr name))"

definition handle_control_message :: "rs_env \<Rightarrow> dtx_message \<Rightarrow> (remote_server, bool) act" where
  "handle_control_message env msg s =
    (if msg_channel msg \<noteq> 0 then (Ok False, s)
     else if selector_is msg ''_notifyOfPublishedCapabilities:'' then (Ok True, handle_capabilities env msg s)
     else if selector_is msg ''_channelCanceled:'' then (Ok True, handle_cancellation msg s)
     else if selector_is msg ''_requestChannelWithCode:identifier:'' then handle_channel_request env msg s
     else (Ok False, s))"

definition dispatch_to_handler :: "rs_env \<Rightarrow> dtx_message \<Rightarrow> (remote_server, bool) act" where
  "dispatch_to_handler env msg s =
    (if conv_index msg \<noteq> 0 then (Ok False, s)
     else case rs_handlers s (msg_channel msg) of
       None \<Rightarrow> (Ok False, s)
     | Some h \<Rightarrow>
         (case re_handler env h msg s of
            (Ok Unhandled, s1) \<Rightarrow> (Ok False, s1)
          | (Ok HandledNoReply, s1) \<Rightarrow>
              if mh_expects_reply (dm_message_header msg)
              then (Ok True, snd (send_raw_reply (msg_channel msg) (msg_id msg) (conv_index msg) [] s1))
              else (Ok True, s1)
          | (Ok (Reply reply_bytes), s1) \<Rightarrow>
              (Ok True, snd (send_raw_reply (msg_channel msg) (msg_id msg) (conv_index msg) reply_bytes s1))
          | (Err e, s1) \<Rightarrow> (Ok False, s1)
          | (Panic, s1) \<Rightarrow> (Panic, s1)))"

text \<open>One round of the reader's loop. A panic ends the task and leaves the rest as it is.\<close>

definition reader_message :: "rs_env \<Rightarrow> dtx_message \<Rightarrow> remote_server \<Rightarrow> remote_server" where
  "reader_message env msg s =
    (case dispatch_pending_reply msg s of
       (True, s1) \<Rightarrow> s1
     | (False, s1) \<Rightarrow>
         (case handle_control_message env msg s1 of
            (Ok True, s2) \<Rightarrow> s2
          | (Ok False, s2) \<Rightarrow>
              (case dispatch_to_handler env msg s2 of
                 (Ok True, s3) \<Rightarrow> s3
               | (Ok False, s3) \<Rightarrow> enqueue_message msg s3
               | (_, s3) \<Rightarrow> s3\<lparr>rs_reader_done := True\<rparr>)
          | (_, s2) \<Rightarrow> s2\<lparr>rs_reader_done := True\<rparr>))"

definition fail_pending_replies :: "remote_server \<Rightarrow> remote_server" where
  "fail_pending_replies s =
    s\<lparr>rs_slots := (\<lambda>r. if r \<in> snd ` set (rs_pending_replies s) then Dropped else rs_slots s r),
      rs_pending_replies := []\<rparr>"

definition reader_fails :: "remote_server \<Rightarrow> remote_server" where
  "reader_fails s = (fail_pending_replies s)\<lparr>rs_closed := True, rs_reader_done := True\<rparr>"

section \<open>Owned channels\<close>

definition set_incoming_handler :: "i32 \<Rightarrow> nat \<Rightarrow> remote_server \<Rightarrow> remote_server" where
  "set_incoming_handler channel handler s = s\<lparr>rs_handlers := (rs_handlers s)(channel \<mapsto> handler)\<rparr>"

definition clear_incoming_handler :: "i32 \<Rightarrow> remote_server \<Rightarrow> remote_server" where
  "clear_incoming_handler channel s = s\<lparr>rs_handlers := (rs_handlers s)(channel := None)\<rparr>"

definition register_initializer :: "rstring list \<Rightarrow> nat \<Rightarrow> remote_server \<Rightarrow> remote_server" where
  "register_initializer identifiers initializer s =
    s\<lparr>rs_registrations := rs_registrations s @ [(identifiers, initializer)]\<rparr>"

end
