(* ===== verification/Remote_Runs.thy ===== *)
theory Remote_Runs
  imports Remote_Server
begin

text \<open>
  Executions of the remote server: what holds of the replies, the queues and the waiting tasks under every
  interleaving of the operations.
\<close>

section \<open>Executions\<close>

text \<open>
  What the tasks do in one atomic step each: calls with and without reply, polls of the futures, a message or the end
  of the stream for the reader, registrations.
\<close>

datatype rs_op =
    OpCall i32 "plist_value option" "aux_value list option"
  | OpSend i32 "plist_value option" "aux_value list option" bool
  | OpChannel rstring
  | OpPollReply u32 nat
  | OpPollMessage i32
  | OpRawReply i32 u32 u32 "byte list"
  | OpReader dtx_message
  | OpReaderFails

fun rs_step :: "rs_env \<Rightarrow> rs_op \<Rightarrow> remote_server \<Rightarrow> remote_server" where
  "rs_step env (OpCall channel data args) s = snd (start_call env channel data args s)"
| "rs_step env (OpSend channel data args expect) s = snd (call_method env channel data args expect s)"
| "rs_step env (OpChannel identifier) s = snd (start_channel env identifier s)"
| "rs_step env (OpPollReply identifier r) s = snd (poll_reply identifier r s)"
| "rs_step env (OpPollMessage channel) s = snd (poll_message channel s)"
| "rs_step env (OpRawReply channel i c b) s = snd (send_raw_reply channel i c b s)"
| "rs_step env (OpReader msg) s = (if rs_reader_done s then s else reader_message env msg s)"
| "rs_step env OpReaderFails s = (if rs_reader_done s then s else reader_fails s)"

definition rs_run :: "rs_env \<Rightarrow> rs_op list \<Rightarrow> remote_server \<Rightarrow> remote_server" where
  "rs_run env ops s = fold (rs_step env) ops s"

text \<open>
  The call \<open>identifier\<close> waits for its reply at \<open>r\<close>; \<open>n\<close> identifiers have been given out since. No handler is
  registered: what one would do to the state is its own.
\<close>

definition waiting :: "u32 \<Rightarrow> nat \<Rightarrow> nat \<Rightarrow> remote_server \<Rightarrow> bool" where
  "waiting identifier r n s \<longleftrightarrow>
    map_of (rs_pending_replies s) identifier = Some r \<and> rs_slots s r = Waiting \<and> r < rs_next_slot s \<and>
    (\<forall>i. map_of (rs_pending_replies s) i = Some r \<longrightarrow> i = identifier) \<and>
    rs_current_message s = identifier + of_nat n \<and> rs_handlers s = Map.empty \<and> rs_registrations s = []"

definition settled :: "u32 \<Rightarrow> nat \<Rightarrow> rs_op \<Rightarrow> bool" where
  "settled identifier r op \<longleftrightarrow>
    (case op of
       OpReader msg \<Rightarrow> conv_index msg = 0 \<or> msg_id msg \<noteq> identifier
     | OpReaderFails \<Rightarrow> False
     | OpPollReply i r' \<Rightarrow> i = identifier \<longleftrightarrow> r' = r
     | _ \<Rightarrow> True)"

lemmas pending_simps = update_conv' delete_conv'

lemma waiting_writer [simp]: "waiting i r n (s\<lparr>rs_writer := t\<rparr>) = waiting i r n s"
  "waiting i r n (s\<lparr>rs_channels := ch\<rparr>) = waiting i r n s"
  "waiting i r n (s\<lparr>rs_channel_metadata := md\<rparr>) = waiting i r n s"
  "waiting i r n (s\<lparr>rs_closed := c\<rparr>) = waiting i r n s"
  "waiting i r n (s\<lparr>rs_reader_done := d\<rparr>) = waiting i r n s"
  "waiting i r n (s\<lparr>rs_new_channel := nc\<rparr>) = waiting i r n s"
  "waiting i r n (s\<lparr>rs_supported_identifiers := si\<rparr>) = waiting i r n s"
  by (simp_all add: waiting_def)

lemma waiting_write_iff: "rs_write_all b s = (x, s') \<Longrightarrow> waiting i r n s' = waiting i r n s"
  by (auto simp: rs_write_all_def split: prod.splits)

lemma waiting_write: "waiting i r n s \<Longrightarrow> rs_write_all b s = (x, s') \<Longrightarrow> waiting i r n s'"
  by (simp add: waiting_write_iff)

lemma waiting_drop: "waiting i r n s \<Longrightarrow> j \<noteq> i \<Longrightarrow> waiting i r n (drop_sender j s)"
  by (auto simp: waiting_def drop_sender_def pending_simps split: option.splits)

lemma drop_sender_other: "waiting i r n s \<Longrightarrow> j \<noteq> i \<Longrightarrow> map_of (rs_pending_replies (drop_sender j s)) j = None"
  by (auto simp: drop_sender_def pending_simps split: option.splits)

lemma waiting_insert:
  assumes "waiting i r n s" and "j \<noteq> i"
  shows "waiting i r n (snd (insert_pending j s))"
  using waiting_drop [OF assms] assms(2)
  by (auto simp: insert_pending_def Let_def waiting_def pending_simps split: if_splits)

lemma waiting_send:
  assumes "waiting i r n s" and "j \<noteq> i"
  shows "waiting i r n (snd (send_method env c j data args ex co s))"
proof -
  let ?s = "if co then snd (insert_pending j s) else s"
  have w: "waiting i r n ?s" using waiting_insert [OF assms] assms(1) by simp
  obtain x where x: "(if co then act_bind (insert_pending j) (\<lambda>r. act_ok (Some r)) else act_ok None) s = (Ok x, ?s)"
    by (cases co) (auto simp: insert_pending_def Let_def act_ok_def act_bind_def)
  show ?thesis
    unfolding send_method_def Let_def act_bind_def x
    using w by (auto split: res.split prod.split dest: waiting_write intro: waiting_drop [OF _ assms(2)])
qed

lemma waiting_next:
  assumes "waiting i r n s" and "Suc n < 2 ^ 32"
  shows "\<exists>j s'. next_identifier s = (Ok j, s') \<and> j \<noteq> i \<and> waiting i r (Suc n) s'"
proof -
  have "(of_nat (Suc n) :: u32) \<noteq> 0" using assms(2) by (metis of_nat_0 unat_0 unat_of_nat_u32 nat.simps(3))
  then have "i + of_nat (Suc n) \<noteq> i" by simp
  with assms(1) show ?thesis by (simp add: next_identifier_def waiting_def algebra_simps)
qed

lemma waiting_call:
  assumes "waiting i r n s" and "Suc n < 2 ^ 32"
  shows "waiting i r (Suc n) (snd (start_call env c data args s)) \<and>
    waiting i r (Suc n) (snd (call_method env c data args ex s))"
proof -
  obtain j s' where j: "next_identifier s = (Ok j, s')" "j \<noteq> i" "waiting i r (Suc n) s'"
    using waiting_next [OF assms] by blast
  have "waiting i r (Suc n) (snd (start_call env c data args s))"
    using j(1) waiting_send [OF j(3,2), of env c data args True True]
    by (auto simp: start_call_def act_bind_def act_ok_def act_err_def split: prod.split res.split option.split)
  moreover have "waiting i r (Suc n) (snd (call_method env c data args ex s))"
    using j(1) waiting_send [OF j(3,2), of env c data args ex False]
    by (auto simp: call_method_def act_bind_def act_ok_def act_err_def split: prod.split res.split option.split)
  ultimately show ?thesis by blast
qed

lemma waiting_ensure [simp]: "waiting i r n (ensure_channel_registered c s) = waiting i r n s"
  "waiting i r n (register_channel_metadata c ident rem s) = waiting i r n s"
  by (simp_all add: ensure_channel_registered_def register_channel_metadata_def)

lemma waiting_start_channel:
  assumes "waiting i r n s" and "Suc n < 2 ^ 32"
  shows "\<exists>m \<le> Suc n. waiting i r m (snd (start_channel env ident s))"
proof -
  let ?c = "rs_new_channel s"
  let ?s = "ensure_channel_registered ?c (register_channel_metadata ?c ident False (s\<lparr>rs_new_channel := ?c + 1\<rparr>))"
  have w: "waiting i r n ?s" using assms(1) by simp
  have "\<exists>m \<le> Suc n. waiting i r m (snd (start_call env 0 d a ?s))" for d a
    using waiting_call [OF w assms(2), of env 0 d a] by blast
  with w show ?thesis
    by (auto simp: start_channel_def Let_def act_bind_def act_res_def act_ok_def split: res.split prod.split) (metis snd_conv le_SucI order_refl)+
qed

lemma waiting_remove: "waiting i r n s \<Longrightarrow> waiting i r n (remove_channel c s)"
  by (simp add: remove_channel_def waiting_def)

lemma waiting_enqueue: "waiting i r n s \<Longrightarrow> waiting i r n (enqueue_message msg s)"
  by (simp add: enqueue_message_def split: option.split)

lemma waiting_control: "waiting i r n s \<Longrightarrow> waiting i r n (snd (handle_control_message env msg s))"
proof -
  assume w: "waiting i r n s"
  have "waiting i r n (snd (handle_channel_request env msg s))"
  proof -
    have "run_incoming_channel_initializers env c ident t = (Ok (), t)" if "waiting i r n t" for c ident t
      using that by (simp add: run_incoming_channel_initializers_def waiting_def)
    with w show ?thesis
      by (auto simp: handle_channel_request_def Let_def send_raw_reply_def dest: waiting_write_iff [of _ _ _ _ i r n]
          split: option.split list.split aux_value.split res.split prod.split)
  qed
  with w show ?thesis
    by (auto simp: handle_control_message_def handle_capabilities_def handle_cancellation_def waiting_enqueue waiting_remove
        split: option.split list.split res.split)
qed

lemma waiting_reply:
  assumes "waiting i r n s" and "conv_index msg = 0 \<or> msg_id msg \<noteq> i"
  shows "waiting i r n (snd (dispatch_pending_reply msg s))"
proof (cases "map_of (rs_pending_replies s) (msg_id msg)")
  case None
  with assms(1) show ?thesis by (simp add: dispatch_pending_reply_def)
next
  case (Some r')
  show ?thesis
  proof (cases "conv_index msg = 0")
    case False
    with assms(2) have ne: "msg_id msg \<noteq> i" by simp
    moreover from this assms(1) Some have "r' \<noteq> r" unfolding waiting_def by metis
    ultimately show ?thesis using assms(1) False Some
      unfolding dispatch_pending_reply_def by (simp add: waiting_def pending_simps)
  qed (simp add: dispatch_pending_reply_def assms(1))
qed

lemma waiting_reader:
  assumes "waiting i r n s" and "conv_index msg = 0 \<or> msg_id msg \<noteq> i"
  shows "waiting i r n (reader_message env msg s)"
proof -
  obtain b s1 where d: "dispatch_pending_reply msg s = (b, s1)" by fastforce
  have w1: "waiting i r n s1" using waiting_reply [OF assms] d by simp
  obtain x s2 where c: "handle_control_message env msg s1 = (x, s2)" by fastforce
  have w2: "waiting i r n s2" using waiting_control [OF w1, of env msg] c by simp
  then have "dispatch_to_handler env msg s2 = (Ok False, s2)"
    by (simp add: dispatch_to_handler_def waiting_def)
  with d c w1 w2 show ?thesis
    by (auto simp: reader_message_def waiting_enqueue split: res.split bool.split)
qed

lemma waiting_step:
  assumes "waiting i r n s" and "settled i r op \<or> (rs_reader_done s \<and> (\<forall>j r'. op = OpPollReply j r' \<longrightarrow> (j = i \<longleftrightarrow> r' = r)))"
    and "Suc n < 2 ^ 32"
  shows "\<exists>m \<le> Suc n. waiting i r m (rs_step env op s)"
proof (cases op)
  case (OpCall c d a)
  then show ?thesis using waiting_call [OF assms(1,3)] by auto
next
  case (OpSend c d a e)
  then show ?thesis using waiting_call [OF assms(1,3)] by auto
next
  case (OpChannel ident)
  then show ?thesis using waiting_start_channel [OF assms(1,3)] by simp
next
  case (OpPollReply j r')
  with assms(2) have "j = i \<longleftrightarrow> r' = r" by (auto simp: settled_def)
  with assms(1) OpPollReply have "waiting i r n (rs_step env op s)"
    by (cases "j = i") (auto simp: poll_reply_def waiting_drop waiting_def [of i r n s] split: reply_slot.split)
  then show ?thesis by (metis le_SucI order_refl)
next
  case (OpPollMessage c)
  with assms(1) have "waiting i r n (rs_step env op s)"
    by (auto simp: poll_message_def split: option.split list.split)
  then show ?thesis by (metis le_SucI order_refl)
next
  case (OpRawReply c a b d)
  with assms(1) have "waiting i r n (rs_step env op s)"
    by (cases "send_raw_reply c a b d s") (auto simp: send_raw_reply_def dest: waiting_write)
  then show ?thesis by (metis le_SucI order_refl)
next
  case (OpReader msg)
  with assms(1,2) have "waiting i r n (rs_step env op s)"
    by (auto simp: settled_def waiting_reader)
  then show ?thesis by (metis le_SucI order_refl)
next
  case OpReaderFails
  with assms(1,2) have "waiting i r n (rs_step env op s)" by (auto simp: settled_def)
  then show ?thesis by (metis le_SucI order_refl)
qed

text \<open>Reachable states: receivers are numbered in order, and nobody handles messages.\<close>

definition rs_wf :: "remote_server \<Rightarrow> bool" where
  "rs_wf s \<longleftrightarrow> (\<forall>j r. map_of (rs_pending_replies s) j = Some r \<longrightarrow> r < rs_next_slot s) \<and>
    rs_handlers s = Map.empty \<and> rs_registrations s = []"

lemma rs_wf_upd [simp]: "rs_wf (s\<lparr>rs_writer := t\<rparr>) = rs_wf s"
  "rs_wf (s\<lparr>rs_channels := ch\<rparr>) = rs_wf s" "rs_wf (s\<lparr>rs_channel_metadata := md\<rparr>) = rs_wf s"
  "rs_wf (s\<lparr>rs_closed := c\<rparr>) = rs_wf s" "rs_wf (s\<lparr>rs_reader_done := d\<rparr>) = rs_wf s"
  "rs_wf (s\<lparr>rs_new_channel := nc\<rparr>) = rs_wf s" "rs_wf (s\<lparr>rs_supported_identifiers := si\<rparr>) = rs_wf s"
  "rs_wf (s\<lparr>rs_current_message := cm\<rparr>) = rs_wf s" "rs_wf (s\<lparr>rs_slots := sl\<rparr>) = rs_wf s"
  by (simp_all add: rs_wf_def)

lemma rs_wf_delete: "rs_wf s \<Longrightarrow> rs_wf (s\<lparr>rs_pending_replies := AList.delete j (rs_pending_replies s)\<rparr>)"
  by (auto simp: rs_wf_def pending_simps split: if_splits)

lemma rs_wf_write: "rs_write_all b s = (x, s') \<Longrightarrow> rs_wf s' = rs_wf s"
  by (auto simp: rs_write_all_def split: prod.splits)

lemma rs_wf_drop: "rs_wf s \<Longrightarrow> rs_wf (drop_sender j s)"
  by (simp add: drop_sender_def rs_wf_delete split: option.split)

lemma rs_wf_insert: "rs_wf s \<Longrightarrow> rs_wf (snd (insert_pending j s))"
  using rs_wf_drop [of s j] by (auto simp: insert_pending_def Let_def rs_wf_def pending_simps less_Suc_eq)

lemma rs_wf_send:
  assumes "rs_wf s" shows "rs_wf (snd (send_method env c j data args ex co s))"
proof -
  let ?s = "if co then snd (insert_pending j s) else s"
  have w: "rs_wf ?s" using rs_wf_insert [OF assms] assms by simp
  obtain x where x: "(if co then act_bind (insert_pending j) (\<lambda>r. act_ok (Some r)) else act_ok None) s = (Ok x, ?s)"
    by (cases co) (auto simp: insert_pending_def Let_def act_ok_def act_bind_def)
  show ?thesis
    unfolding send_method_def Let_def act_bind_def x
    using w by (auto split: res.split prod.split dest: rs_wf_write intro: rs_wf_drop)
qed

lemma rs_wf_call: "rs_wf s \<Longrightarrow> rs_wf (snd (start_call env c data args s)) \<and> rs_wf (snd (call_method env c data args ex s))"
proof -
  assume "rs_wf s"
  then have w: "rs_wf (s\<lparr>rs_current_message := rs_current_message s + 1\<rparr>)" by simp
  show ?thesis
    using rs_wf_send [OF w, of env c "rs_current_message s + 1" data args True True]
      rs_wf_send [OF w, of env c "rs_current_message s + 1" data args ex False]
    by (auto simp: start_call_def call_method_def next_identifier_def act_bind_def act_ok_def act_err_def
        split: prod.split res.split option.split)
qed

lemma rs_wf_ensure [simp]: "rs_wf (ensure_channel_registered c s) = rs_wf s"
  "rs_wf (register_channel_metadata c ident rem s) = rs_wf s"
  by (simp_all add: ensure_channel_registered_def register_channel_metadata_def)

lemma rs_wf_start_channel: "rs_wf s \<Longrightarrow> rs_wf (snd (start_channel env ident s))"
proof -
  let ?c = "rs_new_channel s"
  let ?s = "ensure_channel_registered ?c (register_channel_metadata ?c ident False (s\<lparr>rs_new_channel := ?c + 1\<rparr>))"
  assume "rs_wf s"
  then have w: "rs_wf ?s" by simp
  have "rs_wf (snd (start_call env 0 d a ?s))" for d a using rs_wf_call [OF w] by blast
  with w show ?thesis
    by (auto simp: start_channel_def Let_def act_bind_def act_res_def act_ok_def split: res.split prod.split) (metis snd_conv)+
qed

lemma rs_wf_enqueue: "rs_wf s \<Longrightarrow> rs_wf (enqueue_message msg s)"
  by (simp add: enqueue_message_def split: option.split)

lemma rs_wf_remove: "rs_wf s \<Longrightarrow> rs_wf (remove_channel c s)"
  by (simp add: remove_channel_def rs_wf_def)

lemma rs_wf_control: "rs_wf s \<Longrightarrow> rs_wf (snd (handle_control_message env msg s))"
proof -
  assume w: "rs_wf s"
  have "rs_wf (snd (handle_channel_request env msg s))"
  proof -
    have "run_incoming_channel_initializers env c ident t = (Ok (), t)" if "rs_wf t" for c ident t
      using that by (simp add: run_incoming_channel_initializers_def rs_wf_def)
    with w show ?thesis
      by (auto simp: handle_channel_request_def Let_def send_raw_reply_def dest: rs_wf_write
          split: option.split list.split aux_value.split res.split prod.split)
  qed
  with w show ?thesis
    by (auto simp: handle_control_message_def handle_capabilities_def handle_cancellation_def rs_wf_enqueue rs_wf_remove
        split: option.split list.split res.split)
qed

lemma rs_wf_reader: "rs_wf s \<Longrightarrow> rs_wf (reader_message env msg s)"
proof -
  assume w: "rs_wf s"
  obtain b s1 where d: "dispatch_pending_reply msg s = (b, s1)" by fastforce
  have w1: "rs_wf s1" using w d by (auto simp: dispatch_pending_reply_def rs_wf_delete split: if_splits option.splits)
  obtain x s2 where c: "handle_control_message env msg s1 = (x, s2)" by fastforce
  have w2: "rs_wf s2" using rs_wf_control [OF w1, of env msg] c by simp
  then have "dispatch_to_handler env msg s2 = (Ok False, s2)" by (simp add: dispatch_to_handler_def rs_wf_def)
  with d c w1 w2 show ?thesis by (auto simp: reader_message_def rs_wf_enqueue split: res.split bool.split)
qed

lemma rs_wf_step: "rs_wf s \<Longrightarrow> rs_wf (rs_step env op s)"
proof (cases op)
  case (OpPollReply j r)
  then show "rs_wf s \<Longrightarrow> rs_wf (rs_step env op s)" by (simp add: poll_reply_def rs_wf_drop split: reply_slot.split)
next
  case (OpRawReply c a b d)
  then show "rs_wf s \<Longrightarrow> rs_wf (rs_step env op s)"
    by (cases "send_raw_reply c a b d s") (simp add: send_raw_reply_def rs_wf_write)
next
  case OpReaderFails
  then show "rs_wf s \<Longrightarrow> rs_wf (rs_step env op s)" by (simp add: reader_fails_def fail_pending_replies_def) (simp add: rs_wf_def)
qed (simp_all add: rs_wf_call rs_wf_start_channel rs_wf_reader poll_message_def split: option.split list.split)

lemma rs_wf_run: "rs_wf s \<Longrightarrow> rs_wf (rs_run env ops s)"
  unfolding rs_run_def by (induction ops arbitrary: s) (simp_all add: rs_wf_step)

lemma rs_wf_new: "rs_wf (remote_server_new w)"
  by (simp add: rs_wf_def remote_server_new_def)

lemma waiting_fresh:
  assumes "rs_wf t" and "rs_current_message t = i"
  shows "waiting i (rs_next_slot t) 0 (t\<lparr>rs_pending_replies := AList.update i (rs_next_slot t) (rs_pending_replies t),
    rs_slots := (rs_slots t)(rs_next_slot t := Waiting), rs_next_slot := Suc (rs_next_slot t)\<rparr>)"
proof -
  have k: "map_of (rs_pending_replies t) j \<noteq> Some (rs_next_slot t)" for j
    using assms(1) unfolding rs_wf_def by (metis less_irrefl)
  show ?thesis
    unfolding waiting_def remote_server.simps
    using assms by (intro conjI) (simp_all add: update_conv' rs_wf_def k)
qed

lemma start_call_waiting:
  assumes "rs_wf s" and "start_call env c data args s = (Ok (i, r), s1)"
  shows "waiting i r 0 s1 \<and> rs_reader_done s1 = rs_reader_done s"
proof -
  let ?s = "s\<lparr>rs_current_message := rs_current_message s + 1\<rparr>"
  let ?i = "rs_current_message s + 1"
  have w: "rs_wf (drop_sender ?i ?s)" using assms(1) by (simp add: rs_wf_drop)
  have cur: "rs_current_message (drop_sender ?i ?s) = ?i" "rs_reader_done (drop_sender ?i ?s) = rs_reader_done s"
    by (simp_all add: drop_sender_def split: option.split)
  obtain r0 s0 where ins: "insert_pending ?i ?s = (Ok r0, s0)" by (simp add: insert_pending_def Let_def)
  have "waiting ?i r0 0 s0 \<and> rs_reader_done s0 = rs_reader_done s"
  proof -
    from ins have "r0 = rs_next_slot (drop_sender ?i ?s)" and "rs_reader_done s0 = rs_reader_done (drop_sender ?i ?s)"
      by (auto simp: insert_pending_def Let_def)
    with ins waiting_fresh [OF w cur(1)] cur(2) show ?thesis by (simp add: insert_pending_def Let_def)
  qed
  moreover from assms(2) ins obtain x where "i = ?i" "r = r0" "rs_write_all x s0 = (Ok (), s1)"
    by (auto simp: start_call_def send_method_def Let_def next_identifier_def act_bind_Ok act_ok_def act_err_def
        split: res.splits prod.splits option.splits)
  ultimately show ?thesis
    by (auto simp: waiting_write_iff) (auto simp: rs_write_all_def split: prod.splits)
qed

section \<open>Replies\<close>

lemma waiting_run:
  assumes "waiting i r n s" and "\<forall>op \<in> set ops. settled i r op" and "n + length ops + 1 < 2 ^ 32"
  shows "\<exists>m. waiting i r m (rs_run env ops s)"
  using assms
proof (induction ops arbitrary: n s)
  case Nil
  then show ?case by (auto simp: rs_run_def)
next
  case (Cons op ops)
  have "settled i r op" "Suc n < 2 ^ 32" using Cons.prems(2,3) by simp_all
  with waiting_step [OF Cons.prems(1), of op env] obtain m where m: "m \<le> Suc n" "waiting i r m (rs_step env op s)" by blast
  have "m + length ops + 1 < 2 ^ 32" using m(1) Cons.prems(3) by simp
  from Cons.IH [OF m(2) _ this] Cons.prems(2) show ?case by (simp add: rs_run_def)
qed

text \<open>A connection on which every write succeeds.\<close>

definition tiny_env :: rs_env where
  "tiny_env = \<lparr>re_enc = (\<lambda>_. Some []), re_dec = (\<lambda>_. None), re_handler = (\<lambda>_ _ s. (Ok Unhandled, s)),
     re_initializer = (\<lambda>_ _ _ s. (Ok (), s))\<rparr>"

definition tiny_wire :: transport where "tiny_wire = \<lparr>tp_in = [], tp_out = [], tp_budget = None\<rparr>"

definition tiny_msg :: "u32 \<Rightarrow> i32 \<Rightarrow> u32 \<Rightarrow> dtx_message" where
  "tiny_msg i c n = \<lparr>dm_message_header = message_header_new 0 1 i n c False, dm_payload_header = payload_header_default,
     dm_aux = None, dm_data = None, dm_raw_data = None\<rparr>"

lemma tiny_msg_fields [simp]: "conv_index (tiny_msg i c n) = n" "msg_id (tiny_msg i c n) = i" "msg_channel (tiny_msg i c n) = c"
  by (simp_all add: tiny_msg_def conv_index_def msg_id_def msg_channel_def message_header_new_def)

lemma tiny_call:
  assumes "rs_writer s = tiny_wire" and "rs_pending_replies s = []" and "rs_next_slot s = 0" and "rs_current_message s = 0"
  shows "\<exists>s1. start_call tiny_env c None None s = (Ok (1, 0), s1)"
  using assms
  by (simp add: start_call_def next_identifier_def send_method_def method_message_def insert_pending_def drop_sender_def
      Let_def act_bind_def act_ok_def dtx_serialize_def rs_write_all_def tiny_env_def tiny_wire_def tp_write_all_unlimited tp_flush_unlimited)

text \<open>
  C9. A reply reaches the call that waits for it. After a call was made, whatever the tasks do in the meantime,
  in any order (other calls and sends, new channels, polls of other futures, any messages but the
  reply), fewer than \<open>2 ^ 32\<close> steps of it, the call keeps waiting; then the message with its identifier
  is handed to it and to nobody else.
\<close>

theorem rs_reply_reaches_caller:
  assumes "start_call env c data args (rs_run env ops0 (remote_server_new w)) = (Ok (i, r), s1)"
    and "\<forall>op \<in> set ops. settled i r op" and "length ops + 1 < 2 ^ 32"
    and "conv_index msg \<noteq> 0" and "msg_id msg = i" and "\<not> rs_reader_done (rs_run env ops s1)"
  shows "fst (poll_reply i r (rs_run env ops s1)) = Pending \<and>
    fst (poll_reply i r (rs_step env (OpReader msg) (rs_run env ops s1))) = Ready (Ok msg) \<and>
    rs_channels (rs_step env (OpReader msg) (rs_run env ops s1)) = rs_channels (rs_run env ops s1)"
proof -
  from start_call_waiting [OF rs_wf_run [OF rs_wf_new] assms(1)] have "waiting i r 0 s1" by blast
  from waiting_run [OF this assms(2)] assms(3) obtain m where "waiting i r m (rs_run env ops s1)" by auto
  with assms(4,5,6) show ?thesis
    by (simp add: waiting_def poll_reply_def reader_message_def dispatch_pending_reply_def)
qed

lemma reader_done_simps [simp]:
  "rs_reader_done (drop_sender j s) = rs_reader_done s"
  "rs_reader_done (snd (insert_pending j s)) = rs_reader_done s"
  "rs_reader_done (snd (rs_write_all b s)) = rs_reader_done s"
  "rs_reader_done (ensure_channel_registered c s) = rs_reader_done s"
  "rs_reader_done (register_channel_metadata c ident rem s) = rs_reader_done s"
  by (simp_all add: drop_sender_def insert_pending_def Let_def rs_write_all_def ensure_channel_registered_def
      register_channel_metadata_def split: option.split prod.split)

lemma reader_done_write: "rs_write_all b s = (x, s') \<Longrightarrow> rs_reader_done s' = rs_reader_done s"
  by (auto simp: rs_write_all_def split: prod.splits)

lemma reader_done_send: "rs_reader_done (snd (send_method env c j data args ex co s)) = rs_reader_done s"
proof -
  let ?s = "if co then snd (insert_pending j s) else s"
  obtain x where x: "(if co then act_bind (insert_pending j) (\<lambda>r. act_ok (Some r)) else act_ok None) s = (Ok x, ?s)"
    by (cases co) (auto simp: insert_pending_def Let_def act_ok_def act_bind_def)
  have "rs_reader_done ?s = rs_reader_done s" by simp
  then show ?thesis
    unfolding send_method_def Let_def act_bind_def x
    by (auto split: res.split prod.split dest: reader_done_write)
qed

lemma reader_done_call: "rs_reader_done (snd (start_call env c data args s)) = rs_reader_done s \<and>
    rs_reader_done (snd (call_method env c data args ex s)) = rs_reader_done s"
proof -
  let ?s = "s\<lparr>rs_current_message := rs_current_message s + 1\<rparr>"
  show ?thesis
    using reader_done_send [of env c "rs_current_message s + 1" data args True True ?s]
      reader_done_send [of env c "rs_current_message s + 1" data args ex False ?s]
    by (auto simp: start_call_def call_method_def next_identifier_def act_bind_def act_ok_def act_err_def
        split: prod.split res.split option.split)
qed

lemma reader_done_channel: "rs_reader_done (snd (start_channel env ident s)) = rs_reader_done s"
proof -
  let ?c = "rs_new_channel s"
  let ?s = "ensure_channel_registered ?c (register_channel_metadata ?c ident False (s\<lparr>rs_new_channel := ?c + 1\<rparr>))"
  have "rs_reader_done (snd (start_call env 0 d a ?s)) = rs_reader_done s" for d a using reader_done_call [of env 0 d a ?s] by simp
  then show ?thesis
    by (auto simp: start_channel_def Let_def act_bind_def act_res_def act_ok_def split: res.split prod.split) (metis snd_conv)+
qed

lemma reader_done_step: "rs_reader_done s \<Longrightarrow> rs_reader_done (rs_step env op s)"
  by (cases op) (simp_all add: reader_done_call reader_done_channel poll_reply_def poll_message_def send_raw_reply_def
      split: reply_slot.split option.split list.split)

text \<open>
  C10. A call that is made after the reader has ended never returns: it is sent, its receiver is entered, and
  nothing that the tasks do afterwards answers it or makes it fail; no timeout and no look at the
  closed flag ends the wait.
\<close>

theorem rs_call_after_end_hangs:
  assumes "rs_reader_done (rs_run env ops0 (remote_server_new w))"
    and "start_call env c data args (rs_run env ops0 (remote_server_new w)) = (Ok (i, r), s1)"
    and "\<forall>op \<in> set ops. \<forall>j r'. op = OpPollReply j r' \<longrightarrow> (j = i \<longleftrightarrow> r' = r)" and "length ops + 1 < 2 ^ 32"
  shows "fst (poll_reply i r (rs_run env ops s1)) = Pending"
proof -
  have run: "rs_reader_done s \<Longrightarrow> waiting i r n s \<Longrightarrow> n + length ops + 1 < 2 ^ 32 \<Longrightarrow> \<exists>m. waiting i r m (rs_run env ops s)" for n s
    using assms(3)
  proof (induction ops arbitrary: n s)
    case Nil
    then show ?case by (auto simp: rs_run_def)
  next
    case (Cons op ops)
    have "Suc n < 2 ^ 32" using Cons.prems(3) by simp
    with waiting_step [OF Cons.prems(2), of op env] Cons.prems(1,4) obtain m where
      m: "m \<le> Suc n" "waiting i r m (rs_step env op s)" by auto
    have "m + length ops + 1 < 2 ^ 32" using m(1) Cons.prems(3) by simp
    from Cons.IH [OF _ m(2) this] Cons.prems(1,4) show ?case by (simp add: rs_run_def reader_done_step)
  qed
  from start_call_waiting [OF rs_wf_run [OF rs_wf_new] assms(2)] assms(1) have "waiting i r 0 s1" "rs_reader_done s1" by simp_all
  from run [OF this(2,1)] assms(4) obtain m where "waiting i r m (rs_run env ops s1)" by auto
  then show ?thesis by (simp add: waiting_def poll_reply_def)
qed

theorem rs_call_after_end_hangs_witness:
  "\<exists>s1. start_call tiny_env 3 None None (rs_step tiny_env OpReaderFails (remote_server_new tiny_wire)) = (Ok (1, 0), s1) \<and>
     fst (poll_reply 1 0 (rs_run tiny_env [OpSend 0 None None False, OpPollReply 1 0] s1)) = Pending"
proof -
  obtain s1 where s1: "start_call tiny_env 3 None None (rs_run tiny_env [OpReaderFails] (remote_server_new tiny_wire)) = (Ok (1, 0), s1)"
    using tiny_call [of "reader_fails (remote_server_new tiny_wire)" 3]
    by (auto simp: rs_run_def reader_fails_def fail_pending_replies_def remote_server_new_def)
  have "rs_reader_done (rs_run tiny_env [OpReaderFails] (remote_server_new tiny_wire))"
    by (simp add: rs_run_def reader_fails_def remote_server_new_def)
  from rs_call_after_end_hangs [OF this s1, of "[OpSend 0 None None False, OpPollReply 1 0]"] s1 show ?thesis
    by (simp add: rs_run_def)
qed

section \<open>Queues\<close>

text \<open>A message that is no reply and no request to the control channel.\<close>

definition plain_msg :: "dtx_message \<Rightarrow> bool" where
  "plain_msg msg \<longleftrightarrow> conv_index msg = 0 \<and> (msg_channel msg \<noteq> 0 \<or>
    \<not> selector_is msg ''_notifyOfPublishedCapabilities:'' \<and> \<not> selector_is msg ''_channelCanceled:'' \<and>
    \<not> selector_is msg ''_requestChannelWithCode:identifier:'')"

lemma reader_plain: "rs_wf s \<Longrightarrow> plain_msg msg \<Longrightarrow> reader_message env msg s = enqueue_message msg s"
  by (auto simp: plain_msg_def reader_message_def dispatch_pending_reply_def handle_control_message_def
      dispatch_to_handler_def rs_wf_def)

lemma reader_plain_all:
  "rs_wf s \<Longrightarrow> \<forall>m \<in> set ms. plain_msg m \<Longrightarrow>
    rs_channels (fold (reader_message env) ms s) c = map_option (\<lambda>q. q @ filter (\<lambda>m. msg_channel m = c) ms) (rs_channels s c)"
proof (induction ms arbitrary: s)
  case Nil
  then show ?case by (simp add: option.map_id [unfolded id_def])
next
  case (Cons m ms)
  have "rs_channels (enqueue_message m s) c = map_option (\<lambda>q. q @ filter (\<lambda>m. msg_channel m = c) [m]) (rs_channels s c)"
    by (cases "rs_channels s c") (auto simp: enqueue_message_def split: option.split)
  with Cons show ?case by (simp add: reader_plain rs_wf_enqueue option.map_comp comp_def)
qed

primrec poll_messages :: "nat \<Rightarrow> i32 \<Rightarrow> remote_server \<Rightarrow> (dtx_message, idevice_error) res poll list" where
  "poll_messages 0 c s = []"
| "poll_messages (Suc n) c s = (case poll_message c s of (p, s') \<Rightarrow> p # poll_messages n c s')"

lemma poll_queue: "rs_channels s c = Some (q @ q') \<Longrightarrow> poll_messages (length q) c s = map (\<lambda>m. Ready (Ok m)) q"
  by (induction q arbitrary: s) (auto simp: poll_message_def)

text \<open>
  C12. Each channel is a queue: from messages for many channels that no call and no handler takes, the
  readers of a channel get exactly its own, in the order of arrival, behind those that were waiting.
\<close>

theorem rs_queues_in_order:
  assumes "rs_wf s" and "\<forall>m \<in> set ms. plain_msg m" and "rs_channels s c = Some q"
    and "q' = q @ filter (\<lambda>m. msg_channel m = c) ms"
  shows "poll_messages (length q') c (fold (reader_message env) ms s) = map (\<lambda>m. Ready (Ok m)) q'"
  by (rule poll_queue [where q' = "[]"]) (simp add: reader_plain_all [OF assms(1,2)] assms(3,4))

theorem rs_queues_in_order_witness:
  "poll_messages 2 0 (fold (reader_message tiny_env) [tiny_msg 1 0 0, tiny_msg 2 5 0, tiny_msg 3 0 0] (remote_server_new tiny_wire)) =
     [Ready (Ok (tiny_msg 1 0 0)), Ready (Ok (tiny_msg 3 0 0))]"
proof -
  have "\<forall>m \<in> set [tiny_msg 1 0 0, tiny_msg 2 5 0, tiny_msg 3 0 0]. plain_msg m"
    by (simp add: plain_msg_def selector_is_def) (simp add: tiny_msg_def)
  moreover have "rs_channels (remote_server_new tiny_wire) 0 = Some []" by (simp add: remote_server_new_def)
  moreover have "(5 :: 32 word) \<noteq> 0" by simp
  then have "[tiny_msg 1 0 0, tiny_msg 3 0 0] = [] @ filter (\<lambda>m. msg_channel m = 0) [tiny_msg 1 0 0, tiny_msg 2 5 0, tiny_msg 3 0 0]"
    by simp
  ultimately have "poll_messages (length [tiny_msg 1 0 0, tiny_msg 3 0 0]) 0 (fold (reader_message tiny_env)
      [tiny_msg 1 0 0, tiny_msg 2 5 0, tiny_msg 3 0 0] (remote_server_new tiny_wire)) =
      map (\<lambda>m. Ready (Ok m)) [tiny_msg 1 0 0, tiny_msg 3 0 0]"
    by (rule rs_queues_in_order [OF rs_wf_new])
  moreover have "length [tiny_msg 1 0 0, tiny_msg 3 0 0] = 2" by simp
  ultimately show ?thesis by (simp only: list.map)
qed

text \<open>A code the remote side chooses can be that of a channel this side has opened.\<close>

lemma remote_code_takes_local:
  assumes "msg_channel msg = 0" and "conv_index msg = 0" and "selector_is msg ''_requestChannelWithCode:identifier:''"
    and "msg_values msg = Some [AuxU32 (- code), AuxString name]" and "rs_wf s" and "rs_channels s code = Some q"
  shows "map_of (rs_channel_metadata (reader_message env msg s)) code =
      Some \<lparr>cm_code = code, cm_identifier = name, cm_remote = True\<rparr> \<and>
    rs_channels (reader_message env msg s) code = Some q"
proof -
  let ?s = "register_channel_metadata code name True s"
  have e: "ensure_channel_registered code ?s = ?s"
    using assms(6) by (simp add: ensure_channel_registered_def register_channel_metadata_def)
  have i: "run_incoming_channel_initializers env code name ?s = (Ok (), ?s)"
    using assms(5) by (simp add: run_incoming_channel_initializers_def register_channel_metadata_def rs_wf_def)
  have "rs_channel_metadata (snd (handle_channel_request env msg s)) = rs_channel_metadata ?s \<and>
      rs_channels (snd (handle_channel_request env msg s)) = rs_channels s \<and> fst (handle_channel_request env msg s) = Ok True"
    using assms(4) e i
    by (auto simp: handle_channel_request_def decode_identifier_def Let_def send_raw_reply_def rs_write_all_def register_channel_metadata_def
        split: res.split prod.split)
  moreover obtain x t where "handle_channel_request env msg s = (x, t)" by fastforce
  ultimately show ?thesis
    using assms(1,2,3,6)
    by (simp add: reader_message_def dispatch_pending_reply_def handle_control_message_def selector_is_def
        register_channel_metadata_def update_conv')
qed

theorem rs_reply_reaches_caller_witness:
  "\<exists>s1. start_call tiny_env 3 None None (remote_server_new tiny_wire) = (Ok (1, 0), s1) \<and>
     fst (poll_reply 1 0 (rs_step tiny_env (OpReader (tiny_msg 1 3 1)) (rs_run tiny_env [OpReader (tiny_msg 2 0 0), OpPollMessage 0] s1))) =
     Ready (Ok (tiny_msg 1 3 1))"
proof -
  obtain s1 where s1: "start_call tiny_env 3 None None (rs_run tiny_env [] (remote_server_new tiny_wire)) = (Ok (1, 0), s1)"
    using tiny_call [of "remote_server_new tiny_wire" 3] by (auto simp: rs_run_def remote_server_new_def)
  have "\<not> rs_reader_done s1"
    using start_call_waiting [OF rs_wf_run [OF rs_wf_new] s1] by (simp add: rs_run_def remote_server_new_def)
  moreover have "rs_wf s1"
    using rs_wf_call [OF rs_wf_new [of tiny_wire], of tiny_env 3 None None] s1 by (simp add: rs_run_def)
  then have "reader_message tiny_env (tiny_msg 2 0 0) s1 = enqueue_message (tiny_msg 2 0 0) s1"
    by (rule reader_plain) (simp add: plain_msg_def selector_is_def, simp add: tiny_msg_def)
  ultimately have "\<not> rs_reader_done (rs_run tiny_env [OpReader (tiny_msg 2 0 0), OpPollMessage 0] s1)"
    by (simp add: rs_run_def poll_message_def enqueue_message_def split: option.split list.split)
  moreover have "\<forall>op \<in> set [OpReader (tiny_msg 2 0 0), OpPollMessage 0]. settled 1 0 op" by (simp add: settled_def)
  ultimately show ?thesis
    using rs_reply_reaches_caller [OF s1, of "[OpReader (tiny_msg 2 0 0), OpPollMessage 0]" "tiny_msg 1 3 1"] s1
    by (auto simp: rs_run_def)
qed

section \<open>Wake-ups\<close>

text \<open>
  \<open>read_message\<close> at the grain of its atomic steps, against the reader's \<open>enqueue_message\<close>. \<open>notify_waiters\<close> of
  tokio wakes those that have registered by then and leaves nothing behind for later ones. The
  queue is looked at, the closed flag is looked at, and only then is the wake-up asked for.
\<close>

datatype wk_pc = CheckQueue | CheckClosed | Register | Asleep | Returned "dtx_message option"

record wakeup =
  wk_queue :: "dtx_message list"
  wk_closed :: bool
  wk_pc :: wk_pc
  wk_notify :: bool

definition wk_init :: wakeup where
  "wk_init = \<lparr>wk_queue = [], wk_closed = False, wk_pc = CheckQueue, wk_notify = False\<rparr>"

inductive wk_reader :: "wakeup \<Rightarrow> wakeup \<Rightarrow> bool" where
  push: "\<not> wk_notify w \<Longrightarrow> wk_reader w (w\<lparr>wk_queue := wk_queue w @ [m], wk_notify := True\<rparr>)"
| close: "\<not> wk_notify w \<Longrightarrow> wk_reader w (w\<lparr>wk_closed := True, wk_notify := True\<rparr>)"
| notify: "wk_notify w \<Longrightarrow> wk_reader w (w\<lparr>wk_notify := False, wk_pc := (if wk_pc w = Asleep then CheckQueue else wk_pc w)\<rparr>)"

inductive wk_waiter :: "wakeup \<Rightarrow> wakeup \<Rightarrow> bool" where
  pop: "wk_pc w = CheckQueue \<Longrightarrow> wk_queue w = m # ms \<Longrightarrow> wk_waiter w (w\<lparr>wk_queue := ms, wk_pc := Returned (Some m)\<rparr>)"
| none: "wk_pc w = CheckQueue \<Longrightarrow> wk_queue w = [] \<Longrightarrow> wk_waiter w (w\<lparr>wk_pc := CheckClosed\<rparr>)"
| ended: "wk_pc w = CheckClosed \<Longrightarrow> wk_closed w \<Longrightarrow> wk_waiter w (w\<lparr>wk_pc := Returned None\<rparr>)"
| going: "wk_pc w = CheckClosed \<Longrightarrow> \<not> wk_closed w \<Longrightarrow> wk_waiter w (w\<lparr>wk_pc := Register\<rparr>)"
| sleep: "wk_pc w = Register \<Longrightarrow> wk_waiter w (w\<lparr>wk_pc := Asleep\<rparr>)"

definition wk_step :: "wakeup \<Rightarrow> wakeup \<Rightarrow> bool" where
  "wk_step w w' \<longleftrightarrow> wk_reader w w' \<or> wk_waiter w w'"

text \<open>On one thread nothing comes between the look at the queue and the registration: there is no await.\<close>

inductive wk_waiter_one :: "wakeup \<Rightarrow> wakeup \<Rightarrow> bool" where
  pop: "wk_pc w = CheckQueue \<Longrightarrow> wk_queue w = m # ms \<Longrightarrow> wk_waiter_one w (w\<lparr>wk_queue := ms, wk_pc := Returned (Some m)\<rparr>)"
| ended: "wk_pc w = CheckQueue \<Longrightarrow> wk_queue w = [] \<Longrightarrow> wk_closed w \<Longrightarrow> wk_waiter_one w (w\<lparr>wk_pc := Returned None\<rparr>)"
| sleep: "wk_pc w = CheckQueue \<Longrightarrow> wk_queue w = [] \<Longrightarrow> \<not> wk_closed w \<Longrightarrow> wk_waiter_one w (w\<lparr>wk_pc := Asleep\<rparr>)"

definition wk_step_one :: "wakeup \<Rightarrow> wakeup \<Rightarrow> bool" where
  "wk_step_one w w' \<longleftrightarrow> wk_reader w w' \<or> wk_waiter_one w w'"

inductive_cases wk_readerE: "wk_reader w w'"
inductive_cases wk_waiterE: "wk_waiter w w'"
inductive_cases wk_waiter_oneE: "wk_waiter_one w w'"

text \<open>The waiter sleeps although there is something for it, and no wake-up is on its way.\<close>

definition wk_lost :: "wakeup \<Rightarrow> bool" where
  "wk_lost w \<longleftrightarrow> wk_pc w = Asleep \<and> (wk_queue w \<noteq> [] \<or> wk_closed w) \<and> \<not> wk_notify w"

lemma wk_one_invariant:
  "wk_step_one\<^sup>*\<^sup>* wk_init w \<Longrightarrow> wk_pc w = Asleep \<longrightarrow> wk_notify w \<or> (wk_queue w = [] \<and> \<not> wk_closed w)"
proof (induction rule: rtranclp_induct)
  case (step w w')
  from step.hyps(2) step.IH show ?case
    by (auto simp: wk_step_one_def elim!: wk_readerE wk_waiter_oneE split: if_splits)
qed (simp add: wk_init_def)

lemma wk_race:
  "wk_step\<^sup>*\<^sup>* wk_init \<lparr>wk_queue = [m], wk_closed = False, wk_pc = Asleep, wk_notify = False\<rparr>"
proof -
  let ?w = "\<lambda>q pc n. \<lparr>wk_queue = q, wk_closed = False, wk_pc = pc, wk_notify = n\<rparr>"
  have 1: "wk_step wk_init (?w [] CheckClosed False)"
    using wk_waiter.none [of wk_init] by (simp add: wk_step_def wk_init_def)
  have 2: "wk_step (?w [] CheckClosed False) (?w [] Register False)"
    using wk_waiter.going [of "?w [] CheckClosed False"] by (simp add: wk_step_def)
  have 3: "wk_step (?w [] Register False) (?w [m] Register True)"
    using wk_reader.push [of "?w [] Register False" m] by (simp add: wk_step_def)
  have 4: "wk_step (?w [m] Register True) (?w [m] Register False)"
    using wk_reader.notify [of "?w [m] Register True"] by (simp add: wk_step_def)
  have 5: "wk_step (?w [m] Register False) (?w [m] Asleep False)"
    using wk_waiter.sleep [of "?w [m] Register False"] by (simp add: wk_step_def)
  from 1 2 3 4 5 show ?thesis by (meson rtranclp.rtrancl_into_rtrancl rtranclp.rtrancl_refl)
qed

text \<open>
  C11. Waiting for a message can miss it. With two threads there is an execution after which the message
  lies in the queue, its notification is spent and the waiter sleeps; then no step of its own
  is left to it: only another message, or the end of the connection, can wake it. On one
  thread no execution leads to such a state.
\<close>

theorem rs_lost_wakeup:
  "(\<exists>w. wk_step\<^sup>*\<^sup>* wk_init w \<and> wk_lost w \<and> wk_queue w = [m]) \<and>
   (\<forall>w w'. wk_lost w \<longrightarrow> wk_step w w' \<longrightarrow> wk_reader w w' \<and> wk_pc w' = Asleep \<and> wk_notify w') \<and>
   (\<forall>w. wk_step_one\<^sup>*\<^sup>* wk_init w \<longrightarrow> \<not> wk_lost w)"
proof (intro conjI allI impI)
  show "\<exists>w. wk_step\<^sup>*\<^sup>* wk_init w \<and> wk_lost w \<and> wk_queue w = [m]"
  proof (intro exI conjI)
    show "wk_step\<^sup>*\<^sup>* wk_init \<lparr>wk_queue = [m], wk_closed = False, wk_pc = Asleep, wk_notify = False\<rparr>"
      by (rule wk_race)
  qed (simp_all add: wk_lost_def)
next
  fix w w' assume "wk_lost w" "wk_step w w'"
  then show "wk_reader w w'" "wk_pc w' = Asleep" "wk_notify w'"
    by (auto simp: wk_lost_def wk_step_def elim!: wk_waiterE) (auto elim!: wk_readerE)
next
  fix w assume "wk_step_one\<^sup>*\<^sup>* wk_init w"
  from wk_one_invariant [OF this] show "\<not> wk_lost w" by (auto simp: wk_lost_def)
qed

theorem rs_lost_wakeup_witness:
  "\<exists>w w'. wk_step\<^sup>*\<^sup>* wk_init w \<and> wk_lost w \<and> wk_step w w' \<and> wk_pc w' = Asleep \<and> wk_notify w' \<and> \<not> wk_step_one\<^sup>*\<^sup>* wk_init w"
proof -
  note lost = rs_lost_wakeup [of dtx_sample]
  from lost obtain w where w: "wk_step\<^sup>*\<^sup>* wk_init w" "wk_lost w" by blast
  then have "wk_step w (w\<lparr>wk_closed := True, wk_notify := True\<rparr>)"
    by (simp add: wk_step_def wk_lost_def wk_reader.close)
  with w lost show ?thesis by blast
qed

end
