(* ===== verification/Http_Client.thy ===== *)
theory Http_Client
  imports Device Texts
begin

text \<open>
  http.rs: the small HTTP/1.1 client of the restore and tunnel services. URLs, redirects, the request, and the
  response whose body is framed by chunks, by its length or by the end of the connection. TCP and
  TLS are the transport: the connections a request makes are taken, one after the other, from the
  state, which keeps those that were used.
\<close>

section \<open>Requests\<close>

definition http_err :: "string \<Rightarrow> idevice_error" where
  "http_err m = Http (rstr m)"

datatype http_method = HttpGet | HttpPost

fun method_str :: "http_method \<Rightarrow> rstring" where
  "method_str HttpGet = rstr ''GET''"
| "method_str HttpPost = rstr ''POST''"

type_synonym http_headers = "(rstring \<times> rstring) list"

record http_request =
  hq_method :: http_method
  hq_url :: rstring
  hq_headers :: http_headers
  hq_body :: "byte list"

record http_response =
  hr_status :: nat
  hr_headers :: http_headers
  hr_body :: "byte list"

definition http_request_new :: "http_method \<Rightarrow> rstring \<Rightarrow> http_request" where
  "http_request_new m url = \<lparr>hq_method = m, hq_url = url, hq_headers = [], hq_body = []\<rparr>"

definition http_add_header :: "rstring \<Rightarrow> rstring \<Rightarrow> http_request \<Rightarrow> http_request" where
  "http_add_header name v q = q\<lparr>hq_headers := hq_headers q @ [(name, v)]\<rparr>"

definition http_set_body :: "byte list \<Rightarrow> http_request \<Rightarrow> http_request" where
  "http_set_body b q = q\<lparr>hq_body := b\<rparr>"

definition find_header :: "string \<Rightarrow> http_headers \<Rightarrow> rstring option" where
  "find_header name hs = map_option snd (find (\<lambda>h. eq_ignore_ascii_case (fst h) (rstr name)) hs)"

definition http_text :: "http_response \<Rightarrow> rstring" where
  "http_text r = utf8_lossy (hr_body r)"

section \<open>URLs\<close>

record parsed_url =
  pu_https :: bool
  pu_host :: rstring
  pu_authority :: rstring
  pu_port :: nat
  pu_path :: rstring

definition url_delim :: "byte \<Rightarrow> bool" where
  "url_delim b \<longleftrightarrow> b = 0x2F \<or> b = 0x3F \<or> b = 0x23"

definition strip_scheme :: "rstring \<Rightarrow> (bool \<times> rstring) option" where
  "strip_scheme url =
    (case strip_prefix (rstr ''http://'') url of
       Some r \<Rightarrow> Some (False, r)
     | None \<Rightarrow> map_option (\<lambda>r. (True, r)) (strip_prefix (rstr ''https://'') url))"

definition bad_url :: "rstring \<Rightarrow> string \<Rightarrow> idevice_error" where
  "bad_url url m = Http (rstr ''invalid URL `'' @ url @ rstr ''`: '' @ rstr m)"

text \<open>The host and the port, with IPv6 literals in brackets.\<close>

definition split_hostport :: "rstring \<Rightarrow> rstring \<Rightarrow> (rstring \<times> rstring option, idevice_error) res" where
  "split_hostport url hostport =
    (case strip_prefix (rstr ''['') hostport of
       Some after \<Rightarrow>
         (case split_once 0x5D after of
            None \<Rightarrow> Err (bad_url url ''unterminated IPv6 literal'')
          | Some (host, tail) \<Rightarrow> Ok (host, strip_prefix (rstr '':'') tail))
     | None \<Rightarrow>
         (case rsplit_once 0x3A hostport of
            Some (h, p) \<Rightarrow> Ok (h, Some p)
          | None \<Rightarrow> Ok (hostport, None)))"

definition parse_url :: "rstring \<Rightarrow> (parsed_url, idevice_error) res" where
  "parse_url url =
    rbind (ok_or (bad_url url ''scheme must be http or https'') (strip_scheme url)) (\<lambda>(https, rest).
    let authority = takeWhile (\<lambda>b. \<not> url_delim b) rest; path_part = dropWhile (\<lambda>b. \<not> url_delim b) rest
    in if authority = [] then Err (bad_url url ''missing host'')
       else
         let hostport = (case rsplit_once 0x40 authority of Some (_, h) \<Rightarrow> h | None \<Rightarrow> authority)
         in rbind (split_hostport url hostport) (\<lambda>(host, port_str).
            if host = [] then Err (bad_url url ''missing host'')
            else
              rbind (case port_str of
                       Some p \<Rightarrow> ok_or (bad_url url ''invalid port'') (parse_unsigned 16 p)
                     | None \<Rightarrow> Ok (if https then 443 else 80)) (\<lambda>port.
              let path = (if path_part = [] \<or> hd path_part = 0x3F \<or> hd path_part = 0x23
                          then 0x2F # path_part else path_part)
              in Ok \<lparr>pu_https = https, pu_host = host, pu_authority = hostport, pu_port = port, pu_path = path\<rparr>)))"

definition scheme_of :: "parsed_url \<Rightarrow> rstring" where
  "scheme_of p = (if pu_https p then rstr ''https'' else rstr ''http'')"

definition resolve_redirect :: "rstring \<Rightarrow> rstring \<Rightarrow> (rstring, idevice_error) res" where
  "resolve_redirect base location =
    (if strip_scheme location \<noteq> None then Ok location
     else
       rbind (parse_url base) (\<lambda>parsed.
         case strip_prefix (rstr ''/'') location of
           Some abs_path \<Rightarrow> Ok (scheme_of parsed @ rstr ''://'' @ pu_authority parsed @ rstr ''/'' @ abs_path)
         | None \<Rightarrow>
             let dir = (case rsplit_once 0x2F (pu_path parsed) of Some (d, _) \<Rightarrow> d @ [0x2F] | None \<Rightarrow> rstr ''/'')
             in Ok (scheme_of parsed @ rstr ''://'' @ pu_authority parsed @ dir @ location)))"

section \<open>Responses\<close>

definition CRLF :: "byte list" where "CRLF = [0x0D, 0x0A]"

text \<open>\<open>split("\<close>CRLF\<open>")\<close>\<close>

function split_crlf :: "byte list \<Rightarrow> byte list list" where
  "split_crlf s =
    (case find_sub CRLF s of
       None \<Rightarrow> [s]
     | Some p \<Rightarrow> take p s # split_crlf (drop (p + 2) s))"
  by pat_completeness auto
termination split_crlf
  by (relation "measure length") (auto dest!: find_sub_bound simp: CRLF_def)

declare split_crlf.simps [simp del]

definition header_line :: "rstring \<Rightarrow> (rstring \<times> rstring) option" where
  "header_line line =
    (if line = [] then None else map_option (\<lambda>(k, v). (trim_text k, trim_text v)) (split_once 0x3A line))"

definition parse_head :: "byte list \<Rightarrow> (nat \<times> http_headers, idevice_error) res" where
  "parse_head head =
    (if \<not> utf8_valid head then Err (http_err ''non-UTF-8 HTTP header block'')
     else
       let lines = split_crlf head; ws = words_of (utf8_chars (hd lines)) []
       in rbind (ok_or (Http (rstr ''malformed HTTP status line: '' @ hd lines)) (if 1 < length ws then parse_unsigned 16 (ws ! 1) else None)) (\<lambda>status.
            Ok (status, List.map_filter header_line (tl lines))))"

definition chunk_err :: idevice_error where "chunk_err = http_err ''malformed chunked HTTP body''"

text \<open>
  A chunk size is a \<open>usize\<close>; \<open>size + 2\<close> wraps, so the two largest pass the length check and \<open>data[..size]\<close> panics.
\<close>

definition chunk_end :: "nat \<Rightarrow> nat" where
  "chunk_end n = unat (of_nat n + 2 :: u64)"

definition chunk_size :: "byte list \<Rightarrow> (nat, idevice_error) res" where
  "chunk_size size_line =
    (if \<not> utf8_valid size_line then Err chunk_err
     else ok_or chunk_err (parse_hex 64 (trim_text (hd (split_on 0x3B size_line)))))"

function decode_chunked :: "byte list \<Rightarrow> (byte list, idevice_error) res" where
  "decode_chunked data =
    (case find_sub CRLF data of
       None \<Rightarrow> Err chunk_err
     | Some line_end \<Rightarrow>
         rbind (chunk_size (take line_end data)) (\<lambda>n.
           let data = drop (line_end + 2) data
           in if n = 0 then Ok []
              else if length data < chunk_end n then Err chunk_err
              else
                rbind (index_range 0 n data) (\<lambda>piece.
                rbind (index_range n (chunk_end n) data) (\<lambda>e.
                  if e \<noteq> CRLF then Err chunk_err
                  else rmap (\<lambda>r. piece @ r) (decode_chunked (drop (chunk_end n) data))))))"
  by pat_completeness auto
termination decode_chunked
  by (relation "measure length") (auto dest!: find_sub_bound simp: CRLF_def)

declare decode_chunked.simps [simp del]

text \<open>\<open>read_more\<close> in the loops of \<open>read_response\<close>; the buffer is part of the state.\<close>

function head_loop :: "transport \<times> byte list \<Rightarrow> (nat, idevice_error) res \<times> transport \<times> byte list" where
  "head_loop (t, buf) =
    (case find_sub (CRLF @ CRLF) buf of
       Some pos \<Rightarrow> (Ok pos, (t, buf))
     | None \<Rightarrow>
         (case tp_read 16384 t of (tmp, u) \<Rightarrow>
            if tmp = [] then (Err (http_err ''connection closed before HTTP headers were complete''), (u, buf)) else head_loop (u, buf @ tmp)))"
  by pat_completeness auto
termination head_loop
  by (relation "measure (\<lambda>(t, b). length (tp_pending t))") (auto dest!: tp_read_pending [OF sym])

text \<open>Until the buffer holds \<open>n\<close> bytes, or (\<open>None\<close>) until the end.\<close>

function body_loop :: "nat option \<Rightarrow> transport \<times> byte list \<Rightarrow> transport \<times> byte list" where
  "body_loop n (t, buf) =
    (if (case n of Some k \<Rightarrow> length buf < k | None \<Rightarrow> True)
     then (case tp_read 16384 t of (tmp, u) \<Rightarrow>
             if tmp = [] then (u, buf) else body_loop n (u, buf @ tmp))
     else (t, buf))"
  by pat_completeness auto
termination body_loop
  by (relation "measure (\<lambda>(n, t, b). length (tp_pending t))") (auto dest!: tp_read_pending [OF sym])

declare head_loop.simps [simp del] body_loop.simps [simp del]

definition is_chunked :: "http_headers \<Rightarrow> bool" where
  "is_chunked hs \<longleftrightarrow>
    (case find_header ''transfer-encoding'' hs of
       Some v \<Rightarrow> str_contains (map ascii_lower v) (rstr ''chunked'') | None \<Rightarrow> False)"

definition content_length :: "http_headers \<Rightarrow> nat option" where
  "content_length hs = Option.bind (find_header ''content-length'' hs) (\<lambda>v. parse_unsigned 64 (trim_text v))"

text \<open>\<open>body_start + len\<close> is a \<open>usize\<close> sum.\<close>

definition body_end :: "nat \<Rightarrow> nat \<Rightarrow> nat" where
  "body_end body_start len = unat (of_nat body_start + of_nat len :: u64)"

definition read_body :: "http_headers \<Rightarrow> nat \<Rightarrow> transport \<times> byte list \<Rightarrow> (byte list, idevice_error) res \<times> transport" where
  "read_body hs body_start s =
    (if is_chunked hs then
       (case body_loop None s of (t, buf) \<Rightarrow> (rbind (index_range body_start (length buf) buf) decode_chunked, t))
     else case content_length hs of
       Some len \<Rightarrow>
         (case body_loop (Some (body_end body_start len)) s of (t, buf) \<Rightarrow>
            (index_range body_start (min (body_end body_start len) (length buf)) buf, t))
     | None \<Rightarrow> (case body_loop None s of (t, buf) \<Rightarrow> (index_range body_start (length buf) buf, t)))"

definition read_http_response :: "(transport, http_response) act" where
  "read_http_response t =
    (case head_loop (t, []) of
       (Ok head_end, (u, buf)) \<Rightarrow>
         (case parse_head (take head_end buf) of
            Ok (status, hs) \<Rightarrow>
              (case read_body hs (head_end + 4) (u, buf) of
                 (r, v) \<Rightarrow> (rmap (\<lambda>b. \<lparr>hr_status = status, hr_headers = hs, hr_body = b\<rparr>) r, v))
          | Err e \<Rightarrow> (Err e, u) | Panic \<Rightarrow> (Panic, u))
     | (Err e, (u, buf)) \<Rightarrow> (Err e, u)
     | (Panic, (u, buf)) \<Rightarrow> (Panic, u))"

section \<open>Sending\<close>

definition push_header :: "rstring \<Rightarrow> rstring \<Rightarrow> byte list" where
  "push_header name v = name @ rstr '': '' @ v @ CRLF"

definition request_bytes :: "http_method \<Rightarrow> parsed_url \<Rightarrow> http_headers \<Rightarrow> byte list \<Rightarrow> byte list" where
  "request_bytes m parsed hs body =
    method_str m @ rstr '' '' @ pu_path parsed @ rstr '' HTTP/1.1'' @ CRLF @
    push_header (rstr ''Host'') (pu_authority parsed) @ push_header (rstr ''Connection'') (rstr ''close'') @
    (if find_header ''content-length'' hs = None \<and> (body \<noteq> [] \<or> m = HttpPost)
     then push_header (rstr ''Content-Length'') (show_nat (length body)) else []) @
    concat (map (\<lambda>(k, v). push_header k v) hs) @ CRLF @ body"

record http_net =
  hn_coming :: "(transport, idevice_error) res list"
  hn_used :: "(parsed_url \<times> transport) list"

text \<open>\<open>TcpStream::connect\<close> and \<open>tls_connect\<close>\<close>

definition http_connect :: "(http_net, transport) act" where
  "http_connect s =
    (case hn_coming s of
       [] \<Rightarrow> (Err (Socket OtherIo), s)
     | c # cs \<Rightarrow> (c, s\<lparr>hn_coming := cs\<rparr>))"

definition send_once :: "http_method \<Rightarrow> rstring \<Rightarrow> http_headers \<Rightarrow> byte list \<Rightarrow> (http_net, http_response) act" where
  "send_once m url hs body =
    act_bind (act_res (parse_url url)) (\<lambda>parsed.
    act_bind http_connect (\<lambda>t s.
      case act_bind (tp_write_all (request_bytes m parsed hs body)) (\<lambda>_. act_bind tp_flush (\<lambda>_. read_http_response)) t of
        (r, u) \<Rightarrow> (r, s\<lparr>hn_used := hn_used s @ [(parsed, u)]\<rparr>)))"

definition MAX_REDIRECTS :: nat where "MAX_REDIRECTS = 10"

definition redirect_status :: "nat \<Rightarrow> bool" where
  "redirect_status n \<longleftrightarrow> n = 301 \<or> n = 302 \<or> n = 303 \<or> n = 307 \<or> n = 308"

definition body_header :: "rstring \<Rightarrow> bool" where
  "body_header k \<longleftrightarrow> eq_ignore_ascii_case k (rstr ''content-length'') \<or> eq_ignore_ascii_case k (rstr ''content-type'')"

text \<open>The request that follows a redirect: 307 and 308 keep the method and the body.\<close>

definition redirected :: "nat \<Rightarrow> http_request \<Rightarrow> http_request" where
  "redirected status q =
    (if status = 307 \<or> status = 308 then q
     else q\<lparr>hq_method := HttpGet, hq_body := [], hq_headers := filter (\<lambda>h. \<not> body_header (fst h)) (hq_headers q)\<rparr>)"

primrec send_loop :: "nat \<Rightarrow> http_request \<Rightarrow> (http_net, http_response) act" where
  "send_loop 0 q = act_err (http_err ''too many redirects (>10)'')"
| "send_loop (Suc n) q =
    act_bind (send_once (hq_method q) (hq_url q) (hq_headers q) (hq_body q)) (\<lambda>resp.
      if redirect_status (hr_status resp) then
        (case find_header ''location'' (hr_headers resp) of
           None \<Rightarrow> act_ok resp
         | Some location \<Rightarrow>
             act_bind (act_res (resolve_redirect (hq_url q) location)) (\<lambda>url.
             send_loop n (redirected (hr_status resp) (q\<lparr>hq_url := url\<rparr>))))
      else act_ok resp)"

definition http_send :: "http_request \<Rightarrow> (http_net, http_response) act" where
  "http_send q = send_loop (Suc MAX_REDIRECTS) q"

section \<open>The response is a function of the bytes that arrive\<close>

definition body_of :: "http_headers \<Rightarrow> nat \<Rightarrow> byte list \<Rightarrow> (byte list, idevice_error) res" where
  "body_of hs body_start rest =
    (if is_chunked hs then decode_chunked rest
     else case content_length hs of
       None \<Rightarrow> Ok rest
     | Some len \<Rightarrow> if body_start + len < 2 ^ 64 then Ok (take len rest) else Panic)"

definition http_of :: "byte list \<Rightarrow> (http_response, idevice_error) res" where
  "http_of bs =
    (case find_sub (CRLF @ CRLF) bs of
       None \<Rightarrow> Err (http_err ''connection closed before HTTP headers were complete'')
     | Some p \<Rightarrow>
         rbind (parse_head (take p bs)) (\<lambda>(status, hs).
         rmap (\<lambda>b. \<lparr>hr_status = status, hr_headers = hs, hr_body = b\<rparr>) (body_of hs (p + 4) (drop (p + 4) bs))))"

lemma arrives_read:
  assumes "arrives bs t" "0 < n" "tp_read n t = (x, u)"
  shows "x = [] \<and> bs = [] \<and> u = t \<or> x \<noteq> [] \<and> (\<exists>r. bs = x @ r \<and> arrives r u)"
proof (cases "bs = []")
  case True
  then have "tp_in t = []" using assms(1) by (cases "tp_in t") (auto simp: arrives_def tp_pending_def)
  then show ?thesis using assms(3) True by (simp add: tp_read_def)
next
  case False
  from tp_read_arrives [OF assms(1,2) False assms(3)] show ?thesis by blast
qed

lemma head_loop_spec:
  "arrives bs t \<Longrightarrow>
   (case find_sub (CRLF @ CRLF) (buf @ bs) of
      Some p \<Rightarrow> \<exists>u b r. head_loop (t, buf) = (Ok p, (u, b)) \<and> arrives r u \<and> b @ r = buf @ bs \<and> p + 4 \<le> length b
    | None \<Rightarrow> \<exists>s. head_loop (t, buf) = (Err (http_err ''connection closed before HTTP headers were complete''), s))"
proof (induction "(t, buf)" arbitrary: t buf bs rule: head_loop.induct)
  case (1 t buf)
  show ?case
  proof (cases "find_sub (CRLF @ CRLF) buf")
    case (Some p)
    have "p + 4 \<le> length buf" using find_sub_bound [OF Some] by (simp add: CRLF_def)
    with find_sub_append [OF Some, of bs] show ?thesis
      using 1(2) by (simp add: head_loop.simps [of t] Some)
  next
    case None
    obtain x u where r: "tp_read 16384 t = (x, u)" by fastforce
    from arrives_read [OF 1(2) _ r] consider
      "x = []" "bs = []" | q where "x \<noteq> []" "bs = x @ q" "arrives q u" by auto
    then show ?thesis
    proof cases
      case 1
      then show ?thesis by (auto simp: head_loop.simps [of t] None r)
    next
      case (2 q)
      then have e: "head_loop (t, buf) = head_loop (u, buf @ x)" by (simp add: head_loop.simps [of t] None r)
      from 1(1) [OF None r [symmetric] 2(1,3)] show ?thesis unfolding e 2(2) append_assoc .
    qed
  qed
qed

lemma body_loop_spec:
  "arrives bs t \<Longrightarrow> \<exists>u b r. body_loop n (t, buf) = (u, b) \<and> b @ r = buf @ bs \<and>
     (r = [] \<or> (\<exists>k. n = Some k \<and> k \<le> length b)) \<and> length buf \<le> length b"
proof (induction n "(t, buf)" arbitrary: t buf bs rule: body_loop.induct)
  case (1 n t buf)
  show ?case
  proof (cases "case n of Some k \<Rightarrow> length buf < k | None \<Rightarrow> True")
    case False
    then show ?thesis by (auto simp: body_loop.simps [of n t] split: option.splits)
  next
    case True
    obtain x u where r: "tp_read 16384 t = (x, u)" by fastforce
    from arrives_read [OF 1(2) _ r] consider
      "x = []" "bs = []" | q where "x \<noteq> []" "bs = x @ q" "arrives q u" by auto
    then show ?thesis
    proof cases
      case 1
      then show ?thesis using True by (simp add: body_loop.simps [of n t] r)
    next
      case (2 q)
      then have "body_loop n (t, buf) = body_loop n (u, buf @ x)"
        using True by (simp add: body_loop.simps [of n t] r)
      with 1(1) [OF True r [symmetric] 2(1,3)] 2(2) show ?thesis by simp (metis add_leD1)
    qed
  qed
qed

lemma content_length_bound: "content_length hs = Some n \<Longrightarrow> n < 2 ^ 64"
  by (auto simp: content_length_def parse_unsigned_def Let_def split: bind_splits if_splits option.splits)

lemma body_end_mod: "body_end i n = (i + n) mod 2 ^ 64"
  by (simp add: body_end_def unat_of_nat flip: of_nat_add)

lemma body_end_cases:
  "n < 2 ^ 64 \<Longrightarrow> if i + n < 2 ^ 64 then body_end i n = i + n else body_end i n < i"
  by (cases "i < 2 ^ 64") (auto simp: body_end_mod mod_if [of "i + n"] order.strict_trans2 [OF mod_less_divisor])

lemma read_body_spec:
  assumes "arrives bs t" "i \<le> length buf"
  shows "fst (read_body hs i (t, buf)) = body_of hs i (drop i (buf @ bs))"
proof -
  obtain u b r where l: "body_loop None (t, buf) = (u, b)" "b = buf @ bs"
    using body_loop_spec [OF assms(1), of None buf] by auto
  show ?thesis
  proof (cases "is_chunked hs \<or> content_length hs = None")
    case True
    then show ?thesis using assms(2) by (auto simp: read_body_def body_of_def l index_range_def)
  next
    case False
    then obtain n where n: "content_length hs = Some n" by auto
    obtain u b r where l: "body_loop (Some (body_end i n)) (t, buf) = (u, b)" "b @ r = buf @ bs"
      "r = [] \<or> body_end i n \<le> length b" "length buf \<le> length b"
      using body_loop_spec [OF assms(1), of "Some (body_end i n)" buf] by auto
    have d: "drop i (buf @ bs) = drop i b @ r"
      using l(2,4) assms(2) unfolding l(2) [symmetric] by simp
    from body_end_cases [OF content_length_bound [OF n], of i] l(3,4) assms(2) False show ?thesis
      unfolding d by (auto simp: read_body_def body_of_def n l(1) index_range_def min_def split: if_splits)
  qed
qed

lemma example_head:
  "parse_head (rstr ''HTTP/1.1 404 No'' @ CRLF @ rstr ''Content-Length: 3'') = Ok (404, [(rstr ''Content-Length'', rstr ''3'')])"
proof -
  let ?h = "rstr ''HTTP/1.1 404 No'' @ CRLF @ rstr ''Content-Length: 3''"
  have "utf8_valid ?h" "split_crlf ?h = [rstr ''HTTP/1.1 404 No'', rstr ''Content-Length: 3'']"
    "words_of (utf8_chars (rstr ''HTTP/1.1 404 No'')) [] = [rstr ''HTTP/1.1'', rstr ''404'', rstr ''No'']"
    "List.map_filter header_line [rstr ''Content-Length: 3''] = [(rstr ''Content-Length'', rstr ''3'')]"
    by code_simp+
  moreover have "parse_unsigned 16 (rstr ''404'') = Some 404"
    by (simp add: parse_unsigned_def is_digit_def)
  ultimately show ?thesis by (simp add: parse_head_def)
qed

lemma example_length: "content_length [(rstr ''Content-Length'', rstr ''3'')] = Some 3"
proof -
  have "find_header ''content-length'' [(rstr ''Content-Length'', rstr ''3'')] = Some (rstr ''3'')"
    "trim_text (rstr ''3'') = rstr ''3''" by code_simp+
  moreover have "parse_unsigned 64 (rstr ''3'') = Some 3"
    by (simp add: parse_unsigned_def is_digit_def)
  ultimately show ?thesis by (simp add: content_length_def)
qed

lemma example_body:
  "body_of [(rstr ''Content-Length'', rstr ''3'')] 38 (rstr ''a'') = Ok (rstr ''a'')"
proof -
  have "\<not> is_chunked [(rstr ''Content-Length'', rstr ''3'')]" "take 3 (rstr ''a'') = rstr ''a''" by code_simp+
  then show ?thesis by (simp only: body_of_def example_length if_False option.case) simp
qed

lemma example_response:
  "http_of (rstr ''HTTP/1.1 404 No'' @ CRLF @ rstr ''Content-Length: 3'' @ CRLF @ CRLF @ rstr ''a'') =
   Ok \<lparr>hr_status = 404, hr_headers = [(rstr ''Content-Length'', rstr ''3'')], hr_body = rstr ''a''\<rparr>"
proof -
  let ?bs = "rstr ''HTTP/1.1 404 No'' @ CRLF @ rstr ''Content-Length: 3'' @ CRLF @ CRLF @ rstr ''a''"
  have f: "find_sub (CRLF @ CRLF) ?bs = Some 34"
    "take 34 ?bs = rstr ''HTTP/1.1 404 No'' @ CRLF @ rstr ''Content-Length: 3''" "drop 38 ?bs = rstr ''a''"
    by code_simp+
  show ?thesis
    by (simp only: http_of_def f option.case example_head rbind.simps prod.case) (simp only: f example_body rmap.simps numeral_plus_numeral semiring_norm)
qed

text \<open>
  For any bytes and any way they arrive, the response read from the connection is \<open>http_of\<close> of the bytes: the head up to the
  first empty line, and the body by chunks, by length, or all that follows. A body shorter than its
  Content-Length is returned as complete, and a length that overflows \<open>usize\<close> panics.
\<close>

theorem http_response_of_bytes:
  "arrives bs t \<Longrightarrow> fst (read_http_response t) = http_of bs"
proof -
  assume a: "arrives bs t"
  show ?thesis
  proof (cases "find_sub (CRLF @ CRLF) bs")
    case None
    with head_loop_spec [OF a, of "[]"] show ?thesis by (auto simp: read_http_response_def http_of_def)
  next
    case (Some p)
    with head_loop_spec [OF a, of "[]"] obtain u b r where
      l: "head_loop (t, []) = (Ok p, (u, b))" "arrives r u" "b @ r = bs" "p + 4 \<le> length b" by auto
    have p: "take p b = take p bs" using l(3,4) by auto
    have b: "\<And>hs. fst (read_body hs (p + 4) (u, b)) = body_of hs (p + 4) (drop (p + 4) bs)"
      using read_body_spec [OF l(2,4)] l(3) by simp
    show ?thesis
      by (auto simp: read_http_response_def http_of_def Some l(1) p simp flip: b
          split: res.split prod.split)
  qed
qed

lemma http_response_of_bytes_witness:
  "fst (read_http_response \<lparr>tp_in = [rstr ''HTTP/1.1 404 No'' @ [0x0D], [0x0A] @ rstr ''Content-Length: 3'' @ CRLF @ CRLF @ rstr ''a''],
      tp_out = [], tp_budget = None\<rparr>) =
   Ok \<lparr>hr_status = 404, hr_headers = [(rstr ''Content-Length'', rstr ''3'')], hr_body = rstr ''a''\<rparr>"
proof (subst http_response_of_bytes)
  show "arrives (rstr ''HTTP/1.1 404 No'' @ CRLF @ rstr ''Content-Length: 3'' @ CRLF @ CRLF @ rstr ''a'')
     \<lparr>tp_in = [rstr ''HTTP/1.1 404 No'' @ [0x0D], [0x0A] @ rstr ''Content-Length: 3'' @ CRLF @ CRLF @ rstr ''a''],
      tp_out = [], tp_budget = None\<rparr>"
    by (simp add: arrives_def tp_pending_def CRLF_def)
qed (rule example_response)

text \<open>
  Bodies cut into chunks of any sizes decode to their concatenation, whatever follows the last chunk; the two largest
  chunk sizes a \<open>usize\<close> holds panic.
\<close>

lemma find_crlf: "0x0D \<notin> set line \<Longrightarrow> find_sub CRLF (line @ CRLF @ rest) = Some (length line)"
  by (induction line) (auto simp: CRLF_def)

lemma chunk_end_mod: "chunk_end n = (n + 2) mod 2 ^ 64"
proof -
  have "of_nat n + 2 = (of_nat (n + 2) :: u64)" by simp
  then show ?thesis unfolding chunk_end_def by (simp only: unat_of_nat) simp
qed

lemma chunk_end_eq: "n < 2 ^ 64 - 2 \<Longrightarrow> chunk_end n = n + 2"
  by (simp add: chunk_end_mod)

lemma decode_chunk:
  assumes "0x0D \<notin> set line" "chunk_size line = Ok (length c)" "c \<noteq> []" "length c < 2 ^ 64 - 2"
  shows "decode_chunked (line @ CRLF @ c @ CRLF @ rest) = rmap (\<lambda>r. c @ r) (decode_chunked rest)"
proof -
  have l: "length CRLF = 2" by (simp add: CRLF_def)
  show ?thesis
    using assms(2-)
    by (subst decode_chunked.simps) (simp add: find_crlf [OF assms(1)] chunk_end_eq l index_range_def)
qed

lemma http_chunked_concat:
  "list_all (\<lambda>(line, c). 0x0D \<notin> set line \<and> chunk_size line = Ok (length c) \<and> c \<noteq> [] \<and> length c < 2 ^ 64 - 2) cs \<Longrightarrow>
   0x0D \<notin> set final \<Longrightarrow> chunk_size final = Ok 0 \<Longrightarrow>
   decode_chunked (concat (map (\<lambda>(line, c). line @ CRLF @ c @ CRLF) cs) @ final @ CRLF @ trailers) = Ok (concat (map snd cs))"
proof (induction cs)
  case Nil
  then show ?case by (subst decode_chunked.simps) (simp add: find_crlf)
next
  case (Cons x cs)
  obtain line c where x: "x = (line, c)" by fastforce
  from Cons.prems(1) Cons.IH [OF _ Cons.prems(2,3)] show ?case
    by (simp add: x decode_chunk)
qed

lemma http_chunk_wraps:
  assumes "0x0D \<notin> set line" "chunk_size line = Ok n" "2 ^ 64 - 2 \<le> n" "n < 2 ^ 64" "rest \<noteq> []" "length rest < 2 ^ 63"
  shows "decode_chunked (line @ CRLF @ rest) = Panic"
proof -
  obtain k where k: "n + 2 = k + 2 ^ 64" "k < 2"
    using assms(3,4) by (intro that [of "n + 2 - 2 ^ 64"]) simp_all
  have "chunk_end n < 2" unfolding chunk_end_mod k(1) using k(2) by simp
  then have "\<not> length rest < chunk_end n" using assms(5) by (cases rest) auto
  moreover have "index_range 0 n rest = (Panic :: (byte list, idevice_error) res)"
    using assms(3,6) by (simp add: index_range_def)
  moreover have "length CRLF = 2" "n \<noteq> 0" using assms(3) by (simp_all add: CRLF_def)
  ultimately show ?thesis
    by (subst decode_chunked.simps) (simp add: find_crlf [OF assms(1)] assms(2))
qed

end
