(* ===== verification/Xpc_Client.thy ===== *)
theory Xpc_Client
  imports Http2_Client Xpc_Format
begin

text \<open>
  xpc/mod.rs: the RemoteXPC client, XPC messages over HTTP/2 streams. The bytes received on a channel
  are kept until they hold a whole message; files travel on streams of their own. The IndexMap of
  a dictionary (\<open>ins\<close>) is a parameter.
\<close>

section \<open>What reading leaves to read\<close>

text \<open>
  Everything that is still to come for some streams: the input no frame was cut from, and what their caches hold.
\<close>

definition chunk_load :: "byte list list \<Rightarrow> nat" where
  "chunk_load q = sum_list (map (\<lambda>c. Suc (length c)) q)"

definition h_load :: "u32 list \<Rightarrow> http2_client \<Rightarrow> nat" where
  "h_load sids s = length (h_input s) + sum_list (map (\<lambda>sid. chunk_load (cached s sid)) sids)"

lemma chunk_load_simps [simp]:
  "chunk_load [] = 0" "chunk_load (c # q) = Suc (length c) + chunk_load q" "chunk_load (p @ q) = chunk_load p + chunk_load q"
  by (simp_all add: chunk_load_def)

lemma frame_payload_sub:
  assumes "frame_parse w = Ok (Some (f, k))"
  shows "\<exists>n. k = 9 + n \<and> k \<le> length w \<and> (f \<in> range FData \<longrightarrow> f = FData \<lparr>df_stream_id = from_be_bytes (sub 5 4 w),
    df_payload = sub 9 n w, df_end_stream = w ! 4 AND 0x01 \<noteq> 0\<rparr>)"
proof -
  define n where "n = unat (from_be_bytes (0 # sub 0 3 w) :: u32)"
  have l: "k = 9 + n" "k \<le> length w"
    using assms by (auto simp: frame_parse_def FRAME_HEADER_LEN_def n_def Let_def split: if_splits)
  have "f \<in> range FData \<Longrightarrow> f = FData \<lparr>df_stream_id = from_be_bytes (sub 5 4 w), df_payload = sub 9 n w,
      df_end_stream = w ! 4 AND 0x01 \<noteq> 0\<rparr>"
    using assms l unfolding frame_parse_def FRAME_HEADER_LEN_def Let_def n_def [symmetric]
    by (auto split: if_split_asm res.splits)
  with l show ?thesis by blast
qed

lemma frame_payload_short:
  assumes "frame_parse w = Ok (Some (FData d, length w))"
  shows "9 + length (df_payload d) \<le> length w"
  using frame_payload_sub [OF assms] by (auto simp: sub_def)

lemma chunk_load_payloads:
  assumes "distinct sids" "frame_parse w = Ok (Some (f, length w))"
  shows "sum_list (map (\<lambda>sid. chunk_load (frame_payload sid f)) sids) < length w"
proof (cases f)
  case (FData d)
  have "sum_list (map (\<lambda>sid. chunk_load (frame_payload sid f)) sids) \<le> Suc (length (df_payload d))"
    using assms(1)
    by (induction sids) (auto simp: FData frame_payload_def intro!: sum_list_0)
  with frame_payload_short [OF assms(2) [unfolded FData]] show ?thesis by simp
qed (use frame_parse_Some [OF assms(2)] in \<open>auto simp: frame_payload_def\<close>)

lemma cached_next_frame: "next_frame s = (r, t) \<Longrightarrow> cached t sid = cached s sid"
proof -
  assume "next_frame s = (r, t)"
  from next_frame_input [OF this] obtain i b where "t = s\<lparr>h_inner := i, h_recv_buf := b\<rparr>" by blast
  then show ?thesis by (simp add: cached_def split: option.split)
qed

lemma pump_load:
  assumes "pump s = (Ok (), s')" "distinct sids"
  shows "h_load sids s' < h_load sids s"
proof -
  from assms(1) obtain f t where n: "next_frame s = (Ok f, t)" and h: "handle_frame f t = (Ok (), s')"
    by (auto simp: pump_def act_bind_Ok)
  from next_frame_input [OF n] obtain w where
    w: "h_input s = w @ h_input t" "frame_parse w = Ok (Some (f, length w))" by auto
  have t: "h_input s' = h_input t" "\<And>sid. cached s' sid = cached t sid @ frame_payload sid f"
    using handle_frame_tracks [of f t] h by (simp_all add: tracks_def)
  show ?thesis
    using chunk_load_payloads [OF assms(2) w(2)] w(1)
    by (simp add: h_load_def t cached_next_frame [OF n] sum_list_addf)
qed

lemma pop_front_load:
  "pop_front sid s = Some (d, t) \<Longrightarrow>
     h_input t = h_input s \<and> chunk_load (cached t sid) + Suc (length d) = chunk_load (cached s sid) \<and>
     (\<forall>x. x \<noteq> sid \<longrightarrow> cached t x = cached s x)"
  by (auto simp: pop_front_def cached_def h_input_def split: option.splits list.splits)

lemma pop_any_load:
  assumes "pop_any sids s = Some ((sid, d), t)" "distinct sids"
  shows "sid \<in> set sids \<and> h_load sids t + Suc (length d) = h_load sids s"
  using assms
proof (induction sids)
  case (Cons x xs)
  show ?case
  proof (cases "pop_front x s")
    case None
    then have "cached s x = []" by (auto simp: pop_front_def cached_def split: option.splits list.splits)
    moreover from None Cons have p: "pop_any xs s = Some ((sid, d), t)" by simp
    moreover have "cached t x = cached s x"
    proof -
      have "sid \<noteq> x" using Cons p by auto
      moreover have "pop_any ys s = Some ((sid, d), t) \<Longrightarrow> pop_front sid s = Some (d, t)" for ys
        by (induction ys) (auto split: option.splits)
      ultimately show ?thesis using pop_front_load p by metis
    qed
    ultimately show ?thesis using Cons by (auto simp: h_load_def)
  next
    case (Some q)
    with Cons have p: "pop_front x s = Some (d, t)" "sid = x" by (cases q, simp)+
    have "(\<Sum>y\<leftarrow>xs. chunk_load (cached t y)) = (\<Sum>y\<leftarrow>xs. chunk_load (cached s y))"
    proof (intro arg_cong [where f = sum_list] map_cong refl)
      fix y assume "y \<in> set xs"
      with Cons.prems(2) have "y \<noteq> x" by auto
      with pop_front_load [OF p(1)] show "chunk_load (cached t y) = chunk_load (cached s y)" by simp
    qed
    with pop_front_load [OF p(1)] p(2) show ?thesis by (simp add: h_load_def)
  qed
qed simp

lemma read_any_loop_load:
  "read_any_loop sids s = (Ok (sid, d), t) \<Longrightarrow> distinct sids \<Longrightarrow> sid \<in> set sids \<and> h_load sids t + Suc (length d) \<le> h_load sids s"
proof (induction sids s arbitrary: t rule: read_any_loop.induct)
  case (1 sids s)
  show ?case
  proof (cases "pop_any sids s")
    case (Some p)
    then obtain x e u where p: "p = ((x, e), u)" by (metis prod.exhaust)
    from 1(2) Some p pop_any_load [of sids s x e u] 1(3) show ?thesis
      by (simp add: read_any_loop.simps [of sids s])
  next
    case None
    obtain r u where q: "pump s = (r, u)" by fastforce
    with 1(2) None have r: "r = Ok ()" "read_any_loop sids u = (Ok (sid, d), t)"
      by (auto simp: read_any_loop.simps [of sids s] split: res.splits)
    from 1(1) [OF None q [symmetric] r(1) r(2) 1(3)] pump_load [OF q [unfolded r(1)] 1(3)] show ?thesis by simp
  qed
qed

lemma cached_or_default [simp]: "cached (or_default sid s) x = cached s x" "h_input (or_default sid s) = h_input s"
  by (auto simp: or_default_def cached_def h_input_def split: option.split)

lemma fold_or_default [simp]: "cached (fold or_default sids s) x = cached s x" "h_input (fold or_default sids s) = h_input s"
  by (induction sids arbitrary: s) simp_all

lemma read_any_load:
  "read_any sids s = (Ok (sid, d), t) \<Longrightarrow> distinct sids \<Longrightarrow> sid \<in> set sids \<and> h_load sids t + Suc (length d) \<le> h_load sids s"
  using read_any_loop_load [of sids "fold or_default sids s" sid d t] by (simp add: read_any_def act_bind_def h_load_def)

lemma read_stream_load: "read_stream sid s = (Ok d, t) \<Longrightarrow> h_load [sid] t + Suc (length d) \<le> h_load [sid] s"
  using read_any_loop_load [of "[sid]" "or_default sid s" sid d t]
  by (auto simp: read_stream_def act_bind_Ok h_load_def) (use read_any_loop_load in \<open>fastforce simp: h_load_def\<close>)

section \<open>The client\<close>

definition ROOT_CHANNEL :: u32 where "ROOT_CHANNEL = 1"
definition REPLY_CHANNEL :: u32 where "REPLY_CHANNEL = 3"
definition FIRST_OUTBOUND_FILE_STREAM :: u32 where "FIRST_OUTBOUND_FILE_STREAM = 5"
definition XPC_WRAPPER_LEN :: u64 where "XPC_WRAPPER_LEN = 24"

type_synonym dict_insert = "rstring \<Rightarrow> xpc_object \<Rightarrow> xpc_dict \<Rightarrow> xpc_dict"

record xpc_client =
  xc_h2 :: http2_client
  xc_root_id :: u64
  xc_partial :: "u32 \<rightharpoonup> byte list"
  xc_next_file :: u32

definition xpc_client_new :: "transport \<Rightarrow> (xpc_client, idevice_error) res" where
  "xpc_client_new socket =
    rmap (\<lambda>h. \<lparr>xc_h2 = h, xc_root_id = 1, xc_partial = Map.empty, xc_next_file = FIRST_OUTBOUND_FILE_STREAM\<rparr>) (http2_new socket)"

text \<open>\<open>self.h2_client.f().await\<close>\<close>

definition on_h2 :: "(http2_client, 'a) act \<Rightarrow> (xpc_client, 'a) act" where
  "on_h2 m s = (case m (xc_h2 s) of (r, h) \<Rightarrow> (r, s\<lparr>xc_h2 := h\<rparr>))"

definition send_on :: "u32 \<Rightarrow> xpc_message \<Rightarrow> (xpc_client, unit) act" where
  "send_on channel msg s =
    act_bind (act_res (message_encode msg (xc_root_id s))) (\<lambda>b. on_h2 (send b channel)) s"

definition send_root :: "xpc_message \<Rightarrow> (xpc_client, unit) act" where
  "send_root = send_on ROOT_CHANNEL"

definition send_reply :: "xpc_message \<Rightarrow> (xpc_client, unit) act" where
  "send_reply = send_on REPLY_CHANNEL"

definition do_handshake :: "(xpc_client, unit) act" where
  "do_handshake =
    act_bind (on_h2 (set_settings [MaxConcurrentStreams 100, InitialWindowSize 1048576] 0)) (\<lambda>_.
    act_bind (on_h2 (window_update 983041 0)) (\<lambda>_.
    act_bind (on_h2 (open_stream 1)) (\<lambda>_.
    act_bind (send_root (message_new (Some AlwaysSet) (Some (XDictionary [])) None)) (\<lambda>_.
    act_bind (on_h2 (open_stream REPLY_CHANNEL)) (\<lambda>_.
    act_bind (send_reply (message_new (Some (flag_or InitHandshake AlwaysSet)) None None)) (\<lambda>_.
    send_root (message_new (Some (Custom 0x201)) None None)))))))"

definition send_object :: "xpc_object \<Rightarrow> bool \<Rightarrow> (xpc_client, unit) act" where
  "send_object msg expect_reply s =
    (let flag = flag_or DataFlag AlwaysSet; flag = (if expect_reply then flag_or flag WantingReply else flag)
     in send_root (message_new (Some flag) (Some msg) (Some (xc_root_id s))) s)"

definition REMOTE_XPC_VERSION_FLAGS :: u64 where "REMOTE_XPC_VERSION_FLAGS = 0x0100000000000006"

text \<open>The literal of the \<open>xpc!\<close> macro: its keys are inserted in order.\<close>

definition xpc_literal :: "dict_insert \<Rightarrow> (string \<times> xpc_object) list \<Rightarrow> xpc_object" where
  "xpc_literal ins kvs = XDictionary (fold (\<lambda>(k, v). ins (rstr k) v) kvs [])"

definition send_device_handshake :: "dict_insert \<Rightarrow> byte list \<Rightarrow> (xpc_client, unit) act" where
  "send_device_handshake ins uuid =
    send_object (xpc_literal ins
      [(''MessageType'', XString (rstr ''Handshake'')), (''MessagingProtocolVersion'', XUInt64 7), (''UUID'', XUuid uuid),
       (''Properties'', xpc_literal ins [(''RemoteXPCVersionFlags'', XUInt64 REMOTE_XPC_VERSION_FLAGS),
                                          (''SensitivePropertiesVisible'', XBool True)]),
       (''Services'', XDictionary [])]) False"

section \<open>Receiving\<close>

definition partial_of :: "u32 \<Rightarrow> xpc_client \<Rightarrow> byte list" where
  "partial_of ch s = (case xc_partial s ch of None \<Rightarrow> [] | Some b \<Rightarrow> b)"

definition set_partial :: "u32 \<Rightarrow> byte list \<Rightarrow> xpc_client \<Rightarrow> xpc_client" where
  "set_partial ch b s = s\<lparr>xc_partial := (xc_partial s)(ch \<mapsto> b)\<rparr>"

definition xpc_body_len :: "byte list \<Rightarrow> u64" where
  "xpc_body_len buf = from_le_bytes (sub 8 8 buf)"

text \<open>\<open>Err(CdTunnel(SizeMismatch)) | Err(NotEnoughBytes(..))\<close>\<close>

definition not_yet :: "idevice_error \<Rightarrow> bool" where
  "not_yet e \<longleftrightarrow> (case e of NotEnoughBytes _ _ \<Rightarrow> True | CdTunnel SizeMismatch \<Rightarrow> True | _ \<Rightarrow> False)"

text \<open>What \<open>take_buffered\<close> makes of a buffer: a message and the bytes behind it.\<close>

definition take_message :: "dict_insert \<Rightarrow> byte list \<Rightarrow> ((xpc_message \<times> byte list) option, idevice_error) res" where
  "take_message ins buf =
    (case message_decode ins buf of
       Ok msg \<Rightarrow> Ok (Some (msg, drop (min (unat (XPC_WRAPPER_LEN + xpc_body_len buf)) (length buf)) buf))
     | Err e \<Rightarrow> if not_yet e then Ok None else Err e
     | Panic \<Rightarrow> Panic)"

definition take_buffered :: "dict_insert \<Rightarrow> u32 \<Rightarrow> (xpc_client, xpc_message option) act" where
  "take_buffered ins ch s =
    (case take_message ins (partial_of ch s) of
       Ok (Some (msg, rest)) \<Rightarrow> (Ok (Some msg), set_partial ch rest s)
     | Ok None \<Rightarrow> (Ok None, set_partial ch (partial_of ch s) s)
     | Err e \<Rightarrow> (Err e, set_partial ch (partial_of ch s) s)
     | Panic \<Rightarrow> (Panic, set_partial ch (partial_of ch s) s))"

text \<open>A message is passed over when it has no body or an empty dictionary.\<close>

definition payload_of :: "xpc_message \<Rightarrow> xpc_object option" where
  "payload_of msg =
    (case msg_body msg of
       Some inner \<Rightarrow> (if as_dictionary inner = Some [] then None else Some inner)
     | None \<Rightarrow> None)"

text \<open>\<open>self.partial.entry(channel).or_default().extend(chunk)\<close>\<close>

definition extend_partial :: "u32 \<Rightarrow> byte list \<Rightarrow> xpc_client \<Rightarrow> xpc_client" where
  "extend_partial ch chunk s = set_partial ch (partial_of ch s @ chunk) s"

definition fill_channel :: "u32 \<Rightarrow> (xpc_client, unit) act" where
  "fill_channel ch = act_bind (on_h2 (read_stream ch)) (\<lambda>chunk. act_upd (extend_partial ch chunk))"

definition fill_any :: "u32 list \<Rightarrow> (xpc_client, unit) act" where
  "fill_any chs = act_bind (on_h2 (read_any chs)) (\<lambda>(ch, chunk). act_upd (extend_partial ch chunk))"

text \<open>All a client has received or will receive on some channels; a message and a read both use it up.\<close>

definition xc_load :: "u32 list \<Rightarrow> xpc_client \<Rightarrow> nat" where
  "xc_load chs s = h_load chs (xc_h2 s) + sum_list (map (\<lambda>ch. length (partial_of ch s)) chs)"

lemma partial_simps [simp]:
  "partial_of x (set_partial ch b s) = (if x = ch then b else partial_of x s)"
  "xc_h2 (set_partial ch b s) = xc_h2 s" "xc_h2 (extend_partial ch b s) = xc_h2 s"
  "partial_of x (s\<lparr>xc_h2 := h\<rparr>) = partial_of x s"
  by (simp_all add: partial_of_def set_partial_def extend_partial_def)

lemma sum_partial:
  "distinct chs \<Longrightarrow> ch \<in> set chs \<Longrightarrow>
     sum_list (map (\<lambda>x. length (partial_of x (set_partial ch b s))) chs) + length (partial_of ch s) =
     sum_list (map (\<lambda>x. length (partial_of x s)) chs) + length b"
proof (induction chs)
  case (Cons c cs)
  show ?case
  proof (cases "c = ch")
    case True
    with Cons.prems have "ch \<notin> set cs" by simp
    then have "map (\<lambda>x. length (partial_of x (set_partial ch b s))) cs = map (\<lambda>x. length (partial_of x s)) cs" by auto
    with True show ?thesis by (simp only: list.map sum_list.Cons partial_simps) simp
  qed (use Cons in simp)
qed simp

lemma take_message_shorter:
  assumes "take_message ins buf = Ok (Some (msg, rest))"
  shows "length rest + 24 \<le> length buf"
proof -
  from assms have d: "message_decode ins buf = Ok msg"
    and r: "rest = drop (min (unat (XPC_WRAPPER_LEN + xpc_body_len buf)) (length buf)) buf"
    by (auto simp: take_message_def split: res.splits if_splits)
  have l: "24 \<le> length buf" using d by (auto simp: message_decode_def split: if_splits)
  have "24 \<le> unat (24 + wire_body_len buf)"
  proof (cases "wire_body_len buf = 0")
    case False
    then have "0 < wire_body_len buf" by (simp add: word_neq_0_conv)
    with d l show ?thesis
      by (auto simp: message_decode_def Let_def index_range_def rbind_eq_Ok split: if_splits)
  qed simp
  then have k: "24 \<le> unat (XPC_WRAPPER_LEN + xpc_body_len buf)"
    by (simp add: XPC_WRAPPER_LEN_def xpc_body_len_def wire_body_len_def)
  show ?thesis unfolding r using k l by simp
qed

lemma take_buffered_load:
  assumes "take_buffered ins ch s = (Ok (Some msg), t)" "distinct chs" "ch \<in> set chs"
  shows "xc_load chs t < xc_load chs s"
proof -
  from assms(1) obtain rest where r: "take_message ins (partial_of ch s) = Ok (Some (msg, rest))" "t = set_partial ch rest s"
    by (auto simp: take_buffered_def split: res.splits option.splits)
  from take_message_shorter [OF r(1)] sum_partial [OF assms(2,3), of rest s] show ?thesis
    by (simp add: xc_load_def r(2))
qed

lemma take_buffered_none:
  "take_buffered ins ch s = (Ok None, t) \<Longrightarrow> t = set_partial ch (partial_of ch s) s"
  by (auto simp: take_buffered_def split: res.splits option.splits)

lemma xc_load_same: "distinct chs \<Longrightarrow> ch \<in> set chs \<Longrightarrow> xc_load chs (set_partial ch (partial_of ch s) s) = xc_load chs s"
  using sum_partial [of chs ch "partial_of ch s" s] by (simp add: xc_load_def)

lemma fill_any_load:
  assumes "fill_any chs s = (Ok (), t)" "distinct chs"
  shows "xc_load chs t < xc_load chs s"
proof -
  from assms(1) obtain ch c h where f: "read_any chs (xc_h2 s) = (Ok (ch, c), h)" "t = extend_partial ch c (s\<lparr>xc_h2 := h\<rparr>)"
    by (auto simp: fill_any_def act_bind_Ok on_h2_def split: prod.splits)
  from read_any_load [OF f(1) assms(2)] sum_partial [OF assms(2), of ch "partial_of ch s @ c" "s\<lparr>xc_h2 := h\<rparr>"] show ?thesis
    by (simp add: xc_load_def f(2) extend_partial_def)
qed

lemma fill_channel_load:
  assumes "fill_channel ch s = (Ok (), t)"
  shows "xc_load [ch] t < xc_load [ch] s"
proof -
  from assms obtain c h where f: "read_stream ch (xc_h2 s) = (Ok c, h)" "t = extend_partial ch c (s\<lparr>xc_h2 := h\<rparr>)"
    by (auto simp: fill_channel_def act_bind_Ok on_h2_def split: prod.splits)
  from read_stream_load [OF f(1)] show ?thesis by (simp add: xc_load_def f(2) extend_partial_def)
qed

function recv_from_channel :: "dict_insert \<Rightarrow> u32 \<Rightarrow> (xpc_client, xpc_object) act" where
  "recv_from_channel ins ch s =
    (case take_buffered ins ch s of
       (Ok (Some msg), t) \<Rightarrow>
         (case payload_of msg of Some inner \<Rightarrow> (Ok inner, t) | None \<Rightarrow> recv_from_channel ins ch t)
     | (Ok None, t) \<Rightarrow>
         (case fill_channel ch t of
            (Ok _, u) \<Rightarrow> recv_from_channel ins ch u
          | (Err e, u) \<Rightarrow> (Err e, u)
          | (Panic, u) \<Rightarrow> (Panic, u))
     | (Err e, t) \<Rightarrow> (Err e, t)
     | (Panic, t) \<Rightarrow> (Panic, t))"
  by pat_completeness auto
termination recv_from_channel
proof (relation "measure (\<lambda>(ins, ch, s). xc_load [ch] s)", goal_cases)
  case (3 ins ch s)
  then show ?case by (auto dest!: take_buffered_load [of ins ch s _ _ "[ch]", OF sym])
next
  case (2 ins ch s p t msg q u n)
  then have "take_buffered ins ch s = (Ok None, t)" "fill_channel ch t = (Ok (), u)" by auto
  then have "xc_load [ch] u < xc_load [ch] t" "xc_load [ch] t = xc_load [ch] s"
    using fill_channel_load take_buffered_none xc_load_same [of "[ch]" ch s] by fastforce+
  then show ?case by simp
qed simp

declare recv_from_channel.simps [simp del]

text \<open>\<open>to_plist\<close> of what a receiver returns; the format of a UUID and the plist dictionary are its parameters.\<close>

definition recv :: "dict_insert \<Rightarrow> (xpc_object \<Rightarrow> plist_value) \<Rightarrow> (xpc_client, plist_value) act" where
  "recv ins to_pl = act_bind (recv_from_channel ins REPLY_CHANNEL) (\<lambda>inner. act_ok (to_pl inner))"

definition recv_root :: "dict_insert \<Rightarrow> (xpc_object \<Rightarrow> plist_value) \<Rightarrow> (xpc_client, plist_value) act" where
  "recv_root ins to_pl = act_bind (recv_from_channel ins ROOT_CHANNEL) (\<lambda>inner. act_ok (to_pl inner))"

text \<open>One message of each channel in turn; a message that is passed over is dropped before the next channel is asked.\<close>

primrec take_any :: "dict_insert \<Rightarrow> u32 list \<Rightarrow> (xpc_client, xpc_object option) act" where
  "take_any ins [] = act_ok None"
| "take_any ins (ch # chs) =
    act_bind (take_buffered ins ch) (\<lambda>msg.
      case Option.bind msg payload_of of
        Some inner \<Rightarrow> act_ok (Some inner)
      | None \<Rightarrow> take_any ins chs)"

definition RECV_CHANNELS :: "u32 list" where "RECV_CHANNELS = [ROOT_CHANNEL, REPLY_CHANNEL]"

lemma take_any_load: "take_any ins cs s = (r, t) \<Longrightarrow> distinct chs \<Longrightarrow> set cs \<subseteq> set chs \<Longrightarrow> xc_load chs t \<le> xc_load chs s"
proof (induction cs arbitrary: s)
  case (Cons c cs)
  obtain q u where b: "take_buffered ins c s = (q, u)" by fastforce
  have u: "xc_load chs u \<le> xc_load chs s"
  proof (cases "\<exists>msg. q = Ok (Some msg)")
    case True
    with b take_buffered_load [of ins c s _ u chs] Cons.prems show ?thesis by auto
  next
    case False
    with b have "u = set_partial c (partial_of c s) s"
      by (auto simp: take_buffered_def split: res.splits option.splits)
    with xc_load_same [of chs c s] Cons.prems show ?thesis by simp
  qed
  with Cons.IH [of u] Cons.prems b show ?case
    by (auto simp: act_bind_def split: res.splits option.splits)
qed simp

function recv_any_object :: "dict_insert \<Rightarrow> (xpc_client, xpc_object) act" where
  "recv_any_object ins s =
    (case take_any ins RECV_CHANNELS s of
       (Ok (Some inner), t) \<Rightarrow> (Ok inner, t)
     | (Ok None, t) \<Rightarrow>
         (case fill_any RECV_CHANNELS t of
            (Ok _, u) \<Rightarrow> recv_any_object ins u
          | (Err e, u) \<Rightarrow> (Err e, u)
          | (Panic, u) \<Rightarrow> (Panic, u))
     | (Err e, t) \<Rightarrow> (Err e, t)
     | (Panic, t) \<Rightarrow> (Panic, t))"
  by pat_completeness auto
termination recv_any_object
proof (relation "measure (\<lambda>(ins, s). xc_load RECV_CHANNELS s)", goal_cases)
  case (2 ins s p r t)
  have d: "distinct RECV_CHANNELS" by (simp add: RECV_CHANNELS_def ROOT_CHANNEL_def REPLY_CHANNEL_def)
  from 2 d show ?case by (auto dest!: take_any_load [OF sym] fill_any_load [OF sym])
qed simp

declare recv_any_object.simps [simp del]

definition recv_any :: "dict_insert \<Rightarrow> (xpc_object \<Rightarrow> plist_value) \<Rightarrow> (xpc_client, plist_value) act" where
  "recv_any ins to_pl = act_bind (recv_any_object ins) (\<lambda>inner. act_ok (to_pl inner))"

section \<open>Files\<close>

text \<open>
  \<open>24 + body_len\<close> wraps: a wrapper that declares nearly \<open>2 ^ 64\<close> bytes counts as stripped although it stays in front of the
  data.
\<close>

definition strip_xpc_wrapper_prefix :: "byte list \<Rightarrow> (byte list \<times> bool, idevice_error) res" where
  "strip_xpc_wrapper_prefix buf =
    (if length buf < 24 then Ok (buf, False)
     else if (from_le_bytes (sub 0 4 buf) :: u32) \<noteq> 0x29b00b92 then Ok (buf, False)
     else
       let wrapper_len = unat (24 + xpc_body_len buf)
       in if length buf < wrapper_len then Ok (buf, False)
          else rmap (\<lambda>after. (after, True)) (index_range wrapper_len (length buf) buf))"

definition open_file_stream_for_response :: "u32 \<Rightarrow> (xpc_client, unit) act" where
  "open_file_stream_for_response stream_id =
    act_bind (on_h2 (open_stream stream_id)) (\<lambda>_.
    act_bind (act_res (message_encode (message_new (Some (flag_or AlwaysSet FileTxStreamResponse)) None (Some 0)) 0)) (\<lambda>bytes.
    on_h2 (send bytes stream_id)))"

text \<open>The items the stream yields, and how it ends.\<close>

function file_loop :: "u32 \<Rightarrow> nat \<Rightarrow> nat \<Rightarrow> http2_client \<Rightarrow> byte list list \<times> (unit, idevice_error) res \<times> http2_client" where
  "file_loop stream_id total_size got h =
    (if \<not> got < total_size then ([], Ok (), h)
     else case read_stream stream_id h of
       (Ok bytes, u) \<Rightarrow>
         (case strip_xpc_wrapper_prefix bytes of
            Ok (data, stripped) \<Rightarrow>
              if data = [] then file_loop stream_id total_size got u
              else (case file_loop stream_id total_size (got + length data) u of
                      (items, r, v) \<Rightarrow> (data # items, r, v))
          | Err e \<Rightarrow> ([], Err e, u)
          | Panic \<Rightarrow> ([], Panic, u))
     | (Err e, u) \<Rightarrow> ([], Err e, u)
     | (Panic, u) \<Rightarrow> ([], Panic, u))"
  by pat_completeness auto
termination file_loop
  by (relation "measure (\<lambda>(sid, n, got, h). h_load [sid] h)") (auto dest!: read_stream_load [OF sym])

declare file_loop.simps [simp del]

definition iter_file_chunks :: "nat \<Rightarrow> u32 \<Rightarrow> xpc_client \<Rightarrow> byte list list \<times> (unit, idevice_error) res \<times> xpc_client" where
  "iter_file_chunks total_size file_idx s =
    (let stream_id = (file_idx + 1) * 2
     in case open_file_stream_for_response stream_id s of
          (Ok _, t) \<Rightarrow>
            (case file_loop stream_id total_size 0 (xc_h2 t) of (items, r, h) \<Rightarrow> (items, r, t\<lparr>xc_h2 := h\<rparr>))
        | (Err e, t) \<Rightarrow> ([], Err e, t)
        | (Panic, t) \<Rightarrow> ([], Panic, t))"

definition send_file_transfer :: "u64 \<Rightarrow> byte list \<Rightarrow> (xpc_client, unit) act" where
  "send_file_transfer transfer_id data s =
    (let stream_id = xc_next_file s
     in act_bind (act_upd (\<lambda>s. s\<lparr>xc_next_file := stream_id + 2\<rparr>)) (\<lambda>_.
        act_bind (on_h2 (open_stream stream_id)) (\<lambda>_.
        act_bind (act_res (message_encode (message_new (Some (flag_or FileTxStreamRequest AlwaysSet)) None (Some transfer_id)) transfer_id)) (\<lambda>preamble.
        act_bind (on_h2 (send preamble stream_id)) (\<lambda>_.
        act_bind (on_h2 (send data stream_id)) (\<lambda>_.
        on_h2 (send_end_stream [] stream_id)))))) s)"

section \<open>Messages cut from the bytes of a channel\<close>

definition body_of_wire :: "dict_insert \<Rightarrow> byte list \<Rightarrow> (xpc_object option, idevice_error) res" where
  "body_of_wire ins buf =
    (if wire_body_len buf = 0 then Ok None
     else rmap Some (xpc_decode ins (sub 24 (unat (wire_body_len buf)) buf)))"

definition wire_message :: "byte list \<Rightarrow> xpc_object option \<Rightarrow> xpc_message" where
  "wire_message buf body =
    \<lparr>msg_flags = from_le_bytes (sub 4 4 buf), msg_body = body, msg_id = Some (from_le_bytes (sub 16 8 buf))\<rparr>"

lemma take_message_eq:
  assumes "length buf < 2 ^ 63"
  shows "take_message ins buf =
    (let n = unat (wire_body_len buf) in
     if length buf < 24 then Ok None
     else if (from_le_bytes (sub 0 4 buf) :: u32) \<noteq> WRAPPER_MAGIC then Err (Xpc MalformedXpc)
     else if 2 ^ 64 - 24 \<le> n then Panic
     else if length buf < 24 + n then Ok None
     else case body_of_wire ins buf of
       Ok b \<Rightarrow> Ok (Some (wire_message buf b, drop (24 + n) buf))
     | Err e \<Rightarrow> if not_yet e then Ok None else Err e
     | Panic \<Rightarrow> Panic)"
proof (cases "length buf < 24 \<or> (from_le_bytes (sub 0 4 buf) :: u32) \<noteq> WRAPPER_MAGIC")
  case True
  then show ?thesis by (auto simp: take_message_def message_decode_def not_yet_def)
next
  case False
  define n where "n = wire_body_len buf"
  have e: "(from_le_bytes (sub 8 8 buf) :: u64) = n" by (simp add: n_def wire_body_len_def)
  show ?thesis
  proof (cases "2 ^ 64 - 24 \<le> unat n")
    case True
    with False message_decode_Panic_iff [OF assms, of ins] have "message_decode ins buf = Panic" by (simp add: n_def)
    with False True show ?thesis by (simp add: take_message_def n_def)
  next
    case small: False
    have s: "unat (n + 24) = 24 + unat n" "unat (24 + n) = 24 + unat n"
      using small by (simp_all add: unat_word_ariths)
    have l: "unat (of_nat (length buf) :: u64) = length buf" using assms by (simp add: unat_of_nat)
    show ?thesis
    proof (cases "length buf < 24 + unat n")
      case True
      then have "n + 24 > of_nat (length buf)" by (simp add: word_less_nat_alt l s)
      with False small True show ?thesis
        by (simp add: take_message_def message_decode_def n_def not_yet_def)
    next
      case whole: False
      have "\<not> n + 24 > of_nat (length buf)" using whole by (simp add: word_less_nat_alt l s)
      with False whole have d: "message_decode ins buf = rmap (wire_message buf) (body_of_wire ins buf)"
        by (cases "n = 0"; cases "xpc_decode ins (sub 24 (unat n) buf)")
          (simp_all add: message_decode_def Let_def body_of_wire_def wire_message_def n_def [symmetric] s index_range_def sub_def
             word_neq_0_conv)
      from False small whole s show ?thesis
        by (simp add: take_message_def d n_def [symmetric] xpc_body_len_def e XPC_WRAPPER_LEN_def split: res.split)
    qed
  qed
qed

lemma take_message_append:
  assumes "length (buf @ later) < 2 ^ 63" "take_message ins buf \<noteq> Ok None"
  shows "take_message ins (buf @ later) = rmap (map_option (\<lambda>(m, rest). (m, rest @ later))) (take_message ins buf)"
proof -
  have l: "length buf < 2 ^ 63" using assms(1) by simp
  have h: "24 \<le> length buf" using assms(2) by (cases "length buf < 24") (simp_all add: take_message_eq [OF l])
  then have s: "wire_body_len (buf @ later) = wire_body_len buf" "sub 0 4 (buf @ later) = sub 0 4 buf"
    "sub 4 4 (buf @ later) = sub 4 4 buf" "sub 16 8 (buf @ later) = sub 16 8 buf"
    by (simp_all add: wire_body_len_def)
  define n where "n = unat (wire_body_len buf)"
  show ?thesis
  proof (cases "(from_le_bytes (sub 0 4 buf) :: u32) \<noteq> WRAPPER_MAGIC \<or> 2 ^ 64 - 24 \<le> n")
    case True
    with h show ?thesis
      by (auto simp: take_message_eq [OF l] take_message_eq [OF assms(1)] s n_def Let_def)
  next
    case False
    with assms(2) h have w: "24 + n \<le> length buf" by (simp add: take_message_eq [OF l] n_def Let_def split: if_splits)
    then have "body_of_wire ins (buf @ later) = body_of_wire ins buf"
      by (simp add: body_of_wire_def s n_def)
    with False h w assms(2) show ?thesis
      by (auto simp: take_message_eq [OF l] take_message_eq [OF assms(1)] s n_def wire_message_def Let_def
          split: res.splits if_splits)
  qed
qed

text \<open>
  \<open>payloads_of ins n buf\<close>: the first \<open>n\<close> payloads in the bytes of a channel and the bytes behind them; none when
  they are not there, an error when a message before them does not decode.
\<close>

function first_payload :: "dict_insert \<Rightarrow> byte list \<Rightarrow> ((xpc_object \<times> byte list) option, idevice_error) res" where
  "first_payload ins buf =
    (case take_message ins buf of
       Ok (Some (msg, rest)) \<Rightarrow>
         (case payload_of msg of Some inner \<Rightarrow> Ok (Some (inner, rest)) | None \<Rightarrow> first_payload ins rest)
     | Ok None \<Rightarrow> Ok None
     | Err e \<Rightarrow> Err e
     | Panic \<Rightarrow> Panic)"
  by pat_completeness auto
termination first_payload
  by (relation "measure (length \<circ> snd)") (auto dest!: take_message_shorter)

declare first_payload.simps [simp del]

primrec payloads_of :: "dict_insert \<Rightarrow> nat \<Rightarrow> byte list \<Rightarrow> ((xpc_object list \<times> byte list) option, idevice_error) res" where
  "payloads_of ins 0 buf = Ok (Some ([], buf))"
| "payloads_of ins (Suc n) buf =
    rbind (first_payload ins buf) (\<lambda>p.
      case p of
        None \<Rightarrow> Ok None
      | Some (v, rest) \<Rightarrow> rmap (map_option (\<lambda>(vs, r). (v # vs, r))) (payloads_of ins n rest))"

lemma first_payload_append:
  "first_payload ins buf \<noteq> Ok None \<Longrightarrow> length (buf @ later) < 2 ^ 63 \<Longrightarrow>
   first_payload ins (buf @ later) = rmap (map_option (\<lambda>(v, rest). (v, rest @ later))) (first_payload ins buf)"
proof (induction ins buf rule: first_payload.induct)
  case (1 ins buf)
  have n: "take_message ins buf \<noteq> Ok None" using 1(2) by (auto simp: first_payload.simps [of ins buf])
  note a = take_message_append [OF 1(3) n]
  show ?case
  proof (cases "\<exists>msg rest. take_message ins buf = Ok (Some (msg, rest)) \<and> payload_of msg = None")
    case True
    then obtain msg rest where m: "take_message ins buf = Ok (Some (msg, rest))" "payload_of msg = None" by blast
    from 1(2) m have "first_payload ins rest \<noteq> Ok None" by (simp add: first_payload.simps [of ins buf])
    moreover have "length (rest @ later) < 2 ^ 63" using take_message_shorter [OF m(1)] 1(3) by simp
    moreover note 1(1) [OF m(1) refl refl m(2)]
    ultimately show ?thesis using a m by (simp add: first_payload.simps [of ins buf] first_payload.simps [of ins "buf @ later"])
  next
    case False
    with a n show ?thesis
      by (auto simp: first_payload.simps [of ins buf] first_payload.simps [of ins "buf @ later"] split: res.splits option.splits)
  qed
qed

lemma first_payload_shorter: "first_payload ins buf = Ok (Some (v, rest)) \<Longrightarrow> length rest < length buf"
proof (induction ins buf rule: first_payload.induct)
  case (1 ins buf)
  then show ?case
    by (subst (asm) (2) first_payload.simps) (fastforce split: res.splits option.splits dest!: take_message_shorter)
qed

lemma map_option_is_Some: "Some y = map_option f x \<longleftrightarrow> (\<exists>z. x = Some z \<and> y = f z)"
  by (cases x) auto

lemma payloads_of_append:
  "payloads_of ins n buf = Ok (Some (vs, rest)) \<Longrightarrow> length (buf @ later) < 2 ^ 63 \<Longrightarrow>
   payloads_of ins n (buf @ later) = Ok (Some (vs, rest @ later))"
proof (induction n arbitrary: buf vs)
  case (Suc n)
  then obtain v r ws where f: "first_payload ins buf = Ok (Some (v, r))" "payloads_of ins n r = Ok (Some (ws, rest))" "vs = v # ws"
    by (auto simp: map_option_is_Some split: option.splits prod.splits)
  have "length (r @ later) < 2 ^ 63" using first_payload_shorter [OF f(1)] Suc.prems(2) by simp
  with Suc.IH [OF f(2)] first_payload_append [of ins buf later] f Suc.prems(2) show ?case by simp
qed simp

section \<open>The order in which payloads are received\<close>

lemma read_stream_books:
  assumes "h2_books S L s" "read_stream sid s = (r, t)"
  shows "case r of Ok d \<Rightarrow> h2_books S (L @ [(sid, d)]) t | _ \<Rightarrow> h2_books S L t"
  using h2_run_op_books [OF assms(1), of "OpRead sid"] assms(2) by (simp add: h2_run_op_def split: res.splits)

lemma recv_chunks:
  "recv_from_channel ins ch s = (Ok v, t) \<Longrightarrow> h2_books S L (xc_h2 s) \<Longrightarrow> xc_load [ch] s < 2 ^ 63 \<Longrightarrow>
   \<exists>cs. h2_books S (L @ map (Pair ch) cs) (xc_h2 t) \<and>
     h_load [ch] (xc_h2 t) + length (concat cs) \<le> h_load [ch] (xc_h2 s) \<and>
     first_payload ins (partial_of ch s @ concat cs) = Ok (Some (v, partial_of ch t))"
proof (induction ins ch s arbitrary: L rule: recv_from_channel.induct)
  case (1 ins ch s)
  obtain q u where b: "take_buffered ins ch s = (q, u)" by fastforce
  consider (msg) m where "q = Ok (Some m)" | (none) "q = Ok None"
    using 1(3) b by (cases q) (auto simp: recv_from_channel.simps [of ins ch s] split: option.splits)
  then show ?case
  proof cases
    case (msg m)
    then obtain rest where m: "take_message ins (partial_of ch s) = Ok (Some (m, rest))" "u = set_partial ch rest s"
      using b by (auto simp: take_buffered_def split: res.splits option.splits)
    show ?thesis
    proof (cases "payload_of m")
      case (Some w)
      with 1(3) b msg have "v = w" "t = u" by (auto simp: recv_from_channel.simps [of ins ch s])
      with 1(4) m Some show ?thesis
        by (intro exI [of _ "[]"]) (simp add: first_payload.simps [of ins "partial_of ch s"])
    next
      case None
      with 1(3) b msg have r: "recv_from_channel ins ch u = (Ok v, t)" by (simp add: recv_from_channel.simps [of ins ch s])
      have l: "xc_load [ch] u \<le> xc_load [ch] s" using take_message_shorter [OF m(1)] by (simp add: m(2) xc_load_def)
      have u: "h2_books S L (xc_h2 u)" "xc_load [ch] u < 2 ^ 63" using 1(4,5) l by (simp_all add: m(2))
      from 1(2) [OF b [symmetric] msg refl None r u] obtain cs where
        cs: "h2_books S (L @ map (Pair ch) cs) (xc_h2 t)" "h_load [ch] (xc_h2 t) + length (concat cs) \<le> h_load [ch] (xc_h2 s)"
          "first_payload ins (rest @ concat cs) = Ok (Some (v, partial_of ch t))"
        by (auto simp: m(2))
      have "length (partial_of ch s @ concat cs) < 2 ^ 63" using cs(2) 1(5) by (simp add: xc_load_def)
      from take_message_append [OF this, of ins] m(1)
      have "take_message ins (partial_of ch s @ concat cs) = Ok (Some (m, rest @ concat cs))" by simp
      with cs None show ?thesis
        by (intro exI [of _ cs]) (simp add: first_payload.simps [of ins "partial_of ch s @ concat cs"])
    qed
  next
    case none
    then have u: "u = set_partial ch (partial_of ch s) s" using b take_buffered_none by blast
    obtain p w where f: "fill_channel ch u = (p, w)" by fastforce
    with 1(3) b none have p: "p = Ok ()" "recv_from_channel ins ch w = (Ok v, t)"
      by (auto simp: recv_from_channel.simps [of ins ch s] split: res.splits)
    from f p(1) obtain c h where c: "read_stream ch (xc_h2 s) = (Ok c, h)" "w = extend_partial ch c (u\<lparr>xc_h2 := h\<rparr>)"
      by (auto simp: fill_channel_def act_bind_Ok on_h2_def u split: prod.splits)
    have w: "xc_h2 w = h" "partial_of ch w = partial_of ch s @ c" by (simp_all add: c(2) u extend_partial_def)
    note l = read_stream_load [OF c(1)]
    then have wl: "xc_load [ch] w < 2 ^ 63" using 1(5) by (simp add: xc_load_def w)
    have "h2_books S (L @ [(ch, c)]) (xc_h2 w)" using read_stream_books [OF 1(4) c(1)] by (simp add: w)
    from 1(1) [OF b [symmetric] none refl f [symmetric] p(1) p(2) this wl] obtain cs where
      "h2_books S ((L @ [(ch, c)]) @ map (Pair ch) cs) (xc_h2 t)"
      "h_load [ch] (xc_h2 t) + length (concat cs) \<le> h_load [ch] h"
      "first_payload ins (partial_of ch w @ concat cs) = Ok (Some (v, partial_of ch t))" by (auto simp: w)
    with l show ?thesis by (intro exI [of _ "c # cs"]) (simp add: w)
  qed
qed

text \<open>Several calls one after the other.\<close>

primrec recv_many :: "dict_insert \<Rightarrow> u32 \<Rightarrow> nat \<Rightarrow> (xpc_client, xpc_object list) act" where
  "recv_many ins ch 0 = act_ok []"
| "recv_many ins ch (Suc n) =
    act_bind (recv_from_channel ins ch) (\<lambda>v. act_bind (recv_many ins ch n) (\<lambda>vs. act_ok (v # vs)))"

lemma recv_many_chunks:
  "recv_many ins ch n s = (Ok vs, t) \<Longrightarrow> h2_books S L (xc_h2 s) \<Longrightarrow> xc_load [ch] s < 2 ^ 63 \<Longrightarrow>
   \<exists>cs. h2_books S (L @ map (Pair ch) cs) (xc_h2 t) \<and>
     h_load [ch] (xc_h2 t) + length (concat cs) \<le> h_load [ch] (xc_h2 s) \<and>
     payloads_of ins n (partial_of ch s @ concat cs) = Ok (Some (vs, partial_of ch t))"
proof (induction n arbitrary: s vs L)
  case 0
  then show ?case by (intro exI [of _ "[]"]) simp
next
  case (Suc n)
  from Suc.prems(1) obtain v u ws where r: "recv_from_channel ins ch s = (Ok v, u)" "recv_many ins ch n u = (Ok ws, t)" "vs = v # ws"
    by (auto simp: act_bind_Ok)
  from recv_chunks [OF r(1) Suc.prems(2,3)] obtain cs where
    cs: "h2_books S (L @ map (Pair ch) cs) (xc_h2 u)" "h_load [ch] (xc_h2 u) + length (concat cs) \<le> h_load [ch] (xc_h2 s)"
     "first_payload ins (partial_of ch s @ concat cs) = Ok (Some (v, partial_of ch u))" by blast
  have "xc_load [ch] u < 2 ^ 63"
    using first_payload_shorter [OF cs(3)] cs(2) Suc.prems(3) by (simp add: xc_load_def)
  from Suc.IH [OF r(2) cs(1) this] obtain ds where
    ds: "h2_books S ((L @ map (Pair ch) cs) @ map (Pair ch) ds) (xc_h2 t)"
     "h_load [ch] (xc_h2 t) + length (concat ds) \<le> h_load [ch] (xc_h2 u)"
     "payloads_of ins n (partial_of ch u @ concat ds) = Ok (Some (ws, partial_of ch t))" by blast
  have "length ((partial_of ch s @ concat cs) @ concat ds) < 2 ^ 63"
    using cs(2) ds(2) Suc.prems(3) by (simp add: xc_load_def)
  from first_payload_append [OF _ this, of ins] cs(3)
  have "first_payload ins (partial_of ch s @ concat (cs @ ds)) = Ok (Some (v, partial_of ch u @ concat ds))" by simp
  with ds cs(2) r(3) show ?case by (intro exI [of _ "cs @ ds"]) simp
qed

section \<open>A new client and its handshake\<close>

lemma payloads_short:
  "parse_frames P = Some fs \<Longrightarrow> chunk_load (payloads sid fs) \<le> length P"
proof (induction P arbitrary: fs rule: parse_frames.induct)
  case (1 P)
  show ?case
  proof (cases "P = []")
    case False
    with 1(2) obtain f n gs where g: "frame_parse P = Ok (Some (f, n))" "parse_frames (drop n P) = Some gs" "fs = f # gs"
      by (auto simp: parse_frames.simps [of P] split: res.splits option.splits)
    have n: "9 \<le> n" "n \<le> length P" using frame_parse_Some [OF g(1)] by simp_all
    have "frame_parse (take n P) = Ok (Some (f, length (take n P)))" using frame_parse_take [OF g(1)] n by simp
    from chunk_load_payloads [OF _ this, of "[sid]"] 1(1) [OF False g(1) refl refl g(2)] n show ?thesis
      by (simp add: g(3) payloads_def)
  qed (use 1 in \<open>simp add: payloads_def\<close>)
qed

lemma books_load:
  assumes "h2_books S L s"
  shows "h_load [sid] s \<le> length S"
proof -
  from assms obtain P fs where "S = P @ h_input s" "parse_frames P = Some fs" "payloads sid fs = delivered sid L @ cached s sid"
    unfolding h2_books_def by blast
  with payloads_short [of P fs sid] show ?thesis by (simp add: h_load_def)
qed

text \<open>Before anything is received, whatever is sent.\<close>

definition xc_fresh :: "byte list \<Rightarrow> xpc_client \<Rightarrow> bool" where
  "xc_fresh S s \<longleftrightarrow> h2_books S [] (xc_h2 s) \<and> xc_partial s = Map.empty"

lemma keeps_on_h2: "keeps (h2_books S []) m \<Longrightarrow> keeps (xc_fresh S) (on_h2 m)"
  by (auto simp: keeps_def on_h2_def xc_fresh_def split: prod.split)

lemma keeps_h2_sends:
  "keeps (h2_books S []) (send b ch)" "keeps (h2_books S []) (open_stream ch)"
  "keeps (h2_books S []) (set_settings ss ch)" "keeps (h2_books S []) (window_update i ch)"
  using h2_run_op_books [of S "[]" _ "OpSend b ch"] h2_run_op_books [of S "[]" _ "OpOpen ch"]
    h2_run_op_books [of S "[]" _ "OpSettings ss ch"] h2_run_op_books [of S "[]" _ "OpWindowUpdate i ch"]
  by (auto intro!: keepsI simp: h2_run_op_def)

lemma keeps_send_on: "keeps (xc_fresh S) (send_on ch msg)"
proof (rule keepsI)
  fix s assume "xc_fresh S s"
  moreover have "keeps (xc_fresh S) (act_bind (act_res (message_encode msg (xc_root_id s))) (\<lambda>b. on_h2 (send b ch)))"
    by (intro keeps_intro keeps_on_h2 keeps_h2_sends)
  ultimately show "xc_fresh S (snd (send_on ch msg s))" by (simp add: send_on_def keepsD)
qed

lemma keeps_handshake: "keeps (xc_fresh S) do_handshake"
  unfolding do_handshake_def send_root_def send_reply_def
  by (intro keeps_intro keeps_on_h2 keeps_h2_sends keeps_send_on)

lemma xpc_client_new_fresh:
  assumes "xpc_client_new \<lparr>tp_in = arrivals, tp_out = [], tp_budget = budget\<rparr> = Ok s"
  shows "xc_fresh (concat arrivals) s"
  using assms http2_new_books by (auto simp: xpc_client_new_def xc_fresh_def)

text \<open>
  RemoteXPC receives in order, over three layers: after the handshake of a new client (whatever became of it) the results of
  any number of \<open>recv\<close> calls on a channel are the first payloads in the concatenation of that channel's DATA frames,
  however the peer cut messages into frames and the frames into arrivals; empty dictionaries and bodyless messages
  are passed over, nothing is lost or reordered.
\<close>

theorem xpc_receives_in_order:
  assumes "xpc_client_new \<lparr>tp_in = arrivals, tp_out = [], tp_budget = budget\<rparr> = Ok s0"
    and "recv_many ins ch n (snd (do_handshake s0)) = (Ok vs, t)" and "length (concat arrivals) < 2 ^ 63"
  shows "\<exists>P fs rest. concat arrivals = P @ h_input (xc_h2 t) \<and> parse_frames P = Some fs \<and>
    payloads_of ins n (concat (payloads ch fs)) = Ok (Some (vs, rest))"
proof -
  let ?S = "concat arrivals" and ?s = "snd (do_handshake s0)"
  have f: "xc_fresh ?S ?s" by (rule keepsD [OF keeps_handshake xpc_client_new_fresh [OF assms(1)]])
  then have p: "partial_of ch ?s = []" "h2_books ?S [] (xc_h2 ?s)" by (simp_all add: xc_fresh_def partial_of_def)
  have "xc_load [ch] ?s < 2 ^ 63" using books_load [OF p(2), of ch] assms(3) p(1) by (simp add: xc_load_def)
  from recv_many_chunks [OF assms(2) p(2) this] p(1) obtain cs where
    cs: "h2_books ?S (map (Pair ch) cs) (xc_h2 t)" "payloads_of ins n (concat cs) = Ok (Some (vs, partial_of ch t))" by auto
  have "delivered ch (map (Pair ch) cs) = cs" by (induction cs) (simp_all add: delivered_def)
  with cs(1) obtain P fs where P: "?S = P @ h_input (xc_h2 t)" "parse_frames P = Some fs"
    "payloads ch fs = cs @ cached (xc_h2 t) ch"
    unfolding h2_books_def by metis
  have c: "length (concat q) \<le> chunk_load q" for q by (induction q) simp_all
  have "length (concat (payloads ch fs)) < 2 ^ 63"
    using payloads_short [OF P(2), of ch] c [of "payloads ch fs"] P(1) assms(3) by simp
  with payloads_of_append [OF cs(2), of "concat (cached (xc_h2 t) ch)"] P show ?thesis
    by (metis concat_append)
qed

end
