(* ===== verification/Xpc_Runs.thy ===== *)
theory Xpc_Runs
  imports Xpc_Client
begin

text \<open>
  What a RemoteXPC client receives from a peer whose frames all parse: every \<open>recv\<close> returns, with the next payload
  of the channel. And the messages it never gets past.
\<close>

section \<open>A connection on which nothing fails\<close>

definition h_live :: "http2_client \<Rightarrow> bool" where
  "h_live s \<longleftrightarrow> tp_budget (h_inner s) = None \<and> [] \<notin> set (tp_in (h_inner s))"

lemma h_live_proj:
  "h_live (s\<lparr>h_cache := c\<rparr>) = h_live s" "h_live (s\<lparr>h_conn_send_window := w\<rparr>) = h_live s"
  "h_live (s\<lparr>h_stream_send_windows := ws\<rparr>) = h_live s" "h_live (s\<lparr>h_peer_initial_window := i\<rparr>) = h_live s"
  "h_live (s\<lparr>h_recv_buf := b\<rparr>) = h_live s" "h_live (s\<lparr>h_finished := f\<rparr>) = h_live s"
  by (simp_all add: h_live_def)

lemma live_write: "h_live s \<Longrightarrow> \<exists>t. write_flush bs s = (Ok (), t) \<and> h_live t"
  by (simp add: write_flush_def act_bind_def h_io_eq tp_write_all_unlimited tp_flush_unlimited h_live_def)

lemma live_io: "h_live s \<Longrightarrow> \<exists>t. h_io (tp_write_all bs) s = (Ok (), t) \<and> h_live t"
  "h_live s \<Longrightarrow> \<exists>t. h_io tp_flush s = (Ok (), t) \<and> h_live t"
  by (simp_all add: h_io_eq tp_write_all_unlimited tp_flush_unlimited h_live_def)

lemma keeps_live_io [keeps_intro]:
  "keeps h_live (h_io (tp_write_all bs))" "keeps h_live (h_io tp_flush)" "keeps h_live (write_flush bs)"
  by (metis keepsI live_io(1) live_io(2) live_write snd_conv)+

lemma live_or_default [simp]: "h_live (or_default sid s) = h_live s" "h_live (fold or_default sids s) = h_live s"
proof -
  show *: "h_live (or_default sid s) = h_live s" for sid s
    by (simp add: or_default_def h_live_proj split: option.split)
  show "h_live (fold or_default sids s) = h_live s" by (induction sids arbitrary: s) (simp_all add: *)
qed

lemma live_apply_setting [simp]: "h_live (apply_setting x s) = h_live s"
  by (cases x) (simp_all add: h_live_proj Let_def)

lemma live_apply_settings [simp]: "h_live (fold apply_setting xs s) = h_live s"
  by (induction xs arbitrary: s) simp_all

lemma live_window [simp]: "stream_send_window sid s = (w, t) \<Longrightarrow> h_live t = h_live s"
  by (auto simp: stream_send_window_def h_live_proj split: option.splits)

lemma live_credit [simp]: "h_live (credit_window w s) = h_live s"
  by (auto simp: credit_window_def h_live_proj split: prod.split)

lemma live_cache_push [simp]: "h_live (cache_push d s) = h_live s"
  by (simp add: cache_push_def h_live_proj Let_def)

lemma keeps_live_handle [keeps_intro]: "keeps h_live (handle_frame f)"
proof (cases f)
  case (FRstStream r)
  then show ?thesis by (auto simp: handle_frame_def keeps_def h_live_proj)
next
  case (FSettings s)
  then show ?thesis by (auto simp: handle_frame_def intro!: keeps_intro)
next
  case (FData d)
  then show ?thesis by (auto simp: handle_frame_def Let_def intro!: keeps_intro)
next
  case (FWindowUpdate w)
  then show ?thesis by (auto simp: handle_frame_def intro!: keeps_intro)
qed (auto simp: handle_frame_def intro!: keeps_intro)

lemma handle_live:
  assumes "h_live s" "\<forall>r. f \<noteq> FRstStream r"
  shows "fst (handle_frame f s) = Ok ()"
proof (cases f)
  case (FSettings sf)
  obtain t where "write_flush (settings_serialize \<lparr>sf_settings = [], sf_stream_id = sf_stream_id sf, sf_flags = 1\<rparr>)
      (fold apply_setting (sf_settings sf) s) = (Ok (), t)"
    using live_write [of "fold apply_setting (sf_settings sf) s"] assms(1) by auto
  then show ?thesis by (simp add: FSettings handle_frame_def)
next
  case (FData d)
  let ?n = "of_nat (length (df_payload d)) :: u32"
  obtain a b c where
    "h_io (tp_write_all (window_update_serialize \<lparr>wf_increment_size = ?n, wf_stream_id = 0\<rparr>)) (cache_push d s) = (Ok (), a)"
    "h_io (tp_write_all (window_update_serialize \<lparr>wf_increment_size = ?n, wf_stream_id = df_stream_id d\<rparr>)) a = (Ok (), b)"
    "h_io tp_flush b = (Ok (), c)"
    using live_io assms(1) by (metis live_cache_push)
  then show ?thesis by (simp add: FData handle_frame_def Let_def)
qed (use assms in \<open>simp_all add: handle_frame_def\<close>)

lemma keeps_live_next_frame [keeps_intro]: "keeps h_live next_frame"
proof (rule keepsI)
  show "h_live s \<Longrightarrow> h_live (snd (next_frame s))" for s
  proof (induction s rule: next_frame.induct)
    case (1 s)
    obtain tmp t where r: "tp_read 16384 (h_inner s) = (tmp, t)" by fastforce
    have t: "h_live (s\<lparr>h_inner := t, h_recv_buf := b\<rparr>)" "h_live (s\<lparr>h_inner := t\<rparr>)" for b
      using tp_read_nonempty [of "h_inner s" 16384 tmp t] tp_read_same(2) [of 16384 "h_inner s"] r 1(2)
      by (simp_all add: h_live_def)
    show ?case
      using 1(1) [OF _ refl r [symmetric]] 1(2) t r
      by (subst next_frame.simps) (auto simp: h_live_proj split: res.split option.split)
  qed
qed

lemma keeps_live_pump [keeps_intro]: "keeps h_live pump"
  unfolding pump_def by (intro keeps_intro)

lemma keeps_live_await [keeps_intro]: "keeps h_live (await_window sid need)"
proof (rule keepsI)
  show "h_live s \<Longrightarrow> h_live (snd (await_window sid need s))" for s
  proof (induction sid need s rule: await_window.induct)
    case (1 sid need s)
    obtain w t where c: "(if h_conn_send_window s < need then (True, s)
      else case stream_send_window sid s of (w, t) \<Rightarrow> (w < need, t)) = (w, t)" by fastforce
    have t: "h_live t" using c 1(2) by (auto split: if_splits prod.splits)
    obtain p u where p: "pump t = (p, u)" by fastforce
    have u: "h_live u" using keepsD [OF keeps_live_pump t] p by simp
    from 1(1) [OF c [symmetric] _ p [symmetric]] t u c p show ?case
      by (subst await_window.simps) (auto split: res.split)
  qed
qed

lemma keeps_live_debit [keeps_intro]: "keeps h_live (debit sid need)"
  by (auto simp: keeps_def debit_def Let_def h_live_proj split: option.split)

lemma keeps_live_chunks [keeps_intro]: "keeps h_live (send_chunks sid e cs)"
  by (induction cs) (auto intro!: keeps_intro)

lemma keeps_live_ops [keeps_intro]:
  "keeps h_live (send b sid)" "keeps h_live (open_stream sid)" "keeps h_live (set_settings ss sid)" "keeps h_live (window_update i sid)"
  unfolding send_def send_inner_def open_stream_def set_settings_def window_update_def
  by (auto intro!: keeps_intro)

section \<open>Reading makes progress\<close>

lemma parse_frames_append:
  "parse_frames P = Some ps \<Longrightarrow> parse_frames (P @ R) = map_option ((@) ps) (parse_frames R)"
proof (induction P arbitrary: ps rule: parse_frames.induct)
  case (1 P)
  show ?case
  proof (cases "P = []")
    case True
    with 1(2) show ?thesis by (simp add: option.map_ident)
  next
    case False
    with 1(2) obtain f n gs where g: "frame_parse P = Ok (Some (f, n))" "parse_frames (drop n P) = Some gs" "ps = f # gs"
      by (auto simp: parse_frames.simps [of P] split: res.splits option.splits)
    have "frame_parse (P @ R) = Ok (Some (f, n))" using frame_parse_append [of P R] g(1) by simp
    moreover have "drop n (P @ R) = drop n P @ R" using frame_parse_Some [OF g(1)] by simp
    ultimately show ?thesis
      using 1(1) [OF False g(1) refl refl g(2)] False g(3)
      by (simp add: parse_frames.simps [of "P @ R"] option.map_comp o_def)
  qed
qed

definition no_reset :: "frame list \<Rightarrow> bool" where
  "no_reset fs \<longleftrightarrow> (\<forall>r. FRstStream r \<notin> set fs)"

text \<open>\<open>feed sid cs s\<close>: nothing fails, and what reads of the stream can still deliver is \<open>cs\<close>.\<close>

definition feed :: "u32 \<Rightarrow> byte list list \<Rightarrow> http2_client \<Rightarrow> bool" where
  "feed sid cs s \<longleftrightarrow> h_live s \<and>
    (\<exists>gs. parse_frames (h_input s) = Some gs \<and> no_reset gs \<and> cs = cached s sid @ payloads sid gs)"

lemma pump_progress:
  assumes "h_live s" "parse_frames (h_input s) = Some (g # gs)" "no_reset (g # gs)"
  shows "\<exists>u. pump s = (Ok (), u) \<and> h_live u \<and> parse_frames (h_input u) = Some gs \<and>
    (\<forall>sid. cached u sid = cached s sid @ frame_payload sid g)"
proof -
  from assms(2) obtain n where n: "h_input s \<noteq> []" "frame_parse (h_input s) = Ok (Some (g, n))" "parse_frames (drop n (h_input s)) = Some gs"
    by (auto simp: parse_frames.simps [of "h_input s"] split: if_splits res.splits option.splits)
  obtain r t where f: "next_frame s = (r, t)" by fastforce
  from next_frame_spec [of s] assms(1) f n(2) have t: "r = Ok g" "h_input t = drop n (h_input s)"
    by (simp_all add: h_live_def next_spec_def)
  have l: "h_live t" using keepsD [OF keeps_live_next_frame assms(1)] f by simp
  obtain q u where h: "handle_frame g t = (q, u)" by fastforce
  have "q = Ok ()" using handle_live [OF l, of g] assms(3) h by (auto simp: no_reset_def)
  moreover have "h_live u" using keepsD [OF keeps_live_handle l, of g] h by simp
  moreover have "h_input u = h_input t" "\<And>sid. cached u sid = cached t sid @ frame_payload sid g"
    using handle_frame_tracks [of g t] h by (simp_all add: tracks_def)
  ultimately show ?thesis using f t h n(3) by (simp add: pump_def cached_next_frame [OF f])
qed

lemma read_loop_progress:
  "feed sid (c # cs) s \<Longrightarrow> \<exists>t. read_any_loop [sid] s = (Ok (sid, c), t) \<and> feed sid cs t"
proof (induction "[sid]" s rule: read_any_loop.induct)
  case (1 s)
  from 1(2) obtain gs where g: "h_live s" "parse_frames (h_input s) = Some gs" "no_reset gs"
    "c # cs = cached s sid @ payloads sid gs"
    by (auto simp: feed_def)
  show ?case
  proof (cases "cached s sid")
    case (Cons d q)
    with g(4) have d: "d = c" by simp
    obtain t where p: "pop_front sid s = Some (d, t)" "t = s\<lparr>h_cache := (h_cache s)(sid \<mapsto> q)\<rparr>"
      using Cons by (auto simp: pop_front_def cached_def split: option.splits)
    have "feed sid cs t" using g Cons d p(2) by (auto simp: feed_def h_live_proj h_input_def cached_def)
    with p(1) d show ?thesis by (simp add: read_any_loop.simps [of "[sid]" s])
  next
    case Nil
    then have n: "pop_any [sid] s = None" by (auto simp: pop_front_def cached_def split: option.splits)
    from g(4) Nil obtain f fs where f: "gs = f # fs" by (cases gs) (auto simp: payloads_def)
    from pump_progress [of s f fs] g f obtain u where
      u: "pump s = (Ok (), u)" "h_live u" "parse_frames (h_input u) = Some fs" "cached u sid = cached s sid @ frame_payload sid f"
      by auto
    have "feed sid (c # cs) u" using g(3,4) f u by (simp add: feed_def no_reset_def payloads_def)
    from 1(1) [OF n u(1) [symmetric] refl this] n u(1) show ?thesis by (simp add: read_any_loop.simps [of "[sid]" s])
  qed
qed

lemma read_stream_progress: "feed sid (c # cs) s \<Longrightarrow> \<exists>t. read_stream sid s = (Ok c, t) \<and> feed sid cs t"
  using read_loop_progress [of sid c cs "or_default sid s"]
  by (auto simp: read_stream_def act_bind_def feed_def)

lemma recv_progress:
  "feed ch cs (xc_h2 s) \<Longrightarrow> length (partial_of ch s @ concat cs) < 2 ^ 63 \<Longrightarrow>
   first_payload ins (partial_of ch s @ concat cs) = Ok (Some (v, r)) \<Longrightarrow>
   \<exists>t ds. recv_from_channel ins ch s = (Ok v, t) \<and> feed ch ds (xc_h2 t) \<and> partial_of ch t @ concat ds = r"
proof (induction ins ch s arbitrary: cs rule: recv_from_channel.induct)
  case (1 ins ch s)
  let ?p = "partial_of ch s"
  obtain q u where b: "take_buffered ins ch s = (q, u)" by fastforce
  show ?case
  proof (cases "take_message ins ?p = Ok None")
    case True
    with b have q: "q = Ok None" "u = set_partial ch ?p s" by (simp_all add: take_buffered_def)
    have "cs \<noteq> []" using 1(5) True by (auto simp: first_payload.simps [of ins ?p])
    then obtain c ds where c: "cs = c # ds" by (cases cs) auto
    from read_stream_progress [of ch c ds] 1(3) c obtain h where h: "read_stream ch (xc_h2 s) = (Ok c, h)" "feed ch ds h" by blast
    define w where "w = extend_partial ch c (u\<lparr>xc_h2 := h\<rparr>)"
    have w: "fill_channel ch u = (Ok (), w)" "xc_h2 w = h" "partial_of ch w = ?p @ c"
      using h(1) q(2) by (simp_all add: fill_channel_def act_bind_def on_h2_def w_def extend_partial_def)
    from 1(1) [OF b [symmetric] q(1) refl w(1) [symmetric] refl, of ds] h(2) 1(4,5) w c
    show ?thesis using b q by (auto simp: recv_from_channel.simps [of ins ch s])
  next
    case False
    note a = take_message_append [OF 1(4) False]
    have "\<exists>m rest. take_message ins ?p = Ok (Some (m, rest))"
      using a False 1(5) by (auto simp: first_payload.simps [of ins "?p @ concat cs"] split: res.splits option.splits)
    then obtain m rest where m: "take_message ins ?p = Ok (Some (m, rest))" by blast
    with b have q: "q = Ok (Some m)" "u = set_partial ch rest s" by (simp_all add: take_buffered_def)
    show ?thesis
    proof (cases "payload_of m")
      case (Some w)
      with 1(5) a m have "w = v" "r = rest @ concat cs"
        by (simp_all add: first_payload.simps [of ins "?p @ concat cs"])
      with Some b q 1(3) show ?thesis by (auto simp: recv_from_channel.simps [of ins ch s] intro!: exI [of _ cs])
    next
      case None
      with 1(5) a m have f: "first_payload ins (rest @ concat cs) = Ok (Some (v, r))"
        by (simp add: first_payload.simps [of ins "?p @ concat cs"])
      have "length (rest @ concat cs) < 2 ^ 63" using take_message_shorter [OF m] 1(4) by simp
      from 1(2) [OF b [symmetric] q(1) refl None, of cs] 1(3) f this q(2) None b q(1) show ?thesis
        by (auto simp: recv_from_channel.simps [of ins ch s])
    qed
  qed
qed

lemma recv_many_progress:
  "feed ch cs (xc_h2 s) \<Longrightarrow> length (partial_of ch s @ concat cs) < 2 ^ 63 \<Longrightarrow>
   payloads_of ins n (partial_of ch s @ concat cs) = Ok (Some (vs, r)) \<Longrightarrow>
   \<exists>t. recv_many ins ch n s = (Ok vs, t)"
proof (induction n arbitrary: s cs vs)
  case (Suc n)
  from Suc.prems(3) obtain v q ws where f: "first_payload ins (partial_of ch s @ concat cs) = Ok (Some (v, q))"
    "payloads_of ins n q = Ok (Some (ws, r))" "vs = v # ws"
    by (auto simp: map_option_is_Some split: option.splits prod.splits)
  from recv_progress [OF Suc.prems(1,2) f(1)] obtain t ds where
    t: "recv_from_channel ins ch s = (Ok v, t)" "feed ch ds (xc_h2 t)" "partial_of ch t @ concat ds = q" by blast
  have "length q < 2 ^ 63" using first_payload_shorter [OF f(1)] Suc.prems(2) by simp
  with Suc.IH [OF t(2), of ws] t f obtain u where "recv_many ins ch n t = (Ok ws, u)" by auto
  with t(1) f(3) show ?case by simp
qed simp

section \<open>After the handshake\<close>

definition xc_live :: "xpc_client \<Rightarrow> bool" where
  "xc_live s \<longleftrightarrow> h_live (xc_h2 s)"

lemma keeps_xc_live: "keeps h_live m \<Longrightarrow> keeps xc_live (on_h2 m)"
  by (auto simp: keeps_def on_h2_def xc_live_def split: prod.split)

lemma keeps_live_handshake: "keeps xc_live do_handshake"
proof -
  have "keeps xc_live (send_on ch msg)" for ch msg
  proof (rule keepsI)
    fix s assume "xc_live s"
    moreover have "keeps xc_live (act_bind (act_res (message_encode msg (xc_root_id s))) (\<lambda>b. on_h2 (send b ch)))"
      by (intro keeps_intro keeps_xc_live)
    ultimately show "xc_live (snd (send_on ch msg s))" by (simp add: send_on_def keepsD)
  qed
  then show ?thesis unfolding do_handshake_def send_root_def send_reply_def
    by (intro keeps_intro keeps_xc_live)
qed

lemma xpc_client_new_live:
  assumes "[] \<notin> set arrivals"
  shows "\<exists>s. xpc_client_new \<lparr>tp_in = arrivals, tp_out = [], tp_budget = None\<rparr> = Ok s \<and> xc_live s"
  using assms
  by (simp add: xpc_client_new_def http2_new_def act_bind_def tp_write_all_unlimited tp_flush_unlimited xc_live_def h_live_def)

lemma feed_of_books:
  assumes "h2_books S [] h" "h_live h" "parse_frames S = Some fs" "no_reset fs"
  shows "feed ch (payloads ch fs) h"
proof -
  from assms(1) obtain P ps where P: "S = P @ h_input h" "parse_frames P = Some ps" "payloads ch ps = cached h ch"
    unfolding h2_books_def by (auto simp: delivered_def)
  from parse_frames_append [OF P(2), of "h_input h"] assms(3) P(1) obtain gs where
    "parse_frames (h_input h) = Some gs" "fs = ps @ gs" by auto
  with assms(2,4) P(3) show ?thesis by (simp add: feed_def no_reset_def payloads_def)
qed

text \<open>
  C35. RemoteXPC delivers, over three layers: with a peer whose bytes parse as frames that reset no stream, after the handshake of
  a new client \<open>n\<close> calls of \<open>recv\<close> on a channel all return, with the first \<open>n\<close> payloads in the concatenation of the
  channel's DATA frames, however the peer cut messages into frames and frames into arrivals, and whatever came on other
  streams in between. Empty dictionaries and bodyless messages are passed over.
\<close>

theorem xpc_delivers:
  assumes "[] \<notin> set arrivals" and "parse_frames (concat arrivals) = Some fs" and "no_reset fs"
    and "payloads_of ins n (concat (payloads ch fs)) = Ok (Some (vs, rest))" and "length (concat arrivals) < 2 ^ 63"
  shows "\<exists>s t. xpc_client_new \<lparr>tp_in = arrivals, tp_out = [], tp_budget = None\<rparr> = Ok s \<and>
    recv_many ins ch n (snd (do_handshake s)) = (Ok vs, t)"
proof -
  from xpc_client_new_live [OF assms(1)] obtain s where
    s: "xpc_client_new \<lparr>tp_in = arrivals, tp_out = [], tp_budget = None\<rparr> = Ok s" "xc_live s" by blast
  let ?s = "snd (do_handshake s)"
  have f: "xc_fresh (concat arrivals) ?s" by (rule keepsD [OF keeps_handshake xpc_client_new_fresh [OF s(1)]])
  then have p: "partial_of ch ?s = []" by (simp add: xc_fresh_def partial_of_def)
  have "xc_live ?s" by (rule keepsD [OF keeps_live_handshake s(2)])
  with f feed_of_books [of "concat arrivals" "xc_h2 ?s" fs ch] assms(2,3) have feed: "feed ch (payloads ch fs) (xc_h2 ?s)"
    by (simp add: xc_fresh_def xc_live_def)
  have c: "length (concat q) \<le> chunk_load q" for q by (induction q) simp_all
  have "length (concat (payloads ch fs)) < 2 ^ 63"
    using payloads_short [OF assms(2), of ch] c [of "payloads ch fs"] assms(5) by simp
  with recv_many_progress [OF feed, of ins n vs rest] p assms(4) s(1) show ?thesis by auto
qed

definition sample_message :: "byte list" where
  "sample_message =
    to_le_bytes WRAPPER_MAGIC @ to_le_bytes (flag_bits AlwaysSet) @ to_le_bytes (16 :: u64) @ to_le_bytes (1 :: u64) @
    to_le_bytes XPC_MAGIC @ to_le_bytes XPC_VERSION @ to_le_bytes (type_code TyBool) @ [1, 0, 0, 0]"

definition sample_frames :: "byte list" where
  "sample_frames =
    data_serialize \<lparr>df_stream_id = 1, df_payload = take 30 sample_message, df_end_stream = False\<rparr> @
    data_serialize \<lparr>df_stream_id = 1, df_payload = drop 30 sample_message, df_end_stream = False\<rparr>"

lemma sample_take_message: "\<exists>m rest. take_message map_insert sample_message = Ok (Some (m, rest)) \<and> payload_of m = Some (XBool True)"
proof -
  let ?m = "message_new None (Some (XBool True)) None"
  have e: "message_encode ?m 1 = Ok sample_message"
    by (simp add: message_encode_def message_new_def xpc_encode_def sample_message_def numeral_3_eq_3)
  have "length sample_message < 2 ^ 63" by (simp add: sample_message_def)
  from xpc_message_round_trip [OF e this] have "message_decode map_insert sample_message = Ok (?m\<lparr>msg_id := Some 1\<rparr>)"
    by (simp add: message_new_def)
  then show ?thesis by (simp add: take_message_def payload_of_def message_new_def as_dictionary_def)
qed

lemma sample_take: "\<exists>rest. payloads_of map_insert 1 sample_message = Ok (Some ([XBool True], rest))"
  using sample_take_message by (auto simp: first_payload.simps [of _ sample_message])

lemma xpc_delivers_witness:
  "\<exists>s t. xpc_client_new \<lparr>tp_in = [take 5 sample_frames, drop 5 sample_frames], tp_out = [], tp_budget = None\<rparr> = Ok s \<and>
     recv_many map_insert 1 1 (snd (do_handshake s)) = (Ok [XBool True], t)"
proof -
  let ?a = "\<lparr>df_stream_id = 1, df_payload = take 30 sample_message, df_end_stream = False\<rparr>"
  let ?b = "\<lparr>df_stream_id = 1, df_payload = drop 30 sample_message, df_end_stream = False\<rparr>"
  have l: "length sample_message = 40" by (simp add: sample_message_def)
  have "parse_frames (data_serialize ?a @ data_serialize ?b @ []) = Some [FData ?a, FData ?b]"
    using data_parse [of ?a "data_serialize ?b @ []"] data_parse [of ?b "[]"] l
    by (simp add: parse_frames.simps [of "data_serialize _ @ _"] parse_frames.simps [of "data_serialize _"])
      (simp add: data_serialize_def)
  then have p: "parse_frames (concat [take 5 sample_frames, drop 5 sample_frames]) = Some [FData ?a, FData ?b]"
    by (simp only: concat.simps append_take_drop_id append_Nil2) (simp add: sample_frames_def)
  have n: "length sample_frames = 58" by (simp add: sample_frames_def data_serialize_def l)
  have c: "concat (payloads 1 [FData ?a, FData ?b]) = sample_message" by (simp add: payloads_def frame_payload_def)
  obtain rest where r: "payloads_of map_insert 1 (concat (payloads 1 [FData ?a, FData ?b])) = Ok (Some ([XBool True], rest))"
    using sample_take c by metis
  have ne: "[] \<notin> set [take 5 sample_frames, drop 5 sample_frames]" using n by auto
  show ?thesis by (rule xpc_delivers [OF ne p _ r]) (simp_all add: no_reset_def n)
qed

section \<open>Messages a channel never gets past\<close>

text \<open>
  A message whose body does not decode for want of bytes inside the body (a body of one to seven bytes) counts as
  incomplete although all of it is there: no bytes that follow complete it, every \<open>recv\<close> of the channel waits on until the
  connection ends, and what follows is never seen.
\<close>

lemma short_body_stuck:
  assumes "length (buf @ later) < 2 ^ 63" "24 \<le> length buf" "(from_le_bytes (sub 0 4 buf) :: u32) = WRAPPER_MAGIC"
    "0 < unat (wire_body_len buf)" "unat (wire_body_len buf) < 8" "24 + unat (wire_body_len buf) \<le> length buf"
  shows "take_message ins (buf @ later) = Ok None"
proof -
  have "wire_body_len (buf @ later) = wire_body_len buf" "sub 0 4 (buf @ later) = sub 0 4 buf"
    using assms(2) by (simp_all add: wire_body_len_def)
  moreover have "wire_body_len buf \<noteq> 0" using assms(4) by auto
  ultimately show ?thesis
    using assms by (simp add: take_message_eq Let_def body_of_wire_def xpc_decode_def not_yet_def)
qed

lemma stuck_recv:
  "\<forall>later. length (partial_of ch s @ later) < 2 ^ 63 \<longrightarrow> take_message ins (partial_of ch s @ later) = Ok None \<Longrightarrow>
   xc_load [ch] s < 2 ^ 63 \<Longrightarrow> \<exists>e. fst (recv_from_channel ins ch s) = Err e \<or> fst (recv_from_channel ins ch s) = Panic"
proof (induction ins ch s rule: recv_from_channel.induct)
  case (1 ins ch s)
  have "length (partial_of ch s) < 2 ^ 63" using 1(4) by (simp add: xc_load_def)
  with 1(3) have n: "take_message ins (partial_of ch s) = Ok None" by (metis append_Nil2)
  let ?u = "set_partial ch (partial_of ch s) s"
  have b: "take_buffered ins ch s = (Ok None, ?u)" using n by (simp add: take_buffered_def)
  obtain p w where f: "fill_channel ch ?u = (p, w)" by fastforce
  show ?case
  proof (cases p)
    case (Ok x)
    from f Ok obtain c h where c: "read_stream ch (xc_h2 s) = (Ok c, h)" "w = extend_partial ch c (?u\<lparr>xc_h2 := h\<rparr>)"
      by (auto simp: fill_channel_def act_bind_Ok on_h2_def split: prod.splits)
    have w: "xc_h2 w = h" "partial_of ch w = partial_of ch s @ c" by (simp_all add: c(2) extend_partial_def)
    have "xc_load [ch] w < 2 ^ 63" using read_stream_load [OF c(1)] 1(4) by (simp add: xc_load_def w)
    moreover have "\<forall>later. length (partial_of ch w @ later) < 2 ^ 63 \<longrightarrow> take_message ins (partial_of ch w @ later) = Ok None"
      using 1(3) by (simp add: w)
    ultimately have "\<exists>e. fst (recv_from_channel ins ch w) = Err e \<or> fst (recv_from_channel ins ch w) = Panic"
      using 1(1) [OF b [symmetric] refl refl f [symmetric] Ok] by blast
    then show ?thesis using b f Ok by (simp add: recv_from_channel.simps [of ins ch s])
  qed (use b f in \<open>simp_all add: recv_from_channel.simps [of ins ch s]\<close>)
qed



lemma pump_closed: "h_input s = [] \<Longrightarrow> fst (pump s) = Err CLOSED"
proof -
  assume "h_input s = []"
  then have i: "h_recv_buf s = []" "tp_pending (h_inner s) = []" by (simp_all add: h_input_def)
  obtain tmp j where r: "tp_read 16384 (h_inner s) = (tmp, j)" by fastforce
  from tp_read_pending [OF r] i(2) have "tmp = []" by simp
  then show ?thesis using i(1) r
    by (simp add: pump_def act_bind_def next_frame.simps [of s] frame_parse_def FRAME_HEADER_LEN_def)
qed

lemma read_any_closed:
  assumes "h_input s = []" "\<forall>sid \<in> set sids. cached s sid = []"
  shows "fst (read_any sids s) = Err CLOSED"
proof -
  let ?s = "fold or_default sids s"
  have "pop_any xs ?s = None" if "set xs \<subseteq> set sids" for xs
    using that
  proof (induction xs)
    case (Cons x xs)
    then have "cached ?s x = []" using assms(2) by simp
    then have "pop_front x ?s = None" by (auto simp: pop_front_def cached_def split: option.splits)
    with Cons show ?case by simp
  qed simp
  moreover have "fst (pump ?s) = Err CLOSED" by (rule pump_closed) (simp add: assms(1))
  ultimately show ?thesis
    by (cases "pump ?s") (simp add: read_any_def act_bind_def read_any_loop.simps [of sids ?s])
qed

text \<open>
  \<open>recv_any\<close> takes at most one message of each channel before it reads again. Behind a keepalive it leaves a whole message in
  the buffer and waits for the peer; \<open>recv_root\<close> would have returned it. When the peer says no more, the
  message is never delivered.
\<close>

theorem xpc_recv_any_waits:
  assumes "take_message ins (partial_of ROOT_CHANNEL s) = Ok (Some (keepalive, rest))" and "payload_of keepalive = None"
    and "take_message ins rest = Ok (Some (msg, rest'))" and "payload_of msg = Some v"
    and "take_message ins (partial_of REPLY_CHANNEL s) = Ok None"
    and "h_input (xc_h2 s) = []" and "cached (xc_h2 s) ROOT_CHANNEL = []" and "cached (xc_h2 s) REPLY_CHANNEL = []"
  shows "fst (recv_any_object ins s) = Err CLOSED \<and> fst (recv_from_channel ins ROOT_CHANNEL s) = Ok v"
proof
  let ?t = "set_partial ROOT_CHANNEL rest s"
  have ne: "REPLY_CHANNEL \<noteq> ROOT_CHANNEL" by (simp add: ROOT_CHANNEL_def REPLY_CHANNEL_def)
  have b: "take_buffered ins ROOT_CHANNEL s = (Ok (Some keepalive), ?t)" using assms(1) by (simp add: take_buffered_def)
  have c: "take_buffered ins ROOT_CHANNEL ?t = (Ok (Some msg), set_partial ROOT_CHANNEL rest' ?t)"
    using assms(3) by (simp add: take_buffered_def)
  show "fst (recv_from_channel ins ROOT_CHANNEL s) = Ok v"
    using b c assms(2,4) by (simp add: recv_from_channel.simps [of ins ROOT_CHANNEL])
  obtain u where u: "take_any ins RECV_CHANNELS s = (Ok None, u)" "xc_h2 u = xc_h2 s"
    using b assms(2,5) ne by (simp add: RECV_CHANNELS_def take_buffered_def)
  obtain q h where r: "read_any RECV_CHANNELS (xc_h2 s) = (q, h)" by fastforce
  have "q = Err CLOSED" using read_any_closed [of "xc_h2 s" RECV_CHANNELS] assms(6-8) r by (auto simp: RECV_CHANNELS_def)
  then show "fst (recv_any_object ins s) = Err CLOSED"
    using u r by (simp add: recv_any_object.simps [of ins s] fill_any_def on_h2_def act_bind_def)
qed

lemma take_bodyless:
  "take_message ins (to_le_bytes WRAPPER_MAGIC @ to_le_bytes (f :: u32) @ to_le_bytes (0 :: u64) @ to_le_bytes (i :: u64) @ rest) =
     Ok (Some (\<lparr>msg_flags = f, msg_body = None, msg_id = Some i\<rparr>, rest))" if "length rest < 2 ^ 62"
  using that by (simp add: take_message_eq body_of_wire_def wire_message_def wire_body_len_def)

lemma xpc_recv_any_waits_witness:
  "\<exists>s v. fst (recv_any_object map_insert s) = Err CLOSED \<and> fst (recv_from_channel map_insert ROOT_CHANNEL s) = Ok v \<and>
     h_input (xc_h2 s) = [] \<and> v = XBool True"
proof -
  let ?b = "to_le_bytes WRAPPER_MAGIC @ to_le_bytes (1 :: u32) @ to_le_bytes (0 :: u64) @ to_le_bytes (1 :: u64) @ sample_message"
  let ?s = "\<lparr>xc_h2 = h2_client_of [] [], xc_root_id = 1, xc_partial = [ROOT_CHANNEL \<mapsto> ?b], xc_next_file = 5\<rparr>"
  obtain m rest where m: "take_message map_insert sample_message = Ok (Some (m, rest))" "payload_of m = Some (XBool True)"
    using sample_take_message by blast
  have l: "length sample_message < 2 ^ 62" by (simp add: sample_message_def)
  have p: "partial_of ROOT_CHANNEL ?s = ?b" "partial_of REPLY_CHANNEL ?s = []"
    by (simp_all add: partial_of_def ROOT_CHANNEL_def REPLY_CHANNEL_def)
  have e: "take_message map_insert [] = Ok None" by (simp add: take_message_def message_decode_def not_yet_def)
  have h: "h_input (xc_h2 ?s) = []" "cached (xc_h2 ?s) c = []" for c
    by (simp_all add: h2_client_of_def h_input_def tp_pending_def cached_def)
  have "fst (recv_any_object map_insert ?s) = Err CLOSED \<and> fst (recv_from_channel map_insert ROOT_CHANNEL ?s) = Ok (XBool True)"
    by (rule xpc_recv_any_waits [OF _ _ m])
      (simp_all only: p e h take_bodyless [OF l], simp_all add: payload_of_def)
  then show ?thesis using h(1) by blast
qed

end
