(* ===== verification/Rsd.thy ===== *)
theory Rsd
  imports Xpc_Client Device
begin

text \<open>
  services/rsd.rs: remote service discovery. The device advertises its services over RemoteXPC; a client looks one up by
  name and connects to its port. The conversion of an XPC object to a property list, the device's ports and the
  services' own constructors are parameters.
\<close>

section \<open>What the device advertises\<close>

record rsd_service =
  rs_entitlement :: rstring
  rs_port :: nat
  rs_uses_remote_xpc :: bool
  rs_features :: "rstring list option"
  rs_service_version :: "i64 option"

record rsd_handshake =
  rh_services :: "rstring \<rightharpoonup> rsd_service"
  rh_advertised :: plist_dict
  rh_protocol_version :: u64
  rh_properties :: "rstring \<rightharpoonup> plist_value"
  rh_uuid :: rstring

definition u16_of :: "int \<Rightarrow> nat option" where
  "u16_of i = (if 0 \<le> i \<and> i < 2 ^ 16 then Some (nat i) else None)"

definition parse_service_port :: "plist_value \<Rightarrow> nat option" where
  "parse_service_port v =
    Option.bind
      (case plist_as_string v of
         Some text \<Rightarrow> parse_unsigned 16 text
       | None \<Rightarrow>
           (case plist_as_unsigned_integer v of
              Some n \<Rightarrow> u16_of (uint n)
            | None \<Rightarrow> Option.bind (plist_as_signed_integer v) (\<lambda>n. u16_of (sint n))))
      (\<lambda>port. if port \<noteq> 0 then Some port else None)"

text \<open>\<open>service.get("Properties").and_then(as_dictionary).and_then(|x| x.get(k))\<close>\<close>

definition service_property :: "plist_dict \<Rightarrow> string \<Rightarrow> plist_value option" where
  "service_property service k =
    Option.bind (Option.bind (dict_get service ''Properties'') plist_as_dictionary) (\<lambda>x. dict_get x k)"

definition parse_service :: "plist_dict \<Rightarrow> rsd_service option" where
  "parse_service service =
    map_option (\<lambda>port.
      \<lparr>rs_entitlement = (case Option.bind (dict_get service ''Entitlement'') plist_as_string of Some e \<Rightarrow> e | None \<Rightarrow> []),
       rs_port = port,
       rs_uses_remote_xpc = (case Option.bind (service_property service ''UsesRemoteXPC'') plist_as_boolean of Some e \<Rightarrow> e | None \<Rightarrow> False),
       rs_features = map_option (List.map_filter plist_as_string) (Option.bind (service_property service ''Features'') plist_as_array),
       rs_service_version = Option.bind (service_property service ''ServiceVersion'') plist_as_signed_integer\<rparr>)
      (Option.bind (dict_get service ''Port'') parse_service_port)"

definition parse_services_dict :: "plist_dict \<Rightarrow> (rstring \<rightharpoonup> rsd_service)" where
  "parse_services_dict services_dict =
    fold (\<lambda>(name, service) services.
      case Option.bind (plist_as_dictionary service) parse_service of
        Some s \<Rightarrow> services(name \<mapsto> s)
      | None \<Rightarrow> services) services_dict Map.empty"

text \<open>What \<open>RsdHandshake::new\<close> makes of the device's answer.\<close>

definition missing :: "string \<Rightarrow> idevice_error" where
  "missing what = UnexpectedResponse (''missing '' @ what @ '' in RSD handshake'')"

definition handshake_of :: "plist_value \<Rightarrow> (rsd_handshake, idevice_error) res" where
  "handshake_of data =
    (let dict = plist_as_dictionary data;
         field = (\<lambda>k. Option.bind dict (\<lambda>x. dict_get x k))
     in rbind (ok_or (missing ''Services dictionary'') (Option.bind (field ''Services'') plist_as_dictionary)) (\<lambda>services_dict.
        rbind (ok_or (missing ''MessagingProtocolVersion'') (Option.bind (field ''MessagingProtocolVersion'') plist_as_signed_integer)) (\<lambda>protocol_version.
        rbind (ok_or (missing ''UUID'') (Option.bind (field ''UUID'') plist_as_string)) (\<lambda>uuid.
        rbind (ok_or (missing ''Properties dictionary'') (Option.bind (field ''Properties'') plist_as_dictionary)) (\<lambda>properties.
          Ok \<lparr>rh_services = parse_services_dict services_dict, rh_advertised = services_dict,
            rh_protocol_version = ucast protocol_version, rh_properties = fold (\<lambda>(k, v) m. m(k \<mapsto> v)) properties Map.empty,
            rh_uuid = uuid\<rparr>)))))"

definition rsd_handshake_new :: "dict_insert \<Rightarrow> (xpc_object \<Rightarrow> plist_value) \<Rightarrow> byte list \<Rightarrow> transport \<Rightarrow> (rsd_handshake, idevice_error) res" where
  "rsd_handshake_new ins to_pl uuid socket =
    rbind (xpc_client_new socket) (\<lambda>client.
      fst (act_bind do_handshake (\<lambda>_.
           act_bind (send_device_handshake ins uuid) (\<lambda>_.
           act_bind (recv_root ins to_pl) (\<lambda>data. act_res (handshake_of data)))) client))"

definition rsd_connect :: "rstring \<Rightarrow> (nat \<Rightarrow> ('p, 'io) act) \<Rightarrow> ('io \<Rightarrow> ('p, 't) act) \<Rightarrow> rsd_handshake \<Rightarrow> ('p, 't) act" where
  "rsd_connect service_name connect_to_service_port from_stream h =
    (case rh_services h service_name of
       None \<Rightarrow> act_err ServiceNotFound
     | Some service \<Rightarrow> act_bind (connect_to_service_port (rs_port service)) from_stream)"

section \<open>The services a client can look up\<close>

lemma parse_services_from:
  "fold (\<lambda>(name, service) services.
      case Option.bind (plist_as_dictionary service) parse_service of Some s \<Rightarrow> services(name \<mapsto> s) | None \<Rightarrow> services) d m n =
   (case map_of (List.map_filter (\<lambda>(k, v). map_option (Pair k) (Option.bind (plist_as_dictionary v) parse_service)) (rev d)) n of
      Some s \<Rightarrow> Some s | None \<Rightarrow> m n)"
proof (induction d arbitrary: m)
  case (Cons e d)
  obtain k v where e: "e = (k, v)" by fastforce
  show ?case
    by (cases "Option.bind (plist_as_dictionary v) parse_service")
      (auto simp: Cons.IH e map_filter_def map_add_def split: option.splits)
qed (simp add: map_filter_def)

text \<open>The ports accepted are those of the \<open>u16\<close> range but 0, written as a number or in decimal.\<close>

lemma parse_service_port_iff:
  "parse_service_port v = Some p \<longleftrightarrow>
     0 < p \<and> p < 2 ^ 16 \<and> (v = PInteger (int p) \<or> (\<exists>s. v = PString s \<and> parse_unsigned 16 s = Some p))"
proof -
  have b: "parse_unsigned 16 s = Some p \<Longrightarrow> p < 2 ^ 16" for s
    by (auto simp: parse_unsigned_def Let_def split: if_splits)
  have u: "u16_of i = Some p \<longleftrightarrow> i = int p \<and> p < 2 ^ 16" for i
    by (auto simp: u16_of_def)
  show ?thesis
  proof (cases v)
    case (PInteger i)
    have "parse_service_port v = Some p \<longleftrightarrow> u16_of i = Some p \<and> 0 < p"
    proof (cases "as_unsigned i")
      case (Some w)
      then show ?thesis
        by (auto simp: parse_service_port_def PInteger plist_as_string_def plist_as_unsigned_integer_def as_unsigned_Some
            split: bind_splits if_splits)
    next
      case None
      then have i: "i < 0 \<or> 2 ^ 64 \<le> i" by (auto simp: as_unsigned_def split: if_splits)
      then have "u16_of i = None" by (auto simp: u16_of_def)
      moreover have "as_signed i = Some w \<Longrightarrow> u16_of (sint w) = None" for w
        using i by (auto simp: as_signed_def u16_of_def sint_sbintrunc' signed_take_bit_int_eq_self split: if_splits)
      ultimately show ?thesis using None
        by (auto simp: parse_service_port_def PInteger plist_as_string_def plist_as_unsigned_integer_def plist_as_signed_integer_def
            split: bind_splits)
    qed
    with PInteger u show ?thesis by auto
  next
    case (PString s)
    with b show ?thesis by (auto simp: parse_service_port_def plist_as_string_def split: bind_splits if_splits)
  qed (auto simp: parse_service_port_def plist_as_string_def plist_as_unsigned_integer_def plist_as_signed_integer_def)
qed

end
