(* ===== verification/Tss.thy ===== *)
theory Tss
  imports Http_Client Lockdown
begin

text \<open>
  tss.rs: requests to Apple's ticket signature server. A request is a dictionary that the callers fill from a build identity and the
  device's parameters; restore-request rules rewrite the entries of its components. The dictionary type of the plist crate (insertion,
  removal, equality of values), the property-list writer and reader and the UUID are parameters.
\<close>

section \<open>Dictionaries\<close>

record dict_lib =
  dl_insert :: "rstring \<Rightarrow> plist_value \<Rightarrow> plist_dict \<Rightarrow> plist_dict"
  dl_remove :: "rstring \<Rightarrow> plist_dict \<Rightarrow> plist_dict"
  dl_eq :: "plist_value \<Rightarrow> plist_value \<Rightarrow> bool"

locale plist_dictionary =
  fixes dl :: dict_lib
  assumes get_insert: "map_of (dl_insert dl k v d) x = (if x = k then Some v else map_of d x)"
    and get_remove: "map_of (dl_remove dl k d) x = (if x = k then None else map_of d x)"

definition alist_dict :: dict_lib where
  "alist_dict = \<lparr>dl_insert = map_insert, dl_remove = AList.delete, dl_eq = (=)\<rparr>"

interpretation alist_dictionary: plist_dictionary alist_dict
  by unfold_locales (simp_all add: alist_dict_def map_insert_def update_conv' delete_conv')

definition starts_with :: "rstring \<Rightarrow> string \<Rightarrow> bool" where
  "starts_with s p \<longleftrightarrow> strip_prefix (rstr p) s \<noteq> None"

text \<open>\<open>trim_start_matches\<close> takes the prefix off as often as it is there.\<close>

function trim_start_matches :: "rstring \<Rightarrow> rstring \<Rightarrow> rstring" where
  "trim_start_matches p s =
    (if p = [] then s else case strip_prefix p s of Some r \<Rightarrow> trim_start_matches p r | None \<Rightarrow> s)"
  by pat_completeness auto
termination trim_start_matches
  by (relation "measure (\<lambda>(p, s). length s)") (auto simp: strip_prefix_def split: if_splits intro!: diff_less)

declare trim_start_matches.simps [simp del]

function split_sub :: "rstring \<Rightarrow> rstring \<Rightarrow> rstring list" where
  "split_sub p s =
    (if p = [] then [s]
     else case find_sub p s of
       None \<Rightarrow> [s]
     | Some i \<Rightarrow> take i s # split_sub p (drop (i + length p) s))"
  by pat_completeness auto
termination split_sub
  by (relation "measure (\<lambda>(p, s). length s)") (auto dest!: find_sub_bound intro!: diff_less)

declare split_sub.simps [simp del]

section \<open>Restore-request rules\<close>

text \<open>The parameter a condition of a rule asks for.\<close>

definition condition_parameter :: "plist_dict \<Rightarrow> rstring \<Rightarrow> plist_value option" where
  "condition_parameter parameters key =
    (if key = rstr ''ApRawProductionMode'' then dict_get parameters ''ApProductionMode''
     else if key = rstr ''ApCurrentProductionMode'' then dict_get parameters ''ApProductionMode''
     else if key = rstr ''ApRawSecurityMode'' then dict_get parameters ''ApSecurityMode''
     else if key = rstr ''ApRequiresImage4'' then dict_get parameters ''ApSupportsImg4''
     else if key = rstr ''ApDemotionPolicyOverride'' then dict_get parameters ''DemotionPolicy''
     else if key = rstr ''ApInRomDFU'' then dict_get parameters ''ApInRomDFU''
     else None)"

definition conditions_fulfilled :: "dict_lib \<Rightarrow> plist_dict \<Rightarrow> plist_dict \<Rightarrow> bool" where
  "conditions_fulfilled dl parameters conditions \<longleftrightarrow>
    list_all (\<lambda>(key, v). case condition_parameter parameters key of Some v2 \<Rightarrow> dl_eq dl v2 v | None \<Rightarrow> False) conditions"

text \<open>255 means: leave the entry as it is.\<close>

definition ignored_action :: "plist_value \<Rightarrow> bool" where
  "ignored_action v \<longleftrightarrow> plist_as_unsigned_integer v = Some 255 \<or> plist_as_signed_integer v = Some 255"

definition apply_action :: "dict_lib \<Rightarrow> rstring \<times> plist_value \<Rightarrow> plist_dict \<Rightarrow> plist_dict" where
  "apply_action dl a input =
    (if ignored_action (snd a) then input else dl_insert dl (fst a) (snd a) (dl_remove dl (fst a) input))"

definition rule_actions :: "dict_lib \<Rightarrow> plist_dict \<Rightarrow> plist_value \<Rightarrow> plist_dict" where
  "rule_actions dl parameters rule =
    (case plist_as_dictionary rule of
       None \<Rightarrow> []
     | Some rule \<Rightarrow>
         (case Option.bind (dict_get rule ''Conditions'') plist_as_dictionary of
            None \<Rightarrow> []
          | Some conditions \<Rightarrow>
              if conditions_fulfilled dl parameters conditions
              then (case Option.bind (dict_get rule ''Actions'') plist_as_dictionary of None \<Rightarrow> [] | Some actions \<Rightarrow> actions)
              else []))"

definition apply_restore_request_rules :: "dict_lib \<Rightarrow> plist_dict \<Rightarrow> plist_value list \<Rightarrow> plist_dict \<Rightarrow> plist_dict" where
  "apply_restore_request_rules dl parameters rules input =
    fold (\<lambda>rule. fold (apply_action dl) (rule_actions dl parameters rule)) rules input"

section \<open>Requests\<close>

type_synonym tss_request = plist_dict

definition TSS_CLIENT_VERSION_STRING :: rstring where
  "TSS_CLIENT_VERSION_STRING = rstr ''libauthinstall-1033.0.2''"

definition TSS_CONTROLLER_ACTION_URL :: rstring where
  "TSS_CONTROLLER_ACTION_URL = rstr ''http://gs.apple.com/TSS/controller?action=2''"

text \<open>The UUID is the text of a random one, in upper case.\<close>

definition tss_new :: "rstring \<Rightarrow> tss_request" where
  "tss_new uuid =
    [(rstr ''@HostPlatformInfo'', PString (rstr ''mac'')), (rstr ''@VersionInfo'', PString TSS_CLIENT_VERSION_STRING),
     (rstr ''@UUID'', PString uuid)]"

definition tss_insert :: "dict_lib \<Rightarrow> rstring \<Rightarrow> plist_value \<Rightarrow> (tss_request, unit) act" where
  "tss_insert dl key v = act_upd (dl_insert dl key v)"

definition tss_remove :: "dict_lib \<Rightarrow> rstring \<Rightarrow> (tss_request, plist_value option) act" where
  "tss_remove dl key q = (Ok (map_of q key), dl_remove dl key q)"

text \<open>The property list in what the server answers.\<close>

definition tss_answer :: "plist_lib \<Rightarrow> rstring \<Rightarrow> (plist_value, idevice_error) res" where
  "tss_answer pl text =
    (let trimmed = trim_start_matches (rstr ''MESSAGE='') (trim_start_matches (rstr ''STATUS=0&'') text)
     in if \<not> starts_with trimmed ''SUCCESS'' then
          Err (UnexpectedResponse (''TSS server responded with non-success status ('' @
            text_of (trim_text (hd (split_sub (rstr ''&REQUEST_STRING='') text))) @ '')''))
        else
          (case split_sub (rstr ''REQUEST_STRING='') text of
             _ # body # _ \<Rightarrow> pl_from_bytes pl body
           | _ \<Rightarrow> Err (UnexpectedResponse ''TSS response missing REQUEST_STRING'')))"

definition tss_send :: "plist_lib \<Rightarrow> (plist_dict \<Rightarrow> byte list) \<Rightarrow> tss_request \<Rightarrow> (http_net, plist_value) act" where
  "tss_send pl to_xml q =
    act_bind (http_send
        (http_set_body (to_xml q)
        (http_add_header (rstr ''User-Agent'') (rstr ''InetURL/1.0'')
        (http_add_header (rstr ''Content-type'') (rstr ''text/xml; charset='' @ [0x22] @ rstr ''utf-8'' @ [0x22])
        (http_add_header (rstr ''Cache-Control'') (rstr ''no-cache'')
        (http_request_new HttpPost TSS_CONTROLLER_ACTION_URL))))))
      (\<lambda>res. act_res (tss_answer pl (http_text res)))"

definition set_ap_img4_ticket :: "dict_lib \<Rightarrow> bool \<Rightarrow> (tss_request, unit) act" where
  "set_ap_img4_ticket dl v = tss_insert dl (rstr ''@ApImg4Ticket'') (PBoolean v)"

definition set_bb_ticket :: "dict_lib \<Rightarrow> bool \<Rightarrow> (tss_request, unit) act" where
  "set_bb_ticket dl v = tss_insert dl (rstr ''@BBTicket'') (PBoolean v)"

text \<open>A sequence of insertions, each of which may fail; a failure leaves the ones before it.\<close>

primrec tss_inserts :: "dict_lib \<Rightarrow> (rstring \<times> (plist_value, idevice_error) res) list \<Rightarrow> (tss_request, unit) act" where
  "tss_inserts dl [] = act_ok ()"
| "tss_inserts dl (e # es) =
    act_bind (act_res (snd e)) (\<lambda>v. act_bind (tss_insert dl (fst e) v) (\<lambda>_. tss_inserts dl es))"

definition tss_missing :: "rstring \<Rightarrow> idevice_error" where
  "tss_missing key = UnexpectedResponse (''cryptex identity is missing '' @ text_of key)"

definition required :: "plist_dict \<Rightarrow> rstring \<Rightarrow> (plist_value, idevice_error) res" where
  "required dict key = ok_or (tss_missing key) (map_of dict key)"

definition as_number :: "plist_value \<Rightarrow> rstring \<Rightarrow> (plist_value, idevice_error) res" where
  "as_number v key =
    (case v of
       PInteger i \<Rightarrow>
         ok_or (UnexpectedResponse (text_of key @ '' is not an unsigned integer'')) (map_option (\<lambda>n. PInteger (uint n)) (as_unsigned i))
     | PString s \<Rightarrow>
         (let trimmed = trim_start_matches (rstr ''0x'') s
          in ok_or (UnexpectedResponse (text_of key @ '' is not a number: '' @ text_of s))
               (map_option (\<lambda>n. PInteger (int n))
                 (if length trimmed = length s then parse_unsigned 64 trimmed else parse_hex 64 trimmed)))
     | _ \<Rightarrow> Err (UnexpectedResponse (text_of key @ '' is neither an integer nor a string'')))"


text \<open>\<open>starts_with("0x")\<close> values become numbers where they can.\<close>

definition convert_hex :: "plist_value \<Rightarrow> plist_value" where
  "convert_hex v =
    (case v of
       PString s \<Rightarrow>
         if starts_with s ''0x'' then
           (case parse_hex 64 (trim_start_matches (rstr ''0x'') s) of Some n \<Rightarrow> PInteger (int n) | None \<Rightarrow> v)
         else v
     | _ \<Rightarrow> v)"

definition add_build_identity_tags :: "dict_lib \<Rightarrow> plist_dict \<Rightarrow> rstring list \<Rightarrow> tss_request \<Rightarrow> tss_request" where
  "add_build_identity_tags dl build_identity =
    fold (\<lambda>key q. case map_of build_identity key of Some v \<Rightarrow> dl_insert dl key (convert_hex v) q | None \<Rightarrow> q)"

definition add_ap_personalization_identifiers :: "dict_lib \<Rightarrow> plist_dict \<Rightarrow> tss_request \<Rightarrow> tss_request" where
  "add_ap_personalization_identifiers dl =
    fold (\<lambda>(key, val) q. if starts_with key ''Ap,'' then dl_insert dl key val q else q)"

definition add_common_tags :: "dict_lib \<Rightarrow> u64 \<Rightarrow> u64 \<Rightarrow> u64 \<Rightarrow> byte list option \<Rightarrow> byte list option \<Rightarrow> tss_request \<Rightarrow> tss_request" where
  "add_common_tags dl board_id chip_id ecid ap_nonce sep_nonce q =
    fold (\<lambda>(k, v). dl_insert dl (rstr k) v)
      ([(''ApBoardID'', PInteger (uint board_id)), (''ApChipID'', PInteger (uint chip_id)), (''ApECID'', PInteger (uint ecid)),
        (''ApProductionMode'', PBoolean True), (''ApSecurityDomain'', PInteger 1), (''ApSecurityMode'', PBoolean True),
        (''UID_MODE'', PBoolean False)] @
       (case ap_nonce of Some n \<Rightarrow> [(''ApNonce'', PData n)] | None \<Rightarrow> []) @
       (case sep_nonce of Some n \<Rightarrow> [(''SepNonce'', PData n)] | None \<Rightarrow> [])) q"

definition AP_TAG_KEYS :: "string list" where
  "AP_TAG_KEYS =
    [''UniqueBuildID'', ''Ap,OSLongVersion'', ''Ap,OSReleaseType'', ''Ap,ProductType'', ''Ap,SDKPlatform'', ''Ap,SikaFuse'',
     ''Ap,Target'', ''Ap,TargetType'', ''Ap,ProductMarketingVersion'', ''ApBoardID'', ''ApChipID'', ''ApSecurityDomain'',
     ''BMU,BoardID'', ''BMU,ChipID'', ''BbChipID'', ''BbProvisioningManifestKeyHash'', ''BbActivationManifestKeyHash'',
     ''BbCalibrationManifestKeyHash'', ''BbFactoryActivationManifestKeyHash'', ''BbFDRSecurityKeyHash'', ''BbSkeyId'',
     ''SE,ChipID'', ''Savage,ChipID'', ''Savage,PatchEpoch'', ''Yonkers,BoardID'', ''Yonkers,ChipID'', ''Yonkers,PatchEpoch'',
     ''Rap,BoardID'', ''Rap,ChipID'', ''Rap,SecurityDomain'', ''Baobab,BoardID'', ''Baobab,ChipID'', ''Baobab,ManifestEpoch'',
     ''Baobab,SecurityDomain'', ''eUICC,ChipID'', ''PearlCertificationRootPub'', ''Timer,BoardID,1'', ''Timer,BoardID,2'',
     ''Timer,ChipID,1'', ''Timer,ChipID,2'', ''Timer,SecurityDomain,1'', ''Timer,SecurityDomain,2'', ''NeRDEpoch'']"

definition add_ap_tags :: "dict_lib \<Rightarrow> plist_dict \<Rightarrow> tss_request \<Rightarrow> tss_request" where
  "add_ap_tags dl build_identity q =
    (let q = add_build_identity_tags dl build_identity (map rstr AP_TAG_KEYS) q
     in case Option.bind (Option.bind (dict_get build_identity ''Info'') plist_as_dictionary) (\<lambda>i. dict_get i ''RequiresUIDMode'') of
          Some r \<Rightarrow> dl_insert dl (rstr ''RequiresUIDMode'') r q
        | None \<Rightarrow> q)"

definition manifest_of :: "plist_dict \<Rightarrow> (plist_dict, idevice_error) res" where
  "manifest_of build_identity = ok_or BadBuildManifest (Option.bind (dict_get build_identity ''Manifest'') plist_as_dictionary)"

definition bool_of :: "plist_value option \<Rightarrow> bool" where
  "bool_of v = (Option.bind v plist_as_boolean = Some True)"

definition SKIP_KEYS :: "string list" where
  "SKIP_KEYS = [''BasebandFirmware'', ''SE,UpdatePayload'', ''BaseSystem'', ''Diags'', ''Ap,ExclaveOS'']"

text \<open>\<open>manifest_item.clone()\<close> without \<open>Info\<close>, after the rules.\<close>

definition ruled_entry :: "dict_lib \<Rightarrow> plist_dict \<Rightarrow> plist_value list option \<Rightarrow> plist_dict \<Rightarrow> plist_dict" where
  "ruled_entry dl parameters rules item =
    (let node = dl_remove dl (rstr ''Info'') item
     in case rules of Some rs \<Rightarrow> apply_restore_request_rules dl parameters rs node | None \<Rightarrow> node)"

definition own_rules :: "plist_dict \<Rightarrow> plist_value list option" where
  "own_rules info = Option.bind (dict_get info ''RestoreRequestRules'') plist_as_array"

definition ap_manifest_entry :: "dict_lib \<Rightarrow> plist_dict \<Rightarrow> bool \<Rightarrow> rstring \<times> plist_value \<Rightarrow> tss_request \<Rightarrow> tss_request" where
  "ap_manifest_entry dl parameters supports_img4 e q =
    (if fst e \<in> set (map rstr SKIP_KEYS) \<or> starts_with (fst e) ''Cryptex1,'' then q
     else case plist_as_dictionary (snd e) of
       None \<Rightarrow> q
     | Some item \<Rightarrow>
         (case Option.bind (dict_get item ''Info'') plist_as_dictionary of
            None \<Rightarrow> q
          | Some info \<Rightarrow>
              if supports_img4 \<and> dict_get info ''RestoreRequestRules'' = None then q
              else if bool_of (dict_get info ''IsFTAB'') then q
              else
                let entry = ruled_entry dl parameters (own_rules info) item;
                    entry = (if bool_of (dict_get item ''Trusted'') \<and> dict_get entry ''Digest'' = None
                             then dl_insert dl (rstr ''Digest'') (PData []) entry else entry)
                in dl_insert dl (fst e) (PDictionary entry) q))"

definition add_ap_manifest_tags :: "dict_lib \<Rightarrow> plist_dict \<Rightarrow> plist_dict \<Rightarrow> (tss_request, unit) act" where
  "add_ap_manifest_tags dl build_identity parameters =
    act_bind (act_res (manifest_of build_identity)) (\<lambda>manifest.
      act_upd (fold (ap_manifest_entry dl parameters (bool_of (dict_get parameters ''ApSupportsImg4''))) manifest))"

definition populate_entry :: "dict_lib \<Rightarrow> plist_dict \<Rightarrow> plist_value list option \<Rightarrow> rstring \<times> plist_value \<Rightarrow> tss_request \<Rightarrow> tss_request" where
  "populate_entry dl parameters rules_override e q =
    (case plist_as_dictionary (snd e) of
       None \<Rightarrow> q
     | Some item \<Rightarrow>
         (case Option.bind (dict_get item ''Info'') plist_as_dictionary of
            None \<Rightarrow> q
          | Some info \<Rightarrow>
              if \<not> bool_of (dict_get item ''Trusted'') then q
              else
                let entry = ruled_entry dl parameters (case rules_override of Some r \<Rightarrow> Some r | None \<Rightarrow> own_rules info) item;
                    entry = (if dict_get item ''Digest'' = None then dl_insert dl (rstr ''Digest'') (PData []) entry else entry)
                in dl_insert dl (fst e) (PDictionary entry) q))"

definition populate_from_manifest :: "dict_lib \<Rightarrow> plist_dict \<Rightarrow> plist_dict \<Rightarrow> plist_value list option \<Rightarrow> (tss_request, unit) act" where
  "populate_from_manifest dl build_identity parameters rules_override =
    act_bind (act_res (manifest_of build_identity)) (\<lambda>manifest.
      act_upd (fold (populate_entry dl parameters rules_override) manifest))"

definition BB_TAG_KEYS :: "string list" where
  "BB_TAG_KEYS =
    [''BbChipID'', ''BbProvisioningManifestKeyHash'', ''BbActivationManifestKeyHash'', ''BbCalibrationManifestKeyHash'',
     ''BbFactoryActivationManifestKeyHash'', ''BbFDRSecurityKeyHash'', ''BbSkeyId'', ''BbNonce'', ''BbGoldCertId'', ''BbSNUM'',
     ''PearlCertificationRootPub'', ''Ap,OSLongVersion'']"

definition baseband_firmware :: "dict_lib \<Rightarrow> plist_dict \<Rightarrow> plist_dict \<Rightarrow> plist_dict" where
  "baseband_firmware dl parameters bbfw =
    (let d = dl_remove dl (rstr ''Info'') bbfw;
         cert = Option.bind (dict_get parameters ''BbGoldCertId'') plist_as_unsigned_integer
     in if Option.bind (dict_get parameters ''BbChipID'') plist_as_unsigned_integer = Some 0x68 then
          (if cert = Some 0x26F3FACC \<or> cert = Some 0x5CF2EC4E \<or> cert = Some 0x8399785A
           then dl_remove dl (rstr ''RestorePSI2-PartialDigest'') (dl_remove dl (rstr ''PSI2-PartialDigest'') d)
           else dl_remove dl (rstr ''RestorePSI-PartialDigest'') (dl_remove dl (rstr ''PSI-PartialDigest'') d))
        else d)"

definition add_baseband_tags :: "dict_lib \<Rightarrow> plist_dict \<Rightarrow> tss_request \<Rightarrow> tss_request" where
  "add_baseband_tags dl parameters q =
    (let q = dl_insert dl (rstr ''@BBTicket'') (PBoolean True) q;
         q = fold (\<lambda>key q. case dict_get parameters key of Some v \<Rightarrow> dl_insert dl (rstr key) v q | None \<Rightarrow> q) BB_TAG_KEYS q
     in case Option.bind (Option.bind (Option.bind (dict_get parameters ''Manifest'') plist_as_dictionary)
               (\<lambda>m. dict_get m ''BasebandFirmware'')) plist_as_dictionary of
          Some bbfw \<Rightarrow> dl_insert dl (rstr ''BasebandFirmware'') (PDictionary (baseband_firmware dl parameters bbfw)) q
        | None \<Rightarrow> q)"

section \<open>Cryptex tickets\<close>

definition chip_field :: "plist_dict \<Rightarrow> string \<Rightarrow> (u64, idevice_error) res" where
  "chip_field chip_instance key =
    ok_or (UnexpectedResponse (''chip instance is missing an unsigned '' @ key))
      (Option.bind (dict_get chip_instance key) plist_as_unsigned_integer)"

definition cryptex1_udid :: "plist_dict \<Rightarrow> (byte list, idevice_error) res" where
  "cryptex1_udid chip_instance =
    rbind (chip_field chip_instance ''img4_chip_chip'') (\<lambda>chip.
    rbind (chip_field chip_instance ''img4_chip_ecid'') (\<lambda>ecid. Ok (to_be_bytes chip @ to_be_bytes ecid)))"

definition cryptex_production :: "plist_dict \<Rightarrow> (plist_value, idevice_error) res" where
  "cryptex_production chip_instance =
    rbind (required chip_instance (rstr ''img4_chip_cpro'')) (\<lambda>v.
      case plist_as_boolean v of
        Some b \<Rightarrow> Ok (PBoolean b)
      | None \<Rightarrow>
          ok_or (UnexpectedResponse ''img4_chip_cpro is not a boolean'')
            (map_option (\<lambda>n. PBoolean (n \<noteq> 0)) (plist_as_unsigned_integer v)))"

definition cryptex_number :: "plist_dict \<Rightarrow> string \<Rightarrow> (plist_value, idevice_error) res" where
  "cryptex_number build_identity key = rbind (required build_identity (rstr key)) (\<lambda>v. as_number v (rstr key))"

definition cryptex_entry :: "dict_lib \<Rightarrow> rstring \<times> plist_value \<Rightarrow> (tss_request, unit) act" where
  "cryptex_entry dl e =
    (if \<not> starts_with (fst e) ''Cryptex1,'' then act_ok ()
     else case plist_as_dictionary (snd e) of
       None \<Rightarrow> act_ok ()
     | Some entry \<Rightarrow>
         if \<not> bool_of (Option.bind (Option.bind (dict_get entry ''Info'') plist_as_dictionary) (\<lambda>i. dict_get i ''Personalize''))
         then act_ok ()
         else
           act_bind (act_res (ok_or (UnexpectedResponse (text_of (fst e) @ '' has no Digest'')) (dict_get entry ''Digest''))) (\<lambda>digest.
           tss_insert dl (fst e) (PDictionary [(rstr ''Digest'', digest)])))"

primrec cryptex_entries :: "dict_lib \<Rightarrow> plist_dict \<Rightarrow> (tss_request, unit) act" where
  "cryptex_entries dl [] = act_ok ()"
| "cryptex_entries dl (e # es) = act_bind (cryptex_entry dl e) (\<lambda>_. cryptex_entries dl es)"

definition add_cryptex1_tags :: "dict_lib \<Rightarrow> plist_dict \<Rightarrow> plist_dict \<Rightarrow> byte list \<Rightarrow> (tss_request, unit) act" where
  "add_cryptex1_tags dl build_identity chip_instance nonce =
    act_bind (tss_inserts dl
      ([(rstr ''@Cryptex1,Ticket'', Ok (PBoolean True)),
        (rstr ''Cryptex1,ChipID'', cryptex_number build_identity ''Cryptex1,ChipID''),
        (rstr ''Cryptex1,ProductClass'', cryptex_number build_identity ''Cryptex1,ProductClass'')] @
       map (\<lambda>key. (rstr key, required build_identity (rstr key)))
         [''Cryptex1,Type'', ''Cryptex1,SubType'', ''Cryptex1,UseProductClass'', ''Cryptex1,NonceDomain'', ''Cryptex1,Version'',
          ''Cryptex1,PreauthorizationVersion''] @
       [(rstr ''Cryptex1,Nonce'', Ok (PData nonce)),
        (rstr ''Cryptex1,ProductionMode'', cryptex_production chip_instance),
        (rstr ''Cryptex1,UDID'', rmap PData (cryptex1_udid chip_instance)),
        (rstr ''Cryptex1,UniqueTagList'', Ok (PData []))])) (\<lambda>_.
    act_bind (act_res (ok_or (UnexpectedResponse ''cryptex identity is missing Manifest'')
        (Option.bind (dict_get build_identity ''Manifest'') plist_as_dictionary))) (\<lambda>manifest.
    cryptex_entries dl manifest))"

section \<open>Build identities and tickets\<close>

definition parse_hex_field :: "plist_value option \<Rightarrow> nat option" where
  "parse_hex_field v =
    (case v of
       Some (PString s) \<Rightarrow> parse_hex 64 (trim_start_matches (rstr ''0x'') s)
     | Some (PInteger i) \<Rightarrow> map_option unat (as_unsigned i)
     | _ \<Rightarrow> None)"

definition info_text :: "plist_dict \<Rightarrow> string \<Rightarrow> rstring option" where
  "info_text identity key =
    Option.bind (Option.bind (Option.bind (dict_get identity ''Info'') plist_as_dictionary) (\<lambda>i. dict_get i key)) plist_as_string"

definition identity_matches :: "u64 \<Rightarrow> u64 \<Rightarrow> rstring option \<Rightarrow> plist_dict \<Rightarrow> bool" where
  "identity_matches board_id chip_id restore_behavior identity \<longleftrightarrow>
    parse_hex_field (dict_get identity ''ApBoardID'') = Some (unat board_id) \<and>
    parse_hex_field (dict_get identity ''ApChipID'') = Some (unat chip_id) \<and>
    (case restore_behavior of Some b \<Rightarrow> info_text identity ''RestoreBehavior'' = Some b | None \<Rightarrow> True)"

definition build_identities :: "plist_dict \<Rightarrow> (plist_dict list, idevice_error) res" where
  "build_identities build_manifest =
    ok_or BadBuildManifest
      (map_option (List.map_filter plist_as_dictionary) (Option.bind (dict_get build_manifest ''BuildIdentities'') plist_as_array))"

definition select_build_identity :: "plist_dict \<Rightarrow> u64 \<Rightarrow> u64 \<Rightarrow> rstring option \<Rightarrow> (plist_dict, idevice_error) res" where
  "select_build_identity build_manifest board_id chip_id restore_behavior =
    rbind (build_identities build_manifest) (\<lambda>identities.
      ok_or BadBuildManifest (find (identity_matches board_id chip_id restore_behavior) identities))"

definition ends_with :: "rstring \<Rightarrow> string \<Rightarrow> bool" where
  "ends_with s p \<longleftrightarrow> strip_prefix (rev (rstr p)) (rev s) \<noteq> None"

definition select_cryptex_build_identity :: "plist_dict \<Rightarrow> (plist_dict, idevice_error) res" where
  "select_cryptex_build_identity build_manifest =
    rbind (build_identities build_manifest) (\<lambda>identities.
      ok_or BadBuildManifest
        (find (\<lambda>i. case info_text i ''Variant'' of Some v \<Rightarrow> ends_with v ''Developer Disk Image Cryptex'' | None \<Rightarrow> False) identities))"

definition extract_img4_ticket :: "plist_dict \<Rightarrow> (byte list, idevice_error) res" where
  "extract_img4_ticket response =
    (case dict_get response ''ApImg4Ticket'' of
       Some (PData d) \<Rightarrow> Ok d
     | _ \<Rightarrow> Err (UnexpectedResponse ''missing ApImg4Ticket data in TSS response''))"

section \<open>What the rules do\<close>

text \<open>The assignments of the rules whose conditions hold, in order, without the ones that say: leave it.\<close>

definition effective_actions :: "dict_lib \<Rightarrow> plist_dict \<Rightarrow> plist_value list \<Rightarrow> plist_dict" where
  "effective_actions dl parameters rules =
    filter (\<lambda>a. \<not> ignored_action (snd a)) (concat (map (rule_actions dl parameters) rules))"

definition override :: "plist_dict \<Rightarrow> (rstring \<rightharpoonup> plist_value) \<Rightarrow> (rstring \<rightharpoonup> plist_value)" where
  "override as m k = (case map_of (rev as) k of Some v \<Rightarrow> Some v | None \<Rightarrow> m k)"

lemma override_Nil [simp]: "override [] m = m"
  by (rule ext) (simp add: override_def)

lemma override_append: "override (as @ bs) m = override bs (override as m)"
  by (rule ext) (simp add: override_def map_add_def split: option.split)

lemma effective_Cons:
  "effective_actions dl p (r # rs) = filter (\<lambda>a. \<not> ignored_action (snd a)) (rule_actions dl p r) @ effective_actions dl p rs"
  by (simp add: effective_actions_def)

context plist_dictionary
begin

lemma get_action: "map_of (apply_action dl a d) = override (filter (\<lambda>a. \<not> ignored_action (snd a)) [a]) (map_of d)"
  by (rule ext) (simp add: apply_action_def override_def get_insert get_remove split: prod.split)

lemma get_actions: "map_of (fold (apply_action dl) as d) = override (filter (\<lambda>a. \<not> ignored_action (snd a)) as) (map_of d)"
proof (induction as arbitrary: d)
  case (Cons a as)
  have "filter (\<lambda>a. \<not> ignored_action (snd a)) (a # as) =
      filter (\<lambda>a. \<not> ignored_action (snd a)) [a] @ filter (\<lambda>a. \<not> ignored_action (snd a)) as" by simp
  then show ?case using Cons.IH [of "apply_action dl a d"] by (simp only: fold.simps o_apply override_append get_action)
qed simp

lemma rules_lookup: "map_of (apply_restore_request_rules dl p rules d) = override (effective_actions dl p rules) (map_of d)"
proof (induction rules arbitrary: d)
  case (Cons r rs)
  then show ?case
    by (simp add: apply_restore_request_rules_def effective_Cons override_append get_actions)
qed (simp add: apply_restore_request_rules_def effective_actions_def)

lemma rules_keep: "map_of d k \<noteq> None \<Longrightarrow> map_of (apply_restore_request_rules dl p rules d) k \<noteq> None"
  by (simp add: rules_lookup override_def split: option.split)

lemma ruled_keeps_digest: "dict_get item ''Digest'' \<noteq> None \<Longrightarrow> dict_get (ruled_entry dl p rules item) ''Digest'' \<noteq> None"
  using rules_keep [of "dl_remove dl (rstr ''Info'') item" "rstr ''Digest''"]
  by (auto simp: ruled_entry_def dict_get_def get_remove Let_def split: option.split)

lemma populate_entry_digest:
  assumes "map_of (populate_entry dl p ro e q) k = Some v"
  shows "map_of q k = Some v \<or> (\<exists>d. v = PDictionary d \<and> dict_get d ''Digest'' \<noteq> None)"
proof -
  have "dict_get (dl_insert dl (rstr ''Digest'') x d) ''Digest'' \<noteq> None" for x d by (simp add: dict_get_def get_insert)
  with assms ruled_keeps_digest show ?thesis
    by (auto simp: populate_entry_def Let_def get_insert split: option.splits if_splits)
qed

lemma populate_digests:
  "map_of (fold (populate_entry dl p ro) es q) k = Some v \<Longrightarrow>
   map_of q k = Some v \<or> (\<exists>d. v = PDictionary d \<and> dict_get d ''Digest'' \<noteq> None)"
proof (induction es arbitrary: q)
  case (Cons e es)
  from Cons.IH [of "populate_entry dl p ro e q"] Cons.prems populate_entry_digest [of p ro e q k v] show ?case by auto
qed simp

end



text \<open>Every component that \<open>populate_from_manifest\<close> adds carries a digest, whatever the rules do.\<close>

theorem tss_components_have_digests:
  assumes "plist_dictionary dl" and "populate_from_manifest dl identity parameters rules q = (r, q')"
    and "map_of q' k = Some v"
  shows "map_of q k = Some v \<or> (\<exists>d. v = PDictionary d \<and> dict_get d ''Digest'' \<noteq> None)"
proof -
  from assms(2,3) consider "q' = q" | m where "q' = fold (populate_entry dl parameters rules) m q"
    by (auto simp: populate_from_manifest_def act_bind_def split: res.splits)
  then show ?thesis
    using assms(3) plist_dictionary.populate_digests [OF assms(1), of parameters rules _ q k v] by cases auto
qed

lemma cryptex1_udid_length: "cryptex1_udid c = Ok u \<Longrightarrow> length u = 16"
  by (auto simp: cryptex1_udid_def)

end
