(* ===== verification/Img4.thy ===== *)
theory Img4
  imports Tss
begin

text \<open>
  services/restore/img4.rs: the IMG4 containers of a restore. The payload of an IPSW and the ticket of the signature server are embedded as they
  are; the container around them, the four-character code of the payload and the restore properties are written here, in DER. The
  encoding of a DER length (\<open>Length::to_der\<close> of the der crate) is a parameter.
\<close>

section \<open>DER\<close>

definition TAG_BOOLEAN :: byte where "TAG_BOOLEAN = 0x01"
definition TAG_INTEGER :: byte where "TAG_INTEGER = 0x02"
definition TAG_OCTET_STRING :: byte where "TAG_OCTET_STRING = 0x04"
definition TAG_IA5_STRING :: byte where "TAG_IA5_STRING = 0x16"
definition TAG_SEQUENCE :: byte where "TAG_SEQUENCE = 0x30"
definition TAG_SET :: byte where "TAG_SET = 0x31"
definition TAG_CONTEXT_0 :: byte where "TAG_CONTEXT_0 = 0xA0"
definition TAG_CONTEXT_1 :: byte where "TAG_CONTEXT_1 = 0xA1"
definition TAG_PRIVATE_HIGH :: byte where "TAG_PRIVATE_HIGH = 0xFF"

datatype restore_property =
    IntegerProperty "byte list" u64
  | OctetStringProperty "byte list" "byte list"

definition img4_err :: "string \<Rightarrow> idevice_error" where
  "img4_err m = Restore (Img4 m)"

text \<open>The crate gives the bytes of a length, or says why it has none.\<close>

type_synonym der_lengths = "nat \<Rightarrow> byte list + string"

definition encode_len :: "der_lengths \<Rightarrow> nat \<Rightarrow> (byte list, idevice_error) res" where
  "encode_len dr n =
    (case dr n of Inl b \<Rightarrow> Ok b | Inr e \<Rightarrow> Err (img4_err (''length '' @ text_of (show_nat n) @ '': '' @ e)))"

definition tlv :: "der_lengths \<Rightarrow> byte \<Rightarrow> byte list \<Rightarrow> (byte list, idevice_error) res" where
  "tlv dr tag content = rmap (\<lambda>l. tag # l @ content) (encode_len dr (length content))"

fun strip_zeros :: "byte list \<Rightarrow> byte list" where
  "strip_zeros (b # c # bs) = (if b = 0 then strip_zeros (c # bs) else b # c # bs)"
| "strip_zeros bs = bs"

definition der_uint :: "u64 \<Rightarrow> byte list" where
  "der_uint v =
    (if v = 0 then [0]
     else
       let bytes = strip_zeros (to_be_bytes v)
       in if hd bytes AND 0x80 \<noteq> 0 then 0 # bytes else bytes)"

function base128_groups :: "u32 \<Rightarrow> nat" where
  "base128_groups tmp = (if tmp > 0 then Suc (base128_groups (drop_bit 7 tmp)) else 0)"
  by pat_completeness auto
termination base128_groups
proof (relation "measure unat", goal_cases)
  case (2 tmp)
  have "unat (drop_bit 7 tmp) = unat tmp div 128" by (simp add: unat_drop_bit_eq drop_bit_eq_div unat_div)
  with 2 show ?case by (simp add: word_less_nat_alt)
qed simp

declare base128_groups.simps [simp del]

text \<open>The groups are filled from the last one; all but the last have the high bit.\<close>

primrec base128_fill :: "nat \<Rightarrow> u32 \<Rightarrow> byte list \<Rightarrow> byte list" where
  "base128_fill 0 v out = out"
| "base128_fill (Suc i) v out =
    base128_fill i (drop_bit 7 v) (((ucast (v AND 0x7F) :: byte) OR (if out = [] then 0 else 0x80)) # out)"

definition base128 :: "u32 \<Rightarrow> byte list" where
  "base128 v = base128_fill (max 1 (base128_groups v)) v []"

text \<open>A private-class element whose tag number is four bytes, around a sequence.\<close>

definition private_element :: "der_lengths \<Rightarrow> byte list \<Rightarrow> byte list \<Rightarrow> (byte list, idevice_error) res" where
  "private_element dr fourcc inner =
    rbind (tlv dr TAG_SEQUENCE inner) (\<lambda>seq.
    rmap (\<lambda>l. TAG_PRIVATE_HIGH # base128 (from_be_bytes fourcc) @ l @ seq) (encode_len dr (length seq)))"

definition build_property :: "der_lengths \<Rightarrow> restore_property \<Rightarrow> (byte list, idevice_error) res" where
  "build_property dr p =
    (case p of
       IntegerProperty fourcc v \<Rightarrow>
         rbind (tlv dr TAG_IA5_STRING fourcc) (\<lambda>inner.
         rbind (tlv dr TAG_INTEGER (der_uint v)) (\<lambda>i. private_element dr fourcc (inner @ i)))
     | OctetStringProperty fourcc v \<Rightarrow>
         rbind (tlv dr TAG_IA5_STRING fourcc) (\<lambda>inner.
         rbind (tlv dr TAG_OCTET_STRING v) (\<lambda>o1. private_element dr fourcc (inner @ o1))))"

primrec concat_res :: "(byte list, idevice_error) res list \<Rightarrow> (byte list, idevice_error) res" where
  "concat_res [] = Ok []"
| "concat_res (r # rs) = rbind r (\<lambda>b. rmap (\<lambda>c. b @ c) (concat_res rs))"

definition build_im4r :: "der_lengths \<Rightarrow> restore_property list \<Rightarrow> (byte list, idevice_error) res" where
  "build_im4r dr props =
    rbind (concat_res (map (build_property dr) props)) (\<lambda>set_content.
    rbind (tlv dr TAG_IA5_STRING (rstr ''IM4R'')) (\<lambda>magic.
    rbind (tlv dr TAG_SET set_content) (\<lambda>s.
    rbind (tlv dr TAG_SEQUENCE (magic @ s)) (\<lambda>seq.
    tlv dr TAG_CONTEXT_1 seq))))"

section \<open>Local manifests\<close>

definition der_bool :: "bool \<Rightarrow> byte list" where
  "der_bool v = [if v then 0xFF else 0x00]"

definition named_element :: "der_lengths \<Rightarrow> byte list \<Rightarrow> byte list \<Rightarrow> (byte list, idevice_error) res" where
  "named_element dr name v =
    (let tag4 = take 4 (name @ [0, 0, 0, 0])
     in rbind (tlv dr TAG_IA5_STRING name) (\<lambda>inner. private_element dr tag4 (inner @ v)))"

definition fourcc_element :: "der_lengths \<Rightarrow> string \<Rightarrow> (byte list, idevice_error) res \<Rightarrow> (byte list, idevice_error) res" where
  "fourcc_element dr fourcc v = rbind v (named_element dr (rstr fourcc))"

record manifest_component =
  mc_name :: "byte list"
  mc_digest :: "byte list option"
  mc_ekey :: "bool option"
  mc_epro :: "bool option"
  mc_esec :: "bool option"
  mc_tbm_digests :: "byte list option"

definition flag_element :: "der_lengths \<Rightarrow> string \<Rightarrow> bool option \<Rightarrow> (byte list, idevice_error) res" where
  "flag_element dr fourcc v =
    (case v of Some b \<Rightarrow> fourcc_element dr fourcc (tlv dr TAG_BOOLEAN (der_bool b)) | None \<Rightarrow> Ok [])"

definition component_body :: "der_lengths \<Rightarrow> manifest_component \<Rightarrow> (byte list, idevice_error) res" where
  "component_body dr c =
    concat_res
      [case mc_digest c of
         Some d \<Rightarrow> if d \<noteq> [] then fourcc_element dr ''DGST'' (tlv dr TAG_OCTET_STRING d) else Ok []
       | None \<Rightarrow> Ok [],
       flag_element dr ''EKEY'' (mc_ekey c), flag_element dr ''EPRO'' (mc_epro c), flag_element dr ''ESEC'' (mc_esec c),
       case mc_tbm_digests c of
         Some tbm \<Rightarrow>
           if mc_name c = rstr ''sepi'' then fourcc_element dr ''tbms'' (tlv dr TAG_OCTET_STRING tbm)
           else if mc_name c = rstr ''rsep'' then fourcc_element dr ''tbmr'' (tlv dr TAG_OCTET_STRING tbm)
           else Ok []
       | None \<Rightarrow> Ok []]"

definition component_element :: "der_lengths \<Rightarrow> manifest_component \<Rightarrow> (byte list, idevice_error) res" where
  "component_element dr c = rbind (component_body dr c) (\<lambda>body. rbind (tlv dr TAG_SET body) (named_element dr (mc_name c)))"

definition uint_element :: "der_lengths \<Rightarrow> string \<Rightarrow> u64 \<Rightarrow> (byte list, idevice_error) res" where
  "uint_element dr fourcc v = fourcc_element dr fourcc (tlv dr TAG_INTEGER (der_uint v))"

definition build_local_manifest :: "der_lengths \<Rightarrow> u64 \<Rightarrow> u64 \<Rightarrow> bool \<Rightarrow> u64 \<Rightarrow> manifest_component list \<Rightarrow> (byte list, idevice_error) res" where
  "build_local_manifest dr board_id chip_id production_mode security_domain components =
    rbind (concat_res
      [uint_element dr ''BORD'' board_id, uint_element dr ''CEPO'' 0, uint_element dr ''CHIP'' chip_id,
       flag_element dr ''CPRO'' (Some production_mode), flag_element dr ''CSEC'' (Some False), uint_element dr ''SDOM'' security_domain]) (\<lambda>props.
    rbind (fourcc_element dr ''MANP'' (tlv dr TAG_SET props)) (\<lambda>manp.
    rbind (concat_res (map (component_element dr) components)) (\<lambda>entries.
    rbind (fourcc_element dr ''MANB'' (tlv dr TAG_SET (manp @ entries))) (\<lambda>manb.
    rbind (concat_res [tlv dr TAG_IA5_STRING (rstr ''IM4M''), tlv dr TAG_INTEGER (der_uint 0), tlv dr TAG_SET manb])
      (tlv dr TAG_SEQUENCE)))))"

section \<open>Component names\<close>

definition FOURCCS :: "(string \<times> byte list) list" where
  "FOURCCS =
    [(''ACIBT'', rstr ''acib''), (''ACIBTLPEM'', rstr ''lpbt''), (''ACIWIFI'', rstr ''aciw''), (''ANE'', rstr ''anef''), (''ANS'', rstr ''ansf''),
     (''AOP'', rstr ''aopf''), (''AVE'', rstr ''avef''), (''Alamo'', rstr ''almo''), (''Ap,ANE1'', rstr ''ane1''), (''Ap,ANE2'', rstr ''ane2''),
     (''Ap,ANE3'', rstr ''ane3''), (''Ap,AudioAccessibilityBootChime'', rstr ''auac''), (''Ap,AudioBootChime'', rstr ''aubt''),
     (''Ap,AudioPowerAttachChime'', rstr ''aupr''), (''Ap,BootabilityBrainTrustCache'', rstr ''trbb''), (''Ap,CIO'', rstr ''ciof''),
     (''Ap,HapticAssets'', rstr ''hpas''), (''Ap,LocalBoot'', rstr ''lobo''), (''Ap,LocalPolicy'', rstr ''lpol''),
     (''Ap,NextStageIM4MHash'', rstr ''nsih''), (''Ap,RecoveryOSPolicyNonceHash'', rstr ''ronh''), (''Ap,RestoreANE1'', rstr ''ran1''),
     (''Ap,RestoreANE2'', rstr ''ran2''), (''Ap,RestoreANE3'', rstr ''ran3''), (''Ap,RestoreCIO'', rstr ''rcio''),
     (''Ap,RestoreDCP2'', rstr ''rdc2''), (''Ap,RestoreTMU'', rstr ''rtmu''), (''Ap,Scorpius'', rstr ''scpf''),
     (''Ap,SystemVolumeCanonicalMetadata'', rstr ''msys''), (''Ap,TMU'', rstr ''tmuf''), (''Ap,VolumeUUID'', rstr ''vuid''),
     (''Ap,rOSLogo1'', rstr ''rlg1''), (''Ap,rOSLogo2'', rstr ''rlg2''), (''AppleLogo'', rstr ''logo''), (''AudioCodecFirmware'', rstr ''acfw''),
     (''BatteryCharging'', rstr ''glyC''), (''BatteryCharging0'', rstr ''chg0''), (''BatteryCharging1'', rstr ''chg1''),
     (''BatteryFull'', rstr ''batF''), (''BatteryLow0'', rstr ''bat0''), (''BatteryLow1'', rstr ''bat1''), (''BatteryPlugin'', rstr ''glyP''),
     (''CFELoader'', rstr ''cfel''), (''CrownFirmware'', rstr ''crwn''), (''DCP'', rstr ''dcpf''), (''Dali'', rstr ''dali''),
     (''DeviceTree'', rstr ''dtre''), (''Diags'', rstr ''diag''), (''EngineeringTrustCache'', rstr ''dtrs''), (''ExtDCP'', rstr ''edcp''),
     (''GFX'', rstr ''gfxf''), (''Hamm'', rstr ''hamf''), (''Homer'', rstr ''homr''), (''ISP'', rstr ''ispf''), (''InputDevice'', rstr ''ipdf''),
     (''KernelCache'', rstr ''krnl''), (''LLB'', rstr ''illb''), (''LeapHaptics'', rstr ''lphp''), (''Liquid'', rstr ''liqd''),
     (''LoadableTrustCache'', rstr ''ltrs''), (''LowPowerWallet0'', rstr ''lpw0''), (''LowPowerWallet1'', rstr ''lpw1''),
     (''LowPowerWallet2'', rstr ''lpw2''), (''MacEFI'', rstr ''mefi''), (''MtpFirmware'', rstr ''mtpf''), (''Multitouch'', rstr ''mtfw''),
     (''NeedService'', rstr ''nsrv''), (''OS'', [0x4F, 0x53, 0, 0]), (''OSRamdisk'', rstr ''osrd''), (''PEHammer'', rstr ''hmmr''),
     (''PERTOS'', rstr ''pert''), (''PHLEET'', rstr ''phlt''), (''PMP'', rstr ''pmpf''), (''PersonalizedDMG'', rstr ''pdmg''),
     (''RBM'', rstr ''rmbt''), (''RTP'', rstr ''rtpf''), (''Rap,SoftwareBinaryDsp1'', rstr ''sbd1''), (''Rap,RTKitOS'', rstr ''rkos''),
     (''Rap,RestoreRTKitOS'', rstr ''rrko''), (''RecoveryMode'', rstr ''recm''), (''RestoreANS'', rstr ''rans''), (''RestoreDCP'', rstr ''rdcp''),
     (''RestoreDeviceTree'', rstr ''rdtr''), (''RestoreExtDCP'', rstr ''recp''), (''RestoreKernelCache'', rstr ''rkrn''),
     (''RestoreLogo'', rstr ''rlgo''), (''RestoreRTP'', rstr ''rrtp''), (''RestoreRamDisk'', rstr ''rdsk''), (''RestoreSEP'', rstr ''rsep''),
     (''RestoreTrustCache'', rstr ''rtsc''), (''SCE'', rstr ''scef''), (''SCE1Firmware'', rstr ''sc1f''), (''SEP'', rstr ''sepi''),
     (''SIO'', rstr ''siof''), (''StaticTrustCache'', rstr ''trst''), (''SystemLocker'', rstr ''lckr''), (''SystemVolume'', rstr ''isys''),
     (''WCHFirmwareUpdater'', rstr ''wchf''), (''ftap'', rstr ''ftap''), (''ftsp'', rstr ''ftsp''), (''iBEC'', rstr ''ibec''),
     (''iBSS'', rstr ''ibss''), (''iBoot'', rstr ''ibot''), (''iBootData'', rstr ''ibdt''), (''iBootDataStage1'', rstr ''ibd1''),
     (''iBootTest'', rstr ''itst''), (''rfta'', rstr ''rfta''), (''rfts'', rstr ''rfts''), (''Ap,DCP2'', rstr ''dcp2''),
     (''Ap,RestoreSecureM3Firmware'', rstr ''rsm3''), (''Ap,RestoreSecurePageTableMonitor'', rstr ''rspt''),
     (''Ap,RestoreTrustedExecutionMonitor'', rstr ''rtrx''), (''Ap,RestorecL4'', rstr ''rxcl'')]"

definition fourcc_for :: "rstring \<Rightarrow> byte list option" where
  "fourcc_for component_name = map_of (map (\<lambda>(k, v). (rstr k, v)) FOURCCS) component_name"

definition RETAGGED :: "string list" where
  "RETAGGED =
    [''RestoreKernelCache'', ''RestoreDeviceTree'', ''RestoreSEP'', ''RestoreLogo'', ''RestoreTrustCache'', ''RestoreDCP'',
     ''Ap,RestoreDCP2'', ''Ap,RestoreTMU'', ''Ap,RestoreCIO'', ''Ap,DCP2'', ''Ap,RestoreSecureM3Firmware'',
     ''Ap,RestoreSecurePageTableMonitor'', ''Ap,RestoreTrustedExecutionMonitor'', ''Ap,RestorecL4'']"

definition restore_fourcc_override :: "rstring \<Rightarrow> byte list option" where
  "restore_fourcc_override component_name =
    (if component_name \<in> set (map rstr RETAGGED) then fourcc_for component_name else None)"

section \<open>The manifest of a preboard request\<close>

definition FW_FLAGS :: "string list" where
  "FW_FLAGS =
    [''IsFirmwarePayload'', ''IsSecondaryFirmwarePayload'', ''IsFUDFirmware'', ''IsLoadedByiBoot'', ''IsEarlyAccessFirmware'',
     ''IsiBootEANFirmware'', ''IsiBootNonEssentialFirmware'']"

definition preboard_parameters :: plist_dict where
  "preboard_parameters =
    [(rstr ''ApProductionMode'', PBoolean False), (rstr ''ApSecurityMode'', PBoolean False), (rstr ''ApSupportsImg4'', PBoolean True)]"

definition component_name :: "rstring \<Rightarrow> plist_dict \<Rightarrow> byte list" where
  "component_name key info =
    (case Option.bind (dict_get info ''Img4PayloadType'') plist_as_string of
       Some s \<Rightarrow> s
     | None \<Rightarrow> (case fourcc_for key of Some f \<Rightarrow> f | None \<Rightarrow> key))"

definition data_of :: "plist_value option \<Rightarrow> byte list option" where
  "data_of v = Option.bind v plist_as_data"

definition preboard_component :: "dict_lib \<Rightarrow> rstring \<times> plist_value \<Rightarrow> manifest_component option" where
  "preboard_component dl e =
    (if fst e \<in> set (map rstr SKIP_KEYS) then None
     else
       Option.bind (plist_as_dictionary (snd e)) (\<lambda>entry.
       Option.bind (Option.bind (dict_get entry ''Info'') plist_as_dictionary) (\<lambda>info.
         if \<not> bool_of (dict_get entry ''Trusted'') then None
         else if \<not> list_ex (\<lambda>f. bool_of (dict_get info f)) FW_FLAGS then None
         else if bool_of (dict_get info ''IsFTAB'') then None
         else
           let node = ruled_entry dl preboard_parameters (own_rules info) entry
           in Some \<lparr>mc_name = component_name (fst e) info,
                mc_digest = Some (case data_of (dict_get node ''Digest'') of Some d \<Rightarrow> d | None \<Rightarrow> []),
                mc_ekey = Some True,
                mc_epro = Option.bind (dict_get node ''EPRO'') plist_as_boolean,
                mc_esec = Option.bind (dict_get node ''ESEC'') plist_as_boolean,
                mc_tbm_digests = data_of (dict_get node ''TBMDigests'')\<rparr>)))"

definition build_preboard_manifest :: "dict_lib \<Rightarrow> der_lengths \<Rightarrow> plist_dict \<Rightarrow> u64 \<Rightarrow> u64 \<Rightarrow> (byte list, idevice_error) res" where
  "build_preboard_manifest dl dr build_identity board_id chip_id =
    rbind (manifest_of build_identity) (\<lambda>manifest.
      build_local_manifest dr board_id chip_id False 1 (List.map_filter (preboard_component dl) manifest))"

section \<open>Stitching\<close>

definition truncated :: idevice_error where
  "truncated = img4_err ''truncated IM4P while locating fourcc''"

text \<open>\<open>l = (l << 8) | byte\<close>, \<open>n\<close> times\<close>

primrec read_length :: "nat \<Rightarrow> nat \<Rightarrow> u64 \<Rightarrow> byte list \<Rightarrow> (u64 \<times> nat, idevice_error) res" where
  "read_length 0 i l buf = Ok (l, i)"
| "read_length (Suc n) i l buf =
    rbind (ok_or truncated (get_at i buf)) (\<lambda>b. read_length n (i + 1) (push_bit 8 l OR ucast b) buf)"

text \<open>The sum \<open>i + len\<close> is a \<open>usize\<close> and wraps.\<close>

definition read_tlv :: "byte list \<Rightarrow> nat \<Rightarrow> (byte \<times> u64 \<times> nat, idevice_error) res" where
  "read_tlv buf off =
    rbind (ok_or truncated (get_at off buf)) (\<lambda>tag.
    rbind (ok_or truncated (get_at (off + 1) buf)) (\<lambda>first.
    rbind (if first < 0x80 then Ok (ucast first, off + 2)
           else
             let n = unat (first AND 0x7F)
             in if n = 0 \<or> n > 8 then Err (img4_err ''invalid IM4P length field'')
                else read_length n (off + 2) 0 buf) (\<lambda>(len, i).
      if unat (of_nat i + len) > length buf then Err truncated else Ok (tag, len, i))))"

definition patch_im4p_fourcc :: "byte list \<Rightarrow> byte list \<Rightarrow> (byte list, idevice_error) res" where
  "patch_im4p_fourcc im4p fourcc =
    rbind (read_tlv im4p 0) (\<lambda>(t, _, seq_start).
    if t \<noteq> TAG_SEQUENCE then Err (img4_err ''IM4P is not a SEQUENCE'')
    else
      rbind (read_tlv im4p seq_start) (\<lambda>(t0, l0, s0).
      if t0 \<noteq> TAG_IA5_STRING then Err (img4_err ''IM4P magic is not an IA5String'')
      else
        rbind (read_tlv im4p (unat (of_nat s0 + l0))) (\<lambda>(t1, l1, s1).
        if t1 \<noteq> TAG_IA5_STRING \<or> l1 \<noteq> 4 then Err (img4_err ''IM4P type is not a 4-byte IA5String'')
        else if s1 + 4 \<le> length im4p \<and> length fourcc = 4
        then Ok (take s1 im4p @ fourcc @ drop (s1 + 4) im4p)
        else Panic)))"

definition stitch_component :: "der_lengths \<Rightarrow> byte list \<Rightarrow> byte list \<Rightarrow> byte list option \<Rightarrow> restore_property list \<Rightarrow>
    (byte list, idevice_error) res" where
  "stitch_component dr im4p ap_img4_ticket fourcc_override restore_properties =
    rbind (case fourcc_override of Some f \<Rightarrow> patch_im4p_fourcc im4p f | None \<Rightarrow> Ok im4p) (\<lambda>im4p.
    rbind (tlv dr TAG_IA5_STRING (rstr ''IMG4'')) (\<lambda>magic.
    rbind (tlv dr TAG_CONTEXT_0 ap_img4_ticket) (\<lambda>im4m.
    rbind (if restore_properties \<noteq> [] then build_im4r dr restore_properties else Ok []) (\<lambda>im4r.
    tlv dr TAG_SEQUENCE (magic @ im4p @ im4m @ im4r)))))"

end
