(* ===== verification/Byte_Cursor.thy ===== *)
theory Byte_Cursor
  imports Errors
begin

text \<open>
  cursor.rs: the crate's own reader over a borrowed buffer. It knows the whole buffer and a position; a read that does
  not fit leaves it where it was. The other theories read from the list of the bytes that are left, and the last section
  shows that this is the same reader.
\<close>

record cursor =
  cu_inner :: "byte list"
  cu_pos :: nat

definition cursor_new :: "byte list \<Rightarrow> cursor" where
  "cursor_new inner = \<lparr>cu_inner = inner, cu_pos = 0\<rparr>"

definition cursor_len :: "cursor \<Rightarrow> nat" where "cursor_len c = length (cu_inner c)"
definition cursor_is_empty :: "cursor \<Rightarrow> bool" where "cursor_is_empty c \<longleftrightarrow> cu_inner c = []"
definition cursor_at_end :: "cursor \<Rightarrow> bool" where "cursor_at_end c \<longleftrightarrow> cu_pos c = length (cu_inner c)"

text \<open>An operation gives an optional result and the cursor after it; \<open>?\<close> stops at the first \<open>None\<close>.\<close>

type_synonym 'a reading = "cursor \<Rightarrow> 'a option \<times> cursor"

definition cursor_read :: "nat \<Rightarrow> byte list reading" where
  "cursor_read to_read c =
    (if 2 ^ 64 \<le> cu_pos c + to_read \<or> length (cu_inner c) < cu_pos c + to_read then (None, c)
     else (Some (sub (cu_pos c) to_read (cu_inner c)), c\<lparr>cu_pos := cu_pos c + to_read\<rparr>))"

definition cursor_back :: "nat \<Rightarrow> cursor \<Rightarrow> cursor" where
  "cursor_back to_back c =
    (let to_back = (if to_back > cu_pos c then cu_pos c else to_back) in c\<lparr>cu_pos := cu_pos c - to_back\<rparr>)"

text \<open>Without debug assertions the bytes are not looked at.\<close>

definition cursor_read_assert_zero :: "nat \<Rightarrow> unit reading" where
  "cursor_read_assert_zero to_read c = (case cursor_read to_read c of (b, d) \<Rightarrow> (map_option (\<lambda>_. ()) b, d))"

text \<open>\<open>read_to\<close> and \<open>peek_to\<close> slice from the position, which panics when the end is in front of it.\<close>

definition cursor_peek_to :: "nat \<Rightarrow> cursor \<Rightarrow> (byte list option, 'e) res" where
  "cursor_peek_to end_pos c =
    (if end_pos > length (cu_inner c) then Ok None else rmap Some (index_range (cu_pos c) end_pos (cu_inner c)))"

definition cursor_read_to :: "nat \<Rightarrow> cursor \<Rightarrow> (byte list option \<times> cursor, 'e) res" where
  "cursor_read_to end_pos c =
    (if end_pos > length (cu_inner c) then Ok (None, c)
     else rmap (\<lambda>b. (Some b, c\<lparr>cu_pos := end_pos\<rparr>)) (index_range (cu_pos c) end_pos (cu_inner c)))"

definition cursor_peek :: "nat \<Rightarrow> cursor \<Rightarrow> byte list option" where
  "cursor_peek to_read c =
    (if 2 ^ 64 \<le> cu_pos c + to_read \<or> length (cu_inner c) < cu_pos c + to_read then None
     else Some (sub (cu_pos c) to_read (cu_inner c)))"

definition cursor_remaining :: "cursor \<Rightarrow> byte list \<times> cursor" where
  "cursor_remaining c = (drop (cu_pos c) (cu_inner c), c\<lparr>cu_pos := length (cu_inner c)\<rparr>)"

definition cursor_read_u8 :: "byte reading" where
  "cursor_read_u8 c =
    (if cu_pos c = length (cu_inner c) then (None, c)
     else (Some (cu_inner c ! cu_pos c), c\<lparr>cu_pos := cu_pos c + 1\<rparr>))"

text \<open>
  The numbers of 2, 4, 8 and 16 bytes in both byte orders, signed, unsigned and floating, are the same bits at a word
  type; so are the arrays of \<open>take_2\<close> to \<open>take_32\<close>.
\<close>

definition cursor_read_le :: "'a::len word reading" where
  "cursor_read_le c = (case cursor_read (LENGTH('a) div 8) c of (b, d) \<Rightarrow> (map_option from_le_bytes b, d))"

definition cursor_read_be :: "'a::len word reading" where
  "cursor_read_be c = (case cursor_read (LENGTH('a) div 8) c of (b, d) \<Rightarrow> (map_option from_be_bytes b, d))"

definition cursor_take :: "nat \<Rightarrow> byte list reading" where
  "cursor_take n = cursor_read n"

section \<open>The reader of a list\<close>

text \<open>The bytes that are left, and the states a cursor over a real buffer can be in.\<close>

definition cu_rest :: "cursor \<Rightarrow> byte list" where
  "cu_rest c = drop (cu_pos c) (cu_inner c)"

definition cu_wf :: "cursor \<Rightarrow> bool" where
  "cu_wf c \<longleftrightarrow> cu_pos c \<le> length (cu_inner c) \<and> length (cu_inner c) < 2 ^ 64"

lemma cursor_read_rest:
  assumes "cu_wf c"
  shows "cursor_read n c =
    (case read_exact () n (cu_rest c) of
       Ok (b, _) \<Rightarrow> (Some b, c\<lparr>cu_pos := cu_pos c + n\<rparr>)
     | _ \<Rightarrow> (None, c))"
  using assms by (auto simp: cursor_read_def read_exact_def cu_rest_def cu_wf_def sub_def)

lemma rest_after: "cu_rest (c\<lparr>cu_pos := cu_pos c + n\<rparr>) = drop n (cu_rest c)"
  by (simp add: cu_rest_def add.commute)

text \<open>A cursor refines the list reader.\<close>

datatype cursor_op =
  ReadBytes nat | ReadU8 | PeekBytes nat | ReadTo nat | Remaining | Back nat

text \<open>What an operation yields and the cursor after it; \<open>ReadTo\<close> may panic.\<close>

definition cursor_step :: "cursor_op \<Rightarrow> cursor \<Rightarrow> (byte list option \<times> cursor, unit) res" where
  "cursor_step oper c =
    (case oper of
       ReadBytes n \<Rightarrow> Ok (cursor_read n c)
     | ReadU8 \<Rightarrow> (case cursor_read_u8 c of (b, d) \<Rightarrow> Ok (map_option (\<lambda>x. [x]) b, d))
     | PeekBytes n \<Rightarrow> Ok (cursor_peek n c, c)
     | ReadTo e \<Rightarrow> cursor_read_to e c
     | Remaining \<Rightarrow> (case cursor_remaining c of (b, d) \<Rightarrow> Ok (Some b, d))
     | Back n \<Rightarrow> Ok (None, cursor_back n c))"

text \<open>The same on a buffer split into what was read and what is left.\<close>

definition zipper_step :: "cursor_op \<Rightarrow> byte list \<times> byte list \<Rightarrow> (byte list option \<times> byte list \<times> byte list, unit) res" where
  "zipper_step oper z =
    (case z of (before, after) \<Rightarrow>
      (let advance = (\<lambda>n. if n \<le> length after then Ok (Some (take n after), before @ take n after, drop n after)
                          else Ok (None, before, after))
       in case oper of
            ReadBytes n \<Rightarrow> advance n
          | ReadU8 \<Rightarrow> advance 1
          | PeekBytes n \<Rightarrow> Ok (if n \<le> length after then Some (take n after) else None, before, after)
          | ReadTo e \<Rightarrow>
              (if e < length before then Panic
               else advance (e - length before))
          | Remaining \<Rightarrow> Ok (Some after, before @ after, [])
          | Back n \<Rightarrow> Ok (None, take (length before - n) before, drop (length before - n) before @ after)))"

definition zipper :: "cursor \<Rightarrow> byte list \<times> byte list" where
  "zipper c = (take (cu_pos c) (cu_inner c), cu_rest c)"

theorem cursor_step_refines:
  assumes "cu_wf c"
  shows "rmap (\<lambda>(b, d). (b, zipper d)) (cursor_step oper c) = zipper_step oper (zipper c) \<and>
    (\<forall>b d. cursor_step oper c = Ok (b, d) \<longrightarrow> cu_wf d \<and> cu_inner d = cu_inner c)"
proof -
  obtain xs p where c: "c = \<lparr>cu_inner = xs, cu_pos = p\<rparr>" by (cases c)
  from assms have l: "p \<le> length xs" "length xs < 2 ^ 64" by (simp_all add: c cu_wf_def)
  have u: "p < length xs \<Longrightarrow> take (Suc 0) (drop p xs) = [xs ! p] \<and> take (Suc p) xs = take p xs @ [xs ! p]"
    by (simp add: take_Suc_conv_app_nth Cons_nth_drop_Suc [symmetric])
  have t: "p \<le> n \<Longrightarrow> take n xs = take p xs @ take (n - p) (drop p xs)" for n
    by (metis le_add_diff_inverse take_add)
  have ta: "take (p + n) xs = take p xs @ take n (drop p xs)" for n by (rule take_add)
  have b: "drop n (take p xs) @ drop p xs = drop n xs" if "n \<le> p" for n
    using that l by (metis append_take_drop_id drop_append drop_take length_take min.absorb2 diff_is_0_eq drop_0)
  show ?thesis
  proof (cases oper)
    case (ReadBytes n)
    with l show ?thesis
      by (auto simp: c cursor_step_def zipper_step_def zipper_def cu_rest_def cu_wf_def cursor_read_def sub_def ta add.commute [of n p])
  next
    case ReadU8
    with l u show ?thesis
      by (auto simp: c cursor_step_def zipper_step_def zipper_def cu_rest_def cu_wf_def cursor_read_u8_def)
  next
    case (PeekBytes n)
    with l show ?thesis
      by (auto simp: c cursor_step_def zipper_step_def zipper_def cu_rest_def cu_wf_def cursor_peek_def sub_def)
  next
    case (ReadTo n)
    with l t [of n] show ?thesis
      by (auto simp: c cursor_step_def zipper_step_def zipper_def cu_rest_def cu_wf_def cursor_read_to_def index_range_def)
  next
    case Remaining
    with l show ?thesis
      by (auto simp: c cursor_step_def zipper_step_def zipper_def cu_rest_def cu_wf_def cursor_remaining_def)
  next
    case (Back n)
    with l b [of "p - n"] show ?thesis
      by (auto simp: c cursor_step_def zipper_step_def zipper_def cu_rest_def cu_wf_def cursor_back_def Let_def min_def)
  qed
qed

end
