(* ===== verification/Hid_Reports.thy ===== *)
theory Hid_Reports
  imports Errors
begin

text \<open>
  services/core_device/hid.rs, the reports: the bytes a gesture, a touch frame of up to five contacts and the pressed keys of
  the keyboard are sent as. The wall clock is a parameter: the nanoseconds since the epoch, none before it.
\<close>

section \<open>The numbers of the events\<close>

datatype button_state = ButtonDown | ButtonUp
primrec button_raw :: "button_state \<Rightarrow> u64" where
  "button_raw ButtonDown = 1"
| "button_raw ButtonUp = 2"

datatype digitizer_event_type = DigitizerStart | DigitizerPosition | DigitizerEnd
primrec event_type_raw :: "digitizer_event_type \<Rightarrow> u64" where
  "event_type_raw DigitizerStart = 0"
| "event_type_raw DigitizerPosition = 1"
| "event_type_raw DigitizerEnd = 2"

datatype digitizer_edge = EdgeNone | EdgeTop | EdgeLeft | EdgeBottom | EdgeRight
primrec edge_raw :: "digitizer_edge \<Rightarrow> u64" where
  "edge_raw EdgeNone = 0"
| "edge_raw EdgeTop = 1"
| "edge_raw EdgeLeft = 2"
| "edge_raw EdgeBottom = 3"
| "edge_raw EdgeRight = 4"

datatype digitizer_target = MainScreen | Display u64
primrec target_raw :: "digitizer_target \<Rightarrow> u64" where
  "target_raw MainScreen = 0"
| "target_raw (Display n) = n"

datatype scroll_target = DigitalCrown | Dial
primrec scroll_target_raw :: "scroll_target \<Rightarrow> u64" where
  "scroll_target_raw DigitalCrown = 0"
| "scroll_target_raw Dial = 1"

definition DIGITIZER_REPORT_ID :: byte where "DIGITIZER_REPORT_ID = 0x13"
definition TOUCHSCREEN_REPORT_ID :: byte where "TOUCHSCREEN_REPORT_ID = 0x09"
definition TOUCHSCREEN_STATE_CONTACT :: byte where "TOUCHSCREEN_STATE_CONTACT = 0xC2"
definition TOUCHSCREEN_STATE_RELEASE :: byte where "TOUCHSCREEN_STATE_RELEASE = 0x02"
definition TOUCHSCREEN_CONTACT_COUNT_MAXIMUM :: byte where "TOUCHSCREEN_CONTACT_COUNT_MAXIMUM = 5"
definition DIGITIZER_SURFACE_MAIN_TOUCHSCREEN :: u64 where "DIGITIZER_SURFACE_MAIN_TOUCHSCREEN = 257"

section \<open>Touch reports\<close>

record touchscreen_contact =
  tc_identity :: byte
  tc_touching :: bool
  tc_x :: u16
  tc_y :: u16

type_synonym clock = "nat option"

definition default_timestamp :: "clock \<Rightarrow> u64" where
  "default_timestamp now = (case now of Some nanos \<Rightarrow> of_nat nanos | None \<Rightarrow> 0) AND mask 48"

definition report_timestamp :: "clock \<Rightarrow> u64 option \<Rightarrow> u64" where
  "report_timestamp now timestamp = (case timestamp of Some t \<Rightarrow> t | None \<Rightarrow> default_timestamp now) AND mask 48"

definition build_digitizer_report :: "clock \<Rightarrow> i32 \<Rightarrow> i32 \<Rightarrow> u64 option \<Rightarrow> byte list" where
  "build_digitizer_report now x y timestamp =
    [DIGITIZER_REPORT_ID] @ to_le_bytes x @ to_le_bytes y @ [0, 0] @
    take 6 (to_le_bytes (report_timestamp now timestamp)) @ [0, 0]"

text \<open>\<open>r[i..j].copy_from_slice(xs)\<close> with a range of the right length.\<close>

definition copy_at :: "nat \<Rightarrow> byte list \<Rightarrow> byte list \<Rightarrow> byte list" where
  "copy_at i xs r = take i r @ xs @ drop (i + length xs) r"

definition new_touchscreen_report :: "clock \<Rightarrow> byte \<Rightarrow> u64 option \<Rightarrow> byte list" where
  "new_touchscreen_report now contact_count timestamp =
    (let ts = report_timestamp now timestamp;
         r = replicate 58 0;
         r = r[0 := TOUCHSCREEN_REPORT_ID];
         r = r[1 := contact_count];
         r = r[2 := TOUCHSCREEN_CONTACT_COUNT_MAXIMUM];
         r = copy_at 40 [0x02, 0x00, 0x00, 0x00] r
     in copy_at 44 (take 6 (to_le_bytes ts)) r)"

definition write_touchscreen_contact :: "nat \<Rightarrow> byte \<Rightarrow> u16 \<Rightarrow> u16 \<Rightarrow> byte list \<Rightarrow> (byte list, core_device_error) res" where
  "write_touchscreen_contact slot state x y report =
    (let offset = 3 + slot * 5
     in if offset + 5 \<le> length report
        then Ok (copy_at (offset + 3) (to_le_bytes y) (copy_at (offset + 1) (to_le_bytes x) (report[offset := state])))
        else Panic)"

definition build_touchscreen_report :: "clock \<Rightarrow> byte \<Rightarrow> u16 \<Rightarrow> u16 \<Rightarrow> u64 option \<Rightarrow> (byte list, core_device_error) res" where
  "build_touchscreen_report now state x y timestamp =
    write_touchscreen_contact 0 state x y (new_touchscreen_report now 1 timestamp)"

text \<open>The checks, with the contacts that were looked at before.\<close>

fun check_contacts :: "touchscreen_contact list \<Rightarrow> touchscreen_contact list \<Rightarrow> (unit, core_device_error) res" where
  "check_contacts earlier [] = Ok ()"
| "check_contacts earlier (contact # contacts) =
    (if tc_identity contact \<ge> TOUCHSCREEN_CONTACT_COUNT_MAXIMUM
     then Err (InvalidTouchscreenContactIdentity (tc_identity contact))
     else if list_ex (\<lambda>other. tc_identity other = tc_identity contact) earlier
     then Err (DuplicateTouchscreenContactIdentity (tc_identity contact))
     else check_contacts (earlier @ [contact]) contacts)"

primrec write_contacts :: "nat \<Rightarrow> touchscreen_contact list \<Rightarrow> byte list \<Rightarrow> (byte list, core_device_error) res" where
  "write_contacts slot [] r = Ok r"
| "write_contacts slot (contact # contacts) r =
    (let state = (if tc_touching contact then 0xC0 else 0) OR tc_identity contact
     in rbind (write_touchscreen_contact slot state (tc_x contact) (tc_y contact) r) (write_contacts (Suc slot) contacts))"

definition build_multitouch_report :: "clock \<Rightarrow> touchscreen_contact list \<Rightarrow> u64 option \<Rightarrow> (byte list, core_device_error) res" where
  "build_multitouch_report now contacts timestamp =
    (if length contacts > unat TOUCHSCREEN_CONTACT_COUNT_MAXIMUM then Err (TooManyTouchscreenContacts (length contacts))
     else rbind (check_contacts [] contacts) (\<lambda>_.
       write_contacts 0 contacts (new_touchscreen_report now (of_nat (length contacts)) timestamp)))"

definition multitap_contacts :: "(u16 \<times> u16) list \<Rightarrow> (touchscreen_contact list, core_device_error) res" where
  "multitap_contacts positions =
    (if positions = [] then Err NoTouchscreenContacts
     else if length positions > unat TOUCHSCREEN_CONTACT_COUNT_MAXIMUM
     then Err (TooManyTouchscreenContacts (length positions))
     else Ok (map (\<lambda>(identity, (x, y)). \<lparr>tc_identity = of_nat identity, tc_touching = True, tc_x = x, tc_y = y\<rparr>)
       (enumerate 0 positions)))"

section \<open>What a touch report carries\<close>

text \<open>The device's side: the contacts and the time in a frame of 58 bytes.\<close>

definition contact_of_slot :: "byte list \<Rightarrow> nat \<Rightarrow> touchscreen_contact" where
  "contact_of_slot r slot =
    (let o5 = sub (3 + 5 * slot) 5 r; st = hd o5
     in \<lparr>tc_identity = st AND 0x3F, tc_touching = (st AND 0xC0 = 0xC0),
         tc_x = from_le_bytes (sub 1 2 o5), tc_y = from_le_bytes (sub 3 2 o5)\<rparr>)"

definition frame_contacts :: "byte list \<Rightarrow> touchscreen_contact list" where
  "frame_contacts r = map (contact_of_slot r) [0..<unat (r ! 1)]"

definition frame_time :: "byte list \<Rightarrow> u64" where
  "frame_time r = from_le_bytes (sub 44 6 r @ [0, 0])"

definition valid_contacts :: "touchscreen_contact list \<Rightarrow> bool" where
  "valid_contacts cs \<longleftrightarrow> length cs \<le> 5 \<and> distinct (map tc_identity cs) \<and> (\<forall>c \<in> set cs. tc_identity c < 5)"

lemma check_contacts_iff:
  "check_contacts earlier cs = Ok () \<longleftrightarrow>
     (\<forall>c \<in> set cs. tc_identity c < 5) \<and> distinct (map tc_identity cs) \<and>
     tc_identity ` set earlier \<inter> tc_identity ` set cs = {}"
  by (induction earlier cs rule: check_contacts.induct)
    (auto simp: TOUCHSCREEN_CONTACT_COUNT_MAXIMUM_def list_ex_iff not_le, metis imageI)

lemma check_contacts_not_panic: "check_contacts earlier cs \<noteq> Panic"
  by (induction earlier cs rule: check_contacts.induct) simp_all

lemma length_copy_at [simp]: "i + length xs \<le> length r \<Longrightarrow> length (copy_at i xs r) = length r"
  by (simp add: copy_at_def)

text \<open>Writing to one place is seen there and nowhere else.\<close>

lemma sub_copy_same: "i + length xs \<le> length r \<Longrightarrow> sub i (length xs) (copy_at i xs r) = xs"
  by (simp add: sub_def copy_at_def)

lemma nth_copy_at:
  "i + length xs \<le> length r \<Longrightarrow> k < length r \<Longrightarrow>
   copy_at i xs r ! k = (if i \<le> k \<and> k < i + length xs then xs ! (k - i) else r ! k)"
  by (auto simp: copy_at_def nth_append min_def)

lemma sub_nth_eq:
  "length a = length b \<Longrightarrow> i + n \<le> length a \<Longrightarrow> (\<And>k. i \<le> k \<Longrightarrow> k < i + n \<Longrightarrow> a ! k = b ! k) \<Longrightarrow> sub i n a = sub i n b"
  by (rule nth_equalityI) (simp_all add: sub_def)

lemma new_report_length [simp]: "length (new_touchscreen_report now n ts) = 58"
  by (simp add: new_touchscreen_report_def Let_def copy_at_def)

lemma write_contact_spec:
  assumes "write_touchscreen_contact slot st x y r = Ok r'"
  shows "length r' = length r \<and> sub (3 + 5 * slot) 5 r' = st # to_le_bytes x @ to_le_bytes y \<and>
    (\<forall>k < length r. k < 3 + 5 * slot \<or> 8 + 5 * slot \<le> k \<longrightarrow> r' ! k = r ! k)"
proof -
  define i where "i = 3 + 5 * slot"
  have l: "i + 5 \<le> length r" and r': "r' = copy_at (i + 3) (to_le_bytes y) (copy_at (i + 1) (to_le_bytes x) (r[i := st]))"
    using assms by (auto simp: write_touchscreen_contact_def i_def Let_def mult.commute split: if_splits)
  have "sub i 5 r' = st # to_le_bytes x @ to_le_bytes y"
  proof (rule nth_equalityI)
    fix k assume "k < length (sub i 5 r')"
    with l have k: "k < 5" by (simp add: sub_def r')
    then have "k = 0 \<or> k = 1 \<or> k = 2 \<or> k = 3 \<or> k = 4" by arith
    with l show "sub i 5 r' ! k = (st # to_le_bytes x @ to_le_bytes y) ! k"
      by (elim disjE) (simp_all add: sub_def r' nth_copy_at nth_append)
  qed (use l in \<open>simp add: r'\<close>)
  with l show ?thesis by (auto simp: r' nth_copy_at i_def)
qed

text \<open>The bytes of a contact and back.\<close>

definition contact_bytes :: "touchscreen_contact \<Rightarrow> byte list" where
  "contact_bytes c =
    ((if tc_touching c then 0xC0 else 0) OR tc_identity c) # to_le_bytes (tc_x c) @ to_le_bytes (tc_y c)"

lemma contact_state:
  assumes "(b :: byte) < 5"
  shows "((if t then 0xC0 else 0) OR b) AND 0x3F = b" "((if t then 0xC0 else 0) OR b) AND 0xC0 = 0xC0 \<longleftrightarrow> t"
proof -
  have "b \<in> {0, 1, 2, 3, 4}"
  proof -
    have "unat b < 5" using assms by (simp add: word_less_nat_alt)
    then have "unat b \<in> {0, 1, 2, 3, 4}" by auto
    then show ?thesis by (auto simp: word_unat_eq_iff)
  qed
  then show "((if t then 0xC0 else 0) OR b) AND 0x3F = b" "((if t then 0xC0 else 0) OR b) AND 0xC0 = 0xC0 \<longleftrightarrow> t"
    by (cases t; auto)+
qed

lemma contact_of_bytes:
  assumes "sub (3 + 5 * slot) 5 r = contact_bytes c" "tc_identity c < 5"
  shows "contact_of_slot r slot = c"
proof -
  have "sub 1 2 (contact_bytes c) = to_le_bytes (tc_x c)" "sub 3 2 (contact_bytes c) = to_le_bytes (tc_y c)"
    by (simp_all add: contact_bytes_def sub_def)
  moreover have "hd (contact_bytes c) = (if tc_touching c then 0xC0 else 0) OR tc_identity c"
    by (simp add: contact_bytes_def)
  ultimately show ?thesis
    unfolding contact_of_slot_def assms(1) Let_def by (simp only: contact_state [OF assms(2)] from_to_bytes) simp
qed

lemma write_contacts_spec:
  "slot + length cs \<le> 5 \<Longrightarrow> length r = 58 \<Longrightarrow>
   \<exists>r'. write_contacts slot cs r = Ok r' \<and> length r' = 58 \<and>
     (\<forall>i < length cs. sub (3 + 5 * (slot + i)) 5 r' = contact_bytes (cs ! i)) \<and>
     (\<forall>k < 58. k < 3 + 5 * slot \<or> 3 + 5 * (slot + length cs) \<le> k \<longrightarrow> r' ! k = r ! k)"
proof (induction cs arbitrary: slot r)
  case (Cons c cs)
  let ?st = "(if tc_touching c then 0xC0 else 0) OR tc_identity c"
  from Cons.prems obtain q where q: "write_touchscreen_contact slot ?st (tc_x c) (tc_y c) r = Ok q"
    by (simp add: write_touchscreen_contact_def Let_def)
  note w = write_contact_spec [OF q]
  have "Suc slot + length cs \<le> 5" "length q = 58" using Cons.prems w by simp_all
  from Cons.IH [OF this] obtain r' where
    r': "write_contacts (Suc slot) cs q = Ok r'" "length r' = 58"
      "\<forall>i < length cs. sub (3 + 5 * (Suc slot + i)) 5 r' = contact_bytes (cs ! i)"
      "\<forall>k < 58. k < 3 + 5 * Suc slot \<or> 3 + 5 * (Suc slot + length cs) \<le> k \<longrightarrow> r' ! k = q ! k"
    by blast
  have "sub (3 + 5 * slot) 5 r' = sub (3 + 5 * slot) 5 q"
    by (rule sub_nth_eq) (use r'(2,4) w Cons.prems in auto)
  with w have first: "sub (3 + 5 * slot) 5 r' = contact_bytes c" by (simp add: contact_bytes_def)
  have "sub (3 + 5 * (slot + i)) 5 r' = contact_bytes ((c # cs) ! i)" if "i < length (c # cs)" for i
    using that first r'(3) by (cases i) simp_all
  moreover have "r' ! k = r ! k" if "k < 58" "k < 3 + 5 * slot \<or> 3 + 5 * (slot + length (c # cs)) \<le> k" for k
    using that r'(4) w Cons.prems by auto
  ultimately show ?case using q r'(1,2) by (auto simp: Let_def)
qed simp

lemma new_report_bytes:
  "new_touchscreen_report now n ts ! 0 = 9" "new_touchscreen_report now n ts ! 1 = n" "new_touchscreen_report now n ts ! 2 = 5"
  "sub 44 6 (new_touchscreen_report now n ts) = take 6 (to_le_bytes (report_timestamp now ts))"
proof -
  let ?r = "new_touchscreen_report now n ts"
  show "?r ! 0 = 9" "?r ! 1 = n" "?r ! 2 = 5"
    by (simp_all add: new_touchscreen_report_def Let_def nth_copy_at TOUCHSCREEN_REPORT_ID_def TOUCHSCREEN_CONTACT_COUNT_MAXIMUM_def)
  have l: "length (take 6 (to_le_bytes (report_timestamp now ts))) = 6" by simp
  show "sub 44 6 ?r = take 6 (to_le_bytes (report_timestamp now ts))"
    unfolding new_touchscreen_report_def Let_def
    by (rule sub_copy_same [of 44 "take 6 (to_le_bytes (report_timestamp now ts))", unfolded l]) simp
qed

lemma frame_time_of:
  assumes "w = x AND mask 48" "sub 44 6 r = take 6 (to_le_bytes w)"
  shows "frame_time r = (w :: u64)"
proof -
  have "unat w < 2 ^ 48"
    using and_mask_less' [of 48 x] by (simp add: assms(1) word_less_nat_alt)
  then have "nat_le (6 + 2) (unat w) = nat_le 6 (unat w) @ [0, 0]"
    by (simp only: nat_le_split) (simp add: nat_le_2)
  then have "take 6 (to_le_bytes w) @ [0, 0] = to_le_bytes w" by (simp add: to_le_bytes_def)
  then show ?thesis by (simp add: frame_time_def assms(2))
qed

text \<open>
  C30. A touch frame is built exactly for at most five contacts with different identities below five; it has 58 bytes,
  and the device reads from it those contacts, in order, and the time truncated to 48 bits.
\<close>

theorem multitouch_report_reads_back:
  "case build_multitouch_report now cs ts of
     Ok r \<Rightarrow> valid_contacts cs \<and> length r = 58 \<and> hd r = TOUCHSCREEN_REPORT_ID \<and>
       frame_contacts r = cs \<and> frame_time r = report_timestamp now ts
   | Err e \<Rightarrow> \<not> valid_contacts cs
   | Panic \<Rightarrow> False"
proof (cases "valid_contacts cs")
  case True
  then have l: "length cs \<le> 5" by (simp add: valid_contacts_def)
  have c: "check_contacts [] cs = Ok ()" using True by (simp add: check_contacts_iff valid_contacts_def)
  define r0 where "r0 = new_touchscreen_report now (of_nat (length cs)) ts"
  from write_contacts_spec [of 0 cs r0] l obtain r where
    r: "write_contacts 0 cs r0 = Ok r" "length r = 58"
      "\<And>i. i < length cs \<Longrightarrow> sub (3 + 5 * i) 5 r = contact_bytes (cs ! i)"
      "\<And>k. k < 58 \<Longrightarrow> k < 3 \<or> 3 + 5 * length cs \<le> k \<Longrightarrow> r ! k = r0 ! k"
    by (auto simp: r0_def)
  have n: "unat (of_nat (length cs) :: byte) = length cs" using l by (simp add: unat_of_nat)
  have h: "r ! 0 = 9" "r ! 1 = of_nat (length cs)" using r(4) [of 0] r(4) [of 1] by (simp_all add: r0_def new_report_bytes del: One_nat_def)
  have "frame_contacts r = cs"
    unfolding frame_contacts_def h(2) n
    by (rule nth_equalityI) (use True r(3) contact_of_bytes in \<open>auto simp: valid_contacts_def\<close>)
  moreover have "sub 44 6 r = sub 44 6 r0" by (rule sub_nth_eq) (use r(2,4) l in \<open>auto simp: r0_def\<close>)
  then have "frame_time r = report_timestamp now ts"
    by (intro frame_time_of) (simp_all add: report_timestamp_def r0_def new_report_bytes(4))
  moreover have "hd r = 9" using h(1) r(2) by (cases r) auto
  ultimately show ?thesis
    using True l c r(1,2) by (simp add: build_multitouch_report_def TOUCHSCREEN_CONTACT_COUNT_MAXIMUM_def
        TOUCHSCREEN_REPORT_ID_def r0_def)
next
  case False
  then have "5 < length cs \<or> check_contacts [] cs \<noteq> Ok ()" by (auto simp: check_contacts_iff valid_contacts_def)
  then show ?thesis using False check_contacts_not_panic [of "[]" cs]
    by (cases "check_contacts [] cs") (auto simp: build_multitouch_report_def TOUCHSCREEN_CONTACT_COUNT_MAXIMUM_def)
qed

text \<open>A tap is always a frame the device takes, lifted or not.\<close>

lemma multitap_valid:
  assumes "multitap_contacts ps = Ok cs"
  shows "valid_contacts cs \<and> valid_contacts (map (\<lambda>c. c\<lparr>tc_touching := False\<rparr>) cs) \<and>
    map (\<lambda>c. (tc_x c, tc_y c)) cs = ps"
proof -
  from assms have l: "length ps \<le> 5"
    and cs: "cs = map (\<lambda>(i, (x, y)). \<lparr>tc_identity = of_nat i, tc_touching = True, tc_x = x, tc_y = y\<rparr>) (enumerate 0 ps)"
    by (auto simp: multitap_contacts_def TOUCHSCREEN_CONTACT_COUNT_MAXIMUM_def split: if_splits)
  have ids: "map tc_identity cs = map of_nat [0..<length ps]"
    by (rule nth_equalityI) (simp_all add: cs nth_enumerate_eq split: prod.split)
  have "inj_on (of_nat :: nat \<Rightarrow> byte) {0..<length ps}"
    by (rule inj_onI) (use l in \<open>simp add: word_unat_eq_iff unat_of_nat\<close>)
  then have inj: "distinct (map of_nat [0..<length ps] :: byte list)" by (simp add: distinct_map)
  have s: "tc_identity c < 5" if "c \<in> set cs" for c
  proof -
    from that have "tc_identity c \<in> set (map tc_identity cs)" by simp
    with l show ?thesis unfolding ids by (auto simp: word_less_nat_alt unat_of_nat)
  qed
  have "map (\<lambda>c. (tc_x c, tc_y c)) cs = ps"
    by (rule nth_equalityI) (simp_all add: cs nth_enumerate_eq split: prod.split)
  moreover have "length cs = length ps" by (simp add: cs)
  moreover have "map tc_identity (map (\<lambda>c. c\<lparr>tc_touching := False\<rparr>) cs) = map tc_identity cs" by simp
  ultimately show ?thesis using ids inj s l unfolding valid_contacts_def by (simp only: length_map set_map) auto
qed

end
