(* ===== verification/Hid_Keyboard.thy ===== *)
theory Hid_Keyboard
  imports Hid_Reports Xpc_Client Device Texts
begin

text \<open>
  services/core_device/hid.rs, the keyboard: a HID service the client creates on the device, confirms, sends the set of
  pressed keys to, and removes again. The operations use a wire with two methods (the trait \<open>MainKeyboardWire\<close>), which
  the RemoteXPC client provides; the conversion of a property list to the surfaces (\<open>plist::from_value\<close>) is a parameter.
\<close>

section \<open>Keys\<close>

datatype keyboard_error =
  KbTransport | KbMalformedResponse | ServiceNotVisible | AmbiguousIdentity | MetadataMissing | MetadataInvalid |
  UsageMismatch | IdentityEvidenceMissing | VirtualServiceMismatch | DescriptorMismatch | RollbackFailed |
  KbInactive | InvalidUsage | KeyAlreadyPressed | KeyNotPressed | StillRegistered

text \<open>\<open>KeyboardUsage(u8)\<close>, made by its constructor only.\<close>

definition keyboard_usage_new :: "u16 \<Rightarrow> (byte, keyboard_error) res" where
  "keyboard_usage_new raw = (if 0x01 \<le> raw \<and> raw \<le> 0xE7 then Ok (ucast raw) else Err InvalidUsage)"

definition bitmap_position :: "byte \<Rightarrow> nat \<times> byte" where
  "bitmap_position u = (let usage = unat u in (usage div 8, push_bit (usage mod 8) 1))"

record main_keyboard =
  mk_service_id :: u64
  mk_pressed :: "byte list"
  mk_active :: bool

definition count_ones :: "byte \<Rightarrow> nat" where
  "count_ones b = length (filter (bit b) [0..<8])"

definition pressed_count :: "main_keyboard \<Rightarrow> nat" where
  "pressed_count s = sum_list (map count_ones (mk_pressed s))"

definition NO_KEYS :: "byte list" where "NO_KEYS = replicate 29 0"

definition main_keyboard_usage_bitmap :: "byte list \<Rightarrow> byte list" where
  "main_keyboard_usage_bitmap usages =
    fold (\<lambda>usage bitmap. case bitmap_position usage of (i, m) \<Rightarrow> bitmap[i := bitmap ! i OR m]) usages NO_KEYS"

definition build_main_keyboard_report :: "clock \<Rightarrow> byte list \<Rightarrow> byte list" where
  "build_main_keyboard_report now bitmap =
    [0x01] @ bitmap @ [0] @ take 6 (to_le_bytes (default_timestamp now)) @ [0, 0]"

section \<open>Requests\<close>

definition universal_hid_request :: "dict_insert \<Rightarrow> xpc_object \<Rightarrow> xpc_object" where
  "universal_hid_request ins payload =
    xpc_literal ins [(''featureIdentifier'', XString (rstr ''com.apple.coredevice.feature.remote.universalhidservice'')),
      (''messageType'', XString (rstr ''Request'')), (''payload'', payload)]"

definition build_connected_services_request :: "dict_insert \<Rightarrow> xpc_object" where
  "build_connected_services_request ins =
    universal_hid_request ins (xpc_literal ins [(''connectedServices'', XDictionary [])])"

definition MAIN_KEYBOARD_REPORT_DESCRIPTOR :: "byte list" where
  "MAIN_KEYBOARD_REPORT_DESCRIPTOR =
    [0x85, 0x01, 0x05, 0x07, 0x19, 0x01, 0x29, 0xE7, 0x96, 0xE8, 0x00, 0x75, 0x01, 0x15, 0x01, 0x26,
     0xE7, 0x00, 0x81, 0x02, 0xA1, 0x02, 0x06, 0x1A, 0xFF, 0x0A, 0xF1, 0xE0, 0x19, 0x00, 0x29, 0x00,
     0x75, 0x08, 0x95, 0x01, 0x81, 0x01, 0xC0, 0x06, 0x00, 0xFF, 0x0A, 0x02, 0x01, 0x15, 0x00, 0x26,
     0xFF, 0x00, 0x75, 0x08, 0x95, 0x08, 0x81, 0x02]"

definition MAIN_KEYBOARD_PRIMARY_USAGE :: u64 where "MAIN_KEYBOARD_PRIMARY_USAGE = 0x06"
definition MAIN_KEYBOARD_PRIMARY_USAGE_PAGE :: u64 where "MAIN_KEYBOARD_PRIMARY_USAGE_PAGE = 0x01"
definition MAIN_KEYBOARD_VENDOR_ID :: i64 where "MAIN_KEYBOARD_VENDOR_ID = 0x05AC"
definition MAIN_KEYBOARD_PRODUCT_ID :: i64 where "MAIN_KEYBOARD_PRODUCT_ID = 0x0250"
definition MAIN_KEYBOARD_REQUESTED_SERVICE_ID :: u64 where "MAIN_KEYBOARD_REQUESTED_SERVICE_ID = 0x100002001"
definition MAIN_KEYBOARD_PRODUCT :: rstring where "MAIN_KEYBOARD_PRODUCT = rstr ''idevice mainKeyboard''"
definition MAIN_KEYBOARD_MANUFACTURER :: rstring where "MAIN_KEYBOARD_MANUFACTURER = rstr ''idevice''"

definition build_main_keyboard_create_request :: "dict_insert \<Rightarrow> xpc_object" where
  "build_main_keyboard_create_request ins =
    (let obj = xpc_literal ins;
         pairs = [(''DeviceUsage'', XInt64 MAIN_KEYBOARD_PRIMARY_USAGE), (''DeviceUsagePage'', XInt64 MAIN_KEYBOARD_PRIMARY_USAGE_PAGE)];
         tagged = (\<lambda>tag x. obj [(tag, x)])
     in universal_hid_request ins (obj [(''createService'', obj [(''_0'', obj
       [(''DeviceUsagePairs'', XArray [obj pairs]),
        (''PrimaryUsage'', XUInt64 MAIN_KEYBOARD_PRIMARY_USAGE),
        (''PrimaryUsagePage'', XUInt64 MAIN_KEYBOARD_PRIMARY_USAGE_PAGE),
        (''Product'', XString MAIN_KEYBOARD_PRODUCT),
        (''ProductID'', XInt64 MAIN_KEYBOARD_PRODUCT_ID),
        (''VendorID'', XInt64 MAIN_KEYBOARD_VENDOR_ID),
        (''_CoreDevice_codablePropertyStorage'', obj
          [(''Manufacturer'', tagged ''string'' (XString MAIN_KEYBOARD_MANUFACTURER)),
           (''Product'', tagged ''string'' (XString MAIN_KEYBOARD_PRODUCT)),
           (''ProductID'', tagged ''int'' (XInt64 MAIN_KEYBOARD_PRODUCT_ID)),
           (''VendorID'', tagged ''int'' (XInt64 MAIN_KEYBOARD_VENDOR_ID)),
           (''PrimaryUsage'', tagged ''int'' (XInt64 MAIN_KEYBOARD_PRIMARY_USAGE)),
           (''PrimaryUsagePage'', tagged ''int'' (XInt64 MAIN_KEYBOARD_PRIMARY_USAGE_PAGE)),
           (''DeviceUsagePairs'', tagged ''array'' (XArray [tagged ''dictionary'' (obj
             (map (\<lambda>(k, v). (k, tagged ''int'' v)) pairs))])),
           (''Transport'', tagged ''string'' (XString (rstr ''USB''))),
           (''ReportDescriptor'', tagged ''data'' (XData MAIN_KEYBOARD_REPORT_DESCRIPTOR)),
           (''UniversalControlVirtualService'', tagged ''bool'' (XBool True)),
           (''_ServiceID'', tagged ''uint'' (XUInt64 MAIN_KEYBOARD_REQUESTED_SERVICE_ID))]),
        (''_ServiceID'', XUInt64 MAIN_KEYBOARD_REQUESTED_SERVICE_ID)])])]))"

definition build_main_keyboard_service_request :: "dict_insert \<Rightarrow> string \<Rightarrow> u64 \<Rightarrow> xpc_object" where
  "build_main_keyboard_service_request ins operation service_id =
    universal_hid_request ins (xpc_literal ins [(operation, xpc_literal ins [(''_0'', XUInt64 service_id)])])"

definition build_send_report_request :: "dict_insert \<Rightarrow> u64 \<Rightarrow> byte list \<Rightarrow> xpc_object" where
  "build_send_report_request ins service_id report =
    universal_hid_request ins (xpc_literal ins
      [(''send'', xpc_literal ins [(''_0'', XData report), (''_1'', XUInt64 service_id)])])"

section \<open>What the device answers\<close>

record hid_surface =
  hs_service_id :: u64
  hs_product :: "rstring option"
  hs_primary_usage :: "u64 option"
  hs_primary_usage_page :: "u64 option"

text \<open>\<open>char::is_control\<close>: U+0000 to U+001F and U+007F to U+009F.\<close>

definition char_control :: "byte list \<Rightarrow> bool" where
  "char_control c \<longleftrightarrow>
    (case c of [a] \<Rightarrow> a < 0x20 \<or> a = 0x7F | [a, b] \<Rightarrow> a = 0xC2 \<and> 0x80 \<le> b \<and> b \<le> 0x9F | _ \<Rightarrow> False)"

definition bad_label :: "rstring \<Rightarrow> bool" where
  "bad_label s \<longleftrightarrow> s = [] \<or> length s > 256 \<or> list_ex char_control (utf8_chars s)"

definition surface_bad :: "hid_surface \<Rightarrow> bool" where
  "surface_bad s \<longleftrightarrow>
    (case hs_product s of Some p \<Rightarrow> bad_label p | None \<Rightarrow> False) \<or>
    (case hs_primary_usage s of Some u \<Rightarrow> u > 0xFFFF | None \<Rightarrow> False) \<or>
    (case hs_primary_usage_page s of Some u \<Rightarrow> u > 0xFFFF | None \<Rightarrow> False)"

definition malformed_surfaces :: idevice_error where
  "malformed_surfaces = CoreDevice (MalformedField ''connectedServices'')"

fun check_surfaces :: "u64 list \<Rightarrow> hid_surface list \<Rightarrow> (unit, idevice_error) res" where
  "check_surfaces identifiers [] = Ok ()"
| "check_surfaces identifiers (s # ss) =
    (if hs_service_id s = 0 \<or> hs_service_id s \<in> set identifiers then Err malformed_surfaces
     else if surface_bad s then Err malformed_surfaces
     else check_surfaces (hs_service_id s # identifiers) ss)"

type_synonym surfaces_of = "plist_value \<Rightarrow> hid_surface list option"

definition parse_hid_surfaces :: "surfaces_of \<Rightarrow> plist_value \<Rightarrow> (hid_surface list, idevice_error) res" where
  "parse_hid_surfaces from_value response =
    rbind (ok_or (CoreDevice (CoreMissingField ''connectedServices''))
      (Option.bind (plist_as_dictionary response) (\<lambda>d. dict_get d ''connectedServices''))) (\<lambda>services.
    rbind (ok_or malformed_surfaces (from_value services)) (\<lambda>surfaces.
    if length surfaces > 256 then Err malformed_surfaces
    else rmap (\<lambda>_. surfaces) (check_surfaces [] surfaces)))"

definition parse_created_main_keyboard_id :: "plist_value \<Rightarrow> (u64, keyboard_error) res" where
  "parse_created_main_keyboard_id response =
    ok_or KbMalformedResponse
      (Option.bind (Option.bind (Option.bind (plist_as_dictionary response) (\<lambda>d. dict_get d ''serviceID''))
        plist_as_unsigned_integer) (\<lambda>service_id. if service_id \<noteq> 0 then Some service_id else None))"

definition codable_storage_value :: "plist_dict \<Rightarrow> string \<Rightarrow> string \<Rightarrow> plist_value option" where
  "codable_storage_value storage key tag =
    Option.bind (Option.bind (dict_get storage key) plist_as_dictionary) (\<lambda>wrapper. dict_get wrapper tag)"

fun check_labels :: "plist_dict \<Rightarrow> string list \<Rightarrow> (unit, keyboard_error) res" where
  "check_labels storage [] = Ok ()"
| "check_labels storage (key # keys) =
    rbind (ok_or MetadataMissing (Option.bind (codable_storage_value storage key ''string'') plist_as_string)) (\<lambda>s.
      if bad_label s then Err MetadataInvalid else check_labels storage keys)"

definition surface_with_id :: "u64 \<Rightarrow> plist_value \<Rightarrow> plist_dict option" where
  "surface_with_id service_id v =
    Option.bind (plist_as_dictionary v) (\<lambda>d.
      if Option.bind (dict_get d ''_ServiceID'') plist_as_unsigned_integer = Some service_id then Some d else None)"

text \<open>What is asked of the one surface with the identifier.\<close>

definition confirm_surface :: "plist_dict \<Rightarrow> u64 \<Rightarrow> (unit, keyboard_error) res" where
  "confirm_surface surface service_id =
    (let number = (\<lambda>v. Option.bind v plist_as_unsigned_integer)
     in if number (dict_get surface ''PrimaryUsagePage'') \<noteq> Some MAIN_KEYBOARD_PRIMARY_USAGE_PAGE \<or>
           number (dict_get surface ''PrimaryUsage'') \<noteq> Some MAIN_KEYBOARD_PRIMARY_USAGE
        then Err UsageMismatch
        else rbind (ok_or IdentityEvidenceMissing
            (Option.bind (dict_get surface ''_CoreDevice_codablePropertyStorage'') plist_as_dictionary)) (\<lambda>storage.
          if number (codable_storage_value storage ''_ServiceID'' ''uint'') \<noteq> Some service_id
          then Err IdentityEvidenceMissing
          else if number (codable_storage_value storage ''PrimaryUsagePage'' ''int'') \<noteq> Some MAIN_KEYBOARD_PRIMARY_USAGE_PAGE \<or>
                  number (codable_storage_value storage ''PrimaryUsage'' ''int'') \<noteq> Some MAIN_KEYBOARD_PRIMARY_USAGE
          then Err UsageMismatch
          else if Option.bind (codable_storage_value storage ''UniversalControlVirtualService'' ''bool'') plist_as_boolean \<noteq> Some True
          then Err VirtualServiceMismatch
          else if Option.bind (codable_storage_value storage ''ReportDescriptor'' ''data'') plist_as_data
                  \<noteq> Some MAIN_KEYBOARD_REPORT_DESCRIPTOR
          then Err DescriptorMismatch
          else check_labels storage [''Product'', ''Manufacturer'']))"

definition confirm_main_keyboard_identity :: "plist_value \<Rightarrow> u64 \<Rightarrow> (unit, keyboard_error) res" where
  "confirm_main_keyboard_identity response service_id =
    rbind (ok_or KbMalformedResponse (Option.bind (Option.bind (plist_as_dictionary response)
      (\<lambda>d. dict_get d ''connectedServices'')) plist_as_array)) (\<lambda>encoded.
    if length encoded > 256 then Err KbMalformedResponse
    else case List.map_filter (surface_with_id service_id) encoded of
        [] \<Rightarrow> Err ServiceNotVisible
      | [surface] \<Rightarrow> confirm_surface surface service_id
      | _ \<Rightarrow> Err AmbiguousIdentity)"

section \<open>The life of a keyboard\<close>

text \<open>The wire: a request with an answer, and a message that is only sent. An operation's state is the wire, or the wire and the service.\<close>

type_synonym ('s, 'a) kb = "'s \<Rightarrow> ('a, keyboard_error) res \<times> 's"
type_synonym 'w kb_request = "xpc_object \<Rightarrow> ('w, plist_value) kb"
type_synonym 'w kb_send = "xpc_object \<Rightarrow> ('w, unit) kb"

definition kb_bind :: "('s, 'a) kb \<Rightarrow> ('a \<Rightarrow> ('s, 'b) kb) \<Rightarrow> ('s, 'b) kb" where
  "kb_bind m f s = (case m s of (Ok a, t) \<Rightarrow> f a t | (Err e, t) \<Rightarrow> (Err e, t) | (Panic, t) \<Rightarrow> (Panic, t))"

definition kb_res :: "('a, keyboard_error) res \<Rightarrow> ('s, 'a) kb" where
  "kb_res r s = (r, s)"

text \<open>\<open>impl MainKeyboardWire for UniversalHidServiceClient\<close>: every failure of the client is \<open>Transport\<close>.\<close>

definition as_transport :: "('s, 'a) act \<Rightarrow> ('s, 'a) kb" where
  "as_transport m s =
    (case m s of (Ok a, t) \<Rightarrow> (Ok a, t) | (Err _, t) \<Rightarrow> (Err KbTransport, t) | (Panic, t) \<Rightarrow> (Panic, t))"

definition hid_request :: "dict_insert \<Rightarrow> (xpc_object \<Rightarrow> plist_value) \<Rightarrow> xpc_client kb_request" where
  "hid_request ins to_pl request =
    kb_bind (as_transport (send_object request True)) (\<lambda>_. as_transport (recv ins to_pl))"

definition hid_send :: "xpc_client kb_send" where
  "hid_send request = as_transport (send_object request False)"

definition list_connected_services :: "dict_insert \<Rightarrow> (xpc_object \<Rightarrow> plist_value) \<Rightarrow> surfaces_of \<Rightarrow> (xpc_client, hid_surface list) act" where
  "list_connected_services ins to_pl from_value =
    act_bind (send_object (build_connected_services_request ins) True) (\<lambda>_.
    act_bind (recv ins to_pl) (\<lambda>res. act_res (parse_hid_surfaces from_value res)))"

definition surfaces_on_wire :: "surfaces_of \<Rightarrow> plist_value \<Rightarrow> (hid_surface list, keyboard_error) res" where
  "surfaces_on_wire from_value response =
    (case parse_hid_surfaces from_value response of Ok s \<Rightarrow> Ok s | Err _ \<Rightarrow> Err KbMalformedResponse | Panic \<Rightarrow> Panic)"

definition confirm_main_keyboard_on_wire :: "dict_insert \<Rightarrow> surfaces_of \<Rightarrow> 'w kb_request \<Rightarrow> u64 \<Rightarrow> ('w, unit) kb" where
  "confirm_main_keyboard_on_wire ins from_value request service_id =
    kb_bind (request (build_connected_services_request ins)) (\<lambda>response.
    kb_bind (kb_res (surfaces_on_wire from_value response)) (\<lambda>_.
    kb_res (confirm_main_keyboard_identity response service_id)))"

definition create_main_keyboard_on_wire :: "dict_insert \<Rightarrow> surfaces_of \<Rightarrow> 'w kb_request \<Rightarrow> 'w kb_send \<Rightarrow> ('w, main_keyboard) kb" where
  "create_main_keyboard_on_wire ins from_value request snd_msg =
    kb_bind (request (build_main_keyboard_create_request ins)) (\<lambda>response.
    kb_bind (kb_res (parse_created_main_keyboard_id response)) (\<lambda>service_id w.
      case confirm_main_keyboard_on_wire ins from_value request service_id w of
        (Ok _, w) \<Rightarrow> (Ok \<lparr>mk_service_id = service_id, mk_pressed = NO_KEYS, mk_active = True\<rparr>, w)
      | (Err error, w) \<Rightarrow>
          (case snd_msg (build_main_keyboard_service_request ins ''removeService'' service_id) w of
             (Ok _, w) \<Rightarrow> (Err error, w)
           | (Err _, w) \<Rightarrow> (Err RollbackFailed, w)
           | (Panic, w) \<Rightarrow> (Panic, w))
      | (Panic, w) \<Rightarrow> (Panic, w)))"

text \<open>\<open>wire.send(..).await\<close> beside a service.\<close>

definition on_wire :: "('w, 'a) kb \<Rightarrow> ('w \<times> main_keyboard, 'a) kb" where
  "on_wire m ws = (case m (fst ws) of (r, w) \<Rightarrow> (r, w, snd ws))"

definition on_service :: "(main_keyboard \<Rightarrow> main_keyboard) \<Rightarrow> ('w \<times> main_keyboard, unit) kb" where
  "on_service f ws = (Ok (), fst ws, f (snd ws))"

definition replace_main_keyboard_usages_on_wire ::
    "dict_insert \<Rightarrow> clock \<Rightarrow> 'w kb_send \<Rightarrow> byte list \<Rightarrow> ('w \<times> main_keyboard, unit) kb" where
  "replace_main_keyboard_usages_on_wire ins now snd_msg pressed ws =
    (if \<not> mk_active (snd ws) then (Err KbInactive, ws)
     else kb_bind (on_wire (snd_msg (build_send_report_request ins (mk_service_id (snd ws)) (build_main_keyboard_report now pressed)))) (\<lambda>_.
       on_service (\<lambda>s. s\<lparr>mk_pressed := pressed\<rparr>)) ws)"

definition reset_main_keyboard_on_wire :: "dict_insert \<Rightarrow> 'w kb_send \<Rightarrow> ('w \<times> main_keyboard, unit) kb" where
  "reset_main_keyboard_on_wire ins snd_msg ws =
    (if \<not> mk_active (snd ws) then (Ok (), ws)
     else kb_bind (on_wire (snd_msg (build_main_keyboard_service_request ins ''resetGestureState'' (mk_service_id (snd ws))))) (\<lambda>_.
       on_service (\<lambda>s. s\<lparr>mk_pressed := replicate (length (mk_pressed s)) 0\<rparr>)) ws)"

text \<open>The outcome of the reset in front of the removal is ignored; a panic is not.\<close>

definition remove_main_keyboard_on_wire ::
    "dict_insert \<Rightarrow> surfaces_of \<Rightarrow> 'w kb_request \<Rightarrow> 'w kb_send \<Rightarrow> ('w \<times> main_keyboard, unit) kb" where
  "remove_main_keyboard_on_wire ins from_value request snd_msg ws =
    (let service_id = mk_service_id (snd ws)
     in if \<not> mk_active (snd ws) then (Ok (), ws)
        else case on_wire (snd_msg (build_main_keyboard_service_request ins ''resetGestureState'' service_id)) ws of
          (Panic, ws) \<Rightarrow> (Panic, ws)
        | (_, ws) \<Rightarrow>
            kb_bind (on_wire (snd_msg (build_main_keyboard_service_request ins ''removeService'' service_id))) (\<lambda>_.
            kb_bind (on_wire (kb_bind (request (build_connected_services_request ins)) (\<lambda>response.
              kb_res (surfaces_on_wire from_value response)))) (\<lambda>surfaces.
            if list_ex (\<lambda>s. hs_service_id s = service_id) surfaces then kb_res (Err StillRegistered)
            else on_service (\<lambda>s. s\<lparr>mk_pressed := replicate (length (mk_pressed s)) 0, mk_active := False\<rparr>))) ws)"

definition set_main_keyboard_usages :: "dict_insert \<Rightarrow> clock \<Rightarrow> 'w kb_send \<Rightarrow> byte list \<Rightarrow> ('w \<times> main_keyboard, unit) kb" where
  "set_main_keyboard_usages ins now snd_msg pressed =
    replace_main_keyboard_usages_on_wire ins now snd_msg (main_keyboard_usage_bitmap pressed)"

definition main_keyboard_key_down :: "dict_insert \<Rightarrow> clock \<Rightarrow> 'w kb_send \<Rightarrow> byte \<Rightarrow> ('w \<times> main_keyboard, unit) kb" where
  "main_keyboard_key_down ins now snd_msg usage ws =
    (case bitmap_position usage of (i, m) \<Rightarrow>
      let pressed = mk_pressed (snd ws)
      in if pressed ! i AND m \<noteq> 0 then (Err KeyAlreadyPressed, ws)
         else replace_main_keyboard_usages_on_wire ins now snd_msg (pressed[i := pressed ! i OR m]) ws)"

definition main_keyboard_key_up :: "dict_insert \<Rightarrow> clock \<Rightarrow> 'w kb_send \<Rightarrow> byte \<Rightarrow> ('w \<times> main_keyboard, unit) kb" where
  "main_keyboard_key_up ins now snd_msg usage ws =
    (case bitmap_position usage of (i, m) \<Rightarrow>
      let pressed = mk_pressed (snd ws)
      in if pressed ! i AND m = 0 then (Err KeyNotPressed, ws)
         else replace_main_keyboard_usages_on_wire ins now snd_msg (pressed[i := pressed ! i AND NOT m]) ws)"

end
