(* ===== verification/Float_Round.thy ===== *)
theory Float_Round
  imports Float_Bits Complex_Main
begin

text \<open>
  Arithmetic on \<open>f64\<close> where every intermediate value is zero or a normal number: a result is the exact one rounded to 53
  significant bits, ties to even. A value is the rational number it stands for.
\<close>

definition half_even :: "rat \<Rightarrow> int" where
  "half_even q =
    (let f = \<lfloor>q\<rfloor>; r = q - of_int f
     in if r < 1 / 2 \<or> r = 1 / 2 \<and> even f then f else f + 1)"

text \<open>\<open>2 ^ e\<close> for an integer exponent.\<close>

definition two_to :: "int \<Rightarrow> rat" where
  "two_to e = (if 0 \<le> e then 2 ^ nat e else 1 / 2 ^ nat (- e))"

text \<open>The exponent of the leading bit of a number that is not zero.\<close>

definition lead_exp :: "rat \<Rightarrow> int" where
  "lead_exp x =
    (case quotient_of \<bar>x\<bar> of (n, d) \<Rightarrow>
      let k = int (top_bit (nat n)) - int (top_bit (nat d))
      in if two_to k \<le> \<bar>x\<bar> then k else k - 1)"

definition f64_rnd :: "rat \<Rightarrow> rat" where
  "f64_rnd x =
    (if x = 0 then 0
     else let ulp = two_to (lead_exp x - 52) in of_int (half_even (x / ulp)) * ulp)"

text \<open>\<open>f64::round\<close> is half away from zero; the cast to \<open>u16\<close> saturates.\<close>

definition round_away :: "rat \<Rightarrow> int" where
  "round_away x = (if 0 \<le> x then \<lfloor>x + 1 / 2\<rfloor> else \<lceil>x - 1 / 2\<rceil>)"

definition to_u16 :: "int \<Rightarrow> u16" where
  "to_u16 i = word_of_int (max 0 (min 65535 i))"

lemma two_to_pos: "0 < two_to e"
  by (simp add: two_to_def)

lemma half_even_le: "q \<le> of_int k \<Longrightarrow> half_even q \<le> k"
proof -
  assume q: "q \<le> of_int k"
  then have f: "\<lfloor>q\<rfloor> \<le> k" by linarith
  show ?thesis
  proof (cases "\<lfloor>q\<rfloor> = k")
    case True
    then have "q - of_int \<lfloor>q\<rfloor> < 1 / 2" using q by simp
    with True show ?thesis by (simp add: half_even_def Let_def)
  qed (use f in \<open>auto simp: half_even_def Let_def\<close>)
qed

lemma half_even_ge: "of_int k \<le> q \<Longrightarrow> k \<le> half_even q"
proof -
  assume "of_int k \<le> q"
  then have "k \<le> \<lfloor>q\<rfloor>" by linarith
  then show ?thesis by (auto simp: half_even_def Let_def)
qed

lemma two_to_minus: "two_to (int a - int b) = 2 ^ a / 2 ^ b"
  by (cases "b \<le> a") (auto simp: two_to_def power_diff nat_diff_distrib' of_nat_diff field_simps simp flip: power_add)

lemma lead_exp_le:
  assumes "x \<noteq> 0"
  shows "two_to (lead_exp x) \<le> \<bar>x\<bar>"
proof -
  obtain n d where q: "quotient_of \<bar>x\<bar> = (n, d)" by fastforce
  have d: "0 < d" and x: "\<bar>x\<bar> = of_int n / of_int d"
    using quotient_of_denom_pos [OF q] quotient_of_div [OF q] by auto
  have n: "0 < n"
  proof (rule ccontr)
    assume "\<not> 0 < n"
    then have "of_int n / (of_int d :: rat) \<le> 0" using d by (simp add: divide_nonpos_pos)
    with x assms show False by simp
  qed
  define a where "a = top_bit (nat n)"
  define b where "b = top_bit (nat d)"
  have "2 ^ a \<le> nat n" "nat d < 2 ^ Suc b"
    using top_bit_bounds [of "nat n"] top_bit_bounds [of "nat d"] n d unfolding a_def b_def by (simp_all only: zero_less_nat_eq)
  then have "(2 :: int) ^ a \<le> n" "d < 2 ^ Suc b" using n d by (simp_all add: le_nat_iff nat_less_iff)
  then have ab: "(2 :: rat) ^ a \<le> of_int n" "of_int d \<le> (2 :: rat) ^ Suc b"
    by (metis of_int_le_iff of_int_numeral of_int_power, metis of_int_le_iff of_int_numeral of_int_power less_imp_le)
  have "two_to (int a - int b - 1) = 2 ^ a / 2 ^ Suc b"
    using two_to_minus [of a "Suc b"] by (simp add: algebra_simps)
  also have "\<dots> \<le> of_int n / of_int d" using ab d n by (intro frac_le) simp_all
  finally show ?thesis unfolding lead_exp_def q by (simp add: Let_def x a_def b_def)
qed

text \<open>An integer below \<open>2 ^ 53\<close> that bounds the exact result also bounds the rounded one.\<close>

lemma grid:
  assumes "x \<noteq> 0" "\<bar>x\<bar> < 2 ^ 53"
  shows "\<exists>m. (of_int k :: rat) = of_int m * two_to (lead_exp x - 52)"
proof -
  have "lead_exp x < 53"
  proof (rule ccontr)
    assume "\<not> lead_exp x < 53"
    then have "(2 :: rat) ^ 53 \<le> two_to (lead_exp x)" unfolding two_to_def by (simp only: power_increasing split: if_split) (simp add: le_nat_iff power_increasing del: power_numeral)
    with lead_exp_le [OF assms(1)] assms(2) show False by linarith
  qed
  then have "two_to (lead_exp x - 52) = 1 / 2 ^ nat (52 - lead_exp x)"
    by (auto simp: two_to_def)
  then have "(of_int k :: rat) = of_int (k * 2 ^ nat (52 - lead_exp x)) * two_to (lead_exp x - 52)" by simp
  then show ?thesis by blast
qed

lemma f64_rnd_le:
  assumes "x \<le> of_int k" "\<bar>x\<bar> < 2 ^ 53"
  shows "f64_rnd x \<le> of_int k"
proof (cases "x = 0")
  case False
  define u where "u = two_to (lead_exp x - 52)"
  have u: "0 < u" by (simp add: u_def two_to_pos)
  obtain m where m: "of_int k = of_int m * u" using grid [OF False assms(2)] u_def by blast
  then have "x / u \<le> of_int m" using assms(1) u by (simp add: field_simps)
  then have "half_even (x / u) \<le> m" by (rule half_even_le)
  then have "of_int (half_even (x / u)) * u \<le> of_int m * u" using u by simp
  with m False show ?thesis by (simp add: f64_rnd_def Let_def u_def)
qed (use assms in \<open>simp add: f64_rnd_def\<close>)

lemma f64_rnd_ge:
  assumes "of_int k \<le> x" "\<bar>x\<bar> < 2 ^ 53"
  shows "of_int k \<le> f64_rnd x"
proof (cases "x = 0")
  case False
  define u where "u = two_to (lead_exp x - 52)"
  have u: "0 < u" by (simp add: u_def two_to_pos)
  obtain m where m: "of_int k = of_int m * u" using grid [OF False assms(2)] u_def by blast
  then have "of_int m \<le> x / u" using assms(1) u by (simp add: field_simps)
  then have "m \<le> half_even (x / u)" by (rule half_even_ge)
  then have "of_int m * u \<le> of_int (half_even (x / u)) * u" using u by simp
  with m False show ?thesis by (simp add: f64_rnd_def Let_def u_def)
qed (use assms in \<open>simp add: f64_rnd_def\<close>)

lemma f64_rnd_between:
  "of_int a \<le> x \<Longrightarrow> x \<le> of_int b \<Longrightarrow> \<bar>a\<bar> < 2 ^ 53 \<Longrightarrow> \<bar>b\<bar> < 2 ^ 53 \<Longrightarrow> of_int a \<le> f64_rnd x \<and> f64_rnd x \<le> of_int b"
proof -
  assume ab: "of_int a \<le> x" "x \<le> of_int b" "\<bar>a\<bar> < 2 ^ 53" "\<bar>b\<bar> < 2 ^ 53"
  then have "- (2 ^ 53) < a" "b < 2 ^ 53" by arith+
  then have "of_int (- (2 ^ 53)) < (of_int a :: rat)" "of_int b < (of_int (2 ^ 53) :: rat)" by (simp_all only: of_int_less_iff)
  with ab have "\<bar>x\<bar> < 2 ^ 53" by (simp add: abs_if)
  with ab show ?thesis using f64_rnd_le f64_rnd_ge by blast
qed

lemma round_away_between: "of_int a \<le> x \<Longrightarrow> x \<le> of_int b \<Longrightarrow> a \<le> round_away x \<and> round_away x \<le> b"
  unfolding round_away_def by (auto split: if_splits) linarith+

end
