(* ===== verification/Hid_Events.thy ===== *)
theory Hid_Events
  imports Hid_Keyboard Float_Round
begin

text \<open>
  services/core_device/hid.rs, the clients: generic events (\<open>IndigoHidClient\<close>), and reports to a surface
  (\<open>UniversalHidServiceClient\<close>) with the taps and drags made of them. A delay between two messages has no effect here; the
  clock is read once for each report (\<open>now\<close> gives the readings).
\<close>

section \<open>Events\<close>

definition send_event :: "dict_insert \<Rightarrow> string \<Rightarrow> string \<Rightarrow> xpc_object \<Rightarrow> (xpc_client, unit) act" where
  "send_event ins message_type feature_identifier payload =
    send_object (xpc_literal ins [(''messageType'', XString (rstr message_type)), (''payload'', payload),
      (''featureIdentifier'', XString (rstr feature_identifier))]) False"

definition send_button :: "dict_insert \<Rightarrow> u64 \<Rightarrow> u64 \<Rightarrow> button_state \<Rightarrow> (xpc_client, unit) act" where
  "send_button ins usage_page usage_code st =
    send_event ins ''IndigoButtonEvent'' ''com.apple.coredevice.feature.remote.hid.button''
      (xpc_literal ins [(''state'', XUInt64 (button_raw st)), (''usagePage'', XUInt64 usage_page), (''usageCode'', XUInt64 usage_code)])"

definition send_keyboard :: "dict_insert \<Rightarrow> u64 \<Rightarrow> button_state \<Rightarrow> (xpc_client, unit) act" where
  "send_keyboard ins usage_code st =
    send_event ins ''IndigoKeyboardButtonEvent'' ''com.apple.coredevice.feature.remote.hid.keyboard''
      (xpc_literal ins [(''usageCode'', XUInt64 usage_code), (''state'', XUInt64 (button_raw st))])"

text \<open>An \<open>f64\<close> is its 64 bits.\<close>

definition event_point :: "dict_insert \<Rightarrow> u64 \<times> u64 \<Rightarrow> xpc_object" where
  "event_point ins p = xpc_literal ins [(''x'', XDouble (fst p)), (''y'', XDouble (snd p))]"

definition indigo_digitizer :: "dict_insert \<Rightarrow> u64 \<times> u64 \<Rightarrow> (u64 \<times> u64) option \<Rightarrow> digitizer_event_type \<Rightarrow> digitizer_edge \<Rightarrow>
    digitizer_target \<Rightarrow> (xpc_client, unit) act" where
  "indigo_digitizer ins point_one point_two event_type edge target =
    send_event ins ''IndigoDigitizerEvent'' ''com.apple.coredevice.feature.remote.hid.digitizer''
      (xpc_literal ins
        ([(''pointOne'', event_point ins point_one)] @
         (case point_two of Some p \<Rightarrow> [(''pointTwo'', event_point ins p)] | None \<Rightarrow> []) @
         [(''eventType'', XUInt64 (event_type_raw event_type)), (''edge'', XUInt64 (edge_raw edge)),
          (''target'', XUInt64 (target_raw target))]))"

definition send_scroll :: "dict_insert \<Rightarrow> u64 \<times> u64 \<times> u64 \<Rightarrow> u64 \<Rightarrow> u64 \<Rightarrow> scroll_target \<Rightarrow> (xpc_client, unit) act" where
  "send_scroll ins point phase momentum target =
    (case point of (x, y, z) \<Rightarrow>
      send_event ins ''IndigoScrollEvent'' ''com.apple.coredevice.feature.remote.hid.scroll''
        (xpc_literal ins
          [(''point'', xpc_literal ins [(''x'', XDouble x), (''y'', XDouble y), (''z'', XDouble z)]),
           (''phase'', XUInt64 phase), (''momentum'', XUInt64 momentum), (''target'', XUInt64 (scroll_target_raw target))]))"

definition send_vendor_defined :: "dict_insert \<Rightarrow> u64 \<Rightarrow> u64 \<Rightarrow> u64 \<Rightarrow> byte list \<Rightarrow> (xpc_client, unit) act" where
  "send_vendor_defined ins usage_page usage version data =
    send_event ins ''IndigoVendorDefinedEvent'' ''com.apple.coredevice.feature.remote.hid.vendordefined''
      (xpc_literal ins [(''usagePage'', XUInt64 usage_page), (''usage'', XUInt64 usage), (''version'', XUInt64 version),
        (''data'', XData data)])"

section \<open>Reports\<close>

definition core_res :: "('a, core_device_error) res \<Rightarrow> ('s, 'a) act" where
  "core_res r = act_res (case r of Ok a \<Rightarrow> Ok a | Err e \<Rightarrow> Err (CoreDevice e) | Panic \<Rightarrow> Panic)"

definition send_report :: "dict_insert \<Rightarrow> u64 \<Rightarrow> byte list \<Rightarrow> (xpc_client, unit) act" where
  "send_report ins service_id report = send_object (build_send_report_request ins service_id report) False"

definition send_digitizer :: "dict_insert \<Rightarrow> clock \<Rightarrow> i32 \<Rightarrow> i32 \<Rightarrow> u64 \<Rightarrow> u64 option \<Rightarrow> (xpc_client, unit) act" where
  "send_digitizer ins now x y service_id timestamp =
    send_report ins service_id (build_digitizer_report now x y timestamp)"

definition send_touchscreen :: "dict_insert \<Rightarrow> clock \<Rightarrow> byte \<Rightarrow> u16 \<Rightarrow> u16 \<Rightarrow> u64 option \<Rightarrow> (xpc_client, unit) act" where
  "send_touchscreen ins now st x y timestamp =
    act_bind (core_res (build_touchscreen_report now st x y timestamp)) (send_report ins DIGITIZER_SURFACE_MAIN_TOUCHSCREEN)"

definition send_multitouch :: "dict_insert \<Rightarrow> clock \<Rightarrow> touchscreen_contact list \<Rightarrow> u64 option \<Rightarrow> (xpc_client, unit) act" where
  "send_multitouch ins now contacts timestamp =
    act_bind (core_res (build_multitouch_report now contacts timestamp)) (send_report ins DIGITIZER_SURFACE_MAIN_TOUCHSCREEN)"

definition multi_tap :: "dict_insert \<Rightarrow> (nat \<Rightarrow> clock) \<Rightarrow> (u16 \<times> u16) list \<Rightarrow> (xpc_client, unit) act" where
  "multi_tap ins now positions =
    act_bind (core_res (multitap_contacts positions)) (\<lambda>contacts.
    act_bind (send_multitouch ins (now 0) contacts None) (\<lambda>_.
    send_multitouch ins (now 1) (map (\<lambda>c. c\<lparr>tc_touching := False\<rparr>) contacts) None))"

definition tap :: "dict_insert \<Rightarrow> (nat \<Rightarrow> clock) \<Rightarrow> u16 \<Rightarrow> u16 \<Rightarrow> (xpc_client, unit) act" where
  "tap ins now x y =
    act_bind (send_touchscreen ins (now 0) TOUCHSCREEN_STATE_CONTACT x y None) (\<lambda>_.
    send_touchscreen ins (now 1) TOUCHSCREEN_STATE_RELEASE x y None)"

text \<open>\<open>(a as f64 + (b as f64 - a as f64) * t).round() as u16\<close> with \<open>t = i as f64 / steps as f64\<close>\<close>

definition drag_coordinate :: "u16 \<Rightarrow> u16 \<Rightarrow> u32 \<Rightarrow> nat \<Rightarrow> u16" where
  "drag_coordinate a b steps i =
    (let t = f64_rnd (of_nat i / of_nat (unat steps));
         a' = of_nat (unat a); b' = of_nat (unat b)
     in to_u16 (round_away (f64_rnd (a' + f64_rnd (f64_rnd (b' - a') * t)))))"

primrec drag_samples :: "dict_insert \<Rightarrow> (nat \<Rightarrow> clock) \<Rightarrow> (u16 \<times> u16) list \<Rightarrow> nat \<Rightarrow> (xpc_client, unit) act" where
  "drag_samples ins now [] i = act_ok ()"
| "drag_samples ins now (p # ps) i =
    act_bind (send_touchscreen ins (now i) TOUCHSCREEN_STATE_CONTACT (fst p) (snd p) None) (\<lambda>_.
    drag_samples ins now ps (Suc i))"

definition drag_points :: "u16 \<Rightarrow> u16 \<Rightarrow> u16 \<Rightarrow> u16 \<Rightarrow> u32 \<Rightarrow> (u16 \<times> u16) list" where
  "drag_points x1 y1 x2 y2 steps =
    map (\<lambda>i. (drag_coordinate x1 x2 steps i, drag_coordinate y1 y2 steps i)) [0..<unat steps]"

definition drag :: "dict_insert \<Rightarrow> (nat \<Rightarrow> clock) \<Rightarrow> u16 \<Rightarrow> u16 \<Rightarrow> u16 \<Rightarrow> u16 \<Rightarrow> u32 \<Rightarrow> (xpc_client, unit) act" where
  "drag ins now x1 y1 x2 y2 steps =
    (let steps = max steps 1
     in act_bind (drag_samples ins now (drag_points x1 y1 x2 y2 steps) 0) (\<lambda>_.
        act_bind (send_touchscreen ins (now (unat steps)) TOUCHSCREEN_STATE_CONTACT x2 y2 None) (\<lambda>_.
        send_touchscreen ins (now (unat steps + 1)) TOUCHSCREEN_STATE_RELEASE x2 y2 None)))"

section \<open>The path of a drag\<close>

text \<open>
  C32. Every sample of a drag lies between its ends: the roundings of the floating-point interpolation never leave the
  rectangle, whatever the number of steps, and the casts do not saturate.
\<close>

theorem drag_stays_between:
  "list_all (\<lambda>(x, y). min x1 x2 \<le> x \<and> x \<le> max x1 x2 \<and> min y1 y2 \<le> y \<and> y \<le> max y1 y2)
     (drag_points x1 y1 x2 y2 (max steps 1))"
proof -
  have between: "min a b \<le> drag_coordinate a b s i \<and> drag_coordinate a b s i \<le> max a b" if i: "i < unat s" for a b s i
  proof -
    define ra where "ra = uint a"
    define rb where "rb = uint b"
    have ab: "0 \<le> ra" "ra < 65536" "0 \<le> rb" "rb < 65536"
      using uint_lt2p [of a] uint_lt2p [of b] by (simp_all add: ra_def rb_def)
    define t where "t = f64_rnd (of_nat i / of_nat (unat s))"
    have "0 \<le> (of_nat i / of_nat (unat s) :: rat)" "(of_nat i / of_nat (unat s) :: rat) \<le> 1"
      using i by (simp_all only: divide_le_eq_1 of_nat_le_iff of_nat_0_less_iff zero_le_divide_iff of_nat_0_le_iff) simp_all
    then have t: "0 \<le> t \<and> t \<le> 1"
      using f64_rnd_between [of 0 "of_nat i / of_nat (unat s)" 1] unfolding t_def by simp
    have "\<bar>rb - ra\<bar> < 2 ^ 53" using ab by (simp add: abs_if)
    then have d: "f64_rnd (of_int (rb - ra)) = of_int (rb - ra)"
      using f64_rnd_between [of "rb - ra" "of_int (rb - ra)" "rb - ra"] by (simp only: order_refl simp_thms) (simp add: antisym)
    define lo where "lo = min 0 (rb - ra)"
    define hi where "hi = max 0 (rb - ra)"
    have "of_int lo \<le> of_int (rb - ra) * t \<and> of_int (rb - ra) * t \<le> of_int hi"
    proof (cases "0 \<le> rb - ra")
      case True
      then have "of_int (rb - ra) * t \<le> of_int (rb - ra)" using t by (intro mult_right_le_one_le) simp_all
      with True t show ?thesis by (simp add: lo_def hi_def)
    next
      case False
      then have n: "of_int (rb - ra) \<le> (0 :: rat)" by simp
      have "of_int (rb - ra) * 1 \<le> of_int (rb - ra) * t" using n t by (intro mult_left_mono_neg) simp_all
      moreover have "of_int (rb - ra) * t \<le> 0" using n t by (intro mult_nonpos_nonneg) simp_all
      ultimately show ?thesis using False by (simp add: lo_def hi_def)
    qed
    then have m: "of_int lo \<le> f64_rnd (of_int (rb - ra) * t) \<and> f64_rnd (of_int (rb - ra) * t) \<le> of_int hi"
      by (intro f64_rnd_between) (use ab in \<open>auto simp: lo_def hi_def\<close>)
    define z where "z = f64_rnd (of_int ra + f64_rnd (of_int (rb - ra) * t))"
    have "of_int (min ra rb) \<le> z \<and> z \<le> of_int (max ra rb)"
      unfolding z_def using m ab by (intro f64_rnd_between) (auto simp: lo_def hi_def min_def max_def split: if_splits)
    then have r: "min ra rb \<le> round_away z" "round_away z \<le> max ra rb"
      using round_away_between by blast+
    have "drag_coordinate a b s i = to_u16 (round_away z)"
    proof -
      have n: "(of_nat (unat w) :: rat) = of_int (uint w)" for w :: u16 by simp
      show ?thesis
        unfolding drag_coordinate_def z_def t_def Let_def n ra_def [symmetric] rb_def [symmetric] of_int_diff [symmetric] d ..
    qed
    moreover have "uint (to_u16 (round_away z)) = round_away z"
      using r ab by (simp add: to_u16_def uint_word_of_int)
    ultimately show ?thesis using r by (auto simp: word_le_def ra_def rb_def min_def max_def split: if_splits)
  qed
  then show ?thesis by (simp add: drag_points_def list_all_iff)
qed

end
