(* ===== verification/Hid_Runs.thy ===== *)
theory Hid_Runs
  imports Hid_Keyboard
begin

text \<open>
  What the keyboard operations achieve, over any wire. The wire is watched: the messages whose sending succeeded are
  written down, and the keys the device takes to be pressed are read from them.
\<close>

section \<open>The keys of a bitmap\<close>

definition pressed_set :: "byte list \<Rightarrow> nat set" where
  "pressed_set bm = {u. u < 8 * length bm \<and> bit (bm ! (u div 8)) (u mod 8)}"

lemma pressed_none [simp]: "pressed_set (replicate n 0) = {}" "pressed_set NO_KEYS = {}"
  by (auto simp: pressed_set_def NO_KEYS_def)

lemma bitmap_mask: "bitmap_position u = (unat u div 8, 2 ^ (unat u mod 8))"
  by (simp add: bitmap_position_def push_bit_eq_mult Let_def)

lemma pressed_and: "unat u < 8 * length bm \<Longrightarrow> (bm ! (unat u div 8)) AND 2 ^ (unat u mod 8) \<noteq> 0 \<longleftrightarrow> unat u \<in> pressed_set bm"
  by (simp add: pressed_set_def and_exp_eq_0_iff_not_bit)

lemma pressed_insert:
  assumes "unat (u :: byte) < 8 * length bm"
  shows "pressed_set (bm[unat u div 8 := bm ! (unat u div 8) OR 2 ^ (unat u mod 8)]) = insert (unat u) (pressed_set bm)"
proof (rule set_eqI)
  fix v
  have "v div 8 = unat u div 8 \<Longrightarrow> v mod 8 = unat u mod 8 \<longleftrightarrow> v = unat u" by (metis div_mod_decomp)
  with assms show "v \<in> pressed_set (bm[unat u div 8 := bm ! (unat u div 8) OR 2 ^ (unat u mod 8)]) \<longleftrightarrow> v \<in> insert (unat u) (pressed_set bm)"
    by (auto simp: pressed_set_def nth_list_update bit_or_iff bit_exp_iff)
qed

lemma pressed_delete:
  assumes "unat (u :: byte) < 8 * length bm"
  shows "pressed_set (bm[unat u div 8 := bm ! (unat u div 8) AND NOT (2 ^ (unat u mod 8))]) = pressed_set bm - {unat u}"
proof (rule set_eqI)
  fix v
  have "v div 8 = unat u div 8 \<Longrightarrow> v mod 8 = unat u mod 8 \<longleftrightarrow> v = unat u" by (metis div_mod_decomp)
  with assms show "v \<in> pressed_set (bm[unat u div 8 := bm ! (unat u div 8) AND NOT (2 ^ (unat u mod 8))]) \<longleftrightarrow> v \<in> pressed_set bm - {unat u}"
    by (auto simp: pressed_set_def nth_list_update bit_and_iff bit_not_iff bit_exp_iff)
qed

lemma pressed_bitmap:
  "\<forall>u \<in> set us. unat u < 8 * length bm \<Longrightarrow>
   (let bm' = fold (\<lambda>usage bitmap. case bitmap_position usage of (i, m) \<Rightarrow> bitmap[i := bitmap ! i OR m]) us bm
    in length bm' = length bm \<and> pressed_set bm' = unat ` set us \<union> pressed_set bm)"
  by (induction us arbitrary: bm) (auto simp: Let_def bitmap_mask pressed_insert)

section \<open>The device's view\<close>

definition payload_field :: "xpc_object \<Rightarrow> string \<Rightarrow> xpc_object option" where
  "payload_field m k =
    Option.bind (Option.bind (Option.bind (as_dictionary m) (\<lambda>d. map_of d (rstr ''payload''))) as_dictionary) (\<lambda>p. map_of p (rstr k))"

definition device_step :: "xpc_object \<Rightarrow> byte list \<Rightarrow> byte list" where
  "device_step m keys =
    (case Option.bind (Option.bind (payload_field m ''send'') as_dictionary) (\<lambda>a. map_of a (rstr ''_0'')) of
       Some (XData report) \<Rightarrow> sub 1 29 report
     | _ \<Rightarrow> if payload_field m ''resetGestureState'' \<noteq> None \<or> payload_field m ''removeService'' \<noteq> None then NO_KEYS else keys)"

definition device_keys :: "xpc_object list \<Rightarrow> byte list" where
  "device_keys log = fold device_step log NO_KEYS"

definition logged :: "'w kb_send \<Rightarrow> ('w \<times> xpc_object list) kb_send" where
  "logged snd_msg m wl =
    (case snd_msg m (fst wl) of
       (Ok _, w) \<Rightarrow> (Ok (), w, snd wl @ [m])
     | (Err e, w) \<Rightarrow> (Err e, w, snd wl)
     | (Panic, w) \<Rightarrow> (Panic, w, snd wl))"

lemma literal_fields:
  "xpc_literal map_insert [] = XDictionary []"
  "xpc_literal map_insert [(a, x)] = XDictionary [(rstr a, x)]"
  by (simp_all add: xpc_literal_def map_insert_def)

lemma payload_of_request [simp]:
  "payload_field (universal_hid_request map_insert (XDictionary p)) k = map_of p (rstr k)"
  by (simp add: payload_field_def universal_hid_request_def xpc_literal_def map_insert_def as_dictionary_def)

lemma device_step_report:
  "length bm = 29 \<Longrightarrow> device_step (build_send_report_request map_insert sid (build_main_keyboard_report now bm)) keys = bm"
  by (simp add: device_step_def build_send_report_request_def xpc_literal_def map_insert_def as_dictionary_def
      build_main_keyboard_report_def)

lemma device_step_reset:
  "device_step (build_main_keyboard_service_request map_insert ''resetGestureState'' sid) keys = NO_KEYS"
  "device_step (build_main_keyboard_service_request map_insert ''removeService'' sid) keys = NO_KEYS"
  by (simp_all add: device_step_def build_main_keyboard_service_request_def xpc_literal_def map_insert_def as_dictionary_def)

lemma device_keys_snoc: "device_keys (log @ [m]) = device_step m (device_keys log)"
  by (simp add: device_keys_def)

section \<open>Sequences of operations\<close>

datatype keyboard_op = SetUsages "u16 list" | KeyDown u16 | KeyUp u16 | ResetKeys

primrec usages_new :: "u16 list \<Rightarrow> (byte list, keyboard_error) res" where
  "usages_new [] = Ok []"
| "usages_new (u # us) = rbind (keyboard_usage_new u) (\<lambda>b. rmap (Cons b) (usages_new us))"

definition keyboard_op :: "clock \<Rightarrow> 'w kb_send \<Rightarrow> keyboard_op \<Rightarrow> ('w \<times> main_keyboard, unit) kb" where
  "keyboard_op now snd_msg oper =
    (case oper of
       SetUsages us \<Rightarrow> kb_bind (kb_res (usages_new us)) (set_main_keyboard_usages map_insert now snd_msg)
     | KeyDown u \<Rightarrow> kb_bind (kb_res (keyboard_usage_new u)) (main_keyboard_key_down map_insert now snd_msg)
     | KeyUp u \<Rightarrow> kb_bind (kb_res (keyboard_usage_new u)) (main_keyboard_key_up map_insert now snd_msg)
     | ResetKeys \<Rightarrow> reset_main_keyboard_on_wire map_insert snd_msg)"

primrec keyboard_run :: "(nat \<Rightarrow> clock) \<Rightarrow> 'w kb_send \<Rightarrow> keyboard_op list \<Rightarrow> nat \<Rightarrow> 'w \<times> main_keyboard \<Rightarrow>
    (unit, keyboard_error) res list \<times> 'w \<times> main_keyboard" where
  "keyboard_run now snd_msg [] n ws = ([], ws)"
| "keyboard_run now snd_msg (oper # ops) n ws =
    (case keyboard_op (now n) snd_msg oper ws of (r, ws') \<Rightarrow>
      case keyboard_run now snd_msg ops (Suc n) ws' of (rs, ws'') \<Rightarrow> (r # rs, ws''))"

text \<open>What the operations mean for the set of pressed keys.\<close>

fun op_effect :: "keyboard_op \<Rightarrow> nat set \<Rightarrow> nat set" where
  "op_effect (SetUsages us) keys = unat ` set us"
| "op_effect (KeyDown u) keys = insert (unat u) keys"
| "op_effect (KeyUp u) keys = keys - {unat u}"
| "op_effect ResetKeys keys = {}"

definition in_step :: "('w \<times> xpc_object list) \<times> main_keyboard \<Rightarrow> nat set \<Rightarrow> bool" where
  "in_step ws keys \<longleftrightarrow>
    mk_active (snd ws) \<and> length (mk_pressed (snd ws)) = 29 \<and> device_keys (snd (fst ws)) = mk_pressed (snd ws) \<and>
    pressed_set (mk_pressed (snd ws)) = keys"

lemma usage_new_Ok: "keyboard_usage_new u = Ok b \<Longrightarrow> unat b = unat u \<and> unat b < 232"
proof -
  assume "keyboard_usage_new u = Ok b"
  then have b: "b = ucast u" and "u \<le> 0xE7" by (auto simp: keyboard_usage_new_def split: if_splits)
  then have "unat u \<le> 231" by (simp add: word_le_nat_alt)
  then show ?thesis by (simp add: b unsigned_ucast_eq unsigned_take_bit_eq take_bit_eq_mod)
qed

lemma usages_new_Ok:
  "usages_new us = Ok bs \<Longrightarrow> unat ` set bs = unat ` set us \<and> (\<forall>b \<in> set bs. unat b < 232)"
proof (induction us arbitrary: bs)
  case (Cons u us)
  then obtain b cs where "keyboard_usage_new u = Ok b" "usages_new us = Ok cs" "bs = b # cs" by auto
  with Cons.IH usage_new_Ok show ?case by fastforce
qed simp

lemma replace_in_step:
  assumes "in_step ws keys" "replace_main_keyboard_usages_on_wire map_insert now (logged snd_msg) bm ws = (r, ws')" "length bm = 29"
  shows "in_step ws' (if r = Ok () then pressed_set bm else keys)"
  using assms
  by (auto simp: in_step_def replace_main_keyboard_usages_on_wire_def kb_bind_def on_wire_def on_service_def logged_def
      device_keys_snoc device_step_report split: prod.splits res.splits if_splits)

lemma op_in_step:
  assumes "in_step ws keys" "keyboard_op now (logged snd_msg) oper ws = (r, ws')"
  shows "in_step ws' (if r = Ok () then op_effect oper keys else keys)"
proof -
  let ?p = "mk_pressed (snd ws)"
  from assms(1) have l: "length ?p = 29" "pressed_set ?p = keys" by (simp_all add: in_step_def)
  show ?thesis
  proof (cases oper)
    case (SetUsages us)
    show ?thesis
    proof (cases "usages_new us")
      case (Ok bs)
      let ?b = "main_keyboard_usage_bitmap bs"
      have b: "length ?b = 29" "pressed_set ?b = unat ` set us"
        using pressed_bitmap [of bs NO_KEYS] usages_new_Ok [OF Ok]
        by (simp_all add: main_keyboard_usage_bitmap_def Let_def NO_KEYS_def)
      from assms(2) have "replace_main_keyboard_usages_on_wire map_insert now (logged snd_msg) ?b ws = (r, ws')"
        by (simp add: keyboard_op_def SetUsages kb_bind_def kb_res_def Ok set_main_keyboard_usages_def)
      from replace_in_step [OF assms(1) this b(1)] b(2) SetUsages show ?thesis by (cases "r = Ok ()") simp_all
    qed (use assms in \<open>auto simp: keyboard_op_def SetUsages kb_bind_def kb_res_def\<close>)
  next
    case (KeyDown u)
    show ?thesis
    proof (cases "keyboard_usage_new u")
      case (Ok b)
      note u = usage_new_Ok [OF Ok]
      let ?b = "?p[unat b div 8 := ?p ! (unat b div 8) OR 2 ^ (unat b mod 8)]"
      have b: "length ?b = 29" "pressed_set ?b = insert (unat u) keys"
        using pressed_insert [of b ?p] u l by simp_all
      have e: "keyboard_op now (logged snd_msg) oper ws =
          (if ?p ! (unat b div 8) AND 2 ^ (unat b mod 8) \<noteq> 0 then (Err KeyAlreadyPressed, ws)
           else replace_main_keyboard_usages_on_wire map_insert now (logged snd_msg) ?b ws)"
        by (simp only: keyboard_op_def KeyDown keyboard_op.case kb_bind_def kb_res_def Ok prod.case res.case main_keyboard_key_down_def bitmap_mask Let_def)
      show ?thesis
      proof (cases "?p ! (unat b div 8) AND 2 ^ (unat b mod 8) \<noteq> 0")
        case True
        with e assms have "r = Err KeyAlreadyPressed" "ws' = ws" by simp_all
        with assms(1) show ?thesis by simp
      next
        case False
        with e assms(2) have "replace_main_keyboard_usages_on_wire map_insert now (logged snd_msg) ?b ws = (r, ws')" by simp
        from replace_in_step [OF assms(1) this b(1)] b(2) KeyDown show ?thesis by (cases "r = Ok ()") simp_all
      qed
    qed (use assms in \<open>auto simp: keyboard_op_def KeyDown kb_bind_def kb_res_def\<close>)
  next
    case (KeyUp u)
    show ?thesis
    proof (cases "keyboard_usage_new u")
      case (Ok b)
      note u = usage_new_Ok [OF Ok]
      let ?b = "?p[unat b div 8 := ?p ! (unat b div 8) AND NOT (2 ^ (unat b mod 8))]"
      have b: "length ?b = 29" "pressed_set ?b = keys - {unat u}"
        using pressed_delete [of b ?p] u l by simp_all
      have e: "keyboard_op now (logged snd_msg) oper ws =
          (if ?p ! (unat b div 8) AND 2 ^ (unat b mod 8) = 0 then (Err KeyNotPressed, ws)
           else replace_main_keyboard_usages_on_wire map_insert now (logged snd_msg) ?b ws)"
        by (simp only: keyboard_op_def KeyUp keyboard_op.case kb_bind_def kb_res_def Ok prod.case res.case main_keyboard_key_up_def bitmap_mask Let_def)
      show ?thesis
      proof (cases "?p ! (unat b div 8) AND 2 ^ (unat b mod 8) = 0")
        case True
        with e assms have "r = Err KeyNotPressed" "ws' = ws" by simp_all
        with assms(1) show ?thesis by simp
      next
        case False
        with e assms(2) have "replace_main_keyboard_usages_on_wire map_insert now (logged snd_msg) ?b ws = (r, ws')" by simp
        from replace_in_step [OF assms(1) this b(1)] b(2) KeyUp show ?thesis by (cases "r = Ok ()") simp_all
      qed
    qed (use assms in \<open>auto simp: keyboard_op_def KeyUp kb_bind_def kb_res_def\<close>)
  next
    case ResetKeys
    with assms show ?thesis
      by (auto simp: keyboard_op_def reset_main_keyboard_on_wire_def in_step_def kb_bind_def on_wire_def on_service_def logged_def
          device_keys_snoc device_step_reset NO_KEYS_def split: prod.splits res.splits if_splits)
  qed
qed

lemma run_in_step:
  "in_step ws keys \<Longrightarrow> keyboard_run now (logged snd_msg) ops n ws = (rs, ws') \<Longrightarrow>
   in_step ws' (fold (\<lambda>(oper, r) keys. if r = Ok () then op_effect oper keys else keys) (zip ops rs) keys)"
proof (induction ops arbitrary: ws keys n rs)
  case (Cons oper ops)
  obtain r u where r: "keyboard_op (now n) (logged snd_msg) oper ws = (r, u)" by (metis prod.exhaust)
  obtain qs v where q: "keyboard_run now (logged snd_msg) ops (Suc n) u = (qs, v)" by (metis prod.exhaust)
  from Cons.prems(2) r q have "rs = r # qs" "keyboard_run now (logged snd_msg) ops (Suc n) u = (qs, ws')" by auto
  with Cons.IH [OF op_in_step [OF Cons.prems(1) r]] show ?case by simp
qed simp

lemma count_ones_card: "count_ones b = card {i. i < 8 \<and> bit b i}"
proof -
  have "count_ones b = card (set (filter (bit b) [0..<8]))"
    by (simp only: count_ones_def distinct_card [OF distinct_filter [OF distinct_upt]])
  also have "set (filter (bit b) [0..<8]) = {i. i < 8 \<and> bit b i}" by auto
  finally show ?thesis .
qed

text \<open>
  C40. Whatever sequence of key changes and resets is carried out on a fresh keyboard, and whichever of its messages fail
  to be sent, the keyboard holds what the device last received: the keys that the successful operations leave pressed.
\<close>

theorem keyboard_tracks_device:
  "case keyboard_run now (logged snd_msg) ops 0 ((w, []), \<lparr>mk_service_id = sid, mk_pressed = NO_KEYS, mk_active = True\<rparr>) of
     (rs, (w', log), s) \<Rightarrow>
       device_keys log = mk_pressed s \<and>
       pressed_set (mk_pressed s) = fold (\<lambda>(oper, r) keys. if r = Ok () then op_effect oper keys else keys) (zip ops rs) {} \<and>
       mk_active s"
proof -
  let ?ws = "((w, []), \<lparr>mk_service_id = sid, mk_pressed = NO_KEYS, mk_active = True\<rparr>)"
  have i: "in_step ?ws {}" by (simp add: in_step_def device_keys_def) (simp add: NO_KEYS_def)
  show ?thesis using run_in_step [OF i, of now snd_msg ops 0] by (auto simp: in_step_def split: prod.split)
qed

section \<open>Creation and removal\<close>

text \<open>A request on a watched wire.\<close>

definition unlogged :: "'w kb_request \<Rightarrow> ('w \<times> xpc_object list) kb_request" where
  "unlogged request m wl = (case request m (fst wl) of (r, w) \<Rightarrow> (r, w, snd wl))"

lemma confirm_unlogged:
  "\<exists>r w'. confirm_main_keyboard_on_wire ins from_value (unlogged request) sid (w, log) = (r, w', log)"
  by (auto simp: confirm_main_keyboard_on_wire_def kb_bind_def kb_res_def unlogged_def split: prod.split res.split)

text \<open>
  A keyboard that the device created but that cannot be confirmed does not stay behind: unless sending the removal fails
  too, which is reported, exactly the removal of the created service has been sent.
\<close>

theorem keyboard_create_rolls_back:
  "case request (build_main_keyboard_create_request ins) w of
     (Ok response, _) \<Rightarrow>
       (case parse_created_main_keyboard_id response of
          Ok sid \<Rightarrow>
            (case create_main_keyboard_on_wire ins from_value (unlogged request) (logged snd_msg) (w, []) of
               (Ok s, _, log) \<Rightarrow> log = [] \<and> s = \<lparr>mk_service_id = sid, mk_pressed = NO_KEYS, mk_active = True\<rparr>
             | (Err e, _, log) \<Rightarrow>
                 log = [build_main_keyboard_service_request ins ''removeService'' sid] \<or> log = [] \<and> e = RollbackFailed
             | (Panic, _) \<Rightarrow> True)
        | _ \<Rightarrow> True)
   | _ \<Rightarrow> True"
proof (cases "request (build_main_keyboard_create_request ins) w")
  case (Pair q w1)
  show ?thesis
  proof (cases "\<exists>response sid. q = Ok response \<and> parse_created_main_keyboard_id response = Ok sid")
    case True
    then obtain response sid where k: "q = Ok response" "parse_created_main_keyboard_id response = Ok sid" by blast
    obtain r w2 where c: "confirm_main_keyboard_on_wire ins from_value (unlogged request) sid (w1, []) = (r, w2, [])"
      using confirm_unlogged by metis
    obtain t w3 where s: "snd_msg (build_main_keyboard_service_request ins ''removeService'' sid) w2 = (t, w3)" by fastforce
    show ?thesis
      by (cases r; cases t)
        (simp_all add: Pair k c s create_main_keyboard_on_wire_def kb_bind_def kb_res_def unlogged_def logged_def)
  qed (auto simp: Pair split: res.split)
qed

text \<open>
  Removal either fails and leaves the keyboard as it was, for another attempt, or it has sent the removal and the device
  no longer lists the service; then it may be repeated at no cost.
\<close>

theorem keyboard_remove_once:
  "case remove_main_keyboard_on_wire ins from_value (unlogged request) (logged snd_msg) ((w, log), s) of
     (r, (w', log'), s') \<Rightarrow>
       if r = Ok ()
       then \<not> mk_active s' \<and>
         remove_main_keyboard_on_wire ins from_value (unlogged request) (logged snd_msg) ((w', log'), s') = (Ok (), (w', log'), s') \<and>
         (if mk_active s
          then last log' = build_main_keyboard_service_request ins ''removeService'' (mk_service_id s)
          else log' = log \<and> w' = w)
       else s' = s"
proof -
  let ?reset = "build_main_keyboard_service_request ins ''resetGestureState'' (mk_service_id s)"
  let ?remove = "build_main_keyboard_service_request ins ''removeService'' (mk_service_id s)"
  obtain r1 w1 where r1: "snd_msg ?reset w = (r1, w1)" by fastforce
  obtain r2 w2 where r2: "snd_msg ?remove w1 = (r2, w2)" by fastforce
  obtain r3 w3 where r3: "request (build_connected_services_request ins) w2 = (r3, w3)" by fastforce
  show ?thesis
  proof (cases "mk_active s")
    case True
    show ?thesis
      by (cases r1; cases r2; cases r3)
        (auto simp: remove_main_keyboard_on_wire_def True kb_bind_def kb_res_def on_wire_def on_service_def logged_def unlogged_def
          r1 r2 r3 Let_def split: res.split)
  qed (simp add: remove_main_keyboard_on_wire_def)
qed

text \<open>
  A removal that fails after its reset was delivered leaves the keyboard with keys that the device has let go: pressing one
  of them again is refused.
\<close>

lemma keyboard_remove_desync:
  assumes "in_step ((w, log), s) keys" "u \<in> keys" "keyboard_usage_new (of_nat u) = Ok b"
    and "snd_msg (build_main_keyboard_service_request map_insert ''resetGestureState'' (mk_service_id s)) w = (Ok (), w1)"
    and "snd_msg (build_main_keyboard_service_request map_insert ''removeService'' (mk_service_id s)) w1 = (Err e, w2)"
  shows "\<exists>log'. remove_main_keyboard_on_wire map_insert from_value (unlogged request) (logged snd_msg) ((w, log), s) = (Err e, (w2, log'), s) \<and>
    device_keys log' = NO_KEYS \<and>
    fst (keyboard_op now (logged snd_msg) (KeyDown (of_nat u)) ((w2, log'), s)) = Err KeyAlreadyPressed"
proof -
  have s: "mk_active s" "length (mk_pressed s) = 29" "pressed_set (mk_pressed s) = keys"
    using assms(1) by (simp_all add: in_step_def)
  note b = usage_new_Ok [OF assms(3)]
  have "u < 232" using assms(2) s by (auto simp: pressed_set_def)
  with b have "unat b = u" by (simp add: unat_of_nat)
  with pressed_and [of b "mk_pressed s"] s assms(2) b have p: "mk_pressed s ! (unat b div 8) AND 2 ^ (unat b mod 8) \<noteq> 0" by simp
  let ?log = "log @ [build_main_keyboard_service_request map_insert ''resetGestureState'' (mk_service_id s)]"
  have "remove_main_keyboard_on_wire map_insert from_value (unlogged request) (logged snd_msg) ((w, log), s) = (Err e, (w2, ?log), s)"
    using assms(4,5) s(1)
    by (simp add: remove_main_keyboard_on_wire_def kb_bind_def on_wire_def logged_def Let_def)
  moreover have "fst (keyboard_op now (logged snd_msg) (KeyDown (of_nat u)) ((w2, ?log), s)) = Err KeyAlreadyPressed"
    using p by (simp add: keyboard_op_def kb_bind_def kb_res_def assms(3) main_keyboard_key_down_def bitmap_mask Let_def)
  ultimately show ?thesis by (auto simp: device_keys_snoc device_step_reset)
qed

end
