(* ===== verification/Lockdown_Services.thy ===== *)
theory Lockdown_Services
  imports Lockdown Afc
begin

text \<open>
  The services of lockdownd that answer one property list with another: services/heartbeat.rs, amfi.rs, companion\_proxy.rs,
  diagnostics\_relay.rs, misagent.rs, notification\_proxy.rs, mobileactivationd.rs, house\_arrest.rs, simulate\_location.rs,
  screenshotr.rs and preboard\_service.rs. Every client holds one connection. A timer that fires leaves the
  read it interrupts half done: the bytes that read had taken are gone (\<open>cut\<close>).
\<close>

section \<open>Requests and answers\<close>

definition obj :: "(string \<times> plist_value) list \<Rightarrow> plist_value" where
  "obj kvs = PDictionary (map (\<lambda>(k, v). (rstr k, v)) kvs)"

definition req_with :: "(string \<times> plist_value) list \<Rightarrow> plist_dict \<Rightarrow> plist_value" where
  "req_with kvs more_entries = PDictionary (map (\<lambda>(k, v). (rstr k, v)) kvs @ more_entries)"

definition unexpected :: "string \<Rightarrow> ('s, 'a) act" where
  "unexpected what = act_err (UnexpectedResponse what)"

text \<open>\<open>res.get(k).and_then(as_string)\<close> and its kin\<close>

definition str_field :: "plist_dict \<Rightarrow> string \<Rightarrow> rstring option" where
  "str_field res k = Option.bind (dict_get res k) plist_as_string"

definition flag_field :: "plist_dict \<Rightarrow> string \<Rightarrow> bool option" where
  "flag_field res k = Option.bind (dict_get res k) plist_as_boolean"

definition dict_field :: "plist_dict \<Rightarrow> string \<Rightarrow> plist_dict option" where
  "dict_field res k = Option.bind (dict_get res k) plist_as_dictionary"

definition or_unexpected :: "string \<Rightarrow> 'a option \<Rightarrow> ('s, 'a) act" where
  "or_unexpected what x = act_res (ok_or (UnexpectedResponse what) x)"

text \<open>\<open>tokio::select!\<close> or \<open>timeout\<close> around \<open>read_plist\<close>: in time, or the bytes it had taken when the timer fired.\<close>

type_synonym timer = "nat option"

definition cut_read :: "nat \<Rightarrow> transport \<Rightarrow> transport" where
  "cut_read n t = t\<lparr>tp_in := (case tp_pending t of bs \<Rightarrow> if n < length bs then [drop n bs] else [])\<rparr>"

definition timed_read :: "plist_lib \<Rightarrow> timer \<Rightarrow> (idevice, plist_dict option) act" where
  "timed_read pl timer d =
    (case timer of
       None \<Rightarrow> act_bind (read_plist pl) (\<lambda>res. act_ok (Some res)) d
     | Some n \<Rightarrow> (Ok None, d\<lparr>dv_socket := map_option (cut_read n) (dv_socket d)\<rparr>))"

section \<open>Heartbeat\<close>

definition get_marco :: "plist_lib \<Rightarrow> timer \<Rightarrow> (idevice, u64) act" where
  "get_marco pl timer =
    act_bind (timed_read pl timer) (\<lambda>rec.
      case rec of
        None \<Rightarrow> act_err (Heartbeat HeartbeatTimeout)
      | Some rec \<Rightarrow>
          (case dict_get rec ''Interval'' of
             Some (PInteger interval) \<Rightarrow> or_unexpected ''heartbeat Interval is not a valid unsigned integer'' (as_unsigned interval)
           | _ \<Rightarrow>
               (case dict_get rec ''Command'' of
                  Some (PString command) \<Rightarrow>
                    if command = rstr ''SleepyTime'' then act_err (Heartbeat SleepyTime)
                    else unexpected (''unexpected heartbeat Command: '' @ text_of command)
                | _ \<Rightarrow> unexpected ''heartbeat response missing both Interval and Command'')))"

definition send_polo :: "plist_lib \<Rightarrow> (idevice, unit) act" where
  "send_polo pl = send_plist pl (obj [(''Command'', PString (rstr ''Polo''))])"

section \<open>AMFI\<close>

definition amfi_action :: "plist_lib \<Rightarrow> int \<Rightarrow> string \<Rightarrow> (idevice, unit) act" where
  "amfi_action pl n what =
    act_bind (ask pl (obj [(''action'', PInteger n)])) (\<lambda>res.
      if dict_get res ''success'' \<noteq> None then act_ok () else unexpected what)"

definition reveal_developer_mode_option_in_ui :: "plist_lib \<Rightarrow> (idevice, unit) act" where
  "reveal_developer_mode_option_in_ui pl = amfi_action pl 0 ''missing success key in reveal developer mode response''"

definition enable_developer_mode :: "plist_lib \<Rightarrow> (idevice, unit) act" where
  "enable_developer_mode pl = amfi_action pl 1 ''missing success key in enable developer mode response''"

definition accept_developer_mode :: "plist_lib \<Rightarrow> (idevice, unit) act" where
  "accept_developer_mode pl = amfi_action pl 2 ''missing success key in accept developer mode response''"

definition amfi_status :: "plist_lib \<Rightarrow> plist_value \<Rightarrow> string \<Rightarrow> string \<Rightarrow> (idevice, bool) act" where
  "amfi_status pl req no_success no_status =
    act_bind (ask pl req) (\<lambda>res.
      if flag_field res ''success'' \<noteq> Some True then unexpected no_success
      else or_unexpected no_status (flag_field res ''status''))"

definition get_developer_mode_status :: "plist_lib \<Rightarrow> (idevice, bool) act" where
  "get_developer_mode_status pl =
    amfi_status pl (obj [(''action'', PInteger 3)]) ''missing or false success key in developer mode status response''
      ''missing status boolean in developer mode status response''"

definition trust_app_signer :: "plist_lib \<Rightarrow> rstring \<Rightarrow> (idevice, bool) act" where
  "trust_app_signer pl uuid =
    amfi_status pl (obj [(''action'', PInteger 4), (''input_profile_uuid'', PString uuid)])
      ''missing or false success key in trust app signer response'' ''missing status boolean in trust app signer response''"

section \<open>Companion proxy\<close>

definition get_device_registry :: "plist_lib \<Rightarrow> (idevice, rstring list) act" where
  "get_device_registry pl =
    act_bind (ask pl (obj [(''Command'', PString (rstr ''GetDeviceRegistry''))])) (\<lambda>res.
    act_bind (or_unexpected ''missing PairedDevicesArray in device registry response''
      (Option.bind (dict_get res ''PairedDevicesArray'') plist_as_array)) (\<lambda>l.
    act_ok (List.map_filter plist_as_string l)))"

definition listen_for_devices :: "plist_lib \<Rightarrow> (idevice, unit) act" where
  "listen_for_devices pl = send_plist pl (obj [(''Command'', PString (rstr ''StartListeningForDevices''))])"

definition companion_next :: "plist_lib \<Rightarrow> (idevice, plist_dict) act" where
  "companion_next pl = read_plist pl"

definition companion_get_value :: "plist_lib \<Rightarrow> rstring \<Rightarrow> rstring \<Rightarrow> (idevice, plist_value) act" where
  "companion_get_value pl udid key =
    act_bind (ask pl (obj [(''Command'', PString (rstr ''GetValueFromRegistry'')), (''GetValueGizmoUDIDKey'', PString udid),
      (''GetValueKeyKey'', PString key)])) (\<lambda>res.
    act_res (ok_or NotFound (Option.bind (dict_field res ''RetrievedValueDictionary'') (\<lambda>x. map_of x key))))"

text \<open>The options are merged into the request; the insertion of the property-list crate is a parameter.\<close>

definition start_forwarding_service_port :: "plist_lib \<Rightarrow> (rstring \<Rightarrow> plist_value \<Rightarrow> plist_dict \<Rightarrow> plist_dict) \<Rightarrow> u16 \<Rightarrow>
    rstring option \<Rightarrow> plist_dict option \<Rightarrow> (idevice, u16) act" where
  "start_forwarding_service_port pl pins port service_name options =
    (let command = map (\<lambda>(k, v). (rstr k, v)) [(''Command'', PString (rstr ''StartForwardingServicePort'')), (''GizmoRemotePortNumber'', PInteger (uint port)),
             (''IsServiceLowPriority'', PBoolean False), (''PreferWifi'', PBoolean False)] @
           opt_entry ''ForwardedServiceName'' PString service_name;
         command = (case options of None \<Rightarrow> command | Some d \<Rightarrow> fold (\<lambda>(k, v). pins k v) d command)
     in act_bind (ask pl (PDictionary command)) (\<lambda>res.
        act_bind (or_unexpected ''missing CompanionProxyServicePort in forwarding response''
          (Option.bind (dict_get res ''CompanionProxyServicePort'') plist_as_unsigned_integer)) (\<lambda>p. act_ok (ucast p))))"

definition stop_forwarding_service_port :: "plist_lib \<Rightarrow> u16 \<Rightarrow> (idevice, unit) act" where
  "stop_forwarding_service_port pl port =
    act_bind (ask pl (obj [(''Command'', PString (rstr ''StopForwardingServicePort'')), (''GizmoRemotePortNumber'', PInteger (uint port))])) (\<lambda>res.
      if str_field res ''Command'' = Some (rstr ''ComandSuccess'') \<or> str_field res ''Command'' = Some (rstr ''CommandSuccess'')
      then act_ok () else unexpected ''missing or invalid Command in stop forwarding response'')"

section \<open>Diagnostics relay\<close>

definition relay_ask :: "plist_lib \<Rightarrow> plist_value \<Rightarrow> string \<Rightarrow> (idevice, plist_dict) act" where
  "relay_ask pl req name =
    act_bind (ask pl req) (\<lambda>res.
      if str_field res ''Status'' = Some (rstr ''Success'') then act_ok res
      else unexpected (''missing or non-Success Status in '' @ name @ '' response''))"

definition ioregistry :: "plist_lib \<Rightarrow> rstring option \<Rightarrow> rstring option \<Rightarrow> rstring option \<Rightarrow> (idevice, plist_dict option) act" where
  "ioregistry pl current_plane entry_name entry_class =
    act_bind (relay_ask pl (req_with [(''Request'', PString (rstr ''IORegistry''))]
      (opt_entry ''CurrentPlane'' PString current_plane @ opt_entry ''EntryName'' PString entry_name @
       opt_entry ''EntryClass'' PString entry_class)) ''IORegistry'') (\<lambda>res.
    act_ok (Option.bind (dict_field res ''Diagnostics'') (\<lambda>x. dict_field x ''IORegistry'')))"

definition diagnostics :: "plist_lib \<Rightarrow> plist_value \<Rightarrow> string \<Rightarrow> (idevice, plist_dict option) act" where
  "diagnostics pl req name = act_bind (relay_ask pl req name) (\<lambda>res. act_ok (dict_field res ''Diagnostics''))"

definition mobilegestalt :: "plist_lib \<Rightarrow> rstring list option \<Rightarrow> (idevice, plist_dict option) act" where
  "mobilegestalt pl keys =
    diagnostics pl (req_with [(''Request'', PString (rstr ''MobileGestalt''))]
      (opt_entry ''MobileGestaltKeys'' (\<lambda>ks. PArray (map PString ks)) keys)) ''MobileGestalt''"

definition gasguage :: "plist_lib \<Rightarrow> (idevice, plist_dict option) act" where
  "gasguage pl = diagnostics pl (obj [(''Request'', PString (rstr ''GasGauge''))]) ''GasGauge''"

definition nand :: "plist_lib \<Rightarrow> (idevice, plist_dict option) act" where
  "nand pl = diagnostics pl (obj [(''Request'', PString (rstr ''NAND''))]) ''NAND''"

definition all_diagnostics :: "plist_lib \<Rightarrow> (idevice, plist_dict option) act" where
  "all_diagnostics pl = diagnostics pl (obj [(''Request'', PString (rstr ''All''))]) ''All diagnostics''"

definition wifi :: "plist_lib \<Rightarrow> (idevice, plist_dict option) act" where
  "wifi pl = diagnostics pl (obj [(''Request'', PString (rstr ''WiFi''))]) ''WiFi''"

definition relay_do :: "plist_lib \<Rightarrow> string \<Rightarrow> (idevice, unit) act" where
  "relay_do pl name = act_bind (relay_ask pl (obj [(''Request'', PString (rstr name))]) name) (\<lambda>_. act_ok ())"

definition relay_restart :: "plist_lib \<Rightarrow> (idevice, unit) act" where "relay_restart pl = relay_do pl ''Restart''"
definition relay_shutdown :: "plist_lib \<Rightarrow> (idevice, unit) act" where "relay_shutdown pl = relay_do pl ''Shutdown''"
definition relay_sleep :: "plist_lib \<Rightarrow> (idevice, unit) act" where "relay_sleep pl = relay_do pl ''Sleep''"

definition goodbye :: "plist_lib \<Rightarrow> (idevice, unit) act" where
  "goodbye pl =
    act_bind (ask pl (obj [(''Request'', PString (rstr ''Goodbye''))])) (\<lambda>res.
      if str_field res ''Status'' = Some (rstr ''Success'') then act_ok ()
      else if str_field res ''Status'' = Some (rstr ''UnknownRequest'') then unexpected ''Goodbye request returned UnknownRequest''
      else unexpected ''missing or non-Success Status in Goodbye response'')"

section \<open>Provisioning profiles\<close>

definition misagent_status :: "string \<Rightarrow> plist_dict \<Rightarrow> (idevice, unit) act" where
  "misagent_status name res =
    (case dict_get res ''Status'' of
       Some (PInteger status) \<Rightarrow>
         (case as_unsigned status of
            Some s \<Rightarrow> if s = 0 then act_ok () else act_err MisagentFailure
          | None \<Rightarrow> unexpected (name @ '' Status is not an unsigned integer''))
     | _ \<Rightarrow> unexpected (''missing integer Status in '' @ name @ '' response''))"

definition misagent_install :: "plist_lib \<Rightarrow> byte list \<Rightarrow> (idevice, unit) act" where
  "misagent_install pl profile =
    act_bind (ask pl (obj [(''MessageType'', PString (rstr ''Install'')), (''Profile'', PData profile),
      (''ProfileType'', PString (rstr ''Provisioning''))])) (misagent_status ''install'')"

definition misagent_remove :: "plist_lib \<Rightarrow> rstring \<Rightarrow> (idevice, unit) act" where
  "misagent_remove pl profile_id =
    act_bind (ask pl (obj [(''MessageType'', PString (rstr ''Remove'')), (''ProfileID'', PString profile_id),
      (''ProfileType'', PString (rstr ''Provisioning''))])) (misagent_status ''remove'')"

primrec all_data :: "plist_value list \<Rightarrow> (byte list list, idevice_error) res" where
  "all_data [] = Ok []"
| "all_data (p # ps) =
    rbind (ok_or (UnexpectedResponse ''CopyAll Payload array contains non-data entry'') (plist_as_data p)) (\<lambda>d.
    rmap (Cons d) (all_data ps))"

definition copy_all :: "plist_lib \<Rightarrow> (idevice, byte list list) act" where
  "copy_all pl =
    act_bind (ask pl (obj [(''MessageType'', PString (rstr ''CopyAll'')), (''ProfileType'', PString (rstr ''Provisioning''))])) (\<lambda>res.
      case dict_get res ''Payload'' of
        Some (PArray a) \<Rightarrow> act_res (all_data a)
      | _ \<Rightarrow> unexpected ''missing Payload array in CopyAll response'')"

section \<open>Notifications\<close>

definition post_notification :: "plist_lib \<Rightarrow> rstring \<Rightarrow> (idevice, unit) act" where
  "post_notification pl name = send_plist pl (obj [(''Command'', PString (rstr ''PostNotification'')), (''Name'', PString name)])"

definition observe_notification :: "plist_lib \<Rightarrow> rstring \<Rightarrow> (idevice, unit) act" where
  "observe_notification pl name = send_plist pl (obj [(''Command'', PString (rstr ''ObserveNotification'')), (''Name'', PString name)])"

primrec observe_notifications :: "plist_lib \<Rightarrow> rstring list \<Rightarrow> (idevice, unit) act" where
  "observe_notifications pl [] = act_ok ()"
| "observe_notifications pl (name # names) = act_bind (observe_notification pl name) (\<lambda>_. observe_notifications pl names)"

definition relayed_name :: "plist_dict \<Rightarrow> (rstring, idevice_error) res" where
  "relayed_name response =
    (if str_field response ''Command'' = Some (rstr ''RelayNotification'')
     then ok_or (UnexpectedResponse ''missing Name in RelayNotification'') (str_field response ''Name'')
     else if str_field response ''Command'' = Some (rstr ''ProxyDeath'') then Err NotificationProxyDeath
     else Err (UnexpectedResponse ''unexpected Command in notification response''))"

definition receive_notification :: "plist_lib \<Rightarrow> (idevice, rstring) act" where
  "receive_notification pl = act_bind (read_plist pl) (\<lambda>response. act_res (relayed_name response))"

definition receive_notification_with_timeout :: "plist_lib \<Rightarrow> timer \<Rightarrow> (idevice, rstring) act" where
  "receive_notification_with_timeout pl timer =
    act_bind (timed_read pl timer) (\<lambda>response.
      case response of None \<Rightarrow> act_err (Heartbeat HeartbeatTimeout) | Some r \<Rightarrow> act_res (relayed_name r))"

text \<open>The stream: the names it yields before it fails; it never ends otherwise. Its two messages have texts of their own.\<close>

definition streamed_name :: "plist_dict \<Rightarrow> (rstring, idevice_error) res" where
  "streamed_name response =
    (if str_field response ''Command'' = Some (rstr ''RelayNotification'')
     then ok_or (UnexpectedResponse ''missing Name in RelayNotification stream'') (str_field response ''Name'')
     else if str_field response ''Command'' = Some (rstr ''ProxyDeath'') then Err NotificationProxyDeath
     else Err (UnexpectedResponse ''unexpected Command in notification stream''))"

definition dev_load :: "idevice \<Rightarrow> nat" where
  "dev_load d = (case dv_socket d of None \<Rightarrow> 0 | Some t \<Rightarrow> length (tp_pending t))"

lemma read_plist_load: "read_plist pl d = (Ok res, d') \<Longrightarrow> dev_load d' < dev_load d"
proof -
  assume "read_plist pl d = (Ok res, d')"
  then obtain v where "read_plist_value pl d = (Ok v, d')"
    by (auto simp: read_plist_def act_bind_Ok split: option.splits)
  then obtain t b c u w where t: "dv_socket d = Some t" "tp_read_exact 4 t = (Ok b, u)"
    "tp_read_exact (unat (from_be_bytes b :: u32)) u = (Ok c, w)" "d' = d\<lparr>dv_socket := Some w\<rparr>"
    by (auto simp: read_plist_value_def on_socket_def act_bind_Ok split: option.splits prod.splits)
  from t(2,3) have "tp_pending t = b @ tp_pending u" "length b = 4" "tp_pending u = c @ tp_pending w"
    using tp_read_exact_Ok by blast+
  with t(1,4) show ?thesis by (simp add: dev_load_def)
qed

function notification_stream :: "plist_lib \<Rightarrow> idevice \<Rightarrow> rstring list \<times> (unit, idevice_error) res \<times> idevice" where
  "notification_stream pl d =
    (case read_plist pl d of
       (Ok response, d') \<Rightarrow>
         (case streamed_name response of
            Ok name \<Rightarrow> (case notification_stream pl d' of (names, r, d'') \<Rightarrow> (name # names, r, d''))
          | Err e \<Rightarrow> ([], Err e, d')
          | Panic \<Rightarrow> ([], Panic, d'))
     | (Err e, d') \<Rightarrow> ([], Err e, d')
     | (Panic, d') \<Rightarrow> ([], Panic, d'))"
  by pat_completeness auto
termination notification_stream
  by (relation "measure (dev_load \<circ> snd)") (auto dest!: read_plist_load [OF sym])

declare notification_stream.simps [simp del]

definition proxy_shutdown :: "plist_lib \<Rightarrow> (idevice, unit) act" where
  "proxy_shutdown pl =
    act_bind (send_plist pl (obj [(''Command'', PString (rstr ''Shutdown''))])) (\<lambda>_ d.
      case read_plist pl d of (Panic, d') \<Rightarrow> (Panic, d') | (_, d') \<Rightarrow> (Ok (), d'))"

section \<open>Activation\<close>

text \<open>
  Every command opens a connection of its own (\<open>dbg\<close> is the \<open>Debug\<close> text of a value); the provider's connections are parameters: one to the service, and a session
  with lockdownd.
\<close>

definition activation_command :: "plist_lib \<Rightarrow> ('p, idevice) act \<Rightarrow> string \<Rightarrow> rstring option \<Rightarrow> ('p, plist_dict) act" where
  "activation_command pl service_connect command val =
    act_bind service_connect (\<lambda>service.
    act_res (fst (ask pl (req_with [(''Command'', PString (rstr command))] (opt_entry ''Value'' PString val)) service)))"

definition extract_value :: "(plist_value \<Rightarrow> rstring) \<Rightarrow> plist_dict \<Rightarrow> (plist_value, idevice_error) res" where
  "extract_value dbg res =
    (case dict_get res ''Error'' of
       Some err \<Rightarrow> Err (UnexpectedResponse (''mobileactivationd returned error: '' @ text_of (dbg err)))
     | None \<Rightarrow> ok_or (UnexpectedResponse ''response missing Value'') (dict_get res ''Value''))"

definition activation_state :: "plist_lib \<Rightarrow> ('p, idevice) act \<Rightarrow> ('p, lockdown) act \<Rightarrow> ('p, rstring) act" where
  "activation_state pl service_connect lockdown_session p =
    (case activation_command pl service_connect ''GetActivationStateRequest'' None p of
       (Panic, p) \<Rightarrow> (Panic, p)
     | (r, p) \<Rightarrow>
         (case (case r of Ok res \<Rightarrow> str_field res ''Value'' | _ \<Rightarrow> None) of
            Some v \<Rightarrow> (Ok v, p)
          | None \<Rightarrow>
              act_bind lockdown_session (\<lambda>lc.
              act_bind (act_res (fst (get_value pl (Some (rstr ''ActivationState'')) None lc))) (\<lambda>res.
              or_unexpected ''ActivationState is not a string'' (plist_as_string res))) p))"

definition activated :: "plist_lib \<Rightarrow> ('p, idevice) act \<Rightarrow> ('p, lockdown) act \<Rightarrow> ('p, bool) act" where
  "activated pl service_connect lockdown_session =
    act_bind (activation_state pl service_connect lockdown_session) (\<lambda>s. act_ok (s = rstr ''Activated''))"

definition deactivate :: "plist_lib \<Rightarrow> ('p, idevice) act \<Rightarrow> ('p, unit) act" where
  "deactivate pl service_connect =
    act_bind (activation_command pl service_connect ''DeactivateRequest'' None) (\<lambda>_. act_ok ())"

definition create_activation_info :: "plist_lib \<Rightarrow> (plist_value \<Rightarrow> rstring) \<Rightarrow> ('p, idevice) act \<Rightarrow> ('p, plist_value) act" where
  "create_activation_info pl dbg service_connect =
    act_bind (activation_command pl service_connect ''CreateActivationInfoRequest'' None) (\<lambda>res. act_res (extract_value dbg res))"

definition create_session_info :: "plist_lib \<Rightarrow> (plist_value \<Rightarrow> rstring) \<Rightarrow> ('p, idevice) act \<Rightarrow> ('p, plist_value) act" where
  "create_session_info pl dbg service_connect =
    act_bind (activation_command pl service_connect ''CreateTunnel1SessionInfoRequest'' None) (\<lambda>res. act_res (extract_value dbg res))"

section \<open>House arrest and simulated location\<close>

definition vend :: "plist_lib \<Rightarrow> bool list \<Rightarrow> string \<Rightarrow> rstring \<Rightarrow> idevice \<Rightarrow> (afc_client, idevice_error) res" where
  "vend pl timers cmd bundle_id d =
    (case act_bind (ask pl (obj [(''Command'', PString (rstr cmd)), (''Identifier'', PString bundle_id)])) (\<lambda>response.
        case str_field response ''Error'' of
          Some err \<Rightarrow> unexpected (''house_arrest '' @ cmd @ '' failed: '' @ text_of err)
        | None \<Rightarrow> act_ok ()) d of
       (r, d') \<Rightarrow> rmap (\<lambda>_. afc_new d' timers) r)"

definition vend_container :: "plist_lib \<Rightarrow> bool list \<Rightarrow> rstring \<Rightarrow> idevice \<Rightarrow> (afc_client, idevice_error) res" where
  "vend_container pl timers = vend pl timers ''VendContainer''"

definition vend_documents :: "plist_lib \<Rightarrow> bool list \<Rightarrow> rstring \<Rightarrow> idevice \<Rightarrow> (afc_client, idevice_error) res" where
  "vend_documents pl timers = vend pl timers ''VendDocuments''"

definition location_clear :: "(idevice, unit) act" where
  "location_clear = send_raw [0x00, 0x00, 0x00, 0x01]"

definition location_set :: "rstring \<Rightarrow> rstring \<Rightarrow> (idevice, unit) act" where
  "location_set latitude longtiude =
    send_raw ([0x00, 0x00, 0x00, 0x00] @ to_be_bytes (of_nat (length latitude) :: u32) @ latitude @
      to_be_bytes (of_nat (length longtiude) :: u32) @ longtiude)"

section \<open>Screenshots\<close>

definition send_dl_array :: "plist_lib \<Rightarrow> plist_value list \<Rightarrow> (idevice, unit) act" where
  "send_dl_array pl a = send_bplist pl (PArray a)"

definition receive_dl_message :: "plist_lib \<Rightarrow> (idevice, rstring \<times> plist_value) act" where
  "receive_dl_message pl =
    act_bind (read_plist_value pl) (\<lambda>v.
      case v of
        PArray (PString tag # _) \<Rightarrow> act_ok (tag, v)
      | _ \<Rightarrow> unexpected ''invalid DL message format, expected array with string tag'')"

definition expect_dl :: "plist_lib \<Rightarrow> string \<Rightarrow> (idevice, plist_value) act" where
  "expect_dl pl name =
    act_bind (receive_dl_message pl) (\<lambda>(msg, v).
      if msg \<noteq> rstr name then unexpected (''expected '' @ name @ '', got '' @ text_of msg) else act_ok v)"

definition dl_version_exchange :: "plist_lib \<Rightarrow> (idevice, unit) act" where
  "dl_version_exchange pl =
    act_bind (expect_dl pl ''DLMessageVersionExchange'') (\<lambda>_.
    act_bind (send_dl_array pl [PString (rstr ''DLMessageVersionExchange''), PString (rstr ''DLVersionsOk''), PInteger 400]) (\<lambda>_.
    act_bind (expect_dl pl ''DLMessageDeviceReady'') (\<lambda>_. act_ok ())))"

definition take_screenshot :: "plist_lib \<Rightarrow> (idevice, byte list) act" where
  "take_screenshot pl =
    act_bind (send_dl_array pl [PString (rstr ''DLMessageProcessMessage''), obj [(''MessageType'', PString (rstr ''ScreenShotRequest''))]]) (\<lambda>_.
    act_bind (expect_dl pl ''DLMessageProcessMessage'') (\<lambda>v.
      case v of
        PArray [_, PDictionary d] \<Rightarrow>
          (case dict_get d ''ScreenShotData'' of
             Some (PData data) \<Rightarrow> act_ok data
           | _ \<Rightarrow> unexpected ''missing ScreenShotData in response dictionary'')
      | PArray [_, _] \<Rightarrow> unexpected ''expected dictionary in DL screenshot response''
      | _ \<Rightarrow> unexpected ''expected array with 2 elements in DL screenshot response''))"

section \<open>Stashbags\<close>

datatype stashbag_outcome = NotRequired | CommitRequired

definition bool_field :: "plist_dict \<Rightarrow> string \<Rightarrow> bool" where
  "bool_field msg key \<longleftrightarrow> flag_field msg key = Some True"

definition stashbag_error :: "plist_dict \<Rightarrow> rstring option" where
  "stashbag_error msg =
    (if dict_get msg ''Error'' = None then None
     else Some (case str_field msg ''ErrorString'' of Some e \<Rightarrow> e | None \<Rightarrow> rstr ''unknown error''))"

definition stashbag_failed :: "string \<Rightarrow> ('s, 'a) act" where
  "stashbag_failed what = act_err (Restore (Stashbag what))"

text \<open>One round of the wait: go on, or an end.\<close>

definition stashbag_step :: "plist_dict \<Rightarrow> (stashbag_outcome option, idevice_error) res" where
  "stashbag_step msg =
    (if bool_field msg ''Skip'' then Ok (Some NotRequired)
     else if bool_field msg ''ShowDialog'' then Ok None
     else case stashbag_error msg of
         Some err \<Rightarrow> Err (Restore (Stashbag (''could not create stashbag: '' @ text_of err)))
       | None \<Rightarrow>
           if bool_field msg ''Timeout''
           then Err (Restore (Stashbag ''timed out waiting for the passcode to be entered on the device''))
           else if bool_field msg ''HideDialog'' then Ok (Some CommitRequired) else Ok None)"

primrec stashbag_wait :: "plist_lib \<Rightarrow> (nat \<Rightarrow> timer) \<Rightarrow> nat \<Rightarrow> (idevice, stashbag_outcome) act" where
  "stashbag_wait pl timers 0 = stashbag_failed ''timed out waiting for stashbag creation''"
| "stashbag_wait pl timers (Suc n) =
    act_bind (timed_read pl (timers n)) (\<lambda>msg.
      case msg of
        None \<Rightarrow> stashbag_wait pl timers n
      | Some msg \<Rightarrow>
          act_bind (act_res (stashbag_step msg)) (\<lambda>outcome.
            case outcome of Some x \<Rightarrow> act_ok x | None \<Rightarrow> stashbag_wait pl timers n))"

definition create_stashbag :: "plist_lib \<Rightarrow> (nat \<Rightarrow> timer) \<Rightarrow> byte list \<Rightarrow> (idevice, stashbag_outcome) act" where
  "create_stashbag pl timers manifest =
    act_bind (send_bplist pl (obj [(''Command'', PString (rstr ''CreateStashbag'')), (''Manifest'', PData manifest)])) (\<lambda>_.
    stashbag_wait pl timers 130)"

definition commit_stashbag :: "plist_lib \<Rightarrow> timer \<Rightarrow> byte list \<Rightarrow> (idevice, unit) act" where
  "commit_stashbag pl timer ap_ticket =
    act_bind (send_bplist pl (obj [(''Command'', PString (rstr ''CommitStashbag'')), (''Manifest'', PData ap_ticket)])) (\<lambda>_.
    act_bind (timed_read pl timer) (\<lambda>msg.
      case msg of
        None \<Rightarrow> stashbag_failed ''timed out committing stashbag''
      | Some msg \<Rightarrow>
          (case stashbag_error msg of
             Some err \<Rightarrow> stashbag_failed (''could not commit stashbag: '' @ text_of err)
           | None \<Rightarrow>
               if bool_field msg ''StashbagCommitComplete'' then act_ok ()
               else stashbag_failed ''preboard service did not confirm the stashbag commit'')))"

section \<open>What the error checks can see\<close>

lemma read_plist_no_error: "read_plist pl d = (Ok res, d') \<Longrightarrow> dict_get res ''Error'' = None"
proof -
  assume "read_plist pl d = (Ok res, d')"
  then obtain v u where "pl_to_dict pl v = Ok res" "device_error res = None"
    by (auto simp: read_plist_def act_bind_Ok split: option.splits)
  then show ?thesis by (simp add: device_error_None_iff)
qed

text \<open>
  \<open>read_plist\<close> turns every answer with an \<open>Error\<close> entry into an error of its own. The checks of the clients for
  such an entry never find one: no stashbag is ever reported as failed with the device's own text, and no container as refused.
\<close>

lemma error_checks_blind:
  assumes "read_plist pl d = (Ok res, d')"
  shows "stashbag_error res = None" "str_field res ''Error'' = None" "extract_value dbg res = ok_or (UnexpectedResponse ''response missing Value'') (dict_get res ''Value'')"
  using read_plist_no_error [OF assms] by (simp_all add: stashbag_error_def str_field_def extract_value_def)

section \<open>A timer in the middle of a message\<close>

lemma tp_read_exact_short:
  assumes "length (tp_pending t) < n"
  shows "fst (tp_read_exact n t) = Err eof"
proof -
  obtain r u where r: "tp_read_exact n t = (r, u)" by fastforce
  have "r \<noteq> Panic" using tp_read_exact_no_panic [of n] r unfolding no_panic_def by (metis fst_conv)
  moreover have "r \<noteq> Ok bs" for bs
    using tp_read_exact_Ok [of n t bs u] r assms by auto
  ultimately show ?thesis using r tp_read_exact_err by (cases r) auto
qed

text \<open>
  The device answers that no stashbag is needed, and all of its message arrives. If it comes in one go, that is
  the result. If the timer of the first round fires after the length of the message, its body is taken for the
  length of another, and the wait fails.
\<close>

lemma stashbag_split_message:
  assumes "talks d (framed m) out" "length m < 2 ^ 32" "pl_from_bytes pl m = Ok v" "answer_of pl v = Ok msg" "bool_field msg ''Skip''"
    and "4 \<le> length m" "length m - 4 < unat (from_be_bytes (take 4 m) :: u32)"
  shows "fst (stashbag_wait pl (\<lambda>_. None) 130 d) = Ok NotRequired"
    and "fst (stashbag_wait pl (\<lambda>n. if n = 129 then Some 4 else None) 130 d) = Err eof"
proof -
  have n: "130 = Suc 129" "129 = Suc 128" by simp_all
  obtain d' where "read_plist pl d = (Ok msg, d')"
    using read_talks [of d m "[]" out pl v] assms by auto
  then show "fst (stashbag_wait pl (\<lambda>_. None) 130 d) = Ok NotRequired"
    unfolding n(1) stashbag_wait.simps by (simp add: timed_read_def stashbag_step_def assms(5) act_bind_def)
  obtain t where t: "dv_socket d = Some t" "tp_pending t = framed m" using assms(1) by (auto simp: talks_def arrives_def)
  let ?d = "d\<lparr>dv_socket := Some (cut_read 4 t)\<rparr>"
  have "m \<noteq> []" using assms(6) by auto
  then have "tp_in (cut_read 4 t) = [m]" by (simp add: cut_read_def t(2)) (simp add: framed_def)
  then have "arrives (take 4 m @ drop 4 m) (cut_read 4 t)" using \<open>m \<noteq> []\<close> by (simp add: arrives_def tp_pending_def)
  from tp_read_exact_arrives [OF this] obtain u where
    u: "tp_read_exact 4 (cut_read 4 t) = (Ok (take 4 m), u)" "arrives (drop 4 m) u" using assms(6) by auto
  have "fst (tp_read_exact (unat (from_be_bytes (take 4 m) :: u32)) u) = Err eof"
    by (rule tp_read_exact_short) (use u(2) assms(7) in \<open>simp add: arrives_def\<close>)
  then obtain w where w: "tp_read_exact (unat (from_be_bytes (take 4 m) :: u32)) u = (Err eof, w)" by (metis prod.collapse)
  have "fst (read_plist pl ?d) = Err eof"
    by (simp add: read_plist_def read_plist_value_def on_socket_def u(1) act_bind_def w)
  then obtain w' where "read_plist pl ?d = (Err eof, w')" by (metis prod.collapse)
  then show "fst (stashbag_wait pl (\<lambda>n. if n = 129 then Some 4 else None) 130 d) = Err eof"
    unfolding n(1) stashbag_wait.simps unfolding n(2) stashbag_wait.simps
    by (simp add: timed_read_def t(1) act_bind_def)
qed

section \<open>The stream of notifications\<close>

text \<open>The names in a list of messages, up to the first that gives none.\<close>

fun names_of :: "plist_lib \<Rightarrow> byte list list \<Rightarrow> rstring list \<times> (unit, idevice_error) res" where
  "names_of pl [] = ([], Err eof)"
| "names_of pl (m # ms) =
    (case rbind (pl_from_bytes pl m) (\<lambda>v. rbind (answer_of pl v) streamed_name) of
       Ok name \<Rightarrow> (case names_of pl ms of (names, r) \<Rightarrow> (name # names, r))
     | Err e \<Rightarrow> ([], Err e)
     | Panic \<Rightarrow> ([], Panic))"

text \<open>One message from a connection, whatever the reader makes of it.\<close>

definition message_result :: "plist_lib \<Rightarrow> byte list \<Rightarrow> (plist_dict, idevice_error) res" where
  "message_result pl m = rbind (pl_from_bytes pl m) (answer_of pl)"

lemma read_message:
  assumes "talks d (framed m @ rest) out" and "length m < 2 ^ 32"
  shows "\<exists>d'. read_plist pl d = (message_result pl m, d') \<and> (is_ok (message_result pl m) \<longrightarrow> talks d' rest out)"
proof -
  from read_value_talks [OF assms, of pl] obtain d' where d: "read_plist_value pl d = (pl_from_bytes pl m, d')" "talks d' rest out" by blast
  have "read_plist pl d = (message_result pl m, d')"
  proof (cases "pl_from_bytes pl m")
    case (Ok v)
    then show ?thesis using d(1)
      by (cases "pl_to_dict pl v")
        (auto simp: read_plist_def act_bind_def act_res_def message_result_def answer_of_def act_ok_def act_err_def split: option.split)
  qed (simp_all add: read_plist_def act_bind_def d(1) message_result_def)
  with d(2) show ?thesis by blast
qed

lemma read_end:
  assumes "talks d [] out"
  shows "fst (read_plist pl d) = Err eof"
proof -
  obtain t where t: "dv_socket d = Some t" "tp_pending t = []" using assms by (auto simp: talks_def arrives_def)
  then have "fst (tp_read_exact 4 t) = Err eof" by (intro tp_read_exact_short) simp
  then obtain u where "tp_read_exact 4 t = (Err eof, u)" by (metis prod.collapse)
  then show ?thesis by (simp add: read_plist_def read_plist_value_def on_socket_def t(1) act_bind_def)
qed

lemma notification_stream_names:
  "talks d (concat (map framed ms)) out \<Longrightarrow> \<forall>m \<in> set ms. length m < 2 ^ 32 \<Longrightarrow>
   (case notification_stream pl d of (names, r, _) \<Rightarrow> (names, r)) = names_of pl ms"
proof (induction ms arbitrary: d)
  case Nil
  then obtain d' where "read_plist pl d = (Err eof, d')" using read_end [of d out pl] by (metis concat.simps(1) list.map(1) prod.collapse)
  then show ?case by (simp add: notification_stream.simps [of pl d])
next
  case (Cons m ms)
  from Cons.prems obtain d' where
    d: "read_plist pl d = (message_result pl m, d')" "is_ok (message_result pl m) \<longrightarrow> talks d' (concat (map framed ms)) out"
    using read_message [of d m "concat (map framed ms)" out pl] by auto
  have e: "rbind (pl_from_bytes pl m) (\<lambda>v. rbind (answer_of pl v) streamed_name) = rbind (message_result pl m) streamed_name"
    by (cases "pl_from_bytes pl m") (simp_all add: message_result_def)
  show ?case
  proof (cases "message_result pl m")
    case (Ok response)
    with d(2) Cons have ih: "(case notification_stream pl d' of (names, r, _) \<Rightarrow> (names, r)) = names_of pl ms" by simp
    show ?thesis
      by (cases "streamed_name response")
        (use ih in \<open>auto simp: notification_stream.simps [of pl d] d(1) Ok e simp flip: ih split: prod.split\<close>)
  qed (simp_all add: notification_stream.simps [of pl d] d(1) e)
qed

end
