(* ===== verification/Install_Clients.thy ===== *)
theory Install_Clients
  imports Lockdown_Services Afc_File Tss "HOL-Library.Multiset"
begin

text \<open>
  services/installation\_proxy.rs, mobile\_image\_mounter.rs, springboardservices.rs with utils/plist.rs, and
  crashreportcopymobile.rs. A progress callback is an effect of the caller: its calls are recorded in order.
\<close>

section \<open>The installation proxy\<close>

definition ip_options :: "plist_value option \<Rightarrow> plist_value" where
  "ip_options options = (case options of Some v \<Rightarrow> v | None \<Rightarrow> PDictionary [])"

definition get_apps :: "plist_lib \<Rightarrow> rstring option \<Rightarrow> rstring list option \<Rightarrow> (idevice, rstring \<rightharpoonup> plist_value) act" where
  "get_apps pl application_type bundle_identifiers =
    act_bind (ask pl (obj [(''Command'', PString (rstr ''Lookup'')),
      (''ClientOptions'', req_with [(''ApplicationType'', PString (case application_type of Some t \<Rightarrow> t | None \<Rightarrow> rstr ''Any''))]
        (opt_entry ''BundleIDs'' (\<lambda>ids. PArray (map PString ids)) bundle_identifiers))])) (\<lambda>res.
      case dict_get res ''LookupResult'' of
        Some (PDictionary r) \<Rightarrow> act_ok (fold (\<lambda>(k, v) m. m(k \<mapsto> v)) r Map.empty)
      | _ \<Rightarrow> unexpected ''missing LookupResult dictionary in response'')"

text \<open>One message of an operation in progress: an error, or the percentage it reports and whether it is the last.\<close>

definition progress_of :: "plist_dict \<Rightarrow> (u64 option \<times> bool, idevice_error) res" where
  "progress_of res =
    (case str_field res ''ErrorDescription'' of
       Some e \<Rightarrow> Err (InstallationProxy (OperationFailed e))
     | None \<Rightarrow>
         Ok (Option.bind (dict_get res ''PercentComplete'') plist_as_unsigned_integer,
             str_field res ''Status'' = Some (rstr ''Complete'')))"

function watch_completion :: "plist_lib \<Rightarrow> (idevice \<times> u64 list, unit) act" where
  "watch_completion pl s =
    (case read_plist pl (fst s) of
       (Ok res, d) \<Rightarrow>
         (case progress_of res of
            Ok (percent, complete) \<Rightarrow>
              (let calls = snd s @ (case percent of Some c \<Rightarrow> [c] | None \<Rightarrow> [])
               in if complete then (Ok (), d, calls) else watch_completion pl (d, calls))
          | Err e \<Rightarrow> (Err e, d, snd s)
          | Panic \<Rightarrow> (Panic, d, snd s))
     | (Err e, d) \<Rightarrow> (Err e, d, snd s)
     | (Panic, d) \<Rightarrow> (Panic, d, snd s))"
  by pat_completeness auto
termination watch_completion
  by (relation "measure (\<lambda>(pl, s). dev_load (fst s))") (auto dest!: read_plist_load [OF sym])

declare watch_completion.simps [simp del]

definition package_operation :: "plist_lib \<Rightarrow> (string \<times> plist_value) list \<Rightarrow> (idevice \<times> u64 list, unit) act" where
  "package_operation pl command s =
    (case send_plist pl (obj command) (fst s) of
       (Ok _, d) \<Rightarrow> watch_completion pl (d, snd s)
     | (Err e, d) \<Rightarrow> (Err e, d, snd s)
     | (Panic, d) \<Rightarrow> (Panic, d, snd s))"

definition install_with_callback :: "plist_lib \<Rightarrow> rstring \<Rightarrow> plist_value option \<Rightarrow> (idevice \<times> u64 list, unit) act" where
  "install_with_callback pl package_path options =
    package_operation pl [(''Command'', PString (rstr ''Install'')), (''ClientOptions'', ip_options options), (''PackagePath'', PString package_path)]"

definition upgrade_with_callback :: "plist_lib \<Rightarrow> rstring \<Rightarrow> plist_value option \<Rightarrow> (idevice \<times> u64 list, unit) act" where
  "upgrade_with_callback pl package_path options =
    package_operation pl [(''Command'', PString (rstr ''Upgrade'')), (''ClientOptions'', ip_options options), (''PackagePath'', PString package_path)]"

definition uninstall_with_callback :: "plist_lib \<Rightarrow> rstring \<Rightarrow> plist_value option \<Rightarrow> (idevice \<times> u64 list, unit) act" where
  "uninstall_with_callback pl bundle_id options =
    package_operation pl [(''Command'', PString (rstr ''Uninstall'')), (''ApplicationIdentifier'', PString bundle_id), (''ClientOptions'', ip_options options)]"

text \<open>The operations without a callback.\<close>

definition silently :: "(idevice \<times> u64 list, unit) act \<Rightarrow> (idevice, unit) act" where
  "silently m d = (case m (d, []) of (r, (d', _)) \<Rightarrow> (r, d'))"

definition ip_install :: "plist_lib \<Rightarrow> rstring \<Rightarrow> plist_value option \<Rightarrow> (idevice, unit) act" where
  "ip_install pl package_path options = silently (install_with_callback pl package_path options)"

definition ip_upgrade :: "plist_lib \<Rightarrow> rstring \<Rightarrow> plist_value option \<Rightarrow> (idevice, unit) act" where
  "ip_upgrade pl package_path options = silently (upgrade_with_callback pl package_path options)"

definition ip_uninstall :: "plist_lib \<Rightarrow> rstring \<Rightarrow> plist_value option \<Rightarrow> (idevice, unit) act" where
  "ip_uninstall pl bundle_id options = silently (uninstall_with_callback pl bundle_id options)"

definition check_capabilities_match :: "plist_lib \<Rightarrow> plist_value list \<Rightarrow> plist_value option \<Rightarrow> (idevice, bool) act" where
  "check_capabilities_match pl capabilities options =
    act_bind (ask pl (obj [(''Command'', PString (rstr ''CheckCapabilitiesMatch'')), (''ClientOptions'', ip_options options),
      (''Capabilities'', PArray capabilities)])) (\<lambda>res.
    or_unexpected ''missing LookupResult boolean in CheckCapabilitiesMatch response'' (flag_field res ''LookupResult''))"

function browse_loop :: "plist_lib \<Rightarrow> plist_value list \<Rightarrow> (idevice, plist_value list) act" where
  "browse_loop pl found d =
    (case read_plist pl d of
       (Ok res, d') \<Rightarrow>
         (case Option.bind (dict_get res ''CurrentList'') plist_as_array of
            None \<Rightarrow> (Ok found, d')
          | Some l \<Rightarrow>
              if str_field res ''Status'' = Some (rstr ''Complete'') then (Ok (found @ l), d')
              else browse_loop pl (found @ l) d')
     | (Err e, d') \<Rightarrow> (Err e, d')
     | (Panic, d') \<Rightarrow> (Panic, d'))"
  by pat_completeness auto
termination browse_loop
  by (relation "measure (\<lambda>(pl, found, d). dev_load d)") (auto dest!: read_plist_load [OF sym])

declare browse_loop.simps [simp del]

definition browse :: "plist_lib \<Rightarrow> plist_value option \<Rightarrow> (idevice, plist_value list) act" where
  "browse pl options =
    act_bind (send_plist pl (obj [(''Command'', PString (rstr ''Browse'')), (''ClientOptions'', ip_options options)])) (\<lambda>_.
    browse_loop pl [])"

section \<open>Mounting images\<close>

definition copy_devices :: "plist_lib \<Rightarrow> (idevice, plist_value list) act" where
  "copy_devices pl =
    act_bind (ask pl (obj [(''Command'', PString (rstr ''CopyDevices''))])) (\<lambda>res.
    or_unexpected ''missing EntryList array in CopyDevices response'' (Option.bind (dict_get res ''EntryList'') plist_as_array))"

definition lookup_image :: "plist_lib \<Rightarrow> rstring \<Rightarrow> (idevice, byte list) act" where
  "lookup_image pl image_type =
    act_bind (ask pl (obj [(''Command'', PString (rstr ''LookupImage'')), (''ImageType'', PString image_type)])) (\<lambda>res.
      case Option.bind (dict_get res ''ImageSignature'') plist_as_array of
        Some (PData signature # _) \<Rightarrow> act_ok signature
      | _ \<Rightarrow> act_err NotFound)"

definition expect_status :: "string \<Rightarrow> string \<Rightarrow> string \<Rightarrow> plist_dict \<Rightarrow> ('s, unit) act" where
  "expect_status s mismatch missing_status res =
    (case dict_get res ''Status'' of
       Some (PString t) \<Rightarrow> if t \<noteq> rstr s then unexpected mismatch else act_ok ()
     | _ \<Rightarrow> unexpected missing_status)"

definition on_dev :: "(idevice, 'a) act \<Rightarrow> (idevice \<times> 'w, 'a) act" where
  "on_dev m s = (case m (fst s) of (r, d) \<Rightarrow> (r, d, snd s))"

text \<open>The lengths of a \<open>usize\<close> always fit a \<open>u64\<close>. The state holds the calls of the callback.\<close>

definition upload_image_with_progress :: "plist_lib \<Rightarrow> rstring \<Rightarrow> byte list \<Rightarrow> byte list \<Rightarrow> (idevice \<times> (nat \<times> nat) list, unit) act" where
  "upload_image_with_progress pl image_type img signature =
    act_bind (on_dev (ask pl (obj [(''Command'', PString (rstr ''ReceiveBytes'')), (''ImageType'', PString image_type),
      (''ImageSize'', PInteger (int (length img))), (''ImageSignature'', PData signature)]))) (\<lambda>res.
    act_bind (expect_status ''ReceiveBytesAck'' ''expected ReceiveBytesAck Status in upload response''
      ''missing Status in ReceiveBytes response'' res) (\<lambda>_.
    act_bind (send_raw_with_progress img) (\<lambda>_.
    act_bind (on_dev (read_plist pl)) (\<lambda>res.
    expect_status ''Complete'' ''expected Complete Status after image upload'' ''missing Status after image upload'' res))))"

definition upload_image :: "plist_lib \<Rightarrow> rstring \<Rightarrow> byte list \<Rightarrow> byte list \<Rightarrow> (idevice, unit) act" where
  "upload_image pl image_type img signature d =
    (case upload_image_with_progress pl image_type img signature (d, []) of (r, (d', _)) \<Rightarrow> (r, d'))"

definition mount_image :: "plist_lib \<Rightarrow> rstring \<Rightarrow> byte list \<Rightarrow> byte list option \<Rightarrow> plist_value option \<Rightarrow> (idevice, unit) act" where
  "mount_image pl image_type signature trust_cache info_plist =
    act_bind (ask pl (req_with [(''Command'', PString (rstr ''MountImage'')), (''ImageType'', PString image_type),
      (''ImageSignature'', PData signature)]
      (opt_entry ''ImageTrustCache'' PData trust_cache @ opt_entry ''ImageInfoPlist'' id info_plist)))
    (expect_status ''Complete'' ''expected Complete Status in MountImage response'' ''missing Status in MountImage response'')"

definition unmount_image :: "plist_lib \<Rightarrow> rstring \<Rightarrow> (idevice, unit) act" where
  "unmount_image pl mount_path =
    act_bind (ask pl (obj [(''Command'', PString (rstr ''UnmountImage'')), (''MountPath'', PString mount_path)]))
    (expect_status ''Complete'' ''expected Complete Status in UnmountImage response'' ''expected Complete Status in UnmountImage response'')"

definition query_personalization_manifest :: "plist_lib \<Rightarrow> rstring \<Rightarrow> byte list \<Rightarrow> (idevice, byte list) act" where
  "query_personalization_manifest pl image_type signature =
    act_bind (ask pl (obj [(''Command'', PString (rstr ''QueryPersonalizationManifest'')), (''PersonalizedImageType'', PString image_type),
      (''ImageType'', PString image_type), (''ImageSignature'', PData signature)])) (\<lambda>res.
    act_res (ok_or NotFound (Option.bind (dict_get res ''ImageSignature'') plist_as_data)))"

definition query_developer_mode_status :: "plist_lib \<Rightarrow> (idevice, bool) act" where
  "query_developer_mode_status pl =
    act_bind (ask pl (obj [(''Command'', PString (rstr ''QueryDeveloperModeStatus''))])) (\<lambda>res.
    or_unexpected ''missing DeveloperModeStatus boolean in response'' (flag_field res ''DeveloperModeStatus''))"

definition query_nonce :: "plist_lib \<Rightarrow> rstring option \<Rightarrow> (idevice, byte list) act" where
  "query_nonce pl personalized_image_type =
    act_bind (ask pl (req_with [(''Command'', PString (rstr ''QueryNonce''))]
      (opt_entry ''PersonalizedImageType'' PString personalized_image_type))) (\<lambda>res.
    or_unexpected ''missing PersonalizationNonce data in response'' (Option.bind (dict_get res ''PersonalizationNonce'') plist_as_data))"

definition query_personalization_identifiers :: "plist_lib \<Rightarrow> rstring option \<Rightarrow> (idevice, plist_dict) act" where
  "query_personalization_identifiers pl image_type =
    act_bind (ask pl (req_with [(''Command'', PString (rstr ''QueryPersonalizationIdentifiers''))]
      (opt_entry ''PersonalizedImageType'' PString image_type))) (\<lambda>res.
    or_unexpected ''missing PersonalizationIdentifiers dictionary in response'' (dict_field res ''PersonalizationIdentifiers''))"

definition roll_personalization_nonce :: "plist_lib \<Rightarrow> (idevice, unit) act" where
  "roll_personalization_nonce pl = send_plist pl (obj [(''Command'', PString (rstr ''RollPersonalizationNonce''))])"

definition roll_cryptex_nonce :: "plist_lib \<Rightarrow> (idevice, unit) act" where
  "roll_cryptex_nonce pl = send_plist pl (obj [(''Command'', PString (rstr ''RollCryptexNonce''))])"

definition mount_developer :: "plist_lib \<Rightarrow> byte list \<Rightarrow> byte list \<Rightarrow> (idevice, unit) act" where
  "mount_developer pl img signature =
    act_bind (upload_image pl (rstr ''Developer'') img signature) (\<lambda>_.
    mount_image pl (rstr ''Developer'') signature None None)"

text \<open>
  Personalized images. Beside the connection the state holds the world the provider and the signing server live in;
  what they do there, SHA-384 and the random identifier of a request are parameters.
\<close>

definition number_field :: "plist_dict \<Rightarrow> string \<Rightarrow> (u64, idevice_error) res" where
  "number_field d k =
    (case dict_get d k of
       Some (PInteger b) \<Rightarrow> ok_or (UnexpectedResponse (k @ '' is not an unsigned integer'')) (as_unsigned b)
     | _ \<Rightarrow> Err (UnexpectedResponse (''missing '' @ k @ '' in personalization identifiers'')))"

definition loadable_rules :: "plist_dict \<Rightarrow> plist_value list" where
  "loadable_rules build_identity =
    (case Option.bind (Option.bind (Option.bind (dict_field build_identity ''Manifest'') (\<lambda>m. dict_field m ''LoadableTrustCache''))
        (\<lambda>c. dict_field c ''Info'')) (\<lambda>i. Option.bind (dict_get i ''RestoreRequestRules'') plist_as_array) of
       Some r \<Rightarrow> r | None \<Rightarrow> [])"

definition get_manifest_from_tss :: "plist_lib \<Rightarrow> dict_lib \<Rightarrow> rstring \<Rightarrow> (tss_request \<Rightarrow> ('w, plist_value) act) \<Rightarrow> plist_dict \<Rightarrow> u64 \<Rightarrow>
    (idevice \<times> 'w, byte list) act" where
  "get_manifest_from_tss pl dl uuid send_tss build_manifest unique_chip_id =
    act_bind (on_dev (query_personalization_identifiers pl None)) (\<lambda>ids.
    act_bind (act_res (number_field ids ''BoardId'')) (\<lambda>board_id.
    act_bind (act_res (number_field ids ''ChipID'')) (\<lambda>chip_id.
    act_bind (on_dev (query_nonce pl (Some (rstr ''DeveloperDiskImage'')))) (\<lambda>ap_nonce.
    act_bind (act_res (select_build_identity build_manifest board_id chip_id None)) (\<lambda>build_identity.
    let request = dl_insert dl (rstr ''@BBTicket'') (PBoolean True) (dl_insert dl (rstr ''@ApImg4Ticket'') (PBoolean True)
          (add_ap_personalization_identifiers dl ids (tss_new uuid)));
        request = add_common_tags dl board_id chip_id unique_chip_id (Some ap_nonce) (Some (replicate 20 0)) request;
        parameters = [(rstr ''ApProductionMode'', PBoolean True), (rstr ''ApSecurityMode'', PBoolean True), (rstr ''ApSupportsImg4'', PBoolean True)]
    in case populate_from_manifest dl build_identity parameters (Some (loadable_rules build_identity)) request of
         (Ok _, request) \<Rightarrow>
           act_bind (\<lambda>s. case send_tss request (snd s) of (r, w) \<Rightarrow> (r, fst s, w)) (\<lambda>res.
           act_bind (or_unexpected ''TSS response is not a dictionary'' (plist_as_dictionary res)) (\<lambda>res.
           act_res (extract_img4_ticket res)))
       | (Err e, _) \<Rightarrow> act_err e
       | (Panic, _) \<Rightarrow> act_res Panic)))))"

definition mount_personalized_with_callback :: "plist_lib \<Rightarrow> dict_lib \<Rightarrow> (byte list \<Rightarrow> byte list) \<Rightarrow> rstring \<Rightarrow> ('w, idevice) act \<Rightarrow>
    (tss_request \<Rightarrow> ('w, plist_value) act) \<Rightarrow> byte list \<Rightarrow> byte list \<Rightarrow> byte list \<Rightarrow> plist_value option \<Rightarrow> u64 \<Rightarrow>
    ((idevice \<times> 'w) \<times> (nat \<times> nat) list, unit) act" where
  "mount_personalized_with_callback pl dl sha384 uuid connect send_tss img trust_cache build_manifest info_plist unique_chip_id s =
    (case s of ((d, w), calls) \<Rightarrow>
      (case (case query_personalization_manifest pl (rstr ''DeveloperDiskImage'') (sha384 img) d of
               (Ok manifest, d) \<Rightarrow> (Ok manifest, d, w)
             | (Panic, d) \<Rightarrow> (Panic, d, w)
             | (Err _, d) \<Rightarrow>
                 (case connect w of
                    (Ok d', w') \<Rightarrow>
                      act_bind (act_res (rbind (pl_from_bytes pl build_manifest) (pl_to_dict pl))) (\<lambda>manifest_dict.
                      get_manifest_from_tss pl dl uuid send_tss manifest_dict unique_chip_id) (d', w')
                  | (Err e, w') \<Rightarrow> (Err e, d, w')
                  | (Panic, w') \<Rightarrow> (Panic, d, w'))) of
         (Ok manifest, d, w) \<Rightarrow>
           (case act_bind (upload_image_with_progress pl (rstr ''Personalized'') img manifest) (\<lambda>_.
                   on_dev (mount_image pl (rstr ''Personalized'') manifest (Some trust_cache) info_plist)) (d, calls) of
              (r, d, calls) \<Rightarrow> (r, (d, w), calls))
       | (Err e, d, w) \<Rightarrow> (Err e, (d, w), calls)
       | (Panic, d, w) \<Rightarrow> (Panic, (d, w), calls)))"

section \<open>The home screen\<close>

datatype interface_orientation =
  OrientationUnknown | Portrait | PortraitUpsideDown | LandscapeRight | LandscapeLeft

text \<open>
  utils/plist.rs: dates to the second. The texts of dates are the property-list crate's: \<open>fmt\<close> is \<open>to_xml_format\<close>,
  \<open>scan\<close> is \<open>from_xml_format\<close>.
\<close>

definition truncate_date :: "(int \<Rightarrow> rstring) \<Rightarrow> (rstring \<Rightarrow> int option) \<Rightarrow> int \<Rightarrow> int" where
  "truncate_date fmt scan date =
    (case find_sub [0x2E] (fmt date) of
       None \<Rightarrow> date
     | Some dot_pos \<Rightarrow>
         if 0x5A \<in> set (drop dot_pos (fmt date))
         then (case scan (take dot_pos (fmt date) @ [0x5A]) of Some new_date \<Rightarrow> new_date | None \<Rightarrow> date)
         else date)"

fun truncate_dates_to_seconds :: "(int \<Rightarrow> rstring) \<Rightarrow> (rstring \<Rightarrow> int option) \<Rightarrow> plist_value \<Rightarrow> plist_value" where
  "truncate_dates_to_seconds fmt scan (PDate date) = PDate (truncate_date fmt scan date)"
| "truncate_dates_to_seconds fmt scan (PArray arr) = PArray (map (truncate_dates_to_seconds fmt scan) arr)"
| "truncate_dates_to_seconds fmt scan (PDictionary dict) = PDictionary (map (map_prod id (truncate_dates_to_seconds fmt scan)) dict)"
| "truncate_dates_to_seconds fmt scan v = v"

definition png_data :: "plist_lib \<Rightarrow> (string \<times> plist_value) list \<Rightarrow> string \<Rightarrow> (idevice, byte list) act" where
  "png_data pl req what =
    act_bind (ask pl (obj req)) (\<lambda>res. or_unexpected what (Option.bind (dict_get res ''pngData'') plist_as_data))"

definition get_icon_pngdata :: "plist_lib \<Rightarrow> rstring \<Rightarrow> (idevice, byte list) act" where
  "get_icon_pngdata pl bundle_identifier =
    png_data pl [(''command'', PString (rstr ''getIconPNGData'')), (''bundleId'', PString bundle_identifier)]
      ''missing pngData in icon response''"

definition get_icon_state :: "plist_lib \<Rightarrow> (int \<Rightarrow> rstring) \<Rightarrow> (rstring \<Rightarrow> int option) \<Rightarrow> rstring option \<Rightarrow> (idevice, plist_value) act" where
  "get_icon_state pl fmt scan format_version =
    act_bind (send_plist pl (req_with [(''command'', PString (rstr ''getIconState''))]
      (opt_entry ''formatVersion'' PString format_version))) (\<lambda>_.
    act_bind (read_plist_value pl) (\<lambda>res.
      if (case res of PDictionary d \<Rightarrow> dict_get d ''error'' \<noteq> None \<or> dict_get d ''Error'' \<noteq> None | _ \<Rightarrow> False)
      then unexpected ''device returned error in icon state response''
      else act_ok (truncate_dates_to_seconds fmt scan res)))"

definition set_icon_state :: "plist_lib \<Rightarrow> plist_value \<Rightarrow> (idevice, unit) act" where
  "set_icon_state pl icon_state =
    send_plist pl (obj [(''command'', PString (rstr ''setIconState'')), (''iconState'', icon_state)])"

definition set_icon_state_with_version :: "plist_lib \<Rightarrow> plist_value \<Rightarrow> rstring option \<Rightarrow> (idevice, unit) act" where
  "set_icon_state_with_version pl icon_state format_version =
    send_plist pl (req_with [(''command'', PString (rstr ''setIconState'')), (''iconState'', icon_state)]
      (opt_entry ''formatVersion'' PString format_version))"

definition get_home_screen_wallpaper_preview_pngdata :: "plist_lib \<Rightarrow> (idevice, byte list) act" where
  "get_home_screen_wallpaper_preview_pngdata pl =
    png_data pl [(''command'', PString (rstr ''getWallpaperPreviewImage'')), (''wallpaperName'', PString (rstr ''homescreen''))]
      ''missing pngData in home screen wallpaper response''"

definition get_lock_screen_wallpaper_preview_pngdata :: "plist_lib \<Rightarrow> (idevice, byte list) act" where
  "get_lock_screen_wallpaper_preview_pngdata pl =
    png_data pl [(''command'', PString (rstr ''getWallpaperPreviewImage'')), (''wallpaperName'', PString (rstr ''lockscreen''))]
      ''missing pngData in lock screen wallpaper response''"

definition orientation_of :: "u64 \<Rightarrow> interface_orientation" where
  "orientation_of v =
    (if v = 1 then Portrait else if v = 2 then PortraitUpsideDown else if v = 3 then LandscapeRight
     else if v = 4 then LandscapeLeft else OrientationUnknown)"

definition get_interface_orientation :: "plist_lib \<Rightarrow> (idevice, interface_orientation) act" where
  "get_interface_orientation pl =
    act_bind (ask pl (obj [(''command'', PString (rstr ''getInterfaceOrientation''))])) (\<lambda>res.
    act_bind (or_unexpected ''missing interfaceOrientation in response''
      (Option.bind (dict_get res ''interfaceOrientation'') plist_as_unsigned_integer)) (\<lambda>v. act_ok (orientation_of v)))"

definition get_homescreen_icon_metrics :: "plist_lib \<Rightarrow> (idevice, plist_dict) act" where
  "get_homescreen_icon_metrics pl = ask pl (obj [(''command'', PString (rstr ''getHomeScreenIconMetrics''))])"

section \<open>Crash reports\<close>

text \<open>\<open>Vec::swap_remove\<close>: the last element takes the place.\<close>

definition swap_remove :: "nat \<Rightarrow> 'a list \<Rightarrow> 'a list" where
  "swap_remove i xs = butlast (xs[i := last xs])"

definition crash_entries :: "rstring list \<Rightarrow> rstring list" where
  "crash_entries res =
    (if length res > 2
     then let res = (if res ! 0 = rstr ''.'' then swap_remove 0 res else res)
          in if res ! 1 = rstr ''..'' then swap_remove 1 res else res
     else res)"

definition crash_ls :: "rstring option \<Rightarrow> (afc_client, rstring list) act" where
  "crash_ls dir_path =
    act_bind (list_dir (case dir_path of Some p \<Rightarrow> p | None \<Rightarrow> rstr ''/'')) (\<lambda>res. act_ok (crash_entries res))"

definition crash_pull :: "rstring \<Rightarrow> (afc_client, byte list) act" where
  "crash_pull log c =
    (case afc_open (rstr ''/'' @ log) RdOnly c of
       (Ok fd, c) \<Rightarrow>
         (case read_entire (file_new c fd (rstr ''/'' @ log)) of
            (Panic, f) \<Rightarrow> (Panic, fl_client f)
          | (data, f) \<Rightarrow>
              (case file_close f of
                 (Ok _, f) \<Rightarrow> (data, fl_client f)
               | (Err e, f) \<Rightarrow> (Err e, fl_client f)
               | (Panic, f) \<Rightarrow> (Panic, fl_client f)))
     | (Err e, c) \<Rightarrow> (Err e, c)
     | (Panic, c) \<Rightarrow> (Panic, c))"

definition crash_remove :: "rstring \<Rightarrow> (afc_client, unit) act" where
  "crash_remove log = afc_remove (rstr ''/'' @ log)"

definition EXPECTED_FLUSH :: "byte list" where "EXPECTED_FLUSH = [0x70, 0x69, 0x6E, 0x67]"

text \<open>
  \<open>flush_reports\<close>: the provider's connections and pairing file, and the TLS sessions, are parameters.
\<close>

definition flush_reports :: "plist_lib \<Rightarrow> (pairing_file \<Rightarrow> bool \<Rightarrow> (idevice, unit) act) \<Rightarrow> ('p, lockdown) act \<Rightarrow> ('p, pairing_file) act \<Rightarrow>
    (u16 \<Rightarrow> ('p, idevice) act) \<Rightarrow> ('p, unit) act" where
  "flush_reports pl tls lockdown_connect get_pairing_file connect =
    act_bind lockdown_connect (\<lambda>lc.
    act_bind get_pairing_file (\<lambda>pf.
    case start_session pl tls pf lc of
      (Ok legacy, lc) \<Rightarrow>
        act_bind (act_res (fst (start_service pl (rstr ''com.apple.crashreportmover'') lc))) (\<lambda>(port, ssl).
        act_bind (connect port) (\<lambda>d.
        act_bind (if ssl then act_bind get_pairing_file (\<lambda>pf. case tls pf legacy d of (r, d) \<Rightarrow> act_res (rmap (\<lambda>_. d) r)) else act_ok d) (\<lambda>d.
        act_bind (act_res (fst (read_raw 4 d))) (\<lambda>res.
          if take 4 res = EXPECTED_FLUSH then act_ok () else act_err (CrashReportMoverBadResponse res)))))
    | (Err e, lc) \<Rightarrow> act_err e
    | (Panic, lc) \<Rightarrow> act_res Panic))"

section \<open>An operation in progress\<close>

text \<open>The percentages of a list of messages, up to the first that ends the operation, and how it ends.\<close>

fun progress_reports :: "plist_lib \<Rightarrow> byte list list \<Rightarrow> u64 list \<times> (unit, idevice_error) res" where
  "progress_reports pl [] = ([], Err eof)"
| "progress_reports pl (m # ms) =
    (case rbind (message_result pl m) progress_of of
       Ok (percent, complete) \<Rightarrow>
         (case (if complete then ([], Ok ()) else progress_reports pl ms) of
            (calls, r) \<Rightarrow> ((case percent of Some c \<Rightarrow> [c] | None \<Rightarrow> []) @ calls, r))
     | Err e \<Rightarrow> ([], Err e)
     | Panic \<Rightarrow> ([], Panic))"

text \<open>
  An installation ends with the message that completes it or the first that fails, however the device cuts its messages into
  arrivals; every percentage before that is reported, in order and once.
\<close>

theorem watch_completion_reports:
  assumes "talks d (concat (map framed ms)) out" and "\<forall>m \<in> set ms. length m < 2 ^ 32"
  shows "(case watch_completion pl (d, calls) of (r, _, calls') \<Rightarrow> (calls', r)) =
    (case progress_reports pl ms of (cs, r) \<Rightarrow> (calls @ cs, r))"
  using assms
proof (induction ms arbitrary: d calls)
  case Nil
  then obtain d' where "read_plist pl d = (Err eof, d')" using read_end [of d out pl] by (metis concat.simps(1) list.map(1) prod.collapse)
  then show ?case by (simp add: watch_completion.simps [of pl "(d, calls)"])
next
  case (Cons m ms)
  from Cons.prems obtain d' where
    d: "read_plist pl d = (message_result pl m, d')" "is_ok (message_result pl m) \<longrightarrow> talks d' (concat (map framed ms)) out"
    using read_message [of d m "concat (map framed ms)" out pl] by auto
  show ?case
  proof (cases "message_result pl m")
    case (Ok response)
    show ?thesis
    proof (cases "progress_of response")
      case (Ok p)
      obtain percent complete where p: "p = (percent, complete)" by fastforce
      let ?calls = "calls @ (case percent of Some c \<Rightarrow> [c] | None \<Rightarrow> [])"
      from d(2) Cons \<open>message_result pl m = Ok response\<close>
      have ih: "(case watch_completion pl (d', ?calls) of (r, _, calls') \<Rightarrow> (calls', r)) =
        (case progress_reports pl ms of (cs, r) \<Rightarrow> (?calls @ cs, r))" by simp
      show ?thesis
      proof (cases complete)
        case True
        then show ?thesis by (simp add: watch_completion.simps [of pl "(d, calls)"] d(1) \<open>message_result pl m = Ok response\<close> Ok p)
      next
        case False
        then show ?thesis
          using ih by (simp add: watch_completion.simps [of pl "(d, calls)"] d(1) \<open>message_result pl m = Ok response\<close> Ok p split: prod.splits)
      qed
    qed (simp_all add: watch_completion.simps [of pl "(d, calls)"] d(1) Ok)
  qed (simp_all add: watch_completion.simps [of pl "(d, calls)"] d(1))
qed

section \<open>What a listing leaves out\<close>

text \<open>A directory that holds something is listed without its two dot entries; an empty one keeps them.\<close>

lemma crash_entries_drops_dots:
  "mset (crash_entries (rstr ''.'' # rstr ''..'' # xs)) =
    (if xs = [] then {#rstr ''.'', rstr ''..''#} else mset xs)"
proof (cases xs rule: rev_cases)
  case (snoc ys y)
  show ?thesis
  proof (cases ys rule: rev_cases)
    case Nil
    with snoc show ?thesis by (simp add: crash_entries_def swap_remove_def)
  next
    case (snoc zs z)
    with \<open>xs = ys @ [y]\<close> show ?thesis by (simp add: crash_entries_def swap_remove_def butlast_append)
  qed
qed (simp add: crash_entries_def)

end
