(* ===== verification/F64.thy ===== *)
theory F64
  imports Float_Round
begin

text \<open>
  The \<open>f64\<close> of Rust with its infinities, its subnormal numbers and not-a-number, as far as the progress computations use it:
  a finite value is the rational number it stands for (the sign of a zero is left out: nothing here divides by a zero).
\<close>

datatype f64 = Fin rat | Inf bool | NaN

definition f64_largest_exp :: int where "f64_largest_exp = 1023"

text \<open>Rounding to nearest, ties to even, with the spacing of the subnormals as the smallest one.\<close>

definition f64_near :: "rat \<Rightarrow> f64" where
  "f64_near x =
    (if x = 0 then Fin 0
     else let ulp = two_to (max (lead_exp x - 52) (-1074));
              y = of_int (half_even (x / ulp)) * ulp
          in if two_to (f64_largest_exp + 1) \<le> \<bar>y\<bar> then Inf (x < 0) else Fin y)"

definition f64_of_bits :: "u64 \<Rightarrow> f64" where
  "f64_of_bits w =
    (let neg = f64_sign w = 1; e = f64_exp w; f = f64_frac w;
         sg = (if neg then - 1 else 1)
     in if e = 2047 then (if f = 0 then Inf neg else NaN)
        else if e = 0 then Fin (sg * of_nat f * two_to (-1074))
        else Fin (sg * of_nat (2 ^ 52 + f) * two_to (int e - 1075)))"

fun f64_neg :: "f64 \<Rightarrow> f64" where
  "f64_neg (Fin a) = Fin (- a)"
| "f64_neg (Inf s) = Inf (\<not> s)"
| "f64_neg NaN = NaN"

fun f64_add :: "f64 \<Rightarrow> f64 \<Rightarrow> f64" where
  "f64_add (Fin a) (Fin b) = f64_near (a + b)"
| "f64_add NaN _ = NaN"
| "f64_add _ NaN = NaN"
| "f64_add (Inf s) (Inf t) = (if s = t then Inf s else NaN)"
| "f64_add (Inf s) (Fin _) = Inf s"
| "f64_add (Fin _) (Inf s) = Inf s"

definition f64_sub :: "f64 \<Rightarrow> f64 \<Rightarrow> f64" where
  "f64_sub a b = f64_add a (f64_neg b)"

fun f64_mul :: "f64 \<Rightarrow> f64 \<Rightarrow> f64" where
  "f64_mul (Fin a) (Fin b) = f64_near (a * b)"
| "f64_mul NaN _ = NaN"
| "f64_mul _ NaN = NaN"
| "f64_mul (Inf s) (Inf t) = Inf (s \<noteq> t)"
| "f64_mul (Inf s) (Fin a) = (if a = 0 then NaN else Inf (s \<noteq> (a < 0)))"
| "f64_mul (Fin a) (Inf s) = (if a = 0 then NaN else Inf (s \<noteq> (a < 0)))"

text \<open>Division by a number above zero.\<close>

fun f64_div :: "f64 \<Rightarrow> f64 \<Rightarrow> f64" where
  "f64_div (Fin a) (Fin b) = f64_near (a / b)"
| "f64_div NaN _ = NaN"
| "f64_div _ NaN = NaN"
| "f64_div (Inf s) (Inf t) = NaN"
| "f64_div (Inf s) (Fin _) = Inf s"
| "f64_div (Fin _) (Inf s) = Fin 0"

fun f64_less :: "f64 \<Rightarrow> f64 \<Rightarrow> bool" where
  "f64_less (Fin a) (Fin b) = (a < b)"
| "f64_less NaN _ = False"
| "f64_less _ NaN = False"
| "f64_less (Inf s) (Inf t) = (s \<and> \<not> t)"
| "f64_less (Inf s) (Fin _) = s"
| "f64_less (Fin _) (Inf s) = (\<not> s)"

text \<open>\<open>f64::max\<close> takes the other value when one is not a number.\<close>

definition f64_max :: "f64 \<Rightarrow> f64 \<Rightarrow> f64" where
  "f64_max a b = (if a = NaN then b else if f64_less a b then b else a)"

definition f64_clamp :: "f64 \<Rightarrow> f64 \<Rightarrow> f64 \<Rightarrow> f64" where
  "f64_clamp lo hi x = (if f64_less x lo then lo else if f64_less hi x then hi else x)"

definition f64_of_nat :: "nat \<Rightarrow> f64" where
  "f64_of_nat n = f64_near (of_nat n)"

text \<open>\<open>as u64\<close> drops the fraction and saturates; not-a-number becomes zero.\<close>

fun f64_to_u64 :: "f64 \<Rightarrow> u64" where
  "f64_to_u64 (Fin a) = word_of_int (max 0 (min (2 ^ 64 - 1) (if 0 \<le> a then \<lfloor>a\<rfloor> else \<lceil>a\<rceil>)))"
| "f64_to_u64 (Inf s) = (if s then 0 else - 1)"
| "f64_to_u64 NaN = 0"

definition f64_le :: "f64 \<Rightarrow> f64 \<Rightarrow> bool" where
  "f64_le a b \<longleftrightarrow> a \<noteq> NaN \<and> b \<noteq> NaN \<and> \<not> f64_less b a"

lemma f64_le_refl: "a \<noteq> NaN \<Longrightarrow> f64_le a a"
  by (cases a) (auto simp: f64_le_def)

lemma f64_le_trans: "f64_le a b \<Longrightarrow> f64_le b c \<Longrightarrow> f64_le a c"
  by (cases a; cases b; cases c) (auto simp: f64_le_def)

lemma f64_max_ge: "b \<noteq> NaN \<Longrightarrow> f64_le b (f64_max a b) \<and> f64_max a b \<noteq> NaN"
  by (cases a; cases b) (auto simp: f64_max_def f64_le_def)

end
