(* ===== verification/Backup_Store.thy ===== *)
theory Backup_Store
  imports Texts Device Opack F64
begin

text \<open>
  The host's side of services/mobilebackup2.rs: paths the device names, the storage behind \<open>BackupDelegate\<close>, the local file
  system behind \<open>FsBackupDelegate\<close>, and the progress that is reported. A path is the list of its components from the root.
\<close>

section \<open>Paths\<close>

type_synonym path = "rstring list"

definition path_components :: "rstring \<Rightarrow> rstring list" where
  "path_components s = filter (\<lambda>c. c \<noteq> [] \<and> c \<noteq> rstr ''.'') (split_on 0x2F s)"

definition host_path :: "path \<Rightarrow> rstring \<Rightarrow> path" where
  "host_path host_dir rel = host_dir @ filter (\<lambda>c. c \<noteq> rstr ''..'') (path_components rel)"

text \<open>\<open>Path::join\<close>, whose base an absolute argument replaces, and \<open>Path::parent\<close>\<close>

definition path_join :: "path \<Rightarrow> rstring \<Rightarrow> path" where
  "path_join base s = (if take 1 s = [0x2F] then path_components s else base @ path_components s)"

definition path_parent :: "path \<Rightarrow> path option" where
  "path_parent p = (if p = [] then None else Some (butlast p))"

section \<open>Progress\<close>

record backup_progress =
  bp_batch_done :: u64
  bp_batch_total :: u64
  bp_session_done :: u64
  bp_session_total :: u64
  bp_overall :: f64

record progress_tracker =
  pt_anchor :: f64
  pt_session_bytes :: u64
  pt_last_emit :: u64
  pt_last_progress :: f64

definition tracker_default :: progress_tracker where
  "tracker_default = \<lparr>pt_anchor = Fin 0, pt_session_bytes = 0, pt_last_emit = 0, pt_last_progress = Fin 0\<rparr>"

datatype batch_position = PosBytes u64 u64 | PosFiles nat nat

definition fraction_of :: "nat \<Rightarrow> nat \<Rightarrow> f64 option" where
  "fraction_of d n =
    (if n = 0 then None else Some (f64_clamp (Fin 0) (Fin 1) (f64_div (f64_of_nat d) (f64_of_nat n))))"

fun position_fraction :: "batch_position \<Rightarrow> f64 option" where
  "position_fraction (PosBytes d t) = fraction_of (unat d) (unat t)"
| "position_fraction (PosFiles d t) = fraction_of d t"

fun position_bytes_total :: "batch_position \<Rightarrow> u64" where
  "position_bytes_total (PosBytes d t) = t"
| "position_bytes_total (PosFiles d t) = 0"

definition tracker_overall :: "progress_tracker \<Rightarrow> batch_position \<Rightarrow> f64 option \<Rightarrow> f64" where
  "tracker_overall t position target =
    f64_max
      (case target of
         Some g \<Rightarrow>
           if f64_less (pt_anchor t) g then
             f64_add (pt_anchor t) (f64_mul (f64_sub g (pt_anchor t))
               (case position_fraction position of Some f \<Rightarrow> f | None \<Rightarrow> Fin 0))
           else pt_anchor t
       | None \<Rightarrow> pt_anchor t)
      (pt_last_progress t)"

definition snapshot :: "u64 \<Rightarrow> batch_position \<Rightarrow> f64 option \<Rightarrow> progress_tracker \<Rightarrow> backup_progress \<times> progress_tracker" where
  "snapshot batch_done position target t =
    (let overall = tracker_overall t position target;
         session_done = pt_session_bytes t + batch_done
     in (\<lparr>bp_batch_done = batch_done, bp_batch_total = position_bytes_total position, bp_session_done = session_done,
          bp_session_total =
            (if f64_less (Fin 0) overall \<and> 0 < session_done
             then f64_to_u64 (f64_div (f64_of_nat (unat session_done)) (f64_div overall (Fin 100))) else 0),
          bp_overall = (if f64_less (Fin 0) overall then overall else Fin (- 1))\<rparr>,
        t\<lparr>pt_last_progress := overall\<rparr>))"

definition finish_batch :: "u64 \<Rightarrow> f64 option \<Rightarrow> progress_tracker \<Rightarrow> progress_tracker" where
  "finish_batch batch_done target t =
    (let n = pt_session_bytes t + batch_done; t' = t\<lparr>pt_session_bytes := n, pt_last_emit := n\<rparr>
     in case target of
          Some g \<Rightarrow> if f64_less (pt_anchor t) g then t'\<lparr>pt_anchor := g\<rparr> else t'
        | None \<Rightarrow> t')"

definition PROGRESS_EMIT_BYTES :: u64 where "PROGRESS_EMIT_BYTES = 256 * 1024"

definition should_emit :: "u64 \<Rightarrow> progress_tracker \<Rightarrow> bool \<times> progress_tracker" where
  "should_emit batch_done t =
    (let session_done = pt_session_bytes t + batch_done
     in if PROGRESS_EMIT_BYTES \<le> (if pt_last_emit t \<le> session_done then session_done - pt_last_emit t else 0)
        then (True, t\<lparr>pt_last_emit := session_done\<rparr>) else (False, t))"

section \<open>Storage\<close>

text \<open>
  \<open>BackupDelegate\<close> over the state \<open>'w\<close> of the storage. Opening a file gives the answers of its coming reads (none left: the
  end); a file being written is known by the path it was created at; a write gives the text of its error, if any.
\<close>

datatype file_read = ReadBytes "byte list" | ReadError rstring

record dir_entry =
  de_name :: rstring
  de_is_dir :: bool
  de_is_file :: bool
  de_size :: u64
  de_modified :: "int option"

record 'w backup_delegate =
  bd_free_space :: "path \<Rightarrow> 'w \<Rightarrow> u64"
  bd_open_read :: "path \<Rightarrow> ('w, file_read list) act"
  bd_create_write :: "path \<Rightarrow> ('w, unit) act"
  bd_write :: "path \<Rightarrow> byte list \<Rightarrow> 'w \<Rightarrow> rstring option \<times> 'w"
  bd_create_dir_all :: "path \<Rightarrow> ('w, unit) act"
  bd_remove :: "path \<Rightarrow> ('w, unit) act"
  bd_rename :: "path \<Rightarrow> path \<Rightarrow> ('w, unit) act"
  bd_copy :: "path \<Rightarrow> path \<Rightarrow> ('w, unit) act"
  bd_exists :: "path \<Rightarrow> 'w \<Rightarrow> bool"
  bd_is_dir :: "path \<Rightarrow> 'w \<Rightarrow> bool"
  bd_list_dir :: "path \<Rightarrow> ('w, dir_entry list) act"
  bd_on_file_received :: "rstring \<Rightarrow> u32 \<Rightarrow> 'w \<Rightarrow> 'w"
  bd_on_progress :: "backup_progress \<Rightarrow> 'w \<Rightarrow> 'w"

section \<open>The local file system\<close>

text \<open>
  A tree of files and directories without links; the root is always there. \<open>fs_deny\<close> holds the paths the system refuses
  to create, change or remove, \<open>fs_full\<close> whether writes fail, \<open>fs_avail\<close> the answer of the free-space query and \<open>fs_mtime\<close> the
  times of change.
\<close>

datatype fs_node = FileNode "byte list" | DirNode

record fs =
  fs_nodes :: "(path \<times> fs_node) list"
  fs_deny :: "path list"
  fs_full :: bool
  fs_avail :: "path \<Rightarrow> u64 option"
  fs_mtime :: "path \<Rightarrow> int option"

definition fs_lookup :: "fs \<Rightarrow> path \<Rightarrow> fs_node option" where
  "fs_lookup s p = (if p = [] then Some DirNode else map_of (fs_nodes s) p)"

definition fs_set :: "path \<Rightarrow> fs_node \<Rightarrow> fs \<Rightarrow> fs" where
  "fs_set p n s = s\<lparr>fs_nodes := AList.update p n (fs_nodes s)\<rparr>"

definition fs_is_dir :: "path \<Rightarrow> fs \<Rightarrow> bool" where
  "fs_is_dir p s \<longleftrightarrow> fs_lookup s p = Some DirNode"

definition fs_error :: "idevice_error" where
  "fs_error = InternalError (rstr ''I/O error'')"

definition path_under :: "path \<Rightarrow> path \<Rightarrow> bool" where
  "path_under p q \<longleftrightarrow> take (length p) q = p"

definition fs_prune :: "path \<Rightarrow> fs \<Rightarrow> fs" where
  "fs_prune p s = s\<lparr>fs_nodes := filter (\<lambda>(q, _). \<not> path_under p q) (fs_nodes s)\<rparr>"

text \<open>\<open>create_dir_all\<close>: nothing is created when a file, or a refusal, is in the way.\<close>

definition prefixes_of :: "path \<Rightarrow> path list" where
  "prefixes_of p = map (\<lambda>n. take n p) [1..<Suc (length p)]"

definition fs_create_dir_all :: "path \<Rightarrow> (fs, unit) act" where
  "fs_create_dir_all p s =
    (let new = filter (\<lambda>q. fs_lookup s q = None) (prefixes_of p)
     in if list_all (\<lambda>q. fs_lookup s q = None \<or> fs_is_dir q s) (prefixes_of p) \<and> list_all (\<lambda>q. q \<notin> set (fs_deny s)) new
        then (Ok (), fold (\<lambda>q. fs_set q DirNode) new s) else (Err fs_error, s))"

definition fs_remove :: "path \<Rightarrow> (fs, unit) act" where
  "fs_remove p s =
    (if p \<in> set (fs_deny s) then (Err fs_error, s)
     else case fs_lookup s p of
       Some _ \<Rightarrow> (Ok (), fs_prune p s)
     | None \<Rightarrow> (Err fs_error, s))"

definition fs_may_put :: "path \<Rightarrow> fs \<Rightarrow> bool" where
  "fs_may_put p s \<longleftrightarrow> p \<noteq> [] \<and> p \<notin> set (fs_deny s) \<and> fs_is_dir (butlast p) s"

definition fs_create_write :: "path \<Rightarrow> (fs, unit) act" where
  "fs_create_write p s =
    (if fs_may_put p s \<and> \<not> fs_is_dir p s then (Ok (), fs_set p (FileNode []) s) else (Err fs_error, s))"

definition fs_write :: "path \<Rightarrow> byte list \<Rightarrow> fs \<Rightarrow> rstring option \<times> fs" where
  "fs_write p bs s =
    (case fs_lookup s p of
       Some (FileNode old) \<Rightarrow>
         if fs_full s \<and> bs \<noteq> [] then (Some (rstr ''No space left on device''), s) else (None, fs_set p (FileNode (old @ bs)) s)
     | _ \<Rightarrow> (None, s))"

text \<open>A read takes at most the 32 KiB of the buffer; a directory opens, and reading it fails.\<close>

definition fs_open_read :: "path \<Rightarrow> (fs, file_read list) act" where
  "fs_open_read p s =
    (case fs_lookup s p of
       Some (FileNode bs) \<Rightarrow> (Ok (map ReadBytes (chunks 32768 bs)), s)
     | Some DirNode \<Rightarrow> (Ok [ReadError (rstr ''Is a directory'')], s)
     | None \<Rightarrow>
         if list_all (\<lambda>q. fs_lookup s q = None \<or> fs_is_dir q s) (prefixes_of p) then (Err NotFound, s) else (Err fs_error, s))"

text \<open>
  \<open>rename\<close> moves a file onto a file or to a free name, and a directory to a free name or onto an empty directory, not into
  itself.
\<close>

definition fs_move :: "path \<Rightarrow> path \<Rightarrow> fs \<Rightarrow> fs" where
  "fs_move a b s = s\<lparr>fs_nodes :=
    map (\<lambda>(q, n). (b @ drop (length a) q, n)) (filter (\<lambda>(q, _). path_under a q) (fs_nodes s)) @
    filter (\<lambda>(q, _). \<not> path_under a q \<and> \<not> path_under b q) (fs_nodes s)\<rparr>"

definition fs_empty_dir :: "path \<Rightarrow> fs \<Rightarrow> bool" where
  "fs_empty_dir p s \<longleftrightarrow> list_all (\<lambda>(q, _). path_under p q \<longrightarrow> q = p) (fs_nodes s)"

definition fs_rename :: "path \<Rightarrow> path \<Rightarrow> (fs, unit) act" where
  "fs_rename a b s =
    (if a = [] \<or> a \<in> set (fs_deny s) \<or> fs_lookup s a = None \<or> \<not> fs_may_put b s then (Err fs_error, s)
     else if a = b then (Ok (), s)
     else if fs_is_dir a s then
       (if \<not> path_under a b \<and> (fs_lookup s b = None \<or> fs_is_dir b s \<and> fs_empty_dir b s) then (Ok (), fs_move a b s)
        else (Err fs_error, s))
     else if fs_is_dir b s \<or> path_under a b then (Err fs_error, s) else (Ok (), fs_move a b s))"

text \<open>Copying a directory only creates it; copying a file onto itself cuts it to nothing.\<close>

definition fs_copy :: "path \<Rightarrow> path \<Rightarrow> (fs, unit) act" where
  "fs_copy a b s =
    (if fs_is_dir a s then fs_create_dir_all b s
     else case fs_lookup s a of
       Some (FileNode bs) \<Rightarrow>
         if fs_may_put b s \<and> \<not> fs_is_dir b s then (Ok (), fs_set b (FileNode (if a = b then [] else bs)) s) else (Err fs_error, s)
     | _ \<Rightarrow> (Err fs_error, s))"

definition fs_entry_of :: "fs \<Rightarrow> path \<times> fs_node \<Rightarrow> dir_entry" where
  "fs_entry_of s e =
    \<lparr>de_name = last (fst e), de_is_dir = snd e = DirNode, de_is_file = (snd e \<noteq> DirNode),
     de_size = (case snd e of FileNode bs \<Rightarrow> of_nat (length bs) | DirNode \<Rightarrow> 0), de_modified = fs_mtime s (fst e)\<rparr>"

definition fs_list_dir :: "path \<Rightarrow> (fs, dir_entry list) act" where
  "fs_list_dir p s =
    (if fs_is_dir p s
     then (Ok (map (fs_entry_of s) (filter (\<lambda>(q, _). q \<noteq> [] \<and> butlast q = p) (fs_nodes s))), s)
     else (Err fs_error, s))"

text \<open>\<open>get_free_disk_space\<close>: the nearest ancestor the system answers for.\<close>

definition ASSUMED_FREE :: u64 where "ASSUMED_FREE = 2 ^ 50"

function free_space :: "(path \<Rightarrow> u64 option) \<Rightarrow> path \<Rightarrow> u64" where
  "free_space available p =
    (case available p of
       Some bytes \<Rightarrow> bytes
     | None \<Rightarrow> if p = [] then ASSUMED_FREE else free_space available (butlast p))"
  by pat_completeness auto
termination free_space
  by (relation "measure (\<lambda>(available, p). length p)") auto

declare free_space.simps [simp del]

text \<open>The system takes \<open>..\<close> to mean the directory above (links are not modelled).\<close>

definition fs_walk :: "path \<Rightarrow> path" where
  "fs_walk p = fold (\<lambda>c q. if c = rstr ''..'' then butlast q else q @ [c]) p []"

definition fs_delegate :: "fs backup_delegate" where
  "fs_delegate =
    \<lparr>bd_free_space = (\<lambda>p s. free_space (\<lambda>q. fs_avail s (fs_walk q)) p), bd_open_read = (\<lambda>p. fs_open_read (fs_walk p)),
     bd_create_write = (\<lambda>p. fs_create_write (fs_walk p)), bd_write = (\<lambda>p. fs_write (fs_walk p)),
     bd_create_dir_all = (\<lambda>p. fs_create_dir_all (fs_walk p)), bd_remove = (\<lambda>p. fs_remove (fs_walk p)),
     bd_rename = (\<lambda>p q. fs_rename (fs_walk p) (fs_walk q)), bd_copy = (\<lambda>p q. fs_copy (fs_walk p) (fs_walk q)),
     bd_exists = (\<lambda>p s. fs_lookup s (fs_walk p) \<noteq> None), bd_is_dir = (\<lambda>p. fs_is_dir (fs_walk p)),
     bd_list_dir = (\<lambda>p. fs_list_dir (fs_walk p)),
     bd_on_file_received = (\<lambda>_ _ s. s), bd_on_progress = (\<lambda>_ s. s)\<rparr>"

end
