(* ===== verification/Backup_Client.thy ===== *)
theory Backup_Client
  imports Lockdown_Services Backup_Store
begin

text \<open>
  services/mobilebackup2.rs: the DeviceLink handshake, requests, and the loop in which the device asks for the host's files, sends
  its own, and has directories made, moved and removed. The storage is a \<open>BackupDelegate\<close>; the texts of errors (\<open>Display\<close>) and
  the dictionary of the plist crate are parameters.
\<close>

record backup_lib =
  bl_plist :: plist_lib
  bl_ins :: plist_ins
  bl_describe :: "idevice_error \<Rightarrow> rstring"

record 'w backup =
  mb_dev :: idevice
  mb_version :: u64
  mb_tracker :: progress_tracker
  mb_world :: 'w

definition backup_new :: "idevice \<Rightarrow> 'w \<Rightarrow> 'w backup" where
  "backup_new d w = \<lparr>mb_dev = d, mb_version = 0, mb_tracker = tracker_default, mb_world = w\<rparr>"

definition on_mb :: "(idevice, 'a) act \<Rightarrow> ('w backup, 'a) act" where
  "on_mb m s = (case m (mb_dev s) of (r, d) \<Rightarrow> (r, s\<lparr>mb_dev := d\<rparr>))"

definition on_store :: "('w, 'a) act \<Rightarrow> ('w backup, 'a) act" where
  "on_store m s = (case m (mb_world s) of (r, w) \<Rightarrow> (r, s\<lparr>mb_world := w\<rparr>))"

text \<open>\<open>let _ = \<dots>\<close>, \<open>.is_err()\<close>\<close>

definition succeeds :: "('w, 'a) act \<Rightarrow> ('w backup, bool) act" where
  "succeeds m s =
    (case m (mb_world s) of
       (Ok _, w) \<Rightarrow> (Ok True, s\<lparr>mb_world := w\<rparr>)
     | (Err _, w) \<Rightarrow> (Ok False, s\<lparr>mb_world := w\<rparr>)
     | (Panic, w) \<Rightarrow> (Panic, s\<lparr>mb_world := w\<rparr>))"

definition ask_store :: "('w \<Rightarrow> 'a) \<Rightarrow> ('w backup, 'a) act" where
  "ask_store f s = (Ok (f (mb_world s)), s)"

section \<open>DeviceLink messages\<close>

definition mb_send_array :: "backup_lib \<Rightarrow> plist_value list \<Rightarrow> ('w backup, unit) act" where
  "mb_send_array L vs = on_mb (send_bplist (bl_plist L) (PArray vs))"

definition dl_tag :: "plist_value \<Rightarrow> rstring option" where
  "dl_tag v = (case v of PArray (PString tag # _) \<Rightarrow> Some tag | _ \<Rightarrow> None)"

definition mb_receive_message :: "backup_lib \<Rightarrow> ('w backup, rstring \<times> plist_value) act" where
  "mb_receive_message L =
    act_bind (on_mb (read_plist_value (bl_plist L))) (\<lambda>v.
    act_bind (or_unexpected ''invalid DL message format: expected array with string tag'' (dl_tag v)) (\<lambda>tag.
    act_ok (tag, v)))"

definition mb_dl_handshake :: "backup_lib \<Rightarrow> ('w backup, unit) act" where
  "mb_dl_handshake L =
    act_bind (mb_receive_message L) (\<lambda>(msg, _).
    if msg \<noteq> rstr ''DLMessageVersionExchange'' then unexpected ''expected DLMessageVersionExchange during handshake''
    else act_bind (mb_send_array L [PString (rstr ''DLMessageVersionExchange''), PString (rstr ''DLVersionsOk''), PInteger 400]) (\<lambda>_.
         act_bind (mb_receive_message L) (\<lambda>(msg2, _).
         if msg2 \<noteq> rstr ''DLMessageDeviceReady'' then unexpected ''expected DLMessageDeviceReady after version exchange''
         else act_ok ())))"

definition extend :: "plist_ins \<Rightarrow> plist_dict \<Rightarrow> plist_dict \<Rightarrow> plist_dict" where
  "extend ins new d = fold (\<lambda>(k, v). ins k v) new d"

text \<open>The options come after the name, and may replace it.\<close>

definition send_device_link_message :: "backup_lib \<Rightarrow> string \<Rightarrow> plist_dict option \<Rightarrow> ('w backup, unit) act" where
  "send_device_link_message L message_name options =
    mb_send_array L [PString (rstr ''DLMessageProcessMessage''),
      PDictionary (extend (bl_ins L) (case options of Some d \<Rightarrow> d | None \<Rightarrow> []) [(rstr ''MessageName'', PString (rstr message_name))])]"

definition process_message :: "plist_value \<Rightarrow> plist_dict option" where
  "process_message v =
    (case v of
       PArray (PString m # PDictionary d # _) \<Rightarrow> if m = rstr ''DLMessageProcessMessage'' then Some d else None
     | _ \<Rightarrow> None)"

definition receive_device_link_message :: "backup_lib \<Rightarrow> string \<Rightarrow> ('w backup, plist_dict) act" where
  "receive_device_link_message L expected =
    act_bind (on_mb (read_plist_value (bl_plist L))) (\<lambda>v.
    act_bind (or_unexpected ''invalid device link message format'' (process_message v)) (\<lambda>d.
    if expected = '''' then act_ok d
    else act_bind (or_unexpected ''missing MessageName in DLMessageProcessMessage'' (str_field d ''MessageName'')) (\<lambda>m.
         if m \<noteq> rstr expected then unexpected ''device link MessageName does not match expected'' else act_ok d)))"

definition real_field :: "plist_dict \<Rightarrow> string \<Rightarrow> u64 option" where
  "real_field d k = (case dict_get d k of Some (PReal w) \<Rightarrow> Some w | _ \<Rightarrow> None)"

text \<open>The versions offered are the reals 2.0 and 2.1.\<close>

definition mb_versions :: "plist_value list" where
  "mb_versions = [PReal 0x4000000000000000, PReal 0x4000CCCCCCCCCCCD]"

definition mb_version_exchange :: "backup_lib \<Rightarrow> ('w backup, unit) act" where
  "mb_version_exchange L =
    act_bind (send_device_link_message L ''Hello'' (Some [(rstr ''SupportedProtocolVersions'', PArray mb_versions)])) (\<lambda>_.
    act_bind (receive_device_link_message L ''Response'') (\<lambda>response.
    if (case Option.bind (dict_get response ''ErrorCode'') plist_as_unsigned_integer of Some c \<Rightarrow> c \<noteq> 0 | None \<Rightarrow> False)
    then unexpected ''version exchange failed with non-zero ErrorCode''
    else act_bind (or_unexpected ''missing ProtocolVersion in version exchange response'' (real_field response ''ProtocolVersion'')) (\<lambda>w.
         act_upd (\<lambda>s. s\<lparr>mb_version := w\<rparr>))))"

text \<open>\<open>from_stream\<close>, over lockdown and over the RemoteXPC shim\<close>

definition backup_connect :: "backup_lib \<Rightarrow> ('w backup, unit) act" where
  "backup_connect L = act_bind (mb_dl_handshake L) (\<lambda>_. mb_version_exchange L)"

definition backup_connect_rsd :: "backup_lib \<Rightarrow> ('w backup, unit) act" where
  "backup_connect_rsd L = act_bind (on_mb (rsd_checkin (bl_plist L))) (\<lambda>_. backup_connect L)"

definition send_request :: "backup_lib \<Rightarrow> string \<Rightarrow> rstring option \<Rightarrow> rstring option \<Rightarrow> plist_dict option \<Rightarrow> ('w backup, unit) act" where
  "send_request L request target source options =
    send_device_link_message L request
      (Some (opt_entry ''TargetIdentifier'' PString target @ opt_entry ''SourceIdentifier'' PString source @
        opt_entry ''Options'' PDictionary options))"

definition empty_parameter :: plist_value where
  "empty_parameter = PString (rstr ''___EmptyParameterString___'')"

definition send_status_response :: "backup_lib \<Rightarrow> int \<Rightarrow> string option \<Rightarrow> plist_value option \<Rightarrow> ('w backup, unit) act" where
  "send_status_response L code status1 status2 =
    mb_send_array L [PString (rstr ''DLMessageStatusResponse''), PInteger code,
      (case status1 of Some t \<Rightarrow> PString (rstr t) | None \<Rightarrow> empty_parameter),
      (case status2 of Some v \<Rightarrow> v | None \<Rightarrow> empty_parameter)]"

text \<open>A request, and an answer without an \<open>ErrorCode\<close>.\<close>

definition no_error_code :: "backup_lib \<Rightarrow> string \<Rightarrow> ('w backup, plist_dict) act" where
  "no_error_code L what =
    act_bind (receive_device_link_message L '''') (\<lambda>response.
    if dict_get response ''ErrorCode'' \<noteq> None then unexpected (what @ '' returned ErrorCode'') else act_ok response)"

definition request_backup_info :: "backup_lib \<Rightarrow> ('w backup, plist_dict) act" where
  "request_backup_info L = act_bind (send_device_link_message L ''Info'' None) (\<lambda>_. no_error_code L ''backup info request'')"

record backup_info =
  bi_uuid :: rstring
  bi_device_name :: rstring
  bi_display_name :: rstring
  bi_last_date :: "rstring option"
  bi_version :: rstring
  bi_encrypted :: bool

definition text_or :: "rstring \<Rightarrow> plist_dict \<Rightarrow> string \<Rightarrow> rstring" where
  "text_or dflt d k = (case str_field d k of Some s \<Rightarrow> s | None \<Rightarrow> dflt)"

definition backup_info_of :: "plist_value \<Rightarrow> backup_info option" where
  "backup_info_of v = map_option (\<lambda>d.
    \<lparr>bi_uuid = text_or [] d ''BackupUUID'', bi_device_name = text_or [] d ''DeviceName'',
     bi_display_name = text_or [] d ''DisplayName'', bi_last_date = str_field d ''LastBackupDate'',
     bi_version = text_or (rstr ''Unknown'') d ''Version'',
     bi_encrypted = (case flag_field d ''IsEncrypted'' of Some b \<Rightarrow> b | None \<Rightarrow> False)\<rparr>) (plist_as_dictionary v)"

definition list_backups :: "backup_lib \<Rightarrow> ('w backup, backup_info list) act" where
  "list_backups L =
    act_bind (send_device_link_message L ''List'' None) (\<lambda>_.
    act_bind (no_error_code L ''list backups request'') (\<lambda>response.
    act_ok (case dict_get response ''BackupList'' of
        Some (PArray vs) \<Rightarrow> List.map_filter backup_info_of vs | _ \<Rightarrow> [])))"

definition start_backup :: "backup_lib \<Rightarrow> rstring option \<Rightarrow> rstring option \<Rightarrow> plist_dict option \<Rightarrow> ('w backup, unit) act" where
  "start_backup L target source options =
    act_bind (send_request L ''Backup'' target source options) (\<lambda>_.
    act_bind (no_error_code L ''backup start'') (\<lambda>_. act_ok ()))"

record restore_options =
  ro_reboot :: bool
  ro_copy :: bool
  ro_preserve_settings :: bool
  ro_system_files :: bool
  ro_remove_items :: bool
  ro_password :: "rstring option"

definition restore_options_default :: restore_options where
  "restore_options_default = \<lparr>ro_reboot = True, ro_copy = True, ro_preserve_settings = True, ro_system_files = False,
    ro_remove_items = False, ro_password = None\<rparr>"

definition restore_options_plist :: "restore_options \<Rightarrow> plist_dict" where
  "restore_options_plist o1 =
    map (\<lambda>(k, v). (rstr k, PBoolean v)) [(''RestoreShouldReboot'', ro_reboot o1), (''RestoreDontCopyBackup'', \<not> ro_copy o1),
      (''RestorePreserveSettings'', ro_preserve_settings o1), (''RestoreSystemFiles'', ro_system_files o1),
      (''RemoveItemsNotRestored'', ro_remove_items o1)] @ opt_entry ''Password'' PString (ro_password o1)"

text \<open>\<open>if !opts.contains_key(k) { opts.insert(k, v) }\<close>\<close>

definition insert_missing :: "plist_ins \<Rightarrow> string \<times> bool \<Rightarrow> plist_dict \<Rightarrow> plist_dict" where
  "insert_missing ins kv d = (if dict_get d (fst kv) = None then ins (rstr (fst kv)) (PBoolean (snd kv)) d else d)"

definition restore_defaults :: "plist_ins \<Rightarrow> plist_dict \<Rightarrow> plist_dict" where
  "restore_defaults ins d =
    fold (insert_missing ins) [(''RestoreShouldReboot'', True), (''RestoreDontCopyBackup'', False),
      (''RestorePreserveSettings'', True), (''RestoreSystemFiles'', False), (''RemoveItemsNotRestored'', False)] d"

definition start_restore_plist :: "backup_lib \<Rightarrow> plist_dict \<Rightarrow> ('w backup, unit) act" where
  "start_restore_plist L opts s =
    act_bind (send_request L ''Restore'' (dv_udid (mb_dev s)) (dv_udid (mb_dev s)) (Some opts)) (\<lambda>_.
    act_bind (no_error_code L ''restore start'') (\<lambda>_. act_ok ())) s"

definition start_restore :: "backup_lib \<Rightarrow> plist_dict option \<Rightarrow> ('w backup, unit) act" where
  "start_restore L options = start_restore_plist L (restore_defaults (bl_ins L) (case options of Some d \<Rightarrow> d | None \<Rightarrow> []))"

definition start_restore_with :: "backup_lib \<Rightarrow> restore_options \<Rightarrow> ('w backup, unit) act" where
  "start_restore_with L opts = start_restore_plist L (restore_options_plist opts)"

section \<open>Files for the device\<close>

definition DL_CODE_SUCCESS :: byte where "DL_CODE_SUCCESS = 0x00"
definition DL_CODE_ERROR_LOCAL :: byte where "DL_CODE_ERROR_LOCAL = 0x06"
definition DL_CODE_FILE_DATA :: byte where "DL_CODE_FILE_DATA = 0x0C"

definition be32 :: "nat \<Rightarrow> byte list" where
  "be32 n = to_be_bytes (of_nat n :: u32)"

definition send_bytes :: "byte list \<Rightarrow> ('w backup, unit) act" where
  "send_bytes bs = on_mb (send_raw bs)"

definition notify_progress :: "'w backup_delegate \<Rightarrow> backup_progress \<Rightarrow> ('w backup, unit) act" where
  "notify_progress D p = act_upd (\<lambda>s. s\<lparr>mb_world := bd_on_progress D p (mb_world s)\<rparr>)"

definition take_snapshot :: "u64 \<Rightarrow> batch_position \<Rightarrow> f64 option \<Rightarrow> ('w backup, backup_progress) act" where
  "take_snapshot n position target s =
    (case snapshot n position target (mb_tracker s) of (p, t) \<Rightarrow> (Ok p, s\<lparr>mb_tracker := t\<rparr>))"

definition emit_progress :: "'w backup_delegate \<Rightarrow> u64 \<Rightarrow> batch_position \<Rightarrow> f64 option \<Rightarrow> ('w backup, unit) act" where
  "emit_progress D n position target = act_bind (take_snapshot n position target) (notify_progress D)"

definition maybe_emit :: "'w backup_delegate \<Rightarrow> u64 \<Rightarrow> batch_position \<Rightarrow> f64 option \<Rightarrow> ('w backup, unit) act" where
  "maybe_emit D n position target s =
    (case should_emit n (mb_tracker s) of
       (yes, t) \<Rightarrow> (if yes then emit_progress D n position target (s\<lparr>mb_tracker := t\<rparr>) else (Ok (), s\<lparr>mb_tracker := t\<rparr>)))"

definition end_batch :: "'w backup_delegate \<Rightarrow> u64 \<Rightarrow> batch_position \<Rightarrow> f64 option \<Rightarrow> ('w backup, unit) act" where
  "end_batch D n position target =
    act_bind (act_upd (\<lambda>s. s\<lparr>mb_tracker := finish_batch n target (mb_tracker s)\<rparr>)) (\<lambda>_.
    act_bind (take_snapshot 0 position None) (\<lambda>p. notify_progress D (p\<lparr>bp_batch_done := n\<rparr>)))"

definition send_file_error :: "rstring \<Rightarrow> ('w backup, unit) act" where
  "send_file_error desc = send_bytes (be32 (length desc + 1) @ [DL_CODE_ERROR_LOCAL] @ desc)"

text \<open>The blocks of a file: the bytes of the batch so far, and the error if reading failed.\<close>

fun send_blocks :: "'w backup_delegate \<Rightarrow> batch_position \<Rightarrow> f64 option \<Rightarrow> file_read list \<Rightarrow> u64 \<Rightarrow>
    ('w backup, u64 \<times> (int \<times> rstring) option) act" where
  "send_blocks D position target [] n = act_bind (send_bytes (be32 1 @ [DL_CODE_SUCCESS])) (\<lambda>_. act_ok (n, None))"
| "send_blocks D position target (ReadError desc # rs) n =
    act_bind (send_file_error desc) (\<lambda>_. act_ok (n, Some (- 1, desc)))"
| "send_blocks D position target (ReadBytes b # rs) n =
    (if b = [] then send_blocks D position target [] n
     else act_bind (send_bytes (be32 (length b + 1) @ [DL_CODE_FILE_DATA])) (\<lambda>_.
          act_bind (send_bytes b) (\<lambda>_.
          act_bind (maybe_emit D (n + of_nat (length b)) position target) (\<lambda>_.
          send_blocks D position target rs (n + of_nat (length b))))))"

definition send_single_file :: "backup_lib \<Rightarrow> path \<Rightarrow> rstring \<Rightarrow> 'w backup_delegate \<Rightarrow> u64 \<Rightarrow> batch_position \<Rightarrow> f64 option \<Rightarrow>
    ('w backup, u64 \<times> (int \<times> rstring) option) act" where
  "send_single_file L host_dir rel_path D n position target =
    act_bind (send_bytes (be32 (length rel_path))) (\<lambda>_.
    act_bind (send_bytes rel_path) (\<lambda>_ s.
      case bd_open_read D (host_path host_dir rel_path) (mb_world s) of
        (Ok reads, w) \<Rightarrow> send_blocks D position target reads n (s\<lparr>mb_world := w\<rparr>)
      | (Err e, w) \<Rightarrow>
          act_bind (send_file_error (bl_describe L e)) (\<lambda>_.
          act_ok (n, Some (if e = NotFound then - 6 else - 1, bl_describe L e))) (s\<lparr>mb_world := w\<rparr>)
      | (Panic, w) \<Rightarrow> (Panic, s\<lparr>mb_world := w\<rparr>)))"

definition file_error_entry :: "int \<times> rstring \<Rightarrow> plist_value" where
  "file_error_entry e = obj [(''DLFileErrorString'', PString (snd e)), (''DLFileErrorCode'', PInteger (fst e))]"

primrec send_files :: "backup_lib \<Rightarrow> path \<Rightarrow> 'w backup_delegate \<Rightarrow> f64 option \<Rightarrow> nat \<Rightarrow> nat \<Rightarrow> plist_value list \<Rightarrow> u64 \<Rightarrow> plist_dict \<Rightarrow>
    ('w backup, u64 \<times> plist_dict) act" where
  "send_files L host_dir D target files_total idx [] n errs = act_ok (n, errs)"
| "send_files L host_dir D target files_total idx (pv # pvs) n errs =
    act_bind (case plist_as_string pv of
        Some p \<Rightarrow>
          act_bind (send_single_file L host_dir p D n (PosFiles idx files_total) target) (\<lambda>(m, sent).
          act_ok (m, case sent of Some e \<Rightarrow> bl_ins L p (file_error_entry e) errs | None \<Rightarrow> errs))
      | None \<Rightarrow> act_ok (n, errs)) (\<lambda>(m, errs').
    act_bind (emit_progress D m (PosFiles (Suc idx) files_total) target) (\<lambda>_.
    send_files L host_dir D target files_total (Suc idx) pvs m errs'))"

definition message_item :: "nat \<Rightarrow> plist_value \<Rightarrow> plist_value option" where
  "message_item i v = (case v of PArray vs \<Rightarrow> get_at i vs | _ \<Rightarrow> None)"

definition handle_download_files :: "backup_lib \<Rightarrow> plist_value \<Rightarrow> path \<Rightarrow> 'w backup_delegate \<Rightarrow> f64 option \<Rightarrow> ('w backup, unit) act" where
  "handle_download_files L v host_dir D target =
    act_bind (case Option.bind (message_item 1 v) plist_as_array of
        Some files \<Rightarrow> send_files L host_dir D target (length files) 0 files 0 []
      | None \<Rightarrow> act_ok (0, [])) (\<lambda>(n, errs).
    act_bind (send_bytes (be32 0)) (\<lambda>_.
    act_bind (end_batch D n (PosBytes 0 0) target) (\<lambda>_.
    if errs \<noteq> [] then send_status_response L (- 13) (Some ''Multi status'') (Some (PDictionary errs))
    else send_status_response L 0 None (Some (PDictionary [])))))"

end
