(* ===== verification/Device_Facts.thy ===== *)
theory Device_Facts
  imports Device
begin

text \<open>What sending leaves of the bytes to come: all of them; and what reading a message takes: some.\<close>

lemma tp_in_pending: "tp_in u = tp_in t \<Longrightarrow> tp_pending u = tp_pending t"
  by (simp add: tp_pending_def)

lemma send_framed_in: "tp_in (snd (send_framed m t)) = tp_in t"
  by (simp add: send_framed_def act_bind_def tp_write_all_def tp_flush_def tp_spend_def split: option.splits nat.splits)

lemma send_parts_in: "tp_in (fst (snd (send_parts k i ps s))) = tp_in (fst s)"
proof (induction ps arbitrary: i s)
  case (Cons p ps)
  obtain t tr where s: "s = (t, tr)" by fastforce
  obtain r u where w: "tp_write_all p t = (r, u)" by fastforce
  have "tp_in u = tp_in t" using tp_write_all_in [of p t] w by simp
  with Cons [of "Suc i" "(u, tr @ [(i, k)])"] s w show ?case by (cases r) (simp_all add: act_bind_def act_upd_def)
qed simp

lemma send_framed_dev:
  assumes "on_socket (act_bind (act_res r) f) d = (x, d')" and "\<And>b t. tp_in (snd (f b t)) = tp_in t"
  shows "dev_pending d' = dev_pending d"
proof -
  have "tp_in (snd (act_bind (act_res r) f t)) = tp_in t" for t
    using assms(2) by (simp add: act_bind_def split: res.split)
  with assms(1) show ?thesis
    unfolding on_socket_def dev_pending_def
    by (auto split: option.splits prod.splits dest!: arg_cong [where f = snd] intro!: arg_cong [where f = length] tp_in_pending)
qed

lemma send_bplist_dev: "send_bplist pl v d = (r, d') \<Longrightarrow> dev_pending d' = dev_pending d"
  unfolding send_bplist_def by (erule send_framed_dev) (rule send_framed_in)

lemma send_plist_dev: "send_plist pl v d = (r, d') \<Longrightarrow> dev_pending d' = dev_pending d"
  unfolding send_plist_def by (erule send_framed_dev) (simp add: send_framed_in)

lemma send_raw_dev:
  assumes "send_raw bs d = (r, d')"
  shows "dev_pending d' = dev_pending d"
proof (cases "dv_socket d")
  case (Some t)
  define m where "m = act_bind (send_parts (length (chunks RAW_CHUNK bs) - 1) 0 (chunks RAW_CHUNK bs))
    (\<lambda>_ (t, tr). case tp_flush t of (r, u) \<Rightarrow> (r, (u, tr))) (t, [])"
  obtain q u tr where q: "m = (q, (u, tr))" by (cases m) auto
  have "tp_in (fst (snd m)) = tp_in t"
  proof -
    obtain x v w where p: "send_parts (length (chunks RAW_CHUNK bs) - 1) 0 (chunks RAW_CHUNK bs) (t, []) = (x, (v, w))"
      by (cases "send_parts (length (chunks RAW_CHUNK bs) - 1) 0 (chunks RAW_CHUNK bs) (t, [])") auto
    have "tp_in v = tp_in t" using send_parts_in [of "length (chunks RAW_CHUNK bs) - 1" 0 "chunks RAW_CHUNK bs" "(t, [])"] p by simp
    then show ?thesis using p tp_flush_same [of v] by (cases x; cases "tp_flush v") (simp_all add: m_def act_bind_def)
  qed
  moreover have "d' = d\<lparr>dv_socket := Some u\<rparr>"
    using assms Some q [unfolded m_def] by (simp add: send_raw_def send_raw_with_progress_def Let_def)
  ultimately show ?thesis using Some q by (simp add: dev_pending_def tp_pending_def)
qed (use assms in \<open>simp add: send_raw_def send_raw_with_progress_def\<close>)

lemma read_value_pending:
  assumes "read_plist_value pl d = (r, d')"
  shows "dev_pending d' \<le> dev_pending d \<and> (is_ok r \<longrightarrow> dev_pending d' < dev_pending d)"
proof (cases "dv_socket d")
  case (Some t)
  obtain q u where 1: "tp_read_exact 4 t = (q, u)" by (rule prod.exhaust)
  have u: "length (tp_pending u) \<le> length (tp_pending t)" by (rule tp_read_exact_pending [OF 1])
  show ?thesis
  proof (cases q)
    case (Ok b)
    from tp_read_exact_Ok [OF 1 [unfolded Ok]] have less: "length (tp_pending u) < length (tp_pending t)" by auto
    obtain q2 v where 2: "tp_read_exact (unat (from_be_bytes b :: u32)) u = (q2, v)" by (rule prod.exhaust)
    have "length (tp_pending v) < length (tp_pending t)" using tp_read_exact_pending [OF 2] less by simp
    moreover have "dv_socket d' = Some v"
      using assms Some 1 2 Ok by (cases q2) (auto simp: read_plist_value_def on_socket_def act_bind_def split: prod.splits)
    ultimately show ?thesis using Some by (simp add: dev_pending_def)
  qed (use assms Some 1 u in \<open>auto simp: read_plist_value_def on_socket_def act_bind_def dev_pending_def is_ok_def\<close>)
qed (use assms in \<open>auto simp: read_plist_value_def on_socket_def dev_pending_def is_ok_def\<close>)

end
