(* ===== verification/Backup_Loop.thy ===== *)
theory Backup_Loop
  imports Backup_Client Device_Facts
begin

text \<open>
  services/mobilebackup2.rs: the files the device sends, the changes it asks for, and the loop that serves it until the final
  message; then the operations built on the loop.
\<close>

section \<open>What is left to read\<close>

definition mb_pending :: "'w backup \<Rightarrow> nat" where
  "mb_pending s = dev_pending (mb_dev s)"

definition at_most :: "nat \<Rightarrow> 'w backup \<Rightarrow> bool" where
  "at_most n s \<longleftrightarrow> mb_pending s \<le> n"

text \<open>An action after which there is never more to read than before.\<close>

definition reads_on :: "('w backup, 'a) act \<Rightarrow> bool" where
  "reads_on m \<longleftrightarrow> (\<forall>n. keeps (at_most n) m)"

lemma reads_onD: "reads_on m \<Longrightarrow> m s = (r, t) \<Longrightarrow> mb_pending t \<le> mb_pending s"
  by (metis at_most_def keepsD order_refl reads_on_def snd_conv)

named_theorems reads_intro \<open>actions after which there is never more to read\<close>

lemma reads_on_bind [reads_intro]: "reads_on m \<Longrightarrow> (\<And>a. reads_on (f a)) \<Longrightarrow> reads_on (act_bind m f)"
  by (simp add: reads_on_def keeps_bind)

lemma reads_onI: "(\<And>s r t. m s = (r, t) \<Longrightarrow> mb_pending t \<le> mb_pending s) \<Longrightarrow> reads_on m"
  unfolding reads_on_def by (auto intro!: keepsI simp: at_most_def) (metis order_trans prod.collapse)

lemma reads_on_pure [reads_intro]: "reads_on (act_ok a)" "reads_on (act_err e)" "reads_on (act_res r)"
  by (simp_all add: reads_on_def keeps_pure)

lemma reads_on_if [reads_intro]: "reads_on a \<Longrightarrow> reads_on b \<Longrightarrow> reads_on (if c then a else b)"
  by simp

lemma reads_on_mb: "(\<And>d r d'. m d = (r, d') \<Longrightarrow> dev_pending d' \<le> dev_pending d) \<Longrightarrow> reads_on (on_mb m)"
  by (rule reads_onI) (auto simp: on_mb_def mb_pending_def split: prod.splits)

lemma reads_on_read_raw [reads_intro]: "reads_on (on_mb (read_raw n))"
  by (rule reads_on_mb) (rule read_raw_dev)

lemma reads_on_same: "(\<And>s. mb_dev (snd (m s)) = mb_dev s) \<Longrightarrow> reads_on m"
  by (rule reads_onI) (metis mb_pending_def order_refl snd_conv)

lemma reads_on_Pair [reads_intro]: "reads_on (Pair r)"
  by (rule reads_on_same) simp

lemma reads_on_store [reads_intro]:
  "reads_on (on_store w)" "reads_on (succeeds w')" "reads_on (ask_store f)"
  by (rule reads_on_same; auto simp: on_store_def succeeds_def ask_store_def split: prod.splits res.splits)+

lemma reads_on_emit [reads_intro]:
  "reads_on (notify_progress D p)" "reads_on (take_snapshot n pos t)"
  by (rule reads_on_same; auto simp: notify_progress_def take_snapshot_def split: prod.splits)+

lemma reads_on_emit2 [reads_intro]: "reads_on (emit_progress D n pos t)"
  by (simp add: emit_progress_def reads_intro)

lemma reads_on_maybe [reads_intro]: "reads_on (maybe_emit D n pos t)"
proof (rule reads_onI)
  fix s r u
  assume m: "maybe_emit D n pos t s = (r, u)"
  obtain y tr where y: "should_emit n (mb_tracker s) = (y, tr)" by fastforce
  show "mb_pending u \<le> mb_pending s"
  proof (cases y)
    case True
    with m y have "emit_progress D n pos t (s\<lparr>mb_tracker := tr\<rparr>) = (r, u)" by (simp add: maybe_emit_def)
    from reads_onD [OF reads_on_emit2 this] show ?thesis by (simp add: mb_pending_def)
  next
    case False
    with m y show ?thesis by (auto simp: maybe_emit_def mb_pending_def)
  qed
qed

section \<open>Files of the device\<close>

definition read_be_u32 :: "('w backup, nat) act" where
  "read_be_u32 = act_bind (on_mb (read_raw 4)) (\<lambda>b. act_ok (unat (from_be_bytes b :: u32)))"

definition read_one :: "('w backup, byte) act" where
  "read_one = act_bind (on_mb (read_raw 1)) (\<lambda>b. act_ok (hd b))"

definition read_exact_string :: "nat \<Rightarrow> ('w backup, rstring) act" where
  "read_exact_string n = act_bind (on_mb (read_raw n)) (\<lambda>b. act_ok (utf8_lossy b))"

lemma reads_on_numbers [reads_intro]:
  "reads_on read_be_u32" "reads_on read_one" "reads_on (read_exact_string n)"
  by (simp_all add: read_be_u32_def read_one_def read_exact_string_def reads_intro)

lemma read_be_u32_shorter: "read_be_u32 s = (Ok n, t) \<Longrightarrow> mb_pending t < mb_pending s"
  by (auto simp: read_be_u32_def act_bind_Ok on_mb_def mb_pending_def dest: read_raw_shorter split: prod.splits)

definition store_block :: "'w backup_delegate \<Rightarrow> path \<Rightarrow> byte list \<Rightarrow> ('w backup, unit) act" where
  "store_block D dst bs =
    act_bind (on_store (\<lambda>w. case bd_write D dst bs w of (e, w') \<Rightarrow> (Ok e, w'))) (\<lambda>e.
    case e of Some t \<Rightarrow> act_err (InternalError t) | None \<Rightarrow> act_ok ())"

text \<open>One block of data and the head of the next: its length and code (no code after a length of zero), the bytes so far.\<close>

definition block_round :: "'w backup_delegate \<Rightarrow> path \<Rightarrow> u64 \<Rightarrow> f64 option \<Rightarrow> nat \<Rightarrow> u64 \<Rightarrow> ('w backup, nat \<times> byte \<times> u64) act" where
  "block_round D dst bytes_total target nlen n =
    act_bind (on_mb (read_raw (nlen - 1))) (\<lambda>data.
    act_bind (store_block D dst data) (\<lambda>_.
    let m = n + of_nat (nlen - 1) in
    act_bind (maybe_emit D m (PosBytes m bytes_total) target) (\<lambda>_.
    act_bind read_be_u32 (\<lambda>nlen'.
    if 0 < nlen' then act_bind read_one (\<lambda>code. act_ok (nlen', code, m)) else act_ok (0, DL_CODE_FILE_DATA, m)))))"

lemma reads_on_block [reads_intro]: "reads_on (store_block D dst bs)"
  unfolding store_block_def by (intro reads_intro) (simp add: reads_intro split: option.split)

lemma block_round_shorter:
  assumes "block_round D dst total_bytes target nlen n s = (Ok x, t)"
  shows "mb_pending t < mb_pending s"
proof -
  let ?m = "n + of_nat (nlen - 1)"
  from assms obtain d s1 s2 s3 k s4 where
    1: "on_mb (read_raw (nlen - 1)) s = (Ok d, s1)" "store_block D dst d s1 = (Ok (), s2)"
      "maybe_emit D ?m (PosBytes ?m total_bytes) target s2 = (Ok (), s3)" "read_be_u32 s3 = (Ok k, s4)"
    and 2: "(if 0 < k then act_bind read_one (\<lambda>code. act_ok (k, code, ?m)) else act_ok (0, DL_CODE_FILE_DATA, ?m)) s4 = (Ok x, t)"
    unfolding block_round_def Let_def act_bind_Ok by auto
  have "reads_on (if 0 < k then act_bind read_one (\<lambda>code. act_ok (k, code, ?m)) else act_ok (0, DL_CODE_FILE_DATA, ?m))"
    by (simp add: reads_intro)
  from reads_onD [OF this 2] have "mb_pending t \<le> mb_pending s4" .
  moreover have "mb_pending s1 \<le> mb_pending s" "mb_pending s2 \<le> mb_pending s1" "mb_pending s3 \<le> mb_pending s2"
    using reads_onD [OF reads_on_read_raw 1(1)] reads_onD [OF reads_on_block 1(2)] reads_onD [OF reads_on_maybe 1(3)] by simp_all
  ultimately show ?thesis using read_be_u32_shorter [OF 1(4)] by linarith
qed

text \<open>\<open>while code == DL_CODE_FILE_DATA\<close>: the last head, and the bytes so far\<close>

function recv_blocks :: "'w backup_delegate \<Rightarrow> path \<Rightarrow> u64 \<Rightarrow> f64 option \<Rightarrow> nat \<Rightarrow> byte \<Rightarrow> u64 \<Rightarrow> ('w backup, nat \<times> byte \<times> u64) act" where
  "recv_blocks D dst bytes_total target nlen code n s =
    (if code \<noteq> DL_CODE_FILE_DATA \<or> nlen = 0 then (Ok (nlen, code, n), s)
     else case block_round D dst bytes_total target nlen n s of
       (Ok (nlen', code', m), t) \<Rightarrow> recv_blocks D dst bytes_total target nlen' code' m t
     | (Err e, t) \<Rightarrow> (Err e, t)
     | (Panic, t) \<Rightarrow> (Panic, t))"
  by pat_completeness auto
termination recv_blocks
  by (relation "measure (\<lambda>(D, dst, b, g, nlen, code, n, s). mb_pending s)", simp, simp only: in_measure prod.case,
      metis block_round_shorter)

declare recv_blocks.simps [simp del]

lemma recv_blocks_reads: "recv_blocks D dst b g nlen code n s = (r, t) \<Longrightarrow> mb_pending t \<le> mb_pending s"
proof (induction D dst b g nlen code n s arbitrary: r t rule: recv_blocks.induct)
  case (1 D dst b g nlen code n s)
  have r: "reads_on (block_round D dst b g nlen n)"
    by (simp add: block_round_def Let_def reads_intro)
  show ?case
  proof (cases "code \<noteq> DL_CODE_FILE_DATA \<or> nlen = 0")
    case True
    with 1(2) show ?thesis by (simp add: recv_blocks.simps [of D dst b g nlen code n s])
  next
    case False
    obtain q u where q: "block_round D dst b g nlen n s = (q, u)" by (rule prod.exhaust)
    from reads_onD [OF r q] have u: "mb_pending u \<le> mb_pending s" .
    show ?thesis
    proof (cases q)
      case (Ok x)
      obtain k c m where x: "(k, c, m) = x" by (cases x) auto
      from 1(2) False q Ok x [symmetric] have "recv_blocks D dst b g k c m u = (r, t)" by (simp add: recv_blocks.simps [of D dst b g nlen code n s])
      from 1(1) [OF False q [symmetric] Ok x refl this] u show ?thesis by simp
    qed (use 1(2) False q u in \<open>simp_all add: recv_blocks.simps [of D dst b g nlen code n s]\<close>)
  qed
qed

text \<open>
  One file: its names, the first head, the blocks, and what follows the last. \<open>None\<close> ends the batch; otherwise the number of
  files and of bytes so far. A head of length zero right after the names skips the file.
\<close>

definition receive_file :: "'w backup_delegate \<Rightarrow> path \<Rightarrow> u64 \<Rightarrow> f64 option \<Rightarrow> rstring \<Rightarrow> path \<Rightarrow> nat \<Rightarrow> u32 \<Rightarrow> u64 \<Rightarrow>
    ('w backup, u32 \<times> u64) act" where
  "receive_file D host_dir bytes_total target fname dst nlen file_count n =
    act_bind read_one (\<lambda>code.
    act_bind (succeeds (bd_remove D dst)) (\<lambda>_.
    act_bind (on_store (bd_create_write D dst)) (\<lambda>_.
    act_bind (recv_blocks D dst bytes_total target nlen code n) (\<lambda>(nlen', code', m).
    act_bind (act_upd (\<lambda>s. s\<lparr>mb_world := bd_on_file_received D fname (file_count + 1) (mb_world s)\<rparr>)) (\<lambda>_.
    act_bind (if 0 < nlen' \<and> code' \<noteq> DL_CODE_FILE_DATA \<and> code' \<noteq> DL_CODE_SUCCESS
              then act_bind (on_mb (read_raw (nlen' - 1))) (\<lambda>_. act_ok ()) else act_ok ()) (\<lambda>_.
    act_ok (file_count + 1, m)))))))"

definition make_parent :: "'w backup_delegate \<Rightarrow> path \<Rightarrow> ('w backup, unit) act" where
  "make_parent D p =
    (case path_parent p of Some q \<Rightarrow> act_bind (succeeds (bd_create_dir_all D q)) (\<lambda>_. act_ok ()) | None \<Rightarrow> act_ok ())"

definition upload_round :: "'w backup_delegate \<Rightarrow> path \<Rightarrow> u64 \<Rightarrow> f64 option \<Rightarrow> u32 \<Rightarrow> u64 \<Rightarrow> ('w backup, (u32 \<times> u64) option) act" where
  "upload_round D host_dir bytes_total target file_count n =
    act_bind read_be_u32 (\<lambda>dlen.
    if dlen = 0 then act_ok None
    else act_bind (read_exact_string dlen) (\<lambda>_.
         act_bind read_be_u32 (\<lambda>flen.
         if flen = 0 then act_ok None
         else act_bind (read_exact_string flen) (\<lambda>fname.
              act_bind (make_parent D (host_path host_dir fname)) (\<lambda>_.
              act_bind read_be_u32 (\<lambda>nlen.
              if nlen = 0 then act_ok (Some (file_count, n))
              else act_bind (receive_file D host_dir bytes_total target fname (host_path host_dir fname) nlen file_count n) (\<lambda>p.
                   act_ok (Some p))))))))"

lemma reads_on_recv [reads_intro]: "reads_on (recv_blocks D dst b g nlen code n)"
  by (rule reads_onI) (rule recv_blocks_reads)

lemma reads_on_upd_world [reads_intro]: "reads_on (act_upd (\<lambda>s. s\<lparr>mb_world := f s\<rparr>))"
  by (rule reads_on_same) (simp add: act_upd_def)

lemma reads_on_upd_tracker [reads_intro]: "reads_on (act_upd (\<lambda>s. s\<lparr>mb_tracker := g s\<rparr>))"
  by (rule reads_on_same) (simp add: act_upd_def)

lemma reads_on_file [reads_intro]: "reads_on (receive_file D h b g f dst nlen c n)"
  unfolding receive_file_def by (intro reads_intro) (simp add: case_prod_beta reads_intro)

lemma reads_on_parent [reads_intro]: "reads_on (make_parent D p)"
  by (auto simp: make_parent_def intro!: reads_intro split: option.split)

lemma upload_round_shorter:
  assumes "upload_round D h b g c n s = (Ok x, t)"
  shows "mb_pending t < mb_pending s"
proof -
  from assms obtain k s1 where 1: "read_be_u32 s = (Ok k, s1)"
    and 2: "(if k = 0 then act_ok None
      else act_bind (read_exact_string k) (\<lambda>_. act_bind read_be_u32 (\<lambda>flen.
         if flen = 0 then act_ok None
         else act_bind (read_exact_string flen) (\<lambda>fname. act_bind (make_parent D (host_path h fname)) (\<lambda>_.
              act_bind read_be_u32 (\<lambda>nlen.
              if nlen = 0 then act_ok (Some (c, n))
              else act_bind (receive_file D h b g fname (host_path h fname) nlen c n) (\<lambda>p. act_ok (Some p)))))))) s1 = (Ok x, t)"
    (is "?m s1 = _")
    unfolding upload_round_def act_bind_Ok [of read_be_u32] by auto
  have "reads_on ?m" by (intro reads_intro)
  from reads_onD [OF this 2] read_be_u32_shorter [OF 1] show ?thesis by simp
qed

function upload_loop :: "'w backup_delegate \<Rightarrow> path \<Rightarrow> u64 \<Rightarrow> f64 option \<Rightarrow> u32 \<Rightarrow> u64 \<Rightarrow> ('w backup, u32 \<times> u64) act" where
  "upload_loop D host_dir bytes_total target file_count n s =
    (case upload_round D host_dir bytes_total target file_count n s of
       (Ok (Some (c, m)), t) \<Rightarrow> upload_loop D host_dir bytes_total target c m t
     | (Ok None, t) \<Rightarrow> (Ok (file_count, n), t)
     | (Err e, t) \<Rightarrow> (Err e, t)
     | (Panic, t) \<Rightarrow> (Panic, t))"
  by pat_completeness auto
termination upload_loop
  by (relation "measure (\<lambda>(D, h, b, g, c, n, s). mb_pending s)", simp, simp only: in_measure prod.case,
      metis upload_round_shorter)

declare upload_loop.simps [simp del]

definition handle_upload_files :: "backup_lib \<Rightarrow> plist_value \<Rightarrow> path \<Rightarrow> 'w backup_delegate \<Rightarrow> f64 option \<Rightarrow> ('w backup, unit) act" where
  "handle_upload_files L v host_dir D target =
    (let bytes_total = (case Option.bind (message_item 3 v) plist_as_unsigned_integer of Some b \<Rightarrow> b | None \<Rightarrow> 0)
     in act_bind (upload_loop D host_dir bytes_total target 0 0) (\<lambda>(_, n).
        act_bind (end_batch D n (PosBytes 0 bytes_total) target) (\<lambda>_.
        send_status_response L 0 None (Some (PDictionary [])))))"

section \<open>Changes the device asks for\<close>

definition success_code :: "bool \<Rightarrow> int" where
  "success_code ok = (if ok then 0 else - 1)"

definition create_directory_from_message :: "plist_value \<Rightarrow> path \<Rightarrow> 'w backup_delegate \<Rightarrow> ('w backup, int) act" where
  "create_directory_from_message v host_dir D =
    (case Option.bind (message_item 1 v) plist_as_string of
       Some dir \<Rightarrow> act_bind (succeeds (bd_create_dir_all D (host_path host_dir dir))) (\<lambda>ok. act_ok (success_code ok))
     | None \<Rightarrow> act_ok (- 1))"

primrec move_all :: "path \<Rightarrow> 'w backup_delegate \<Rightarrow> plist_dict \<Rightarrow> ('w backup, int) act" where
  "move_all host_dir D [] = act_ok 0"
| "move_all host_dir D (kv # kvs) =
    (case plist_as_string (snd kv) of
       Some dst \<Rightarrow>
         act_bind (make_parent D (host_path host_dir dst)) (\<lambda>_.
         act_bind (succeeds (bd_rename D (host_path host_dir (fst kv)) (host_path host_dir dst))) (\<lambda>ok.
         if ok then move_all host_dir D kvs else act_ok (- 1)))
     | None \<Rightarrow> move_all host_dir D kvs)"

definition move_files_from_message :: "plist_value \<Rightarrow> path \<Rightarrow> 'w backup_delegate \<Rightarrow> ('w backup, int) act" where
  "move_files_from_message v host_dir D =
    (case Option.bind (message_item 1 v) plist_as_dictionary of Some d \<Rightarrow> move_all host_dir D d | None \<Rightarrow> act_ok (- 1))"

primrec remove_listed :: "path \<Rightarrow> 'w backup_delegate \<Rightarrow> plist_value list \<Rightarrow> ('w backup, int) act" where
  "remove_listed host_dir D [] = act_ok 0"
| "remove_listed host_dir D (it # its) =
    (case plist_as_string it of
       Some p \<Rightarrow>
         act_bind (ask_store (bd_exists D (host_path host_dir p))) (\<lambda>there.
         if there
         then act_bind (succeeds (bd_remove D (host_path host_dir p))) (\<lambda>ok.
              if ok then remove_listed host_dir D its else act_ok (- 1))
         else remove_listed host_dir D its)
     | None \<Rightarrow> remove_listed host_dir D its)"

definition remove_files_from_message :: "plist_value \<Rightarrow> path \<Rightarrow> 'w backup_delegate \<Rightarrow> ('w backup, int) act" where
  "remove_files_from_message v host_dir D =
    (case Option.bind (message_item 1 v) plist_as_array of Some vs \<Rightarrow> remove_listed host_dir D vs | None \<Rightarrow> act_ok (- 1))"

definition copy_item_from_message :: "plist_value \<Rightarrow> path \<Rightarrow> 'w backup_delegate \<Rightarrow> ('w backup, int) act" where
  "copy_item_from_message v host_dir D =
    (case (Option.bind (message_item 1 v) plist_as_string, Option.bind (message_item 2 v) plist_as_string) of
       (Some src, Some dst) \<Rightarrow>
         act_bind (make_parent D (host_path host_dir dst)) (\<lambda>_.
         act_bind (succeeds (bd_copy D (host_path host_dir src) (host_path host_dir dst))) (\<lambda>ok. act_ok (success_code ok)))
     | _ \<Rightarrow> act_ok (- 1))"

definition entry_plist :: "dir_entry \<Rightarrow> plist_value" where
  "entry_plist e = PDictionary
    (map (\<lambda>(k, v). (rstr k, v))
      [(''DLFileType'', PString (if de_is_dir e then rstr ''DLFileTypeDirectory'' else if de_is_file e then rstr ''DLFileTypeRegular''
          else rstr ''DLFileTypeUnknown'')), (''DLFileSize'', PInteger (uint (de_size e)))] @
     opt_entry ''DLFileModificationDate'' PDate (de_modified e))"

definition list_directory_contents :: "plist_ins \<Rightarrow> plist_value \<Rightarrow> path \<Rightarrow> 'w backup_delegate \<Rightarrow> ('w backup, plist_value) act" where
  "list_directory_contents ins v host_dir D s =
    (case Option.bind (message_item 1 v) plist_as_string of
       None \<Rightarrow> (Ok (PDictionary []), s)
     | Some rel \<Rightarrow>
         (case bd_list_dir D (host_path host_dir rel) (mb_world s) of
            (Ok es, w) \<Rightarrow> (Ok (PDictionary (fold (\<lambda>e. ins (de_name e) (entry_plist e)) es [])), s\<lparr>mb_world := w\<rparr>)
          | (Err _, w) \<Rightarrow> (Ok (PDictionary []), s\<lparr>mb_world := w\<rparr>)
          | (Panic, w) \<Rightarrow> (Panic, s\<lparr>mb_world := w\<rparr>)))"

section \<open>The loop\<close>

definition progress_index :: "rstring \<Rightarrow> nat option" where
  "progress_index tag =
    (if tag = rstr ''DLMessageUploadFiles'' then Some 2
     else if tag \<in> set (map rstr [''DLMessageDownloadFiles'', ''DLMessageMoveFiles'', ''DLMessageMoveItems'', ''DLMessageRemoveFiles'',
         ''DLMessageRemoveItems'']) then Some 3
     else None)"

definition target_progress :: "rstring \<Rightarrow> plist_value \<Rightarrow> f64 option" where
  "target_progress tag v =
    (case Option.bind (progress_index tag) (\<lambda>i. message_item i v) of
       Some (PReal w) \<Rightarrow> if f64_less (Fin 0) (f64_of_bits w) then Some (f64_of_bits w) else None
     | _ \<Rightarrow> None)"

definition answer_status :: "backup_lib \<Rightarrow> plist_value option \<Rightarrow> ('w backup, int) act \<Rightarrow> ('w backup, plist_dict option option) act" where
  "answer_status L status2 m =
    act_bind m (\<lambda>status. act_bind (send_status_response L status None status2) (\<lambda>_. act_ok None))"

definition continue_with :: "('w backup, unit) act \<Rightarrow> ('w backup, plist_dict option option) act" where
  "continue_with m = act_bind m (\<lambda>_. act_ok None)"

text \<open>\<open>Some r\<close> ends the loop with \<open>r\<close>.\<close>

definition dl_dispatch :: "backup_lib \<Rightarrow> path \<Rightarrow> 'w backup_delegate \<Rightarrow> rstring \<Rightarrow> plist_value \<Rightarrow> f64 option \<Rightarrow>
    ('w backup, plist_dict option option) act" where
  "dl_dispatch L host_dir D tag v target =
    (let empty_dict = Some (PDictionary []) in
     if tag = rstr ''DLMessageDownloadFiles'' then continue_with (handle_download_files L v host_dir D target)
     else if tag = rstr ''DLMessageUploadFiles'' then continue_with (handle_upload_files L v host_dir D target)
     else if tag = rstr ''DLMessageGetFreeDiskSpace'' then
       act_bind (ask_store (bd_free_space D host_dir)) (\<lambda>b.
       continue_with (send_status_response L 0 None (Some (PInteger (uint b)))))
     else if tag = rstr ''DLContentsOfDirectory'' then
       act_bind (list_directory_contents (bl_ins L) v host_dir D) (\<lambda>listing.
       continue_with (send_status_response L 0 None (Some listing)))
     else if tag = rstr ''DLMessageCreateDirectory'' then answer_status L None (create_directory_from_message v host_dir D)
     else if tag = rstr ''DLMessageMoveFiles'' \<or> tag = rstr ''DLMessageMoveItems'' then
       answer_status L empty_dict (move_files_from_message v host_dir D)
     else if tag = rstr ''DLMessageRemoveFiles'' \<or> tag = rstr ''DLMessageRemoveItems'' then
       answer_status L empty_dict (remove_files_from_message v host_dir D)
     else if tag = rstr ''DLMessageCopyItem'' then answer_status L empty_dict (copy_item_from_message v host_dir D)
     else if tag = rstr ''DLMessageProcessMessage'' then act_ok (Some (Option.bind (message_item 1 v) plist_as_dictionary))
     else if tag = rstr ''DLMessageDisconnect'' then act_ok (Some None)
     else continue_with (send_status_response L (- 1) (Some ''Operation not supported'') None))"

definition dl_finish :: "'w backup_delegate \<Rightarrow> rstring \<Rightarrow> f64 option \<Rightarrow> plist_dict option option \<Rightarrow>
    ('w backup, plist_dict option option) act" where
  "dl_finish D tag target r =
    (case (r, target) of
      (None, Some g) \<Rightarrow>
        if tag = rstr ''DLMessageUploadFiles'' \<or> tag = rstr ''DLMessageDownloadFiles'' then act_ok None
        else act_bind (act_upd (\<lambda>s. s\<lparr>mb_tracker := finish_batch 0 (Some g) (mb_tracker s)\<rparr>)) (\<lambda>_.
             act_bind (emit_progress D 0 (PosBytes 0 0) None) (\<lambda>_. act_ok None))
    | _ \<Rightarrow> act_ok r)"

definition dl_round :: "backup_lib \<Rightarrow> path \<Rightarrow> 'w backup_delegate \<Rightarrow> ('w backup, plist_dict option option) act" where
  "dl_round L host_dir D =
    act_bind (mb_receive_message L) (\<lambda>(tag, v).
    act_bind (dl_dispatch L host_dir D tag v (target_progress tag v)) (dl_finish D tag (target_progress tag v)))"

lemma reads_on_bplist [reads_intro]: "reads_on (on_mb (send_bplist pl v))"
  by (rule reads_on_mb) (simp add: send_bplist_dev)

lemma reads_on_send_raw [reads_intro]: "reads_on (on_mb (send_raw bs))"
  by (rule reads_on_mb) (simp add: send_raw_dev)

lemma reads_on_read_plist [reads_intro]: "reads_on (on_mb (read_plist_value pl))"
  by (rule reads_on_mb) (simp add: read_value_pending)

lemma receive_dl_shorter:
  assumes "mb_receive_message L s = (Ok x, t)"
  shows "mb_pending t < mb_pending s"
proof -
  from assms obtain v u where 1: "on_mb (read_plist_value (bl_plist L)) s = (Ok v, u)" "t = u"
    by (auto simp: mb_receive_message_def act_bind_Ok or_unexpected_def unexpected_def split: option.splits)
  then obtain d where "read_plist_value (bl_plist L) (mb_dev s) = (Ok v, d)" "mb_dev u = d"
    by (auto simp: on_mb_def split: prod.splits)
  with read_value_pending 1(2) show ?thesis by (fastforce simp: mb_pending_def is_ok_def)
qed

lemma reads_on_unexpected [reads_intro]: "reads_on (unexpected w)" "reads_on (or_unexpected w x)"
  by (auto simp: unexpected_def or_unexpected_def intro!: reads_intro split: option.split)

lemma reads_on_sends [reads_intro]:
  "reads_on (mb_send_array L vs)" "reads_on (send_bytes bs)" "reads_on (send_status_response L c a b)"
  "reads_on (send_file_error desc)"
  by (simp_all add: mb_send_array_def send_bytes_def send_status_response_def send_file_error_def reads_intro)

lemma reads_on_blocks [reads_intro]: "reads_on (send_blocks D position target rs n)"
proof (induction D position target rs n rule: send_blocks.induct)
  case (3 D position target b rs n)
  then show ?case by (auto intro!: reads_intro)
qed (auto intro!: reads_intro)

lemma reads_on_single [reads_intro]: "reads_on (send_single_file L host_dir p D n pos g)"
proof -
  have "reads_on (\<lambda>s. case bd_open_read D (host_path host_dir p) (mb_world s) of
        (Ok reads, w) \<Rightarrow> send_blocks D pos g reads n (s\<lparr>mb_world := w\<rparr>)
      | (Err e, w) \<Rightarrow>
          act_bind (send_file_error (bl_describe L e)) (\<lambda>_.
          act_ok (n, Some (if e = NotFound then - 6 else - 1, bl_describe L e))) (s\<lparr>mb_world := w\<rparr>)
      | (Panic, w) \<Rightarrow> (Panic, s\<lparr>mb_world := w\<rparr>))" (is "reads_on ?m")
  proof (rule reads_onI)
    fix s r t
    assume a: "?m s = (r, t)"
    obtain q w where q: "bd_open_read D (host_path host_dir p) (mb_world s) = (q, w)" by (rule prod.exhaust)
    have same: "mb_pending (s\<lparr>mb_world := w\<rparr>) = mb_pending s" by (simp add: mb_pending_def)
    show "mb_pending t \<le> mb_pending s"
    proof (cases q)
      case (Ok rs)
      with a q have "send_blocks D pos g rs n (s\<lparr>mb_world := w\<rparr>) = (r, t)" by simp
      from reads_onD [OF reads_on_blocks this] same show ?thesis by simp
    next
      case (Err e)
      have "reads_on (act_bind (send_file_error (bl_describe L e)) (\<lambda>_.
          act_ok (n, Some (if e = NotFound then - 6 else - 1, bl_describe L e))))" by (intro reads_intro)
      from reads_onD [OF this] a q Err same show ?thesis by fastforce
    qed (use a q same in simp)
  qed
  then show ?thesis unfolding send_single_file_def by (intro reads_intro)
qed

lemma reads_on_files [reads_intro]: "reads_on (send_files L h D g tot idx pvs n errs)"
proof (induction pvs arbitrary: idx n errs)
  case (Cons pv pvs)
  then show ?case unfolding send_files.simps by (auto intro!: reads_intro split: option.split)
qed (simp add: reads_intro)

lemma reads_on_end [reads_intro]: "reads_on (end_batch D n pos g)"
  unfolding end_batch_def by (intro reads_intro)

lemma reads_on_download [reads_intro]: "reads_on (handle_download_files L v h D g)"
  unfolding handle_download_files_def by (auto intro!: reads_intro split: option.split)

lemma upload_loop_reads: "upload_loop D h b g c n s = (r, t) \<Longrightarrow> mb_pending t \<le> mb_pending s"
proof (induction D h b g c n s arbitrary: r t rule: upload_loop.induct)
  case (1 D h b g c n s)
  have u: "reads_on (upload_round D h b g c n)" unfolding upload_round_def by (intro reads_intro)
  obtain q v where q: "upload_round D h b g c n s = (q, v)" by (rule prod.exhaust)
  note v = reads_onD [OF u q]
  show ?case
  proof (cases "\<exists>c' m. q = Ok (Some (c', m))")
    case True
    then obtain c' m where o: "q = Ok (Some (c', m))" by blast
    with 1(2) q have "upload_loop D h b g c' m v = (r, t)" by (simp add: upload_loop.simps [of D h b g c n s])
    from 1(1) [OF q [symmetric] o refl refl this] v show ?thesis by simp
  next
    case False
    with 1(2) q v show ?thesis by (auto simp: upload_loop.simps [of D h b g c n s] split: res.splits option.splits)
  qed
qed

lemma reads_on_upload [reads_intro]: "reads_on (handle_upload_files L v h D g)"
  unfolding handle_upload_files_def Let_def
  by (auto intro!: reads_intro reads_onI [of "upload_loop D h b g c n" for b c n] dest: upload_loop_reads)

lemma reads_on_changes [reads_intro]:
  "reads_on (create_directory_from_message v h D)" "reads_on (copy_item_from_message v h D)"
  "reads_on (move_all h D kvs)" "reads_on (remove_listed h D vs)"
proof -
  show "reads_on (create_directory_from_message v h D)" "reads_on (copy_item_from_message v h D)"
    by (auto simp: create_directory_from_message_def copy_item_from_message_def intro!: reads_intro split: option.split)
  show "reads_on (move_all h D kvs)"
    by (induction kvs) (auto intro!: reads_intro split: option.split)
  show "reads_on (remove_listed h D vs)"
    by (induction vs) (auto intro!: reads_intro split: option.split)
qed

lemma reads_on_changes2 [reads_intro]:
  "reads_on (move_files_from_message v h D)" "reads_on (remove_files_from_message v h D)"
  "reads_on (list_directory_contents ins v h D)"
proof -
  show "reads_on (move_files_from_message v h D)" "reads_on (remove_files_from_message v h D)"
    by (auto simp: move_files_from_message_def remove_files_from_message_def intro!: reads_intro split: option.split)
  show "reads_on (list_directory_contents ins v h D)"
    by (rule reads_on_same) (auto simp: list_directory_contents_def split: option.split prod.split res.split)
qed

lemma reads_on_dispatch [reads_intro]: "reads_on (dl_dispatch L h D tag v g)"
  unfolding dl_dispatch_def Let_def continue_with_def answer_status_def by (intro reads_intro)

lemma reads_on_finish [reads_intro]: "reads_on (dl_finish D tag g r)"
  unfolding dl_finish_def by (auto intro!: reads_intro split: option.split)

lemma dl_round_shorter:
  assumes "dl_round L h D s = (Ok x, t)"
  shows "mb_pending t < mb_pending s"
proof -
  from assms obtain p s1 where 1: "mb_receive_message L s = (Ok p, s1)"
    and 2: "act_bind (dl_dispatch L h D (fst p) (snd p) (target_progress (fst p) (snd p)))
      (dl_finish D (fst p) (target_progress (fst p) (snd p))) s1 = (Ok x, t)"
    unfolding dl_round_def act_bind_Ok [of "mb_receive_message L"] case_prod_beta by blast
  have "reads_on (act_bind (dl_dispatch L h D (fst p) (snd p) (target_progress (fst p) (snd p)))
      (dl_finish D (fst p) (target_progress (fst p) (snd p))))" by (intro reads_intro)
  from reads_onD [OF this 2] receive_dl_shorter [OF 1] show ?thesis by simp
qed

function dl_loop :: "backup_lib \<Rightarrow> path \<Rightarrow> 'w backup_delegate \<Rightarrow> ('w backup, plist_dict option) act" where
  "dl_loop L host_dir D s =
    (case dl_round L host_dir D s of
       (Ok None, t) \<Rightarrow> dl_loop L host_dir D t
     | (Ok (Some r), t) \<Rightarrow> (Ok r, t)
     | (Err e, t) \<Rightarrow> (Err e, t)
     | (Panic, t) \<Rightarrow> (Panic, t))"
  by pat_completeness auto
termination dl_loop
  by (relation "measure (\<lambda>(L, h, D, s). mb_pending s)", simp, simp only: in_measure prod.case, metis dl_round_shorter)

declare dl_loop.simps [simp del]

definition process_dl_loop :: "backup_lib \<Rightarrow> path \<Rightarrow> 'w backup_delegate \<Rightarrow> ('w backup, plist_dict option) act" where
  "process_dl_loop L host_dir D s = dl_loop L host_dir D (s\<lparr>mb_tracker := tracker_default\<rparr>)"

end
