(* ===== verification/Backup_Facts.thy ===== *)
theory Backup_Facts
  imports Backup_Loop
begin

text \<open>
  The operations of services/mobilebackup2.rs over the DeviceLink loop, and what the loop does to the storage: whatever the
  device sends, nothing outside the backup directory changes.
\<close>

section \<open>Operations\<close>

definition source_of :: "rstring option \<Rightarrow> ('w backup, rstring) act" where
  "source_of source s = (ok_or InvalidHostID (case source of Some x \<Rightarrow> Some x | None \<Rightarrow> dv_udid (mb_dev s)), s)"

definition target_udid :: "('w backup, rstring option) act" where
  "target_udid s = (Ok (dv_udid (mb_dev s)), s)"

definition backup_from_path :: "backup_lib \<Rightarrow> path \<Rightarrow> rstring option \<Rightarrow> plist_dict option \<Rightarrow> 'w backup_delegate \<Rightarrow>
    ('w backup, plist_dict option) act" where
  "backup_from_path L backup_root source options D =
    act_bind (source_of source) (\<lambda>src.
    act_bind (succeeds (bd_create_dir_all D (path_join backup_root src))) (\<lambda>_.
    act_bind target_udid (\<lambda>udid.
    act_bind (send_request L ''Backup'' udid (Some src) options) (\<lambda>_.
    process_dl_loop L backup_root D))))"

definition need_stored :: "bool \<Rightarrow> ('w backup, unit) act" where
  "need_stored there = (if there then act_ok () else act_err NotFound)"

definition restore_from_path :: "backup_lib \<Rightarrow> path \<Rightarrow> rstring option \<Rightarrow> restore_options option \<Rightarrow> 'w backup_delegate \<Rightarrow>
    ('w backup, plist_dict option) act" where
  "restore_from_path L backup_root source options D =
    act_bind (source_of source) (\<lambda>src.
    act_bind (ask_store (bd_exists D (path_join backup_root src))) (\<lambda>there.
    act_bind (need_stored there) (\<lambda>_.
    act_bind target_udid (\<lambda>udid.
    act_bind (send_request L ''Restore'' udid (Some src)
      (Some (restore_options_plist (case options of Some r \<Rightarrow> r | None \<Rightarrow> restore_options_default)))) (\<lambda>_.
    process_dl_loop L backup_root D)))))"

definition assert_files :: "path \<Rightarrow> rstring \<Rightarrow> string list \<Rightarrow> 'w backup_delegate \<Rightarrow> ('w backup, unit) act" where
  "assert_files backup_root source names D =
    act_bind (ask_store (\<lambda>w. list_all (\<lambda>n. bd_exists D (path_join (path_join backup_root source) (rstr n)) w) names)) need_stored"

definition assert_backup_exists :: "path \<Rightarrow> rstring \<Rightarrow> 'w backup_delegate \<Rightarrow> ('w backup, unit) act" where
  "assert_backup_exists backup_root source D = assert_files backup_root source [''Manifest.plist'', ''Manifest.db'', ''Status.plist''] D"

definition assert_backup_has_manifest :: "path \<Rightarrow> rstring \<Rightarrow> 'w backup_delegate \<Rightarrow> ('w backup, unit) act" where
  "assert_backup_has_manifest backup_root source D = assert_files backup_root source [''Manifest.plist''] D"

text \<open>\<open>target_udid.unwrap()\<close>\<close>

definition unwrap_udid :: "('w backup, rstring) act" where
  "unwrap_udid s = (case dv_udid (mb_dev s) of Some u \<Rightarrow> (Ok u, s) | None \<Rightarrow> (Panic, s))"

definition final_response :: "string \<Rightarrow> plist_dict option \<Rightarrow> ('w backup, plist_dict) act" where
  "final_response what r = or_unexpected (what @ '' DL loop returned no response'') r"

definition info_from_path :: "backup_lib \<Rightarrow> path \<Rightarrow> rstring option \<Rightarrow> 'w backup_delegate \<Rightarrow> ('w backup, plist_dict) act" where
  "info_from_path L backup_root source D =
    act_bind (source_of source) (\<lambda>src.
    act_bind (assert_backup_exists backup_root src D) (\<lambda>_.
    act_bind unwrap_udid (\<lambda>udid.
    act_bind (send_device_link_message L ''Info''
      (Some ([(rstr ''TargetIdentifier'', PString udid)] @ opt_entry ''SourceIdentifier'' PString source))) (\<lambda>_.
    act_bind (process_dl_loop L backup_root D) (final_response ''info_from_path'')))))"

definition list_from_path :: "backup_lib \<Rightarrow> path \<Rightarrow> rstring option \<Rightarrow> 'w backup_delegate \<Rightarrow> ('w backup, plist_dict) act" where
  "list_from_path L backup_root source D =
    act_bind (source_of source) (\<lambda>src.
    act_bind (assert_backup_exists backup_root src D) (\<lambda>_.
    act_bind unwrap_udid (\<lambda>udid.
    act_bind (send_device_link_message L ''List'' (Some (map (\<lambda>(k, v). (rstr k, PString v))
      [(''MessageName'', rstr ''List''), (''TargetIdentifier'', udid), (''SourceIdentifier'', src)]))) (\<lambda>_.
    act_bind (process_dl_loop L backup_root D) (final_response ''list_from_path'')))))"

text \<open>The final message of the next four is not looked at: an error the device reports in it is a success here.\<close>

definition loop_for_effect :: "backup_lib \<Rightarrow> path \<Rightarrow> 'w backup_delegate \<Rightarrow> ('w backup, unit) act" where
  "loop_for_effect L backup_root D = act_bind (process_dl_loop L backup_root D) (\<lambda>_. act_ok ())"

definition unback_from_path :: "backup_lib \<Rightarrow> path \<Rightarrow> rstring option \<Rightarrow> rstring option \<Rightarrow> 'w backup_delegate \<Rightarrow> ('w backup, unit) act" where
  "unback_from_path L backup_root password source D =
    act_bind (source_of source) (\<lambda>src.
    act_bind (assert_backup_has_manifest backup_root src D) (\<lambda>_.
    act_bind target_udid (\<lambda>udid.
    act_bind (send_request L ''Unback'' udid (Some src) (map_option (\<lambda>pw. [(rstr ''Password'', PString pw)]) password)) (\<lambda>_.
    loop_for_effect L backup_root D))))"

definition extract_from_path :: "backup_lib \<Rightarrow> rstring \<Rightarrow> rstring \<Rightarrow> path \<Rightarrow> rstring option \<Rightarrow> rstring option \<Rightarrow> 'w backup_delegate \<Rightarrow>
    ('w backup, unit) act" where
  "extract_from_path L domain_name relative_path backup_root password source D =
    act_bind (source_of source) (\<lambda>src.
    act_bind (assert_backup_has_manifest backup_root src D) (\<lambda>_.
    act_bind unwrap_udid (\<lambda>udid.
    act_bind (send_device_link_message L ''Extract'' (Some (map (\<lambda>(k, v). (rstr k, PString v))
      [(''MessageName'', rstr ''Extract''), (''TargetIdentifier'', udid), (''DomainName'', domain_name),
       (''RelativePath'', relative_path), (''SourceIdentifier'', src)] @ opt_entry ''Password'' PString password))) (\<lambda>_.
    loop_for_effect L backup_root D))))"

definition need_udid :: "('w backup, rstring) act" where
  "need_udid s = (ok_or InvalidHostID (dv_udid (mb_dev s)), s)"

definition change_password_from_path :: "backup_lib \<Rightarrow> path \<Rightarrow> rstring option \<Rightarrow> rstring option \<Rightarrow> 'w backup_delegate \<Rightarrow>
    ('w backup, unit) act" where
  "change_password_from_path L backup_root old new D =
    act_bind need_udid (\<lambda>udid.
    act_bind (send_device_link_message L ''ChangePassword'' (Some (map (\<lambda>(k, v). (rstr k, PString v))
      [(''MessageName'', rstr ''ChangePassword''), (''TargetIdentifier'', udid)] @
      opt_entry ''OldPassword'' PString old @ opt_entry ''NewPassword'' PString new))) (\<lambda>_.
    loop_for_effect L backup_root D))"

definition erase_device_from_path :: "backup_lib \<Rightarrow> path \<Rightarrow> 'w backup_delegate \<Rightarrow> ('w backup, unit) act" where
  "erase_device_from_path L backup_root D =
    act_bind need_udid (\<lambda>udid.
    act_bind (send_device_link_message L ''EraseDevice'' (Some (map (\<lambda>(k, v). (rstr k, PString v))
      [(''MessageName'', rstr ''EraseDevice''), (''TargetIdentifier'', udid)]))) (\<lambda>_.
    loop_for_effect L backup_root D))"

definition get_freespace :: "('w backup, u64) act" where
  "get_freespace = unexpected ''get_freespace is not a valid host-initiated request''"

definition check_backup_encryption :: "('w backup, bool) act" where
  "check_backup_encryption = unexpected ''check_backup_encryption is not a valid host-initiated request''"

definition backup_disconnect :: "backup_lib \<Rightarrow> ('w backup, unit) act" where
  "backup_disconnect L = mb_send_array L [PString (rstr ''DLMessageDisconnect''), empty_parameter]"

section \<open>Confinement\<close>

text \<open>
  The paths of a message lead to the backup directory or below it, whatever they say, and to its very root if they name nothing
  but dots.
\<close>

definition plain :: "path \<Rightarrow> bool" where
  "plain p \<longleftrightarrow> rstr ''..'' \<notin> set p"

lemma host_path_inside: "\<exists>xs. plain xs \<and> host_path host_dir rel = host_dir @ xs"
  by (simp add: host_path_def plain_def)

lemma host_path_dots: "host_path host_dir (rstr ''..'') = host_dir" "host_path host_dir (rstr ''/./../'') = host_dir"
  by (simp_all add: host_path_def path_components_def)

definition world_ok :: "('w \<Rightarrow> bool) \<Rightarrow> 'w backup \<Rightarrow> bool" where
  "world_ok I s \<longleftrightarrow> I (mb_world s)"

text \<open>What a storage promises about a property of its state: what happens at or below \<open>host\<close> does not harm it.\<close>

locale confined_store =
  fixes D :: "'w backup_delegate" and host :: path and I :: "'w \<Rightarrow> bool"
  assumes remove_in: "plain xs \<Longrightarrow> keeps I (bd_remove D (host @ xs))"
    and create_in: "plain xs \<Longrightarrow> keeps I (bd_create_write D (host @ xs))"
    and write_in: "plain xs \<Longrightarrow> I w \<Longrightarrow> I (snd (bd_write D (host @ xs) bs w))"
    and dirs_in: "plain xs \<Longrightarrow> keeps I (bd_create_dir_all D (take n (host @ xs)))"
    and rename_in: "plain xs \<Longrightarrow> plain ys \<Longrightarrow> keeps I (bd_rename D (host @ xs) (host @ ys))"
    and copy_in: "plain xs \<Longrightarrow> plain ys \<Longrightarrow> keeps I (bd_copy D (host @ xs) (host @ ys))"
    and open_in: "plain xs \<Longrightarrow> keeps I (bd_open_read D (host @ xs))"
    and list_in: "plain xs \<Longrightarrow> keeps I (bd_list_dir D (host @ xs))"
    and received: "I w \<Longrightarrow> I (bd_on_file_received D name count w)"
    and progress: "I w \<Longrightarrow> I (bd_on_progress D p w)"
begin

lemma safe_mb [keeps_intro]: "keeps (world_ok I) (on_mb m)"
  by (rule keepsI) (simp add: on_mb_def world_ok_def split: prod.split)

lemma safe_if [keeps_intro]: "keeps (world_ok I) a \<Longrightarrow> keeps (world_ok I) b \<Longrightarrow> keeps (world_ok I) (if c then a else b)"
  by simp

lemma safe_Pair [keeps_intro]: "keeps (world_ok I) (Pair r)"
  by (rule keepsI) simp

lemma safe_ask [keeps_intro]: "keeps (world_ok I) (ask_store f)"
  by (rule keepsI) (simp add: ask_store_def)

lemma safe_store: "keeps I m \<Longrightarrow> keeps (world_ok I) (on_store m) \<and> keeps (world_ok I) (succeeds m)"
  by (auto simp: world_ok_def on_store_def succeeds_def intro!: keepsI split: prod.split res.split dest: keepsD)
    (metis keepsD snd_conv)+

lemma safe_unexpected [keeps_intro]: "keeps (world_ok I) (unexpected w)" "keeps (world_ok I) (or_unexpected w x)"
  by (auto simp: unexpected_def or_unexpected_def intro!: keeps_intro split: option.split)

lemma safe_sends [keeps_intro]:
  "keeps (world_ok I) (mb_send_array L vs)" "keeps (world_ok I) (send_bytes bs)" "keeps (world_ok I) (send_status_response L c a b)"
  "keeps (world_ok I) (send_file_error desc)" "keeps (world_ok I) read_be_u32" "keeps (world_ok I) read_one" "keeps (world_ok I) (read_exact_string n)"
  "keeps (world_ok I) (mb_receive_message L)"
  by (auto simp: mb_send_array_def send_bytes_def send_status_response_def send_file_error_def read_be_u32_def read_one_def
      read_exact_string_def mb_receive_message_def intro!: keeps_intro)

lemma safe_progress [keeps_intro]:
  "keeps (world_ok I) (notify_progress D p)" "keeps (world_ok I) (take_snapshot n pos g)" "keeps (world_ok I) (emit_progress D n pos g)"
proof -
  show 1: "keeps (world_ok I) (notify_progress D p)" for p
    by (rule keepsI) (simp add: notify_progress_def world_ok_def progress)
  show 2: "keeps (world_ok I) (take_snapshot n pos g)"
    by (rule keepsI) (simp add: take_snapshot_def world_ok_def split: prod.split)
  show "keeps (world_ok I) (emit_progress D n pos g)"
    unfolding emit_progress_def by (intro keeps_bind 1 2)
qed

lemma safe_maybe [keeps_intro]: "keeps (world_ok I) (maybe_emit D n pos g)"
proof (rule keepsI)
  fix s assume s: "world_ok I s"
  obtain y t where "should_emit n (mb_tracker s) = (y, t)" by (rule prod.exhaust)
  moreover have "world_ok I (s\<lparr>mb_tracker := t\<rparr>)" using s by (simp add: world_ok_def)
  ultimately show "world_ok I (snd (maybe_emit D n pos g s))"
    using keepsD [OF safe_progress(3)] by (simp add: maybe_emit_def)
qed

lemma safe_upd_tracker [keeps_intro]: "keeps (world_ok I) (act_upd (\<lambda>s. s\<lparr>mb_tracker := f s\<rparr>))"
  by (rule keepsI) (simp add: act_upd_def world_ok_def)

lemma safe_end [keeps_intro]: "keeps (world_ok I) (end_batch D n pos g)"
  unfolding end_batch_def by (intro keeps_intro)

lemma safe_blocks [keeps_intro]: "keeps (world_ok I) (send_blocks D pos g rs n)"
proof (induction rs arbitrary: n)
  case (Cons r rs)
  then show ?case by (cases r) (auto intro!: keeps_intro)
qed (auto intro!: keeps_intro)

lemma safe_single [keeps_intro]: "keeps (world_ok I) (send_single_file L host p D n pos g)"
proof -
  let ?q = "host_path host p"
  have o: "keeps I (bd_open_read D ?q)" using host_path_inside [of host p] open_in by metis
  have "keeps (world_ok I) (\<lambda>s. case bd_open_read D ?q (mb_world s) of
        (Ok reads, w) \<Rightarrow> send_blocks D pos g reads n (s\<lparr>mb_world := w\<rparr>)
      | (Err e, w) \<Rightarrow>
          act_bind (send_file_error (bl_describe L e)) (\<lambda>_.
          act_ok (n, Some (if e = NotFound then - 6 else - 1, bl_describe L e))) (s\<lparr>mb_world := w\<rparr>)
      | (Panic, w) \<Rightarrow> (Panic, s\<lparr>mb_world := w\<rparr>))" (is "keeps _ ?m")
  proof (rule keepsI)
    fix s assume s: "world_ok I s"
    obtain q w where q: "bd_open_read D ?q (mb_world s) = (q, w)" by (rule prod.exhaust)
    have w: "world_ok I (s\<lparr>mb_world := w\<rparr>)" using keepsD [OF o, of "mb_world s"] q s by (simp add: world_ok_def)
    have e: "keeps (world_ok I) (act_bind (send_file_error (bl_describe L e)) (\<lambda>_.
          act_ok (n, Some (if e = NotFound then - 6 else (- 1 :: int), bl_describe L e))))" for e by (intro keeps_intro)
    show "world_ok I (snd (?m s))"
      using q keepsD [OF safe_blocks w] keepsD [OF e w] w by (cases q) (simp_all split del: if_split)
  qed
  then show ?thesis unfolding send_single_file_def by (intro keeps_intro)
qed

lemma safe_files [keeps_intro]: "keeps (world_ok I) (send_files L host D g tot idx pvs n errs)"
proof (induction pvs arbitrary: idx n errs)
  case (Cons pv pvs)
  then show ?case unfolding send_files.simps by (auto intro!: keeps_intro split: option.split)
qed (simp add: keeps_intro)

lemma safe_download [keeps_intro]: "keeps (world_ok I) (handle_download_files L v host D g)"
  unfolding handle_download_files_def by (auto intro!: keeps_intro split: option.split)

lemma safe_block [keeps_intro]: "plain xs \<Longrightarrow> keeps (world_ok I) (store_block D (host @ xs) bs)"
proof -
  assume p: "plain xs"
  have "keeps I (\<lambda>w. case bd_write D (host @ xs) bs w of (e, w') \<Rightarrow> (Ok e, w'))"
    by (rule keepsI) (use write_in [OF p, of _ bs] in \<open>auto split: prod.split\<close>, metis snd_conv)
  with safe_store show "keeps (world_ok I) (store_block D (host @ xs) bs)"
    unfolding store_block_def by (auto intro!: keeps_intro split: option.split)
qed

lemma safe_block_round [keeps_intro]: "plain xs \<Longrightarrow> keeps (world_ok I) (block_round D (host @ xs) b g nlen n)"
  unfolding block_round_def Let_def by (intro keeps_intro)

lemma safe_recv [keeps_intro]:
  assumes p: "plain xs"
  shows "keeps (world_ok I) (recv_blocks D (host @ xs) b g nlen code n)"
proof (rule keepsI)
  have "fst (snd a) = host @ xs \<Longrightarrow> fst a = D \<Longrightarrow> world_ok I s \<Longrightarrow> world_ok I (snd (recv_blocks D (host @ xs) b g nlen code n s))"
    if "a = (D, host @ xs, b, g)" for a b g nlen code n s
  proof (induction "mb_pending s" arbitrary: s nlen code n rule: less_induct)
    case less
    show ?case
    proof (cases "code \<noteq> DL_CODE_FILE_DATA \<or> nlen = 0")
      case False
      obtain q t where q: "block_round D (host @ xs) b g nlen n s = (q, t)" by (rule prod.exhaust)
      have t: "world_ok I t" using keepsD [OF safe_block_round [OF p] less(4)] q by (metis snd_conv)
      show ?thesis
      proof (cases q)
        case (Ok x)
        obtain k c m where "x = (k, c, m)" by (cases x) auto
        with less(1) [OF block_round_shorter [OF q [unfolded Ok]] less(2,3) t] False q Ok show ?thesis
          by (subst recv_blocks.simps) simp
      qed (use False q t in \<open>subst recv_blocks.simps, simp\<close>)+
    qed (use less in \<open>simp add: recv_blocks.simps [of D "host @ xs" b g nlen code n s]\<close>)
  qed
  then show "world_ok I s \<Longrightarrow> world_ok I (snd (recv_blocks D (host @ xs) b g nlen code n s))" for s by simp
qed

lemma safe_receive [keeps_intro]:
  assumes p: "plain xs"
  shows "keeps (world_ok I) (receive_file D host b g name (host @ xs) nlen c n)"
proof -
  have "keeps (world_ok I) (act_upd (\<lambda>s. s\<lparr>mb_world := bd_on_file_received D name (c + 1) (mb_world s)\<rparr>))"
    by (rule keepsI) (simp add: act_upd_def world_ok_def received)
  then show ?thesis
    unfolding receive_file_def using safe_store [OF remove_in [OF p]] safe_store [OF create_in [OF p]] p
    by (intro keeps_intro) (simp_all add: case_prod_beta keeps_intro)
qed

lemma safe_parent [keeps_intro]:
  assumes p: "plain xs"
  shows "keeps (world_ok I) (make_parent D (host @ xs))"
proof -
  have "keeps I (bd_create_dir_all D (butlast (host @ xs)))" unfolding butlast_conv_take by (rule dirs_in [OF p])
  from safe_store [OF this] show ?thesis
    by (auto simp: make_parent_def path_parent_def intro!: keeps_intro)
qed

lemma safe_upload_round [keeps_intro]: "keeps (world_ok I) (upload_round D host b g c n)"
proof -
  have "keeps (world_ok I) (make_parent D (host_path host name))"
    "keeps (world_ok I) (receive_file D host b g name (host_path host name) nlen c n)" for name nlen
    using host_path_inside [of host name] safe_parent safe_receive by metis+
  then show ?thesis unfolding upload_round_def by (intro keeps_intro)
qed

lemma safe_upload_loop [keeps_intro]: "keeps (world_ok I) (upload_loop D host b g c n)"
proof (rule keepsI)
  fix s
  show "world_ok I s \<Longrightarrow> world_ok I (snd (upload_loop D host b g c n s))"
  proof (induction "mb_pending s" arbitrary: s c n rule: less_induct)
    case less
    obtain q t where q: "upload_round D host b g c n s = (q, t)" by (rule prod.exhaust)
    have t: "world_ok I t" using keepsD [OF safe_upload_round less(2)] q by (metis snd_conv)
    show ?case
    proof (cases "\<exists>c' m. q = Ok (Some (c', m))")
      case True
      then obtain c' m where o: "q = Ok (Some (c', m))" by blast
      with less(1) [OF upload_round_shorter [OF q [unfolded o]] t] q show ?thesis by (subst upload_loop.simps) simp
    next
      case False
      with q t show ?thesis by (subst upload_loop.simps) (auto split: res.split option.split)
    qed
  qed
qed

lemma safe_upload [keeps_intro]: "keeps (world_ok I) (handle_upload_files L v host D g)"
  unfolding handle_upload_files_def Let_def by (intro keeps_intro) (simp add: case_prod_beta keeps_intro)

lemma safe_changes [keeps_intro]:
  "keeps (world_ok I) (create_directory_from_message v host D)" "keeps (world_ok I) (copy_item_from_message v host D)"
  "keeps (world_ok I) (move_all host D kvs)" "keeps (world_ok I) (remove_listed host D vs)"
proof -
  have d: "keeps (world_ok I) (succeeds (bd_create_dir_all D (host_path host a)))"
    and c: "keeps (world_ok I) (succeeds (bd_copy D (host_path host a) (host_path host b)))"
    and m: "keeps (world_ok I) (succeeds (bd_rename D (host_path host a) (host_path host b)))"
    and r: "keeps (world_ok I) (succeeds (bd_remove D (host_path host a)))"
    and p: "keeps (world_ok I) (make_parent D (host_path host a))" for a b
    using host_path_inside [of host a] host_path_inside [of host b] safe_store [OF dirs_in]
      safe_store [OF copy_in] safe_store [OF rename_in] safe_store [OF remove_in] safe_parent by (metis take_all_iff order_refl)+
  show "keeps (world_ok I) (create_directory_from_message v host D)" "keeps (world_ok I) (copy_item_from_message v host D)"
    by (auto simp: create_directory_from_message_def copy_item_from_message_def intro!: keeps_intro c d p split: option.split)
  show "keeps (world_ok I) (move_all host D kvs)"
    by (induction kvs) (auto intro!: keeps_intro m p split: option.split)
  show "keeps (world_ok I) (remove_listed host D vs)"
    by (induction vs) (auto intro!: keeps_intro r split: option.split)
qed

lemma safe_changes2 [keeps_intro]:
  "keeps (world_ok I) (move_files_from_message v host D)" "keeps (world_ok I) (remove_files_from_message v host D)"
  "keeps (world_ok I) (list_directory_contents ins v host D)"
proof -
  show "keeps (world_ok I) (move_files_from_message v host D)" "keeps (world_ok I) (remove_files_from_message v host D)"
    by (auto simp: move_files_from_message_def remove_files_from_message_def intro!: keeps_intro split: option.split)
  show "keeps (world_ok I) (list_directory_contents ins v host D)"
  proof (rule keepsI)
    fix s assume s: "world_ok I s"
    have "keeps I (bd_list_dir D (host_path host rel))" for rel using host_path_inside [of host rel] list_in by metis
    then have "I (snd (bd_list_dir D (host_path host rel) (mb_world s)))" for rel
      using s by (simp add: world_ok_def keepsD)
    with s show "world_ok I (snd (list_directory_contents ins v host D s))"
      by (auto simp: list_directory_contents_def world_ok_def split: option.split prod.split res.split) (metis snd_conv)+
  qed
qed

lemma safe_round [keeps_intro]: "keeps (world_ok I) (dl_round L host D)"
proof -
  have f: "keeps (world_ok I) (dl_finish D tag g r)" for tag g r
    unfolding dl_finish_def by (auto intro!: keeps_intro split: option.split)
  have d: "keeps (world_ok I) (dl_dispatch L host D tag v g)" for tag v g
    unfolding dl_dispatch_def Let_def continue_with_def answer_status_def by (intro keeps_intro)
  show ?thesis unfolding dl_round_def case_prod_beta by (intro keeps_intro f d)
qed

lemma safe_loop: "world_ok I s \<Longrightarrow> world_ok I (snd (dl_loop L host D s))"
proof (induction "mb_pending s" arbitrary: s rule: less_induct)
  case less
  obtain q t where q: "dl_round L host D s = (q, t)" by (rule prod.exhaust)
  have t: "world_ok I t" using keepsD [OF safe_round less(2)] q by (metis snd_conv)
  show ?case
  proof (cases "q = Ok None")
    case True
    with less(1) [OF dl_round_shorter [OF q [unfolded True]] t] q show ?thesis by (subst dl_loop.simps) simp
  next
    case False
    with q t show ?thesis by (subst dl_loop.simps) (auto split: res.split option.split)
  qed
qed

lemma loop_keeps: "I (mb_world s) \<Longrightarrow> I (mb_world (snd (process_dl_loop L host D s)))"
  using safe_loop [of "s\<lparr>mb_tracker := tracker_default\<rparr>" L] by (simp add: process_dl_loop_def world_ok_def)

end

end
