(* ===== verification/Backup_Runs.thy ===== *)
theory Backup_Runs
  imports Backup_Facts
begin

text \<open>
  The local file system as a storage of backups: it keeps what lies outside the backup directory, and it holds, after a
  transfer, the files the device sent. And the progress that is reported.
\<close>

section \<open>The file system keeps what lies outside\<close>

lemma under_append [simp]: "path_under p (p @ xs)"
  by (simp add: path_under_def)

lemma under_trans: "path_under p q \<Longrightarrow> path_under q r \<Longrightarrow> path_under p r"
proof -
  assume a: "path_under p q" "path_under q r"
  then have l: "length p \<le> length q" by (metis length_take min.cobounded1 min.commute path_under_def)
  from a have "take (length p) (take (length q) r) = p" by (simp add: path_under_def)
  with l show "path_under p r" by (simp add: path_under_def min_absorb1)
qed

lemma under_Nil [simp]: "path_under [] q"
  by (simp add: path_under_def)

lemma under_take: "path_under (take n q) q"
  by (cases "n \<le> length q") (simp_all add: path_under_def)

lemma lookup_set [simp]: "fs_lookup (fs_set p n s) q = (if q = p \<and> p \<noteq> [] then Some n else fs_lookup s q)"
  by (auto simp: fs_lookup_def fs_set_def update_conv')

lemma map_of_filter: "map_of (filter (\<lambda>(q, _). P q) m) p = (if P p then map_of m p else None)"
  by (induction m) auto

lemma lookup_prune: "fs_lookup (fs_prune p s) q = (if path_under p q \<and> q \<noteq> [] then None else fs_lookup s q)"
  using map_of_filter [of "\<lambda>q. \<not> path_under p q" "fs_nodes s" q] by (simp add: fs_lookup_def fs_prune_def)

lemma lookup_dirs: "fs_lookup (fold (\<lambda>q. fs_set q DirNode) qs s) p = (if p \<in> set qs \<and> p \<noteq> [] then Some DirNode else fs_lookup s p)"
  by (induction qs arbitrary: s) auto

lemma map_of_none: "(\<And>x. x \<in> set m \<Longrightarrow> fst x \<noteq> p) \<Longrightarrow> map_of m p = None"
  by (induction m) (auto simp: fun_upd_def)

lemma lookup_move:
  assumes "\<not> path_under a p" and "\<not> path_under b p"
  shows "fs_lookup (fs_move a b s) p = fs_lookup s p"
proof -
  have "map_of (map (\<lambda>(q, n). (b @ drop (length a) q, n)) m) p = None" for m :: "(path \<times> fs_node) list"
    using assms(2) by (intro map_of_none) auto
  moreover have "map_of (filter (\<lambda>(q, _). \<not> path_under a q \<and> \<not> path_under b q) (fs_nodes s)) p = map_of (fs_nodes s) p"
    using map_of_filter [of "\<lambda>q. \<not> path_under a q \<and> \<not> path_under b q" "fs_nodes s" p] assms by simp
  ultimately show ?thesis by (simp add: fs_lookup_def fs_move_def map_add_def)
qed

text \<open>
  Outside \<open>host\<close> everything is as in \<open>old\<close>, but for directories above it that were missing.
\<close>

definition outside_same :: "fs \<Rightarrow> path \<Rightarrow> fs \<Rightarrow> bool" where
  "outside_same old host s \<longleftrightarrow>
    (\<forall>p. \<not> path_under host p \<longrightarrow> fs_lookup s p = fs_lookup old p \<or>
      path_under p host \<and> fs_lookup old p = None \<and> fs_lookup s p = Some DirNode)"

lemma outside_sameI:
  assumes "outside_same old host s" and "\<And>p. \<not> path_under host p \<Longrightarrow> fs_lookup t p = fs_lookup s p"
  shows "outside_same old host t"
  using assms unfolding outside_same_def by (metis (no_types, lifting))

lemma prefixes_of_set: "q \<in> set (prefixes_of p) \<Longrightarrow> path_under q p \<and> q \<noteq> []"
  unfolding prefixes_of_def by (auto simp del: upt_Suc intro: under_take)

lemma prefix_split: "path_under q (host @ xs) \<Longrightarrow> \<not> path_under host q \<Longrightarrow> path_under q host"
proof -
  assume a: "path_under q (host @ xs)" "\<not> path_under host q"
  show "path_under q host"
  proof (cases "length q \<le> length host")
    case False
    then have "take (length host) q = host" using a(1) unfolding path_under_def
      by (metis append_eq_conv_conj less_or_eq_imp_le linorder_not_less min.absorb_iff1 take_take)
    with a(2) show ?thesis by (simp add: path_under_def)
  qed (use a(1) in \<open>simp add: path_under_def\<close>)
qed

lemma create_dirs_outside: "keeps (outside_same old host) (fs_create_dir_all (take n (host @ xs)))"
proof (rule keepsI)
  fix s assume s: "outside_same old host s"
  let ?p = "take n (host @ xs)"
  define new where "new = filter (\<lambda>q. fs_lookup s q = None) (prefixes_of ?p)"
  have "outside_same old host (fold (\<lambda>q. fs_set q DirNode) new s)"
    unfolding outside_same_def
  proof (intro allI impI)
    fix p assume p: "\<not> path_under host p"
    show "fs_lookup (fold (\<lambda>q. fs_set q DirNode) new s) p = fs_lookup old p \<or>
      path_under p host \<and> fs_lookup old p = None \<and> fs_lookup (fold (\<lambda>q. fs_set q DirNode) new s) p = Some DirNode"
    proof (cases "p \<in> set new")
      case True
      then have "path_under p ?p" "p \<noteq> []" "fs_lookup s p = None" using prefixes_of_set by (auto simp: new_def)
      moreover from this have "path_under p host" using prefix_split p under_trans under_take by metis
      moreover have "fs_lookup old p = None" using s p \<open>fs_lookup s p = None\<close> by (auto simp: outside_same_def)
      ultimately show ?thesis using True by (simp add: lookup_dirs)
    qed (use s p in \<open>simp add: lookup_dirs outside_same_def\<close>)
  qed
  with s show "outside_same old host (snd (fs_create_dir_all ?p s))"
    by (simp add: fs_create_dir_all_def Let_def new_def)
qed

lemma walk_plain [simp]: "plain p \<Longrightarrow> fs_walk p = p"
proof -
  have "plain p \<Longrightarrow> fold (\<lambda>c q. if c = rstr ''..'' then butlast q else q @ [c]) p r = r @ p" for r
    by (induction p arbitrary: r) (auto simp: plain_def)
  then show "plain p \<Longrightarrow> fs_walk p = p" by (simp add: fs_walk_def)
qed

lemma plain_append [simp]: "plain (p @ q) \<longleftrightarrow> plain p \<and> plain q"
  by (auto simp: plain_def)

lemma plain_take: "plain p \<Longrightarrow> plain (take n p)"
  using set_take_subset by (fastforce simp: plain_def)

lemma plain_host_path [simp]: "plain (host_path host rel) \<longleftrightarrow> plain host"
  using host_path_inside [of host rel] by auto

text \<open>The backup directory itself is named without \<open>..\<close>.\<close>

definition spared :: "fs \<Rightarrow> path \<Rightarrow> fs \<Rightarrow> bool" where
  "spared old host s \<longleftrightarrow> (plain host \<longrightarrow> outside_same old host s)"

lemma spared_keeps: "(plain host \<Longrightarrow> keeps (outside_same old host) m) \<Longrightarrow> keeps (spared old host) m"
  by (rule keepsI) (simp add: spared_def keepsD)

interpretation fs_store: confined_store fs_delegate host "spared old host" for host old
proof unfold_locales
  have app: "q \<noteq> host @ xs" if "\<not> path_under host q" for q xs using that by auto
  have below: "\<not> path_under (host @ xs) q" if "\<not> path_under host q" for q xs using that under_trans by (metis under_append)
  fix xs ys n
  assume x [simp]: "plain xs"
  show "keeps (spared old host) (bd_remove fs_delegate (host @ xs))"
    by (rule spared_keeps, rule keepsI, erule outside_sameI)
      (simp add: fs_delegate_def fs_remove_def lookup_prune below split: option.split)
  show "keeps (spared old host) (bd_create_write fs_delegate (host @ xs))"
    by (rule spared_keeps, rule keepsI, erule outside_sameI) (simp add: fs_delegate_def fs_create_write_def app)
  show "keeps (spared old host) (bd_create_dir_all fs_delegate (take n (host @ xs)))"
    by (rule spared_keeps) (use create_dirs_outside [of old host n xs] in \<open>simp add: fs_delegate_def plain_take del: take_append\<close>)
  show "keeps (spared old host) (bd_open_read fs_delegate (host @ xs))"
    by (rule spared_keeps, rule keepsI, erule outside_sameI)
      (simp add: fs_delegate_def fs_open_read_def split: option.split fs_node.split)
  show "keeps (spared old host) (bd_list_dir fs_delegate (host @ xs))"
    by (rule spared_keeps, rule keepsI, erule outside_sameI) (simp add: fs_delegate_def fs_list_dir_def)
  show "spared old host (snd (bd_write fs_delegate (host @ xs) bs w))" if "spared old host w" for w bs
  proof (cases "plain host")
    case True
    with that have "outside_same old host w" by (simp add: spared_def)
    then have "outside_same old host (snd (bd_write fs_delegate (host @ xs) bs w))"
      by (rule outside_sameI) (simp add: True fs_delegate_def fs_write_def app split: option.split fs_node.split)
    then show ?thesis by (simp add: spared_def)
  qed (simp add: spared_def)
  assume y [simp]: "plain ys"
  show "keeps (spared old host) (bd_rename fs_delegate (host @ xs) (host @ ys))"
    by (rule spared_keeps, rule keepsI, erule outside_sameI) (simp add: fs_delegate_def fs_rename_def lookup_move below)
  have d: "keeps (outside_same old host) (fs_create_dir_all (host @ ys))"
    using create_dirs_outside [of old host "length (host @ ys)" ys] by simp
  show "keeps (spared old host) (bd_copy fs_delegate (host @ xs) (host @ ys))"
  proof (rule spared_keeps, rule keepsI)
    fix s assume h: "plain host" and s: "outside_same old host s"
    show "outside_same old host (snd (bd_copy fs_delegate (host @ xs) (host @ ys) s))"
    proof (cases "fs_is_dir (host @ xs) s")
      case True
      with h keepsD [OF d s] show ?thesis by (simp add: fs_delegate_def fs_copy_def)
    next
      case False
      show ?thesis
        by (rule outside_sameI [OF s])
          (simp add: h False fs_delegate_def fs_copy_def app split: option.split fs_node.split)
    qed
  qed
qed (simp_all add: fs_delegate_def)

text \<open>
  C25. Whatever a device sends during a backup or a restore, nothing outside the backup directory changes on the local file
  system, but for missing directories above it, which may be made. (The backup directory is given without \<open>..\<close>.)
\<close>

theorem backup_stays_inside:
  "case process_dl_loop L host fs_delegate s of
     (_, t) \<Rightarrow>
       if rstr ''..'' \<in> set host then True
       else if path_under host p then True
       else fs_lookup (mb_world t) p = fs_lookup (mb_world s) p \<or>
         path_under p host \<and> fs_lookup (mb_world s) p = None \<and> fs_lookup (mb_world t) p = Some DirNode"
proof -
  have "spared (mb_world s) host (mb_world s)" by (simp add: spared_def outside_same_def)
  from fs_store.loop_keeps [OF this, of L] show ?thesis unfolding spared_def plain_def outside_same_def by (simp add: case_prod_beta)
qed

text \<open>
  Inside there is no such limit: a request to remove \<open>..\<close> removes the whole backup directory, of all devices.
\<close>

lemma dots_remove_everything:
  assumes "fs_lookup (mb_world s) host \<noteq> None" and "host \<notin> set (fs_deny (mb_world s))" and "plain host"
  shows "\<exists>t. remove_files_from_message (PArray [tag, PArray [PString (rstr ''..'')]]) host fs_delegate s = (Ok 0, t) \<and>
    (\<forall>q. path_under host q \<and> q \<noteq> [] \<longrightarrow> fs_lookup (mb_world t) q = None)"
proof -
  have "remove_files_from_message (PArray [tag, PArray [PString (rstr ''..'')]]) host fs_delegate s =
      (Ok 0, s\<lparr>mb_world := fs_prune host (mb_world s)\<rparr>)"
    using assms
    by (auto simp: remove_files_from_message_def message_item_def get_at_def plist_as_array_def plist_as_string_def
        host_path_dots(1) [simplified] fs_delegate_def ask_store_def act_bind_def succeeds_def fs_remove_def split: option.split)
  then show ?thesis by (simp add: lookup_prune)
qed

section \<open>Progress\<close>

text \<open>The overall progress never goes back, whatever numbers the device sends, infinite ones included.\<close>

lemma snapshot_grows:
  assumes "pt_last_progress t \<noteq> NaN" and "snapshot n pos target t = (p, u)"
  shows "f64_le (pt_last_progress t) (pt_last_progress u) \<and> pt_last_progress u \<noteq> NaN \<and>
    bp_overall p = (if f64_less (Fin 0) (pt_last_progress u) then pt_last_progress u else Fin (- 1))"
  using assms f64_max_ge by (auto simp: snapshot_def Let_def tracker_overall_def)

section \<open>The files of a batch\<close>

text \<open>What the device sends for a file: the names, the blocks, and the mark of success.\<close>

definition block_bytes :: "byte list \<Rightarrow> byte list" where
  "block_bytes b = be32 (length b + 1) @ [DL_CODE_FILE_DATA] @ b"

definition file_tail :: "byte list list \<Rightarrow> byte list" where
  "file_tail bs = concat (map block_bytes bs) @ be32 1 @ [DL_CODE_SUCCESS]"

definition file_wire :: "rstring \<times> rstring \<times> byte list list \<Rightarrow> byte list" where
  "file_wire f = (case f of (dname, fname, bs) \<Rightarrow>
    be32 (length dname) @ dname @ be32 (length fname) @ fname @ file_tail bs)"

definition wire_ok :: "rstring \<times> rstring \<times> byte list list \<Rightarrow> bool" where
  "wire_ok f = (case f of (dname, fname, bs) \<Rightarrow>
    0 < length dname \<and> length dname < 2 ^ 32 \<and> 0 < length fname \<and> length fname < 2 ^ 32 \<and> utf8_valid fname \<and>
    list_all (\<lambda>b. length b + 1 < 2 ^ 32) bs)"

text \<open>The system refuses nothing, the coming bytes are \<open>bs\<close>, and the files are \<open>m\<close>.\<close>

definition mb_st :: "fs backup \<Rightarrow> byte list \<Rightarrow> (path \<Rightarrow> fs_node option) \<Rightarrow> bool" where
  "mb_st s bs m \<longleftrightarrow> (\<exists>t. dv_socket (mb_dev s) = Some t \<and> arrives bs t) \<and> fs_lookup (mb_world s) = m \<and>
    \<not> fs_full (mb_world s) \<and> fs_deny (mb_world s) = []"

lemma mb_read:
  assumes "mb_st s (x @ r) m" and "length x = n"
  shows "\<exists>u. on_mb (read_raw n) s = (Ok x, u) \<and> mb_st u r m"
proof -
  from assms(1) obtain t where t: "dv_socket (mb_dev s) = Some t" "arrives (x @ r) t" by (auto simp: mb_st_def)
  from tp_read_exact_arrives [OF t(2)] assms(2) obtain v where "tp_read_exact n t = (Ok x, v)" "arrives r v" by auto
  with t(1) assms(1) show ?thesis by (auto simp: on_mb_def read_raw_def on_socket_def mb_st_def)
qed

lemma mb_read_number:
  assumes "mb_st s (be32 k @ r) m" and "k < 2 ^ 32"
  shows "\<exists>u. read_be_u32 s = (Ok k, u) \<and> mb_st u r m"
proof -
  from mb_read [OF assms(1), of 4] obtain u where "on_mb (read_raw 4) s = (Ok (be32 k), u)" "mb_st u r m"
    by (auto simp: be32_def)
  with assms(2) show ?thesis by (simp add: read_be_u32_def be32_def unat_of_nat_u32 [simplified])
qed

lemma mb_read_one: "mb_st s (b # r) m \<Longrightarrow> \<exists>u. read_one s = (Ok b, u) \<and> mb_st u r m"
  using mb_read [of s "[b]" r m 1] by (auto simp: read_one_def)

lemma mb_read_string:
  assumes "mb_st s (x @ r) m" and "length x = n"
  shows "\<exists>u. read_exact_string n s = (Ok (utf8_lossy x), u) \<and> mb_st u r m"
  using mb_read [OF assms] by (auto simp: read_exact_string_def)

lemma mb_emit: "mb_st s r m \<Longrightarrow> \<exists>u. maybe_emit fs_delegate n pos g s = (Ok (), u) \<and> mb_st u r m"
  by (auto simp: maybe_emit_def emit_progress_def take_snapshot_def notify_progress_def act_bind_def act_upd_def fs_delegate_def mb_st_def
      split: prod.split)

lemma mb_store:
  assumes "mb_st s r m" and "m dst = Some (FileNode old)" and "dst \<noteq> []" and "plain dst"
  shows "\<exists>u. store_block fs_delegate dst b s = (Ok (), u) \<and> mb_st u r (m(dst \<mapsto> FileNode (old @ b)))"
proof -
  let ?w = "fs_set dst (FileNode (old @ b)) (mb_world s)"
  have "store_block fs_delegate dst b s = (Ok (), s\<lparr>mb_world := ?w\<rparr>)"
    using assms by (auto simp: store_block_def on_store_def act_bind_def fs_delegate_def fs_write_def mb_st_def)
  moreover have "fs_lookup ?w = m(dst \<mapsto> FileNode (old @ b))"
    using assms by (auto simp: mb_st_def fun_eq_iff)
  ultimately show ?thesis using assms(1) by (auto simp: mb_st_def fs_set_def)
qed

lemma recv_blocks_stop: "code \<noteq> DL_CODE_FILE_DATA \<Longrightarrow> recv_blocks D dst b g nlen code n s = (Ok (nlen, code, n), s)"
  by (subst recv_blocks.simps) simp

lemma codes_differ [simp]: "DL_CODE_SUCCESS \<noteq> DL_CODE_FILE_DATA" "DL_CODE_FILE_DATA \<noteq> DL_CODE_SUCCESS"
  by (simp_all add: DL_CODE_SUCCESS_def DL_CODE_FILE_DATA_def)

lemma mb_blocks:
  "mb_st s (b @ file_tail bs @ r) m \<Longrightarrow> m dst = Some (FileNode old) \<Longrightarrow> dst \<noteq> [] \<Longrightarrow> plain dst \<Longrightarrow>
   list_all (\<lambda>b. length b + 1 < 2 ^ 32) bs \<Longrightarrow>
   \<exists>u. recv_blocks fs_delegate dst tot g (length b + 1) DL_CODE_FILE_DATA n s =
     (Ok (1, DL_CODE_SUCCESS, n + of_nat (length (concat (b # bs)))), u) \<and>
     mb_st u r (m(dst \<mapsto> FileNode (old @ concat (b # bs))))"
proof (induction bs arbitrary: b s m old n)
  case Nil
  from mb_read [OF Nil(1), of "length b"] obtain s1 where
    1: "on_mb (read_raw (length b)) s = (Ok b, s1)" "mb_st s1 (be32 1 @ [DL_CODE_SUCCESS] @ r) m" by (auto simp: file_tail_def)
  from mb_store [OF 1(2) Nil(2,3,4)] obtain s2 where
    2: "store_block fs_delegate dst b s1 = (Ok (), s2)" "mb_st s2 (be32 1 @ [DL_CODE_SUCCESS] @ r) (m(dst \<mapsto> FileNode (old @ b)))" by blast
  from mb_emit [OF 2(2)] obtain s3 where
    3: "maybe_emit fs_delegate (n + of_nat (length b)) (PosBytes (n + of_nat (length b)) tot) g s2 = (Ok (), s3)"
      "mb_st s3 (be32 1 @ [DL_CODE_SUCCESS] @ r) (m(dst \<mapsto> FileNode (old @ b)))" by blast
  from mb_read_number [OF 3(2)] obtain s4 where
    4: "read_be_u32 s3 = (Ok 1, s4)" "mb_st s4 (DL_CODE_SUCCESS # r) (m(dst \<mapsto> FileNode (old @ b)))" by auto
  from mb_read_one [OF 4(2)] obtain s5 where
    5: "read_one s4 = (Ok DL_CODE_SUCCESS, s5)" "mb_st s5 r (m(dst \<mapsto> FileNode (old @ b)))" by blast
  have "block_round fs_delegate dst tot g (length b + 1) n s = (Ok (1, DL_CODE_SUCCESS, n + of_nat (length b)), s5)"
    using 1(1) 2(1) 3(1) 4(1) 5(1) by (simp add: block_round_def Let_def)
  then show ?case using 5(2)
    by (subst recv_blocks.simps) (simp add: recv_blocks_stop)
next
  case (Cons c bs)
  let ?rest = "be32 (length c + 1) @ [DL_CODE_FILE_DATA] @ c @ file_tail bs @ r" and ?m = "m(dst \<mapsto> FileNode (old @ b))"
  have "mb_st s (b @ ?rest) m" using Cons.prems(1) by (simp add: file_tail_def block_bytes_def)
  from mb_read [OF this, of "length b"] obtain s1 where
    1: "on_mb (read_raw (length b)) s = (Ok b, s1)" "mb_st s1 ?rest m" by auto
  from mb_store [OF 1(2) Cons.prems(2,3,4)] obtain s2 where
    2: "store_block fs_delegate dst b s1 = (Ok (), s2)" "mb_st s2 ?rest ?m" by blast
  from mb_emit [OF 2(2)] obtain s3 where
    3: "maybe_emit fs_delegate (n + of_nat (length b)) (PosBytes (n + of_nat (length b)) tot) g s2 = (Ok (), s3)"
      "mb_st s3 ?rest ?m" by blast
  from mb_read_number [OF 3(2)] Cons.prems(5) obtain s4 where
    4: "read_be_u32 s3 = (Ok (length c + 1), s4)" "mb_st s4 (DL_CODE_FILE_DATA # c @ file_tail bs @ r) ?m" by auto
  from mb_read_one [OF 4(2)] obtain s5 where
    5: "read_one s4 = (Ok DL_CODE_FILE_DATA, s5)" "mb_st s5 (c @ file_tail bs @ r) ?m" by blast
  have r: "block_round fs_delegate dst tot g (length b + 1) n s = (Ok (length c + 1, DL_CODE_FILE_DATA, n + of_nat (length b)), s5)"
    using 1(1) 2(1) 3(1) 4(1) 5(1) by (simp add: block_round_def Let_def)
  have d: "?m dst = Some (FileNode (old @ b))" and l: "list_all (\<lambda>b. length b + 1 < 2 ^ 32) bs" using Cons.prems(5) by simp_all
  from Cons.IH [OF 5(2) d Cons.prems(3,4) l, of "n + of_nat (length b)"] obtain u where
    u: "recv_blocks fs_delegate dst tot g (length c + 1) DL_CODE_FILE_DATA (n + of_nat (length b)) s5 =
        (Ok (1, DL_CODE_SUCCESS, n + of_nat (length b) + of_nat (length (concat (c # bs)))), u)"
      "mb_st u r (?m(dst \<mapsto> FileNode ((old @ b) @ concat (c # bs))))" by blast
  from r u show ?case by (subst recv_blocks.simps) (simp add: algebra_simps)
qed

text \<open>Only directories have entries.\<close>

definition fs_tree :: "(path \<Rightarrow> fs_node option) \<Rightarrow> bool" where
  "fs_tree m \<longleftrightarrow> m [] = Some DirNode \<and> (\<forall>p x. m (p @ [x]) \<noteq> None \<longrightarrow> m p = Some DirNode)"

lemma tree_below: "fs_tree m \<Longrightarrow> m p \<noteq> Some DirNode \<Longrightarrow> xs \<noteq> [] \<Longrightarrow> m (p @ xs) = None"
proof (induction xs rule: rev_induct)
  case (snoc x xs)
  show ?case
  proof (cases "xs = []")
    case True
    with snoc.prems(1,2) show ?thesis unfolding fs_tree_def by (metis append_Nil)
  next
    case False
    with snoc have "m (p @ xs) = None" by simp
    then have "m ((p @ xs) @ [x]) = None" using snoc.prems(1) unfolding fs_tree_def by (metis option.distinct(1))
    then show ?thesis by simp
  qed
qed simp

lemma tree_above: "fs_tree m \<Longrightarrow> m p = Some DirNode \<Longrightarrow> path_under q p \<Longrightarrow> m q = Some DirNode"
  using tree_below [of m q] by (metis append_Nil2 append_take_drop_id option.distinct(1) path_under_def)

lemma tree_put:
  assumes "fs_tree m" and "p \<noteq> []" and "m (butlast p) = Some DirNode" and "m p \<noteq> Some DirNode"
  shows "fs_tree (m(p \<mapsto> FileNode bs))"
  unfolding fs_tree_def
proof (intro conjI allI impI)
  fix q x
  assume a: "(m(p \<mapsto> FileNode bs)) (q @ [x]) \<noteq> None"
  have "m q = Some DirNode"
  proof (cases "q @ [x] = p")
    case True
    with assms(3) show ?thesis by auto
  next
    case False
    with a assms(1) show ?thesis unfolding fs_tree_def by auto
  qed
  with assms(4) show "(m(p \<mapsto> FileNode bs)) q = Some DirNode" by auto
qed (use assms in \<open>auto simp: fs_tree_def\<close>)

definition ready :: "path \<Rightarrow> (path \<Rightarrow> fs_node option) \<Rightarrow> rstring \<times> rstring \<times> byte list list \<Rightarrow> bool" where
  "ready host m f \<longleftrightarrow>
    (let dst = host_path host (fst (snd f)) in dst \<noteq> [] \<and> plain dst \<and> m (butlast dst) = Some DirNode \<and> m dst \<noteq> Some DirNode)"

definition put_file :: "path \<Rightarrow> rstring \<times> rstring \<times> byte list list \<Rightarrow> (path \<Rightarrow> fs_node option) \<Rightarrow> path \<Rightarrow> fs_node option" where
  "put_file host f m = m(host_path host (fst (snd f)) \<mapsto> FileNode (concat (snd (snd f))))"

lemma ready_put: "ready host m f \<Longrightarrow> ready host m f' \<Longrightarrow> ready host (put_file host f m) f'"
  by (auto simp: ready_def put_file_def Let_def)

lemma mb_parent:
  assumes "mb_st s r m" and "fs_tree m" and "dst \<noteq> []" and "m (butlast dst) = Some DirNode" and "plain dst"
  shows "\<exists>u. make_parent fs_delegate dst s = (Ok (), u) \<and> mb_st u r m"
proof -
  have "m q = Some DirNode" if "q \<in> set (prefixes_of (butlast dst))" for q
    using prefixes_of_set [OF that] tree_above [OF assms(2,4)] by simp
  then have "fs_create_dir_all (butlast dst) (mb_world s) = (Ok (), mb_world s)"
    using assms(1) by (auto simp: fs_create_dir_all_def mb_st_def fs_is_dir_def list_all_iff filter_empty_conv Let_def)
  then have "make_parent fs_delegate dst s = (Ok (), s)"
    using assms(3) plain_take [OF assms(5)] by (simp add: butlast_conv_take make_parent_def path_parent_def succeeds_def act_bind_def fs_delegate_def)
  with assms(1) show ?thesis by blast
qed

lemma mb_create:
  assumes "mb_st s r m" and "fs_tree m" and "dst \<noteq> []" and "m (butlast dst) = Some DirNode" and "m dst \<noteq> Some DirNode" and "plain dst"
  shows "\<exists>ok u v. succeeds (bd_remove fs_delegate dst) s = (Ok ok, u) \<and> on_store (bd_create_write fs_delegate dst) u = (Ok (), v) \<and>
    mb_st v r (m(dst \<mapsto> FileNode []))"
proof -
  define w where "w = (if m dst = None then mb_world s else fs_prune dst (mb_world s))"
  have l: "fs_lookup w = m(dst := None)"
  proof
    fix q
    show "fs_lookup w q = (m(dst := None)) q"
    proof (cases "path_under dst q \<and> q \<noteq> dst")
      case True
      then obtain xs where "q = dst @ xs" "xs \<noteq> []" by (metis append_Nil2 append_take_drop_id path_under_def)
      with tree_below [OF assms(2,5)] assms(1,3) True show ?thesis by (auto simp: w_def lookup_prune mb_st_def)
    qed (use assms(1,3) in \<open>auto simp: w_def lookup_prune mb_st_def path_under_def\<close>)
  qed
  have d: "fs_deny w = []" "\<not> fs_full w" using assms(1) by (auto simp: w_def mb_st_def fs_prune_def)
  have b: "butlast dst \<noteq> dst" using assms(4,5) by auto
  have "\<exists>ok. succeeds (bd_remove fs_delegate dst) s = (Ok ok, s\<lparr>mb_world := w\<rparr>)"
    using assms(1,6) by (auto simp: succeeds_def fs_delegate_def fs_remove_def w_def mb_st_def split: option.split)
  moreover have "on_store (bd_create_write fs_delegate dst) (s\<lparr>mb_world := w\<rparr>) = (Ok (), s\<lparr>mb_world := fs_set dst (FileNode []) w\<rparr>)"
    using l d assms(3,4,6) b by (simp add: on_store_def fs_delegate_def fs_create_write_def fs_may_put_def fs_is_dir_def)
  moreover have "mb_st (s\<lparr>mb_world := fs_set dst (FileNode []) w\<rparr>) r (m(dst \<mapsto> FileNode []))"
    using assms(1,3) l d by (auto simp: mb_st_def fun_eq_iff) (simp_all add: fs_set_def)
  ultimately show ?thesis by blast
qed

lemma mb_file:
  assumes "mb_st s (file_wire f @ r) m" and "fs_tree m" and "wire_ok f" and "ready host m f"
  shows "\<exists>u. upload_round fs_delegate host tot g c n s =
      (Ok (Some (c + 1, n + of_nat (length (concat (snd (snd f)))))), u) \<and> mb_st u r (put_file host f m)"
proof -
  obtain dname fname bs where f: "f = (dname, fname, bs)" by (cases f) auto
  let ?dst = "host_path host fname"
  note ok = assms(3) [unfolded wire_ok_def f prod.case]
  note rdy = assms(4) [unfolded ready_def Let_def f fst_conv snd_conv]
  from assms(1) have "mb_st s (be32 (length dname) @ dname @ be32 (length fname) @ fname @ file_tail bs @ r) m"
    by (simp add: file_wire_def f)
  from mb_read_number [OF this] ok obtain s1 where 1: "read_be_u32 s = (Ok (length dname), s1)"
    "mb_st s1 (dname @ be32 (length fname) @ fname @ file_tail bs @ r) m" by blast
  from mb_read_string [OF 1(2) refl] obtain s2 where 2: "read_exact_string (length dname) s1 = (Ok (utf8_lossy dname), s2)"
    "mb_st s2 (be32 (length fname) @ fname @ file_tail bs @ r) m" by blast
  from mb_read_number [OF 2(2)] ok obtain s3 where 3: "read_be_u32 s2 = (Ok (length fname), s3)"
    "mb_st s3 (fname @ file_tail bs @ r) m" by blast
  from mb_read_string [OF 3(2) refl] ok obtain s4 where 4: "read_exact_string (length fname) s3 = (Ok fname, s4)"
    "mb_st s4 (file_tail bs @ r) m" by (auto simp: utf8_lossy_valid_id)
  from mb_parent [OF 4(2) assms(2)] rdy obtain s5 where 5: "make_parent fs_delegate ?dst s4 = (Ok (), s5)"
    "mb_st s5 (file_tail bs @ r) m" by blast
  define k where "k = (case bs of [] \<Rightarrow> 1 | b # _ \<Rightarrow> length b + 1)"
  define code where "code = (case bs of [] \<Rightarrow> DL_CODE_SUCCESS | _ \<Rightarrow> DL_CODE_FILE_DATA)"
  define body where "body = (case bs of [] \<Rightarrow> [] | b # bs' \<Rightarrow> b @ file_tail bs')"
  have tail: "file_tail bs = be32 k @ code # body" "0 < k" "k < 2 ^ 32"
    using ok by (auto simp: k_def code_def body_def file_tail_def block_bytes_def split: list.splits)
  from mb_read_number [of s5 k "code # body @ r" m] 5(2) tail obtain s6 where 6: "read_be_u32 s5 = (Ok k, s6)"
    "mb_st s6 (code # body @ r) m" by auto
  from mb_read_one [OF 6(2)] obtain s7 where 7: "read_one s6 = (Ok code, s7)" "mb_st s7 (body @ r) m" by blast
  from mb_create [OF 7(2) assms(2)] rdy obtain ok8 s8 s9 where
    8: "succeeds (bd_remove fs_delegate ?dst) s7 = (Ok ok8, s8)" "on_store (bd_create_write fs_delegate ?dst) s8 = (Ok (), s9)"
      "mb_st s9 (body @ r) (m(?dst \<mapsto> FileNode []))" by blast
  have "\<exists>u. recv_blocks fs_delegate ?dst tot g k code n s9 = (Ok (1, DL_CODE_SUCCESS, n + of_nat (length (concat bs))), u) \<and>
      mb_st u r (m(?dst \<mapsto> FileNode (concat bs)))"
  proof (cases bs)
    case Nil
    with 8(3) show ?thesis by (simp add: k_def code_def body_def recv_blocks_stop)
  next
    case (Cons b bs')
    with 8(3) have "mb_st s9 (b @ file_tail bs' @ r) (m(?dst \<mapsto> FileNode []))" by (simp add: body_def)
    from mb_blocks [OF this, of ?dst "[]"] ok rdy Cons show ?thesis by (auto simp: k_def code_def)
  qed
  then obtain u where u: "recv_blocks fs_delegate ?dst tot g k code n s9 = (Ok (1, DL_CODE_SUCCESS, n + of_nat (length (concat bs))), u)"
    "mb_st u r (m(?dst \<mapsto> FileNode (concat bs)))" by blast
  have "receive_file fs_delegate host tot g fname ?dst k c n s6 = (Ok (c + 1, n + of_nat (length (concat bs))), u)"
    using 7(1) 8(1,2) u(1) by (simp add: receive_file_def act_upd_def act_bind_def fs_delegate_def)
  with 1(1) 2(1) 3(1) 4(1) 5(1) 6(1) tail(2) ok have
    "upload_round fs_delegate host tot g c n s = (Ok (Some (c + 1, n + of_nat (length (concat bs)))), u)"
    by (simp add: upload_round_def)
  with u(2) show ?thesis by (simp add: f put_file_def)
qed

text \<open>
  C38. A batch of files arrives as it was sent: with the parent directories in place and a file system that refuses nothing, the loop
  reads exactly the batch, however its bytes arrive, counts its files and bytes, and each file holds its blocks in order (a later
  file of the same name replacing an earlier one); everything else is as before.
\<close>

theorem backup_batch_arrives:
  assumes "mb_st s (concat (map file_wire fs) @ be32 0 @ rest) m" and "fs_tree m" and "list_all wire_ok fs"
    and "list_all (ready host m) fs"
  shows "\<exists>u. upload_loop fs_delegate host tot g c n s =
      (Ok (c + of_nat (length fs), n + of_nat (length (concat (map (\<lambda>f. concat (snd (snd f))) fs)))), u) \<and>
    mb_st u rest (fold (put_file host) fs m)"
  using assms
proof (induction fs arbitrary: s m c n)
  case Nil
  from mb_read_number [of s 0 rest m] Nil(1) obtain u where u: "read_be_u32 s = (Ok 0, u)" "mb_st u rest m" by auto
  then have "upload_round fs_delegate host tot g c n s = (Ok None, u)" by (simp add: upload_round_def)
  with u(2) show ?case by (subst upload_loop.simps) simp
next
  case (Cons f fs)
  from Cons.prems(1) have "mb_st s (file_wire f @ concat (map file_wire fs) @ be32 0 @ rest) m" by simp
  from mb_file [OF this Cons.prems(2)] Cons.prems(3,4) obtain v where
    v: "upload_round fs_delegate host tot g c n s = (Ok (Some (c + 1, n + of_nat (length (concat (snd (snd f)))))), v)"
      "mb_st v (concat (map file_wire fs) @ be32 0 @ rest) (put_file host f m)" by fastforce
  have r: "ready host m f" using Cons.prems(4) by simp
  have t: "fs_tree (put_file host f m)"
    using r tree_put [OF Cons.prems(2)] by (simp add: ready_def put_file_def Let_def)
  have "list_all (ready host (put_file host f m)) fs" using Cons.prems(4) ready_put [OF r] by (auto simp: list_all_iff)
  from Cons.IH [OF v(2) t _ this] Cons.prems(3) obtain u where
    "upload_loop fs_delegate host tot g (c + 1) (n + of_nat (length (concat (snd (snd f))))) v =
      (Ok (c + 1 + of_nat (length fs), n + of_nat (length (concat (snd (snd f)))) + of_nat (length (concat (map (\<lambda>f. concat (snd (snd f))) fs)))), u)"
    "mb_st u rest (fold (put_file host) fs (put_file host f m))" by auto
  with v(1) show ?case by (subst upload_loop.simps) (simp add: algebra_simps)
qed

definition demo_batch :: "(rstring \<times> rstring \<times> byte list list) list" where
  "demo_batch = [([100], [102], [[1, 2], [3]])]"

definition demo_tree :: "path \<Rightarrow> fs_node option" where
  "demo_tree = [[] \<mapsto> DirNode, [[98]] \<mapsto> DirNode]"

definition demo_backup :: "fs backup" where
  "demo_backup =
    \<lparr>mb_dev = \<lparr>dv_socket = Some \<lparr>tp_in = [concat (map file_wire demo_batch) @ be32 0], tp_out = [], tp_budget = None\<rparr>,
        dv_label = [], dv_udid = None\<rparr>,
      mb_version = 0, mb_tracker = tracker_default,
      mb_world = \<lparr>fs_nodes = [([[98]], DirNode)], fs_deny = [], fs_full = False, fs_avail = \<lambda>_. None, fs_mtime = \<lambda>_. None\<rparr>\<rparr>"

lemma demo_st: "mb_st demo_backup (concat (map file_wire demo_batch) @ be32 0 @ []) demo_tree"
  by (auto simp: mb_st_def demo_backup_def demo_tree_def arrives_def tp_pending_def fs_lookup_def fun_eq_iff be32_def demo_batch_def file_wire_def)

lemma demo_fs_tree: "fs_tree demo_tree"
  by (auto simp: fs_tree_def demo_tree_def)

lemma demo_ready: "list_all wire_ok demo_batch \<and> list_all (ready [[98]] demo_tree) demo_batch"
  by (simp add: demo_batch_def wire_ok_def ready_def demo_tree_def plain_def utf8_valid_all_ascii host_path_def path_components_def Let_def)

theorem backup_batch_arrives_witness:
  "\<exists>u. upload_loop fs_delegate [[98]] 0 None 0 0 demo_backup = (Ok (1, 3), u) \<and>
    mb_st u [] (fold (put_file [[98]]) demo_batch demo_tree)"
  using backup_batch_arrives [OF demo_st demo_fs_tree demo_ready [THEN conjunct1] demo_ready [THEN conjunct2], of 0 None 0 0]
  by (simp add: demo_batch_def)

end
