(* ===== verification/Core_Device.thy ===== *)
theory Core_Device
  imports Xpc_Client Lockdown_Services
begin

text \<open>
  services/core\_device/mod.rs: features and actions of a CoreDevice service, invoked with one XPC request each, and the
  features that push their elements over a side channel until they say they are done. The map types of the two
  dictionary crates, fresh UUIDs and the \<open>Debug\<close> text of a value are parameters.
\<close>

record core_lib =
  cl_ins :: dict_insert
  cl_to_pl :: "xpc_object \<Rightarrow> plist_value"
  cl_uuid :: "nat \<Rightarrow> byte list"
  cl_uuid_str :: "byte list \<Rightarrow> rstring"
  cl_debug :: "plist_value \<Rightarrow> rstring"

definition core_err :: "core_device_error \<Rightarrow> ('s, 'a) act" where
  "core_err e = act_err (CoreDevice e)"

definition core_field :: "string \<Rightarrow> 'a option \<Rightarrow> ('a, idevice_error) res" where
  "core_field name x = ok_or (CoreDevice (CoreMissingField name)) x"

definition CORE_SERVICE_VERSION :: rstring where "CORE_SERVICE_VERSION = rstr ''629.3''"

text \<open>\<open>CoreDeviceServiceClient::new\<close>: the client is its RemoteXPC connection.\<close>

definition xpc_connected :: "transport \<Rightarrow> (xpc_client, idevice_error) res" where
  "xpc_connected socket =
    rbind (xpc_client_new socket) (\<lambda>client.
      case do_handshake client of (r, client) \<Rightarrow> rmap (\<lambda>_. client) r)"

section \<open>Requests\<close>

fun split_on :: "byte \<Rightarrow> byte list \<Rightarrow> byte list list" where
  "split_on c [] = [[]]"
| "split_on c (b # bs) = (if b = c then [] # split_on c bs else (b # hd (split_on c bs)) # tl (split_on c bs))"

definition create_xpc_version_from_string :: "core_lib \<Rightarrow> rstring \<Rightarrow> xpc_object" where
  "create_xpc_version_from_string cl version =
    (let collected_version = map (\<lambda>n. XUInt64 (of_nat n)) (List.map_filter (parse_unsigned 64) (split_on 0x2E version))
     in xpc_literal (cl_ins cl)
       [(''originalComponentsCount'', XInt64 (of_nat (length collected_version))), (''components'', XArray collected_version),
        (''stringValue'', XString version)])"

definition invocation :: "core_lib \<Rightarrow> i64 \<Rightarrow> rstring option \<Rightarrow> xpc_object \<Rightarrow> rstring option \<Rightarrow> xpc_object" where
  "invocation cl protocol_version feature input action_identifier =
    xpc_literal (cl_ins cl)
      ([(''CoreDevice.CoreDeviceDDIProtocolVersion'', XInt64 protocol_version), (''CoreDevice.action'', XDictionary []),
        (''CoreDevice.coreDeviceVersion'', create_xpc_version_from_string cl CORE_SERVICE_VERSION),
        (''CoreDevice.deviceIdentifier'', XString (cl_uuid_str cl (cl_uuid cl 1)))] @
       (case feature of Some f \<Rightarrow> [(''CoreDevice.featureIdentifier'', XString f)] | None \<Rightarrow> []) @
       [(''CoreDevice.input'', input), (''CoreDevice.invocationIdentifier'', XString (cl_uuid_str cl (cl_uuid cl 2)))] @
       (case action_identifier of Some a \<Rightarrow> [(''CoreDevice.actionIdentifier'', XString a)] | None \<Rightarrow> []))"

text \<open>The answer: its output, or the error the device put in its place.\<close>

definition invocation_output :: "core_lib \<Rightarrow> plist_value \<Rightarrow> (plist_value, idevice_error) res" where
  "invocation_output cl res =
    (case res of
       PDictionary d \<Rightarrow>
         (case dict_get d ''CoreDevice.output'' of
            Some r \<Rightarrow> Ok r
          | None \<Rightarrow>
              (case dict_get d ''CoreDevice.error'' of
                 Some e \<Rightarrow> Err (CoreDevice (DeviceError (cl_debug cl e)))
               | None \<Rightarrow> Err (CoreDevice (CoreMissingField ''CoreDevice.output''))))
     | _ \<Rightarrow> Err (CoreDevice (MalformedField ''(root)'')))"

definition invoke_inner :: "core_lib \<Rightarrow> rstring option \<Rightarrow> xpc_object option \<Rightarrow> rstring option \<Rightarrow> (xpc_client, plist_value) act" where
  "invoke_inner cl feature input action_identifier =
    (let input = (case input of Some i \<Rightarrow> i | None \<Rightarrow> XDictionary []);
         protocol_version = (if action_identifier \<noteq> None then 2 else 0)
     in act_bind (send_object (invocation cl protocol_version feature input action_identifier) True) (\<lambda>_.
        act_bind (recv (cl_ins cl) (cl_to_pl cl)) (\<lambda>res.
        act_res (invocation_output cl res))))"

definition invoke :: "core_lib \<Rightarrow> string \<Rightarrow> xpc_object option \<Rightarrow> (xpc_client, plist_value) act" where
  "invoke cl feature input = invoke_inner cl (Some (rstr feature)) input None"

text \<open>The conversion of the input is not total; it comes before anything is sent.\<close>

definition invoke_with_plist :: "core_lib \<Rightarrow> string \<Rightarrow> plist_value \<Rightarrow> (xpc_client, plist_value) act" where
  "invoke_with_plist cl feature input =
    act_bind (act_res (from_plist (cl_ins cl) input)) (\<lambda>input. invoke cl feature (Some input))"

definition invoke_with_plist_action :: "core_lib \<Rightarrow> string \<Rightarrow> plist_value \<Rightarrow> string \<Rightarrow> (xpc_client, plist_value) act" where
  "invoke_with_plist_action cl feature input action_identifier =
    act_bind (act_res (from_plist (cl_ins cl) input)) (\<lambda>input.
    invoke_inner cl (Some (rstr feature)) (Some input) (Some (rstr action_identifier)))"

definition invoke_action_with_plist :: "core_lib \<Rightarrow> string \<Rightarrow> plist_value \<Rightarrow> (xpc_client, plist_value) act" where
  "invoke_action_with_plist cl action_identifier input =
    act_bind (act_res (from_plist (cl_ins cl) input)) (\<lambda>input.
    invoke_inner cl None (Some input) (Some (rstr action_identifier)))"

section \<open>Streams\<close>

datatype streaming_response = StreamElements "plist_value list" | StreamFinished

definition build_streaming_input :: "core_lib \<Rightarrow> xpc_object \<Rightarrow> byte list \<Rightarrow> xpc_object" where
  "build_streaming_input cl input side_channel =
    xpc_literal (cl_ins cl) [(''actualInput'', input), (''streamProxy'', xpc_literal (cl_ins cl) [(''sideChannel'', XUuid side_channel)])]"

definition parse_stream_response :: "core_lib \<Rightarrow> plist_value \<Rightarrow> (streaming_response, idevice_error) res" where
  "parse_stream_response cl response =
    rbind (ok_or (CoreDevice (MalformedField ''(root)'')) (plist_as_dictionary response)) (\<lambda>response.
      case dict_get response ''CoreDevice.XPCMessageKey.sideChannelStatus'' of
        Some (PDictionary status) \<Rightarrow>
          (case dict_get status ''receivedError'' of
             Some error \<Rightarrow> Err (CoreDevice (DeviceError (cl_debug cl error)))
           | None \<Rightarrow>
               if dict_get status ''finishStreaming'' \<noteq> None then Ok StreamFinished
               else rbind (core_field ''pushing'' (dict_field status ''pushing'')) (\<lambda>pushing.
                    rmap StreamElements (ok_or (CoreDevice (MalformedField ''elements''))
                      (Option.bind (dict_get pushing ''elements'') plist_as_array))))
      | Some _ \<Rightarrow> Err (CoreDevice (MalformedField ''sideChannelStatus''))
      | None \<Rightarrow>
          (case dict_get response ''CoreDevice.error'' of
             Some error \<Rightarrow> Err (CoreDevice (DeviceError (cl_debug cl error)))
           | None \<Rightarrow> Err (CoreDevice (CoreMissingField ''sideChannelStatus''))))"

lemma recv_from_channel_load:
  "recv_from_channel ins ch s = (Ok v, t) \<Longrightarrow> xc_load [ch] t < xc_load [ch] s"
proof (induction ins ch s arbitrary: t rule: recv_from_channel.induct)
  case (1 ins ch s)
  obtain q u where b: "take_buffered ins ch s = (q, u)" by fastforce
  from 1(3) b consider (some) m where "q = Ok (Some m)" | (none) "q = Ok None"
    by (auto simp: recv_from_channel.simps [of ins ch s] split: res.splits option.splits)
  then show ?case
  proof cases
    case some
    have l: "xc_load [ch] u < xc_load [ch] s" using take_buffered_load [of ins ch s m u "[ch]"] b some by simp
    show ?thesis
    proof (cases "payload_of m")
      case None
      with 1(3) b some have r: "recv_from_channel ins ch u = (Ok v, t)" by (simp add: recv_from_channel.simps [of ins ch s])
      from 1(2) [OF b [symmetric] some refl None r] l show ?thesis by simp
    next
      case (Some x)
      with 1(3) b some l show ?thesis by (simp add: recv_from_channel.simps [of ins ch s])
    qed
  next
    case none
    have u: "xc_load [ch] u = xc_load [ch] s" using take_buffered_none b none xc_load_same [of "[ch]" ch s] by fastforce
    obtain p w where f: "fill_channel ch u = (p, w)" by fastforce
    with 1(3) b none have p: "p = Ok ()" "recv_from_channel ins ch w = (Ok v, t)"
      by (auto simp: recv_from_channel.simps [of ins ch s] split: res.splits)
    from 1(1) [OF b [symmetric] none refl f [symmetric] p(1) p(2)] fill_channel_load [of ch u w] f p(1) u show ?thesis by simp
  qed
qed

lemma recv_root_load: "recv_root ins to_pl s = (Ok v, t) \<Longrightarrow> xc_load [ROOT_CHANNEL] t < xc_load [ROOT_CHANNEL] s"
  by (auto simp: recv_root_def act_bind_Ok dest: recv_from_channel_load)

text \<open>What the stream yields, and how it ends.\<close>

function stream_loop :: "core_lib \<Rightarrow> xpc_client \<Rightarrow> plist_value list \<times> (unit, idevice_error) res \<times> xpc_client" where
  "stream_loop cl s =
    (case recv_root (cl_ins cl) (cl_to_pl cl) s of
       (Ok response, t) \<Rightarrow>
         (case parse_stream_response cl response of
            Ok (StreamElements batch) \<Rightarrow> (case stream_loop cl t of (items, r, u) \<Rightarrow> (batch @ items, r, u))
          | Ok StreamFinished \<Rightarrow> ([], Ok (), t)
          | Err e \<Rightarrow> ([], Err e, t)
          | Panic \<Rightarrow> ([], Panic, t))
     | (Err e, t) \<Rightarrow> ([], Err e, t)
     | (Panic, t) \<Rightarrow> ([], Panic, t))"
  by pat_completeness auto
termination stream_loop
  by (relation "measure (\<lambda>(cl, s). xc_load [ROOT_CHANNEL] s)") (auto dest!: recv_root_load [OF sym])

declare stream_loop.simps [simp del]

definition invoke_streaming_with_plist :: "core_lib \<Rightarrow> string \<Rightarrow> plist_value \<Rightarrow> xpc_client \<Rightarrow>
    plist_value list \<times> (unit, idevice_error) res \<times> xpc_client" where
  "invoke_streaming_with_plist cl feature input s =
    (case act_bind (act_res (from_plist (cl_ins cl) input)) (\<lambda>input.
        send_object (invocation cl 2 (Some (rstr feature)) (build_streaming_input cl input (cl_uuid cl 0)) None) True) s of
       (Ok _, t) \<Rightarrow> stream_loop cl t
     | (Err e, t) \<Rightarrow> ([], Err e, t)
     | (Panic, t) \<Rightarrow> ([], Panic, t))"

text \<open>The elements of a list of messages, up to the one that ends the stream.\<close>

fun streamed :: "core_lib \<Rightarrow> xpc_object list \<Rightarrow> (plist_value list \<times> (unit, idevice_error) res) option" where
  "streamed cl [] = None"
| "streamed cl (v # vs) =
    (case parse_stream_response cl (cl_to_pl cl v) of
       Ok (StreamElements batch) \<Rightarrow> map_option (\<lambda>(items, r). (batch @ items, r)) (streamed cl vs)
     | Ok StreamFinished \<Rightarrow> (if vs = [] then Some ([], Ok ()) else None)
     | Err e \<Rightarrow> (if vs = [] then Some ([], Err e) else None)
     | Panic \<Rightarrow> None)"

text \<open>
  A stream yields the elements of the messages of the root channel, in order and each once, and reads no message behind
  the one that ends it.
\<close>

lemma stream_loop_yields:
  "recv_many (cl_ins cl) ROOT_CHANNEL n s = (Ok vs, t) \<Longrightarrow> streamed cl vs = Some (items, r) \<Longrightarrow> stream_loop cl s = (items, r, t)"
proof (induction n arbitrary: s vs items)
  case (Suc n)
  from Suc.prems(1) obtain v u ws where
    r: "recv_from_channel (cl_ins cl) ROOT_CHANNEL s = (Ok v, u)" "recv_many (cl_ins cl) ROOT_CHANNEL n u = (Ok ws, t)" "vs = v # ws"
    by (auto simp: act_bind_Ok)
  have v: "recv_root (cl_ins cl) (cl_to_pl cl) s = (Ok (cl_to_pl cl v), u)" by (simp add: recv_root_def r(1))
  have e: "ws = [] \<Longrightarrow> u = t" using r(2) by (cases n) (auto simp: act_bind_Ok)
  show ?case
  proof (cases "parse_stream_response cl (cl_to_pl cl v)")
    case (Ok x)
    show ?thesis
    proof (cases x)
      case (StreamElements batch)
      with Suc.prems(2) r(3) Ok obtain xs where "streamed cl ws = Some (xs, r)" "items = batch @ xs" by auto
      with Suc.IH [OF r(2)] show ?thesis by (simp add: stream_loop.simps [of cl s] v Ok StreamElements)
    next
      case StreamFinished
      with Suc.prems(2) r(3) Ok e show ?thesis by (auto simp: stream_loop.simps [of cl s] v split: if_splits)
    qed
  next
    case (Err e)
    with Suc.prems(2) r(3) e show ?thesis by (auto simp: stream_loop.simps [of cl s] v split: if_splits)
  next
    case Panic
    with Suc.prems(2) r(3) show ?thesis by simp
  qed
qed simp

end
