(* ===== verification/Core_Services.thy ===== *)
theory Core_Services
  imports Core_Device
begin

text \<open>
  The clients of services/core\_device built on one invocation (app\_service.rs, configuration\_service.rs,
  diagnosticsservice.rs, icon\_service.rs, location\_service.rs, screencaptureservices.rs, openstdiosocket.rs), and those
  that send XPC objects of their own (orientation\_service.rs, installcoordination\_proxy.rs, restore\_service.rs). Serde's readings of a value
  are parameters.
\<close>

definition at :: "plist_value \<Rightarrow> string \<Rightarrow> plist_value option" where
  "at v k = Option.bind (plist_as_dictionary v) (\<lambda>d. dict_get d k)"

definition core_need :: "string \<Rightarrow> 'a option \<Rightarrow> ('s, 'a) act" where
  "core_need name x = act_res (core_field name x)"

definition unexpected_unless :: "string \<Rightarrow> 'a option \<Rightarrow> ('s, 'a) act" where
  "unexpected_unless what x = act_res (ok_or (UnexpectedResponse what) x)"

section \<open>Applications\<close>

definition app_list_options :: "bool \<Rightarrow> bool \<Rightarrow> bool \<Rightarrow> bool \<Rightarrow> bool \<Rightarrow> plist_value" where
  "app_list_options app_clips removable_apps hidden_apps internal_apps default_apps =
    obj [(''includeAppClips'', PBoolean app_clips), (''includeRemovableApps'', PBoolean removable_apps),
      (''includeHiddenApps'', PBoolean hidden_apps), (''includeInternalApps'', PBoolean internal_apps),
      (''includeDefaultApps'', PBoolean default_apps), (''includeAppGroupIdentifiers'', PBoolean False),
      (''includeContainerPaths'', PBoolean False), (''requireContainerAccess'', PBoolean False)]"

primrec app_entries :: "(plist_value \<Rightarrow> 'e option) \<Rightarrow> plist_value list \<Rightarrow> ('e list, idevice_error) res" where
  "app_entries from_value [] = Ok []"
| "app_entries from_value (r # rs) =
    rbind (ok_or (UnexpectedResponse ''failed to parse app list entry'') (from_value r)) (\<lambda>e.
    rmap (Cons e) (app_entries from_value rs))"

definition list_apps :: "core_lib \<Rightarrow> (plist_value \<Rightarrow> 'e option) \<Rightarrow> bool \<Rightarrow> bool \<Rightarrow> bool \<Rightarrow> bool \<Rightarrow> bool \<Rightarrow> (xpc_client, 'e list) act" where
  "list_apps cl from_value app_clips removable_apps hidden_apps internal_apps default_apps =
    act_bind (invoke_with_plist cl ''com.apple.coredevice.feature.listapps''
      (app_list_options app_clips removable_apps hidden_apps internal_apps default_apps)) (\<lambda>res.
    act_bind (unexpected_unless ''list apps result was not an array'' (plist_as_array res)) (\<lambda>res.
    act_res (app_entries from_value res)))"

text \<open>An element that cannot be read is an error of the stream's, which goes on.\<close>

definition stream_apps :: "core_lib \<Rightarrow> (plist_value \<Rightarrow> 'e option) \<Rightarrow> bool \<Rightarrow> bool \<Rightarrow> bool \<Rightarrow> bool \<Rightarrow> bool \<Rightarrow> xpc_client \<Rightarrow>
    ('e, idevice_error) res list \<times> (unit, idevice_error) res \<times> xpc_client" where
  "stream_apps cl from_value app_clips removable_apps hidden_apps internal_apps default_apps s =
    (case invoke_streaming_with_plist cl ''com.apple.coredevice.feature.streamapplist''
        (app_list_options app_clips removable_apps hidden_apps internal_apps default_apps) s of
       (items, r, t) \<Rightarrow> (map (\<lambda>v. ok_or (UnexpectedResponse ''failed to parse streamed app list entry'') (from_value v)) items, r, t))"

definition launch_request :: "core_lib \<Rightarrow> (plist_dict \<Rightarrow> byte list) \<Rightarrow> rstring \<Rightarrow> rstring list \<Rightarrow> bool \<Rightarrow> bool \<Rightarrow> plist_dict option \<Rightarrow>
    plist_dict option \<Rightarrow> byte list option \<Rightarrow> (xpc_object, idevice_error) res" where
  "launch_request cl to_xml bundle_id arguments kill_existing start_suspended environment platform_options stdio_uuid =
    (let req = obj
       [(''applicationSpecifier'', obj [(''bundleIdentifier'', obj [(''_0'', PString bundle_id)])]),
        (''options'', obj
          [(''arguments'', PArray (map PString arguments)), (''environmentVariables'', PDictionary (case environment of Some e \<Rightarrow> e | None \<Rightarrow> [])),
           (''standardIOUsesPseudoterminals'', PBoolean True), (''startStopped'', PBoolean start_suspended),
           (''terminateExisting'', PBoolean kill_existing), (''user'', obj [(''active'', PBoolean True)]),
           (''platformSpecificOptions'', PData (to_xml (case platform_options of Some p \<Rightarrow> p | None \<Rightarrow> [])))])];
         ids = (case stdio_uuid of
             Some u \<Rightarrow> xpc_literal (cl_ins cl) [(''standardInput'', XUuid u), (''standardOutput'', XUuid u), (''standardError'', XUuid u)]
           | None \<Rightarrow> XDictionary [])
     in rbind (from_plist (cl_ins cl) req) (\<lambda>req.
          case to_dictionary req of
            Some d \<Rightarrow> Ok (XDictionary (cl_ins cl (rstr ''standardIOIdentifiers'') ids d))
          | None \<Rightarrow> Panic))"

definition launch_application :: "core_lib \<Rightarrow> (plist_dict \<Rightarrow> byte list) \<Rightarrow> (plist_value \<Rightarrow> 'e option) \<Rightarrow> rstring \<Rightarrow> rstring list \<Rightarrow> bool \<Rightarrow>
    bool \<Rightarrow> plist_dict option \<Rightarrow> plist_dict option \<Rightarrow> byte list option \<Rightarrow> (xpc_client, 'e) act" where
  "launch_application cl to_xml from_value bundle_id arguments kill_existing start_suspended environment platform_options stdio_uuid =
    act_bind (act_res (launch_request cl to_xml bundle_id arguments kill_existing start_suspended environment platform_options stdio_uuid)) (\<lambda>req.
    act_bind (invoke cl ''com.apple.coredevice.feature.launchapplication'' (Some req)) (\<lambda>res.
    unexpected_unless ''missing or unparsable processToken in launch response'' (Option.bind (at res ''processToken'') from_value)))"

definition list_processes :: "core_lib \<Rightarrow> (plist_value \<Rightarrow> 'e option) \<Rightarrow> (xpc_client, 'e) act" where
  "list_processes cl from_value =
    act_bind (invoke cl ''com.apple.coredevice.feature.listprocesses'' None) (\<lambda>res.
    unexpected_unless ''missing or unparsable processTokens in list processes response'' (Option.bind (at res ''processTokens'') from_value))"

definition app_uninstall :: "core_lib \<Rightarrow> rstring \<Rightarrow> (xpc_client, unit) act" where
  "app_uninstall cl bundle_id =
    act_bind (invoke_with_plist cl ''com.apple.coredevice.feature.uninstallapp'' (obj [(''bundleIdentifier'', PString bundle_id)])) (\<lambda>_. act_ok ())"

definition send_signal :: "core_lib \<Rightarrow> (plist_value \<Rightarrow> 'e option) \<Rightarrow> u32 \<Rightarrow> u32 \<Rightarrow> (xpc_client, 'e) act" where
  "send_signal cl from_value pid signal =
    act_bind (invoke_with_plist cl ''com.apple.coredevice.feature.sendsignaltoprocess''
      (obj [(''process'', obj [(''processIdentifier'', PInteger (uint pid))]), (''signal'', PInteger (uint signal))])) (\<lambda>res.
    unexpected_unless ''failed to parse signal response'' (from_value res))"

section \<open>Configuration\<close>

datatype user_interface_style = Light | Dark

primrec style_as_str :: "user_interface_style \<Rightarrow> rstring" where
  "style_as_str Light = rstr ''light''"
| "style_as_str Dark = rstr ''dark''"

definition style_from_wire :: "rstring \<Rightarrow> (user_interface_style, idevice_error) res" where
  "style_from_wire s =
    (if s = rstr ''light'' then Ok Light else if s = rstr ''dark'' then Ok Dark
     else Err (CoreDevice (MalformedField ''style'')))"

record color_filter =
  cf_enabled :: bool
  cf_filter_type :: "rstring option"
  cf_intensity :: "u64 option"

definition config_invoke :: "core_lib \<Rightarrow> string \<Rightarrow> (xpc_client, plist_value) act" where
  "config_invoke cl action = invoke_action_with_plist cl action (PDictionary [])"

definition config_invoke_with :: "core_lib \<Rightarrow> string \<Rightarrow> plist_value \<Rightarrow> (xpc_client, plist_value) act" where
  "config_invoke_with cl action input =
    act_bind (act_res (ok_or (CoreDevice (MalformedField ''(input)'')) (plist_as_dictionary input))) (\<lambda>input.
    invoke_action_with_plist cl action (PDictionary input))"

definition get_user_interface_style :: "core_lib \<Rightarrow> (xpc_client, user_interface_style) act" where
  "get_user_interface_style cl =
    act_bind (config_invoke cl ''com.apple.coredevice.action.getuserinterfacestyle'') (\<lambda>res.
    act_bind (core_need ''style'' (Option.bind (at res ''style'') plist_as_string)) (\<lambda>style.
    act_res (style_from_wire style)))"

definition set_user_interface_style :: "core_lib \<Rightarrow> user_interface_style \<Rightarrow> (xpc_client, unit) act" where
  "set_user_interface_style cl style =
    act_bind (config_invoke_with cl ''com.apple.coredevice.action.setuserinterfacestyle''
      (obj [(''style'', PString (style_as_str style))])) (\<lambda>_. act_ok ())"

text \<open>\<open>(0.0..=1.0).contains\<close> on the bits of an \<open>f32\<close>: from 0 to 1, negative zero, and no NaN. A property list holds it as \<open>real\<close> does.\<close>

definition in_unit_range :: "u32 \<Rightarrow> bool" where
  "in_unit_range w \<longleftrightarrow> w \<le> 0x3F800000 \<or> w = 0x80000000"

definition set_liquid_glass_opacity :: "core_lib \<Rightarrow> (u32 \<Rightarrow> plist_value) \<Rightarrow> u32 \<Rightarrow> (xpc_client, unit) act" where
  "set_liquid_glass_opacity cl real opacity =
    (if \<not> in_unit_range opacity then core_err (CoreInvalidArgument ''opacity must be in [0.0, 1.0]'')
     else act_bind (config_invoke_with cl ''com.apple.coredevice.action.setliquidglassconfiguration''
            (obj [(''configuration'', obj [(''opacity'', real opacity)])])) (\<lambda>_. act_ok ()))"

definition color_filter_of :: "plist_value \<Rightarrow> (color_filter, idevice_error) res" where
  "color_filter_of res =
    rbind (core_field ''colorFilter'' (Option.bind (at res ''colorFilter'') plist_as_dictionary)) (\<lambda>filter.
    rbind (core_field ''enabled'' (flag_field filter ''enabled'')) (\<lambda>enabled.
    Ok \<lparr>cf_enabled = enabled,
        cf_filter_type = Option.bind (dict_field filter ''filterType'') (\<lambda>d. str_field d ''name''),
        cf_intensity = (case dict_get filter ''intensity'' of Some (PReal f) \<Rightarrow> Some f | _ \<Rightarrow> None)\<rparr>))"

definition get_color_filter :: "core_lib \<Rightarrow> (xpc_client, color_filter) act" where
  "get_color_filter cl =
    act_bind (config_invoke cl ''com.apple.coredevice.action.getcolorfilter'') (\<lambda>res. act_res (color_filter_of res))"

definition color_filter_request :: "(u32 \<Rightarrow> plist_value) \<Rightarrow> bool \<Rightarrow> rstring option \<Rightarrow> u32 option \<Rightarrow> (plist_value, idevice_error) res" where
  "color_filter_request real enabled filter_type intensity =
    rmap (\<lambda>entries. req_with [(''enabled'', PBoolean enabled)] entries)
      (if enabled
       then (case filter_type of
               None \<Rightarrow> Err (CoreDevice (CoreInvalidArgument ''filter_type is required when enabling the color filter''))
             | Some t \<Rightarrow> Ok ((rstr ''filterType'', obj [(''name'', PString t)]) # opt_entry ''intensity'' real intensity))
       else Ok [])"

definition set_color_filter :: "core_lib \<Rightarrow> (u32 \<Rightarrow> plist_value) \<Rightarrow> bool \<Rightarrow> rstring option \<Rightarrow> u32 option \<Rightarrow> (xpc_client, unit) act" where
  "set_color_filter cl real enabled filter_type intensity =
    act_bind (act_res (color_filter_request real enabled filter_type intensity)) (\<lambda>filter.
    act_bind (config_invoke_with cl ''com.apple.coredevice.action.setcolorfilter'' (obj [(''colorFilter'', filter)])) (\<lambda>_. act_ok ()))"

definition get_device_text_size :: "core_lib \<Rightarrow> (xpc_client, rstring) act" where
  "get_device_text_size cl =
    act_bind (config_invoke cl ''com.apple.coredevice.action.getdevicetextsize'') (\<lambda>res.
    core_need ''textSize''
      (case Option.bind (Option.bind (at res ''textSize'') plist_as_dictionary) (\<lambda>d. dict_field d ''size'') of
         Some ((name, _) # _) \<Rightarrow> Some name
       | _ \<Rightarrow> None))"

definition set_device_text_size :: "core_lib \<Rightarrow> rstring \<Rightarrow> (xpc_client, unit) act" where
  "set_device_text_size cl text_size =
    act_bind (config_invoke_with cl ''com.apple.coredevice.action.setdevicetextsize''
      (obj [(''textSize'', obj [(''size'', PDictionary [(text_size, PDictionary [])])])])) (\<lambda>_. act_ok ())"

text \<open>The knobs, each a boolean under its own name.\<close>

definition get_enabled :: "core_lib \<Rightarrow> string \<Rightarrow> string \<Rightarrow> (xpc_client, bool) act" where
  "get_enabled cl action knob =
    act_bind (config_invoke cl action) (\<lambda>res.
    core_need knob (Option.bind (Option.bind (at res knob) plist_as_dictionary) (\<lambda>d. flag_field d ''enabled'')))"

definition set_enabled :: "core_lib \<Rightarrow> string \<Rightarrow> string \<Rightarrow> bool \<Rightarrow> (xpc_client, unit) act" where
  "set_enabled cl action knob enabled =
    act_bind (config_invoke_with cl action (obj [(knob, obj [(''enabled'', PBoolean enabled)])])) (\<lambda>_. act_ok ())"

definition get_reduce_motion :: "core_lib \<Rightarrow> (xpc_client, bool) act" where
  "get_reduce_motion cl = get_enabled cl ''com.apple.coredevice.action.getreducemotion'' ''reduceMotion''"

definition set_reduce_motion :: "core_lib \<Rightarrow> bool \<Rightarrow> (xpc_client, unit) act" where
  "set_reduce_motion cl = set_enabled cl ''com.apple.coredevice.action.setreducemotion'' ''reduceMotion''"

definition set_increase_contrast :: "core_lib \<Rightarrow> bool \<Rightarrow> (xpc_client, unit) act" where
  "set_increase_contrast cl = set_enabled cl ''com.apple.coredevice.action.setdeviceincreasecontrast'' ''increaseContrast''"

definition get_show_borders :: "core_lib \<Rightarrow> (xpc_client, bool) act" where
  "get_show_borders cl = get_enabled cl ''com.apple.coredevice.action.getshowborders'' ''showBorders''"

definition set_show_borders :: "core_lib \<Rightarrow> bool \<Rightarrow> (xpc_client, unit) act" where
  "set_show_borders cl = set_enabled cl ''com.apple.coredevice.action.setshowborders'' ''showBorders''"

definition get_reduce_transparency :: "core_lib \<Rightarrow> (xpc_client, bool) act" where
  "get_reduce_transparency cl = get_enabled cl ''com.apple.coredevice.action.getreducetransparency'' ''reduceTransparency''"

definition set_reduce_transparency :: "core_lib \<Rightarrow> bool \<Rightarrow> (xpc_client, unit) act" where
  "set_reduce_transparency cl = set_enabled cl ''com.apple.coredevice.action.setreducetransparency'' ''reduceTransparency''"

section \<open>Diagnostics, icons, locations, screenshots\<close>

text \<open>The response of a sysdiagnose and the stream of its file, read to its end.\<close>

definition capture_sysdiagnose :: "core_lib \<Rightarrow> bool \<Rightarrow> (xpc_client, rstring \<times> nat \<times> byte list list \<times> (unit, idevice_error) res) act" where
  "capture_sysdiagnose cl dry_run =
    act_bind (invoke_with_plist cl ''com.apple.coredevice.feature.capturesysdiagnose''
      (obj [(''options'', obj [(''collectFullLogs'', PBoolean True)]), (''isDryRun'', PBoolean dry_run)])) (\<lambda>res s.
      case (Option.bind (Option.bind (Option.bind (at res ''fileTransfer'') plist_as_dictionary) (\<lambda>d. dict_get d ''expectedLength''))
              plist_as_unsigned_integer, Option.bind (at res ''preferredFilename'') plist_as_string) of
        (Some len, Some name) \<Rightarrow>
          (case iter_file_chunks (unat len) 0 s of (items, r, t) \<Rightarrow> (Ok (name, unat len, items, r), t))
      | _ \<Rightarrow> (Err (UnexpectedResponse ''missing fileTransfer/expectedLength or preferredFilename in sysdiagnose response''), s))"

datatype app_icon_target = BundleIdentifier rstring | AppPath rstring

definition fetch_icon :: "core_lib \<Rightarrow> (u32 \<Rightarrow> plist_value) \<Rightarrow> (plist_value \<Rightarrow> 'e option) \<Rightarrow> app_icon_target \<Rightarrow> u32 \<Rightarrow> u32 \<Rightarrow> u32 \<Rightarrow> bool \<Rightarrow>
    (xpc_client, 'e) act" where
  "fetch_icon cl real from_value target width height scale allow_placeholder =
    act_bind (invoke_with_plist cl ''com.apple.coredevice.feature.fetchappicons''
      (req_with (case target of BundleIdentifier b \<Rightarrow> [(''bundleIdentifier'', PString b)] | AppPath p \<Rightarrow> [(''appPath'', PString p)])
        (map (\<lambda>(k, v). (rstr k, v)) [(''width'', real width), (''height'', real height), (''scale'', real scale),
          (''allowPlaceholder'', PBoolean allow_placeholder)]))) (\<lambda>res.
    act_bind (core_need ''appIconInfo'' (at res ''appIconInfo'')) (\<lambda>info.
    unexpected_unless ''failed to parse appIconInfo in fetch icon response'' (from_value info)))"

definition available_location_scenarios :: "core_lib \<Rightarrow> (plist_value \<Rightarrow> 'e option) \<Rightarrow> (xpc_client, 'e) act" where
  "available_location_scenarios cl from_value =
    act_bind (invoke_with_plist_action cl ''com.apple.coredevice.feature.simulatelocation'' (PDictionary [])
      ''com.apple.coredevice.action.availablelocationscenarios'') (\<lambda>res.
    act_bind (core_need ''scenarios'' (at res ''scenarios'')) (\<lambda>scenarios.
    act_res (ok_or (CoreDevice (MalformedField ''scenarios'')) (from_value scenarios))))"

datatype image_format = Png | Jpeg

primrec image_format_str :: "image_format \<Rightarrow> rstring" where
  "image_format_str Png = rstr ''png''"
| "image_format_str Jpeg = rstr ''jpeg''"

definition capture_screenshot :: "core_lib \<Rightarrow> rstring option \<Rightarrow> image_format \<Rightarrow> (xpc_client, byte list) act" where
  "capture_screenshot cl display_unique_id format =
    act_bind (invoke_with_plist_action cl ''com.apple.coredevice.feature.capturescreenshot''
      (req_with [(''requestedFormat'', PString (image_format_str format))] (opt_entry ''displayUniqueID'' PString display_unique_id))
      ''com.apple.coredevice.action.capturescreenshot'') (\<lambda>res.
    core_need ''image'' (Option.bind (at res ''image'') plist_as_data))"

definition stdio_read_uuid :: "(transport, byte list) act" where
  "stdio_read_uuid = tp_read_exact 16"

section \<open>Orientation\<close>

datatype rotation_direction = RotateLeft | RotateRight

primrec rotation_str :: "rotation_direction \<Rightarrow> rstring" where
  "rotation_str RotateLeft = rstr ''left''"
| "rotation_str RotateRight = rstr ''right''"

datatype device_orientation =
  DevPortrait | DevPortraitUpsideDown | DevLandscapeLeft | DevLandscapeRight | DevFaceUp | DevFaceDown | DevUnknown rstring

definition orientation_from_wire :: "rstring \<Rightarrow> device_orientation" where
  "orientation_from_wire s =
    (if s = rstr ''portrait'' then DevPortrait else if s = rstr ''portraitUpsideDown'' then DevPortraitUpsideDown
     else if s = rstr ''landscapeLeft'' then DevLandscapeLeft else if s = rstr ''landscapeRight'' then DevLandscapeRight
     else if s = rstr ''faceUp'' then DevFaceUp else if s = rstr ''faceDown'' then DevFaceDown else DevUnknown s)"

definition rotate_device :: "core_lib \<Rightarrow> rotation_direction \<Rightarrow> (xpc_client, device_orientation \<times> device_orientation \<times> bool) act" where
  "rotate_device cl direction =
    act_bind (send_object (xpc_literal (cl_ins cl)
      [(''featureIdentifier'', XString (rstr ''com.apple.coredevice.feature.remote.devicecontrol.orientation'')),
       (''messageType'', XString (rstr ''OrientationRequest'')),
       (''payload'', xpc_literal (cl_ins cl) [(''rotate'', xpc_literal (cl_ins cl) [(''_0'', XString (rotation_str direction))])])]) True) (\<lambda>_.
    act_bind (recv (cl_ins cl) (cl_to_pl cl)) (\<lambda>res.
    act_bind (act_res (ok_or (CoreDevice (MalformedField ''(root)'')) (plist_as_dictionary res))) (\<lambda>dict.
    act_bind (core_need ''currentDeviceOrientation'' (str_field dict ''currentDeviceOrientation'')) (\<lambda>orientation.
    act_bind (core_need ''currentDeviceNonFlatOrientation'' (str_field dict ''currentDeviceNonFlatOrientation'')) (\<lambda>non_flat.
    act_bind (core_need ''currentDeviceOrientationLocked'' (flag_field dict ''currentDeviceOrientationLocked'')) (\<lambda>locked.
    act_ok (orientation_from_wire orientation, orientation_from_wire non_flat, locked)))))))"

section \<open>The installation coordinator\<close>

definition coordinator_ask :: "core_lib \<Rightarrow> u64 \<Rightarrow> rstring \<Rightarrow> (xpc_client, plist_value) act" where
  "coordinator_ask cl request_type bundle_id =
    act_bind (send_object (xpc_literal (cl_ins cl)
      [(''RequestVersion'', XUInt64 1), (''ProtocolVersion'', XUInt64 1), (''RequestType'', XUInt64 request_type), (''BundleID'', XString bundle_id)]) True) (\<lambda>_.
    recv_root (cl_ins cl) (cl_to_pl cl))"

definition coordinator_uninstall :: "core_lib \<Rightarrow> rstring \<Rightarrow> (xpc_client, unit) act" where
  "coordinator_uninstall cl bundle_id =
    act_bind (coordinator_ask cl 3 bundle_id) (\<lambda>res.
      if Option.bind (at res ''Success'') plist_as_boolean = Some True then act_ok ()
      else act_err (UnexpectedResponse ''missing Success boolean in uninstall response''))"

definition query_app_path :: "core_lib \<Rightarrow> rstring \<Rightarrow> (xpc_client, rstring) act" where
  "query_app_path cl bundle_id =
    act_bind (coordinator_ask cl 4 bundle_id) (\<lambda>res.
    unexpected_unless ''missing InstallPath in query_app_path response''
      (Option.bind (Option.bind (at res ''InstallPath'') plist_as_dictionary) (\<lambda>d. str_field d ''com.apple.CFURL.string'')))"

section \<open>The restore service\<close>

definition restore_ask :: "core_lib \<Rightarrow> string \<Rightarrow> rstring option \<Rightarrow> string \<Rightarrow> (xpc_client, plist_dict) act" where
  "restore_ask cl command argument name =
    act_bind (act_res (from_plist (cl_ins cl) (req_with [(''command'', PString (rstr command))] (opt_entry ''argument'' PString argument)))) (\<lambda>req.
    act_bind (send_object req True) (\<lambda>_.
    act_bind (recv (cl_ins cl) (cl_to_pl cl)) (\<lambda>res.
    unexpected_unless (name @ '' XPC response is not a dictionary'') (plist_as_dictionary res))))"

definition restore_do :: "core_lib \<Rightarrow> string \<Rightarrow> rstring option \<Rightarrow> string \<Rightarrow> (xpc_client, unit) act" where
  "restore_do cl command argument name =
    act_bind (restore_ask cl command argument name) (\<lambda>res.
      case str_field res ''result'' of
        Some r \<Rightarrow> if r = rstr ''success'' then act_ok () else act_err (UnexpectedResponse (name @ '' result was not success''))
      | None \<Rightarrow> act_err (UnexpectedResponse (''missing result in '' @ name @ '' response'')))"

definition restore_get :: "core_lib \<Rightarrow> string \<Rightarrow> string \<Rightarrow> (xpc_client, plist_dict) act" where
  "restore_get cl command key =
    act_bind (restore_ask cl command None command) (\<lambda>res.
    unexpected_unless (''missing '' @ key @ '' in response'') (dict_field res key))"

definition restore_enter_recovery :: "core_lib \<Rightarrow> (xpc_client, unit) act" where
  "restore_enter_recovery cl = restore_do cl ''recovery'' None ''enter_recovery''"

definition restore_reboot :: "core_lib \<Rightarrow> (xpc_client, unit) act" where
  "restore_reboot cl = restore_do cl ''reboot'' None ''reboot''"

definition restore_lang :: "core_lib \<Rightarrow> rstring \<Rightarrow> (xpc_client, unit) act" where
  "restore_lang cl language = restore_do cl ''restorelang'' (Some language) ''restorelang''"

definition get_preflightinfo :: "core_lib \<Rightarrow> (xpc_client, plist_dict) act" where
  "get_preflightinfo cl = restore_get cl ''getpreflightinfo'' ''preflightinfo''"

definition get_nonces :: "core_lib \<Rightarrow> (xpc_client, plist_dict) act" where
  "get_nonces cl = restore_get cl ''getnonces'' ''nonces''"

definition get_app_parameters :: "core_lib \<Rightarrow> (xpc_client, plist_dict) act" where
  "get_app_parameters cl = restore_get cl ''getappparameters'' ''appparameters''"

section \<open>What a client refuses to ask\<close>

text \<open>A colour filter that is read back from the request that set it is the one that was asked for.\<close>

definition filter_asked :: "bool \<Rightarrow> rstring option \<Rightarrow> u64 option \<Rightarrow> color_filter" where
  "filter_asked enabled filter_type intensity =
    \<lparr>cf_enabled = enabled, cf_filter_type = (if enabled then filter_type else None),
      cf_intensity = (if enabled then intensity else None)\<rparr>"

lemma color_filter_round_trip:
  "(case color_filter_request (\<lambda>w. PReal (widen w)) enabled filter_type intensity of
      Ok flt \<Rightarrow> color_filter_of (obj [(''colorFilter'', flt)]) = Ok (filter_asked enabled filter_type (map_option widen intensity))
    | Err e \<Rightarrow> enabled \<and> filter_type = None
    | Panic \<Rightarrow> False)"
  by (auto simp: color_filter_request_def color_filter_of_def filter_asked_def req_with_def obj_def at_def core_field_def
    dict_get_def plist_as_dictionary_def plist_as_boolean_def plist_as_string_def flag_field_def dict_field_def str_field_def opt_entry_def
    split: option.split)

end
