(* ===== verification/File_Service.thy ===== *)
theory File_Service
  imports Core_Services
begin

text \<open>
  services/core\_device/file\_service.rs: sessions on a domain of the device's file system, listings and downloads. Operations
  have deadlines: one that passes (\<open>Some drop_at\<close>) leaves the RemoteXPC connection wherever its cancelled future had brought it; none
  can pass on a client that is no longer usable, whose operations fail before they await anything.
\<close>

definition DATA_PREAMBLE_LEN :: nat where "DATA_PREAMBLE_LEN = 0x24"
definition FILE_SERVICE_MAX_READ_SIZE :: nat where "FILE_SERVICE_MAX_READ_SIZE = 128 * 1024 * 1024"

datatype domain = AppDataContainer | AppGroupDataContainer | Temporary | SystemCrashLogs

primrec domain_as_u64 :: "domain \<Rightarrow> u64" where
  "domain_as_u64 AppDataContainer = 1"
| "domain_as_u64 AppGroupDataContainer = 2"
| "domain_as_u64 Temporary = 3"
| "domain_as_u64 SystemCrashLogs = 5"

definition domain_from_name :: "rstring \<Rightarrow> domain option" where
  "domain_from_name name =
    (if name = rstr ''appDataContainer'' then Some AppDataContainer
     else if name = rstr ''appGroupDataContainer'' then Some AppGroupDataContainer
     else if name = rstr ''temporary'' then Some Temporary
     else if name = rstr ''systemCrashLogs'' then Some SystemCrashLogs else None)"

record file_service =
  fs_inner :: xpc_client
  fs_session :: "rstring option"
  fs_usable :: bool

definition file_service_new :: "transport \<Rightarrow> (file_service, idevice_error) res" where
  "file_service_new socket = rmap (\<lambda>c. \<lparr>fs_inner = c, fs_session = None, fs_usable = True\<rparr>) (xpc_connected socket)"

definition on_fs :: "(xpc_client, 'a) act \<Rightarrow> (file_service, 'a) act" where
  "on_fs m s = (case m (fs_inner s) of (r, c) \<Rightarrow> (r, s\<lparr>fs_inner := c\<rparr>))"

section \<open>Deadlines\<close>

type_synonym deadline = "(xpc_client \<Rightarrow> xpc_client) option"

definition fs_invalidate :: "file_service \<Rightarrow> file_service" where
  "fs_invalidate s = s\<lparr>fs_usable := False, fs_session := None\<rparr>"

definition is_device_error :: "idevice_error \<Rightarrow> bool" where
  "is_device_error e = (case e of CoreDevice (DeviceError _) \<Rightarrow> True | _ \<Rightarrow> False)"

definition finish_operation :: "(file_service, 'a) act" where
  "finish_operation s = (Err Timeout, fs_invalidate s)"

definition within :: "deadline \<Rightarrow> (file_service, 'a) act \<Rightarrow> (file_service, 'a) act" where
  "within timer m s =
    (case (if fs_usable s then timer else None) of
       Some drop_at \<Rightarrow> finish_operation (s\<lparr>fs_inner := drop_at (fs_inner s)\<rparr>)
     | None \<Rightarrow>
         (case m s of
            (Err e, t) \<Rightarrow> (Err e, if is_device_error e then t else fs_invalidate t)
          | (r, t) \<Rightarrow> (r, t)))"

section \<open>Requests\<close>

definition session_of :: "(file_service, rstring) act" where
  "session_of s =
    ((if \<not> fs_usable s then Err NoEstablishedConnection
      else ok_or (UnexpectedResponse ''no file service session; call create_session'') (fs_session s)), s)"

definition encoded_error :: "core_lib \<Rightarrow> plist_value \<Rightarrow> (plist_value, idevice_error) res" where
  "encoded_error cl res =
    (case at res ''EncodedError'' of
       Some e \<Rightarrow>
         Err (CoreDevice (DeviceError (case Option.bind (at res ''LocalizedDescription'') plist_as_string of
           Some d \<Rightarrow> d | None \<Rightarrow> rstr ''Some('' @ cl_debug cl e @ rstr '')'')))
     | None \<Rightarrow> Ok res)"

definition send_receive :: "core_lib \<Rightarrow> (string \<times> xpc_object) list \<Rightarrow> (file_service, plist_value) act" where
  "send_receive cl request s =
    (if \<not> fs_usable s then (Err NoEstablishedConnection, s)
     else on_fs
       (act_bind (send_object (xpc_literal (cl_ins cl) request) True) (\<lambda>_.
        act_bind (recv_any (cl_ins cl) (cl_to_pl cl)) (\<lambda>res.
        act_res (encoded_error cl res)))) s)"

definition fs_create_session :: "core_lib \<Rightarrow> deadline \<Rightarrow> domain \<Rightarrow> rstring \<Rightarrow> (file_service, rstring) act" where
  "fs_create_session cl timer dmn identifier =
    within timer
      (act_bind (send_receive cl [(''Cmd'', XString (rstr ''CreateSession'')), (''Domain'', XUInt64 (domain_as_u64 dmn)),
         (''Identifier'', XString identifier), (''Session'', XString []), (''User'', XString (rstr ''mobile''))]) (\<lambda>res.
       act_bind (core_need ''NewSessionID'' (Option.bind (at res ''NewSessionID'') plist_as_string)) (\<lambda>session.
       act_bind (act_upd (\<lambda>s. s\<lparr>fs_session := Some session\<rparr>)) (\<lambda>_. act_ok session))))"

definition retrieve_directory_list :: "core_lib \<Rightarrow> deadline \<Rightarrow> rstring \<Rightarrow> (file_service, rstring list) act" where
  "retrieve_directory_list cl timer path =
    act_bind session_of (\<lambda>_.
    within timer
      (act_bind session_of (\<lambda>session.
       act_bind (send_receive cl [(''Cmd'', XString (rstr ''RetrieveDirectoryList'')), (''MessageUUID'', XString (cl_uuid_str cl (cl_uuid cl 0))),
         (''Path'', XString path), (''SessionID'', XString session)]) (\<lambda>res.
       act_bind (core_need ''FileList'' (Option.bind (at res ''FileList'') plist_as_array)) (\<lambda>l.
       act_ok (List.map_filter plist_as_string l))))))"

section \<open>Downloads\<close>

definition plist_u64 :: "plist_value \<Rightarrow> u64 option" where
  "plist_u64 v = (case plist_as_unsigned_integer v of Some n \<Rightarrow> Some n | None \<Rightarrow> plist_as_signed_integer v)"

text \<open>\<open>rwb!FILE\<close> and four words\<close>

definition data_request :: "u64 \<Rightarrow> u64 \<Rightarrow> byte list" where
  "data_request response file_id =
    rstr ''rwb!FILE'' @ to_be_bytes response @ to_be_bytes (0 :: u64) @ to_be_bytes file_id @ to_be_bytes (0 :: u64)"

text \<open>The data port; \<open>can_alloc\<close> is whether the allocator can reserve a length. The stream is dropped at the end.\<close>

definition read_data_port :: "(nat \<Rightarrow> bool) \<Rightarrow> u64 \<Rightarrow> u64 \<Rightarrow> (transport, byte list) act" where
  "read_data_port can_alloc response file_id =
    act_bind (tp_write_all (data_request response file_id)) (\<lambda>_.
    act_bind tp_flush (\<lambda>_.
    act_bind (tp_read_exact DATA_PREAMBLE_LEN) (\<lambda>_.
    act_bind (tp_read_exact 4) (\<lambda>len.
    let n = unat (from_be_bytes len :: u32)
    in if n > FILE_SERVICE_MAX_READ_SIZE
       then act_err (UnexpectedResponse ''FileService payload exceeds the 128 MiB read limit'')
       else if \<not> can_alloc n then act_err (InternalError (rstr ''FileService payload allocation failed''))
       else tp_read_exact n))))"

definition retrieve_file_inner :: "core_lib \<Rightarrow> (nat \<Rightarrow> bool) \<Rightarrow> rstring \<Rightarrow> (transport, idevice_error) res \<Rightarrow> (file_service, byte list) act" where
  "retrieve_file_inner cl can_alloc path connect_data =
    act_bind session_of (\<lambda>session.
    act_bind (send_receive cl [(''Cmd'', XString (rstr ''RetrieveFile'')), (''Path'', XString path), (''SessionID'', XString session)]) (\<lambda>res.
    act_bind (act_res (ok_or (CoreDevice (MalformedField ''(root)'')) (plist_as_dictionary res))) (\<lambda>_.
    act_bind (core_need ''Response'' (Option.bind (at res ''Response'') plist_u64)) (\<lambda>response.
    act_bind (core_need ''NewFileID'' (Option.bind (at res ''NewFileID'') plist_u64)) (\<lambda>file_id.
    act_res (rbind connect_data (\<lambda>data_stream. fst (read_data_port can_alloc response file_id data_stream))))))))"

definition retrieve_file :: "core_lib \<Rightarrow> (nat \<Rightarrow> bool) \<Rightarrow> deadline \<Rightarrow> rstring \<Rightarrow> (transport, idevice_error) res \<Rightarrow> (file_service, byte list) act" where
  "retrieve_file cl can_alloc timer path connect_data =
    act_bind session_of (\<lambda>_ s.
      case within timer (retrieve_file_inner cl can_alloc path connect_data) s of
        (Err e, t) \<Rightarrow> (Err e, fs_invalidate t)
      | (r, t) \<Rightarrow> (r, t))"

definition propose_empty_file :: "core_lib \<Rightarrow> rstring \<Rightarrow> u32 \<Rightarrow> u32 \<Rightarrow> u32 \<Rightarrow> i64 \<Rightarrow> i64 \<Rightarrow> (file_service, unit) act" where
  "propose_empty_file cl path file_permissions uid gid creation_time last_modification_time =
    act_bind session_of (\<lambda>session.
    act_bind (send_receive cl [(''Cmd'', XString (rstr ''ProposeEmptyFile'')), (''FileCreationTime'', XInt64 creation_time),
      (''FileLastModificationTime'', XInt64 last_modification_time), (''FilePermissions'', XInt64 (ucast file_permissions)),
      (''FileOwnerUserID'', XInt64 (ucast uid)), (''FileOwnerGroupID'', XInt64 (ucast gid)), (''Path'', XString path),
      (''SessionID'', XString session)]) (\<lambda>_. act_ok ()))"

section \<open>A client after a failure\<close>

datatype fs_op =
    FsCreate domain rstring deadline
  | FsList rstring deadline
  | FsRetrieve rstring "(transport, idevice_error) res" deadline
  | FsPropose rstring u32 u32 u32 i64 i64

definition forget :: "(file_service, 'a) act \<Rightarrow> (file_service, unit) act" where
  "forget m s = (case m s of (r, t) \<Rightarrow> (rmap (\<lambda>_. ()) r, t))"

fun fs_call :: "core_lib \<Rightarrow> (nat \<Rightarrow> bool) \<Rightarrow> fs_op \<Rightarrow> (file_service, unit) act" where
  "fs_call cl can_alloc (FsCreate dmn identifier timer) = forget (fs_create_session cl timer dmn identifier)"
| "fs_call cl can_alloc (FsList path timer) = forget (retrieve_directory_list cl timer path)"
| "fs_call cl can_alloc (FsRetrieve path connect_data timer) = forget (retrieve_file cl can_alloc timer path connect_data)"
| "fs_call cl can_alloc (FsPropose path perm uid gid ct mt) = propose_empty_file cl path perm uid gid ct mt"

definition fs_calls :: "core_lib \<Rightarrow> (nat \<Rightarrow> bool) \<Rightarrow> fs_op list \<Rightarrow> file_service \<Rightarrow> file_service" where
  "fs_calls cl can_alloc ops = fold (\<lambda>op s. snd (fs_call cl can_alloc op s)) ops"

text \<open>Alive, or dead without a session.\<close>

definition fs_dead :: "file_service \<Rightarrow> bool" where
  "fs_dead s \<longleftrightarrow> \<not> fs_usable s \<and> fs_session s = None"

lemma fs_dead_invalidate [simp]: "fs_dead (fs_invalidate s)"
  by (simp add: fs_dead_def fs_invalidate_def)

lemma invalidate_dead: "fs_dead s \<Longrightarrow> fs_invalidate s = s"
  by (cases s) (simp add: fs_dead_def fs_invalidate_def)

lemma session_of_same [simp]: "snd (session_of s) = s"
  by (simp add: session_of_def)

text \<open>A dead client answers nothing but errors, and touches its connection no more.\<close>

lemma dead_session: "fs_dead s \<Longrightarrow> session_of s = (Err NoEstablishedConnection, s)"
  by (simp add: session_of_def fs_dead_def)

lemma act_bind_err: "m s = (Err e, t) \<Longrightarrow> act_bind m f s = (Err e, t)"
  by (simp add: act_bind_def)

lemma dead_call:
  assumes "fs_dead s"
  shows "fs_call cl can_alloc op s = (Err NoEstablishedConnection, s)"
proof (cases op)
  case (FsCreate dmn ident timer)
  have "send_receive cl r s = (Err NoEstablishedConnection, s)" for r
    using assms by (simp add: send_receive_def fs_dead_def)
  moreover have "\<not> fs_usable s" using assms by (simp add: fs_dead_def)
  ultimately show ?thesis
    using assms FsCreate by (simp add: forget_def fs_create_session_def within_def act_bind_err is_device_error_def invalidate_dead)
qed (use assms in \<open>simp_all add: forget_def retrieve_directory_list_def retrieve_file_def propose_empty_file_def
  act_bind_err [OF dead_session]\<close>)

lemma dead_calls:
  "fs_dead s \<Longrightarrow> fs_calls cl can_alloc ops s = s"
  by (induction ops) (simp_all add: fs_calls_def dead_call)

text \<open>What an operation can leave behind when it fails.\<close>

definition untouched_or_dead :: "file_service \<Rightarrow> idevice_error \<Rightarrow> file_service \<Rightarrow> bool" where
  "untouched_or_dead s e t \<longleftrightarrow> t = s \<or> is_device_error e \<or> fs_dead t"

lemma within_fails: "within timer m s = (Err e, t) \<Longrightarrow> is_device_error e \<or> fs_dead t"
  by (auto simp: within_def finish_operation_def split: option.splits res.splits prod.splits if_splits)

lemma call_fails:
  assumes "fs_call cl can_alloc op s = (Err e, t)"
  shows "untouched_or_dead s e t \<or> (\<exists>path perm uid gid ct mt. op = FsPropose path perm uid gid ct mt)"
proof (cases op)
  case (FsCreate dmn ident timer)
  with assms within_fails show ?thesis
    by (fastforce simp: forget_def fs_create_session_def untouched_or_dead_def split: prod.splits)
next
  case (FsList path timer)
  show ?thesis
  proof (cases "session_of s")
    case (Pair r u)
    then have u: "u = s" by (metis session_of_same snd_conv)
    with assms FsList Pair within_fails show ?thesis
      by (cases r) (fastforce simp: forget_def retrieve_directory_list_def act_bind_def untouched_or_dead_def split: prod.splits)+
  qed
next
  case (FsRetrieve path connect_data timer)
  show ?thesis
  proof (cases "session_of s")
    case (Pair r u)
    then have u: "u = s" by (metis session_of_same snd_conv)
    with assms FsRetrieve Pair show ?thesis
      by (cases r) (fastforce simp: forget_def retrieve_file_def act_bind_def untouched_or_dead_def split: prod.splits res.splits)+
  qed
qed auto

text \<open>The operations that go through \<open>within\<close>.\<close>

fun guarded :: "fs_op \<Rightarrow> bool" where
  "guarded (FsPropose _ _ _ _ _ _) = False"
| "guarded _ = True"


section \<open>What a download returns\<close>

text \<open>
  However the data port cuts its bytes: the payload behind the preamble and its length, if it is within the limit;
  nothing of a payload beyond the limit is read.
\<close>

lemma tp_write_flush:
  assumes "tp_budget t = None"
  shows "act_bind (tp_write_all bs) (\<lambda>_. act_bind tp_flush f) t = f () (t\<lparr>tp_out := tp_out t @ [bs]\<rparr>)"
  using assms by (simp add: act_bind_def tp_write_all_unlimited tp_flush_unlimited)

lemma download:
  assumes "arrives (preamble @ to_be_bytes (of_nat (length payload) :: u32) @ payload) t" and "length preamble = DATA_PREAMBLE_LEN"
    and "length payload < 2 ^ 32" and "tp_budget t = None"
  shows "\<exists>u. read_data_port can_alloc response file_id t =
    (if FILE_SERVICE_MAX_READ_SIZE < length payload
     then Err (UnexpectedResponse ''FileService payload exceeds the 128 MiB read limit'')
     else if \<not> can_alloc (length payload) then Err (InternalError (rstr ''FileService payload allocation failed''))
     else Ok payload, u) \<and> tp_out u = tp_out t @ [data_request response file_id] \<and>
     (if FILE_SERVICE_MAX_READ_SIZE < length payload then tp_pending u = payload else True)"
proof -
  let ?len = "to_be_bytes (of_nat (length payload) :: u32)"
  let ?t = "t\<lparr>tp_out := tp_out t @ [data_request response file_id]\<rparr>"
  have "arrives (preamble @ ?len @ payload) ?t" using assms(1) by (simp add: arrives_def tp_pending_def)
  from tp_read_exact_arrives [OF this] obtain u where
    u: "tp_read_exact DATA_PREAMBLE_LEN ?t = (Ok preamble, u)" "arrives (?len @ payload) u" using assms(2) by auto
  have l: "length ?len = 4" by simp
  from tp_read_exact_arrives [OF u(2)] obtain w where w: "tp_read_exact 4 u = (Ok ?len, w)" "arrives payload w" by (metis l)
  from tp_read_exact_arrives [of payload "[]" w] w(2) obtain x where
    x: "tp_read_exact (length payload) w = (Ok payload, x)" by auto
  have n: "unat (of_nat (length payload) :: u32) = length payload" using assms(3) by (simp add: unat_of_nat)
  have o: "tp_out w = tp_out ?t" "tp_out x = tp_out w"
    using tp_read_exact_budget [OF u(1)] tp_read_exact_budget [OF w(1)] tp_read_exact_budget [OF x] by simp_all
  have "read_data_port can_alloc response file_id t =
    (if FILE_SERVICE_MAX_READ_SIZE < length payload
     then (Err (UnexpectedResponse ''FileService payload exceeds the 128 MiB read limit''), w)
     else if \<not> can_alloc (length payload) then (Err (InternalError (rstr ''FileService payload allocation failed'')), w)
     else (Ok payload, x))"
    unfolding read_data_port_def tp_write_flush [OF assms(4)] by (simp add: act_bind_def u(1) w(1) n x Let_def)
  then show ?thesis using o w(2) by (auto simp: arrives_def)
qed

end
