(* ===== verification/Pasteboard.thy ===== *)
theory Pasteboard
  imports Core_Services
begin

text \<open>
  services/core\_device/pasteboard\_service.rs: the device's pasteboards. A snapshot lists the items of a pasteboard, each with its
  bytes inline or promised; a promised item is fetched by its position and type.
\<close>

definition TEXT_UTIS :: "rstring list" where
  "TEXT_UTIS = [rstr ''public.utf8-plain-text'', rstr ''public.plain-text'', rstr ''public.text'']"

definition IMAGE_UTIS :: "rstring list" where
  "IMAGE_UTIS = [rstr ''public.png'', rstr ''public.jpeg'', rstr ''public.tiff'']"

datatype data_inclusion_policy = AllResolved | AllPromised | MatchSource | PromiseSecondary | Threshold i64

definition policy_to_xpc :: "core_lib \<Rightarrow> data_inclusion_policy \<Rightarrow> xpc_object" where
  "policy_to_xpc cl p =
    xpc_literal (cl_ins cl)
      [case p of
         AllResolved \<Rightarrow> (''allResolved'', XDictionary [])
       | AllPromised \<Rightarrow> (''allPromised'', XDictionary [])
       | MatchSource \<Rightarrow> (''matchSource'', XDictionary [])
       | PromiseSecondary \<Rightarrow> (''promiseSecondary'', XDictionary [])
       | Threshold bytes \<Rightarrow> (''thresholdData'', xpc_literal (cl_ins cl) [(''bytes'', XInt64 bytes)])]"

datatype pasteboard_payload = Inline "byte list" | Promised "i64 option" | PayloadError rstring

record pasteboard_item =
  pi_index :: nat
  pi_types :: "rstring list"
  pi_data :: "(rstring \<times> pasteboard_payload) list"

record pasteboard_snapshot =
  ps_name :: "rstring option"
  ps_change_count :: "i64 option"
  ps_items :: "pasteboard_item list"

section \<open>Reading a snapshot\<close>

definition parse_pasteboard_payload :: "core_lib \<Rightarrow> plist_value \<Rightarrow> pasteboard_payload" where
  "parse_pasteboard_payload cl datum =
    (case plist_as_dictionary datum of
       None \<Rightarrow> Promised None
     | Some d \<Rightarrow>
         (case Option.bind (dict_get d ''data'') plist_as_data of
            Some bytes \<Rightarrow> Inline bytes
          | None \<Rightarrow>
              (case dict_get d ''error'' of
                 Some err \<Rightarrow> PayloadError (cl_debug cl err)
               | None \<Rightarrow> Promised (Option.bind (dict_get d ''size'') plist_as_signed_integer))))"

definition parse_item :: "core_lib \<Rightarrow> nat \<times> plist_value \<Rightarrow> pasteboard_item" where
  "parse_item cl = (\<lambda>(index, item).
    \<lparr>pi_index = index,
     pi_types = (case Option.bind (at item ''types'') plist_as_array of Some arr \<Rightarrow> List.map_filter plist_as_string arr | None \<Rightarrow> []),
     pi_data = (case Option.bind (at item ''data'') plist_as_dictionary of
         Some m \<Rightarrow> map (\<lambda>(uti, datum). (uti, parse_pasteboard_payload cl datum)) m | None \<Rightarrow> [])\<rparr>)"

definition snapshot_from_message :: "core_lib \<Rightarrow> plist_value \<Rightarrow> (pasteboard_snapshot, idevice_error) res" where
  "snapshot_from_message cl msg =
    rbind (ok_or (CoreDevice (MalformedField ''(root)'')) (plist_as_dictionary msg)) (\<lambda>dict.
      let snapshot = (case dict_field dict ''pasteboard'' of Some p \<Rightarrow> p | None \<Rightarrow> dict);
          metadata = dict_field snapshot ''metadata''
      in Ok \<lparr>ps_name = Option.bind metadata (\<lambda>m. str_field m ''pasteboardName''),
             ps_change_count = Option.bind (Option.bind metadata (\<lambda>m. dict_get m ''changeCount'')) plist_as_signed_integer,
             ps_items = (case Option.bind (dict_get snapshot ''items'') plist_as_array of
                 Some arr \<Rightarrow> map (parse_item cl) (enumerate 0 arr) | None \<Rightarrow> [])\<rparr>)"

text \<open>The first entry of a type (\<open>find\<close>), and the first type of a list with bytes that will do.\<close>

definition inline_bytes :: "pasteboard_item \<Rightarrow> rstring \<Rightarrow> byte list option" where
  "inline_bytes item uti = (case map_of (pi_data item) uti of Some (Inline bytes) \<Rightarrow> Some bytes | _ \<Rightarrow> None)"

fun first_inline :: "(byte list \<Rightarrow> bool) \<Rightarrow> pasteboard_item \<Rightarrow> rstring list \<Rightarrow> (rstring \<times> byte list) option" where
  "first_inline good item [] = None"
| "first_inline good item (uti # utis) =
    (case inline_bytes item uti of
       Some bytes \<Rightarrow> if good bytes then Some (uti, bytes) else first_inline good item utis
     | None \<Rightarrow> first_inline good item utis)"

fun first_of_items :: "(byte list \<Rightarrow> bool) \<Rightarrow> rstring list \<Rightarrow> pasteboard_item list \<Rightarrow> (rstring \<times> byte list) option" where
  "first_of_items good utis [] = None"
| "first_of_items good utis (item # items) =
    (case first_inline good item utis of Some x \<Rightarrow> Some x | None \<Rightarrow> first_of_items good utis items)"

definition snapshot_text :: "pasteboard_snapshot \<Rightarrow> rstring option" where
  "snapshot_text s = map_option snd (first_of_items utf8_valid TEXT_UTIS (ps_items s))"

definition snapshot_image :: "pasteboard_snapshot \<Rightarrow> (rstring \<times> byte list) option" where
  "snapshot_image s = first_of_items (\<lambda>_. True) IMAGE_UTIS (ps_items s)"

definition promised_entries :: "pasteboard_item \<Rightarrow> (i64 \<times> rstring \<times> i64 option) list" where
  "promised_entries item =
    List.map_filter (\<lambda>(uti, payload). case payload of Promised sz \<Rightarrow> Some (of_nat (pi_index item), uti, sz) | _ \<Rightarrow> None) (pi_data item)"

definition promised_items :: "pasteboard_snapshot \<Rightarrow> (i64 \<times> rstring \<times> i64 option) list" where
  "promised_items s = concat (map promised_entries (ps_items s))"

section \<open>The client\<close>

definition pb_exchange :: "core_lib \<Rightarrow> (string \<times> xpc_object) list \<Rightarrow> (xpc_client, plist_value) act" where
  "pb_exchange cl msg =
    act_bind (send_object (xpc_literal (cl_ins cl) msg) True) (\<lambda>_. recv (cl_ins cl) (cl_to_pl cl))"

definition get_with_policy :: "core_lib \<Rightarrow> rstring \<Rightarrow> data_inclusion_policy \<Rightarrow> (xpc_client, pasteboard_snapshot) act" where
  "get_with_policy cl pasteboard_name policy =
    act_bind (pb_exchange cl [(''command'', XString (rstr ''PULL'')), (''pasteboardName'', XString pasteboard_name),
      (''dataPolicy'', policy_to_xpc cl policy)]) (\<lambda>reply. act_res (snapshot_from_message cl reply))"

definition pasteboard_get :: "core_lib \<Rightarrow> rstring \<Rightarrow> (xpc_client, pasteboard_snapshot) act" where
  "pasteboard_get cl pasteboard_name = get_with_policy cl pasteboard_name AllResolved"

definition set_items :: "core_lib \<Rightarrow> rstring \<Rightarrow> rstring list \<Rightarrow> byte list \<Rightarrow> (xpc_client, unit) act" where
  "set_items cl pasteboard_name utis bytes =
    (let data = XDictionary (fold (\<lambda>uti. cl_ins cl uti (xpc_literal (cl_ins cl) [(''data'', XData bytes)])) utis [])
     in act_bind (pb_exchange cl [(''command'', XString (rstr ''SET'')), (''pasteboardName'', XString pasteboard_name),
          (''items'', XArray [xpc_literal (cl_ins cl) [(''types'', XArray (map XString utis)), (''data'', data)]]),
          (''sourceMetadata'', XNull)]) (\<lambda>_. act_ok ()))"

definition set_text :: "core_lib \<Rightarrow> rstring \<Rightarrow> rstring \<Rightarrow> (xpc_client, unit) act" where
  "set_text cl txt pasteboard_name = set_items cl pasteboard_name TEXT_UTIS txt"

definition set_image :: "core_lib \<Rightarrow> byte list \<Rightarrow> rstring \<Rightarrow> rstring \<Rightarrow> (xpc_client, unit) act" where
  "set_image cl bytes uti pasteboard_name = set_items cl pasteboard_name [uti] bytes"

definition resolve_raw :: "core_lib \<Rightarrow> rstring \<Rightarrow> i64 \<Rightarrow> rstring \<Rightarrow> (xpc_client, plist_value) act" where
  "resolve_raw cl pasteboard_name item_index uti =
    pb_exchange cl [(''command'', XString (rstr ''RESOLVE'')), (''pasteboardName'', XString pasteboard_name),
      (''itemIndex'', XInt64 item_index), (''type'', XString uti)]"

definition resolve :: "core_lib \<Rightarrow> rstring \<Rightarrow> i64 \<Rightarrow> rstring \<Rightarrow> (xpc_client, byte list option) act" where
  "resolve cl pasteboard_name item_index uti =
    act_bind (resolve_raw cl pasteboard_name item_index uti) (\<lambda>reply. act_ok (Option.bind (at reply ''data'') plist_as_data))"

definition set_change_notifications :: "core_lib \<Rightarrow> bool \<Rightarrow> rstring \<Rightarrow> data_inclusion_policy option \<Rightarrow> (xpc_client, unit) act" where
  "set_change_notifications cl enable pasteboard_name policy =
    send_object (xpc_literal (cl_ins cl) [(''command'', XString (rstr ''AUTONOTIFY'')), (''enable'', XBool enable),
      (''pasteboardName'', XString pasteboard_name),
      (''dataPolicy'', case policy of Some p \<Rightarrow> policy_to_xpc cl p | None \<Rightarrow> XNull)]) False"

definition recv_push :: "core_lib \<Rightarrow> (xpc_client, pasteboard_snapshot) act" where
  "recv_push cl = act_bind (recv_root (cl_ins cl) (cl_to_pl cl)) (\<lambda>push. act_res (snapshot_from_message cl push))"

section \<open>What a snapshot offers\<close>

text \<open>Every promise names an entry of the snapshot that has no bytes: the position and type to resolve, and nothing else is promised.\<close>

lemma promised_entries_iff:
  "(i, uti, sz) \<in> set (promised_entries item) \<longleftrightarrow> i = of_nat (pi_index item) \<and> (uti, Promised sz) \<in> set (pi_data item)"
proof -
  have "(i, uti, sz) \<in> set (List.map_filter (\<lambda>(uti, payload). case payload of Promised sz \<Rightarrow> Some (k, uti, sz) | _ \<Rightarrow> None) es) \<longleftrightarrow>
    i = k \<and> (uti, Promised sz) \<in> set es" for k es
  proof (induction es)
    case (Cons e es)
    obtain a b where "e = (a, b)" by fastforce
    with Cons show ?case by (cases b) (auto simp: map_filter_simps)
  qed (simp add: map_filter_simps)
  then show ?thesis by (simp add: promised_entries_def)
qed

lemma promised_items_iff:
  assumes "snapshot_from_message cl msg = Ok s"
  shows "(i, uti, sz) \<in> set (promised_items s) \<longleftrightarrow>
    (\<exists>k < length (ps_items s). i = of_nat k \<and> (uti, Promised sz) \<in> set (pi_data (ps_items s ! k)))"
proof -
  have "\<exists>arr. ps_items s = map (parse_item cl) (enumerate 0 arr)"
    using assms(1) by (auto simp: snapshot_from_message_def Let_def split: option.splits intro: exI [of _ "[]"]) auto
  then obtain arr where s: "ps_items s = map (parse_item cl) (enumerate 0 arr)" ..
  have n: "pi_index (ps_items s ! k) = k" if "k < length (ps_items s)" for k
    using that by (simp add: s parse_item_def nth_enumerate_eq)
  have "(i, uti, sz) \<in> set (promised_items s) \<longleftrightarrow> (\<exists>k < length (ps_items s). (i, uti, sz) \<in> set (promised_entries (ps_items s ! k)))"
    by (simp add: promised_items_def) (metis in_set_conv_nth)
  also have "\<dots> \<longleftrightarrow> (\<exists>k < length (ps_items s). i = of_nat k \<and> (uti, Promised sz) \<in> set (pi_data (ps_items s ! k)))"
    using n by (auto simp: promised_entries_iff)
  finally show ?thesis .
qed

end
