(* ===== verification/Remote_Pairing.thy ===== *)
theory Remote_Pairing
  imports Core_Services Tlv8 Opack
begin

text \<open>
  remote\_pairing/mod.rs with socket.rs, rp\_pairing\_file.rs, peer\_device.rs and lockdown.rs: pairing with a device over
  SRP, verifying an existing pairing, and the encrypted requests after it. The cryptography (X25519, Ed25519, HKDF-SHA512,
  ChaCha20-Poly1305, SRP-6a, SipHash, base64), JSON and every random value are parameters; a cipher is its key.
\<close>

section \<open>Cryptography and JSON\<close>

record crypto =
  cy_x25519 :: "byte list \<Rightarrow> byte list"
  cy_dh :: "byte list \<Rightarrow> byte list \<Rightarrow> byte list"
  cy_hkdf :: "byte list option \<Rightarrow> byte list \<Rightarrow> byte list \<Rightarrow> byte list"
  cy_seal :: "byte list \<Rightarrow> byte list \<Rightarrow> byte list \<Rightarrow> byte list option"
  cy_open :: "byte list \<Rightarrow> byte list \<Rightarrow> byte list \<Rightarrow> byte list option"
  cy_ed25519 :: "byte list \<Rightarrow> byte list"
  cy_sign :: "byte list \<Rightarrow> byte list \<Rightarrow> byte list"
  cy_siphash :: "u64 \<Rightarrow> u64 \<Rightarrow> byte list \<Rightarrow> u64"
  cy_b64 :: "byte list \<Rightarrow> rstring"
  cy_unb64 :: "rstring \<Rightarrow> byte list option"

text \<open>
  SRP-6a: the public value of a secret; what a client makes of the server's answer (its proof, the session key, the check
  of the server's proof); and the same for a server.
\<close>

record srp =
  sr_client_public :: "byte list \<Rightarrow> byte list"
  sr_client_reply :: "byte list \<Rightarrow> byte list \<Rightarrow> byte list \<Rightarrow> byte list \<Rightarrow> (byte list \<times> byte list \<times> (byte list \<Rightarrow> bool)) option"
  sr_verifier :: "byte list \<Rightarrow> byte list \<Rightarrow> byte list"
  sr_server_public :: "byte list \<Rightarrow> byte list \<Rightarrow> byte list"
  sr_server_reply :: "byte list \<Rightarrow> byte list \<Rightarrow> byte list \<Rightarrow> byte list \<Rightarrow> (byte list \<times> byte list \<times> (byte list \<Rightarrow> bool)) option"

datatype json = JNull | JBool bool | JNumber int | JText rstring | JArray "json list" | JObject "(rstring \<times> json) list"

definition json_get :: "string \<Rightarrow> json \<Rightarrow> json option" where
  "json_get k v = (case v of JObject kvs \<Rightarrow> map_of kvs (rstr k) | _ \<Rightarrow> None)"

record json_lib =
  js_parse :: "byte list \<Rightarrow> (json, idevice_error) res"
  js_text :: "json \<Rightarrow> (byte list, idevice_error) res"
  js_to_plist :: "json \<Rightarrow> plist_value option"
  js_of_plist :: "plist_value \<Rightarrow> json option"

definition jobj :: "(string \<times> json) list \<Rightarrow> json" where
  "jobj kvs = JObject (map (\<lambda>(k, v). (rstr k, v)) kvs)"

text \<open>\<open>.unwrap()\<close>\<close>

definition or_panic :: "'a option \<Rightarrow> ('a, idevice_error) res" where
  "or_panic x = (case x of Some a \<Rightarrow> Ok a | None \<Rightarrow> Panic)"

section \<open>The two carriers of pairing messages\<close>

record 's rp_provider =
  rp_send_plain :: "plist_value \<Rightarrow> nat \<Rightarrow> ('s, unit) act"
  rp_send_encrypted :: "byte list \<Rightarrow> nat \<Rightarrow> ('s, unit) act"
  rp_recv_plain :: "('s, plist_value) act"
  rp_serialize :: "byte list \<Rightarrow> plist_value"
  rp_deserialize :: "plist_value \<Rightarrow> byte list option"

definition RPPAIRING_MAGIC :: "byte list" where "RPPAIRING_MAGIC = rstr ''RPPairing''"
definition WIRE_PROTOCOL_VERSION :: byte where "WIRE_PROTOCOL_VERSION = 19"

definition rp_frame :: "byte list \<Rightarrow> byte list" where
  "rp_frame x = RPPAIRING_MAGIC @ to_be_bytes (of_nat (length x) :: u16) @ x"

definition send_rppairing :: "json_lib \<Rightarrow> json \<Rightarrow> (transport, unit) act" where
  "send_rppairing jl v =
    act_bind (act_res (js_text jl v)) (\<lambda>x. act_bind (tp_write_all (rp_frame x)) (\<lambda>_. tp_flush))"

definition socket_send_plain :: "json_lib \<Rightarrow> rstring \<Rightarrow> plist_value \<Rightarrow> nat \<Rightarrow> (transport, unit) act" where
  "socket_send_plain jl originated_by v seq =
    act_bind (act_res (or_panic (js_of_plist jl v))) (\<lambda>j.
    send_rppairing jl (jobj [(''message'', jobj [(''plain'', jobj [(''_0'', j)])]), (''originatedBy'', JText originated_by),
      (''sequenceNumber'', JNumber (int seq))]))"

definition socket_send_encrypted :: "crypto \<Rightarrow> json_lib \<Rightarrow> rstring \<Rightarrow> byte list \<Rightarrow> nat \<Rightarrow> (transport, unit) act" where
  "socket_send_encrypted cy jl originated_by ciphertext seq =
    send_rppairing jl (jobj [(''message'', jobj [(''streamEncrypted'', jobj [(''_0'', JText (cy_b64 cy ciphertext))])]),
      (''originatedBy'', JText originated_by), (''sequenceNumber'', JNumber (int seq))])"

text \<open>The magic of an arriving frame is read, not compared.\<close>

definition plain_of :: "json \<Rightarrow> json" where
  "plain_of v =
    (case Option.bind (Option.bind (json_get ''message'' v) (json_get ''plain'')) (json_get ''_0'') of
       Some p \<Rightarrow> p | None \<Rightarrow> v)"

definition socket_recv_plain :: "json_lib \<Rightarrow> (transport, plist_value) act" where
  "socket_recv_plain jl =
    act_bind (tp_read_exact (length RPPAIRING_MAGIC)) (\<lambda>_.
    act_bind (tp_read_exact 2) (\<lambda>packet_len_bytes.
    act_bind (tp_read_exact (unat (from_be_bytes packet_len_bytes :: u16))) (\<lambda>body.
    act_bind (act_res (js_parse jl body)) (\<lambda>v.
    act_res (or_panic (js_to_plist jl (plain_of v)))))))"

definition rp_pairing_socket :: "crypto \<Rightarrow> json_lib \<Rightarrow> rstring \<Rightarrow> transport rp_provider" where
  "rp_pairing_socket cy jl originated_by =
    \<lparr>rp_send_plain = socket_send_plain jl originated_by, rp_send_encrypted = socket_send_encrypted cy jl originated_by,
     rp_recv_plain = socket_recv_plain jl, rp_serialize = (\<lambda>b. PString (cy_b64 cy b)),
     rp_deserialize = (\<lambda>v. Option.bind (plist_as_string v) (cy_unb64 cy))\<rparr>"

definition control_envelope :: "core_lib \<Rightarrow> xpc_object \<Rightarrow> nat \<Rightarrow> xpc_object" where
  "control_envelope cl message seq =
    xpc_literal (cl_ins cl)
      [(''mangledTypeName'', XString (rstr ''RemotePairing.ControlChannelMessageEnvelope'')),
       (''value'', xpc_literal (cl_ins cl) [(''message'', message), (''originatedBy'', XString (rstr ''host'')),
          (''sequenceNumber'', XUInt64 (of_nat seq))])]"

definition xpc_send_plain :: "core_lib \<Rightarrow> plist_value \<Rightarrow> nat \<Rightarrow> (xpc_client, unit) act" where
  "xpc_send_plain cl v seq =
    act_bind (act_res (from_plist (cl_ins cl) v)) (\<lambda>v.
    send_object (control_envelope cl (xpc_literal (cl_ins cl) [(''plain'', xpc_literal (cl_ins cl) [(''_0'', v)])]) seq) True)"

definition xpc_send_encrypted :: "core_lib \<Rightarrow> byte list \<Rightarrow> nat \<Rightarrow> (xpc_client, unit) act" where
  "xpc_send_encrypted cl ciphertext seq =
    send_object (control_envelope cl (xpc_literal (cl_ins cl) [(''streamEncrypted'', xpc_literal (cl_ins cl) [(''_0'', XData ciphertext)])]) seq) True"

definition xpc_recv_plain :: "core_lib \<Rightarrow> (xpc_client, plist_value) act" where
  "xpc_recv_plain cl =
    act_bind (recv_root (cl_ins cl) (cl_to_pl cl)) (\<lambda>msg.
    act_bind (act_res (ok_or (UnexpectedResponse ''missing value field in RemoteXPC message'') (at msg ''value''))) (\<lambda>msg.
      act_ok (case Option.bind (Option.bind (at msg ''message'') (\<lambda>m. at m ''plain'')) (\<lambda>p. at p ''_0'') of
        Some plain \<Rightarrow> plain | None \<Rightarrow> msg)))"

definition xpc_provider :: "core_lib \<Rightarrow> xpc_client rp_provider" where
  "xpc_provider cl =
    \<lparr>rp_send_plain = xpc_send_plain cl, rp_send_encrypted = xpc_send_encrypted cl, rp_recv_plain = xpc_recv_plain cl,
     rp_serialize = PData, rp_deserialize = plist_as_data\<rparr>"

text \<open>lockdown.rs: the same conversation over USB, on the socket of a lockdown connection\<close>

definition into_client_socket :: "idevice \<Rightarrow> (transport, idevice_error) res" where
  "into_client_socket d = ok_or NoEstablishedConnection (get_socket d)"

section \<open>Pairing files\<close>

record rp_pairing_file =
  rf_private :: "byte list"
  rf_public :: "byte list"
  rf_identifier :: rstring
  rf_alt_irk :: "byte list option"

text \<open>\<open>seed\<close> is the random signing key, \<open>uuid_v3\<close> the identifier of a host's name.\<close>

definition rp_generate :: "crypto \<Rightarrow> (rstring \<Rightarrow> rstring) \<Rightarrow> byte list \<Rightarrow> rstring \<Rightarrow> rp_pairing_file" where
  "rp_generate cy uuid_v3 seed sending_host =
    \<lparr>rf_private = seed, rf_public = cy_ed25519 cy seed, rf_identifier = uuid_v3 sending_host, rf_alt_irk = None\<rparr>"

definition recreate_signing_keys :: "crypto \<Rightarrow> byte list \<Rightarrow> rp_pairing_file \<Rightarrow> rp_pairing_file" where
  "recreate_signing_keys cy seed pf = pf\<lparr>rf_public := cy_ed25519 cy seed, rf_private := seed, rf_alt_irk := None\<rparr>"

definition rp_to_dict :: "rp_pairing_file \<Rightarrow> plist_dict" where
  "rp_to_dict pf =
    map (\<lambda>(k, v). (rstr k, v)) [(''public_key'', PData (rf_public pf)), (''private_key'', PData (rf_private pf)),
      (''identifier'', PString (rf_identifier pf))] @
    opt_entry ''alt_irk'' PData (rf_alt_irk pf)"

definition rp_to_bytes :: "(plist_dict \<Rightarrow> byte list) \<Rightarrow> rp_pairing_file \<Rightarrow> byte list" where
  "rp_to_bytes to_xml pf = to_xml (rp_to_dict pf)"

text \<open>\<open>valid_key\<close> is whether 32 bytes are a point of the curve.\<close>

definition key_field :: "plist_dict \<Rightarrow> string \<Rightarrow> (byte list \<Rightarrow> bool) \<Rightarrow> (byte list, idevice_error) res" where
  "key_field p k good =
    (case Option.bind (dict_get p k) plist_as_data of
       Some x \<Rightarrow> if length x = 32 \<and> good x then Ok x else Err Plist
     | None \<Rightarrow> Err Plist)"

definition rp_from_dict :: "(byte list \<Rightarrow> bool) \<Rightarrow> plist_dict \<Rightarrow> (rp_pairing_file, idevice_error) res" where
  "rp_from_dict valid_key p =
    rbind (key_field p ''public_key'' valid_key) (\<lambda>pub.
    rbind (key_field p ''private_key'' (\<lambda>_. True)) (\<lambda>priv.
    rbind (ok_or Plist (str_field p ''identifier'')) (\<lambda>identifier.
    Ok \<lparr>rf_private = priv, rf_public = pub, rf_identifier = identifier,
        rf_alt_irk = Option.bind (dict_get p ''alt_irk'') plist_as_data\<rparr>)))"

definition rp_from_bytes :: "plist_lib \<Rightarrow> (byte list \<Rightarrow> bool) \<Rightarrow> byte list \<Rightarrow> (rp_pairing_file, idevice_error) res" where
  "rp_from_bytes pl valid_key bytes = rbind (pl_from_bytes pl bytes) (\<lambda>v. rbind (pl_to_dict pl v) (rp_from_dict valid_key))"

section \<open>The device at the other end\<close>

record peer_device =
  pd_account_id :: rstring
  pd_alt_irk :: "byte list"
  pd_model :: rstring
  pd_name :: rstring
  pd_udid :: rstring

definition required_string_field :: "plist_dict \<Rightarrow> string \<Rightarrow> (rstring, idevice_error) res" where
  "required_string_field d k = ok_or (UnexpectedResponse (''missing string field `'' @ k @ ''` in peer device info'')) (str_field d k)"

definition required_data_field :: "plist_dict \<Rightarrow> string \<Rightarrow> (byte list, idevice_error) res" where
  "required_data_field d k =
    ok_or (UnexpectedResponse (''missing data field `'' @ k @ ''` in peer device info'')) (Option.bind (dict_get d k) plist_as_data)"

definition try_from_info_dictionary :: "plist_dict \<Rightarrow> (peer_device, idevice_error) res" where
  "try_from_info_dictionary d =
    rbind (required_data_field d ''altIRK'') (\<lambda>alt_irk.
    if length alt_irk \<noteq> 16
    then Err (UnexpectedResponse (''invalid altIRK length in peer device info: expected 16 bytes, got '' @ text_of (show_nat (length alt_irk))))
    else
      rbind (required_string_field d ''accountID'') (\<lambda>account_id.
      rbind (required_string_field d ''model'') (\<lambda>model.
      rbind (required_string_field d ''name'') (\<lambda>name.
      rbind (required_string_field d ''remotepairing_udid'') (\<lambda>udid.
      Ok \<lparr>pd_account_id = account_id, pd_alt_irk = alt_irk, pd_model = model, pd_name = name, pd_udid = udid\<rparr>)))))"

definition parse_info_dictionary_from_tlv :: "plist_ins \<Rightarrow> tlv8_entry list \<Rightarrow> (plist_dict, idevice_error) res" where
  "parse_info_dictionary_from_tlv ins entries =
    (if contains_component entries TlvErrorResponse then Err (UnexpectedResponse ''TLV error response in pair record save'')
     else let info = collect_component_data entries TlvInfo
          in if info = [] then Err (UnexpectedResponse ''missing info payload in pair record response'')
             else (case opack_to_plist ins info of
                     Ok v \<Rightarrow> ok_or (UnexpectedResponse ''info OPACK payload is not a dictionary'') (plist_as_dictionary v)
                   | Err e \<Rightarrow> Err (UnexpectedResponse ''failed to parse OPACK info payload from pair record response'')
                   | Panic \<Rightarrow> Panic))"

definition parse_peer_device_from_tlv :: "plist_ins \<Rightarrow> tlv8_entry list \<Rightarrow> (peer_device, idevice_error) res" where
  "parse_peer_device_from_tlv ins entries = rbind (parse_info_dictionary_from_tlv ins entries) try_from_info_dictionary"

text \<open>The tag a device advertises: six bytes of a keyed hash of the service's identifier, backwards.\<close>

definition compute_auth_tag :: "crypto \<Rightarrow> byte list \<Rightarrow> rstring \<Rightarrow> byte list" where
  "compute_auth_tag cy alt_irk service_identifier =
    rev (take 6 (to_le_bytes (cy_siphash cy (from_le_bytes (take 8 alt_irk)) (from_le_bytes (take 8 (drop 8 alt_irk))) service_identifier)))"

definition validate_auth_tag :: "crypto \<Rightarrow> byte list \<Rightarrow> rstring \<Rightarrow> rstring \<Rightarrow> bool" where
  "validate_auth_tag cy alt_irk service_identifier auth_tag =
    (case cy_unb64 cy auth_tag of
       None \<Rightarrow> False
     | Some bytes \<Rightarrow> length bytes = 6 \<and> length alt_irk = 16 \<and> compute_auth_tag cy alt_irk service_identifier = bytes)"

section \<open>Round trips\<close>

text \<open>A pairing file written and read back, with or without the device's key.\<close>

lemma rp_file_round_trip:
  "rp_from_dict valid_key (rp_to_dict pf) =
    (if length (rf_public pf) = 32 \<and> valid_key (rf_public pf) \<and> length (rf_private pf) = 32 then Ok pf else Err Plist)"
  by (cases pf) (auto simp: rp_from_dict_def rp_to_dict_def key_field_def dict_get_def plist_as_data_def str_field_def
    plist_as_string_def opt_entry_def split: option.splits)

text \<open>The auth tag a host advertises is the one a device that knows its key accepts.\<close>

lemma auth_tag_accepted:
  assumes "length alt_irk = 16" and "cy_unb64 cy (cy_b64 cy (compute_auth_tag cy alt_irk sid)) = Some (compute_auth_tag cy alt_irk sid)"
  shows "validate_auth_tag cy alt_irk sid (cy_b64 cy (compute_auth_tag cy alt_irk sid))"
  using assms by (simp add: validate_auth_tag_def compute_auth_tag_def)

text \<open>
  What a reader makes of a frame: the length is cut to 16 bits, so a message of 65536 bytes or more is read as its head, and the
  rest of it taken for the next frame.
\<close>

lemma rp_frame_read:
  assumes "arrives (rp_frame x @ rest) t"
  shows "\<exists>u. socket_recv_plain jl t =
      (rbind (js_parse jl (take (length x mod 2 ^ 16) x)) (\<lambda>v. or_panic (js_to_plist jl (plain_of v))), u) \<and>
    arrives (drop (length x mod 2 ^ 16) x @ rest) u"
proof -
  let ?n = "length x mod 2 ^ 16"
  let ?len = "to_be_bytes (of_nat (length x) :: u16)"
  have f: "rp_frame x @ rest = RPPAIRING_MAGIC @ ?len @ take ?n x @ drop ?n x @ rest"
    by (simp add: rp_frame_def flip: append_assoc [of "take _ _" "drop _ _"])
  from tp_read_exact_arrives [OF assms [unfolded f]] obtain a where
    a: "tp_read_exact (length RPPAIRING_MAGIC) t = (Ok RPPAIRING_MAGIC, a)" "arrives (?len @ take ?n x @ drop ?n x @ rest) a" by blast
  have l: "length ?len = 2" by simp
  from tp_read_exact_arrives [OF a(2)] obtain b where
    b: "tp_read_exact 2 a = (Ok ?len, b)" "arrives (take ?n x @ drop ?n x @ rest) b" by (metis l)
  have n: "length (take ?n x) = ?n" by simp
  have u: "unat (of_nat (length x) :: u16) = ?n" by (simp add: unat_of_nat)
  from tp_read_exact_arrives [OF b(2)] obtain c where
    c: "tp_read_exact ?n b = (Ok (take ?n x), c)" "arrives (drop ?n x @ rest) c" by (metis n)
  have "socket_recv_plain jl t = (rbind (js_parse jl (take ?n x)) (\<lambda>v. or_panic (js_to_plist jl (plain_of v))), c)"
    by (cases "js_parse jl (take ?n x)")
      (simp_all add: socket_recv_plain_def act_bind_def a(1) b(1) u c(1) [simplified] act_res_def del: take_append)
  with c(2) show ?thesis by blast
qed

end
