(* ===== verification/Pairing_Client.thy ===== *)
theory Pairing_Client
  imports Remote_Pairing
begin

text \<open>
  remote\_pairing/mod.rs: the host that pairs with a device. Its state is the carrier, two counters, the session's key and the keys
  of the two ciphers derived from it; the file it pairs with is a second component of the state where it is changed.
\<close>

record 's rp_client =
  rc_inner :: 's
  rc_seq :: nat
  rc_enc_seq :: u64
  rc_host :: rstring
  rc_key :: "byte list"
  rc_client_key :: "byte list"
  rc_server_key :: "byte list"
  rc_peer :: "peer_device option"

definition main_keys :: "crypto \<Rightarrow> byte list \<Rightarrow> byte list \<times> byte list" where
  "main_keys cy key = (cy_hkdf cy None key (rstr ''ClientEncrypt-main''), cy_hkdf cy None key (rstr ''ServerEncrypt-main''))"

definition rp_client_new :: "crypto \<Rightarrow> 's \<Rightarrow> rstring \<Rightarrow> 's rp_client" where
  "rp_client_new cy inner sending_host =
    \<lparr>rc_inner = inner, rc_seq = 0, rc_enc_seq = 0, rc_host = sending_host, rc_key = replicate 32 0,
     rc_client_key = fst (main_keys cy (replicate 32 0)), rc_server_key = snd (main_keys cy (replicate 32 0)), rc_peer = None\<rparr>"

definition set_main_keys :: "crypto \<Rightarrow> byte list \<Rightarrow> 's rp_client \<Rightarrow> 's rp_client" where
  "set_main_keys cy key s = s\<lparr>rc_client_key := fst (main_keys cy key), rc_server_key := snd (main_keys cy key)\<rparr>"

definition on_rp :: "('s, 'a) act \<Rightarrow> ('s rp_client, 'a) act" where
  "on_rp m s = (case m (rc_inner s) of (r, i) \<Rightarrow> (r, s\<lparr>rc_inner := i\<rparr>))"

section \<open>Messages\<close>

definition rp_send :: "'s rp_provider \<Rightarrow> plist_value \<Rightarrow> ('s rp_client, unit) act" where
  "rp_send P v =
    act_bind (\<lambda>s. on_rp (rp_send_plain P v (rc_seq s)) s) (\<lambda>_. act_upd (\<lambda>s. s\<lparr>rc_seq := Suc (rc_seq s)\<rparr>))"

definition pairing_data_event :: "plist_value \<Rightarrow> plist_value" where
  "pairing_data_event v = obj [(''event'', obj [(''_0'', obj [(''pairingData'', obj [(''_0'', v)])])])]"

definition send_pairing_data :: "'s rp_provider \<Rightarrow> plist_value \<Rightarrow> ('s rp_client, unit) act" where
  "send_pairing_data P v = rp_send P (pairing_data_event v)"

definition rejection_of :: "plist_value \<Rightarrow> idevice_error" where
  "rejection_of err =
    RemotePairing (PairingRejected
      (case Option.bind (Option.bind (Option.bind (at err ''wrappedError'') (\<lambda>x. at x ''userInfo''))
          (\<lambda>x. at x ''NSLocalizedDescription'')) plist_as_string of Some t \<Rightarrow> t | None \<Rightarrow> []))"

definition event_data :: "plist_value \<Rightarrow> plist_value option" where
  "event_data e = Option.bind (Option.bind (at e ''pairingData'') (\<lambda>x. at x ''_0'')) (\<lambda>x. at x ''data'')"

definition pairing_data_of :: "plist_value \<Rightarrow> (plist_value, idevice_error) res" where
  "pairing_data_of response =
    (case Option.bind (at response ''event'') (\<lambda>x. at x ''_0'') of
       None \<Rightarrow> Err (UnexpectedResponse ''missing event._0 in pairing data response'')
     | Some e \<Rightarrow>
         (case event_data e of
            Some data \<Rightarrow> Ok data
          | None \<Rightarrow>
              (case at e ''pairingRejectedWithError'' of
                 Some err \<Rightarrow> Err (rejection_of err)
               | None \<Rightarrow> Err (UnexpectedResponse ''pairing data response contained neither data nor rejection''))))"

definition receive_pairing_data :: "'s rp_provider \<Rightarrow> ('s rp_client, plist_value) act" where
  "receive_pairing_data P = act_bind (on_rp (rp_recv_plain P)) (\<lambda>response. act_res (pairing_data_of response))"

text \<open>\<open>tlv::deserialize\_tlv8(&R::deserialize_bytes(..)?)?\<close>\<close>

definition pairing_err :: "('a, remote_pairing_error) res \<Rightarrow> ('a, idevice_error) res" where
  "pairing_err r = (case r of Ok a \<Rightarrow> Ok a | Err e \<Rightarrow> Err (RemotePairing e) | Panic \<Rightarrow> Panic)"

definition tlv_of :: "'s rp_provider \<Rightarrow> string \<Rightarrow> plist_value \<Rightarrow> (tlv8_entry list, idevice_error) res" where
  "tlv_of P what v =
    rbind (ok_or (UnexpectedResponse what) (rp_deserialize P v)) (\<lambda>d. pairing_err (deserialize_tlv8 d))"

definition tlv_entry :: "tlv_type \<Rightarrow> byte list \<Rightarrow> tlv8_entry" where
  "tlv_entry t d = \<lparr>tlv_type = t, tlv_data = d\<rparr>"

definition find_tlv :: "tlv8_entry list \<Rightarrow> tlv_type \<Rightarrow> byte list option" where
  "find_tlv entries t = map_option tlv_data (find (\<lambda>x. tlv_type x = t) entries)"

text \<open>The nonce of a message named by eight characters.\<close>

definition msg_nonce :: "string \<Rightarrow> byte list" where
  "msg_nonce name = replicate 4 0 @ rstr name"

section \<open>Verifying a pairing\<close>

definition send_pair_verified_failed :: "'s rp_provider \<Rightarrow> ('s rp_client, unit) act" where
  "send_pair_verified_failed P = rp_send P (obj [(''event'', obj [(''_0'', obj [(''pairVerifyFailed'', obj [])])])])"

definition verify_failed :: "'s rp_provider \<Rightarrow> ('s rp_client, 'a) act" where
  "verify_failed P = act_bind (send_pair_verified_failed P) (\<lambda>_. act_err (RemotePairing PairVerifyFailed))"

definition send_verify :: "'s rp_provider \<Rightarrow> tlv8_entry list \<Rightarrow> bool \<Rightarrow> ('s rp_client, unit) act" where
  "send_verify P entries start_new =
    send_pairing_data P (obj [(''data'', rp_serialize P (serialize_tlv8 entries)), (''kind'', PString (rstr ''verifyManualPairing'')),
      (''startNewSession'', PBoolean start_new)])"

definition device_key_of :: "tlv8_entry list \<Rightarrow> (byte list, idevice_error) res" where
  "device_key_of data =
    rbind (ok_or (UnexpectedResponse ''missing public key in pair-verify TLV data'') (find_tlv data TlvPublicKey)) (\<lambda>k.
      if length k = 32 then Ok k else Err (NotEnoughBytes 32 (length k)))"

text \<open>Our proof: the signature of both public keys and our name, sealed under the shared secret.\<close>

definition verify_proof :: "crypto \<Rightarrow> rp_pairing_file \<Rightarrow> byte list \<Rightarrow> byte list \<Rightarrow> byte list \<Rightarrow> (byte list, idevice_error) res" where
  "verify_proof cy pf x_public device_key shared_secret =
    (let okm = cy_hkdf cy (Some (rstr ''Pair-Verify-Encrypt-Salt'')) shared_secret (rstr ''Pair-Verify-Encrypt-Info'');
         signature = cy_sign cy (rf_private pf) (x_public @ rf_identifier pf @ device_key);
         plaintext = serialize_tlv8 [tlv_entry TlvIdentifier (rf_identifier pf), tlv_entry TlvSignature signature]
     in or_panic (cy_seal cy okm (msg_nonce ''PV-Msg03'') plaintext))"

definition validate_pairing :: "crypto \<Rightarrow> 's rp_provider \<Rightarrow> rp_pairing_file \<Rightarrow> byte list \<Rightarrow> ('s rp_client, unit) act" where
  "validate_pairing cy P pf x_private =
    act_bind (send_verify P [tlv_entry TlvState [0x01], tlv_entry TlvPublicKey (cy_x25519 cy x_private)] True) (\<lambda>_.
    act_bind (receive_pairing_data P) (\<lambda>data.
    act_bind (act_res (tlv_of P ''failed to deserialize pair-verify response bytes'' data)) (\<lambda>data.
      if contains_component data TlvErrorResponse then verify_failed P
      else
        act_bind (act_res (device_key_of data)) (\<lambda>device_key.
        let shared_secret = cy_dh cy x_private device_key
        in act_bind (act_upd (\<lambda>s. s\<lparr>rc_key := shared_secret\<rparr>)) (\<lambda>_.
           act_bind (act_res (verify_proof cy pf (cy_x25519 cy x_private) device_key shared_secret)) (\<lambda>ciphertext.
           act_bind (send_verify P [tlv_entry TlvState [0x03], tlv_entry TlvEncryptedData ciphertext] False) (\<lambda>_.
           act_bind (receive_pairing_data P) (\<lambda>res.
           act_bind (act_res (tlv_of P ''failed to deserialize pair-verify signature response bytes'' res)) (\<lambda>data.
             if contains_component data TlvErrorResponse then verify_failed P
             else act_upd (\<lambda>s. set_main_keys cy (rc_key s) s)))))))))) "

definition attempt_pair_verify :: "'s rp_provider \<Rightarrow> ('s rp_client, plist_value) act" where
  "attempt_pair_verify P =
    act_bind (rp_send P (obj [(''request'', obj [(''_0'', obj [(''handshake'', obj [(''_0'',
      obj [(''hostOptions'', obj [(''attemptPairVerify'', PBoolean True)]), (''wireProtocolVersion'', PInteger (uint WIRE_PROTOCOL_VERSION))])])])])])) (\<lambda>_.
    act_bind (on_rp (rp_recv_plain P)) (\<lambda>response.
    act_res (ok_or (UnexpectedResponse ''missing handshake response in attemptPairVerify'')
      (Option.bind (Option.bind (Option.bind (at response ''response'') (\<lambda>x. at x ''_1'')) (\<lambda>x. at x ''handshake'')) (\<lambda>x. at x ''_0'')))))"

section \<open>Pairing\<close>

definition send_setup :: "'s rp_provider \<Rightarrow> tlv8_entry list \<Rightarrow> bool \<Rightarrow> ('s rp_client, unit) act" where
  "send_setup P entries start_new s =
    send_pairing_data P (obj [(''data'', rp_serialize P (serialize_tlv8 entries)), (''kind'', PString (rstr ''setupManualPairing'')),
      (''sendingHost'', PString (rc_host s)), (''startNewSession'', PBoolean start_new)]) s"

text \<open>The salt is the last of its kind, the key all of its pieces.\<close>

fun consent_fields :: "tlv8_entry list \<Rightarrow> byte list \<Rightarrow> byte list \<Rightarrow> (byte list \<times> byte list, idevice_error) res" where
  "consent_fields [] salt public_key = Ok (salt, public_key)"
| "consent_fields (t # ts) salt public_key =
    (if tlv_type t = TlvSalt then consent_fields ts (tlv_data t) public_key
     else if tlv_type t = TlvPublicKey then consent_fields ts salt (public_key @ tlv_data t)
     else if tlv_type t = TlvErrorResponse
     then Err (UnexpectedResponse ''pairing data contained error response during pair consent'')
     else consent_fields ts salt public_key)"

text \<open>\<open>pin_callback\<close> is asked when the device did not wait for its user's consent.\<close>

definition request_pair_consent :: "'s rp_provider \<Rightarrow> rstring \<Rightarrow> ('s rp_client, byte list \<times> byte list \<times> rstring) act" where
  "request_pair_consent P callback_pin =
    act_bind (send_setup P [tlv_entry TlvMethod [0x00], tlv_entry TlvState [0x01]] True) (\<lambda>_.
    act_bind (on_rp (rp_recv_plain P)) (\<lambda>response.
    act_bind (act_res (ok_or (UnexpectedResponse ''missing event._0 in pair consent response'')
      (Option.bind (Option.bind (at response ''event'') (\<lambda>x. at x ''_0'')) plist_as_dictionary))) (\<lambda>response.
    act_bind (case dict_get response ''pairingRejectedWithError'' of
        Some err \<Rightarrow> act_err (rejection_of err)
      | None \<Rightarrow>
          if dict_get response ''awaitingUserConsent'' \<noteq> None
          then act_bind (receive_pairing_data P) (\<lambda>d. act_ok (d, Some (rstr ''000000'')))
          else act_bind (act_res (ok_or (UnexpectedResponse ''missing pairing data in pair consent response'')
                 (event_data (PDictionary response)))) (\<lambda>d. act_ok (d, None))) (\<lambda>(data, pin).
    act_bind (act_res (tlv_of P ''failed to deserialize pairing data bytes in pair consent'' data)) (\<lambda>entries.
    act_bind (act_res (consent_fields entries [] [])) (\<lambda>(salt, public_key).
      if salt = [] \<or> public_key = [] then act_err (UnexpectedResponse ''pairing data missing salt or public key'')
      else act_ok (salt, public_key, case pin of Some p \<Rightarrow> p | None \<Rightarrow> callback_pin)))))))"

text \<open>\<open>[..254]\<close> and \<open>[254..]\<close>: a shorter value panics.\<close>

definition split_254 :: "tlv_type \<Rightarrow> byte list \<Rightarrow> (tlv8_entry list, idevice_error) res" where
  "split_254 t d = (if length d < 254 then Panic else Ok [tlv_entry t (take 254 d), tlv_entry t (drop 254 d)])"

definition init_srp_context :: "srp \<Rightarrow> 's rp_provider \<Rightarrow> byte list \<Rightarrow> byte list \<Rightarrow> byte list \<Rightarrow> rstring \<Rightarrow> ('s rp_client, byte list) act" where
  "init_srp_context sr P a_private salt public_key pin =
    (if length pin < 6 then act_res Panic
     else case sr_client_reply sr a_private (take 6 pin) salt public_key of
       None \<Rightarrow> act_err (RemotePairing SrpAuthFailed)
     | Some (client_proof, key, verify_server) \<Rightarrow>
         act_bind (act_res (split_254 TlvPublicKey (sr_client_public sr a_private))) (\<lambda>a_public.
         act_bind (send_setup P ([tlv_entry TlvState [0x03]] @ a_public @ [tlv_entry TlvProof client_proof]) False) (\<lambda>_.
         act_bind (receive_pairing_data P) (\<lambda>response.
         act_bind (act_res (tlv_of P ''failed to deserialize SRP proof response bytes'' response)) (\<lambda>response.
         act_bind (act_res (ok_or (UnexpectedResponse ''missing server proof in SRP response'') (find_tlv response TlvProof))) (\<lambda>proof.
           if verify_server proof then act_ok key else act_err (RemotePairing SrpAuthFailed)))))))"

definition setup_key :: "crypto \<Rightarrow> byte list \<Rightarrow> byte list" where
  "setup_key cy key = cy_hkdf cy (Some (rstr ''Pair-Setup-Encrypt-Salt'')) key (rstr ''Pair-Setup-Encrypt-Info'')"

definition host_altirk :: "byte list" where
  "host_altirk = [0xE9, 0xE8, 0x2D, 0xC0, 0x6A, 0x49, 0x79, 0x6B, 0x56, 0x6F, 0x54, 0x00, 0x19, 0xB1, 0xC7, 0x7B]"

definition record_tlv :: "crypto \<Rightarrow> byte list \<Rightarrow> rp_pairing_file \<Rightarrow> rstring \<Rightarrow> byte list" where
  "record_tlv cy key pf sending_host =
    (let controller_x = cy_hkdf cy (Some (rstr ''Pair-Setup-Controller-Sign-Salt'')) key (rstr ''Pair-Setup-Controller-Sign-Info'');
         signature = cy_sign cy (rf_private pf) (controller_x @ rf_identifier pf @ rf_public pf);
         device_info = obj [(''altIRK'', PData host_altirk), (''btAddr'', PString (rstr ''11:22:33:44:55:66'')),
           (''mac'', PData [0x11, 0x22, 0x33, 0x44, 0x55, 0x66]), (''remotepairing_serial_number'', PString (rstr ''AAAAAAAAAAAA'')),
           (''accountID'', PString (rf_identifier pf)), (''model'', PString (rstr ''computer-model'')), (''name'', PString sending_host)]
     in serialize_tlv8 [tlv_entry TlvIdentifier (rf_identifier pf), tlv_entry TlvPublicKey (rf_public pf), tlv_entry TlvSignature signature,
          tlv_entry TlvInfo (plist_to_opack device_info)])"

definition encrypted_data_of :: "tlv8_entry list \<Rightarrow> (byte list, idevice_error) res" where
  "encrypted_data_of entries =
    (if contains_component entries TlvErrorResponse then Err (UnexpectedResponse ''TLV error response in pair record save'')
     else Ok (collect_component_data entries TlvEncryptedData))"

definition on_pairing :: "('s rp_client, 'a) act \<Rightarrow> ('s rp_client \<times> rp_pairing_file, 'a) act" where
  "on_pairing m s = (case m (fst s) of (r, c) \<Rightarrow> (r, c, snd s))"

definition save_pair_record_on_peer :: "crypto \<Rightarrow> 's rp_provider \<Rightarrow> byte list \<Rightarrow> byte list \<Rightarrow>
    ('s rp_client \<times> rp_pairing_file, tlv8_entry list) act" where
  "save_pair_record_on_peer cy P seed encryption_key =
    act_bind (act_upd (\<lambda>(c, pf). (set_main_keys cy encryption_key (c\<lparr>rc_key := encryption_key\<rparr>), recreate_signing_keys cy seed pf))) (\<lambda>_ s.
    act_bind (act_res (ok_or (RemotePairing ChachaEncryption)
      (cy_seal cy (setup_key cy encryption_key) (msg_nonce ''PS-Msg05'') (record_tlv cy encryption_key (snd s) (rc_host (fst s)))))) (\<lambda>ciphertext.
    act_bind (act_res (split_254 TlvEncryptedData ciphertext)) (\<lambda>pieces.
    act_bind (on_pairing (send_setup P (pieces @ [tlv_entry TlvState [0x05]]) False)) (\<lambda>_.
    act_bind (on_pairing (receive_pairing_data P)) (\<lambda>response.
    act_bind (act_res (tlv_of P ''failed to deserialize pair record response bytes'' response)) (\<lambda>entries.
    act_bind (act_res (encrypted_data_of entries)) (\<lambda>encrypted_data.
    act_bind (act_res (or_panic (cy_open cy (setup_key cy encryption_key) (msg_nonce ''PS-Msg06'') encrypted_data))) (\<lambda>plaintext.
    act_res (pairing_err (deserialize_tlv8 plaintext))))))))) s)"

definition pair :: "crypto \<Rightarrow> srp \<Rightarrow> plist_ins \<Rightarrow> 's rp_provider \<Rightarrow> byte list \<Rightarrow> byte list \<Rightarrow> rstring \<Rightarrow>
    ('s rp_client \<times> rp_pairing_file, unit) act" where
  "pair cy sr ins P a_private seed callback_pin =
    act_bind (on_pairing (request_pair_consent P callback_pin)) (\<lambda>(salt, public_key, pin).
    act_bind (on_pairing (init_srp_context sr P a_private salt public_key pin)) (\<lambda>key.
    act_bind (save_pair_record_on_peer cy P seed key) (\<lambda>entries.
    act_bind (act_res (parse_peer_device_from_tlv ins entries)) (\<lambda>peer.
    act_upd (\<lambda>(c, pf). (c\<lparr>rc_peer := Some peer\<rparr>, pf\<lparr>rf_alt_irk := Some (pd_alt_irk peer)\<rparr>))))))"

definition paired_peer_device :: "'s rp_client \<Rightarrow> (peer_device, idevice_error) res" where
  "paired_peer_device s =
    ok_or (UnexpectedResponse ''paired peer device info is only available after a successful pair() call'') (rc_peer s)"

definition rp_connect :: "crypto \<Rightarrow> srp \<Rightarrow> plist_ins \<Rightarrow> 's rp_provider \<Rightarrow> byte list \<Rightarrow> byte list \<Rightarrow> byte list \<Rightarrow> rstring \<Rightarrow>
    ('s rp_client \<times> rp_pairing_file, unit) act" where
  "rp_connect cy sr ins P x_private a_private seed callback_pin =
    act_bind (on_pairing (attempt_pair_verify P)) (\<lambda>_ s.
      case on_pairing (validate_pairing cy P (snd s) x_private) s of
        (Ok _, t) \<Rightarrow> (Ok (), t)
      | (Err _, t) \<Rightarrow> pair cy sr ins P a_private seed callback_pin t
      | (Panic, t) \<Rightarrow> (Panic, t))"

section \<open>Encrypted requests\<close>

definition request_nonce :: "u64 \<Rightarrow> byte list" where
  "request_nonce n = to_le_bytes n @ replicate 4 0"

definition encrypted_reply :: "'s rp_provider \<Rightarrow> plist_value \<Rightarrow> (byte list, idevice_error) res" where
  "encrypted_reply P response =
    ok_or (UnexpectedResponse ''missing encrypted data in streamEncrypted response'')
      (Option.bind (Option.bind (Option.bind (at response ''message'') (\<lambda>m. at m ''streamEncrypted'')) (\<lambda>s. at s ''_0'')) (rp_deserialize P))"

text \<open>\<open>to_json\<close> and \<open>of_json\<close> are serde's, between a property list and the text of a request.\<close>

definition send_receive_encrypted_request :: "crypto \<Rightarrow> (plist_value \<Rightarrow> (byte list, idevice_error) res) \<Rightarrow>
    (byte list \<Rightarrow> (plist_value, idevice_error) res) \<Rightarrow> 's rp_provider \<Rightarrow> plist_value \<Rightarrow> ('s rp_client, plist_value) act" where
  "send_receive_encrypted_request cy to_json of_json P request s =
    (let nonce = request_nonce (rc_enc_seq s) in
     act_bind (act_res (to_json request)) (\<lambda>plaintext.
     act_bind (act_res (ok_or (RemotePairing ChachaEncryption) (cy_seal cy (rc_client_key s) nonce plaintext))) (\<lambda>ciphertext.
     act_bind (\<lambda>s. on_rp (rp_send_encrypted P ciphertext (rc_seq s)) s) (\<lambda>_.
     act_bind (act_upd (\<lambda>s. s\<lparr>rc_seq := Suc (rc_seq s)\<rparr>)) (\<lambda>_.
     act_bind (on_rp (rp_recv_plain P)) (\<lambda>response.
     act_bind (act_res (encrypted_reply P response)) (\<lambda>encrypted_data.
     act_bind (act_res (ok_or (RemotePairing ChachaEncryption) (cy_open cy (rc_server_key s) nonce encrypted_data))) (\<lambda>decrypted.
     act_bind (act_upd (\<lambda>s. s\<lparr>rc_enc_seq := rc_enc_seq s + 1\<rparr>)) (\<lambda>_.
     act_bind (act_res (of_json decrypted)) (\<lambda>v.
     act_res (ok_or (UnexpectedResponse ''missing response._1 in encrypted response'')
       (Option.bind (at v ''response'') (\<lambda>r. at r ''_1'')))))))))))) s)"

definition create_tcp_listener :: "crypto \<Rightarrow> (plist_value \<Rightarrow> (byte list, idevice_error) res) \<Rightarrow>
    (byte list \<Rightarrow> (plist_value, idevice_error) res) \<Rightarrow> 's rp_provider \<Rightarrow> ('s rp_client, u16) act" where
  "create_tcp_listener cy to_json of_json P s =
    act_bind (send_receive_encrypted_request cy to_json of_json P
      (obj [(''request'', obj [(''_0'', obj [(''createListener'',
        obj [(''key'', PString (cy_b64 cy (rc_key s))), (''transportProtocolType'', PString (rstr ''tcp''))])])])])) (\<lambda>response.
    act_bind (act_res (ok_or (UnexpectedResponse ''missing createListener.port in response'')
      (Option.bind (Option.bind (at response ''createListener'') (\<lambda>c. at c ''port'')) plist_as_unsigned_integer))) (\<lambda>port.
    act_ok (ucast port))) s"

section \<open>Nonces\<close>

text \<open>A run of requests: for each the key and the nonce it was sealed with, and how it ended.\<close>

primrec request_run :: "crypto \<Rightarrow> (plist_value \<Rightarrow> (byte list, idevice_error) res) \<Rightarrow> (byte list \<Rightarrow> (plist_value, idevice_error) res) \<Rightarrow>
    's rp_provider \<Rightarrow> plist_value list \<Rightarrow> 's rp_client \<Rightarrow> (byte list \<times> byte list \<times> (plist_value, idevice_error) res) list" where
  "request_run cy to_json of_json P [] s = []"
| "request_run cy to_json of_json P (req # reqs) s =
    (case send_receive_encrypted_request cy to_json of_json P req s of
       (r, t) \<Rightarrow> (rc_client_key s, request_nonce (rc_enc_seq s), r) # request_run cy to_json of_json P reqs t)"

lemma on_rp_fields:
  "on_rp m s = (r, t) \<Longrightarrow> rc_seq t = rc_seq s \<and> rc_enc_seq t = rc_enc_seq s \<and> rc_client_key t = rc_client_key s \<and>
    rc_server_key t = rc_server_key s \<and> rc_key t = rc_key s \<and> rc_host t = rc_host s \<and> rc_peer t = rc_peer s"
  by (auto simp: on_rp_def split: prod.splits)

lemma request_ok_counts:
  assumes "send_receive_encrypted_request cy to_json of_json P req s = (Ok v, t)"
  shows "rc_enc_seq t = rc_enc_seq s + 1" and "rc_client_key t = rc_client_key s"
  using assms by (auto simp: send_receive_encrypted_request_def Let_def act_bind_Ok dest!: on_rp_fields)

lemma request_nonce_inject [simp]: "request_nonce m = request_nonce n \<longleftrightarrow> m = n"
proof
  assume "request_nonce m = request_nonce n"
  then have "to_le_bytes m = to_le_bytes n" by (simp add: request_nonce_def)
  then have "(from_le_bytes (to_le_bytes m) :: u64) = from_le_bytes (to_le_bytes n)" by simp
  then show "m = n" by simp
qed simp

lemma request_run_nonces:
  "list_all (\<lambda>(_, _, r). is_ok r) (request_run cy to_json of_json P reqs s) \<Longrightarrow>
   map (\<lambda>(k, n, _). (k, n)) (request_run cy to_json of_json P reqs s) =
     map (\<lambda>i. (rc_client_key s, request_nonce (rc_enc_seq s + of_nat i))) [0..<length reqs]"
proof (induction reqs arbitrary: s)
  case (Cons req reqs)
  obtain r t where r: "send_receive_encrypted_request cy to_json of_json P req s = (r, t)" by fastforce
  with Cons.prems obtain v where v: "r = Ok v" by (cases r) auto
  note k = request_ok_counts [OF r [unfolded v]]
  from Cons.prems r have "list_all (\<lambda>(_, _, r). is_ok r) (request_run cy to_json of_json P reqs t)" by simp
  from Cons.IH [OF this] show ?case
    by (simp add: r k upt_conv_Cons map_Suc_upt [symmetric] ac_simps del: upt_Suc)
qed simp


text \<open>
  A request that was sent but whose answer is never opened leaves the counter: the next one is sealed with the same key and
  nonce, and another text.
\<close>

lemma unanswered_nonce_reused:
  assumes "\<And>u. rp_recv_plain P u = (Err (e u), g u)"
  shows "(case send_receive_encrypted_request cy to_json of_json P req s of
    (r, t) \<Rightarrow> \<not> is_ok r \<and> rc_client_key t = rc_client_key s \<and> rc_enc_seq t = rc_enc_seq s)"
proof (cases "rbind (to_json req) (\<lambda>p. ok_or (RemotePairing ChachaEncryption) (cy_seal cy (rc_client_key s) (request_nonce (rc_enc_seq s)) p))")
  case (Ok c)
  then obtain p where p: "to_json req = Ok p" "cy_seal cy (rc_client_key s) (request_nonce (rc_enc_seq s)) p = Some c" by auto
  obtain r i where i: "rp_send_encrypted P c (rc_seq s) (rc_inner s) = (r, i)" by fastforce
  show ?thesis
    by (cases r) (simp_all add: send_receive_encrypted_request_def Let_def act_bind_def act_res_def p on_rp_def i act_upd_def assms)
next
  case (Err x)
  then show ?thesis
    by (cases "to_json req") (auto simp: send_receive_encrypted_request_def Let_def act_bind_def act_res_def ok_or_def split: option.splits)
next
  case Panic
  then show ?thesis
    by (cases "to_json req") (auto simp: send_receive_encrypted_request_def Let_def act_bind_def act_res_def ok_or_def split: option.splits)
qed

section \<open>Who the client believes\<close>

text \<open>
  The client never looks at a proof of the device's: whoever answers with 32 bytes for a key, and with no error to our own
  proof, is a verified peer, and shares the key of the tunnel.
\<close>

lemma any_peer_verifies:
  assumes "\<And>v n u. rp_send_plain P v n u = (Ok (), u)" and "\<And>b. rp_deserialize P (rp_serialize P b) = Some b"
    and "rp_recv_plain P (rc_inner s) = (Ok (pairing_data_event (obj [(''data'', rp_serialize P (serialize_tlv8 [tlv_entry TlvPublicKey k]))])), u)"
    and "rp_recv_plain P u = (Ok (pairing_data_event (obj [(''data'', rp_serialize P [])])), w)"
    and "length k = 32" and "\<And>key n m. cy_seal cy key n m \<noteq> None"
  shows "\<exists>t. validate_pairing cy P pf x_private s = (Ok (), t) \<and> rc_key t = cy_dh cy x_private k"
proof -
  have e: "pairing_data_of (pairing_data_event (obj [(''data'', d)])) = Ok d" for d
    by (simp add: pairing_data_of_def pairing_data_event_def obj_def at_def event_data_def plist_as_dictionary_def dict_get_def)
  have t: "deserialize_tlv8 (serialize_tlv8 [tlv_entry TlvPublicKey k]) = Ok [tlv_entry TlvPublicKey k]"
    using deserialize_serialize [of "[tlv_entry TlvPublicKey k]" "[]"] assms(5) by (simp add: tlv_entry_def)
  have v: "tlv_of P what (rp_serialize P (serialize_tlv8 [tlv_entry TlvPublicKey k])) = Ok [tlv_entry TlvPublicKey k]" for what
    by (simp add: tlv_of_def assms(2) t pairing_err_def)
  have w: "tlv_of P what (rp_serialize P []) = Ok []" for what
    by (simp add: tlv_of_def assms(2) pairing_err_def)
  have d: "device_key_of [tlv_entry TlvPublicKey k] = Ok k" "\<not> contains_component [tlv_entry TlvPublicKey k] TlvErrorResponse"
    "\<not> contains_component [] TlvErrorResponse"
    by (simp_all add: device_key_of_def find_tlv_def contains_component_def tlv_entry_def assms(5))
  have c: "\<exists>c. verify_proof cy pf a b d = Ok c" for a b d
    using assms(6) by (auto simp: verify_proof_def or_panic_def Let_def split: option.split)
  then obtain c where c: "verify_proof cy pf (cy_x25519 cy x_private) k (cy_dh cy x_private k) = Ok c" by blast
  show ?thesis
    by (simp add: validate_pairing_def send_verify_def send_pairing_data_def rp_send_def receive_pairing_data_def act_bind_def on_rp_def
      assms(1,3,4) e v w d act_upd_def act_res_def Let_def c set_main_keys_def)
qed

section \<open>What a pairing rests on\<close>

lemma send_pairing_fields:
  "send_setup P es b s = (r, t) \<Longrightarrow> rc_key t = rc_key s \<and> rc_client_key t = rc_client_key s \<and> rc_server_key t = rc_server_key s"
  by (auto simp: send_setup_def send_pairing_data_def rp_send_def act_bind_def act_upd_def split: prod.splits res.splits dest!: on_rp_fields)

lemma receive_pairing_fields:
  "receive_pairing_data P s = (r, t) \<Longrightarrow> rc_key t = rc_key s \<and> rc_client_key t = rc_client_key s \<and> rc_server_key t = rc_server_key s"
  by (auto simp: receive_pairing_data_def act_bind_def act_res_def split: prod.splits res.splits dest!: on_rp_fields)

lemma init_srp_proof:
  assumes "init_srp_context sr P a_private salt public_key pin s = (Ok key, t)"
  shows "\<exists>cp verify proof. sr_client_reply sr a_private (take 6 pin) salt public_key = Some (cp, key, verify) \<and> verify proof"
  using assms by (auto simp: init_srp_context_def act_bind_Ok split: if_splits option.splits)

lemma on_pairing_Ok: "on_pairing m s = (Ok a, t) \<longleftrightarrow> m (fst s) = (Ok a, fst t) \<and> snd t = snd s"
  by (cases t) (auto simp: on_pairing_def split: prod.splits)

lemma or_panic_Ok [simp]: "or_panic x = Ok a \<longleftrightarrow> x = Some a"
  by (simp add: or_panic_def split: option.split)

lemma pairing_err_Ok [simp]: "pairing_err r = Ok a \<longleftrightarrow> r = Ok a"
  by (simp add: pairing_err_def split: res.split)

lemma save_pair_record_keys:
  assumes "save_pair_record_on_peer cy P seed key s = (Ok es, (c, pf))"
  shows "rc_key c = key \<and> (rc_client_key c, rc_server_key c) = main_keys cy key \<and> rf_private pf = seed \<and>
    (\<exists>sealed opened. cy_open cy (setup_key cy key) (msg_nonce ''PS-Msg06'') sealed = Some opened \<and> deserialize_tlv8 opened = Ok es)"
proof -
  let ?s = "(set_main_keys cy key ((fst s)\<lparr>rc_key := key\<rparr>), recreate_signing_keys cy seed (snd s))"
  have u: "act_upd (\<lambda>(c, pf). (set_main_keys cy key (c\<lparr>rc_key := key\<rparr>), recreate_signing_keys cy seed pf)) s = (Ok (), ?s)"
    by (simp add: act_upd_def case_prod_beta)
  from assms obtain pieces s1 v s2 sealed opened where
    1: "on_pairing (send_setup P pieces False) ?s = (Ok (), s1)" "on_pairing (receive_pairing_data P) s1 = (Ok v, s2)"
      "cy_open cy (setup_key cy key) (msg_nonce ''PS-Msg06'') sealed = Some opened" "deserialize_tlv8 opened = Ok es" "s2 = (c, pf)"
    unfolding save_pair_record_on_peer_def act_bind_Ok [of "act_upd _"] u by (auto simp: act_bind_Ok)
  from 1(1,2,5) have "send_setup P pieces False (fst ?s) = (Ok (), fst s1)" "receive_pairing_data P (fst s1) = (Ok v, c)" "pf = snd ?s"
    by (auto simp: on_pairing_Ok)
  with send_pairing_fields [of P pieces False] receive_pairing_fields [of P] 1(3,4) show ?thesis
    by (fastforce simp: set_main_keys_def recreate_signing_keys_def)
qed


section \<open>What a long value becomes\<close>

text \<open>
  A value cut at 254 bytes arrives whole if both pieces fit the byte of their length, that is up to 509 bytes; a longer one is
  never read as what was sent, and one under 254 bytes is a panic.
\<close>

lemma tlv_arrives_iff: "deserialize_tlv8 (serialize_tlv8 es) = Ok es \<longleftrightarrow> list_all (\<lambda>e. length (tlv_data e) \<le> 255) es"
  using deserialize_entries [of "serialize_tlv8 es" es] deserialize_serialize [of es "[]"] by auto

theorem split_value_arrives:
  "case split_254 t d of
     Ok pieces \<Rightarrow>
       if length d \<le> 509 then rmap (\<lambda>es. collect_component_data es t) (deserialize_tlv8 (serialize_tlv8 pieces)) = Ok d
       else deserialize_tlv8 (serialize_tlv8 pieces) \<noteq> Ok pieces
   | Err _ \<Rightarrow> False
   | Panic \<Rightarrow> length d < 254"
proof (cases "length d < 254")
  case False
  let ?pieces = "[tlv_entry t (take 254 d), tlv_entry t (drop 254 d)]"
  have "deserialize_tlv8 (serialize_tlv8 ?pieces) = Ok ?pieces \<longleftrightarrow> length d \<le> 509"
    unfolding tlv_arrives_iff using False by (simp add: tlv_entry_def) arith
  moreover have "collect_component_data ?pieces t = d" by (simp add: collect_component_data_def tlv_entry_def)
  ultimately show ?thesis using False by (auto simp: split_254_def)
qed (simp add: split_254_def)

end
