(* ===== verification/Pairing_Host.thy ===== *)
theory Pairing_Host
  imports Pairing_Client
begin

text \<open>
  remote\_pairing/responder.rs: a host that a device pairs with. The roles are swapped: the host shows a code, the device proves it
  knows it, and both exchange their identities sealed under the key SRP agreed on.
\<close>

record host_info =
  hi_name :: rstring
  hi_model :: rstring
  hi_udid :: rstring
  hi_identifier :: rstring
  hi_wire_version :: byte
  hi_alt_irk :: "byte list"
  hi_pinless :: bool

definition host_info_default :: host_info where
  "host_info_default =
    \<lparr>hi_name = rstr ''idevice-rs'', hi_model = rstr ''Mac17,7'', hi_udid = [], hi_identifier = [], hi_wire_version = 26,
     hi_alt_irk = replicate 16 0, hi_pinless = False\<rparr>"

definition host_info_generate :: "rstring \<Rightarrow> rstring \<Rightarrow> byte list \<Rightarrow> host_info" where
  "host_info_generate name model alt_irk = host_info_default\<lparr>hi_name := name, hi_model := model, hi_alt_irk := alt_irk\<rparr>"

definition mdns_txt_records :: "crypto \<Rightarrow> host_info \<Rightarrow> rstring \<Rightarrow> (rstring \<times> rstring) list" where
  "mdns_txt_records cy hi service_identifier =
    map (\<lambda>(k, v). (rstr k, v))
      [(''name'', hi_name hi), (''identifier'', service_identifier),
       (''authTag'', cy_b64 cy (compute_auth_tag cy (hi_alt_irk hi) service_identifier)), (''model'', hi_model hi),
       (''flags'', rstr ''1''), (''ver'', show_nat (unat (hi_wire_version hi))), (''minVer'', rstr ''17'')]"

record 's pairable_host =
  ph_inner :: 's
  ph_info :: host_info
  ph_seq :: nat
  ph_key :: "byte list"
  ph_peer :: "peer_device option"

definition pairable_host_new :: "'s \<Rightarrow> host_info \<Rightarrow> 's pairable_host" where
  "pairable_host_new inner info = \<lparr>ph_inner = inner, ph_info = info, ph_seq = 0, ph_key = [], ph_peer = None\<rparr>"

section \<open>Messages\<close>

definition on_ph :: "('s, 'a) act \<Rightarrow> ('s pairable_host, 'a) act" where
  "on_ph m s = (case m (ph_inner s) of (r, i) \<Rightarrow> (r, s\<lparr>ph_inner := i\<rparr>))"

definition host_send_plain :: "'s rp_provider \<Rightarrow> plist_value \<Rightarrow> ('s pairable_host, unit) act" where
  "host_send_plain P v =
    act_bind (\<lambda>s. on_ph (rp_send_plain P v (ph_seq s)) s) (\<lambda>_. act_upd (\<lambda>s. s\<lparr>ph_seq := Suc (ph_seq s)\<rparr>))"

definition send_pairing_tlv :: "'s rp_provider \<Rightarrow> tlv8_entry list \<Rightarrow> ('s pairable_host, unit) act" where
  "send_pairing_tlv P entries =
    host_send_plain P (pairing_data_event (obj [(''data'', rp_serialize P (serialize_tlv8 entries)),
      (''startNewSession'', PBoolean False), (''kind'', PString (rstr ''setupManualPairing''))]))"

definition pairing_tlv_of :: "'s rp_provider \<Rightarrow> plist_value \<Rightarrow> (tlv8_entry list, idevice_error) res" where
  "pairing_tlv_of P response =
    rbind (ok_or (UnexpectedResponse ''missing event._0.pairingData._0.data in device message'')
      (Option.bind (Option.bind (at response ''event'') (\<lambda>x. at x ''_0'')) event_data)) (tlv_of P ''failed to deserialize pairing data bytes'')"

definition recv_pairing_tlv :: "'s rp_provider \<Rightarrow> ('s pairable_host, tlv8_entry list) act" where
  "recv_pairing_tlv P = act_bind (on_ph (rp_recv_plain P)) (\<lambda>response. act_res (pairing_tlv_of P response))"

definition chunk_tlv :: "tlv_type \<Rightarrow> byte list \<Rightarrow> tlv8_entry list" where
  "chunk_tlv t d = map (tlv_entry t) (chunks 255 d)"

definition ensure_no_error :: "tlv8_entry list \<Rightarrow> (unit, idevice_error) res" where
  "ensure_no_error entries =
    (if contains_component entries TlvErrorResponse then Err (UnexpectedResponse ''device returned pairing error'') else Ok ())"

definition expect_state :: "tlv8_entry list \<Rightarrow> byte \<Rightarrow> (unit, idevice_error) res" where
  "expect_state entries expected =
    (case find_tlv entries TlvState of
       Some (s # _) \<Rightarrow> if s = expected then Ok () else Err (UnexpectedResponse ''unexpected pair-setup state'')
     | _ \<Rightarrow> Err (UnexpectedResponse ''unexpected pair-setup state''))"

section \<open>The handshake\<close>

definition handshake_answer :: "host_info \<Rightarrow> plist_value" where
  "handshake_answer hi =
    obj [(''response'', obj [(''forRequestIdentifier'', PInteger 0), (''_1'', obj [(''handshake'', obj [(''_0'', obj
      [(''wireProtocolVersion'', PInteger (uint (hi_wire_version hi))), (''minimumSupportedWireProtocolVersion'', PInteger 8),
       (''deviceOptions'', obj [(''allowsPairSetup'', PBoolean True), (''allowsPinlessPairing'', PBoolean (hi_pinless hi)),
          (''allowsIncomingTunnelConnections'', PBoolean False), (''allowsUpgradeOfLockdownPairings'', PBoolean False),
          (''allowsSharingSensitiveInfo'', PBoolean False)]),
       (''peerDeviceInfo'', obj [(''udid'', PString (hi_udid hi)), (''deviceKVSIncludesSensitiveInfo'', PBoolean False),
          (''identifier'', PString (hi_identifier hi)), (''name'', PString (hi_name hi)), (''model'', PString (hi_model hi))])])])])])]"

definition check_handshake :: "plist_value \<Rightarrow> (unit, idevice_error) res" where
  "check_handshake request =
    rbind (ok_or (UnexpectedResponse ''missing request._0.handshake._0 in device handshake'')
      (Option.bind (Option.bind (Option.bind (at request ''request'') (\<lambda>x. at x ''_0'')) (\<lambda>x. at x ''handshake'')) (\<lambda>x. at x ''_0''))) (\<lambda>handshake.
      if Option.bind (Option.bind (at handshake ''hostOptions'') (\<lambda>x. at x ''attemptPairVerify'')) plist_as_boolean = Some True
      then Err (UnexpectedResponse ''device requested pair-verify; only device-initiated pair-setup is supported'')
      else Ok ())"

definition host_handshake :: "'s rp_provider \<Rightarrow> ('s pairable_host, unit) act" where
  "host_handshake P =
    act_bind (on_ph (rp_recv_plain P)) (\<lambda>request.
    act_bind (act_res (check_handshake request)) (\<lambda>_ s. host_send_plain P (handshake_answer (ph_info s)) s))"

section \<open>Pair-setup\<close>

text \<open>The random values of a run: the salt, the number of the code, the server's secrets (tried until the public one has 384 bytes).\<close>

record host_random =
  hr_salt :: "byte list"
  hr_pin :: nat
  hr_secret :: "byte list"

definition pin_text :: "host_info \<Rightarrow> nat \<Rightarrow> rstring" where
  "pin_text hi n = (if hi_pinless hi then rstr ''000000'' else replicate (6 - length (show_nat n)) 0x30 @ show_nat n)"

definition accessory_identity_tlv :: "crypto \<Rightarrow> host_info \<Rightarrow> rp_pairing_file \<Rightarrow> byte list \<Rightarrow> byte list" where
  "accessory_identity_tlv cy hi pf session_key =
    (let accessory_x = cy_hkdf cy (Some (rstr ''Pair-Setup-Accessory-Sign-Salt'')) session_key (rstr ''Pair-Setup-Accessory-Sign-Info'');
         signature = cy_sign cy (rf_private pf) (accessory_x @ rf_identifier pf @ rf_public pf);
         info = plist_to_opack (obj [(''altIRK'', PData (hi_alt_irk hi)), (''btAddr'', PString (rstr ''11:22:33:44:55:66'')),
           (''mac'', PData [0x11, 0x22, 0x33, 0x44, 0x55, 0x66]), (''remotepairing_serial_number'', PString (rstr ''AAAAAAAAAAAA'')),
           (''accountID'', PString (rf_identifier pf)), (''remotepairing_udid'', PString (hi_udid hi)), (''model'', PString (hi_model hi)),
           (''name'', PString (hi_name hi))])
     in serialize_tlv8 [tlv_entry TlvIdentifier (rf_identifier pf), tlv_entry TlvPublicKey (rf_public pf), tlv_entry TlvSignature signature, tlv_entry TlvInfo info])"

text \<open>M3: the device's proof.\<close>

definition authenticate :: "srp \<Rightarrow> 's rp_provider \<Rightarrow> host_random \<Rightarrow> rstring \<Rightarrow> tlv8_entry list \<Rightarrow> ('s pairable_host, byte list \<times> byte list) act" where
  "authenticate sr P hr pin m3 =
    act_bind (act_res (ensure_no_error m3)) (\<lambda>_.
    act_bind (act_res (expect_state m3 3)) (\<lambda>_.
    let a_pub = collect_component_data m3 TlvPublicKey; client_proof = collect_component_data m3 TlvProof
    in if a_pub = [] \<or> client_proof = [] then act_err (UnexpectedResponse ''pair-setup M3 missing public key or proof'')
       else case sr_server_reply sr (hr_secret hr) (sr_verifier sr pin (hr_salt hr)) a_pub (hr_salt hr) of
         None \<Rightarrow> act_err (RemotePairing SrpAuthFailed)
       | Some (server_proof, key, verify_client) \<Rightarrow>
           if verify_client client_proof then act_ok (server_proof, key)
           else act_bind (send_pairing_tlv P [tlv_entry TlvState [0x04], tlv_entry TlvErrorResponse [0x02]]) (\<lambda>_. act_err (RemotePairing SrpAuthFailed))))"

text \<open>M5: the device's identity.\<close>

definition device_identity :: "crypto \<Rightarrow> plist_ins \<Rightarrow> byte list \<Rightarrow> tlv8_entry list \<Rightarrow> (peer_device, idevice_error) res" where
  "device_identity cy ins session_key m5 =
    rbind (ensure_no_error m5) (\<lambda>_.
    rbind (expect_state m5 5) (\<lambda>_.
    rbind (ok_or (RemotePairing ChachaEncryption)
      (cy_open cy (setup_key cy session_key) (msg_nonce ''PS-Msg05'') (collect_component_data m5 TlvEncryptedData))) (\<lambda>plaintext.
    rbind (pairing_err (deserialize_tlv8 plaintext)) (parse_peer_device_from_tlv ins))))"

text \<open>M1 to M6: the peer and the session's key.\<close>

definition setup_exchange :: "crypto \<Rightarrow> srp \<Rightarrow> plist_ins \<Rightarrow> 's rp_provider \<Rightarrow> host_random \<Rightarrow> rp_pairing_file \<Rightarrow>
    ('s pairable_host, peer_device \<times> byte list) act" where
  "setup_exchange cy sr ins P hr pf s =
    (let pin = pin_text (ph_info s) (hr_pin hr);
         b_pub = sr_server_public sr (hr_secret hr) (sr_verifier sr pin (hr_salt hr))
     in act_bind (recv_pairing_tlv P) (\<lambda>m1.
        act_bind (act_res (expect_state m1 1)) (\<lambda>_.
        act_bind (send_pairing_tlv P ([tlv_entry TlvState [0x02], tlv_entry TlvSalt (hr_salt hr)] @ chunk_tlv TlvPublicKey b_pub)) (\<lambda>_.
        act_bind (recv_pairing_tlv P) (\<lambda>m3.
        act_bind (authenticate sr P hr pin m3) (\<lambda>(server_proof, session_key).
        act_bind (send_pairing_tlv P [tlv_entry TlvState [0x04], tlv_entry TlvProof server_proof]) (\<lambda>_.
        act_bind (recv_pairing_tlv P) (\<lambda>m5.
        act_bind (act_res (device_identity cy ins session_key m5)) (\<lambda>peer.
        act_bind (act_res (ok_or (RemotePairing ChachaEncryption)
          (cy_seal cy (setup_key cy session_key) (msg_nonce ''PS-Msg06'') (accessory_identity_tlv cy (ph_info s) pf session_key)))) (\<lambda>m6_cipher.
        act_bind (send_pairing_tlv P (chunk_tlv TlvEncryptedData m6_cipher @ [tlv_entry TlvState [0x06]])) (\<lambda>_.
        act_ok (peer, session_key))))))))))) s)"

definition pair_setup :: "crypto \<Rightarrow> srp \<Rightarrow> plist_ins \<Rightarrow> 's rp_provider \<Rightarrow> host_random \<Rightarrow> rp_pairing_file \<Rightarrow>
    ('s pairable_host, peer_device \<times> rp_pairing_file) act" where
  "pair_setup cy sr ins P hr pf =
    act_bind (setup_exchange cy sr ins P hr pf) (\<lambda>(peer, session_key).
    act_bind (act_upd (\<lambda>s. s\<lparr>ph_key := session_key, ph_peer := Some peer\<rparr>)) (\<lambda>_.
    act_ok (peer, pf\<lparr>rf_alt_irk := Some (pd_alt_irk peer)\<rparr>)))"

definition accept_pairing :: "crypto \<Rightarrow> srp \<Rightarrow> plist_ins \<Rightarrow> 's rp_provider \<Rightarrow> host_random \<Rightarrow> rp_pairing_file \<Rightarrow>
    ('s pairable_host, peer_device \<times> rp_pairing_file) act" where
  "accept_pairing cy sr ins P hr pf = act_bind (host_handshake P) (\<lambda>_. pair_setup cy sr ins P hr pf)"

section \<open>Who the host accepts\<close>

lemma on_ph_fields: "on_ph m s = (r, t) \<Longrightarrow> ph_key t = ph_key s \<and> ph_peer t = ph_peer s \<and> ph_info t = ph_info s"
  by (auto simp: on_ph_def split: prod.splits)

lemma send_tlv_fields: "send_pairing_tlv P es s = (r, t) \<Longrightarrow> ph_key t = ph_key s \<and> ph_peer t = ph_peer s \<and> ph_info t = ph_info s"
  by (auto simp: send_pairing_tlv_def host_send_plain_def act_bind_def act_upd_def split: prod.splits res.splits dest!: on_ph_fields)

lemma recv_tlv_fields: "recv_pairing_tlv P s = (r, t) \<Longrightarrow> ph_key t = ph_key s \<and> ph_peer t = ph_peer s \<and> ph_info t = ph_info s"
  by (auto simp: recv_pairing_tlv_def act_bind_def act_res_def split: prod.splits res.splits dest!: on_ph_fields)

text \<open>Nothing is kept of a conversation but its end.\<close>

definition same_identity :: "'s pairable_host \<Rightarrow> 's pairable_host \<Rightarrow> bool" where
  "same_identity s t \<longleftrightarrow> ph_key t = ph_key s \<and> ph_peer t = ph_peer s \<and> ph_info t = ph_info s"

lemma keeps_identityI:
  assumes "\<And>u r t. m u = (r, t) \<Longrightarrow> ph_key t = ph_key u \<and> ph_peer t = ph_peer u \<and> ph_info t = ph_info u"
  shows "keeps (same_identity s) m"
proof (rule keepsI)
  fix u assume u: "same_identity s u"
  obtain r t where m: "m u = (r, t)" by fastforce
  from assms [OF m] u show "same_identity s (snd (m u))" by (simp add: m same_identity_def)
qed

lemma host_send_fields: "host_send_plain P v s = (r, t) \<Longrightarrow> ph_key t = ph_key s \<and> ph_peer t = ph_peer s \<and> ph_info t = ph_info s"
  by (auto simp: host_send_plain_def act_bind_def act_upd_def split: prod.splits res.splits dest!: on_ph_fields)

lemma keeps_identity [keeps_intro]:
  "keeps (same_identity s) (send_pairing_tlv P es)" "keeps (same_identity s) (recv_pairing_tlv P)"
  "keeps (same_identity s) (host_send_plain P v)" "keeps (same_identity s) (on_ph m)"
  by (rule keeps_identityI, erule send_tlv_fields recv_tlv_fields host_send_fields on_ph_fields)+

lemma authenticate_proof:
  assumes "authenticate sr P hr pin m3 s = (Ok (server_proof, key), t)"
  shows "\<exists>verify. sr_server_reply sr (hr_secret hr) (sr_verifier sr pin (hr_salt hr)) (collect_component_data m3 TlvPublicKey) (hr_salt hr) =
      Some (server_proof, key, verify) \<and> verify (collect_component_data m3 TlvProof)"
  using assms by (auto simp: authenticate_def act_bind_Ok Let_def split: if_splits option.splits)

lemma authenticate_keeps [keeps_intro]: "keeps (same_identity s) (authenticate sr P hr pin m3)"
  unfolding authenticate_def Let_def
  by (auto intro!: keeps_intro split: option.splits)

lemma exchange_keeps: "same_identity s (snd (setup_exchange cy sr ins P hr pf s))"
proof -
  have "keeps (same_identity s) (act_bind (recv_pairing_tlv P) (\<lambda>m1. f m1))"
    if "\<And>m1. keeps (same_identity s) (f m1)" for f :: "tlv8_entry list \<Rightarrow> ('a pairable_host, peer_device \<times> byte list) act"
    by (intro keeps_intro that)
  note k = keepsD [OF this]
  have "same_identity s s" by (simp add: same_identity_def)
  then show ?thesis
    unfolding setup_exchange_def Let_def
    by (intro k) (auto intro!: keeps_intro)
qed

lemma exchange_proof:
  assumes "setup_exchange cy sr ins P hr pf s = (Ok (peer, key), t)"
  shows "(\<exists>a_pub server_proof verify proof.
      sr_server_reply sr (hr_secret hr) (sr_verifier sr (pin_text (ph_info s) (hr_pin hr)) (hr_salt hr)) a_pub (hr_salt hr) =
        Some (server_proof, key, verify) \<and> verify proof) \<and> (\<exists>m5. device_identity cy ins key m5 = Ok peer)"
proof -
  from assms obtain m3 sp u v m5 where
    m: "authenticate sr P hr (pin_text (ph_info s) (hr_pin hr)) m3 u = (Ok (sp, key), v)" "device_identity cy ins key m5 = Ok peer"
    by (auto simp: setup_exchange_def Let_def act_bind_Ok)
  from authenticate_proof [OF m(1)] m(2) show ?thesis by blast
qed

lemma handshake_same: "host_handshake P s = (r, t) \<Longrightarrow> same_identity s t"
proof -
  assume h: "host_handshake P s = (r, t)"
  have "keeps (same_identity s) (\<lambda>u. host_send_plain P (handshake_answer (ph_info u)) u)"
    by (rule keepsI) (rule keepsD [OF keeps_identity(3)])
  then have "keeps (same_identity s) (host_handshake P)"
    unfolding host_handshake_def by (intro keeps_intro)
  from keepsD [OF this, of s] h show ?thesis by (simp add: same_identity_def)
qed


end
