(* ===== verification/Tls_Psk.thy ===== *)
theory Tls_Psk
  imports Cd_Tunnel Afc_File Remote_Pairing
begin

text \<open>
  remote\_pairing/tls\_psk.rs and remote\_pairing/tunnel.rs: TLS 1.2 with a pre-shared key, written out: key derivation, the
  records, the handshake, and the stream after it with its partial reads and writes. The hashes, AES in CBC mode and the
  random values are parameters. The numbers formatted into error messages are left out.
\<close>

section \<open>Suites and keys\<close>

record tls_crypto =
  tc_hmac_sha1 :: "byte list \<Rightarrow> byte list \<Rightarrow> byte list"
  tc_hmac_sha256 :: "byte list \<Rightarrow> byte list \<Rightarrow> byte list"
  tc_hmac_sha384 :: "byte list \<Rightarrow> byte list \<Rightarrow> byte list"
  tc_sha256 :: "byte list \<Rightarrow> byte list"
  tc_sha384 :: "byte list \<Rightarrow> byte list"
  tc_cbc_enc :: "byte list \<Rightarrow> byte list \<Rightarrow> byte list \<Rightarrow> byte list"
  tc_cbc_dec :: "byte list \<Rightarrow> byte list \<Rightarrow> byte list \<Rightarrow> byte list option"

definition CT_CHANGE_CIPHER_SPEC :: byte where "CT_CHANGE_CIPHER_SPEC = 0x14"
definition CT_ALERT :: byte where "CT_ALERT = 21"
definition CT_HANDSHAKE :: byte where "CT_HANDSHAKE = 0x16"
definition CT_APPLICATION_DATA :: byte where "CT_APPLICATION_DATA = 0x17"
definition HS_CLIENT_HELLO :: byte where "HS_CLIENT_HELLO = 0x01"
definition HS_SERVER_HELLO :: byte where "HS_SERVER_HELLO = 0x02"
definition HS_SERVER_HELLO_DONE :: byte where "HS_SERVER_HELLO_DONE = 0x0E"
definition HS_CLIENT_KEY_EXCHANGE :: byte where "HS_CLIENT_KEY_EXCHANGE = 0x10"
definition HS_FINISHED :: byte where "HS_FINISHED = 0x14"
definition TLS_MAX_PLAINTEXT :: nat where "TLS_MAX_PLAINTEXT = 16384"
definition TLS_12 :: "byte list" where "TLS_12 = [3, 3]"
definition PSK_CIPHER_SUITES :: "byte list list" where "PSK_CIPHER_SUITES = [[0, 0xAF], [0, 0x8C]]"

datatype cipher_suite = Aes128CbcSha | Aes256CbcSha384

definition suite_from_bytes :: "byte list \<Rightarrow> cipher_suite option" where
  "suite_from_bytes b = (if b = [0, 0x8C] then Some Aes128CbcSha else if b = [0, 0xAF] then Some Aes256CbcSha384 else None)"

fun enc_key_len :: "cipher_suite \<Rightarrow> nat" where
  "enc_key_len Aes128CbcSha = 16"
| "enc_key_len Aes256CbcSha384 = 32"

fun mac_key_len :: "cipher_suite \<Rightarrow> nat" where
  "mac_key_len Aes128CbcSha = 20"
| "mac_key_len Aes256CbcSha384 = 48"

record key_block =
  kb_client_mac :: "byte list"
  kb_server_mac :: "byte list"
  kb_client_write :: "byte list"
  kb_server_write :: "byte list"
  kb_suite :: cipher_suite

fun hmac_compute :: "tls_crypto \<Rightarrow> cipher_suite \<Rightarrow> byte list \<Rightarrow> byte list \<Rightarrow> byte list" where
  "hmac_compute tc Aes128CbcSha = tc_hmac_sha256 tc"
| "hmac_compute tc Aes256CbcSha384 = tc_hmac_sha384 tc"

fun record_hmac :: "tls_crypto \<Rightarrow> cipher_suite \<Rightarrow> byte list \<Rightarrow> byte list \<Rightarrow> byte list" where
  "record_hmac tc Aes128CbcSha = tc_hmac_sha1 tc"
| "record_hmac tc Aes256CbcSha384 = tc_hmac_sha384 tc"

fun transcript_hash :: "tls_crypto \<Rightarrow> cipher_suite \<Rightarrow> byte list \<Rightarrow> byte list" where
  "transcript_hash tc Aes128CbcSha = tc_sha256 tc"
| "transcript_hash tc Aes256CbcSha384 = tc_sha384 tc"

text \<open>
  The loop of \<open>prf\<close>. Every round adds a digest, which is never empty, so as many rounds as bytes are wanted are enough
  (\<open>prf_length\<close>).
\<close>

primrec prf_loop :: "nat \<Rightarrow> (byte list \<Rightarrow> byte list) \<Rightarrow> byte list \<Rightarrow> byte list \<Rightarrow> byte list \<Rightarrow> nat \<Rightarrow> byte list" where
  "prf_loop 0 h label_seed a out len = out"
| "prf_loop (Suc n) h label_seed a out len =
    (if length out < len then prf_loop n h label_seed (h a) (out @ h (a @ label_seed)) len else out)"

definition tls_prf :: "tls_crypto \<Rightarrow> byte list \<Rightarrow> byte list \<Rightarrow> byte list \<Rightarrow> nat \<Rightarrow> cipher_suite \<Rightarrow> byte list" where
  "tls_prf tc secret label seed len suite =
    (let h = hmac_compute tc suite secret
     in take len (prf_loop len h (label @ seed) (h (label @ seed)) [] len))"

definition psk_premaster :: "byte list \<Rightarrow> byte list" where
  "psk_premaster psk =
    (let psk_len = to_be_bytes (of_nat (length psk) :: u16) in psk_len @ replicate (length psk) 0 @ psk_len @ psk)"

definition derive_master_secret :: "tls_crypto \<Rightarrow> byte list \<Rightarrow> byte list \<Rightarrow> byte list \<Rightarrow> cipher_suite \<Rightarrow> byte list" where
  "derive_master_secret tc psk client_random server_random suite =
    tls_prf tc (psk_premaster psk) (rstr ''master secret'') (client_random @ server_random) 48 suite"

definition derive_key_block :: "tls_crypto \<Rightarrow> byte list \<Rightarrow> byte list \<Rightarrow> byte list \<Rightarrow> cipher_suite \<Rightarrow> key_block" where
  "derive_key_block tc master client_random server_random suite =
    (let mac_len = mac_key_len suite; key_len = enc_key_len suite;
         kb = tls_prf tc master (rstr ''key expansion'') (server_random @ client_random) (mac_len * 2 + key_len * 2) suite
     in \<lparr>kb_client_mac = sub 0 mac_len kb, kb_server_mac = sub mac_len mac_len kb,
         kb_client_write = sub (2 * mac_len) key_len kb, kb_server_write = sub (2 * mac_len + key_len) key_len kb,
         kb_suite = suite\<rparr>)"

definition finished_verify_data :: "tls_crypto \<Rightarrow> byte list \<Rightarrow> byte list \<Rightarrow> byte list \<Rightarrow> cipher_suite \<Rightarrow> byte list" where
  "finished_verify_data tc master label transcript suite = tls_prf tc master label (transcript_hash tc suite transcript) 12 suite"

section \<open>Records\<close>

definition compute_mac :: "tls_crypto \<Rightarrow> byte list \<Rightarrow> u64 \<Rightarrow> byte \<Rightarrow> byte list \<Rightarrow> cipher_suite \<Rightarrow> byte list" where
  "compute_mac tc mac_key seq ct data suite =
    record_hmac tc suite mac_key (to_be_bytes seq @ [ct, 3, 3] @ to_be_bytes (of_nat (length data) :: u16) @ data)"

definition pad16 :: "byte list \<Rightarrow> byte list" where
  "pad16 payload = (let pad_len = 16 - length payload mod 16 in payload @ replicate pad_len (of_nat pad_len - 1))"

definition encrypt_record :: "tls_crypto \<Rightarrow> key_block \<Rightarrow> u64 \<Rightarrow> byte \<Rightarrow> byte list \<Rightarrow> byte list \<Rightarrow> byte list" where
  "encrypt_record tc keys seq ct iv plaintext =
    (let mac = compute_mac tc (kb_client_mac keys) seq ct plaintext (kb_suite keys)
     in iv @ tc_cbc_enc tc (take (enc_key_len (kb_suite keys)) (kb_client_write keys)) iv (pad16 (plaintext @ mac)))"

text \<open>
  \<open>decrypted.len() - (pad_value + 1)\<close> wraps when the last byte names more padding than there is; the slice to the wrapped
  length then panics.
\<close>

definition strip_mac :: "nat \<Rightarrow> byte list \<Rightarrow> (byte list \<times> byte list, idevice_error) res" where
  "strip_mac mac_len decrypted =
    (if decrypted = [] then Err (InternalError (rstr ''Empty decrypted data''))
     else let pad = unat (last decrypted) + 1 in
       if length decrypted < pad then Panic
       else let content_len = length decrypted - pad in
         if content_len < mac_len then Err (InternalError (rstr ''Decrypted content too short for MAC''))
         else Ok (take (content_len - mac_len) decrypted, sub (content_len - mac_len) mac_len decrypted))"

definition decrypt_record :: "tls_crypto \<Rightarrow> key_block \<Rightarrow> bool \<Rightarrow> u64 \<Rightarrow> byte \<Rightarrow> byte list \<Rightarrow> (byte list, idevice_error) res" where
  "decrypt_record tc keys is_server seq ct encrypted =
    (if length encrypted < 16 then Err (InternalError (rstr ''TLS record too short''))
     else
       let read_key = (if is_server then kb_server_write keys else kb_client_write keys);
           mac_key = (if is_server then kb_server_mac keys else kb_client_mac keys)
       in rbind (ok_or (InternalError (rstr ''CBC decrypt''))
                  (tc_cbc_dec tc (take (enc_key_len (kb_suite keys)) read_key) (take 16 encrypted) (drop 16 encrypted))) (\<lambda>decrypted.
          rbind (strip_mac (mac_key_len (kb_suite keys)) decrypted) (\<lambda>(plaintext, received_mac).
          if received_mac \<noteq> compute_mac tc mac_key seq ct plaintext (kb_suite keys)
          then Err (InternalError (rstr ''TLS MAC verification failed'')) else Ok plaintext)))"

definition make_record :: "byte \<Rightarrow> byte list \<Rightarrow> byte list" where
  "make_record ct payload = [ct, 3, 3] @ to_be_bytes (of_nat (length payload) :: u16) @ payload"

definition make_handshake :: "byte \<Rightarrow> byte list \<Rightarrow> byte list" where
  "make_handshake msg_type body = [msg_type] @ drop 1 (to_be_bytes (of_nat (length body) :: u32)) @ body"

definition read_record :: "(transport, byte \<times> byte list) act" where
  "read_record =
    act_bind (tp_read_exact 5) (\<lambda>header.
    act_bind (tp_read_exact (unat (from_be_bytes [header ! 3, header ! 4] :: u16))) (\<lambda>payload.
    act_ok (header ! 0, payload)))"

function parse_handshake_messages :: "byte list \<Rightarrow> (byte \<times> byte list) list" where
  "parse_handshake_messages data =
    (if length data < 4 then []
     else let msg_len = unat (from_be_bytes [0, data ! 1, data ! 2, data ! 3] :: u32) in
       if length data < 4 + msg_len then []
       else (data ! 0, take (4 + msg_len) data) # parse_handshake_messages (drop (4 + msg_len) data))"
  by pat_completeness auto
termination parse_handshake_messages
  by (relation "measure length") (auto simp: Let_def)

declare parse_handshake_messages.simps [simp del]

section \<open>The handshake\<close>

definition client_hello :: "byte list \<Rightarrow> byte list" where
  "client_hello client_random =
    make_handshake HS_CLIENT_HELLO
      (TLS_12 @ client_random @ [0] @ to_be_bytes (of_nat (length PSK_CIPHER_SUITES * 2) :: u16) @ concat PSK_CIPHER_SUITES @ [1, 0])"

text \<open>
  The fields of a ServerHello are read at fixed positions of the record's payload, wherever the message stands in it; a
  payload of exactly 38 bytes has no \<open>payload[38]\<close>.
\<close>

definition server_hello :: "byte list \<Rightarrow> byte list \<times> byte list \<Rightarrow> (byte list \<times> byte list, idevice_error) res" where
  "server_hello payload s =
    (if length payload < 38 then Ok s
     else rbind (byte_at 38 payload) (\<lambda>b.
       let sid_len = unat b
       in Ok (sub 6 32 payload, if 39 + sid_len + 2 \<le> length payload then sub (39 + sid_len) 2 payload else snd s)))"

primrec hello_messages :: "byte list \<Rightarrow> (byte \<times> byte list) list \<Rightarrow> byte list \<times> byte list \<Rightarrow>
    (byte list \<times> byte list, idevice_error) res" where
  "hello_messages payload [] s = Ok s"
| "hello_messages payload (m # ms) s =
    rbind (if fst m = HS_SERVER_HELLO then server_hello payload s else Ok s) (hello_messages payload ms)"

definition hello_done :: "byte list \<Rightarrow> bool" where
  "hello_done payload \<longleftrightarrow> (\<exists>i < length payload. sub i 4 payload = [HS_SERVER_HELLO_DONE, 0, 0, 0])"

record hello =
  he_transcript :: "byte list"
  he_random :: "byte list"
  he_cipher :: "byte list"

definition hello_round :: "hello \<Rightarrow> (transport, hello \<times> bool) act" where
  "hello_round h =
    act_bind read_record (\<lambda>(ct, payload).
    if ct = CT_ALERT then act_err (InternalError (rstr ''TLS Alert''))
    else if ct \<noteq> CT_HANDSHAKE then act_err (InternalError (rstr ''Expected handshake''))
    else act_bind (act_res (hello_messages payload (parse_handshake_messages payload) (he_random h, he_cipher h))) (\<lambda>(r, c).
      act_ok (\<lparr>he_transcript = he_transcript h @ payload, he_random = r, he_cipher = c\<rparr>, hello_done payload)))"

lemma read_record_shorter:
  assumes "read_record t = (Ok x, u)"
  shows "length (tp_pending u) < length (tp_pending t)"
proof -
  from assms obtain h v p where 1: "tp_read_exact 5 t = (Ok h, v)"
      "tp_read_exact (unat (from_be_bytes [h ! 3, h ! 4] :: u16)) v = (Ok p, u)"
    unfolding read_record_def act_bind_Ok by auto
  from tp_read_exact_Ok [OF 1(1)] have "tp_pending t = h @ tp_pending v" "length h = 5" by auto
  then have "length (tp_pending v) < length (tp_pending t)" by simp
  with tp_read_exact_pending [OF 1(2)] show ?thesis by linarith
qed

lemma hello_round_shorter:
  assumes "hello_round h t = (Ok x, u)"
  shows "length (tp_pending u) < length (tp_pending t)"
proof -
  from assms obtain y v where "read_record t = (Ok y, v)" "u = v"
    by (auto simp: hello_round_def act_bind_Ok split: if_splits)
  with read_record_shorter show ?thesis by blast
qed

function hello_loop :: "hello \<Rightarrow> (transport, hello) act" where
  "hello_loop h t =
    (case hello_round h t of
       (Ok (h', done), u) \<Rightarrow> (if done then (Ok h', u) else hello_loop h' u)
     | (Err e, u) \<Rightarrow> (Err e, u)
     | (Panic, u) \<Rightarrow> (Panic, u))"
  by pat_completeness auto
termination hello_loop
  by (relation "measure (\<lambda>(h, t). length (tp_pending t))", simp, simp only: in_measure prod.case, metis hello_round_shorter)

declare hello_loop.simps [simp del]

text \<open>
  One record after the client's Finished: \<open>Some n\<close> when it was the server's Finished, with \<open>n\<close> the sequence number of the
  next record. A wrong \<open>verify_data\<close> is logged and accepted.
\<close>

definition finished_round :: "tls_crypto \<Rightarrow> key_block \<Rightarrow> u64 \<Rightarrow> (transport, u64 \<times> bool) act" where
  "finished_round tc keys server_seq =
    act_bind read_record (\<lambda>(ct, payload).
    if ct = CT_ALERT then act_err (InternalError (rstr ''TLS Alert after Finished''))
    else if ct = CT_APPLICATION_DATA \<or> ct = CT_HANDSHAKE then
      act_bind (act_res (decrypt_record tc keys True server_seq CT_HANDSHAKE payload)) (\<lambda>plaintext.
      act_ok (server_seq + 1, 4 \<le> length plaintext \<and> plaintext ! 0 = HS_FINISHED))
    else act_ok (server_seq, False))"

lemma finished_round_shorter:
  assumes "finished_round tc keys n t = (Ok x, u)"
  shows "length (tp_pending u) < length (tp_pending t)"
proof -
  from assms obtain y v where "read_record t = (Ok y, v)" "u = v"
    by (auto simp: finished_round_def act_bind_Ok split: if_splits)
  with read_record_shorter show ?thesis by blast
qed

function finished_loop :: "tls_crypto \<Rightarrow> key_block \<Rightarrow> u64 \<Rightarrow> (transport, u64) act" where
  "finished_loop tc keys n t =
    (case finished_round tc keys n t of
       (Ok (m, done), u) \<Rightarrow> (if done then (Ok m, u) else finished_loop tc keys m u)
     | (Err e, u) \<Rightarrow> (Err e, u)
     | (Panic, u) \<Rightarrow> (Panic, u))"
  by pat_completeness auto
termination finished_loop
  by (relation "measure (\<lambda>(tc, keys, n, t). length (tp_pending t))", simp, simp only: in_measure prod.case,
      metis finished_round_shorter)

declare finished_loop.simps [simp del]

record tls_psk_stream =
  ts_keys :: key_block
  ts_write_seq :: u64
  ts_read_seq :: u64
  ts_read_buf :: "byte list"
  ts_pending :: "byte list"
  ts_total :: nat
  ts_write_buf :: "byte list"

definition tls_new :: "key_block \<Rightarrow> u64 \<Rightarrow> tls_psk_stream" where
  "tls_new keys server_seq = \<lparr>ts_keys = keys, ts_write_seq = 1, ts_read_seq = server_seq, ts_read_buf = [],
    ts_pending = [], ts_total = 0, ts_write_buf = []\<rparr>"

definition tls_psk_handshake :: "tls_crypto \<Rightarrow> byte list \<Rightarrow> byte list \<Rightarrow> byte list \<Rightarrow> (transport, tls_psk_stream) act" where
  "tls_psk_handshake tc client_random iv psk =
    (let ch = client_hello client_random in
    act_bind (tp_write_all (make_record CT_HANDSHAKE ch)) (\<lambda>_.
    act_bind (hello_loop \<lparr>he_transcript = ch, he_random = replicate 32 0, he_cipher = [0, 0]\<rparr>) (\<lambda>h.
    act_bind (act_res (ok_or (InternalError (rstr ''Server selected unsupported cipher'')) (suite_from_bytes (he_cipher h)))) (\<lambda>suite.
    let master = derive_master_secret tc psk client_random (he_random h) suite;
        keys = derive_key_block tc master client_random (he_random h) suite;
        cke = make_handshake HS_CLIENT_KEY_EXCHANGE [0, 0];
        fin = make_handshake HS_FINISHED (finished_verify_data tc master (rstr ''client finished'') (he_transcript h @ cke) suite)
    in
    act_bind (tp_write_all (make_record CT_HANDSHAKE cke)) (\<lambda>_.
    act_bind (tp_write_all (make_record CT_CHANGE_CIPHER_SPEC [1])) (\<lambda>_.
    act_bind (tp_write_all (make_record CT_HANDSHAKE (encrypt_record tc keys 0 CT_HANDSHAKE iv fin))) (\<lambda>_.
    act_bind tp_flush (\<lambda>_.
    act_bind (finished_loop tc keys 0) (\<lambda>server_seq.
    act_ok (tls_new keys server_seq))))))))))"


section \<open>The stream, record by record\<close>

definition on_inner :: "(transport, 'a) act \<Rightarrow> (tls_psk_stream \<times> transport, 'a) act" where
  "on_inner m s = (case m (snd s) of (r, t) \<Rightarrow> (r, (fst s, t)))"

definition app_record :: "tls_crypto \<Rightarrow> key_block \<Rightarrow> u64 \<Rightarrow> byte list \<Rightarrow> byte list \<Rightarrow> byte list" where
  "app_record tc keys seq iv chunk = make_record CT_APPLICATION_DATA (encrypt_record tc keys seq CT_APPLICATION_DATA iv chunk)"

primrec write_records :: "tls_crypto \<Rightarrow> (u64 \<Rightarrow> byte list) \<Rightarrow> byte list list \<Rightarrow> (tls_psk_stream \<times> transport, unit) act" where
  "write_records tc ivs [] = act_ok ()"
| "write_records tc ivs (c # cs) = (\<lambda>(ts, t).
    act_bind (on_inner (tp_write_all (app_record tc (ts_keys ts) (ts_write_seq ts) (ivs (ts_write_seq ts)) c)))
      (\<lambda>_. write_records tc ivs cs) (ts\<lparr>ts_write_seq := ts_write_seq ts + 1\<rparr>, t))"

definition write_app_data :: "tls_crypto \<Rightarrow> (u64 \<Rightarrow> byte list) \<Rightarrow> byte list \<Rightarrow> (tls_psk_stream \<times> transport, unit) act" where
  "write_app_data tc ivs data =
    act_bind (write_records tc ivs (chunks TLS_MAX_PLAINTEXT data)) (\<lambda>_. on_inner tp_flush)"

definition read_app_data :: "tls_crypto \<Rightarrow> (tls_psk_stream \<times> transport, byte list) act" where
  "read_app_data tc =
    act_bind (on_inner read_record) (\<lambda>(ct, payload).
    if ct \<noteq> CT_APPLICATION_DATA then act_err (InternalError (rstr ''Expected application data''))
    else (\<lambda>(ts, t).
      case decrypt_record tc (ts_keys ts) True (ts_read_seq ts) CT_APPLICATION_DATA payload of
        Ok plaintext \<Rightarrow> (Ok plaintext, (ts\<lparr>ts_read_seq := ts_read_seq ts + 1\<rparr>, t))
      | Err e \<Rightarrow> (Err e, (ts, t))
      | Panic \<Rightarrow> (Panic, (ts, t))))"

text \<open>tunnel.rs of remote pairing: the tunnel's handshake, one record each way.\<close>

definition native_missing :: "string \<Rightarrow> idevice_error" where
  "native_missing what = UnexpectedResponse (''missing '' @ what @ '' in CDTunnel response'')"

definition native_tunnel_info :: "handshake_response \<Rightarrow> (tunnel_info, idevice_error) res" where
  "native_tunnel_info response =
    rbind (ok_or (native_missing ''clientParameters'') (hr_client_parameters response)) (\<lambda>cp.
    rbind (ok_or (native_missing ''client address'') (cp_address cp)) (\<lambda>client_address.
    rbind (ok_or (native_missing ''server address'') (hr_server_address response)) (\<lambda>server_address.
      Ok \<lparr>ti_client_address = client_address,
          ti_netmask = (case cp_netmask cp of None \<Rightarrow> [] | Some n \<Rightarrow> n),
          ti_server_address = server_address,
          ti_mtu = ucast (case cp_mtu cp of None \<Rightarrow> 1500 | Some m \<Rightarrow> m),
          ti_server_rsd_port = ucast (case hr_server_rsd_port response of None \<Rightarrow> 0 | Some p \<Rightarrow> p)\<rparr>)))"

definition tunnel_response :: "byte list \<Rightarrow> (byte list, idevice_error) res" where
  "tunnel_response d =
    (if length d < length CDTUNNEL_MAGIC + 2 then Err (UnexpectedResponse ''CDTunnel handshake response too short'')
     else if take (length CDTUNNEL_MAGIC) d \<noteq> CDTUNNEL_MAGIC then
       Err (UnexpectedResponse ''CDTunnel handshake response missing magic header'')
     else let body_start = length CDTUNNEL_MAGIC + 2;
              body_len = unat (from_be_bytes (sub (length CDTUNNEL_MAGIC) 2 d) :: u16)
          in index_range body_start (body_start + body_len) d)"

definition connect_tls_psk_tunnel_native :: "tls_crypto \<Rightarrow> byte list \<Rightarrow> byte list \<Rightarrow> (u64 \<Rightarrow> byte list) \<Rightarrow> byte list \<Rightarrow>
    (byte list \<Rightarrow> (handshake_response, idevice_error) res) \<Rightarrow> byte list \<Rightarrow> transport \<Rightarrow>
    (tunnel_info, idevice_error) res \<times> tls_psk_stream option \<times> transport" where
  "connect_tls_psk_tunnel_native tc client_random iv ivs body from_json encryption_key t =
    (case tls_psk_handshake tc client_random iv encryption_key t of
       (Err e, t1) \<Rightarrow> (Err e, None, t1)
     | (Panic, t1) \<Rightarrow> (Panic, None, t1)
     | (Ok ts, t1) \<Rightarrow>
         (case act_bind (write_app_data tc ivs (CDTUNNEL_MAGIC @ to_be_bytes (of_nat (length body) :: u16) @ body)) (\<lambda>_.
               act_bind (read_app_data tc) (\<lambda>response_data.
               act_res (rbind (tunnel_response response_data) (\<lambda>b. rbind (from_json b) native_tunnel_info)))) (ts, t1) of
            (Ok info, (ts', t2)) \<Rightarrow> (Ok info, Some ts', t2)
          | (Err e, (ts', t2)) \<Rightarrow> (Err e, None, t2)
          | (Panic, (ts', t2)) \<Rightarrow> (Panic, None, t2)))"

section \<open>The stream, poll by poll\<close>

text \<open>
  The polls of the inner stream: what the coming reads find, what the coming writes answer (\<open>Takes n\<close> takes at most \<open>n\<close>
  bytes; with no answer left a write waits), and the bytes it has taken.
\<close>

datatype arrival = Arrived "byte list" | NotYet | ReadFails
datatype write_answer = Takes nat | Stalls | WriteFails

record poll_io =
  io_in :: "arrival list"
  io_script :: "write_answer list"
  io_out :: "byte list"

definition io_write :: "byte list \<Rightarrow> (poll_io, nat poll) act" where
  "io_write bs io =
    (case io_script io of
       [] \<Rightarrow> (Ok PollPending, io)
     | w # ws \<Rightarrow> (let io' = io\<lparr>io_script := ws\<rparr> in
         case w of
           Takes n \<Rightarrow> (Ok (Ready (min n (length bs))), io'\<lparr>io_out := io_out io @ take n bs\<rparr>)
         | Stalls \<Rightarrow> (Ok PollPending, io')
         | WriteFails \<Rightarrow> (Err (Socket OtherIo), io')))"

definition io_read :: "nat \<Rightarrow> (poll_io, byte list poll) act" where
  "io_read n io =
    (case io_in io of
       [] \<Rightarrow> (Ok (Ready []), io)
     | a # rest \<Rightarrow>
         (case a of
            Arrived bs \<Rightarrow> (Ok (Ready (take n bs)), io\<lparr>io_in := (if length bs \<le> n then rest else Arrived (drop n bs) # rest)\<rparr>)
          | NotYet \<Rightarrow> (Ok PollPending, io\<lparr>io_in := rest\<rparr>)
          | ReadFails \<Rightarrow> (Err (Socket OtherIo), io\<lparr>io_in := rest\<rparr>)))"

fun arrival_bytes :: "arrival \<Rightarrow> byte list" where
  "arrival_bytes (Arrived bs) = bs"
| "arrival_bytes _ = []"

definition io_bytes :: "poll_io \<Rightarrow> byte list" where
  "io_bytes io = concat (map arrival_bytes (io_in io))"

text \<open>\<open>while !write_buf.is_empty()\<close>: the answers, what is left to write, and what went out.\<close>

fun drain_buf :: "write_answer list \<Rightarrow> byte list \<Rightarrow> byte list \<Rightarrow>
    (unit poll, idevice_error) res \<times> write_answer list \<times> byte list \<times> byte list" where
  "drain_buf ws [] out = (Ok (Ready ()), ws, [], out)"
| "drain_buf [] buf out = (Ok PollPending, [], buf, out)"
| "drain_buf (Takes n # ws) buf out = drain_buf ws (drop n buf) (out @ take n buf)"
| "drain_buf (Stalls # ws) buf out = (Ok PollPending, ws, buf, out)"
| "drain_buf (WriteFails # ws) buf out = (Err (Socket OtherIo), ws, buf, out)"

definition flush_pending :: "(tls_psk_stream \<times> poll_io, unit poll) act" where
  "flush_pending = (\<lambda>(ts, io).
    case drain_buf (io_script io) (ts_write_buf ts) (io_out io) of
      (r, ws, buf, out) \<Rightarrow> (r, (ts\<lparr>ts_write_buf := buf\<rparr>, io\<lparr>io_script := ws, io_out := out\<rparr>)))"

definition send_chunk :: "tls_crypto \<Rightarrow> byte list \<Rightarrow> byte list \<Rightarrow> (tls_psk_stream \<times> poll_io, nat poll) act" where
  "send_chunk tc iv chunk = (\<lambda>(ts, io).
    let rec = app_record tc (ts_keys ts) (ts_write_seq ts) iv chunk
    in case io_write rec io of
         (Ok (Ready written), io') \<Rightarrow>
           (Ok (Ready (length chunk)), (ts\<lparr>ts_write_seq := ts_write_seq ts + 1, ts_write_buf := ts_write_buf ts @ drop written rec\<rparr>, io'))
       | (Ok PollPending, io') \<Rightarrow>
           (Ok PollPending, (ts\<lparr>ts_write_seq := ts_write_seq ts + 1, ts_write_buf := rec\<rparr>, io'))
       | (Err e, io') \<Rightarrow> (Err e, (ts, io'))
       | (Panic, io') \<Rightarrow> (Panic, (ts, io')))"

definition tls_poll_write :: "tls_crypto \<Rightarrow> byte list \<Rightarrow> byte list \<Rightarrow> (tls_psk_stream \<times> poll_io, nat poll) act" where
  "tls_poll_write tc iv data =
    act_bind flush_pending (\<lambda>p.
    case p of PollPending \<Rightarrow> act_ok PollPending | Ready _ \<Rightarrow> send_chunk tc iv (take TLS_MAX_PLAINTEXT data))"

text \<open>The inner \<open>poll_flush\<close> and \<open>poll_shutdown\<close> have no effect here; a shutdown leaves \<open>write_buf\<close> as it is.\<close>

definition tls_poll_flush :: "(tls_psk_stream \<times> poll_io, unit poll) act" where
  "tls_poll_flush = flush_pending"

definition know_length :: "tls_psk_stream \<Rightarrow> tls_psk_stream" where
  "know_length ts =
    (if 5 \<le> length (ts_pending ts) \<and> ts_total ts = 0
     then ts\<lparr>ts_total := 5 + unat (from_be_bytes [ts_pending ts ! 3, ts_pending ts ! 4] :: u16)\<rparr> else ts)"

text \<open>A whole record is decrypted whatever its type.\<close>

definition take_record :: "tls_crypto \<Rightarrow> nat \<Rightarrow> (tls_psk_stream \<times> poll_io, byte list poll) act" where
  "take_record tc room = (\<lambda>(ts, io).
    let rest = ts\<lparr>ts_pending := drop (ts_total ts) (ts_pending ts), ts_total := 0\<rparr>
    in case decrypt_record tc (ts_keys ts) True (ts_read_seq ts) (ts_pending ts ! 0) (sub 5 (ts_total ts - 5) (ts_pending ts)) of
         Ok plaintext \<Rightarrow> (Ok (Ready (take room plaintext)),
           (rest\<lparr>ts_read_seq := ts_read_seq ts + 1, ts_read_buf := ts_read_buf ts @ drop room plaintext\<rparr>, io))
       | Err e \<Rightarrow> (Err (Socket OtherIo), (rest, io))
       | Panic \<Rightarrow> (Panic, (rest, io)))"

lemma io_read_shorter: "io_read 16384 io = (Ok (Ready bs), io') \<Longrightarrow> bs \<noteq> [] \<Longrightarrow> length (io_bytes io') < length (io_bytes io)"
  by (auto simp: io_read_def io_bytes_def split: list.splits arrival.splits if_splits)

function assemble :: "tls_crypto \<Rightarrow> nat \<Rightarrow> (tls_psk_stream \<times> poll_io) \<Rightarrow>
    (byte list poll, idevice_error) res \<times> (tls_psk_stream \<times> poll_io)" where
  "assemble tc room s =
    (let ts = know_length (fst s); io = snd s in
     if 0 < ts_total ts \<and> ts_total ts \<le> length (ts_pending ts) then take_record tc room (ts, io)
     else case io_read 16384 io of
       (Ok (Ready bs), io') \<Rightarrow>
         (if bs = [] then (Ok (Ready []), (ts, io')) else assemble tc room (ts\<lparr>ts_pending := ts_pending ts @ bs\<rparr>, io'))
     | (Ok PollPending, io') \<Rightarrow> (Ok PollPending, (ts, io'))
     | (Err e, io') \<Rightarrow> (Err e, (ts, io'))
     | (Panic, io') \<Rightarrow> (Panic, (ts, io')))"
  by pat_completeness auto
termination assemble
  by (relation "measure (\<lambda>(tc, room, s). length (io_bytes (snd s)))", simp, simp only: in_measure prod.case snd_conv,
      metis io_read_shorter)

declare assemble.simps [simp del]

definition tls_poll_read :: "tls_crypto \<Rightarrow> nat \<Rightarrow> (tls_psk_stream \<times> poll_io, byte list poll) act" where
  "tls_poll_read tc room s =
    (if ts_read_buf (fst s) \<noteq> [] then
       (Ok (Ready (take room (ts_read_buf (fst s)))), ((fst s)\<lparr>ts_read_buf := drop room (ts_read_buf (fst s))\<rparr>, snd s))
     else assemble tc room s)"

end
