(* ===== verification/Tls_Runs.thy ===== *)
theory Tls_Runs
  imports Tls_Psk
begin

text \<open>
  What the TLS-PSK stream keeps over any sequence of polls: the bytes that go out are whole records in order, the bytes that
  come in are handed over once each, and what a retried write does to both.
\<close>

section \<open>Key derivation\<close>

lemma prf_loop_length:
  assumes "\<And>d. h d \<noteq> []"
  shows "len \<le> length out + n \<Longrightarrow> len \<le> length (prf_loop n h ls a out len)"
proof (induction n arbitrary: a out)
  case (Suc n)
  obtain b bs where "h (a @ ls) = b # bs" using assms by (cases "h (a @ ls)") auto
  then have "len \<le> length (out @ h (a @ ls)) + n" using Suc.prems by simp
  with Suc.IH show ?case by simp
qed simp

lemma prf_length: "(\<And>d. hmac_compute tc suite secret d \<noteq> []) \<Longrightarrow> length (tls_prf tc secret label seed len suite) = len"
  using prf_loop_length [of "hmac_compute tc suite secret" len "[]" len] by (simp add: tls_prf_def Let_def)

lemma key_block_lengths:
  assumes "\<And>d. hmac_compute tc suite master d \<noteq> []"
  shows "length (kb_client_write (derive_key_block tc master cr sr suite)) = enc_key_len suite"
    "length (kb_server_write (derive_key_block tc master cr sr suite)) = enc_key_len suite"
    "length (kb_client_mac (derive_key_block tc master cr sr suite)) = mac_key_len suite"
    "length (kb_server_mac (derive_key_block tc master cr sr suite)) = mac_key_len suite"
  using prf_length [OF assms] by (simp_all add: derive_key_block_def Let_def sub_def)

section \<open>One record there and back\<close>

text \<open>The laws of AES in CBC mode and of the record MAC.\<close>

definition tls_laws :: "tls_crypto \<Rightarrow> cipher_suite \<Rightarrow> bool" where
  "tls_laws tc suite \<longleftrightarrow>
    (\<forall>k iv p. length p mod 16 = 0 \<longrightarrow> tc_cbc_dec tc k iv (tc_cbc_enc tc k iv p) = Some p) \<and>
    (\<forall>k d. length (record_hmac tc suite k d) = mac_key_len suite)"

definition mirrored :: "key_block \<Rightarrow> key_block" where
  "mirrored k = k\<lparr>kb_client_mac := kb_server_mac k, kb_server_mac := kb_client_mac k,
    kb_client_write := kb_server_write k, kb_server_write := kb_client_write k\<rparr>"

lemma strip_mac_pad16:
  assumes "length mac = n"
  shows "strip_mac n (pad16 (p @ mac)) = Ok (p, mac)"
proof -
  define k where "k = 16 - length (p @ mac) mod 16"
  have k: "0 < k" "k \<le> 16" by (simp_all add: k_def)
  then obtain j where j: "k = Suc j" "j < 256" by (cases k) auto
  then have u: "unat (of_nat k - 1 :: byte) = j" by (simp add: unat_of_nat_u8)
  have p: "pad16 (p @ mac) = p @ mac @ replicate k (of_nat k - 1)" by (simp add: pad16_def k_def Let_def)
  have "last (pad16 (p @ mac)) = of_nat k - 1" using k(1) by (simp only: p) simp
  then show ?thesis using u j assms unfolding strip_mac_def Let_def by (simp add: p sub_def)
qed

lemma pad16_length: "length (pad16 p) mod 16 = 0"
proof -
  have "(n + (16 - n mod 16)) mod 16 = 0" for n :: nat by presburger
  then show ?thesis by (simp add: pad16_def Let_def)
qed

lemma record_read_back:
  assumes "tls_laws tc (kb_suite keys)" and "length iv = 16"
  shows "decrypt_record tc (mirrored keys) True seq ct (encrypt_record tc keys seq ct iv plaintext) = Ok plaintext"
  using assms pad16_length
  by (simp add: decrypt_record_def encrypt_record_def mirrored_def Let_def tls_laws_def strip_mac_pad16 compute_mac_def)

section \<open>What goes out\<close>

datatype tls_write_op = PollWrite "byte list" "byte list" | PollFlush

definition write_step :: "tls_crypto \<Rightarrow> tls_write_op \<Rightarrow> tls_psk_stream \<times> poll_io \<Rightarrow> tls_psk_stream \<times> poll_io" where
  "write_step tc w s = (case w of PollWrite iv d \<Rightarrow> snd (tls_poll_write tc iv d s) | PollFlush \<Rightarrow> snd (tls_poll_flush s))"

fun app_records :: "tls_crypto \<Rightarrow> key_block \<Rightarrow> u64 \<Rightarrow> (byte list \<times> byte list) list \<Rightarrow> byte list" where
  "app_records tc keys n [] = []"
| "app_records tc keys n ((iv, c) # xs) = app_record tc keys n iv c @ app_records tc keys (n + 1) xs"

lemma app_records_snoc:
  "app_records tc keys n (xs @ [(iv, c)]) = app_records tc keys n xs @ app_record tc keys (n + of_nat (length xs)) iv c"
  by (induction tc keys n xs rule: app_records.induct) (simp_all add: ac_simps)

text \<open>What has gone out and what still waits make up the records numbered from one.\<close>

definition whole_records :: "tls_crypto \<Rightarrow> key_block \<Rightarrow> tls_psk_stream \<times> poll_io \<Rightarrow> bool" where
  "whole_records tc keys s \<longleftrightarrow> ts_keys (fst s) = keys \<and>
    (\<exists>xs. io_out (snd s) @ ts_write_buf (fst s) = app_records tc keys 1 xs \<and>
       ts_write_seq (fst s) = 1 + of_nat (length xs) \<and> list_all (\<lambda>x. length (snd x) \<le> TLS_MAX_PLAINTEXT) xs)"

lemma drain_buf_out: "drain_buf ws buf out = (r, ws', buf', out') \<Longrightarrow> out' @ buf' = out @ buf"
  by (induction ws buf out rule: drain_buf.induct) auto

lemma drain_buf_ready: "drain_buf ws buf out = (Ok (Ready u), ws', buf', out') \<Longrightarrow> buf' = []"
  by (induction ws buf out rule: drain_buf.induct) auto

lemma drain_buf_takes: "buf \<noteq> [] \<Longrightarrow> drain_buf (Takes n # ws) buf out = drain_buf ws (drop n buf) (out @ take n buf)"
  by (cases buf) simp_all

lemma flush_pending_records:
  assumes "whole_records tc keys s" and "flush_pending s = (r, s')"
  shows "whole_records tc keys s' \<and> (case r of Ok (Ready _) \<Rightarrow> ts_write_buf (fst s') = [] | _ \<Rightarrow> True)"
proof -
  obtain ts io where s: "s = (ts, io)" by fastforce
  obtain q ws buf out where d: "drain_buf (io_script io) (ts_write_buf ts) (io_out io) = (q, ws, buf, out)"
    by (cases "drain_buf (io_script io) (ts_write_buf ts) (io_out io)") auto
  with assms(2) s have e: "s' = (ts\<lparr>ts_write_buf := buf\<rparr>, io\<lparr>io_script := ws, io_out := out\<rparr>)" "r = q"
    by (auto simp: flush_pending_def)
  have "whole_records tc keys s'"
    using assms(1) drain_buf_out [OF d] unfolding whole_records_def s e by simp
  moreover have "case r of Ok (Ready _) \<Rightarrow> ts_write_buf (fst s') = [] | _ \<Rightarrow> True"
    using drain_buf_ready [of _ _ _ _ ws buf out] d e by (auto split: res.split poll.split)
  ultimately show ?thesis by blast
qed

lemma whole_records_more:
  assumes "whole_records tc keys (ts, io)" and "ts_write_buf ts = []" and "length chunk \<le> TLS_MAX_PLAINTEXT"
    and "io_out io' @ buf = io_out io @ app_record tc keys (ts_write_seq ts) iv chunk"
  shows "whole_records tc keys (ts\<lparr>ts_write_seq := ts_write_seq ts + 1, ts_write_buf := buf\<rparr>, io')"
proof -
  from assms(1,2) obtain xs where x: "ts_keys ts = keys" "io_out io = app_records tc keys 1 xs"
      "ts_write_seq ts = 1 + of_nat (length xs)" "list_all (\<lambda>x. length (snd x) \<le> TLS_MAX_PLAINTEXT) xs"
    by (auto simp: whole_records_def)
  with assms(3,4) have "io_out io' @ buf = app_records tc keys 1 (xs @ [(iv, chunk)]) \<and>
      ts_write_seq ts + 1 = 1 + of_nat (length (xs @ [(iv, chunk)])) \<and>
      list_all (\<lambda>x. length (snd x) \<le> TLS_MAX_PLAINTEXT) (xs @ [(iv, chunk)])"
    by (simp add: app_records_snoc)
  with x(1) show ?thesis unfolding whole_records_def by fastforce
qed

lemma io_write_out:
  assumes "io_write bs io = (r, io')"
  shows "case r of Ok (Ready n) \<Rightarrow> io_out io' @ drop n bs = io_out io @ bs | _ \<Rightarrow> io_out io' = io_out io"
  using assms by (auto simp: io_write_def Let_def min_def split: list.splits write_answer.splits)

lemma send_chunk_records:
  assumes "whole_records tc keys (ts, io)" and "ts_write_buf ts = []" and "length chunk \<le> TLS_MAX_PLAINTEXT"
  shows "whole_records tc keys (snd (send_chunk tc iv chunk (ts, io)))"
proof -
  have k: "ts_keys ts = keys" using assms(1) by (simp add: whole_records_def)
  obtain r io' where w: "io_write (app_record tc keys (ts_write_seq ts) iv chunk) io = (r, io')" by fastforce
  note o = io_write_out [OF w] and more = whole_records_more [OF assms, of io' _ iv]
  have same: "io_out io' = io_out io \<Longrightarrow> whole_records tc keys (ts, io')" using assms(1) by (simp add: whole_records_def)
  show ?thesis
  proof (cases r)
    case (Ok p)
    show ?thesis
    proof (cases p)
      case (Ready n)
      with Ok o have "whole_records tc keys (ts\<lparr>ts_write_seq := ts_write_seq ts + 1,
          ts_write_buf := drop n (app_record tc keys (ts_write_seq ts) iv chunk)\<rparr>, io')" by (intro more) simp
      with Ok Ready w k assms(2) show ?thesis by (simp add: send_chunk_def Let_def)
    next
      case PollPending
      with Ok o have "whole_records tc keys (ts\<lparr>ts_write_seq := ts_write_seq ts + 1,
          ts_write_buf := app_record tc keys (ts_write_seq ts) iv chunk\<rparr>, io')" by (intro more) simp
      with Ok PollPending w k show ?thesis by (simp add: send_chunk_def Let_def)
    qed
  qed (use o same w k in \<open>simp_all add: send_chunk_def Let_def\<close>)
qed

lemma write_step_records: "whole_records tc keys s \<Longrightarrow> whole_records tc keys (write_step tc w s)"
proof (cases w)
  case PollFlush
  assume "whole_records tc keys s"
  with flush_pending_records [of tc keys s] PollFlush show ?thesis
    by (cases "flush_pending s") (auto simp: write_step_def tls_poll_flush_def)
next
  case (PollWrite iv d)
  assume s: "whole_records tc keys s"
  obtain r u where f: "flush_pending s = (r, u)" by (rule prod.exhaust)
  note g = flush_pending_records [OF s f]
  show ?thesis
  proof (cases r)
    case (Ok p)
    show ?thesis
    proof (cases p)
      case (Ready x)
      with g Ok have "whole_records tc keys (snd (send_chunk tc iv (take TLS_MAX_PLAINTEXT d) (fst u, snd u)))"
        by (intro send_chunk_records) auto
      with PollWrite f Ok Ready show ?thesis by (simp add: write_step_def tls_poll_write_def)
    qed (use g f Ok PollWrite in \<open>simp add: write_step_def tls_poll_write_def\<close>)
  qed (use g f PollWrite in \<open>simp_all add: write_step_def tls_poll_write_def act_bind_def\<close>)
qed

lemma writes_records: "whole_records tc keys s \<Longrightarrow> whole_records tc keys (fold (write_step tc) ws s)"
  by (induction ws arbitrary: s) (simp_all add: write_step_records)

text \<open>
  C36. Whatever the inner stream takes at each poll, refuses or leaves waiting, what it has taken is a prefix of whole records,
  numbered from one without a gap, none over the size TLS allows, and the rest of them is what the stream still holds.
\<close>

theorem tls_writes_whole_records:
  "case fold (write_step tc) ws (tls_new keys n, \<lparr>io_in = arrivals, io_script = script, io_out = []\<rparr>) of
     (ts, io) \<Rightarrow> \<exists>xs. io_out io @ ts_write_buf ts = app_records tc keys 1 xs \<and> ts_write_seq ts = 1 + of_nat (length xs) \<and>
       list_all (\<lambda>x. length (snd x) \<le> TLS_MAX_PLAINTEXT) xs"
proof -
  have "whole_records tc keys (tls_new keys n, \<lparr>io_in = arrivals, io_script = script, io_out = []\<rparr>)"
    unfolding whole_records_def by (rule conjI, simp add: tls_new_def, rule exI [of _ "[]"], simp add: tls_new_def)
  from writes_records [OF this, of ws] show ?thesis by (simp add: whole_records_def case_prod_beta)
qed


section \<open>What comes in\<close>

text \<open>What the bytes of the inner stream mean: the records in order, up to the first that is cut short or does not open.\<close>

function tls_decode :: "tls_crypto \<Rightarrow> key_block \<Rightarrow> u64 \<Rightarrow> byte list \<Rightarrow> byte list" where
  "tls_decode tc keys seq bs =
    (if length bs < 5 then []
     else let body_len = unat (from_be_bytes [bs ! 3, bs ! 4] :: u16) in
       if length bs < 5 + body_len then []
       else case decrypt_record tc keys True seq (bs ! 0) (sub 5 body_len bs) of
         Ok p \<Rightarrow> p @ tls_decode tc keys (seq + 1) (drop (5 + body_len) bs)
       | _ \<Rightarrow> [])"
  by pat_completeness auto
termination tls_decode
  by (relation "measure (\<lambda>(tc, keys, seq, bs). length bs)") auto

declare tls_decode.simps [simp del]

definition incoming :: "tls_crypto \<Rightarrow> tls_psk_stream \<times> poll_io \<Rightarrow> byte list" where
  "incoming tc s = ts_read_buf (fst s) @
    tls_decode tc (ts_keys (fst s)) (ts_read_seq (fst s)) (ts_pending (fst s) @ io_bytes (snd s))"

definition total_ok :: "tls_psk_stream \<Rightarrow> bool" where
  "total_ok ts \<longleftrightarrow> ts_total ts = 0 \<or>
    5 \<le> length (ts_pending ts) \<and> ts_total ts = 5 + unat (from_be_bytes [ts_pending ts ! 3, ts_pending ts ! 4] :: u16)"

definition read_bytes :: "(byte list poll, idevice_error) res \<Rightarrow> byte list option" where
  "read_bytes r = (case r of Ok (Ready bs) \<Rightarrow> Some bs | Ok PollPending \<Rightarrow> Some [] | _ \<Rightarrow> None)"

lemma know_length_ok: "total_ok ts \<Longrightarrow> total_ok (know_length ts)"
  by (simp add: total_ok_def know_length_def)

lemma know_length_same [simp]:
  "ts_pending (know_length ts) = ts_pending ts" "ts_keys (know_length ts) = ts_keys ts"
  "ts_read_seq (know_length ts) = ts_read_seq ts" "ts_read_buf (know_length ts) = ts_read_buf ts"
  by (simp_all add: know_length_def)

lemma take_record_incoming:
  assumes "total_ok ts" and "0 < ts_total ts" and "ts_total ts \<le> length (ts_pending ts)" and "ts_read_buf ts = []"
    and "take_record tc room (ts, io) = (r, s')" and "read_bytes r = Some bs"
  shows "bs @ incoming tc s' = incoming tc (ts, io) \<and> total_ok (fst s')"
proof -
  let ?p = "ts_pending ts" and ?n = "unat (from_be_bytes [ts_pending ts ! 3, ts_pending ts ! 4] :: u16)"
  have n: "ts_total ts = 5 + ?n" using assms(1,2) by (simp add: total_ok_def)
  from assms(5,6) obtain plain where d: "decrypt_record tc (ts_keys ts) True (ts_read_seq ts) (?p ! 0) (sub 5 ?n ?p) = Ok plain"
    and s: "bs = take room plain"
      "s' = (ts\<lparr>ts_pending := drop (ts_total ts) ?p, ts_total := 0, ts_read_seq := ts_read_seq ts + 1,
        ts_read_buf := drop room plain\<rparr>, io)"
    using assms(4) n by (auto simp: take_record_def Let_def read_bytes_def split: res.splits)
  have "tls_decode tc (ts_keys ts) (ts_read_seq ts) (?p @ io_bytes io) =
      plain @ tls_decode tc (ts_keys ts) (ts_read_seq ts + 1) (drop (5 + ?n) ?p @ io_bytes io)"
  proof -
    have "0 < length ?p" "3 < length ?p" "4 < length ?p" using assms(3) n by linarith+
    then have "(?p @ io_bytes io) ! i = ?p ! i" if "i \<in> {0, 3, 4}" for i using that by (auto simp: nth_append)
    then show ?thesis using assms(3) n d by (subst tls_decode.simps) (simp add: Let_def)
  qed
  with s n assms(4) show ?thesis by (simp add: incoming_def total_ok_def)
qed

lemma total_ok_more: "total_ok ts \<Longrightarrow> total_ok (ts\<lparr>ts_pending := ts_pending ts @ bs\<rparr>)"
  by (auto simp: total_ok_def nth_append)

lemma io_read_bytes:
  assumes "io_read n io = (r, io')"
  shows "case read_bytes r of Some bs \<Rightarrow> io_bytes io = bs @ io_bytes io' | None \<Rightarrow> True"
  using assms by (auto simp: io_read_def io_bytes_def read_bytes_def split: list.splits arrival.splits if_splits)

lemma assemble_incoming:
  "assemble tc room s = (r, s') \<Longrightarrow> total_ok (fst s) \<Longrightarrow> ts_read_buf (fst s) = [] \<Longrightarrow> read_bytes r = Some bs \<Longrightarrow>
   bs @ incoming tc s' = incoming tc s \<and> total_ok (fst s')"
proof (induction tc room s arbitrary: r s' bs rule: assemble.induct)
  case (1 tc room s)
  let ?ts = "know_length (fst s)" and ?io = "snd s"
  have k: "total_ok ?ts" "ts_read_buf ?ts = []" "incoming tc (?ts, ?io) = incoming tc s"
    using 1(3,4) by (simp_all add: know_length_ok incoming_def)
  show ?case
  proof (cases "0 < ts_total ?ts \<and> ts_total ?ts \<le> length (ts_pending ?ts)")
    case True
    with 1(2) have "take_record tc room (?ts, ?io) = (r, s')" by (simp add: assemble.simps [of tc room s] Let_def)
    from take_record_incoming [OF k(1) _ _ k(2) this 1(5)] True k(3) show ?thesis by simp
  next
    case False
    obtain q io' where q: "io_read 16384 ?io = (q, io')" by (rule prod.exhaust)
    note step = 1(2) [unfolded assemble.simps [of tc room s] Let_def, simplified False if_False q]
    show ?thesis
    proof (cases "\<exists>b. q = Ok (Ready b) \<and> b \<noteq> []")
      case True
      then obtain b where b: "q = Ok (Ready b)" "b \<noteq> []" by blast
      with step have a: "assemble tc room (?ts\<lparr>ts_pending := ts_pending ?ts @ b\<rparr>, io') = (r, s')" by simp
      have "io_bytes ?io = b @ io_bytes io'" using io_read_bytes [OF q] b by (simp add: read_bytes_def)
      then have "incoming tc (?ts\<lparr>ts_pending := ts_pending ?ts @ b\<rparr>, io') = incoming tc s" by (simp add: incoming_def)
      with 1(1) [OF refl refl False q [symmetric] b(1) refl b(2) a] k total_ok_more [of ?ts b] 1(5) show ?thesis by simp
    next
      case False
      with step 1(5) have "s' = (?ts, io')" "r = q" "bs = []"
        by (auto simp: read_bytes_def split: res.splits poll.splits if_splits)
      moreover from this io_read_bytes [OF q] 1(5) have "io_bytes ?io = io_bytes io'" by simp
      ultimately show ?thesis using k by (simp add: incoming_def)
    qed
  qed
qed

lemma poll_read_incoming:
  assumes "tls_poll_read tc room s = (r, s')" and "total_ok (fst s)" and "read_bytes r = Some bs"
  shows "bs @ incoming tc s' = incoming tc s \<and> total_ok (fst s')"
proof (cases "ts_read_buf (fst s) = []")
  case True
  with assms assemble_incoming show ?thesis by (simp add: tls_poll_read_def)
next
  case False
  with assms(1,3) have "bs = take room (ts_read_buf (fst s))"
      "s' = ((fst s)\<lparr>ts_read_buf := drop room (ts_read_buf (fst s))\<rparr>, snd s)"
    by (auto simp: tls_poll_read_def read_bytes_def)
  with assms(2) show ?thesis by (simp add: incoming_def total_ok_def)
qed

text \<open>Reads into buffers of the given sizes, as long as none fails.\<close>

primrec tls_reads :: "tls_crypto \<Rightarrow> nat list \<Rightarrow> tls_psk_stream \<times> poll_io \<Rightarrow> (byte list \<times> (tls_psk_stream \<times> poll_io)) option" where
  "tls_reads tc [] s = Some ([], s)"
| "tls_reads tc (room # rooms) s =
    (case tls_poll_read tc room s of (r, s') \<Rightarrow>
       Option.bind (read_bytes r) (\<lambda>bs. map_option (\<lambda>(more, u). (bs @ more, u)) (tls_reads tc rooms s')))"

lemma tls_reads_incoming:
  "tls_reads tc rooms s = Some (bs, u) \<Longrightarrow> total_ok (fst s) \<Longrightarrow> bs @ incoming tc u = incoming tc s"
proof (induction rooms arbitrary: s bs)
  case (Cons room rooms)
  obtain r s' where p: "tls_poll_read tc room s = (r, s')" by (rule prod.exhaust)
  with Cons.prems(1) obtain a b where a: "read_bytes r = Some a" "tls_reads tc rooms s' = Some (b, u)" "bs = a @ b"
    by (auto simp: bind_eq_Some_conv)
  from poll_read_incoming [OF p Cons.prems(2) a(1)] Cons.IH [OF a(2)] a(3) show ?case by simp
qed simp

text \<open>
  C37. However the bytes arrive, and whatever the sizes of the buffers, reads that do not fail hand over the contents of the
  records in order, each byte once; what they have not handed over yet is what is left to come.
\<close>

theorem tls_reads_deliver:
  "case tls_reads tc rooms (tls_new keys n, \<lparr>io_in = arrivals, io_script = script, io_out = []\<rparr>) of
     Some (bs, u) \<Rightarrow> bs @ incoming tc u = tls_decode tc keys n (concat (map arrival_bytes arrivals))
   | None \<Rightarrow> True"
proof -
  let ?s = "(tls_new keys n, \<lparr>io_in = arrivals, io_script = script, io_out = []\<rparr>)"
  have "total_ok (fst ?s)" "incoming tc ?s = tls_decode tc keys n (concat (map arrival_bytes arrivals))"
    by (simp_all add: total_ok_def incoming_def tls_new_def io_bytes_def)
  with tls_reads_incoming [of tc rooms ?s] show ?thesis by (auto split: option.split)
qed

end
