(* ===== verification/Recovery_Mode.thy ===== *)
theory Recovery_Mode
  imports Texts Transport
begin

text \<open>
  services/restore/recovery: devices in recovery and DFU mode, over a raw USB connection the caller brings
  (\<open>RecoveryTransport\<close>, a record of operations here): the modes and identifiers of mode.rs, the commands and uploads of
  mod.rs, the DFU upload of dfu.rs. A text is its UTF-8 bytes.
\<close>

definition recovery_err :: "string \<Rightarrow> idevice_error" where
  "recovery_err what = Restore (Recovery what)"

section \<open>Modes and identifiers\<close>

datatype recovery_mode = Recovery1 | Recovery2 | Recovery3 | Recovery4 | Wtf | Dfu

primrec mode_product_id :: "recovery_mode \<Rightarrow> u16" where
  "mode_product_id Recovery1 = 0x1280"
| "mode_product_id Recovery2 = 0x1281"
| "mode_product_id Recovery3 = 0x1282"
| "mode_product_id Recovery4 = 0x1283"
| "mode_product_id Wtf = 0x1222"
| "mode_product_id Dfu = 0x1227"

definition mode_from_product_id :: "u16 \<Rightarrow> recovery_mode option" where
  "mode_from_product_id p =
    (if p = 0x1280 then Some Recovery1 else if p = 0x1281 then Some Recovery2 else if p = 0x1282 then Some Recovery3
     else if p = 0x1283 then Some Recovery4 else if p = 0x1222 then Some Wtf else if p = 0x1227 then Some Dfu else None)"

definition is_recovery :: "recovery_mode \<Rightarrow> bool" where
  "is_recovery m \<longleftrightarrow> m \<noteq> Wtf \<and> m \<noteq> Dfu"

record device_ids =
  di_cpid :: "u64 option"
  di_bdid :: "u64 option"
  di_ecid :: "u64 option"
  di_ibfl :: "u64 option"
  di_srnm :: "rstring option"
  di_srtg :: "rstring option"
  di_ap_nonce :: "byte list option"
  di_sep_nonce :: "byte list option"
  di_raw :: "(rstring \<times> rstring) list"

definition device_ids_default :: device_ids where
  "device_ids_default =
    \<lparr>di_cpid = None, di_bdid = None, di_ecid = None, di_ibfl = None, di_srnm = None, di_srtg = None, di_ap_nonce = None,
     di_sep_nonce = None, di_raw = []\<rparr>"

text \<open>\<open>&s[i..i + 2]\<close> panics when one of its ends lies inside a character.\<close>

definition char_boundary :: "rstring \<Rightarrow> nat \<Rightarrow> bool" where
  "char_boundary s i \<longleftrightarrow> i = 0 \<or> i = length s \<or> i < length s \<and> \<not> is_cont (s ! i)"

fun hex_pairs :: "rstring \<Rightarrow> nat list \<Rightarrow> (byte list option, idevice_error) res" where
  "hex_pairs s [] = Ok (Some [])"
| "hex_pairs s (i # is) =
    (if \<not> (char_boundary s i \<and> char_boundary s (i + 2)) then Panic
     else case parse_hex 8 (take 2 (drop i s)) of
       None \<Rightarrow> Ok None
     | Some v \<Rightarrow> rmap (map_option (Cons (of_nat v))) (hex_pairs s is))"

definition hex_decode :: "rstring \<Rightarrow> (byte list option, idevice_error) res" where
  "hex_decode s = (if odd (length s) then Ok None else hex_pairs s (map (\<lambda>k. 2 * k) [0..<length s div 2]))"

definition unbracketed :: "rstring \<Rightarrow> rstring \<Rightarrow> rstring" where
  "unbracketed key v =
    (if (key = rstr ''SRNM'' \<or> key = rstr ''SRTG'') \<and> v \<noteq> [] \<and> hd v = 0x5B \<and> last v = 0x5D then butlast (drop 1 v) else v)"

definition hex_number :: "rstring \<Rightarrow> u64 option" where
  "hex_number v = map_option of_nat (parse_hex 64 v)"

definition set_identifier :: "rstring \<Rightarrow> rstring \<Rightarrow> device_ids \<Rightarrow> (device_ids, idevice_error) res" where
  "set_identifier key v d =
    (if key = rstr ''CPID'' then Ok (d\<lparr>di_cpid := hex_number v\<rparr>)
     else if key = rstr ''BDID'' then Ok (d\<lparr>di_bdid := hex_number v\<rparr>)
     else if key = rstr ''ECID'' then Ok (d\<lparr>di_ecid := hex_number v\<rparr>)
     else if key = rstr ''IBFL'' then Ok (d\<lparr>di_ibfl := hex_number v\<rparr>)
     else if key = rstr ''SRNM'' then Ok (d\<lparr>di_srnm := Some v\<rparr>)
     else if key = rstr ''SRTG'' then Ok (d\<lparr>di_srtg := Some v\<rparr>)
     else if key = rstr ''NONC'' then rmap (\<lambda>n. d\<lparr>di_ap_nonce := n\<rparr>) (hex_decode v)
     else if key = rstr ''SNON'' then rmap (\<lambda>n. d\<lparr>di_sep_nonce := n\<rparr>) (hex_decode v)
     else Ok d)"

fun parse_components :: "rstring list \<Rightarrow> device_ids \<Rightarrow> (device_ids, idevice_error) res" where
  "parse_components [] d = Ok d"
| "parse_components (c # cs) d =
    (case split_once 0x3A c of
       None \<Rightarrow> parse_components cs d
     | Some (key, v) \<Rightarrow>
         let w = unbracketed key v
         in rbind (set_identifier key w (d\<lparr>di_raw := AList.update key w (di_raw d)\<rparr>)) (parse_components cs))"

definition device_ids_parse :: "rstring \<Rightarrow> (device_ids, idevice_error) res" where
  "device_ids_parse serial = parse_components (split_on 0x20 serial) device_ids_default"

definition is_image4_supported :: "device_ids \<Rightarrow> bool" where
  "is_image4_supported d = (case di_ibfl d of Some f \<Rightarrow> f AND push_bit 2 1 \<noteq> 0 | None \<Rightarrow> False)"

section \<open>UTF-16\<close>

text \<open>\<open>String::from_utf16_lossy\<close>: an unpaired surrogate becomes U+FFFD.\<close>

definition utf8_encode :: "nat \<Rightarrow> byte list" where
  "utf8_encode c =
    (if c < 0x80 then [of_nat c]
     else if c < 0x800 then [of_nat (0xC0 + c div 64), of_nat (0x80 + c mod 64)]
     else if c < 0x10000 then [of_nat (0xE0 + c div 4096), of_nat (0x80 + c div 64 mod 64), of_nat (0x80 + c mod 64)]
     else [of_nat (0xF0 + c div 262144), of_nat (0x80 + c div 4096 mod 64), of_nat (0x80 + c div 64 mod 64), of_nat (0x80 + c mod 64)])"

fun utf16_lossy :: "nat list \<Rightarrow> byte list" where
  "utf16_lossy [] = []"
| "utf16_lossy [u] = utf8_encode (if 0xD800 \<le> u \<and> u < 0xE000 then 0xFFFD else u)"
| "utf16_lossy (u # v # us) =
    (if 0xD800 \<le> u \<and> u < 0xDC00 \<and> 0xDC00 \<le> v \<and> v < 0xE000
     then utf8_encode (0x10000 + (u - 0xD800) * 0x400 + (v - 0xDC00)) @ utf16_lossy us
     else utf8_encode (if 0xD800 \<le> u \<and> u < 0xE000 then 0xFFFD else u) @ utf16_lossy (v # us))"

fun le_units :: "byte list \<Rightarrow> nat list" where
  "le_units (a # b # bs) = (unat a + 256 * unat b) # le_units bs"
| "le_units _ = []"

section \<open>The connection\<close>

definition USB_TIMEOUT_MS :: u32 where "USB_TIMEOUT_MS = 10000"
definition TRANSFER_SIZE_RECOVERY :: nat where "TRANSFER_SIZE_RECOVERY = 0x8000"
definition TRANSFER_SIZE_DFU :: nat where "TRANSFER_SIZE_DFU = 0x800"
definition BULK_MAX_PACKET_SIZE :: nat where "BULK_MAX_PACKET_SIZE = 512"

record control_setup =
  cs_request_type :: byte
  cs_request :: byte
  cs_value :: u16
  cs_index :: u16

definition usb_setup :: "byte \<Rightarrow> byte \<Rightarrow> u16 \<Rightarrow> u16 \<Rightarrow> control_setup" where
  "usb_setup rt rq v i = \<lparr>cs_request_type = rt, cs_request = rq, cs_value = v, cs_index = i\<rparr>"

record 'u usb =
  us_control_out :: "control_setup \<Rightarrow> byte list \<Rightarrow> u32 \<Rightarrow> ('u, nat) act"
  us_control_in :: "control_setup \<Rightarrow> u16 \<Rightarrow> u32 \<Rightarrow> ('u, byte list) act"
  us_bulk_out :: "byte \<Rightarrow> byte list \<Rightarrow> u32 \<Rightarrow> ('u, nat) act"
  us_serial_number :: "('u, rstring) act"
  us_product_id :: "'u \<Rightarrow> u16"
  us_set_configuration :: "byte \<Rightarrow> ('u, unit) act"
  us_claim_interface :: "byte \<Rightarrow> byte \<Rightarrow> ('u, unit) act"
  us_reset :: "('u, unit) act"

record 'u recovery =
  rc_usb :: 'u
  rc_mode :: recovery_mode
  rc_info :: device_ids

definition on_usb :: "('u, 'a) act \<Rightarrow> ('u recovery, 'a) act" where
  "on_usb m s = (case m (rc_usb s) of (r, u) \<Rightarrow> (r, s\<lparr>rc_usb := u\<rparr>))"

definition control_out :: "'u usb \<Rightarrow> control_setup \<Rightarrow> byte list \<Rightarrow> ('u recovery, unit) act" where
  "control_out T st bs = act_bind (on_usb (us_control_out T st bs USB_TIMEOUT_MS)) (\<lambda>_. act_ok ())"

definition read_string_descriptor :: "'u usb \<Rightarrow> byte \<Rightarrow> ('u recovery, rstring) act" where
  "read_string_descriptor T index =
    act_bind (on_usb (us_control_in T (usb_setup 0x80 0x06 (push_bit 8 3 OR ucast index) 0x0409) 255 USB_TIMEOUT_MS)) (\<lambda>data.
      if length data < 2 \<or> data ! 1 \<noteq> 0x03 then act_err (recovery_err ''string descriptor malformed or absent'')
      else act_res (rmap (\<lambda>bs. utf16_lossy (le_units bs)) (index_range 2 (min (unat (data ! 0)) (length data)) data)))"

definition merge_raw :: "(rstring \<times> rstring) list \<Rightarrow> (rstring \<times> rstring) list \<Rightarrow> (rstring \<times> rstring) list" where
  "merge_raw extra raw = fold (\<lambda>(k, v) r. if map_of r k = None then r @ [(k, v)] else r) extra raw"

definition adopt_nonces :: "device_ids \<Rightarrow> device_ids \<Rightarrow> device_ids" where
  "adopt_nonces p d =
    d\<lparr>di_ap_nonce := (case di_ap_nonce d of None \<Rightarrow> di_ap_nonce p | n \<Rightarrow> n),
      di_sep_nonce := (case di_sep_nonce d of None \<Rightarrow> di_sep_nonce p | n \<Rightarrow> n),
      di_raw := merge_raw (di_raw p) (di_raw d)\<rparr>"

definition load_nonces_from_descriptor :: "'u usb \<Rightarrow> ('u recovery, unit) act" where
  "load_nonces_from_descriptor T s =
    (if di_ap_nonce (rc_info s) \<noteq> None \<and> di_sep_nonce (rc_info s) \<noteq> None then (Ok (), s)
     else case read_string_descriptor T 1 s of
       (Ok extra, t) \<Rightarrow>
         (case device_ids_parse extra of
            Ok p \<Rightarrow> (Ok (), t\<lparr>rc_info := adopt_nonces p (rc_info t)\<rparr>)
          | Err e \<Rightarrow> (Err e, t)
          | Panic \<Rightarrow> (Panic, t))
     | (Err _, t) \<Rightarrow> (Ok (), t)
     | (Panic, t) \<Rightarrow> (Panic, t))"

definition configure :: "'u usb \<Rightarrow> ('u recovery, unit) act" where
  "configure T =
    act_bind (on_usb (us_set_configuration T 1)) (\<lambda>_.
    act_bind (on_usb (us_claim_interface T 0 0)) (\<lambda>_. \<lambda>s.
      if is_recovery (rc_mode s) \<and> mode_product_id Recovery2 < mode_product_id (rc_mode s)
      then on_usb (us_claim_interface T 1 1) s else (Ok (), s)))"

definition recovery_new :: "'u usb \<Rightarrow> 'u \<Rightarrow> ('u recovery, idevice_error) res" where
  "recovery_new T u =
    (case mode_from_product_id (us_product_id T u) of
       None \<Rightarrow> Err (recovery_err ''not an Apple recovery/DFU product id'')
     | Some mode \<Rightarrow>
         (case us_serial_number T u of
            (Ok serial, v) \<Rightarrow>
              rbind (device_ids_parse serial) (\<lambda>info.
              let s = \<lparr>rc_usb = v, rc_mode = mode, rc_info = info\<rparr>
              in case act_bind (configure T) (\<lambda>_. load_nonces_from_descriptor T) s of (r, t) \<Rightarrow> rmap (\<lambda>_. t) r)
          | (Err e, _) \<Rightarrow> Err e
          | (Panic, _) \<Rightarrow> Panic))"

section \<open>Commands\<close>

definition send_command_with_request :: "'u usb \<Rightarrow> rstring \<Rightarrow> byte \<Rightarrow> ('u recovery, unit) act" where
  "send_command_with_request T command b_request = control_out T (usb_setup 0x40 b_request 0 0) (command @ [0])"

definition recovery_send_command :: "'u usb \<Rightarrow> rstring \<Rightarrow> ('u recovery, unit) act" where
  "recovery_send_command T command = send_command_with_request T command 0"

definition finish_transfer :: "'u usb \<Rightarrow> ('u recovery, unit) act" where
  "finish_transfer T = control_out T (usb_setup 0x21 1 0 0) []"

definition getenv :: "'u usb \<Rightarrow> rstring \<Rightarrow> ('u recovery, byte list) act" where
  "getenv T name =
    act_bind (recovery_send_command T (rstr ''getenv '' @ name)) (\<lambda>_.
    on_usb (us_control_in T (usb_setup 0xC0 0 0 0) 255 USB_TIMEOUT_MS))"

definition setenv :: "'u usb \<Rightarrow> rstring \<Rightarrow> rstring \<Rightarrow> ('u recovery, unit) act" where
  "setenv T name v = recovery_send_command T (rstr ''setenv '' @ name @ rstr '' '' @ v)"

definition set_autoboot :: "'u usb \<Rightarrow> bool \<Rightarrow> ('u recovery, unit) act" where
  "set_autoboot T enable =
    act_bind (setenv T (rstr ''auto-boot'') (rstr (if enable then ''true'' else ''false''))) (\<lambda>_.
    recovery_send_command T (rstr ''saveenv''))"

definition recovery_reboot :: "'u usb \<Rightarrow> ('u recovery, unit) act" where
  "recovery_reboot T = recovery_send_command T (rstr ''reboot'')"

section \<open>Uploads\<close>

primrec bulk_chunks :: "'u usb \<Rightarrow> byte list list \<Rightarrow> ('u recovery, unit) act" where
  "bulk_chunks T [] = act_ok ()"
| "bulk_chunks T (c # cs) =
    act_bind (on_usb (us_bulk_out T 0x04 c USB_TIMEOUT_MS)) (\<lambda>n.
      if n \<noteq> length c then act_err (recovery_err ''recovery upload short write'') else bulk_chunks T cs)"

definition send_buffer_recovery :: "'u usb \<Rightarrow> byte list \<Rightarrow> ('u recovery, unit) act" where
  "send_buffer_recovery T buf =
    act_bind (control_out T (usb_setup 0x41 0 0 0) []) (\<lambda>_.
    act_bind (bulk_chunks T (chunks TRANSFER_SIZE_RECOVERY buf)) (\<lambda>_.
      if buf \<noteq> [] \<and> length buf mod BULK_MAX_PACKET_SIZE = 0
      then act_bind (on_usb (us_bulk_out T 0x04 [] USB_TIMEOUT_MS)) (\<lambda>_. act_ok ()) else act_ok ()))"

text \<open>\<open>GETSTATUS\<close>\<close>

definition dfu_status :: "'u usb \<Rightarrow> ('u recovery, byte) act" where
  "dfu_status T =
    act_bind (on_usb (us_control_in T (usb_setup 0xA1 3 0 0) 6 USB_TIMEOUT_MS)) (\<lambda>resp.
    act_res (ok_or (recovery_err ''short DFU GETSTATUS response'') (get_at 4 resp)))"

definition DFU_XBUF :: "byte list" where
  "DFU_XBUF = [0xFF, 0xFF, 0xFF, 0xFF, 0xAC, 0x05, 0x00, 0x01, 0x55, 0x46, 0x44, 0x10]"

primrec crc_bits :: "nat \<Rightarrow> u32 \<Rightarrow> u32" where
  "crc_bits 0 crc = crc"
| "crc_bits (Suc k) crc = crc_bits k (if crc AND 1 \<noteq> 0 then drop_bit 1 crc XOR 0xEDB88320 else drop_bit 1 crc)"

definition crc32_zlib :: "u32 \<Rightarrow> byte list \<Rightarrow> u32" where
  "crc32_zlib crc bs = foldl (\<lambda>c b. crc_bits 8 (c XOR ucast b)) (crc XOR 0xFFFFFFFF) bs XOR 0xFFFFFFFF"

definition dfu_idle :: "'u usb \<Rightarrow> ('u recovery, unit) act" where
  "dfu_idle T =
    act_bind (on_usb (us_control_in T (usb_setup 0xA1 5 0 0) 1 USB_TIMEOUT_MS)) (\<lambda>state.
      case get_at 0 state of
        Some st \<Rightarrow>
          if st = 2 then act_ok ()
          else if st = 10 then
            act_bind (control_out T (usb_setup 0x21 4 0 0) []) (\<lambda>_. act_err (recovery_err ''DFU error state; issued CLRSTATUS''))
          else act_bind (control_out T (usb_setup 0x21 6 0 0) []) (\<lambda>_. act_err (recovery_err ''unexpected DFU state; issued ABORT''))
      | None \<Rightarrow> act_bind (control_out T (usb_setup 0x21 6 0 0) []) (\<lambda>_. act_err (recovery_err ''unexpected DFU state; issued ABORT'')))"

text \<open>The suffix with the checksum of the image and the salt\<close>

definition dfu_suffix :: "byte list \<Rightarrow> byte list" where
  "dfu_suffix buf = DFU_XBUF @ to_le_bytes (crc32_zlib (crc32_zlib 0xFFFFFFFF buf) DFU_XBUF)"

definition dfu_packet :: "'u usb \<Rightarrow> byte list \<Rightarrow> nat \<Rightarrow> u16 \<Rightarrow> ('u recovery, unit) act" where
  "dfu_packet T buf offset idx =
    (let end_at = min (offset + TRANSFER_SIZE_DFU) (length buf);
         chunk = sub offset (end_at - offset) buf;
         out = (\<lambda>bs. control_out T (usb_setup 0x21 1 idx 0) bs)
     in if length buf \<le> end_at then
          (if TRANSFER_SIZE_DFU < length chunk + length (dfu_suffix buf)
           then act_bind (out chunk) (\<lambda>_. out (dfu_suffix buf)) else out (chunk @ dfu_suffix buf))
        else out chunk)"

function dfu_loop :: "'u usb \<Rightarrow> byte list \<Rightarrow> nat \<Rightarrow> u16 \<Rightarrow> ('u recovery, unit) act" where
  "dfu_loop T buf offset idx =
    (if offset < length buf
     then act_bind (dfu_packet T buf offset idx) (\<lambda>_.
       dfu_loop T buf (min (offset + TRANSFER_SIZE_DFU) (length buf)) (idx + 1))
     else act_ok ())"
  by pat_completeness auto
termination dfu_loop
  by (relation "measure (\<lambda>(T, buf, offset, idx). length buf - offset)") (auto simp: TRANSFER_SIZE_DFU_def)

declare dfu_loop.simps [simp del]

text \<open>The wait for the manifest state polls for as long as the device answers something else.\<close>

partial_function (option) dfu_wait :: "'u usb \<Rightarrow> 'u recovery \<Rightarrow> ((unit, idevice_error) res \<times> 'u recovery) option" where
  "dfu_wait T s =
    (case dfu_status T s of
       (Ok st, t) \<Rightarrow> if st = 5 then Some (Ok (), t) else dfu_wait T t
     | (Err e, t) \<Rightarrow> Some (Err e, t)
     | (Panic, t) \<Rightarrow> Some (Panic, t))"

definition dfu_finish :: "'u usb \<Rightarrow> byte list \<Rightarrow> ('u recovery, unit) act" where
  "dfu_finish T buf =
    act_bind (control_out T (usb_setup 0x21 1 (of_nat ((length buf + TRANSFER_SIZE_DFU - 1) div TRANSFER_SIZE_DFU)) 0) []) (\<lambda>_.
    act_bind (dfu_status T) (\<lambda>_.
    act_bind (dfu_status T) (\<lambda>_.
    on_usb (us_reset T))))"

definition send_buffer_dfu :: "'u usb \<Rightarrow> byte list \<Rightarrow> 'u recovery \<Rightarrow> ((unit, idevice_error) res \<times> 'u recovery) option" where
  "send_buffer_dfu T buf s =
    (case act_bind (dfu_idle T) (\<lambda>_. dfu_loop T buf 0 0) s of
       (Ok _, t) \<Rightarrow>
         (case dfu_wait T t of
            None \<Rightarrow> None
          | Some (Ok _, u) \<Rightarrow> Some (dfu_finish T buf u)
          | Some (Err e, u) \<Rightarrow> Some (Err e, u)
          | Some (Panic, u) \<Rightarrow> Some (Panic, u))
     | (Err e, t) \<Rightarrow> Some (Err e, t)
     | (Panic, t) \<Rightarrow> Some (Panic, t))"

definition send_buffer :: "'u usb \<Rightarrow> byte list \<Rightarrow> 'u recovery \<Rightarrow> ((unit, idevice_error) res \<times> 'u recovery) option" where
  "send_buffer T buf s =
    (if is_recovery (rc_mode s) then Some (send_buffer_recovery T buf s) else send_buffer_dfu T buf s)"

end
