(* ===== verification/Recovery_Runs.thy ===== *)
theory Recovery_Runs
  imports Recovery_Mode
begin

unbundle bit_operations_syntax

text \<open>
  What an upload in DFU mode sends, and why the device can check it; when the identifiers and the string descriptor of a device
  make the host panic.
\<close>

section \<open>The checksum\<close>

lemma flip_all: "x XOR 0xFFFFFFFF = NOT x" for x :: u32
proof -
  have m: "(0xFFFFFFFF :: u32) = mask 32" by (simp add: mask_eq_exp_minus_1)
  have "x XOR mask 32 = NOT x" by (rule bit_word_eqI) (auto simp: bit_simps)
  then show ?thesis by (simp only: m)
qed

lemma crc_more [simp]: "crc32_zlib (crc32_zlib c a) b = crc32_zlib c (a @ b)"
proof -
  have x: "(x XOR 0xFFFFFFFF) XOR 0xFFFFFFFF = (x :: u32)" for x by (simp add: xor.assoc)
  show ?thesis by (simp only: crc32_zlib_def foldl_append x)
qed

definition crc_step :: "u32 \<Rightarrow> u32" where
  "crc_step c = (if c AND 1 \<noteq> 0 then drop_bit 1 c XOR 0xEDB88320 else drop_bit 1 c)"

lemma crc_bits_step: "crc_bits (Suc k) c = crc_bits k (crc_step c)"
  by (simp add: crc_step_def)

declare crc_bits.simps(2) [simp del]

lemma low_bit: "(c :: u32) AND 1 \<noteq> 0 \<longleftrightarrow> bit c 0"
  by (simp add: bit_iff_odd and_one_eq odd_iff_mod_2_eq_one)

lemma crc_step_xor: "crc_step (a XOR b) = crc_step a XOR crc_step b"
  unfolding crc_step_def low_bit bit_xor_iff by (auto simp: ac_simps)

lemma crc_bits_xor: "crc_bits k (a XOR b) = crc_bits k a XOR crc_bits k b"
  by (induction k arbitrary: a b) (simp_all add: crc_bits_step crc_step_xor)

text \<open>A register without low bits is shifted.\<close>

lemma crc_shift: "\<forall>i < k. \<not> bit c i \<Longrightarrow> crc_bits k c = drop_bit k c"
proof (induction k arbitrary: c)
  case (Suc k)
  then have "\<not> bit c 0" by auto
  then have s: "crc_step c = drop_bit 1 c" unfolding crc_step_def low_bit by simp
  have "\<forall>i < k. \<not> bit (drop_bit 1 c) i" using Suc.prems by (auto simp: bit_drop_bit_eq)
  then show ?case using Suc.IH [of "drop_bit 1 c"] by (simp add: crc_bits_step s)
qed simp

text \<open>One byte of the complement of what is left in the register clears it, whatever it is.\<close>

definition crc_byte :: "u32 \<Rightarrow> byte \<Rightarrow> u32" where
  "crc_byte c b = crc_bits 8 (c XOR ucast b)"

lemma crc_clears: "crc_byte (d XOR k) (ucast (NOT d)) = drop_bit 8 d XOR crc_bits 8 (k XOR 0xFF)" for d k :: u32
proof -
  have s: "(0xFF :: u32) = mask 8" by (simp add: mask_eq_exp_minus_1)
  have split: "(d XOR k) XOR ucast (ucast (NOT d) :: byte) = (d AND NOT (mask 8)) XOR (k XOR mask 8)"
    by (rule bit_word_eqI) (auto simp: bit_simps)
  have "crc_bits 8 (d AND NOT (mask 8)) = drop_bit 8 (d AND NOT (mask 8))"
    by (rule crc_shift) (auto simp: bit_simps)
  also have "\<dots> = drop_bit 8 d" by (rule bit_word_eqI) (auto simp: bit_simps dest: bit_imp_le_length)
  finally show ?thesis by (simp only: crc_byte_def split crc_bits_xor s)
qed

lemma le_bytes_of: "to_le_bytes (c :: u32) = [ucast c, ucast (drop_bit 8 c), ucast (drop_bit 16 c), ucast (drop_bit 24 c)]"
proof -
  have "(of_nat (unat c div 2 ^ n) :: byte) = ucast (drop_bit n c)" for n
    by (metis drop_bit_eq_div of_nat_unat unat_drop_bit_eq)
  from this [of 0] this [of 8] this [of 16] this [of 24] have
    "nat_le (Suc (Suc (Suc (Suc 0)))) (unat c) = [ucast c, ucast (drop_bit 8 c), ucast (drop_bit 16 c), ucast (drop_bit 24 c)]"
    by (simp add: div_mult2_eq [symmetric])
  moreover have "LENGTH(32) div 8 = Suc (Suc (Suc (Suc 0)))" by simp
  ultimately show ?thesis by (simp only: to_le_bytes_def)
qed

text \<open>With its complement appended, every register ends in the same one.\<close>

lemma crc_residue: "foldl crc_byte c (to_le_bytes (NOT c)) = 0xDEBB20E3"
proof -
  have n: "drop_bit k (NOT c) = NOT (drop_bit k c) AND mask (32 - k)" for k
    by (rule bit_word_eqI) (auto simp: bit_simps)
  have u: "(ucast (NOT (drop_bit k c) AND mask (32 - k)) :: byte) = ucast (NOT (drop_bit k c))" if "k \<le> 24" for k
    using that by (intro bit_word_eqI) (auto simp: bit_simps)
  have "k \<le> 24 \<Longrightarrow> (ucast (drop_bit k (NOT c)) :: byte) = ucast (NOT (drop_bit k c))" for k
    using n [of k] u [of k] by simp
  from this [of 8] this [of 16] this [of 24] have u8: "(ucast (drop_bit 8 (NOT c)) :: byte) = ucast (NOT (drop_bit 8 c))"
    "(ucast (drop_bit 16 (NOT c)) :: byte) = ucast (NOT (drop_bit 16 c))"
    "(ucast (drop_bit 24 (NOT c)) :: byte) = ucast (NOT (drop_bit 24 c))" by simp_all
  have d: "drop_bit 8 (drop_bit k c) = drop_bit (8 + k) c" for k by (simp add: ac_simps)
  let ?k1 = "crc_bits 8 (0 XOR 0xFF)" let ?k2 = "crc_bits 8 (?k1 XOR 0xFF)"
  let ?k3 = "crc_bits 8 (?k2 XOR 0xFF)" let ?k4 = "crc_bits 8 (?k3 XOR 0xFF)"
  have 1: "crc_byte c (ucast (NOT c)) = drop_bit 8 c XOR ?k1" using crc_clears [of c 0] by simp
  have 2: "crc_byte (drop_bit 8 c XOR ?k1) (ucast (NOT (drop_bit 8 c))) = drop_bit 16 c XOR ?k2"
    using crc_clears [of "drop_bit 8 c" ?k1] by simp
  have 3: "crc_byte (drop_bit 16 c XOR ?k2) (ucast (NOT (drop_bit 16 c))) = drop_bit 24 c XOR ?k3"
    using crc_clears [of "drop_bit 16 c" ?k2] by simp
  have 4: "crc_byte (drop_bit 24 c XOR ?k3) (ucast (NOT (drop_bit 24 c))) = drop_bit 32 c XOR ?k4"
    using crc_clears [of "drop_bit 24 c" ?k3] by simp
  have z: "drop_bit 32 c = 0" by (rule bit_word_eqI) (auto simp: bit_simps)
  have k: "?k4 = 0xDEBB20E3" by code_simp
  have "foldl crc_byte c (to_le_bytes (NOT c)) = 0 XOR ?k4"
    by (simp only: le_bytes_of foldl_Cons foldl_Nil u8 1 2 3 4 z)
  also have "\<dots> = ?k4" by (rule xor.left_neutral)
  also note k
  finally show ?thesis .
qed

section \<open>An upload in DFU mode\<close>

text \<open>What goes out, each piece with its number\<close>

fun dfu_pieces :: "byte list \<Rightarrow> u16 \<Rightarrow> byte list list \<Rightarrow> (u16 \<times> byte list) list" where
  "dfu_pieces sfx i [] = []"
| "dfu_pieces sfx i [c] = (if TRANSFER_SIZE_DFU < length c + length sfx then [(i, c), (i, sfx)] else [(i, c @ sfx)])"
| "dfu_pieces sfx i (c # d # cs) = (i, c) # dfu_pieces sfx (i + 1) (d # cs)"

primrec each :: "('x \<Rightarrow> ('s, unit) act) \<Rightarrow> 'x list \<Rightarrow> ('s, unit) act" where
  "each f [] = act_ok ()"
| "each f (x # xs) = act_bind (f x) (\<lambda>_. each f xs)"

lemma pieces_content: "cs \<noteq> [] \<Longrightarrow> concat (map snd (dfu_pieces sfx i cs)) = concat cs @ sfx"
  by (induction sfx i cs rule: dfu_pieces.induct) auto

lemma pieces_size: "length sfx \<le> TRANSFER_SIZE_DFU \<Longrightarrow> list_all (\<lambda>c. length c \<le> TRANSFER_SIZE_DFU) cs \<Longrightarrow>
  list_all (\<lambda>p. length (snd p) \<le> TRANSFER_SIZE_DFU) (dfu_pieces sfx i cs)"
  by (induction sfx i cs rule: dfu_pieces.induct) auto

lemma act_bind_nested: "act_bind (act_bind m f) g = act_bind m (\<lambda>x. act_bind (f x) g)"
  by (rule ext) (simp add: act_bind_def split: prod.split res.split)

lemma act_bind_ok [simp]: "act_bind m act_ok = m"
  by (rule ext) (simp add: act_bind_def split: prod.split res.split)

lemma chunks_step: "0 < n \<Longrightarrow> xs \<noteq> [] \<Longrightarrow> chunks n xs = take n xs # chunks n (drop n xs)"
  by (simp add: chunks.simps [of n xs])

lemma dfu_loop_pieces:
  "dfu_loop T buf k i =
    each (\<lambda>p. control_out T (usb_setup 0x21 1 (fst p) 0) (snd p))
      (dfu_pieces (dfu_suffix buf) i (chunks TRANSFER_SIZE_DFU (drop k buf)))"
proof (induction "length buf - k" arbitrary: k i rule: less_induct)
  case less
  let ?n = TRANSFER_SIZE_DFU
  have n: "0 < ?n" by (simp add: TRANSFER_SIZE_DFU_def)
  show ?case
  proof (cases "k < length buf")
    case False
    then show ?thesis by (simp add: dfu_loop.simps [of T buf k i])
  next
    case True
    let ?e = "min (k + ?n) (length buf)"
    have e: "drop ?e buf = drop ?n (drop k buf)" by (simp add: min_def ac_simps)
    have s: "sub k (?e - k) buf = take ?n (drop k buf)" by (auto simp: sub_def min_def)
    have c: "chunks ?n (drop k buf) = take ?n (drop k buf) # chunks ?n (drop ?e buf)"
      using True n chunks_step [of ?n "drop k buf"] by (simp only: e) simp
    have IH: "dfu_loop T buf ?e (i + 1) = each (\<lambda>p. control_out T (usb_setup 0x21 1 (fst p) 0) (snd p))
        (dfu_pieces (dfu_suffix buf) (i + 1) (chunks ?n (drop ?e buf)))"
      by (rule less) (use True n in auto)
    show ?thesis
    proof (cases "length buf \<le> ?e")
      case last: True
      then have "chunks ?n (drop ?e buf) = []" by simp
      with True last IH s c show ?thesis
        by (simp add: dfu_loop.simps [of T buf k i] dfu_packet_def Let_def)
    next
      case False
      then have "chunks ?n (drop ?e buf) \<noteq> []" using n by simp
      then obtain d ds where "chunks ?n (drop ?e buf) = d # ds" by (cases "chunks ?n (drop ?e buf)") auto
      with True False IH s c show ?thesis
        by (simp add: dfu_loop.simps [of T buf k i] dfu_packet_def Let_def)
    qed
  qed
qed

text \<open>
  C20. An upload in DFU mode sends, over any connection, the image followed by the salt and the checksum, in control transfers of at
  most 2048 bytes numbered in order, and nothing if the image is empty; and the checksum of all that was sent is always the same
  number, by which the device can check it.
\<close>

theorem dfu_upload_sends:
  "dfu_loop T buf 0 0 =
     each (\<lambda>p. control_out T (usb_setup 0x21 1 (fst p) 0) (snd p)) (dfu_pieces (dfu_suffix buf) 0 (chunks TRANSFER_SIZE_DFU buf)) \<and>
   list_all (\<lambda>p. length (snd p) \<le> TRANSFER_SIZE_DFU) (dfu_pieces (dfu_suffix buf) 0 (chunks TRANSFER_SIZE_DFU buf)) \<and>
   concat (map snd (dfu_pieces (dfu_suffix buf) 0 (chunks TRANSFER_SIZE_DFU buf))) = (if buf = [] then [] else buf @ dfu_suffix buf) \<and>
   crc32_zlib 0xFFFFFFFF (buf @ dfu_suffix buf) = 0x2144DF1C"
proof (intro conjI)
  let ?n = TRANSFER_SIZE_DFU
  have n: "0 < ?n" by (simp add: TRANSFER_SIZE_DFU_def)
  show "dfu_loop T buf 0 0 = each (\<lambda>p. control_out T (usb_setup 0x21 1 (fst p) 0) (snd p)) (dfu_pieces (dfu_suffix buf) 0 (chunks ?n buf))"
    using dfu_loop_pieces [of T buf 0 0] by simp
  have "list_all (\<lambda>c. length c \<le> ?n) (chunks ?n buf)" using chunks_length by (auto simp: list_all_iff)
  moreover have "length (dfu_suffix buf) \<le> ?n" by (simp add: dfu_suffix_def DFU_XBUF_def to_le_bytes_def TRANSFER_SIZE_DFU_def)
  ultimately show "list_all (\<lambda>p. length (snd p) \<le> ?n) (dfu_pieces (dfu_suffix buf) 0 (chunks ?n buf))" by (rule pieces_size [rotated])
  show "concat (map snd (dfu_pieces (dfu_suffix buf) 0 (chunks ?n buf))) = (if buf = [] then [] else buf @ dfu_suffix buf)"
    using n pieces_content [of "chunks ?n buf"] by simp
  define c where "c = foldl crc_byte (0xFFFFFFFF XOR 0xFFFFFFFF) (buf @ DFU_XBUF)"
  have r: "crc32_zlib 0xFFFFFFFF (buf @ DFU_XBUF) = NOT c"
    by (simp only: crc32_zlib_def c_def crc_byte_def [abs_def] flip_all)
  have "crc32_zlib 0xFFFFFFFF (buf @ dfu_suffix buf) = foldl crc_byte c (to_le_bytes (NOT c)) XOR 0xFFFFFFFF"
    by (simp only: dfu_suffix_def crc_more r) (simp only: c_def crc32_zlib_def crc_byte_def [abs_def] foldl_append)
  then show "crc32_zlib 0xFFFFFFFF (buf @ dfu_suffix buf) = 0x2144DF1C" by (simp add: crc_residue)
qed

section \<open>What a device can say\<close>

text \<open>Identifiers in ASCII never panic; a nonce with a character of two bytes at an odd place does.\<close>

lemma ascii_no_cont: "b < 0x80 \<Longrightarrow> \<not> is_cont b" for b :: byte
  using word_and_le2 [of b "0xC0"] by (auto simp: is_cont_def)

lemma hex_pairs_ascii: "list_all (\<lambda>b. b < 0x80) s \<Longrightarrow> list_all (\<lambda>i. i + 2 \<le> length s) is \<Longrightarrow> hex_pairs s is \<noteq> Panic"
proof (induction "is")
  case (Cons i js)
  have "char_boundary s j" if "j \<le> length s" for j
    using that Cons.prems(1) ascii_no_cont by (auto simp: char_boundary_def list_all_length)
  with Cons show ?case by (auto simp: rmap_eq split: option.split)
qed simp

lemma hex_decode_ascii: "list_all (\<lambda>b. b < 0x80) s \<Longrightarrow> hex_decode s \<noteq> Panic"
  unfolding hex_decode_def using hex_pairs_ascii [of s] by (auto simp: list_all_iff)

lemma set_identifier_ascii: "list_all (\<lambda>b. b < 0x80) v \<Longrightarrow> set_identifier key v d \<noteq> Panic"
  using hex_decode_ascii [of v] by (simp add: set_identifier_def rmap_eq)

lemma unbracketed_ascii: "list_all (\<lambda>b. b < 0x80) v \<Longrightarrow> list_all (\<lambda>b. b < 0x80) (unbracketed key v)"
  by (auto simp: unbracketed_def list_all_iff dest: in_set_butlastD in_set_dropD)

lemma parse_components_ascii: "list_all (list_all (\<lambda>b. b < 0x80)) cs \<Longrightarrow> parse_components cs d \<noteq> Panic"
proof (induction cs arbitrary: d)
  case (Cons c cs)
  have "list_all (\<lambda>b. b < 0x80) v" if "split_once 0x3A c = Some (k, v)" for k v
    using that Cons.prems by (auto simp: split_once_def list_all_iff split: if_splits dest: set_dropWhileD list.set_sel(2))
      (metis list.set_sel(2) set_dropWhileD tl_Nil)
  with Cons show ?case
    by (auto simp: Let_def rbind_eq_Panic set_identifier_ascii unbracketed_ascii split: option.split)
qed simp

lemma split_on_parts: "p \<in> set (split_on d s) \<Longrightarrow> set p \<subseteq> set s"
  by (induction d s arbitrary: p rule: split_on.induct) (fastforce split: if_splits list.splits)+

theorem device_ids_parse_ascii: "list_all (\<lambda>b. b < 0x80) s \<Longrightarrow> device_ids_parse s \<noteq> Panic"
  unfolding device_ids_parse_def
  by (rule parse_components_ascii) (use split_on_parts [of _ "0x20" s] in \<open>auto simp: list_all_iff subset_iff\<close>)

lemma nonce_panics: "device_ids_parse (rstr ''NONC:'' @ [0x61, 0xC3, 0xA9, 0x62]) = Panic"
  by code_simp

text \<open>A string descriptor whose own length is below two panics the host.\<close>

lemma descriptor_panics_iff:
  assumes "us_control_in T (usb_setup 0x80 0x06 ((push_bit 8 3) OR ucast index) 0x0409) 255 USB_TIMEOUT_MS (rc_usb s) = (Ok data, u)"
  shows "fst (read_string_descriptor T index s) = Panic \<longleftrightarrow> 2 \<le> length data \<and> data ! 1 = 3 \<and> data ! 0 < 2"
proof -
  have "unat (data ! 0) < 2 \<longleftrightarrow> data ! 0 < 2" by (simp add: word_less_nat_alt)
  with assms show ?thesis
    by (auto simp: read_string_descriptor_def on_usb_def act_bind_def rmap_eq index_range_def split: prod.split)
qed

end
