(* ===== verification/Restore_Base.thy ===== *)
theory Restore_Base
  imports Device Tss Session
begin

text \<open>
  What the parts of a restore share (services/restore): the progress sink, the cancellation flag, the paths and flags of a build
  identity (ipsw.rs) and the client of \<open>restored\<close> (restored.rs).
\<close>

section \<open>Progress and cancellation\<close>

datatype restore_event = Operation u64 u64 | Step rstring | Transfer rstring nat "nat option"

text \<open>
  The sink holds what was sent into the channel, or is absent. Another thread sets the cancellation flag: \<open>Some k\<close> is the
  number of looks at it that still find it unset, \<open>None\<close> that it stays unset or that there is no handle.
\<close>

record restore_feed =
  fd_sink :: "restore_event list option"
  fd_cancel :: "nat option"

definition emit_event :: "restore_event \<Rightarrow> restore_feed \<Rightarrow> restore_feed" where
  "emit_event e f = f\<lparr>fd_sink := map_option (\<lambda>es. es @ [e]) (fd_sink f)\<rparr>"

definition is_cancelled :: "restore_feed \<Rightarrow> bool \<times> restore_feed" where
  "is_cancelled f =
    (case fd_cancel f of
       Some 0 \<Rightarrow> (True, f)
     | Some (Suc k) \<Rightarrow> (False, f\<lparr>fd_cancel := Some k\<rparr>)
     | None \<Rightarrow> (False, f))"

definition check_cancel :: "(restore_feed, unit) act" where
  "check_cancel f = (case is_cancelled f of (c, g) \<Rightarrow> (if c then Err (Restore Cancelled) else Ok (), g))"

definition PROGRESS_STRIDE :: nat where "PROGRESS_STRIDE = 8 * 1024 * 1024"

definition emit_transfer :: "rstring \<Rightarrow> nat \<Rightarrow> nat option \<Rightarrow> restore_feed \<Rightarrow> restore_feed" where
  "emit_transfer component sent whole = emit_event (Transfer component sent whole)"

section \<open>The build identity\<close>

definition sub_dict :: "plist_dict \<Rightarrow> string \<Rightarrow> plist_dict option" where
  "sub_dict d k = Option.bind (dict_get d k) plist_as_dictionary"

definition component_path :: "plist_dict \<Rightarrow> rstring \<Rightarrow> (rstring, idevice_error) res" where
  "component_path build_identity component =
    ok_or (Restore (ComponentNotFound component))
      (Option.bind (sub_dict build_identity ''Manifest'') (\<lambda>m.
       Option.bind (map_of m component) (\<lambda>c.
       Option.bind (plist_as_dictionary c) (\<lambda>c.
       Option.bind (sub_dict c ''Info'') (\<lambda>i.
       Option.bind (dict_get i ''Path'') plist_as_string)))))"

definition flag_set :: "plist_dict \<Rightarrow> string \<Rightarrow> bool" where
  "flag_set i k = (case Option.bind (dict_get i k) plist_as_boolean of Some b \<Rightarrow> b | None \<Rightarrow> False)"

definition component_info :: "plist_value \<Rightarrow> plist_dict option" where
  "component_info node = Option.bind (plist_as_dictionary node) (\<lambda>n. sub_dict n ''Info'')"

definition components_loaded_by_iboot :: "plist_dict \<Rightarrow> rstring list" where
  "components_loaded_by_iboot build_identity =
    (case sub_dict build_identity ''Manifest'' of
       None \<Rightarrow> []
     | Some manifest \<Rightarrow>
         map fst (filter (\<lambda>(name, node).
           case component_info node of
             Some info \<Rightarrow> flag_set info ''IsLoadedByiBoot'' \<and> \<not> flag_set info ''IsLoadedByiBootStage1''
           | None \<Rightarrow> False) manifest))"

section \<open>The client of restored\<close>

record restored =
  rd_dev :: idevice
  rd_protocol_version :: plist_value
  rd_label :: rstring
  rd_device_id :: "u32 option"

definition on_restored :: "(idevice, 'a) act \<Rightarrow> (restored, 'a) act" where
  "on_restored m s = (case m (rd_dev s) of (r, d) \<Rightarrow> (r, s\<lparr>rd_dev := d\<rparr>))"

definition SERVICE_PORT :: u16 where "SERVICE_PORT = 62078"

definition labelled :: "string \<Rightarrow> plist_dict \<Rightarrow> restored \<Rightarrow> plist_value" where
  "labelled request more_fields s =
    PDictionary ([(rstr ''Request'', PString (rstr request)), (rstr ''Label'', PString (rd_label s))] @ more_fields)"

definition query_type :: "plist_lib \<Rightarrow> (restored, unit) act" where
  "query_type pl s =
    act_bind (on_restored (send_plist pl (labelled ''QueryType'' [] s))) (\<lambda>_.
    act_bind (on_restored (read_plist pl)) (\<lambda>res.
      if Option.bind (dict_get res ''Type'') plist_as_string = Some (rstr ''com.apple.mobile.restored'')
      then act_upd (\<lambda>s. case dict_get res ''RestoreProtocolVersion'' of
             Some v \<Rightarrow> s\<lparr>rd_protocol_version := v\<rparr> | None \<Rightarrow> s)
      else act_err (UnexpectedResponse ''expected com.apple.mobile.restored''))) s"

definition restored_connect :: "plist_lib \<Rightarrow> idevice \<Rightarrow> (restored, idevice_error) res \<times> restored" where
  "restored_connect pl d =
    (case query_type pl \<lparr>rd_dev = d, rd_protocol_version = PInteger 0, rd_label = rstr ''idevice'', rd_device_id = None\<rparr> of
       (r, s) \<Rightarrow> (rmap (\<lambda>_. s) r, s))"

definition query_value :: "plist_lib \<Rightarrow> rstring \<Rightarrow> (restored, plist_value) act" where
  "query_value pl key s =
    act_bind (on_restored (send_plist pl (labelled ''QueryValue'' [(rstr ''QueryKey'', PString key)] s))) (\<lambda>_.
    act_bind (on_restored (read_plist pl)) (\<lambda>res.
    act_res (ok_or (UnexpectedResponse ''QueryValue response missing the key'') (map_of res key)))) s"

definition hardware_info :: "plist_lib \<Rightarrow> (restored, plist_dict) act" where
  "hardware_info pl =
    act_bind (query_value pl (rstr ''HardwareInfo'')) (\<lambda>v.
    act_res (ok_or (UnexpectedResponse ''HardwareInfo is not a dictionary'') (plist_as_dictionary v)))"

definition restored_ecid :: "plist_lib \<Rightarrow> (restored, u64) act" where
  "restored_ecid pl =
    act_bind (hardware_info pl) (\<lambda>hw.
    act_res (ok_or (UnexpectedResponse ''HardwareInfo missing UniqueChipID'')
      (Option.bind (dict_get hw ''UniqueChipID'') plist_as_unsigned_integer)))"

definition start_restore_request :: "plist_lib \<Rightarrow> plist_dict \<Rightarrow> (restored, unit) act" where
  "start_restore_request pl options s =
    on_restored (send_plist pl (labelled ''StartRestore''
      [(rstr ''RestoreProtocolVersion'', rd_protocol_version s), (rstr ''RestoreOptions'', PDictionary options)] s)) s"

definition restored_reboot :: "plist_lib \<Rightarrow> (restored, plist_dict) act" where
  "restored_reboot pl s =
    act_bind (on_restored (send_plist pl (labelled ''Reboot'' [] s))) (\<lambda>_. on_restored (read_plist pl)) s"

definition restored_goodbye :: "plist_lib \<Rightarrow> (restored, plist_dict) act" where
  "restored_goodbye pl s =
    act_bind (on_restored (send_plist pl (labelled ''Goodbye'' [] s))) (\<lambda>_. on_restored (read_plist pl)) s"

definition restored_send :: "plist_lib \<Rightarrow> plist_value \<Rightarrow> (restored, unit) act" where
  "restored_send pl message = on_restored (send_plist pl message)"

definition restored_recv :: "plist_lib \<Rightarrow> (restored, plist_dict) act" where
  "restored_recv pl =
    act_bind (on_restored (read_plist_value pl)) (\<lambda>v.
    act_res (ok_or (UnexpectedResponse ''restored sent a non-dictionary message'') (plist_as_dictionary v)))"

text \<open>
  \<open>connect_by_ecid\<close>: the devices of each round of polling and the answers to the connections are the environment's: a round
  is the list of the devices usbmux names, each with its number, whether it is on USB, and the connection to it, if both
  connections succeed; the rounds are those that begin before the deadline has passed.
\<close>

type_synonym mux_round = "(u32 \<times> bool \<times> idevice option) list"

primrec find_ecid :: "plist_lib \<Rightarrow> u64 \<Rightarrow> mux_round \<Rightarrow> (restored option, idevice_error) res" where
  "find_ecid pl ecid [] = Ok None"
| "find_ecid pl ecid (x # devices) =
    (case x of (device_id, usb, conn) \<Rightarrow>
      (case (if usb then conn else None) of
         None \<Rightarrow> find_ecid pl ecid devices
       | Some d \<Rightarrow>
           (case restored_connect pl d of
              (Ok client, _) \<Rightarrow>
                (case restored_ecid pl client of
                   (Ok found, c) \<Rightarrow>
                     if found = ecid then Ok (Some (c\<lparr>rd_device_id := Some device_id\<rparr>)) else find_ecid pl ecid devices
                 | (Err _, _) \<Rightarrow> find_ecid pl ecid devices
                 | (Panic, _) \<Rightarrow> Panic)
            | (Err _, _) \<Rightarrow> find_ecid pl ecid devices
            | (Panic, _) \<Rightarrow> Panic)))"

primrec connect_by_ecid :: "plist_lib \<Rightarrow> u64 \<Rightarrow> mux_round list \<Rightarrow> (restored, idevice_error) res" where
  "connect_by_ecid pl ecid [] = Err DeviceNotFound"
| "connect_by_ecid pl ecid (r # rs) =
    rbind (find_ecid pl ecid r) (\<lambda>found. case found of Some c \<Rightarrow> Ok c | None \<Rightarrow> connect_by_ecid pl ecid rs)"

text \<open>A client found is the device asked for, on the connection it was asked on.\<close>

lemma find_ecid_sound:
  "find_ecid pl ecid r = Ok (Some c) \<Longrightarrow>
   \<exists>n d client cl e. (n, True, Some d) \<in> set r \<and> restored_connect pl d = (Ok client, cl) \<and>
     restored_ecid pl client = (Ok ecid, e) \<and> c = e\<lparr>rd_device_id := Some n\<rparr>"
  by (induction r) (fastforce split: prod.splits option.splits if_splits res.splits)+

theorem connect_by_ecid_sound:
  "connect_by_ecid pl ecid rs = Ok c \<Longrightarrow>
   \<exists>r \<in> set rs. \<exists>n d client cl e. (n, True, Some d) \<in> set r \<and> restored_connect pl d = (Ok client, cl) \<and>
     restored_ecid pl client = (Ok ecid, e) \<and> c = e\<lparr>rd_device_id := Some n\<rparr>"
proof (induction rs)
  case (Cons r rs)
  then show ?case using find_ecid_sound [of pl ecid r c] by (auto simp: rbind_eq_Ok split: option.splits)
qed simp

end
