(* ===== verification/Asr.thy ===== *)
theory Asr
  imports Restore_Base Device_Facts
begin

text \<open>
  services/restore/asr.rs: the file system image goes to the device over a connection of its own; property lists on it end with a
  line \<open></plist>\<close>. SHA-1 is a parameter. \<open>FilesystemImage\<close> is an interface, and any seekable reader provides it.
\<close>

section \<open>The image\<close>

record 'i fs_image =
  im_size :: "('i, nat) act"
  im_read_at :: "nat \<Rightarrow> nat \<Rightarrow> ('i, byte list) act"

text \<open>
  A reader over \<open>sr_bytes\<close>; the \<open>k\<close>-th read gives at most \<open>sr_short ! k\<close> bytes more than one, and all that fit the buffer
  when the list is used up. (Failing reads are errors of the connection to the image, and are not modelled.)
\<close>

record seek_reader =
  sr_bytes :: "byte list"
  sr_pos :: nat
  sr_short :: "nat list"

definition reader_read :: "nat \<Rightarrow> seek_reader \<Rightarrow> byte list \<times> seek_reader" where
  "reader_read n s =
    (let left = drop (sr_pos s) (sr_bytes s);
         m = (case sr_short s of k # _ \<Rightarrow> min n (Suc k) | [] \<Rightarrow> n);
         bs = take m left
     in (bs, s\<lparr>sr_pos := sr_pos s + length bs, sr_short := drop 1 (sr_short s)\<rparr>))"

function reader_fill :: "nat \<Rightarrow> byte list \<Rightarrow> seek_reader \<Rightarrow> byte list \<times> seek_reader" where
  "reader_fill len buf s =
    (if length buf < len
     then case reader_read (len - length buf) s of
       (bs, t) \<Rightarrow> if bs = [] then (buf, t) else reader_fill len (buf @ bs) t
     else (buf, s))"
  by pat_completeness auto
termination reader_fill
  by (relation "measure (\<lambda>(len, buf, s). len - length buf)") (auto simp: reader_read_def Let_def)

declare reader_fill.simps [simp del]

definition seek_image :: "seek_reader fs_image" where
  "seek_image =
    \<lparr>im_size = (\<lambda>s. (Ok (length (sr_bytes s)), s\<lparr>sr_pos := length (sr_bytes s)\<rparr>)),
     im_read_at = (\<lambda>offset len s. case reader_fill len [] (s\<lparr>sr_pos := offset\<rparr>) of (bs, t) \<Rightarrow> (Ok bs, t))\<rparr>"

section \<open>The protocol\<close>

definition ASR_PAYLOAD_CHUNK_SIZE :: nat where "ASR_PAYLOAD_CHUNK_SIZE = 0x20000"
definition ASR_DEFAULT_PORT :: u16 where "ASR_DEFAULT_PORT = 12345"

definition TERMINATOR :: "byte list" where "TERMINATOR = rstr ''</plist>'' @ [0x0A]"

record 'i asr =
  as_dev :: idevice
  as_checksum_chunks :: bool
  as_image :: 'i
  as_feed :: restore_feed

definition on_asr :: "(idevice, 'a) act \<Rightarrow> ('i asr, 'a) act" where
  "on_asr m s = (case m (as_dev s) of (r, d) \<Rightarrow> (r, s\<lparr>as_dev := d\<rparr>))"

definition on_image :: "('i, 'a) act \<Rightarrow> ('i asr, 'a) act" where
  "on_image m s = (case m (as_image s) of (r, i) \<Rightarrow> (r, s\<lparr>as_image := i\<rparr>))"

definition ends_in :: "byte list \<Rightarrow> byte list \<Rightarrow> bool" where
  "ends_in suf s \<longleftrightarrow> length suf \<le> length s \<and> drop (length s - length suf) s = suf"

function recv_terminated :: "byte list \<Rightarrow> (idevice, byte list) act" where
  "recv_terminated buf d =
    (case read_raw 1 d of
       (Ok b, e) \<Rightarrow>
         if b = [] then (Err (UnexpectedResponse ''ASR connection closed mid-plist''), e)
         else if ends_in TERMINATOR (buf @ take 1 b) then (Ok (buf @ take 1 b), e) else recv_terminated (buf @ take 1 b) e
     | (Err x, e) \<Rightarrow> (Err x, e)
     | (Panic, e) \<Rightarrow> (Panic, e))"
  by pat_completeness auto
termination recv_terminated
  by (relation "measure (\<lambda>(buf, d). dev_pending d)") (auto dest!: sym [of "(_, _)"] intro: read_raw_one simp del: One_nat_def)

declare recv_terminated.simps [simp del]

definition asr_recv_plist :: "plist_lib \<Rightarrow> (idevice, plist_dict) act" where
  "asr_recv_plist pl = act_bind (recv_terminated []) (\<lambda>buf. act_res (rbind (pl_from_bytes pl buf) (pl_to_dict pl)))"

definition asr_send_plist :: "plist_lib \<Rightarrow> plist_value \<Rightarrow> (idevice, unit) act" where
  "asr_send_plist pl v =
    act_bind (act_res (pl_to_xml pl v)) (\<lambda>buf. send_raw (if ends_in [0x0A] buf then buf else buf @ [0x0A]))"

definition command_of :: "plist_dict \<Rightarrow> rstring option" where
  "command_of d = Option.bind (dict_get d ''Command'') plist_as_string"

definition asr_connect :: "plist_lib \<Rightarrow> 'i \<Rightarrow> restore_feed \<Rightarrow> idevice \<Rightarrow> ('i asr, idevice_error) res" where
  "asr_connect pl img feed d =
    (case asr_recv_plist pl d of
       (Ok init, e) \<Rightarrow>
         if command_of init = Some (rstr ''Initiate'')
         then Ok \<lparr>as_dev = e,
           as_checksum_chunks = (case Option.bind (dict_get init ''Checksum Chunks'') plist_as_boolean of Some b \<Rightarrow> b | None \<Rightarrow> False),
           as_image = img, as_feed = feed\<rparr>
         else Err (UnexpectedResponse ''expected ASR Initiate'')
     | (Err x, _) \<Rightarrow> Err x
     | (Panic, _) \<Rightarrow> Panic)"

definition packet_info :: "bool \<Rightarrow> nat \<Rightarrow> plist_value" where
  "packet_info checksum size_of =
    PDictionary
      ((if checksum then [(rstr ''Checksum Chunk Size'', PInteger (int ASR_PAYLOAD_CHUNK_SIZE))] else []) @
       [(rstr ''FEC Slice Stride'', PInteger 40), (rstr ''Packet Payload Size'', PInteger 1450),
        (rstr ''Packets Per FEC'', PInteger 25),
        (rstr ''Payload'', PDictionary
          [(rstr ''Port'', PInteger 1), (rstr ''Size'', PInteger (sint (of_nat size_of :: i64)))]),
        (rstr ''Stream ID'', PInteger 1), (rstr ''Version'', PInteger 1)])"

definition oob_field :: "plist_dict \<Rightarrow> string \<Rightarrow> (nat, idevice_error) res" where
  "oob_field packet k =
    rmap unat (ok_or (UnexpectedResponse (''OOBData missing '' @ k)) (Option.bind (dict_get packet k) plist_as_unsigned_integer))"

definition handle_oob :: "'i fs_image \<Rightarrow> plist_dict \<Rightarrow> ('i asr, unit) act" where
  "handle_oob IM packet =
    act_bind (act_res (oob_field packet ''OOB Offset'')) (\<lambda>offset.
    act_bind (act_res (oob_field packet ''OOB Length'')) (\<lambda>len.
    act_bind (on_image (im_read_at IM offset len)) (\<lambda>bs.
      if length bs \<noteq> len then act_err (Restore (restore_error.Asr ''ASR OOB read short'')) else on_asr (send_raw bs))))"

text \<open>One packet of the validation; \<open>True\<close> when the device asks for the payload\<close>

definition validation_round :: "plist_lib \<Rightarrow> 'i fs_image \<Rightarrow> ('i asr, bool) act" where
  "validation_round pl IM =
    act_bind (on_asr (asr_recv_plist pl)) (\<lambda>packet.
      if command_of packet = Some (rstr ''Payload'') then act_ok True
      else if command_of packet = Some (rstr ''OOBData'') then act_bind (handle_oob IM packet) (\<lambda>_. act_ok False)
      else act_err (UnexpectedResponse ''unexpected ASR command during validation''))"

lemma recv_terminated_shorter: "recv_terminated buf d = (Ok x, e) \<Longrightarrow> dev_pending e < dev_pending d"
proof (induction buf d rule: recv_terminated.induct)
  case (1 buf d)
  obtain r u where r: "read_raw 1 d = (r, u)" by (rule prod.exhaust)
  with 1(2) have "is_ok r" by (subst (asm) recv_terminated.simps) (auto split: res.splits)
  then obtain b where b: "r = Ok b" by (cases r) auto
  have l: "dev_pending u < dev_pending d" using read_raw_one r b by simp
  show ?case
  proof (cases "b = [] \<or> ends_in TERMINATOR (buf @ take 1 b)")
    case True
    with 1(2) r b l show ?thesis by (subst (asm) recv_terminated.simps) (auto split: if_splits)
  next
    case False
    with 1(2) r b have "recv_terminated (buf @ take 1 b) u = (Ok x, e)" by (subst (asm) recv_terminated.simps) (auto split: if_splits)
    with 1(1) [OF r [symmetric] b [THEN arg_cong, of "\<lambda>x. x"]] False b l show ?thesis by (metis less_trans r 1(1))
  qed
qed

lemma oob_keeps: "keeps (\<lambda>s. dev_pending (as_dev s) \<le> k) (handle_oob IM packet)"
proof -
  let ?I = "\<lambda>s :: 'i asr. dev_pending (as_dev s) \<le> k"
  have "keeps ?I (on_image m)" for m :: "('i, byte list) act"
    by (rule keepsI) (simp add: on_image_def split: prod.split)
  moreover have "keeps ?I (on_asr (send_raw bs))" for bs
    by (rule keepsI) (auto simp: on_asr_def dest!: send_raw_dev split: prod.split)
  ultimately show ?thesis unfolding handle_oob_def by (auto intro!: keeps_intro split: if_split)
qed

lemma validation_round_shorter:
  assumes "validation_round pl IM s = (Ok more_to_come, t)"
  shows "dev_pending (as_dev t) < dev_pending (as_dev s)"
proof -
  from assms obtain packet u where p: "on_asr (asr_recv_plist pl) s = (Ok packet, u)" by (auto simp: validation_round_def act_bind_Ok)
  then have u: "dev_pending (as_dev u) < dev_pending (as_dev s)"
    by (auto simp: on_asr_def asr_recv_plist_def act_bind_Ok split: prod.splits dest: recv_terminated_shorter)
  have "dev_pending (as_dev t) \<le> dev_pending (as_dev u)"
  proof (cases "command_of packet = Some (rstr ''Payload'')")
    case True
    with assms p show ?thesis by (simp add: validation_round_def act_bind_Ok)
  next
    case False
    with assms p have "\<exists>x. handle_oob IM packet u = (Ok x, t)" by (auto simp: validation_round_def act_bind_Ok split: if_splits)
    with keepsD [OF oob_keeps, of u "dev_pending (as_dev u)"] show ?thesis by (metis order_refl snd_conv)
  qed
  with u show ?thesis by simp
qed

function validation_loop :: "plist_lib \<Rightarrow> 'i fs_image \<Rightarrow> ('i asr, unit) act" where
  "validation_loop pl IM s =
    (case validation_round pl IM s of
       (Ok payload, t) \<Rightarrow> if payload then (Ok (), t) else validation_loop pl IM t
     | (Err e, t) \<Rightarrow> (Err e, t)
     | (Panic, t) \<Rightarrow> (Panic, t))"
  by pat_completeness auto
termination validation_loop
  by (relation "measure (\<lambda>(pl, IM, s). dev_pending (as_dev s))", simp, simp only: in_measure prod.case, metis validation_round_shorter)

declare validation_loop.simps [simp del]

definition perform_validation :: "plist_lib \<Rightarrow> 'i fs_image \<Rightarrow> ('i asr, unit) act" where
  "perform_validation pl IM s =
    act_bind (on_image (im_size IM)) (\<lambda>len.
    act_bind (on_asr (asr_send_plist pl (packet_info (as_checksum_chunks s) len))) (\<lambda>_.
    validation_loop pl IM)) s"

section \<open>The payload\<close>

definition with_digest :: "(byte list \<Rightarrow> byte list) \<Rightarrow> bool \<Rightarrow> byte list \<Rightarrow> byte list" where
  "with_digest sha1 checksum chunk = (if checksum then chunk @ sha1 chunk else chunk)"

definition feed_cancelled :: "('i asr, bool) act" where
  "feed_cancelled s = (case is_cancelled (as_feed s) of (c, f) \<Rightarrow> (Ok c, s\<lparr>as_feed := f\<rparr>))"

definition feed_transfer :: "nat \<Rightarrow> nat \<Rightarrow> ('i asr, unit) act" where
  "feed_transfer sent len =
    act_upd (\<lambda>s. s\<lparr>as_feed := emit_transfer (rstr ''filesystem'') sent (Some len) (as_feed s)\<rparr>)"

text \<open>One chunk; the new offset and the next report, or nothing when the image has no more bytes\<close>

definition payload_chunk :: "(byte list \<Rightarrow> byte list) \<Rightarrow> 'i fs_image \<Rightarrow> nat \<Rightarrow> nat \<Rightarrow> nat \<Rightarrow> ('i asr, (nat \<times> nat) option) act" where
  "payload_chunk sha1 IM len offset next_report s =
    act_bind feed_cancelled (\<lambda>c.
      if c then act_err (Restore Cancelled)
      else act_bind (on_image (im_read_at IM offset (min ASR_PAYLOAD_CHUNK_SIZE (len - offset)))) (\<lambda>chunk.
        if chunk = [] then act_ok None
        else act_bind (on_asr (send_raw (with_digest sha1 (as_checksum_chunks s) chunk))) (\<lambda>_.
          let sent = offset + length chunk
          in if next_report \<le> sent
             then act_bind (feed_transfer sent len) (\<lambda>_. act_ok (Some (sent, sent + PROGRESS_STRIDE)))
             else act_ok (Some (sent, next_report))))) s"

lemma payload_chunk_further: "payload_chunk sha1 IM len offset nr s = (Ok (Some (o', nr')), t) \<Longrightarrow> offset < o'"
  by (auto simp: payload_chunk_def act_bind_Ok Let_def split: if_splits)

function payload_loop :: "(byte list \<Rightarrow> byte list) \<Rightarrow> 'i fs_image \<Rightarrow> nat \<Rightarrow> nat \<Rightarrow> nat \<Rightarrow> ('i asr, nat) act" where
  "payload_loop sha1 IM len offset next_report s =
    (if offset < len
     then case payload_chunk sha1 IM len offset next_report s of
       (Ok (Some (o', nr)), t) \<Rightarrow> payload_loop sha1 IM len o' nr t
     | (Ok None, t) \<Rightarrow> (Ok offset, t)
     | (Err e, t) \<Rightarrow> (Err e, t)
     | (Panic, t) \<Rightarrow> (Panic, t)
     else (Ok offset, s))"
  by pat_completeness auto
termination payload_loop
  by (relation "measure (\<lambda>(sha1, IM, len, offset, nr, s). len - offset)", simp, simp only: in_measure prod.case)
    (metis diff_less_mono2 payload_chunk_further)

declare payload_loop.simps [simp del]

definition send_payload :: "(byte list \<Rightarrow> byte list) \<Rightarrow> 'i fs_image \<Rightarrow> ('i asr, unit) act" where
  "send_payload sha1 IM =
    act_bind (on_image (im_size IM)) (\<lambda>len.
    act_bind (payload_loop sha1 IM len 0 0) (\<lambda>offset. feed_transfer offset len))"

definition asr_send_filesystem :: "plist_lib \<Rightarrow> (byte list \<Rightarrow> byte list) \<Rightarrow> 'i fs_image \<Rightarrow> ('i asr, unit) act" where
  "asr_send_filesystem pl sha1 IM = act_bind (perform_validation pl IM) (\<lambda>_. send_payload sha1 IM)"

end
