(* ===== verification/Asr_Runs.thy ===== *)
theory Asr_Runs
  imports Asr Lockdown Afc
begin

text \<open>
  The image arrives: a payload is its chunks in order, each with its digest where the device wants digests, however short the reads
  of the image are; a cancellation stops it between two chunks; during the validation each request is answered with exactly the
  range it names.
\<close>

section \<open>The image as a contract\<close>

locale exact_image =
  fixes IM :: "'i fs_image" and holds :: "byte list \<Rightarrow> 'i \<Rightarrow> bool"
  assumes size_of: "holds c i \<Longrightarrow> \<exists>j. im_size IM i = (Ok (length c), j) \<and> holds c j"
    and range_of: "holds c i \<Longrightarrow> \<exists>j. im_read_at IM offset n i = (Ok (take n (drop offset c)), j) \<and> holds c j"
begin

definition on_line :: "byte list \<Rightarrow> byte list \<Rightarrow> byte list \<Rightarrow> 'i asr \<Rightarrow> bool" where
  "on_line c inp out s \<longleftrightarrow> talks (as_dev s) inp out \<and> holds c (as_image s)"

end

lemma raw_talks:
  assumes "talks d inp out"
  shows "\<exists>e. send_raw m d = (Ok (), e) \<and> talks e inp (out @ m)"
proof -
  obtain t where t: "dv_socket d = Some t" "tp_budget t = None" "arrives inp t" "concat (tp_out t) = out"
    using assms by (auto simp: talks_def)
  from send_raw_run [OF t(1,2), of m] obtain u where
    u: "send_raw m d = (Ok (), d\<lparr>dv_socket := Some u\<rparr>)" "tp_budget u = None" "tp_in u = tp_in t" "tp_out u = tp_out t @ chunks RAW_CHUNK m" by blast
  have "talks (d\<lparr>dv_socket := Some u\<rparr>) inp (out @ m)"
    using t u by (auto simp: talks_def arrives_def tp_pending_def RAW_CHUNK_def)
  with u(1) show ?thesis by blast
qed

lemma chunks_count: "length (chunks n xs) \<le> length xs"
proof (induction n xs rule: chunks.induct)
  case (1 n xs)
  show ?case
  proof (cases "xs = [] \<or> n = 0")
    case False
    then have "length (drop n xs) < length xs" by simp
    moreover have "length (chunks n (drop n xs)) \<le> length (drop n xs)" using 1 False by simp
    ultimately have "Suc (length (chunks n (drop n xs))) \<le> length xs" by linarith
    with False show ?thesis by (simp add: chunks.simps [of n xs])
  qed (auto simp: chunks.simps [of n xs])
qed

lemma one_talks:
  assumes "talks d (b # rest) out"
  shows "\<exists>e. read_raw 1 d = (Ok [b], e) \<and> talks e rest out"
proof -
  obtain t where t: "dv_socket d = Some t" "tp_budget t = None" "arrives ([b] @ rest) t" "concat (tp_out t) = out"
    using assms by (auto simp: talks_def)
  from read_raw_arrives [OF t(1,3)] t show ?thesis by (fastforce simp: talks_def)
qed

context exact_image begin

lemma chunk_on_line:
  assumes "on_line c inp out s" and "offset < length c"
    and "fd_cancel (as_feed s) = (case k of None \<Rightarrow> None | Some j \<Rightarrow> Some (Suc j))"
  shows "\<exists>t nr'. payload_chunk sha1 IM (length c) offset nr s =
      (Ok (Some (offset + length (take ASR_PAYLOAD_CHUNK_SIZE (drop offset c)), nr')), t) \<and>
    on_line c inp (out @ with_digest sha1 (as_checksum_chunks s) (take ASR_PAYLOAD_CHUNK_SIZE (drop offset c))) t \<and>
    fd_cancel (as_feed t) = k \<and> as_checksum_chunks t = as_checksum_chunks s"
proof -
  let ?n = "min ASR_PAYLOAD_CHUNK_SIZE (length c - offset)" and ?b = "take ASR_PAYLOAD_CHUNK_SIZE (drop offset c)"
  have b: "take ?n (drop offset c) = ?b" by (simp add: min_def)
  have ne: "?b \<noteq> []" using assms(2) by (simp add: ASR_PAYLOAD_CHUNK_SIZE_def)
  define f where "f = (as_feed s)\<lparr>fd_cancel := k\<rparr>"
  have f: "is_cancelled (as_feed s) = (False, f)" using assms(3) by (cases k) (simp_all add: is_cancelled_def f_def)
  from range_of [of c "as_image s" offset ?n] assms(1) b obtain j where
    j: "im_read_at IM offset ?n (as_image s) = (Ok ?b, j)" "holds c j" by (auto simp: on_line_def)
  from raw_talks [of "as_dev s" inp out "with_digest sha1 (as_checksum_chunks s) ?b"] assms(1) obtain e where
    e: "send_raw (with_digest sha1 (as_checksum_chunks s) ?b) (as_dev s) = (Ok (), e)"
      "talks e inp (out @ with_digest sha1 (as_checksum_chunks s) ?b)" by (auto simp: on_line_def)
  have "fd_cancel f = k" by (simp add: f_def)
  with f j e ne show ?thesis
    by (auto simp: payload_chunk_def feed_cancelled_def on_image_def on_asr_def act_bind_def Let_def feed_transfer_def
        emit_transfer_def emit_event_def on_line_def)
qed

lemma loop_on_line:
  assumes "on_line c inp out s"
  shows "\<exists>t. on_line c inp (out @ concat (map (with_digest sha1 (as_checksum_chunks s))
        (take (case fd_cancel (as_feed s) of None \<Rightarrow> length c | Some k \<Rightarrow> k) (chunks ASR_PAYLOAD_CHUNK_SIZE (drop offset c))))) t \<and>
    payload_loop sha1 IM (length c) offset nr s =
      (if (case fd_cancel (as_feed s) of None \<Rightarrow> True | Some k \<Rightarrow> length (chunks ASR_PAYLOAD_CHUNK_SIZE (drop offset c)) \<le> k)
       then Ok (max offset (length c)) else Err (Restore Cancelled), t)"
  using assms
proof (induction "length c - offset" arbitrary: s offset nr out rule: less_induct)
  case less
  let ?N = ASR_PAYLOAD_CHUNK_SIZE
  have n: "0 < ?N" by (simp add: ASR_PAYLOAD_CHUNK_SIZE_def)
  show ?case
  proof (cases "offset < length c")
    case False
    with less.prems show ?thesis by (subst payload_loop.simps) (auto simp: max_def split: option.split)
  next
    case True
    let ?b = "take ?N (drop offset c)" and ?o = "offset + length (take ?N (drop offset c))"
    have cs: "chunks ?N (drop offset c) = ?b # chunks ?N (drop ?o c)"
    proof -
      have "drop ?N (drop offset c) = drop ?o c" by (simp add: min_def ac_simps)
      with True n show ?thesis by (simp add: chunks.simps [of ?N "drop offset c"])
    qed
    show ?thesis
    proof (cases "fd_cancel (as_feed s) = Some 0")
      case cancelled: True
      then have "payload_chunk sha1 IM (length c) offset nr s = (Err (Restore Cancelled), s)"
        by (simp add: payload_chunk_def feed_cancelled_def is_cancelled_def act_bind_def)
      with True cancelled cs less.prems show ?thesis by (subst payload_loop.simps) simp
    next
      case False
      then obtain k where k: "fd_cancel (as_feed s) = (case k of None \<Rightarrow> None | Some j \<Rightarrow> Some (Suc j))"
        by (cases "fd_cancel (as_feed s)") (auto simp: gr0_conv_Suc split: option.splits, metis not0_implies_Suc option.simps(4,5))
      from chunk_on_line [OF less.prems True k, of sha1 nr] obtain t nr' where
        t: "payload_chunk sha1 IM (length c) offset nr s = (Ok (Some (?o, nr')), t)"
          "on_line c inp (out @ with_digest sha1 (as_checksum_chunks s) ?b) t" "fd_cancel (as_feed t) = k"
          "as_checksum_chunks t = as_checksum_chunks s" by blast
      have "length c - ?o < length c - offset" using True n by simp
      from less.hyps [OF this t(2), of nr'] t(3,4) k True obtain u where
        u: "on_line c inp (out @ with_digest sha1 (as_checksum_chunks s) ?b @
            concat (map (with_digest sha1 (as_checksum_chunks s)) (take (case k of None \<Rightarrow> length c | Some k \<Rightarrow> k) (chunks ?N (drop ?o c))))) u"
          "payload_loop sha1 IM (length c) ?o nr' t =
            (if (case k of None \<Rightarrow> True | Some k \<Rightarrow> length (chunks ?N (drop ?o c)) \<le> k) then Ok (max ?o (length c)) else Err (Restore Cancelled), u)"
        by auto
      have "max ?o (length c) = max offset (length c)" using True by (auto simp: max_def min_def)
      moreover have "length (chunks ?N (drop ?o c)) < length c"
      proof -
        have "length (chunks ?N (drop offset c)) \<le> length (drop offset c)" by (rule chunks_count)
        with cs True show ?thesis by simp
      qed
      ultimately show ?thesis using True t(1) u cs k
        by (subst payload_loop.simps) (cases k, auto simp: take_Cons')
    qed
  qed
qed

lemma payload_on_line:
  assumes "on_line c inp out s"
  shows "\<exists>t. on_line c inp (out @ concat (map (with_digest sha1 (as_checksum_chunks s))
        (take (case fd_cancel (as_feed s) of None \<Rightarrow> length c | Some k \<Rightarrow> k) (chunks ASR_PAYLOAD_CHUNK_SIZE c)))) t \<and>
    send_payload sha1 IM s =
      (if (case fd_cancel (as_feed s) of None \<Rightarrow> True | Some k \<Rightarrow> length (chunks ASR_PAYLOAD_CHUNK_SIZE c) \<le> k)
       then Ok () else Err (Restore Cancelled), t)"
proof -
  from size_of [of c "as_image s"] assms obtain j where j: "im_size IM (as_image s) = (Ok (length c), j)" "holds c j"
    by (auto simp: on_line_def)
  let ?s = "s\<lparr>as_image := j\<rparr>"
  have "on_line c inp out ?s" using assms j by (simp add: on_line_def)
  from loop_on_line [OF this, of sha1 0 0] obtain t where t:
    "on_line c inp (out @ concat (map (with_digest sha1 (as_checksum_chunks s))
        (take (case fd_cancel (as_feed s) of None \<Rightarrow> length c | Some k \<Rightarrow> k) (chunks ASR_PAYLOAD_CHUNK_SIZE c)))) t"
    "payload_loop sha1 IM (length c) 0 0 ?s =
      (if (case fd_cancel (as_feed s) of None \<Rightarrow> True | Some k \<Rightarrow> length (chunks ASR_PAYLOAD_CHUNK_SIZE c) \<le> k)
       then Ok (length c) else Err (Restore Cancelled), t)" by (simp only: drop_0 max_0L) auto
  have "on_line c i o' (t\<lparr>as_feed := f\<rparr>) \<longleftrightarrow> on_line c i o' t" for i o' f by (simp add: on_line_def)
  with j t show ?thesis
    by (auto simp: send_payload_def on_image_def act_bind_def feed_transfer_def)
qed

lemma oob_on_line:
  assumes "on_line c inp out s" and "oob_field packet ''OOB Offset'' = Ok offset" and "oob_field packet ''OOB Length'' = Ok len"
    and "offset + len \<le> length c"
  shows "\<exists>t. handle_oob IM packet s = (Ok (), t) \<and> on_line c inp (out @ take len (drop offset c)) t \<and>
    as_checksum_chunks t = as_checksum_chunks s \<and> as_feed t = as_feed s"
proof -
  from range_of [of c "as_image s" offset len] assms(1) obtain j where
    j: "im_read_at IM offset len (as_image s) = (Ok (take len (drop offset c)), j)" "holds c j" by (auto simp: on_line_def)
  from raw_talks [of "as_dev s" inp out "take len (drop offset c)"] assms(1) obtain e where
    "send_raw (take len (drop offset c)) (as_dev s) = (Ok (), e)" "talks e inp (out @ take len (drop offset c))" by (auto simp: on_line_def)
  with j assms(2-4) show ?thesis
    by (auto simp: handle_oob_def on_image_def on_asr_def act_bind_def on_line_def)
qed

end

section \<open>Any seekable reader\<close>

lemma reader_fill_exact:
  "\<exists>t. reader_fill len buf s = (buf @ take (len - length buf) (drop (sr_pos s) (sr_bytes s)), t) \<and> sr_bytes t = sr_bytes s"
proof (induction len buf s rule: reader_fill.induct)
  case (1 len buf s)
  show ?case
  proof (cases "length buf < len")
    case False
    then show ?thesis by (subst reader_fill.simps) simp
  next
    case True
    obtain bs t where r: "reader_read (len - length buf) s = (bs, t)" by (rule prod.exhaust)
    define m where "m = (case sr_short s of k # _ \<Rightarrow> min (len - length buf) (Suc k) | [] \<Rightarrow> len - length buf)"
    have m: "0 < m" "m \<le> len - length buf" using True by (auto simp: m_def split: list.split)
    have b: "bs = take m (drop (sr_pos s) (sr_bytes s))" "sr_bytes t = sr_bytes s" "sr_pos t = sr_pos s + length bs"
      using r by (auto simp: reader_read_def Let_def m_def)
    show ?thesis
    proof (cases "bs = []")
      case e: True
      with b(1) m have "drop (sr_pos s) (sr_bytes s) = []" by auto
      with True r e b show ?thesis by (subst reader_fill.simps) simp
    next
      case False
      have "length bs \<le> m" using b(1) by simp
      have "bs @ take (len - length buf - length bs) (drop (length bs) (drop (sr_pos s) (sr_bytes s))) =
          take (len - length buf) (drop (sr_pos s) (sr_bytes s))"
      proof -
        have "bs = take (length bs) (drop (sr_pos s) (sr_bytes s))" using b(1) by (simp add: min_def)
        moreover have "length bs + (len - length buf - length bs) = len - length buf" using \<open>length bs \<le> m\<close> m(2) by simp
        ultimately show ?thesis
          using take_add [of "length bs" "len - length buf - length bs" "drop (sr_pos s) (sr_bytes s)"] by metis
      qed
      with 1 [OF True r [symmetric] False] True r False b show ?thesis
        by (subst reader_fill.simps) (auto simp: ac_simps)
    qed
  qed
qed

interpretation seek: exact_image seek_image "\<lambda>c s. sr_bytes s = c"
proof unfold_locales
  fix c :: "byte list" and i :: seek_reader and offset n
  assume c: "sr_bytes i = c"
  show "\<exists>j. im_size seek_image i = (Ok (length c), j) \<and> sr_bytes j = c" using c by (simp add: seek_image_def)
  from reader_fill_exact [of n "[]" "i\<lparr>sr_pos := offset\<rparr>"] c
  show "\<exists>j. im_read_at seek_image offset n i = (Ok (take n (drop offset c)), j) \<and> sr_bytes j = c"
    by (auto simp: seek_image_def)
qed

text \<open>
  C28. However short the reads of the image are, the payload that reaches the device is the image in order, cut into chunks of 128 KiB,
  each followed by its digest where the device asked for digests; a cancellation ends it between two chunks, after as many as were
  let through, and otherwise it ends in success with nothing left out.
\<close>

theorem asr_payload_arrives:
  assumes "talks (as_dev s) inp out"
  shows "\<exists>t. talks (as_dev t) inp (out @ concat (map (with_digest sha1 (as_checksum_chunks s))
        (take (case fd_cancel (as_feed s) of None \<Rightarrow> length (sr_bytes (as_image s)) | Some k \<Rightarrow> k)
          (chunks ASR_PAYLOAD_CHUNK_SIZE (sr_bytes (as_image s)))))) \<and>
    send_payload sha1 seek_image s =
      (if (case fd_cancel (as_feed s) of None \<Rightarrow> True
           | Some k \<Rightarrow> length (chunks ASR_PAYLOAD_CHUNK_SIZE (sr_bytes (as_image s))) \<le> k)
       then Ok () else Err (Restore Cancelled), t)"
proof -
  have "seek.on_line (sr_bytes (as_image s)) inp out s" using assms by (simp add: seek.on_line_def)
  from seek.payload_on_line [OF this, of sha1] show ?thesis by (auto simp: seek.on_line_def)
qed

definition demo_asr :: "seek_reader asr" where
  "demo_asr =
    \<lparr>as_dev = \<lparr>dv_socket = Some \<lparr>tp_in = [], tp_out = [], tp_budget = None\<rparr>, dv_label = [], dv_udid = None\<rparr>,
     as_checksum_chunks = True, as_image = \<lparr>sr_bytes = [1, 2, 3], sr_pos = 0, sr_short = [0, 0]\<rparr>,
     as_feed = \<lparr>fd_sink = None, fd_cancel = None\<rparr>\<rparr>"

theorem asr_payload_arrives_witness:
  "\<exists>t. talks (as_dev t) [] [1, 2, 3, 9] \<and> send_payload (\<lambda>_. [9]) seek_image demo_asr = (Ok (), t)"
proof -
  have t: "talks (as_dev demo_asr) [] []" by (simp add: talks_def demo_asr_def arrives_def tp_pending_def)
  have "chunks ASR_PAYLOAD_CHUNK_SIZE [1, 2, 3] = [[1 :: byte, 2, 3]]"
    by (simp add: ASR_PAYLOAD_CHUNK_SIZE_def chunks.simps [of _ "[1, 2, 3]"])
  with asr_payload_arrives [OF t, of "\<lambda>_. [9]"] show ?thesis
    by (simp add: demo_asr_def with_digest_def)
qed

section \<open>The validation\<close>

text \<open>A frame is a text that ends in the terminator, and not before.\<close>

definition asr_frame :: "byte list \<Rightarrow> bool" where
  "asr_frame f \<longleftrightarrow> f \<noteq> [] \<and> ends_in TERMINATOR f \<and> (\<forall>n < length f. 0 < n \<longrightarrow> \<not> ends_in TERMINATOR (take n f))"

lemma recv_terminated_talks:
  "talks d (r @ rest) out \<Longrightarrow> r \<noteq> [] \<Longrightarrow> ends_in TERMINATOR (buf @ r) \<Longrightarrow>
   (\<forall>n < length r. 0 < n \<longrightarrow> \<not> ends_in TERMINATOR (buf @ take n r)) \<Longrightarrow>
   \<exists>e. recv_terminated buf d = (Ok (buf @ r), e) \<and> talks e rest out"
proof (induction r arbitrary: buf d)
  case (Cons b r)
  from one_talks [of d b "r @ rest" out] Cons.prems(1) obtain e where
    e: "read_raw 1 d = (Ok [b], e)" "talks e (r @ rest) out" by auto
  show ?case
  proof (cases "r = []")
    case True
    with e Cons.prems(3) show ?thesis by (subst recv_terminated.simps) simp
  next
    case False
    then have "\<not> ends_in TERMINATOR (buf @ [b])" using Cons.prems(4) by (auto dest: spec [of _ 1])
    moreover have "\<forall>n < length r. 0 < n \<longrightarrow> \<not> ends_in TERMINATOR ((buf @ [b]) @ take n r)"
      using Cons.prems(4) by (auto dest: spec [of _ "Suc _"])
    ultimately show ?thesis
      using e False Cons.prems(3) Cons.IH [OF e(2) False, of "buf @ [b]"] by (subst recv_terminated.simps) simp
  qed
qed simp

lemma frame_talks:
  assumes "talks d (f @ rest) out" and "asr_frame f" and "rbind (pl_from_bytes pl f) (pl_to_dict pl) = Ok packet"
  shows "\<exists>e. asr_recv_plist pl d = (Ok packet, e) \<and> talks e rest out"
  using recv_terminated_talks [of d f rest out "[]"] assms by (auto simp: asr_frame_def asr_recv_plist_def act_bind_def)

definition asks :: "plist_lib \<Rightarrow> byte list \<Rightarrow> nat \<times> nat \<Rightarrow> bool" where
  "asks pl f r \<longleftrightarrow> asr_frame f \<and> (\<exists>packet. rbind (pl_from_bytes pl f) (pl_to_dict pl) = Ok packet \<and>
    command_of packet = Some (rstr ''OOBData'') \<and> oob_field packet ''OOB Offset'' = Ok (fst r) \<and> oob_field packet ''OOB Length'' = Ok (snd r))"

definition calls_payload :: "plist_lib \<Rightarrow> byte list \<Rightarrow> bool" where
  "calls_payload pl f \<longleftrightarrow> asr_frame f \<and> (\<exists>packet. rbind (pl_from_bytes pl f) (pl_to_dict pl) = Ok packet \<and> command_of packet = Some (rstr ''Payload''))"

text \<open>
  During the validation every request for a range inside the image is answered with exactly that range, in order, until the device
  asks for the payload.
\<close>

theorem validation_answers:
  "talks (as_dev s) (concat fs @ g @ rest) out \<Longrightarrow> list_all2 (asks pl) fs rs \<Longrightarrow> calls_payload pl g \<Longrightarrow>
   list_all (\<lambda>(offset, len). offset + len \<le> length (sr_bytes (as_image s))) rs \<Longrightarrow>
   \<exists>t. validation_loop pl seek_image s = (Ok (), t) \<and>
     talks (as_dev t) rest (out @ concat (map (\<lambda>(offset, len). take len (drop offset (sr_bytes (as_image s)))) rs)) \<and>
     sr_bytes (as_image t) = sr_bytes (as_image s)"
proof (induction fs arbitrary: s rs out)
  case Nil
  from Nil(3) obtain packet where p: "rbind (pl_from_bytes pl g) (pl_to_dict pl) = Ok packet" "command_of packet = Some (rstr ''Payload'')"
    "asr_frame g" by (auto simp: calls_payload_def)
  from frame_talks [OF _ p(3,1), of "as_dev s" rest out] Nil(1) obtain e where
    "asr_recv_plist pl (as_dev s) = (Ok packet, e)" "talks e rest out" by auto
  with p(2) Nil(2) show ?case
    by (subst validation_loop.simps) (simp add: validation_round_def on_asr_def act_bind_def)
next
  case (Cons f fs)
  from Cons.prems(2) obtain r rs' where rs: "rs = r # rs'" "asks pl f r" "list_all2 (asks pl) fs rs'" by (cases rs) auto
  obtain offset len where r: "r = (offset, len)" by (cases r)
  from rs(2) r obtain packet where p: "rbind (pl_from_bytes pl f) (pl_to_dict pl) = Ok packet"
    "command_of packet = Some (rstr ''OOBData'')" "asr_frame f" "oob_field packet ''OOB Offset'' = Ok offset" "oob_field packet ''OOB Length'' = Ok len"
    by (auto simp: asks_def)
  from frame_talks [OF _ p(3,1), of "as_dev s" "concat fs @ g @ rest" out] Cons.prems(1) obtain e where
    e: "asr_recv_plist pl (as_dev s) = (Ok packet, e)" "talks e (concat fs @ g @ rest) out" by auto
  let ?c = "sr_bytes (as_image s)"
  have o: "seek.on_line ?c (concat fs @ g @ rest) out (s\<lparr>as_dev := e\<rparr>)" using e(2) by (simp add: seek.on_line_def)
  have "offset + len \<le> length ?c" using Cons.prems(4) rs(1) r by simp
  from seek.oob_on_line [OF o p(4,5) this] obtain t where
    t: "handle_oob seek_image packet (s\<lparr>as_dev := e\<rparr>) = (Ok (), t)"
      "seek.on_line ?c (concat fs @ g @ rest) (out @ take len (drop offset ?c)) t" by blast
  have "Some (rstr ''OOBData'') \<noteq> Some (rstr ''Payload'')" by code_simp
  with p(2) e(1) t(1) have "validation_round pl seek_image s = (Ok False, t)"
    by (simp add: validation_round_def on_asr_def act_bind_def)
  moreover have "\<exists>u. validation_loop pl seek_image t = (Ok (), u) \<and>
     talks (as_dev u) rest ((out @ take len (drop offset ?c)) @ concat (map (\<lambda>(offset, len). take len (drop offset ?c)) rs')) \<and>
     sr_bytes (as_image u) = ?c"
    using Cons.IH [of t "out @ take len (drop offset ?c)" rs'] t(2) rs Cons.prems(3,4) by (simp add: seek.on_line_def)
  ultimately show ?case using rs(1) r by (subst validation_loop.simps) auto
qed

end
