(* ===== verification/Restore_Data.thy ===== *)
theory Restore_Data
  imports Asr Img4 Http_Client Mbn
begin

text \<open>
  services/restore/data_request.rs and fw_updater.rs: the answers to the data requests of a device that is being restored. They go out
  on the control connection or on a connection to a data port. The archive, the zip library, the network and the connector of the
  data ports are the environment's; connections to data ports are kept in \<open>rx_dropped\<close> as they were when they were dropped.
\<close>

section \<open>The context\<close>

record ('i, 'c, 'p) restore_env =
  re_plist :: plist_lib
  re_dict :: dict_lib
  re_der :: der_lengths
  re_sha1 :: "byte list \<Rightarrow> byte list"
  re_image :: "'i fs_image"
  re_read :: "rstring \<Rightarrow> ('c, byte list) act"
  re_open :: "rstring \<Rightarrow> ('c, (byte list, idevice_error) res list) act"
  re_connect :: "u16 \<Rightarrow> ('p, idevice) act"
  re_xml :: "plist_dict \<Rightarrow> byte list"
  re_unzip :: "byte list \<Rightarrow> ((rstring \<times> byte list) list, idevice_error) res"
  re_zip :: "(rstring \<times> byte list) list \<Rightarrow> (byte list, idevice_error) res"
  re_order :: "(rstring \<times> byte list) list \<Rightarrow> (rstring \<times> byte list) list"
  re_identity :: plist_dict
  re_board_id :: u64
  re_chip_id :: u64
  re_ecid :: u64
  re_ticket :: "byte list"

text \<open>
  \<open>rx_waits\<close> says how the coming waits with a time limit end: \<open>Some k\<close>, the time is up when \<open>k\<close> pieces have arrived; \<open>rx_races\<close>
  how many pieces of the control connection have arrived when the coming image transfers end; \<open>rx_uuids\<close> the random identifiers.
\<close>

record ('i, 'c, 'p) restore_ctx =
  rx_restored :: restored
  rx_components :: 'c
  rx_filesystem :: "'i option"
  rx_ports :: 'p
  rx_conn :: "idevice option"
  rx_dropped :: "idevice list"
  rx_net :: http_net
  rx_feed :: restore_feed
  rx_waits :: "nat option list"
  rx_races :: "nat list"
  rx_uuids :: "rstring list"

definition on_control :: "(restored, 'a) act \<Rightarrow> (('i, 'c, 'p) restore_ctx, 'a) act" where
  "on_control m s = (case m (rx_restored s) of (r, x) \<Rightarrow> (r, s\<lparr>rx_restored := x\<rparr>))"

definition on_components :: "('c, 'a) act \<Rightarrow> (('i, 'c, 'p) restore_ctx, 'a) act" where
  "on_components m s = (case m (rx_components s) of (r, x) \<Rightarrow> (r, s\<lparr>rx_components := x\<rparr>))"

definition on_ports :: "('p, 'a) act \<Rightarrow> (('i, 'c, 'p) restore_ctx, 'a) act" where
  "on_ports m s = (case m (rx_ports s) of (r, x) \<Rightarrow> (r, s\<lparr>rx_ports := x\<rparr>))"

definition on_net :: "(http_net, 'a) act \<Rightarrow> (('i, 'c, 'p) restore_ctx, 'a) act" where
  "on_net m s = (case m (rx_net s) of (r, x) \<Rightarrow> (r, s\<lparr>rx_net := x\<rparr>))"

definition on_feed :: "(restore_feed, 'a) act \<Rightarrow> (('i, 'c, 'p) restore_ctx, 'a) act" where
  "on_feed m s = (case m (rx_feed s) of (r, x) \<Rightarrow> (r, s\<lparr>rx_feed := x\<rparr>))"

definition rx_emit :: "restore_event \<Rightarrow> (('i, 'c, 'p) restore_ctx, unit) act" where
  "rx_emit e = on_feed (act_upd (emit_event e))"

definition on_conn :: "(idevice, 'a) act \<Rightarrow> (('i, 'c, 'p) restore_ctx, 'a) act" where
  "on_conn m s =
    (case rx_conn s of
       None \<Rightarrow> (Err NoEstablishedConnection, s)
     | Some d \<Rightarrow> (case m d of (r, d') \<Rightarrow> (r, s\<lparr>rx_conn := Some d'\<rparr>)))"

text \<open>A connection lives as long as the body that uses it.\<close>

definition with_conn :: "(('i, 'c, 'p) restore_ctx, idevice) act \<Rightarrow> (('i, 'c, 'p) restore_ctx, 'a) act \<Rightarrow> (('i, 'c, 'p) restore_ctx, 'a) act" where
  "with_conn connect body s =
    act_bind connect (\<lambda>d t.
      case body (t\<lparr>rx_conn := Some d\<rparr>) of
        (r, u) \<Rightarrow> (r, u\<lparr>rx_conn := None, rx_dropped := rx_dropped u @ (case rx_conn u of Some d' \<Rightarrow> [d'] | None \<Rightarrow> [])\<rparr>)) s"

definition restore_err :: "restore_error \<Rightarrow> (('i, 'c, 'p) restore_ctx, 'a) act" where
  "restore_err e = act_err (Restore e)"

section \<open>Requests and answers\<close>

definition send_control :: "('i, 'c, 'p) restore_env \<Rightarrow> plist_value \<Rightarrow> (('i, 'c, 'p) restore_ctx, unit) act" where
  "send_control E v = on_control (restored_send (re_plist E) v)"

definition data_port :: "plist_dict \<Rightarrow> u16 option" where
  "data_port message = map_option ucast (Option.bind (dict_get message ''DataPort'') plist_as_unsigned_integer)"

definition send_to_data_service :: "('i, 'c, 'p) restore_env \<Rightarrow> plist_dict \<Rightarrow> plist_value \<Rightarrow> (('i, 'c, 'p) restore_ctx, unit) act" where
  "send_to_data_service E message payload =
    (case data_port message of
       Some port \<Rightarrow> with_conn (on_ports (re_connect E port)) (on_conn (send_plist (re_plist E) payload))
     | None \<Rightarrow> send_control E payload)"

primrec connect_tries :: "('i, 'c, 'p) restore_env \<Rightarrow> u16 \<Rightarrow> nat \<Rightarrow> idevice_error option \<Rightarrow> (('i, 'c, 'p) restore_ctx, idevice) act" where
  "connect_tries E port 0 last_err = act_err (case last_err of Some e \<Rightarrow> e | None \<Rightarrow> Restore (DataPortConnect port))"
| "connect_tries E port (Suc n) last_err = (\<lambda>s.
    case on_ports (re_connect E port) s of
      (Ok d, t) \<Rightarrow> (Ok d, t)
    | (Err e, t) \<Rightarrow> connect_tries E port n (Some e) t
    | (Panic, t) \<Rightarrow> (Panic, t))"

definition connect_data_port :: "('i, 'c, 'p) restore_env \<Rightarrow> u16 \<Rightarrow> (('i, 'c, 'p) restore_ctx, idevice) act" where
  "connect_data_port E port = connect_tries E port 30 None"

definition is_truthy :: "plist_value \<Rightarrow> bool" where
  "is_truthy v =
    (case v of
       PBoolean b \<Rightarrow> b
     | PInteger i \<Rightarrow> (case as_unsigned i of Some n \<Rightarrow> n \<noteq> 0 | None \<Rightarrow> True)
     | PString s \<Rightarrow> s \<noteq> [] \<and> s \<noteq> rstr ''0'' \<and> s \<noteq> rstr ''false''
     | _ \<Rightarrow> True)"

definition truthy_in :: "plist_dict option \<Rightarrow> string \<Rightarrow> bool" where
  "truthy_in d k = (case Option.bind d (\<lambda>d. dict_get d k) of Some v \<Rightarrow> is_truthy v | None \<Rightarrow> False)"

definition text_in :: "plist_dict option \<Rightarrow> string \<Rightarrow> rstring option" where
  "text_in d k = Option.bind (Option.bind d (\<lambda>d. dict_get d k)) plist_as_string"

definition arguments :: "plist_dict \<Rightarrow> plist_dict option" where
  "arguments message = sub_dict message ''Arguments''"

definition missing_field :: "string \<Rightarrow> idevice_error" where
  "missing_field k = Restore (RestoreMissingField k)"

section \<open>Components\<close>

definition personalize_path :: "('i, 'c, 'p) restore_env \<Rightarrow> rstring \<Rightarrow> rstring \<Rightarrow> (('i, 'c, 'p) restore_ctx, byte list) act" where
  "personalize_path E component path =
    act_bind (on_components (re_read E path)) (\<lambda>raw.
    act_res (stitch_component (re_der E) raw (re_ticket E) (restore_fourcc_override component) []))"

definition personalize_named :: "('i, 'c, 'p) restore_env \<Rightarrow> rstring \<Rightarrow> (('i, 'c, 'p) restore_ctx, byte list) act" where
  "personalize_named E component =
    act_bind (act_res (component_path (re_identity E) component)) (personalize_path E component)"

definition send_root_ticket :: "('i, 'c, 'p) restore_env \<Rightarrow> plist_dict \<Rightarrow> (('i, 'c, 'p) restore_ctx, unit) act" where
  "send_root_ticket E message =
    (if re_ticket E = [] then restore_err (RestoreOther (rstr ''cannot send RootTicket without a TSS ticket''))
     else send_to_data_service E message (PDictionary [(rstr ''RootTicketData'', PData (re_ticket E))]))"

definition send_buildidentity :: "('i, 'c, 'p) restore_env \<Rightarrow> plist_dict \<Rightarrow> (('i, 'c, 'p) restore_ctx, unit) act" where
  "send_buildidentity E message =
    (let variant = (case text_in (arguments message) ''Variant'' of Some v \<Rightarrow> v | None \<Rightarrow> rstr ''Erase'')
     in send_to_data_service E message
          (PDictionary [(rstr ''BuildIdentityDict'', PDictionary (re_identity E)), (rstr ''Variant'', PString variant)]))"

definition send_component :: "('i, 'c, 'p) restore_env \<Rightarrow> string \<Rightarrow> string \<Rightarrow> (('i, 'c, 'p) restore_ctx, unit) act" where
  "send_component E component reply_name =
    act_bind (personalize_named E (rstr component)) (\<lambda>personalized.
    send_control E (PDictionary [(rstr (reply_name @ ''File''), PData personalized)]))"

definition firmware_entry :: "rstring \<times> plist_value \<Rightarrow> (rstring \<times> rstring) list" where
  "firmware_entry e =
    (case component_info (snd e) of
       None \<Rightarrow> []
     | Some info \<Rightarrow>
         if truthy_in (Some info) ''IsFirmwarePayload'' \<or>
           truthy_in (Some info) ''IsSecondaryFirmwarePayload'' \<and> truthy_in (Some info) ''IsLoadedByiBoot''
         then (case text_in (Some info) ''Path'' of Some path \<Rightarrow> [(fst e, path)] | None \<Rightarrow> []) else [])"

definition firmware_components :: "plist_dict \<Rightarrow> (rstring \<times> rstring) list" where
  "firmware_components build_identity =
    (case sub_dict build_identity ''Manifest'' of Some m \<Rightarrow> concat (map firmware_entry m) | None \<Rightarrow> [])"

definition nor_skipped :: "rstring \<Rightarrow> bool" where
  "nor_skipped name \<longleftrightarrow> name = rstr ''LLB'' \<or> name = rstr ''RestoreSEP''"

primrec nor_dict :: "('i, 'c, 'p) restore_env \<Rightarrow> (rstring \<times> rstring) list \<Rightarrow> plist_dict \<Rightarrow> (('i, 'c, 'p) restore_ctx, plist_dict) act" where
  "nor_dict E [] d = act_ok d"
| "nor_dict E (e # es) d =
    (if nor_skipped (fst e) then nor_dict E es d
     else act_bind (personalize_path E (fst e) (snd e)) (\<lambda>bs. nor_dict E es (dl_insert (re_dict E) (fst e) (PData bs) d)))"

primrec nor_array :: "('i, 'c, 'p) restore_env \<Rightarrow> (rstring \<times> rstring) list \<Rightarrow> plist_value list \<Rightarrow> (('i, 'c, 'p) restore_ctx, plist_value list) act" where
  "nor_array E [] arr = act_ok arr"
| "nor_array E (e # es) arr =
    (if nor_skipped (fst e) then nor_array E es arr
     else act_bind (personalize_path E (fst e) (snd e)) (\<lambda>bs.
       nor_array E es (if Tss.starts_with (fst e) ''iBoot'' then PData bs # arr else arr @ [PData bs])))"

primrec sep_images :: "('i, 'c, 'p) restore_env \<Rightarrow> string list \<Rightarrow> plist_dict \<Rightarrow> (('i, 'c, 'p) restore_ctx, plist_dict) act" where
  "sep_images E [] req = act_ok req"
| "sep_images E (c # cs) req =
    (case component_path (re_identity E) (rstr c) of
       Ok path \<Rightarrow>
         act_bind (personalize_path E (rstr c) path) (\<lambda>bs.
         sep_images E cs (dl_insert (re_dict E) (rstr ((if c = ''SepStage1'' then ''SEPPatch'' else c) @ ''ImageData'')) (PData bs) req))
     | _ \<Rightarrow> sep_images E cs req)"

definition send_nor :: "('i, 'c, 'p) restore_env \<Rightarrow> plist_dict \<Rightarrow> (('i, 'c, 'p) restore_ctx, unit) act" where
  "send_nor E message =
    act_bind (act_res (component_path (re_identity E) (rstr ''LLB''))) (\<lambda>llb_path.
    act_bind (personalize_path E (rstr ''LLB'') llb_path) (\<lambda>llb.
    act_bind
      (if truthy_in (arguments message) ''FlashVersion1''
       then act_bind (nor_dict E (firmware_components (re_identity E)) []) (\<lambda>d. act_ok (PDictionary d))
       else act_bind (nor_array E (firmware_components (re_identity E)) []) (\<lambda>arr. act_ok (PArray arr))) (\<lambda>images.
    act_bind (sep_images E [''RestoreSEP'', ''SEP'', ''SepStage1'']
        [(rstr ''LlbImageData'', PData llb), (rstr ''NorImageData'', images)]) (\<lambda>req.
    send_to_data_service E message (PDictionary req)))))"

definition send_fdr_trust_data :: "('i, 'c, 'p) restore_env \<Rightarrow> plist_dict \<Rightarrow> (('i, 'c, 'p) restore_ctx, unit) act" where
  "send_fdr_trust_data E message = send_to_data_service E message (PDictionary [])"

definition send_manifest :: "('i, 'c, 'p) restore_env \<Rightarrow> (('i, 'c, 'p) restore_ctx, unit) act" where
  "send_manifest E =
    send_control E (PDictionary [(rstr ''ReceiptManifest'',
      case dict_get (re_identity E) ''Manifest'' of Some m \<Rightarrow> m | None \<Rightarrow> PDictionary [])])"

text \<open>Images of a kind: a list of names, one image, or all of them\<close>

definition ap_name :: "plist_dict \<Rightarrow> bool \<Rightarrow> rstring \<Rightarrow> rstring" where
  "ap_name manifest want_list name =
    (let fixed = rstr ''Ap,'' @ drop 2 name
     in if \<not> want_list \<and> map_of manifest name = None \<and> Tss.starts_with name ''Ap'' \<and> map_of manifest fixed \<noteq> None then fixed else name)"

definition is_type :: "rstring \<Rightarrow> plist_value \<Rightarrow> bool" where
  "is_type type_key entry =
    (case Option.bind (component_info entry) (\<lambda>i. map_of i type_key) of Some v \<Rightarrow> is_truthy v | None \<Rightarrow> False)"

primrec image_entries :: "('i, 'c, 'p) restore_env \<Rightarrow> rstring list \<Rightarrow> plist_dict \<Rightarrow> (('i, 'c, 'p) restore_ctx, plist_dict) act" where
  "image_entries E [] d = act_ok d"
| "image_entries E (c # cs) d =
    act_bind (personalize_named E c) (\<lambda>bs. image_entries E cs (dl_insert (re_dict E) c (PData bs) d))"

definition send_image_data :: "('i, 'c, 'p) restore_env \<Rightarrow> plist_dict \<Rightarrow> string \<Rightarrow> string option \<Rightarrow> string \<Rightarrow> (('i, 'c, 'p) restore_ctx, unit) act" where
  "send_image_data E message image_list_k image_type_k image_data_k =
    (let args = arguments message;
         want_list = truthy_in args image_list_k
     in act_bind (act_res (case image_type_k of
            Some k \<Rightarrow> Ok (rstr k)
          | None \<Rightarrow> ok_or (missing_field ''ImageType'') (text_in args ''ImageType''))) (\<lambda>type_key.
        act_bind (act_res (manifest_of (re_identity E))) (\<lambda>manifest.
          let image_name = map_option (ap_name manifest want_list) (text_in args ''ImageName'');
              names = map fst (filter (\<lambda>e. is_type type_key (snd e)) manifest)
          in if want_list then
               send_control E (PDictionary [(rstr image_list_k, PArray (map PString names))])
             else act_bind (image_entries E (filter (\<lambda>c. image_name = None \<or> image_name = Some c) names) []) (\<lambda>data_dict.
               send_control E (PDictionary
                 (case image_name of
                    Some name \<Rightarrow>
                      (case map_of data_dict name of Some bs \<Rightarrow> [(rstr image_data_k, bs)] | None \<Rightarrow> []) @
                      [(rstr ''ImageName'', PString name)]
                  | None \<Rightarrow> [(rstr image_data_k, PDictionary data_dict)]))))))"

section \<open>Requests passed on to Apple\<close>

definition http_response_to_plist :: "dict_lib \<Rightarrow> http_response \<Rightarrow> plist_value" where
  "http_response_to_plist dl response =
    PDictionary [(rstr ''ResponseBody'', PData (hr_body response)), (rstr ''ResponseBodyDone'', PBoolean True),
      (rstr ''ResponseHeaders'', PDictionary (fold (\<lambda>(k, v). dl_insert dl k (PString v)) (hr_headers response) [])),
      (rstr ''ResponseStatus'', PInteger (int (hr_status response)))]"

definition request_arguments :: "plist_dict \<Rightarrow> (plist_dict \<times> rstring, idevice_error) res" where
  "request_arguments message =
    rbind (ok_or (missing_field ''Arguments'') (arguments message)) (\<lambda>args.
    rmap (Pair args) (ok_or (missing_field ''RequestURL'') (text_in (Some args) ''RequestURL'')))"

definition url_asset_response :: "('i, 'c, 'p) restore_env \<Rightarrow> plist_dict \<Rightarrow> (('i, 'c, 'p) restore_ctx, plist_value) act" where
  "url_asset_response E message =
    act_bind (act_res (request_arguments message)) (\<lambda>(_, url).
    act_bind (on_net (http_send (http_request_new HttpGet url))) (\<lambda>r. act_ok (http_response_to_plist (re_dict E) r)))"

definition streamed_key_response :: "('i, 'c, 'p) restore_env \<Rightarrow> plist_dict \<Rightarrow> (('i, 'c, 'p) restore_ctx, plist_value) act" where
  "streamed_key_response E message =
    act_bind (act_res (request_arguments message)) (\<lambda>(args, url).
      let body = (case Option.bind (dict_get args ''RequestBody'') plist_as_data of Some b \<Rightarrow> b | None \<Rightarrow> []);
          headers = (case sub_dict args ''RequestAdditionalHeaders'' of Some h \<Rightarrow> h | None \<Rightarrow> []);
          req = fold (\<lambda>(k, v) q. case plist_as_string v of Some x \<Rightarrow> http_add_header k x q | None \<Rightarrow> q) headers
            (http_set_body body (http_request_new HttpPost url))
      in act_bind (on_net (http_send req)) (\<lambda>r. act_ok (http_response_to_plist (re_dict E) r)))"

definition send_url_asset :: "('i, 'c, 'p) restore_env \<Rightarrow> plist_dict \<Rightarrow> (('i, 'c, 'p) restore_ctx, unit) act" where
  "send_url_asset E message = act_bind (url_asset_response E message) (send_to_data_service E message)"

definition send_streamed_image_decryption_key :: "('i, 'c, 'p) restore_env \<Rightarrow> plist_dict \<Rightarrow> (('i, 'c, 'p) restore_ctx, unit) act" where
  "send_streamed_image_decryption_key E message = act_bind (streamed_key_response E message) (send_to_data_service E message)"

end
