(* ===== verification/Restore_Objects.thy ===== *)
theory Restore_Objects
  imports Restore_Data
begin

text \<open>
  Boot objects, streamed in chunks of 8 KiB with the side question an encrypted one raises (data_request.rs), and the updates of
  firmware and baseband (fw_updater.rs).
\<close>

section \<open>Waiting for a limited time\<close>

text \<open>
  A reader that is given up when \<open>k\<close> pieces have arrived: what it has taken of them is lost, the pieces that arrive later are
  not touched. \<open>None\<close>: given up.
\<close>

definition given_up :: "nat \<Rightarrow> (idevice, 'a) act \<Rightarrow> idevice \<Rightarrow> ('a, idevice_error) res option \<times> idevice" where
  "given_up k m d =
    (case dv_socket d of
       None \<Rightarrow> (case m d of (r, e) \<Rightarrow> (Some r, e))
     | Some t \<Rightarrow>
         (case m (d\<lparr>dv_socket := Some (t\<lparr>tp_in := take k (tp_in t)\<rparr>)\<rparr>) of
            (r, e) \<Rightarrow>
              (if r = Err eof then None else Some r,
               e\<lparr>dv_socket := map_option (\<lambda>u. u\<lparr>tp_in := tp_in u @ drop k (tp_in t)\<rparr>) (dv_socket e)\<rparr>)))"

definition next_wait :: "(('i, 'c, 'p) restore_ctx, nat option) act" where
  "next_wait s =
    (case rx_waits s of [] \<Rightarrow> (Ok None, s) | w # ws \<Rightarrow> (Ok w, s\<lparr>rx_waits := ws\<rparr>))"

definition limited :: "nat option \<Rightarrow> (idevice, 'a) act \<Rightarrow> (idevice, ('a, idevice_error) res option) act" where
  "limited w m d =
    (case w of
       None \<Rightarrow> (case m d of (r, e) \<Rightarrow> (Ok (Some r), e))
     | Some k \<Rightarrow> (case given_up k m d of (r, e) \<Rightarrow> (Ok r, e)))"

definition answered :: "('a, idevice_error) res option \<Rightarrow> ('s, 'a option) act" where
  "answered r s = (case r of Some (Ok a) \<Rightarrow> (Ok (Some a), s) | Some Panic \<Rightarrow> (Panic, s) | _ \<Rightarrow> (Ok None, s))"

section \<open>Boot objects\<close>

definition FILE_CHUNK_SIZE :: nat where "FILE_CHUNK_SIZE = 8192"

text \<open>The default \<open>open_component\<close>: the whole component, handed out in pieces that fit the buffer\<close>

definition open_buffered :: "(rstring \<Rightarrow> ('c, byte list) act) \<Rightarrow> rstring \<Rightarrow> ('c, (byte list, idevice_error) res list) act" where
  "open_buffered read_component path =
    act_bind (read_component path) (\<lambda>bs. act_ok (map Ok (chunks FILE_CHUNK_SIZE bs)))"

datatype boot_sink = SinkPort | SinkRestored

definition sink_send :: "('i, 'c, 'p) restore_env \<Rightarrow> boot_sink \<Rightarrow> plist_value \<Rightarrow> (('i, 'c, 'p) restore_ctx, unit) act" where
  "sink_send E k v = (case k of SinkPort \<Rightarrow> on_conn (send_plist (re_plist E) v) | SinkRestored \<Rightarrow> send_control E v)"

definition recv_message :: "plist_lib \<Rightarrow> (idevice, plist_dict) act" where
  "recv_message pl =
    act_bind (read_plist_value pl) (\<lambda>v.
    act_res (ok_or (UnexpectedResponse ''restored sent a non-dictionary message'') (plist_as_dictionary v)))"

definition sink_recv_limited :: "('i, 'c, 'p) restore_env \<Rightarrow> boot_sink \<Rightarrow> (('i, 'c, 'p) restore_ctx, plist_dict option) act" where
  "sink_recv_limited E k =
    act_bind next_wait (\<lambda>w.
    act_bind
      (case k of
         SinkPort \<Rightarrow> on_conn (limited w (read_plist (re_plist E)))
       | SinkRestored \<Rightarrow> on_control (on_restored (limited w (recv_message (re_plist E))))) answered)"

definition file_data :: "byte list \<Rightarrow> plist_value" where
  "file_data bs = PDictionary [(rstr ''FileData'', PData bs)]"

definition file_done :: plist_value where
  "file_done = PDictionary [(rstr ''FileDataDone'', PBoolean True)]"

definition aea :: "byte list \<Rightarrow> bool" where
  "aea bs \<longleftrightarrow> Mbn.starts_with bs (rstr ''AEA1'')"

text \<open>After the first chunk of an encrypted image: a request for its key, if one arrives in three seconds\<close>

definition key_question :: "('i, 'c, 'p) restore_env \<Rightarrow> boot_sink \<Rightarrow> byte list \<Rightarrow> (('i, 'c, 'p) restore_ctx, unit) act" where
  "key_question E k chunk =
    (if aea chunk
     then act_bind (sink_recv_limited E k) (\<lambda>answer.
       case answer of
         Some msg \<Rightarrow>
           if text_in (Some msg) ''MsgType'' = Some (rstr ''URLAsset'')
           then act_bind (url_asset_response E msg) (sink_send E k) else act_ok ()
       | None \<Rightarrow> act_ok ())
     else act_ok ())"

definition rx_check_cancel :: "(('i, 'c, 'p) restore_ctx, unit) act" where
  "rx_check_cancel = on_feed check_cancel"

fun stream_chunks :: "('i, 'c, 'p) restore_env \<Rightarrow> rstring \<Rightarrow> boot_sink \<Rightarrow> (byte list, idevice_error) res list \<Rightarrow> bool \<Rightarrow> nat \<Rightarrow> nat \<Rightarrow>
    (('i, 'c, 'p) restore_ctx, unit) act" where
  "stream_chunks E component k [] first sent next_report =
    act_bind rx_check_cancel (\<lambda>_. sink_send E k file_done)"
| "stream_chunks E component k (r # rs) first sent next_report =
    act_bind rx_check_cancel (\<lambda>_.
    act_bind (act_res r) (\<lambda>bs.
      if bs = [] then sink_send E k file_done
      else act_bind (sink_send E k (file_data bs)) (\<lambda>_.
        let sent' = sent + length bs; report = next_report \<le> sent'
        in act_bind (if report then rx_emit (Transfer component sent' None) else act_ok ()) (\<lambda>_.
           act_bind (if first then key_question E k bs else act_ok ()) (\<lambda>_.
           stream_chunks E component k rs False sent' (if report then sent' + PROGRESS_STRIDE else next_report))))))"

definition send_source_boot_object :: "('i, 'c, 'p) restore_env \<Rightarrow> rstring \<Rightarrow> u16 option \<Rightarrow> (('i, 'c, 'p) restore_ctx, unit) act" where
  "send_source_boot_object E image_name port =
    act_bind (act_res (component_path (re_identity E) image_name)) (\<lambda>path.
    act_bind (on_components (re_open E path)) (\<lambda>reads.
      case port of
        Some p \<Rightarrow> with_conn (connect_data_port E p) (stream_chunks E image_name SinkPort reads True 0 0)
      | None \<Rightarrow> stream_chunks E image_name SinkRestored reads True 0 0))"

primrec file_chunks :: "('i, 'c, 'p) restore_env \<Rightarrow> bool \<Rightarrow> bool \<Rightarrow> byte list list \<Rightarrow> (('i, 'c, 'p) restore_ctx, unit) act" where
  "file_chunks E handle_aea first [] = sink_send E SinkPort file_done"
| "file_chunks E handle_aea first (c # cs) =
    act_bind (sink_send E SinkPort (file_data c)) (\<lambda>_.
    act_bind (if handle_aea \<and> first then key_question E SinkPort c else act_ok ()) (\<lambda>_.
    file_chunks E handle_aea False cs))"

primrec control_chunks :: "('i, 'c, 'p) restore_env \<Rightarrow> byte list list \<Rightarrow> (('i, 'c, 'p) restore_ctx, unit) act" where
  "control_chunks E [] = send_control E file_done"
| "control_chunks E (c # cs) = act_bind (send_control E (file_data c)) (\<lambda>_. control_chunks E cs)"

definition special_object :: "rstring \<Rightarrow> rstring option" where
  "special_object name =
    (if name = rstr ''__RestoreVersion__'' then Some (rstr ''RestoreVersion.plist'')
     else if name = rstr ''__SystemVersion__'' then Some (rstr ''SystemVersion.plist'') else None)"

definition send_boot_object :: "('i, 'c, 'p) restore_env \<Rightarrow> plist_dict \<Rightarrow> bool \<Rightarrow> (('i, 'c, 'p) restore_ctx, unit) act" where
  "send_boot_object E message handle_aea =
    act_bind (act_res (ok_or (missing_field ''ImageName'') (text_in (arguments message) ''ImageName''))) (\<lambda>image_name.
      let port = data_port message; special = special_object image_name
      in if image_name = rstr ''__GlobalManifest__'' then restore_err (Unsupported ''__GlobalManifest__ (macOS)'')
         else if handle_aea \<and> special = None then send_source_boot_object E image_name port
         else act_bind (case special of Some path \<Rightarrow> on_components (re_read E path) | None \<Rightarrow> personalize_named E image_name) (\<lambda>bs.
           case port of
             Some p \<Rightarrow> with_conn (on_ports (re_connect E p)) (file_chunks E handle_aea True (chunks FILE_CHUNK_SIZE bs))
           | None \<Rightarrow> control_chunks E (chunks FILE_CHUNK_SIZE bs)))"

section \<open>Firmware updates\<close>

definition next_uuid :: "(('i, 'c, 'p) restore_ctx, rstring) act" where
  "next_uuid s = (case rx_uuids s of [] \<Rightarrow> (Ok [], s) | u # us \<Rightarrow> (Ok u, s\<lparr>rx_uuids := us\<rparr>))"

definition first_text :: "plist_value option \<Rightarrow> rstring option" where
  "first_text v = Option.bind (Option.bind v plist_as_array) (\<lambda>a. case a of x # _ \<Rightarrow> plist_as_string x | [] \<Rightarrow> None)"

definition build_identity_tags :: "plist_dict \<Rightarrow> rstring list" where
  "build_identity_tags args =
    (case Option.bind (Option.bind (sub_dict args ''DeviceGeneratedTags'') (\<lambda>t. dict_get t ''BuildIdentityTags'')) plist_as_array of
       Some a \<Rightarrow> concat (map (\<lambda>v. case plist_as_string v of Some s \<Rightarrow> [s] | None \<Rightarrow> []) a)
     | None \<Rightarrow> [])"

definition production_mode :: "plist_dict \<Rightarrow> bool" where
  "production_mode args =
    (case sub_dict args ''MessageArgInfo'' of
       None \<Rightarrow> True
     | Some info \<Rightarrow>
         fold (\<lambda>(k, v) b. if ends_with k ''ProductionMode'' then (case plist_as_boolean v of Some x \<Rightarrow> x | None \<Rightarrow> True) else b) info True)"

definition device_node :: "dict_lib \<Rightarrow> plist_dict option \<Rightarrow> rstring \<times> plist_value \<Rightarrow> tss_request \<Rightarrow> tss_request" where
  "device_node dl manifest e q =
    (let keep = dl_insert dl (fst e) (snd e) q
     in case snd e of
          PDictionary dev_node \<Rightarrow>
            (if dict_get dev_node ''Digest'' = None then keep
             else case Option.bind (Option.bind (Option.bind manifest (\<lambda>m. map_of m (fst e))) plist_as_dictionary) (\<lambda>n. dict_get n ''Digest'') of
               Some digest \<Rightarrow> dl_insert dl (fst e) (PDictionary (dl_insert dl (rstr ''Digest'') digest dev_node)) q
             | None \<Rightarrow> keep)
        | _ \<Rightarrow> keep)"

definition device_generated_request :: "('i, 'c, 'p) restore_env \<Rightarrow> plist_dict \<Rightarrow> plist_dict \<Rightarrow> rstring \<Rightarrow> tss_request" where
  "device_generated_request E args device_request uuid =
    (let dl = re_dict E;
         q = add_common_tags dl (re_board_id E) (re_chip_id E) (re_ecid E) None None (tss_new uuid);
         q = add_build_identity_tags dl (re_identity E) [rstr ''ApBoardID'', rstr ''ApChipID''] q;
         q = add_build_identity_tags dl (re_identity E) (build_identity_tags args) q;
         q = dl_insert dl (rstr ''@BBTicket'') (PBoolean True) q;
         q = dl_insert dl (rstr ''ApSecurityMode'') (PBoolean True) q;
         q = dl_insert dl (rstr ''ApProductionMode'') (PBoolean (production_mode args)) q;
         q = fold (device_node dl (sub_dict (re_identity E) ''Manifest'')) device_request q
     in dl_remove dl (rstr ''RequiresUIDMode'') q)"

definition signed_answer :: "('i, 'c, 'p) restore_env \<Rightarrow> string \<Rightarrow> tss_request \<Rightarrow> (('i, 'c, 'p) restore_ctx, plist_dict) act" where
  "signed_answer E what q =
    act_bind (on_net (tss_send (re_plist E) (re_xml E) q)) (\<lambda>v.
    act_res (ok_or (Restore (TssResponse what)) (plist_as_dictionary v)))"

definition get_device_generated_firmware_data :: "('i, 'c, 'p) restore_env \<Rightarrow> plist_dict \<Rightarrow> (('i, 'c, 'p) restore_ctx, plist_dict) act" where
  "get_device_generated_firmware_data E args =
    act_bind (act_res (ok_or (missing_field ''DeviceGeneratedRequest'') (sub_dict args ''DeviceGeneratedRequest''))) (\<lambda>device_request.
    act_bind next_uuid (\<lambda>uuid.
    signed_answer E ''response is not a dictionary'' (device_generated_request E args device_request uuid)))"

definition send_firmware_updater_data :: "('i, 'c, 'p) restore_env \<Rightarrow> plist_dict \<Rightarrow> (('i, 'c, 'p) restore_ctx, unit) act" where
  "send_firmware_updater_data E message =
    act_bind (act_res (ok_or (missing_field ''Arguments'') (arguments message))) (\<lambda>args.
      let updater = text_of (case text_in (Some args) ''MessageArgUpdaterName'' of Some n \<Rightarrow> n | None \<Rightarrow> rstr ''<unknown>'')
      in if text_in (Some args) ''MessageArgType'' \<noteq> Some (rstr ''FirmwareResponseData'')
         then restore_err (RestoreOther (rstr (''unexpected MessageArgType for updater '' @ updater)))
         else if dict_get args ''DeviceGeneratedRequest'' = None
         then restore_err (Unsupported (''updater '' @ updater @ '' without a DeviceGeneratedRequest''))
         else act_bind (get_device_generated_firmware_data E args) (\<lambda>fwdict.
           send_to_data_service E message (PDictionary [(rstr ''FirmwareResponseData'', PDictionary fwdict)])))"

section \<open>The baseband\<close>

definition bbfw_filename_for_element :: "rstring \<Rightarrow> u64 option \<Rightarrow> string option" where
  "bbfw_filename_for_element elem bb_chip_id =
    map_of (map (\<lambda>(e, f). (rstr e, f))
      (if bb_chip_id = Some 0x1F30E1
       then [(''Misc'', ''multi_image.mbn''), (''RestoreSBL1'', ''restorexbl_sc.elf''), (''SBL1'', ''xbl_sc.elf''),
         (''TME'', ''signed_firmware_soc_view.elf'')]
       else [(''RamPSI'', ''psi_ram.fls''), (''FlashPSI'', ''psi_flash.fls''), (''eDBL'', ''dbl.mbn''), (''RestoreDBL'', ''restoredbl.mbn''),
         (''DBL'', ''dbl.mbn''), (''ENANDPRG'', ''ENPRG.mbn''), (''RestoreSBL1'', ''restoresbl1.mbn''), (''SBL1'', ''sbl1.mbn''),
         (''RestorePSI'', ''restorepsi.bin''), (''PSI'', ''psi_ram.bin''), (''RestorePSI2'', ''restorepsi2.bin''),
         (''PSI2'', ''psi_ram2.bin''), (''Misc'', ''multi_image.mbn'')])) elem"

definition baseband_err :: "string \<Rightarrow> idevice_error" where
  "baseband_err what = Restore (Baseband what)"

definition stitch_element :: "u64 option \<Rightarrow> rstring \<times> plist_value \<Rightarrow> (rstring \<times> byte list) list \<Rightarrow>
    ((rstring \<times> byte list) list, idevice_error) res" where
  "stitch_element bb_chip_id e files =
    (if \<not> ends_with (fst e) ''-Blob'' then Ok files
     else case snd e of
       PData blob \<Rightarrow>
         (case bbfw_filename_for_element (takeWhile (\<lambda>b. b \<noteq> 0x2D) (fst e)) bb_chip_id of
            None \<Rightarrow> Err (baseband_err ''no baseband file mapping for the element'')
          | Some name \<Rightarrow>
              if bb_chip_id = Some 0x1F30E1 \<or> ends_with (rstr name) ''.fls''
              then Err (Restore (Unsupported (''baseband stitching for '' @ name @ '' (Mav25/fls)'')))
              else (case map_of files (rstr name) of
                 None \<Rightarrow> Err (baseband_err (''baseband file missing: '' @ name))
               | Some bs \<Rightarrow> rmap (\<lambda>s. AList.update (rstr name) s files) (mbn_stitch bs blob)))
     | _ \<Rightarrow> Ok files)"

fun stitch_elements :: "u64 option \<Rightarrow> plist_dict \<Rightarrow> (rstring \<times> byte list) list \<Rightarrow> ((rstring \<times> byte list) list, idevice_error) res" where
  "stitch_elements bb_chip_id [] files = Ok files"
| "stitch_elements bb_chip_id (e # es) files =
    rbind (stitch_element bb_chip_id e files) (stitch_elements bb_chip_id es)"

text \<open>\<open>Path::extension\<close>\<close>

definition file_extension :: "rstring \<Rightarrow> rstring option" where
  "file_extension name =
    (case rev (filter (\<lambda>c. c \<noteq> [] \<and> c \<noteq> rstr ''.'') (split_on 0x2F name)) of
       [] \<Rightarrow> None
     | f # _ \<Rightarrow>
         if f = rstr ''..'' then None
         else (case rsplit_once 0x2E f of Some (stem, ext) \<Rightarrow> if stem = [] then None else Some ext | None \<Rightarrow> None))"

definition kept_firmware :: "rstring \<Rightarrow> bool" where
  "kept_firmware name \<longleftrightarrow>
    (case file_extension name of
       Some e \<Rightarrow> e = rstr ''fls'' \<or> e = rstr ''mbn'' \<or> e = rstr ''elf'' \<or> e = rstr ''bin''
     | None \<Rightarrow> False)"

text \<open>Entries with the same name are one file, the last of them; the order of the files in the new archive is the map's.\<close>

definition sign_bbfw :: "('i, 'c, 'p) restore_env \<Rightarrow> byte list \<Rightarrow> plist_dict \<Rightarrow> u64 option \<Rightarrow> (byte list, idevice_error) res" where
  "sign_bbfw E bbfw bbtss bb_chip_id =
    rbind (ok_or (baseband_err ''BBTicket missing BasebandFirmware'') (sub_dict bbtss ''BasebandFirmware'')) (\<lambda>bbfw_dict.
    rbind (re_unzip E bbfw) (\<lambda>entries.
    rbind (stitch_elements bb_chip_id bbfw_dict (fold (\<lambda>(n, bs). AList.update n bs) entries [])) (\<lambda>files.
    re_zip E (filter (\<lambda>f. kept_firmware (fst f)) (re_order E files) @
      (case dict_get bbtss ''BBTicket'' of Some (PData ticket) \<Rightarrow> [(rstr ''bbticket.der'', ticket)] | _ \<Rightarrow> [])))))"

definition BB_IDENTITY_KEYS :: "string list" where
  "BB_IDENTITY_KEYS =
    [''BbProvisioningManifestKeyHash'', ''BbActivationManifestKeyHash'', ''BbCalibrationManifestKeyHash'',
     ''BbFactoryActivationManifestKeyHash'', ''BbFDRSecurityKeyHash'', ''BbSkeyId'', ''PearlCertificationRootPub'', ''Ap,OSLongVersion'']"

definition optional_entry :: "string \<Rightarrow> plist_value option \<Rightarrow> plist_dict" where
  "optional_entry k v = (case v of Some x \<Rightarrow> [(rstr k, x)] | None \<Rightarrow> [])"

definition baseband_parameters :: "('i, 'c, 'p) restore_env \<Rightarrow> plist_dict option \<Rightarrow> plist_dict" where
  "baseband_parameters E args =
    (let arg = (\<lambda>k. Option.bind args (\<lambda>a. dict_get a k))
     in [(rstr ''ApECID'', PInteger (uint (re_ecid E)))] @
        optional_entry ''BbNonce'' (arg ''Nonce'') @
        optional_entry ''BbChipID'' (map_option (\<lambda>n. PInteger (uint n)) (Option.bind (arg ''ChipID'') plist_as_unsigned_integer)) @
        optional_entry ''BbGoldCertId'' (arg ''CertID'') @
        optional_entry ''BbSNUM'' (arg ''ChipSerialNo'') @
        optional_entry ''Manifest'' (dict_get (re_identity E) ''Manifest'') @
        concat (map (\<lambda>k. optional_entry k (dict_get (re_identity E) k)) BB_IDENTITY_KEYS))"

text \<open>The second lookup of the path is the first one again.\<close>

definition send_baseband_data :: "('i, 'c, 'p) restore_env \<Rightarrow> plist_dict \<Rightarrow> (('i, 'c, 'p) restore_ctx, unit) act" where
  "send_baseband_data E message =
    (let args = arguments message;
         bb_chip_id = Option.bind (Option.bind args (\<lambda>a. dict_get a ''ChipID'')) plist_as_unsigned_integer;
         dl = re_dict E
     in act_bind next_uuid (\<lambda>uuid.
        act_bind (signed_answer E ''baseband response is not a dictionary''
          (add_baseband_tags dl (baseband_parameters E args)
            (add_common_tags dl (re_board_id E) (re_chip_id E) (re_ecid E) None None (tss_new uuid)))) (\<lambda>bbtss.
        act_bind (act_res (component_path (re_identity E) (rstr ''BasebandFirmware''))) (\<lambda>bbfw_path.
        act_bind (on_components (re_read E bbfw_path)) (\<lambda>bbfw.
        act_bind (act_res (sign_bbfw E bbfw bbtss bb_chip_id)) (\<lambda>stitched.
        send_to_data_service E message (PDictionary [(rstr ''BasebandData'', PData stitched)])))))))"

end
