(* ===== verification/Restore_Machine.thy ===== *)
theory Restore_Machine
  imports Restore_Objects Device_Facts
begin

text \<open>
  services/restore/state_machine.rs and the rest of data_request.rs: the dispatch of data requests, the transfer of the file system
  beside the pump that serves requests meanwhile, and the loop that drives a restore.
\<close>

section \<open>What is left to read on the control connection\<close>

definition control_pending :: "('i, 'c, 'p) restore_ctx \<Rightarrow> nat" where
  "control_pending s = dev_pending (rd_dev (rx_restored s))"

definition left_at_most :: "nat \<Rightarrow> ('i, 'c, 'p) restore_ctx \<Rightarrow> bool" where
  "left_at_most k s \<longleftrightarrow> control_pending s \<le> k"

lemma left_same: "(\<And>s. rx_restored (snd (m s)) = rx_restored s) \<Longrightarrow> keeps (left_at_most k) m"
  by (rule keepsI) (simp add: left_at_most_def control_pending_def)

lemma left_on [keeps_intro]:
  "keeps (left_at_most k) (on_components a)" "keeps (left_at_most k) (on_ports b)" "keeps (left_at_most k) (on_net c)"
  "keeps (left_at_most k) (on_feed d)" "keeps (left_at_most k) (on_conn e)" "keeps (left_at_most k) next_wait"
  "keeps (left_at_most k) next_uuid" "keeps (left_at_most k) (rx_emit g)" "keeps (left_at_most k) rx_check_cancel"
  "keeps (left_at_most k) (answered r)"
  by (rule left_same, simp add: on_components_def on_ports_def on_net_def on_feed_def on_conn_def next_wait_def next_uuid_def rx_emit_def
      rx_check_cancel_def answered_def split: prod.split option.split list.split res.split)+

lemma left_if [keeps_intro]: "keeps (left_at_most k) a \<Longrightarrow> keeps (left_at_most k) b \<Longrightarrow> keeps (left_at_most k) (if c then a else b)"
  by simp

lemma left_control:
  assumes "\<And>d. dev_pending (snd (m d)) \<le> dev_pending d"
  shows "keeps (left_at_most k) (on_control (on_restored m))"
proof (rule keepsI)
  fix s assume "left_at_most k s"
  with assms [of "rd_dev (rx_restored s)"] show "left_at_most k (snd (on_control (on_restored m) s))"
    by (simp add: on_control_def on_restored_def left_at_most_def control_pending_def case_prod_beta)
qed

lemma left_send [keeps_intro]: "keeps (left_at_most k) (send_control E v)"
  unfolding send_control_def restored_send_def by (rule left_control) (metis send_plist_dev eq_refl prod.collapse)

lemma recv_message_pending: "dev_pending (snd (recv_message pl d)) \<le> dev_pending d"
proof -
  obtain r e where r: "read_plist_value pl d = (r, e)" by (rule prod.exhaust)
  with read_value_pending [OF r] show ?thesis by (cases r) (simp_all add: recv_message_def act_bind_def)
qed

lemma given_up_pending:
  assumes "\<And>d. dev_pending (snd (m d)) \<le> dev_pending d"
  shows "dev_pending (snd (given_up k m d)) \<le> dev_pending d"
proof (cases "dv_socket d")
  case None
  with assms [of d] show ?thesis by (simp add: given_up_def case_prod_beta)
next
  case (Some t)
  let ?d = "d\<lparr>dv_socket := Some (t\<lparr>tp_in := take k (tp_in t)\<rparr>)\<rparr>"
  obtain r e where r: "m ?d = (r, e)" by (rule prod.exhaust)
  have l: "length (concat (take k (tp_in t))) + length (concat (drop k (tp_in t))) = length (concat (tp_in t))"
    by (metis append_take_drop_id concat_append length_append)
  from assms [of ?d] r have "dev_pending e \<le> length (concat (take k (tp_in t)))" by (simp add: dev_pending_def tp_pending_def)
  with Some r l show ?thesis
    by (cases "dv_socket e") (simp_all add: given_up_def dev_pending_def tp_pending_def)
qed

lemma limited_pending:
  "(\<And>d. dev_pending (snd (m d)) \<le> dev_pending d) \<Longrightarrow> dev_pending (snd (limited w m d)) \<le> dev_pending d"
  using given_up_pending [of m _ d] by (cases w) (simp_all add: limited_def case_prod_beta)

lemma left_recv_limited [keeps_intro]: "keeps (left_at_most k) (sink_recv_limited E sink)"
  unfolding sink_recv_limited_def
  by (cases sink) (auto intro!: keeps_intro left_control limited_pending recv_message_pending)

lemma left_with_conn [keeps_intro]:
  fixes connect :: "(('i, 'c, 'p) restore_ctx, idevice) act" and body :: "(('i, 'c, 'p) restore_ctx, 'a) act"
  assumes "keeps (left_at_most k) connect" and "keeps (left_at_most k) body"
  shows "keeps (left_at_most k) (with_conn connect body)"
proof (rule keepsI)
  fix s :: "('i, 'c, 'p) restore_ctx" assume s: "left_at_most k s"
  have "left_at_most k (snd (body (t\<lparr>rx_conn := Some d\<rparr>)))" if "left_at_most k t" for t d
    using that assms(2) by (intro keepsD [OF assms(2)]) (simp add: left_at_most_def control_pending_def)
  with keepsD [OF assms(1) s] show "left_at_most k (snd (with_conn connect body s))"
    unfolding with_conn_def act_bind_def
    by (auto simp: left_at_most_def control_pending_def split: prod.split res.split) (metis snd_conv)+
qed

lemma left_tries [keeps_intro]: "keeps (left_at_most k) (connect_tries E port n last_err)"
  for E :: "('i, 'c, 'p) restore_env"
proof (induction n arbitrary: last_err)
  case (Suc n)
  show ?case
  proof (rule keepsI)
    fix s :: "('i, 'c, 'p) restore_ctx" assume s: "left_at_most k s"
    obtain r t where r: "on_ports (re_connect E port) s = (r, t)" by (rule prod.exhaust)
    with keepsD [OF left_on(2) s] have t: "left_at_most k t" by (metis snd_conv)
    with r keepsD [OF Suc t] show "left_at_most k (snd (connect_tries E port (Suc n) last_err s))"
      by (cases r) simp_all
  qed
qed (simp add: keeps_intro)

lemma left_data [keeps_intro]: "keeps (left_at_most k) (send_to_data_service E message v)"
  unfolding send_to_data_service_def by (auto intro!: keeps_intro split: option.split)

lemma left_url [keeps_intro]: "keeps (left_at_most k) (url_asset_response E message)" "keeps (left_at_most k) (streamed_key_response E message)"
  unfolding url_asset_response_def streamed_key_response_def Let_def case_prod_beta by (intro keeps_intro)+

lemma left_personalize [keeps_intro]: "keeps (left_at_most k) (personalize_path E c p)" "keeps (left_at_most k) (personalize_named E c)"
  unfolding personalize_path_def personalize_named_def by (intro keeps_intro)+

lemma left_sink [keeps_intro]: "keeps (left_at_most k) (sink_send E sink v)"
  unfolding sink_send_def by (auto intro!: keeps_intro split: boot_sink.split)

lemma left_question [keeps_intro]: "keeps (left_at_most k) (key_question E sink c)"
  unfolding key_question_def by (auto intro!: keeps_intro split: option.split)

lemma left_stream [keeps_intro]: "keeps (left_at_most k) (stream_chunks E component sink rs first sent nr)"
  by (induction rs arbitrary: first sent nr) (auto simp: Let_def intro!: keeps_intro)

lemma left_chunks [keeps_intro]: "keeps (left_at_most k) (file_chunks E h first cs)" "keeps (left_at_most k) (control_chunks E cs)"
  by (induction cs arbitrary: first) (auto intro!: keeps_intro)

lemma left_nor [keeps_intro]: "keeps (left_at_most k) (nor_dict E es d)" "keeps (left_at_most k) (nor_array E es arr)"
  "keeps (left_at_most k) (image_entries E ns d)"
  by (induction es arbitrary: d arr, auto intro!: keeps_intro) (induction ns arbitrary: d, auto intro!: keeps_intro)

lemma left_sep [keeps_intro]: "keeps (left_at_most k) (sep_images E cs req)"
  by (induction cs arbitrary: req) (auto intro!: keeps_intro split: res.split)

lemma left_handlers [keeps_intro]:
  "keeps (left_at_most k) (send_root_ticket E m)" "keeps (left_at_most k) (send_buildidentity E m)" "keeps (left_at_most k) (send_component E c n)"
  "keeps (left_at_most k) (send_fdr_trust_data E m)" "keeps (left_at_most k) (send_manifest E)" "keeps (left_at_most k) (send_url_asset E m)"
  "keeps (left_at_most k) (send_streamed_image_decryption_key E m)"
  unfolding send_root_ticket_def send_buildidentity_def send_component_def send_fdr_trust_data_def send_manifest_def send_url_asset_def
    send_streamed_image_decryption_key_def restore_err_def Let_def
  by (intro keeps_intro)+

lemma left_nor_data [keeps_intro]: "keeps (left_at_most k) (send_nor E m)"
  unfolding send_nor_def by (intro keeps_intro)

lemma left_image_data [keeps_intro]: "keeps (left_at_most k) (send_image_data E m a b c)"
  unfolding send_image_data_def Let_def by (intro keeps_intro)

lemma left_source [keeps_intro]: "keeps (left_at_most k) (send_source_boot_object E name port)"
  unfolding send_source_boot_object_def connect_data_port_def by (auto intro!: keeps_intro split: option.split)

lemma left_boot [keeps_intro]: "keeps (left_at_most k) (send_boot_object E m h)"
  unfolding send_boot_object_def Let_def restore_err_def by (auto intro!: keeps_intro split: option.split)

lemma left_updates [keeps_intro]: "keeps (left_at_most k) (send_firmware_updater_data E m)" "keeps (left_at_most k) (send_baseband_data E m)"
  unfolding send_firmware_updater_data_def send_baseband_data_def get_device_generated_firmware_data_def signed_answer_def Let_def restore_err_def
  by (intro keeps_intro)+

section \<open>Dispatch\<close>

text \<open>The transfer of the file system is a parameter: within the pump it finds no image any more.\<close>

definition dispatch_with :: "(('i, 'c, 'p) restore_env \<Rightarrow> plist_dict \<Rightarrow> (('i, 'c, 'p) restore_ctx, unit) act) \<Rightarrow>
    ('i, 'c, 'p) restore_env \<Rightarrow> plist_dict \<Rightarrow> (('i, 'c, 'p) restore_ctx, unit) act" where
  "dispatch_with filesystem E message =
    (case text_in (Some message) ''DataType'' of
       None \<Rightarrow> act_ok ()
     | Some dt \<Rightarrow>
         act_bind (rx_emit (Step dt)) (\<lambda>_.
           if dt = rstr ''RootTicket'' then send_root_ticket E message
           else if dt = rstr ''SystemImageData'' \<or> dt = rstr ''RecoveryOSASRImage'' then filesystem E message
           else if dt = rstr ''BuildIdentityDict'' then send_buildidentity E message
           else if dt = rstr ''PersonalizedBootObjectV3'' then send_boot_object E message False
           else if dt = rstr ''SourceBootObjectV4'' \<or> dt = rstr ''SourceBootObjectV5'' then send_boot_object E message True
           else if dt = rstr ''KernelCache'' then send_component E ''KernelCache'' ''KernelCache''
           else if dt = rstr ''DeviceTree'' then send_component E ''DeviceTree'' ''DeviceTree''
           else if dt = rstr ''SystemImageRootHash'' then send_component E ''SystemVolume'' ''SystemImageRootHash''
           else if dt = rstr ''SystemImageCanonicalMetadata''
             then send_component E ''Ap,SystemVolumeCanonicalMetadata'' ''SystemImageCanonicalMetadata''
           else if dt = rstr ''NORData'' then send_nor E message
           else if dt = rstr ''FirmwareUpdaterData'' then send_firmware_updater_data E message
           else if dt = rstr ''BasebandData'' then send_baseband_data E message
           else if dt = rstr ''FDRTrustData'' then send_fdr_trust_data E message
           else if dt = rstr ''FUDData'' then send_image_data E message ''FUDImageList'' (Some ''IsFUDFirmware'') ''FUDImageData''
           else if dt = rstr ''PersonalizedData'' then send_image_data E message ''ImageList'' None ''ImageData''
           else if dt = rstr ''EANData'' then send_image_data E message ''EANImageList'' (Some ''IsEarlyAccessFirmware'') ''EANData''
           else if dt = rstr ''ReceiptManifest'' then send_manifest E
           else if dt = rstr ''URLAsset'' then send_url_asset E message
           else if dt = rstr ''StreamedImageDecryptionKey'' then send_streamed_image_decryption_key E message
           else act_ok ()))"

lemma left_dispatch_with [keeps_intro]:
  assumes "keeps (left_at_most k) (fs E message)"
  shows "keeps (left_at_most k) (dispatch_with fs E message)"
  unfolding dispatch_with_def using assms by (auto split: option.split intro!: keeps_intro)

section \<open>The file system\<close>

definition asr_port :: "plist_dict \<Rightarrow> u16" where
  "asr_port message = (case data_port message of Some p \<Rightarrow> p | None \<Rightarrow> ASR_DEFAULT_PORT)"

text \<open>\<open>AsrClient::connect\<close>, then \<open>filesystem.take()\<close>\<close>

definition begin_asr :: "('i, 'c, 'p) restore_env \<Rightarrow> plist_dict \<Rightarrow> (('i, 'c, 'p) restore_ctx, 'i asr) act" where
  "begin_asr E message =
    act_bind (connect_data_port E (asr_port message)) (\<lambda>conn.
    act_bind (act_res (asr_connect (re_plist E) () \<lparr>fd_sink = None, fd_cancel = None\<rparr> conn)) (\<lambda>a s.
      case rx_filesystem s of
        None \<Rightarrow> (Err (Restore NoFilesystemImage), s)
      | Some img \<Rightarrow>
          (Ok \<lparr>as_dev = as_dev a, as_checksum_chunks = as_checksum_chunks a, as_image = img, as_feed = rx_feed s\<rparr>,
           s\<lparr>rx_filesystem := None\<rparr>)))"

definition no_filesystem :: "('i, 'c, 'p) restore_env \<Rightarrow> plist_dict \<Rightarrow> (('i, 'c, 'p) restore_ctx, unit) act" where
  "no_filesystem E message = act_bind (begin_asr E message) (\<lambda>_. restore_err NoFilesystemImage)"

lemma left_begin [keeps_intro]: "keeps (left_at_most k) (begin_asr E message)"
proof -
  have "keeps (left_at_most k) (\<lambda>s. case rx_filesystem s of
        None \<Rightarrow> (Err (Restore NoFilesystemImage), s)
      | Some img \<Rightarrow>
          (Ok \<lparr>as_dev = as_dev a, as_checksum_chunks = as_checksum_chunks a, as_image = img, as_feed = rx_feed s\<rparr>,
           s\<lparr>rx_filesystem := None\<rparr>))" for a :: "unit asr"
    by (rule left_same) (simp split: option.split)
  then show ?thesis unfolding begin_asr_def connect_data_port_def by (intro keeps_intro)
qed

definition dispatch_meanwhile :: "('i, 'c, 'p) restore_env \<Rightarrow> plist_dict \<Rightarrow> (('i, 'c, 'p) restore_ctx, unit) act" where
  "dispatch_meanwhile = dispatch_with no_filesystem"

lemma left_meanwhile [keeps_intro]: "keeps (left_at_most k) (dispatch_meanwhile E message)"
  unfolding dispatch_meanwhile_def no_filesystem_def restore_err_def by (intro keeps_intro)

definition msg_type :: "plist_dict \<Rightarrow> rstring" where
  "msg_type message = (case text_in (Some message) ''MsgType'' of Some t \<Rightarrow> t | None \<Rightarrow> [])"

definition is_data_request :: "plist_dict \<Rightarrow> bool" where
  "is_data_request message \<longleftrightarrow> msg_type message = rstr ''DataRequestMsg'' \<or> msg_type message = rstr ''AsyncDataRequestMsg''"

definition recv_control :: "('i, 'c, 'p) restore_env \<Rightarrow> (('i, 'c, 'p) restore_ctx, plist_dict) act" where
  "recv_control E = on_control (restored_recv (re_plist E))"

lemma recv_control_shorter:
  assumes "recv_control E s = (Ok message, t)"
  shows "control_pending t < control_pending s"
proof -
  obtain r d where r: "read_plist_value (re_plist E) (rd_dev (rx_restored s)) = (r, d)" by (rule prod.exhaust)
  with assms have "is_ok r" "control_pending t = dev_pending d"
    by (cases r; auto simp: recv_control_def on_control_def restored_recv_def on_restored_def act_bind_def control_pending_def)+
  with read_value_pending [OF r] show ?thesis by (simp add: control_pending_def)
qed

lemma left_recv [keeps_intro]: "keeps (left_at_most k) (recv_control E)"
  for E :: "('i, 'c, 'p) restore_env"
proof (rule keepsI)
  fix s :: "('i, 'c, 'p) restore_ctx" assume "left_at_most k s"
  moreover obtain r d where r: "read_plist_value (re_plist E) (rd_dev (rx_restored s)) = (r, d)" by (rule prod.exhaust)
  moreover have "control_pending (snd (recv_control E s)) = dev_pending d"
    using r by (cases r) (simp_all add: recv_control_def on_control_def restored_recv_def on_restored_def act_bind_def control_pending_def)
  ultimately show "left_at_most k (snd (recv_control E s))"
    using read_value_pending [OF r] by (simp add: left_at_most_def control_pending_def)
qed

definition pump_round :: "('i, 'c, 'p) restore_env \<Rightarrow> (('i, 'c, 'p) restore_ctx, unit) act" where
  "pump_round E =
    act_bind rx_check_cancel (\<lambda>_.
    act_bind (recv_control E) (\<lambda>message.
      if is_data_request message then dispatch_meanwhile E message else act_ok ()))"

lemma round_shorter:
  assumes "act_bind rx_check_cancel (\<lambda>_. act_bind (recv_control E) f) s = (Ok a, t)" and "\<And>m k. keeps (left_at_most k) (f m)"
  shows "control_pending t < control_pending s"
proof -
  from assms(1) obtain s1 message s2 where 1: "rx_check_cancel s = (Ok (), s1)" "recv_control E s1 = (Ok message, s2)" "f message s2 = (Ok a, t)"
    by (auto simp: act_bind_Ok)
  have "control_pending s1 \<le> control_pending s"
    using keepsD [OF left_on(9) [of "control_pending s"], of s] 1(1) by (simp add: left_at_most_def)
  moreover have "control_pending t \<le> control_pending s2"
    using keepsD [OF assms(2) [of "control_pending s2" message], of s2] 1(3) by (simp add: left_at_most_def)
  ultimately show ?thesis using recv_control_shorter [OF 1(2)] by simp
qed

lemma pump_round_shorter: "pump_round E s = (Ok a, t) \<Longrightarrow> control_pending t < control_pending s"
  unfolding pump_round_def by (erule round_shorter) (intro keeps_intro)

text \<open>The pump; its only results are errors.\<close>

function run_transfer_pump :: "('i, 'c, 'p) restore_env \<Rightarrow> (('i, 'c, 'p) restore_ctx, unit) act" where
  "run_transfer_pump E s =
    (case pump_round E s of
       (Ok _, t) \<Rightarrow> run_transfer_pump E t
     | (Err e, t) \<Rightarrow> (Err e, t)
     | (Panic, t) \<Rightarrow> (Panic, t))"
  by pat_completeness auto
termination run_transfer_pump
  by (relation "measure (\<lambda>(E, s). control_pending s)", simp, simp only: in_measure prod.case, metis pump_round_shorter)

declare run_transfer_pump.simps [simp del]

text \<open>
  The pump beside a transfer that ends when \<open>k\<close> pieces have arrived on the control connection: it has served what they hold, and
  is dropped where it waits for more, with what it had taken of an unfinished message. (A transfer that ends while the pump is
  busy with a request is not modelled; the end of the control connection counts as silence.)
\<close>

definition pump_until :: "nat \<Rightarrow> ('i, 'c, 'p) restore_env \<Rightarrow> (('i, 'c, 'p) restore_ctx, unit) act" where
  "pump_until k E s =
    (case dv_socket (rd_dev (rx_restored s)) of
       None \<Rightarrow> run_transfer_pump E s
     | Some t \<Rightarrow>
         let set_in = (\<lambda>bs s. s\<lparr>rx_restored := (rx_restored s)\<lparr>rd_dev := (rd_dev (rx_restored s))\<lparr>dv_socket :=
               map_option (\<lambda>u. u\<lparr>tp_in := bs (tp_in u)\<rparr>) (dv_socket (rd_dev (rx_restored s)))\<rparr>\<rparr>\<rparr>)
         in case run_transfer_pump E (set_in (take k) s) of
              (r, u) \<Rightarrow> (if r = Err eof then Ok () else r, set_in (\<lambda>bs. bs @ drop k (tp_in t)) u))"

definition next_race :: "(('i, 'c, 'p) restore_ctx, nat) act" where
  "next_race s = (case rx_races s of [] \<Rightarrow> (Ok 0, s) | k # ks \<Rightarrow> (Ok k, s\<lparr>rx_races := ks\<rparr>))"

text \<open>
  The two meet only in the feed: the events of the transfer come after the pump's here, and a cancellation reaches each by its
  own count of looks. When the pump fails, it ends both; how far the transfer had got then is not modelled.
\<close>

definition send_filesystem :: "('i, 'c, 'p) restore_env \<Rightarrow> plist_dict \<Rightarrow> (('i, 'c, 'p) restore_ctx, unit) act" where
  "send_filesystem E message =
    act_bind (begin_asr E message) (\<lambda>a.
    act_bind next_race (\<lambda>k.
    act_bind (pump_until k E) (\<lambda>_. \<lambda>s.
      case asr_send_filesystem (re_plist E) (re_sha1 E) (re_image E) (a\<lparr>as_feed := (as_feed a)\<lparr>fd_sink := fd_sink (rx_feed s)\<rparr>\<rparr>) of
        (r, b) \<Rightarrow>
          (r, s\<lparr>rx_feed := (rx_feed s)\<lparr>fd_sink := fd_sink (as_feed b)\<rparr>, rx_dropped := rx_dropped s @ [as_dev b]\<rparr>))))"

definition dispatch :: "('i, 'c, 'p) restore_env \<Rightarrow> plist_dict \<Rightarrow> (('i, 'c, 'p) restore_ctx, unit) act" where
  "dispatch = dispatch_with send_filesystem"

section \<open>The loop\<close>

definition handle_progress :: "plist_dict \<Rightarrow> (('i, 'c, 'p) restore_ctx, unit) act" where
  "handle_progress message =
    (case (Option.bind (dict_get message ''Operation'') plist_as_unsigned_integer,
        Option.bind (dict_get message ''Progress'') plist_as_unsigned_integer) of
       (Some op, Some progress) \<Rightarrow> rx_emit (Operation op progress)
     | _ \<Rightarrow> act_ok ())"

definition or_else :: "'a option \<Rightarrow> 'a option \<Rightarrow> 'a option" where
  "or_else a b = (case a of Some x \<Rightarrow> Some x | None \<Rightarrow> b)"

definition handle_bb_update_status :: "plist_dict \<Rightarrow> (('i, 'c, 'p) restore_ctx, unit) act" where
  "handle_bb_update_status message =
    (if flag_set message ''Accepted'' then act_ok ()
     else
       let detail = Option.bind (Option.bind (sub_dict message ''Error'')
             (\<lambda>e. or_else (dict_get e ''NSLocalizedDescription'') (dict_get e ''NSDescription''))) plist_as_string
       in restore_err (BasebandRejected (case detail of Some d \<Rightarrow> d | None \<Rightarrow> rstr ''device did not accept BasebandData'')))"

text \<open>The descriptions in a structured error, from the outside in\<close>

definition description_text :: "plist_value \<Rightarrow> rstring option" where
  "description_text v =
    or_else (Option.bind (Option.bind (plist_as_dictionary v) (\<lambda>c. dict_get c ''Content'')) plist_as_string) (plist_as_string v)"

fun error_descriptions :: "plist_value \<Rightarrow> rstring list"
  and entry_descriptions :: "plist_dict \<Rightarrow> rstring list"
  and item_descriptions :: "plist_value list \<Rightarrow> rstring list" where
  "error_descriptions (PDictionary d) = entry_descriptions d"
| "error_descriptions (PArray a) = item_descriptions a"
| "error_descriptions _ = []"
| "entry_descriptions [] = []"
| "entry_descriptions ((k, v) # d) =
    (if k = rstr ''NSDescription'' then (case description_text v of Some s \<Rightarrow> [trim_text s] | None \<Rightarrow> []) else []) @
    error_descriptions v @ entry_descriptions d"
| "item_descriptions [] = []"
| "item_descriptions (v # a) = error_descriptions v @ item_descriptions a"

fun join_with :: "rstring \<Rightarrow> rstring list \<Rightarrow> rstring" where
  "join_with sep [] = []"
| "join_with sep [x] = x"
| "join_with sep (x # y # ys) = x @ sep @ join_with sep (y # ys)"

definition collect_error_descriptions :: "plist_value \<Rightarrow> rstring option" where
  "collect_error_descriptions v =
    (let out = error_descriptions v in if out = [] then None else Some (join_with (rstr '' -> '') out))"

definition handle_status :: "('i, 'c, 'p) restore_env \<Rightarrow> plist_dict \<Rightarrow> (('i, 'c, 'p) restore_ctx, bool) act" where
  "handle_status E message =
    (let status = Option.bind (dict_get message ''Status'') plist_as_signed_integer;
         amr_error = Option.bind (dict_get message ''AMRError'') plist_as_signed_integer;
         failed = (case amr_error of Some e \<Rightarrow> e \<noteq> 0 | None \<Rightarrow> False)
     in if status = Some 0 \<and> \<not> failed
        then act_bind (send_control E (PDictionary [(rstr ''MsgType'', PString (rstr ''ReceivedFinalStatusMsg''))])) (\<lambda>_. act_ok True)
        else if dict_get message ''Error'' \<noteq> None \<or> failed
        then restore_err (DeviceReported (case amr_error of Some e \<Rightarrow> sint e | None \<Rightarrow> - 1)
          (case Option.bind (dict_get message ''Error'') collect_error_descriptions of Some d \<Rightarrow> d | None \<Rightarrow> rstr ''no description''))
        else act_ok False)"

text \<open>One message; \<open>True\<close> when the restore is finished\<close>

definition restore_message :: "('i, 'c, 'p) restore_env \<Rightarrow> plist_dict \<Rightarrow> (('i, 'c, 'p) restore_ctx, bool) act" where
  "restore_message E message =
    (if is_data_request message then act_bind (dispatch E message) (\<lambda>_. act_ok False)
     else if msg_type message = rstr ''ProgressMsg'' then act_bind (handle_progress message) (\<lambda>_. act_ok False)
     else if msg_type message = rstr ''StatusMsg'' then handle_status E message
     else if msg_type message = rstr ''BBUpdateStatusMsg'' then act_bind (handle_bb_update_status message) (\<lambda>_. act_ok False)
     else if msg_type message = rstr ''RestoredCrash'' then restore_err RestoredCrashed
     else if msg_type message = rstr ''RestoreAttestation''
       then act_bind (send_control E (PDictionary [(rstr ''RestoreShouldAttest'', PBoolean False)])) (\<lambda>_. act_ok False)
     else act_ok False)"

definition restore_round :: "('i, 'c, 'p) restore_env \<Rightarrow> (('i, 'c, 'p) restore_ctx, bool) act" where
  "restore_round E =
    act_bind rx_check_cancel (\<lambda>_. act_bind (recv_control E) (restore_message E))"

lemma left_pump: "left_at_most k s \<Longrightarrow> left_at_most k (snd (run_transfer_pump E s))"
proof (induction "control_pending s" arbitrary: s rule: less_induct)
  case less
  obtain r t where r: "pump_round E s = (r, t)" by (rule prod.exhaust)
  have "keeps (left_at_most k) (pump_round E)" unfolding pump_round_def by (intro keeps_intro)
  from keepsD [OF this less(2)] r have t: "left_at_most k t" by simp
  show ?case
  proof (cases r)
    case (Ok a)
    with less(1) [OF pump_round_shorter [OF r [unfolded Ok]] t] r show ?thesis by (subst run_transfer_pump.simps) simp
  qed (use r t in \<open>subst run_transfer_pump.simps, simp\<close>)+
qed

lemma left_pump_until [keeps_intro]: "keeps (left_at_most k) (pump_until n E)"
  for E :: "('i, 'c, 'p) restore_env"
proof (rule keepsI)
  fix s :: "('i, 'c, 'p) restore_ctx" assume s: "left_at_most k s"
  show "left_at_most k (snd (pump_until n E s))"
  proof (cases "dv_socket (rd_dev (rx_restored s))")
    case None
    with left_pump [OF s] show ?thesis by (simp add: pump_until_def)
  next
    case (Some t)
    define s' where "s' = s\<lparr>rx_restored := (rx_restored s)\<lparr>rd_dev := (rd_dev (rx_restored s))\<lparr>dv_socket := Some (t\<lparr>tp_in := take n (tp_in t)\<rparr>)\<rparr>\<rparr>\<rparr>"
    have l: "length (concat (take n (tp_in t))) + length (concat (drop n (tp_in t))) = length (concat (tp_in t))"
      by (metis append_take_drop_id concat_append length_append)
    obtain r u where r: "run_transfer_pump E s' = (r, u)" by (rule prod.exhaust)
    have "left_at_most (length (concat (take n (tp_in t)))) s'"
      by (simp add: s'_def left_at_most_def control_pending_def dev_pending_def tp_pending_def)
    from left_pump [OF this, of E] r have u: "control_pending u \<le> length (concat (take n (tp_in t)))" by (simp add: left_at_most_def)
    have "control_pending (snd (pump_until n E s)) \<le> control_pending u + length (concat (drop n (tp_in t)))"
      using Some r by (cases "dv_socket (rd_dev (rx_restored u))")
        (simp_all add: pump_until_def Let_def s'_def control_pending_def dev_pending_def tp_pending_def)
    with u l s Some show ?thesis by (simp add: left_at_most_def control_pending_def dev_pending_def tp_pending_def)
  qed
qed

lemma left_send_filesystem [keeps_intro]: "keeps (left_at_most k) (send_filesystem E message)"
proof -
  have "keeps (left_at_most k) next_race" by (rule left_same) (simp add: next_race_def split: list.split)
  moreover have "keeps (left_at_most k) (\<lambda>s.
      case asr_send_filesystem (re_plist E) (re_sha1 E) (re_image E) (a\<lparr>as_feed := (as_feed a)\<lparr>fd_sink := fd_sink (rx_feed s)\<rparr>\<rparr>) of
        (r, b) \<Rightarrow>
          (r, s\<lparr>rx_feed := (rx_feed s)\<lparr>fd_sink := fd_sink (as_feed b)\<rparr>, rx_dropped := rx_dropped s @ [as_dev b]\<rparr>))" for a
    by (rule left_same) (simp split: prod.split)
  ultimately show ?thesis unfolding send_filesystem_def by (intro keeps_intro)
qed

lemma left_message [keeps_intro]: "keeps (left_at_most k) (restore_message E message)"
  unfolding restore_message_def dispatch_def handle_progress_def handle_status_def handle_bb_update_status_def Let_def restore_err_def
  by (auto intro!: keeps_intro split: option.split)

lemma restore_round_shorter: "restore_round E s = (Ok a, t) \<Longrightarrow> control_pending t < control_pending s"
  unfolding restore_round_def by (erule round_shorter) (rule left_message)

function drive_restore :: "('i, 'c, 'p) restore_env \<Rightarrow> (('i, 'c, 'p) restore_ctx, unit) act" where
  "drive_restore E s =
    (case restore_round E s of
       (Ok finished, t) \<Rightarrow> if finished then (Ok (), t) else drive_restore E t
     | (Err e, t) \<Rightarrow> (Err e, t)
     | (Panic, t) \<Rightarrow> (Panic, t))"
  by pat_completeness auto
termination drive_restore
  by (relation "measure (\<lambda>(E, s). control_pending s)", simp, simp only: in_measure prod.case, metis restore_round_shorter)

declare drive_restore.simps [simp del]

text \<open>The result is the loop's; what becomes of the farewells is not looked at.\<close>

definition best_effort :: "(('i, 'c, 'p) restore_ctx, 'a) act \<Rightarrow> (('i, 'c, 'p) restore_ctx, unit) act" where
  "best_effort m s = (case m s of (Panic, t) \<Rightarrow> (Panic, t) | (_, t) \<Rightarrow> (Ok (), t))"

definition run_restore :: "('i, 'c, 'p) restore_env \<Rightarrow> plist_dict \<Rightarrow> (('i, 'c, 'p) restore_ctx, unit) act" where
  "run_restore E options =
    act_bind (on_control (start_restore_request (re_plist E) options)) (\<lambda>_ s.
      case drive_restore E s of
        (Panic, t) \<Rightarrow> (Panic, t)
      | (r, t) \<Rightarrow>
          act_bind (if r = Err (Restore Cancelled) then best_effort (on_control (restored_reboot (re_plist E))) else act_ok ()) (\<lambda>_.
          act_bind (best_effort (on_control (restored_goodbye (re_plist E)))) (\<lambda>_. act_res r)) t)"

end
