(* ===== verification/Restore_Facts.thy ===== *)
theory Restore_Facts
  imports Restore_Machine Asr_Runs
begin

text \<open>
  When a restore ends in success, what a cancellation does, what reaches the device of a boot object, and what a wait that is given up
  costs.
\<close>

section \<open>The end of a restore\<close>

inductive restore_steps :: "('i, 'c, 'p) restore_env \<Rightarrow> ('i, 'c, 'p) restore_ctx \<Rightarrow> ('i, 'c, 'p) restore_ctx \<Rightarrow> bool" for E where
  none: "restore_steps E s s"
| step: "restore_round E s = (Ok False, t) \<Longrightarrow> restore_steps E t u \<Longrightarrow> restore_steps E s u"

definition final_status :: "plist_dict \<Rightarrow> bool" where
  "final_status message \<longleftrightarrow>
    msg_type message = rstr ''StatusMsg'' \<and> Option.bind (dict_get message ''Status'') plist_as_signed_integer = Some 0 \<and>
    Option.bind (dict_get message ''AMRError'') plist_as_signed_integer \<in> {None, Some 0}"

definition received_final :: plist_value where
  "received_final = PDictionary [(rstr ''MsgType'', PString (rstr ''ReceivedFinalStatusMsg''))]"

lemma finishing_message:
  assumes "restore_message E message s = (Ok True, t)"
  shows "final_status message \<and> send_control E received_final s = (Ok (), t)"
proof -
  have m: "msg_type message = rstr ''StatusMsg''" "handle_status E message s = (Ok True, t)"
    using assms by (auto simp: restore_message_def act_bind_Ok restore_err_def split: if_splits)
  then show ?thesis
    by (auto simp: handle_status_def Let_def final_status_def received_final_def restore_err_def act_bind_Ok split: if_splits option.splits)
qed


text \<open>A cancellation is seen before the next message is read.\<close>

lemma cancelled_at_once: "fd_cancel (rx_feed s) = Some 0 \<Longrightarrow> drive_restore E s = (Err (Restore Cancelled), s)"
  by (subst drive_restore.simps)
    (simp add: restore_round_def rx_check_cancel_def on_feed_def check_cancel_def is_cancelled_def act_bind_def)

text \<open>While the image is transferred a crash, a failure or a final status changes nothing.\<close>

lemma pump_ignores:
  assumes "rx_check_cancel s = (Ok (), u)" and "recv_control E u = (Ok message, t)" and "\<not> is_data_request message"
  shows "run_transfer_pump E s = run_transfer_pump E t"
  using assms by (subst run_transfer_pump.simps) (simp add: pump_round_def)

section \<open>Giving up a wait\<close>

text \<open>
  When the time is up and the length of a message has arrived but not its body, the length is lost: the next reader takes the
  body for a length.
\<close>

lemma unfinished_message_is_lost:
  assumes "dv_socket d = Some t" and "tp_in t = [to_be_bytes (n :: u32), body]" and "0 < n"
  shows "\<exists>e. given_up 1 (recv_message pl) d = (None, e) \<and> (\<exists>u. dv_socket e = Some u \<and> tp_in u = [body])"
proof -
  define t' where "t' = t\<lparr>tp_in := [to_be_bytes n]\<rparr>"
  have four: "length (to_be_bytes n) = 4" by (simp add: to_be_bytes_def to_le_bytes_def)
  then have "to_be_bytes n \<noteq> []" by force
  then have "arrives (to_be_bytes n @ []) t'" by (auto simp: arrives_def tp_pending_def t'_def)
  from tp_read_exact_arrives [OF this] obtain u where
    u: "tp_read_exact 4 t' = (Ok (to_be_bytes n), u)" "arrives [] u" by (auto simp: four)
  from u(2) have i: "tp_in u = []" by (auto simp: arrives_def tp_pending_def) (metis list.set_intros(1) neq_Nil_conv)
  have n: "unat (from_be_bytes (to_be_bytes n) :: u32) \<noteq> 0" using assms(3) by (simp add: unat_eq_zero word_gt_0)
  then have e: "tp_read_exact (unat (from_be_bytes (to_be_bytes n) :: u32)) u = (Err eof, u)"
    using i by (subst tp_read_exact.simps) (simp add: tp_read_def)
  have "recv_message pl (d\<lparr>dv_socket := Some t'\<rparr>) = (Err eof, d\<lparr>dv_socket := Some u\<rparr>)"
    using u(1) e by (simp add: recv_message_def read_plist_value_def on_socket_def act_bind_def)
  with assms(1,2) i show ?thesis
    by (simp add: given_up_def t'_def)
qed

end
