(* ===== verification/Restore_Options.thy ===== *)
theory Restore_Options
  imports Restore_Base Device_Facts
begin

text \<open>
  The options a restore is started with (restore/options.rs), the access to the firmware archive (restore/ipsw.rs), whose zip reader is
  the parameter \<open>zip_reader\<close>, and the trust channel of restore/fdr.rs, served beside the restore.
\<close>

section \<open>Options\<close>

record install_options =
  in_auto_boot_delay :: u64
  in_flash_nor :: bool
  in_update_baseband :: bool
  in_personalized_during_preflight :: bool
  in_restore_boot_args :: "rstring option"
  in_baseband_nonce :: "byte list option"
  in_bb_updater_state :: "plist_dict option"
  in_tz0_required_capacity :: "u64 option"
  in_uuid :: rstring

definition ascii_upper :: "byte \<Rightarrow> byte" where
  "ascii_upper b = (if 0x61 \<le> b \<and> b \<le> 0x7A then b - 0x20 else b)"

definition install_options_default :: "rstring \<Rightarrow> install_options" where
  "install_options_default uuid =
    \<lparr>in_auto_boot_delay = 0, in_flash_nor = True, in_update_baseband = False, in_personalized_during_preflight = True,
     in_restore_boot_args = None, in_baseband_nonce = None, in_bb_updater_state = None, in_tz0_required_capacity = None,
     in_uuid = map ascii_upper uuid\<rparr>"

definition bool_table :: "(string \<times> bool) list \<Rightarrow> plist_dict" where
  "bool_table kbs = map (\<lambda>(k, b). (rstr k, PBoolean b)) kbs"

definition default_system_partition_padding :: plist_dict where
  "default_system_partition_padding =
    map (\<lambda>(k, i). (rstr k, PInteger i))
      [(''8'', 80), (''16'', 160), (''32'', 320), (''64'', 640), (''128'', 1280), (''256'', 1280), (''512'', 1280), (''768'', 1280), (''1024'', 1280)]"

definition supported_async_data_types :: plist_dict where
  "supported_async_data_types = bool_table
    [(''BasebandData'', False), (''RecoveryOSASRImage'', False), (''StreamedImageDecryptionKey'', False), (''SystemImageData'', False),
     (''URLAsset'', True)]"

definition SUPPORTED_DATA_TYPES :: "(string \<times> bool) list" where
  "SUPPORTED_DATA_TYPES = [
    (''BasebandBootData'', False), (''BasebandData'', False), (''BasebandStackData'', False),
    (''BasebandUpdaterOutputData'', False), (''BootabilityBundle'', False), (''BuildIdentityDict'', False),
    (''BuildIdentityDictV2'', False), (''DataType'', False), (''DiagData'', False), (''EANData'', False),
    (''FDRMemoryCommit'', False), (''FDRTrustData'', False), (''FUDData'', False), (''FileData'', False),
    (''FileDataDone'', False), (''FirmwareUpdaterData'', False), (''GrapeFWData'', False), (''HPMFWData'', False),
    (''HostSystemTime'', True), (''KernelCache'', False), (''NORData'', False), (''NitrogenFWData'', True),
    (''OpalFWData'', False), (''OverlayRootDataCount'', False), (''OverlayRootDataForKey'', True), (''PeppyFWData'', True),
    (''PersonalizedBootObjectV3'', False), (''PersonalizedData'', True), (''ProvisioningData'', False),
    (''RamdiskFWData'', True), (''RecoveryOSASRImage'', True), (''RecoveryOSAppleLogo'', True), (''RecoveryOSDeviceTree'', True),
    (''RecoveryOSFileAssetImage'', True), (''RecoveryOSIBEC'', True), (''RecoveryOSIBootFWFilesImages'', True),
    (''RecoveryOSImage'', True), (''RecoveryOSKernelCache'', True), (''RecoveryOSLocalPolicy'', True),
    (''RecoveryOSOverlayRootDataCount'', False), (''RecoveryOSRootTicketData'', True), (''RecoveryOSStaticTrustCache'', True),
    (''RecoveryOSVersionData'', True), (''RootData'', False), (''RootTicket'', False), (''S3EOverride'', False),
    (''SourceBootObjectV3'', False), (''SourceBootObjectV4'', False), (''SsoServiceTicket'', False),
    (''StockholmPostflight'', False), (''SystemImageCanonicalMetadata'', False), (''SystemImageData'', False),
    (''SystemImageRootHash'', False), (''USBCFWData'', False), (''USBCOverride'', False), (''FirmwareUpdaterPreflight'', True),
    (''ReceiptManifest'', True), (''FirmwareUpdaterDataV2'', False), (''RestoreLocalPolicy'', True),
    (''AuthInstallCACert'', True), (''OverlayRootDataForKeyIndex'', True), (''FirmwareUpdaterDataV3'', True),
    (''MessageUseStreamedImageFile'', True), (''UpdateVolumeOverlayRootDataCount'', True), (''URLAsset'', True)]"

definition SUPPORTED_MESSAGE_TYPES :: "(string \<times> bool) list" where
  "SUPPORTED_MESSAGE_TYPES = [
    (''BBUpdateStatusMsg'', False), (''CheckpointMsg'', True), (''CrashLog'', True), (''DataRequestMsg'', False),
    (''FDRSubmit'', True), (''MsgType'', False), (''PreviousRestoreLogMsg'', False), (''ProgressMsg'', False),
    (''ProvisioningAck'', False), (''ProvisioningInfo'', False), (''ProvisioningStatusMsg'', False),
    (''ReceivedFinalStatusMsg'', False), (''RestoredCrash'', True), (''StatusMsg'', False), (''AsyncDataRequestMsg'', True),
    (''AsyncWait'', True), (''RestoreAttestation'', True)]"

definition supported_data_types :: plist_dict where
  "supported_data_types = bool_table SUPPORTED_DATA_TYPES"

definition supported_message_types :: plist_dict where
  "supported_message_types = bool_table SUPPORTED_MESSAGE_TYPES"

definition chosen_entry :: "string \<Rightarrow> plist_value option \<Rightarrow> plist_dict" where
  "chosen_entry k v = (case v of Some x \<Rightarrow> [(rstr k, x)] | None \<Rightarrow> [])"

definition install_options_build :: "install_options \<Rightarrow> plist_dict" where
  "install_options_build s =
    [(rstr ''AutoBootDelay'', PInteger (sint (in_auto_boot_delay s))),
     (rstr ''BootImageType'', PString (rstr ''UserOrInternal'')),
     (rstr ''DFUFileType'', PString (rstr ''RELEASE'')),
     (rstr ''DataImage'', PBoolean False),
     (rstr ''FirmwareDirectory'', PString (rstr ''.'')),
     (rstr ''FlashNOR'', PBoolean (in_flash_nor s)),
     (rstr ''KernelCacheType'', PString (rstr ''Release'')),
     (rstr ''NORImageType'', PString (rstr ''production'')),
     (rstr ''RestoreBundlePath'', PString (rstr ''/tmp/Per2.tmp'')),
     (rstr ''SystemImageType'', PString (rstr ''User'')),
     (rstr ''UpdateBaseband'', PBoolean (in_update_baseband s)),
     (rstr ''HostHasFixFor99053849'', PBoolean True),
     (rstr ''SystemImageFormat'', PString (rstr ''AEAWrappedDiskImage'')),
     (rstr ''WaitForDeviceConnectionToFinishStateMachine'', PBoolean False),
     (rstr ''SupportedAsyncDataTypes'', PDictionary supported_async_data_types),
     (rstr ''PersonalizedDuringPreflight'', PBoolean (in_personalized_during_preflight s)),
     (rstr ''RootToInstall'', PBoolean False),
     (rstr ''UUID'', PString (in_uuid s)),
     (rstr ''CreateFilesystemPartitions'', PBoolean True),
     (rstr ''SystemImage'', PBoolean True),
     (rstr ''SystemPartitionPadding'', PDictionary default_system_partition_padding),
     (rstr ''SupportedDataTypes'', PDictionary supported_data_types),
     (rstr ''SupportedMessageTypes'', PDictionary supported_message_types)] @
    chosen_entry ''RestoreBootArgs'' (map_option PString (in_restore_boot_args s)) @
    chosen_entry ''BasebandNonce'' (map_option PData (in_baseband_nonce s)) @
    chosen_entry ''BBUpdaterState'' (map_option PDictionary (in_bb_updater_state s)) @
    chosen_entry ''TZ0RequiredCapacity'' (map_option (\<lambda>w. PInteger (sint w)) (in_tz0_required_capacity s))"

lemma supported_types_distinct:
  "distinct (map fst SUPPORTED_DATA_TYPES)" "distinct (map fst SUPPORTED_MESSAGE_TYPES)"
  by (simp_all add: SUPPORTED_DATA_TYPES_def SUPPORTED_MESSAGE_TYPES_def)

section \<open>The archive\<close>

text \<open>
  The names of the entries (\<open>None\<close>: not UTF-8), the opening of an entry, and one read of an opened entry of at most the given length:
  no bytes at its end. Texts of the library's errors are left out.
\<close>

record ('z, 'r) zip_reader =
  zp_names :: "'z \<Rightarrow> rstring option list"
  zp_open :: "nat \<Rightarrow> 'z \<Rightarrow> 'r option"
  zp_read :: "nat \<Rightarrow> 'r \<Rightarrow> byte list option \<times> 'r"
  zp_read_to_end :: "'r \<Rightarrow> byte list option"

definition ipsw_err :: "string \<Rightarrow> idevice_error" where
  "ipsw_err m = Restore (Ipsw m)"

fun position_of :: "('a \<Rightarrow> bool) \<Rightarrow> 'a list \<Rightarrow> nat option" where
  "position_of P [] = None"
| "position_of P (x # xs) = (if P x then Some 0 else map_option Suc (position_of P xs))"

definition entry_index :: "('z, 'r) zip_reader \<Rightarrow> rstring \<Rightarrow> 'z \<Rightarrow> nat option" where
  "entry_index Z path z = position_of (\<lambda>n. n = Some path) (zp_names Z z)"

definition open_entry_reader :: "('z, 'r) zip_reader \<Rightarrow> rstring \<Rightarrow> 'z \<Rightarrow> ('r, idevice_error) res" where
  "open_entry_reader Z path z =
    rbind (ok_or (ipsw_err ''entry not found in IPSW'') (entry_index Z path z)) (\<lambda>idx.
    ok_or (ipsw_err ''failed to open entry'') (zp_open Z idx z))"

definition read_file :: "('z, 'r) zip_reader \<Rightarrow> rstring \<Rightarrow> 'z \<Rightarrow> (byte list, idevice_error) res" where
  "read_file Z path z =
    rbind (open_entry_reader Z path z) (\<lambda>r. ok_or (ipsw_err ''failed to read entry'') (zp_read_to_end Z r))"

definition entry_read :: "('z, 'r) zip_reader \<Rightarrow> nat \<Rightarrow> 'r \<Rightarrow> (byte list, idevice_error) res \<times> 'r" where
  "entry_read Z n r = (case zp_read Z n r of (b, r') \<Rightarrow> (ok_or (ipsw_err ''read archive entry'') b, r'))"

definition build_manifest :: "plist_lib \<Rightarrow> ('z, 'r) zip_reader \<Rightarrow> 'z \<Rightarrow> (plist_dict, idevice_error) res" where
  "build_manifest pl Z z =
    rbind (read_file Z (rstr ''BuildManifest.plist'') z) (\<lambda>bytes.
    rbind (pl_from_bytes pl bytes) (\<lambda>v.
    ok_or (ipsw_err ''BuildManifest.plist is not a dictionary'') (plist_as_dictionary v)))"

definition read_component :: "('z, 'r) zip_reader \<Rightarrow> plist_dict \<Rightarrow> rstring \<Rightarrow> 'z \<Rightarrow> (byte list, idevice_error) res" where
  "read_component Z build_identity component z =
    rbind (component_path build_identity component) (\<lambda>path. read_file Z path z)"

text \<open>
  \<open>extract_to_writer\<close> into a writer whose writes may fail (\<open>write\<close>), piece by piece. An entry of any length ends: \<open>fuel\<close> bounds the
  number of reads, \<open>None\<close> stands for more of them.
\<close>

fun extract_loop :: "('z, 'r) zip_reader \<Rightarrow> (byte list \<Rightarrow> ('w, unit) act) \<Rightarrow> nat \<Rightarrow> 'r \<Rightarrow> 'w \<Rightarrow> ((unit, idevice_error) res \<times> 'w) option" where
  "extract_loop Z write 0 r w = None"
| "extract_loop Z write (Suc fuel) r w =
    (case zp_read Z (2 ^ 20) r of
       (None, _) \<Rightarrow> Some (Err (ipsw_err ''read''), w)
     | (Some b, r') \<Rightarrow>
         if b = [] then Some (Ok (), w)
         else (case write b w of
                 (Ok _, w') \<Rightarrow> extract_loop Z write fuel r' w'
               | (Err e, w') \<Rightarrow> Some (Err e, w')
               | (Panic, w') \<Rightarrow> Some (Panic, w')))"

definition extract_to_writer ::
  "('z, 'r) zip_reader \<Rightarrow> (byte list \<Rightarrow> ('w, unit) act) \<Rightarrow> ('w, unit) act \<Rightarrow> nat \<Rightarrow> rstring \<Rightarrow> 'z \<Rightarrow> 'w \<Rightarrow>
    ((unit, idevice_error) res \<times> 'w) option" where
  "extract_to_writer Z write flush_writer fuel path z w =
    (case open_entry_reader Z path z of
       Ok r \<Rightarrow> (case extract_loop Z write fuel r w of
                 Some (Ok _, w') \<Rightarrow> Some (flush_writer w')
               | x \<Rightarrow> x)
     | Err e \<Rightarrow> Some (Err e, w)
     | Panic \<Rightarrow> Some (Panic, w))"

lemma position_of_Some: "position_of P xs = Some i \<Longrightarrow> i < length xs \<and> P (xs ! i) \<and> list_all (\<lambda>x. \<not> P x) (take i xs)"
  by (induction xs arbitrary: i) (auto split: if_splits)

text \<open>The first entry of the name is the one opened.\<close>

lemma entry_index_first:
  "entry_index Z path z = Some i \<Longrightarrow>
    zp_names Z z ! i = Some path \<and> list_all (\<lambda>n. n \<noteq> Some path) (take i (zp_names Z z))"
  by (auto simp: entry_index_def dest: position_of_Some)

text \<open>An entry that is handed out in the pieces \<open>ps\<close> and then ends arrives whole in a writer that accumulates.\<close>

fun hands_out :: "('z, 'r) zip_reader \<Rightarrow> byte list list \<Rightarrow> 'r \<Rightarrow> bool" where
  "hands_out Z [] r \<longleftrightarrow> fst (zp_read Z (2 ^ 20) r) = Some []"
| "hands_out Z (p # ps) r \<longleftrightarrow> p \<noteq> [] \<and> fst (zp_read Z (2 ^ 20) r) = Some p \<and> hands_out Z ps (snd (zp_read Z (2 ^ 20) r))"

lemma extract_arrives:
  assumes "hands_out Z ps r" and "length ps < fuel"
  shows "extract_loop Z (\<lambda>b w. (Ok (), w @ b)) fuel r w = Some (Ok (), w @ concat ps)"
  using assms
proof (induction ps arbitrary: r w fuel)
  case Nil
  then show ?case by (cases fuel) (auto split: prod.split)
next
  case (Cons p ps)
  then obtain k where k: "fuel = Suc k" "length ps < k" by (cases fuel) auto
  obtain r' where r: "zp_read Z (2 ^ 20) r = (Some p, r')" using Cons.prems(1) by (cases "zp_read Z (2 ^ 20) r") auto
  with Cons.prems(1) have "hands_out Z ps r'" "p \<noteq> []" by auto
  with Cons.IH [OF this(1) k(2)] r k(1) show ?case by simp
qed

section \<open>The trust channel\<close>

definition FDR_CTRL_PORT :: u16 where "FDR_CTRL_PORT = 0x43A"
definition CTRL_CMD :: "byte list" where "CTRL_CMD = rstr ''BeginCtrl'' @ [0]"
definition HELLO_CMD :: "byte list" where "HELLO_CMD = rstr ''HelloConn'' @ [0]"
definition CTRL_PROTO_VERSION :: int where "CTRL_PROTO_VERSION = 2"
definition FDR_SYNC_MSG :: u16 where "FDR_SYNC_MSG = 0x1"
definition FDR_PROXY_MSG :: u16 where "FDR_PROXY_MSG = 0x105"
definition FDR_PLIST_MSG :: u16 where "FDR_PLIST_MSG = 0xBBAA"
definition FDR_CHUNK_SIZE :: u32 where "FDR_CHUNK_SIZE = 2 ^ 20"

definition fdr_recv_plist :: "plist_lib \<Rightarrow> (idevice, plist_dict) act" where
  "fdr_recv_plist pl =
    act_bind (read_raw 4) (\<lambda>len.
    act_bind (read_raw (unat (from_le_bytes len :: u32))) (\<lambda>body.
    act_res (rbind (pl_from_bytes pl body) (pl_to_dict pl))))"

definition fdr_send_plist :: "plist_lib \<Rightarrow> plist_value \<Rightarrow> (idevice, unit) act" where
  "fdr_send_plist pl v =
    act_bind (act_res (pl_to_binary pl v)) (\<lambda>body.
    act_bind (send_raw (to_le_bytes (of_nat (length body) :: u32))) (\<lambda>_. send_raw body))"

definition fdr_send_recv_plist :: "plist_lib \<Rightarrow> plist_value \<Rightarrow> (idevice, plist_dict) act" where
  "fdr_send_recv_plist pl v = act_bind (fdr_send_plist pl v) (\<lambda>_. fdr_recv_plist pl)"

definition ctrl_handshake :: "plist_lib \<Rightarrow> (idevice, u16) act" where
  "ctrl_handshake pl =
    act_bind (send_raw CTRL_CMD) (\<lambda>_.
    act_bind (fdr_send_recv_plist pl (PDictionary
      [(rstr ''Command'', PData CTRL_CMD), (rstr ''CtrlProtoVersion'', PInteger CTRL_PROTO_VERSION)])) (\<lambda>resp.
    act_res (ok_or (UnexpectedResponse ''FDR ctrl reply missing ConnPort'')
      (map_option ucast (Option.bind (dict_get resp ''ConnPort'') plist_as_unsigned_integer)))))"

definition sync_handshake :: "plist_lib \<Rightarrow> (idevice, unit) act" where
  "sync_handshake pl =
    act_bind (send_raw HELLO_CMD) (\<lambda>_.
    act_bind (fdr_recv_plist pl) (\<lambda>reply.
    if Option.bind (dict_get reply ''Command'') plist_as_string = Some (rstr ''HelloConn'') then act_ok ()
    else act_err (UnexpectedResponse ''expected HelloConn'')))"

definition read_message_tag :: "(idevice, u16) act" where
  "read_message_tag = act_bind (read_raw 2) (\<lambda>b. act_ok (from_le_bytes b))"

definition fdr_handle_plist :: "plist_lib \<Rightarrow> (idevice, unit) act" where
  "fdr_handle_plist pl =
    act_bind (fdr_recv_plist pl) (\<lambda>d.
    if Option.bind (dict_get d ''Command'') plist_as_string = Some (rstr ''Ping'')
    then act_bind (fdr_send_recv_plist pl (PDictionary [(rstr ''Pong'', PBoolean True)])) (\<lambda>_. act_ok ())
    else act_ok ())"

text \<open>The host and port a proxy request names; the port is read from the end of what arrived.\<close>

definition proxy_target :: "byte list \<Rightarrow> (rstring \<times> u16) option" where
  "proxy_target buf =
    (if length buf < 3 then None
     else if buf ! 0 \<noteq> 0 \<or> buf ! 1 \<noteq> 3 then None
     else if length buf < 3 + unat (buf ! 2) + 2 then None
     else Some (utf8_lossy (take (unat (buf ! 2)) (drop 3 buf)), from_be_bytes (drop (length buf - 2) buf)))"

text \<open>\<open>bridge\<close> connects to the host and copies in both directions until one ends.\<close>

definition handle_proxy :: "(rstring \<Rightarrow> u16 \<Rightarrow> (idevice, unit) act) \<Rightarrow> (idevice, unit) act" where
  "handle_proxy bridge =
    act_bind (dv_read_any FDR_CHUNK_SIZE) (\<lambda>buf.
    act_bind (send_raw (to_le_bytes (5 :: u16))) (\<lambda>_.
    if length buf < 3 then act_ok ()
    else act_bind (send_raw buf) (\<lambda>_.
      case proxy_target buf of None \<Rightarrow> act_ok () | Some (host, port) \<Rightarrow> bridge host port)))"

datatype fdr_next = Again | Spawn | Finished

definition fdr_round :: "plist_lib \<Rightarrow> (rstring \<Rightarrow> u16 \<Rightarrow> (idevice, unit) act) \<Rightarrow> (idevice, fdr_next) act" where
  "fdr_round pl bridge =
    act_bind read_message_tag (\<lambda>tag.
    if tag = FDR_SYNC_MSG then act_bind (read_raw 2) (\<lambda>_. act_ok Spawn)
    else if tag = FDR_PROXY_MSG then act_bind (handle_proxy bridge) (\<lambda>_. act_ok Finished)
    else if tag = FDR_PLIST_MSG then act_bind (fdr_handle_plist pl) (\<lambda>_. act_ok Again)
    else act_ok Again)"

lemma fdr_plist_keeps: "keeps (\<lambda>d. dev_pending d \<le> k) (fdr_handle_plist pl)"
proof -
  have "keeps (\<lambda>d. dev_pending d \<le> k) (read_raw n)" for n
    by (rule keepsI) (metis read_raw_dev order.trans prod.collapse)
  moreover have "keeps (\<lambda>d. dev_pending d \<le> k) (send_raw bs)" for bs
    by (rule keepsI) (metis send_raw_dev order.refl order.trans prod.collapse)
  ultimately show ?thesis
    unfolding fdr_handle_plist_def fdr_send_recv_plist_def fdr_send_plist_def fdr_recv_plist_def by (auto intro!: keeps_intro)
qed

lemma fdr_round_shorter:
  assumes "fdr_round pl bridge d = (Ok k, e)" and "k \<noteq> Finished"
  shows "dev_pending e < dev_pending d"
proof -
  from assms(1) obtain b u where r: "read_raw 2 d = (Ok b, u)" by (auto simp: fdr_round_def read_message_tag_def act_bind_Ok)
  then have less: "dev_pending u < dev_pending d" using read_raw_shorter by fastforce
  from assms r have "e = u \<or> (\<exists>b. read_raw 2 u = (Ok b, e)) \<or> (\<exists>x. fdr_handle_plist pl u = (Ok x, e))"
    by (auto simp: fdr_round_def read_message_tag_def act_bind_Ok split: if_splits)
  then show ?thesis
  proof (elim disjE exE)
    fix b assume "read_raw 2 u = (Ok b, e)"
    from read_raw_dev [OF this] less show ?thesis by simp
  next
    fix x assume "fdr_handle_plist pl u = (Ok x, e)"
    with keepsD [OF fdr_plist_keeps, of u "dev_pending u" pl] less show ?thesis by simp
  qed (use less in simp)
qed

text \<open>
  The rounds of \<open>run_fdr_listener\<close>; the number counts the listeners it has spawned, each of which connects to the same port, shakes
  hands and runs the same rounds (\<open>fdr_conn\<close>).
\<close>

function run_fdr_listener ::
  "plist_lib \<Rightarrow> (rstring \<Rightarrow> u16 \<Rightarrow> (idevice, unit) act) \<Rightarrow> nat \<Rightarrow> idevice \<Rightarrow> ((unit, idevice_error) res \<times> idevice) \<times> nat" where
  "run_fdr_listener pl bridge spawned d =
    (case fdr_round pl bridge d of
       (Ok k, e) \<Rightarrow>
         if k = Finished then ((Ok (), e), spawned)
         else run_fdr_listener pl bridge (if k = Spawn then Suc spawned else spawned) e
     | (Err x, e) \<Rightarrow> ((Err x, e), spawned)
     | (Panic, e) \<Rightarrow> ((Panic, e), spawned))"
  by pat_completeness auto
termination run_fdr_listener
  by (relation "measure (\<lambda>(pl, bridge, spawned, d). dev_pending d)", simp, simp only: in_measure prod.case, metis fdr_round_shorter)

declare run_fdr_listener.simps [simp del]

definition fdr_conn ::
  "plist_lib \<Rightarrow> (rstring \<Rightarrow> u16 \<Rightarrow> (idevice, unit) act) \<Rightarrow> (idevice, idevice_error) res \<Rightarrow> (idevice \<times> nat) option" where
  "fdr_conn pl bridge connected =
    (case connected of
       Ok d \<Rightarrow>
         (case sync_handshake pl d of
            (Ok _, e) \<Rightarrow> (case run_fdr_listener pl bridge 0 e of ((_, t), n) \<Rightarrow> Some (t, n))
          | (_, e) \<Rightarrow> Some (e, 0))
     | _ \<Rightarrow> None)"

text \<open>A request that arrives whole and alone names its host and port.\<close>

lemma proxy_target_of_request:
  assumes "length host < 256" and "utf8_lossy host = host"
  shows "proxy_target (0 # 3 # of_nat (length host) # host @ to_be_bytes (port :: u16)) = Some (host, port)"
proof -
  have "length (to_be_bytes port) = 2" by (simp add: to_be_bytes_def to_le_bytes_def)
  moreover have "unat (of_nat (length host) :: byte) = length host" using assms(1) by (simp add: unat_of_nat)
  ultimately show ?thesis using assms by (simp add: proxy_target_def)
qed

text \<open>Bytes after the port take its place.\<close>

lemma proxy_target_of_trailing:
  "proxy_target [0, 3, 1, 0x61, 0x01, 0xBB, 0x00, 0x16] = Some ([0x61], 0x16)"
  by (simp add: proxy_target_def utf8_lossy_valid_id from_be_bytes_def from_le_bytes_def) code_simp

end
