(* ===== verification/Spec2Isabelle.thy ===== *)
theory Spec2Isabelle
  imports Prelude Utf8 Texts Codec Errors Plist Transport Float_Bits Xpc_Format Http2_Frame Http2_Client
    Opack Tlv8 Raw_Packet Cd_Tunnel Mbn Dtx_Message Device Session Afc Afc_File Rtp Hevc Protobuf Negotiation Pairing_File Lockdown Streams Usbmuxd Debug_Proxy Pcapd Bt_Logger Os_Trace Remote_Server Remote_Runs
    Http_Client Xpc_Client Xpc_Runs Rsd Tss Img4 Img4_Facts Byte_Cursor Hid_Reports Hid_Keyboard Float_Round Hid_Events Hid_Runs Lockdown_Services Install_Clients
    F64 Backup_Store Backup_Client Backup_Loop Backup_Facts Backup_Runs Core_Device Core_Services File_Service Pasteboard Remote_Pairing Pairing_Client Pairing_Host Tls_Psk Tls_Runs Device_Facts
    Recovery_Mode Recovery_Runs Restore_Base Asr Asr_Runs Restore_Data Restore_Objects Restore_Machine Restore_Facts Restore_Options
begin

text \<open>
  A verification library for XitForge-Tunnel/native/idevice, the Rust library that talks to iOS
  devices.
\<close>

end
